(* ===== verification/Prelude.thy ===== *)
theory Prelude
  imports Main "HOL-Library.Word" "HOL-Library.Multiset"
begin

text \<open>
  Shared vocabulary of the development: the Rust machine integers and the
  \<^verbatim>\<open>std::time::Duration\<close> operations the gateway uses, the \<^verbatim>\<open>Result\<close> type,
  \<^verbatim>\<open>slice::sort_by\<close> and \<^verbatim>\<open>Iterator::min_by\<close> over an explicit comparator, and the
  generic lemmas on them. Release builds of the gateway do not enable
  \<^verbatim>\<open>overflow-checks\<close>, so plain \<open>+\<close>, \<open>-\<close>, \<open>*\<close> on machine integers wrap, as they do
  on \<^typ>\<open>'n word\<close>; the saturating and checked variants are spelled out.
\<close>

named_theorems frame_simps \<open>fields an operation leaves unchanged\<close>
named_theorems bucket_simps \<open>what refilling leaves of a token bucket\<close>

type_synonym u8 = "8 word"
type_synonym u16 = "16 word"
type_synonym u32 = "32 word"
type_synonym u64 = "64 word"
type_synonym u128 = "128 word"

subsection \<open>Results\<close>

text \<open>\<^verbatim>\<open>Result<T, E>\<close>: \<open>Inl\<close> is \<^verbatim>\<open>Err\<close>, \<open>Inr\<close> is \<^verbatim>\<open>Ok\<close>.\<close>

type_synonym ('e, 'a) result = "'e + 'a"

abbreviation is_ok :: "('e, 'a) result \<Rightarrow> bool" where
  "is_ok r \<equiv> \<not> isl r"

subsection \<open>Durations\<close>

text \<open>
  A \<^verbatim>\<open>Duration\<close> is a number of nanoseconds; the representation (u64 seconds and u32
  nanoseconds) bounds it by \<open>DURATION_MAX\<close>, where the saturating operations stop.
\<close>

type_synonym duration = nat

definition DURATION_MAX :: duration where
  "DURATION_MAX = 2 ^ 64 * 1000000000 - 1"

definition from_secs :: "nat \<Rightarrow> duration" where
  "from_secs s = s * 1000000000"

definition from_mins :: "nat \<Rightarrow> duration" where
  "from_mins m = from_secs (60 * m)"

definition from_hours :: "nat \<Rightarrow> duration" where
  "from_hours h = from_mins (60 * h)"

definition dur_saturating_add :: "duration \<Rightarrow> duration \<Rightarrow> duration" where
  "dur_saturating_add a b = min (a + b) DURATION_MAX"

definition dur_saturating_sub :: "duration \<Rightarrow> duration \<Rightarrow> duration" where
  "dur_saturating_sub a b = a - b"

lemma dur_saturating_add_le: "a \<le> DURATION_MAX \<Longrightarrow> a \<le> dur_saturating_add a b"
  by (simp add: dur_saturating_add_def)

lemma dur_saturating_sub_self [simp]: "dur_saturating_sub a a = 0"
  by (simp add: dur_saturating_sub_def)

subsection \<open>Saturating and checked word arithmetic\<close>

definition saturating_add :: "'a::len word \<Rightarrow> 'a word \<Rightarrow> 'a word" where
  "saturating_add a b = (if unat a + unat b < 2 ^ LENGTH('a) then a + b else - 1)"

definition saturating_sub :: "'a::len word \<Rightarrow> 'a word \<Rightarrow> 'a word" where
  "saturating_sub a b = (if b \<le> a then a - b else 0)"

definition checked_add :: "'a::len word \<Rightarrow> 'a word \<Rightarrow> 'a word option" where
  "checked_add a b = (if unat a + unat b < 2 ^ LENGTH('a) then Some (a + b) else None)"

definition checked_sub :: "'a::len word \<Rightarrow> 'a word \<Rightarrow> 'a word option" where
  "checked_sub a b = (if b \<le> a then Some (a - b) else None)"

text \<open>\<^verbatim>\<open>isize\<close> is a mathematical integer kept between the 64-bit bounds.\<close>

definition ISIZE_MAX :: int where
  "ISIZE_MAX = 2 ^ 63 - 1"

definition isize_saturating_add :: "int \<Rightarrow> int \<Rightarrow> int" where
  "isize_saturating_add a b = max (- ISIZE_MAX - 1) (min (a + b) ISIZE_MAX)"

text \<open>\<^verbatim>\<open>usize::try_from(u32).unwrap_or(usize::MAX)\<close> never takes the default on a 64-bit target.\<close>

definition USIZE_MAX :: nat where
  "USIZE_MAX = 2 ^ 64 - 1"

definition usize_saturating_mul :: "nat \<Rightarrow> nat \<Rightarrow> nat" where
  "usize_saturating_mul a b = min (a * b) USIZE_MAX"

lemma unat_saturating_add:
  "unat (saturating_add a (b :: 'a::len word)) = min (unat a + unat b) (2 ^ LENGTH('a) - 1)"
proof (cases "unat a + unat b < 2 ^ LENGTH('a)")
  case True
  then have "unat (a + b) = unat a + unat b"
    by (simp add: unat_word_ariths)
  with True show ?thesis
    by (simp add: saturating_add_def)
next
  case False
  then have "min (unat a + unat b) (2 ^ LENGTH('a) - 1) = 2 ^ LENGTH('a) - 1"
    by linarith
  with False show ?thesis
    by (simp add: saturating_add_def unsigned_minus_1_eq_mask mask_eq_exp_minus_1)
qed

lemma unat_saturating_sub: "unat (saturating_sub a b) = unat a - unat b"
  by (auto simp: saturating_sub_def unat_sub word_le_nat_alt)

lemma unat_add_1_less:
  assumes "(x :: 'a::len word) < y"
  shows "unat (saturating_add x 1) = Suc (unat x)"
proof -
  have "unat x < unat y" and "unat y < 2 ^ LENGTH('a)"
    using assms by (simp_all add: word_less_nat_alt)
  then have "unat x + 1 < 2 ^ LENGTH('a)"
    by linarith
  then show ?thesis
    by (simp add: unat_saturating_add min_def)
qed

lemma checked_sub_1_eq_None [simp]: "checked_sub x (1 :: 'a::len word) = None \<longleftrightarrow> x = 0"
  by (auto simp: checked_sub_def word_le_nat_alt not_le unat_eq_0)

lemma unat_checked_sub:
  "checked_sub a b = Some c \<Longrightarrow> unat a = unat c + unat b"
  by (auto simp: checked_sub_def unat_sub word_le_nat_alt split: if_splits)

lemma unat_checked_add:
  "checked_add a b = Some (c :: 'a::len word) \<Longrightarrow> unat c = unat a + unat b"
  by (auto simp: checked_add_def unat_word_ariths split: if_splits)

lemma unat_plus_exact:
  "unat a + unat (b :: 'a::len word) < 2 ^ LENGTH('a) \<Longrightarrow> unat (a + b) = unat a + unat b"
  by (simp add: unat_word_ariths)

lemma unat_u32_less: "unat (n :: u32) < 4294967296"
  using unsigned_less [of n, where ?'a = nat] by simp

lemma unat_u128_less: "unat (n :: u128) < 340282366920938463463374607431768211456"
  using unsigned_less [of n, where ?'a = nat] by simp

subsection \<open>Options\<close>

abbreviation is_some_and :: "'a option \<Rightarrow> ('a \<Rightarrow> bool) \<Rightarrow> bool" where
  "is_some_and x P \<equiv> (case x of None \<Rightarrow> False | Some v \<Rightarrow> P v)"

abbreviation is_none_or :: "'a option \<Rightarrow> ('a \<Rightarrow> bool) \<Rightarrow> bool" where
  "is_none_or x P \<equiv> (case x of None \<Rightarrow> True | Some v \<Rightarrow> P v)"

abbreviation unwrap_or :: "'a option \<Rightarrow> 'a \<Rightarrow> 'a" where
  "unwrap_or x d \<equiv> (case x of None \<Rightarrow> d | Some v \<Rightarrow> v)"

text \<open>The running minimum of the optional values seen by a loop.\<close>

definition min_option :: "'a::linorder option \<Rightarrow> 'a \<Rightarrow> 'a option" where
  "min_option known x = Some (case known of None \<Rightarrow> x | Some k \<Rightarrow> min k x)"

subsection \<open>Invariants of reachable states\<close>

text \<open>A transition system with an invariant: what holds initially and is kept by every step holds in every
  reachable state.\<close>

locale invariant_system =
  fixes init :: "'s \<Rightarrow> bool" and step :: "'s \<Rightarrow> 's \<Rightarrow> bool" and inv :: "'s \<Rightarrow> bool"
  assumes init_inv: "init s \<Longrightarrow> inv s"
    and step_inv: "inv s \<Longrightarrow> step s t \<Longrightarrow> inv t"
begin

lemma run_inv: "step\<^sup>*\<^sup>* s t \<Longrightarrow> inv s \<Longrightarrow> inv t"
  by (induction rule: rtranclp_induct) (blast intro: step_inv)+

lemma reachable_inv: "\<exists>s. init s \<and> step\<^sup>*\<^sup>* s t \<Longrightarrow> inv t"
  using init_inv run_inv by blast

end

end
