(* ===== verification/Ordered_Map.thy ===== *)
theory Ordered_Map
  imports Prelude
begin

text \<open>
  \<^verbatim>\<open>BTreeMap\<close> and the comparator-driven list operations of the Rust standard library.
  A map is the association list of its entries in key order: that is the order in which
  the gateway iterates it. \<open>bt_get\<close> is \<^verbatim>\<open>get\<close>, \<open>bt_insert\<close> is \<^verbatim>\<open>insert\<close>, \<open>bt_remove\<close>
  is \<^verbatim>\<open>remove\<close>, \<open>bt_modify\<close> is an update through \<^verbatim>\<open>get_mut\<close> and \<open>bt_retain\<close> is
  \<^verbatim>\<open>retain\<close>. The lookup laws hold for every list; \<open>bt_wf\<close> (strictly increasing keys) is
  what counting entries needs.
\<close>

type_synonym ('k, 'v) btree = "('k \<times> 'v) list"

abbreviation bt_get :: "('k, 'v) btree \<Rightarrow> 'k \<Rightarrow> 'v option" where
  "bt_get m k \<equiv> map_of m k"

abbreviation bt_contains :: "('k, 'v) btree \<Rightarrow> 'k \<Rightarrow> bool" where
  "bt_contains m k \<equiv> (case map_of m k of None \<Rightarrow> False | Some _ \<Rightarrow> True)"

fun bt_insert :: "'k::linorder \<Rightarrow> 'v \<Rightarrow> ('k, 'v) btree \<Rightarrow> ('k, 'v) btree" where
  "bt_insert k v [] = [(k, v)]"
| "bt_insert k v ((a, b) # m) =
     (if k < a then (k, v) # (a, b) # m
      else if k = a then (k, v) # m
      else (a, b) # bt_insert k v m)"

definition bt_remove :: "'k \<Rightarrow> ('k, 'v) btree \<Rightarrow> ('k, 'v) btree" where
  "bt_remove k m = filter (\<lambda>p. fst p \<noteq> k) m"

fun bt_modify :: "'k \<Rightarrow> ('v \<Rightarrow> 'v) \<Rightarrow> ('k, 'v) btree \<Rightarrow> ('k, 'v) btree" where
  "bt_modify k f [] = []"
| "bt_modify k f ((a, b) # m) = (if k = a then (a, f b) # m else (a, b) # bt_modify k f m)"

definition bt_retain :: "('k \<Rightarrow> 'v \<Rightarrow> bool) \<Rightarrow> ('k, 'v) btree \<Rightarrow> ('k, 'v) btree" where
  "bt_retain P m = filter (\<lambda>(k, v). P k v) m"

definition bt_map :: "('k \<Rightarrow> 'v \<Rightarrow> 'w) \<Rightarrow> ('k, 'v) btree \<Rightarrow> ('k, 'w) btree" where
  "bt_map f m = map (\<lambda>(k, v). (k, f k v)) m"

definition bt_wf :: "('k::linorder, 'v) btree \<Rightarrow> bool" where
  "bt_wf m \<longleftrightarrow> sorted_wrt (<) (map fst m)"

definition bt_count :: "('k \<Rightarrow> 'v \<Rightarrow> bool) \<Rightarrow> ('k, 'v) btree \<Rightarrow> nat" where
  "bt_count P m = length (filter (\<lambda>(k, v). P k v) m)"

subsection \<open>Lookup laws\<close>

lemma bt_get_insert [simp]: "bt_get (bt_insert k v m) = (map_of m)(k \<mapsto> v)"
  by (induction m) (auto simp: fun_eq_iff)

lemma bt_get_remove [simp]: "bt_get (bt_remove k m) = (map_of m)(k := None)"
  by (induction m) (auto simp: bt_remove_def fun_eq_iff)

lemma bt_get_modify [simp]:
  "bt_get (bt_modify k f m) = (map_of m)(k := map_option f (map_of m k))"
  by (induction m) (auto simp: fun_eq_iff)

lemma bt_get_map [simp]: "bt_get (bt_map f m) k = map_option (f k) (map_of m k)"
  by (induction m) (auto simp: bt_map_def)

lemma bt_modify_absent [simp]: "bt_get m k = None \<Longrightarrow> bt_modify k f m = m"
  by (induction m) (auto split: if_splits)

lemma bt_remove_absent [simp]: "bt_get m k = None \<Longrightarrow> bt_remove k m = m"
  by (auto simp: bt_remove_def map_of_eq_None_iff filter_id_conv)

lemma bt_contains_iff: "bt_contains m k \<longleftrightarrow> k \<in> dom (map_of m)"
  by (auto split: option.splits)

subsection \<open>Key order\<close>

lemma bt_wf_Nil [simp]: "bt_wf []"
  by (simp add: bt_wf_def)

lemma bt_wf_Cons [simp]: "bt_wf (p # m) \<longleftrightarrow> (\<forall>k \<in> fst ` set m. fst p < k) \<and> bt_wf m"
  by (auto simp: bt_wf_def)

lemma keys_bt_insert [simp]: "fst ` set (bt_insert k v m) = insert k (fst ` set m)"
  by (induction k v m rule: bt_insert.induct) (simp_all add: insert_commute)

lemma bt_wf_insert [simp]: "bt_wf m \<Longrightarrow> bt_wf (bt_insert k v m)"
proof (induction k v m rule: bt_insert.induct)
  case (1 k v)
  then show ?case by simp
next
  case (2 k v a b m)
  then show ?case
    by (cases k a rule: linorder_cases) (force intro: less_trans simp del: bt_wf_Cons simp: bt_wf_def)+
qed

lemma bt_wf_filter [simp]: "bt_wf m \<Longrightarrow> bt_wf (filter P m)"
  by (induction m) auto

lemma bt_wf_remove [simp]: "bt_wf m \<Longrightarrow> bt_wf (bt_remove k m)"
  by (simp add: bt_remove_def)

lemma bt_wf_retain [simp]: "bt_wf m \<Longrightarrow> bt_wf (bt_retain P m)"
  by (simp add: bt_retain_def)

lemma keys_bt_modify [simp]: "map fst (bt_modify k f m) = map fst m"
  by (induction m) auto

lemma keys_bt_map [simp]: "map fst (bt_map f m) = map fst m"
  by (induction m) (auto simp: bt_map_def)

lemma bt_wf_modify [simp]: "bt_wf (bt_modify k f m) = bt_wf m"
  by (simp add: bt_wf_def)

lemma bt_wf_map [simp]: "bt_wf (bt_map f m) = bt_wf m"
  by (simp add: bt_wf_def)

lemma bt_wf_distinct: "bt_wf m \<Longrightarrow> distinct (map fst m)"
  by (induction m) (auto simp: image_iff)

lemma bt_get_eq_Some: "bt_wf m \<Longrightarrow> bt_get m k = Some v \<longleftrightarrow> (k, v) \<in> set m"
  by (simp add: bt_wf_distinct)

lemma bt_get_retain:
  "bt_wf m \<Longrightarrow> bt_get (bt_retain P m) k =
     (case map_of m k of None \<Rightarrow> None | Some v \<Rightarrow> if P k v then Some v else None)"
  by (induction m)
    (auto simp: bt_retain_def map_of_eq_None_iff image_iff dest: map_of_SomeD split: option.splits)

subsection \<open>Counting entries\<close>

lemma bt_count_Nil [simp]: "bt_count P [] = 0"
  by (simp add: bt_count_def)

lemma bt_count_Cons [simp]:
  "bt_count P ((k, v) # m) = (if P k v then Suc (bt_count P m) else bt_count P m)"
  by (simp add: bt_count_def)

lemma bt_count_insert_new:
  "bt_get m k = None \<Longrightarrow>
   bt_count P (bt_insert k v m) = bt_count P m + (if P k v then 1 else 0)"
  by (induction m) (auto split: if_splits)

lemma bt_count_remove:
  "bt_wf m \<Longrightarrow> bt_get m k = Some v \<Longrightarrow>
   bt_count P m = bt_count P (bt_remove k m) + (if P k v then 1 else 0)"
proof (induction m)
  case Nil
  then show ?case by simp
next
  case (Cons p m)
  obtain a b where p: "p = (a, b)" by (cases p)
  show ?case
  proof (cases "a = k")
    case True
    then have "bt_get m k = None"
      using Cons.prems p by (auto simp: map_of_eq_None_iff image_iff)
    with True Cons.prems p show ?thesis
      by (simp add: bt_remove_def) (simp flip: bt_remove_def)
  next
    case False
    with Cons p show ?thesis
      by (simp add: bt_remove_def)
  qed
qed

lemma bt_count_modify:
  "(\<And>v. bt_get m k = Some v \<Longrightarrow> P k (f v) = P k v) \<Longrightarrow> bt_count P (bt_modify k f m) = bt_count P m"
  by (induction m) auto

lemma bt_count_cong:
  "(\<And>k v. (k, v) \<in> set m \<Longrightarrow> P k v = Q k v) \<Longrightarrow> bt_count P m = bt_count Q m"
  by (induction m) auto

lemma bt_count_eq_0: "bt_count P m = 0 \<longleftrightarrow> (\<forall>(k, v) \<in> set m. \<not> P k v)"
  by (auto simp: bt_count_def filter_empty_conv)

lemma bt_count_le_length: "bt_count P m \<le> length m"
  by (simp add: bt_count_def)

lemma bt_count_mono: "(\<And>k v. P k v \<Longrightarrow> Q k v) \<Longrightarrow> bt_count P m \<le> bt_count Q m"
  by (induction m) auto

lemma length_bt_insert: "bt_get m k = None \<Longrightarrow> length (bt_insert k v m) = Suc (length m)"
  by (induction m) (auto split: if_splits)

lemma length_bt_remove: "bt_wf m \<Longrightarrow> bt_get m k = Some v \<Longrightarrow> length m = Suc (length (bt_remove k m))"
  using bt_count_remove [of m k v "\<lambda>_ _. True"] by (simp add: bt_count_def)

lemma length_bt_modify [simp]: "length (bt_modify k f m) = length m"
  by (induction m) auto

lemma length_bt_map [simp]: "length (bt_map f m) = length m"
  by (simp add: bt_map_def)

subsection \<open>Comparators\<close>

text \<open>\<^verbatim>\<open>std::cmp::Ordering\<close>, \<^verbatim>\<open>cmp\<close>, \<^verbatim>\<open>then_with\<close>.\<close>

datatype ordering = Less | Equal | Greater

definition cmp :: "'a::linorder \<Rightarrow> 'a \<Rightarrow> ordering" where
  "cmp a b = (if a < b then Less else if a = b then Equal else Greater)"

definition then_with :: "ordering \<Rightarrow> ordering \<Rightarrow> ordering" where
  "then_with a b = (case a of Equal \<Rightarrow> b | _ \<Rightarrow> a)"

text \<open>
  \<^verbatim>\<open>slice::sort_by\<close> is a stable sort; a stable sort of a list under a total preorder is
  unique, so insertion before the first strictly greater element computes it.
\<close>

fun insert_by :: "('a \<Rightarrow> 'a \<Rightarrow> ordering) \<Rightarrow> 'a \<Rightarrow> 'a list \<Rightarrow> 'a list" where
  "insert_by c x [] = [x]"
| "insert_by c x (y # ys) = (if c x y = Greater then y # insert_by c x ys else x # y # ys)"

definition sort_by :: "('a \<Rightarrow> 'a \<Rightarrow> ordering) \<Rightarrow> 'a list \<Rightarrow> 'a list" where
  "sort_by c xs = foldr (insert_by c) xs []"

text \<open>\<^verbatim>\<open>Iterator::min_by\<close> keeps the first of several minimal elements.\<close>

fun min_by :: "('a \<Rightarrow> 'a \<Rightarrow> ordering) \<Rightarrow> 'a list \<Rightarrow> 'a option" where
  "min_by c [] = None"
| "min_by c (x # xs) =
     (case min_by c xs of None \<Rightarrow> Some x | Some y \<Rightarrow> if c x y = Greater then Some y else Some x)"

lemma set_insert_by [simp]: "set (insert_by c x ys) = insert x (set ys)"
  by (induction ys) auto

lemma set_sort_by [simp]: "set (sort_by c xs) = set xs"
  by (induction xs) (auto simp: sort_by_def)

lemma sort_by_eq_Nil [simp]: "sort_by c xs = [] \<longleftrightarrow> xs = []"
  using set_sort_by [of c xs] by (metis set_empty)

lemma mset_sort_by [simp]: "mset (sort_by c xs) = mset xs"
proof -
  have "mset (insert_by c x ys) = add_mset x (mset ys)" for x ys
    by (induction ys) auto
  then show ?thesis
    by (induction xs) (auto simp: sort_by_def)
qed

text \<open>The contract of a comparator on the elements it is used for.\<close>

locale comparator =
  fixes c :: "'a \<Rightarrow> 'a \<Rightarrow> ordering" and S :: "'a set"
  assumes total: "x \<in> S \<Longrightarrow> y \<in> S \<Longrightarrow> c x y = Greater \<Longrightarrow> c y x \<noteq> Greater"
    and trans: "x \<in> S \<Longrightarrow> y \<in> S \<Longrightarrow> z \<in> S \<Longrightarrow> c x y \<noteq> Greater \<Longrightarrow> c y z \<noteq> Greater \<Longrightarrow>
      c x z \<noteq> Greater"
begin

lemma refl: "x \<in> S \<Longrightarrow> c x x \<noteq> Greater"
  using total by blast

lemma insert_by_sorted:
  "x \<in> S \<Longrightarrow> set ys \<subseteq> S \<Longrightarrow> sorted_wrt (\<lambda>a b. c a b \<noteq> Greater) ys \<Longrightarrow>
   sorted_wrt (\<lambda>a b. c a b \<noteq> Greater) (insert_by c x ys)"
proof (induction ys)
  case Nil
  then show ?case by simp
next
  case (Cons y ys)
  have xy: "x \<in> S" "y \<in> S" "set ys \<subseteq> S" using Cons.prems by auto
  show ?case
  proof (cases "c x y = Greater")
    case True
    with xy have "c y x \<noteq> Greater" by (blast dest: total)
    with True Cons xy show ?thesis by simp
  next
    case False
    have "c x z \<noteq> Greater" if "z \<in> set ys" for z
      using trans [of x y z] that False xy Cons.prems(3) by auto
    with False Cons.prems show ?thesis by simp
  qed
qed

lemma sort_by_sorted:
  "set xs \<subseteq> S \<Longrightarrow> sorted_wrt (\<lambda>a b. c a b \<noteq> Greater) (sort_by c xs)"
proof (induction xs)
  case Nil
  then show ?case by (simp add: sort_by_def)
next
  case (Cons x xs)
  have "set (sort_by c xs) \<subseteq> S" using Cons.prems by simp
  with Cons show ?case
    using insert_by_sorted [of x "sort_by c xs"] by (simp add: sort_by_def)
qed

lemma hd_sort_by_least:
  "set xs \<subseteq> S \<Longrightarrow> x \<in> set xs \<Longrightarrow> c (hd (sort_by c xs)) x \<noteq> Greater"
proof -
  assume S: "set xs \<subseteq> S" and x: "x \<in> set xs"
  then obtain y ys where ys: "sort_by c xs = y # ys"
    by (metis list.exhaust sort_by_eq_Nil empty_iff set_empty)
  have xy: "x \<in> set (y # ys)" and S': "set (y # ys) \<subseteq> S"
    using x S by (metis set_sort_by ys)+
  have "sorted_wrt (\<lambda>a b. c a b \<noteq> Greater) (y # ys)"
    using sort_by_sorted [OF S] ys by simp
  with xy S' show ?thesis
    using refl by (auto simp: ys)
qed

lemma min_by_least:
  "set xs \<subseteq> S \<Longrightarrow> min_by c xs = Some m \<Longrightarrow> m \<in> set xs \<and> (\<forall>x \<in> set xs. c m x \<noteq> Greater)"
proof (induction xs arbitrary: m)
  case Nil
  then show ?case by simp
next
  case (Cons x xs)
  show ?case
  proof (cases "min_by c xs")
    case None
    then have "xs = []" by (cases xs) (auto split: option.splits if_splits)
    with Cons show ?thesis using refl by auto
  next
    case (Some y)
    with Cons have y: "y \<in> set xs" "\<forall>z \<in> set xs. c y z \<noteq> Greater" by auto
    have S: "x \<in> S" "y \<in> S" "set xs \<subseteq> S" using Cons.prems y by auto
    show ?thesis
    proof (cases "c x y = Greater")
      case True
      with S have "c y x \<noteq> Greater" by (blast dest: total)
      with True Some Cons.prems y show ?thesis by auto
    next
      case False
      have "c x z \<noteq> Greater" if "z \<in> set xs" for z
        using trans [of x y z] that False S y by auto
      with False Some Cons.prems y S refl [of x] show ?thesis by auto
    qed
  qed
qed

end

end
