(* ===== verification/Domain_Types.thy ===== *)
theory Domain_Types
  imports Ordered_Map "HOL-Library.Char_ord" "HOL-Library.List_Lexorder" "HOL-Library.Product_Lexorder"
begin

text \<open>
  The value objects of \<^verbatim>\<open>gateway-domain\<close> that every other component shares: typed
  identifiers (\<^verbatim>\<open>ids.rs\<close>), domain errors (\<^verbatim>\<open>error.rs\<close>), the credential-neutral request
  (\<^verbatim>\<open>request.rs\<close>) and the readiness projection (\<^verbatim>\<open>readiness.rs\<close>). A \<^verbatim>\<open>str\<close> is the list
  of its bytes.
\<close>

subsection \<open>Domain errors\<close>

datatype DomainError =
    InvalidIdentifier | InvalidStateTransition | StaleGeneration
  | InvalidValue | AccountMismatch | TerminalState

type_synonym 'a DomainResult = "(DomainError, 'a) result"

subsection \<open>Typed identifiers\<close>

text \<open>
  The tag is a phantom parameter, as in the source. The derived order compares the
  bytes lexicographically.
\<close>

datatype 'tag TypedId = TypedId (as_str: string)

instantiation TypedId :: (type) linorder
begin

definition less_eq_TypedId :: "'a TypedId \<Rightarrow> 'a TypedId \<Rightarrow> bool" where
  "less_eq_TypedId x y \<longleftrightarrow> as_str x \<le> as_str y"

definition less_TypedId :: "'a TypedId \<Rightarrow> 'a TypedId \<Rightarrow> bool" where
  "less_TypedId x y \<longleftrightarrow> as_str x < as_str y"

instance
  by standard (auto simp: less_eq_TypedId_def less_TypedId_def TypedId.expand)

end

definition MAX_ID_BYTES :: nat where
  "MAX_ID_BYTES = 128"

definition is_ascii :: "string \<Rightarrow> bool" where
  "is_ascii s \<longleftrightarrow> list_all (\<lambda>c. of_char c < (128 :: nat)) s"

definition TypedId_new :: "string \<Rightarrow> 'tag TypedId DomainResult" where
  "TypedId_new value =
     (if value = [] \<or> length value > MAX_ID_BYTES \<or> \<not> is_ascii value
      then Inl InvalidIdentifier
      else Inr (TypedId value))"

datatype RequestTag = RequestTag
datatype UserTag = UserTag
datatype GroupTag = GroupTag
datatype PlatformKeyTag = PlatformKeyTag
datatype CredentialTag = CredentialTag
datatype SessionTag = SessionTag
datatype AgentTag = AgentTag
datatype EgressBindingTag = EgressBindingTag
datatype TicketTag = TicketTag
datatype LeaseTag = LeaseTag
datatype EnrollmentTag = EnrollmentTag
datatype CredentialProfileTag = CredentialProfileTag
datatype DeviceIdentityTag = DeviceIdentityTag
datatype ProxyEndpointTag = ProxyEndpointTag
datatype ArchetypeVersionTag = ArchetypeVersionTag
datatype MaintenanceOperationTag = MaintenanceOperationTag
datatype SecretTag = SecretTag
datatype TransportBundleTag = TransportBundleTag

type_synonym RequestId = "RequestTag TypedId"
type_synonym UserId = "UserTag TypedId"
type_synonym GroupId = "GroupTag TypedId"
type_synonym PlatformKeyId = "PlatformKeyTag TypedId"
type_synonym CredentialId = "CredentialTag TypedId"
type_synonym SessionId = "SessionTag TypedId"
type_synonym AgentId = "AgentTag TypedId"
type_synonym EgressBindingId = "EgressBindingTag TypedId"
type_synonym TicketId = "TicketTag TypedId"
type_synonym LeaseId = "LeaseTag TypedId"
type_synonym EnrollmentId = "EnrollmentTag TypedId"
type_synonym CredentialProfileId = "CredentialProfileTag TypedId"
type_synonym DeviceIdentityId = "DeviceIdentityTag TypedId"
type_synonym ProxyEndpointId = "ProxyEndpointTag TypedId"
type_synonym ArchetypeVersionId = "ArchetypeVersionTag TypedId"
type_synonym MaintenanceOperationId = "MaintenanceOperationTag TypedId"
type_synonym SecretId = "SecretTag TypedId"
type_synonym TransportBundleId = "TransportBundleTag TypedId"

subsection \<open>The credential-neutral request\<close>

datatype Digest = Digest (digest_str: string)

definition is_ascii_hexdigit :: "char \<Rightarrow> bool" where
  "is_ascii_hexdigit c \<longleftrightarrow>
     (CHR ''0'' \<le> c \<and> c \<le> CHR ''9'') \<or> (CHR ''a'' \<le> c \<and> c \<le> CHR ''f'') \<or> (CHR ''A'' \<le> c \<and> c \<le> CHR ''F'')"

definition is_ascii_uppercase :: "char \<Rightarrow> bool" where
  "is_ascii_uppercase c \<longleftrightarrow> CHR ''A'' \<le> c \<and> c \<le> CHR ''Z''"

definition Digest_parse_sha256_hex :: "string \<Rightarrow> Digest DomainResult" where
  "Digest_parse_sha256_hex value =
     (if length value \<noteq> 64 \<or> \<not> list_all is_ascii_hexdigit value \<or> list_ex is_ascii_uppercase value
      then Inl InvalidIdentifier
      else Inr (Digest value))"

datatype FieldPresence = FP_Missing | FP_Null | FP_Value

datatype ClientClass = ClaudeCodeCli | NonClaudeCodeCli

datatype ClientOs = Windows | MacOs | Linux

instantiation ClientOs :: linorder
begin

fun ClientOs_index :: "ClientOs \<Rightarrow> nat" where
  "ClientOs_index Windows = 0"
| "ClientOs_index MacOs = 1"
| "ClientOs_index Linux = 2"

definition less_eq_ClientOs :: "ClientOs \<Rightarrow> ClientOs \<Rightarrow> bool" where
  "less_eq_ClientOs x y \<longleftrightarrow> ClientOs_index x \<le> ClientOs_index y"

definition less_ClientOs :: "ClientOs \<Rightarrow> ClientOs \<Rightarrow> bool" where
  "less_ClientOs x y \<longleftrightarrow> ClientOs_index x < ClientOs_index y"

instance
proof
  fix x y z :: ClientOs
  show "(x < y) = (x \<le> y \<and> \<not> y \<le> x)" and "x \<le> x" and "x \<le> y \<or> y \<le> x"
    by (auto simp: less_eq_ClientOs_def less_ClientOs_def)
  show "x \<le> z" if "x \<le> y" "y \<le> z"
    using that by (auto simp: less_eq_ClientOs_def)
  show "x = y" if "x \<le> y" "y \<le> x"
    using that by (cases x; cases y) (auto simp: less_eq_ClientOs_def)
qed

end

fun ClientOs_as_str :: "ClientOs \<Rightarrow> string" where
  "ClientOs_as_str Windows = ''windows''"
| "ClientOs_as_str MacOs = ''macos''"
| "ClientOs_as_str Linux = ''linux''"

datatype OsResolution = OsHeader | EnvironmentOnly | SessionSticky | GroupDefault

fun OsResolution_as_str :: "OsResolution \<Rightarrow> string" where
  "OsResolution_as_str OsHeader = ''header''"
| "OsResolution_as_str EnvironmentOnly = ''environment_only''"
| "OsResolution_as_str SessionSticky = ''session_sticky''"
| "OsResolution_as_str GroupDefault = ''group_default''"

datatype SnapshotVersion = SnapshotVersion string

record RequestSnapshotSet =
  access_policy :: SnapshotVersion
  group_config :: SnapshotVersion
  enforcement :: SnapshotVersion
  ruleset :: "SnapshotVersion option"
  capability :: SnapshotVersion
  client_profile_catalog :: SnapshotVersion
  price :: SnapshotVersion
  serializer :: SnapshotVersion

datatype PinReason = Continuation | AccountResource | CredentialExtension | UnknownExtension

datatype Portability = Portable | Pinned (pin_target: "CredentialId option") (pin_reasons: "PinReason list")

datatype ChangeRisk = RiskLow | RiskMedium | RiskHigh

record AppliedChange =
  ac_rule_id :: string
  ac_path :: string
  ac_before_digest :: Digest
  ac_after_digest :: Digest
  ac_reason :: string
  ac_risk :: ChangeRisk

text \<open>
  The replay body keeps its exact bytes. The source also caches the
  \<^verbatim>\<open>serde_json::Value\<close> parsed from them, which no modelled operation reads.
\<close>

record RequestReplayBody =
  rb_bytes :: "u8 list"
  rb_reused_original :: bool

record GenericAdjustedRequest =
  replay_body :: RequestReplayBody
  body_digest :: Digest
  model_id :: string
  stream_mode :: bool
  portability :: Portability
  attribution_suppressed :: bool
  system_template_pending :: bool
  change_set :: "AppliedChange list"
  snapshot_set :: RequestSnapshotSet

text \<open>The digest check, over the SHA-256 function \<open>sha256_hex\<close> of the \<^verbatim>\<open>sha2\<close> crate.\<close>

definition Digest_of :: "(u8 list \<Rightarrow> string) \<Rightarrow> u8 list \<Rightarrow> Digest" where
  "Digest_of sha256_hex bytes = Digest (sha256_hex bytes)"

definition digest_is_valid :: "(u8 list \<Rightarrow> string) \<Rightarrow> GenericAdjustedRequest \<Rightarrow> bool" where
  "digest_is_valid sha256_hex r \<longleftrightarrow> Digest_of sha256_hex (rb_bytes (replay_body r)) = body_digest r"

subsection \<open>Readiness\<close>

datatype ApplicationLifecycle = Starting | AppServing | AppDraining | ShuttingDown

datatype ReadinessBlocker =
    StaticConfiguration | DatabaseOrSchema | Bootstrap | BusinessKeyProvider
  | ActiveConfiguration | TransportCore | RequiredBundle | LifecycleBlocker

datatype PublicReadiness = Ready | NotReady

record InternalReadiness =
  ir_lifecycle :: ApplicationLifecycle
  static_configuration_ready :: bool
  database_schema_ready :: bool
  bootstrap_ready :: bool
  business_key_provider_ready :: bool
  active_configuration_ready :: bool
  transport_core_ready :: bool
  required_bundles_ready :: bool

definition InternalReadiness_default :: InternalReadiness where
  "InternalReadiness_default =
     \<lparr>ir_lifecycle = Starting, static_configuration_ready = False, database_schema_ready = False,
      bootstrap_ready = False, business_key_provider_ready = False,
      active_configuration_ready = False, transport_core_ready = False,
      required_bundles_ready = False\<rparr>"

definition readiness_blockers :: "InternalReadiness \<Rightarrow> ReadinessBlocker list" where
  "readiness_blockers s =
     (if ir_lifecycle s \<noteq> AppServing then [LifecycleBlocker] else []) @
     map snd (filter (\<lambda>(ready, _). \<not> ready)
       [(static_configuration_ready s, StaticConfiguration),
        (database_schema_ready s, DatabaseOrSchema),
        (bootstrap_ready s, Bootstrap),
        (business_key_provider_ready s, BusinessKeyProvider),
        (active_configuration_ready s, ActiveConfiguration),
        (transport_core_ready s, TransportCore),
        (required_bundles_ready s, RequiredBundle)])"

definition public_readiness :: "InternalReadiness \<Rightarrow> PublicReadiness" where
  "public_readiness s = (if readiness_blockers s = [] then Ready else NotReady)"

subsection \<open>Properties\<close>

lemma TypedId_new_ok:
  "TypedId_new s = Inr i \<longleftrightarrow> i = TypedId s \<and> s \<noteq> [] \<and> length s \<le> MAX_ID_BYTES \<and> is_ascii s"
  by (auto simp: TypedId_new_def)

lemma TypedId_new_err:
  "TypedId_new s = Inl x \<longleftrightarrow>
   x = InvalidIdentifier \<and> (s = [] \<or> length s > MAX_ID_BYTES \<or> \<not> is_ascii s)"
  by (auto simp: TypedId_new_def)

lemma is_ascii_append [simp]: "is_ascii (a @ b) \<longleftrightarrow> is_ascii a \<and> is_ascii b"
  by (simp add: is_ascii_def)

text \<open>An instance reports ready exactly when it serves and every prerequisite holds.\<close>

lemma public_readiness_iff:
  "public_readiness s = Ready \<longleftrightarrow>
     ir_lifecycle s = AppServing \<and> static_configuration_ready s \<and> database_schema_ready s \<and>
     bootstrap_ready s \<and> business_key_provider_ready s \<and> active_configuration_ready s \<and>
     transport_core_ready s \<and> required_bundles_ready s"
  by (auto simp: public_readiness_def readiness_blockers_def)

lemma ClientOs_as_str_inj: "ClientOs_as_str a = ClientOs_as_str b \<longleftrightarrow> a = b"
  by (cases a; cases b) simp_all

end
