(* ===== verification/Token_Bucket.thy ===== *)
theory Token_Bucket
  imports Prelude
begin

text \<open>
  The integer token bucket of \<^verbatim>\<open>gateway-scheduler/src/token_bucket.rs\<close>. Tokens are counted
  in millionths (\<open>SCALE\<close>) on 128-bit words, and the fraction of a micro-token that a refill
  leaves is carried in \<open>remainder\<close>. The properties: refilling twice is refilling once (no
  drift), a bucket never admits more than its burst plus the rate times the elapsed time,
  and waiting for \<open>retry_after\<close> is enough. The \<open>rate_limiter\<close> locale is the contract
  the scheduler engine relies on.
\<close>

definition SCALE :: u128 where
  "SCALE = 1000000"

definition NANOS_PER_MINUTE :: u128 where
  "NANOS_PER_MINUTE = 60000000000"

record BucketConfig =
  requests_per_minute :: u32
  burst :: u32

definition CREDENTIAL_DEFAULT :: BucketConfig where
  "CREDENTIAL_DEFAULT = \<lparr>requests_per_minute = 60, burst = 10\<rparr>"

record TokenBucket =
  tb_config :: BucketConfig
  available :: u128
  remainder :: u128
  last_refill :: duration

definition bucket_full :: "BucketConfig \<Rightarrow> duration \<Rightarrow> TokenBucket" where
  "bucket_full c now =
     \<lparr>tb_config = c, available = ucast (burst c) * SCALE, remainder = 0, last_refill = now\<rparr>"

definition refill :: "duration \<Rightarrow> TokenBucket \<Rightarrow> TokenBucket" where
  "refill now b =
     (let elapsed = dur_saturating_sub now (last_refill b) in
      if elapsed = 0 then b
      else let numerator = of_nat elapsed * ucast (requests_per_minute (tb_config b)) * SCALE + remainder b;
               added = numerator div NANOS_PER_MINUTE in
        b\<lparr>remainder := numerator mod NANOS_PER_MINUTE,
          available := min (available b + added) (ucast (burst (tb_config b)) * SCALE),
          last_refill := now\<rparr>)"

definition try_consume :: "TokenBucket \<Rightarrow> duration \<Rightarrow> bool \<times> TokenBucket" where
  "try_consume b now =
     (let b' = refill now b in
      if available b' < SCALE then (False, b')
      else (True, b'\<lparr>available := available b' - SCALE\<rparr>))"

definition div_ceil :: "u128 \<Rightarrow> u128 \<Rightarrow> u128" where
  "div_ceil a b = (if a mod b = 0 then a div b else a div b + 1)"

definition retry_after :: "TokenBucket \<Rightarrow> duration \<Rightarrow> duration \<times> TokenBucket" where
  "retry_after b now =
     (let b' = refill now b in
      if SCALE \<le> available b' then (0, b')
      else if requests_per_minute (tb_config b') = 0 then (from_mins 1, b')
      else let missing = SCALE - available b';
               numerator = missing * NANOS_PER_MINUTE;
               denominator = ucast (requests_per_minute (tb_config b')) * SCALE;
               nanos = max (div_ceil numerator denominator) 1 in
        (min (unat nanos) (2 ^ 64 - 1), b'))"

definition available_tokens :: "TokenBucket \<Rightarrow> duration \<Rightarrow> u32 \<times> TokenBucket" where
  "available_tokens b now =
     (let b' = refill now b; tokens = unat (available b' div SCALE) in
      (if tokens < 2 ^ 32 then of_nat tokens else - 1, b'))"

definition try_consume_preview :: "TokenBucket \<Rightarrow> duration \<Rightarrow> bool \<times> TokenBucket" where
  "try_consume_preview b now = (let b' = refill now b in (SCALE \<le> available b', b'))"

definition bucket_reconfigure :: "BucketConfig \<Rightarrow> duration \<Rightarrow> TokenBucket \<Rightarrow> TokenBucket" where
  "bucket_reconfigure c now b =
     (refill now b)\<lparr>tb_config := c,
       available := min (available (refill now b)) (ucast (burst c) * SCALE),
       remainder := 0\<rparr>"

text \<open>A well-formed bucket holds at most its burst and a proper fraction.\<close>

definition bucket_wf :: "TokenBucket \<Rightarrow> bool" where
  "bucket_wf b \<longleftrightarrow>
     available b \<le> ucast (burst (tb_config b)) * SCALE \<and> remainder b < NANOS_PER_MINUTE"

subsection \<open>What refilling keeps\<close>

lemma refill_config [bucket_simps, simp]: "tb_config (refill now b) = tb_config b"
  by (simp add: refill_def Let_def)

lemma refill_last [bucket_simps]: "last_refill (refill now b) = max now (last_refill b)"
  by (auto simp: refill_def Let_def dur_saturating_sub_def)

lemma refill_same_time: "last_refill b \<ge> now \<Longrightarrow> refill now b = b"
  by (simp add: refill_def dur_saturating_sub_def)

lemma refill_idem [bucket_simps, simp]: "refill now (refill now b) = refill now b"
  by (rule refill_same_time) (simp add: refill_last)

lemma unat_SCALE [simp]: "unat SCALE = 1000000"
  by (simp add: SCALE_def)

lemma unat_NANOS [simp]: "unat NANOS_PER_MINUTE = 60000000000"
  by (simp add: NANOS_PER_MINUTE_def)

lemma unat_ucast_u32 [simp]: "unat (ucast (n :: u32) :: u128) = unat n"
  using unat_u32_less [of n] by (simp add: unsigned_ucast_eq take_bit_nat_eq_self)

lemma burst_scale [simp]: "unat ((ucast (n :: u32) :: u128) * SCALE) = unat n * 1000000"
  using unat_u32_less [of n] by (simp add: unat_word_ariths)

lemma bucket_wf_alt:
  "bucket_wf b \<longleftrightarrow>
     unat (available b) \<le> unat (burst (tb_config b)) * 1000000 \<and> unat (remainder b) < 60000000000"
  by (simp add: bucket_wf_def word_le_nat_alt word_less_nat_alt)

lemma bucket_wf_full [simp]: "bucket_wf (bucket_full c now)"
  by (simp add: bucket_wf_alt bucket_full_def)

lemma unat_min: "unat (min a (b :: 'a::len word)) = min (unat a) (unat b)"
  by (simp add: min_def word_le_nat_alt)

lemma bucket_wf_refill [simp]: "bucket_wf b \<Longrightarrow> bucket_wf (refill now b)"
  by (auto simp: bucket_wf_alt refill_def Let_def unat_min unat_mod)

lemma bucket_wf_consume: "bucket_wf b \<Longrightarrow> bucket_wf (snd (try_consume b now))"
  using bucket_wf_refill [of b now]
  by (auto simp: bucket_wf_alt try_consume_def Let_def unat_sub word_le_nat_alt not_less)

lemma bucket_wf_reconfigure: "bucket_wf b \<Longrightarrow> bucket_wf (bucket_reconfigure c now b)"
  by (simp add: bucket_wf_alt bucket_reconfigure_def unat_min)

subsection \<open>The level of a bucket never grows faster than its rate\<close>

definition bucket_level :: "TokenBucket \<Rightarrow> nat" where
  "bucket_level b = unat (available b) * 60000000000 + unat (remainder b)"

lemma unat_add_le: "unat (a + b :: 'a::len word) \<le> unat a + unat b"
  by (simp add: unat_word_ariths)

lemma numerator_le:
  "unat (of_nat d * ucast (r :: u32) * SCALE + m :: u128) \<le> d * unat r * 1000000 + unat m"
proof -
  have "unat (of_nat d * ucast r * SCALE + m :: u128) =
      (d * unat r * 1000000 + unat m) mod 2 ^ 128"
    by (simp add: unat_word_ariths unat_of_nat mod_simps)
  then show ?thesis by simp
qed

lemma settle_step: "a' \<le> a + n div k \<Longrightarrow> a' * k + n mod k \<le> a * k + (n :: nat)"
  using mult_le_mono1 [of a' "a + n div k" k] by (simp add: add_mult_distrib)
    (metis add.assoc add_le_cancel_right div_mult_mod_eq)

lemma refill_level:
  "bucket_level (refill now b) \<le>
   bucket_level b + (last_refill (refill now b) - last_refill b) * unat (requests_per_minute (tb_config b)) * 1000000"
proof (cases "now \<le> last_refill b")
  case True
  then show ?thesis by (simp add: refill_same_time)
next
  case False
  let ?d = "now - last_refill b" and ?r = "requests_per_minute (tb_config b)"
  let ?n = "of_nat ?d * ucast ?r * SCALE + remainder b"
  have "unat (available (refill now b)) \<le> unat (available b) + unat ?n div 60000000000"
    using False unat_add_le [of "available b" "?n div NANOS_PER_MINUTE"]
    by (simp add: refill_def dur_saturating_sub_def Let_def unat_min unat_div)
  moreover have "unat (remainder (refill now b)) = unat ?n mod 60000000000"
    using False by (simp add: refill_def dur_saturating_sub_def Let_def unat_mod)
  ultimately have "bucket_level (refill now b) \<le> unat (available b) * 60000000000 + unat ?n"
    using settle_step [of _ "unat (available b)" "unat ?n" 60000000000] by (simp add: bucket_level_def)
  also have "\<dots> \<le> bucket_level b + ?d * unat ?r * 1000000"
    using numerator_le [of ?d ?r "remainder b"] by (simp add: bucket_level_def)
  finally show ?thesis using False by (simp add: refill_last)
qed

text \<open>A run of consumption attempts at the given instants, counting the tokens granted.\<close>

fun consume_run :: "TokenBucket \<Rightarrow> duration list \<Rightarrow> nat \<times> TokenBucket" where
  "consume_run b [] = (0, b)"
| "consume_run b (t # ts) =
     (case try_consume b t of (ok, b') \<Rightarrow>
        case consume_run b' ts of (n, b'') \<Rightarrow> ((if ok then Suc n else n), b''))"

lemma try_consume_level:
  assumes "try_consume b t = (ok, b')"
  shows "bucket_level b' + (if ok then 60000000000000000 else 0) \<le>
      bucket_level b + (last_refill b' - last_refill b) * unat (requests_per_minute (tb_config b)) * 1000000"
    and "tb_config b' = tb_config b" and "last_refill b' = max t (last_refill b)"
proof -
  have "bucket_level b' + (if ok then 60000000000000000 else 0) = bucket_level (refill t b)"
    using assms by (auto simp: try_consume_def Let_def bucket_level_def unat_sub word_le_nat_alt
      word_less_nat_alt not_less diff_mult_distrib split: if_splits)
  moreover have lr: "last_refill b' = last_refill (refill t b)"
    using assms by (auto simp: try_consume_def Let_def split: if_splits)
  ultimately show "bucket_level b' + (if ok then 60000000000000000 else 0) \<le>
      bucket_level b + (last_refill b' - last_refill b) * unat (requests_per_minute (tb_config b)) * 1000000"
    using refill_level [of t b] by simp
  show "tb_config b' = tb_config b" using assms
    by (auto simp: try_consume_def Let_def split: if_splits)
  show "last_refill b' = max t (last_refill b)" using lr by (simp add: refill_last)
qed

lemma consume_run_level:
  assumes "consume_run b ts = (n, b')"
  shows "bucket_level b' + n * 60000000000000000 \<le>
      bucket_level b + (last_refill b' - last_refill b) * unat (requests_per_minute (tb_config b)) * 1000000
    \<and> last_refill b \<le> last_refill b' \<and> last_refill b' \<in> insert (last_refill b) (set ts)"
  using assms
proof (induction ts arbitrary: b n b')
  case Nil
  then show ?case by simp
next
  case (Cons t ts)
  obtain ok b1 where 1: "try_consume b t = (ok, b1)" by fastforce
  obtain k b2 where 2: "consume_run b1 ts = (k, b2)" by fastforce
  note L = try_consume_level [OF 1]
  let ?r = "unat (requests_per_minute (tb_config b)) * 1000000"
  have n: "n = (if ok then Suc k else k)" and b': "b' = b2"
    using Cons.prems 1 2 by auto
  have IH: "bucket_level b2 + k * 60000000000000000 \<le> bucket_level b1 + (last_refill b2 - last_refill b1) * ?r"
    "last_refill b1 \<le> last_refill b2" "last_refill b2 \<in> insert (last_refill b1) (set ts)"
    using Cons.IH [OF 2] L(2) by (simp_all add: mult.assoc)
  have "last_refill b2 - last_refill b = (last_refill b2 - last_refill b1) + (last_refill b1 - last_refill b)"
    using IH(2) L(3) by simp
  then have "(last_refill b2 - last_refill b) * ?r =
      (last_refill b2 - last_refill b1) * ?r + (last_refill b1 - last_refill b) * ?r"
    by (simp add: distrib_right)
  with IH L(1) have "bucket_level b2 + n * 60000000000000000 \<le> bucket_level b + (last_refill b2 - last_refill b) * ?r"
    by (auto simp: n mult.assoc split: if_splits)
  with IH L(3) b' show ?case by (auto simp: mult.assoc max_def split: if_splits)
qed


subsection \<open>Refilling without overflow\<close>

text \<open>
  The product of the elapsed nanoseconds, the rate and the scale fits 128 bits for every
  elapsed time below \<open>2 ^ 75\<close> nanoseconds, about 1.2 million years.
\<close>

definition refill_exact :: "duration \<Rightarrow> TokenBucket \<Rightarrow> bool" where
  "refill_exact now b \<longleftrightarrow> now - last_refill b < 2 ^ 75"

lemma unat_numerator:
  assumes "d < 2 ^ 75" and "unat m < 60000000000"
  shows "unat (of_nat d * ucast (r :: u32) * SCALE + m :: u128) = d * unat r * 1000000 + unat m"
proof -
  have "d * unat r \<le> 2 ^ 75 * 4294967296"
    using assms(1) unat_u32_less [of r] by (intro mult_le_mono) auto
  then have "d * unat r * 1000000 + unat m < 2 ^ 128"
    using assms(2) by simp
  then show ?thesis
    by (simp add: unat_word_ariths unat_of_nat mod_simps)
qed

lemma refill_settles:
  assumes "bucket_wf b" and "refill_exact now b"
  defines "num \<equiv> (now - last_refill b) * unat (requests_per_minute (tb_config b)) * 1000000 + unat (remainder b)"
  shows "unat (available (refill now b)) =
      min (unat (available b) + num div 60000000000) (unat (burst (tb_config b)) * 1000000)"
    and "unat (remainder (refill now b)) = num mod 60000000000"
proof -
  let ?r = "requests_per_minute (tb_config b)" and ?d = "now - last_refill b"
  let ?n = "of_nat ?d * ucast ?r * SCALE + remainder b"
  have d: "?d < 2 ^ 75" and m: "unat (remainder b) < 60000000000"
    and a: "unat (available b) \<le> unat (burst (tb_config b)) * 1000000"
    using assms(1,2) by (auto simp: refill_exact_def bucket_wf_alt)
  have n: "unat ?n = num" using unat_numerator [OF d m] by (simp add: num_def)
  have "num div 60000000000 < 2 ^ 100"
    using n unat_u128_less [of ?n] by (simp add: div_less_iff_less_mult)
  then have "unat (available b) + num div 60000000000 < 2 ^ 128"
    using a unat_u32_less [of "burst (tb_config b)"] by simp
  then have sum: "unat (available b + ?n div NANOS_PER_MINUTE) = unat (available b) + num div 60000000000"
    using unat_plus_exact [of "available b" "?n div NANOS_PER_MINUTE"] by (simp only: unat_div unat_NANOS n) simp
  show "unat (available (refill now b)) =
      min (unat (available b) + num div 60000000000) (unat (burst (tb_config b)) * 1000000)"
    using sum a m by (auto simp: refill_def dur_saturating_sub_def Let_def unat_min num_def)
  show "unat (remainder (refill now b)) = num mod 60000000000"
    using n m by (auto simp: refill_def dur_saturating_sub_def Let_def unat_mod num_def)
qed

lemma carry_split:
  "(x + (y + m) mod k) div k + (y + m) div k = (x + y + m) div (k :: nat)"
  "(x + (y + m) mod k) mod k = (x + y + m) mod k"
proof -
  have eq: "x + y + m = (x + (y + m) mod k) + k * ((y + m) div k)"
    by (simp add: add.assoc)
  show "(x + (y + m) mod k) div k + (y + m) div k = (x + y + m) div k"
  proof (cases "k = 0")
    case False
    show ?thesis by (simp only: eq div_mult_self2 [OF False])
  qed simp
  show "(x + (y + m) mod k) mod k = (x + y + m) mod k"
    by (simp add: mod_simps add.assoc)
qed


text \<open>C14. Refilling is free of drift: settling a bucket at an intermediate instant and again
  later is the same as settling it once at the later instant, so that observing a bucket
  often (admission checks, previews) neither loses nor creates tokens.\<close>

theorem refill_no_drift:
  assumes "bucket_wf b" and "last_refill b \<le> t1" and "t1 \<le> t2" and "refill_exact t2 b"
  shows "refill t2 (refill t1 b) = refill t2 b"
proof -
  let ?r = "unat (requests_per_minute (tb_config b)) * 1000000" and ?k = "60000000000 :: nat"
  let ?b1 = "refill t1 b"
  have l1: "last_refill ?b1 = t1" using assms(2) by (simp add: refill_last)
  have e1: "refill_exact t1 b" and e2: "refill_exact t2 ?b1"
    using assms(2-4) by (auto simp: refill_exact_def l1)
  note s1 = refill_settles [OF assms(1) e1] and s2 = refill_settles [OF bucket_wf_refill [OF assms(1), of t1] e2]
    and s = refill_settles [OF assms(1) assms(4)]
  have t: "(t2 - last_refill b) * ?r = (t2 - t1) * ?r + (t1 - last_refill b) * ?r"
    using assms(2,3) by (simp flip: add_mult_distrib)
  have "unat (available (refill t2 ?b1)) = unat (available (refill t2 b))"
    using carry_split(1) [of "(t2 - t1) * ?r" "(t1 - last_refill b) * ?r" "unat (remainder b)" ?k]
    by (simp add: s1 s2 s t l1 mult.assoc min_def)
  moreover have "unat (remainder (refill t2 ?b1)) = unat (remainder (refill t2 b))"
    using carry_split(2) [of "(t2 - t1) * ?r" "(t1 - last_refill b) * ?r" "unat (remainder b)" ?k]
    by (simp add: s1 s2 s t l1 mult.assoc)
  moreover have "last_refill (refill t2 ?b1) = last_refill (refill t2 b)"
    using assms(2,3) by (simp add: refill_last)
  moreover have "TokenBucket.more (refill t2 ?b1) = TokenBucket.more (refill t2 b)" by simp
  ultimately show ?thesis
    by (intro TokenBucket.equality) (simp_all add: unsigned_word_eqI)
qed

theorem refill_no_drift_witness:
  "refill 7000000000 (refill 2000000000 (bucket_full CREDENTIAL_DEFAULT 5)) =
   refill 7000000000 (bucket_full CREDENTIAL_DEFAULT 5)"
  by (rule refill_no_drift [OF bucket_wf_full]) (simp_all add: refill_exact_def bucket_full_def)

text \<open>After any history a bucket is well formed and was last refilled at one of the instants it
  has seen; a refill at the first instant of a window changes none of its answers.
\<close>

lemma consume_run_snd:
  assumes "bucket_wf b"
  shows "bucket_wf (snd (consume_run b ts))" and "tb_config (snd (consume_run b ts)) = tb_config b"
    and "last_refill (snd (consume_run b ts)) \<in> insert (last_refill b) (set ts)"
proof -
  show "bucket_wf (snd (consume_run b ts))" using assms
    by (induction ts arbitrary: b) (auto simp: split_def bucket_wf_consume)
  show "tb_config (snd (consume_run b ts)) = tb_config b"
    by (induction ts arbitrary: b) (auto simp: split_def try_consume_def Let_def)
  show "last_refill (snd (consume_run b ts)) \<in> insert (last_refill b) (set ts)"
    using consume_run_level [of b ts] by (metis prod.collapse)
qed

lemma consume_run_refill: "consume_run (refill s b) (s # ts) = consume_run b (s # ts)"
  by (simp add: try_consume_def Let_def)

lemma bucket_level_bound:
  assumes "bucket_wf b"
  shows "bucket_level b \<le> unat (burst (tb_config b)) * 60000000000000000 + 59999999999"
proof -
  have "unat (available b) * 60000000000 \<le> unat (burst (tb_config b)) * 1000000 * 60000000000"
    using assms by (intro mult_le_mono1) (simp add: bucket_wf_alt)
  with assms show ?thesis by (simp add: bucket_level_def bucket_wf_alt)
qed

lemma window_bound:
  assumes "bucket_wf b" and "last_refill b \<le> t1" and "\<forall>t \<in> set ts. t1 \<le> t \<and> t \<le> T"
  shows "fst (consume_run b ts) * 60000000000 \<le> unat (burst (tb_config b)) * 60000000000 +
    (T - t1) * unat (requests_per_minute (tb_config b)) + 59999"
proof (cases ts)
  case Nil
  then show ?thesis by simp
next
  case (Cons s ss)
  let ?r = "unat (requests_per_minute (tb_config b))"
  obtain n b' where run: "consume_run (refill s b) ts = (n, b')" by fastforce
  have n: "fst (consume_run b ts) = n" using run by (simp add: Cons consume_run_refill del: consume_run.simps)
  have l: "last_refill (refill s b) = s" using assms(2,3) Cons by (auto simp: refill_last)
  note L = consume_run_level [OF run]
  have "last_refill b' \<in> set ts" using L l Cons by auto
  then have "last_refill b' \<le> T" and "t1 \<le> s" using assms(3) Cons by auto
  then have "last_refill b' - s \<le> T - t1" by linarith
  then have w: "(last_refill b' - s) * ?r * 1000000 \<le> (T - t1) * ?r * 1000000" by (intro mult_le_mono1)
  have "n * 60000000000000000 \<le> bucket_level (refill s b) + (last_refill b' - s) * ?r * 1000000"
    using L l by simp
  also have "\<dots> \<le> bucket_level (refill s b) + (T - t1) * ?r * 1000000" using w by (rule add_left_mono)
  also have "\<dots> \<le> unat (burst (tb_config b)) * 60000000000000000 + 59999999999 + (T - t1) * ?r * 1000000"
    using bucket_level_bound [OF bucket_wf_refill [OF assms(1), of s]] by simp
  finally have "n * 60000000000000000 \<le>
      unat (burst (tb_config b)) * 60000000000000000 + 59999999999 + (T - t1) * ?r * 1000000" .
  then show ?thesis by (simp add: n)
qed

text \<open>C15. The rate limit holds over any window: whatever a bucket has been asked before \<open>t1\<close>,
  and however long it has been idle, between \<open>t1\<close> and \<open>T\<close> it grants at most its burst plus the
  configured requests per minute times the elapsed minutes, the fraction of a micro-token that
  a bucket may carry added (\<open>59999\<close> of the \<open>60000000000\<close> units of a token).\<close>

theorem rate_limit_bound:
  assumes "\<forall>t \<in> set hs. t \<le> t1" and "t0 \<le> t1" and "\<forall>t \<in> set ts. t1 \<le> t \<and> t \<le> T"
  shows "fst (consume_run (snd (consume_run (bucket_full c t0) hs)) ts) * 60000000000 \<le>
     unat (burst c) * 60000000000 + (T - t1) * unat (requests_per_minute c) + 59999"
proof -
  let ?b = "snd (consume_run (bucket_full c t0) hs)"
  note B = consume_run_snd [OF bucket_wf_full [of c t0], of hs]
  have "last_refill ?b \<le> t1" using B(3) assms(1,2) by (auto simp: bucket_full_def)
  with window_bound [OF B(1) _ assms(3)] B(2) show ?thesis by (simp add: bucket_full_def)
qed

theorem rate_limit_bound_witness:
  "fst (consume_run (snd (consume_run (bucket_full CREDENTIAL_DEFAULT 0) [5, 1000000000])) [900000000000, 901000000000])
     * 60000000000 \<le>
   unat (burst CREDENTIAL_DEFAULT) * 60000000000 +
     (901000000000 - 900000000000) * unat (requests_per_minute CREDENTIAL_DEFAULT) + 59999"
  by (rule rate_limit_bound) simp_all


subsection \<open>Waiting for the advertised delay is enough\<close>

lemma div_ceil_mult:
  assumes "b \<noteq> 0" and "a \<le> 2 ^ 127"
  shows "unat a \<le> unat (div_ceil a b) * unat b" and "unat (div_ceil a b) \<le> unat a"
proof -
  have b: "0 < unat b" using assms(1) by (simp add: unat_gt_0)
  have *: "unat (a div b) + 1 < 2 ^ 128"
    using assms(2) order_le_less_trans [OF div_le_dividend [of "unat a" "unat b"]]
    by (simp add: unat_div word_le_nat_alt)
  have m: "a mod b = 0 \<longleftrightarrow> unat a mod unat b = 0"
    by (simp add: unat_mod flip: unat_eq_0)
  have c: "unat (div_ceil a b) = (if unat a mod unat b = 0 then unat a div unat b else unat a div unat b + 1)"
    using * unat_plus_exact [of "a div b" 1] by (simp add: div_ceil_def m unat_div)
  have "unat a = unat a div unat b * unat b + unat a mod unat b" by simp
  moreover have "unat a mod unat b < unat b" using b by simp
  ultimately have "unat a \<le> (unat a div unat b + 1) * unat b"
    by (metis add_le_cancel_left add_mult_distrib less_imp_le mult_1)
  then show "unat a \<le> unat (div_ceil a b) * unat b"
    using \<open>unat a = _\<close> by (cases "unat a mod unat b = 0") (simp_all add: c)
  show "unat (div_ceil a b) \<le> unat a"
  proof (cases "unat a mod unat b = 0")
    case False
    then have "unat b \<noteq> 1" and "unat a \<noteq> 0" by (metis mod_by_1, metis mod_0)
    then have "unat b > 1" and "unat a > 0" using b by linarith+
    then have "unat a div unat b < unat a" by simp
    with False show ?thesis by (simp add: c)
  qed (simp add: c)
qed

text \<open>A refused caller that waits for \<open>retry_after\<close> gets its token: at
  \<open>now + retry_after\<close> the same bucket grants the request.\<close>

theorem retry_after_suffices:
  assumes "bucket_wf b" and "last_refill b \<le> now"
    and "requests_per_minute (tb_config b) \<noteq> 0" and "burst (tb_config b) \<noteq> 0"
    and "retry_after b now = (w, b')"
  shows "fst (try_consume b' (now + w))"
proof (cases "SCALE \<le> available (refill now b)")
  case True
  with assms(5) show ?thesis by (auto simp: retry_after_def try_consume_def Let_def)
next
  case False
  let ?b = "refill now b" and ?r = "requests_per_minute (tb_config b)"
  let ?miss = "SCALE - available ?b"
  let ?num = "?miss * NANOS_PER_MINUTE" and ?den = "ucast ?r * SCALE :: u128"
  let ?n = "max (div_ceil ?num ?den) 1"
  have miss: "unat ?miss = 1000000 - unat (available ?b)" and lt: "unat (available ?b) < 1000000"
    using False by (simp_all add: unat_sub not_le word_less_nat_alt word_le_nat_alt)
  have num: "unat ?num = unat ?miss * 60000000000" using miss by (simp add: unat_word_ariths)
  have den0: "?den \<noteq> 0" using assms(3) by (simp flip: unat_eq_0)
  have num_le: "?num \<le> 2 ^ 127" using num miss by (simp add: word_le_nat_alt)
  note D = div_ceil_mult [OF den0 num_le]
  have n_ge: "unat ?num \<le> unat ?n * unat ?den"
    using D(1) by (rule order_trans) (simp add: word_le_nat_alt max_def)
  have n_le: "unat ?n \<le> 60000000000000000"
    using D(2) num miss by (auto simp: max_def word_le_nat_alt)
  have w: "w = unat ?n" and b': "b' = ?b"
    using assms(3,5) False n_le by (auto simp: retry_after_def Let_def)
  have l: "last_refill b' = now" using assms(2) b' by (simp add: refill_last)
  have wf: "bucket_wf b'" using assms(1) b' by simp
  have ex: "refill_exact (now + w) b'" using n_le by (simp add: refill_exact_def l w)
  have "unat ?miss * 60000000000 \<le> w * unat ?r * 1000000"
    using n_ge num w by (simp add: mult.assoc)
  then have "unat ?miss \<le> (w * unat ?r * 1000000 + unat (remainder b')) div 60000000000"
    by (simp add: less_eq_div_iff_mult_less_eq)
  moreover have "1000000 \<le> unat (burst (tb_config b)) * 1000000"
    using assms(4) by (simp add: unat_gt_0 Suc_leI)
  ultimately have "1000000 \<le> unat (available (refill (now + w) b'))"
    using refill_settles(1) [OF wf ex] miss lt b' l by simp
  then show ?thesis by (simp add: try_consume_def Let_def word_less_nat_alt)
qed

theorem retry_after_suffices_witness:
  "let b = \<lparr>tb_config = CREDENTIAL_DEFAULT, available = 0, remainder = 0, last_refill = 5\<rparr> in
   fst (retry_after b 5) = 1000000000 \<and> fst (try_consume (snd (retry_after b 5)) (5 + fst (retry_after b 5)))"
proof -
  let ?b = "\<lparr>tb_config = CREDENTIAL_DEFAULT, available = 0, remainder = 0, last_refill = 5\<rparr>"
  have "fst (retry_after ?b 5) = 1000000000"
    by (simp add: retry_after_def refill_def dur_saturating_sub_def CREDENTIAL_DEFAULT_def div_ceil_def
        SCALE_def NANOS_PER_MINUTE_def)
  moreover have "fst (try_consume (snd (retry_after ?b 5)) (5 + fst (retry_after ?b 5)))"
    by (rule retry_after_suffices [where b = ?b and now = 5])
      (simp_all add: bucket_wf_alt CREDENTIAL_DEFAULT_def)
  ultimately show ?thesis by simp
qed

subsection \<open>The contract of a rate limiter\<close>

text \<open>
  What the scheduler engine relies on when it first previews a bucket and then charges it
  within the same instant: observing a settled limiter changes nothing and predicts the
  charge.
\<close>

locale rate_limiter =
  fixes consume :: "'b \<Rightarrow> duration \<Rightarrow> bool \<times> 'b"
    and preview :: "'b \<Rightarrow> duration \<Rightarrow> bool \<times> 'b"
    and retry :: "'b \<Rightarrow> duration \<Rightarrow> duration \<times> 'b"
  assumes preview_predicts: "preview b now = (ok, b') \<Longrightarrow> fst (consume b' now) = ok"
    and preview_settles: "preview b now = (ok, b') \<Longrightarrow> preview b' now = (ok, b')"
    and retry_previews: "snd (retry b now) = snd (preview b now)"
    and retry_zero: "preview b now = (True, b') \<Longrightarrow> retry b now = (0, b')"
begin

lemma charge_after_preview: "fst (preview b now) \<Longrightarrow> fst (consume (snd (preview b now)) now)"
  using preview_predicts [of b now] by (cases "preview b now") auto

lemma preview_idem: "preview (snd (preview b now)) now = preview b now"
  using preview_settles [of b now] by (cases "preview b now") auto

lemma snd_preview_idem: "snd (preview (snd (preview b now)) now) = snd (preview b now)"
  by (simp add: preview_idem)

lemma retry_after_preview:
  "retry (snd (preview b now)) now = (w, b') \<Longrightarrow> b' = snd (preview b now)"
  using retry_previews [of "snd (preview b now)" now] by (simp add: preview_idem)

end

interpretation tb: rate_limiter try_consume try_consume_preview retry_after
proof unfold_locales
  fix b b' :: TokenBucket and now :: duration and ok :: bool
  assume p: "try_consume_preview b now = (ok, b')"
  then have b': "b' = refill now b" and ok: "ok = (SCALE \<le> available b')"
    by (auto simp: try_consume_preview_def Let_def)
  show "fst (try_consume b' now) = ok"
    using ok by (auto simp: b' try_consume_def Let_def)
  show "try_consume_preview b' now = (ok, b')"
    using ok by (simp add: b' try_consume_preview_def Let_def)
next
  fix b :: TokenBucket and now :: duration
  show "snd (retry_after b now) = snd (try_consume_preview b now)"
    by (simp add: retry_after_def try_consume_preview_def Let_def)
next
  fix b b' :: TokenBucket and now :: duration
  assume "try_consume_preview b now = (True, b')"
  then show "retry_after b now = (0, b')"
    by (auto simp: retry_after_def try_consume_preview_def Let_def)
qed

end
