(* ===== verification/Scheduler_Types.thy ===== *)
theory Scheduler_Types
  imports Domain_Types Token_Bucket
begin

text \<open>
  The scheduler's value objects and externally observable decisions
  (\<^verbatim>\<open>gateway-scheduler/src/types.rs\<close>). A struct is a record whose fields carry a short
  prefix where two structs use the same field name; an enum is a datatype.
\<close>

subsection \<open>Errors and owner generation\<close>

datatype SchedulerError =
    InvalidGeneration | DuplicateRelease | DuplicateIdentifier | WrongGroup | InvalidConfiguration

datatype OwnerGeneration = OwnerGeneration (generation_get: u64)

definition OwnerGeneration_new :: "u64 \<Rightarrow> (SchedulerError, OwnerGeneration) result" where
  "OwnerGeneration_new value =
     (if value = 0 then Inl InvalidGeneration else Inr (OwnerGeneration value))"

record ExecutorIdentity =
  ei_group_id :: GroupId
  owner_partition :: string
  executor_id :: string
  ei_generation :: OwnerGeneration

datatype RuntimeLifecycle = Loading | Serving | Draining | OwnerUnavailable

subsection \<open>Configuration\<close>

record SessionCapacityConfig =
  sc_enabled :: bool
  max_active_sessions :: u32
  idle_ttl :: duration
  new_session_wait :: duration

definition SessionCapacityConfig_default :: SessionCapacityConfig where
  "SessionCapacityConfig_default =
     \<lparr>sc_enabled = False, max_active_sessions = - 1, idle_ttl = from_mins 30,
      new_session_wait = from_secs 5\<rparr>"

record GroupConfig =
  snapshot_version :: SnapshotVersion
  gc_concurrency_limit :: "u32 option"
  gc_rate_limit :: "BucketConfig option"
  gc_queue_capacity :: "nat option"
  pre_upstream_wait :: duration
  preferred_capacity_wait :: duration
  cancel_grace :: duration
  affinity_ttl :: duration
  affinity_migration_successes :: u32
  quota_guard_basis_points :: u16

definition GroupConfig_default :: GroupConfig where
  "GroupConfig_default =
     \<lparr>snapshot_version = SnapshotVersion ''v1'', gc_concurrency_limit = None, gc_rate_limit = None,
      gc_queue_capacity = None, pre_upstream_wait = from_secs 30,
      preferred_capacity_wait = from_secs 2, cancel_grace = from_secs 2,
      affinity_ttl = from_hours 24, affinity_migration_successes = 3,
      quota_guard_basis_points = 9500\<rparr>"

datatype EligibilityClass = Eligible | TemporarilyBlocked | DeterministicallyIneligible

record CredentialState =
  lifecycle_active :: bool
  auth_healthy :: bool
  profile_ready :: bool
  egress_ready :: bool
  transport_ready :: bool
  cooldown_until :: "duration option"
  quota_used_basis_points :: "u16 option"
  quota_reset_at :: "duration option"
  half_open_inflight :: bool

definition CredentialState_default :: CredentialState where
  "CredentialState_default =
     \<lparr>lifecycle_active = True, auth_healthy = True, profile_ready = True, egress_ready = True,
      transport_ready = True, cooldown_until = None, quota_used_basis_points = None,
      quota_reset_at = None, half_open_inflight = False\<rparr>"

record CredentialCooldownUpdate =
  cu_credential_id :: CredentialId
  cu_cooldown_until :: "duration option"

record CredentialAuthUpdate =
  au_credential_id :: CredentialId
  au_token_version :: u64
  au_auth_healthy :: bool

record CredentialQuotaUpdate =
  qu_credential_id :: CredentialId
  qu_observation_version :: u128
  qu_used_basis_points :: u16
  qu_reset_at :: duration

datatype CredentialFenceResult = FenceApplied (fence_inflight: u32) | FenceMissing | FenceStaleIgnored

datatype CredentialRemoveResult =
    Removed | Busy (busy_inflight: u32) | NotFenced | RemoveMissing | RemoveStaleIgnored

record CredentialProfileConfig =
  profile_id :: CredentialProfileId
  profile_epoch :: u64
  device_identity_id :: DeviceIdentityId
  device_epoch :: u64
  archetype_version_id :: ArchetypeVersionId
  bundle_id :: TransportBundleId
  bundle_version :: u64
  bundle_hash :: Digest
  egress_binding_id :: EgressBindingId
  cp_egress_epoch :: u64
  bundle_epoch :: u64

record OpenAiTransportConfig =
  oa_revision :: u64
  oa_egress_epoch :: u64

datatype CredentialExecution = Anthropic CredentialProfileConfig | OpenAi OpenAiTransportConfig

record CredentialConfig =
  cc_id :: CredentialId
  credential_projection_revision :: u64
  scheduling_projection_revision :: u64
  cc_concurrency_limit :: u32
  cc_rate_limit :: BucketConfig
  priority :: u16
  weight :: u32
  model_scope :: "string set"
  attribution_optional :: bool
  session_capacity :: SessionCapacityConfig
  min_request_interval :: "duration option"
  token_version :: u64
  openai_transport :: "OpenAiTransportConfig option"
  profiles :: "(ClientOs, CredentialProfileConfig) btree"
  cc_quota_observation_version :: "u128 option"
  cc_state :: CredentialState

subsection \<open>Requests, tickets and leases\<close>

record ScheduleEntry =
  se_request_id :: RequestId
  owner_user_id :: UserId
  se_platform_key_id :: PlatformKeyId
  se_group_id :: GroupId
  se_base_session_id :: SessionId
  se_agent_id :: AgentId
  se_client_os :: ClientOs
  generic :: GenericAdjustedRequest
  accepted_at :: duration
  pre_upstream_deadline :: duration
  bypass_queue :: bool

text \<open>The derived order of \<^verbatim>\<open>AffinityKey\<close> is lexicographic in its fields, as the product's.\<close>

type_synonym AffinityKey = "PlatformKeyId \<times> SessionId \<times> AgentId \<times> string"

definition AffinityKey_from :: "ScheduleEntry \<Rightarrow> AffinityKey" where
  "AffinityKey_from entry =
     (se_platform_key_id entry, se_base_session_id entry, se_agent_id entry, model_id (generic entry))"

datatype TicketState = TicketQueued | TicketGranted | TicketCancelled | TicketTimedOut

record QueueTicket =
  qt_id :: TicketId
  qt_request_id :: RequestId
  qt_deadline :: duration
  qt_state :: TicketState
  qt_generation :: OwnerGeneration

datatype RejectionKind =
    GroupUnavailable | QueueFull | GroupRateDeadline | CooldownBeyondDeadline | TimedOut
  | Cancelled | DuplicateRequest | SessionCapacityDeadline

record Rejection =
  rejection_kind :: RejectionKind
  rejection_retry_after :: "duration option"

record CredentialLease =
  cl_id :: LeaseId
  cl_request_id :: RequestId
  cl_credential_id :: CredentialId
  cl_client_os :: ClientOs
  owner_generation :: OwnerGeneration
  cl_token_version :: u64
  execution :: CredentialExecution
  half_open :: bool

fun anthropic_profile :: "CredentialExecution \<Rightarrow> CredentialProfileConfig option" where
  "anthropic_profile (Anthropic profile) = Some profile"
| "anthropic_profile (OpenAi _) = None"

datatype AdmissionDecision =
    Granted CredentialLease | Queued QueueTicket | Rejected Rejection | StaleIgnored

record QueueResolution =
  qr_request_id :: RequestId
  decision :: AdmissionDecision

datatype RetryCredentialTarget = Same CredentialId | Alternate (exclude: CredentialId)

record RetryLeaseRequest =
  current_lease_id :: LeaseId
  rl_entry :: ScheduleEntry
  target :: RetryCredentialTarget

datatype RetryLeaseDecision = RetryGranted CredentialLease | NoCandidate | RetryStaleIgnored

datatype LeaseRelease = Released | ReleaseStaleIgnored

datatype ResourceKind = GroupPermit | QueueTicketResource | SessionClaimResource | CredentialLeaseResource

datatype ResourceAction = Acquire | Release | ForcedRelease

record ResourceEvent =
  sequence_number :: u64
  re_request_id :: RequestId
  resource_kind :: ResourceKind
  re_resource_id :: string
  action :: ResourceAction
  re_portability :: Portability
  re_generation :: OwnerGeneration
  observed_at :: duration

record SchedulerSnapshot =
  ss_generation :: OwnerGeneration
  ss_lifecycle :: RuntimeLifecycle
  group_config_version :: SnapshotVersion
  configured_concurrency :: "u32 option"
  ss_effective_concurrency :: nat
  total_credential_capacity :: u32
  ss_queue_capacity :: nat
  active_leases :: nat
  active_group_permits :: nat
  queued_tickets :: nat
  credential_inflight :: "(CredentialId \<times> u32) list"
  fenced_credentials :: "CredentialId list"
  ss_session_claims :: nat
  ss_resource_balance :: int

subsection \<open>Fixtures\<close>

text \<open>A request and a schedule entry for the witnesses, as the source's test fixtures build them.\<close>

definition sample_request :: "Portability \<Rightarrow> GenericAdjustedRequest" where
  "sample_request p =
     \<lparr>replay_body = \<lparr>rb_bytes = [], rb_reused_original = True\<rparr>, body_digest = Digest [], model_id = ''m'',
      stream_mode = True, portability = p, attribution_suppressed = False,
      system_template_pending = False, change_set = [],
      snapshot_set = \<lparr>access_policy = SnapshotVersion ''v1'', group_config = SnapshotVersion ''v1'',
        enforcement = SnapshotVersion ''v1'', ruleset = None, capability = SnapshotVersion ''v1'',
        client_profile_catalog = SnapshotVersion ''v1'', price = SnapshotVersion ''v1'',
        serializer = SnapshotVersion ''v1''\<rparr>\<rparr>"

definition sample_entry :: "string \<Rightarrow> string \<Rightarrow> ScheduleEntry" where
  "sample_entry rid user =
     \<lparr>se_request_id = TypedId rid, owner_user_id = TypedId user, se_platform_key_id = TypedId ''k'',
      se_group_id = TypedId ''g'', se_base_session_id = TypedId ''s'', se_agent_id = TypedId ''a'',
      se_client_os = Linux, generic = sample_request Portable, accepted_at = 0,
      pre_upstream_deadline = 30, bypass_queue = False\<rparr>"

end
