(* ===== verification/Fair_Queue.thy ===== *)
theory Fair_Queue
  imports Scheduler_Types
begin

text \<open>
  The hierarchical round-robin queue of \<^verbatim>\<open>gateway-scheduler/src/fair_queue.rs\<close>: users, then
  platform keys, then base sessions, then agents, then a FIFO of entries. The three inner
  levels (\<^verbatim>\<open>UserNode\<close>, \<^verbatim>\<open>KeyNode\<close>, \<^verbatim>\<open>SessionNode\<close>) are the same code over different child
  types, written here once as operations on \<open>ring_node\<close>; the top level \<^verbatim>\<open>FairQueue\<close> adds
  the entry count. The \<^verbatim>\<open>FnMut\<close> argument of \<^verbatim>\<open>pop_runnable\<close> is a function on the state it
  captures.

  The locale \<open>entry_queue\<close> is the contract of one level: a multiset of entries, a FIFO per
  path, and what pushing, popping and removing do to them. A ring over children that keep
  the contract keeps it too (\<open>ring_queue\<close>), so each level is one interpretation.
\<close>

subsection \<open>Leaf: one agent's FIFO\<close>

record AgentNode =
  agent_entries :: "ScheduleEntry list"

definition AgentNode_default :: AgentNode where
  "AgentNode_default = \<lparr>agent_entries = []\<rparr>"

definition AgentNode_push :: "ScheduleEntry \<Rightarrow> AgentNode \<Rightarrow> AgentNode" where
  "AgentNode_push entry n = n\<lparr>agent_entries := agent_entries n @ [entry]\<rparr>"

definition AgentNode_pop_runnable ::
  "(ScheduleEntry \<Rightarrow> 's \<Rightarrow> bool \<times> 's) \<Rightarrow> AgentNode \<Rightarrow> 's \<Rightarrow> ScheduleEntry option \<times> AgentNode \<times> 's" where
  "AgentNode_pop_runnable runnable n s =
     (case agent_entries n of
        [] \<Rightarrow> (None, n, s)
      | e # es \<Rightarrow> (case runnable e s of
            (True, s') \<Rightarrow> (Some e, n\<lparr>agent_entries := es\<rparr>, s')
          | (False, s') \<Rightarrow> (None, n, s')))"

text \<open>\<^verbatim>\<open>position\<close> followed by \<^verbatim>\<open>remove(index)\<close>: the first entry of the request leaves the list.\<close>

fun remove_first :: "('e \<Rightarrow> bool) \<Rightarrow> 'e list \<Rightarrow> 'e option \<times> 'e list" where
  "remove_first P [] = (None, [])"
| "remove_first P (e # es) =
     (if P e then (Some e, es) else case remove_first P es of (r, es') \<Rightarrow> (r, e # es'))"

definition AgentNode_remove :: "RequestId \<Rightarrow> AgentNode \<Rightarrow> ScheduleEntry option \<times> AgentNode" where
  "AgentNode_remove rid n =
     (case remove_first (\<lambda>e. se_request_id e = rid) (agent_entries n) of
        (r, es) \<Rightarrow> (r, n\<lparr>agent_entries := es\<rparr>))"

definition AgentNode_is_empty :: "AgentNode \<Rightarrow> bool" where
  "AgentNode_is_empty n \<longleftrightarrow> agent_entries n = []"

subsection \<open>A ring of children\<close>

record ('k, 'v) ring_node =
  children :: "('k, 'v) btree"
  ring :: "'k list"

definition ring_default :: "('k, 'v) ring_node" where
  "ring_default = \<lparr>children = [], ring = []\<rparr>"

definition ring_push ::
  "('e \<Rightarrow> 'k::linorder) \<Rightarrow> 'v \<Rightarrow> ('e \<Rightarrow> 'v \<Rightarrow> 'v) \<Rightarrow> 'e \<Rightarrow> ('k, 'v) ring_node \<Rightarrow> ('k, 'v) ring_node" where
  "ring_push key dflt push entry n =
     (let k = key entry;
          n1 = (if bt_contains (children n) k then n
                else n\<lparr>children := bt_insert k dflt (children n), ring := ring n @ [k]\<rparr>)
      in n1\<lparr>children := bt_modify k (push entry) (children n1)\<rparr>)"

text \<open>One turn of the loop in \<^verbatim>\<open>pop_runnable\<close>, after \<open>key\<close> was taken from the ring's front.\<close>

definition ring_turn ::
  "('v \<Rightarrow> 's \<Rightarrow> 'e option \<times> 'v \<times> 's) \<Rightarrow> ('v \<Rightarrow> bool) \<Rightarrow> 'k \<Rightarrow> ('k, 'v) ring_node \<Rightarrow> 's \<Rightarrow>
   'e option \<times> ('k, 'v) ring_node \<times> 's" where
  "ring_turn pop is_empty key n s =
     (case (case bt_get (children n) key of
              None \<Rightarrow> (None, n, s)
            | Some c \<Rightarrow> (case pop c s of (entry, c', s') \<Rightarrow>
                (entry, n\<lparr>children := bt_modify key (\<lambda>_. c') (children n)\<rparr>, s'))) of
        (entry, n1, s1) \<Rightarrow>
          (entry,
           (if is_some_and (bt_get (children n1) key) is_empty
            then n1\<lparr>children := bt_remove key (children n1)\<rparr>
            else n1\<lparr>ring := ring n1 @ [key]\<rparr>),
           s1))"

fun ring_pop_turns ::
  "nat \<Rightarrow> ('v \<Rightarrow> 's \<Rightarrow> 'e option \<times> 'v \<times> 's) \<Rightarrow> ('v \<Rightarrow> bool) \<Rightarrow> ('k, 'v) ring_node \<Rightarrow> 's \<Rightarrow>
   'e option \<times> ('k, 'v) ring_node \<times> 's" where
  "ring_pop_turns 0 pop is_empty n s = (None, n, s)"
| "ring_pop_turns (Suc turns) pop is_empty n s =
     (case ring n of
        [] \<Rightarrow> (None, n, s)
      | key # rest \<Rightarrow> (case ring_turn pop is_empty key (n\<lparr>ring := rest\<rparr>) s of
            (Some entry, n', s') \<Rightarrow> (Some entry, n', s')
          | (None, n', s') \<Rightarrow> ring_pop_turns turns pop is_empty n' s'))"

definition ring_pop ::
  "('v \<Rightarrow> 's \<Rightarrow> 'e option \<times> 'v \<times> 's) \<Rightarrow> ('v \<Rightarrow> bool) \<Rightarrow> ('k, 'v) ring_node \<Rightarrow> 's \<Rightarrow>
   'e option \<times> ('k, 'v) ring_node \<times> 's" where
  "ring_pop pop is_empty n s = ring_pop_turns (length (ring n)) pop is_empty n s"

fun remove_from_keys ::
  "'k list \<Rightarrow> ('v \<Rightarrow> 'e option \<times> 'v) \<Rightarrow> ('v \<Rightarrow> bool) \<Rightarrow> ('k, 'v) ring_node \<Rightarrow>
   'e option \<times> ('k, 'v) ring_node" where
  "remove_from_keys [] remove is_empty n = (None, n)"
| "remove_from_keys (key # keys) remove is_empty n =
     (case (case bt_get (children n) key of
              None \<Rightarrow> (None, n)
            | Some c \<Rightarrow> (case remove c of (entry, c') \<Rightarrow>
                (entry, n\<lparr>children := bt_modify key (\<lambda>_. c') (children n)\<rparr>))) of
        (entry, n1) \<Rightarrow>
          (let n2 = (if is_some_and (bt_get (children n1) key) is_empty
                    then n1\<lparr>children := bt_remove key (children n1), ring := filter (\<lambda>k. k \<noteq> key) (ring n1)\<rparr>
                    else n1)
          in case entry of
               Some e \<Rightarrow> (Some e, n2)
             | None \<Rightarrow> remove_from_keys keys remove is_empty n2))"

definition remove_from_children ::
  "('v \<Rightarrow> 'e option \<times> 'v) \<Rightarrow> ('v \<Rightarrow> bool) \<Rightarrow> ('k, 'v) ring_node \<Rightarrow> 'e option \<times> ('k, 'v) ring_node" where
  "remove_from_children remove is_empty n = remove_from_keys (ring n) remove is_empty n"

definition ring_is_empty :: "('k, 'v) ring_node \<Rightarrow> bool" where
  "ring_is_empty n \<longleftrightarrow> children n = []"

subsection \<open>Sessions, keys, users\<close>

type_synonym SessionNode = "(AgentId, AgentNode) ring_node"
type_synonym KeyNode = "(SessionId, SessionNode) ring_node"
type_synonym UserNode = "(PlatformKeyId, KeyNode) ring_node"

definition SessionNode_push :: "ScheduleEntry \<Rightarrow> SessionNode \<Rightarrow> SessionNode" where
  "SessionNode_push = ring_push se_agent_id AgentNode_default AgentNode_push"

definition SessionNode_pop_runnable ::
  "(ScheduleEntry \<Rightarrow> 's \<Rightarrow> bool \<times> 's) \<Rightarrow> SessionNode \<Rightarrow> 's \<Rightarrow> ScheduleEntry option \<times> SessionNode \<times> 's" where
  "SessionNode_pop_runnable runnable = ring_pop (AgentNode_pop_runnable runnable) AgentNode_is_empty"

definition SessionNode_remove :: "RequestId \<Rightarrow> SessionNode \<Rightarrow> ScheduleEntry option \<times> SessionNode" where
  "SessionNode_remove rid = remove_from_children (AgentNode_remove rid) AgentNode_is_empty"

definition KeyNode_push :: "ScheduleEntry \<Rightarrow> KeyNode \<Rightarrow> KeyNode" where
  "KeyNode_push = ring_push se_base_session_id ring_default SessionNode_push"

definition KeyNode_pop_runnable ::
  "(ScheduleEntry \<Rightarrow> 's \<Rightarrow> bool \<times> 's) \<Rightarrow> KeyNode \<Rightarrow> 's \<Rightarrow> ScheduleEntry option \<times> KeyNode \<times> 's" where
  "KeyNode_pop_runnable runnable = ring_pop (SessionNode_pop_runnable runnable) ring_is_empty"

definition KeyNode_remove :: "RequestId \<Rightarrow> KeyNode \<Rightarrow> ScheduleEntry option \<times> KeyNode" where
  "KeyNode_remove rid = remove_from_children (SessionNode_remove rid) ring_is_empty"

definition UserNode_push :: "ScheduleEntry \<Rightarrow> UserNode \<Rightarrow> UserNode" where
  "UserNode_push = ring_push se_platform_key_id ring_default KeyNode_push"

definition UserNode_pop_runnable ::
  "(ScheduleEntry \<Rightarrow> 's \<Rightarrow> bool \<times> 's) \<Rightarrow> UserNode \<Rightarrow> 's \<Rightarrow> ScheduleEntry option \<times> UserNode \<times> 's" where
  "UserNode_pop_runnable runnable = ring_pop (KeyNode_pop_runnable runnable) ring_is_empty"

definition UserNode_remove :: "RequestId \<Rightarrow> UserNode \<Rightarrow> ScheduleEntry option \<times> UserNode" where
  "UserNode_remove rid = remove_from_children (KeyNode_remove rid) ring_is_empty"

subsection \<open>The queue\<close>

text \<open>The struct's fields \<^verbatim>\<open>users\<close> and \<^verbatim>\<open>ring\<close> are the two fields of \<open>users\<close> here.\<close>

record FairQueue =
  users :: "(UserId, UserNode) ring_node"
  fq_len :: nat

definition FairQueue_default :: FairQueue where
  "FairQueue_default = \<lparr>users = ring_default, fq_len = 0\<rparr>"

definition FairQueue_push :: "ScheduleEntry \<Rightarrow> FairQueue \<Rightarrow> FairQueue" where
  "FairQueue_push entry q =
     q\<lparr>users := ring_push owner_user_id ring_default UserNode_push entry (users q),
       fq_len := fq_len q + 1\<rparr>"

definition FairQueue_pop_runnable ::
  "(ScheduleEntry \<Rightarrow> 's \<Rightarrow> bool \<times> 's) \<Rightarrow> FairQueue \<Rightarrow> 's \<Rightarrow> ScheduleEntry option \<times> FairQueue \<times> 's" where
  "FairQueue_pop_runnable runnable q s =
     (case ring_pop (UserNode_pop_runnable runnable) ring_is_empty (users q) s of
        (Some entry, u, s') \<Rightarrow> (Some entry, q\<lparr>users := u, fq_len := fq_len q - 1\<rparr>, s')
      | (None, u, s') \<Rightarrow> (None, q\<lparr>users := u\<rparr>, s'))"

definition FairQueue_remove :: "RequestId \<Rightarrow> FairQueue \<Rightarrow> ScheduleEntry option \<times> FairQueue" where
  "FairQueue_remove rid q =
     (case remove_from_children (UserNode_remove rid) ring_is_empty (users q) of
        (Some entry, u) \<Rightarrow> (Some entry, q\<lparr>users := u, fq_len := fq_len q - 1\<rparr>)
      | (None, u) \<Rightarrow> (None, q\<lparr>users := u\<rparr>))"

subsection \<open>Popping shrinks the queue\<close>

text \<open>The number of stored entries, which bounds the loops that pop until nothing is left.\<close>

definition ring_size :: "('v \<Rightarrow> nat) \<Rightarrow> ('k, 'v) ring_node \<Rightarrow> nat" where
  "ring_size sz n = sum_list (map (\<lambda>p. sz (snd p)) (children n))"

definition queue_size :: "FairQueue \<Rightarrow> nat" where
  "queue_size q =
     ring_size (ring_size (ring_size (ring_size (\<lambda>a. length (agent_entries a))))) (users q)"

definition shrinks :: "('q \<Rightarrow> nat) \<Rightarrow> ('q \<Rightarrow> 's \<Rightarrow> 'e option \<times> 'q \<times> 's) \<Rightarrow> bool" where
  "shrinks sz pop \<longleftrightarrow>
     (\<forall>q s. case pop q s of (entry, q', s') \<Rightarrow> sz q' + (if entry = None then 0 else 1) \<le> sz q)"

lemma shrinksI:
  "(\<And>q s entry q' s'. pop q s = (entry, q', s') \<Longrightarrow> sz q' + (if entry = None then 0 else 1) \<le> sz q) \<Longrightarrow>
   shrinks sz pop"
  by (simp add: shrinks_def split: prod.splits)

lemma shrinksD:
  "shrinks sz pop \<Longrightarrow> pop q s = (entry, q', s') \<Longrightarrow> sz q' + (if entry = None then 0 else 1) \<le> sz q"
  unfolding shrinks_def by (metis (mono_tags, lifting) case_prod_conv)

lemma sum_modify:
  "bt_get m k = Some c \<Longrightarrow>
   sum_list (map (\<lambda>p. sz (snd p)) (bt_modify k (\<lambda>_. c') m)) + (sz c :: nat) =
   sum_list (map (\<lambda>p. sz (snd p)) m) + sz c'"
  by (induction m) (auto split: if_splits)

lemma sum_filter_le: "sum_list (map (f :: _ \<Rightarrow> nat) (filter P xs)) \<le> sum_list (map f xs)"
  by (induction xs) auto

lemma sum_remove_le:
  "bt_get m k = Some c \<Longrightarrow>
   sum_list (map (\<lambda>p. sz (snd p)) (bt_remove k m)) + (sz c :: nat) \<le> sum_list (map (\<lambda>p. sz (snd p)) m)"
proof (induction m)
  case (Cons p m)
  then show ?case
    using sum_filter_le [of "\<lambda>p. sz (snd p)" "\<lambda>p. fst p \<noteq> k" m]
    by (cases p) (auto simp: bt_remove_def split: if_splits)
qed simp

lemma ring_turn_size:
  assumes "shrinks sz pop" and "ring_turn pop emp key n s = (entry, n', s')"
  shows "ring_size sz n' + (if entry = None then 0 else 1) \<le> ring_size sz n"
proof (cases "bt_get (children n) key")
  case None
  with assms(2) show ?thesis by (auto simp: ring_turn_def ring_size_def)
next
  case (Some c)
  obtain en c' s1 where p: "pop c s = (en, c', s1)" by (metis prod_cases3)
  have le: "sz c' + (if en = None then 0 else 1) \<le> sz c" using shrinksD [OF assms(1) p] .
  have m: "sum_list (map (\<lambda>p. sz (snd p)) (bt_modify key (\<lambda>_. c') (children n))) + sz c =
      ring_size sz n + sz c'"
    using sum_modify [of "children n" key c sz c'] Some by (simp add: ring_size_def)
  have r: "sum_list (map (\<lambda>p. sz (snd p)) (bt_remove key (bt_modify key (\<lambda>_. c') (children n)))) + sz c' \<le>
      sum_list (map (\<lambda>p. sz (snd p)) (bt_modify key (\<lambda>_. c') (children n)))"
    using Some by (intro sum_remove_le) simp
  from assms(2) p Some le m r show ?thesis
    by (auto simp: ring_turn_def ring_size_def split: if_splits)
qed

lemma ring_pop_turns_size:
  "shrinks sz pop \<Longrightarrow> ring_pop_turns t pop emp n s = (entry, n', s') \<Longrightarrow>
   ring_size sz n' + (if entry = None then 0 else 1) \<le> ring_size sz n"
proof (induction t arbitrary: n s)
  case 0
  then show ?case by simp
next
  case (Suc t)
  show ?case
  proof (cases "ring n")
    case Nil
    with Suc.prems show ?thesis by simp
  next
    case (Cons key rest)
    obtain en n1 s1 where tn: "ring_turn pop emp key (n\<lparr>ring := rest\<rparr>) s = (en, n1, s1)"
      by (metis prod_cases3)
    have 1: "ring_size sz n1 + (if en = None then 0 else 1) \<le> ring_size sz n"
      using ring_turn_size [OF Suc.prems(1) tn] by (simp add: ring_size_def)
    show ?thesis
    proof (cases en)
      case None
      with Suc.prems(2) Cons tn have "ring_pop_turns t pop emp n1 s1 = (entry, n', s')" by simp
      from Suc.IH [OF Suc.prems(1) this] 1 None show ?thesis by simp
    next
      case (Some e)
      with Suc.prems(2) Cons tn 1 show ?thesis by auto
    qed
  qed
qed

lemma shrinks_ring_pop: "shrinks sz pop \<Longrightarrow> shrinks (ring_size sz) (ring_pop pop emp)"
  by (rule shrinksI) (auto simp: ring_pop_def dest: ring_pop_turns_size)

lemma shrinks_agent: "shrinks (\<lambda>a. length (agent_entries a)) (AgentNode_pop_runnable r)"
  by (rule shrinksI) (auto simp: AgentNode_pop_runnable_def split: list.splits prod.splits bool.splits)

lemma pop_runnable_size:
  "FairQueue_pop_runnable r q s = (Some e, q', s') \<Longrightarrow> queue_size q' < queue_size q"
proof -
  have "shrinks (ring_size (ring_size (ring_size (ring_size (\<lambda>a. length (agent_entries a))))))
      (ring_pop (UserNode_pop_runnable r) ring_is_empty)"
    unfolding UserNode_pop_runnable_def KeyNode_pop_runnable_def SessionNode_pop_runnable_def
    by (intro shrinks_ring_pop shrinks_agent)
  from shrinksD [OF this] show
    "FairQueue_pop_runnable r q s = (Some e, q', s') \<Longrightarrow> queue_size q' < queue_size q"
    by (fastforce simp: FairQueue_pop_runnable_def queue_size_def split: prod.splits option.splits)
qed

text \<open>\<^verbatim>\<open>drain\<close> pops with an always-true predicate until nothing comes back.\<close>

function FairQueue_drain_from :: "FairQueue \<Rightarrow> ScheduleEntry list \<times> FairQueue" where
  "FairQueue_drain_from q =
     (case FairQueue_pop_runnable (\<lambda>_ u. (True, u)) q () of
        (None, q', _) \<Rightarrow> ([], q')
      | (Some e, q', _) \<Rightarrow> (case FairQueue_drain_from q' of (es, q'') \<Rightarrow> (e # es, q'')))"
  by pat_completeness auto
termination
  by (relation "measure queue_size") (auto dest: pop_runnable_size [OF sym])

declare FairQueue_drain_from.simps [simp del]

definition FairQueue_drain :: "FairQueue \<Rightarrow> ScheduleEntry list \<times> FairQueue" where
  "FairQueue_drain q = FairQueue_drain_from q"

subsection \<open>The contract of one level\<close>

locale entry_queue =
  fixes push :: "'e \<Rightarrow> 'q \<Rightarrow> 'q"
    and pop :: "('e \<Rightarrow> 's \<Rightarrow> bool \<times> 's) \<Rightarrow> 'q \<Rightarrow> 's \<Rightarrow> 'e option \<times> 'q \<times> 's"
    and remove :: "'r \<Rightarrow> 'q \<Rightarrow> 'e option \<times> 'q"
    and is_empty :: "'q \<Rightarrow> bool"
    and empty :: 'q
    and rid :: "'e \<Rightarrow> 'r"
    and path :: "'e \<Rightarrow> 'p"
    and fifo :: "'q \<Rightarrow> 'p \<Rightarrow> 'e list"
    and entries :: "'q \<Rightarrow> 'e multiset"
    and inv :: "'q \<Rightarrow> bool"
  assumes inv_empty: "inv empty"
    and entries_empty: "entries empty = {#}"
    and fifo_empty: "fifo empty p = []"
    and is_empty_iff: "inv q \<Longrightarrow> is_empty q \<longleftrightarrow> entries q = {#}"
    and inv_push: "inv q \<Longrightarrow> inv (push e q)"
    and entries_push: "inv q \<Longrightarrow> entries (push e q) = add_mset e (entries q)"
    and fifo_push: "inv q \<Longrightarrow> fifo (push e q) p = (if p = path e then fifo q p @ [e] else fifo q p)"
    and fifo_entry: "inv q \<Longrightarrow> e \<in># entries q \<longleftrightarrow> e \<in> set (fifo q (path e))"
    and fifo_path: "inv q \<Longrightarrow> e \<in> set (fifo q p) \<Longrightarrow> path e = p"
    and pop_Some: "inv q \<Longrightarrow> pop r q s = (Some e, q', s') \<Longrightarrow>
      inv q' \<and> entries q = add_mset e (entries q') \<and> fifo q (path e) = e # fifo q' (path e) \<and>
      (\<forall>p. p \<noteq> path e \<longrightarrow> fifo q' p = fifo q p)"
    and pop_None: "inv q \<Longrightarrow> pop r q s = (None, q', s') \<Longrightarrow>
      inv q' \<and> entries q' = entries q \<and> (\<forall>p. fifo q' p = fifo q p)"
    and pop_state: "inv q \<Longrightarrow> J s \<Longrightarrow> (\<And>e s. e \<in># entries q \<Longrightarrow> J s \<Longrightarrow> J (snd (r e s))) \<Longrightarrow>
      pop r q s = (res, q', s') \<Longrightarrow> J s' \<and> (\<forall>e. res = Some e \<longrightarrow> (\<exists>s0. J s0 \<and> r e s0 = (True, s')))"
    and pop_refused: "inv q \<Longrightarrow> pop r q s = (None, q', s') \<Longrightarrow> fifo q p \<noteq> [] \<Longrightarrow>
      \<exists>s0 s1. r (hd (fifo q p)) s0 = (False, s1)"
    and remove_Some: "inv q \<Longrightarrow> remove x q = (Some e, q') \<Longrightarrow>
      inv q' \<and> rid e = x \<and> entries q = add_mset e (entries q') \<and>
      fifo q' (path e) = snd (remove_first (\<lambda>e. rid e = x) (fifo q (path e))) \<and>
      (\<forall>p. p \<noteq> path e \<longrightarrow> fifo q' p = fifo q p)"
    and remove_None: "inv q \<Longrightarrow> remove x q = (None, q') \<Longrightarrow> q' = q \<and> (\<forall>e. e \<in># entries q \<longrightarrow> rid e \<noteq> x)"

subsection \<open>Rings over children that keep the contract\<close>

definition ring_entries :: "('v \<Rightarrow> 'e multiset) \<Rightarrow> ('k, 'v) ring_node \<Rightarrow> 'e multiset" where
  "ring_entries ents n = sum_list (map (\<lambda>p. ents (snd p)) (children n))"

definition ring_fifo :: "('v \<Rightarrow> 'p \<Rightarrow> 'e list) \<Rightarrow> ('k, 'v) ring_node \<Rightarrow> 'k \<times> 'p \<Rightarrow> 'e list" where
  "ring_fifo fifo n kp = (case bt_get (children n) (fst kp) of None \<Rightarrow> [] | Some c \<Rightarrow> fifo c (snd kp))"

definition ring_inv ::
  "('e \<Rightarrow> 'k::linorder) \<Rightarrow> ('v \<Rightarrow> bool) \<Rightarrow> ('v \<Rightarrow> 'e multiset) \<Rightarrow> ('k, 'v) ring_node \<Rightarrow> bool" where
  "ring_inv key cinv ents n \<longleftrightarrow>
     bt_wf (children n) \<and> distinct (ring n) \<and> set (ring n) = dom (map_of (children n)) \<and>
     (\<forall>k c. bt_get (children n) k = Some c \<longrightarrow> cinv c \<and> ents c \<noteq> {#} \<and> (\<forall>e. e \<in># ents c \<longrightarrow> key e = k))"

lemma sum_split_key:
  fixes g :: "'v \<Rightarrow> 'm::comm_monoid_add"
  shows "bt_wf m \<Longrightarrow> bt_get m k = Some c \<Longrightarrow>
   sum_list (map (\<lambda>p. g (snd p)) m) = g c + sum_list (map (\<lambda>p. g (snd p)) (bt_remove k m))"
proof (induction m)
  case Nil
  then show ?case by simp
next
  case (Cons p m)
  show ?case
  proof (cases "fst p = k")
    case True
    then have "bt_get m k = None"
      using Cons.prems(1) by (auto simp: map_of_eq_None_iff image_iff)
    then have "bt_remove k (p # m) = m" "c = snd p"
      using True Cons.prems(2) bt_remove_absent [of m k] by (cases p; auto simp: bt_remove_def)+
    then show ?thesis by simp
  next
    case False
    then have "bt_remove k (p # m) = p # bt_remove k m" "bt_get m k = Some c"
      using Cons.prems(2) by (cases p; auto simp: bt_remove_def)+
    with Cons show ?thesis by (simp add: ac_simps)
  qed
qed

lemma remove_modify [simp]: "bt_remove k (bt_modify k f m) = bt_remove k m"
  by (induction m) (auto simp: bt_remove_def)

lemma remove_insert [simp]: "bt_remove k (bt_insert k v m) = bt_remove k m"
  by (induction m) (auto simp: bt_remove_def)

lemma ring_entries_split:
  "bt_wf (children n) \<Longrightarrow> bt_get (children n) k = Some c \<Longrightarrow>
   ring_entries ents n = ents c + sum_list (map (\<lambda>p. ents (snd p)) (bt_remove k (children n)))"
  unfolding ring_entries_def by (rule sum_split_key)

lemma in_ring_entries:
  "bt_wf (children n) \<Longrightarrow>
   e \<in># ring_entries ents n \<longleftrightarrow> (\<exists>k c. bt_get (children n) k = Some c \<and> e \<in># ents c)"
proof -
  assume wf: "bt_wf (children n)"
  have "e \<in># sum_list (map (\<lambda>p. ents (snd p)) m) \<longleftrightarrow> (\<exists>p \<in> set m. e \<in># ents (snd p))" for m :: "('a \<times> 'b) list"
    by (induction m) auto
  with wf show ?thesis
    by (force simp: ring_entries_def bt_get_eq_Some)
qed

locale ring_queue = entry_queue push pop remove is_empty empty rid path fifo entries inv
  for push :: "'e \<Rightarrow> 'q \<Rightarrow> 'q"
    and pop :: "('e \<Rightarrow> 's \<Rightarrow> bool \<times> 's) \<Rightarrow> 'q \<Rightarrow> 's \<Rightarrow> 'e option \<times> 'q \<times> 's"
    and remove :: "'r \<Rightarrow> 'q \<Rightarrow> 'e option \<times> 'q"
    and is_empty :: "'q \<Rightarrow> bool" and empty :: 'q and rid :: "'e \<Rightarrow> 'r" and path :: "'e \<Rightarrow> 'p"
    and fifo :: "'q \<Rightarrow> 'p \<Rightarrow> 'e list" and entries :: "'q \<Rightarrow> 'e multiset" and inv :: "'q \<Rightarrow> bool" +
  fixes key :: "'e \<Rightarrow> 'k::linorder"
begin

lemma ring_invD:
  assumes "ring_inv key inv entries n"
  shows "bt_wf (children n)" "distinct (ring n)" "set (ring n) = dom (map_of (children n))"
    "bt_get (children n) k = Some c \<Longrightarrow> inv c"
    "bt_get (children n) k = Some c \<Longrightarrow> entries c \<noteq> {#}"
    "bt_get (children n) k = Some c \<Longrightarrow> e \<in># entries c \<Longrightarrow> key e = k"
  using assms by (auto simp: ring_inv_def)

lemma push_child:
  fixes e :: 'e
  assumes I: "ring_inv key inv entries n"
  defines "c \<equiv> (case bt_get (children n) (key e) of None \<Rightarrow> empty | Some c \<Rightarrow> c)"
  defines "n' \<equiv> ring_push key empty push e n"
  shows "inv c" and "bt_wf (children n')"
    and "map_of (children n') = (map_of (children n))(key e \<mapsto> push e c)"
    and "ring n' = (if bt_contains (children n) (key e) then ring n else ring n @ [key e])"
    and "bt_remove (key e) (children n') = bt_remove (key e) (children n)"
  using ring_invD [OF I] inv_empty
  by (auto simp: c_def n'_def ring_push_def Let_def fun_eq_iff split: option.splits)

lemma ring_push_inv:
  assumes I: "ring_inv key inv entries n"
  shows "ring_inv key inv entries (ring_push key empty push e n)"
proof -
  note P = push_child [OF I, of e] and D = ring_invD [OF I]
  have "distinct (ring (ring_push key empty push e n))"
    and "set (ring (ring_push key empty push e n)) = insert (key e) (set (ring n))"
    using D(2,3) by (auto simp: P(4) split: option.splits)
  moreover have "\<forall>x. x \<in># entries (case bt_get (children n) (key e) of None \<Rightarrow> empty | Some c \<Rightarrow> c) \<longrightarrow> key x = key e"
    using D(6) by (auto simp: entries_empty split: option.splits)
  ultimately show ?thesis
    using D P(1,2) inv_push [OF P(1), of e]
    by (auto simp: ring_inv_def P(3) entries_push [OF P(1)] split: if_splits)
qed

lemma ring_push_entries:
  assumes I: "ring_inv key inv entries n"
  shows "ring_entries entries (ring_push key empty push e n) = add_mset e (ring_entries entries n)"
proof -
  note P = push_child [OF I, of e] and D = ring_invD [OF I]
  let ?rest = "sum_list (map (\<lambda>p. entries (snd p)) (bt_remove (key e) (children n)))"
  have "ring_entries entries n =
      entries (case bt_get (children n) (key e) of None \<Rightarrow> empty | Some c \<Rightarrow> c) + ?rest"
    using ring_entries_split [OF D(1)]
    by (auto simp: entries_empty ring_entries_def split: option.splits)
  moreover have "ring_entries entries (ring_push key empty push e n) =
      entries (push e (case bt_get (children n) (key e) of None \<Rightarrow> empty | Some c \<Rightarrow> c)) + ?rest"
    using ring_entries_split [OF P(2), of "key e" _ entries] by (simp add: P(3,5))
  ultimately show ?thesis by (simp add: entries_push [OF P(1)])
qed

lemma ring_push_fifo:
  assumes I: "ring_inv key inv entries n"
  shows "ring_fifo fifo (ring_push key empty push e n) kp =
    (if kp = (key e, path e) then ring_fifo fifo n kp @ [e] else ring_fifo fifo n kp)"
  using push_child(1,3) [OF I, of e]
  by (cases kp) (auto simp: ring_fifo_def fifo_push fifo_empty split: option.splits)

end

context ring_queue
begin

lemma replace_child:
  assumes I: "ring_inv key inv entries n" and c: "bt_get (children n) k = Some c"
    and c': "inv c'" "set_mset (entries c') \<subseteq> set_mset (entries c)"
    and n': "bt_wf (children n')" "bt_remove k (children n') = bt_remove k (children n)"
      "map_of (children n') = (map_of (children n))(k := (if entries c' = {#} then None else Some c'))"
      "distinct (ring n')" "set (ring n') = (if entries c' = {#} then set (ring n) - {k} else set (ring n))"
  shows "ring_inv key inv entries n'"
    and "ring_entries entries n' + entries c = ring_entries entries n + entries c'"
    and "ring_fifo fifo n' kp = (if fst kp = k then fifo c' (snd kp) else ring_fifo fifo n kp)"
proof -
  note D = ring_invD [OF I]
  show "ring_inv key inv entries n'"
    using D c c' n' by (auto simp: ring_inv_def split: if_splits)
  let ?rest = "sum_list (map (\<lambda>p. entries (snd p)) (bt_remove k (children n)))"
  have "ring_entries entries n = entries c + ?rest"
    by (rule ring_entries_split [OF D(1) c])
  moreover have "ring_entries entries n' = entries c' + ?rest"
  proof (cases "entries c' = {#}")
    case True
    then have "bt_get (children n') k = None" using n'(3) by simp
    then have "bt_remove k (children n') = children n'" by (rule bt_remove_absent)
    with True n'(2) show ?thesis by (simp add: ring_entries_def)
  next
    case False
    then have "bt_get (children n') k = Some c'" using n'(3) by simp
    from ring_entries_split [OF n'(1) this, of entries] n'(2) show ?thesis by simp
  qed
  ultimately show "ring_entries entries n' + entries c = ring_entries entries n + entries c'"
    by (simp add: ac_simps)
  have "fifo c' p = []" if "entries c' = {#}" for p
    using that fifo_entry [OF c'(1), of "hd (fifo c' p)"] fifo_path [OF c'(1), of "hd (fifo c' p)" p]
    by (metis hd_in_set empty_iff set_mset_empty)
  then show "ring_fifo fifo n' kp = (if fst kp = k then fifo c' (snd kp) else ring_fifo fifo n kp)"
    using n'(3) by (auto simp: ring_fifo_def)
qed

lemma turn_child:
  assumes I: "ring_inv key inv entries n" and R: "ring n = k # rest"
    and T: "ring_turn (pop r) is_empty k (n\<lparr>ring := rest\<rparr>) s = (en, n', s')"
  obtains c c' where "bt_get (children n) k = Some c" "inv c" "pop r c s = (en, c', s')" "inv c'"
    "set_mset (entries c') \<subseteq> set_mset (entries c)"
    "bt_wf (children n')" "bt_remove k (children n') = bt_remove k (children n)"
    "map_of (children n') = (map_of (children n))(k := (if entries c' = {#} then None else Some c'))"
    "ring n' = (if entries c' = {#} then rest else rest @ [k])"
proof -
  note D = ring_invD [OF I]
  have "k \<in> dom (map_of (children n))" using D(3) R by auto
  then obtain c where c: "bt_get (children n) k = Some c" by auto
  obtain c' s1 where p: "pop r c s = (en, c', s1)"
    using T c by (auto simp: ring_turn_def split: prod.splits)
  have ic: "inv c" using D(4) [OF c] .
  have c': "inv c'" "set_mset (entries c') \<subseteq> set_mset (entries c)"
    using p pop_None [OF ic] pop_Some [OF ic] by (cases en; fastforce)+
  have s1: "s1 = s'" and n': "n' = (if is_empty c'
      then n\<lparr>ring := rest, children := bt_remove k (bt_modify k (\<lambda>_. c') (children n))\<rparr>
      else n\<lparr>ring := rest @ [k], children := bt_modify k (\<lambda>_. c') (children n)\<rparr>)"
    using T c p by (auto simp: ring_turn_def)
  have e: "is_empty c' \<longleftrightarrow> entries c' = {#}" by (rule is_empty_iff [OF c'(1)])
  have rr: "bt_remove k (bt_remove k (children n)) = bt_remove k (children n)"
    by (simp add: bt_remove_def)
  show thesis
    by (rule that [OF c ic p [unfolded s1] c']) (use D(1) c e n' rr in \<open>auto simp: fun_eq_iff\<close>)
qed

lemma turn_correct:
  assumes I: "ring_inv key inv entries n" and R: "ring n = k # rest"
    and T: "ring_turn (pop r) is_empty k (n\<lparr>ring := rest\<rparr>) s = (en, n', s')"
  shows "ring_inv key inv entries n'"
    and "en = None \<Longrightarrow> ring n' = rest @ [k] \<and> ring_entries entries n' = ring_entries entries n \<and>
      (\<forall>kp. ring_fifo fifo n' kp = ring_fifo fifo n kp)"
    and "en = Some e \<Longrightarrow> key e = k \<and> ring n' \<in> {rest, rest @ [k]} \<and>
      ring_entries entries n = add_mset e (ring_entries entries n') \<and>
      ring_fifo fifo n (key e, path e) = e # ring_fifo fifo n' (key e, path e) \<and>
      (\<forall>kp. kp \<noteq> (key e, path e) \<longrightarrow> ring_fifo fifo n' kp = ring_fifo fifo n kp)"
proof -
  obtain c c' where C: "bt_get (children n) k = Some c" "inv c" "pop r c s = (en, c', s')" "inv c'"
    "set_mset (entries c') \<subseteq> set_mset (entries c)"
    "bt_wf (children n')" "bt_remove k (children n') = bt_remove k (children n)"
    "map_of (children n') = (map_of (children n))(k := (if entries c' = {#} then None else Some c'))"
    and rn': "ring n' = (if entries c' = {#} then rest else rest @ [k])"
    using turn_child [OF I R T] by blast
  note D = ring_invD [OF I]
  have d: "distinct (ring n')" "set (ring n') = (if entries c' = {#} then set (ring n) - {k} else set (ring n))"
    using D(2) by (auto simp: rn' R)
  note RC = replace_child [OF I C(1) C(4,5,6,7,8) d]
  show "ring_inv key inv entries n'" by (rule RC(1))
  have F: "ring_fifo fifo n kp = fifo c (snd kp)" if "fst kp = k" for kp
    using that C(1) by (simp add: ring_fifo_def)
  show "ring n' = rest @ [k] \<and> ring_entries entries n' = ring_entries entries n \<and>
      (\<forall>kp. ring_fifo fifo n' kp = ring_fifo fifo n kp)" if "en = None"
    using pop_None [OF C(2)] C(3) that D(5) [OF C(1)] RC(2) F by (auto simp: rn' RC(3))
  show "key e = k \<and> ring n' \<in> {rest, rest @ [k]} \<and>
      ring_entries entries n = add_mset e (ring_entries entries n') \<and>
      ring_fifo fifo n (key e, path e) = e # ring_fifo fifo n' (key e, path e) \<and>
      (\<forall>kp. kp \<noteq> (key e, path e) \<longrightarrow> ring_fifo fifo n' kp = ring_fifo fifo n kp)" if "en = Some e"
  proof -
    have P: "entries c = add_mset e (entries c')" "fifo c (path e) = e # fifo c' (path e)"
      "\<And>p. p \<noteq> path e \<Longrightarrow> fifo c' p = fifo c p"
      using pop_Some [OF C(2)] C(3) that by auto
    then have k: "key e = k" using D(6) [OF C(1)] by auto
    moreover have "ring_entries entries n = add_mset e (ring_entries entries n')"
      using RC(2) P(1) by (simp add: add.commute)
    ultimately show ?thesis
      using P F by (auto simp: rn' RC(3))
  qed
qed

lemma pop_turns_correct:
  "ring_inv key inv entries n \<Longrightarrow> ring_pop_turns t (pop r) is_empty n s = (res, n', s') \<Longrightarrow>
   ring_inv key inv entries n' \<and>
   (res = None \<longrightarrow> ring_entries entries n' = ring_entries entries n \<and>
      (\<forall>kp. ring_fifo fifo n' kp = ring_fifo fifo n kp)) \<and>
   (\<forall>e. res = Some e \<longrightarrow> ring_entries entries n = add_mset e (ring_entries entries n') \<and>
      ring_fifo fifo n (key e, path e) = e # ring_fifo fifo n' (key e, path e) \<and>
      (\<forall>kp. kp \<noteq> (key e, path e) \<longrightarrow> ring_fifo fifo n' kp = ring_fifo fifo n kp))"
proof (induction t arbitrary: n s)
  case 0
  then show ?case by simp
next
  case (Suc t)
  show ?case
  proof (cases "ring n")
    case Nil
    with Suc.prems show ?thesis by simp
  next
    case (Cons k rest)
    obtain en n1 s1 where T: "ring_turn (pop r) is_empty k (n\<lparr>ring := rest\<rparr>) s = (en, n1, s1)"
      by (metis prod_cases3)
    note C = turn_correct [OF Suc.prems(1) Cons T]
    show ?thesis
    proof (cases en)
      case None
      with Suc.prems(2) Cons T have "ring_pop_turns t (pop r) is_empty n1 s1 = (res, n', s')" by simp
      from Suc.IH [OF C(1) this] C(2) [OF None] show ?thesis by simp
    next
      case (Some e)
      with Suc.prems(2) Cons T C(1) C(3) [OF Some] show ?thesis by auto
    qed
  qed
qed

lemma pop_turns_state:
  "ring_inv key inv entries n \<Longrightarrow> J s \<Longrightarrow>
   (\<And>e s. e \<in># ring_entries entries n \<Longrightarrow> J s \<Longrightarrow> J (snd (r e s))) \<Longrightarrow>
   ring_pop_turns t (pop r) is_empty n s = (res, n', s') \<Longrightarrow>
   J s' \<and> (\<forall>e. res = Some e \<longrightarrow> (\<exists>s0. J s0 \<and> r e s0 = (True, s')))"
proof (induction t arbitrary: n s)
  case 0
  then show ?case by simp
next
  case (Suc t)
  show ?case
  proof (cases "ring n")
    case Nil
    with Suc.prems show ?thesis by simp
  next
    case (Cons k rest)
    obtain en n1 s1 where T: "ring_turn (pop r) is_empty k (n\<lparr>ring := rest\<rparr>) s = (en, n1, s1)"
      by (metis prod_cases3)
    obtain c c' where c: "bt_get (children n) k = Some c" "inv c" "pop r c s = (en, c', s1)"
      using turn_child [OF Suc.prems(1) Cons T] by metis
    have sub: "e \<in># ring_entries entries n" if "e \<in># entries c" for e
      using that c(1) ring_invD(1) [OF Suc.prems(1)] by (auto simp: in_ring_entries)
    note S = pop_state [OF c(2) Suc.prems(2) Suc.prems(3) [OF sub] c(3)]
    note C = turn_correct [OF Suc.prems(1) Cons T]
    show ?thesis
    proof (cases en)
      case None
      then have st: "ring_pop_turns t (pop r) is_empty n1 s1 = (res, n', s')"
        using Suc.prems(4) Cons T by simp
      have "ring_entries entries n1 = ring_entries entries n" using C(2) [OF None] by simp
      then show ?thesis using Suc.IH [OF C(1) _ _ st] S Suc.prems(3) by simp
    next
      case (Some e)
      with Suc.prems(4) Cons T S show ?thesis by auto
    qed
  qed
qed

lemma pop_turns_refused:
  "ring_inv key inv entries n \<Longrightarrow> ring_pop_turns t (pop r) is_empty n s = (None, n', s') \<Longrightarrow>
   k \<in> set (take t (ring n)) \<Longrightarrow> bt_get (children n) k = Some c \<Longrightarrow> fifo c p \<noteq> [] \<Longrightarrow>
   \<exists>s0 s1. r (hd (fifo c p)) s0 = (False, s1)"
proof (induction t arbitrary: n s c)
  case 0
  then show ?case by simp
next
  case (Suc t)
  then obtain k1 rest where R: "ring n = k1 # rest" by (cases "ring n") auto
  obtain en n1 s1 where T: "ring_turn (pop r) is_empty k1 (n\<lparr>ring := rest\<rparr>) s = (en, n1, s1)"
    by (metis prod_cases3)
  have en: "en = None" and st: "ring_pop_turns t (pop r) is_empty n1 s1 = (None, n', s')"
    using Suc.prems(2) R T by (auto split: option.splits)
  note C = turn_correct [OF Suc.prems(1) R T]
  show ?case
  proof (cases "k = k1")
    case True
    then obtain c1 c1' where "bt_get (children n) k = Some c1" "inv c1" "pop r c1 s = (None, c1', s1)"
      using turn_child [OF Suc.prems(1) R T] en by metis
    with Suc.prems(4,5) pop_refused show ?thesis by auto
  next
    case False
    with Suc.prems(3) R have k: "k \<in> set (take t rest)" by simp
    then have k': "k \<in> set (take t (ring n1))" using C(2) [OF en] by simp
    have ff: "ring_fifo fifo n1 (k, p) = fifo c p"
      using C(2) [OF en] Suc.prems(4) by (simp add: ring_fifo_def)
    with Suc.prems(5) obtain c1 where c1: "bt_get (children n1) k = Some c1" "fifo c1 p = fifo c p"
      by (auto simp: ring_fifo_def split: option.splits)
    show ?thesis using Suc.IH [OF C(1) st k' c1(1)] c1(2) Suc.prems(5) by simp
  qed
qed

end

context ring_queue
begin

lemma modify_same [simp]: "bt_get m k = Some c \<Longrightarrow> bt_modify k (\<lambda>_. c) m = m"
  by (induction m) (auto split: if_splits)

lemma remove_keys_correct:
  "ring_inv key inv entries n \<Longrightarrow> set keys \<subseteq> set (ring n) \<Longrightarrow>
   remove_from_keys keys (remove x) is_empty n = (res, n') \<Longrightarrow>
   (res = None \<longrightarrow> n' = n \<and>
      (\<forall>k c e. k \<in> set keys \<longrightarrow> bt_get (children n) k = Some c \<longrightarrow> e \<in># entries c \<longrightarrow> rid e \<noteq> x)) \<and>
   (\<forall>e. res = Some e \<longrightarrow> ring_inv key inv entries n' \<and> rid e = x \<and>
      ring_entries entries n = add_mset e (ring_entries entries n') \<and>
      ring_fifo fifo n' (key e, path e) = snd (remove_first (\<lambda>e. rid e = x) (ring_fifo fifo n (key e, path e))) \<and>
      (\<forall>kp. kp \<noteq> (key e, path e) \<longrightarrow> ring_fifo fifo n' kp = ring_fifo fifo n kp))"
proof (induction keys)
  case Nil
  then show ?case by simp
next
  case (Cons k keys)
  note I = Cons.prems(1) and D = ring_invD [OF Cons.prems(1)]
  from Cons.prems(2) D(3) obtain c where c: "bt_get (children n) k = Some c" by auto
  have ic: "inv c" and ne: "\<not> is_empty c" using D(4,5) [OF c] is_empty_iff by auto
  obtain en c' where r: "remove x c = (en, c')" by fastforce
  show ?case
  proof (cases en)
    case None
    then have c': "c' = c" "\<forall>e. e \<in># entries c \<longrightarrow> rid e \<noteq> x" using remove_None [OF ic] r by auto
    have "remove_from_keys keys (remove x) is_empty n = (res, n')"
      using Cons.prems(3) c r None c'(1) ne by simp
    from Cons.IH [OF I _ this] Cons.prems(2) c c'(2) show ?thesis by auto
  next
    case (Some e)
    then have R: "inv c'" "rid e = x" "entries c = add_mset e (entries c')"
      "fifo c' (path e) = snd (remove_first (\<lambda>e. rid e = x) (fifo c (path e)))"
      "\<And>p. p \<noteq> path e \<Longrightarrow> fifo c' p = fifo c p"
      using remove_Some [OF ic] r by auto
    have e: "is_empty c' \<longleftrightarrow> entries c' = {#}" by (rule is_empty_iff [OF R(1)])
    have n': "res = Some e" "n' = (if is_empty c'
        then n\<lparr>children := bt_remove k (bt_modify k (\<lambda>_. c') (children n)), ring := filter (\<lambda>a. a \<noteq> k) (ring n)\<rparr>
        else n\<lparr>children := bt_modify k (\<lambda>_. c') (children n)\<rparr>)"
      using Cons.prems(3) c r Some by auto
    have rr: "bt_remove k (bt_remove k (children n)) = bt_remove k (children n)"
      by (simp add: bt_remove_def)
    have P: "bt_wf (children n')" "bt_remove k (children n') = bt_remove k (children n)"
      "map_of (children n') = (map_of (children n))(k := (if entries c' = {#} then None else Some c'))"
      "distinct (ring n')" "set (ring n') = (if entries c' = {#} then set (ring n) - {k} else set (ring n))"
      using D(1,2) c e rr by (auto simp: n'(2) fun_eq_iff)
    have sub: "set_mset (entries c') \<subseteq> set_mset (entries c)" using R(3) by auto
    note RC = replace_child [OF I c R(1) sub P]
    have k: "key e = k" using D(6) [OF c] R(3) by auto
    have "ring_entries entries n = add_mset e (ring_entries entries n')"
      using RC(2) R(3) by (simp add: add.commute)
    then show ?thesis
      using RC(1,3) n'(1) R(2,4,5) k c by (auto simp: ring_fifo_def [of fifo n])
  qed
qed

lemma ring_fifo_entry:
  assumes I: "ring_inv key inv entries n"
  shows "e \<in># ring_entries entries n \<longleftrightarrow> e \<in> set (ring_fifo fifo n (key e, path e))"
proof -
  note D = ring_invD [OF I]
  have "(\<exists>k c. bt_get (children n) k = Some c \<and> e \<in># entries c) \<longleftrightarrow>
      (\<exists>c. bt_get (children n) (key e) = Some c \<and> e \<in># entries c)"
    using D(6) by blast
  also have "\<dots> \<longleftrightarrow> (\<exists>c. bt_get (children n) (key e) = Some c \<and> e \<in> set (fifo c (path e)))"
    using D(4) fifo_entry by blast
  also have "\<dots> \<longleftrightarrow> e \<in> set (ring_fifo fifo n (key e, path e))"
    by (cases "bt_get (children n) (key e)") (simp_all add: ring_fifo_def)
  finally show ?thesis by (simp add: in_ring_entries [OF D(1)])
qed

lemma ring_fifo_path:
  assumes I: "ring_inv key inv entries n" and e: "e \<in> set (ring_fifo fifo n kp)"
  shows "(key e, path e) = kp"
proof -
  note D = ring_invD [OF I]
  obtain c where c: "bt_get (children n) (fst kp) = Some c" "e \<in> set (fifo c (snd kp))"
    using e by (cases "bt_get (children n) (fst kp)") (auto simp: ring_fifo_def)
  then have p: "path e = snd kp" using fifo_path D(4) by blast
  with c have "e \<in># entries c" using fifo_entry [OF D(4) [OF c(1)]] by simp
  with D(6) [OF c(1)] p show ?thesis by auto
qed

end

sublocale ring_queue \<subseteq> node: entry_queue
  "ring_push key empty push" "\<lambda>r. ring_pop (pop r) is_empty" "\<lambda>x. remove_from_children (remove x) is_empty"
  ring_is_empty ring_default rid "\<lambda>e. (key e, path e)" "ring_fifo fifo" "ring_entries entries"
  "ring_inv key inv entries"
proof unfold_locales
  show "ring_inv key inv entries ring_default" by (simp add: ring_inv_def ring_default_def)
  show "ring_entries entries ring_default = {#}" by (simp add: ring_entries_def ring_default_def)
  show "ring_fifo fifo ring_default p = []" for p :: "'k \<times> 'p" by (simp add: ring_fifo_def ring_default_def)
  show "ring_is_empty q = (ring_entries entries q = {#})" if "ring_inv key inv entries q" for q
  proof (cases "children q")
    case (Cons a list)
    then have "entries (snd a) \<noteq> {#}" using ring_invD(5) [OF that, of "fst a" "snd a"] by simp
    with Cons show ?thesis by (simp add: ring_is_empty_def ring_entries_def)
  qed (simp add: ring_is_empty_def ring_entries_def)
  show "ring_inv key inv entries (ring_push key empty push e q)"
    if "ring_inv key inv entries q" for q e
    by (rule ring_push_inv [OF that])
  show "ring_entries entries (ring_push key empty push e q) = add_mset e (ring_entries entries q)"
    if "ring_inv key inv entries q" for q e
    by (rule ring_push_entries [OF that])
  show "ring_fifo fifo (ring_push key empty push e q) p =
      (if p = (key e, path e) then ring_fifo fifo q p @ [e] else ring_fifo fifo q p)"
    if "ring_inv key inv entries q" for q e p
    by (rule ring_push_fifo [OF that])
  show "(e \<in># ring_entries entries q) = (e \<in> set (ring_fifo fifo q (key e, path e)))"
    if "ring_inv key inv entries q" for q e
    by (rule ring_fifo_entry [OF that])
  show "(key e, path e) = p" if "ring_inv key inv entries q" "e \<in> set (ring_fifo fifo q p)" for q e p
    by (rule ring_fifo_path [OF that])
next
  fix q r s e q' s'
  assume "ring_inv key inv entries q" "ring_pop (pop r) is_empty q s = (Some e, q', s')"
  from pop_turns_correct [OF this [unfolded ring_pop_def]]
  show "ring_inv key inv entries q' \<and> ring_entries entries q = add_mset e (ring_entries entries q') \<and>
      ring_fifo fifo q (key e, path e) = e # ring_fifo fifo q' (key e, path e) \<and>
      (\<forall>p. p \<noteq> (key e, path e) \<longrightarrow> ring_fifo fifo q' p = ring_fifo fifo q p)"
    by simp
next
  fix q r s q' s'
  assume "ring_inv key inv entries q" "ring_pop (pop r) is_empty q s = (None, q', s')"
  from pop_turns_correct [OF this [unfolded ring_pop_def]]
  show "ring_inv key inv entries q' \<and> ring_entries entries q' = ring_entries entries q \<and>
      (\<forall>p. ring_fifo fifo q' p = ring_fifo fifo q p)"
    by simp
next
  fix q J s r res q' s'
  assume "ring_inv key inv entries q" "J s"
    "\<And>e s. e \<in># ring_entries entries q \<Longrightarrow> J s \<Longrightarrow> J (snd (r e s))"
    "ring_pop (pop r) is_empty q s = (res, q', s')"
  from pop_turns_state [OF this(1-3) this(4) [unfolded ring_pop_def]]
  show "J s' \<and> (\<forall>e. res = Some e \<longrightarrow> (\<exists>s0. J s0 \<and> r e s0 = (True, s')))" .
next
  fix q r s q' s' p
  assume I: "ring_inv key inv entries q" and P: "ring_pop (pop r) is_empty q s = (None, q', s')"
    and ne: "ring_fifo fifo q p \<noteq> []"
  then obtain c where c: "bt_get (children q) (fst p) = Some c" "fifo c (snd p) \<noteq> []"
    by (auto simp: ring_fifo_def split: option.splits)
  then have k: "fst p \<in> set (take (length (ring q)) (ring q))" using ring_invD(3) [OF I] by auto
  from pop_turns_refused [OF I P [unfolded ring_pop_def] k c]
  show "\<exists>s0 s1. r (hd (ring_fifo fifo q p)) s0 = (False, s1)"
    using c(1) by (simp add: ring_fifo_def)
next
  fix q x e q'
  assume "ring_inv key inv entries q" "remove_from_children (remove x) is_empty q = (Some e, q')"
  from remove_keys_correct [OF this(1) subset_refl this(2) [unfolded remove_from_children_def]]
  show "ring_inv key inv entries q' \<and> rid e = x \<and> ring_entries entries q = add_mset e (ring_entries entries q') \<and>
      ring_fifo fifo q' (key e, path e) = snd (remove_first (\<lambda>e. rid e = x) (ring_fifo fifo q (key e, path e))) \<and>
      (\<forall>p. p \<noteq> (key e, path e) \<longrightarrow> ring_fifo fifo q' p = ring_fifo fifo q p)"
    by simp
next
  fix q x q'
  assume I: "ring_inv key inv entries q" and R: "remove_from_children (remove x) is_empty q = (None, q')"
  from remove_keys_correct [OF I subset_refl R [unfolded remove_from_children_def]] ring_invD(1,3) [OF I]
  show "q' = q \<and> (\<forall>e. e \<in># ring_entries entries q \<longrightarrow> rid e \<noteq> x)"
    by (auto simp: in_ring_entries)
qed

subsection \<open>The four levels\<close>

abbreviation agent_mset :: "AgentNode \<Rightarrow> ScheduleEntry multiset" where
  "agent_mset n \<equiv> mset (agent_entries n)"

abbreviation agent_fifo :: "AgentNode \<Rightarrow> unit \<Rightarrow> ScheduleEntry list" where
  "agent_fifo n _ \<equiv> agent_entries n"

lemma remove_first_None: "remove_first P es = (None, es') \<Longrightarrow> es' = es \<and> (\<forall>e \<in> set es. \<not> P e)"
  by (induction es arbitrary: es') (auto split: if_splits prod.splits)

lemma remove_first_Some:
  "remove_first P es = (Some e, es') \<Longrightarrow> P e \<and> mset es = add_mset e (mset es')"
  by (induction es arbitrary: es') (auto split: if_splits prod.splits)

interpretation agent_queue: entry_queue AgentNode_push
  "AgentNode_pop_runnable :: _ \<Rightarrow> _ \<Rightarrow> 's \<Rightarrow> _" AgentNode_remove AgentNode_is_empty
  AgentNode_default se_request_id "\<lambda>_. ()" agent_fifo agent_mset "\<lambda>_. True"
proof (unfold_locales, goal_cases)
  case (12 q J s r res q' s')
  then show ?case
    by (cases "agent_entries q")
      (force simp: AgentNode_pop_runnable_def split: prod.splits bool.splits)+
next
  case (13 q r s q' s' p)
  then show ?case
    by (cases "agent_entries q")
      (auto simp: AgentNode_pop_runnable_def split: prod.splits bool.splits)
next
  case (14 q x e q')
  then show ?case
    by (auto simp: AgentNode_remove_def dest: remove_first_Some split: prod.splits)
next
  case (15 q x q')
  then show ?case
    by (auto simp: AgentNode_remove_def dest: remove_first_None split: prod.splits)
qed (auto simp: AgentNode_default_def AgentNode_is_empty_def AgentNode_push_def
    AgentNode_pop_runnable_def split: list.splits prod.splits bool.splits)

interpretation session_queue: ring_queue AgentNode_push
  "AgentNode_pop_runnable :: _ \<Rightarrow> _ \<Rightarrow> 's \<Rightarrow> _" AgentNode_remove AgentNode_is_empty
  AgentNode_default se_request_id "\<lambda>_. ()" agent_fifo agent_mset "\<lambda>_. True" se_agent_id ..

abbreviation session_mset :: "SessionNode \<Rightarrow> ScheduleEntry multiset" where
  "session_mset \<equiv> ring_entries agent_mset"

abbreviation session_inv :: "SessionNode \<Rightarrow> bool" where
  "session_inv \<equiv> ring_inv se_agent_id (\<lambda>_. True) agent_mset"

interpretation key_queue: ring_queue SessionNode_push
  "SessionNode_pop_runnable :: _ \<Rightarrow> _ \<Rightarrow> 's \<Rightarrow> _" SessionNode_remove ring_is_empty
  ring_default se_request_id "\<lambda>e. (se_agent_id e, ())" "ring_fifo agent_fifo" session_mset session_inv
  se_base_session_id
  unfolding ring_queue_def SessionNode_push_def SessionNode_pop_runnable_def SessionNode_remove_def
  by (rule session_queue.node.entry_queue_axioms)

abbreviation key_mset :: "KeyNode \<Rightarrow> ScheduleEntry multiset" where
  "key_mset \<equiv> ring_entries session_mset"

abbreviation key_inv :: "KeyNode \<Rightarrow> bool" where
  "key_inv \<equiv> ring_inv se_base_session_id session_inv session_mset"

interpretation user_queue: ring_queue KeyNode_push
  "KeyNode_pop_runnable :: _ \<Rightarrow> _ \<Rightarrow> 's \<Rightarrow> _" KeyNode_remove ring_is_empty
  ring_default se_request_id "\<lambda>e. (se_base_session_id e, se_agent_id e, ())"
  "ring_fifo (ring_fifo agent_fifo)" key_mset key_inv se_platform_key_id
  unfolding ring_queue_def KeyNode_push_def KeyNode_pop_runnable_def KeyNode_remove_def
  by (rule key_queue.node.entry_queue_axioms)

abbreviation user_mset :: "UserNode \<Rightarrow> ScheduleEntry multiset" where
  "user_mset \<equiv> ring_entries key_mset"

abbreviation user_inv :: "UserNode \<Rightarrow> bool" where
  "user_inv \<equiv> ring_inv se_platform_key_id key_inv key_mset"

interpretation top_queue: ring_queue UserNode_push
  "UserNode_pop_runnable :: _ \<Rightarrow> _ \<Rightarrow> 's \<Rightarrow> _" UserNode_remove ring_is_empty
  ring_default se_request_id "\<lambda>e. (se_platform_key_id e, se_base_session_id e, se_agent_id e, ())"
  "ring_fifo (ring_fifo (ring_fifo agent_fifo))" user_mset user_inv owner_user_id
  unfolding ring_queue_def UserNode_push_def UserNode_pop_runnable_def UserNode_remove_def
  by (rule user_queue.node.entry_queue_axioms)

subsection \<open>The whole queue\<close>

type_synonym queue_path = "UserId \<times> PlatformKeyId \<times> SessionId \<times> AgentId \<times> unit"

definition entry_path :: "ScheduleEntry \<Rightarrow> queue_path" where
  "entry_path e = (owner_user_id e, se_platform_key_id e, se_base_session_id e, se_agent_id e, ())"

definition queue_fifo :: "FairQueue \<Rightarrow> queue_path \<Rightarrow> ScheduleEntry list" where
  "queue_fifo q = ring_fifo (ring_fifo (ring_fifo (ring_fifo agent_fifo))) (users q)"

definition queue_entries :: "FairQueue \<Rightarrow> ScheduleEntry multiset" where
  "queue_entries q = ring_entries user_mset (users q)"

definition queue_inv :: "FairQueue \<Rightarrow> bool" where
  "queue_inv q \<longleftrightarrow> ring_inv owner_user_id user_inv user_mset (users q) \<and> fq_len q = size (queue_entries q)"

interpretation fair_queue: entry_queue FairQueue_push
  "FairQueue_pop_runnable :: _ \<Rightarrow> _ \<Rightarrow> 's \<Rightarrow> _" FairQueue_remove "\<lambda>q. fq_len q = 0"
  FairQueue_default se_request_id entry_path queue_fifo queue_entries queue_inv
proof (unfold_locales, goal_cases)
  case 1
  show ?case using top_queue.node.inv_empty top_queue.node.entries_empty
    by (simp add: queue_inv_def queue_entries_def FairQueue_default_def)
next
  case 2
  show ?case using top_queue.node.entries_empty by (simp add: queue_entries_def FairQueue_default_def)
next
  case (3 p)
  show ?case using top_queue.node.fifo_empty by (simp add: queue_fifo_def FairQueue_default_def)
next
  case (4 q)
  then show ?case by (simp add: queue_inv_def)
next
  case (5 q e)
  then show ?case using top_queue.node.inv_push top_queue.node.entries_push
    by (simp add: queue_inv_def queue_entries_def FairQueue_push_def)
next
  case (6 q e)
  then show ?case using top_queue.node.entries_push
    by (simp add: queue_inv_def queue_entries_def FairQueue_push_def)
next
  case (7 q e p)
  then show ?case using top_queue.node.fifo_push [of "users q" e p]
    by (simp add: queue_inv_def queue_fifo_def FairQueue_push_def entry_path_def)
next
  case (8 q e)
  then show ?case using top_queue.node.fifo_entry [of "users q" e]
    by (simp add: queue_inv_def queue_fifo_def queue_entries_def entry_path_def)
next
  case (9 q e p)
  then show ?case using top_queue.node.fifo_path [of "users q" e p]
    by (simp add: queue_inv_def queue_fifo_def entry_path_def)
next
  case (10 q r s e q' s')
  then obtain u where u: "ring_pop (UserNode_pop_runnable r) ring_is_empty (users q) s = (Some e, u, s')"
    "q' = q\<lparr>users := u, fq_len := fq_len q - 1\<rparr>"
    by (auto simp: FairQueue_pop_runnable_def split: prod.splits option.splits)
  with 10 show ?case using top_queue.node.pop_Some [OF _ u(1)]
    by (simp add: queue_inv_def queue_fifo_def queue_entries_def entry_path_def)
next
  case (11 q r s q' s')
  then obtain u where u: "ring_pop (UserNode_pop_runnable r) ring_is_empty (users q) s = (None, u, s')"
    "q' = q\<lparr>users := u\<rparr>"
    by (auto simp: FairQueue_pop_runnable_def split: prod.splits option.splits)
  with 11 show ?case using top_queue.node.pop_None [OF _ u(1)]
    by (simp add: queue_inv_def queue_fifo_def queue_entries_def)
next
  case (12 q J s r res q' s')
  then obtain u where u: "ring_pop (UserNode_pop_runnable r) ring_is_empty (users q) s = (res, u, s')"
    by (auto simp: FairQueue_pop_runnable_def split: prod.splits option.splits)
  show ?case using top_queue.node.pop_state [where J = J, OF _ 12(2) _ u] 12(1,3)
    by (simp add: queue_inv_def queue_entries_def)
next
  case (13 q r s q' s' p)
  then obtain u where u: "ring_pop (UserNode_pop_runnable r) ring_is_empty (users q) s = (None, u, s')"
    by (auto simp: FairQueue_pop_runnable_def split: prod.splits option.splits)
  show ?case using top_queue.node.pop_refused [OF _ u] 13(1,3)
    by (simp add: queue_inv_def queue_fifo_def)
next
  case (14 q x e q')
  then obtain u where u: "remove_from_children (UserNode_remove x) ring_is_empty (users q) = (Some e, u)"
    "q' = q\<lparr>users := u, fq_len := fq_len q - 1\<rparr>"
    by (auto simp: FairQueue_remove_def split: prod.splits option.splits)
  with 14 show ?case using top_queue.node.remove_Some [OF _ u(1)]
    by (simp add: queue_inv_def queue_fifo_def queue_entries_def entry_path_def)
next
  case (15 q x q')
  then obtain u where u: "remove_from_children (UserNode_remove x) ring_is_empty (users q) = (None, u)"
    "q' = q\<lparr>users := u\<rparr>"
    by (auto simp: FairQueue_remove_def split: prod.splits option.splits)
  with 15 show ?case using top_queue.node.remove_None [OF _ u(1)]
    by (simp add: queue_inv_def queue_entries_def)
qed

subsection \<open>What the queue promises\<close>

text \<open>C11. Popping refines a set of FIFO queues, one per user, key, session and agent: a popped
  entry is the oldest of its path and was accepted by the caller's predicate in the state
  that predicate was left in, every other path is unchanged, and the reported length stays
  exact.\<close>

theorem pop_runnable_refines_fifo:
  assumes "queue_inv q" and "FairQueue_pop_runnable r q s = (Some e, q', s')"
  shows "queue_fifo q (entry_path e) = e # queue_fifo q' (entry_path e) \<and>
    (\<forall>p. p \<noteq> entry_path e \<longrightarrow> queue_fifo q' p = queue_fifo q p) \<and>
    queue_entries q = add_mset e (queue_entries q') \<and> (\<exists>s0. r e s0 = (True, s')) \<and>
    queue_inv q' \<and> fq_len q = Suc (fq_len q')"
proof -
  note P = fair_queue.pop_Some [OF assms]
  have "\<exists>s0. r e s0 = (True, s')"
    using fair_queue.pop_state [where J = "\<lambda>_. True", OF assms(1) _ _ assms(2)] by simp
  moreover have "fq_len q = Suc (fq_len q')" using P assms(1) by (simp add: queue_inv_def)
  ultimately show ?thesis using P by blast
qed

text \<open>The queue is work conserving: when no entry is returned, the oldest entry of every
  path was offered to the predicate and refused, and nothing was lost.\<close>

theorem pop_runnable_work_conserving:
  assumes "queue_inv q" and "FairQueue_pop_runnable r q s = (None, q', s')"
  shows "(\<forall>p. queue_fifo q p \<noteq> [] \<longrightarrow> (\<exists>s0 s1. r (hd (queue_fifo q p)) s0 = (False, s1))) \<and>
    queue_entries q' = queue_entries q \<and> queue_inv q'"
  using fair_queue.pop_refused [OF assms] fair_queue.pop_None [OF assms] by blast

lemma pop_always:
  assumes I: "queue_inv q" and R: "ring (users q) = u # us"
  shows "\<exists>e q'. FairQueue_pop_runnable (\<lambda>_ x. (True, x)) q () = (Some e, q', ()) \<and>
     owner_user_id e = u \<and> ring (users q') \<in> {us, us @ [u]} \<and> queue_inv q'"
proof -
  let ?r = "\<lambda>_ x. (True, x) :: bool \<times> unit" and ?n = "users q"
  have I': "ring_inv owner_user_id user_inv user_mset ?n" using I by (simp add: queue_inv_def)
  obtain en n' s' where T: "ring_turn (UserNode_pop_runnable ?r) ring_is_empty u (?n\<lparr>ring := us\<rparr>) () = (en, n', s')"
    by (metis prod_cases3)
  obtain c c' where c: "bt_get (children ?n) u = Some c" "user_inv c" "UserNode_pop_runnable ?r c () = (en, c', s')"
    using top_queue.turn_child [OF I' R T] by metis
  have "user_mset c \<noteq> {#}" using top_queue.ring_invD(5) [OF I' c(1)] .
  then obtain e0 where "e0 \<in># user_mset c" by blast
  then have ne: "\<exists>p. ring_fifo (ring_fifo (ring_fifo agent_fifo)) c p \<noteq> []"
    using top_queue.fifo_entry [OF c(2), of e0] by (metis empty_iff empty_set)
  have "en \<noteq> None"
  proof
    assume "en = None"
    with c(3) ne show False using top_queue.pop_refused [OF c(2), of ?r] by auto
  qed
  then obtain e where e: "en = Some e" by auto
  have pop: "ring_pop (UserNode_pop_runnable ?r) ring_is_empty ?n () = (Some e, n', s')"
    using R T e by (simp add: ring_pop_def)
  then have P: "FairQueue_pop_runnable ?r q () = (Some e, q\<lparr>users := n', fq_len := fq_len q - 1\<rparr>, ())"
    by (simp add: FairQueue_pop_runnable_def)
  with top_queue.turn_correct(3) [OF I' R T e] fair_queue.pop_Some [OF I P] show ?thesis by auto
qed

text \<open>Popping a number of times in a row while everything is runnable.\<close>

fun serve :: "nat \<Rightarrow> FairQueue \<Rightarrow> ScheduleEntry list" where
  "serve 0 q = []"
| "serve (Suc n) q =
     (case FairQueue_pop_runnable (\<lambda>_ x. (True, x)) q () of
        (None, q', _) \<Rightarrow> []
      | (Some e, q', _) \<Rightarrow> e # serve n q')"

lemma serve_prefix:
  "queue_inv q \<Longrightarrow> ring (users q) = us @ vs \<Longrightarrow> map owner_user_id (serve (length us) q) = us"
proof (induction us arbitrary: q vs)
  case Nil
  then show ?case by simp
next
  case (Cons u us)
  then obtain e q' where "FairQueue_pop_runnable (\<lambda>_ x. (True, x)) q () = (Some e, q', ())"
    and e: "owner_user_id e = u" and r: "ring (users q') \<in> {us @ vs, (us @ vs) @ [u]}" and I: "queue_inv q'"
    using pop_always [of q u "us @ vs"] by auto
  moreover have "map owner_user_id (serve (length us) q') = us"
    using Cons.IH [OF I] r by auto
  ultimately show ?case by simp
qed

text \<open>C12. Round-robin fairness between users: while everything is runnable, one round of pops
  serves every waiting user exactly once, in ring order, whatever the backlog of each.\<close>

theorem round_serves_every_user:
  assumes "queue_inv q"
  shows "map owner_user_id (serve (length (ring (users q))) q) = ring (users q) \<and>
    distinct (ring (users q)) \<and>
    set (ring (users q)) = owner_user_id ` set_mset (queue_entries q)"
proof (intro conjI)
  have I': "ring_inv owner_user_id user_inv user_mset (users q)" using assms by (simp add: queue_inv_def)
  note D = top_queue.ring_invD [OF I']
  show "map owner_user_id (serve (length (ring (users q))) q) = ring (users q)"
    using serve_prefix [OF assms, of "ring (users q)" "[]"] by simp
  show "distinct (ring (users q))" by (rule D(2))
  show "set (ring (users q)) = owner_user_id ` set_mset (queue_entries q)"
  proof (intro set_eqI iffI)
    fix u assume "u \<in> set (ring (users q))"
    then obtain c where c: "bt_get (children (users q)) u = Some c" using D(3) by auto
    obtain e where "e \<in># user_mset c" using D(5) [OF c] by blast
    with c show "u \<in> owner_user_id ` set_mset (queue_entries q)"
      using D(1,6) by (force simp: queue_entries_def in_ring_entries)
  next
    fix u assume "u \<in> owner_user_id ` set_mset (queue_entries q)"
    then show "u \<in> set (ring (users q))"
      using D(1,3,6) by (auto simp: queue_entries_def in_ring_entries)
  qed
qed

lemma drain_from_correct:
  "queue_inv q \<Longrightarrow> FairQueue_drain_from q = (es, q') \<Longrightarrow>
   mset es = queue_entries q \<and> queue_entries q' = {#} \<and> queue_inv q' \<and>
   filter (\<lambda>e. entry_path e = p) es = queue_fifo q p"
proof (induction q arbitrary: es q' rule: FairQueue_drain_from.induct)
  case (1 q)
  obtain en q1 where P: "FairQueue_pop_runnable (\<lambda>_ u. (True, u)) q () = (en, q1, ())"
    by (metis (full_types) prod_cases3 unit.exhaust)
  show ?case
  proof (cases en)
    case None
    then have q': "es = []" "q' = q1" using "1.prems"(2) P by (simp_all add: FairQueue_drain_from.simps [of q])
    have N: "queue_inv q1" "queue_entries q1 = queue_entries q"
      using fair_queue.pop_None [OF "1.prems"(1) P [unfolded None]] by blast+
    have F: "queue_fifo q p = []" for p
    proof (rule ccontr)
      assume "queue_fifo q p \<noteq> []"
      from fair_queue.pop_refused [OF "1.prems"(1) P [unfolded None] this] show False by simp
    qed
    have "queue_entries q = {#}"
      using fair_queue.fifo_entry [OF "1.prems"(1)] F by (metis empty_iff empty_set multiset_nonemptyE)
    with q' N F show ?thesis by simp
  next
    case (Some e)
    obtain es1 q2 where D: "FairQueue_drain_from q1 = (es1, q2)" by fastforce
    then have q': "es = e # es1" "q' = q2"
      using "1.prems"(2) P Some by (simp_all add: FairQueue_drain_from.simps [of q])
    have S: "queue_inv q1" "queue_entries q = add_mset e (queue_entries q1)"
      "queue_fifo q p = (if p = entry_path e then e # queue_fifo q1 p else queue_fifo q1 p)"
      using fair_queue.pop_Some [OF "1.prems"(1) P [unfolded Some]] by metis+
    show ?thesis
      using "1.IH" [OF P [symmetric, unfolded Some] _ _ S(1) D] q' S by auto
  qed
qed

text \<open>C13. Draining empties the queue and loses nothing: the entries returned are exactly the
  ones that were queued, and those of one agent come out in the order they went in.\<close>

theorem drain_complete:
  assumes "queue_inv q" and "FairQueue_drain q = (es, q')"
  shows "mset es = queue_entries q \<and> queue_entries q' = {#} \<and> queue_inv q' \<and>
    (\<forall>p. filter (\<lambda>e. entry_path e = p) es = queue_fifo q p)"
  using drain_from_correct [OF assms(1) assms(2) [unfolded FairQueue_drain_def]] by blast

subsection \<open>Witnesses\<close>

definition sample_queue :: FairQueue where
  "sample_queue =
     FairQueue_push (sample_entry ''r3'' ''u'') (FairQueue_push (sample_entry ''r2'' ''v'')
       (FairQueue_push (sample_entry ''r1'' ''u'') FairQueue_default))"

lemma sample_queue_inv: "queue_inv sample_queue"
  unfolding sample_queue_def by (intro fair_queue.inv_push fair_queue.inv_empty)

theorem pop_runnable_refines_fifo_witness:
  "let p = FairQueue_pop_runnable (\<lambda>_ x. (True, x)) sample_queue ();
       e = sample_entry ''r1'' ''u'' in
   fst p = Some e \<and> queue_fifo sample_queue (entry_path e) = e # queue_fifo (fst (snd p)) (entry_path e)"
proof -
  let ?p = "FairQueue_pop_runnable (\<lambda>_ x. (True, x)) sample_queue ()" and ?e = "sample_entry ''r1'' ''u''"
  have e: "fst ?p = Some ?e" by code_simp
  then have "?p = (Some ?e, fst (snd ?p), ())" by (metis old.unit.exhaust prod.collapse)
  from pop_runnable_refines_fifo [OF sample_queue_inv this] e show ?thesis by simp
qed

theorem pop_runnable_work_conserving_witness:
  "queue_entries (fst (snd (FairQueue_pop_runnable (\<lambda>_ x. (False, x)) sample_queue ()))) =
   queue_entries sample_queue"
proof -
  let ?p = "FairQueue_pop_runnable (\<lambda>_ x. (False, x)) sample_queue ()"
  have "fst ?p = None" by code_simp
  then have "?p = (None, fst (snd ?p), ())" by (metis old.unit.exhaust prod.collapse)
  from pop_runnable_work_conserving [OF sample_queue_inv this] show ?thesis by simp
qed

theorem round_serves_every_user_witness:
  "map owner_user_id (serve (length (ring (users sample_queue))) sample_queue) = [TypedId ''u'', TypedId ''v'']"
proof -
  have "ring (users sample_queue) = [TypedId ''u'', TypedId ''v'']" by code_simp
  with round_serves_every_user [OF sample_queue_inv] show ?thesis by simp
qed

theorem drain_complete_witness:
  "mset (fst (FairQueue_drain sample_queue)) = queue_entries sample_queue \<and>
   map se_request_id (fst (FairQueue_drain sample_queue)) = [TypedId ''r1'', TypedId ''r2'', TypedId ''r3'']"
proof -
  have "map se_request_id (fst (FairQueue_drain sample_queue)) = [TypedId ''r1'', TypedId ''r2'', TypedId ''r3'']"
    by code_simp
  with drain_complete [OF sample_queue_inv, of "fst (FairQueue_drain sample_queue)" "snd (FairQueue_drain sample_queue)"]
  show ?thesis by simp
qed

end
