(* ===== verification/Engine_State.thy ===== *)
theory Engine_State
  imports Fair_Queue
begin

text \<open>
  State of the single-owner group scheduler (\<^verbatim>\<open>gateway-scheduler/src/engine.rs\<close>), the
  resource ledger, and the credential evaluation: capacity, eligibility, the scan of the
  pool and the candidate order. \<^verbatim>\<open>BTreeSet\<close>s are finite sets, \<^verbatim>\<open>BTreeMap\<close>s are
  \<^typ>\<open>('k, 'v) btree\<close>. \<open>uuid_draws\<close> is not a field of the struct: it counts how many
  times the process drew from \<^verbatim>\<open>Uuid::new_v4\<close>, whose values are the function \<open>uuid\<close> that
  the drawing operations take.
\<close>

record CredentialRuntime =
  rt_config :: CredentialConfig
  bucket :: TokenBucket
  inflight :: u32
  half_open_consumed :: bool
  quota_observation_version :: "u128 option"
  admin_fenced :: bool
  next_allowed_at :: "duration option"

record AffinityEntry =
  af_credential_id :: CredentialId
  expires_at :: duration
  migration_candidate :: "CredentialId option"
  migration_successes :: u32

record SessionClaim =
  active_requests :: u32
  idle_since :: "duration option"
  last_request_id :: RequestId
  sc_resource_id :: string

type_synonym SessionClaimKey = "CredentialId \<times> PlatformKeyId \<times> SessionId"

record LeaseRecord =
  lease :: CredentialLease
  session_claim_key :: "SessionClaimKey option"

record WaitingRecord =
  ticket :: QueueTicket
  session_slot_deadline :: "duration option"

datatype PoolEvaluation =
    Candidate CredentialId | Wait | SessionCapacity duration | Cooldown duration
  | DeterministicUnavailable

record SchedulerEngine =
  identity :: ExecutorIdentity
  lifecycle :: RuntimeLifecycle
  config :: GroupConfig
  group_bucket :: "TokenBucket option"
  credentials :: "(CredentialId, CredentialRuntime) btree"
  queue :: FairQueue
  waiting :: "(RequestId, WaitingRecord) btree"
  leases :: "(LeaseId, LeaseRecord) btree"
  request_leases :: "(RequestId, LeaseId) btree"
  pending_cancels :: "(LeaseId, duration) btree"
  group_permits :: "RequestId set"
  seen_requests :: "RequestId set"
  request_portability :: "(RequestId, Portability) btree"
  group_rate_admitted :: "RequestId set"
  affinities :: "(AffinityKey, AffinityEntry) btree"
  session_claims :: "(SessionClaimKey, SessionClaim) btree"
  events :: "ResourceEvent list"
  event_sequence :: u64
  resource_balance :: int
  uuid_draws :: nat

abbreviation generation :: "SchedulerEngine \<Rightarrow> OwnerGeneration" where
  "generation e \<equiv> ei_generation (identity e)"

subsection \<open>The resource ledger\<close>

definition record_event ::
  "RequestId \<Rightarrow> ResourceKind \<Rightarrow> string \<Rightarrow> ResourceAction \<Rightarrow> duration \<Rightarrow> SchedulerEngine \<Rightarrow> SchedulerEngine" where
  "record_event rid kind resource_id act now e =
     (let seq = saturating_add (event_sequence e) 1;
          balance = (case act of
              Acquire \<Rightarrow> isize_saturating_add (resource_balance e) 1
            | _ \<Rightarrow> isize_saturating_add (resource_balance e) (- 1));
          port = unwrap_or (bt_get (request_portability e) rid) (Pinned None [])
      in e\<lparr>event_sequence := seq, resource_balance := balance,
           events := events e @ [\<lparr>sequence_number = seq, re_request_id = rid, resource_kind = kind,
             re_resource_id = resource_id, action = act, re_portability = port,
             re_generation = generation e, observed_at = now\<rparr>]\<rparr>)"

subsection \<open>Capacity\<close>

definition capacity_sum :: "(CredentialId, CredentialRuntime) btree \<Rightarrow> u32" where
  "capacity_sum creds =
     foldl saturating_add 0
       (map (\<lambda>p. cc_concurrency_limit (rt_config (snd p)))
         (filter (\<lambda>p. lifecycle_active (cc_state (rt_config (snd p)))) creds))"

definition effective_concurrency :: "SchedulerEngine \<Rightarrow> nat" where
  "effective_concurrency e =
     (let healthy = capacity_sum (credentials e);
          configured = unwrap_or (gc_concurrency_limit (config e)) healthy
      in unat (min configured healthy))"

definition queue_capacity :: "SchedulerEngine \<Rightarrow> nat" where
  "queue_capacity e =
     unwrap_or (gc_queue_capacity (config e)) (usize_saturating_mul (effective_concurrency e) 2)"

subsection \<open>Eligibility of one credential\<close>

definition quota_requires_half_open :: "CredentialRuntime \<Rightarrow> u16 \<Rightarrow> duration \<Rightarrow> bool" where
  "quota_requires_half_open rt guard now \<longleftrightarrow>
     is_some_and (quota_used_basis_points (cc_state (rt_config rt))) (\<lambda>used. guard \<le> used) \<and>
     is_some_and (quota_reset_at (cc_state (rt_config rt))) (\<lambda>reset. reset \<le> now)"

definition session_capacity_blocked ::
  "CredentialConfig \<Rightarrow> (SessionClaimKey, SessionClaim) btree \<Rightarrow> ScheduleEntry \<Rightarrow> bool" where
  "session_capacity_blocked c claims entry \<longleftrightarrow>
     sc_enabled (session_capacity c) \<and>
     \<not> bt_contains claims (cc_id c, se_platform_key_id entry, se_base_session_id entry) \<and>
     unat (max_active_sessions (session_capacity c)) \<le> bt_count (\<lambda>k _. fst k = cc_id c) claims"

text \<open>The guards that never change by waiting, in the order of the source's disjunction.\<close>

definition ineligible :: "CredentialRuntime \<Rightarrow> ScheduleEntry \<Rightarrow> bool" where
  "ineligible rt entry \<longleftrightarrow>
     (let c = rt_config rt; st = cc_state c in
        admin_fenced rt
      \<or> \<not> lifecycle_active st
      \<or> (openai_transport c = None \<and> \<not> profile_ready st)
      \<or> \<not> egress_ready st
      \<or> \<not> transport_ready st
      \<or> (openai_transport c = None \<and> \<not> bt_contains (profiles c) (se_client_os entry))
      \<or> (openai_transport c \<noteq> None \<and> profiles c \<noteq> [])
      \<or> (model_scope c \<noteq> {} \<and> model_id (generic entry) \<notin> model_scope c)
      \<or> (attribution_suppressed (generic entry) \<and> \<not> attribution_optional c))"

definition eligibility ::
  "CredentialRuntime \<Rightarrow> GroupConfig \<Rightarrow> ScheduleEntry \<Rightarrow> duration \<Rightarrow>
   (EligibilityClass \<times> duration option) \<times> CredentialRuntime" where
  "eligibility rt cfg entry now =
     (let half = quota_requires_half_open rt (quota_guard_basis_points cfg) now;
          c = rt_config rt; st = cc_state c in
      if ineligible rt entry then ((DeterministicallyIneligible, None), rt)
      else if \<not> auth_healthy st \<or> cc_concurrency_limit c \<le> inflight rt
      then ((TemporarilyBlocked, None), rt)
      else if is_some_and (cooldown_until st) (\<lambda>until. now < until)
      then ((TemporarilyBlocked, cooldown_until st), rt)
      else if half \<and> (half_open_inflight st \<or> half_open_consumed rt \<or> portability (generic entry) \<noteq> Portable)
      then ((TemporarilyBlocked, quota_reset_at st), rt)
      else if \<not> half \<and> is_some_and (quota_used_basis_points st) (\<lambda>used. quota_guard_basis_points cfg \<le> used)
      then ((TemporarilyBlocked, quota_reset_at st), rt)
      else (case try_consume_preview (bucket rt) now of
          (False, b) \<Rightarrow> (case retry_after b now of (wait, b') \<Rightarrow>
             ((TemporarilyBlocked, Some (dur_saturating_add now wait)), rt\<lparr>bucket := b'\<rparr>))
        | (True, b) \<Rightarrow>
            if is_some_and (next_allowed_at rt) (\<lambda>t. now < t)
            then ((TemporarilyBlocked, next_allowed_at rt), rt\<lparr>bucket := b\<rparr>)
            else ((Eligible, None), rt\<lparr>bucket := b\<rparr>)))"

subsection \<open>The candidate order\<close>

definition compare_candidates ::
  "(CredentialId, CredentialRuntime) btree \<Rightarrow> CredentialId \<Rightarrow> CredentialId \<Rightarrow> ordering" where
  "compare_candidates creds left right =
     (case bt_get creds left of
        None \<Rightarrow> Greater
      | Some l \<Rightarrow> (case bt_get creds right of
          None \<Rightarrow> Less
        | Some r \<Rightarrow>
            let left_pressure = unat (inflight l) * unat (cc_concurrency_limit (rt_config r));
                right_pressure = unat (inflight r) * unat (cc_concurrency_limit (rt_config l));
                left_quota = unwrap_or (quota_used_basis_points (cc_state (rt_config l))) 10000;
                right_quota = unwrap_or (quota_used_basis_points (cc_state (rt_config r))) 10000
            in then_with (cmp left_quota right_quota)
                 (then_with (cmp left_pressure right_pressure)
                   (then_with (cmp (weight (rt_config r)) (weight (rt_config l)))
                     (cmp left right)))))"

subsection \<open>Scanning the pool\<close>

text \<open>The local variables of the scan loop in \<^verbatim>\<open>evaluate_pool_fields\<close>.\<close>

record PoolScan =
  candidates :: "CredentialId list"
  saw_temporary :: bool
  earliest_recovery :: "duration option"
  preferred_capacity_only :: bool
  session_wait :: "duration option"

definition PoolScan_init :: PoolScan where
  "PoolScan_init =
     \<lparr>candidates = [], saw_temporary = False, earliest_recovery = None,
      preferred_capacity_only = False, session_wait = None\<rparr>"

definition pinned_target :: "Portability \<Rightarrow> CredentialId option" where
  "pinned_target p = (case p of Portable \<Rightarrow> None | Pinned t _ \<Rightarrow> t)"

definition scan_credential ::
  "(SessionClaimKey, SessionClaim) btree \<Rightarrow> GroupConfig \<Rightarrow> ScheduleEntry \<Rightarrow> duration \<Rightarrow> CredentialId option \<Rightarrow>
   CredentialId \<Rightarrow> CredentialRuntime \<Rightarrow> PoolScan \<Rightarrow> PoolScan \<times> CredentialRuntime" where
  "scan_credential claims cfg entry now preferred i rt scan =
     (if is_some_and (pinned_target (portability (generic entry))) (\<lambda>t. t \<noteq> i) then (scan, rt)
      else if session_capacity_blocked (rt_config rt) claims entry
      then (scan\<lparr>saw_temporary := True,
               session_wait := min_option (session_wait scan) (new_session_wait (session_capacity (rt_config rt)))\<rparr>, rt)
      else (case eligibility rt cfg entry now of
          ((Eligible, _), rt') \<Rightarrow> (scan\<lparr>candidates := candidates scan @ [i]\<rparr>, rt')
        | ((TemporarilyBlocked, recovery), rt') \<Rightarrow>
            (scan\<lparr>saw_temporary := True,
               preferred_capacity_only := (preferred_capacity_only scan \<or>
                 (preferred = Some i \<and> cc_concurrency_limit (rt_config rt') \<le> inflight rt')),
               earliest_recovery := (case recovery of
                   None \<Rightarrow> earliest_recovery scan
                 | Some t \<Rightarrow> min_option (earliest_recovery scan) t)\<rparr>, rt')
        | ((DeterministicallyIneligible, _), rt') \<Rightarrow> (scan, rt')))"

fun scan_pool ::
  "(SessionClaimKey, SessionClaim) btree \<Rightarrow> GroupConfig \<Rightarrow> ScheduleEntry \<Rightarrow> duration \<Rightarrow> CredentialId option \<Rightarrow>
   (CredentialId, CredentialRuntime) btree \<Rightarrow> PoolScan \<Rightarrow> PoolScan \<times> (CredentialId, CredentialRuntime) btree" where
  "scan_pool claims cfg entry now preferred [] scan = (scan, [])"
| "scan_pool claims cfg entry now preferred ((i, rt) # creds) scan =
     (case scan_credential claims cfg entry now preferred i rt scan of (scan', rt') \<Rightarrow>
      case scan_pool claims cfg entry now preferred creds scan' of (scan'', creds') \<Rightarrow>
        (scan'', (i, rt') # creds'))"

text \<open>\<^verbatim>\<open>filter_map(..priority).min()\<close> and the \<^verbatim>\<open>retain\<close> that follows it.\<close>

definition priority_of :: "(CredentialId, CredentialRuntime) btree \<Rightarrow> CredentialId \<Rightarrow> u16 option" where
  "priority_of creds i = map_option (\<lambda>rt. priority (rt_config rt)) (bt_get creds i)"

fun best_priority :: "(CredentialId, CredentialRuntime) btree \<Rightarrow> CredentialId list \<Rightarrow> u16 option" where
  "best_priority creds [] = None"
| "best_priority creds (i # is) =
     (case priority_of creds i of
        None \<Rightarrow> best_priority creds is
      | Some p \<Rightarrow> Some (case best_priority creds is of None \<Rightarrow> p | Some q \<Rightarrow> min p q))"

definition retain_best :: "(CredentialId, CredentialRuntime) btree \<Rightarrow> CredentialId list \<Rightarrow> CredentialId list" where
  "retain_best creds is =
     (case best_priority creds is of None \<Rightarrow> is | Some p \<Rightarrow> filter (\<lambda>i. priority_of creds i = Some p) is)"

text \<open>The decision after the scan, over the credentials the scan left behind.\<close>

definition pool_decision ::
  "(CredentialId, CredentialRuntime) btree \<Rightarrow> GroupConfig \<Rightarrow> ScheduleEntry \<Rightarrow> duration \<Rightarrow>
   CredentialId option \<Rightarrow> PoolScan \<Rightarrow> PoolEvaluation" where
  "pool_decision creds cfg entry now preferred scan =
     (if candidates scan = [] then
        (case session_wait scan of
           Some wait \<Rightarrow> SessionCapacity wait
         | None \<Rightarrow> (case earliest_recovery scan of
             Some recovery \<Rightarrow> Cooldown (dur_saturating_sub recovery now)
           | None \<Rightarrow> if saw_temporary scan then Wait else DeterministicUnavailable))
      else
        let best = retain_best creds (candidates scan);
            ordered = (case sort_by (compare_candidates creds) best of
                [] \<Rightarrow> DeterministicUnavailable | i # _ \<Rightarrow> Candidate i)
        in case preferred of
             None \<Rightarrow> ordered
           | Some p \<Rightarrow>
               if p \<in> set best then Candidate p
               else if preferred_capacity_only scan \<and>
                       now < dur_saturating_add (accepted_at entry) (preferred_capacity_wait cfg)
               then Wait
               else ordered)"

definition evaluate_pool_fields ::
  "(CredentialId, CredentialRuntime) btree \<Rightarrow> (AffinityKey, AffinityEntry) btree \<Rightarrow>
   (SessionClaimKey, SessionClaim) btree \<Rightarrow> GroupConfig \<Rightarrow> ScheduleEntry \<Rightarrow> duration \<Rightarrow>
   PoolEvaluation \<times> (CredentialId, CredentialRuntime) btree" where
  "evaluate_pool_fields creds affs claims cfg entry now =
     (let preferred = map_option af_credential_id (bt_get affs (AffinityKey_from entry)) in
      case scan_pool claims cfg entry now preferred creds PoolScan_init of (scan, creds') \<Rightarrow>
        (pool_decision creds' cfg entry now preferred scan, creds'))"

definition evaluate_pool :: "ScheduleEntry \<Rightarrow> duration \<Rightarrow> SchedulerEngine \<Rightarrow> PoolEvaluation \<times> SchedulerEngine" where
  "evaluate_pool entry now e =
     (case evaluate_pool_fields (credentials e) (affinities e) (session_claims e) (config e) entry now of
        (ev, creds') \<Rightarrow> (ev, e\<lparr>credentials := creds'\<rparr>))"

end
