(* ===== verification/Engine_Ops.thy ===== *)
theory Engine_Ops
  imports Engine_State
begin

text \<open>
  The operations of \<^verbatim>\<open>SchedulerEngine\<close> (\<^verbatim>\<open>gateway-scheduler/src/engine.rs\<close>), one
  definition per method. An operation returns its result and the engine it leaves behind;
  a method that returns \<^verbatim>\<open>Err\<close> leaves behind whatever it had changed before the \<^verbatim>\<open>?\<close>.
  Identifiers are minted from \<open>uuid n\<close>, the \<open>n\<close>-th value of \<^verbatim>\<open>Uuid::new_v4().simple()\<close>.
\<close>

type_synonym 'a outcome = "(SchedulerError, 'a) result \<times> SchedulerEngine"

definition rejected :: "RejectionKind \<Rightarrow> duration option \<Rightarrow> AdmissionDecision" where
  "rejected kind retry = Rejected \<lparr>rejection_kind = kind, rejection_retry_after = retry\<rparr>"

subsection \<open>Construction\<close>

definition transport_invalid :: "CredentialConfig \<Rightarrow> bool" where
  "transport_invalid c \<longleftrightarrow>
     is_some_and (openai_transport c) (\<lambda>t. oa_revision t = 0 \<or> oa_egress_epoch t = 0 \<or> profiles c \<noteq> [])"

definition credential_invalid :: "CredentialConfig \<Rightarrow> bool" where
  "credential_invalid c \<longleftrightarrow>
     cc_concurrency_limit c = 0 \<or> requests_per_minute (cc_rate_limit c) = 0 \<or>
     burst (cc_rate_limit c) = 0 \<or> weight c = 0 \<or> transport_invalid c"

definition group_invalid :: "GroupConfig \<Rightarrow> bool" where
  "group_invalid cfg \<longleftrightarrow>
     quota_guard_basis_points cfg = 0 \<or> quota_guard_basis_points cfg > 10000 \<or>
     affinity_migration_successes cfg = 0 \<or> cancel_grace cfg = 0"

definition fresh_runtime :: "CredentialConfig \<Rightarrow> duration \<Rightarrow> CredentialRuntime" where
  "fresh_runtime c now =
     \<lparr>rt_config = c, bucket = bucket_full (cc_rate_limit c) now, inflight = 0,
      half_open_consumed = False, quota_observation_version = cc_quota_observation_version c,
      admin_fenced = False, next_allowed_at = None\<rparr>"

fun build_runtimes ::
  "CredentialConfig list \<Rightarrow> duration \<Rightarrow> (CredentialId, CredentialRuntime) btree \<Rightarrow>
   (SchedulerError, (CredentialId, CredentialRuntime) btree) result" where
  "build_runtimes [] now rts = Inr rts"
| "build_runtimes (c # cs) now rts =
     (if credential_invalid c then Inl InvalidConfiguration
      else if bt_contains rts (cc_id c) then Inl DuplicateIdentifier
      else build_runtimes cs now (bt_insert (cc_id c) (fresh_runtime c now) rts))"

text \<open>The queue bound of \<^verbatim>\<open>new\<close> and \<^verbatim>\<open>reconfigure\<close>: at most twice the effective concurrency.\<close>

definition queue_bound_exceeded :: "GroupConfig \<Rightarrow> u32 \<Rightarrow> bool" where
  "queue_bound_exceeded cfg capacity \<longleftrightarrow>
     (let effective = (case gc_concurrency_limit cfg of None \<Rightarrow> capacity | Some limit \<Rightarrow> min limit capacity);
          maximum_queue = usize_saturating_mul (unat effective) 2
      in capacity \<noteq> 0 \<and> is_some_and (gc_queue_capacity cfg) (\<lambda>q. maximum_queue < q))"

definition engine_new ::
  "ExecutorIdentity \<Rightarrow> GroupConfig \<Rightarrow> CredentialConfig list \<Rightarrow> duration \<Rightarrow> (SchedulerError, SchedulerEngine) result" where
  "engine_new ident cfg creds now =
     (case build_runtimes creds now [] of
        Inl err \<Rightarrow> Inl err
      | Inr rts \<Rightarrow>
          if group_invalid cfg then Inl InvalidConfiguration
          else if queue_bound_exceeded cfg (capacity_sum rts) then Inl InvalidConfiguration
          else Inr \<lparr>identity = ident, lifecycle = Serving, config = cfg,
             group_bucket = map_option (\<lambda>r. bucket_full r now) (gc_rate_limit cfg),
             credentials = rts, queue = FairQueue_default, waiting = [], leases = [],
             request_leases = [], pending_cancels = [], group_permits = {}, seen_requests = {},
             request_portability = [], group_rate_admitted = {}, affinities = [],
             session_claims = [], events = [], event_sequence = 0, resource_balance = 0,
             uuid_draws = 0\<rparr>)"

subsection \<open>Permits and queue tickets\<close>

definition release_group_permit :: "RequestId \<Rightarrow> ResourceAction \<Rightarrow> duration \<Rightarrow> SchedulerEngine \<Rightarrow> unit outcome" where
  "release_group_permit rid act now e =
     (if rid \<notin> group_permits e then (Inl DuplicateRelease, e)
      else (Inr (), record_event rid GroupPermit ''group-permit'' act now
             (e\<lparr>group_permits := group_permits e - {rid}\<rparr>)))"

text \<open>\<^verbatim>\<open>self.group_rate_admitted.remove(..)\<close>\<close>

definition forget_rate :: "RequestId \<Rightarrow> SchedulerEngine \<Rightarrow> SchedulerEngine" where
  "forget_rate rid e = e\<lparr>group_rate_admitted := group_rate_admitted e - {rid}\<rparr>"

text \<open>\<^verbatim>\<open>if let Some(waiting) = self.waiting.remove(..)\<close> with its ledger entry.\<close>

definition drop_waiting :: "RequestId \<Rightarrow> ResourceAction \<Rightarrow> duration \<Rightarrow> SchedulerEngine \<Rightarrow> SchedulerEngine" where
  "drop_waiting rid act now e =
     (case bt_get (waiting e) rid of
        None \<Rightarrow> e
      | Some w \<Rightarrow> record_event rid QueueTicketResource (as_str (qt_id (ticket w))) act now
          (e\<lparr>waiting := bt_remove rid (waiting e)\<rparr>))"

definition enqueue ::
  "(nat \<Rightarrow> string) \<Rightarrow> ScheduleEntry \<Rightarrow> duration \<Rightarrow> duration option \<Rightarrow> SchedulerEngine \<Rightarrow> AdmissionDecision outcome" where
  "enqueue uuid entry now slot e =
     (if queue_capacity e \<le> fq_len (queue e)
      then (Inr (rejected QueueFull (Some (from_secs 2))), forget_rate (se_request_id entry) e)
      else let e1 = e\<lparr>uuid_draws := Suc (uuid_draws e)\<rparr> in
        (case TypedId_new (''ticket_'' @ uuid (uuid_draws e)) of
           Inl _ \<Rightarrow> (Inl InvalidConfiguration, e1)
         | Inr tid \<Rightarrow>
             let tk = \<lparr>qt_id = tid, qt_request_id = se_request_id entry,
                       qt_deadline = pre_upstream_deadline entry, qt_state = TicketQueued,
                       qt_generation = generation e\<rparr>
             in (Inr (Queued tk),
                 record_event (se_request_id entry) QueueTicketResource (as_str tid) Acquire now
                   (e1\<lparr>queue := FairQueue_push entry (queue e),
                       waiting := bt_insert (se_request_id entry)
                         \<lparr>ticket = tk, session_slot_deadline = slot\<rparr> (waiting e)\<rparr>))))"

subsection \<open>Granting\<close>

definition session_resource_id :: "SessionClaimKey \<Rightarrow> string" where
  "session_resource_id key =
     (case key of (c, k, s) \<Rightarrow> as_str c @ '':'' @ as_str k @ '':'' @ as_str s)"

definition acquire_session_claim ::
  "ScheduleEntry \<Rightarrow> CredentialId \<Rightarrow> SchedulerEngine \<Rightarrow> (SessionClaimKey option \<times> string option) \<times> SchedulerEngine" where
  "acquire_session_claim entry cid e =
     (if \<not> is_some_and (bt_get (credentials e) cid) (\<lambda>rt. sc_enabled (session_capacity (rt_config rt)))
      then ((None, None), e)
      else let key = (cid, se_platform_key_id entry, se_base_session_id entry);
               found = bt_get (session_claims e) key;
               claim = unwrap_or found
                 \<lparr>active_requests = 0, idle_since = None, last_request_id = se_request_id entry,
                  sc_resource_id = session_resource_id key\<rparr>
           in ((Some key, case found of None \<Rightarrow> Some (session_resource_id key) | Some _ \<Rightarrow> None),
               e\<lparr>session_claims := bt_insert key
                   (claim\<lparr>active_requests := saturating_add (active_requests claim) 1,
                          idle_since := None, last_request_id := se_request_id entry\<rparr>)
                   (session_claims e)\<rparr>))"

definition lease_execution :: "CredentialConfig \<Rightarrow> ClientOs \<Rightarrow> CredentialExecution option" where
  "lease_execution c os =
     (case openai_transport c of
        Some t \<Rightarrow> if profiles c \<noteq> [] then None else Some (OpenAi t)
      | None \<Rightarrow> map_option Anthropic (bt_get (profiles c) os))"

text \<open>
  The part of \<^verbatim>\<open>grant\<close> that works on the credential's runtime: the guards, the rate charge, the
  pacing instant, the one-shot half-open probe and the in-flight count. \<open>None\<close> is
  \<^verbatim>\<open>Err(InvalidConfiguration)\<close>.
\<close>

definition charge_runtime ::
  "GroupConfig \<Rightarrow> ScheduleEntry \<Rightarrow> duration \<Rightarrow> CredentialRuntime \<Rightarrow>
   (CredentialExecution \<times> bool) option \<times> CredentialRuntime" where
  "charge_runtime cfg entry now rt =
     (case lease_execution (rt_config rt) (se_client_os entry) of
        None \<Rightarrow> (None, rt)
      | Some ex \<Rightarrow> (case try_consume (bucket rt) now of (ok, b) \<Rightarrow>
          let rt1 = rt\<lparr>bucket := b\<rparr> in
          if \<not> ok \<or> cc_concurrency_limit (rt_config rt) \<le> inflight rt then (None, rt1)
          else
            let rt2 = rt1\<lparr>next_allowed_at :=
                  map_option (dur_saturating_add now) (min_request_interval (rt_config rt))\<rparr>;
                half = quota_requires_half_open rt2 (quota_guard_basis_points cfg) now;
                st = cc_state (rt_config rt)
            in if half \<and> (half_open_inflight st \<or> half_open_consumed rt \<or> portability (generic entry) \<noteq> Portable)
               then (None, rt2)
               else
                 let rt3 = (if half
                       then rt2\<lparr>rt_config := (rt_config rt)\<lparr>cc_state := st\<lparr>half_open_inflight := True\<rparr>\<rparr>,
                                half_open_consumed := True\<rparr>
                       else rt2)
                 in (Some (ex, half), rt3\<lparr>inflight := saturating_add (inflight rt) 1\<rparr>)))"

text \<open>The part of \<^verbatim>\<open>grant\<close> after the lease identifier is minted.\<close>

definition install_lease ::
  "ScheduleEntry \<Rightarrow> CredentialLease \<Rightarrow> duration \<Rightarrow> bool \<Rightarrow> SchedulerEngine \<Rightarrow> SchedulerEngine" where
  "install_lease entry l now acquire e =
     (case acquire_session_claim entry (cl_credential_id l) e of ((key, new_claim), e1) \<Rightarrow>
      let rid = se_request_id entry;
          e2 = e1\<lparr>leases := bt_insert (cl_id l) \<lparr>lease = l, session_claim_key = key\<rparr> (leases e1),
                  request_leases := bt_insert rid (cl_id l) (request_leases e1),
                  group_permits := (if acquire then insert rid (group_permits e1) else group_permits e1),
                  group_rate_admitted := group_rate_admitted e1 - {rid}\<rparr>;
          e3 = (if acquire then record_event rid GroupPermit ''group-permit'' Acquire now e2 else e2);
          e4 = (case new_claim of
                  None \<Rightarrow> e3
                | Some resource_id \<Rightarrow> record_event rid SessionClaimResource resource_id Acquire now e3)
      in record_event rid CredentialLeaseResource (as_str (cl_id l)) Acquire now e4)"

definition grant ::
  "(nat \<Rightarrow> string) \<Rightarrow> ScheduleEntry \<Rightarrow> CredentialId \<Rightarrow> duration \<Rightarrow> bool \<Rightarrow> SchedulerEngine \<Rightarrow> CredentialLease outcome" where
  "grant uuid entry cid now acquire e =
     (case bt_get (credentials e) cid of
        None \<Rightarrow> (Inl InvalidConfiguration, e)
      | Some rt \<Rightarrow> (case charge_runtime (config e) entry now rt of (res, rt') \<Rightarrow>
          let e1 = e\<lparr>credentials := bt_modify cid (\<lambda>_. rt') (credentials e)\<rparr> in
          (case res of
             None \<Rightarrow> (Inl InvalidConfiguration, e1)
           | Some (ex, half) \<Rightarrow>
               let e2 = e1\<lparr>uuid_draws := Suc (uuid_draws e)\<rparr> in
               (case TypedId_new (''lease_'' @ uuid (uuid_draws e)) of
                  Inl _ \<Rightarrow> (Inl InvalidConfiguration, e2)
                | Inr lid \<Rightarrow>
                    let l = \<lparr>cl_id = lid, cl_request_id = se_request_id entry, cl_credential_id = cid,
                             cl_client_os = se_client_os entry, owner_generation = generation e,
                             cl_token_version = token_version (rt_config rt'), execution = ex,
                             half_open = half\<rparr>
                    in (Inr l, install_lease entry l now acquire e2)))))"

subsection \<open>Releasing\<close>

definition release_runtime :: "CredentialLease \<Rightarrow> CredentialRuntime \<Rightarrow> CredentialRuntime option" where
  "release_runtime l rt =
     (case checked_sub (inflight rt) 1 of
        None \<Rightarrow> None
      | Some n \<Rightarrow> Some (let rt1 = rt\<lparr>inflight := n\<rparr> in
          if half_open l
          then rt1\<lparr>rt_config := (rt_config rt)\<lparr>cc_state := (cc_state (rt_config rt))\<lparr>half_open_inflight := False\<rparr>\<rparr>\<rparr>
          else rt1))"

definition release_claim :: "duration \<Rightarrow> SessionClaim \<Rightarrow> SessionClaim option" where
  "release_claim now claim =
     (case checked_sub (active_requests claim) 1 of
        None \<Rightarrow> None
      | Some n \<Rightarrow> Some (claim\<lparr>active_requests := n,
                            idle_since := (if n = 0 then Some now else idle_since claim)\<rparr>))"

definition release_lease :: "OwnerGeneration \<Rightarrow> LeaseId \<Rightarrow> duration \<Rightarrow> SchedulerEngine \<Rightarrow> LeaseRelease outcome" where
  "release_lease gen lid now e =
     (if gen \<noteq> generation e then (Inr ReleaseStaleIgnored, e)
      else (case bt_get (leases e) lid of
        None \<Rightarrow> (Inl DuplicateRelease, e)
      | Some rec \<Rightarrow>
          let l = lease rec;
              e1 = e\<lparr>leases := bt_remove lid (leases e),
                     request_leases := bt_remove (cl_request_id l) (request_leases e),
                     pending_cancels := bt_remove lid (pending_cancels e)\<rparr>;
              finish = (\<lambda>e3. (Inr Released,
                 record_event (cl_request_id l) CredentialLeaseResource (as_str lid) Release now e3));
              with_claim = (\<lambda>e2. case session_claim_key rec of
                  None \<Rightarrow> finish e2
                | Some key \<Rightarrow> (case bt_get (session_claims e2) key of
                    None \<Rightarrow> finish e2
                  | Some claim \<Rightarrow> (case release_claim now claim of
                      None \<Rightarrow> (Inl DuplicateRelease, e2)
                    | Some claim' \<Rightarrow>
                        finish (e2\<lparr>session_claims := bt_modify key (\<lambda>_. claim') (session_claims e2)\<rparr>))))
          in (case bt_get (credentials e1) (cl_credential_id l) of
                None \<Rightarrow> with_claim e1
              | Some rt \<Rightarrow> (case release_runtime l rt of
                  None \<Rightarrow> (Inl DuplicateRelease, e1)
                | Some rt' \<Rightarrow>
                    with_claim (e1\<lparr>credentials := bt_modify (cl_credential_id l) (\<lambda>_. rt') (credentials e1)\<rparr>)))))"

subsection \<open>Expiry\<close>

definition claim_expired ::
  "(CredentialId, CredentialRuntime) btree \<Rightarrow> duration \<Rightarrow> SessionClaimKey \<Rightarrow> SessionClaim \<Rightarrow> bool" where
  "claim_expired creds now key claim \<longleftrightarrow>
     active_requests claim = 0 \<and>
     is_none_or (idle_since claim) (\<lambda>idle.
       (case bt_get creds (fst key) of None \<Rightarrow> 0 | Some rt \<Rightarrow> idle_ttl (session_capacity (rt_config rt)))
         \<le> dur_saturating_sub now idle)"

fun drop_claims :: "(SessionClaimKey \<times> RequestId \<times> string) list \<Rightarrow> duration \<Rightarrow> SchedulerEngine \<Rightarrow> SchedulerEngine" where
  "drop_claims [] now e = e"
| "drop_claims ((key, rid, resource_id) # ks) now e =
     drop_claims ks now
       (record_event rid SessionClaimResource resource_id Release now
         (e\<lparr>session_claims := bt_remove key (session_claims e)\<rparr>))"

definition settle_half_open :: "GroupConfig \<Rightarrow> CredentialRuntime \<Rightarrow> CredentialRuntime" where
  "settle_half_open cfg rt =
     (if is_none_or (quota_used_basis_points (cc_state (rt_config rt))) (\<lambda>used. used < quota_guard_basis_points cfg)
      then rt\<lparr>half_open_consumed := False\<rparr> else rt)"

definition prune :: "duration \<Rightarrow> SchedulerEngine \<Rightarrow> SchedulerEngine" where
  "prune now e =
     (let e1 = e\<lparr>affinities := bt_retain (\<lambda>_ a. now < expires_at a) (affinities e)\<rparr>;
          expired = map (\<lambda>(key, claim). (key, last_request_id claim, sc_resource_id claim))
            (bt_retain (claim_expired (credentials e1) now) (session_claims e1));
          e2 = drop_claims expired now e1
      in e2\<lparr>credentials := bt_map (\<lambda>_. settle_half_open (config e2)) (credentials e2)\<rparr>)"

definition slot_expired :: "duration \<Rightarrow> WaitingRecord \<Rightarrow> bool" where
  "slot_expired now w \<longleftrightarrow> is_some_and (session_slot_deadline w) (\<lambda>d. d \<le> now)"

definition waiter_expired :: "duration \<Rightarrow> WaitingRecord \<Rightarrow> bool" where
  "waiter_expired now w \<longleftrightarrow> qt_deadline (ticket w) \<le> now \<or> slot_expired now w"

fun expire_each ::
  "(RequestId \<times> RejectionKind) list \<Rightarrow> duration \<Rightarrow> SchedulerEngine \<Rightarrow> QueueResolution list \<times> SchedulerEngine" where
  "expire_each [] now e = ([], e)"
| "expire_each ((rid, kind) # rs) now e =
     (let e1 = e\<lparr>queue := snd (FairQueue_remove rid (queue e))\<rparr>;
          e2 = forget_rate rid (drop_waiting rid Release now e1) in
      (case expire_each rs now e2 of (out, e3) \<Rightarrow>
         (\<lparr>qr_request_id = rid, decision = rejected kind (Some (from_secs 5))\<rparr> # out, e3)))"

definition expire_waiters :: "duration \<Rightarrow> SchedulerEngine \<Rightarrow> QueueResolution list \<times> SchedulerEngine" where
  "expire_waiters now e =
     expire_each
       (map (\<lambda>(rid, w). (rid, if slot_expired now w then SessionCapacityDeadline else TimedOut))
         (bt_retain (\<lambda>_. waiter_expired now) (waiting e)))
       now e"

fun release_all :: "LeaseId list \<Rightarrow> duration \<Rightarrow> SchedulerEngine \<Rightarrow> SchedulerEngine" where
  "release_all [] now e = e"
| "release_all (lid # lids) now e = release_all lids now (snd (release_lease (generation e) lid now e))"

definition expire_cancel_grace :: "duration \<Rightarrow> SchedulerEngine \<Rightarrow> SchedulerEngine" where
  "expire_cancel_grace now e =
     release_all (map fst (bt_retain (\<lambda>_ d. d \<le> now) (pending_cancels e))) now e"

subsection \<open>Admission\<close>

text \<open>\<^verbatim>\<open>admit\<close> after the group's rate limit has been passed.\<close>

definition admit_pool ::
  "(nat \<Rightarrow> string) \<Rightarrow> ScheduleEntry \<Rightarrow> duration \<Rightarrow> SchedulerEngine \<Rightarrow> AdmissionDecision outcome" where
  "admit_pool uuid entry now e =
     (case evaluate_pool entry now e of (ev, e1) \<Rightarrow>
      let rid = se_request_id entry;
          slot = (case ev of SessionCapacity wait \<Rightarrow> Some (dur_saturating_add now wait) | _ \<Rightarrow> None);
          otherwise =
            (if bypass_queue entry
             then (Inr (rejected QueueFull (Some (from_secs 1))), forget_rate rid e1)
             else enqueue uuid entry now slot e1)
      in if card (group_permits e1) < effective_concurrency e1 \<and> fq_len (queue e1) = 0
         then (case ev of
             Candidate cid \<Rightarrow> (case grant uuid entry cid now True e1 of (r, e2) \<Rightarrow> (map_sum id Granted r, e2))
           | Cooldown retry \<Rightarrow>
               if pre_upstream_deadline entry \<le> dur_saturating_add now retry
               then (Inr (rejected CooldownBeyondDeadline (Some retry)), forget_rate rid e1)
               else otherwise
           | DeterministicUnavailable \<Rightarrow> (Inr (rejected GroupUnavailable None), forget_rate rid e1)
           | _ \<Rightarrow> otherwise)
         else if ev = DeterministicUnavailable
         then (Inr (rejected GroupUnavailable None), forget_rate rid e1)
         else otherwise)"

text \<open>\<^verbatim>\<open>admit\<close> after its guards.\<close>

definition admit_accepted ::
  "(nat \<Rightarrow> string) \<Rightarrow> ScheduleEntry \<Rightarrow> duration \<Rightarrow> SchedulerEngine \<Rightarrow> AdmissionDecision outcome" where
  "admit_accepted uuid entry now e =
     (let rid = se_request_id entry;
          e1 = prune now (e\<lparr>seen_requests := insert rid (seen_requests e),
            request_portability := bt_insert rid (portability (generic entry)) (request_portability e)\<rparr>)
      in (case group_bucket e1 of
            None \<Rightarrow> admit_pool uuid entry now e1
          | Some b \<Rightarrow> (case try_consume b now of
              (True, b') \<Rightarrow> admit_pool uuid entry now
                (e1\<lparr>group_bucket := Some b', group_rate_admitted := insert rid (group_rate_admitted e1)\<rparr>)
            | (False, b') \<Rightarrow> (case retry_after b' now of (retry, b'') \<Rightarrow>
                let e2 = e1\<lparr>group_bucket := Some b''\<rparr> in
                if pre_upstream_deadline entry \<le> dur_saturating_add now retry
                then (Inr (rejected GroupRateDeadline (Some (from_secs 5))), e2)
                else if bypass_queue entry
                then (Inr (rejected QueueFull (Some retry)), forget_rate rid e2)
                else enqueue uuid entry now None e2))))"

definition admit ::
  "(nat \<Rightarrow> string) \<Rightarrow> OwnerGeneration \<Rightarrow> ScheduleEntry \<Rightarrow> duration \<Rightarrow> SchedulerEngine \<Rightarrow> AdmissionDecision outcome" where
  "admit uuid gen entry now e =
     (if gen \<noteq> generation e then (Inr StaleIgnored, e)
      else if se_group_id entry \<noteq> ei_group_id (identity e) then (Inl WrongGroup, e)
      else if group_config (snapshot_set (generic entry)) \<noteq> snapshot_version (config e)
      then (Inr (rejected GroupUnavailable (Some (from_secs 1))), e)
      else if se_request_id entry \<in> seen_requests e
      then (Inr (rejected DuplicateRequest None), e)
      else if lifecycle e \<noteq> Serving then (Inr (rejected GroupUnavailable None), e)
      else if pre_upstream_deadline entry \<le> now then (Inr (rejected TimedOut (Some (from_secs 5))), e)
      else admit_accepted uuid entry now e)"

subsection \<open>Lease replacement\<close>

definition retry_selected :: "RetryCredentialTarget \<Rightarrow> CredentialId \<Rightarrow> bool" where
  "retry_selected tgt i = (case tgt of Same expected \<Rightarrow> i = expected | Alternate excluded \<Rightarrow> i \<noteq> excluded)"

text \<open>Eligibility of one credential, seen as if the request had already given its lease back.\<close>

definition retry_probe ::
  "GroupConfig \<Rightarrow> ScheduleEntry \<Rightarrow> duration \<Rightarrow> bool \<Rightarrow> CredentialRuntime \<Rightarrow> (EligibilityClass \<times> CredentialRuntime) option" where
  "retry_probe cfg entry now released_current rt =
     (if released_current then
        (case checked_sub (inflight rt) 1 of
           None \<Rightarrow> None
         | Some n \<Rightarrow> (case eligibility (rt\<lparr>inflight := n\<rparr>) cfg entry now of ((class, _), rt') \<Rightarrow>
             Some (class, rt'\<lparr>inflight := saturating_add (inflight rt') 1\<rparr>)))
      else (case eligibility rt cfg entry now of ((class, _), rt') \<Rightarrow> Some (class, rt')))"

text \<open>The loop over the credentials; \<open>None\<close> is the early return of the \<^verbatim>\<open>?\<close>s.\<close>

fun retry_scan ::
  "(SessionClaimKey, SessionClaim) btree \<Rightarrow> GroupConfig \<Rightarrow> ScheduleEntry \<Rightarrow> RetryCredentialTarget \<Rightarrow>
   CredentialId \<Rightarrow> duration \<Rightarrow> (CredentialId, CredentialRuntime) btree \<Rightarrow>
   CredentialId list option \<times> (CredentialId, CredentialRuntime) btree" where
  "retry_scan claims cfg entry tgt cur now [] = (Some [], [])"
| "retry_scan claims cfg entry tgt cur now ((i, rt) # creds) =
     (if \<not> retry_selected tgt i \<or> session_capacity_blocked (rt_config rt) claims entry
      then (case retry_scan claims cfg entry tgt cur now creds of (r, creds') \<Rightarrow> (r, (i, rt) # creds'))
      else (case retry_probe cfg entry now (i = cur) rt of
          None \<Rightarrow> (None, (i, rt) # creds)
        | Some (class, rt') \<Rightarrow>
            (case retry_scan claims cfg entry tgt cur now creds of (r, creds') \<Rightarrow>
               (map_option (\<lambda>is. if class = Eligible then i # is else is) r, (i, rt') # creds'))))"

definition retry_candidate ::
  "ScheduleEntry \<Rightarrow> RetryCredentialTarget \<Rightarrow> CredentialId \<Rightarrow> duration \<Rightarrow> SchedulerEngine \<Rightarrow>
   CredentialId option \<times> SchedulerEngine" where
  "retry_candidate entry tgt cur now e =
     (if is_some_and (pinned_target (portability (generic entry))) (\<lambda>pinned. tgt \<noteq> Same pinned)
      then (None, e)
      else (case retry_scan (session_claims e) (config e) entry tgt cur now (credentials e) of
          (r, creds) \<Rightarrow>
            (case r of
               None \<Rightarrow> None
             | Some is \<Rightarrow> (case best_priority creds is of
                 None \<Rightarrow> None
               | Some p \<Rightarrow> (case sort_by (compare_candidates creds)
                     (filter (\<lambda>i. priority_of creds i = Some p) is) of
                   [] \<Rightarrow> None | i # _ \<Rightarrow> Some i)),
             e\<lparr>credentials := creds\<rparr>)))"

definition replace_lease ::
  "(nat \<Rightarrow> string) \<Rightarrow> OwnerGeneration \<Rightarrow> RetryLeaseRequest \<Rightarrow> duration \<Rightarrow> SchedulerEngine \<Rightarrow> RetryLeaseDecision outcome" where
  "replace_lease uuid gen req now e =
     (if gen \<noteq> generation e then (Inr RetryStaleIgnored, e)
      else if se_group_id (rl_entry req) \<noteq> ei_group_id (identity e) then (Inl WrongGroup, e)
      else (case bt_get (leases e) (current_lease_id req) of
        None \<Rightarrow> (Inl DuplicateRelease, e)
      | Some current \<Rightarrow>
          if cl_request_id (lease current) \<noteq> se_request_id (rl_entry req)
           \<or> bt_get (request_leases e) (se_request_id (rl_entry req)) \<noteq> Some (current_lease_id req)
           \<or> se_request_id (rl_entry req) \<notin> group_permits e
          then (Inl DuplicateIdentifier, e)
          else (case retry_candidate (rl_entry req) (target req) (cl_credential_id (lease current)) now e of
              (None, e1) \<Rightarrow> (Inr NoCandidate, e1)
            | (Some cid, e1) \<Rightarrow> (case release_lease gen (current_lease_id req) now e1 of
                (Inl err, e2) \<Rightarrow> (Inl err, e2)
              | (Inr _, e2) \<Rightarrow> (case grant uuid (rl_entry req) cid now False e2 of
                  (r, e3) \<Rightarrow> (map_sum id RetryGranted r, e3))))))"

subsection \<open>Cancellation and completion\<close>

definition cancel :: "OwnerGeneration \<Rightarrow> RequestId \<Rightarrow> duration \<Rightarrow> SchedulerEngine \<Rightarrow> AdmissionDecision outcome" where
  "cancel gen rid now e =
     (if gen \<noteq> generation e then (Inr StaleIgnored, e)
      else (case bt_get (waiting e) rid of
        Some w \<Rightarrow>
          (Inr (rejected Cancelled None),
           record_event rid QueueTicketResource (as_str (qt_id (ticket w))) Release now
             (forget_rate rid (e\<lparr>waiting := bt_remove rid (waiting e),
                                queue := snd (FairQueue_remove rid (queue e))\<rparr>)))
      | None \<Rightarrow>
          let e1 = (if rid \<in> group_permits e then snd (release_group_permit rid Release now e) else e) in
          (case bt_get (request_leases e) rid of
             Some lid \<Rightarrow>
               (Inr (rejected Cancelled None),
                if bt_contains (pending_cancels e1) lid then e1
                else e1\<lparr>pending_cancels := bt_insert lid (dur_saturating_add now (cancel_grace (config e1)))
                         (pending_cancels e1)\<rparr>)
           | None \<Rightarrow> (Inr (rejected Cancelled None), e1))))"

definition confirm_transport_cancel ::
  "OwnerGeneration \<Rightarrow> RequestId \<Rightarrow> duration \<Rightarrow> SchedulerEngine \<Rightarrow> LeaseRelease outcome" where
  "confirm_transport_cancel gen rid now e =
     (if gen \<noteq> generation e then (Inr ReleaseStaleIgnored, e)
      else (case bt_get (request_leases e) rid of
        None \<Rightarrow> (Inl DuplicateRelease, e)
      | Some lid \<Rightarrow> release_lease gen lid now (e\<lparr>pending_cancels := bt_remove lid (pending_cancels e)\<rparr>)))"

subsection \<open>The pump\<close>

text \<open>The closure passed to \<^verbatim>\<open>pop_runnable\<close>, with the three fields it borrows mutably as its state.\<close>

type_synonym pump_state =
  "TokenBucket option \<times> RequestId set \<times> (CredentialId, CredentialRuntime) btree"

definition rate_ready :: "RequestId \<Rightarrow> duration \<Rightarrow> TokenBucket option \<Rightarrow> RequestId set \<Rightarrow>
   bool \<times> TokenBucket option \<times> RequestId set" where
  "rate_ready rid now gb admitted =
     (if rid \<in> admitted then (True, gb, admitted)
      else (case gb of
        None \<Rightarrow> (True, gb, admitted)
      | Some b \<Rightarrow> (case try_consume b now of
          (True, b') \<Rightarrow> (True, Some b', insert rid admitted)
        | (False, b') \<Rightarrow> (False, Some b', admitted))))"

definition pump_runnable ::
  "(AffinityKey, AffinityEntry) btree \<Rightarrow> (SessionClaimKey, SessionClaim) btree \<Rightarrow> GroupConfig \<Rightarrow> duration \<Rightarrow>
   ScheduleEntry \<Rightarrow> pump_state \<Rightarrow> bool \<times> pump_state" where
  "pump_runnable affs claims cfg now entry s =
     (case s of (gb, admitted, creds) \<Rightarrow>
      if pre_upstream_deadline entry \<le> now then (True, s)
      else (case rate_ready (se_request_id entry) now gb admitted of
          (False, gb', admitted') \<Rightarrow> (False, gb', admitted', creds)
        | (True, gb', admitted') \<Rightarrow>
            (case evaluate_pool_fields creds affs claims cfg entry now of (ev, creds') \<Rightarrow>
               ((case ev of Candidate _ \<Rightarrow> True | _ \<Rightarrow> False), gb', admitted', creds'))))"

text \<open>One turn of the loop: \<open>None\<close> is \<^verbatim>\<open>break\<close>, \<open>Some\<close> carries what the turn pushes to the resolutions.\<close>

definition pump_turn ::
  "(nat \<Rightarrow> string) \<Rightarrow> duration \<Rightarrow> SchedulerEngine \<Rightarrow> QueueResolution list option \<times> SchedulerEngine" where
  "pump_turn uuid now e =
     (if effective_concurrency e \<le> card (group_permits e) then (None, e)
      else (case FairQueue_pop_runnable (pump_runnable (affinities e) (session_claims e) (config e) now)
             (queue e) (group_bucket e, group_rate_admitted e, credentials e) of
        (popped, q, gb, admitted, creds) \<Rightarrow>
          let e1 = e\<lparr>queue := q, group_bucket := gb, group_rate_admitted := admitted, credentials := creds\<rparr> in
          (case popped of
             None \<Rightarrow> (None, e1)
           | Some entry \<Rightarrow>
               let rid = se_request_id entry in
               (case bt_get (waiting e1) rid of
                  None \<Rightarrow> (Some [], e1)
                | Some w \<Rightarrow>
                    let e2 = drop_waiting rid Release now e1 in
                    if pre_upstream_deadline entry \<le> now
                    then (Some [\<lparr>qr_request_id = rid, decision = rejected TimedOut (Some (from_secs 5))\<rparr>],
                          forget_rate rid e2)
                    else (case evaluate_pool entry now e2 of
                        (Candidate cid, e3) \<Rightarrow> (case grant uuid entry cid now True e3 of (r, e4) \<Rightarrow>
                          (Some [\<lparr>qr_request_id = rid,
                                  decision = (case r of Inl _ \<Rightarrow> rejected GroupUnavailable None | Inr l \<Rightarrow> Granted l)\<rparr>],
                           e4))
                      | (_, e3) \<Rightarrow>
                          (None, e3\<lparr>queue := FairQueue_push entry (queue e3),
                                    waiting := bt_insert (qt_request_id (ticket w)) w (waiting e3)\<rparr>))))))"

subsection \<open>What the building blocks leave unchanged\<close>

lemma record_event_frame [frame_simps, simp]:
  "identity (record_event rid k i a now e) = identity e"
  "lifecycle (record_event rid k i a now e) = lifecycle e"
  "config (record_event rid k i a now e) = config e"
  "group_bucket (record_event rid k i a now e) = group_bucket e"
  "credentials (record_event rid k i a now e) = credentials e"
  "queue (record_event rid k i a now e) = queue e"
  "waiting (record_event rid k i a now e) = waiting e"
  "leases (record_event rid k i a now e) = leases e"
  "request_leases (record_event rid k i a now e) = request_leases e"
  "pending_cancels (record_event rid k i a now e) = pending_cancels e"
  "group_permits (record_event rid k i a now e) = group_permits e"
  "seen_requests (record_event rid k i a now e) = seen_requests e"
  "request_portability (record_event rid k i a now e) = request_portability e"
  "group_rate_admitted (record_event rid k i a now e) = group_rate_admitted e"
  "affinities (record_event rid k i a now e) = affinities e"
  "session_claims (record_event rid k i a now e) = session_claims e"
  "uuid_draws (record_event rid k i a now e) = uuid_draws e"
  by (simp_all add: record_event_def Let_def)

lemma forget_rate_frame [frame_simps, simp]:
  "identity (forget_rate rid e) = identity e" "lifecycle (forget_rate rid e) = lifecycle e"
  "config (forget_rate rid e) = config e" "group_bucket (forget_rate rid e) = group_bucket e"
  "credentials (forget_rate rid e) = credentials e" "queue (forget_rate rid e) = queue e"
  "waiting (forget_rate rid e) = waiting e" "leases (forget_rate rid e) = leases e"
  "request_leases (forget_rate rid e) = request_leases e"
  "pending_cancels (forget_rate rid e) = pending_cancels e"
  "group_permits (forget_rate rid e) = group_permits e"
  "seen_requests (forget_rate rid e) = seen_requests e"
  "request_portability (forget_rate rid e) = request_portability e"
  "affinities (forget_rate rid e) = affinities e"
  "session_claims (forget_rate rid e) = session_claims e"
  "events (forget_rate rid e) = events e" "event_sequence (forget_rate rid e) = event_sequence e"
  "resource_balance (forget_rate rid e) = resource_balance e"
  "uuid_draws (forget_rate rid e) = uuid_draws e"
  "group_rate_admitted (forget_rate rid e) = group_rate_admitted e - {rid}"
  by (simp_all add: forget_rate_def)

lemma drop_waiting_frame [frame_simps, simp]:
  "identity (drop_waiting rid a now e) = identity e" "lifecycle (drop_waiting rid a now e) = lifecycle e"
  "config (drop_waiting rid a now e) = config e" "group_bucket (drop_waiting rid a now e) = group_bucket e"
  "credentials (drop_waiting rid a now e) = credentials e" "queue (drop_waiting rid a now e) = queue e"
  "leases (drop_waiting rid a now e) = leases e"
  "request_leases (drop_waiting rid a now e) = request_leases e"
  "pending_cancels (drop_waiting rid a now e) = pending_cancels e"
  "group_permits (drop_waiting rid a now e) = group_permits e"
  "seen_requests (drop_waiting rid a now e) = seen_requests e"
  "request_portability (drop_waiting rid a now e) = request_portability e"
  "group_rate_admitted (drop_waiting rid a now e) = group_rate_admitted e"
  "affinities (drop_waiting rid a now e) = affinities e"
  "session_claims (drop_waiting rid a now e) = session_claims e"
  "uuid_draws (drop_waiting rid a now e) = uuid_draws e"
  "waiting (drop_waiting rid a now e) = bt_remove rid (waiting e)"
  by (simp_all add: drop_waiting_def split: option.splits)

lemma evaluate_pool_frame [frame_simps]:
  assumes "evaluate_pool entry now e = (ev, e')"
  shows "\<exists>creds. e' = e\<lparr>credentials := creds\<rparr>"
  using assms by (auto simp: evaluate_pool_def split: prod.splits)

text \<open>The fields that neither granting nor releasing a lease touches.\<close>

definition same_frame :: "SchedulerEngine \<Rightarrow> SchedulerEngine \<Rightarrow> bool" where
  "same_frame e e' \<longleftrightarrow>
     identity e' = identity e \<and> lifecycle e' = lifecycle e \<and> config e' = config e \<and>
     group_bucket e' = group_bucket e \<and> queue e' = queue e \<and> waiting e' = waiting e \<and>
     seen_requests e' = seen_requests e \<and> request_portability e' = request_portability e \<and>
     affinities e' = affinities e"

lemma same_frame_refl [simp]: "same_frame e e"
  by (simp add: same_frame_def)

lemma same_frame_trans: "same_frame a b \<Longrightarrow> same_frame b c \<Longrightarrow> same_frame a c"
  by (simp add: same_frame_def)

lemma same_frameD:
  assumes "same_frame e e'"
  shows "identity e' = identity e" "lifecycle e' = lifecycle e" "config e' = config e"
    "group_bucket e' = group_bucket e" "queue e' = queue e" "waiting e' = waiting e"
    "seen_requests e' = seen_requests e" "request_portability e' = request_portability e"
    "affinities e' = affinities e"
  using assms by (simp_all add: same_frame_def)

lemma acquire_session_claim_frame:
  "acquire_session_claim entry cid e = (r, e') \<Longrightarrow> same_frame e e'"
  by (auto simp: acquire_session_claim_def same_frame_def Let_def split: if_splits)

lemma install_lease_frame: "same_frame e (install_lease entry l now acq e)"
proof -
  obtain r e' where "acquire_session_claim entry (cl_credential_id l) e = (r, e')" by fastforce
  from this acquire_session_claim_frame [OF this] show ?thesis
    by (auto simp: install_lease_def same_frame_def Let_def split: prod.splits option.splits)
qed

lemma grant_frame: "grant uuid entry cid now acq e = (r, e') \<Longrightarrow> same_frame e e'"
  using install_lease_frame
  by (auto simp: grant_def same_frame_def Let_def split: option.splits prod.splits sum.splits)

lemma release_lease_frame: "release_lease gen lid now e = (r, e') \<Longrightarrow> same_frame e e'"
  by (auto simp: release_lease_def same_frame_def Let_def split: option.splits if_splits)

lemma release_all_frame: "same_frame e (release_all lids now e)"
proof (induction lids arbitrary: e)
  case (Cons lid lids)
  then show ?case
    using release_lease_frame [of "generation e" lid now e, OF surjective_pairing]
    by (auto intro: same_frame_trans)
qed simp

lemma pump_turn_size:
  "pump_turn uuid now e = (Some rs, e') \<Longrightarrow> queue_size (queue e') < queue_size (queue e)"
proof -
  assume T: "pump_turn uuid now e = (Some rs, e')"
  obtain popped q gb ad cr where P: "FairQueue_pop_runnable (pump_runnable (affinities e) (session_claims e) (config e) now)
             (queue e) (group_bucket e, group_rate_admitted e, credentials e) = (popped, q, gb, ad, cr)"
    by (metis prod_cases5)
  obtain entry where entry: "popped = Some entry"
    using T P by (cases popped) (auto simp: pump_turn_def split: if_splits)
  have "queue e' = q"
    using T P entry
    by (auto simp: pump_turn_def Let_def split: if_splits option.splits prod.splits PoolEvaluation.splits
        dest!: grant_frame evaluate_pool_frame same_frameD(5))
  with pop_runnable_size [OF P [unfolded entry]] show ?thesis by simp
qed

function pump_loop :: "(nat \<Rightarrow> string) \<Rightarrow> duration \<Rightarrow> SchedulerEngine \<Rightarrow> QueueResolution list \<times> SchedulerEngine" where
  "pump_loop uuid now e =
     (case pump_turn uuid now e of
        (None, e1) \<Rightarrow> ([], e1)
      | (Some rs, e1) \<Rightarrow> (case pump_loop uuid now e1 of (rest, e2) \<Rightarrow> (rs @ rest, e2)))"
  by pat_completeness auto
termination
  by (relation "measure (\<lambda>(uuid, now, e). queue_size (queue e))") (auto dest: pump_turn_size [OF sym])

declare pump_loop.simps [simp del]

definition pump ::
  "(nat \<Rightarrow> string) \<Rightarrow> OwnerGeneration \<Rightarrow> duration \<Rightarrow> SchedulerEngine \<Rightarrow> QueueResolution list \<times> SchedulerEngine" where
  "pump uuid gen now e =
     (if gen \<noteq> generation e \<or> lifecycle e \<noteq> Serving then ([], e)
      else (case expire_waiters now (prune now (expire_cancel_grace now e)) of (expired, e1) \<Rightarrow>
        case pump_loop uuid now e1 of (resolved, e2) \<Rightarrow> (expired @ resolved, e2)))"

definition complete_request ::
  "(nat \<Rightarrow> string) \<Rightarrow> OwnerGeneration \<Rightarrow> RequestId \<Rightarrow> duration \<Rightarrow> SchedulerEngine \<Rightarrow> QueueResolution list outcome" where
  "complete_request uuid gen rid now e =
     (if gen \<noteq> generation e then (Inr [], e)
      else if bt_contains (request_leases e) rid then (Inl InvalidConfiguration, e)
      else (case release_group_permit rid Release now e of
          (Inl err, e1) \<Rightarrow> (Inl err, e1)
        | (Inr _, e1) \<Rightarrow> (case pump uuid gen now e1 of (rs, e2) \<Rightarrow> (Inr rs, e2))))"

subsection \<open>Draining and reconfiguration\<close>

text \<open>The loop over drained queue entries that \<^verbatim>\<open>disable\<close> and \<^verbatim>\<open>reconfigure\<close> share: an entry that
  is not kept gives its ticket up and is answered.\<close>

fun reject_drained ::
  "(ScheduleEntry \<Rightarrow> bool) \<Rightarrow> duration option \<Rightarrow> duration \<Rightarrow> ScheduleEntry list \<Rightarrow> SchedulerEngine \<Rightarrow>
   QueueResolution list \<times> SchedulerEngine" where
  "reject_drained keep retry now [] e = ([], e)"
| "reject_drained keep retry now (entry # es) e =
     (if keep entry then reject_drained keep retry now es (e\<lparr>queue := FairQueue_push entry (queue e)\<rparr>)
      else let rid = se_request_id entry;
               e1 = forget_rate rid (drop_waiting rid ForcedRelease now e) in
        (case reject_drained keep retry now es e1 of (rs, e2) \<Rightarrow>
           (\<lparr>qr_request_id = rid, decision = rejected GroupUnavailable retry\<rparr> # rs, e2)))"

definition disable :: "OwnerGeneration \<Rightarrow> duration \<Rightarrow> SchedulerEngine \<Rightarrow> QueueResolution list \<times> SchedulerEngine" where
  "disable gen now e =
     (if gen \<noteq> generation e then ([], e)
      else (case FairQueue_drain (queue e) of (es, q) \<Rightarrow>
        reject_drained (\<lambda>_. False) None now es (e\<lparr>lifecycle := Draining, queue := q\<rparr>)))"

definition reconfigure ::
  "OwnerGeneration \<Rightarrow> GroupConfig \<Rightarrow> duration \<Rightarrow> SchedulerEngine \<Rightarrow> QueueResolution list outcome" where
  "reconfigure gen cfg now e =
     (if gen \<noteq> generation e then (Inr [], e)
      else if group_invalid cfg then (Inl InvalidConfiguration, e)
      else if queue_bound_exceeded cfg (capacity_sum (credentials e)) then (Inl InvalidConfiguration, e)
      else (case FairQueue_drain (queue e) of (es, q) \<Rightarrow>
        case reject_drained (\<lambda>entry. group_config (snapshot_set (generic entry)) = snapshot_version cfg)
               (Some (from_secs 1)) now es (e\<lparr>queue := q\<rparr>) of (rs, e1) \<Rightarrow>
          (Inr rs, prune now (e1\<lparr>group_bucket := map_option (\<lambda>r. bucket_full r now) (gc_rate_limit cfg),
                                 config := cfg\<rparr>))))"

definition device_changed :: "CredentialConfig \<Rightarrow> CredentialConfig \<Rightarrow> bool" where
  "device_changed new old \<longleftrightarrow>
     openai_transport new \<noteq> openai_transport old \<or>
     list_ex (\<lambda>(os, profile). is_none_or (bt_get (profiles old) os)
        (\<lambda>current. device_epoch current \<noteq> device_epoch profile)) (profiles new)"

text \<open>The two ways an accepted update rewrites the stored configuration.\<close>

definition update_scheduling :: "CredentialConfig \<Rightarrow> CredentialConfig \<Rightarrow> CredentialConfig" where
  "update_scheduling c old =
     old\<lparr>scheduling_projection_revision := scheduling_projection_revision c,
         cc_concurrency_limit := cc_concurrency_limit c, cc_rate_limit := cc_rate_limit c,
         priority := priority c, weight := weight c, model_scope := model_scope c,
         attribution_optional := attribution_optional c, session_capacity := session_capacity c,
         min_request_interval := min_request_interval c\<rparr>"

definition drop_idle_of :: "CredentialId \<Rightarrow> SchedulerEngine \<Rightarrow> SchedulerEngine" where
  "drop_idle_of cid e =
     e\<lparr>affinities := bt_retain (\<lambda>_ a. af_credential_id a \<noteq> cid) (affinities e),
       session_claims := bt_retain (\<lambda>key claim. fst key \<noteq> cid \<or> active_requests claim \<noteq> 0) (session_claims e)\<rparr>"

definition reconfigure_credential ::
  "OwnerGeneration \<Rightarrow> CredentialConfig \<Rightarrow> duration \<Rightarrow> SchedulerEngine \<Rightarrow> bool outcome" where
  "reconfigure_credential gen c now e =
     (if gen \<noteq> generation e then (Inr False, e)
      else if credential_invalid c \<or> scheduling_projection_revision c = 0 then (Inl InvalidConfiguration, e)
      else (case bt_get (credentials e) (cc_id c) of
        None \<Rightarrow> (Inr True, e\<lparr>credentials := bt_insert (cc_id c) (fresh_runtime c now) (credentials e)\<rparr>)
      | Some rt \<Rightarrow>
          let old = rt_config rt in
          if credential_projection_revision c < credential_projection_revision old
           \<or> (credential_projection_revision c = credential_projection_revision old
              \<and> scheduling_projection_revision c \<le> scheduling_projection_revision old)
          then (Inr False, e)
          else
            let rt1 = rt\<lparr>bucket := bucket_reconfigure (cc_rate_limit c) now (bucket rt)\<rparr> in
            if credential_projection_revision old < credential_projection_revision c
            then let rt2 = rt1\<lparr>quota_observation_version := cc_quota_observation_version c, rt_config := c\<rparr>;
                     e1 = e\<lparr>credentials := bt_modify (cc_id c) (\<lambda>_. rt2) (credentials e)\<rparr>
                 in (Inr True, if device_changed c old then drop_idle_of (cc_id c) e1 else e1)
            else (Inr True, e\<lparr>credentials := bt_modify (cc_id c)
                   (\<lambda>_. rt1\<lparr>rt_config := update_scheduling c old\<rparr>) (credentials e)\<rparr>)))"

subsection \<open>Observations\<close>

definition record_success :: "AffinityKey \<Rightarrow> CredentialId \<Rightarrow> duration \<Rightarrow> SchedulerEngine \<Rightarrow> SchedulerEngine" where
  "record_success key cid now e =
     (let fresh_expiry = dur_saturating_add now (affinity_ttl (config e)) in
      (case bt_get (affinities e) key of
         None \<Rightarrow> e\<lparr>affinities := bt_insert key \<lparr>af_credential_id = cid, expires_at = fresh_expiry,
                    migration_candidate = None, migration_successes = 0\<rparr> (affinities e)\<rparr>
       | Some a \<Rightarrow>
           let a' = (if af_credential_id a = cid
                then a\<lparr>migration_candidate := None, migration_successes := 0, expires_at := fresh_expiry\<rparr>
                else let n = (if migration_candidate a = Some cid
                              then saturating_add (migration_successes a) 1 else 1);
                         a1 = a\<lparr>migration_candidate := Some cid, migration_successes := n\<rparr>
                     in if affinity_migration_successes (config e) \<le> n
                        then a1\<lparr>af_credential_id := cid, migration_candidate := None,
                                migration_successes := 0, expires_at := fresh_expiry\<rparr>
                        else a1)
           in e\<lparr>affinities := bt_modify key (\<lambda>_. a') (affinities e)\<rparr>))"

text \<open>\<^verbatim>\<open>if let Some(runtime) = self.credentials.get_mut(..)\<close> with an update of the stored state.\<close>

definition map_state :: "(CredentialState \<Rightarrow> CredentialState) \<Rightarrow> CredentialRuntime \<Rightarrow> CredentialRuntime" where
  "map_state f rt = rt\<lparr>rt_config := (rt_config rt)\<lparr>cc_state := f (cc_state (rt_config rt))\<rparr>\<rparr>"

definition half_open_result :: "bool \<Rightarrow> duration \<Rightarrow> CredentialRuntime \<Rightarrow> CredentialRuntime" where
  "half_open_result succeeded now rt =
     (let retry = dur_saturating_add now (from_mins 1) in
      (map_state (\<lambda>st. if succeeded
          then st\<lparr>half_open_inflight := False, quota_used_basis_points := None, quota_reset_at := None\<rparr>
          else st\<lparr>half_open_inflight := False, cooldown_until := Some retry, quota_reset_at := Some retry\<rparr>) rt)
        \<lparr>half_open_consumed := False\<rparr>)"

definition record_half_open_result ::
  "OwnerGeneration \<Rightarrow> CredentialId \<Rightarrow> bool \<Rightarrow> duration \<Rightarrow> SchedulerEngine \<Rightarrow> SchedulerEngine" where
  "record_half_open_result gen cid succeeded now e =
     (if gen \<noteq> generation e then e
      else e\<lparr>credentials := bt_modify cid (half_open_result succeeded now) (credentials e)\<rparr>)"

definition observe_credential_cooldown ::
  "OwnerGeneration \<Rightarrow> CredentialCooldownUpdate \<Rightarrow> SchedulerEngine \<Rightarrow> bool \<times> SchedulerEngine" where
  "observe_credential_cooldown gen u e =
     (if gen \<noteq> generation e then (False, e)
      else (case bt_get (credentials e) (cu_credential_id u) of
        None \<Rightarrow> (False, e)
      | Some rt \<Rightarrow> (True, e\<lparr>credentials := bt_modify (cu_credential_id u)
          (map_state (\<lambda>st. st\<lparr>cooldown_until := cu_cooldown_until u\<rparr>)) (credentials e)\<rparr>)))"

definition observe_credential_auth ::
  "OwnerGeneration \<Rightarrow> CredentialAuthUpdate \<Rightarrow> SchedulerEngine \<Rightarrow> bool \<times> SchedulerEngine" where
  "observe_credential_auth gen u e =
     (if gen \<noteq> generation e \<or> au_token_version u = 0 then (False, e)
      else (case bt_get (credentials e) (au_credential_id u) of
        None \<Rightarrow> (False, e)
      | Some rt \<Rightarrow>
          if au_token_version u < token_version (rt_config rt) then (False, e)
          else (True, e\<lparr>credentials := bt_modify (au_credential_id u)
            (\<lambda>rt. map_state (\<lambda>st. st\<lparr>auth_healthy := au_auth_healthy u\<rparr>)
               (rt\<lparr>rt_config := (rt_config rt)\<lparr>token_version := au_token_version u\<rparr>\<rparr>)) (credentials e)\<rparr>)))"

definition quota_observed :: "CredentialQuotaUpdate \<Rightarrow> CredentialRuntime \<Rightarrow> CredentialRuntime" where
  "quota_observed u rt =
     (map_state (\<lambda>st. st\<lparr>quota_used_basis_points := Some (qu_used_basis_points u),
          quota_reset_at := Some (qu_reset_at u), half_open_inflight := False\<rparr>)
        (rt\<lparr>rt_config := (rt_config rt)\<lparr>cc_quota_observation_version := Some (qu_observation_version u)\<rparr>\<rparr>))
      \<lparr>quota_observation_version := Some (qu_observation_version u), half_open_consumed := False\<rparr>"

definition observe_credential_quota ::
  "OwnerGeneration \<Rightarrow> CredentialQuotaUpdate \<Rightarrow> SchedulerEngine \<Rightarrow> bool \<times> SchedulerEngine" where
  "observe_credential_quota gen u e =
     (if gen \<noteq> generation e \<or> 10000 < qu_used_basis_points u then (False, e)
      else (case bt_get (credentials e) (qu_credential_id u) of
        None \<Rightarrow> (False, e)
      | Some rt \<Rightarrow>
          if is_some_and (quota_observation_version rt) (\<lambda>current. qu_observation_version u \<le> current)
          then (False, e)
          else (True, e\<lparr>credentials := bt_modify (qu_credential_id u) (quota_observed u) (credentials e)\<rparr>)))"

subsection \<open>Snapshot, fencing, removal and the ledger\<close>

definition snapshot :: "SchedulerEngine \<Rightarrow> SchedulerSnapshot" where
  "snapshot e =
     \<lparr>ss_generation = generation e, ss_lifecycle = lifecycle e,
      group_config_version = snapshot_version (config e),
      configured_concurrency = gc_concurrency_limit (config e),
      ss_effective_concurrency = effective_concurrency e,
      total_credential_capacity = capacity_sum (credentials e),
      ss_queue_capacity = queue_capacity e, active_leases = length (leases e),
      active_group_permits = card (group_permits e), queued_tickets = fq_len (queue e),
      credential_inflight = map (\<lambda>(i, rt). (i, inflight rt)) (credentials e),
      fenced_credentials = map fst (filter (\<lambda>(i, rt). admin_fenced rt) (credentials e)),
      ss_session_claims = length (session_claims e), ss_resource_balance = resource_balance e\<rparr>"

definition set_credential_fence ::
  "OwnerGeneration \<Rightarrow> CredentialId \<Rightarrow> bool \<Rightarrow> SchedulerEngine \<Rightarrow> CredentialFenceResult \<times> SchedulerEngine" where
  "set_credential_fence gen cid fenced e =
     (if gen \<noteq> generation e then (FenceStaleIgnored, e)
      else (case bt_get (credentials e) cid of
        None \<Rightarrow> (FenceMissing, e)
      | Some rt \<Rightarrow> (FenceApplied (inflight rt),
          e\<lparr>credentials := bt_modify cid (\<lambda>rt. rt\<lparr>admin_fenced := fenced\<rparr>) (credentials e)\<rparr>)))"

definition remove_fenced_credential ::
  "OwnerGeneration \<Rightarrow> CredentialId \<Rightarrow> SchedulerEngine \<Rightarrow> CredentialRemoveResult \<times> SchedulerEngine" where
  "remove_fenced_credential gen cid e =
     (if gen \<noteq> generation e then (RemoveStaleIgnored, e)
      else (case bt_get (credentials e) cid of
        None \<Rightarrow> (RemoveMissing, e)
      | Some rt \<Rightarrow>
          if \<not> admin_fenced rt then (NotFenced, e)
          else if inflight rt \<noteq> 0 then (Busy (inflight rt), e)
          else (Removed, drop_idle_of cid (e\<lparr>credentials := bt_remove cid (credentials e)\<rparr>))))"

definition take_resource_events :: "SchedulerEngine \<Rightarrow> ResourceEvent list \<times> SchedulerEngine" where
  "take_resource_events e = (events e, e\<lparr>events := []\<rparr>)"

definition acknowledge_resource_events :: "u64 \<Rightarrow> SchedulerEngine \<Rightarrow> SchedulerEngine" where
  "acknowledge_resource_events through e =
     e\<lparr>events := filter (\<lambda>ev. through < sequence_number ev) (events e)\<rparr>"

definition abandon_admission :: "AdmissionDecision \<Rightarrow> duration \<Rightarrow> SchedulerEngine \<Rightarrow> SchedulerEngine" where
  "abandon_admission d now e =
     (case d of
        Granted l \<Rightarrow>
          let e1 = snd (release_lease (generation e) (cl_id l) now e)
          in snd (release_group_permit (cl_request_id l) ForcedRelease now e1)
      | Queued t \<Rightarrow> snd (cancel (generation e) (qt_request_id t) now e)
      | _ \<Rightarrow> e)"

end
