(* ===== verification/Load_Order.thy ===== *)
theory Load_Order
  imports Ordered_Map Complex_Main "HOL-Library.Product_Lexorder"
begin

text \<open>Comparators that the scheduler and the egress selection both build: \<open>cmp\<close> chained with
  \<open>then_with\<close> is the lexicographic order, and comparing cross products compares load
  ratios.
\<close>

lemma cmp_Greater [simp]: "cmp a b = Greater \<longleftrightarrow> b < a"
  by (auto simp: cmp_def)

lemma then_with_cmp: "then_with (cmp a a') (cmp b b') = cmp (a, b) (a', b')"
  by (auto simp: then_with_def cmp_def)

lemma cmp_fraction:
  assumes "0 < b" and "0 < d"
  shows "cmp (a * d) (c * b :: nat) = cmp (of_nat a / of_nat b) (of_nat c / of_nat d :: rat)"
proof -
  have "a * d < c * b \<longleftrightarrow> (of_nat a / of_nat b :: rat) < of_nat c / of_nat d"
    using assms by (simp add: field_simps flip: of_nat_mult)
  moreover have "a * d = c * b \<longleftrightarrow> (of_nat a / of_nat b :: rat) = of_nat c / of_nat d"
    using assms by (simp add: field_simps flip: of_nat_mult)
  ultimately show ?thesis by (simp add: cmp_def)
qed

lemma cmp_descending: "cmp (b :: 'a::len word) a = cmp (- int (unat a)) (- int (unat b))"
  by (simp add: cmp_def word_less_def word_uint_eq_iff eq_commute)

end
