(* ===== verification/Engine_Eval.thy ===== *)
theory Engine_Eval
  imports Engine_Ops Load_Order
begin

text \<open>
  Correctness of the credential evaluation of \<^verbatim>\<open>engine.rs\<close>: which credentials pass the
  eligibility gates, that evaluating twice within one instant changes nothing, which
  candidate is chosen, and that a chosen candidate can be granted.
\<close>

subsection \<open>The candidate order is total\<close>

text \<open>The sort key of a credential: less quota used, then less relative load, then more weight,
  then the smaller identifier.\<close>

definition candidate_key :: "(CredentialId, CredentialRuntime) btree \<Rightarrow> CredentialId \<Rightarrow> u16 \<times> rat \<times> int \<times> CredentialId" where
  "candidate_key creds i =
     (case bt_get creds i of
        None \<Rightarrow> (0, 0, 0, i)
      | Some rt \<Rightarrow>
          (unwrap_or (quota_used_basis_points (cc_state (rt_config rt))) 10000,
           of_nat (unat (inflight rt)) / of_nat (unat (cc_concurrency_limit (rt_config rt))),
           - int (unat (weight (rt_config rt))), i))"

definition comparable :: "(CredentialId, CredentialRuntime) btree \<Rightarrow> CredentialId set" where
  "comparable creds = {i. \<exists>rt. bt_get creds i = Some rt \<and> cc_concurrency_limit (rt_config rt) \<noteq> 0}"

lemma compare_candidates_key:
  assumes "i \<in> comparable creds" and "j \<in> comparable creds"
  shows "compare_candidates creds i j = cmp (candidate_key creds i) (candidate_key creds j)"
proof -
  obtain l r where l: "bt_get creds i = Some l" "0 < unat (cc_concurrency_limit (rt_config l))"
    and r: "bt_get creds j = Some r" "0 < unat (cc_concurrency_limit (rt_config r))"
    using assms by (auto simp: comparable_def unat_gt_0)
  show ?thesis
    unfolding compare_candidates_def candidate_key_def l(1) r(1) Let_def option.case
    unfolding cmp_fraction [OF l(2) r(2)] cmp_descending [of "weight (rt_config r)"]
    unfolding then_with_cmp ..
qed

interpretation candidate_order: comparator "compare_candidates creds" "comparable creds" for creds
proof unfold_locales
  fix x y z assume S: "x \<in> comparable creds" "y \<in> comparable creds"
  then show "compare_candidates creds x y = Greater \<Longrightarrow> compare_candidates creds y x \<noteq> Greater"
    by (auto simp: compare_candidates_key)
  assume "z \<in> comparable creds"
  with S show "compare_candidates creds x y \<noteq> Greater \<Longrightarrow> compare_candidates creds y z \<noteq> Greater \<Longrightarrow>
      compare_candidates creds x z \<noteq> Greater"
    by (simp add: compare_candidates_key)
qed

subsection \<open>The eligibility gates\<close>

text \<open>What one credential must satisfy to serve a request now.\<close>

definition credential_ready :: "CredentialRuntime \<Rightarrow> GroupConfig \<Rightarrow> ScheduleEntry \<Rightarrow> duration \<Rightarrow> bool" where
  "credential_ready rt cfg entry now \<longleftrightarrow>
     (let c = rt_config rt; st = cc_state c; guard = quota_guard_basis_points cfg in
        \<not> ineligible rt entry \<and> auth_healthy st \<and> inflight rt < cc_concurrency_limit c \<and>
        is_none_or (cooldown_until st) (\<lambda>until. until \<le> now) \<and>
        (is_none_or (quota_used_basis_points st) (\<lambda>used. used < guard) \<or>
         quota_requires_half_open rt guard now \<and> \<not> half_open_inflight st \<and>
         \<not> half_open_consumed rt \<and> portability (generic entry) = Portable) \<and>
        SCALE \<le> available (refill now (bucket rt)) \<and>
        is_none_or (next_allowed_at rt) (\<lambda>t. t \<le> now))"

text \<open>The same gates with the rate limiter's preview unfolded.\<close>

lemma eligibility_alt:
  "eligibility rt cfg entry now =
     (let half = quota_requires_half_open rt (quota_guard_basis_points cfg) now;
          st = cc_state (rt_config rt); b = refill now (bucket rt) in
      if ineligible rt entry then ((DeterministicallyIneligible, None), rt)
      else if \<not> auth_healthy st \<or> cc_concurrency_limit (rt_config rt) \<le> inflight rt
      then ((TemporarilyBlocked, None), rt)
      else if is_some_and (cooldown_until st) (\<lambda>until. now < until)
      then ((TemporarilyBlocked, cooldown_until st), rt)
      else if half \<and> (half_open_inflight st \<or> half_open_consumed rt \<or> portability (generic entry) \<noteq> Portable) \<or>
              \<not> half \<and> is_some_and (quota_used_basis_points st) (\<lambda>used. quota_guard_basis_points cfg \<le> used)
      then ((TemporarilyBlocked, quota_reset_at st), rt)
      else if available b < SCALE
      then ((TemporarilyBlocked, Some (dur_saturating_add now (fst (retry_after b now)))), rt\<lparr>bucket := b\<rparr>)
      else if is_some_and (next_allowed_at rt) (\<lambda>t. now < t)
      then ((TemporarilyBlocked, next_allowed_at rt), rt\<lparr>bucket := b\<rparr>)
      else ((Eligible, None), rt\<lparr>bucket := b\<rparr>))"
proof -
  have R: "b' = refill now b" if "retry_after (refill now b) now = (w, b')" for b b' w
    using tb.retry_after_preview [of b now w b'] that by (simp add: try_consume_preview_def Let_def)
  show ?thesis
    by (auto simp: eligibility_def Let_def try_consume_preview_def not_less not_le
        split: prod.splits bool.splits dest!: R)
qed

lemma eligibility_Eligible_iff:
  "fst (fst (eligibility rt cfg entry now)) = Eligible \<longleftrightarrow> credential_ready rt cfg entry now"
  by (auto simp: eligibility_alt credential_ready_def Let_def quota_requires_half_open_def not_le not_less
      split: if_splits option.splits)

lemma eligibility_ineligible_iff:
  "fst (fst (eligibility rt cfg entry now)) = DeterministicallyIneligible \<longleftrightarrow> ineligible rt entry"
  by (simp add: eligibility_alt Let_def)

lemma eligibility_bucket:
  "snd (eligibility rt cfg entry now) = rt \<or>
   snd (eligibility rt cfg entry now) = rt\<lparr>bucket := refill now (bucket rt)\<rparr>"
  by (simp add: eligibility_alt Let_def)

lemma ineligible_bucket [simp]: "ineligible (rt\<lparr>bucket := b\<rparr>) entry = ineligible rt entry"
  by (simp add: ineligible_def)

lemma half_open_bucket [simp]: "quota_requires_half_open (rt\<lparr>bucket := b\<rparr>) g now = quota_requires_half_open rt g now"
  by (simp add: quota_requires_half_open_def)

lemma eligibility_refill:
  "eligibility (rt\<lparr>bucket := refill now (bucket rt)\<rparr>) cfg entry now =
   (fst (eligibility rt cfg entry now), rt\<lparr>bucket := refill now (bucket rt)\<rparr>)"
  by (auto simp: eligibility_alt Let_def)

lemma eligibility_idem: "eligibility (snd (eligibility rt cfg entry now)) cfg entry now = eligibility rt cfg entry now"
  using eligibility_bucket [of rt cfg entry now] eligibility_refill [where rt = rt and now = now and cfg = cfg and entry = entry]
  by (metis prod.collapse)

subsection \<open>Scanning the pool\<close>

text \<open>A credential the scan considers: the request is not pinned elsewhere and a session slot is free.\<close>

definition considered ::
  "(SessionClaimKey, SessionClaim) btree \<Rightarrow> ScheduleEntry \<Rightarrow> CredentialId \<Rightarrow> CredentialRuntime \<Rightarrow> bool" where
  "considered claims entry i rt \<longleftrightarrow>
     is_none_or (pinned_target (portability (generic entry))) (\<lambda>t. t = i) \<and>
     \<not> session_capacity_blocked (rt_config rt) claims entry"

text \<open>The credential as the scan leaves it: at most its token bucket has been refilled.\<close>

definition settled ::
  "(SessionClaimKey, SessionClaim) btree \<Rightarrow> GroupConfig \<Rightarrow> ScheduleEntry \<Rightarrow> duration \<Rightarrow> CredentialId \<Rightarrow>
   CredentialRuntime \<Rightarrow> CredentialRuntime" where
  "settled claims cfg entry now i rt =
     (if considered claims entry i rt then snd (eligibility rt cfg entry now) else rt)"

lemma settled_cases:
  "settled claims cfg entry now i rt = rt \<or>
   settled claims cfg entry now i rt = rt\<lparr>bucket := refill now (bucket rt)\<rparr>"
  using eligibility_bucket by (simp add: settled_def)

lemma settled_fields [simp]:
  "rt_config (settled claims cfg entry now i rt) = rt_config rt"
  "inflight (settled claims cfg entry now i rt) = inflight rt"
  "half_open_consumed (settled claims cfg entry now i rt) = half_open_consumed rt"
  "quota_observation_version (settled claims cfg entry now i rt) = quota_observation_version rt"
  "admin_fenced (settled claims cfg entry now i rt) = admin_fenced rt"
  "next_allowed_at (settled claims cfg entry now i rt) = next_allowed_at rt"
  using settled_cases [of claims cfg entry now i rt] by auto

lemma considered_settled [simp]:
  "considered claims entry i (settled claims cfg entry now i rt) = considered claims entry i rt"
  by (simp add: considered_def)

lemma settled_settled [simp]:
  "settled claims cfg entry now i (settled claims cfg entry now i rt) = settled claims cfg entry now i rt"
proof -
  have "settled claims cfg entry now i (snd (eligibility rt cfg entry now)) = snd (eligibility rt cfg entry now)"
    if "considered claims entry i rt"
    using that considered_settled [of claims entry i cfg now rt] eligibility_idem [of rt cfg entry now]
    by (simp add: settled_def)
  then show ?thesis by (simp add: settled_def)
qed

lemma scan_credential_snd: "snd (scan_credential claims cfg entry now pref i rt scan) = settled claims cfg entry now i rt"
  by (auto simp: scan_credential_def settled_def considered_def
      split: option.splits prod.splits EligibilityClass.splits)

lemma scan_credential_idem:
  "scan_credential claims cfg entry now pref i (settled claims cfg entry now i rt) scan =
   scan_credential claims cfg entry now pref i rt scan"
proof (cases "considered claims entry i rt")
  case True
  then have "eligibility (settled claims cfg entry now i rt) cfg entry now = eligibility rt cfg entry now"
    by (simp add: settled_def eligibility_idem)
  then show ?thesis
    using True considered_settled [of claims entry i cfg now rt]
    unfolding scan_credential_def considered_def by (simp split: option.splits)
next
  case False
  then show ?thesis by (simp add: settled_def)
qed

lemma scan_pool_snd:
  "snd (scan_pool claims cfg entry now pref creds scan) = bt_map (settled claims cfg entry now) creds"
  by (induction creds arbitrary: scan)
    (auto simp: bt_map_def split: prod.splits, metis scan_credential_snd snd_conv, metis snd_conv)

lemma scan_pool_idem:
  "scan_pool claims cfg entry now pref (bt_map (settled claims cfg entry now) creds) scan =
   scan_pool claims cfg entry now pref creds scan"
  by (induction creds arbitrary: scan)
    (auto simp: bt_map_def scan_credential_idem split: prod.splits)

text \<open>Evaluating the pool a second time at the same instant gives the same answer and changes nothing.\<close>

lemma evaluate_pool_fields_snd:
  "snd (evaluate_pool_fields creds affs claims cfg entry now) = bt_map (settled claims cfg entry now) creds"
  by (simp add: evaluate_pool_fields_def Let_def split: prod.splits) (metis scan_pool_snd snd_conv)

lemma evaluate_pool_fields_idem:
  "evaluate_pool_fields (snd (evaluate_pool_fields creds affs claims cfg entry now)) affs claims cfg entry now =
   evaluate_pool_fields creds affs claims cfg entry now"
  unfolding evaluate_pool_fields_snd
  by (simp add: evaluate_pool_fields_def Let_def scan_pool_idem)

subsection \<open>The chosen candidate\<close>

text \<open>The credentials of a pool that can serve the request now.\<close>

definition ready_credentials ::
  "(CredentialId, CredentialRuntime) btree \<Rightarrow> (SessionClaimKey, SessionClaim) btree \<Rightarrow> GroupConfig \<Rightarrow>
   ScheduleEntry \<Rightarrow> duration \<Rightarrow> CredentialId list" where
  "ready_credentials creds claims cfg entry now =
     map fst (filter (\<lambda>(i, rt). considered claims entry i rt \<and> credential_ready rt cfg entry now) creds)"

lemma scan_credential_candidates:
  "candidates (fst (scan_credential claims cfg entry now pref i rt scan)) =
     candidates scan @ (if considered claims entry i rt \<and> credential_ready rt cfg entry now then [i] else [])"
  unfolding eligibility_Eligible_iff [symmetric]
  by (auto simp: scan_credential_def considered_def split: option.splits prod.splits EligibilityClass.splits)

lemma scan_pool_candidates:
  "candidates (fst (scan_pool claims cfg entry now pref creds scan)) =
     candidates scan @ ready_credentials creds claims cfg entry now"
proof (induction creds arbitrary: scan)
  case Nil
  then show ?case by (simp add: ready_credentials_def)
next
  case (Cons p creds)
  obtain i rt where p: "p = (i, rt)" by (cases p)
  obtain scan' rt' where S: "scan_credential claims cfg entry now pref i rt scan = (scan', rt')" by fastforce
  obtain scan'' creds' where T: "scan_pool claims cfg entry now pref creds scan' = (scan'', creds')" by fastforce
  show ?case
    using Cons.IH [of scan'] scan_credential_candidates [of claims cfg entry now pref i rt scan]
    by (simp add: p S T ready_credentials_def)
qed

lemma bt_get_settled:
  "bt_get (bt_map (settled claims cfg entry now) creds) i = map_option (settled claims cfg entry now i) (bt_get creds i)"
  by simp

lemma priority_of_settled [simp]:
  "priority_of (bt_map (settled claims cfg entry now) creds) = priority_of creds"
  by (auto simp: priority_of_def fun_eq_iff option.map_comp comp_def)

lemma compare_settled [simp]:
  "compare_candidates (bt_map (settled claims cfg entry now) creds) = compare_candidates creds"
  by (auto simp: compare_candidates_def fun_eq_iff split: option.splits)

lemma best_priority_cong: "priority_of creds = priority_of creds' \<Longrightarrow> best_priority creds is = best_priority creds' is"
  by (induction "is") (auto split: option.splits)

lemma best_priority_None: "best_priority creds is = None \<longleftrightarrow> (\<forall>i \<in> set is. priority_of creds i = None)"
  by (induction "is") (auto split: option.splits)

lemma best_priority_least:
  "best_priority creds is = Some p \<Longrightarrow>
   (\<exists>i \<in> set is. priority_of creds i = Some p) \<and> (\<forall>i \<in> set is. \<forall>q. priority_of creds i = Some q \<longrightarrow> p \<le> q)"
proof (induction "is" arbitrary: p)
  case Nil
  then show ?case by simp
next
  case (Cons i "is")
  then show ?case
    by (cases "priority_of creds i"; cases "best_priority creds is") (fastforce simp: min_def best_priority_None split: if_splits)+
qed

lemma retain_best_set:
  "i \<in> set (retain_best creds is) \<Longrightarrow>
   i \<in> set is \<and> (\<forall>j \<in> set is. \<forall>p q. priority_of creds i = Some p \<longrightarrow> priority_of creds j = Some q \<longrightarrow> p \<le> q)"
  using best_priority_least [of creds "is"] best_priority_None [of creds "is"]
  by (auto simp: retain_best_def split: option.splits)

lemma retain_best_nonempty: "is \<noteq> [] \<Longrightarrow> retain_best creds is \<noteq> []"
  using best_priority_least [of creds "is"]
  by (auto simp: retain_best_def filter_empty_conv split: option.splits)

lemma retain_best_settled [simp]:
  "retain_best (bt_map (settled claims cfg entry now) creds) is = retain_best creds is"
  using best_priority_cong [of "bt_map (settled claims cfg entry now) creds" creds "is"]
  by (simp add: retain_best_def split: option.splits)

text \<open>The credential the affinity table prefers for a request.\<close>

definition preferred_credential :: "(AffinityKey, AffinityEntry) btree \<Rightarrow> ScheduleEntry \<Rightarrow> CredentialId option" where
  "preferred_credential affs entry = map_option af_credential_id (bt_get affs (AffinityKey_from entry))"

lemma evaluate_candidate_cases:
  assumes "fst (evaluate_pool_fields creds affs claims cfg entry now) = Candidate i"
  shows "i \<in> set (retain_best creds (ready_credentials creds claims cfg entry now)) \<and>
    (preferred_credential affs entry = Some i \<or>
     i = hd (sort_by (compare_candidates creds) (retain_best creds (ready_credentials creds claims cfg entry now))))"
proof -
  let ?ready = "ready_credentials creds claims cfg entry now"
  let ?pref = "preferred_credential affs entry"
  obtain scan creds' where S: "scan_pool claims cfg entry now ?pref creds PoolScan_init = (scan, creds')"
    by fastforce
  have c: "candidates scan = ?ready" and creds': "creds' = bt_map (settled claims cfg entry now) creds"
    using scan_pool_candidates [of claims cfg entry now ?pref creds PoolScan_init]
      scan_pool_snd [of claims cfg entry now ?pref creds PoolScan_init]
    unfolding S by (simp_all add: PoolScan_init_def)
  let ?best = "retain_best creds ?ready" and ?sorted = "sort_by (compare_candidates creds) (retain_best creds ?ready)"
  have "pool_decision creds' cfg entry now ?pref scan = Candidate i"
    using assms S by (simp add: evaluate_pool_fields_def preferred_credential_def Let_def)
  then have ne: "?ready \<noteq> []" and d: "?pref = Some i \<and> i \<in> set ?best \<or> (\<exists>is. ?sorted = i # is)"
    unfolding pool_decision_def creds'
    by (auto simp: c Let_def split: if_splits option.splits list.splits)
  show ?thesis
  proof (cases "\<exists>is. ?sorted = i # is")
    case True
    then have "i \<in> set ?best" by (metis list.set_intros(1) set_sort_by)
    with True show ?thesis by auto
  next
    case False
    with d show ?thesis by auto
  qed
qed

lemma in_ready_credentials:
  "bt_wf creds \<Longrightarrow> i \<in> set (ready_credentials creds claims cfg entry now) \<longleftrightarrow>
     (\<exists>rt. bt_get creds i = Some rt \<and> considered claims entry i rt \<and> credential_ready rt cfg entry now)"
  by (force simp: ready_credentials_def bt_get_eq_Some)

text \<open>Every stored credential has a non-zero concurrency limit, as the constructor and every
  reconfiguration check.\<close>

definition limits_positive :: "(CredentialId, CredentialRuntime) btree \<Rightarrow> bool" where
  "limits_positive creds \<longleftrightarrow> list_all (\<lambda>(i, rt). cc_concurrency_limit (rt_config rt) \<noteq> 0) creds"

lemma limits_positive_comparable:
  "bt_wf creds \<Longrightarrow> limits_positive creds \<Longrightarrow> bt_get creds i = Some rt \<Longrightarrow> i \<in> comparable creds"
  by (auto simp: limits_positive_def comparable_def bt_get_eq_Some list_all_iff)

text \<open>C10. The chosen credential passes every eligibility gate for the request, no credential that
  also passes them has a better priority, and unless it is the one the affinity table
  prefers, no other of its priority comes before it in the order of quota use, relative
  load, weight and identifier.\<close>

theorem evaluate_pool_chooses_best:
  assumes "bt_wf creds" and "limits_positive creds"
    and "fst (evaluate_pool_fields creds affs claims cfg entry now) = Candidate i"
  shows "\<exists>rt. bt_get creds i = Some rt \<and> considered claims entry i rt \<and> credential_ready rt cfg entry now \<and>
    (\<forall>j rt'. bt_get creds j = Some rt' \<and> considered claims entry j rt' \<and> credential_ready rt' cfg entry now \<longrightarrow>
       priority (rt_config rt) \<le> priority (rt_config rt') \<and>
       (preferred_credential affs entry = Some i \<or>
        (priority (rt_config rt') = priority (rt_config rt) \<longrightarrow> compare_candidates creds i j \<noteq> Greater)))"
proof -
  let ?ready = "ready_credentials creds claims cfg entry now" and ?ord = "compare_candidates creds"
  note C = evaluate_candidate_cases [OF assms(3)]
  note B = retain_best_set [OF conjunct1 [OF C]]
  obtain rt where rt: "bt_get creds i = Some rt" "considered claims entry i rt" "credential_ready rt cfg entry now"
    using B in_ready_credentials [OF assms(1)] by blast
  have P: "priority_of creds i = Some (priority (rt_config rt))" using rt by (simp add: priority_of_def)
  have S: "set (retain_best creds ?ready) \<subseteq> comparable creds"
    using retain_best_set [of _ creds ?ready] in_ready_credentials [OF assms(1)]
      limits_positive_comparable [OF assms(1,2)] by blast
  have "priority (rt_config rt) \<le> priority (rt_config rt') \<and>
       (preferred_credential affs entry = Some i \<or>
        (priority (rt_config rt') = priority (rt_config rt) \<longrightarrow> ?ord i j \<noteq> Greater))"
    if j: "bt_get creds j = Some rt'" "considered claims entry j rt'" "credential_ready rt' cfg entry now" for j rt'
  proof -
    have Pj: "priority_of creds j = Some (priority (rt_config rt'))" using j by (simp add: priority_of_def)
    have jr: "j \<in> set ?ready" using j in_ready_credentials [OF assms(1)] by blast
    then have "j \<in> set (retain_best creds ?ready)" if "priority (rt_config rt') = priority (rt_config rt)"
      using P Pj that C by (auto simp: retain_best_def split: option.splits)
    with C S Pj P B jr show ?thesis
      using candidate_order.hd_sort_by_least [OF S] by blast
  qed
  with rt show ?thesis by blast
qed

subsection \<open>The other verdicts\<close>

text \<open>A credential waiting can never help with: the request is pinned to another one, or a
  permanent guard fails.\<close>

definition hopeless ::
  "(SessionClaimKey, SessionClaim) btree \<Rightarrow> ScheduleEntry \<Rightarrow> CredentialId \<times> CredentialRuntime \<Rightarrow> bool" where
  "hopeless claims entry p \<longleftrightarrow>
     is_some_and (pinned_target (portability (generic entry))) (\<lambda>t. t \<noteq> fst p) \<or>
     \<not> session_capacity_blocked (rt_config (snd p)) claims entry \<and> ineligible (snd p) entry"

lemma credential_ready_not_ineligible: "credential_ready rt cfg entry now \<Longrightarrow> \<not> ineligible rt entry"
  by (simp add: credential_ready_def Let_def)

lemma hopeless_not_ready:
  "hopeless claims entry (i, rt) \<Longrightarrow> \<not> (considered claims entry i rt \<and> credential_ready rt cfg entry now)"
  using credential_ready_not_ineligible [of rt cfg entry now]
  by (auto simp: hopeless_def considered_def split: option.splits)

lemma scan_credential_temporary:
  "saw_temporary (fst (scan_credential claims cfg entry now pref i rt scan)) \<longleftrightarrow>
     saw_temporary scan \<or> \<not> hopeless claims entry (i, rt) \<and>
       \<not> (considered claims entry i rt \<and> credential_ready rt cfg entry now)"
proof -
  have "\<not> ineligible rt entry \<and> \<not> credential_ready rt cfg entry now \<longleftrightarrow>
      fst (fst (eligibility rt cfg entry now)) = TemporarilyBlocked"
    unfolding eligibility_Eligible_iff [symmetric] eligibility_ineligible_iff [of rt cfg entry now, symmetric]
    by (cases "fst (fst (eligibility rt cfg entry now))") auto
  then show ?thesis
    using eligibility_Eligible_iff [of rt cfg entry now] eligibility_ineligible_iff [of rt cfg entry now]
    by (auto simp: scan_credential_def considered_def hopeless_def
        split: option.splits prod.splits EligibilityClass.splits)
qed

lemma scan_credential_waits:
  "(session_wait scan \<noteq> None \<or> earliest_recovery scan \<noteq> None \<longrightarrow> saw_temporary scan) \<Longrightarrow>
   session_wait (fst (scan_credential claims cfg entry now pref i rt scan)) \<noteq> None \<or>
   earliest_recovery (fst (scan_credential claims cfg entry now pref i rt scan)) \<noteq> None \<Longrightarrow>
   saw_temporary (fst (scan_credential claims cfg entry now pref i rt scan))"
  by (auto simp: scan_credential_def split: option.splits prod.splits EligibilityClass.splits)

lemma scan_pool_temporary:
  assumes "session_wait scan \<noteq> None \<or> earliest_recovery scan \<noteq> None \<longrightarrow> saw_temporary scan"
    and "scan_pool claims cfg entry now pref creds scan = (scan', creds')"
  shows "(saw_temporary scan' \<longleftrightarrow> saw_temporary scan \<or> (\<exists>(i, rt) \<in> set creds. \<not> hopeless claims entry (i, rt) \<and>
      \<not> (considered claims entry i rt \<and> credential_ready rt cfg entry now))) \<and>
    (session_wait scan' \<noteq> None \<or> earliest_recovery scan' \<noteq> None \<longrightarrow> saw_temporary scan')"
  using assms
proof (induction creds arbitrary: scan scan' creds')
  case Nil
  then show ?case by simp
next
  case (Cons p creds)
  obtain i rt where p: "p = (i, rt)" by (cases p)
  obtain s1 rt' where S: "scan_credential claims cfg entry now pref i rt scan = (s1, rt')" by fastforce
  obtain s2 creds2 where T: "scan_pool claims cfg entry now pref creds s1 = (s2, creds2)" by fastforce
  have s1: "session_wait s1 \<noteq> None \<or> earliest_recovery s1 \<noteq> None \<longrightarrow> saw_temporary s1"
    using scan_credential_waits [OF Cons.prems(1), of claims cfg entry now pref i rt] S by simp
  from Cons.IH [OF s1 T] show ?case
    using Cons.prems(2) scan_credential_temporary [of claims cfg entry now pref i rt scan] by (simp add: p S T) blast
qed

text \<open>The pool is reported as deterministically unavailable exactly when no credential of it
  can serve the request however long it waits.\<close>

theorem deterministic_unavailable_iff:
  "fst (evaluate_pool_fields creds affs claims cfg entry now) = DeterministicUnavailable \<longleftrightarrow>
     list_all (hopeless claims entry) creds"
proof -
  let ?ready = "ready_credentials creds claims cfg entry now"
  let ?pref = "preferred_credential affs entry"
  obtain scan creds' where S: "scan_pool claims cfg entry now ?pref creds PoolScan_init = (scan, creds')"
    by fastforce
  have c: "candidates scan = ?ready"
    using scan_pool_candidates [of claims cfg entry now ?pref creds PoolScan_init]
    unfolding S by (simp add: PoolScan_init_def)
  have init: "session_wait PoolScan_init \<noteq> None \<or> earliest_recovery PoolScan_init \<noteq> None \<longrightarrow> saw_temporary PoolScan_init"
    "\<not> saw_temporary PoolScan_init"
    by (simp_all add: PoolScan_init_def)
  have T: "saw_temporary scan \<longleftrightarrow> (\<exists>(i, rt) \<in> set creds. \<not> hopeless claims entry (i, rt) \<and>
      \<not> (considered claims entry i rt \<and> credential_ready rt cfg entry now))"
    "session_wait scan \<noteq> None \<or> earliest_recovery scan \<noteq> None \<longrightarrow> saw_temporary scan"
    using scan_pool_temporary [OF init(1) S] init(2) by blast+
  have E: "fst (evaluate_pool_fields creds affs claims cfg entry now) = pool_decision creds' cfg entry now ?pref scan"
    using S by (simp add: evaluate_pool_fields_def preferred_credential_def)
  have "pool_decision creds' cfg entry now ?pref scan = DeterministicUnavailable \<longleftrightarrow>
      ?ready = [] \<and> \<not> saw_temporary scan"
    using T(2) retain_best_nonempty [of ?ready creds']
    unfolding pool_decision_def c Let_def by (auto split: option.splits list.splits)
  also have "\<dots> \<longleftrightarrow> list_all (hopeless claims entry) creds"
    using hopeless_not_ready [of claims entry _ _ cfg now]
    by (auto simp: T(1) ready_credentials_def filter_empty_conv list_all_iff)
  finally show ?thesis using E by simp
qed

lemma ready_pool_verdict:
  assumes "ready_credentials creds claims cfg entry now \<noteq> []"
  shows "(\<exists>i. fst (evaluate_pool_fields creds affs claims cfg entry now) = Candidate i) \<or>
    fst (evaluate_pool_fields creds affs claims cfg entry now) = Wait \<and>
    now < dur_saturating_add (accepted_at entry) (preferred_capacity_wait cfg) \<and>
    preferred_credential affs entry \<noteq> None"
proof -
  let ?ready = "ready_credentials creds claims cfg entry now"
  let ?pref = "preferred_credential affs entry"
  obtain scan creds' where S: "scan_pool claims cfg entry now ?pref creds PoolScan_init = (scan, creds')"
    by fastforce
  have c: "candidates scan = ?ready"
    using scan_pool_candidates [of claims cfg entry now ?pref creds PoolScan_init]
    unfolding S by (simp add: PoolScan_init_def)
  have E: "fst (evaluate_pool_fields creds affs claims cfg entry now) = pool_decision creds' cfg entry now ?pref scan"
    using S by (simp add: evaluate_pool_fields_def preferred_credential_def)
  show ?thesis
    using assms retain_best_nonempty [of ?ready creds'] unfolding E
    by (auto simp: pool_decision_def c Let_def split: option.splits list.splits)
qed

text \<open>
  The affinity table holds a request back while its preferred credential is full and the
  time the group lets it wait for that credential is not over.
\<close>

definition affinity_holds ::
  "(CredentialId, CredentialRuntime) btree \<Rightarrow> (AffinityKey, AffinityEntry) btree \<Rightarrow> GroupConfig \<Rightarrow>
   ScheduleEntry \<Rightarrow> duration \<Rightarrow> bool" where
  "affinity_holds creds affs cfg entry now =
     is_some_and (preferred_credential affs entry) (\<lambda>p.
       is_some_and (bt_get creds p) (\<lambda>rt. cc_concurrency_limit (rt_config rt) \<le> inflight rt) \<and>
       now < dur_saturating_add (accepted_at entry) (preferred_capacity_wait cfg))"

lemma scan_preferred_full:
  assumes "preferred_capacity_only (fst (scan_pool claims cfg entry now pref creds scan))" and "\<not> preferred_capacity_only scan"
  shows "\<exists>(i, rt) \<in> set creds. pref = Some i \<and> cc_concurrency_limit (rt_config rt) \<le> inflight rt"
  using assms
proof (induction creds arbitrary: scan)
  case (Cons p creds)
  obtain i rt where p: "p = (i, rt)" by (cases p)
  obtain s1 rt' where S: "scan_credential claims cfg entry now pref i rt scan = (s1, rt')" by fastforce
  obtain s2 creds2 where T: "scan_pool claims cfg entry now pref creds s1 = (s2, creds2)" by fastforce
  show ?case
  proof (cases "preferred_capacity_only s1")
    case True
    obtain c w r where E: "eligibility rt cfg entry now = ((c, w), r)" by (metis prod.collapse)
    have "rt_config r = rt_config rt" "inflight r = inflight rt"
      using eligibility_bucket [of rt cfg entry now] E by auto
    with True S Cons.prems(2) E have "pref = Some i \<and> cc_concurrency_limit (rt_config rt) \<le> inflight rt"
      by (cases c) (auto simp: scan_credential_def split: if_splits)
    then show ?thesis by (simp add: p)
  next
    case False
    with Cons.IH [of s1] Cons.prems(1) show ?thesis by (auto simp: p S T)
  qed
qed simp

lemma ready_pool_candidate:
  assumes "ready_credentials creds claims cfg entry now \<noteq> []" and "bt_wf creds"
    and "\<not> affinity_holds creds affs cfg entry now"
  shows "\<exists>i. fst (evaluate_pool_fields creds affs claims cfg entry now) = Candidate i"
proof -
  let ?ready = "ready_credentials creds claims cfg entry now"
  let ?pref = "preferred_credential affs entry"
  obtain scan creds' where S: "scan_pool claims cfg entry now ?pref creds PoolScan_init = (scan, creds')"
    by fastforce
  have c: "candidates scan = ?ready"
    using scan_pool_candidates [of claims cfg entry now ?pref creds PoolScan_init]
    unfolding S by (simp add: PoolScan_init_def)
  have E: "fst (evaluate_pool_fields creds affs claims cfg entry now) = pool_decision creds' cfg entry now ?pref scan"
    using S by (simp add: evaluate_pool_fields_def preferred_credential_def)
  have "\<not> (preferred_capacity_only scan \<and> now < dur_saturating_add (accepted_at entry) (preferred_capacity_wait cfg))"
  proof
    assume A: "preferred_capacity_only scan \<and> now < dur_saturating_add (accepted_at entry) (preferred_capacity_wait cfg)"
    then obtain i rt where "(i, rt) \<in> set creds" "?pref = Some i" "cc_concurrency_limit (rt_config rt) \<le> inflight rt"
      using scan_preferred_full [of claims cfg entry now ?pref creds PoolScan_init] unfolding S
      by (fastforce simp: PoolScan_init_def)
    moreover from this(1) assms(2) have "bt_get creds i = Some rt" by (simp add: bt_get_eq_Some)
    ultimately show False using A assms(3) by (simp add: affinity_holds_def)
  qed
  then show ?thesis
    using assms(1) retain_best_nonempty [of ?ready creds'] unfolding E
    by (auto simp: pool_decision_def c Let_def split: option.splits list.splits)
qed

text \<open>Work conservation: when some credential can serve the request now, the verdict is a
  candidate, or a bounded wait for the preferred credential, which is only short of
  capacity.\<close>

theorem ready_pool_yields_candidate:
  assumes "ready_credentials creds claims cfg entry now \<noteq> []"
  shows "(\<exists>i. fst (evaluate_pool_fields creds affs claims cfg entry now) = Candidate i) \<or>
    fst (evaluate_pool_fields creds affs claims cfg entry now) = Wait \<and>
    now < dur_saturating_add (accepted_at entry) (preferred_capacity_wait cfg) \<and>
    preferred_credential affs entry \<noteq> None"
  using assms by (rule ready_pool_verdict)

subsection \<open>A candidate can be charged\<close>

lemma credential_ready_settled [simp]:
  "credential_ready (settled claims cfg entry now i rt) cfg entry now = credential_ready rt cfg entry now"
  using settled_cases [of claims cfg entry now i rt] by (auto simp: credential_ready_def)

lemma lease_execution_ready:
  "credential_ready rt cfg entry now \<Longrightarrow> \<exists>ex. lease_execution (rt_config rt) (se_client_os entry) = Some ex"
  by (auto simp: credential_ready_def ineligible_def lease_execution_def Let_def split: option.splits)

lemma try_consume_ready: "SCALE \<le> available (refill now b) \<Longrightarrow> \<exists>b'. try_consume b now = (True, b')"
  by (auto simp: try_consume_def Let_def)

text \<open>What charging a runtime may change.\<close>

lemma charge_runtime_config:
  "charge_runtime cfg entry now rt = (r, rt') \<Longrightarrow>
   \<exists>st. rt_config rt' = (rt_config rt)\<lparr>cc_state := st\<rparr> \<and> lifecycle_active st = lifecycle_active (cc_state (rt_config rt))"
  by (auto simp: charge_runtime_def Let_def split: option.splits prod.splits if_splits
      intro: exI [of _ "cc_state (rt_config rt)"] exI [of _ "(cc_state (rt_config rt))\<lparr>half_open_inflight := True\<rparr>"])

lemma charge_runtime_admin [simp]:
  "charge_runtime cfg entry now rt = (r, rt') \<Longrightarrow> admin_fenced rt' = admin_fenced rt"
  by (auto simp: charge_runtime_def Let_def split: option.splits prod.splits if_splits)

lemma charge_runtime_None:
  "charge_runtime cfg entry now rt = (None, rt') \<Longrightarrow> inflight rt' = inflight rt"
  by (auto simp: charge_runtime_def Let_def split: option.splits prod.splits if_splits)

lemma charge_runtime_Some:
  "charge_runtime cfg entry now rt = (Some x, rt') \<Longrightarrow>
   inflight rt < cc_concurrency_limit (rt_config rt) \<and> unat (inflight rt') = Suc (unat (inflight rt))"
  using unat_add_1_less [of "inflight rt" "cc_concurrency_limit (rt_config rt)"]
  by (auto simp: charge_runtime_def Let_def not_le split: option.splits prod.splits if_splits)

lemma charge_ready:
  assumes "credential_ready rt cfg entry now"
  shows "\<exists>x rt'. charge_runtime cfg entry now rt = (Some x, rt')"
proof -
  obtain ex where ex: "lease_execution (rt_config rt) (se_client_os entry) = Some ex"
    using lease_execution_ready [OF assms] by blast
  obtain b' where b': "try_consume (bucket rt) now = (True, b')"
    using try_consume_ready assms by (auto simp: credential_ready_def Let_def)
  have "\<not> (quota_requires_half_open rt (quota_guard_basis_points cfg) now \<and>
      (half_open_inflight (cc_state (rt_config rt)) \<or> half_open_consumed rt \<or> portability (generic entry) \<noteq> Portable))"
    using assms by (auto simp: credential_ready_def quota_requires_half_open_def Let_def split: option.splits)
  then show ?thesis
    using assms by (auto simp: charge_runtime_def ex b' Let_def credential_ready_def quota_requires_half_open_def)
qed

subsection \<open>Witnesses\<close>

definition sample_profile :: CredentialProfileConfig where
  "sample_profile =
     \<lparr>profile_id = TypedId ''p'', profile_epoch = 1, device_identity_id = TypedId ''d'', device_epoch = 1,
      archetype_version_id = TypedId ''av'', bundle_id = TypedId ''b'', bundle_version = 1,
      bundle_hash = Digest ''h'', egress_binding_id = TypedId ''e'', cp_egress_epoch = 1, bundle_epoch = 1\<rparr>"

definition sample_credential :: "string \<Rightarrow> u16 \<Rightarrow> u32 \<Rightarrow> bool \<Rightarrow> CredentialConfig" where
  "sample_credential i prio limit sessions =
     \<lparr>cc_id = TypedId i, credential_projection_revision = 1, scheduling_projection_revision = 1,
      cc_concurrency_limit = limit, cc_rate_limit = CREDENTIAL_DEFAULT, priority = prio, weight = 1,
      model_scope = {}, attribution_optional = False,
      session_capacity = SessionCapacityConfig_default\<lparr>sc_enabled := sessions\<rparr>, min_request_interval = None,
      token_version = 1, openai_transport = None, profiles = [(Linux, sample_profile)],
      cc_quota_observation_version = None, cc_state = CredentialState_default\<rparr>"

lemma sample_bucket_full:
  "SCALE \<le> available (refill now (bucket_full CREDENTIAL_DEFAULT now))"
  by (simp add: refill_same_time bucket_full_def CREDENTIAL_DEFAULT_def SCALE_def word_le_nat_alt)

lemma sample_ready:
  "limit \<noteq> 0 \<Longrightarrow>
   credential_ready (fresh_runtime (sample_credential i prio limit sessions) now) cfg (sample_entry r u) now"
  using sample_bucket_full [of now]
  by (simp add: credential_ready_def Let_def fresh_runtime_def sample_credential_def sample_entry_def
      sample_request_def ineligible_def CredentialState_default_def word_neq_0_conv)

definition sample_pool :: "(CredentialId, CredentialRuntime) btree" where
  "sample_pool =
     [(TypedId ''a'', fresh_runtime (sample_credential ''a'' 20 2 False) 0),
      (TypedId ''b'', fresh_runtime (sample_credential ''b'' 10 2 False) 0),
      (TypedId ''c'', fresh_runtime (sample_credential ''c'' 10 1 False) 0)]"

lemma sample_pool_considered:
  "considered claims (sample_entry r u) i (fresh_runtime (sample_credential j prio limit False) 0)"
  by (simp add: considered_def sample_entry_def sample_request_def pinned_target_def session_capacity_blocked_def
      fresh_runtime_def sample_credential_def SessionCapacityConfig_default_def)

lemma sample_pool_ready:
  "ready_credentials sample_pool [] GroupConfig_default (sample_entry ''r'' ''u'') 0 =
     [TypedId ''a'', TypedId ''b'', TypedId ''c'']"
  by (simp add: ready_credentials_def sample_pool_def sample_pool_considered sample_ready)

lemma sample_pool_wf: "bt_wf sample_pool" "limits_positive sample_pool"
  by (simp_all add: sample_pool_def limits_positive_def fresh_runtime_def sample_credential_def less_TypedId_def)

lemma sample_pool_choice:
  "fst (evaluate_pool_fields sample_pool [] [] GroupConfig_default (sample_entry ''r'' ''u'') 0) =
     Candidate (TypedId ''b'')"
proof -
  have P: "map (priority_of sample_pool) [TypedId ''a'', TypedId ''b'', TypedId ''c''] = [Some 20, Some 10, Some 10]"
    by (simp add: sample_pool_def priority_of_def fresh_runtime_def sample_credential_def)
  then have B: "retain_best sample_pool [TypedId ''a'', TypedId ''b'', TypedId ''c''] = [TypedId ''b'', TypedId ''c'']"
    by (simp add: retain_best_def)
  have C: "compare_candidates sample_pool (TypedId ''b'') (TypedId ''c'') = Less"
    by (simp add: compare_candidates_def sample_pool_def fresh_runtime_def sample_credential_def cmp_def then_with_def
        less_TypedId_def)
  from ready_pool_verdict [of sample_pool "[]" GroupConfig_default "sample_entry ''r'' ''u''" 0 "[]"]
  obtain i where i: "fst (evaluate_pool_fields sample_pool [] [] GroupConfig_default (sample_entry ''r'' ''u'') 0) = Candidate i"
    by (auto simp: sample_pool_ready preferred_credential_def)
  from evaluate_candidate_cases [OF this] show ?thesis
    by (simp add: sample_pool_ready B i preferred_credential_def sort_by_def C)
qed

theorem evaluate_pool_chooses_best_witness:
  "\<exists>rt. bt_get sample_pool (TypedId ''b'') = Some rt \<and>
     credential_ready rt GroupConfig_default (sample_entry ''r'' ''u'') 0"
  using evaluate_pool_chooses_best [OF sample_pool_wf sample_pool_choice] by blast

theorem ready_pool_yields_candidate_witness:
  "\<exists>i. fst (evaluate_pool_fields sample_pool [] [] GroupConfig_default (sample_entry ''r'' ''u'') 0) = Candidate i"
  using ready_pool_yields_candidate [of sample_pool "[]" GroupConfig_default "sample_entry ''r'' ''u''" 0 "[]"]
  by (simp add: sample_pool_ready preferred_credential_def)

end
