(* ===== verification/Engine_Invariant.thy ===== *)
theory Engine_Invariant
  imports Engine_Eval
begin

text \<open>
  The resource invariant of the scheduler engine and its preservation by every operation of
  \<^verbatim>\<open>engine.rs\<close>. \<open>engine_wf\<close> relates the tables to each other: the in-flight counter of a
  credential is the number of its leases, the counter of a session claim is the number of
  leases that hold it, leases and requests index each other, the queue holds exactly the
  waiting requests, and a request is in at most one of queue and service. \<open>ledger_ok\<close>
  relates the resource balance to the resources held.
\<close>

subsection \<open>Identifiers\<close>

text \<open>What the engine relies on of \<^verbatim>\<open>Uuid::new_v4().simple()\<close>: 32 ASCII characters, and the first
  \<open>N\<close> draws are different.\<close>

definition uuid_ok :: "(nat \<Rightarrow> string) \<Rightarrow> nat \<Rightarrow> bool" where
  "uuid_ok uuid N \<longleftrightarrow> inj_on uuid {..<N} \<and> (\<forall>n<N. length (uuid n) = 32 \<and> is_ascii (uuid n))"

lemma uuid_ok_TypedId:
  assumes "uuid_ok uuid N" and "n < N" and "length prefix \<le> 96" and "is_ascii prefix"
  shows "TypedId_new (prefix @ uuid n) = Inr (TypedId (prefix @ uuid n))"
proof -
  have "length (uuid n) = 32" "is_ascii (uuid n)" using assms by (auto simp: uuid_ok_def)
  moreover from this(1) have "uuid n \<noteq> []" by auto
  ultimately show ?thesis using assms by (simp add: TypedId_new_def MAX_ID_BYTES_def)
qed

lemma ascii_prefixes [simp]: "is_ascii ''lease_''" "is_ascii ''ticket_''"
  by (simp_all add: is_ascii_def)

subsection \<open>The parts of the invariant\<close>

abbreviation leases_of :: "CredentialId \<Rightarrow> (LeaseId, LeaseRecord) btree \<Rightarrow> nat" where
  "leases_of cid ls \<equiv> bt_count (\<lambda>_ r. cl_credential_id (lease r) = cid) ls"

abbreviation leases_with :: "SessionClaimKey \<Rightarrow> (LeaseId, LeaseRecord) btree \<Rightarrow> nat" where
  "leases_with key ls \<equiv> bt_count (\<lambda>_ r. session_claim_key r = Some key) ls"

definition creds_wf :: "(CredentialId, CredentialRuntime) btree \<Rightarrow> (LeaseId, LeaseRecord) btree \<Rightarrow> bool" where
  "creds_wf creds ls \<longleftrightarrow>
     bt_wf creds \<and>
     (\<forall>cid rt. bt_get creds cid = Some rt \<longrightarrow>
        cc_id (rt_config rt) = cid \<and> cc_concurrency_limit (rt_config rt) \<noteq> 0 \<and>
        unat (inflight rt) = leases_of cid ls) \<and>
     (\<forall>lid r. bt_get ls lid = Some r \<longrightarrow> bt_get creds (cl_credential_id (lease r)) \<noteq> None)"

definition leases_wf ::
  "(nat \<Rightarrow> string) \<Rightarrow> nat \<Rightarrow> (LeaseId, LeaseRecord) btree \<Rightarrow> (RequestId, LeaseId) btree \<Rightarrow> (LeaseId, duration) btree \<Rightarrow> bool" where
  "leases_wf uuid draws ls rls pcs \<longleftrightarrow>
     bt_wf ls \<and> bt_wf rls \<and> bt_wf pcs \<and>
     (\<forall>lid r. bt_get ls lid = Some r \<longrightarrow>
        cl_id (lease r) = lid \<and> bt_get rls (cl_request_id (lease r)) = Some lid \<and>
        (\<exists>n<draws. lid = TypedId (''lease_'' @ uuid n))) \<and>
     (\<forall>rid lid. bt_get rls rid = Some lid \<longrightarrow> (\<exists>r. bt_get ls lid = Some r \<and> cl_request_id (lease r) = rid)) \<and>
     (\<forall>lid d. bt_get pcs lid = Some d \<longrightarrow> bt_get ls lid \<noteq> None)"

definition claims_wf :: "(SessionClaimKey, SessionClaim) btree \<Rightarrow> (LeaseId, LeaseRecord) btree \<Rightarrow> bool" where
  "claims_wf claims ls \<longleftrightarrow>
     bt_wf claims \<and>
     (\<forall>key c. bt_get claims key = Some c \<longrightarrow> unat (active_requests c) = leases_with key ls) \<and>
     (\<forall>lid r key. bt_get ls lid = Some r \<longrightarrow> session_claim_key r = Some key \<longrightarrow>
        bt_get claims key \<noteq> None \<and> fst key = cl_credential_id (lease r))"

text \<open>\<open>X\<close> are the requests taken out of the queue whose tickets are still to be dropped.\<close>

definition queue_wf :: "RequestId multiset \<Rightarrow> FairQueue \<Rightarrow> (RequestId, WaitingRecord) btree \<Rightarrow> bool" where
  "queue_wf X q ws \<longleftrightarrow>
     queue_inv q \<and> bt_wf ws \<and> image_mset se_request_id (queue_entries q) + X = mset (map fst ws) \<and>
     (\<forall>rid w. bt_get ws rid = Some w \<longrightarrow> qt_request_id (ticket w) = rid)"

definition owner_wf ::
  "RequestId set \<Rightarrow> (RequestId, WaitingRecord) btree \<Rightarrow> (RequestId, LeaseId) btree \<Rightarrow> RequestId set \<Rightarrow>
   (LeaseId, duration) btree \<Rightarrow> bool" where
  "owner_wf seen ws rls permits pcs \<longleftrightarrow>
     finite permits \<and> permits \<subseteq> seen \<and>
     (\<forall>rid. bt_get ws rid \<noteq> None \<longrightarrow> rid \<in> seen \<and> bt_get rls rid = None \<and> rid \<notin> permits) \<and>
     (\<forall>rid. bt_get rls rid \<noteq> None \<longrightarrow> rid \<in> seen) \<and>
     (\<forall>rid lid. bt_get rls rid = Some lid \<longrightarrow> bt_get pcs lid \<noteq> None \<longrightarrow> rid \<notin> permits)"

definition engine_wf :: "(nat \<Rightarrow> string) \<Rightarrow> RequestId multiset \<Rightarrow> SchedulerEngine \<Rightarrow> bool" where
  "engine_wf uuid X e \<longleftrightarrow>
     creds_wf (credentials e) (leases e) \<and>
     leases_wf uuid (uuid_draws e) (leases e) (request_leases e) (pending_cancels e) \<and>
     claims_wf (session_claims e) (leases e) \<and>
     queue_wf X (queue e) (waiting e) \<and>
     owner_wf (seen_requests e) (waiting e) (request_leases e) (group_permits e) (pending_cancels e)"

text \<open>The resources held, and the ledger's account of them: until the event counter reaches
  \<open>2 ^ 63\<close>, the balance is the number of resources held plus a constant \<open>g\<close>.\<close>

definition held :: "SchedulerEngine \<Rightarrow> nat" where
  "held e = card (group_permits e) + length (waiting e) + length (session_claims e) + length (leases e)"

definition ledger_ok :: "int \<Rightarrow> SchedulerEngine \<Rightarrow> bool" where
  "ledger_ok g e \<longleftrightarrow>
     (uint (event_sequence e) < 2 ^ 63 \<longrightarrow>
        resource_balance e = int (held e) + g \<and> \<bar>resource_balance e\<bar> \<le> uint (event_sequence e))"

definition engine_ok :: "(nat \<Rightarrow> string) \<Rightarrow> RequestId multiset \<Rightarrow> int \<Rightarrow> SchedulerEngine \<Rightarrow> bool" where
  "engine_ok uuid X g e \<longleftrightarrow> engine_wf uuid X e \<and> ledger_ok g e"

lemma held_record_event [simp]: "held (record_event rid k i a now e) = held e"
  by (simp add: held_def)

lemma held_forget_rate [simp]: "held (forget_rate rid e) = held e"
  by (simp add: held_def)

lemma engine_wf_record_event [simp]: "engine_wf uuid X (record_event rid k i a now e) = engine_wf uuid X e"
  by (simp add: engine_wf_def)

lemma engine_wf_forget_rate [simp]: "engine_wf uuid X (forget_rate rid e) = engine_wf uuid X e"
  by (simp add: engine_wf_def)

lemma ledger_forget_rate [simp]: "ledger_ok g (forget_rate rid e) = ledger_ok g e"
  by (simp add: ledger_ok_def)

lemma engine_ok_forget_rate [simp]: "engine_ok uuid X g (forget_rate rid e) = engine_ok uuid X g e"
  by (simp add: engine_ok_def)

text \<open>A ledger entry moves the balance by one.\<close>

lemma ledger_record:
  assumes "ledger_ok g e"
  shows "ledger_ok (if a = Acquire then g + 1 else g - 1) (record_event rid k i a now e)"
proof -
  let ?e = "record_event rid k i a now e"
  have seq: "event_sequence ?e = saturating_add (event_sequence e) 1"
    by (simp add: record_event_def Let_def)
  have bal: "resource_balance ?e = isize_saturating_add (resource_balance e) (if a = Acquire then 1 else - 1)"
    by (cases a) (simp_all add: record_event_def Let_def)
  show ?thesis
    unfolding ledger_ok_def
  proof (intro impI)
    assume lt: "uint (event_sequence ?e) < 2 ^ 63"
    then have "int (unat (event_sequence ?e)) < int (2 ^ 63)" by simp
    then have "unat (event_sequence ?e) < 2 ^ 63" by (simp only: of_nat_less_iff)
    then have "unat (event_sequence ?e) = Suc (unat (event_sequence e))"
      by (auto simp: seq unat_saturating_add min_def split: if_splits)
    then have "int (unat (event_sequence ?e)) = int (Suc (unat (event_sequence e)))" by (simp only:)
    then have S: "uint (event_sequence ?e) = uint (event_sequence e) + 1" by simp
    then have old: "resource_balance e = int (held e) + g" "\<bar>resource_balance e\<bar> \<le> uint (event_sequence e)"
      using assms lt by (auto simp: ledger_ok_def)
    have "resource_balance ?e = resource_balance e + (if a = Acquire then 1 else - 1)"
    proof -
      have "\<bar>resource_balance e\<bar> < 9223372036854775807" using old(2) S lt by simp
      then have "- ISIZE_MAX - 1 \<le> resource_balance e + d \<and> resource_balance e + d \<le> ISIZE_MAX"
        if "d = 1 \<or> d = - 1" for d
        using that by (auto simp: ISIZE_MAX_def)
      then show ?thesis by (simp add: bal isize_saturating_add_def)
    qed
    then show "resource_balance ?e = int (held ?e) + (if a = Acquire then g + 1 else g - 1) \<and>
        \<bar>resource_balance ?e\<bar> \<le> uint (event_sequence ?e)"
      using old S by auto
  qed
qed

lemma ledger_acquire: "ledger_ok (g - 1) e \<Longrightarrow> ledger_ok g (record_event rid k i Acquire now e)"
  using ledger_record [of "g - 1" e Acquire] by simp

lemma ledger_release:
  "a \<noteq> Acquire \<Longrightarrow> ledger_ok (g + 1) e \<Longrightarrow> ledger_ok g (record_event rid k i a now e)"
  using ledger_record [of "g + 1" e a] by simp

text \<open>Moving resources without a ledger entry shifts the constant.\<close>

lemma ledger_shift:
  assumes "ledger_ok g e" and "event_sequence e' = event_sequence e" and "resource_balance e' = resource_balance e"
    and "int (held e') + g' = int (held e) + g"
  shows "ledger_ok g' e'"
  using assms unfolding ledger_ok_def by metis

text \<open>Fields the ledger does not read.\<close>

lemma ledger_unread [simp]:
  "ledger_ok g (e\<lparr>lifecycle := l\<rparr>) = ledger_ok g e" "ledger_ok g (e\<lparr>config := c\<rparr>) = ledger_ok g e"
  "ledger_ok g (e\<lparr>group_bucket := gb\<rparr>) = ledger_ok g e" "ledger_ok g (e\<lparr>credentials := cr\<rparr>) = ledger_ok g e"
  "ledger_ok g (e\<lparr>queue := q\<rparr>) = ledger_ok g e" "ledger_ok g (e\<lparr>request_leases := rl\<rparr>) = ledger_ok g e"
  "ledger_ok g (e\<lparr>pending_cancels := pc\<rparr>) = ledger_ok g e" "ledger_ok g (e\<lparr>seen_requests := sr\<rparr>) = ledger_ok g e"
  "ledger_ok g (e\<lparr>request_portability := rp\<rparr>) = ledger_ok g e"
  "ledger_ok g (e\<lparr>group_rate_admitted := ra\<rparr>) = ledger_ok g e"
  "ledger_ok g (e\<lparr>affinities := af\<rparr>) = ledger_ok g e" "ledger_ok g (e\<lparr>events := ev\<rparr>) = ledger_ok g e"
  "ledger_ok g (e\<lparr>uuid_draws := n\<rparr>) = ledger_ok g e"
  by (simp_all add: ledger_ok_def held_def)

lemmas engine_ok_defs = engine_ok_def engine_wf_def

subsection \<open>Updates of the credential table\<close>

lemma creds_wf_modify:
  assumes "creds_wf creds ls"
    and "\<And>rt. bt_get creds k = Some rt \<Longrightarrow> cc_id (rt_config (f rt)) = k \<and>
      cc_concurrency_limit (rt_config (f rt)) \<noteq> 0 \<and> inflight (f rt) = inflight rt"
  shows "creds_wf (bt_modify k f creds) ls"
  using assms by (auto simp: creds_wf_def)

lemma creds_wf_map:
  assumes "creds_wf creds ls"
    and "\<And>k rt. bt_get creds k = Some rt \<Longrightarrow> cc_id (rt_config (f k rt)) = cc_id (rt_config rt) \<and>
      cc_concurrency_limit (rt_config (f k rt)) = cc_concurrency_limit (rt_config rt) \<and>
      inflight (f k rt) = inflight rt"
  shows "creds_wf (bt_map f creds) ls"
  using assms by (auto simp: creds_wf_def)

lemma creds_wf_settled: "creds_wf creds ls \<Longrightarrow> creds_wf (bt_map (settled claims cfg entry now) creds) ls"
  by (rule creds_wf_map) simp_all

lemma creds_wf_limits: "creds_wf creds ls \<Longrightarrow> limits_positive creds"
  by (auto simp: creds_wf_def limits_positive_def list_all_iff bt_get_eq_Some [symmetric])

lemma creds_wf_bt: "creds_wf creds ls \<Longrightarrow> bt_wf creds"
  by (simp add: creds_wf_def)

lemma engine_ok_credentials:
  "engine_ok uuid X g e \<Longrightarrow> creds_wf creds (leases e) \<Longrightarrow> engine_ok uuid X g (e\<lparr>credentials := creds\<rparr>)"
  by (simp add: engine_ok_defs)

lemma engine_okD:
  assumes "engine_ok uuid X g e"
  shows "creds_wf (credentials e) (leases e)"
    "leases_wf uuid (uuid_draws e) (leases e) (request_leases e) (pending_cancels e)"
    "claims_wf (session_claims e) (leases e)" "queue_wf X (queue e) (waiting e)"
    "owner_wf (seen_requests e) (waiting e) (request_leases e) (group_permits e) (pending_cancels e)"
    "ledger_ok g e"
  using assms by (simp_all add: engine_ok_defs)

lemma engine_ok_evaluate:
  assumes "engine_ok uuid X g e" and "evaluate_pool entry now e = (ev, e')"
  shows "engine_ok uuid X g e'"
proof -
  let ?E = "evaluate_pool_fields (credentials e) (affinities e) (session_claims e) (config e) entry now"
  have "e' = e\<lparr>credentials := snd ?E\<rparr>"
    using assms(2) by (auto simp: evaluate_pool_def split: prod.splits)
  then show ?thesis
    using engine_ok_credentials [OF assms(1) creds_wf_settled [OF engine_okD(1) [OF assms(1)]]]
    by (simp add: evaluate_pool_fields_snd)
qed

text \<open>Fields the invariant does not read.\<close>

lemma engine_ok_unread [simp]:
  "engine_ok uuid X g (e\<lparr>lifecycle := l\<rparr>) = engine_ok uuid X g e"
  "engine_ok uuid X g (e\<lparr>config := c\<rparr>) = engine_ok uuid X g e"
  "engine_ok uuid X g (e\<lparr>group_bucket := gb\<rparr>) = engine_ok uuid X g e"
  "engine_ok uuid X g (e\<lparr>group_rate_admitted := ra\<rparr>) = engine_ok uuid X g e"
  "engine_ok uuid X g (e\<lparr>affinities := af\<rparr>) = engine_ok uuid X g e"
  "engine_ok uuid X g (e\<lparr>events := ev\<rparr>) = engine_ok uuid X g e"
  "engine_ok uuid X g (e\<lparr>request_portability := rp\<rparr>) = engine_ok uuid X g e"
  by (simp_all add: engine_ok_defs)

lemma engine_ok_seen: "engine_ok uuid X g e \<Longrightarrow> engine_ok uuid X g (e\<lparr>seen_requests := insert rid (seen_requests e)\<rparr>)"
  by (auto simp: engine_ok_defs owner_wf_def)

lemma leases_wf_draws: "leases_wf uuid n ls rls pcs \<Longrightarrow> n \<le> m \<Longrightarrow> leases_wf uuid m ls rls pcs"
  unfolding leases_wf_def by (meson order_less_le_trans)

lemma engine_ok_draw: "engine_ok uuid X g e \<Longrightarrow> engine_ok uuid X g (e\<lparr>uuid_draws := Suc (uuid_draws e)\<rparr>)"
  by (auto simp: engine_ok_defs elim: leases_wf_draws)

subsection \<open>Permits\<close>

lemma engine_ok_release_permit:
  assumes "engine_ok uuid X g e" and "a \<noteq> Acquire" and "release_group_permit rid a now e = (r, e')"
  shows "engine_ok uuid X g e'"
proof (cases "rid \<in> group_permits e")
  case True
  let ?e1 = "e\<lparr>group_permits := group_permits e - {rid}\<rparr>"
  have e': "e' = record_event rid GroupPermit ''group-permit'' a now ?e1"
    using True assms(3) by (simp add: release_group_permit_def)
  have f: "finite (group_permits e)" using engine_okD(5) [OF assms(1)] by (simp add: owner_wf_def)
  have "ledger_ok (g + 1) ?e1"
    by (rule ledger_shift [OF engine_okD(6) [OF assms(1)]])
      (use card_Suc_Diff1 [OF f True] in \<open>simp_all add: held_def\<close>)
  then have "ledger_ok g e'" unfolding e' by (rule ledger_release [OF assms(2)])
  moreover have "engine_wf uuid X ?e1"
    using assms(1) by (auto simp: engine_ok_defs owner_wf_def)
  ultimately show ?thesis by (simp add: engine_ok_def e')
next
  case False
  with assms show ?thesis by (simp add: release_group_permit_def)
qed

subsection \<open>Queue tickets\<close>

lemma mset_keys_remove:
  "bt_wf m \<Longrightarrow> bt_get m k = Some v \<Longrightarrow> mset (map fst m) = add_mset k (mset (map fst (bt_remove k m)))"
proof (induction m)
  case Nil
  then show ?case by simp
next
  case (Cons p m)
  show ?case
  proof (cases "fst p = k")
    case True
    then have "bt_get m k = None" using Cons.prems by (auto simp: map_of_eq_None_iff)
    then have "bt_remove k (p # m) = m" using True bt_remove_absent [of m k] by (cases p) (simp add: bt_remove_def)
    with True show ?thesis by simp
  next
    case False
    with Cons show ?thesis by (cases p) (simp add: bt_remove_def)
  qed
qed

lemma mset_keys_insert: "bt_get m k = None \<Longrightarrow> mset (map fst (bt_insert k v m)) = add_mset k (mset (map fst m))"
  by (induction m) (auto split: if_splits)

lemma queue_wf_waiting: "queue_wf X q ws \<Longrightarrow> rid \<in># X \<Longrightarrow> \<exists>w. bt_get ws rid = Some w"
proof -
  assume "queue_wf X q ws" and "rid \<in># X"
  then have "rid \<in># mset (map fst ws)" unfolding queue_wf_def by (metis union_iff)
  then show ?thesis by (metis map_of_eq_None_iff not_None_eq set_map set_mset_mset)
qed

lemma engine_ok_drop_waiting:
  assumes "engine_ok uuid (add_mset rid X) g e" and "a \<noteq> Acquire"
  shows "engine_ok uuid X g (drop_waiting rid a now e)"
proof -
  note D = engine_okD [OF assms(1)]
  obtain w where w: "bt_get (waiting e) rid = Some w"
    using queue_wf_waiting [OF D(4)] by auto
  let ?e1 = "e\<lparr>waiting := bt_remove rid (waiting e)\<rparr>"
  have bw: "bt_wf (waiting e)" using D(4) by (simp add: queue_wf_def)
  have "ledger_ok (g + 1) ?e1"
    by (rule ledger_shift [OF D(6)]) (use length_bt_remove [OF bw w] in \<open>simp_all add: held_def\<close>)
  then have "ledger_ok g (drop_waiting rid a now e)"
    using ledger_release [OF assms(2)] by (simp add: drop_waiting_def w)
  moreover have "queue_wf X (queue e) (bt_remove rid (waiting e))"
    using D(4) mset_keys_remove [OF bw w] by (auto simp: queue_wf_def)
  moreover have "owner_wf (seen_requests e) (bt_remove rid (waiting e)) (request_leases e) (group_permits e) (pending_cancels e)"
    using D(5) by (auto simp: owner_wf_def)
  ultimately show ?thesis using D by (simp add: engine_ok_defs)
qed

lemma drop_waiting_absent: "bt_get (waiting e) rid = None \<Longrightarrow> drop_waiting rid a now e = e"
  by (simp add: drop_waiting_def)

text \<open>Taking a request out of the queue leaves its ticket to be dropped.\<close>

lemma queue_wf_pop:
  "queue_wf X q ws \<Longrightarrow> queue_inv q' \<Longrightarrow> queue_entries q = add_mset entry (queue_entries q') \<Longrightarrow>
   queue_wf (add_mset (se_request_id entry) X) q' ws"
  by (simp add: queue_wf_def)

lemma queue_wf_remove:
  assumes "queue_wf {#} q ws"
  shows "queue_wf (if bt_get ws rid = None then {#} else {#rid#}) (snd (FairQueue_remove rid q)) ws"
proof -
  have I: "queue_inv q" and M: "image_mset se_request_id (queue_entries q) = mset (map fst ws)"
    using assms by (simp_all add: queue_wf_def)
  obtain r q' where R: "FairQueue_remove rid q = (r, q')" by fastforce
  have K: "(\<exists>entry. entry \<in># queue_entries q \<and> se_request_id entry = rid) \<longleftrightarrow> bt_get ws rid \<noteq> None"
    using arg_cong [OF M, of "\<lambda>S. rid \<in># S"] by (auto simp: map_of_eq_None_iff image_iff)
  show ?thesis
  proof (cases r)
    case None
    have "q' = q" "bt_get ws rid = None"
      using fair_queue.remove_None [OF I R [unfolded None]] K by auto
    with assms R show ?thesis by simp
  next
    case (Some entry)
    have q': "queue_inv q'" "se_request_id entry = rid" "queue_entries q = add_mset entry (queue_entries q')"
      using fair_queue.remove_Some [OF I R [unfolded Some]] by blast+
    then have "bt_get ws rid \<noteq> None" using K by (metis union_single_eq_member)
    with queue_wf_pop [OF assms q'(1,3)] q'(2) R show ?thesis by auto
  qed
qed

lemma engine_ok_queue:
  "engine_ok uuid X g e \<Longrightarrow> queue_wf Y q (waiting e) \<Longrightarrow> engine_ok uuid Y g (e\<lparr>queue := q\<rparr>)"
  by (simp add: engine_ok_defs)

text \<open>Removing a request from queue and tickets together, as cancellation and expiry do.\<close>

lemma engine_ok_withdraw:
  assumes "engine_ok uuid {#} g e" and "a \<noteq> Acquire"
  shows "engine_ok uuid {#} g (drop_waiting rid a now (e\<lparr>queue := snd (FairQueue_remove rid (queue e))\<rparr>))"
proof -
  let ?e1 = "e\<lparr>queue := snd (FairQueue_remove rid (queue e))\<rparr>"
  note Q = engine_ok_queue [OF assms(1) queue_wf_remove [OF engine_okD(4) [OF assms(1)], of rid]]
  show ?thesis
  proof (cases "bt_get (waiting e) rid")
    case None
    with Q show ?thesis by (simp add: drop_waiting_absent)
  next
    case (Some w)
    with Q show ?thesis by (auto intro: engine_ok_drop_waiting [OF _ assms(2)])
  qed
qed

lemma engine_ok_enqueue:
  assumes "engine_ok uuid {#} g e" and "se_request_id entry \<in> seen_requests e"
    and "bt_get (waiting e) (se_request_id entry) = None" and "bt_get (request_leases e) (se_request_id entry) = None"
    and "se_request_id entry \<notin> group_permits e" and "enqueue uuid entry now slot e = (r, e')"
  shows "engine_ok uuid {#} g e'"
proof (cases "queue_capacity e \<le> fq_len (queue e)")
  case True
  with assms show ?thesis by (auto simp: enqueue_def)
next
  case False
  let ?rid = "se_request_id entry"
  note O = engine_ok_draw [OF assms(1)]
  show ?thesis
  proof (cases "TypedId_new (''ticket_'' @ uuid (uuid_draws e)) :: TicketId DomainResult")
    case (Inl err)
    with assms(6) False O show ?thesis by (auto simp: enqueue_def Let_def)
  next
    case (Inr tid)
    let ?tk = "\<lparr>qt_id = tid, qt_request_id = ?rid, qt_deadline = pre_upstream_deadline entry,
        qt_state = TicketQueued, qt_generation = generation e\<rparr>"
    let ?e1 = "e\<lparr>uuid_draws := Suc (uuid_draws e)\<rparr>"
    let ?e2 = "?e1\<lparr>queue := FairQueue_push entry (queue e),
        waiting := bt_insert ?rid \<lparr>ticket = ?tk, session_slot_deadline = slot\<rparr> (waiting e)\<rparr>"
    note D = engine_okD [OF O, simplified]
    have e': "e' = record_event ?rid QueueTicketResource (as_str tid) Acquire now ?e2"
      using assms(6) False Inr by (simp add: enqueue_def Let_def)
    have "ledger_ok (g - 1) ?e2"
      by (rule ledger_shift [OF D(6)]) (simp_all add: held_def length_bt_insert [OF assms(3)])
    then have "ledger_ok g e'" unfolding e' by (rule ledger_acquire)
    moreover have "queue_wf {#} (queue ?e2) (waiting ?e2)"
      using D(4) mset_keys_insert [OF assms(3)] fair_queue.inv_push fair_queue.entries_push
      by (auto simp: queue_wf_def)
    moreover have "owner_wf (seen_requests e) (waiting ?e2) (request_leases e) (group_permits e) (pending_cancels e)"
      using D(5) assms(2,4,5) by (auto simp: owner_wf_def)
    ultimately show ?thesis using D by (simp add: engine_ok_defs e')
  qed
qed

subsection \<open>Releasing a lease\<close>

lemma release_runtime_Some:
  assumes "unat (inflight rt) \<noteq> 0"
  obtains rt' where "release_runtime l rt = Some rt'" and "unat (inflight rt) = Suc (unat (inflight rt'))"
    and "cc_id (rt_config rt') = cc_id (rt_config rt)"
    and "cc_concurrency_limit (rt_config rt') = cc_concurrency_limit (rt_config rt)"
proof -
  obtain n where n: "checked_sub (inflight rt) 1 = Some n"
    using assms checked_sub_1_eq_None [of "inflight rt"] by (cases "checked_sub (inflight rt) 1") auto
  show thesis
    by (rule that [of "the (release_runtime l rt)"])
      (use unat_checked_sub [OF n] in \<open>auto simp: release_runtime_def n Let_def\<close>)
qed

lemma release_claim_Some:
  assumes "unat (active_requests c) \<noteq> 0"
  obtains c' where "release_claim now c = Some c'" and "unat (active_requests c) = Suc (unat (active_requests c'))"
proof -
  obtain n where n: "checked_sub (active_requests c) 1 = Some n"
    using assms checked_sub_1_eq_None [of "active_requests c"] by (cases "checked_sub (active_requests c) 1") auto
  show thesis
    by (rule that [of "the (release_claim now c)"])
      (use unat_checked_sub [OF n] in \<open>auto simp: release_claim_def n\<close>)
qed

lemma claims_wfD: "claims_wf claims ls \<Longrightarrow> bt_get claims key = Some c \<Longrightarrow> unat (active_requests c) = leases_with key ls"
  unfolding claims_wf_def by blast

lemma claims_wf_leaseD:
  "claims_wf claims ls \<Longrightarrow> bt_get ls lid = Some r \<Longrightarrow> session_claim_key r = Some key \<Longrightarrow>
   bt_get claims key \<noteq> None \<and> fst key = cl_credential_id (lease r)"
  unfolding claims_wf_def by blast

lemma leases_wfD:
  assumes "leases_wf uuid n ls rls pcs"
  shows "bt_wf ls" "bt_wf rls" "bt_wf pcs"
    and "bt_get ls lid = Some r \<Longrightarrow> cl_id (lease r) = lid \<and> bt_get rls (cl_request_id (lease r)) = Some lid"
    and "bt_get ls lid = Some r \<Longrightarrow> \<exists>k<n. lid = TypedId (''lease_'' @ uuid k)"
    and "bt_get rls rid = Some lid \<Longrightarrow> \<exists>r. bt_get ls lid = Some r \<and> cl_request_id (lease r) = rid"
    and "bt_get pcs lid = Some d \<Longrightarrow> bt_get ls lid \<noteq> None"
  using assms unfolding leases_wf_def by blast+

lemma creds_wfD:
  "creds_wf creds ls \<Longrightarrow> bt_get creds cid = Some rt \<Longrightarrow>
   cc_id (rt_config rt) = cid \<and> cc_concurrency_limit (rt_config rt) \<noteq> 0 \<and> unat (inflight rt) = leases_of cid ls"
  unfolding creds_wf_def by blast

lemma creds_wf_release:
  assumes "creds_wf creds ls" and "bt_wf ls" and "bt_get ls lid = Some rec"
    and "bt_get creds (cl_credential_id (lease rec)) = Some rt"
    and "unat (inflight rt) = Suc (unat (inflight rt'))"
    and "cc_id (rt_config rt') = cc_id (rt_config rt)"
    and "cc_concurrency_limit (rt_config rt') = cc_concurrency_limit (rt_config rt)"
  shows "creds_wf (bt_modify (cl_credential_id (lease rec)) (\<lambda>_. rt') creds) (bt_remove lid ls)"
proof -
  have C: "leases_of cid ls = leases_of cid (bt_remove lid ls) + (if cl_credential_id (lease rec) = cid then 1 else 0)" for cid
    using bt_count_remove [OF assms(2,3)] by simp
  show ?thesis
    using assms C by (auto simp: creds_wf_def)
qed

lemma claims_wf_release_None:
  assumes "claims_wf claims ls" and "bt_wf ls" and "bt_get ls lid = Some rec" and "session_claim_key rec = None"
  shows "claims_wf claims (bt_remove lid ls)"
proof -
  have C: "leases_with key ls = leases_with key (bt_remove lid ls)" for key
    using bt_count_remove [OF assms(2,3), where P = "\<lambda>_ r. session_claim_key r = Some key"] assms(4) by simp
  show ?thesis
    using assms(1) C by (auto simp: claims_wf_def split: if_splits)
qed

lemma claims_wf_release_Some:
  assumes "claims_wf claims ls" and "bt_wf ls" and "bt_get ls lid = Some rec" and "session_claim_key rec = Some key"
    and "bt_get claims key = Some c" and "unat (active_requests c) = Suc (unat (active_requests c'))"
  shows "claims_wf (bt_modify key (\<lambda>_. c') claims) (bt_remove lid ls)"
proof -
  have C: "leases_with k ls = leases_with k (bt_remove lid ls) + (if k = key then 1 else 0)" for k
    using bt_count_remove [OF assms(2,3), where P = "\<lambda>_ r. session_claim_key r = Some k"] assms(4) by auto
  show ?thesis
    using assms(1,5,6) C by (auto simp: claims_wf_def split: if_splits)
qed

lemma leases_wf_release:
  assumes "leases_wf uuid n ls rls pcs" and "bt_get ls lid = Some rec"
  shows "leases_wf uuid n (bt_remove lid ls) (bt_remove (cl_request_id (lease rec)) rls) (bt_remove lid pcs)"
  unfolding leases_wf_def
proof (intro conjI allI impI)
  show "bt_wf (bt_remove lid ls)" "bt_wf (bt_remove (cl_request_id (lease rec)) rls)" "bt_wf (bt_remove lid pcs)"
    using assms by (simp_all add: leases_wf_def)
next
  fix lid' r assume r: "bt_get (bt_remove lid ls) lid' = Some r"
  then have r': "bt_get ls lid' = Some r" "lid' \<noteq> lid" by (auto split: if_splits)
  then show "cl_id (lease r) = lid'" "\<exists>k<n. lid' = TypedId (''lease_'' @ uuid k)"
    using assms by (auto simp: leases_wf_def)
  show "bt_get (bt_remove (cl_request_id (lease rec)) rls) (cl_request_id (lease r)) = Some lid'"
    using assms r' by (auto simp: leases_wf_def) (metis option.inject)
next
  fix rid lid' assume "bt_get (bt_remove (cl_request_id (lease rec)) rls) rid = Some lid'"
  then have R: "bt_get rls rid = Some lid'" "rid \<noteq> cl_request_id (lease rec)" by (auto split: if_splits)
  then obtain r where "bt_get ls lid' = Some r" "cl_request_id (lease r) = rid"
    using assms(1) unfolding leases_wf_def by blast
  with R(2) assms(2) show "\<exists>r. bt_get (bt_remove lid ls) lid' = Some r \<and> cl_request_id (lease r) = rid"
    by auto
next
  fix lid' d assume "bt_get (bt_remove lid pcs) lid' = Some d"
  then show "bt_get (bt_remove lid ls) lid' \<noteq> None"
    using assms by (auto simp: leases_wf_def split: if_splits)
qed

lemma owner_wf_release:
  "owner_wf seen ws rls permits pcs \<Longrightarrow> owner_wf seen ws (bt_remove rid rls) permits (bt_remove lid pcs)"
  by (auto simp: owner_wf_def)

text \<open>Under the invariant a present lease is always released, and nothing can go wrong half way.\<close>

lemma engine_ok_release_lease:
  assumes "engine_ok uuid X g e" and "bt_get (leases e) lid = Some rec"
  obtains e' where "release_lease (generation e) lid now e = (Inr Released, e')" and "engine_ok uuid X g e'"
    and "leases e' = bt_remove lid (leases e)"
    and "request_leases e' = bt_remove (cl_request_id (lease rec)) (request_leases e)"
    and "pending_cancels e' = bt_remove lid (pending_cancels e)"
    and "group_permits e' = group_permits e" and "uuid_draws e' = uuid_draws e"
    and "\<exists>rt rt'. bt_get (credentials e) (cl_credential_id (lease rec)) = Some rt \<and> release_runtime (lease rec) rt = Some rt' \<and>
      credentials e' = bt_modify (cl_credential_id (lease rec)) (\<lambda>_. rt') (credentials e)"
proof -
  note concl = that and D = engine_okD [OF assms(1)]
  let ?l = "lease rec" and ?ls = "bt_remove lid (leases e)"
  let ?e1 = "e\<lparr>leases := ?ls, request_leases := bt_remove (cl_request_id ?l) (request_leases e),
      pending_cancels := bt_remove lid (pending_cancels e)\<rparr>"
  have bls: "bt_wf (leases e)" using D(2) by (simp add: leases_wf_def)
  obtain rt where rt: "bt_get (credentials e) (cl_credential_id ?l) = Some rt"
    using D(1) assms(2) unfolding creds_wf_def by blast
  have "unat (inflight rt) \<noteq> 0"
    using D(1) rt bt_count_remove [OF bls assms(2), where P = "\<lambda>_ r. cl_credential_id (lease r) = cl_credential_id ?l"]
    by (auto simp: creds_wf_def)
  then obtain rt' where rt': "release_runtime ?l rt = Some rt'" "unat (inflight rt) = Suc (unat (inflight rt'))"
    "cc_id (rt_config rt') = cc_id (rt_config rt)" "cc_concurrency_limit (rt_config rt') = cc_concurrency_limit (rt_config rt)"
    using release_runtime_Some by metis
  let ?cr = "bt_modify (cl_credential_id ?l) (\<lambda>_. rt') (credentials e)"
  let ?e2 = "?e1\<lparr>credentials := ?cr\<rparr>"
  note W = creds_wf_release [OF D(1) bls assms(2) rt rt'(2-4)] leases_wf_release [OF D(2) assms(2)]
    owner_wf_release [OF D(5), of "cl_request_id ?l" lid]
  have main: thesis
    if S: "release_lease (generation e) lid now e =
        (Inr Released, record_event (cl_request_id ?l) CredentialLeaseResource (as_str lid) Release now e3)"
      and F: "leases e3 = leases ?e2" "request_leases e3 = request_leases ?e2" "pending_cancels e3 = pending_cancels ?e2"
        "credentials e3 = credentials ?e2" "queue e3 = queue e" "waiting e3 = waiting e" "seen_requests e3 = seen_requests e"
        "group_permits e3 = group_permits e" "uuid_draws e3 = uuid_draws e" "event_sequence e3 = event_sequence e"
        "resource_balance e3 = resource_balance e"
      and C: "claims_wf (session_claims e3) ?ls" "length (session_claims e3) = length (session_claims e)" for e3
  proof (rule concl [OF S])
    have "ledger_ok (g + 1) e3"
      by (rule ledger_shift [OF D(6)]) (use length_bt_remove [OF bls assms(2)] C(2) F in \<open>simp_all add: held_def\<close>)
    then have "ledger_ok g (record_event (cl_request_id ?l) CredentialLeaseResource (as_str lid) Release now e3)"
      by (rule ledger_release [rotated]) simp
    moreover have "engine_wf uuid X e3" using W C(1) D(4) F by (simp add: engine_wf_def)
    ultimately show "engine_ok uuid X g (record_event (cl_request_id ?l) CredentialLeaseResource (as_str lid) Release now e3)"
      by (simp add: engine_ok_def)
    show "\<exists>rt rt'. bt_get (credentials e) (cl_credential_id ?l) = Some rt \<and> release_runtime ?l rt = Some rt' \<and>
      credentials (record_event (cl_request_id ?l) CredentialLeaseResource (as_str lid) Release now e3) =
        bt_modify (cl_credential_id ?l) (\<lambda>_. rt') (credentials e)"
      using rt rt'(1) F(4) by auto
  qed (use F in simp_all)
  show thesis
  proof (cases "session_claim_key rec")
    case None
    have "release_lease (generation e) lid now e =
        (Inr Released, record_event (cl_request_id ?l) CredentialLeaseResource (as_str lid) Release now ?e2)"
      using None rt rt'(1) assms(2) by (simp add: release_lease_def Let_def)
    from main [OF this] claims_wf_release_None [OF D(3) bls assms(2) None] show thesis by simp
  next
    case (Some key)
    then obtain c where c: "bt_get (session_claims e) key = Some c"
      using D(3) assms(2) unfolding claims_wf_def by blast
    have "unat (active_requests c) \<noteq> 0"
      using claims_wfD [OF D(3) c] Some bt_count_remove [OF bls assms(2), where P = "\<lambda>_ r. session_claim_key r = Some key"]
      by simp
    then obtain c' where c': "release_claim now c = Some c'" "unat (active_requests c) = Suc (unat (active_requests c'))"
      using release_claim_Some by metis
    let ?e3 = "?e2\<lparr>session_claims := bt_modify key (\<lambda>_. c') (session_claims e)\<rparr>"
    have "release_lease (generation e) lid now e =
        (Inr Released, record_event (cl_request_id ?l) CredentialLeaseResource (as_str lid) Release now ?e3)"
      using Some rt rt'(1) c c'(1) assms(2) by (simp add: release_lease_def Let_def)
    from main [OF this] claims_wf_release_Some [OF D(3) bls assms(2) Some c c'(2)] show thesis by simp
  qed
qed

lemma engine_ok_release:
  assumes "engine_ok uuid X g e" and "release_lease gen lid now e = (r, e')"
  shows "engine_ok uuid X g e'"
proof (cases "gen = generation e \<and> bt_get (leases e) lid \<noteq> None")
  case True
  then obtain rec where "gen = generation e" "bt_get (leases e) lid = Some rec" by auto
  with engine_ok_release_lease [OF assms(1), of lid rec now] assms(2) show ?thesis by (metis prod.inject)
next
  case False
  then have "e' = e" using assms(2) by (auto simp: release_lease_def split: if_splits)
  with assms(1) show ?thesis by simp
qed

lemma engine_ok_release_all: "engine_ok uuid X g e \<Longrightarrow> engine_ok uuid X g (release_all lids now e)"
  by (induction lids arbitrary: e) (auto intro: engine_ok_release [OF _ surjective_pairing])

lemma engine_ok_expire_cancel_grace: "engine_ok uuid X g e \<Longrightarrow> engine_ok uuid X g (expire_cancel_grace now e)"
  by (simp add: expire_cancel_grace_def engine_ok_release_all)

subsection \<open>Granting a lease\<close>

lemma length_bt_insert_old: "bt_wf m \<Longrightarrow> bt_get m k = Some v \<Longrightarrow> length (bt_insert k w m) = length m"
  by (induction m) (fastforce split: if_splits dest: map_of_SomeD)+

lemma leases_with_le:
  assumes "claims_wf claims ls" and "bt_wf ls"
  shows "leases_with key ls \<le> leases_of (fst key) ls"
proof -
  have "leases_with key ls = bt_count (\<lambda>_ r. session_claim_key r = Some key \<and> cl_credential_id (lease r) = fst key) ls"
    by (rule bt_count_cong) (metis assms bt_get_eq_Some claims_wf_leaseD)
  also have "\<dots> \<le> leases_of (fst key) ls" by (rule bt_count_mono) simp
  finally show ?thesis .
qed

lemma claims_wf_insert_None:
  assumes "claims_wf claims ls" and "bt_get ls lid = None" and "session_claim_key rec = None"
  shows "claims_wf claims (bt_insert lid rec ls)"
proof -
  have C: "leases_with k (bt_insert lid rec ls) = leases_with k ls" for k
    using bt_count_insert_new [OF assms(2), where P = "\<lambda>_ r. session_claim_key r = Some k"] assms(3) by simp
  show ?thesis
    using assms(1,3) unfolding claims_wf_def C by simp
qed

lemma claims_wf_insert_Some:
  assumes "claims_wf claims ls" and "bt_get ls lid = None" and "session_claim_key rec = Some key"
    and "fst key = cl_credential_id (lease rec)" and "unat (active_requests c) = Suc (leases_with key ls)"
  shows "claims_wf (bt_insert key c claims) (bt_insert lid rec ls)"
proof -
  have C: "leases_with k (bt_insert lid rec ls) = leases_with k ls + (if k = key then 1 else 0)" for k
    using bt_count_insert_new [OF assms(2), where P = "\<lambda>_ r. session_claim_key r = Some k"] assms(3) by auto
  show ?thesis
    unfolding claims_wf_def C
  proof (intro conjI allI impI)
    show "bt_wf (bt_insert key c claims)" using assms(1) by (simp add: claims_wf_def)
    show "unat (active_requests d) = leases_with k ls + (if k = key then 1 else 0)"
      if "bt_get (bt_insert key c claims) k = Some d" for k d
      using that assms(5) claims_wfD [OF assms(1)] by (auto split: if_splits)
    fix lid' r k assume r: "bt_get (bt_insert lid rec ls) lid' = Some r" and k: "session_claim_key r = Some k"
    have "r = rec \<or> bt_get ls lid' = Some r" using r by (auto split: if_splits)
    then have "k = key \<and> r = rec \<or> bt_get claims k \<noteq> None \<and> fst k = cl_credential_id (lease r)"
      using claims_wf_leaseD [OF assms(1) _ k] assms(3) k by auto
    then show "bt_get (bt_insert key c claims) k \<noteq> None" "fst k = cl_credential_id (lease r)"
      using assms(4) by auto
  qed
qed

lemma acquire_claim_cases:
  assumes "claims_wf (session_claims e) ls" and "bt_wf ls" and "bt_get ls lid = None"
    and "leases_of cid ls < 2 ^ 32 - 1" and "cl_credential_id (lease rec) = cid"
    and "acquire_session_claim entry cid e = ((session_claim_key rec, new_claim), e')"
  obtains claims where "e' = e\<lparr>session_claims := claims\<rparr>" and "claims_wf claims (bt_insert lid rec ls)"
    and "length claims = length (session_claims e) + (if new_claim = None then 0 else 1)"
proof (cases "is_some_and (bt_get (credentials e) cid) (\<lambda>rt. sc_enabled (session_capacity (rt_config rt)))")
  case False
  then have "session_claim_key rec = None" "new_claim = None" "e' = e"
    using assms(6) by (simp_all add: acquire_session_claim_def)
  then show thesis
    using that [of "session_claims e"] claims_wf_insert_None [OF assms(1,3)] by simp
next
  case True
  let ?key = "(cid, se_platform_key_id entry, se_base_session_id entry)"
  let ?found = "bt_get (session_claims e) ?key"
  let ?claim = "unwrap_or ?found \<lparr>active_requests = 0, idle_since = None, last_request_id = se_request_id entry,
      sc_resource_id = session_resource_id ?key\<rparr>"
  let ?claim' = "?claim\<lparr>active_requests := saturating_add (active_requests ?claim) 1,
      idle_since := None, last_request_id := se_request_id entry\<rparr>"
  have K: "session_claim_key rec = Some ?key" "new_claim = (case ?found of None \<Rightarrow> Some (session_resource_id ?key) | Some _ \<Rightarrow> None)"
      "e' = e\<lparr>session_claims := bt_insert ?key ?claim' (session_claims e)\<rparr>"
    using assms(6) True by (simp_all add: acquire_session_claim_def Let_def)
  have absent: "leases_with ?key ls = 0" if "?found = None"
    unfolding bt_count_eq_0 using that claims_wf_leaseD [OF assms(1)] bt_get_eq_Some [OF assms(2)] by fastforce
  have "unat (active_requests ?claim) = leases_with ?key ls"
    using claims_wfD [OF assms(1)] absent by (auto split: option.splits)
  moreover have "leases_with ?key ls < 2 ^ 32 - 1"
    using leases_with_le [OF assms(1,2), of ?key] assms(4) by simp
  ultimately have A: "unat (active_requests ?claim') = Suc (leases_with ?key ls)"
    by (simp add: unat_saturating_add)
  have bw: "bt_wf (session_claims e)" using assms(1) by (simp add: claims_wf_def)
  show thesis
  proof (rule that [OF K(3)])
    show "claims_wf (bt_insert ?key ?claim' (session_claims e)) (bt_insert lid rec ls)"
      using claims_wf_insert_Some [OF assms(1,3) K(1) _ A] assms(5) by simp
    show "length (bt_insert ?key ?claim' (session_claims e)) =
        length (session_claims e) + (if new_claim = None then 0 else 1)"
      using K(2) length_bt_insert length_bt_insert_old [OF bw] by (auto split: option.splits)
  qed
qed

lemma creds_wf_insert:
  assumes "creds_wf creds ls" and "bt_get ls lid = None" and "cl_credential_id (lease rec) = cid"
    and "bt_get creds cid = Some rt" and "unat (inflight rt') = Suc (unat (inflight rt))"
    and "cc_id (rt_config rt') = cc_id (rt_config rt)"
    and "cc_concurrency_limit (rt_config rt') = cc_concurrency_limit (rt_config rt)"
  shows "creds_wf (bt_modify cid (\<lambda>_. rt') creds) (bt_insert lid rec ls)"
proof -
  have C: "leases_of c (bt_insert lid rec ls) = leases_of c ls + (if c = cid then 1 else 0)" for c
    using bt_count_insert_new [OF assms(2), where P = "\<lambda>_ r. cl_credential_id (lease r) = c"] assms(3) by auto
  show ?thesis
    using assms unfolding creds_wf_def C by (auto split: if_splits)
qed

lemma leases_wf_insert:
  assumes "leases_wf uuid n ls rls pcs" and "bt_get ls lid = None" and "bt_get rls (cl_request_id (lease rec)) = None"
    and "cl_id (lease rec) = lid" and "lid = TypedId (''lease_'' @ uuid n)"
  shows "leases_wf uuid (Suc n) (bt_insert lid rec ls) (bt_insert (cl_request_id (lease rec)) lid rls) pcs"
  unfolding leases_wf_def
proof (intro conjI allI impI)
  show "bt_wf (bt_insert lid rec ls)" "bt_wf (bt_insert (cl_request_id (lease rec)) lid rls)" "bt_wf pcs"
    using assms by (simp_all add: leases_wf_def)
next
  fix lid' r assume r: "bt_get (bt_insert lid rec ls) lid' = Some r"
  note L = leases_wfD [OF assms(1)]
  show "cl_id (lease r) = lid'" using r assms(4) L(4) by (auto split: if_splits)
  show "bt_get (bt_insert (cl_request_id (lease rec)) lid rls) (cl_request_id (lease r)) = Some lid'"
    using r assms(3) L(4) [of lid' r] by (auto split: if_splits)
  show "\<exists>k<Suc n. lid' = TypedId (''lease_'' @ uuid k)"
    using r assms(5) L(5) [of lid' r] by (metis bt_get_insert fun_upd_apply lessI less_SucI)
next
  fix rid lid' assume r: "bt_get (bt_insert (cl_request_id (lease rec)) lid rls) rid = Some lid'"
  show "\<exists>r. bt_get (bt_insert lid rec ls) lid' = Some r \<and> cl_request_id (lease r) = rid"
    using r assms(2) leases_wfD(6) [OF assms(1), of rid lid'] by (cases "rid = cl_request_id (lease rec)") auto
next
  fix lid' d assume "bt_get pcs lid' = Some d"
  then show "bt_get (bt_insert lid rec ls) lid' \<noteq> None"
    using leases_wfD(7) [OF assms(1)] by simp
qed

lemma fresh_lease_id:
  assumes "leases_wf uuid n ls rls pcs" and "uuid_ok uuid N" and "n < N"
  shows "bt_get ls (TypedId (''lease_'' @ uuid n)) = None"
proof (rule ccontr)
  assume "bt_get ls (TypedId (''lease_'' @ uuid n)) \<noteq> None"
  then obtain r where "bt_get ls (TypedId (''lease_'' @ uuid n)) = Some r" by auto
  then obtain k where "k < n" "(TypedId (''lease_'' @ uuid n) :: LeaseId) = TypedId (''lease_'' @ uuid k)"
    using assms(1) unfolding leases_wf_def by blast
  then have "uuid n = uuid k" "k < N" "n < N" "k \<noteq> n" using assms(3) by auto
  with assms(2) show False by (auto simp: uuid_ok_def inj_on_def)
qed

lemma owner_wf_grant:
  assumes "owner_wf seen ws rls permits pcs" and "rid \<in> seen" and "bt_get ws rid = None"
    and "bt_get pcs lid = None" and "permits' = permits \<or> permits' = insert rid permits"
    and "bt_get rls rid = None"
  shows "owner_wf seen ws (bt_insert rid lid rls) permits' pcs"
  using assms by (auto simp: owner_wf_def)

lemma ledger_acquire_if:
  "ledger_ok (g - (if b then 1 else 0)) e \<Longrightarrow> ledger_ok g (if b then record_event rid k i Acquire now e else e)"
  by (auto intro: ledger_acquire)

lemma ledger_acquire_opt:
  "ledger_ok (g - (if x = None then 0 else 1)) e \<Longrightarrow>
   ledger_ok g (case x of None \<Rightarrow> e | Some i \<Rightarrow> record_event rid k i Acquire now e)"
  by (auto intro: ledger_acquire split: option.splits)

lemma install_lease_ok:
  assumes e: "engine_wf uuid X e" "ledger_ok g e" "creds_wf creds (bt_insert (cl_id l) rec (leases e))"
      "draws = uuid_draws e"
    and rec: "rec = \<lparr>lease = l, session_claim_key = key\<rparr>" "cl_request_id l = se_request_id entry"
      "bt_get (leases e) (cl_id l) = None" "cl_id l = TypedId (''lease_'' @ uuid draws)"
    and rid: "se_request_id entry \<in> seen_requests e" "bt_get (waiting e) (se_request_id entry) = None"
      "bt_get (request_leases e) (se_request_id entry) = None" "acq \<longrightarrow> se_request_id entry \<notin> group_permits e"
    and lim: "leases_of (cl_credential_id l) (leases e) < 2 ^ 32 - 1"
    and claim: "acquire_session_claim entry (cl_credential_id l) (e\<lparr>credentials := creds, uuid_draws := Suc draws\<rparr>) = ((key, new_claim), e1)"
  shows "engine_ok uuid X g (install_lease entry l now acq (e\<lparr>credentials := creds, uuid_draws := Suc draws\<rparr>))"
proof -
  let ?e0 = "e\<lparr>credentials := creds, uuid_draws := Suc draws\<rparr>" and ?rid = "se_request_id entry"
  have W: "leases_wf uuid draws (leases e) (request_leases e) (pending_cancels e)" "claims_wf (session_claims e) (leases e)"
    "queue_wf X (queue e) (waiting e)" "owner_wf (seen_requests e) (waiting e) (request_leases e) (group_permits e) (pending_cancels e)"
    using e by (simp_all add: engine_wf_def)
  have pc: "bt_get (pending_cancels e) (cl_id l) = None"
    using leases_wfD(7) [OF W(1)] rec(3) by (metis not_None_eq)
  obtain claims where c: "e1 = ?e0\<lparr>session_claims := claims\<rparr>" "claims_wf claims (bt_insert (cl_id l) rec (leases e))"
    "length claims = length (session_claims e) + (if new_claim = None then 0 else 1)"
    using acquire_claim_cases [where e = ?e0 and rec = rec and ls = "leases e" and lid = "cl_id l" and
        cid = "cl_credential_id l" and entry = entry and e' = e1 and new_claim = new_claim]
      W(2) leases_wfD(1) [OF W(1)] rec lim claim by simp metis
  let ?permits = "if acq then insert ?rid (group_permits e) else group_permits e"
  let ?e2 = "e1\<lparr>leases := bt_insert (cl_id l) rec (leases e1), request_leases := bt_insert ?rid (cl_id l) (request_leases e1),
      group_permits := (if acq then insert ?rid (group_permits e1) else group_permits e1),
      group_rate_admitted := group_rate_admitted e1 - {?rid}\<rparr>"
  let ?e3 = "if acq then record_event ?rid GroupPermit ''group-permit'' Acquire now ?e2 else ?e2"
  let ?e4 = "case new_claim of None \<Rightarrow> ?e3 | Some i \<Rightarrow> record_event ?rid SessionClaimResource i Acquire now ?e3"
  have I: "install_lease entry l now acq ?e0 = record_event ?rid CredentialLeaseResource (as_str (cl_id l)) Acquire now ?e4"
    unfolding rec(1) using claim by (simp add: install_lease_def Let_def)
  have fin: "finite (group_permits e)" using W(4) by (simp add: owner_wf_def)
  have "ledger_ok (g - 1 - (if new_claim = None then 0 else 1) - (if acq then 1 else 0)) ?e2"
    by (rule ledger_shift [OF e(2)])
      (use c length_bt_insert [OF rec(3)] rid(4) fin in \<open>simp_all add: held_def\<close>)
  then have L: "ledger_ok g (install_lease entry l now acq ?e0)"
    unfolding I by (intro ledger_acquire ledger_acquire_opt ledger_acquire_if)
  have "leases_wf uuid (Suc draws) (bt_insert (cl_id l) rec (leases e)) (bt_insert ?rid (cl_id l) (request_leases e)) (pending_cancels e)"
    using leases_wf_insert [OF W(1), of "cl_id l" rec] rec rid(3) by simp
  moreover have "owner_wf (seen_requests e) (waiting e) (bt_insert ?rid (cl_id l) (request_leases e)) ?permits (pending_cancels e)"
    using owner_wf_grant [OF W(4) rid(1,2) pc _ rid(3)] by simp
  ultimately have "engine_wf uuid X ?e2" using e(3) c W(3) by (cases acq) (simp_all add: engine_wf_def)
  then have "engine_wf uuid X (install_lease entry l now acq ?e0)"
    unfolding I by (cases acq; cases new_claim) simp_all
  with L show ?thesis by (simp add: engine_ok_def)
qed

lemma install_lease_draws [simp]: "uuid_draws (install_lease entry l now acq e) = uuid_draws e"
  by (auto simp: install_lease_def acquire_session_claim_def Let_def split: prod.splits option.splits)

lemma grant_draws:
  "grant uuid entry cid now acq e = (r, e') \<Longrightarrow> uuid_draws e' = uuid_draws e \<or> uuid_draws e' = Suc (uuid_draws e)"
  by (auto simp: grant_def Let_def split: option.splits prod.splits sum.splits)

lemma engine_ok_grant:
  assumes U: "uuid_ok uuid N" and E: "engine_ok uuid X g e"
    and rid: "se_request_id entry \<in> seen_requests e" "bt_get (waiting e) (se_request_id entry) = None"
      "bt_get (request_leases e) (se_request_id entry) = None" "acq \<longrightarrow> se_request_id entry \<notin> group_permits e"
    and G: "grant uuid entry cid now acq e = (r, e')" and N: "uuid_draws e' \<le> N"
  shows "engine_ok uuid X g e'"
proof (cases "bt_get (credentials e) cid")
  case None
  with G E show ?thesis by (simp add: grant_def)
next
  case (Some rt)
  note D = engine_okD [OF E]
  obtain res rt' where C: "charge_runtime (config e) entry now rt = (res, rt')" by fastforce
  obtain st where st: "rt_config rt' = (rt_config rt)\<lparr>cc_state := st\<rparr>" using charge_runtime_config [OF C] by blast
  let ?cr = "bt_modify cid (\<lambda>_. rt') (credentials e)"
  show ?thesis
  proof (cases res)
    case None
    have "e' = e\<lparr>credentials := ?cr\<rparr>" using G Some C None by (simp add: grant_def)
    moreover have "creds_wf ?cr (leases e)"
      by (rule creds_wf_modify [OF D(1)])
        (use creds_wfD [OF D(1) Some] st charge_runtime_None [OF C [unfolded None]] Some in simp)
    ultimately show ?thesis using engine_ok_credentials [OF E] by simp
  next
    case res: (Some x)
    obtain ex half where x: "x = (ex, half)" by (cases x)
    note S = charge_runtime_Some [OF C [unfolded res]]
    have lim: "leases_of cid (leases e) < 2 ^ 32 - 1"
      using creds_wfD [OF D(1) Some] S unat_u32_less [of "cc_concurrency_limit (rt_config rt)"]
      by (simp add: word_less_nat_alt)
    let ?n = "uuid_draws e" and ?lid = "TypedId (''lease_'' @ uuid (uuid_draws e)) :: LeaseId"
    have nN: "?n < N"
      using N G Some C res x by (auto simp: grant_def Let_def split: sum.splits)
    have T: "(TypedId_new (''lease_'' @ uuid ?n) :: LeaseId DomainResult) = Inr ?lid"
      by (rule uuid_ok_TypedId [OF U nN]) simp_all
    define l where "l = \<lparr>cl_id = ?lid, cl_request_id = se_request_id entry, cl_credential_id = cid,
        cl_client_os = se_client_os entry, owner_generation = generation e,
        cl_token_version = token_version (rt_config rt'), execution = ex, half_open = half\<rparr>"
    have e': "e' = install_lease entry l now acq (e\<lparr>credentials := ?cr, uuid_draws := Suc ?n\<rparr>)"
      using G Some C res x T by (simp add: grant_def l_def Let_def)
    obtain key new_claim e1 where A:
      "acquire_session_claim entry (cl_credential_id l) (e\<lparr>credentials := ?cr, uuid_draws := Suc ?n\<rparr>) = ((key, new_claim), e1)"
      by (metis prod.collapse)
    have fresh: "bt_get (leases e) ?lid = None" by (rule fresh_lease_id [OF D(2) U nN])
    have "creds_wf ?cr (bt_insert ?lid \<lparr>lease = l, session_claim_key = key\<rparr> (leases e))"
      by (rule creds_wf_insert [OF D(1) fresh _ Some]) (use S st in \<open>simp_all add: l_def\<close>)
    then show ?thesis unfolding e'
      by (intro install_lease_ok [OF _ _ _ _ _ _ _ _ rid _ A])
        (use E fresh lim in \<open>simp_all add: l_def engine_ok_def\<close>)
  qed
qed

subsection \<open>Expiry\<close>

lemma drop_claims_frame:
  "same_frame e (drop_claims ks now e) \<and> uuid_draws (drop_claims ks now e) = uuid_draws e \<and>
   leases (drop_claims ks now e) = leases e \<and> credentials (drop_claims ks now e) = credentials e \<and>
   request_leases (drop_claims ks now e) = request_leases e \<and> group_permits (drop_claims ks now e) = group_permits e"
proof (induction ks arbitrary: e)
  case Nil
  then show ?case by simp
next
  case (Cons k ks)
  obtain key rid i where k: "k = (key, rid, i)" by (cases k)
  show ?case
    using Cons.IH [of "record_event rid SessionClaimResource i Release now (e\<lparr>session_claims := bt_remove key (session_claims e)\<rparr>)"]
    by (simp add: k same_frame_def)
qed

lemma claims_wf_remove_idle:
  assumes "claims_wf claims ls" and "bt_wf ls" and "bt_get claims key = Some c" and "active_requests c = 0"
  shows "claims_wf (bt_remove key claims) ls"
proof -
  have "leases_with key ls = 0" using claims_wfD [OF assms(1,3)] assms(4) by simp
  then have "session_claim_key r \<noteq> Some key" if "bt_get ls lid = Some r" for lid r
    unfolding bt_count_eq_0 using that bt_get_eq_Some [OF assms(2)] by fastforce
  with assms(1) show ?thesis
    unfolding claims_wf_def by auto
qed

lemma engine_ok_drop_claims:
  assumes "engine_ok uuid X g e" and "distinct (map fst ks)"
    and "\<And>key rid i. (key, rid, i) \<in> set ks \<Longrightarrow> \<exists>c. bt_get (session_claims e) key = Some c \<and> active_requests c = 0"
  shows "engine_ok uuid X g (drop_claims ks now e)"
  using assms
proof (induction ks arbitrary: e)
  case Nil
  then show ?case by simp
next
  case (Cons k ks)
  obtain key rid i where k: "k = (key, rid, i)" by (cases k)
  note D = engine_okD [OF Cons.prems(1)]
  obtain c where c: "bt_get (session_claims e) key = Some c" "active_requests c = 0"
    using Cons.prems(3) [of key rid i] k by auto
  have bw: "bt_wf (session_claims e)" "bt_wf (leases e)" using D(2,3) by (simp_all add: claims_wf_def leases_wf_def)
  let ?e1 = "e\<lparr>session_claims := bt_remove key (session_claims e)\<rparr>"
  let ?e2 = "record_event rid SessionClaimResource i Release now ?e1"
  have "ledger_ok (g + 1) ?e1"
    by (rule ledger_shift [OF D(6)]) (use length_bt_remove [OF bw(1) c(1)] in \<open>simp_all add: held_def\<close>)
  then have "ledger_ok g ?e2" by (rule ledger_release [rotated]) simp
  moreover have "engine_wf uuid X ?e2"
    using D claims_wf_remove_idle [OF D(3) bw(2) c] by (simp add: engine_wf_def)
  ultimately have "engine_ok uuid X g ?e2" by (simp add: engine_ok_def)
  then show ?case
    using Cons.IH [of ?e2] Cons.prems(2,3) by (force simp: k)
qed

lemma settle_half_open_fields [simp]:
  "rt_config (settle_half_open cfg rt) = rt_config rt" "inflight (settle_half_open cfg rt) = inflight rt"
  "bucket (settle_half_open cfg rt) = bucket rt" "admin_fenced (settle_half_open cfg rt) = admin_fenced rt"
  by (simp_all add: settle_half_open_def)

lemma distinct_map_filter_fst: "distinct (map fst xs) \<Longrightarrow> distinct (map fst (filter P xs))"
  by (induction xs) auto

lemma engine_ok_prune:
  assumes "engine_ok uuid X g e"
  shows "engine_ok uuid X g (prune now e)"
proof -
  let ?e1 = "e\<lparr>affinities := bt_retain (\<lambda>_ a. now < expires_at a) (affinities e)\<rparr>"
  let ?ks = "map (\<lambda>(key, claim). (key, last_request_id claim, sc_resource_id claim))
      (bt_retain (claim_expired (credentials ?e1) now) (session_claims ?e1))"
  have bw: "bt_wf (session_claims e)" using engine_okD(3) [OF assms] by (simp add: claims_wf_def)
  have d: "distinct (map fst ?ks)"
    using distinct_map_filter_fst [OF bt_wf_distinct [OF bw], of "\<lambda>(k, v). claim_expired (credentials e) now k v"]
    by (simp add: bt_retain_def comp_def case_prod_unfold)
  have "engine_ok uuid X g (drop_claims ?ks now ?e1)"
  proof (rule engine_ok_drop_claims [OF _ d])
    show "engine_ok uuid X g ?e1" using assms by simp
    fix key rid i assume "(key, rid, i) \<in> set ?ks"
    then obtain c where "(key, c) \<in> set (session_claims e)" "claim_expired (credentials e) now key c"
      by (auto simp: bt_retain_def)
    then show "\<exists>c. bt_get (session_claims ?e1) key = Some c \<and> active_requests c = 0"
      using bt_get_eq_Some [OF bw] by (auto simp: claim_expired_def)
  qed
  then show ?thesis
    using engine_ok_credentials [OF _ creds_wf_map [OF engine_okD(1)]]
    unfolding prune_def Let_def by simp
qed

lemma prune_frame:
  "identity (prune now e) = identity e" "lifecycle (prune now e) = lifecycle e" "config (prune now e) = config e"
  "group_bucket (prune now e) = group_bucket e" "queue (prune now e) = queue e" "waiting (prune now e) = waiting e"
  "leases (prune now e) = leases e" "request_leases (prune now e) = request_leases e"
  "group_permits (prune now e) = group_permits e" "seen_requests (prune now e) = seen_requests e"
  "uuid_draws (prune now e) = uuid_draws e"
  using drop_claims_frame by (simp_all add: prune_def Let_def same_frame_def)

lemma expire_each_ok:
  "engine_ok uuid {#} g e \<Longrightarrow> expire_each rs now e = (out, e') \<Longrightarrow>
   engine_ok uuid {#} g e' \<and> uuid_draws e' = uuid_draws e"
proof (induction rs arbitrary: e out)
  case Nil
  then show ?case by simp
next
  case (Cons x rs)
  obtain rid kind where x: "x = (rid, kind)" by (cases x)
  let ?e2 = "forget_rate rid (drop_waiting rid Release now (e\<lparr>queue := snd (FairQueue_remove rid (queue e))\<rparr>))"
  have "engine_ok uuid {#} g ?e2" using engine_ok_withdraw [OF Cons.prems(1), of Release] by simp
  from Cons.IH [OF this] show ?case
    using Cons.prems(2) by (auto simp: x Let_def split: prod.splits)
qed

lemma expire_waiters_ok:
  "engine_ok uuid {#} g e \<Longrightarrow> expire_waiters now e = (out, e') \<Longrightarrow>
   engine_ok uuid {#} g e' \<and> uuid_draws e' = uuid_draws e"
  unfolding expire_waiters_def by (rule expire_each_ok)

lemma release_lease_draws: "release_lease gen lid now e = (r, e') \<Longrightarrow> uuid_draws e' = uuid_draws e"
  by (auto simp: release_lease_def Let_def split: option.splits if_splits)

lemma release_all_draws: "uuid_draws (release_all lids now e) = uuid_draws e"
  by (induction lids arbitrary: e) (auto simp: release_lease_draws [OF surjective_pairing])

lemma expire_cancel_grace_draws [simp]: "uuid_draws (expire_cancel_grace now e) = uuid_draws e"
  by (simp add: expire_cancel_grace_def release_all_draws)

subsection \<open>One turn of the pump\<close>

lemma pump_runnable_creds:
  "creds_wf (snd (snd s)) ls \<Longrightarrow> creds_wf (snd (snd (snd (pump_runnable affs claims cfg now entry s)))) ls"
  using creds_wf_settled
  by (auto simp: pump_runnable_def evaluate_pool_fields_snd [symmetric] split: prod.splits bool.splits)
    (metis creds_wf_settled evaluate_pool_fields_snd snd_conv)

text \<open>An entry accepted by the pump's predicate has expired, or evaluates to a candidate in the
  state the predicate left behind.\<close>

lemma pump_runnable_accepts:
  assumes "pump_runnable affs claims cfg now entry s0 = (True, gb, admitted, creds)"
  shows "pre_upstream_deadline entry \<le> now \<or>
    (\<exists>cid. evaluate_pool_fields creds affs claims cfg entry now = (Candidate cid, creds))"
proof (cases "pre_upstream_deadline entry \<le> now")
  case False
  obtain gb0 ad0 creds0 where s0: "s0 = (gb0, ad0, creds0)" by (cases s0)
  let ?E = "evaluate_pool_fields creds0 affs claims cfg entry now"
  obtain cid where "fst ?E = Candidate cid" "creds = snd ?E"
    using assms False by (auto simp: pump_runnable_def s0 split: prod.splits bool.splits PoolEvaluation.splits)
  then show ?thesis
    using evaluate_pool_fields_idem [of creds0 affs claims cfg entry now] by (metis prod.collapse)
qed simp

text \<open>What one turn does under the invariant: it stops with the tables untouched except for
  buckets and ring positions, or it takes one entry off the queue and answers exactly that
  request, with a timeout or with a lease. The fallback of the source that pushes the entry
  back is never taken.
\<close>

lemma pump_turn_cases:
  assumes E: "engine_ok uuid {#} g e" and T: "pump_turn uuid now e = (r, e')"
  obtains (stop) "r = None" and "engine_ok uuid {#} g e'" and "uuid_draws e' = uuid_draws e"
      and "queue_entries (queue e') = queue_entries (queue e)" and "waiting e' = waiting e"
      and "group_permits e' = group_permits e"
  | (timeout) entry where "r = Some [\<lparr>qr_request_id = se_request_id entry, decision = rejected TimedOut (Some (from_secs 5))\<rparr>]"
      and "pre_upstream_deadline entry \<le> now"
      and "queue_entries (queue e) = add_mset entry (queue_entries (queue e'))"
      and "engine_ok uuid {#} g e'" and "uuid_draws e' = uuid_draws e"
      and "group_permits e' = group_permits e"
  | (serve) entry cid res e3 where "grant uuid entry cid now True e3 = (res, e')"
      and "r = Some [\<lparr>qr_request_id = se_request_id entry,
             decision = (case res of Inl _ \<Rightarrow> rejected GroupUnavailable None | Inr l \<Rightarrow> Granted l)\<rparr>]"
      and "queue_entries (queue e) = add_mset entry (queue_entries (queue e3))" and "engine_ok uuid {#} g e3" and "uuid_draws e3 = uuid_draws e"
      and "se_request_id entry \<in> seen_requests e3" and "bt_get (waiting e3) (se_request_id entry) = None"
      and "bt_get (request_leases e3) (se_request_id entry) = None" and "se_request_id entry \<notin> group_permits e3"
      and "group_permits e3 = group_permits e" and "card (group_permits e) < effective_concurrency e"
      and "fst (evaluate_pool_fields (credentials e3) (affinities e3) (session_claims e3) (config e3) entry now) = Candidate cid"
proof (cases "effective_concurrency e \<le> card (group_permits e)")
  case True
  then have "r = None" "e' = e" using T by (simp_all add: pump_turn_def)
  with E stop show thesis by simp
next
  case False
  note D = engine_okD [OF E]
  let ?R = "pump_runnable (affinities e) (session_claims e) (config e) now"
  let ?s = "(group_bucket e, group_rate_admitted e, credentials e)"
  obtain popped q gb ad cr where P: "FairQueue_pop_runnable ?R (queue e) ?s = (popped, q, gb, ad, cr)"
    by (metis prod_cases5)
  have I: "queue_inv (queue e)" using D(4) by (simp add: queue_wf_def)
  let ?e1 = "e\<lparr>queue := q, group_bucket := gb, group_rate_admitted := ad, credentials := cr\<rparr>"
  let ?e0 = "e\<lparr>queue := q, group_bucket := gb, group_rate_admitted := ad\<rparr>"
  let ?J = "\<lambda>s :: pump_state. creds_wf (snd (snd s)) (leases e)"
  have Jr: "?J (snd (?R en s))" if "?J s" for en s using pump_runnable_creds [OF that] .
  have J: "creds_wf cr (leases e)"
    and A: "popped = Some en \<longrightarrow> (\<exists>s0. ?J s0 \<and> ?R en s0 = (True, gb, ad, cr))" for en
    using fair_queue.pop_state [where J = ?J, OF I _ Jr P] D(1) by auto
  show thesis
  proof (cases popped)
    case None
    have q: "queue_inv q" "queue_entries q = queue_entries (queue e)"
      using fair_queue.pop_None [OF I P [unfolded None]] by blast+
    have Qw: "queue_wf {#} q (waiting e)" using D(4) q by (simp add: queue_wf_def)
    have "engine_ok uuid {#} g ?e1"
      using engine_ok_credentials [of uuid _ g ?e0 cr] engine_ok_queue [OF E Qw] J by simp
    moreover have "r = None" "e' = ?e1" using T False P None by (simp_all add: pump_turn_def)
    ultimately show thesis using stop q by simp
  next
    case (Some entry)
    let ?rid = "se_request_id entry"
    have q: "queue_inv q" "queue_entries (queue e) = add_mset entry (queue_entries q)"
      using fair_queue.pop_Some [OF I P [unfolded Some]] by blast+
    have Q1: "engine_ok uuid {#?rid#} g ?e1"
      using engine_ok_credentials [of uuid _ g ?e0 cr] engine_ok_queue [OF E queue_wf_pop [OF D(4) q]] J by simp
    obtain w where w: "bt_get (waiting e) ?rid = Some w"
      using queue_wf_waiting [OF engine_okD(4) [OF Q1], of ?rid] by auto
    let ?e2 = "drop_waiting ?rid Release now ?e1"
    have O2: "engine_ok uuid {#} g ?e2" by (rule engine_ok_drop_waiting [OF Q1]) simp
    have own: "?rid \<in> seen_requests e" "bt_get (request_leases e) ?rid = None" "?rid \<notin> group_permits e"
      using D(5) w by (auto simp: owner_wf_def)
    show thesis
    proof (cases "pre_upstream_deadline entry \<le> now")
      case True
      then have "r = Some [\<lparr>qr_request_id = ?rid, decision = rejected TimedOut (Some (from_secs 5))\<rparr>]"
          "e' = forget_rate ?rid ?e2"
        using T False P Some w by (simp_all add: pump_turn_def Let_def)
      with timeout [OF _ True] O2 q(2) show thesis by simp
    next
      case nd: False
      obtain s0 where "?R entry s0 = (True, gb, ad, cr)" using A Some by blast
      then obtain cid where C: "evaluate_pool_fields cr (affinities e) (session_claims e) (config e) entry now = (Candidate cid, cr)"
        using pump_runnable_accepts nd by blast
      have V: "evaluate_pool entry now ?e2 = (Candidate cid, ?e2\<lparr>credentials := cr\<rparr>)"
        by (simp add: evaluate_pool_def C)
      let ?e3 = "?e2\<lparr>credentials := cr\<rparr>"
      obtain res where G: "grant uuid entry cid now True ?e3 = (res, e')"
        and r: "r = Some [\<lparr>qr_request_id = ?rid,
             decision = (case res of Inl _ \<Rightarrow> rejected GroupUnavailable None | Inr l \<Rightarrow> Granted l)\<rparr>]"
        using T False P Some w nd V by (auto simp: pump_turn_def Let_def split: prod.splits)
      show thesis
        by (rule serve [OF G r])
          (use engine_ok_evaluate [OF O2 V] own w False C q(2) in \<open>simp_all add: not_le\<close>)
    qed
  qed
qed

end
