(* ===== verification/Engine_Sound.thy ===== *)
theory Engine_Sound
  imports Engine_Invariant
begin

text \<open>
  Every public operation of the engine keeps the resource invariant of
  \<^verbatim>\<open>Engine_Invariant\<close>, as long as the identifiers drawn are different
  (\<open>engine_sound\<close> asks for the invariant only while at most \<open>N\<close> identifiers have been
  drawn).
\<close>

definition engine_sound :: "(nat \<Rightarrow> string) \<Rightarrow> nat \<Rightarrow> int \<Rightarrow> SchedulerEngine \<Rightarrow> bool" where
  "engine_sound uuid N g e \<longleftrightarrow> (uuid_draws e \<le> N \<longrightarrow> engine_ok uuid {#} g e)"

lemma sound_step:
  assumes "engine_sound uuid N g e" and "uuid_draws e \<le> uuid_draws e'"
    and "engine_ok uuid {#} g e \<Longrightarrow> uuid_draws e' \<le> N \<Longrightarrow> engine_ok uuid {#} g' e'"
  shows "engine_sound uuid N g' e'"
  using assms by (simp add: engine_sound_def)

text \<open>A request none of the tables knows yet.\<close>

definition unowned :: "RequestId \<Rightarrow> SchedulerEngine \<Rightarrow> bool" where
  "unowned rid e \<longleftrightarrow> rid \<in> seen_requests e \<and> bt_get (waiting e) rid = None \<and>
     bt_get (request_leases e) rid = None \<and> rid \<notin> group_permits e"

lemma unowned_new:
  assumes "engine_ok uuid X g e" and "rid \<notin> seen_requests e"
  shows "unowned rid (e\<lparr>seen_requests := insert rid (seen_requests e)\<rparr>)"
  using engine_okD(5) [OF assms(1)] assms(2) by (auto simp: unowned_def owner_wf_def)

lemma unowned_cong:
  "seen_requests e' = seen_requests e \<Longrightarrow> waiting e' = waiting e \<Longrightarrow> request_leases e' = request_leases e \<Longrightarrow>
   group_permits e' = group_permits e \<Longrightarrow> unowned rid e' = unowned rid e"
  by (simp add: unowned_def)

subsection \<open>Admission\<close>

lemma enqueue_draws: "enqueue uuid entry now slot e = (r, e') \<Longrightarrow> uuid_draws e \<le> uuid_draws e'"
  by (auto simp: enqueue_def Let_def split: if_splits sum.splits)

lemma admit_pool_cases:
  assumes "admit_pool uuid entry now e = (r, e')"
  obtains (candidate) cid e1 r' where "evaluate_pool entry now e = (Candidate cid, e1)"
      and "grant uuid entry cid now True e1 = (r', e')" and "r = map_sum id Granted r'"
      and "card (group_permits e1) < effective_concurrency e1" and "fq_len (queue e1) = 0"
  | (queue) ev e1 slot where "evaluate_pool entry now e = (ev, e1)" and "enqueue uuid entry now slot e1 = (r, e')"
      and "ev \<noteq> DeterministicUnavailable"
  | (reject) ev e1 d where "evaluate_pool entry now e = (ev, e1)" and "r = Inr (Rejected d)"
      and "e' = forget_rate (se_request_id entry) e1"
proof -
  obtain ev e1 where ev: "evaluate_pool entry now e = (ev, e1)" by fastforce
  show thesis
    using assms candidate queue reject ev
    by (cases ev) (auto simp: admit_pool_def Let_def rejected_def split: if_splits prod.splits)
qed

lemma admit_pool_draws: "admit_pool uuid entry now e = (r, e') \<Longrightarrow> uuid_draws e \<le> uuid_draws e'"
  by (erule admit_pool_cases) (auto dest!: evaluate_pool_frame grant_draws enqueue_draws)

lemma admit_pool_ok:
  assumes U: "uuid_ok uuid N" and E: "engine_ok uuid {#} g e" and W: "unowned (se_request_id entry) e"
    and A: "admit_pool uuid entry now e = (r, e')" and N: "uuid_draws e' \<le> N"
  shows "engine_ok uuid {#} g e'"
proof -
  obtain ev e1 where ev: "evaluate_pool entry now e = (ev, e1)" by fastforce
  have E1: "engine_ok uuid {#} g e1" by (rule engine_ok_evaluate [OF E ev])
  obtain cr where e1: "e1 = e\<lparr>credentials := cr\<rparr>" using evaluate_pool_frame [OF ev] by blast
  have W1: "unowned (se_request_id entry) e1" using W by (simp add: e1 unowned_def)
  from A show ?thesis
  proof (cases rule: admit_pool_cases)
    case (candidate cid e1' r')
    then show ?thesis
      using engine_ok_grant [OF U E1 _ _ _ _ _ N, of entry True cid now] W1 ev by (simp add: unowned_def)
  next
    case (queue ev' e1' slot)
    then show ?thesis
      using engine_ok_enqueue [OF E1, of entry now slot r e'] W1 ev by (simp add: unowned_def)
  next
    case (reject ev' e1' d)
    with E1 ev show ?thesis by simp
  qed
qed

lemma admit_accepted_cases:
  assumes "admit_accepted uuid entry now e = (r, e')"
  defines "e1 \<equiv> prune now (e\<lparr>seen_requests := insert (se_request_id entry) (seen_requests e),
      request_portability := bt_insert (se_request_id entry) (portability (generic entry)) (request_portability e)\<rparr>)"
  obtains (pool) gb ra where "admit_pool uuid entry now (e1\<lparr>group_bucket := gb, group_rate_admitted := ra\<rparr>) = (r, e')"
  | (queue) gb where "enqueue uuid entry now None (e1\<lparr>group_bucket := gb\<rparr>) = (r, e')"
  | (reject) gb ra d where "r = Inr (Rejected d)" and "e' = e1\<lparr>group_bucket := gb, group_rate_admitted := ra\<rparr>"
proof (cases "group_bucket e1")
  case None
  have "admit_pool uuid entry now e1 = (r, e')"
    using assms(1) None by (simp add: admit_accepted_def e1_def [symmetric] Let_def)
  then show thesis using pool [where gb = "group_bucket e1" and ra = "group_rate_admitted e1"] by simp
next
  case (Some b)
  obtain ok b' where b': "try_consume b now = (ok, b')" by fastforce
  obtain retry b'' where b'': "retry_after b' now = (retry, b'')" by fastforce
  show thesis
  proof (cases ok)
    case True
    then show thesis
      using assms(1) Some b' pool by (simp add: admit_accepted_def e1_def [symmetric] Let_def)
  next
    case False
    then have "(r = Inr (rejected GroupRateDeadline (Some (from_secs 5))) \<and> e' = e1\<lparr>group_bucket := Some b''\<rparr>) \<or>
        (r = Inr (rejected QueueFull (Some retry)) \<and> e' = forget_rate (se_request_id entry) (e1\<lparr>group_bucket := Some b''\<rparr>)) \<or>
        enqueue uuid entry now None (e1\<lparr>group_bucket := Some b''\<rparr>) = (r, e')"
      using assms(1) Some b' b'' by (auto simp: admit_accepted_def e1_def [symmetric] Let_def split: if_splits)
    then show thesis
      using reject [where gb = "Some b''" and ra = "group_rate_admitted e1"]
        reject [where gb = "Some b''" and ra = "group_rate_admitted e1 - {se_request_id entry}"] queue
      by (auto simp: rejected_def forget_rate_def)
  qed
qed

lemma admit_accepted_draws: "admit_accepted uuid entry now e = (r, e') \<Longrightarrow> uuid_draws e \<le> uuid_draws e'"
  by (erule admit_accepted_cases) (auto simp: prune_frame dest!: admit_pool_draws enqueue_draws)

lemma admit_draws: "admit uuid gen entry now e = (r, e') \<Longrightarrow> uuid_draws e \<le> uuid_draws e'"
  by (auto simp: admit_def split: if_splits dest!: admit_accepted_draws)

lemma admit_ok:
  assumes U: "uuid_ok uuid N" and E: "engine_ok uuid {#} g e"
    and A: "admit uuid gen entry now e = (r, e')" and N: "uuid_draws e' \<le> N"
  shows "engine_ok uuid {#} g e'"
proof (cases "e' = e")
  case False
  then have acc: "admit_accepted uuid entry now e = (r, e')" and new: "se_request_id entry \<notin> seen_requests e"
    using A by (auto simp: admit_def split: if_splits)
  let ?rid = "se_request_id entry"
  let ?e0 = "e\<lparr>seen_requests := insert ?rid (seen_requests e),
      request_portability := bt_insert ?rid (portability (generic entry)) (request_portability e)\<rparr>"
  let ?e1 = "prune now ?e0"
  have E1: "engine_ok uuid {#} g ?e1" using engine_ok_prune [of uuid "{#}" g ?e0] engine_ok_seen [OF E] by simp
  have W1: "unowned ?rid ?e1"
    using unowned_new [OF E new] by (simp add: unowned_def prune_frame)
  from acc show ?thesis
  proof (cases rule: admit_accepted_cases)
    case (pool gb ra)
    show ?thesis by (rule admit_pool_ok [OF U _ _ pool N]) (use E1 W1 in \<open>simp_all add: unowned_def\<close>)
  next
    case (queue gb)
    show ?thesis by (rule engine_ok_enqueue [OF _ _ _ _ _ queue]) (use E1 W1 in \<open>simp_all add: unowned_def\<close>)
  next
    case (reject gb ra d)
    with E1 show ?thesis by simp
  qed
qed (use E in simp)

subsection \<open>The pump\<close>

lemma expire_each_draws: "expire_each rs now e = (out, e') \<Longrightarrow> uuid_draws e' = uuid_draws e"
  by (induction rs arbitrary: e out) (auto simp: Let_def split: prod.splits)

lemma pump_turn_draws: "pump_turn uuid now e = (r, e') \<Longrightarrow> uuid_draws e \<le> uuid_draws e'"
  by (auto simp: pump_turn_def Let_def split: if_splits option.splits prod.splits PoolEvaluation.splits
      dest!: evaluate_pool_frame grant_draws)

lemma pump_turn_ok:
  assumes U: "uuid_ok uuid N" and E: "engine_ok uuid {#} g e"
    and T: "pump_turn uuid now e = (r, e')" and N: "uuid_draws e' \<le> N"
  shows "engine_ok uuid {#} g e'"
  using E T
proof (cases rule: pump_turn_cases)
  case (serve entry cid res e3)
  then show ?thesis using engine_ok_grant [OF U _ _ _ _ _ _ N] by blast
qed

lemma pump_turn_sound:
  "uuid_ok uuid N \<Longrightarrow> engine_sound uuid N g e \<Longrightarrow> pump_turn uuid now e = (r, e') \<Longrightarrow> engine_sound uuid N g e'"
  using pump_turn_ok pump_turn_draws sound_step by metis

lemma pump_loop_sound:
  "uuid_ok uuid N \<Longrightarrow> engine_sound uuid N g e \<Longrightarrow> pump_loop uuid now e = (rs, e') \<Longrightarrow>
   engine_sound uuid N g e' \<and> uuid_draws e \<le> uuid_draws e'"
proof (induction uuid now e arbitrary: rs rule: pump_loop.induct)
  case (1 uuid now e)
  obtain t e1 where T: "pump_turn uuid now e = (t, e1)" by fastforce
  note S = pump_turn_sound [OF "1.prems"(1,2) T] pump_turn_draws [OF T]
  show ?case
  proof (cases t)
    case None
    with S T "1.prems"(3) show ?thesis by (simp add: pump_loop.simps [of uuid now e])
  next
    case (Some xs)
    obtain rest where "pump_loop uuid now e1 = (rest, e')"
      using "1.prems"(3) T Some by (auto simp: pump_loop.simps [of uuid now e] split: prod.splits)
    with "1.IH" [OF T [symmetric] Some "1.prems"(1) S(1)] S(2) show ?thesis by fastforce
  qed
qed

lemma pump_sound:
  assumes U: "uuid_ok uuid N" and S: "engine_sound uuid N g e" and P: "pump uuid gen now e = (rs, e')"
  shows "engine_sound uuid N g e' \<and> uuid_draws e \<le> uuid_draws e'"
proof (cases "gen \<noteq> generation e \<or> lifecycle e \<noteq> Serving")
  case True
  with P S show ?thesis by (simp add: pump_def)
next
  case False
  let ?e0 = "prune now (expire_cancel_grace now e)"
  obtain expired e1 where X: "expire_waiters now ?e0 = (expired, e1)" by fastforce
  obtain resolved where L: "pump_loop uuid now e1 = (resolved, e')"
    using P False X by (auto simp: pump_def split: prod.splits)
  have draws: "uuid_draws e1 = uuid_draws e"
    using expire_each_draws X unfolding expire_waiters_def by (metis (lifting) expire_cancel_grace_draws prune_frame(11))
  have "engine_sound uuid N g e1"
    by (rule sound_step [OF S]) (use draws expire_waiters_ok [OF engine_ok_prune [OF engine_ok_expire_cancel_grace] X] in auto)
  from pump_loop_sound [OF U this L] draws show ?thesis by simp
qed

subsection \<open>Cancellation and completion\<close>

lemma engine_ok_pending:
  assumes "engine_ok uuid X g e" and "bt_get (request_leases e) rid = Some lid" and "rid \<notin> group_permits e"
  shows "engine_ok uuid X g (e\<lparr>pending_cancels := bt_insert lid d (pending_cancels e)\<rparr>)"
proof -
  note D = engine_okD [OF assms(1)]
  obtain r where r: "bt_get (leases e) lid = Some r" "cl_request_id (lease r) = rid"
    using leases_wfD(6) [OF D(2) assms(2)] by blast
  have "leases_wf uuid (uuid_draws e) (leases e) (request_leases e) (bt_insert lid d (pending_cancels e))"
    using D(2) r(1) by (auto simp: leases_wf_def)
  moreover have "rid' = rid" if "bt_get (request_leases e) rid' = Some lid" for rid'
    using leases_wfD(6) [OF D(2) that] r by auto
  then have "owner_wf (seen_requests e) (waiting e) (request_leases e) (group_permits e) (bt_insert lid d (pending_cancels e))"
    using D(5) assms(3) by (auto simp: owner_wf_def)
  ultimately show ?thesis using assms(1) by (simp add: engine_ok_defs)
qed

lemma engine_ok_cancel:
  assumes "engine_ok uuid {#} g e" and "cancel gen rid now e = (r, e')"
  shows "engine_ok uuid {#} g e' \<and> uuid_draws e' = uuid_draws e"
proof (cases "gen = generation e")
  case gen: True
  show ?thesis
  proof (cases "bt_get (waiting e) rid")
    case (Some w)
    have "e' = forget_rate rid (drop_waiting rid Release now (e\<lparr>queue := snd (FairQueue_remove rid (queue e))\<rparr>))"
      using assms(2) gen Some
      by (cases e) (simp add: cancel_def drop_waiting_def forget_rate_def record_event_def Let_def)
    with engine_ok_withdraw [OF assms(1), of Release] show ?thesis by simp
  next
    case None
    let ?e1 = "if rid \<in> group_permits e then snd (release_group_permit rid Release now e) else e"
    have E1: "engine_ok uuid {#} g ?e1"
      using engine_ok_release_permit [OF assms(1) _ surjective_pairing, of Release rid now] assms(1) by simp
    have F: "rid \<notin> group_permits ?e1" "request_leases ?e1 = request_leases e" "uuid_draws ?e1 = uuid_draws e"
      by (simp_all add: release_group_permit_def)
    show ?thesis
      using assms(2) gen None E1 F engine_ok_pending [OF E1, of rid]
      by (auto simp: cancel_def Let_def split: option.splits if_splits)
  qed
qed (use assms in \<open>simp add: cancel_def\<close>)

lemma engine_ok_pending_remove:
  "engine_ok uuid X g e \<Longrightarrow> engine_ok uuid X g (e\<lparr>pending_cancels := bt_remove lid (pending_cancels e)\<rparr>)"
  by (auto simp: engine_ok_defs leases_wf_def owner_wf_def)

lemma engine_ok_confirm:
  assumes "engine_ok uuid X g e" and "confirm_transport_cancel gen rid now e = (r, e')"
  shows "engine_ok uuid X g e' \<and> uuid_draws e' = uuid_draws e"
proof (cases "gen = generation e \<and> bt_get (request_leases e) rid \<noteq> None")
  case True
  then obtain lid where "release_lease gen lid now (e\<lparr>pending_cancels := bt_remove lid (pending_cancels e)\<rparr>) = (r, e')"
    using assms(2) by (auto simp: confirm_transport_cancel_def)
  with engine_ok_release [OF engine_ok_pending_remove [OF assms(1)]] release_lease_draws show ?thesis by fastforce
next
  case False
  with assms show ?thesis by (auto simp: confirm_transport_cancel_def split: if_splits)
qed

lemma complete_request_sound:
  assumes U: "uuid_ok uuid N" and S: "engine_sound uuid N g e" and C: "complete_request uuid gen rid now e = (r, e')"
  shows "engine_sound uuid N g e' \<and> uuid_draws e \<le> uuid_draws e'"
proof (cases "gen \<noteq> generation e \<or> bt_contains (request_leases e) rid \<or> rid \<notin> group_permits e")
  case True
  then have "e' = e" using C by (auto simp: complete_request_def release_group_permit_def split: if_splits)
  with S show ?thesis by simp
next
  case False
  obtain u e1 where P: "release_group_permit rid Release now e = (Inr u, e1)"
    using False by (auto simp: release_group_permit_def)
  have d: "uuid_draws e1 = uuid_draws e" using P by (auto simp: release_group_permit_def split: if_splits)
  have S1: "engine_sound uuid N g e1"
    by (rule sound_step [OF S]) (use d engine_ok_release_permit [OF _ _ P] in auto)
  obtain rs where "pump uuid gen now e1 = (rs, e')"
    using C False P by (auto simp: complete_request_def split: prod.splits if_splits)
  from pump_sound [OF U S1 this] d show ?thesis by simp
qed

lemma engine_ok_abandon:
  assumes "engine_ok uuid {#} g e"
  shows "engine_ok uuid {#} g (abandon_admission d now e) \<and> uuid_draws (abandon_admission d now e) = uuid_draws e"
proof (cases d)
  case (Granted l)
  let ?e1 = "snd (release_lease (generation e) (cl_id l) now e)"
  have "engine_ok uuid {#} g ?e1" by (rule engine_ok_release [OF assms surjective_pairing])
  from engine_ok_release_permit [OF this _ surjective_pairing, of ForcedRelease "cl_request_id l" now] show ?thesis
    using release_lease_draws [OF surjective_pairing, of "generation e" "cl_id l" now e]
    by (simp add: abandon_admission_def Granted Let_def) (simp add: release_group_permit_def)
next
  case (Queued t)
  then show ?thesis
    using engine_ok_cancel [OF assms surjective_pairing, of "generation e" "qt_request_id t" now]
    by (simp add: abandon_admission_def)
qed (use assms in \<open>simp_all add: abandon_admission_def\<close>)

subsection \<open>Lease replacement\<close>

text \<open>What a scan keeps of the credential table.\<close>

definition same_load :: "(CredentialId, CredentialRuntime) btree \<Rightarrow> (CredentialId, CredentialRuntime) btree \<Rightarrow> bool" where
  "same_load creds creds' \<longleftrightarrow> map fst creds' = map fst creds \<and>
     (\<forall>k. rel_option (\<lambda>rt rt'. rt_config rt' = rt_config rt \<and> inflight rt' = inflight rt) (bt_get creds k) (bt_get creds' k))"

lemma same_load_refl [simp]: "same_load creds creds"
  by (auto simp: same_load_def intro: option.rel_refl)

lemma same_load_Cons:
  "same_load creds creds' \<Longrightarrow> rt_config rt' = rt_config rt \<Longrightarrow> inflight rt' = inflight rt \<Longrightarrow>
   same_load ((i, rt) # creds) ((i, rt') # creds')"
  by (auto simp: same_load_def)

lemma creds_wf_same_load:
  assumes "creds_wf creds ls" and "same_load creds creds'"
  shows "creds_wf creds' ls"
proof -
  have R: "rel_option (\<lambda>rt rt'. rt_config rt' = rt_config rt \<and> inflight rt' = inflight rt) (bt_get creds k) (bt_get creds' k)" for k
    using assms(2) by (simp add: same_load_def)
  have S: "\<exists>rt. bt_get creds k = Some rt \<and> rt_config rt' = rt_config rt \<and> inflight rt' = inflight rt"
    if "bt_get creds' k = Some rt'" for k rt'
    using R [of k] that by (cases "bt_get creds k") auto
  have N: "bt_get creds' k \<noteq> None" if "bt_get creds k \<noteq> None" for k
    using R [of k] that by (cases "bt_get creds' k") auto
  show ?thesis
    unfolding creds_wf_def
  proof (intro conjI allI impI)
    show "bt_wf creds'" using assms by (simp add: bt_wf_def creds_wf_def same_load_def)
    fix cid rt' assume "bt_get creds' cid = Some rt'"
    from S [OF this] obtain rt where rt: "bt_get creds cid = Some rt" "rt_config rt' = rt_config rt" "inflight rt' = inflight rt"
      by blast
    from creds_wfD [OF assms(1) rt(1)] rt(2,3)
    show "cc_id (rt_config rt') = cid" "cc_concurrency_limit (rt_config rt') \<noteq> 0" "unat (inflight rt') = leases_of cid ls"
      by simp_all
  next
    fix lid r assume "bt_get ls lid = Some r"
    then show "bt_get creds' (cl_credential_id (lease r)) \<noteq> None"
      using assms(1) N unfolding creds_wf_def by blast
  qed
qed

lemma saturating_add_checked_sub:
  "checked_sub (x :: 'a::len word) 1 = Some n \<Longrightarrow> saturating_add n 1 = x"
proof -
  assume A: "checked_sub x 1 = Some n"
  have "unat (saturating_add n 1) = unat x"
    using unat_checked_sub [OF A] unsigned_less [of x, where ?'a = nat]
    by (simp add: unat_saturating_add min_def del: unsigned_less)
  then show ?thesis by (simp add: word_unat_eq_iff)
qed

lemma retry_probe_load:
  "retry_probe cfg entry now cur rt = Some (c, rt') \<Longrightarrow> rt_config rt' = rt_config rt \<and> inflight rt' = inflight rt"
proof -
  assume A: "retry_probe cfg entry now cur rt = Some (c, rt')"
  have E: "rt_config rt2 = rt_config rt1 \<and> inflight rt2 = inflight rt1" if "eligibility rt1 cfg entry now = (x, rt2)" for rt1 x rt2
    using eligibility_bucket [of rt1 cfg entry now] that by auto
  show ?thesis
    using A by (auto simp: retry_probe_def split: if_splits option.splits prod.splits
        dest!: E saturating_add_checked_sub)
qed

lemma retry_scan_load:
  "retry_scan claims cfg entry tgt cur now creds = (r, creds') \<Longrightarrow> same_load creds creds'"
proof (induction creds arbitrary: r creds')
  case Nil
  then show ?case by simp
next
  case (Cons p creds)
  obtain i rt where p: "p = (i, rt)" by (cases p)
  obtain r1 creds1 where R: "retry_scan claims cfg entry tgt cur now creds = (r1, creds1)" by fastforce
  note L = Cons.IH [OF R]
  show ?case
    using Cons.prems R same_load_Cons [OF L] retry_probe_load
    by (fastforce simp: p split: if_splits option.splits)
qed

text \<open>More precisely, a scan settles token buckets and does nothing else.\<close>

definition settled_runtime :: "duration \<Rightarrow> CredentialRuntime \<Rightarrow> CredentialRuntime \<Rightarrow> bool" where
  "settled_runtime now rt rt' \<longleftrightarrow> rt' = rt \<or> rt' = rt\<lparr>bucket := refill now (bucket rt)\<rparr>"

definition buckets_settled ::
  "duration \<Rightarrow> (CredentialId, CredentialRuntime) btree \<Rightarrow> (CredentialId, CredentialRuntime) btree \<Rightarrow> bool" where
  "buckets_settled now = list_all2 (\<lambda>p p'. fst p' = fst p \<and> settled_runtime now (snd p) (snd p'))"

lemma buckets_settled_refl [simp]: "buckets_settled now creds creds"
  by (simp add: buckets_settled_def settled_runtime_def list_all2_refl)

lemma settled_eligibility: "eligibility rt cfg entry now = (x, rt') \<Longrightarrow> settled_runtime now rt rt'"
  using eligibility_bucket [of rt cfg entry now] by (auto simp: settled_runtime_def)

lemma settled_probe:
  assumes "retry_probe cfg entry now cur rt = Some (c, rt')"
  shows "settled_runtime now rt rt'"
proof (cases cur)
  case False
  with assms show ?thesis by (auto simp: retry_probe_def split: prod.splits intro: settled_eligibility)
next
  case True
  then obtain n x rt1 where n: "checked_sub (inflight rt) 1 = Some n"
    and e: "eligibility (rt\<lparr>inflight := n\<rparr>) cfg entry now = (x, rt1)"
    and r: "rt' = rt1\<lparr>inflight := saturating_add (inflight rt1) 1\<rparr>"
    using assms by (auto simp: retry_probe_def split: option.splits prod.splits)
  from settled_eligibility [OF e] saturating_add_checked_sub [OF n] show ?thesis
    by (auto simp: settled_runtime_def r)
qed

lemma retry_scan_settles:
  "retry_scan claims cfg entry tgt cur now creds = (r, creds') \<Longrightarrow> buckets_settled now creds creds'"
proof (induction creds arbitrary: r creds')
  case (Cons p creds)
  obtain i rt where p: "p = (i, rt)" by (cases p)
  obtain r1 creds1 where R: "retry_scan claims cfg entry tgt cur now creds = (r1, creds1)" by fastforce
  note L = Cons.IH [OF R]
  have refl: "settled_runtime now rt rt" for rt by (simp add: settled_runtime_def)
  show ?case
  proof (cases "\<not> retry_selected tgt i \<or> session_capacity_blocked (rt_config rt) claims entry")
    case True
    then have "creds' = (i, rt) # creds1" using Cons.prems R by (simp add: p)
    with L refl show ?thesis by (simp add: p buckets_settled_def)
  next
    case F: False
    show ?thesis
    proof (cases "retry_probe cfg entry now (i = cur) rt")
      case None
      with Cons.prems F have "creds' = p # creds" by (simp add: p)
      then show ?thesis by simp
    next
      case (Some y)
      obtain c rt1 where y: "y = (c, rt1)" by (cases y)
      have "creds' = (i, rt1) # creds1" using Cons.prems F R Some by (simp add: p y)
      with L settled_probe [OF Some [unfolded y]] show ?thesis by (simp add: p buckets_settled_def)
    qed
  qed
qed (simp add: buckets_settled_def)

lemma retry_candidate_settles:
  assumes "retry_candidate entry tgt cur now e = (r, e')"
  shows "\<exists>creds. e' = e\<lparr>credentials := creds\<rparr> \<and> buckets_settled now (credentials e) creds"
proof (cases "is_some_and (pinned_target (portability (generic entry))) (\<lambda>pinned. tgt \<noteq> Same pinned)")
  case True
  then have "e' = e\<lparr>credentials := credentials e\<rparr>" using assms by (simp add: retry_candidate_def)
  then show ?thesis by (intro exI [of _ "credentials e"]) simp
next
  case False
  obtain r1 creds where R: "retry_scan (session_claims e) (config e) entry tgt cur now (credentials e) = (r1, creds)"
    by fastforce
  have "e' = e\<lparr>credentials := creds\<rparr>" using assms False R by (auto simp: retry_candidate_def)
  with retry_scan_settles [OF R] show ?thesis by blast
qed

lemma retry_candidate_ok:
  assumes "engine_ok uuid X g e" and "retry_candidate entry tgt cur now e = (r, e')"
  shows "engine_ok uuid X g e' \<and> (\<exists>creds. e' = e\<lparr>credentials := creds\<rparr>)"
proof (cases "is_some_and (pinned_target (portability (generic entry))) (\<lambda>pinned. tgt \<noteq> Same pinned)")
  case True
  then have "e' = e\<lparr>credentials := credentials e\<rparr>" using assms(2) by (simp add: retry_candidate_def)
  with assms(1) show ?thesis by (metis (no_types, lifting) SchedulerEngine.surjective SchedulerEngine.update_convs(5))
next
  case False
  obtain r1 creds where R: "retry_scan (session_claims e) (config e) entry tgt cur now (credentials e) = (r1, creds)"
    by fastforce
  have "e' = e\<lparr>credentials := creds\<rparr>" using assms(2) False R by (auto simp: retry_candidate_def)
  then show ?thesis
    using engine_ok_credentials [OF assms(1) creds_wf_same_load [OF engine_okD(1) [OF assms(1)] retry_scan_load [OF R]]]
    by blast
qed

lemma replace_lease_draws: "replace_lease uuid gen req now e = (r, e') \<Longrightarrow> uuid_draws e \<le> uuid_draws e'"
proof -
  have "uuid_draws e2 = uuid_draws e1" if "retry_candidate en t c now e1 = (x, e2)" for en t c e1 x e2
    using that by (auto simp: retry_candidate_def split: if_splits prod.splits)
  then show "replace_lease uuid gen req now e = (r, e') \<Longrightarrow> uuid_draws e \<le> uuid_draws e'"
    by (force simp: replace_lease_def split: if_splits option.splits prod.splits sum.splits
        dest!: grant_draws release_lease_draws)
qed

lemma replace_lease_ok:
  assumes U: "uuid_ok uuid N" and E: "engine_ok uuid {#} g e"
    and R: "replace_lease uuid gen req now e = (r, e')" and N: "uuid_draws e' \<le> N"
  shows "engine_ok uuid {#} g e'"
proof (cases "gen = generation e \<and> se_group_id (rl_entry req) = ei_group_id (identity e) \<and>
    (\<exists>cur. bt_get (leases e) (current_lease_id req) = Some cur \<and> cl_request_id (lease cur) = se_request_id (rl_entry req) \<and>
      bt_get (request_leases e) (se_request_id (rl_entry req)) = Some (current_lease_id req)) \<and>
    se_request_id (rl_entry req) \<in> group_permits e")
  case False
  then have "e' = e" using R by (auto simp: replace_lease_def split: if_splits option.splits)
  with E show ?thesis by simp
next
  case True
  let ?rid = "se_request_id (rl_entry req)" and ?lid = "current_lease_id req"
  obtain cur where cur: "bt_get (leases e) ?lid = Some cur" "cl_request_id (lease cur) = ?rid" using True by blast
  obtain c e1 where K: "retry_candidate (rl_entry req) (target req) (cl_credential_id (lease cur)) now e = (c, e1)" by fastforce
  obtain creds where e1: "e1 = e\<lparr>credentials := creds\<rparr>" and E1: "engine_ok uuid {#} g e1"
    using retry_candidate_ok [OF E K] by blast
  show ?thesis
  proof (cases c)
    case None
    then have "e' = e1" using R True cur K by (auto simp: replace_lease_def)
    with E1 show ?thesis by simp
  next
    case (Some cid)
    have "bt_get (leases e1) ?lid = Some cur" using cur by (simp add: e1)
    then obtain e2 where L: "release_lease (generation e1) ?lid now e1 = (Inr Released, e2)" and E2: "engine_ok uuid {#} g e2"
      and F: "request_leases e2 = bt_remove ?rid (request_leases e1)" "group_permits e2 = group_permits e1"
      using engine_ok_release_lease [OF E1, of ?lid cur now] cur by metis
    have "\<exists>r'. grant uuid (rl_entry req) cid now False e2 = (r', e')"
      using R True cur K Some L e1 by (auto simp: replace_lease_def split: prod.splits)
    then obtain r' where G: "grant uuid (rl_entry req) cid now False e2 = (r', e')" by blast
    have "?rid \<in> group_permits e2" using True F by (simp add: e1)
    then have "?rid \<in> seen_requests e2" "bt_get (waiting e2) ?rid = None"
      using engine_okD(5) [OF E2] by (auto simp: owner_wf_def)
    with engine_ok_grant [OF U E2 _ _ _ _ G N] F show ?thesis by simp
  qed
qed

subsection \<open>Draining and group reconfiguration\<close>

lemma queue_wf_push:
  "queue_wf (add_mset (se_request_id entry) X) q ws \<Longrightarrow> queue_wf X (FairQueue_push entry q) ws"
  using fair_queue.inv_push [of q entry] fair_queue.entries_push [of q entry] by (auto simp: queue_wf_def)

lemma reject_drained_ok:
  "engine_ok uuid (mset (map se_request_id es)) g e \<Longrightarrow> reject_drained keep retry now es e = (rs, e') \<Longrightarrow>
   engine_ok uuid {#} g e' \<and> uuid_draws e' = uuid_draws e"
proof (induction es arbitrary: e rs)
  case Nil
  then show ?case by simp
next
  case (Cons entry es)
  let ?rid = "se_request_id entry"
  show ?case
  proof (cases "keep entry")
    case True
    have "engine_ok uuid (mset (map se_request_id es)) g (e\<lparr>queue := FairQueue_push entry (queue e)\<rparr>)"
      by (rule engine_ok_queue [OF Cons.prems(1) queue_wf_push]) (use engine_okD(4) [OF Cons.prems(1)] in simp)
    from Cons.IH [OF this] Cons.prems(2) True show ?thesis by simp
  next
    case False
    let ?e1 = "forget_rate ?rid (drop_waiting ?rid ForcedRelease now e)"
    have "engine_ok uuid (mset (map se_request_id es)) g ?e1"
      using engine_ok_drop_waiting [of uuid ?rid "mset (map se_request_id es)" g e ForcedRelease] Cons.prems(1) by simp
    from Cons.IH [OF this] Cons.prems(2) False show ?thesis by (auto simp: Let_def split: prod.splits)
  qed
qed

lemma engine_ok_drained:
  assumes "engine_ok uuid {#} g e" and "FairQueue_drain (queue e) = (es, q)"
  shows "engine_ok uuid (mset (map se_request_id es)) g (e\<lparr>queue := q\<rparr>)"
proof (rule engine_ok_queue [OF assms(1)])
  note D = engine_okD(4) [OF assms(1)]
  have I: "queue_inv (queue e)" using D by (simp add: queue_wf_def)
  have "mset es = queue_entries (queue e)" "queue_entries q = {#}" "queue_inv q"
    using drain_from_correct [OF I assms(2) [unfolded FairQueue_drain_def]] by blast+
  with D show "queue_wf (mset (map se_request_id es)) q (waiting e)"
    by (simp add: queue_wf_def)
qed

lemma engine_ok_disable:
  assumes "engine_ok uuid {#} g e" and "disable gen now e = (rs, e')"
  shows "engine_ok uuid {#} g e' \<and> uuid_draws e' = uuid_draws e"
proof (cases "gen = generation e")
  case True
  obtain es q where D: "FairQueue_drain (queue e) = (es, q)" by fastforce
  have R: "reject_drained (\<lambda>_. False) None now es (e\<lparr>lifecycle := Draining, queue := q\<rparr>) = (rs, e')"
    using assms(2) True D by (simp add: disable_def)
  have "engine_ok uuid (mset (map se_request_id es)) g (e\<lparr>lifecycle := Draining, queue := q\<rparr>)"
    using engine_ok_drained [of uuid g "e\<lparr>lifecycle := Draining\<rparr>"] assms(1) D by simp
  from reject_drained_ok [OF this R] show ?thesis by simp
qed (use assms in \<open>simp add: disable_def\<close>)

lemma engine_ok_reconfigure:
  assumes "engine_ok uuid {#} g e" and "reconfigure gen cfg now e = (r, e')"
  shows "engine_ok uuid {#} g e' \<and> uuid_draws e' = uuid_draws e"
proof (cases "gen \<noteq> generation e \<or> group_invalid cfg \<or> queue_bound_exceeded cfg (capacity_sum (credentials e))")
  case True
  with assms show ?thesis by (auto simp: reconfigure_def split: if_splits)
next
  case False
  obtain es q where D: "FairQueue_drain (queue e) = (es, q)" by fastforce
  obtain rs e1 where R: "reject_drained (\<lambda>entry. group_config (snapshot_set (generic entry)) = snapshot_version cfg)
      (Some (from_secs 1)) now es (e\<lparr>queue := q\<rparr>) = (rs, e1)" by fastforce
  let ?e2 = "e1\<lparr>group_bucket := map_option (\<lambda>r. bucket_full r now) (gc_rate_limit cfg), config := cfg\<rparr>"
  have "e' = prune now ?e2" using assms(2) False D R by (auto simp: reconfigure_def)
  moreover have "engine_ok uuid {#} g ?e2" "uuid_draws e1 = uuid_draws e"
    using reject_drained_ok [OF engine_ok_drained [OF assms(1) D] R] by simp_all
  ultimately show ?thesis using engine_ok_prune by (simp add: prune_frame)
qed

subsection \<open>The credential table\<close>

lemma engine_ok_modify:
  assumes "engine_ok uuid X g e"
    and "\<And>rt. bt_get (credentials e) k = Some rt \<Longrightarrow> cc_id (rt_config (f rt)) = k \<and>
      cc_concurrency_limit (rt_config (f rt)) \<noteq> 0 \<and> inflight (f rt) = inflight rt"
  shows "engine_ok uuid X g (e\<lparr>credentials := bt_modify k f (credentials e)\<rparr>)"
  by (rule engine_ok_credentials [OF assms(1) creds_wf_modify [OF engine_okD(1) [OF assms(1)] assms(2)]])

lemma map_state_fields [simp]:
  "cc_id (rt_config (map_state f rt)) = cc_id (rt_config rt)"
  "cc_concurrency_limit (rt_config (map_state f rt)) = cc_concurrency_limit (rt_config rt)"
  "inflight (map_state f rt) = inflight rt"
  by (simp_all add: map_state_def)

lemma engine_ok_observe:
  assumes "engine_ok uuid X g e"
  shows "engine_ok uuid X g (snd (observe_credential_cooldown gen cu e))"
    and "engine_ok uuid X g (snd (observe_credential_auth gen au e))"
    and "engine_ok uuid X g (snd (observe_credential_quota gen qu e))"
    and "engine_ok uuid X g (record_half_open_result gen cid ok now e)"
    and "engine_ok uuid X g (snd (set_credential_fence gen cid fenced e))"
  using assms creds_wfD [OF engine_okD(1) [OF assms]]
  by (auto simp: observe_credential_cooldown_def observe_credential_auth_def observe_credential_quota_def
      record_half_open_result_def set_credential_fence_def half_open_result_def quota_observed_def Let_def
      intro!: engine_ok_modify split: option.splits)

lemma engine_ok_record_success: "engine_ok uuid X g e \<Longrightarrow> engine_ok uuid X g (record_success key cid now e)"
  by (auto simp: record_success_def Let_def split: option.splits)

lemma leases_of_absent:
  assumes "creds_wf creds ls" and "bt_wf ls" and "bt_get creds cid = None"
  shows "leases_of cid ls = 0"
proof -
  have "bt_get creds (cl_credential_id (lease r)) \<noteq> None" if "(lid, r) \<in> set ls" for lid r
    using assms(1) that bt_get_eq_Some [OF assms(2)] unfolding creds_wf_def by blast
  with assms(3) show ?thesis unfolding bt_count_eq_0 by fastforce
qed

lemma creds_wf_insert_fresh:
  assumes "creds_wf creds ls" and "bt_wf ls" and "bt_get creds (cc_id c) = None" and "\<not> credential_invalid c"
  shows "creds_wf (bt_insert (cc_id c) (fresh_runtime c now) creds) ls"
  using assms leases_of_absent [OF assms(1-3)]
  by (auto simp: creds_wf_def fresh_runtime_def credential_invalid_def)

lemma creds_wf_remove:
  assumes "creds_wf creds ls" and "bt_wf ls" and "bt_get creds cid = Some rt" and "inflight rt = 0"
  shows "creds_wf (bt_remove cid creds) ls"
proof -
  have "leases_of cid ls = 0" using creds_wfD [OF assms(1,3)] assms(4) by simp
  then have "cl_credential_id (lease r) \<noteq> cid" if "bt_get ls lid = Some r" for lid r
    unfolding bt_count_eq_0 using that bt_get_eq_Some [OF assms(2)] by fastforce
  with assms(1) show ?thesis by (auto simp: creds_wf_def)
qed

text \<open>Dropping the idle claims of a credential is not entered in the ledger.\<close>

lemma claims_wf_retain_active:
  assumes "claims_wf claims ls" and "bt_wf ls"
  shows "claims_wf (bt_retain (\<lambda>key claim. fst key \<noteq> cid \<or> active_requests claim \<noteq> 0) claims) ls"
proof -
  let ?P = "\<lambda>key claim. fst key \<noteq> cid \<or> active_requests claim \<noteq> 0"
  have bw: "bt_wf claims" using assms(1) by (simp add: claims_wf_def)
  have G: "bt_get (bt_retain ?P claims) key = Some c \<longleftrightarrow> bt_get claims key = Some c \<and> ?P key c" for key c
    by (auto simp: bt_get_retain [OF bw] split: option.splits)
  have act: "active_requests c \<noteq> 0" if "bt_get ls lid = Some r" "session_claim_key r = Some key" "bt_get claims key = Some c" for lid r key c
  proof -
    have "leases_with key ls \<noteq> 0"
      unfolding bt_count_eq_0 using that(1,2) bt_get_eq_Some [OF assms(2)] by fastforce
    then show ?thesis using claims_wfD [OF assms(1) that(3)] by auto
  qed
  show ?thesis
    unfolding claims_wf_def
  proof (intro conjI allI impI)
    show "bt_wf (bt_retain ?P claims)" using bw by simp
    show "unat (active_requests c) = leases_with key ls" if "bt_get (bt_retain ?P claims) key = Some c" for key c
      using claims_wfD [OF assms(1)] that G by blast
    fix lid r key assume r: "bt_get ls lid = Some r" "session_claim_key r = Some key"
    obtain c where "bt_get claims key = Some c" using claims_wf_leaseD [OF assms(1) r] by auto
    with act [OF r this] G show "bt_get (bt_retain ?P claims) key \<noteq> None" by fastforce
    show "fst key = cl_credential_id (lease r)" using claims_wf_leaseD [OF assms(1) r] by simp
  qed
qed

lemma engine_ok_drop_idle:
  assumes "engine_ok uuid X g e"
  shows "engine_ok uuid X (g + (int (length (session_claims e)) - int (length (session_claims (drop_idle_of cid e)))))
    (drop_idle_of cid e)"
proof -
  note D = engine_okD [OF assms]
  have "ledger_ok (g + (int (length (session_claims e)) - int (length (session_claims (drop_idle_of cid e))))) (drop_idle_of cid e)"
    by (rule ledger_shift [OF D(6)]) (simp_all add: drop_idle_of_def held_def)
  moreover have "engine_wf uuid X (drop_idle_of cid e)"
    using D claims_wf_retain_active [OF D(3) leases_wfD(1) [OF D(2)], of cid]
    by (simp add: drop_idle_of_def engine_wf_def)
  ultimately show ?thesis by (simp add: engine_ok_def)
qed

lemma drop_idle_of_le: "length (session_claims (drop_idle_of cid e)) \<le> length (session_claims e)"
  by (simp add: drop_idle_of_def bt_retain_def)

text \<open>The two operations that may lose ledger entries: the balance exceeds the held resources by
  the number of claims they discard.\<close>

lemma engine_ok_remove_fenced:
  assumes "engine_ok uuid X g e" and "remove_fenced_credential gen cid e = (r, e')"
  shows "engine_ok uuid X (g + (int (length (session_claims e)) - int (length (session_claims e')))) e'"
proof (cases "\<exists>rt. gen = generation e \<and> bt_get (credentials e) cid = Some rt \<and> admin_fenced rt \<and> inflight rt = 0")
  case True
  then obtain rt where rt: "gen = generation e" "bt_get (credentials e) cid = Some rt" "admin_fenced rt" "inflight rt = 0" by blast
  let ?e1 = "e\<lparr>credentials := bt_remove cid (credentials e)\<rparr>"
  note D = engine_okD [OF assms(1)]
  have "engine_ok uuid X g ?e1"
    by (rule engine_ok_credentials [OF assms(1) creds_wf_remove [OF D(1) leases_wfD(1) [OF D(2)] rt(2,4)]])
  from engine_ok_drop_idle [OF this, of cid] rt assms(2) show ?thesis
    by (auto simp: remove_fenced_credential_def)
next
  case False
  then have "e' = e" using assms(2) by (auto simp: remove_fenced_credential_def split: if_splits option.splits)
  with assms(1) show ?thesis by simp
qed

lemma engine_ok_reconfigure_credential:
  assumes "engine_ok uuid X g e" and "reconfigure_credential gen c now e = (r, e')"
  shows "engine_ok uuid X (g + (int (length (session_claims e)) - int (length (session_claims e')))) e'"
proof (cases "e' = e \<or> credential_invalid c")
  case True
  then have "e' = e" using assms(2) by (auto simp: reconfigure_credential_def split: if_splits)
  with assms(1) show ?thesis by simp
next
  case False
  note D = engine_okD [OF assms(1)]
  have valid: "\<not> credential_invalid c" "cc_concurrency_limit c \<noteq> 0" using False by (simp_all add: credential_invalid_def)
  show ?thesis
  proof (cases "bt_get (credentials e) (cc_id c)")
    case None
    have "e' = e\<lparr>credentials := bt_insert (cc_id c) (fresh_runtime c now) (credentials e)\<rparr>"
      using False assms(2) None by (auto simp: reconfigure_credential_def split: if_splits)
    with engine_ok_credentials [OF assms(1) creds_wf_insert_fresh [OF D(1) leases_wfD(1) [OF D(2)] None valid(1)]]
    show ?thesis by simp
  next
    case (Some rt)
    let ?rt1 = "rt\<lparr>bucket := bucket_reconfigure (cc_rate_limit c) now (bucket rt)\<rparr>"
    let ?full = "e\<lparr>credentials := bt_modify (cc_id c)
        (\<lambda>_. ?rt1\<lparr>quota_observation_version := cc_quota_observation_version c, rt_config := c\<rparr>) (credentials e)\<rparr>"
    let ?part = "e\<lparr>credentials := bt_modify (cc_id c) (\<lambda>_. ?rt1\<lparr>rt_config := update_scheduling c (rt_config rt)\<rparr>) (credentials e)\<rparr>"
    have "e' = ?full \<or> e' = drop_idle_of (cc_id c) ?full \<or> e' = ?part"
      using False assms(2) Some by (auto simp: reconfigure_credential_def Let_def split: if_splits)
    moreover have "engine_ok uuid X g ?full" "engine_ok uuid X g ?part"
      by (rule engine_ok_modify [OF assms(1)],
        use Some valid creds_wfD [OF D(1) Some] in \<open>simp add: update_scheduling_def\<close>)+
    ultimately show ?thesis using engine_ok_drop_idle [of uuid X g ?full "cc_id c"] by auto
  qed
qed

subsection \<open>A new engine\<close>

lemma build_runtimes_wf:
  "build_runtimes cs now rts = Inr rts' \<Longrightarrow> creds_wf rts [] \<Longrightarrow> creds_wf rts' []"
proof (induction cs arbitrary: rts)
  case Nil
  then show ?case by simp
next
  case (Cons c cs)
  then have "\<not> credential_invalid c" "bt_get rts (cc_id c) = None"
    and "build_runtimes cs now (bt_insert (cc_id c) (fresh_runtime c now) rts) = Inr rts'"
    by (auto split: if_splits option.splits)
  then show ?case using Cons.IH creds_wf_insert_fresh [OF Cons.prems(2), of c now] by simp
qed

lemma engine_ok_new: "engine_new ident cfg cs now = Inr e \<Longrightarrow> engine_ok uuid {#} 0 e"
proof -
  assume A: "engine_new ident cfg cs now = Inr e"
  then obtain rts where R: "build_runtimes cs now [] = Inr rts" by (auto simp: engine_new_def split: sum.splits)
  have "creds_wf rts []" by (rule build_runtimes_wf [OF R]) (simp add: creds_wf_def)
  then show ?thesis
    using A R fair_queue.inv_empty fair_queue.entries_empty
    by (auto simp: engine_new_def engine_ok_defs leases_wf_def claims_wf_def queue_wf_def owner_wf_def ledger_ok_def
        held_def split: if_splits)
qed

end
