(* ===== verification/Actor.thy ===== *)
theory Actor
  imports Engine_Sound
begin

text \<open>
  The actor that gives each credential group one mutation order
  (\<^verbatim>\<open>gateway-scheduler/src/actor.rs\<close>): the commands, their handlers, the bounded mailbox and
  the client side of a call. A reply channel is modelled by what became of its receiver; a
  decision that cannot be delivered is undone by the handler.
\<close>

subsection \<open>Commands and replies\<close>

datatype GroupCommand =
    Admit OwnerGeneration ScheduleEntry duration
  | Cancel OwnerGeneration RequestId duration
  | ReleaseLease OwnerGeneration LeaseId duration
  | ReplaceLease OwnerGeneration RetryLeaseRequest duration
  | ObserveCredentialCooldown OwnerGeneration CredentialCooldownUpdate duration
  | ObserveCredentialAuth OwnerGeneration CredentialAuthUpdate duration
  | ObserveCredentialQuota OwnerGeneration CredentialQuotaUpdate duration
  | SetCredentialFence OwnerGeneration CredentialId bool duration
  | RemoveFencedCredential OwnerGeneration CredentialId duration
  | ReconfigureGroup OwnerGeneration GroupConfig duration
  | ReconfigureCredential OwnerGeneration CredentialConfig duration
  | ConfirmTransportCancel OwnerGeneration RequestId duration
  | CompleteRequest OwnerGeneration RequestId duration
  | Tick OwnerGeneration duration
  | BeginDrain OwnerGeneration duration
  | Snapshot
  | ResourceEvents
  | AcknowledgeResourceEvents u64

text \<open>The values sent on the reply channels, one constructor per channel type.\<close>

datatype CommandReply =
    AdmissionReply "(SchedulerError, AdmissionDecision) result"
  | ReleaseReply "(SchedulerError, LeaseRelease \<times> QueueResolution list) result"
  | RetryReply "(SchedulerError, RetryLeaseDecision) result"
  | AppliedReply bool "QueueResolution list"
  | FenceReply CredentialFenceResult "QueueResolution list"
  | RemoveReply CredentialRemoveResult "QueueResolution list"
  | ResolutionsReply "(SchedulerError, QueueResolution list) result"
  | ReconfiguredReply "(SchedulerError, bool \<times> QueueResolution list) result"
  | ConfirmReply "(SchedulerError, LeaseRelease) result"
  | PumpReply "QueueResolution list"
  | SnapshotReply SchedulerSnapshot
  | EventsReply "ResourceEvent list"
  | AcknowledgedReply

text \<open>The receiver of a reply: alive, gone before the command is handled (\<^verbatim>\<open>is_closed\<close> is true and
  \<^verbatim>\<open>send\<close> fails), or dropped while it is handled (only \<^verbatim>\<open>send\<close> fails).\<close>

datatype receiver = Alive | ClosedBefore | DroppedDuring

subsection \<open>Handlers\<close>

fun abandon_resolutions :: "QueueResolution list \<Rightarrow> duration \<Rightarrow> SchedulerEngine \<Rightarrow> SchedulerEngine" where
  "abandon_resolutions [] now e = e"
| "abandon_resolutions (r # rs) now e = abandon_resolutions rs now (abandon_admission (decision r) now e)"

text \<open>\<^verbatim>\<open>if let Err(..) = reply.send(..) { .. }\<close>\<close>

definition send_or ::
  "receiver \<Rightarrow> CommandReply \<Rightarrow> (SchedulerEngine \<Rightarrow> SchedulerEngine) \<Rightarrow> SchedulerEngine \<Rightarrow> CommandReply option \<times> SchedulerEngine" where
  "send_or rcv reply undo e = (if rcv = Alive then (Some reply, e) else (None, undo e))"

definition handle_admit ::
  "(nat \<Rightarrow> string) \<Rightarrow> receiver \<Rightarrow> OwnerGeneration \<Rightarrow> ScheduleEntry \<Rightarrow> duration \<Rightarrow> SchedulerEngine \<Rightarrow>
   CommandReply option \<times> SchedulerEngine" where
  "handle_admit uuid rcv gen entry now e =
     (if rcv = ClosedBefore then (None, e)
      else (case admit uuid gen entry now e of (r, e1) \<Rightarrow>
        send_or rcv (AdmissionReply r)
          (\<lambda>e. case r of Inl _ \<Rightarrow> e | Inr d \<Rightarrow> abandon_admission d now e) e1))"

text \<open>The common tail of the commands that apply something and then reconsider the queue.\<close>

definition pump_and_send ::
  "(nat \<Rightarrow> string) \<Rightarrow> receiver \<Rightarrow> OwnerGeneration \<Rightarrow> duration \<Rightarrow> (QueueResolution list \<Rightarrow> CommandReply) \<Rightarrow>
   SchedulerEngine \<Rightarrow> CommandReply option \<times> SchedulerEngine" where
  "pump_and_send uuid rcv gen now mk e =
     (case pump uuid gen now e of (rs, e1) \<Rightarrow> send_or rcv (mk rs) (abandon_resolutions rs now) e1)"

definition handle_applied ::
  "(nat \<Rightarrow> string) \<Rightarrow> receiver \<Rightarrow> OwnerGeneration \<Rightarrow> duration \<Rightarrow> bool \<times> SchedulerEngine \<Rightarrow>
   CommandReply option \<times> SchedulerEngine" where
  "handle_applied uuid rcv gen now p =
     (case p of (applied, e) \<Rightarrow>
      if applied then pump_and_send uuid rcv gen now (AppliedReply applied) e
      else send_or rcv (AppliedReply applied []) (abandon_resolutions [] now) e)"

definition handle_observe_cooldown ::
  "(nat \<Rightarrow> string) \<Rightarrow> receiver \<Rightarrow> OwnerGeneration \<Rightarrow> CredentialCooldownUpdate \<Rightarrow> duration \<Rightarrow> SchedulerEngine \<Rightarrow>
   CommandReply option \<times> SchedulerEngine" where
  "handle_observe_cooldown uuid rcv gen u now e =
     handle_applied uuid rcv gen now (observe_credential_cooldown gen u e)"

definition handle_observe_auth ::
  "(nat \<Rightarrow> string) \<Rightarrow> receiver \<Rightarrow> OwnerGeneration \<Rightarrow> CredentialAuthUpdate \<Rightarrow> duration \<Rightarrow> SchedulerEngine \<Rightarrow>
   CommandReply option \<times> SchedulerEngine" where
  "handle_observe_auth uuid rcv gen u now e =
     handle_applied uuid rcv gen now (observe_credential_auth gen u e)"

definition handle_observe_quota ::
  "(nat \<Rightarrow> string) \<Rightarrow> receiver \<Rightarrow> OwnerGeneration \<Rightarrow> CredentialQuotaUpdate \<Rightarrow> duration \<Rightarrow> SchedulerEngine \<Rightarrow>
   CommandReply option \<times> SchedulerEngine" where
  "handle_observe_quota uuid rcv gen u now e =
     handle_applied uuid rcv gen now (observe_credential_quota gen u e)"

definition handle_release ::
  "(nat \<Rightarrow> string) \<Rightarrow> receiver \<Rightarrow> OwnerGeneration \<Rightarrow> LeaseId \<Rightarrow> duration \<Rightarrow> SchedulerEngine \<Rightarrow>
   CommandReply option \<times> SchedulerEngine" where
  "handle_release uuid rcv gen lid now e =
     (case release_lease gen lid now e of
        (Inl err, e1) \<Rightarrow> send_or rcv (ReleaseReply (Inl err)) id e1
      | (Inr released, e1) \<Rightarrow> pump_and_send uuid rcv gen now (\<lambda>rs. ReleaseReply (Inr (released, rs))) e1)"

definition handle_replace ::
  "(nat \<Rightarrow> string) \<Rightarrow> receiver \<Rightarrow> OwnerGeneration \<Rightarrow> RetryLeaseRequest \<Rightarrow> duration \<Rightarrow> SchedulerEngine \<Rightarrow>
   CommandReply option \<times> SchedulerEngine" where
  "handle_replace uuid rcv gen req now e =
     (case replace_lease uuid gen req now e of (r, e1) \<Rightarrow>
        send_or rcv (RetryReply r)
          (\<lambda>e. case r of
             Inr (RetryGranted l) \<Rightarrow>
               (case complete_request uuid gen (cl_request_id l) now (snd (release_lease gen (cl_id l) now e)) of
                  (Inl _, e2) \<Rightarrow> e2
                | (Inr rs, e2) \<Rightarrow> abandon_resolutions rs now e2)
           | _ \<Rightarrow> e) e1)"

definition handle_reconfigure_group ::
  "(nat \<Rightarrow> string) \<Rightarrow> receiver \<Rightarrow> OwnerGeneration \<Rightarrow> GroupConfig \<Rightarrow> duration \<Rightarrow> SchedulerEngine \<Rightarrow>
   CommandReply option \<times> SchedulerEngine" where
  "handle_reconfigure_group uuid rcv gen cfg now e =
     (case reconfigure gen cfg now e of
        (Inl err, e1) \<Rightarrow> send_or rcv (ResolutionsReply (Inl err)) id e1
      | (Inr rs, e1) \<Rightarrow> (case pump uuid gen now e1 of (rs', e2) \<Rightarrow>
          send_or rcv (ResolutionsReply (Inr (rs @ rs'))) (abandon_resolutions (rs @ rs') now) e2))"

definition handle_reconfigure_credential ::
  "(nat \<Rightarrow> string) \<Rightarrow> receiver \<Rightarrow> OwnerGeneration \<Rightarrow> CredentialConfig \<Rightarrow> duration \<Rightarrow> SchedulerEngine \<Rightarrow>
   CommandReply option \<times> SchedulerEngine" where
  "handle_reconfigure_credential uuid rcv gen c now e =
     (case reconfigure_credential gen c now e of
        (Inl err, e1) \<Rightarrow> send_or rcv (ReconfiguredReply (Inl err)) id e1
      | (Inr applied, e1) \<Rightarrow> pump_and_send uuid rcv gen now (\<lambda>rs. ReconfiguredReply (Inr (applied, rs))) e1)"

definition handle_complete ::
  "(nat \<Rightarrow> string) \<Rightarrow> receiver \<Rightarrow> OwnerGeneration \<Rightarrow> RequestId \<Rightarrow> duration \<Rightarrow> SchedulerEngine \<Rightarrow>
   CommandReply option \<times> SchedulerEngine" where
  "handle_complete uuid rcv gen rid now e =
     (case complete_request uuid gen rid now e of
        (Inl err, e1) \<Rightarrow> send_or rcv (ResolutionsReply (Inl err)) id e1
      | (Inr rs, e1) \<Rightarrow> send_or rcv (ResolutionsReply (Inr rs)) (abandon_resolutions rs now) e1)"

text \<open>The body of the receive loop.\<close>

fun handle_command ::
  "(nat \<Rightarrow> string) \<Rightarrow> receiver \<Rightarrow> GroupCommand \<Rightarrow> SchedulerEngine \<Rightarrow> CommandReply option \<times> SchedulerEngine" where
  "handle_command uuid rcv (Admit gen entry now) e = handle_admit uuid rcv gen entry now e"
| "handle_command uuid rcv (Cancel gen rid now) e =
     (case cancel gen rid now e of (r, e1) \<Rightarrow> send_or rcv (AdmissionReply r) id e1)"
| "handle_command uuid rcv (ReleaseLease gen lid now) e = handle_release uuid rcv gen lid now e"
| "handle_command uuid rcv (ReplaceLease gen req now) e = handle_replace uuid rcv gen req now e"
| "handle_command uuid rcv (ObserveCredentialCooldown gen u now) e = handle_observe_cooldown uuid rcv gen u now e"
| "handle_command uuid rcv (ObserveCredentialAuth gen u now) e = handle_observe_auth uuid rcv gen u now e"
| "handle_command uuid rcv (ObserveCredentialQuota gen u now) e = handle_observe_quota uuid rcv gen u now e"
| "handle_command uuid rcv (SetCredentialFence gen cid fenced now) e =
     (case set_credential_fence gen cid fenced e of (r, e1) \<Rightarrow> pump_and_send uuid rcv gen now (FenceReply r) e1)"
| "handle_command uuid rcv (RemoveFencedCredential gen cid now) e =
     (case remove_fenced_credential gen cid e of (r, e1) \<Rightarrow> pump_and_send uuid rcv gen now (RemoveReply r) e1)"
| "handle_command uuid rcv (ReconfigureGroup gen cfg now) e = handle_reconfigure_group uuid rcv gen cfg now e"
| "handle_command uuid rcv (ReconfigureCredential gen c now) e = handle_reconfigure_credential uuid rcv gen c now e"
| "handle_command uuid rcv (ConfirmTransportCancel gen rid now) e =
     (case confirm_transport_cancel gen rid now e of (r, e1) \<Rightarrow> send_or rcv (ConfirmReply r) id e1)"
| "handle_command uuid rcv (CompleteRequest gen rid now) e = handle_complete uuid rcv gen rid now e"
| "handle_command uuid rcv (Tick gen now) e =
     (if rcv = ClosedBefore then (None, e) else pump_and_send uuid rcv gen now PumpReply e)"
| "handle_command uuid rcv (BeginDrain gen now) e =
     (case disable gen now e of (rs, e1) \<Rightarrow> send_or rcv (PumpReply rs) id e1)"
| "handle_command uuid rcv Snapshot e = send_or rcv (SnapshotReply (snapshot e)) id e"
| "handle_command uuid rcv ResourceEvents e = send_or rcv (EventsReply (events e)) id e"
| "handle_command uuid rcv (AcknowledgeResourceEvents through) e =
     send_or rcv AcknowledgedReply id (acknowledge_resource_events through e)"

subsection \<open>The executor: mailbox and receive loop\<close>

text \<open>
  The task owns the engine and the receiving end of a bounded channel. \<open>leaked\<close> is not part of
  the program: it counts the session claims discarded without a ledger entry.
\<close>

record GroupExecutor =
  engine :: SchedulerEngine
  mailbox :: "GroupCommand list"
  mailbox_capacity :: nat
  leaked :: nat

definition spawn :: "SchedulerEngine \<Rightarrow> nat \<Rightarrow> GroupExecutor" where
  "spawn e cap = \<lparr>engine = e, mailbox = [], mailbox_capacity = max cap 1, leaked = 0\<rparr>"

definition claims_dropped :: "GroupCommand \<Rightarrow> SchedulerEngine \<Rightarrow> nat" where
  "claims_dropped c e =
     (case c of
        RemoveFencedCredential gen cid now \<Rightarrow>
          length (session_claims e) - length (session_claims (snd (remove_fenced_credential gen cid e)))
      | ReconfigureCredential gen cfg now \<Rightarrow>
          length (session_claims e) - length (session_claims (snd (reconfigure_credential gen cfg now e)))
      | _ \<Rightarrow> 0)"

inductive exec_step :: "(nat \<Rightarrow> string) \<Rightarrow> GroupExecutor \<Rightarrow> GroupExecutor \<Rightarrow> bool" for uuid where
  send: "length (mailbox x) < mailbox_capacity x \<Longrightarrow> exec_step uuid x (x\<lparr>mailbox := mailbox x @ [c]\<rparr>)"
| handle: "mailbox x = c # cs \<Longrightarrow> handle_command uuid rcv c (engine x) = (reply, e') \<Longrightarrow>
    exec_step uuid x (x\<lparr>engine := e', mailbox := cs, leaked := leaked x + claims_dropped c (engine x)\<rparr>)"

inductive_cases exec_stepE: "exec_step uuid x y"

definition started :: "GroupExecutor \<Rightarrow> bool" where
  "started x \<longleftrightarrow> (\<exists>ident cfg cs now cap. \<exists>e. engine_new ident cfg cs now = Inr e \<and> x = spawn e cap)"

abbreviation reachable :: "(nat \<Rightarrow> string) \<Rightarrow> GroupExecutor \<Rightarrow> bool" where
  "reachable uuid y \<equiv> \<exists>x. started x \<and> (exec_step uuid)\<^sup>*\<^sup>* x y"

text \<open>The client side: \<^verbatim>\<open>send(..).await\<close> fails when the task has ended, and so does waiting for a reply
  the task never sends; the engine's own error is passed on.\<close>

datatype ActorError = Closed | Scheduler SchedulerError

definition await_reply :: "bool \<Rightarrow> CommandReply option \<Rightarrow> (ActorError, CommandReply) result" where
  "await_reply sent reply = (if \<not> sent then Inl Closed else (case reply of None \<Rightarrow> Inl Closed | Some r \<Rightarrow> Inr r))"

fun flatten_reply :: "(ActorError, CommandReply) result \<Rightarrow> (ActorError, CommandReply) result" where
  "flatten_reply (Inr (AdmissionReply (Inl err))) = Inl (Scheduler err)"
| "flatten_reply (Inr (ReleaseReply (Inl err))) = Inl (Scheduler err)"
| "flatten_reply (Inr (RetryReply (Inl err))) = Inl (Scheduler err)"
| "flatten_reply (Inr (ResolutionsReply (Inl err))) = Inl (Scheduler err)"
| "flatten_reply (Inr (ReconfiguredReply (Inl err))) = Inl (Scheduler err)"
| "flatten_reply (Inr (ConfirmReply (Inl err))) = Inl (Scheduler err)"
| "flatten_reply r = r"

definition call :: "bool \<Rightarrow> CommandReply option \<Rightarrow> (ActorError, CommandReply) result" where
  "call sent reply = flatten_reply (await_reply sent reply)"

subsection \<open>Every handler keeps the resource invariant\<close>

lemma sound_ok:
  "engine_sound uuid N g e \<Longrightarrow> uuid_draws e' = uuid_draws e \<Longrightarrow>
   (engine_ok uuid {#} g e \<Longrightarrow> engine_ok uuid {#} g e') \<Longrightarrow> engine_sound uuid N g e'"
  by (simp add: engine_sound_def)

lemma cancel_draws [simp]: "uuid_draws (snd (cancel gen rid now e)) = uuid_draws e"
  by (auto simp: cancel_def release_group_permit_def Let_def split: option.splits)

lemma release_draws [simp]: "uuid_draws (snd (release_lease gen lid now e)) = uuid_draws e"
  using release_lease_draws [OF surjective_pairing] .

lemma abandon_draws [simp]: "uuid_draws (abandon_admission d now e) = uuid_draws e"
  by (auto simp: abandon_admission_def release_group_permit_def Let_def split: AdmissionDecision.splits)

lemma abandon_sound: "engine_sound uuid N g e \<Longrightarrow> engine_sound uuid N g (abandon_admission d now e)"
  by (erule sound_ok) (auto dest: engine_ok_abandon)

lemma abandon_resolutions_sound: "engine_sound uuid N g e \<Longrightarrow> engine_sound uuid N g (abandon_resolutions rs now e)"
  by (induction rs arbitrary: e) (auto intro: abandon_sound)

lemma send_or_sound:
  "send_or rcv r undo e = (reply, e') \<Longrightarrow> engine_sound uuid N g e \<Longrightarrow>
   (\<And>e. engine_sound uuid N g e \<Longrightarrow> engine_sound uuid N g (undo e)) \<Longrightarrow> engine_sound uuid N g e'"
  by (auto simp: send_or_def split: if_splits)

lemma pump_and_send_sound:
  assumes "uuid_ok uuid N" and "engine_sound uuid N g e" and "pump_and_send uuid rcv gen now mk e = (reply, e')"
  shows "engine_sound uuid N g e'"
proof -
  obtain rs e1 where P: "pump uuid gen now e = (rs, e1)" by fastforce
  show ?thesis
    by (rule send_or_sound [of rcv "mk rs" "abandon_resolutions rs now" e1 reply])
      (use assms(3) P pump_sound [OF assms(1,2) P] abandon_resolutions_sound in \<open>auto simp: pump_and_send_def\<close>)
qed

lemma release_sound: "engine_sound uuid N g e \<Longrightarrow> engine_sound uuid N g (snd (release_lease gen lid now e))"
  by (erule sound_ok) (auto intro: engine_ok_release [OF _ surjective_pairing])

lemma handle_admit_sound:
  assumes "uuid_ok uuid N" and "engine_sound uuid N g e" and "handle_admit uuid rcv gen entry now e = (reply, e')"
  shows "engine_sound uuid N g e'"
proof (cases "rcv = ClosedBefore")
  case False
  obtain r e1 where A: "admit uuid gen entry now e = (r, e1)" by fastforce
  have S: "engine_sound uuid N g e1"
    by (rule sound_step [OF assms(2) admit_draws [OF A] admit_ok [OF assms(1) _ A]])
  have Z: "send_or rcv (AdmissionReply r) (\<lambda>e. case r of Inl _ \<Rightarrow> e | Inr d \<Rightarrow> abandon_admission d now e) e1 = (reply, e')"
    using assms(3) A False by (simp add: handle_admit_def)
  show ?thesis
    by (rule send_or_sound [OF Z S]) (auto intro: abandon_sound split: sum.splits)
qed (use assms in \<open>simp add: handle_admit_def\<close>)

lemma handle_applied_sound:
  assumes "uuid_ok uuid N" and "engine_sound uuid N g (snd p)" and "handle_applied uuid rcv gen now p = (reply, e')"
  shows "engine_sound uuid N g e'"
  using assms pump_and_send_sound [OF assms(1)]
  by (cases p) (auto simp: handle_applied_def send_or_def split: if_splits)

lemma handle_release_sound:
  assumes "uuid_ok uuid N" and "engine_sound uuid N g e" and "handle_release uuid rcv gen lid now e = (reply, e')"
  shows "engine_sound uuid N g e'"
proof -
  obtain r e1 where R: "release_lease gen lid now e = (r, e1)" by fastforce
  have "engine_sound uuid N g e1" using release_sound [OF assms(2), of gen lid now] R by simp
  with assms(3) R pump_and_send_sound [OF assms(1)] show ?thesis
    by (cases r) (auto simp: handle_release_def send_or_def split: if_splits)
qed

lemma handle_replace_sound:
  assumes "uuid_ok uuid N" and "engine_sound uuid N g e" and "handle_replace uuid rcv gen req now e = (reply, e')"
  shows "engine_sound uuid N g e'"
proof -
  obtain r e1 where R: "replace_lease uuid gen req now e = (r, e1)" by fastforce
  have S: "engine_sound uuid N g e1"
    by (rule sound_step [OF assms(2) replace_lease_draws [OF R] replace_lease_ok [OF assms(1) _ R]])
  have U: "engine_sound uuid N g (case complete_request uuid gen rid now (snd (release_lease gen lid now e)) of
      (Inl _, e2) \<Rightarrow> e2 | (Inr rs, e2) \<Rightarrow> abandon_resolutions rs now e2)" if "engine_sound uuid N g e" for rid lid e
    using complete_request_sound [OF assms(1) release_sound [OF that]] abandon_resolutions_sound
    by (fastforce split: prod.splits sum.splits)
  show ?thesis
    by (rule send_or_sound [OF assms(3) [unfolded handle_replace_def R prod.case] S])
      (auto intro: U split: sum.splits RetryLeaseDecision.splits)
qed

lemma reject_drained_draws: "reject_drained keep retry now es e = (rs, e') \<Longrightarrow> uuid_draws e' = uuid_draws e"
  by (induction es arbitrary: e rs) (auto simp: Let_def split: if_splits prod.splits)

lemma handle_reconfigure_group_sound:
  assumes "uuid_ok uuid N" and "engine_sound uuid N g e" and "handle_reconfigure_group uuid rcv gen cfg now e = (reply, e')"
  shows "engine_sound uuid N g e'"
proof -
  obtain r e1 where R: "reconfigure gen cfg now e = (r, e1)" by fastforce
  have d: "uuid_draws e1 = uuid_draws e"
    using R reject_drained_draws by (auto simp: reconfigure_def prune_frame split: if_splits prod.splits)
  have S: "engine_sound uuid N g e1"
    by (rule sound_ok [OF assms(2) d]) (use engine_ok_reconfigure [OF _ R] in blast)
  show ?thesis
  proof (cases r)
    case (Inl err)
    with assms(3) R S show ?thesis by (auto simp: handle_reconfigure_group_def send_or_def split: if_splits)
  next
    case (Inr rs)
    obtain rs' e2 where P: "pump uuid gen now e1 = (rs', e2)" by fastforce
    show ?thesis
      by (rule send_or_sound [of rcv "ResolutionsReply (Inr (rs @ rs'))" "abandon_resolutions (rs @ rs') now" e2 reply])
        (use assms(3) R Inr P pump_sound [OF assms(1) S P] abandon_resolutions_sound in
          \<open>auto simp: handle_reconfigure_group_def\<close>)
  qed
qed

lemma handle_complete_sound:
  assumes "uuid_ok uuid N" and "engine_sound uuid N g e" and "handle_complete uuid rcv gen rid now e = (reply, e')"
  shows "engine_sound uuid N g e'"
proof -
  obtain r e1 where C: "complete_request uuid gen rid now e = (r, e1)" by fastforce
  note S = conjunct1 [OF complete_request_sound [OF assms(1,2) C]]
  show ?thesis
    using assms(3) C S abandon_resolutions_sound
    by (cases r) (auto simp: handle_complete_def send_or_def split: if_splits)
qed

text \<open>All commands but the two that discard session claims keep the ledger exact.\<close>

lemma handle_command_sound:
  assumes U: "uuid_ok uuid N" and S: "engine_sound uuid N g e" and H: "handle_command uuid rcv c e = (reply, e')"
  shows "engine_sound uuid N (g + int (claims_dropped c e)) e'"
proof (cases c)
  case (Cancel gen rid now)
  have "engine_sound uuid N g (snd (cancel gen rid now e))"
    by (rule sound_ok [OF S]) (use engine_ok_cancel [OF _ surjective_pairing] in auto)
  with H Cancel show ?thesis by (auto simp: claims_dropped_def send_or_def split: prod.splits if_splits)
next
  case (SetCredentialFence gen cid fenced now)
  have "engine_sound uuid N g (snd (set_credential_fence gen cid fenced e))"
    by (rule sound_ok [OF S]) (use engine_ok_observe(5) in \<open>auto simp: set_credential_fence_def split: option.splits\<close>)
  from pump_and_send_sound [OF U this] H SetCredentialFence show ?thesis
    by (cases "set_credential_fence gen cid fenced e") (simp add: claims_dropped_def)
next
  case (RemoveFencedCredential gen cid now)
  obtain r e1 where R: "remove_fenced_credential gen cid e = (r, e1)" by fastforce
  have le: "length (session_claims e1) \<le> length (session_claims e)" and d: "uuid_draws e1 = uuid_draws e"
    using R drop_idle_of_le [of cid "e\<lparr>credentials := bt_remove cid (credentials e)\<rparr>"]
    by (auto simp: remove_fenced_credential_def drop_idle_of_def split: if_splits option.splits)
  have S1: "engine_sound uuid N (g + int (claims_dropped c e)) e1"
    by (rule sound_step [OF S])
      (use d le engine_ok_remove_fenced [OF _ R] RemoveFencedCredential R in \<open>auto simp: claims_dropped_def\<close>)
  from pump_and_send_sound [OF U S1] H RemoveFencedCredential R show ?thesis by simp
next
  case (ReconfigureCredential gen cfg now)
  obtain r e1 where R: "reconfigure_credential gen cfg now e = (r, e1)" by fastforce
  have le: "length (session_claims e1) \<le> length (session_claims e)" and d: "uuid_draws e1 = uuid_draws e"
    using R by (auto simp: reconfigure_credential_def drop_idle_of_def bt_retain_def Let_def split: if_splits option.splits)
  have S1: "engine_sound uuid N (g + int (claims_dropped c e)) e1"
    by (rule sound_step [OF S])
      (use d le engine_ok_reconfigure_credential [OF _ R] ReconfigureCredential R in \<open>auto simp: claims_dropped_def\<close>)
  from pump_and_send_sound [OF U S1] S1 H ReconfigureCredential R show ?thesis
    by (cases r) (auto simp: handle_reconfigure_credential_def send_or_def split: if_splits)
next
  case (ConfirmTransportCancel gen rid now)
  obtain r e1 where R: "confirm_transport_cancel gen rid now e = (r, e1)" by fastforce
  have d: "uuid_draws e1 = uuid_draws e"
    using R by (auto simp: confirm_transport_cancel_def split: if_splits option.splits dest!: release_lease_draws)
  have "engine_sound uuid N g e1" by (rule sound_ok [OF S d]) (use engine_ok_confirm [OF _ R] in blast)
  with H ConfirmTransportCancel R show ?thesis by (auto simp: claims_dropped_def send_or_def split: if_splits)
next
  case (BeginDrain gen now)
  obtain rs e1 where R: "disable gen now e = (rs, e1)" by fastforce
  have d: "uuid_draws e1 = uuid_draws e"
    using R by (auto simp: disable_def split: if_splits prod.splits dest!: reject_drained_draws)
  have "engine_sound uuid N g e1" by (rule sound_ok [OF S d]) (use engine_ok_disable [OF _ R] in blast)
  with H BeginDrain R show ?thesis by (auto simp: claims_dropped_def send_or_def split: if_splits)
next
  case (AcknowledgeResourceEvents n)
  have "engine_sound uuid N g (acknowledge_resource_events n e)"
    by (rule sound_ok [OF S]) (simp_all add: acknowledge_resource_events_def)
  with H AcknowledgeResourceEvents show ?thesis by (auto simp: claims_dropped_def send_or_def split: if_splits)
next
  case (ObserveCredentialCooldown gen u now)
  have "engine_sound uuid N g (snd (observe_credential_cooldown gen u e))"
    by (rule sound_ok [OF S]) (use engine_ok_observe(1) in \<open>auto simp: observe_credential_cooldown_def split: option.splits\<close>)
  from handle_applied_sound [OF U this] H ObserveCredentialCooldown show ?thesis
    by (simp add: claims_dropped_def handle_observe_cooldown_def)
next
  case (ObserveCredentialAuth gen u now)
  have "engine_sound uuid N g (snd (observe_credential_auth gen u e))"
    by (rule sound_ok [OF S]) (use engine_ok_observe(2) in \<open>auto simp: observe_credential_auth_def split: option.splits\<close>)
  from handle_applied_sound [OF U this] H ObserveCredentialAuth show ?thesis
    by (simp add: claims_dropped_def handle_observe_auth_def)
next
  case (ObserveCredentialQuota gen u now)
  have "engine_sound uuid N g (snd (observe_credential_quota gen u e))"
    by (rule sound_ok [OF S]) (use engine_ok_observe(3) in \<open>auto simp: observe_credential_quota_def split: option.splits\<close>)
  from handle_applied_sound [OF U this] H ObserveCredentialQuota show ?thesis
    by (simp add: claims_dropped_def handle_observe_quota_def)
next
  case (Admit gen entry now)
  with H handle_admit_sound [OF U S] show ?thesis by (simp add: claims_dropped_def)
next
  case (ReleaseLease gen lid now)
  with H handle_release_sound [OF U S] show ?thesis by (simp add: claims_dropped_def)
next
  case (ReplaceLease gen req now)
  with H handle_replace_sound [OF U S] show ?thesis by (simp add: claims_dropped_def)
next
  case (ReconfigureGroup gen cfg now)
  with H handle_reconfigure_group_sound [OF U S] show ?thesis by (simp add: claims_dropped_def)
next
  case (CompleteRequest gen rid now)
  with H handle_complete_sound [OF U S] show ?thesis by (simp add: claims_dropped_def)
next
  case (Tick gen now)
  with S H pump_and_send_sound [OF U S, of rcv gen now PumpReply reply e'] show ?thesis
    by (simp add: claims_dropped_def split: if_splits)
qed (use S H in \<open>auto simp: claims_dropped_def send_or_def split: if_splits\<close>)

subsection \<open>Invariants of reachable states\<close>

definition exec_inv :: "(nat \<Rightarrow> string) \<Rightarrow> nat \<Rightarrow> GroupExecutor \<Rightarrow> bool" where
  "exec_inv uuid N x \<longleftrightarrow>
     length (mailbox x) \<le> mailbox_capacity x \<and>
     (uuid_ok uuid N \<longrightarrow> engine_sound uuid N (int (leaked x)) (engine x))"

interpretation executor: invariant_system started "exec_step uuid" "exec_inv uuid N" for uuid N
proof unfold_locales
  fix x assume "started x"
  then show "exec_inv uuid N x"
    using engine_ok_new by (fastforce simp: started_def exec_inv_def spawn_def engine_sound_def)
next
  fix x y assume I: "exec_inv uuid N x" and S: "exec_step uuid x y"
  from S I show "exec_inv uuid N y"
  proof (cases rule: exec_step.cases)
    case (handle c cs rcv reply e')
    with I handle_command_sound [OF _ _ handle(3), of N "int (leaked x)"] show ?thesis
      by (auto simp: exec_inv_def)
  qed (auto simp: exec_inv_def)
qed

lemma reachable_engine_ok:
  assumes "uuid_ok uuid N" and "reachable uuid x" and "uuid_draws (engine x) \<le> N"
  shows "engine_ok uuid {#} (int (leaked x)) (engine x)"
  using executor.reachable_inv [OF assms(2), of N] assms(1,3) by (simp add: exec_inv_def engine_sound_def)

end
