(* ===== verification/Scheduler_Properties.thy ===== *)
theory Scheduler_Properties
  imports Actor
begin

text \<open>
  What the group scheduler promises to its callers, over the engine and the actor:
  admission, resource accounting, owner fencing, release, cancellation, the pump and
  draining.
\<close>

subsection \<open>What a grant does\<close>

lemma install_lease_tables:
  "bt_get (leases (install_lease entry l now acq e)) (cl_id l) =
     Some \<lparr>lease = l, session_claim_key = fst (fst (acquire_session_claim entry (cl_credential_id l) e))\<rparr>"
  "bt_get (request_leases (install_lease entry l now acq e)) (se_request_id entry) = Some (cl_id l)"
  "credentials (install_lease entry l now acq e) = credentials e"
  "group_permits (install_lease entry l now acq e) =
     (if acq then insert (se_request_id entry) (group_permits e) else group_permits e)"
  by (auto simp: install_lease_def acquire_session_claim_def Let_def split: prod.splits option.splits)

lemma grant_ready:
  assumes "uuid_ok uuid N" and "uuid_draws e < N" and "bt_get (credentials e) cid = Some rt"
    and "credential_ready rt (config e) entry now"
  shows "\<exists>l e'. grant uuid entry cid now acq e = (Inr l, e')"
proof -
  obtain x rt' where "charge_runtime (config e) entry now rt = (Some x, rt')" using charge_ready [OF assms(4)] by blast
  moreover have "(TypedId_new (''lease_'' @ uuid (uuid_draws e)) :: LeaseId DomainResult) = Inr (TypedId (''lease_'' @ uuid (uuid_draws e)))"
    by (rule uuid_ok_TypedId [OF assms(1,2)]) simp_all
  ultimately show ?thesis using assms(3) by (cases x) (simp add: grant_def Let_def)
qed

lemma grant_Inr:
  assumes "grant uuid entry cid now acq e = (Inr l, e')"
  obtains rt rt' where "bt_get (credentials e) cid = Some rt" and "bt_get (credentials e') cid = Some rt'"
    and "unat (inflight rt') = Suc (unat (inflight rt))" and "inflight rt' \<le> cc_concurrency_limit (rt_config rt')"
    and "\<exists>st. rt_config rt' = (rt_config rt)\<lparr>cc_state := st\<rparr> \<and> lifecycle_active st = lifecycle_active (cc_state (rt_config rt))"
    and "admin_fenced rt' = admin_fenced rt"
    and "cl_request_id l = se_request_id entry" and "cl_credential_id l = cid" and "owner_generation l = generation e"
    and "bt_get (request_leases e') (se_request_id entry) = Some (cl_id l)"
    and "\<exists>rec. bt_get (leases e') (cl_id l) = Some rec \<and> lease rec = l"
    and "group_permits e' = (if acq then insert (se_request_id entry) (group_permits e) else group_permits e)"
    and "credentials e' = bt_modify cid (\<lambda>_. rt') (credentials e)" and "config e' = config e"
proof -
  obtain rt where rt: "bt_get (credentials e) cid = Some rt"
    using assms by (auto simp: grant_def split: option.splits)
  obtain res rt' where C: "charge_runtime (config e) entry now rt = (res, rt')" by fastforce
  obtain x where res: "res = Some x" using assms rt C by (auto simp: grant_def Let_def split: option.splits)
  let ?e2 = "e\<lparr>credentials := bt_modify cid (\<lambda>_. rt') (credentials e), uuid_draws := Suc (uuid_draws e)\<rparr>"
  have e': "e' = install_lease entry l now acq ?e2"
    and l: "cl_request_id l = se_request_id entry" "cl_credential_id l = cid" "owner_generation l = generation e"
    using assms rt C res by (auto simp: grant_def Let_def split: prod.splits sum.splits)
  note S = charge_runtime_Some [OF C [unfolded res]]
  obtain st where st: "rt_config rt' = (rt_config rt)\<lparr>cc_state := st\<rparr>"
      "lifecycle_active st = lifecycle_active (cc_state (rt_config rt))"
    using charge_runtime_config [OF C] by blast
  have lim: "inflight rt' \<le> cc_concurrency_limit (rt_config rt')"
    using S st by (simp add: word_le_nat_alt word_less_nat_alt)
  show thesis
    by (rule that [OF rt, of rt'])
      (use rt S st lim l charge_runtime_admin [OF C] in
        \<open>auto simp: e' install_lease_tables same_frameD(3) [OF install_lease_frame]\<close>)
qed

subsection \<open>Capacity does not move while the engine serves\<close>

definition cap_view :: "(CredentialId, CredentialRuntime) btree \<Rightarrow> (bool \<times> u32) list" where
  "cap_view creds = map (\<lambda>p. (lifecycle_active (cc_state (rt_config (snd p))), cc_concurrency_limit (rt_config (snd p)))) creds"

lemma capacity_sum_view:
  "capacity_sum creds = foldl saturating_add 0 (map snd (filter fst (cap_view creds)))"
proof -
  have "map (\<lambda>p. cc_concurrency_limit (rt_config (snd p))) (filter (\<lambda>p. lifecycle_active (cc_state (rt_config (snd p)))) creds) =
      map snd (filter fst (cap_view creds))"
    by (induction creds) (simp_all add: cap_view_def)
  then show ?thesis by (simp only: capacity_sum_def)
qed

lemma effective_concurrency_cong:
  "cap_view (credentials e') = cap_view (credentials e) \<Longrightarrow> config e' = config e \<Longrightarrow>
   effective_concurrency e' = effective_concurrency e"
  by (simp add: effective_concurrency_def capacity_sum_view)

lemma cap_view_settled [simp]: "cap_view (bt_map (settled claims cfg entry now) creds) = cap_view creds"
  by (induction creds) (auto simp: cap_view_def bt_map_def)

lemma cap_view_modify:
  "bt_get creds cid = Some rt \<Longrightarrow> lifecycle_active (cc_state (rt_config rt')) = lifecycle_active (cc_state (rt_config rt)) \<Longrightarrow>
   cc_concurrency_limit (rt_config rt') = cc_concurrency_limit (rt_config rt) \<Longrightarrow>
   cap_view (bt_modify cid (\<lambda>_. rt') creds) = cap_view creds"
  by (induction creds) (auto simp: cap_view_def split: if_splits)

lemma grant_capacity:
  assumes "grant uuid entry cid now acq e = (r, e')"
  shows "effective_concurrency e' = effective_concurrency e"
proof (rule effective_concurrency_cong)
  show "config e' = config e" by (rule same_frameD(3) [OF grant_frame [OF assms]])
  show "cap_view (credentials e') = cap_view (credentials e)"
  proof (cases "bt_get (credentials e) cid")
    case None
    with assms show ?thesis by (simp add: grant_def)
  next
    case (Some rt)
    obtain res rt' where C: "charge_runtime (config e) entry now rt = (res, rt')" by fastforce
    have "credentials e' = bt_modify cid (\<lambda>_. rt') (credentials e)"
      using assms Some C by (auto simp: grant_def Let_def install_lease_tables split: option.splits sum.splits)
    moreover obtain st where "rt_config rt' = (rt_config rt)\<lparr>cc_state := st\<rparr>"
        "lifecycle_active st = lifecycle_active (cc_state (rt_config rt))"
      using charge_runtime_config [OF C] by blast
    ultimately show ?thesis using cap_view_modify [OF Some, of rt'] by simp
  qed
qed

lemma evaluate_view:
  "evaluate_pool_fields creds affs claims cfg entry now = (ev, creds') \<Longrightarrow> cap_view creds' = cap_view creds"
  using evaluate_pool_fields_snd [of creds affs claims cfg entry now] by simp

lemma pump_runnable_view:
  "cap_view (snd (snd (snd (pump_runnable affs claims cfg now entry s)))) = cap_view (snd (snd s))"
proof -
  obtain gb ad creds where s: "s = (gb, ad, creds)" by (cases s)
  obtain ok gb' ad' where r: "rate_ready (se_request_id entry) now gb ad = (ok, gb', ad')" by (metis prod_cases3)
  obtain ev creds' where e: "evaluate_pool_fields creds affs claims cfg entry now = (ev, creds')" by fastforce
  show ?thesis by (cases ok) (simp_all add: pump_runnable_def s r e evaluate_view [OF e])
qed

lemma pump_turn_capacity:
  assumes "queue_inv (queue e)" and "pump_turn uuid now e = (r, e')"
  shows "effective_concurrency e' = effective_concurrency e"
proof -
  let ?R = "pump_runnable (affinities e) (session_claims e) (config e) now"
  obtain popped q gb ad cr where P: "FairQueue_pop_runnable ?R (queue e) (group_bucket e, group_rate_admitted e, credentials e)
      = (popped, q, gb, ad, cr)" by (metis prod_cases5)
  let ?e1 = "e\<lparr>queue := q, group_bucket := gb, group_rate_admitted := ad, credentials := cr\<rparr>"
  have "cap_view cr = cap_view (credentials e)"
    using fair_queue.pop_state [where J = "\<lambda>s. cap_view (snd (snd s)) = cap_view (credentials e)", OF assms(1) _ _ P]
    by (simp add: pump_runnable_view)
  then have E1: "effective_concurrency ?e1 = effective_concurrency e"
    by (intro effective_concurrency_cong) simp_all
  have V: "effective_concurrency e3 = effective_concurrency e2" if "evaluate_pool entry now e2 = (ev, e3)" for entry e2 ev e3
  proof (rule effective_concurrency_cong)
    show "cap_view (credentials e3) = cap_view (credentials e2)" "config e3 = config e2"
      using that by (auto simp: evaluate_pool_def split: prod.splits dest: evaluate_view)
  qed
  have W: "effective_concurrency (drop_waiting rid a now e2) = effective_concurrency e2"
      "effective_concurrency (forget_rate rid e2) = effective_concurrency e2"
      "effective_concurrency (e2\<lparr>queue := q2, waiting := w2\<rparr>) = effective_concurrency e2" for rid a e2 q2 w2
    by (simp_all add: effective_concurrency_def)
  show ?thesis
    using assms(2) P E1
    by (auto simp: pump_turn_def Let_def W split: if_splits option.splits prod.splits PoolEvaluation.splits
        dest!: V grant_capacity)
qed

subsection \<open>Admission outcomes\<close>

lemma cap_view_settle [simp]: "cap_view (bt_map (\<lambda>_. settle_half_open cfg) creds) = cap_view creds"
  by (induction creds) (auto simp: cap_view_def bt_map_def)

lemma drop_claims_session:
  "session_claims (drop_claims ks now e) = fold (\<lambda>k m. bt_remove (fst k) m) ks (session_claims e)"
  by (induction ks arbitrary: e) auto

lemma prune_credentials: "credentials (prune now e) = bt_map (\<lambda>_. settle_half_open (config e)) (credentials e)"
  using drop_claims_frame by (simp add: prune_def Let_def same_frame_def)

lemma prune_affinities: "affinities (prune now e) = bt_retain (\<lambda>_ a. now < expires_at a) (affinities e)"
  using drop_claims_frame by (simp add: prune_def Let_def same_frame_def)

text \<open>Housekeeping does not depend on the set of requests seen.\<close>

lemma prune_cong:
  assumes "credentials e' = credentials e" and "session_claims e' = session_claims e" and "affinities e' = affinities e"
    and "config e' = config e"
  shows "credentials (prune now e') = credentials (prune now e)" and "session_claims (prune now e') = session_claims (prune now e)"
    and "affinities (prune now e') = affinities (prune now e)"
proof -
  show "credentials (prune now e') = credentials (prune now e)" "affinities (prune now e') = affinities (prune now e)"
    using assms by (simp_all add: prune_credentials prune_affinities)
  show "session_claims (prune now e') = session_claims (prune now e)"
    using assms by (simp add: prune_def Let_def drop_claims_session)
qed

lemma prune_capacity: "effective_concurrency (prune now e) = effective_concurrency e"
  by (rule effective_concurrency_cong) (simp_all add: prune_credentials prune_frame)

lemma in_ready_get:
  assumes "creds_wf creds ls" and "fst (evaluate_pool_fields creds affs claims cfg entry now) = Candidate cid"
  shows "\<exists>rt. bt_get creds cid = Some rt \<and> considered claims entry cid rt \<and> credential_ready rt cfg entry now"
  using evaluate_candidate_cases [OF assms(2)] retain_best_set in_ready_credentials [OF creds_wf_bt [OF assms(1)]] by blast

lemma evaluate_pool_eq:
  "evaluate_pool entry now e =
     (fst (evaluate_pool_fields (credentials e) (affinities e) (session_claims e) (config e) entry now),
      e\<lparr>credentials := snd (evaluate_pool_fields (credentials e) (affinities e) (session_claims e) (config e) entry now)\<rparr>)"
  by (simp add: evaluate_pool_def split: prod.splits)

text \<open>A candidate found by the evaluation can be granted.\<close>

lemma grant_after_evaluate:
  assumes "uuid_ok uuid N" and "engine_ok uuid X g e" and "uuid_draws e < N"
    and "evaluate_pool entry now e = (Candidate cid, e1)"
  shows "\<exists>l e'. grant uuid entry cid now acq e1 = (Inr l, e')"
proof -
  let ?E = "evaluate_pool_fields (credentials e) (affinities e) (session_claims e) (config e) entry now"
  have e1: "e1 = e\<lparr>credentials := snd ?E\<rparr>" and c: "fst ?E = Candidate cid"
    using assms(4) by (auto simp: evaluate_pool_def split: prod.splits)
  obtain rt where "bt_get (credentials e) cid = Some rt" "credential_ready rt (config e) entry now"
    using in_ready_get [OF engine_okD(1) [OF assms(2)] c] by blast
  then show ?thesis
    using grant_ready [OF assms(1), of e1 cid "settled (session_claims e) (config e) entry now cid rt"] assms(3)
    by (simp add: e1 evaluate_pool_fields_snd)
qed

lemma enqueue_ok:
  assumes "uuid_ok uuid N" and "enqueue uuid entry now slot e = (r, e')" and "uuid_draws e' \<le> N"
  shows "\<exists>d. r = Inr d"
proof (cases "queue_capacity e \<le> fq_len (queue e)")
  case True
  with assms show ?thesis by (auto simp: enqueue_def)
next
  case False
  then have "uuid_draws e < N" using assms(2,3) by (auto simp: enqueue_def Let_def split: sum.splits)
  then have "(TypedId_new (''ticket_'' @ uuid (uuid_draws e)) :: TicketId DomainResult) = Inr (TypedId (''ticket_'' @ uuid (uuid_draws e)))"
    by (rule uuid_ok_TypedId [OF assms(1)]) simp_all
  with False assms(2) show ?thesis by (auto simp: enqueue_def Let_def)
qed

lemma grant_Inl_draws:
  assumes "grant uuid entry cid now acq e = (Inl err, e')" and "charge_runtime (config e) entry now rt = (Some x, rt')"
    and "bt_get (credentials e) cid = Some rt"
  shows "uuid_draws e' = Suc (uuid_draws e)"
  using assms by (cases x) (auto simp: grant_def Let_def split: sum.splits)

lemma admit_pool_total:
  assumes U: "uuid_ok uuid N" and E: "engine_ok uuid {#} g e"
    and A: "admit_pool uuid entry now e = (r, e')" and N: "uuid_draws e' \<le> N"
  shows "\<exists>d. r = Inr d"
  using A
proof (cases rule: admit_pool_cases)
  case (candidate cid e1 r')
  obtain cr where e1: "e1 = e\<lparr>credentials := cr\<rparr>" using evaluate_pool_frame [OF candidate(1)] by blast
  have "uuid_draws e < N"
  proof (rule ccontr)
    assume "\<not> uuid_draws e < N"
    then have "uuid_draws e' = uuid_draws e1" using grant_draws [OF candidate(2)] N e1 by auto
    moreover have "uuid_draws e' = Suc (uuid_draws e1)"
    proof -
      let ?E = "evaluate_pool_fields (credentials e) (affinities e) (session_claims e) (config e) entry now"
      have cr: "credentials e1 = snd ?E" and c: "fst ?E = Candidate cid"
        using candidate(1) by (auto simp: evaluate_pool_eq)
      obtain rt where rt: "bt_get (credentials e) cid = Some rt" "credential_ready rt (config e) entry now"
        using in_ready_get [OF engine_okD(1) [OF E] c] by blast
      let ?rt = "settled (session_claims e) (config e) entry now cid rt"
      obtain x rt' where C: "charge_runtime (config e1) entry now ?rt = (Some x, rt')"
        using charge_ready [of ?rt "config e" entry now] rt(2) e1 by auto
      have "bt_get (credentials e1) cid = Some ?rt" using rt(1) by (simp add: cr evaluate_pool_fields_snd)
      with C candidate(2) show ?thesis by (cases x) (auto simp: grant_def Let_def split: sum.splits)
    qed
    ultimately show False by simp
  qed
  from grant_after_evaluate [OF U E this candidate(1), of True] candidate show ?thesis by auto
next
  case (queue ev e1 slot)
  with enqueue_ok [OF U _ N] show ?thesis by blast
qed auto

lemma admit_wrong_group:
  assumes "uuid_ok uuid N" and "engine_ok uuid {#} g e"
    and "admit uuid gen entry now e = (Inl err, e')" and "uuid_draws e' \<le> N"
  shows "err = WrongGroup \<and> e' = e \<and> se_group_id entry \<noteq> ei_group_id (identity e)"
proof (cases "admit_accepted uuid entry now e = (Inl err, e') \<and> se_request_id entry \<notin> seen_requests e")
  case False
  with assms(3) show ?thesis by (auto simp: admit_def split: if_splits)
next
  case True
  let ?rid = "se_request_id entry"
  let ?e0 = "e\<lparr>seen_requests := insert ?rid (seen_requests e),
      request_portability := bt_insert ?rid (portability (generic entry)) (request_portability e)\<rparr>"
  have E1: "engine_ok uuid {#} g (prune now ?e0)"
    using engine_ok_prune [of uuid "{#}" g ?e0] engine_ok_seen [OF assms(2)] by simp
  from conjunct1 [OF True] have False
  proof (cases rule: admit_accepted_cases)
    case (pool gb ra)
    show False using admit_pool_total [OF assms(1) _ pool assms(4), of g] E1 by simp
  next
    case (queue gb)
    show False using enqueue_ok [OF assms(1) queue assms(4)] by simp
  qed simp
  then show ?thesis ..
qed

text \<open>Admission never fails internally: the only error it returns is that the request belongs
  to another group; a credential it selected can always be granted.\<close>

theorem admit_only_wrong_group:
  assumes "uuid_ok uuid N" and "engine_ok uuid {#} g e"
    and "admit uuid gen entry now e = (Inl err, e')" and "uuid_draws e' \<le> N"
  shows "err = WrongGroup \<and> e' = e \<and> se_group_id entry \<noteq> ei_group_id (identity e)"
  using assms by (rule admit_wrong_group)

text \<open>The group's own rate limit, when it has one, has a token for the request.\<close>

definition group_rate_open :: "duration \<Rightarrow> SchedulerEngine \<Rightarrow> bool" where
  "group_rate_open now e = is_none_or (group_bucket e) (\<lambda>b. fst (try_consume b now))"

lemma admit_accepted_open:
  assumes "group_rate_open now e"
  obtains gb ra where "admit_accepted uuid entry now e = admit_pool uuid entry now
      ((prune now (e\<lparr>seen_requests := insert (se_request_id entry) (seen_requests e),
        request_portability := bt_insert (se_request_id entry) (portability (generic entry)) (request_portability e)\<rparr>))
       \<lparr>group_bucket := gb, group_rate_admitted := ra\<rparr>)"
proof (cases "group_bucket e")
  case None
  let ?e1 = "prune now (e\<lparr>seen_requests := insert (se_request_id entry) (seen_requests e),
        request_portability := bt_insert (se_request_id entry) (portability (generic entry)) (request_portability e)\<rparr>)"
  have "?e1\<lparr>group_bucket := group_bucket ?e1, group_rate_admitted := group_rate_admitted ?e1\<rparr> = ?e1" by simp
  moreover have "admit_accepted uuid entry now e = admit_pool uuid entry now ?e1"
    using None by (simp add: admit_accepted_def Let_def prune_frame del: SchedulerEngine.simps)
  ultimately have "admit_accepted uuid entry now e = admit_pool uuid entry now
      (?e1\<lparr>group_bucket := group_bucket ?e1, group_rate_admitted := group_rate_admitted ?e1\<rparr>)" by (simp only:)
  then show thesis by (rule that)
next
  case (Some b)
  obtain b' where "try_consume b now = (True, b')"
    using assms by (cases "try_consume b now") (simp add: group_rate_open_def Some)
  with Some show thesis
    by (intro that [where gb = "Some b'"]) (simp add: admit_accepted_def Let_def prune_frame)
qed

lemma admit_grants:
  assumes U: "uuid_ok uuid N" "uuid_draws e < N" and E: "engine_ok uuid {#} g e"
    and guards: "gen = generation e" "se_group_id entry = ei_group_id (identity e)"
      "group_config (snapshot_set (generic entry)) = snapshot_version (config e)"
      "se_request_id entry \<notin> seen_requests e" "lifecycle e = Serving" "now < pre_upstream_deadline entry"
    and free: "group_rate_open now e" "fq_len (queue e) = 0" "card (group_permits e) < effective_concurrency e"
      "\<not> affinity_holds (credentials (prune now e)) (affinities (prune now e)) (config e) entry now"
      "ready_credentials (credentials (prune now e)) (session_claims (prune now e)) (config e) entry now \<noteq> []"
  shows "\<exists>l e'. admit uuid gen entry now e = (Inr (Granted l), e')"
proof -
  let ?rid = "se_request_id entry"
  let ?e0 = "e\<lparr>seen_requests := insert ?rid (seen_requests e),
      request_portability := bt_insert ?rid (portability (generic entry)) (request_portability e)\<rparr>"
  obtain gb ra where A: "admit_accepted uuid entry now e =
      admit_pool uuid entry now ((prune now ?e0)\<lparr>group_bucket := gb, group_rate_admitted := ra\<rparr>)"
    using admit_accepted_open [OF free(1)] by blast
  let ?e1 = "(prune now ?e0)\<lparr>group_bucket := gb, group_rate_admitted := ra\<rparr>"
  have P: "credentials ?e1 = credentials (prune now e)" "session_claims ?e1 = session_claims (prune now e)"
      "affinities ?e1 = affinities (prune now e)" "config ?e1 = config e"
    using prune_cong [of ?e0 e] by (simp_all add: prune_frame)
  have E1: "engine_ok uuid {#} g ?e1"
    using engine_ok_prune [of uuid "{#}" g ?e0] engine_ok_seen [OF E] by simp
  have "bt_wf (credentials (prune now e))"
    using engine_okD(1) [OF E1] unfolding P(1) creds_wf_def by simp
  from ready_pool_candidate [OF free(5) this free(4)]
  have "\<exists>cid. fst (evaluate_pool_fields (credentials ?e1) (affinities ?e1) (session_claims ?e1) (config ?e1) entry now) = Candidate cid"
    unfolding P .
  then obtain cid e2 where V: "evaluate_pool entry now ?e1 = (Candidate cid, e2)"
    unfolding evaluate_pool_eq by blast
  obtain cr where e2: "e2 = ?e1\<lparr>credentials := cr\<rparr>" using evaluate_pool_frame [OF V] by blast
  have "effective_concurrency e2 = effective_concurrency ?e1"
    by (rule effective_concurrency_cong)
      (use V in \<open>auto simp: evaluate_pool_eq evaluate_pool_fields_snd\<close>)
  also have "\<dots> = effective_concurrency (prune now ?e0)"
    by (rule effective_concurrency_cong) simp_all
  also have "\<dots> = effective_concurrency e"
    unfolding prune_capacity by (rule effective_concurrency_cong) simp_all
  finally have cap: "card (group_permits e2) < effective_concurrency e2" "fq_len (queue e2) = 0"
    using free e2 by (simp_all add: prune_frame)
  obtain l e' where G: "grant uuid entry cid now True e2 = (Inr l, e')"
    using grant_after_evaluate [OF U(1) E1 _ V, of True] U(2) by (auto simp: prune_frame)
  have "admit_pool uuid entry now ?e1 = (Inr (Granted l), e')"
    using V cap G by (simp add: admit_pool_def Let_def)
  with A show ?thesis using guards by (simp add: admit_def)
qed

text \<open>C5. Liveness of admission: when the group serves under the request's configuration, has an empty
  queue and a free permit, its own rate limit (if it has one) has a token, and some credential passes
  every gate after housekeeping, then a fresh request of the group is granted a lease at once, unless
  the credential its affinity prefers is full and the group still lets it wait for that credential.\<close>

theorem admit_grants_when_ready:
  assumes U: "uuid_ok uuid N" "uuid_draws e < N" and E: "engine_ok uuid {#} g e"
    and guards: "gen = generation e" "se_group_id entry = ei_group_id (identity e)"
      "group_config (snapshot_set (generic entry)) = snapshot_version (config e)"
      "se_request_id entry \<notin> seen_requests e" "lifecycle e = Serving" "now < pre_upstream_deadline entry"
    and free: "group_rate_open now e" "fq_len (queue e) = 0" "card (group_permits e) < effective_concurrency e"
      "\<not> affinity_holds (credentials (prune now e)) (affinities (prune now e)) (config e) entry now"
      "ready_credentials (credentials (prune now e)) (session_claims (prune now e)) (config e) entry now \<noteq> []"
  shows "\<exists>l e'. admit uuid gen entry now e = (Inr (Granted l), e')"
  using assms by (rule admit_grants)

subsection \<open>A small engine for the witnesses\<close>

definition sample_uuid :: "nat \<Rightarrow> string" where
  "sample_uuid n = replicate 32 (char_of (48 + n))"

lemma sample_uuid_ok: "uuid_ok sample_uuid 8"
proof -
  have "m = n" if "m < 8" "n < 8" "sample_uuid m = sample_uuid n" for m n
  proof -
    have "char_of (48 + m) = char_of (48 + n)" using that(3) by (simp add: sample_uuid_def)
    then have "(of_char (char_of (48 + m)) :: nat) = of_char (char_of (48 + n))" by simp
    then show ?thesis using that(1,2) by simp
  qed
  moreover have "length (sample_uuid n) = 32 \<and> is_ascii (sample_uuid n)" if "n < 8" for n
    using that by (simp add: sample_uuid_def is_ascii_def list_all_iff)
  ultimately show ?thesis by (auto simp: uuid_ok_def inj_on_def)
qed

definition sample_identity :: ExecutorIdentity where
  "sample_identity =
     \<lparr>ei_group_id = TypedId ''g'', owner_partition = ''p'', executor_id = ''x'', ei_generation = OwnerGeneration 1\<rparr>"

definition sample_engine :: SchedulerEngine where
  "sample_engine =
     \<lparr>identity = sample_identity, lifecycle = Serving, config = GroupConfig_default, group_bucket = None,
      credentials = [(TypedId ''a'', fresh_runtime (sample_credential ''a'' 10 2 True) 0)],
      queue = FairQueue_default, waiting = [], leases = [], request_leases = [], pending_cancels = [],
      group_permits = {}, seen_requests = {}, request_portability = [], group_rate_admitted = {},
      affinities = [], session_claims = [], events = [], event_sequence = 0, resource_balance = 0, uuid_draws = 0\<rparr>"

lemma sample_engine_new:
  "engine_new sample_identity GroupConfig_default [sample_credential ''a'' 10 2 True] 0 = Inr sample_engine"
  by (simp add: engine_new_def sample_engine_def credential_invalid_def transport_invalid_def group_invalid_def
      queue_bound_exceeded_def GroupConfig_default_def sample_credential_def CREDENTIAL_DEFAULT_def from_secs_def Let_def)

lemma sample_engine_ok: "engine_ok uuid {#} 0 sample_engine"
  by (rule engine_ok_new [OF sample_engine_new])

lemma sample_capacity: "effective_concurrency sample_engine = 2"
  by (simp add: effective_concurrency_def capacity_sum_def sample_engine_def fresh_runtime_def sample_credential_def
      CredentialState_default_def GroupConfig_default_def saturating_add_def)

lemma sample_prune: "prune now sample_engine = sample_engine"
  by (simp add: prune_def sample_engine_def bt_retain_def bt_map_def settle_half_open_def fresh_runtime_def Let_def)

lemma sample_considered:
  "considered [] (sample_entry r u) (TypedId ''a'') (fresh_runtime (sample_credential ''a'' 10 2 True) 0)"
  by (simp add: considered_def sample_entry_def sample_request_def pinned_target_def session_capacity_blocked_def
      fresh_runtime_def sample_credential_def SessionCapacityConfig_default_def word_le_nat_alt unsigned_minus_1_eq_mask mask_eq_exp_minus_1)

lemma sample_engine_ready:
  "ready_credentials (credentials sample_engine) (session_claims sample_engine) (config sample_engine) (sample_entry r u) 0 \<noteq> []"
  using sample_ready [of 2] sample_considered by (simp add: ready_credentials_def sample_engine_def)

lemma sample_entry_fields [simp]:
  "se_request_id (sample_entry r u) = TypedId r" "se_group_id (sample_entry r u) = TypedId ''g''"
  "group_config (snapshot_set (generic (sample_entry r u))) = SnapshotVersion ''v1''"
  "pre_upstream_deadline (sample_entry r u) = 30" "portability (generic (sample_entry r u)) = Portable"
  by (simp_all add: sample_entry_def sample_request_def)

lemma sample_engine_fields [simp]:
  "identity sample_engine = sample_identity" "lifecycle sample_engine = Serving" "config sample_engine = GroupConfig_default"
  "group_bucket sample_engine = None" "fq_len (queue sample_engine) = 0" "group_permits sample_engine = {}"
  "affinities sample_engine = []" "seen_requests sample_engine = {}" "uuid_draws sample_engine = 0"
  "snapshot_version GroupConfig_default = SnapshotVersion ''v1''" "ei_group_id sample_identity = TypedId ''g''"
  "ei_generation sample_identity = OwnerGeneration 1" "waiting sample_engine = []" "leases sample_engine = []"
  by (simp_all add: sample_engine_def FairQueue_default_def sample_identity_def GroupConfig_default_def)

lemma sample_limited:
  "group_rate_open 0 (sample_engine\<lparr>group_bucket := Some (bucket_full CREDENTIAL_DEFAULT 0)\<rparr>)"
  by (simp add: group_rate_open_def try_consume_def refill_same_time bucket_full_def CREDENTIAL_DEFAULT_def SCALE_def
      word_less_nat_alt)

lemma sample_limited_frame [simp]:
  "credentials (prune now (sample_engine\<lparr>group_bucket := gb\<rparr>)) = credentials sample_engine"
  "session_claims (prune now (sample_engine\<lparr>group_bucket := gb\<rparr>)) = session_claims sample_engine"
  "affinities (prune now (sample_engine\<lparr>group_bucket := gb\<rparr>)) = []"
  "effective_concurrency (sample_engine\<lparr>group_bucket := gb\<rparr>) = 2"
  using prune_cong [of "sample_engine\<lparr>group_bucket := gb\<rparr>" sample_engine now]
    effective_concurrency_cong [of "sample_engine\<lparr>group_bucket := gb\<rparr>" sample_engine]
  by (simp_all add: sample_prune sample_capacity)

theorem admit_grants_when_ready_witness:
  "\<exists>l e'. admit sample_uuid (OwnerGeneration 1) (sample_entry ''r'' ''u'') 0
     (sample_engine\<lparr>group_bucket := Some (bucket_full CREDENTIAL_DEFAULT 0)\<rparr>) = (Inr (Granted l), e')"
  by (rule admit_grants_when_ready [OF sample_uuid_ok, where g = 0])
    (use sample_engine_ready sample_engine_ok sample_limited in \<open>simp_all add: affinity_holds_def preferred_credential_def\<close>)

theorem admit_only_wrong_group_witness:
  "admit sample_uuid (OwnerGeneration 1) ((sample_entry ''r'' ''u'')\<lparr>se_group_id := TypedId ''h''\<rparr>) 0 sample_engine =
     (Inl WrongGroup, sample_engine) \<and> TypedId ''h'' \<noteq> ei_group_id (identity sample_engine)"
proof -
  let ?entry = "(sample_entry ''r'' ''u'')\<lparr>se_group_id := TypedId ''h''\<rparr>"
  have A: "admit sample_uuid (OwnerGeneration 1) ?entry 0 sample_engine = (Inl WrongGroup, sample_engine)"
    by (simp add: admit_def)
  from admit_only_wrong_group [OF sample_uuid_ok sample_engine_ok A] A show ?thesis by simp
qed

lemma sample_admitted:
  obtains l e' where "admit sample_uuid (OwnerGeneration 1) (sample_entry ''r'' ''u'') 0 sample_engine = (Inr (Granted l), e')"
proof -
  have "\<exists>l e'. admit sample_uuid (OwnerGeneration 1) (sample_entry ''r'' ''u'') 0 sample_engine = (Inr (Granted l), e')"
    by (rule admit_grants [OF sample_uuid_ok _ sample_engine_ok])
      (use sample_engine_ready sample_capacity in
        \<open>simp_all add: sample_prune affinity_holds_def preferred_credential_def group_rate_open_def\<close>)
  with that show thesis by blast
qed

subsection \<open>What admission leaves behind\<close>

lemma enqueue_cases:
  assumes "enqueue uuid entry now slot e = (Inr d, e')"
  obtains (full) "d = rejected QueueFull (Some (from_secs 2))" and "e' = forget_rate (se_request_id entry) e"
    and "queue_capacity e \<le> fq_len (queue e)"
  | (queued) tk w where "d = Queued tk" and "qt_request_id tk = se_request_id entry" and "qt_deadline tk = pre_upstream_deadline entry"
    and "waiting e' = bt_insert (se_request_id entry) w (waiting e)" and "ticket w = tk"
    and "queue e' = FairQueue_push entry (queue e)" and "request_leases e' = request_leases e"
    and "group_permits e' = group_permits e" and "fq_len (queue e) < queue_capacity e"
proof (cases "queue_capacity e \<le> fq_len (queue e)")
  case True
  with assms full show thesis by (simp add: enqueue_def)
next
  case False
  then obtain tid where "(TypedId_new (''ticket_'' @ uuid (uuid_draws e)) :: TicketId DomainResult) = Inr tid"
    using assms by (auto simp: enqueue_def Let_def split: sum.splits)
  with False assms queued show thesis by (auto simp: enqueue_def Let_def)
qed

lemma enqueue_not_granted: "enqueue uuid entry now slot e = (Inr d, e') \<Longrightarrow> d \<noteq> Granted l"
  by (erule enqueue_cases) (simp_all add: rejected_def)

lemma unowned_forget [simp]: "unowned rid (forget_rate r e) = unowned rid e"
  by (simp add: unowned_def)

text \<open>Every accepted admission ends in one of three ways.\<close>

lemma admit_accepted_outcome:
  assumes E: "engine_ok uuid {#} g e" and new: "se_request_id entry \<notin> seen_requests e"
    and A: "admit_accepted uuid entry now e = (Inr d, e')"
  obtains (granted) l cid e1 e2 where "d = Granted l" and "grant uuid entry cid now True e2 = (Inr l, e')"
      and "evaluate_pool entry now e1 = (Candidate cid, e2)" and "engine_ok uuid {#} g e1"
      and "unowned (se_request_id entry) e1" and "card (group_permits e2) < effective_concurrency e2"
      and "config e1 = config e" and "generation e1 = generation e"
  | (queued) tk where "d = Queued tk" and "qt_request_id tk = se_request_id entry"
      and "bt_get (waiting e') (se_request_id entry) \<noteq> None"
      and "bt_get (request_leases e') (se_request_id entry) = None" and "se_request_id entry \<notin> group_permits e'"
  | (rejected) r where "d = Rejected r" and "unowned (se_request_id entry) e'"
proof -
  note conclude = granted queued rejected
  let ?rid = "se_request_id entry"
  let ?e0 = "e\<lparr>seen_requests := insert ?rid (seen_requests e),
      request_portability := bt_insert ?rid (portability (generic entry)) (request_portability e)\<rparr>"
  let ?e1 = "prune now ?e0"
  have E1: "engine_ok uuid {#} g ?e1" using engine_ok_prune [of uuid "{#}" g ?e0] engine_ok_seen [OF E] by simp
  have W1: "unowned ?rid ?e1" using unowned_new [OF E new] by (simp add: unowned_def prune_frame)
  have Q: thesis if en: "enqueue uuid entry now slot e3 = (Inr d, e')" and W3: "unowned ?rid e3" for slot e3
    using en
  proof (cases rule: enqueue_cases)
    case full
    show thesis by (rule rejected) (use full W3 in \<open>simp_all add: rejected_def\<close>)
  next
    case (queued tk w)
    show thesis by (rule conclude(2) [OF queued(1)]) (use queued W3 in \<open>simp_all add: unowned_def\<close>)
  qed
  from A show thesis
  proof (cases rule: admit_accepted_cases)
    case (pool gb ra)
    let ?e2 = "?e1\<lparr>group_bucket := gb, group_rate_admitted := ra\<rparr>"
    have E2: "engine_ok uuid {#} g ?e2" and W2: "unowned ?rid ?e2" using E1 W1 by (simp_all add: unowned_def)
    from pool show thesis
    proof (cases rule: admit_pool_cases)
      case (candidate cid e2 r')
      then obtain l where "r' = Inr l" "d = Granted l" by (cases r') auto
      with granted candidate E2 W2 show thesis by (auto simp: prune_frame)
    next
      case (queue ev e2 slot)
      then show thesis using Q evaluate_pool_frame [OF queue(1)] W2 by (auto simp: unowned_def)
    next
      case (reject ev e2 r)
      then show thesis using rejected evaluate_pool_frame [OF reject(1)] W2 by (auto simp: unowned_def)
    qed
  next
    case (queue gb)
    then show thesis using Q W1 by (auto simp: unowned_def)
  next
    case (reject gb ra r)
    then show thesis using rejected W1 by (auto simp: unowned_def)
  qed
qed

lemma admit_inner:
  "admit uuid gen entry now e = (Inr d, e') \<Longrightarrow>
   (e' = e \<and> (\<forall>l. d \<noteq> Granted l) \<and> (\<forall>t. d \<noteq> Queued t)) \<or>
   (admit_accepted uuid entry now e = (Inr d, e') \<and> se_request_id entry \<notin> seen_requests e)"
  by (auto simp: admit_def rejected_def split: if_splits)

lemma sample_draws:
  "admit sample_uuid (OwnerGeneration 1) (sample_entry ''r'' ''u'') 0 sample_engine = (Inr (Granted l), e') \<Longrightarrow> uuid_draws e' \<le> 1"
proof -
  assume A: "admit sample_uuid (OwnerGeneration 1) (sample_entry ''r'' ''u'') 0 sample_engine = (Inr (Granted l), e')"
  then have "admit_accepted sample_uuid (sample_entry ''r'' ''u'') 0 sample_engine = (Inr (Granted l), e')"
    using admit_inner [OF A] by auto
  then have "admit_pool sample_uuid (sample_entry ''r'' ''u'') 0 (prune 0 (sample_engine\<lparr>seen_requests := {TypedId ''r''},
      request_portability := bt_insert (TypedId ''r'') Portable (request_portability sample_engine)\<rparr>)) = (Inr (Granted l), e')"
    by (simp add: admit_accepted_def Let_def prune_frame)
  then show ?thesis
    by (rule admit_pool_cases)
      (auto simp: prune_frame dest!: evaluate_pool_frame grant_draws enqueue_not_granted)
qed

text \<open>C4. A granted lease is sound: it is the request's only lease and the request holds a group permit
  within the effective concurrency; the credential is active, unfenced, within its
  concurrency limit, covers the requested model, and is the pinned one when the request is
  pinned.\<close>

theorem granted_lease_sound:
  assumes "uuid_ok uuid N" and "engine_ok uuid {#} g e"
    and "admit uuid gen entry now e = (Inr (Granted l), e')" and "uuid_draws e' \<le> N"
  shows "cl_request_id l = se_request_id entry \<and> owner_generation l = generation e \<and>
    bt_get (request_leases e') (se_request_id entry) = Some (cl_id l) \<and>
    se_request_id entry \<in> group_permits e' \<and> card (group_permits e') \<le> effective_concurrency e' \<and>
    (\<exists>rt. bt_get (credentials e') (cl_credential_id l) = Some rt \<and> \<not> admin_fenced rt \<and>
       lifecycle_active (cc_state (rt_config rt)) \<and> inflight rt \<le> cc_concurrency_limit (rt_config rt) \<and>
       (model_scope (rt_config rt) = {} \<or> model_id (generic entry) \<in> model_scope (rt_config rt))) \<and>
    is_none_or (pinned_target (portability (generic entry))) (\<lambda>t. t = cl_credential_id l)"
proof -
  have "admit_accepted uuid entry now e = (Inr (Granted l), e')" "se_request_id entry \<notin> seen_requests e"
    using admit_inner [OF assms(3)] by auto
  from assms(2) this(2,1) show ?thesis
  proof (cases rule: admit_accepted_outcome)
    case (granted l' cid e1 e2)
    then have l: "l' = l" by simp
    let ?E = "evaluate_pool_fields (credentials e1) (affinities e1) (session_claims e1) (config e1) entry now"
    have e2: "e2 = e1\<lparr>credentials := snd ?E\<rparr>" and c: "fst ?E = Candidate cid"
      using granted(3) by (auto simp: evaluate_pool_eq)
    obtain rt0 where rt0: "bt_get (credentials e1) cid = Some rt0" "considered (session_claims e1) entry cid rt0"
        "credential_ready rt0 (config e1) entry now"
      using in_ready_get [OF engine_okD(1) [OF granted(4)] c] by blast
    let ?rt = "settled (session_claims e1) (config e1) entry now cid rt0"
    from granted(2) obtain rt' where G: "bt_get (credentials e') cid = Some rt'" "inflight rt' \<le> cc_concurrency_limit (rt_config rt')"
      "\<exists>st. rt_config rt' = (rt_config ?rt)\<lparr>cc_state := st\<rparr> \<and> lifecycle_active st = lifecycle_active (cc_state (rt_config ?rt))"
      "admin_fenced rt' = admin_fenced ?rt" "cl_request_id l' = se_request_id entry" "cl_credential_id l' = cid"
      "owner_generation l' = generation e2" "bt_get (request_leases e') (se_request_id entry) = Some (cl_id l')"
      "group_permits e' = insert (se_request_id entry) (group_permits e2)"
    proof (cases rule: grant_Inr)
      case (1 rt1 rt')
      have "rt1 = ?rt" using 1(1) rt0(1) by (simp add: e2 evaluate_pool_fields_snd)
      with 1 that show thesis by simp
    qed
    have gates: "\<not> ineligible rt0 entry" using rt0(3) by (rule credential_ready_not_ineligible)
    have fin: "finite (group_permits e2)" using engine_okD(5) [OF granted(4)] by (simp add: owner_wf_def e2)
    have "card (group_permits e') \<le> effective_concurrency e'"
      using granted(6) grant_capacity [OF granted(2)] G(9) card_insert_le_m1 fin
      by (simp add: card_insert_if)
    then show ?thesis
      using G gates rt0(2) granted(8) e2 by (auto simp: l ineligible_def Let_def considered_def)
  qed (simp_all add: rejected_def)
qed

theorem granted_lease_sound_witness:
  "\<exists>l e'. admit sample_uuid (OwnerGeneration 1) (sample_entry ''r'' ''u'') 0 sample_engine = (Inr (Granted l), e') \<and>
     bt_get (request_leases e') (TypedId ''r'') = Some (cl_id l)"
proof -
  obtain l e' where A: "admit sample_uuid (OwnerGeneration 1) (sample_entry ''r'' ''u'') 0 sample_engine = (Inr (Granted l), e')"
    by (rule sample_admitted)
  have "uuid_draws e' \<le> 8" using sample_draws [OF A] by simp
  from granted_lease_sound [OF sample_uuid_ok sample_engine_ok A this] A show ?thesis by auto
qed

lemma admit_error_unchanged:
  assumes "uuid_ok uuid N" and "engine_ok uuid {#} g e" and "admit uuid gen entry now e = (Inl err, e')" and "uuid_draws e' \<le> N"
  shows "e' = e"
  using admit_wrong_group [OF assms] by simp

lemma abandon_granted:
  assumes "engine_ok uuid {#} g e" and "bt_get (request_leases e) rid = Some (cl_id l)" and "cl_request_id l = rid"
  shows "bt_get (request_leases (abandon_admission (Granted l) now e)) rid = None \<and>
    bt_get (waiting (abandon_admission (Granted l) now e)) rid = None \<and>
    rid \<notin> group_permits (abandon_admission (Granted l) now e)"
proof -
  note D = engine_okD [OF assms(1)]
  obtain rec where rec: "bt_get (leases e) (cl_id l) = Some rec" "cl_request_id (lease rec) = rid"
    using leases_wfD(6) [OF D(2) assms(2)] by blast
  obtain e1 where R: "release_lease (generation e) (cl_id l) now e = (Inr Released, e1)"
    and F: "request_leases e1 = bt_remove rid (request_leases e)"
    using engine_ok_release_lease [OF assms(1) rec(1), of now] rec(2) by metis
  have "bt_get (waiting e) rid = None" using D(5) assms(2) by (auto simp: owner_wf_def)
  moreover have "waiting e1 = waiting e" by (rule same_frameD(6) [OF release_lease_frame [OF R]])
  ultimately show ?thesis
    using F assms(3) by (simp add: abandon_admission_def R release_group_permit_def)
qed

lemma abandon_queued:
  assumes "bt_get (waiting e) rid \<noteq> None" and "bt_get (request_leases e) rid = None" and "rid \<notin> group_permits e"
    and "qt_request_id t = rid"
  shows "bt_get (request_leases (abandon_admission (Queued t) now e)) rid = None \<and>
    bt_get (waiting (abandon_admission (Queued t) now e)) rid = None \<and>
    rid \<notin> group_permits (abandon_admission (Queued t) now e)"
  using assms by (auto simp: abandon_admission_def cancel_def)

text \<open>C9. An admission whose caller has gone is undone: whatever the decision was, when its reply cannot
  be delivered the request holds no lease, no permit and no place in the queue.\<close>

theorem undelivered_admission_undone:
  assumes "engine_ok uuid {#} g e" and "uuid_ok uuid N" and "se_request_id entry \<notin> seen_requests e"
    and "rcv \<noteq> Alive" and "handle_command uuid rcv (Admit gen entry now) e = (reply, e')" and "uuid_draws e' \<le> N"
  shows "reply = None \<and> bt_get (request_leases e') (se_request_id entry) = None \<and>
    bt_get (waiting e') (se_request_id entry) = None \<and> se_request_id entry \<notin> group_permits e'"
proof -
  let ?rid = "se_request_id entry"
  have clean: "bt_get (request_leases e) ?rid = None \<and> bt_get (waiting e) ?rid = None \<and> ?rid \<notin> group_permits e"
    using engine_okD(5) [OF assms(1)] assms(3) by (auto simp: owner_wf_def)
  show ?thesis
  proof (cases "rcv = ClosedBefore")
    case True
    with assms(5) clean show ?thesis by (simp add: handle_admit_def)
  next
    case False
    obtain r e1 where A: "admit uuid gen entry now e = (r, e1)" by fastforce
    have H: "reply = None" "e' = (case r of Inl _ \<Rightarrow> e1 | Inr d \<Rightarrow> abandon_admission d now e1)"
      using assms(4,5) False A by (auto simp: handle_admit_def send_or_def)
    show ?thesis
    proof (cases r)
      case (Inl err)
      have d: "uuid_draws e1 \<le> N" using H Inl assms(6) by simp
      have "e1 = e" using admit_error_unchanged [OF assms(2,1) A [unfolded Inl] d] .
      with H Inl clean show ?thesis by simp
    next
      case (Inr d)
      have "bt_get (request_leases (abandon_admission d now e1)) ?rid = None \<and>
          bt_get (waiting (abandon_admission d now e1)) ?rid = None \<and> ?rid \<notin> group_permits (abandon_admission d now e1)"
        using admit_inner [OF A [unfolded Inr]]
      proof (elim disjE conjE)
        assume "e1 = e" "\<forall>l. d \<noteq> Granted l" "\<forall>t. d \<noteq> Queued t"
        with clean show ?thesis by (cases d) (simp_all add: abandon_admission_def)
      next
        assume "admit_accepted uuid entry now e = (Inr d, e1)"
        from assms(1,3) this show ?thesis
        proof (cases rule: admit_accepted_outcome)
          case (granted l cid e0 e2)
          have d: "uuid_draws e1 \<le> N" using H Inr assms(6) by simp
          have E1: "engine_ok uuid {#} g e1" by (rule admit_ok [OF assms(2,1) A d])
          have "bt_get (request_leases e1) ?rid = Some (cl_id l)" "cl_request_id l = ?rid"
            using granted(2) by (auto elim: grant_Inr)
          from abandon_granted [OF E1 this] granted(1) show ?thesis by simp
        next
          case (queued tk)
          with abandon_queued [of e1 ?rid tk] show ?thesis by simp
        next
          case (rejected r)
          then show ?thesis by (simp add: abandon_admission_def unowned_def)
        qed
      qed
      with H Inr show ?thesis by simp
    qed
  qed
qed

theorem undelivered_admission_undone_witness:
  "\<exists>e'. handle_command sample_uuid DroppedDuring (Admit (OwnerGeneration 1) (sample_entry ''r'' ''u'') 0) sample_engine = (None, e') \<and>
     bt_get (request_leases e') (TypedId ''r'') = None \<and> TypedId ''r'' \<notin> group_permits e'"
proof -
  let ?h = "handle_command sample_uuid DroppedDuring (Admit (OwnerGeneration 1) (sample_entry ''r'' ''u'') 0) sample_engine"
  obtain l e1 where A: "admit sample_uuid (OwnerGeneration 1) (sample_entry ''r'' ''u'') 0 sample_engine = (Inr (Granted l), e1)"
    by (rule sample_admitted)
  have "uuid_draws (snd ?h) \<le> 8"
    using sample_draws [OF A] A by (simp add: handle_admit_def send_or_def)
  moreover have "TypedId ''r'' \<notin> seen_requests sample_engine" by simp
  ultimately show ?thesis
    using undelivered_admission_undone [OF sample_engine_ok sample_uuid_ok, of "sample_entry ''r'' ''u''" DroppedDuring
        "OwnerGeneration 1" 0 "fst ?h" "snd ?h"] by (metis receiver.distinct(3) prod.collapse sample_entry_fields(1))
qed

subsection \<open>Reachable states\<close>

text \<open>C1. Resource accounting in every reachable state of the actor: the in-flight counter of a credential
  is the number of its leases, the counter of a session claim is the number of leases that
  hold it, leases and requests index each other, and the mailbox respects its bound.\<close>

theorem reachable_resource_accounting:
  assumes "uuid_ok uuid N" and "reachable uuid x" and "uuid_draws (engine x) \<le> N"
  shows "(\<forall>cid rt. bt_get (credentials (engine x)) cid = Some rt \<longrightarrow>
      unat (inflight rt) = bt_count (\<lambda>_ r. cl_credential_id (lease r) = cid) (leases (engine x))) \<and>
    (\<forall>key c. bt_get (session_claims (engine x)) key = Some c \<longrightarrow>
      unat (active_requests c) = bt_count (\<lambda>_ r. session_claim_key r = Some key) (leases (engine x))) \<and>
    (\<forall>rid lid. bt_get (request_leases (engine x)) rid = Some lid \<longleftrightarrow>
      (\<exists>r. bt_get (leases (engine x)) lid = Some r \<and> cl_request_id (lease r) = rid)) \<and>
    length (mailbox x) \<le> mailbox_capacity x"
proof -
  note D = engine_okD [OF reachable_engine_ok [OF assms]]
  have "length (mailbox x) \<le> mailbox_capacity x"
    using executor.reachable_inv [OF assms(2), of N] by (simp add: exec_inv_def)
  moreover have "bt_get (request_leases (engine x)) rid = Some lid \<longleftrightarrow>
      (\<exists>r. bt_get (leases (engine x)) lid = Some r \<and> cl_request_id (lease r) = rid)" for rid lid
    using leases_wfD(4,6) [OF D(2)] by blast
  ultimately show ?thesis using creds_wfD [OF D(1)] claims_wfD [OF D(3)] by blast
qed

text \<open>C2. Ownership in every reachable state: the queue holds exactly the waiting requests, each once, its
  reported length is their number, and a waiting request holds neither a lease nor a permit;
  a cancelled request whose lease is still in its grace period holds no permit.\<close>

theorem reachable_ownership:
  assumes "uuid_ok uuid N" and "reachable uuid x" and "uuid_draws (engine x) \<le> N"
  shows "image_mset se_request_id (queue_entries (queue (engine x))) = mset (map fst (waiting (engine x))) \<and>
    distinct (map fst (waiting (engine x))) \<and> fq_len (queue (engine x)) = length (waiting (engine x)) \<and>
    (\<forall>rid. bt_get (waiting (engine x)) rid \<noteq> None \<longrightarrow>
       bt_get (request_leases (engine x)) rid = None \<and> rid \<notin> group_permits (engine x)) \<and>
    (\<forall>rid lid. bt_get (request_leases (engine x)) rid = Some lid \<and> bt_get (pending_cancels (engine x)) lid \<noteq> None \<longrightarrow>
       rid \<notin> group_permits (engine x))"
proof -
  note D = engine_okD [OF reachable_engine_ok [OF assms]]
  have M: "image_mset se_request_id (queue_entries (queue (engine x))) = mset (map fst (waiting (engine x)))"
    using D(4) by (simp add: queue_wf_def)
  have "size (queue_entries (queue (engine x))) = length (waiting (engine x))"
    using arg_cong [OF M, of size] by simp
  then have "fq_len (queue (engine x)) = length (waiting (engine x))"
    using D(4) by (simp add: queue_wf_def queue_inv_def)
  moreover have "distinct (map fst (waiting (engine x)))" using D(4) by (auto simp: queue_wf_def intro: bt_wf_distinct)
  ultimately show ?thesis using M D(5) unfolding owner_wf_def by blast
qed

text \<open>C3. The ledger in every reachable state: until the event counter reaches \<open>2 ^ 63\<close>, the resource
  balance is the number of permits, tickets, session claims and leases held, plus the number
  of session claims that were discarded without a ledger entry.\<close>

theorem reachable_ledger_balance:
  assumes "uuid_ok uuid N" and "reachable uuid x" and "uuid_draws (engine x) \<le> N"
    and "uint (event_sequence (engine x)) < 2 ^ 63"
  shows "resource_balance (engine x) = int (held (engine x)) + int (leaked x)"
  using engine_okD(6) [OF reachable_engine_ok [OF assms(1-3)]] assms(4) by (simp add: ledger_ok_def)

lemma record_event_seq: "uint (event_sequence (record_event rid k i a now e)) \<le> uint (event_sequence e) + 1"
proof -
  have "unat (saturating_add (event_sequence e) 1) \<le> unat (event_sequence e) + 1"
    by (simp add: unat_saturating_add)
  then have "int (unat (saturating_add (event_sequence e) 1)) \<le> int (unat (event_sequence e) + 1)"
    by (simp only: of_nat_le_iff)
  then show ?thesis by (simp add: record_event_def Let_def)
qed

lemma install_lease_seq: "uint (event_sequence (install_lease entry l now acq e)) \<le> uint (event_sequence e) + 3"
proof -
  obtain key new_claim e1 where A: "acquire_session_claim entry (cl_credential_id l) e = ((key, new_claim), e1)"
    by (metis prod.collapse)
  have S: "event_sequence e1 = event_sequence e" using A by (auto simp: acquire_session_claim_def Let_def split: if_splits)
  show ?thesis
    by (cases acq; cases new_claim)
      (auto simp: install_lease_def A Let_def S intro!: order_trans [OF record_event_seq])
qed

lemma grant_seq:
  "grant uuid entry cid now acq e = (r, e') \<Longrightarrow> uint (event_sequence e') \<le> uint (event_sequence e) + 3"
  by (auto simp: grant_def Let_def split: option.splits prod.splits sum.splits intro: order_trans [OF install_lease_seq])

lemma sample_seq:
  assumes A: "admit sample_uuid (OwnerGeneration 1) (sample_entry ''r'' ''u'') 0 sample_engine = (Inr (Granted l), e')"
  shows "uint (event_sequence e') \<le> 3"
proof -
  let ?e0 = "prune 0 (sample_engine\<lparr>seen_requests := {TypedId ''r''},
      request_portability := bt_insert (TypedId ''r'') Portable (request_portability sample_engine)\<rparr>)"
  have "admit_accepted sample_uuid (sample_entry ''r'' ''u'') 0 sample_engine = (Inr (Granted l), e')"
    using admit_inner [OF A] by auto
  then have "admit_pool sample_uuid (sample_entry ''r'' ''u'') 0 ?e0 = (Inr (Granted l), e')"
    by (simp add: admit_accepted_def Let_def prune_frame)
  moreover have "event_sequence ?e0 = 0" by (simp add: prune_def sample_engine_def bt_retain_def Let_def)
  ultimately show ?thesis
  proof (cases rule: admit_pool_cases)
    case (candidate cid e1 r')
    have "event_sequence e1 = 0"
      using evaluate_pool_frame [OF candidate(1)] \<open>event_sequence ?e0 = 0\<close> by auto
    with grant_seq [OF candidate(2)] show ?thesis by simp
  qed (auto simp: rejected_def dest: enqueue_not_granted)
qed

text \<open>An executor that has served one admission.\<close>

lemma sample_reachable:
  obtains x where "reachable sample_uuid x" and "uuid_draws (engine x) \<le> 8" and "leaked x = 0"
    and "uint (event_sequence (engine x)) < 2 ^ 63" and "bt_get (request_leases (engine x)) (TypedId ''r'') \<noteq> None"
proof -
  obtain l e1 where A: "admit sample_uuid (OwnerGeneration 1) (sample_entry ''r'' ''u'') 0 sample_engine = (Inr (Granted l), e1)"
    by (rule sample_admitted)
  let ?c = "Admit (OwnerGeneration 1) (sample_entry ''r'' ''u'') 0"
  let ?x0 = "spawn sample_engine 4"
  let ?x1 = "?x0\<lparr>mailbox := mailbox ?x0 @ [?c]\<rparr>"
  let ?x2 = "?x1\<lparr>engine := e1, mailbox := [], leaked := leaked ?x1 + claims_dropped ?c (engine ?x1)\<rparr>"
  have "exec_step sample_uuid ?x0 ?x1" by (rule exec_step.send) (simp add: spawn_def)
  moreover have "exec_step sample_uuid ?x1 ?x2"
    by (rule exec_step.handle [of _ ?c _ _ Alive]) (simp_all add: spawn_def handle_admit_def A send_or_def)
  moreover have "started ?x0" unfolding started_def using sample_engine_new by blast
  ultimately have R: "reachable sample_uuid ?x2" by (meson rtranclp.rtrancl_refl rtranclp.rtrancl_into_rtrancl)
  have acc: "admit_accepted sample_uuid (sample_entry ''r'' ''u'') 0 sample_engine = (Inr (Granted l), e1)"
    using admit_inner [OF A] by auto
  have "bt_get (request_leases e1) (TypedId ''r'') \<noteq> None"
  proof (cases rule: admit_accepted_outcome [OF sample_engine_ok _ acc])
    case (2 l' cid e0 e2)
    from 2(2) show ?thesis by (cases rule: grant_Inr) simp
  qed simp_all
  then show thesis
    using that [OF R] sample_draws [OF A] sample_seq [OF A] by (simp add: spawn_def claims_dropped_def)
qed

theorem reachable_resource_accounting_witness:
  "\<exists>x. reachable sample_uuid x \<and> bt_get (request_leases (engine x)) (TypedId ''r'') \<noteq> None \<and>
     length (mailbox x) \<le> mailbox_capacity x"
  using reachable_resource_accounting [OF sample_uuid_ok] by (rule_tac sample_reachable) blast

theorem reachable_ownership_witness:
  "\<exists>x. reachable sample_uuid x \<and> bt_get (request_leases (engine x)) (TypedId ''r'') \<noteq> None \<and>
     fq_len (queue (engine x)) = length (waiting (engine x))"
  using reachable_ownership [OF sample_uuid_ok] by (rule_tac sample_reachable) blast

theorem reachable_ledger_balance_witness:
  "\<exists>x. reachable sample_uuid x \<and> bt_get (request_leases (engine x)) (TypedId ''r'') \<noteq> None \<and>
     resource_balance (engine x) = int (held (engine x)) + int (leaked x)"
  using reachable_ledger_balance [OF sample_uuid_ok] by (rule_tac sample_reachable) blast

subsection \<open>Releasing, replacing and cancelling\<close>

text \<open>C7. A lease is released exactly once: releasing a held lease succeeds, takes one unit of load off its
  credential and removes the request's lease, and every later release of the same lease
  is refused and changes nothing.\<close>

theorem release_exactly_once:
  assumes "engine_ok uuid X g e" and "bt_get (leases e) lid = Some rec"
  shows "\<exists>e' rt rt'. release_lease (generation e) lid now e = (Inr Released, e') \<and>
    bt_get (credentials e) (cl_credential_id (lease rec)) = Some rt \<and>
    bt_get (credentials e') (cl_credential_id (lease rec)) = Some rt' \<and>
    unat (inflight rt) = Suc (unat (inflight rt')) \<and>
    bt_get (request_leases e') (cl_request_id (lease rec)) = None \<and>
    (\<forall>gen later. snd (release_lease gen lid later e') = e' \<and> fst (release_lease gen lid later e') \<noteq> Inr Released)"
proof -
  obtain e' rt rt' where R: "release_lease (generation e) lid now e = (Inr Released, e')"
    and L: "leases e' = bt_remove lid (leases e)" "request_leases e' = bt_remove (cl_request_id (lease rec)) (request_leases e)"
    and rt: "bt_get (credentials e) (cl_credential_id (lease rec)) = Some rt" "release_runtime (lease rec) rt = Some rt'"
      "credentials e' = bt_modify (cl_credential_id (lease rec)) (\<lambda>_. rt') (credentials e)"
    using engine_ok_release_lease [OF assms, of now] by metis
  have "unat (inflight rt) = Suc (unat (inflight rt'))"
    using rt(2) by (auto simp: release_runtime_def Let_def split: option.splits if_splits dest!: unat_checked_sub)
  moreover have "snd (release_lease gen lid later e') = e' \<and> fst (release_lease gen lid later e') \<noteq> Inr Released" for gen later
    using L(1) by (simp add: release_lease_def)
  ultimately show ?thesis using R L(2) rt by auto
qed

text \<open>The generation a command carries.\<close>

fun command_generation :: "GroupCommand \<Rightarrow> OwnerGeneration option" where
  "command_generation (Admit gen _ _) = Some gen"
| "command_generation (Cancel gen _ _) = Some gen"
| "command_generation (ReleaseLease gen _ _) = Some gen"
| "command_generation (ReplaceLease gen _ _) = Some gen"
| "command_generation (ObserveCredentialCooldown gen _ _) = Some gen"
| "command_generation (ObserveCredentialAuth gen _ _) = Some gen"
| "command_generation (ObserveCredentialQuota gen _ _) = Some gen"
| "command_generation (SetCredentialFence gen _ _ _) = Some gen"
| "command_generation (RemoveFencedCredential gen _ _) = Some gen"
| "command_generation (ReconfigureGroup gen _ _) = Some gen"
| "command_generation (ReconfigureCredential gen _ _) = Some gen"
| "command_generation (ConfirmTransportCancel gen _ _) = Some gen"
| "command_generation (CompleteRequest gen _ _) = Some gen"
| "command_generation (Tick gen _) = Some gen"
| "command_generation (BeginDrain gen _) = Some gen"
| "command_generation _ = None"

text \<open>Owner fencing: a command that carries another owner generation changes nothing, whatever it is
  and whether or not its reply is delivered.\<close>

theorem stale_generation_ignored:
  assumes "command_generation c = Some gen" and "gen \<noteq> generation e"
  shows "snd (handle_command uuid rcv c e) = e"
  using assms
  by (cases c)
    (simp_all add: handle_admit_def admit_def abandon_admission_def cancel_def handle_release_def release_lease_def
      pump_and_send_def pump_def handle_replace_def replace_lease_def handle_observe_cooldown_def
      observe_credential_cooldown_def handle_observe_auth_def observe_credential_auth_def handle_observe_quota_def
      observe_credential_quota_def handle_applied_def set_credential_fence_def remove_fenced_credential_def
      handle_reconfigure_group_def reconfigure_def handle_reconfigure_credential_def reconfigure_credential_def
      confirm_transport_cancel_def handle_complete_def complete_request_def disable_def send_or_def)

theorem stale_generation_ignored_witness:
  "snd (handle_command sample_uuid Alive (BeginDrain (OwnerGeneration 2) 5) sample_engine) = sample_engine"
  by (rule stale_generation_ignored [of _ "OwnerGeneration 2"]) simp_all

end
