(* ===== verification/Scheduler_Flow.thy ===== *)
theory Scheduler_Flow
  imports Scheduler_Properties
begin

text \<open>
  The longer runs of the group scheduler: what a pump does to the requests that wait, what draining,
  cancelling and replacing a lease promise, how affinity migrates, how quota observations are
  fenced, and where session claims leave the ledger without an event.
\<close>

subsection \<open>A request that holds a lease\<close>

lemma sample_leased:
  obtains l e1 rec where "engine_ok sample_uuid {#} 0 e1" and "bt_get (leases e1) (cl_id l) = Some rec" and "lease rec = l"
    and "cl_request_id l = TypedId ''r''" and "TypedId ''r'' \<in> group_permits e1" and "generation e1 = OwnerGeneration 1"
    and "uuid_draws e1 \<le> 1" and "ei_group_id (identity e1) = TypedId ''g''"
    and "bt_get (request_leases e1) (TypedId ''r'') = Some (cl_id l)" and "lifecycle e1 = Serving"
proof -
  obtain l e1 where A: "admit sample_uuid (OwnerGeneration 1) (sample_entry ''r'' ''u'') 0 sample_engine = (Inr (Granted l), e1)"
    by (rule sample_admitted)
  have d: "uuid_draws e1 \<le> 1" by (rule sample_draws [OF A])
  have E: "engine_ok sample_uuid {#} 0 e1" by (rule admit_ok [OF sample_uuid_ok sample_engine_ok A]) (use d in simp)
  have acc: "admit_accepted sample_uuid (sample_entry ''r'' ''u'') 0 sample_engine = (Inr (Granted l), e1)"
    using admit_inner [OF A] by auto
  have I: "identity e1 = sample_identity \<and> lifecycle e1 = Serving"
  proof -
    have "admit_pool sample_uuid (sample_entry ''r'' ''u'') 0 (prune 0 (sample_engine\<lparr>seen_requests := {TypedId ''r''},
      request_portability := bt_insert (TypedId ''r'') Portable (request_portability sample_engine)\<rparr>)) = (Inr (Granted l), e1)"
      using acc by (simp add: admit_accepted_def Let_def prune_frame)
    then show ?thesis
    proof (cases rule: admit_pool_cases)
      case (candidate cid e2 r')
      then show ?thesis
        using evaluate_pool_frame [OF candidate(1)] same_frameD(1,2) [OF grant_frame [OF candidate(2)]]
        by (auto simp: prune_frame)
    qed (auto simp: rejected_def dest: enqueue_not_granted)
  qed
  show thesis
  proof (cases rule: admit_accepted_outcome [OF sample_engine_ok _ acc])
    case (2 l' cid e0 e2)
    from 2(2) show thesis
      by (cases rule: grant_Inr) (use 2(1) E d I that [of e1 l] in \<open>auto simp: sample_identity_def\<close>)
  qed simp_all
qed

theorem release_exactly_once_witness:
  "\<exists>e (l :: CredentialLease) e'. release_lease (generation e) (cl_id l) 3 e = (Inr Released, e') \<and>
     snd (release_lease (generation e) (cl_id l) 4 e') = e'"
proof -
  obtain l :: CredentialLease and e1 rec where E: "engine_ok sample_uuid {#} 0 e1"
    and L: "bt_get (leases e1) (cl_id l) = Some rec"
    using sample_leased by metis
  from release_exactly_once [OF E L, of 3] show ?thesis by blast
qed

lemma acquire_session_claim_leases:
  "acquire_session_claim entry cid e = (k, e1) \<Longrightarrow> leases e1 = leases e"
  by (auto simp: acquire_session_claim_def Let_def split: if_splits)

lemma grant_leases:
  assumes "grant uuid entry cid now acq e = (Inr l, e')"
  shows "\<exists>rec. leases e' = bt_insert (cl_id l) rec (leases e) \<and> lease rec = l \<and>
    cl_id l = TypedId (''lease_'' @ uuid (uuid_draws e))"
proof -
  have I: "\<exists>rec. leases (install_lease entry l now acq e0) = bt_insert (cl_id l) rec (leases e0) \<and> lease rec = l" for e0
  proof -
    obtain key nc e1 where A: "acquire_session_claim entry (cl_credential_id l) e0 = ((key, nc), e1)" by (metis prod.collapse)
    show ?thesis
      using acquire_session_claim_leases [OF A]
      by (cases acq; cases nc) (auto simp: install_lease_def A Let_def)
  qed
  obtain rt' where "e' = install_lease entry l now acq
      (e\<lparr>credentials := bt_modify cid (\<lambda>_. rt') (credentials e), uuid_draws := Suc (uuid_draws e)\<rparr>)"
      "cl_id l = TypedId (''lease_'' @ uuid (uuid_draws e))"
    using assms by (auto simp: grant_def Let_def TypedId_new_ok split: option.splits prod.splits sum.splits)
  with I [of "e\<lparr>credentials := bt_modify cid (\<lambda>_. rt') (credentials e), uuid_draws := Suc (uuid_draws e)\<rparr>"]
  show ?thesis by simp
qed

lemma map_sum_Inr: "map_sum f g x = Inr y \<longleftrightarrow> (\<exists>z. x = Inr z \<and> y = g z)"
  by (cases x) auto

lemma grant_Inr_draws: "grant uuid entry cid now acq e = (Inr l, e') \<Longrightarrow> uuid_draws e' = Suc (uuid_draws e)"
  by (auto simp: grant_def Let_def split: option.splits prod.splits sum.splits)

text \<open>Replacing a lease for a retry keeps the request's group permit and nobody else's: the old lease is
  gone, the request has exactly the new one, and permits and queue are unchanged.\<close>

theorem replace_lease_keeps_permit:
  assumes "uuid_ok uuid N" and "engine_ok uuid {#} g e"
    and "replace_lease uuid gen req now e = (Inr (RetryGranted l), e')" and "uuid_draws e' \<le> N"
  shows "group_permits e' = group_permits e \<and> waiting e' = waiting e \<and>
    se_request_id (rl_entry req) \<in> group_permits e' \<and>
    bt_get (request_leases e') (se_request_id (rl_entry req)) = Some (cl_id l) \<and>
    length (leases e') = length (leases e) \<and>
    (cl_id l = current_lease_id req \<or> bt_get (leases e') (current_lease_id req) = None)"
proof -
  let ?rid = "se_request_id (rl_entry req)" and ?lid = "current_lease_id req"
  obtain cur where cur: "gen = generation e" "bt_get (leases e) ?lid = Some cur" "cl_request_id (lease cur) = ?rid"
      "bt_get (request_leases e) ?rid = Some ?lid" "?rid \<in> group_permits e"
    using assms(3) by (auto simp: replace_lease_def split: if_splits option.splits)
  obtain c e1 where K: "retry_candidate (rl_entry req) (target req) (cl_credential_id (lease cur)) now e = (c, e1)" by fastforce
  obtain creds where e1: "e1 = e\<lparr>credentials := creds\<rparr>" and E1: "engine_ok uuid {#} g e1"
    using retry_candidate_ok [OF assms(2) K] by blast
  obtain cid where c: "c = Some cid" using assms(3) cur K by (cases c) (auto simp: replace_lease_def split: if_splits)
  have "bt_get (leases e1) ?lid = Some cur" using cur by (simp add: e1)
  then obtain e2 where R: "release_lease (generation e1) ?lid now e1 = (Inr Released, e2)" and E2: "engine_ok uuid {#} g e2"
    and F: "request_leases e2 = bt_remove ?rid (request_leases e1)" "group_permits e2 = group_permits e1"
      "leases e2 = bt_remove ?lid (leases e1)"
    using engine_ok_release_lease [OF E1, of ?lid cur now] cur(3) by metis
  have G: "grant uuid (rl_entry req) cid now False e2 = (Inr l, e')"
    using assms(3) cur K c R e1 by (auto simp: replace_lease_def map_sum_Inr split: if_splits prod.splits sum.splits)
  have W: "waiting e' = waiting e"
    using same_frameD(6) [OF grant_frame [OF G]] same_frameD(6) [OF release_lease_frame [OF R]] e1 by simp
  from G show ?thesis
  proof (cases rule: grant_Inr)
    case (1 rt rt')
    have "uuid_draws e2 < N" using grant_Inr_draws [OF G] assms(4) by simp
    then have fresh: "bt_get (leases e2) (TypedId (''lease_'' @ uuid (uuid_draws e2))) = None"
      by (rule fresh_lease_id [OF engine_okD(2) [OF E2] assms(1)])
    obtain rec where L: "leases e' = bt_insert (cl_id l) rec (leases e2)" "cl_id l = TypedId (''lease_'' @ uuid (uuid_draws e2))"
      using grant_leases [OF G] by blast
    have "length (leases e') = length (leases e)"
      using L fresh F(3) length_bt_insert [of "leases e2" "cl_id l" rec]
        length_bt_remove [OF leases_wfD(1) [OF engine_okD(2) [OF assms(2)]] cur(2)] by (simp add: e1)
    with 1 F W cur(5) L show ?thesis by (auto simp: e1)
  qed
qed

text \<open>A cancelled request cannot be revived: after a cancellation the request has no permit and no
  ticket, its lease, if any, is fenced by a deadline, and no lease replacement is granted
  to it.\<close>

theorem cancelled_request_not_replaced:
  assumes "engine_ok uuid {#} g e" and "cancel (generation e) rid now e = (r, e')"
    and "se_request_id (rl_entry req) = rid"
  shows "r = Inr (rejected Cancelled None) \<and> rid \<notin> group_permits e' \<and> bt_get (waiting e') rid = None \<and>
    request_leases e' = request_leases e \<and>
    (\<forall>lid. bt_get (request_leases e) rid = Some lid \<longrightarrow> bt_get (pending_cancels e') lid \<noteq> None) \<and>
    (\<forall>l. fst (replace_lease uuid gen req later e') \<noteq> Inr (RetryGranted l))"
proof -
  have W: "rid \<notin> group_permits e" "bt_get (request_leases e) rid = None" if "bt_get (waiting e) rid = Some w" for w
    using engine_okD(5) [OF assms(1)] that by (auto simp: owner_wf_def)
  have C: "r = Inr (rejected Cancelled None)" "rid \<notin> group_permits e'" "bt_get (waiting e') rid = None"
      "request_leases e' = request_leases e"
      "\<forall>lid. bt_get (request_leases e) rid = Some lid \<longrightarrow> bt_get (pending_cancels e') lid \<noteq> None"
    using assms(2) W
    by (auto simp: cancel_def Let_def release_group_permit_def split: option.splits if_splits)
  have "fst (replace_lease uuid gen req later e') \<noteq> Inr (RetryGranted l)" for l
    using C(2) assms(3) by (auto simp: replace_lease_def split: option.splits)
  with C show ?thesis by blast
qed

theorem cancelled_request_not_replaced_witness:
  "\<exists>e e' lid. cancel (generation e) (TypedId ''r'') 5 e = (Inr (rejected Cancelled None), e') \<and>
     TypedId ''r'' \<in> group_permits e \<and> TypedId ''r'' \<notin> group_permits e' \<and>
     bt_get (request_leases e) (TypedId ''r'') = Some lid \<and> bt_get (pending_cancels e') lid \<noteq> None"
proof -
  obtain l :: CredentialLease and e1 where E: "engine_ok sample_uuid {#} 0 e1" and P: "TypedId ''r'' \<in> group_permits e1"
    and L: "bt_get (request_leases e1) (TypedId ''r'') = Some (cl_id l)"
    using sample_leased by metis
  let ?req = "\<lparr>current_lease_id = cl_id l, rl_entry = sample_entry ''r'' ''u'', target = Same (TypedId ''a'')\<rparr>"
  obtain r e' where C: "cancel (generation e1) (TypedId ''r'') 5 e1 = (r, e')" by fastforce
  have T: "r = Inr (rejected Cancelled None) \<and> TypedId ''r'' \<notin> group_permits e' \<and> bt_get (pending_cancels e') (cl_id l) \<noteq> None"
    using cancelled_request_not_replaced [OF E C, of ?req "OwnerGeneration 1" 6] L by simp
  show ?thesis
    by (intro exI [of _ e1] exI [of _ e'] exI [of _ "cl_id l"]) (use T C P L in simp)
qed

subsection \<open>The pump\<close>

definition answered :: "QueueResolution \<Rightarrow> bool" where
  "answered r \<longleftrightarrow>
     (\<exists>l. decision r = Granted l \<and> cl_request_id l = qr_request_id r) \<or>
     (\<exists>kind. decision r = rejected kind (Some (from_secs 5)) \<and> kind \<in> {TimedOut, SessionCapacityDeadline})"

lemma grant_candidate:
  assumes "uuid_ok uuid N" and "engine_ok uuid {#} g e" and "grant uuid entry cid now True e = (res, e')" and "uuid_draws e' \<le> N"
    and "fst (evaluate_pool_fields (credentials e) (affinities e) (session_claims e) (config e) entry now) = Candidate cid"
  shows "\<exists>l. res = Inr l"
proof -
  obtain rt where rt: "bt_get (credentials e) cid = Some rt" "credential_ready rt (config e) entry now"
    using in_ready_get [OF engine_okD(1) [OF assms(2)] assms(5)] by blast
  obtain x rt' where C: "charge_runtime (config e) entry now rt = (Some x, rt')" using charge_ready [OF rt(2)] by blast
  have "uuid_draws e < N"
    using assms(3,4) rt(1) C by (cases x) (auto simp: grant_def Let_def split: sum.splits)
  from grant_ready [OF assms(1) this rt] assms(3) show ?thesis by (metis prod.inject)
qed

lemma pump_turn_facts:
  assumes U: "uuid_ok uuid N" and E: "engine_ok uuid {#} g e" and T: "pump_turn uuid now e = (r, e')" and N: "uuid_draws e' \<le> N"
  shows "mset (map fst (waiting e)) = mset (map qr_request_id (unwrap_or r [])) + mset (map fst (waiting e')) \<and>
    list_all answered (unwrap_or r []) \<and>
    card (group_permits e') \<le> max (card (group_permits e)) (effective_concurrency e)"
proof -
  have E': "engine_ok uuid {#} g e'" by (rule pump_turn_ok [OF U E T N])
  have K: "mset (map fst (waiting e0)) = image_mset se_request_id (queue_entries (queue e0))" if "engine_ok uuid {#} g e0" for e0
    using engine_okD(4) [OF that] by (simp add: queue_wf_def)
  from E T show ?thesis
  proof (cases rule: pump_turn_cases)
    case (serve entry cid res e3)
    obtain l where l: "res = Inr l"
      using grant_candidate [OF U serve(4,1) N serve(12)] by blast
    have q: "queue e' = queue e3" by (rule same_frameD(5) [OF grant_frame [OF serve(1)]])
    have G: "cl_request_id l = se_request_id entry" "group_permits e' = insert (se_request_id entry) (group_permits e3)"
      by (rule grant_Inr [OF serve(1) [unfolded l]], simp)+
    have fin: "finite (group_permits e)" using engine_okD(5) [OF E] by (simp add: owner_wf_def)
    have "card (group_permits e') \<le> effective_concurrency e"
      using serve(10,11) G(2) fin by (simp add: card_insert_if)
    then show ?thesis
      unfolding K [OF E] K [OF E'] q serve(2,3) l by (simp add: answered_def G(1))
  next
    case stop
    then show ?thesis unfolding stop(1,5,6) by simp
  next
    case (timeout entry)
    show ?thesis
      unfolding K [OF E] K [OF E'] timeout(1,3,6) by (auto simp: answered_def)
  qed
qed

lemma pump_loop_facts:
  "uuid_ok uuid N \<Longrightarrow> engine_ok uuid {#} g e \<Longrightarrow> pump_loop uuid now e = (rs, e') \<Longrightarrow> uuid_draws e' \<le> N \<Longrightarrow>
   mset (map fst (waiting e)) = mset (map qr_request_id rs) + mset (map fst (waiting e')) \<and>
   list_all answered rs \<and> card (group_permits e') \<le> max (card (group_permits e)) (effective_concurrency e) \<and>
   effective_concurrency e' = effective_concurrency e"
proof (induction uuid now e arbitrary: rs rule: pump_loop.induct)
  case (1 uuid now e)
  obtain t e1 where T: "pump_turn uuid now e = (t, e1)" by fastforce
  have q: "queue_inv (queue e)" using engine_okD(4) [OF "1.prems"(2)] by (simp add: queue_wf_def)
  note cap = pump_turn_capacity [OF q T]
  show ?case
  proof (cases t)
    case None
    then have "rs = []" "e' = e1" using "1.prems"(3) T by (simp_all add: pump_loop.simps [of uuid now e])
    with pump_turn_facts [OF "1.prems"(1,2) T] None "1.prems"(4) cap show ?thesis by simp
  next
    case (Some xs)
    obtain rest where L: "pump_loop uuid now e1 = (rest, e')" and rs: "rs = xs @ rest"
      using "1.prems"(3) T Some by (auto simp: pump_loop.simps [of uuid now e] split: prod.splits)
    have "engine_sound uuid N g e1"
      by (rule pump_turn_sound [OF "1.prems"(1) _ T]) (use "1.prems"(2) in \<open>simp add: engine_sound_def\<close>)
    from pump_loop_sound [OF "1.prems"(1) this L] have d: "uuid_draws e1 \<le> N" using "1.prems"(4) by simp
    have E1: "engine_ok uuid {#} g e1" by (rule pump_turn_ok [OF "1.prems"(1,2) T d])
    from "1.IH" [OF T [symmetric] Some "1.prems"(1) E1 L "1.prems"(4)] pump_turn_facts [OF "1.prems"(1,2) T d] cap
    show ?thesis by (auto simp: Some rs)
  qed
qed

lemma expire_each_facts:
  assumes "bt_wf (waiting e)" and "distinct (map fst rs)"
    and "\<And>rid kind. (rid, kind) \<in> set rs \<Longrightarrow> bt_get (waiting e) rid \<noteq> None \<and> kind \<in> {TimedOut, SessionCapacityDeadline}"
    and "expire_each rs now e = (out, e')"
  shows "mset (map fst (waiting e)) = mset (map qr_request_id out) + mset (map fst (waiting e')) \<and>
    list_all answered out \<and> group_permits e' = group_permits e \<and> credentials e' = credentials e \<and> config e' = config e"
  using assms
proof (induction rs arbitrary: e out)
  case Nil
  then show ?case by simp
next
  case (Cons x rs)
  obtain rid kind where x: "x = (rid, kind)" by (cases x)
  let ?e2 = "forget_rate rid (drop_waiting rid Release now (e\<lparr>queue := snd (FairQueue_remove rid (queue e))\<rparr>))"
  obtain out' where R: "expire_each rs now ?e2 = (out', e')"
    and out: "out = \<lparr>qr_request_id = rid, decision = rejected kind (Some (from_secs 5))\<rparr> # out'"
    using Cons.prems(4) by (auto simp: x Let_def split: prod.splits)
  obtain w where w: "bt_get (waiting e) rid = Some w" and k: "kind \<in> {TimedOut, SessionCapacityDeadline}"
    using Cons.prems(3) [of rid kind] x by auto
  have "answered \<lparr>qr_request_id = rid, decision = rejected kind (Some (from_secs 5))\<rparr>"
    unfolding answered_def using k by (intro disjI2 exI [of _ kind]) simp
  moreover have "bt_get (waiting ?e2) rid' \<noteq> None \<and> kind' \<in> {TimedOut, SessionCapacityDeadline}"
    if "(rid', kind') \<in> set rs" for rid' kind'
    using that Cons.prems(2,3) x by force
  ultimately show ?case
    using Cons.IH [OF _ _ _ R] Cons.prems(1,2) mset_keys_remove [OF Cons.prems(1) w] by (simp add: x out)
qed

lemma expire_waiters_facts:
  assumes "bt_wf (waiting e)" and "expire_waiters now e = (out, e')"
  shows "mset (map fst (waiting e)) = mset (map qr_request_id out) + mset (map fst (waiting e')) \<and>
    list_all answered out \<and> group_permits e' = group_permits e \<and> credentials e' = credentials e \<and> config e' = config e"
proof (rule expire_each_facts [OF assms(1) _ _ assms(2) [unfolded expire_waiters_def]])
  show "distinct (map fst (map (\<lambda>(rid, w). (rid, if slot_expired now w then SessionCapacityDeadline else TimedOut))
      (bt_retain (\<lambda>_. waiter_expired now) (waiting e))))"
    using distinct_map_filter_fst [OF bt_wf_distinct [OF assms(1)], of "\<lambda>(k, v). waiter_expired now v"]
    by (simp add: bt_retain_def comp_def case_prod_unfold)
qed (use bt_get_eq_Some [OF assms(1)] in \<open>force simp: bt_retain_def\<close>)

lemma release_lease_permits: "release_lease gen lid now e = (r, e') \<Longrightarrow> group_permits e' = group_permits e"
  by (auto simp: release_lease_def Let_def split: option.splits if_splits)

lemma release_lease_view: "release_lease gen lid now e = (r, e') \<Longrightarrow> cap_view (credentials e') = cap_view (credentials e)"
proof -
  have "cap_view (bt_modify cid (\<lambda>_. rt') creds) = cap_view creds"
    if "bt_get creds cid = Some rt" "release_runtime l rt = Some rt'" for cid rt rt' l creds
    using that(2) by (intro cap_view_modify [OF that(1)]) (auto simp: release_runtime_def Let_def split: option.splits if_splits)
  then show "release_lease gen lid now e = (r, e') \<Longrightarrow> cap_view (credentials e') = cap_view (credentials e)"
    by (auto simp: release_lease_def Let_def split: option.splits if_splits)
qed

lemma expire_cancel_grace_facts:
  "group_permits (expire_cancel_grace now e) = group_permits e \<and> waiting (expire_cancel_grace now e) = waiting e \<and>
   effective_concurrency (expire_cancel_grace now e) = effective_concurrency e"
proof -
  have "group_permits (release_all lids now e) = group_permits e \<and>
      cap_view (credentials (release_all lids now e)) = cap_view (credentials e)" for lids
  proof (induction lids arbitrary: e)
    case (Cons lid lids)
    then show ?case
      using release_lease_permits [OF surjective_pairing] release_lease_view [OF surjective_pairing] by simp
  qed simp
  moreover note F = same_frameD(3,6) [OF release_all_frame]
  ultimately show ?thesis
    unfolding expire_cancel_grace_def by (simp add: F effective_concurrency_cong [where e' = "release_all _ now e" and e = e])
qed

lemma pump_facts:
  assumes U: "uuid_ok uuid N" and E: "engine_ok uuid {#} g e" and P: "pump uuid gen now e = (rs, e')" and N: "uuid_draws e' \<le> N"
  shows "mset (map fst (waiting e)) = mset (map qr_request_id rs) + mset (map fst (waiting e')) \<and> list_all answered rs \<and>
    card (group_permits e') \<le> max (card (group_permits e)) (effective_concurrency e) \<and>
    effective_concurrency e' = effective_concurrency e"
proof (cases "gen \<noteq> generation e \<or> lifecycle e \<noteq> Serving")
  case True
  then have "rs = []" "e' = e" using P by (auto simp: pump_def)
  then show ?thesis by simp
next
  case False
  let ?e0 = "prune now (expire_cancel_grace now e)"
  obtain expired e1 where X: "expire_waiters now ?e0 = (expired, e1)" by fastforce
  obtain resolved where L: "pump_loop uuid now e1 = (resolved, e')" and rs: "rs = expired @ resolved"
    using P False X by (auto simp: pump_def split: prod.splits)
  have E0: "engine_ok uuid {#} g ?e0" by (rule engine_ok_prune [OF engine_ok_expire_cancel_grace [OF E]])
  have E1: "engine_ok uuid {#} g e1" using expire_waiters_ok [OF E0 X] by blast
  have bw: "bt_wf (waiting ?e0)" using engine_okD(4) [OF E0] by (simp add: queue_wf_def)
  note F = expire_waiters_facts [OF bw X]
  have cap: "effective_concurrency e1 = effective_concurrency e"
    using F effective_concurrency_cong [of e1 ?e0] prune_capacity [of now "expire_cancel_grace now e"] expire_cancel_grace_facts [of now e]
    by simp
  show ?thesis
    using F pump_loop_facts [OF U E1 L N] cap expire_cancel_grace_facts [of now e] by (simp add: rs prune_frame)
qed

lemma distinct_count_le: "distinct xs \<longleftrightarrow> (\<forall>a. count (mset xs) a \<le> 1)"
proof (induction xs)
  case (Cons x xs)
  show ?case
  proof
    assume "distinct (x # xs)"
    then show "\<forall>a. count (mset (x # xs)) a \<le> 1" using Cons by (simp add: count_mset_0_iff)
  next
    assume A: "\<forall>a. count (mset (x # xs)) a \<le> 1"
    then have "\<forall>a. count (mset xs) a \<le> 1" by (metis Suc_leD count_add_mset mset.simps(2))
    moreover have "count (mset xs) x = 0" using A [rule_format, of x] by simp
    ultimately show "distinct (x # xs)" using Cons by (simp add: count_mset_0_iff)
  qed
qed simp

text \<open>C6. The pump loses and invents nothing: the requests it answers, together with those still waiting,
  are exactly the requests that were waiting, each answered at most once, and every answer is a lease
  for that request or a timeout.\<close>

theorem pump_conserves_requests:
  assumes "uuid_ok uuid N" and "engine_ok uuid {#} g e" and "pump uuid gen now e = (rs, e')" and "uuid_draws e' \<le> N"
  shows "mset (map fst (waiting e)) = mset (map qr_request_id rs) + mset (map fst (waiting e')) \<and>
    distinct (map qr_request_id rs) \<and> list_all answered rs"
proof -
  note F = pump_facts [OF assms]
  have "distinct (map fst (waiting e))"
    using engine_okD(4) [OF assms(2)] by (auto simp: queue_wf_def intro: bt_wf_distinct)
  then have "count (mset (map qr_request_id rs) + mset (map fst (waiting e'))) a \<le> 1" for a
    using F unfolding distinct_count_le by metis
  then have "count (mset (map qr_request_id rs)) a \<le> 1" for a
    by (metis add_leD1 count_union)
  then have "distinct (map qr_request_id rs)" unfolding distinct_count_le by blast
  with F show ?thesis by blast
qed

text \<open>The pump never grants beyond the group's effective concurrency: the number of permits after it is
  at most that, or what it already was when the limit had been lowered below it.\<close>

theorem pump_respects_concurrency:
  assumes "uuid_ok uuid N" and "engine_ok uuid {#} g e" and "pump uuid gen now e = (rs, e')" and "uuid_draws e' \<le> N"
  shows "card (group_permits e') \<le> max (card (group_permits e)) (effective_concurrency e')"
  using pump_facts [OF assms] by simp

subsection \<open>A pump with work to do\<close>

text \<open>The pump draws at most one identifier per waiting request.\<close>

lemma waiting_length: "engine_ok uuid {#} g e \<Longrightarrow> length (waiting e) = size (queue_entries (queue e))"
proof -
  assume "engine_ok uuid {#} g e"
  then have "mset (map fst (waiting e)) = image_mset se_request_id (queue_entries (queue e))"
    using engine_okD(4) by (fastforce simp: queue_wf_def)
  from arg_cong [OF this, of size] show ?thesis by simp
qed

lemma pump_turn_draws_bound:
  assumes U: "uuid_ok uuid N" and E: "engine_ok uuid {#} g e" and T: "pump_turn uuid now e = (r, e')"
    and B: "uuid_draws e + length (waiting e) \<le> N"
  shows "engine_ok uuid {#} g e' \<and> uuid_draws e' + length (waiting e') \<le> uuid_draws e + length (waiting e)"
proof -
  have sz: "uuid_draws e' + size (queue_entries (queue e')) \<le> uuid_draws e + size (queue_entries (queue e))"
    using E T
  proof (cases rule: pump_turn_cases)
    case (serve entry cid res e3)
    have "queue e' = queue e3" by (rule same_frameD(5) [OF grant_frame [OF serve(1)]])
    then show ?thesis using serve(3,5) grant_draws [OF serve(1)] by auto
  qed simp_all
  then have "uuid_draws e' \<le> N" using B waiting_length [OF E] by simp
  then have "engine_ok uuid {#} g e'" by (rule pump_turn_ok [OF U E T])
  with sz show ?thesis by (simp add: waiting_length waiting_length [OF E])
qed

lemma pump_loop_draws_bound:
  "uuid_ok uuid N \<Longrightarrow> engine_ok uuid {#} g e \<Longrightarrow> uuid_draws e + length (waiting e) \<le> N \<Longrightarrow>
   pump_loop uuid now e = (rs, e') \<Longrightarrow> uuid_draws e' \<le> uuid_draws e + length (waiting e)"
proof (induction uuid now e arbitrary: rs rule: pump_loop.induct)
  case (1 uuid now e)
  obtain t e1 where T: "pump_turn uuid now e = (t, e1)" by fastforce
  note B = pump_turn_draws_bound [OF "1.prems"(1,2) T "1.prems"(3)]
  show ?case
  proof (cases t)
    case None
    then show ?thesis using "1.prems"(4) T B by (simp add: pump_loop.simps [of uuid now e])
  next
    case (Some xs)
    then obtain rest where L: "pump_loop uuid now e1 = (rest, e')"
      using "1.prems"(4) T by (auto simp: pump_loop.simps [of uuid now e] split: prod.splits)
    have "uuid_draws e' \<le> uuid_draws e1 + length (waiting e1)"
      using "1.IH" [OF T [symmetric] Some "1.prems"(1) conjunct1 [OF B] _ L] B "1.prems"(3) by linarith
    with B show ?thesis by linarith
  qed
qed

lemma pump_draws_bound:
  assumes U: "uuid_ok uuid N" and E: "engine_ok uuid {#} g e" and B: "uuid_draws e + length (waiting e) \<le> N"
    and P: "pump uuid gen now e = (rs, e')"
  shows "uuid_draws e' \<le> N"
proof (cases "gen \<noteq> generation e \<or> lifecycle e \<noteq> Serving")
  case True
  with P B show ?thesis by (auto simp: pump_def)
next
  case False
  let ?e0 = "prune now (expire_cancel_grace now e)"
  obtain expired e1 where X: "expire_waiters now ?e0 = (expired, e1)" by fastforce
  obtain resolved where L: "pump_loop uuid now e1 = (resolved, e')"
    using P False X by (auto simp: pump_def split: prod.splits)
  have E0: "engine_ok uuid {#} g ?e0" by (rule engine_ok_prune [OF engine_ok_expire_cancel_grace [OF E]])
  have bw: "bt_wf (waiting ?e0)" using engine_okD(4) [OF E0] by (simp add: queue_wf_def)
  have "length (waiting e1) \<le> length (waiting ?e0)"
    using arg_cong [OF conjunct1 [OF expire_waiters_facts [OF bw X]], of size] by simp
  then have "uuid_draws e1 + length (waiting e1) \<le> N"
    using expire_waiters_ok [OF E0 X] B expire_cancel_grace_facts [of now e] by (simp add: prune_frame)
  with pump_loop_draws_bound [OF U _ _ L] expire_waiters_ok [OF E0 X] show ?thesis by (meson le_trans)
qed

definition sample_waiting :: SchedulerEngine where
  "sample_waiting = snd (enqueue sample_uuid (sample_entry ''r'' ''u'') 0 None
     (sample_engine\<lparr>seen_requests := insert (TypedId ''r'') (seen_requests sample_engine)\<rparr>))"

lemma sample_waiting_ok: "engine_ok sample_uuid {#} 0 sample_waiting"
  unfolding sample_waiting_def
  by (rule engine_ok_enqueue [OF engine_ok_seen [OF sample_engine_ok] _ _ _ _ surjective_pairing])
    (simp_all add: sample_engine_def)

lemma sample_waiting_fields:
  "map fst (waiting sample_waiting) = [TypedId ''r'']" "uuid_draws sample_waiting = 1"
  "generation sample_waiting = OwnerGeneration 1" "lifecycle sample_waiting = Serving" "leases sample_waiting = []"
proof -
  let ?e = "sample_engine\<lparr>seen_requests := insert (TypedId ''r'') (seen_requests sample_engine)\<rparr>"
  have "queue_capacity ?e = 4"
    using sample_capacity by (simp add: queue_capacity_def effective_concurrency_def GroupConfig_default_def
        usize_saturating_mul_def USIZE_MAX_def)
  moreover have "(TypedId_new (''ticket_'' @ sample_uuid 0) :: TicketId DomainResult) = Inr (TypedId (''ticket_'' @ sample_uuid 0))"
    by (rule uuid_ok_TypedId [OF sample_uuid_ok]) simp_all
  ultimately show "map fst (waiting sample_waiting) = [TypedId ''r'']" "uuid_draws sample_waiting = 1"
      "generation sample_waiting = OwnerGeneration 1" "lifecycle sample_waiting = Serving" "leases sample_waiting = []"
    by (simp_all add: sample_waiting_def enqueue_def Let_def)
qed

lemma sample_pump_draws: "uuid_draws (snd (pump sample_uuid (OwnerGeneration 1) 5 sample_waiting)) \<le> 8"
proof (rule pump_draws_bound [OF sample_uuid_ok sample_waiting_ok _ surjective_pairing])
  have "length (waiting sample_waiting) = 1" using arg_cong [OF sample_waiting_fields(1), of length] by simp
  then show "uuid_draws sample_waiting + length (waiting sample_waiting) \<le> 8" by (simp add: sample_waiting_fields)
qed

theorem pump_conserves_requests_witness:
  "let p = pump sample_uuid (OwnerGeneration 1) 5 sample_waiting in
   mset [TypedId ''r''] = mset (map qr_request_id (fst p)) + mset (map fst (waiting (snd p))) \<and> list_all answered (fst p)"
  using pump_conserves_requests [OF sample_uuid_ok sample_waiting_ok surjective_pairing sample_pump_draws]
  by (simp add: Let_def sample_waiting_fields flip: mset_map)

theorem pump_respects_concurrency_witness:
  "let p = pump sample_uuid (OwnerGeneration 1) 5 sample_waiting in
   card (group_permits (snd p)) \<le> max (card (group_permits sample_waiting)) (effective_concurrency (snd p))"
  using pump_respects_concurrency [OF sample_uuid_ok sample_waiting_ok surjective_pairing sample_pump_draws]
  by (simp add: Let_def)

subsection \<open>Draining\<close>

lemma reject_drained_all:
  "reject_drained (\<lambda>_. False) retry now es e = (rs, e') \<Longrightarrow>
   map qr_request_id rs = map se_request_id es \<and> list_all (\<lambda>r. decision r = rejected GroupUnavailable retry) rs \<and>
   queue e' = queue e \<and> leases e' = leases e \<and> group_permits e' = group_permits e \<and> lifecycle e' = lifecycle e \<and>
   identity e' = identity e \<and> pending_cancels e' = pending_cancels e"
  by (induction es arbitrary: e rs) (auto simp: Let_def split: prod.splits)

text \<open>Draining answers every waiting request and keeps the leases: after it nothing waits, each request
  that waited is answered once as unavailable, and leases and permits are untouched.\<close>

theorem drain_answers_all:
  assumes "engine_ok uuid {#} g e" and "disable (generation e) now e = (rs, e')"
  shows "mset (map qr_request_id rs) = mset (map fst (waiting e)) \<and> waiting e' = [] \<and> fq_len (queue e') = 0 \<and>
    list_all (\<lambda>r. decision r = rejected GroupUnavailable None) rs \<and>
    lifecycle e' = Draining \<and> leases e' = leases e \<and> group_permits e' = group_permits e"
proof -
  obtain es q where D: "FairQueue_drain (queue e) = (es, q)" by fastforce
  have I: "queue_inv (queue e)" using engine_okD(4) [OF assms(1)] by (simp add: queue_wf_def)
  have R: "reject_drained (\<lambda>_. False) None now es (e\<lparr>lifecycle := Draining, queue := q\<rparr>) = (rs, e')"
    using assms(2) D by (simp add: disable_def)
  note A = reject_drained_all [OF R]
  have q: "mset es = queue_entries (queue e)" "queue_entries q = {#}" "queue_inv q"
    using drain_from_correct [OF I D [unfolded FairQueue_drain_def]] by blast+
  have W': "mset (map fst (waiting e')) = {#}"
    using engine_okD(4) [OF conjunct1 [OF engine_ok_disable [OF assms]]] A q(2) by (simp add: queue_wf_def)
  have "mset (map qr_request_id rs) = mset (map fst (waiting e))"
    using A q(1) engine_okD(4) [OF assms(1)] by (simp add: queue_wf_def)
  with A W' q(2,3) show ?thesis by (auto simp: queue_inv_def)
qed

theorem drain_answers_all_witness:
  "let p = disable (OwnerGeneration 1) 5 sample_waiting in
   map qr_request_id (fst p) = [TypedId ''r''] \<and> waiting (snd p) = []"
  using drain_answers_all [OF sample_waiting_ok surjective_pairing, of 5] sample_waiting_fields(3)
  by (simp add: Let_def sample_waiting_fields flip: mset_map)

text \<open>While the group drains, a tick does nothing at all, so the cancellation deadline of a lease has no
  effect: a cancelled lease stays until its transport confirms or its owner releases it, however
  late the tick is; the same tick on a serving group releases it.\<close>

theorem draining_ignores_cancel_grace:
  assumes "engine_ok uuid {#} g e" and "bt_get (pending_cancels e) lid = Some d" and "d \<le> now"
  shows "(lifecycle e \<noteq> Serving \<longrightarrow> snd (handle_command uuid Alive (Tick (generation e) now) e) = e) \<and>
    bt_get (leases e) lid \<noteq> None \<and> bt_get (leases (expire_cancel_grace now e)) lid = None"
proof -
  note L = leases_wfD [OF engine_okD(2) [OF assms(1)]]
  have "bt_get (leases (release_all lids now e)) lid = None" if "lid \<in> set lids \<or> bt_get (leases e) lid = None" for lids e
    using that
  proof (induction lids arbitrary: e)
    case (Cons x lids)
    have "bt_get (leases (snd (release_lease (generation e) x now e))) lid = None" if "x = lid \<or> bt_get (leases e) lid = None"
      using that by (auto simp: release_lease_def Let_def split: option.splits)
    with Cons show ?case by auto
  qed simp
  moreover have "lid \<in> set (map fst (bt_retain (\<lambda>_ d. d \<le> now) (pending_cancels e)))"
    using assms(2,3) bt_get_eq_Some [OF L(3)] by (force simp: bt_retain_def)
  ultimately show ?thesis
    using L(7) [OF assms(2)] by (auto simp: pump_and_send_def pump_def send_or_def expire_cancel_grace_def)
qed

theorem draining_ignores_cancel_grace_witness:
  "\<exists>e lid d. lifecycle e = Draining \<and> bt_get (pending_cancels e) lid = Some d \<and> bt_get (leases e) lid \<noteq> None \<and>
     snd (handle_command sample_uuid Alive (Tick (generation e) d) e) = e"
proof -
  obtain l :: CredentialLease and e1 where E: "engine_ok sample_uuid {#} 0 e1" and P: "TypedId ''r'' \<in> group_permits e1"
    and L: "bt_get (request_leases e1) (TypedId ''r'') = Some (cl_id l)"
    using sample_leased by metis
  obtain r e2 where C: "cancel (generation e1) (TypedId ''r'') 5 e1 = (r, e2)" by fastforce
  have W: "bt_get (waiting e1) (TypedId ''r'') = None" using engine_okD(5) [OF E] L by (auto simp: owner_wf_def)
  obtain d where d: "bt_get (pending_cancels e2) (cl_id l) = Some d"
    using C P L W by (auto simp: cancel_def Let_def release_group_permit_def split: option.splits if_splits)
  obtain es e3 where D: "disable (generation e2) 6 e2 = (es, e3)" by fastforce
  have E2: "engine_ok sample_uuid {#} 0 e2" using engine_ok_cancel [OF E C] by blast
  have E3: "engine_ok sample_uuid {#} 0 e3" using engine_ok_disable [OF E2 D] by blast
  have F: "lifecycle e3 = Draining" "pending_cancels e3 = pending_cancels e2"
    using D reject_drained_all by (fastforce simp: disable_def split: prod.splits)+
  with draining_ignores_cancel_grace [OF E3, of "cl_id l" d d] d show ?thesis
    by (intro exI [of _ e3] exI [of _ "cl_id l"] exI [of _ d]) simp
qed

subsection \<open>Affinity\<close>

text \<open>A session moves to another credential only after the configured number of successes there in a row:
  with threshold \<open>m\<close>, fewer successes keep the affinity and the \<open>m\<close>-th moves it.\<close>

theorem affinity_migration_threshold:
  assumes "bt_get (affinities e) key = Some a" and "af_credential_id a \<noteq> cid" and "migration_candidate a \<noteq> Some cid"
    and "affinity_migration_successes (config e) \<noteq> 0"
    and "length nows = unat (affinity_migration_successes (config e))"
  shows "(\<forall>n < length nows. map_option af_credential_id
        (bt_get (affinities (fold (record_success key cid) (take n nows) e)) key) = Some (af_credential_id a)) \<and>
    map_option af_credential_id (bt_get (affinities (fold (record_success key cid) nows e)) key) = Some cid"
proof -
  let ?m = "affinity_migration_successes (config e)"
  have step: "bt_get (affinities (record_success key cid now e1)) key = Some
      (let n = (if migration_candidate b = Some cid then saturating_add (migration_successes b) 1 else 1) in
       if ?m \<le> n then b\<lparr>af_credential_id := cid, migration_candidate := None, migration_successes := 0,
          expires_at := dur_saturating_add now (affinity_ttl (config e))\<rparr>
       else b\<lparr>migration_candidate := Some cid, migration_successes := n\<rparr>)"
    if "bt_get (affinities e1) key = Some b" "af_credential_id b \<noteq> cid" "config e1 = config e" for e1 b now
    using that by (auto simp: record_success_def Let_def)
  have cfg: "config (record_success key cid now e1) = config e1" for now e1
    by (auto simp: record_success_def Let_def split: option.splits)
  have run: "\<exists>b. bt_get (affinities (fold (record_success key cid) ns e)) key = Some b \<and>
      config (fold (record_success key cid) ns e) = config e \<and> af_credential_id b = af_credential_id a \<and>
      (ns = [] \<and> b = a \<or> migration_candidate b = Some cid \<and> unat (migration_successes b) = length ns)"
    if "length ns < unat ?m" for ns
    using that
  proof (induction ns rule: rev_induct)
    case Nil
    with assms(1) show ?case by simp
  next
    case (snoc now ns)
    then obtain b where b: "bt_get (affinities (fold (record_success key cid) ns e)) key = Some b"
      "config (fold (record_success key cid) ns e) = config e" "af_credential_id b = af_credential_id a"
      "ns = [] \<and> b = a \<or> migration_candidate b = Some cid \<and> unat (migration_successes b) = length ns" by auto
    let ?n = "if migration_candidate b = Some cid then saturating_add (migration_successes b) 1 else 1"
    have n: "unat ?n = Suc (length ns)"
    proof (cases "ns = []")
      case True
      then have "?n = 1" using b(4) assms(3) snoc.prems by (auto simp: saturating_add_def unat_eq_0)
      with True show ?thesis by simp
    next
      case False
      then have "migration_successes b < ?m" using b(4) snoc.prems by (simp add: word_less_nat_alt)
      from unat_add_1_less [OF this] False b(4) show ?thesis by simp
    qed
    then have "\<not> ?m \<le> ?n" using snoc.prems by (simp add: word_le_nat_alt)
    then show ?case
      using step [OF b(1) _ b(2), of now] b(2,3) assms(2) n by (simp add: Let_def cfg)
  qed
  obtain ns now where nows: "nows = ns @ [now]"
    using assms(4,5) by (metis length_0_conv rev_exhaust unat_eq_0)
  then have len: "length ns < unat ?m" using assms(5) by simp
  obtain b where b: "bt_get (affinities (fold (record_success key cid) ns e)) key = Some b"
      "config (fold (record_success key cid) ns e) = config e" "af_credential_id b = af_credential_id a"
      "ns = [] \<and> b = a \<or> migration_candidate b = Some cid \<and> unat (migration_successes b) = length ns"
    using run [OF len] by blast
  let ?n = "if migration_candidate b = Some cid then saturating_add (migration_successes b) 1 else 1"
  have "unat ?n = unat ?m"
  proof (cases "ns = []")
    case True
    then have "?n = 1" using b(4) assms(3) by (auto simp: saturating_add_def unat_eq_0)
    with True nows assms(5) show ?thesis by simp
  next
    case False
    then have "migration_successes b < ?m" using b(4) len by (simp add: word_less_nat_alt)
    from unat_add_1_less [OF this] False b(4) nows assms(5) show ?thesis by simp
  qed
  then have "?m \<le> ?n" by (simp add: word_le_nat_alt)
  then have "map_option af_credential_id (bt_get (affinities (fold (record_success key cid) nows e)) key) = Some cid"
    using step [OF b(1) _ b(2), of now] b(3) assms(2) by (simp add: nows Let_def)
  moreover have "map_option af_credential_id (bt_get (affinities (fold (record_success key cid) (take n nows) e)) key) = Some (af_credential_id a)"
    if "n < length nows" for n
    using run [of "take n nows"] that assms(5) by auto
  ultimately show ?thesis by blast
qed

theorem affinity_migration_threshold_witness:
  "\<exists>e key m. affinity_migration_successes (config e) = m \<and> m \<noteq> 0 \<and>
     map_option af_credential_id (bt_get (affinities e) key) = Some (TypedId ''a'') \<and>
     map_option af_credential_id (bt_get (affinities (fold (record_success key (TypedId ''b'')) (replicate (unat m) 7) e)) key) =
       Some (TypedId ''b'')"
proof -
  let ?a = "\<lparr>af_credential_id = TypedId ''a'', expires_at = 9, migration_candidate = None, migration_successes = 0\<rparr>"
  obtain key :: AffinityKey where True by simp
  let ?e = "sample_engine\<lparr>affinities := [(key, ?a)]\<rparr>"
  let ?m = "affinity_migration_successes (config ?e)"
  have m: "?m \<noteq> 0" by (simp add: GroupConfig_default_def)
  from affinity_migration_threshold [of ?e key ?a "TypedId ''b''" "replicate (unat ?m) 7"] m show ?thesis
    by (intro exI [of _ ?e] exI [of _ key] exI [of _ ?m]) simp
qed

subsection \<open>Observation fencing\<close>

text \<open>Quota observations are applied in version order: an update is applied exactly when it comes from the
  current owner, is in range, names a known credential and is newer than the stored version; then the stored
  version is its own, otherwise the engine is unchanged.\<close>

theorem quota_observation_fenced:
  "let applied = fst (observe_credential_quota gen u e); e' = snd (observe_credential_quota gen u e) in
   (applied \<longleftrightarrow> gen = generation e \<and> qu_used_basis_points u \<le> 10000 \<and>
      (\<exists>rt. bt_get (credentials e) (qu_credential_id u) = Some rt \<and>
         is_none_or (quota_observation_version rt) (\<lambda>v. v < qu_observation_version u))) \<and>
   (if applied
    then map_option quota_observation_version (bt_get (credentials e') (qu_credential_id u)) =
        Some (Some (qu_observation_version u))
    else e' = e)"
  by (auto simp: Let_def observe_credential_quota_def quota_observed_def not_le not_less split: option.splits if_splits)

subsection \<open>Replacement is atomic\<close>

text \<open>What the retry scan guarantees of the credentials it offers: they are ready once the request's own
  lease is given back.\<close>

definition ready_after_release :: "GroupConfig \<Rightarrow> ScheduleEntry \<Rightarrow> duration \<Rightarrow> bool \<Rightarrow> CredentialRuntime \<Rightarrow> bool" where
  "ready_after_release cfg entry now own rt =
     (if own then (case checked_sub (inflight rt) 1 of
         None \<Rightarrow> False | Some n \<Rightarrow> credential_ready (rt\<lparr>inflight := n\<rparr>) cfg entry now)
      else credential_ready rt cfg entry now)"

lemma eligibility_ready_after:
  assumes "eligibility rt cfg entry now = ((Eligible, w), rt')"
  shows "credential_ready rt' cfg entry now"
  using eligibility_idem [of rt cfg entry now] assms eligibility_Eligible_iff [of rt' cfg entry now] by simp

lemma retry_probe_ready:
  assumes "retry_probe cfg entry now own rt = Some (Eligible, rt')"
  shows "ready_after_release cfg entry now own rt'"
proof (cases own)
  case True
  obtain n w rt1 where n: "checked_sub (inflight rt) 1 = Some n"
    and el: "eligibility (rt\<lparr>inflight := n\<rparr>) cfg entry now = ((Eligible, w), rt1)"
    and rt': "rt' = rt1\<lparr>inflight := saturating_add (inflight rt1) 1\<rparr>"
    using assms True by (auto simp: retry_probe_def split: option.splits prod.splits)
  have load: "inflight rt' = inflight rt" using retry_probe_load [OF assms] by simp
  have "inflight rt1 = n" using eligibility_bucket [of "rt\<lparr>inflight := n\<rparr>" cfg entry now] el by auto
  then have "rt'\<lparr>inflight := n\<rparr> = rt1" by (simp add: rt')
  then show ?thesis using eligibility_ready_after [OF el] True n load by (simp add: ready_after_release_def)
next
  case False
  with assms eligibility_ready_after show ?thesis
    by (auto simp: retry_probe_def ready_after_release_def split: prod.splits)
qed

lemma retry_scan_ready:
  "retry_scan claims cfg entry tgt cur now creds = (Some is, creds') \<Longrightarrow> i \<in> set is \<Longrightarrow>
   \<exists>rt. (i, rt) \<in> set creds' \<and> ready_after_release cfg entry now (i = cur) rt"
proof (induction creds arbitrary: "is" creds')
  case (Cons p creds)
  obtain j rt where p: "p = (j, rt)" by (cases p)
  show ?case
  proof (cases "\<not> retry_selected tgt j \<or> session_capacity_blocked (rt_config rt) claims entry")
    case True
    with Cons show ?thesis by (fastforce simp: p split: prod.splits)
  next
    case False
    then obtain c rt1 is1 creds1 where P: "retry_probe cfg entry now (j = cur) rt = Some (c, rt1)"
      and R: "retry_scan claims cfg entry tgt cur now creds = (Some is1, creds1)"
      and r: "is = (if c = Eligible then j # is1 else is1)" "creds' = (j, rt1) # creds1"
      using Cons.prems(1) by (auto simp: p split: option.splits prod.splits)
    from Cons.IH [OF R] Cons.prems(2) retry_probe_ready [of cfg entry now "j = cur" rt rt1] P show ?thesis
      by (auto simp: r split: if_splits)
  qed
qed simp

lemma sort_head: "sort_by f (filter P xs) = x # ys \<Longrightarrow> x \<in> set xs"
  by (metis filter_is_subset list.set_intros(1) set_sort_by subsetD)

lemma retry_candidate_ready:
  assumes "bt_wf (credentials e)" and "retry_candidate entry tgt cur now e = (Some cid, e')"
  shows "\<exists>rt. bt_get (credentials e') cid = Some rt \<and> ready_after_release (config e') entry now (cid = cur) rt"
proof -
  obtain "is" creds where R: "retry_scan (session_claims e) (config e) entry tgt cur now (credentials e) = (Some is, creds)"
    and e': "e' = e\<lparr>credentials := creds\<rparr>" and "cid \<in> set is"
    using assms(2)
    by (auto simp: retry_candidate_def split: if_splits prod.splits option.splits list.splits
        dest!: sort_head)
  then obtain rt where rt: "(cid, rt) \<in> set creds" "ready_after_release (config e) entry now (cid = cur) rt"
    using retry_scan_ready by blast
  have "bt_wf creds" using retry_scan_load [OF R] assms(1) by (auto simp: same_load_def bt_wf_def)
  with rt show ?thesis by (auto simp: e' bt_get_eq_Some)
qed

lemma credential_ready_clear_half:
  assumes "credential_ready rt cfg entry now"
  shows "credential_ready (rt\<lparr>rt_config := (rt_config rt)\<lparr>cc_state := (cc_state (rt_config rt))\<lparr>half_open_inflight := False\<rparr>\<rparr>\<rparr>)
    cfg entry now"
proof -
  let ?rt = "rt\<lparr>rt_config := (rt_config rt)\<lparr>cc_state := (cc_state (rt_config rt))\<lparr>half_open_inflight := False\<rparr>\<rparr>\<rparr>"
  have "ineligible ?rt entry = ineligible rt entry" by (simp add: ineligible_def Let_def)
  moreover have "quota_requires_half_open ?rt guard now = quota_requires_half_open rt guard now" for guard
    by (simp add: quota_requires_half_open_def)
  ultimately show ?thesis using assms unfolding credential_ready_def Let_def by simp blast
qed

lemma release_runtime_ready:
  assumes "ready_after_release cfg entry now True rt" and "release_runtime l rt = Some rt'"
  shows "credential_ready rt' cfg entry now"
proof -
  obtain n where n: "credential_ready (rt\<lparr>inflight := n\<rparr>) cfg entry now"
    "rt' = (if half_open l then (rt\<lparr>inflight := n\<rparr>)\<lparr>rt_config := (rt_config rt)\<lparr>cc_state := (cc_state (rt_config rt))
        \<lparr>half_open_inflight := False\<rparr>\<rparr>\<rparr> else rt\<lparr>inflight := n\<rparr>)"
    using assms by (cases "checked_sub (inflight rt) 1") (simp_all add: ready_after_release_def release_runtime_def Let_def)
  with credential_ready_clear_half [OF n(1)] show ?thesis by (cases "half_open l") simp_all
qed

text \<open>Once a replacement credential is chosen, the release and the grant both succeed.\<close>

lemma replace_lease_grants:
  assumes U: "uuid_ok uuid N" "uuid_draws e < N" and E: "engine_ok uuid {#} g e"
    and guards: "se_group_id (rl_entry req) = ei_group_id (identity e)"
      "bt_get (leases e) (current_lease_id req) = Some cur" "cl_request_id (lease cur) = se_request_id (rl_entry req)"
      "bt_get (request_leases e) (se_request_id (rl_entry req)) = Some (current_lease_id req)"
      "se_request_id (rl_entry req) \<in> group_permits e"
    and K: "retry_candidate (rl_entry req) (target req) (cl_credential_id (lease cur)) now e = (Some cid, e1)"
  shows "\<exists>l e'. replace_lease uuid (generation e) req now e = (Inr (RetryGranted l), e') \<and> uuid_draws e' = Suc (uuid_draws e)"
proof -
  let ?lid = "current_lease_id req" and ?cc = "cl_credential_id (lease cur)"
  obtain creds where e1: "e1 = e\<lparr>credentials := creds\<rparr>" and E1: "engine_ok uuid {#} g e1"
    using retry_candidate_ok [OF E K] by blast
  obtain rt where rt: "bt_get (credentials e1) cid = Some rt" "ready_after_release (config e1) (rl_entry req) now (cid = ?cc) rt"
    using retry_candidate_ready [OF _ K] engine_okD(1) [OF E] by (auto simp: creds_wf_def)
  have "bt_get (leases e1) ?lid = Some cur" using guards(2) by (simp add: e1)
  then obtain e2 rt0 rt1 where L: "release_lease (generation e1) ?lid now e1 = (Inr Released, e2)" "uuid_draws e2 = uuid_draws e1"
    and C: "bt_get (credentials e1) ?cc = Some rt0" "release_runtime (lease cur) rt0 = Some rt1"
      "credentials e2 = bt_modify ?cc (\<lambda>_. rt1) (credentials e1)"
    using engine_ok_release_lease [OF E1, of ?lid cur now] by metis
  have "\<exists>rt'. bt_get (credentials e2) cid = Some rt' \<and> credential_ready rt' (config e1) (rl_entry req) now"
  proof (cases "cid = ?cc")
    case True
    with rt C release_runtime_ready [of "config e1" "rl_entry req" now rt] show ?thesis by auto
  next
    case False
    with rt C show ?thesis by (auto simp: ready_after_release_def)
  qed
  moreover have "config e2 = config e1" by (rule same_frameD [OF release_lease_frame [OF L(1)]])
  ultimately obtain l e3 where G: "grant uuid (rl_entry req) cid now False e2 = (Inr l, e3)"
    using grant_ready [OF U(1), of e2 cid] U(2) L(2) e1 by force
  have "uuid_draws e3 = Suc (uuid_draws e)" using grant_Inr_draws [OF G] L(2) by (simp add: e1)
  moreover have "replace_lease uuid (generation e) req now e = (Inr (RetryGranted l), e3)"
    using guards K L e1 G by (simp add: replace_lease_def)
  ultimately show ?thesis by blast
qed

text \<open>
  What a replacement needs: the request holds the lease it names and its permit, in this group
  and generation, and a retry candidate exists.
\<close>

definition replaceable :: "OwnerGeneration \<Rightarrow> RetryLeaseRequest \<Rightarrow> duration \<Rightarrow> SchedulerEngine \<Rightarrow> bool" where
  "replaceable gen req now e \<longleftrightarrow>
     gen = generation e \<and> se_group_id (rl_entry req) = ei_group_id (identity e) \<and>
     bt_get (request_leases e) (se_request_id (rl_entry req)) = Some (current_lease_id req) \<and>
     se_request_id (rl_entry req) \<in> group_permits e \<and>
     (case bt_get (leases e) (current_lease_id req) of
        None \<Rightarrow> False
      | Some cur \<Rightarrow> cl_request_id (lease cur) = se_request_id (rl_entry req) \<and>
          fst (retry_candidate (rl_entry req) (target req) (cl_credential_id (lease cur)) now e) \<noteq> None)"

lemma replaceableE:
  assumes "replaceable gen req now e"
  obtains cur cid e1 where "gen = generation e" "se_group_id (rl_entry req) = ei_group_id (identity e)"
    "bt_get (leases e) (current_lease_id req) = Some cur" "cl_request_id (lease cur) = se_request_id (rl_entry req)"
    "bt_get (request_leases e) (se_request_id (rl_entry req)) = Some (current_lease_id req)"
    "se_request_id (rl_entry req) \<in> group_permits e"
    "retry_candidate (rl_entry req) (target req) (cl_credential_id (lease cur)) now e = (Some cid, e1)"
proof -
  obtain cur where cur: "bt_get (leases e) (current_lease_id req) = Some cur"
    and c: "fst (retry_candidate (rl_entry req) (target req) (cl_credential_id (lease cur)) now e) \<noteq> None"
    using assms by (auto simp: replaceable_def split: option.splits)
  obtain cid e1 where "retry_candidate (rl_entry req) (target req) (cl_credential_id (lease cur)) now e = (Some cid, e1)"
    using c by (cases "retry_candidate (rl_entry req) (target req) (cl_credential_id (lease cur)) now e") auto
  with that assms cur show thesis by (auto simp: replaceable_def)
qed

lemma replace_lease_refused:
  assumes "replace_lease uuid gen req now e = (r, e')" and "\<not> replaceable gen req now e"
  shows "(\<nexists>l. r = Inr (RetryGranted l)) \<and>
    (\<exists>creds. e' = e\<lparr>credentials := creds\<rparr> \<and> buckets_settled now (credentials e) creds)"
proof -
  let ?rid = "se_request_id (rl_entry req)" and ?lid = "current_lease_id req"
  have refl: "\<exists>creds. e = e\<lparr>credentials := creds\<rparr> \<and> buckets_settled now (credentials e) creds"
    by (intro exI [of _ "credentials e"]) simp
  show ?thesis
  proof (cases "\<exists>cur. gen = generation e \<and> se_group_id (rl_entry req) = ei_group_id (identity e) \<and>
      bt_get (leases e) ?lid = Some cur \<and> cl_request_id (lease cur) = ?rid \<and>
      bt_get (request_leases e) ?rid = Some ?lid \<and> ?rid \<in> group_permits e")
    case False
    then have "e' = e \<and> (\<nexists>l. r = Inr (RetryGranted l))"
      using assms(1) by (auto simp: replace_lease_def split: if_splits option.splits)
    with refl show ?thesis by simp
  next
    case True
    then obtain cur where cur: "gen = generation e" "se_group_id (rl_entry req) = ei_group_id (identity e)"
        "bt_get (leases e) ?lid = Some cur" "cl_request_id (lease cur) = ?rid"
        "bt_get (request_leases e) ?rid = Some ?lid" "?rid \<in> group_permits e" by blast
    obtain c e1 where K: "retry_candidate (rl_entry req) (target req) (cl_credential_id (lease cur)) now e = (c, e1)" by fastforce
    have "c = None" using assms(2) cur K by (simp add: replaceable_def)
    then have "e' = e1 \<and> r = Inr NoCandidate" using assms(1) cur K by (simp add: replace_lease_def)
    with retry_candidate_settles [OF K] show ?thesis by blast
  qed
qed

lemma replace_lease_granted:
  assumes U: "uuid_ok uuid N" "uuid_draws e < N" and E: "engine_ok uuid {#} g e"
    and R: "replace_lease uuid gen req now e = (r, e')" and P: "replaceable gen req now e"
  shows "\<exists>l rec. r = Inr (RetryGranted l) \<and> lease rec = l \<and>
    leases e' = bt_insert (cl_id l) rec (bt_remove (current_lease_id req) (leases e)) \<and>
    cl_id l \<noteq> current_lease_id req \<and> bt_get (request_leases e') (se_request_id (rl_entry req)) = Some (cl_id l) \<and>
    group_permits e' = group_permits e \<and> waiting e' = waiting e"
proof (rule replaceableE [OF P])
  fix cur cid e1
  let ?rid = "se_request_id (rl_entry req)" and ?lid = "current_lease_id req"
  assume H: "gen = generation e" "se_group_id (rl_entry req) = ei_group_id (identity e)"
    "bt_get (leases e) ?lid = Some cur" "cl_request_id (lease cur) = ?rid"
    "bt_get (request_leases e) ?rid = Some ?lid" "?rid \<in> group_permits e"
    "retry_candidate (rl_entry req) (target req) (cl_credential_id (lease cur)) now e = (Some cid, e1)"
  obtain l where r: "r = Inr (RetryGranted l)" and d: "uuid_draws e' = Suc (uuid_draws e)"
    using replace_lease_grants [OF U E H(2-)] R H(1) by auto
  obtain creds where e1: "e1 = e\<lparr>credentials := creds\<rparr>" and E1: "engine_ok uuid {#} g e1"
    using retry_candidate_ok [OF E H(7)] by blast
  have l1: "bt_get (leases e1) ?lid = Some cur" using H(3) by (simp add: e1)
  obtain e2 where L: "release_lease (generation e1) ?lid now e1 = (Inr Released, e2)" and E2: "engine_ok uuid {#} g e2"
    and F: "leases e2 = bt_remove ?lid (leases e1)" and d2: "uuid_draws e2 = uuid_draws e1"
    using engine_ok_release_lease [OF E1 l1, of now] by metis
  have G: "grant uuid (rl_entry req) cid now False e2 = (Inr l, e')"
    using R r H L e1 by (auto simp: replace_lease_def map_sum_Inr split: if_splits prod.splits sum.splits)
  obtain rec where rec: "leases e' = bt_insert (cl_id l) rec (leases e2)" "lease rec = l"
      "cl_id l = TypedId (''lease_'' @ uuid (uuid_draws e2))"
    using grant_leases [OF G] by blast
  have "bt_get (leases e) (TypedId (''lease_'' @ uuid (uuid_draws e))) = None"
    by (rule fresh_lease_id [OF engine_okD(2) [OF E] U])
  then have "cl_id l \<noteq> ?lid" using H(3) rec(3) d2 e1 by auto
  moreover have "leases e' = bt_insert (cl_id l) rec (bt_remove ?lid (leases e))" using rec(1) F e1 by simp
  moreover have "uuid_draws e' \<le> N" using d U(2) by simp
  ultimately show ?thesis using replace_lease_keeps_permit [OF U(1) E R [unfolded r]] r rec(2) by blast
qed

text \<open>C8. A lease replacement is all or nothing. It is granted exactly when the request holds the
  lease it names and its permit and a candidate exists: then the old lease is gone from the table, the
  new one is there under a fresh id and is the one the request holds, and permits and queue are
  unchanged. In every other case, errors included, the engine is the one before, up to token buckets
  settled at this instant: no lease, claim, permit, ledger event, in-flight count, cooldown or fence changes.\<close>

theorem replace_lease_atomic:
  assumes "uuid_ok uuid N" and "uuid_draws e < N" and "engine_ok uuid {#} g e"
    and "replace_lease uuid gen req now e = (r, e')"
  shows "if replaceable gen req now e
    then \<exists>l rec. r = Inr (RetryGranted l) \<and> lease rec = l \<and>
      leases e' = bt_insert (cl_id l) rec (bt_remove (current_lease_id req) (leases e)) \<and>
      cl_id l \<noteq> current_lease_id req \<and> bt_get (request_leases e') (se_request_id (rl_entry req)) = Some (cl_id l) \<and>
      group_permits e' = group_permits e \<and> waiting e' = waiting e
    else (\<nexists>l. r = Inr (RetryGranted l)) \<and>
      (\<exists>creds. e' = e\<lparr>credentials := creds\<rparr> \<and> buckets_settled now (credentials e) creds)"
proof (cases "replaceable gen req now e")
  case True
  with replace_lease_granted [OF assms(1-4) True] show ?thesis by simp
next
  case False
  with replace_lease_refused [OF assms(4) False] show ?thesis by simp
qed

subsection \<open>A granted request, released, replaced and removed\<close>

definition sample_charged :: CredentialRuntime where
  "sample_charged = (fresh_runtime (sample_credential ''a'' 10 2 True) 0)
     \<lparr>bucket := (bucket_full CREDENTIAL_DEFAULT 0)\<lparr>available := 9 * SCALE\<rparr>, inflight := 1\<rparr>"

definition sample_held :: SchedulerEngine where
  "sample_held = snd (grant sample_uuid (sample_entry ''r'' ''u'') (TypedId ''a'') 0 True
     (sample_engine\<lparr>seen_requests := insert (TypedId ''r'') (seen_requests sample_engine)\<rparr>))"

lemma sample_consume:
  "try_consume (bucket_full CREDENTIAL_DEFAULT 0) 0 = (True, (bucket_full CREDENTIAL_DEFAULT 0)\<lparr>available := 9 * SCALE\<rparr>)"
  by (simp add: try_consume_def refill_same_time bucket_full_def CREDENTIAL_DEFAULT_def SCALE_def)

lemma sample_charge:
  "\<exists>ex. charge_runtime GroupConfig_default (sample_entry r u) 0 (fresh_runtime (sample_credential ''a'' 10 2 True) 0) =
     (Some (ex, False), sample_charged)"
proof -
  let ?rt = "fresh_runtime (sample_credential ''a'' 10 2 True) 0"
  obtain ex where "lease_execution (rt_config ?rt) (se_client_os (sample_entry r u)) = Some ex"
    using lease_execution_ready [OF sample_ready [of 2 "''a''" 10 True 0 GroupConfig_default r u]] by auto
  then show ?thesis
    using sample_consume
    by (simp add: charge_runtime_def Let_def sample_charged_def fresh_runtime_def sample_credential_def
        CredentialState_default_def quota_requires_half_open_def saturating_add_def)
qed

definition sample_key :: SessionClaimKey where
  "sample_key = (TypedId ''a'', se_platform_key_id (sample_entry ''r'' ''u''), se_base_session_id (sample_entry ''r'' ''u''))"

lemma install_lease_claims:
  assumes "bt_get (credentials e) (cl_credential_id l) = Some rt" and "sc_enabled (session_capacity (rt_config rt))"
    and "session_claims e = []"
  shows "\<exists>c. session_claims (install_lease entry l now acq e) =
    [((cl_credential_id l, se_platform_key_id entry, se_base_session_id entry), c)] \<and> active_requests c = 1"
  using assms by (cases acq) (simp_all add: install_lease_def acquire_session_claim_def Let_def saturating_add_def)

lemma sample_grant:
  obtains l where "grant sample_uuid (sample_entry ''r'' ''u'') (TypedId ''a'') 0 True
      (sample_engine\<lparr>seen_requests := insert (TypedId ''r'') (seen_requests sample_engine)\<rparr>) = (Inr l, sample_held)"
    and "credentials sample_held = [(TypedId ''a'', sample_charged)]" and "cl_credential_id l = TypedId ''a''"
    and "engine_ok sample_uuid {#} 0 sample_held" and "uuid_draws sample_held = 1"
    and "\<exists>c. session_claims sample_held = [(sample_key, c)] \<and> active_requests c = 1"
proof -
  let ?e = "sample_engine\<lparr>seen_requests := insert (TypedId ''r'') (seen_requests sample_engine)\<rparr>"
  let ?rt = "fresh_runtime (sample_credential ''a'' 10 2 True) 0"
  have get: "bt_get (credentials ?e) (TypedId ''a'') = Some ?rt" by (simp add: sample_engine_def)
  obtain l where G: "grant sample_uuid (sample_entry ''r'' ''u'') (TypedId ''a'') 0 True ?e = (Inr l, sample_held)"
    using grant_ready [OF sample_uuid_ok _ get, of "sample_entry ''r'' ''u''" 0 True] sample_ready [of 2]
    by (auto simp: sample_held_def)
  have d: "uuid_draws sample_held = 1" using grant_Inr_draws [OF G] by simp
  have ok: "engine_ok sample_uuid {#} 0 sample_held"
    by (rule engine_ok_grant [OF sample_uuid_ok engine_ok_seen [OF sample_engine_ok] _ _ _ _ G])
      (simp_all add: d, simp add: sample_engine_def)
  obtain rt' where rt': "credentials sample_held = bt_modify (TypedId ''a'') (\<lambda>_. rt') (credentials ?e)"
     "bt_get (credentials sample_held) (TypedId ''a'') = Some rt'" "cl_credential_id l = TypedId ''a''"
    using grant_Inr [OF G] by metis
  obtain ex where C: "charge_runtime (config ?e) (sample_entry ''r'' ''u'') 0 ?rt = (Some (ex, False), sample_charged)"
    using sample_charge by auto
  let ?e0 = "?e\<lparr>credentials := bt_modify (TypedId ''a'') (\<lambda>_. sample_charged) (credentials ?e), uuid_draws := Suc 0\<rparr>"
  have H: "sample_held = install_lease (sample_entry ''r'' ''u'') l 0 True ?e0"
    using G get C by (auto simp: grant_def Let_def split: sum.splits)
  have "credentials sample_held = [(TypedId ''a'', sample_charged)]"
    unfolding H install_lease_tables(3) by (simp add: sample_engine_def)
  moreover have "\<exists>c. session_claims sample_held = [(sample_key, c)] \<and> active_requests c = 1"
    using install_lease_claims [of ?e0 l sample_charged "sample_entry ''r'' ''u''" 0 True] rt'(3)
    unfolding H
    by (simp add: sample_key_def sample_charged_def fresh_runtime_def sample_credential_def sample_engine_def)
  ultimately show thesis using that G rt'(3) ok d by blast
qed

lemma sample_charged_ready: "ready_after_release GroupConfig_default (sample_entry r u) 0 True sample_charged"
proof -
  have "checked_sub (inflight sample_charged) 1 = Some 0" by (simp add: sample_charged_def checked_sub_def)
  moreover have "credential_ready (sample_charged\<lparr>inflight := 0\<rparr>) GroupConfig_default (sample_entry r u) 0"
    by (simp add: credential_ready_def Let_def sample_charged_def fresh_runtime_def sample_credential_def sample_entry_def
      sample_request_def ineligible_def CredentialState_default_def word_neq_0_conv refill_same_time bucket_full_def
      CREDENTIAL_DEFAULT_def SCALE_def word_le_nat_alt)
  ultimately show ?thesis by (simp add: ready_after_release_def)
qed

lemma sample_retry_candidate:
  "\<exists>e1. retry_candidate (sample_entry ''r'' ''u'') (Same (TypedId ''a'')) (TypedId ''a'') 0 sample_held = (Some (TypedId ''a''), e1)"
proof -
  obtain l :: CredentialLease and c where S: "credentials sample_held = [(TypedId ''a'', sample_charged)]" "session_claims sample_held = [(sample_key, c)]"
    and cfg: "config sample_held = GroupConfig_default"
    using same_frameD(3) [OF grant_frame] by (rule_tac sample_grant) fastforce
  have n: "checked_sub (inflight sample_charged) 1 = Some 0" by (simp add: sample_charged_def checked_sub_def)
  have "fst (fst (eligibility (sample_charged\<lparr>inflight := 0\<rparr>) GroupConfig_default (sample_entry ''r'' ''u'') 0)) = Eligible"
    using sample_charged_ready n by (simp add: eligibility_Eligible_iff ready_after_release_def)
  then obtain w rt where el: "eligibility (sample_charged\<lparr>inflight := 0\<rparr>) GroupConfig_default (sample_entry ''r'' ''u'') 0 = ((Eligible, w), rt)"
    by (metis prod.collapse)
  have "rt_config rt = rt_config sample_charged"
    using eligibility_bucket [of "sample_charged\<lparr>inflight := 0\<rparr>" GroupConfig_default "sample_entry ''r'' ''u''" 0] el by auto
  then have prio: "priority (rt_config rt) = 10"
    by (simp add: sample_charged_def fresh_runtime_def sample_credential_def)
  have "\<not> session_capacity_blocked (rt_config sample_charged) [(sample_key, c)] (sample_entry ''r'' ''u'')"
    by (simp add: session_capacity_blocked_def sample_charged_def fresh_runtime_def sample_credential_def sample_key_def)
  moreover have "pinned_target (portability (generic (sample_entry ''r'' ''u''))) = None" by (simp add: pinned_target_def)
  ultimately show ?thesis
    by (simp add: retry_candidate_def S cfg retry_probe_def n el retry_selected_def priority_of_def prio sort_by_def)
qed

lemma sample_held_fields:
  obtains l rec where "bt_get (leases sample_held) (cl_id l) = Some rec" and "lease rec = l" and "cl_credential_id l = TypedId ''a''"
    and "cl_request_id l = TypedId ''r''" and "bt_get (request_leases sample_held) (TypedId ''r'') = Some (cl_id l)"
    and "TypedId ''r'' \<in> group_permits sample_held" and "identity sample_held = sample_identity"
proof (rule sample_grant)
  fix l
  assume G: "grant sample_uuid (sample_entry ''r'' ''u'') (TypedId ''a'') 0 True
      (sample_engine\<lparr>seen_requests := insert (TypedId ''r'') (seen_requests sample_engine)\<rparr>) = (Inr l, sample_held)"
  have I: "identity sample_held = sample_identity" using same_frameD(1) [OF grant_frame [OF G]] by simp
  show thesis
    by (rule grant_Inr [OF G]) (use that [of l] I in auto)
qed

theorem replace_lease_keeps_permit_witness:
  "\<exists>req l e'. replace_lease sample_uuid (OwnerGeneration 1) req 0 sample_held = (Inr (RetryGranted l), e') \<and>
     group_permits e' = group_permits sample_held \<and> bt_get (request_leases e') (TypedId ''r'') = Some (cl_id l)"
proof (rule sample_held_fields)
  fix l0 rec
  assume H: "bt_get (leases sample_held) (cl_id l0) = Some rec" "lease rec = l0" "cl_credential_id l0 = TypedId ''a''"
    "cl_request_id l0 = TypedId ''r''" "bt_get (request_leases sample_held) (TypedId ''r'') = Some (cl_id l0)"
    "TypedId ''r'' \<in> group_permits sample_held" "identity sample_held = sample_identity"
  let ?req = "\<lparr>current_lease_id = cl_id l0, rl_entry = sample_entry ''r'' ''u'', target = Same (TypedId ''a'')\<rparr>"
  have E: "engine_ok sample_uuid {#} 0 sample_held" and d: "uuid_draws sample_held = 1" by (rule sample_grant, simp)+
  obtain e1 where K: "retry_candidate (rl_entry ?req) (target ?req) (cl_credential_id (lease rec)) 0 sample_held = (Some (TypedId ''a''), e1)"
    using sample_retry_candidate H(2,3) by auto
  obtain l e' where R: "replace_lease sample_uuid (generation sample_held) ?req 0 sample_held = (Inr (RetryGranted l), e')"
      "uuid_draws e' = Suc (uuid_draws sample_held)"
    using replace_lease_grants [OF sample_uuid_ok _ E _ _ _ _ _ K] H d by auto
  from replace_lease_keeps_permit [OF sample_uuid_ok E R(1)] R d H(7) show ?thesis by auto
qed

theorem replace_lease_atomic_witness:
  "\<exists>req e' creds. replace_lease sample_uuid (OwnerGeneration 1) req 3 sample_held = (Inr NoCandidate, e') \<and>
     e' = sample_held\<lparr>credentials := creds\<rparr> \<and> buckets_settled 3 (credentials sample_held) creds"
proof (rule sample_held_fields)
  fix l0 rec
  assume H: "bt_get (leases sample_held) (cl_id l0) = Some rec" "lease rec = l0" "cl_credential_id l0 = TypedId ''a''"
    "cl_request_id l0 = TypedId ''r''" "bt_get (request_leases sample_held) (TypedId ''r'') = Some (cl_id l0)"
    "TypedId ''r'' \<in> group_permits sample_held" "identity sample_held = sample_identity"
  let ?req = "\<lparr>current_lease_id = cl_id l0, rl_entry = sample_entry ''r'' ''u'', target = Alternate (TypedId ''a'')\<rparr>"
  have E: "engine_ok sample_uuid {#} 0 sample_held" and d: "uuid_draws sample_held = 1"
    and C: "credentials sample_held = [(TypedId ''a'', sample_charged)]" by (rule sample_grant, simp)+
  have K: "fst (retry_candidate (rl_entry ?req) (target ?req) (TypedId ''a'') 3 sample_held) = None"
    using C by (simp add: retry_candidate_def retry_selected_def pinned_target_def)
  obtain e' where R: "replace_lease sample_uuid (OwnerGeneration 1) ?req 3 sample_held = (Inr NoCandidate, e')"
    using H C by (auto simp: replace_lease_def retry_candidate_def retry_selected_def pinned_target_def)
  have "\<not> replaceable (OwnerGeneration 1) ?req 3 sample_held" using H K by (simp add: replaceable_def)
  with replace_lease_atomic [OF sample_uuid_ok _ E R] d R show ?thesis by auto
qed

subsection \<open>Claims lost without a ledger event\<close>

lemma claims_of_idle_credential:
  assumes "engine_ok uuid X g e" and "bt_get (credentials e) cid = Some rt" and "inflight rt = 0"
    and "bt_get (session_claims e) key = Some c" and "fst key = cid"
  shows "active_requests c = 0"
proof -
  note D = engine_okD [OF assms(1)]
  have "leases_of cid (leases e) = 0" using creds_wfD [OF D(1) assms(2)] assms(3) by simp
  then have none: "cl_credential_id (lease r) \<noteq> cid" if "(lid, r) \<in> set (leases e)" for lid r
    using that by (auto simp: bt_count_eq_0)
  have "session_claim_key r \<noteq> Some key" if "(lid, r) \<in> set (leases e)" for lid r
    using claims_wf_leaseD [OF D(3), of lid r key] bt_get_eq_Some [OF leases_wfD(1) [OF D(2)]] none [OF that] that assms(5)
    by auto
  then have "leases_with key (leases e) = 0" by (auto simp: bt_count_eq_0)
  then show ?thesis using claims_wfD [OF D(3) assms(4)] by (simp add: unat_eq_0)
qed

text \<open>Removing a fenced credential discards its idle session claims without recording their release:
  the event log and the balance stay as they are while the resources in use go down by the number of
  claims of that credential, so the balance is too high by that number from then on.\<close>

theorem remove_fenced_leaks_claims:
  assumes "engine_ok uuid {#} g e" and "remove_fenced_credential gen cid e = (Removed, e')"
  shows "events e' = events e \<and> resource_balance e' = resource_balance e \<and>
    held e = held e' + bt_count (\<lambda>key _. fst key = cid) (session_claims e)"
proof -
  obtain rt where rt: "bt_get (credentials e) cid = Some rt" "inflight rt = 0"
    and e': "e' = drop_idle_of cid (e\<lparr>credentials := bt_remove cid (credentials e)\<rparr>)"
    using assms(2) by (auto simp: remove_fenced_credential_def split: if_splits option.splits)
  note D = engine_okD [OF assms(1)]
  have idle: "active_requests c = 0" if "bt_get (session_claims e) key = Some c" "fst key = cid" for key c
    using claims_of_idle_credential [OF assms(1) rt that] .
  have "length (session_claims e) =
      length (session_claims e') + bt_count (\<lambda>key _. fst key = cid) (session_claims e)"
  proof -
    have wf: "bt_wf (session_claims e)" using D(3) by (simp add: claims_wf_def)
    have "filter (\<lambda>(key, c). fst key \<noteq> cid \<or> active_requests c \<noteq> 0) (session_claims e) =
        filter (\<lambda>(key, c). fst key \<noteq> cid) (session_claims e)"
      using idle bt_get_eq_Some [OF wf] by (intro filter_cong) auto
    then show ?thesis
      using sum_length_filter_compl [of "\<lambda>(key, c). fst key = cid" "session_claims e"]
      by (simp add: e' drop_idle_of_def bt_retain_def bt_count_def case_prod_unfold)
  qed
  then show ?thesis by (simp add: e' drop_idle_of_def held_def)
qed

lemma release_lease_claim_keys:
  "release_lease gen lid now e = (r, e') \<Longrightarrow> map fst (session_claims e') = map fst (session_claims e)"
  by (auto simp: release_lease_def Let_def split: if_splits option.splits)

theorem remove_fenced_leaks_claims_witness:
  "\<exists>e e'. remove_fenced_credential (OwnerGeneration 1) (TypedId ''a'') e = (Removed, e') \<and>
     resource_balance e' = resource_balance e \<and> held e = Suc (held e')"
proof (rule sample_held_fields)
  fix l rec
  assume H: "bt_get (leases sample_held) (cl_id l) = Some rec" "lease rec = l" "cl_credential_id l = TypedId ''a''"
    "identity sample_held = sample_identity"
  have E: "engine_ok sample_uuid {#} 0 sample_held" and C: "credentials sample_held = [(TypedId ''a'', sample_charged)]"
    and S: "map fst (session_claims sample_held) = [sample_key]" by (rule sample_grant, force)+
  obtain e1 rt0 rt where R: "release_lease (generation sample_held) (cl_id l) 3 sample_held = (Inr Released, e1)" "engine_ok sample_uuid {#} 0 e1"
    and rt0: "bt_get (credentials sample_held) (cl_credential_id (lease rec)) = Some rt0" "release_runtime (lease rec) rt0 = Some rt"
      "credentials e1 = bt_modify (cl_credential_id (lease rec)) (\<lambda>_. rt) (credentials sample_held)"
    using engine_ok_release_lease [OF E H(1), of 3] by metis
  have rt: "release_runtime l sample_charged = Some rt" "credentials e1 = [(TypedId ''a'', rt)]"
    using rt0 H(2,3) C by auto
  have idle: "inflight rt = 0"
    using rt(1) by (auto simp: release_runtime_def sample_charged_def checked_sub_def Let_def split: if_splits)
  obtain e2 where F: "set_credential_fence (generation e1) (TypedId ''a'') True e1 = (FenceApplied 0, e2)"
    and e2: "credentials e2 = [(TypedId ''a'', rt\<lparr>admin_fenced := True\<rparr>)]" "session_claims e2 = session_claims e1" "identity e2 = identity e1"
    using rt(2) idle by (simp add: set_credential_fence_def)
  have ok: "engine_ok sample_uuid {#} 0 e2" using engine_ok_observe(5) [OF R(2), of "generation e1" "TypedId ''a''" True] F by simp
  have I: "identity e1 = sample_identity" using same_frameD(1) [OF release_lease_frame [OF R(1)]] H(4) by simp
  obtain e3 where X: "remove_fenced_credential (OwnerGeneration 1) (TypedId ''a'') e2 = (Removed, e3)"
    using e2 idle I by (simp add: remove_fenced_credential_def)
  have "map fst (session_claims e2) = [sample_key]" using S release_lease_claim_keys [OF R(1)] e2(2) by simp
  then have "bt_count (\<lambda>key _. fst key = TypedId ''a'') (session_claims e2) = 1"
    by (auto simp: bt_count_def sample_key_def)
  with remove_fenced_leaks_claims [OF ok X] X show ?thesis by auto
qed

end
