(* ===== verification/Retry.thy ===== *)
theory Retry
  imports Domain_Types
begin

text \<open>
  The replay-safe retry decision of \<^verbatim>\<open>gateway-scheduler/src/retry.rs\<close>: the failure classes, the
  inputs frozen at the failure, the decision itself and the separate connection-attempt
  budget.
\<close>

datatype RetryErrorClass =
    Authentication401 | RateLimited429 | Overloaded529 | Upstream5xx
  | NetworkBeforeCommit | FinalClient4xx | OtherFailure

datatype RetryStrategy = RefreshSameCredential | SwitchCredential | SameCredential

record RetryContext =
  rc_error :: RetryErrorClass
  rc_portability :: Portability
  response_committed :: bool
  body_replayable :: bool
  rc_messages_attempts :: u8
  refresh_already_attempted :: bool
  same_credential_available :: bool
  alternate_credential_available :: bool
  remaining_deadline :: duration
  min_retry_budget :: duration
  proposed_backoff :: duration

record RetryDecision =
  allowed :: bool
  strategy :: "RetryStrategy option"
  backoff :: duration
  remaining_attempts :: u8
  rd_reason :: string

record ConnectionAttemptBudget =
  budget_attempts :: u8

definition ConnectionAttemptBudget_default :: ConnectionAttemptBudget where
  "ConnectionAttemptBudget_default = \<lparr>budget_attempts = 0\<rparr>"

definition budget_begin :: "ConnectionAttemptBudget \<Rightarrow> bool \<times> ConnectionAttemptBudget" where
  "budget_begin b =
     (if 3 \<le> budget_attempts b then (False, b)
      else (True, b\<lparr>budget_attempts := budget_attempts b + 1\<rparr>))"

definition denied :: "u8 \<Rightarrow> string \<Rightarrow> RetryDecision" where
  "denied remaining why =
     \<lparr>allowed = False, strategy = None, backoff = 0, remaining_attempts = remaining, rd_reason = why\<rparr>"

text \<open>The match on the error class; the arms are tried in order, as in the source.\<close>

definition retry_strategy :: "RetryContext \<Rightarrow> RetryStrategy option" where
  "retry_strategy c =
     (let portable = (rc_portability c = Portable) in
      if rc_error c = Authentication401 \<and> \<not> refresh_already_attempted c then Some RefreshSameCredential
      else if rc_error c \<in> {Authentication401, RateLimited429, Overloaded529, Upstream5xx, NetworkBeforeCommit}
            \<and> portable \<and> alternate_credential_available c then Some SwitchCredential
      else if rc_error c \<in> {RateLimited429, Overloaded529, Upstream5xx, NetworkBeforeCommit}
            \<and> same_credential_available c then Some SameCredential
      else None)"

definition decide_retry :: "RetryContext \<Rightarrow> RetryDecision" where
  "decide_retry c =
     (let attempts_left = saturating_sub 3 (rc_messages_attempts c) in
      if response_committed c then denied attempts_left ''response_committed''
      else if \<not> body_replayable c then denied attempts_left ''body_not_replayable''
      else if attempts_left = 0 then denied 0 ''messages_attempt_budget_exhausted''
      else if remaining_deadline c < min_retry_budget c
           \<or> remaining_deadline c < dur_saturating_add (proposed_backoff c) (min_retry_budget c)
      then denied attempts_left ''insufficient_deadline''
      else (case retry_strategy c of
          None \<Rightarrow> denied attempts_left ''no_retry_candidate''
        | Some s \<Rightarrow> \<lparr>allowed = True, strategy = Some s,
             backoff = (if s = SameCredential then proposed_backoff c else 0),
             remaining_attempts = attempts_left, rd_reason = ''retry_allowed''\<rparr>))"

subsection \<open>What a retry may rest on\<close>

lemma saturating_sub_3_eq_0: "saturating_sub 3 n = 0 \<longleftrightarrow> 3 \<le> (n :: u8)"
  by (simp add: word_le_nat_alt unat_saturating_sub flip: unat_eq_0)

text \<open>A retry is allowed exactly when nothing was committed to the client, the body can be replayed,
  fewer than three Messages attempts were made, the deadline still covers the backoff and the retry
  budget, and the failure class has a strategy for the credentials at hand.\<close>

theorem retry_allowed_iff:
  "allowed (decide_retry c) \<longleftrightarrow>
     \<not> response_committed c \<and> body_replayable c \<and> rc_messages_attempts c < 3 \<and>
     min_retry_budget c \<le> remaining_deadline c \<and>
     dur_saturating_add (proposed_backoff c) (min_retry_budget c) \<le> remaining_deadline c \<and>
     (let alternate = (rc_portability c = Portable \<and> alternate_credential_available c) in
      if rc_error c = Authentication401 then (if refresh_already_attempted c then alternate else True)
      else rc_error c \<in> {RateLimited429, Overloaded529, Upstream5xx, NetworkBeforeCommit} \<and>
        (alternate \<or> same_credential_available c))"
proof -
  have left: "saturating_sub 3 (rc_messages_attempts c) = 0 \<longleftrightarrow> \<not> rc_messages_attempts c < 3"
    by (simp add: saturating_sub_3_eq_0 not_less)
  have "allowed (decide_retry c) \<longleftrightarrow>
      \<not> response_committed c \<and> body_replayable c \<and> rc_messages_attempts c < 3 \<and>
      min_retry_budget c \<le> remaining_deadline c \<and>
      dur_saturating_add (proposed_backoff c) (min_retry_budget c) \<le> remaining_deadline c \<and> retry_strategy c \<noteq> None"
    by (cases "retry_strategy c") (auto simp: decide_retry_def denied_def Let_def left not_less)
  then show ?thesis by (cases "rc_error c") (auto simp: retry_strategy_def Let_def)
qed

text \<open>A pinned request never changes credential, and only a retry on the same credential waits for the
  backoff: a retry on another credential starts at once.\<close>

theorem retry_strategy_sound:
  "(strategy (decide_retry c) = Some SwitchCredential \<longrightarrow>
      rc_portability c = Portable \<and> alternate_credential_available c \<and> backoff (decide_retry c) = 0) \<and>
   (strategy (decide_retry c) = Some SameCredential \<longrightarrow>
      same_credential_available c \<and> rc_error c \<noteq> Authentication401 \<and> backoff (decide_retry c) = proposed_backoff c) \<and>
   (strategy (decide_retry c) = Some RefreshSameCredential \<longrightarrow>
      rc_error c = Authentication401 \<and> \<not> refresh_already_attempted c) \<and>
   (strategy (decide_retry c) = None \<longleftrightarrow> \<not> allowed (decide_retry c))"
  by (cases "rc_error c") (auto simp: decide_retry_def denied_def retry_strategy_def Let_def)

definition sample_failure :: RetryContext where
  "sample_failure =
     \<lparr>rc_error = Overloaded529, rc_portability = Pinned None [Continuation], response_committed = False, body_replayable = True,
      rc_messages_attempts = 1, refresh_already_attempted = False, same_credential_available = True,
      alternate_credential_available = True, remaining_deadline = 100, min_retry_budget = 10, proposed_backoff = 7\<rparr>"

theorem retry_strategy_sound_witness:
  "strategy (decide_retry sample_failure) = Some SameCredential \<and> backoff (decide_retry sample_failure) = 7"
proof -
  have "strategy (decide_retry sample_failure) = Some SameCredential"
    by (simp add: sample_failure_def decide_retry_def retry_strategy_def Let_def saturating_sub_3_eq_0 dur_saturating_add_def
        word_le_nat_alt)
  with retry_strategy_sound [of sample_failure] show ?thesis by (simp add: sample_failure_def)
qed

subsection \<open>The connection budget\<close>

fun budget_run :: "nat \<Rightarrow> ConnectionAttemptBudget \<Rightarrow> bool list \<times> ConnectionAttemptBudget" where
  "budget_run 0 b = ([], b)"
| "budget_run (Suc n) b = (case budget_begin b of (ok, b1) \<Rightarrow> (case budget_run n b1 of (oks, b2) \<Rightarrow> (ok # oks, b2)))"

lemma budget_run_grants:
  "unat (budget_attempts b) \<le> 3 \<Longrightarrow>
   fst (budget_run n b) = replicate (min n (3 - unat (budget_attempts b))) True @
     replicate (n - (3 - unat (budget_attempts b))) False"
proof (induction n arbitrary: b)
  case (Suc n)
  show ?case
  proof (cases "3 \<le> budget_attempts b")
    case True
    then have "unat (budget_attempts b) = 3" using Suc.prems by (simp add: word_le_nat_alt)
    with True Suc.IH [of b] show ?thesis by (cases "budget_run n b") (simp add: budget_begin_def)
  next
    case False
    then have less: "unat (budget_attempts b) < 3" by (simp add: word_le_nat_alt)
    then have "unat (budget_attempts b + 1) = Suc (unat (budget_attempts b))"
      by (subst unat_plus_exact) simp_all
    with False less Suc.IH [of "b\<lparr>budget_attempts := budget_attempts b + 1\<rparr>"] show ?thesis
      by (auto simp: budget_begin_def Suc_diff_Suc min_def replicate_app_Cons_same split: prod.splits
          simp flip: replicate_Suc)
  qed
qed simp

text \<open>However often a connection is attempted, a fresh budget grants the first three attempts and
  refuses every later one.\<close>

theorem connection_budget_three:
  "fst (budget_run n ConnectionAttemptBudget_default) = replicate (min n 3) True @ replicate (n - 3) False"
  by (simp add: budget_run_grants ConnectionAttemptBudget_default_def)

end
