(* ===== verification/Attempt.thy ===== *)
theory Attempt
  imports Prelude
begin

text \<open>
  The per-request attempt accounting of \<^verbatim>\<open>gateway-scheduler/src/attempt.rs\<close>: connection and
  Messages ordinals, what is known of the usage, and the cancellation boundary. Each method returns
  its \<^verbatim>\<open>Result\<close> and the state it leaves; an error leaves the state as it was.
\<close>

datatype UpstreamProtocol = Http1 | Http2

datatype AttemptPhase =
    Accepted | Connecting | Connected | Uploading | WaitingHeaders
  | StreamingCommitted | BufferedReady | PhaseCompleted | PhaseCancelled

datatype UsageKnowledge = Absent | Unknown | Partial | Complete

instantiation UsageKnowledge :: linorder
begin

fun UsageKnowledge_rank :: "UsageKnowledge \<Rightarrow> nat" where
  "UsageKnowledge_rank Absent = 0"
| "UsageKnowledge_rank Unknown = 1"
| "UsageKnowledge_rank Partial = 2"
| "UsageKnowledge_rank Complete = 3"

definition less_eq_UsageKnowledge :: "UsageKnowledge \<Rightarrow> UsageKnowledge \<Rightarrow> bool" where
  "less_eq_UsageKnowledge a b \<longleftrightarrow> UsageKnowledge_rank a \<le> UsageKnowledge_rank b"

definition less_UsageKnowledge :: "UsageKnowledge \<Rightarrow> UsageKnowledge \<Rightarrow> bool" where
  "less_UsageKnowledge a b \<longleftrightarrow> UsageKnowledge_rank a < UsageKnowledge_rank b"

lemma UsageKnowledge_rank_inj: "UsageKnowledge_rank a = UsageKnowledge_rank b \<longleftrightarrow> a = b"
  by (cases a; cases b) simp_all

instance
  by standard (auto simp: less_eq_UsageKnowledge_def less_UsageKnowledge_def simp flip: UsageKnowledge_rank_inj)

end

datatype TransportCancelAction =
    NoAction | ResetHttp2Stream | CloseAndEvictHttp1Connection | AwaitTransportConfirmation

record CancelDisposition =
  transport_action :: TransportCancelAction
  cd_usage :: UsageKnowledge
  cd_messages_attempts :: u8
  retry_allowed :: bool
  lease_release_after_transport :: bool
  destroy_buffer_before_reservation_release :: bool
  preserve_delivered_prefix :: bool

record AttemptState =
  phase :: AttemptPhase
  connection_attempts :: u8
  messages_attempts :: u8
  usage :: UsageKnowledge
  terminal :: bool

definition AttemptState_default :: AttemptState where
  "AttemptState_default =
     \<lparr>phase = Accepted, connection_attempts = 0, messages_attempts = 0, usage = Absent, terminal = False\<rparr>"

datatype AttemptStateError =
    InvalidTransition | ConnectionBudgetExhausted | MessagesBudgetExhausted | AlreadyTerminal | InvalidUsageKnowledge

type_synonym 'a attempt_outcome = "(AttemptStateError, 'a) result \<times> AttemptState"

definition ensure_active :: "AttemptState \<Rightarrow> (AttemptStateError, unit) result" where
  "ensure_active s = (if terminal s then Inl AlreadyTerminal else Inr ())"

definition ensure_phase :: "AttemptPhase \<Rightarrow> AttemptState \<Rightarrow> (AttemptStateError, unit) result" where
  "ensure_phase expected s =
     (case ensure_active s of
        Inl e \<Rightarrow> Inl e
      | Inr _ \<Rightarrow> if phase s = expected then Inr () else Inl InvalidTransition)"

definition begin_connection :: "AttemptState \<Rightarrow> u8 attempt_outcome" where
  "begin_connection s =
     (case ensure_active s of
        Inl e \<Rightarrow> (Inl e, s)
      | Inr _ \<Rightarrow>
          if 3 \<le> connection_attempts s then (Inl ConnectionBudgetExhausted, s)
          else let n = connection_attempts s + 1
               in (Inr n, s\<lparr>connection_attempts := n, phase := Connecting\<rparr>))"

definition connection_established :: "AttemptState \<Rightarrow> unit attempt_outcome" where
  "connection_established s =
     (case ensure_phase Connecting s of
        Inl e \<Rightarrow> (Inl e, s)
      | Inr _ \<Rightarrow> (Inr (), s\<lparr>phase := Connected\<rparr>))"

definition first_request_byte :: "AttemptState \<Rightarrow> u8 attempt_outcome" where
  "first_request_byte s =
     (case ensure_phase Connected s of
        Inl e \<Rightarrow> (Inl e, s)
      | Inr _ \<Rightarrow>
          if 3 \<le> messages_attempts s then (Inl MessagesBudgetExhausted, s)
          else let n = messages_attempts s + 1
               in (Inr n, s\<lparr>messages_attempts := n, usage := Unknown, phase := Uploading\<rparr>))"

definition request_upload_complete :: "AttemptState \<Rightarrow> unit attempt_outcome" where
  "request_upload_complete s =
     (case ensure_phase Uploading s of
        Inl e \<Rightarrow> (Inl e, s)
      | Inr _ \<Rightarrow> (Inr (), s\<lparr>phase := WaitingHeaders\<rparr>))"

definition commit_streaming_response :: "AttemptState \<Rightarrow> unit attempt_outcome" where
  "commit_streaming_response s =
     (if phase s \<notin> {Uploading, WaitingHeaders} then (Inl InvalidTransition, s)
      else (Inr (), s\<lparr>phase := StreamingCommitted\<rparr>))"

definition buffer_complete :: "AttemptState \<Rightarrow> unit attempt_outcome" where
  "buffer_complete s =
     (if phase s \<notin> {Uploading, WaitingHeaders} then (Inl InvalidTransition, s)
      else (Inr (), s\<lparr>phase := BufferedReady\<rparr>))"

definition observe_usage :: "UsageKnowledge \<Rightarrow> AttemptState \<Rightarrow> unit attempt_outcome" where
  "observe_usage knowledge s =
     (case ensure_active s of
        Inl e \<Rightarrow> (Inl e, s)
      | Inr _ \<Rightarrow>
          if messages_attempts s = 0 \<or> knowledge = Absent \<or> knowledge < usage s
          then (Inl InvalidUsageKnowledge, s)
          else (Inr (), s\<lparr>usage := knowledge\<rparr>))"

definition complete_delivery :: "AttemptState \<Rightarrow> unit attempt_outcome" where
  "complete_delivery s =
     (if phase s \<notin> {StreamingCommitted, BufferedReady} then (Inl InvalidTransition, s)
      else (Inr (), s\<lparr>phase := PhaseCompleted, terminal := True\<rparr>))"

definition protocol_cancel :: "UpstreamProtocol \<Rightarrow> TransportCancelAction" where
  "protocol_cancel p = (case p of Http1 \<Rightarrow> CloseAndEvictHttp1Connection | Http2 \<Rightarrow> ResetHttp2Stream)"

definition cancel_disposition :: "UpstreamProtocol \<Rightarrow> AttemptState \<Rightarrow> CancelDisposition option" where
  "cancel_disposition protocol s =
     (let base = \<lparr>transport_action = NoAction, cd_usage = Absent, cd_messages_attempts = messages_attempts s,
                  retry_allowed = False, lease_release_after_transport = False,
                  destroy_buffer_before_reservation_release = False, preserve_delivered_prefix = False\<rparr>
      in if phase s \<in> {Accepted, Connecting, Connected}
         then Some (base\<lparr>transport_action := (if phase s = Accepted then NoAction else AwaitTransportConfirmation),
                         lease_release_after_transport := (phase s \<noteq> Accepted)\<rparr>)
         else if phase s \<in> {Uploading, WaitingHeaders}
         then Some (base\<lparr>transport_action := protocol_cancel protocol, cd_usage := Unknown,
                         lease_release_after_transport := True\<rparr>)
         else if phase s = BufferedReady
         then Some (base\<lparr>cd_usage := usage s, destroy_buffer_before_reservation_release := True\<rparr>)
         else if phase s = StreamingCommitted
         then Some (base\<lparr>transport_action := protocol_cancel protocol, cd_usage := Unknown,
                         lease_release_after_transport := True, preserve_delivered_prefix := True\<rparr>)
         else None)"

definition attempt_cancel :: "UpstreamProtocol \<Rightarrow> AttemptState \<Rightarrow> CancelDisposition attempt_outcome" where
  "attempt_cancel protocol s =
     (case ensure_active s of
        Inl e \<Rightarrow> (Inl e, s)
      | Inr _ \<Rightarrow> (case cancel_disposition protocol s of
          None \<Rightarrow> (Inl AlreadyTerminal, s)
        | Some d \<Rightarrow> (Inr d, s\<lparr>phase := PhaseCancelled, usage := cd_usage d, terminal := True\<rparr>)))"

subsection \<open>The attempt state machine\<close>

text \<open>A caller may call any method at any time; a failed call is a step too.\<close>

inductive attempt_step :: "AttemptState \<Rightarrow> AttemptState \<Rightarrow> bool" where
  begins: "attempt_step s (snd (begin_connection s))"
| established: "attempt_step s (snd (connection_established s))"
| first_byte: "attempt_step s (snd (first_request_byte s))"
| uploaded: "attempt_step s (snd (request_upload_complete s))"
| committed: "attempt_step s (snd (commit_streaming_response s))"
| buffered: "attempt_step s (snd (buffer_complete s))"
| observes: "attempt_step s (snd (observe_usage k s))"
| delivered: "attempt_step s (snd (complete_delivery s))"
| cancels: "attempt_step s (snd (attempt_cancel p s))"

abbreviation attempt_reachable :: "AttemptState \<Rightarrow> bool" where
  "attempt_reachable s \<equiv> \<exists>s0. s0 = AttemptState_default \<and> attempt_step\<^sup>*\<^sup>* s0 s"

definition attempt_inv :: "AttemptState \<Rightarrow> bool" where
  "attempt_inv s \<longleftrightarrow>
     (terminal s \<longleftrightarrow> phase s \<in> {PhaseCompleted, PhaseCancelled}) \<and>
     unat (connection_attempts s) \<le> 3 \<and>
     unat (messages_attempts s) + (if phase s \<in> {Connecting, Connected} then 1 else 0) \<le> unat (connection_attempts s) \<and>
     (phase s \<in> {Uploading, WaitingHeaders, StreamingCommitted, BufferedReady, PhaseCompleted} \<longrightarrow> messages_attempts s \<noteq> 0) \<and>
     (messages_attempts s = 0 \<longrightarrow> usage s = Absent)"

lemmas attempt_ops =
  ensure_active_def ensure_phase_def begin_connection_def connection_established_def first_request_byte_def
  request_upload_complete_def commit_streaming_response_def buffer_complete_def observe_usage_def
  complete_delivery_def attempt_cancel_def

lemma u8_incr: "(n :: u8) < 3 \<Longrightarrow> unat (n + 1) = Suc (unat n) \<and> n + 1 \<noteq> 0"
proof -
  assume "n < 3"
  then have "unat (n + 1) = Suc (unat n)" by (subst unat_plus_exact) (simp_all add: word_less_nat_alt)
  then show ?thesis by (metis nat.distinct(1) unsigned_0)
qed

lemma begin_connection_inv: "attempt_inv s \<Longrightarrow> attempt_inv (snd (begin_connection s))"
  using u8_incr [of "connection_attempts s"]
  by (auto simp: attempt_ops attempt_inv_def Let_def not_le word_less_nat_alt)

lemma first_request_byte_inv: "attempt_inv s \<Longrightarrow> attempt_inv (snd (first_request_byte s))"
  using u8_incr [of "messages_attempts s"]
  by (auto simp: attempt_ops attempt_inv_def Let_def not_le word_less_nat_alt)

lemma attempt_cancel_inv: "attempt_inv s \<Longrightarrow> attempt_inv (snd (attempt_cancel p s))"
  by (auto simp: attempt_ops attempt_inv_def cancel_disposition_def Let_def)

lemma phase_move_inv:
  "attempt_inv s \<Longrightarrow> attempt_inv (snd (connection_established s))"
  "attempt_inv s \<Longrightarrow> attempt_inv (snd (request_upload_complete s))"
  "attempt_inv s \<Longrightarrow> attempt_inv (snd (commit_streaming_response s))"
  "attempt_inv s \<Longrightarrow> attempt_inv (snd (buffer_complete s))"
  "attempt_inv s \<Longrightarrow> attempt_inv (snd (complete_delivery s))"
  "attempt_inv s \<Longrightarrow> attempt_inv (snd (observe_usage k s))"
  by (cases "phase s"; simp add: attempt_ops attempt_inv_def)+

interpretation attempts: invariant_system "\<lambda>s. s = AttemptState_default" attempt_step attempt_inv
proof unfold_locales
  fix s t :: AttemptState
  show "s = AttemptState_default \<Longrightarrow> attempt_inv s" by (simp add: attempt_inv_def AttemptState_default_def)
  assume "attempt_inv s" and "attempt_step s t"
  from this(2,1) show "attempt_inv t"
    by cases (auto intro: begin_connection_inv first_request_byte_inv attempt_cancel_inv phase_move_inv)
qed

subsection \<open>Properties\<close>

text \<open>Whatever a caller does, a request makes at most three connections, submits at most once per
  connection, and has no usage before its first submission; so the separate Messages budget is never
  the one that runs out.\<close>

theorem attempt_budgets:
  assumes "attempt_reachable s"
  shows "unat (connection_attempts s) \<le> 3 \<and> unat (messages_attempts s) \<le> unat (connection_attempts s) \<and>
    (messages_attempts s = 0 \<longrightarrow> usage s = Absent) \<and> fst (first_request_byte s) \<noteq> Inl MessagesBudgetExhausted"
  using attempts.reachable_inv [OF assms]
  by (cases "phase s") (auto simp: attempt_inv_def attempt_ops word_le_nat_alt Let_def)

text \<open>A completed or cancelled request stays as it is: every further method call is an error and changes
  nothing.\<close>

theorem terminal_absorbing:
  assumes "attempt_reachable s" and "terminal s"
  shows "isl (fst (begin_connection s)) \<and> isl (fst (connection_established s)) \<and> isl (fst (first_request_byte s)) \<and>
    isl (fst (request_upload_complete s)) \<and> isl (fst (commit_streaming_response s)) \<and> isl (fst (buffer_complete s)) \<and>
    isl (fst (observe_usage k s)) \<and> isl (fst (complete_delivery s)) \<and> isl (fst (attempt_cancel p s)) \<and>
    (attempt_step s t \<longrightarrow> t = s)"
proof -
  have I: "phase s = PhaseCompleted \<or> phase s = PhaseCancelled"
    using attempts.reachable_inv [OF assms(1)] assms(2) by (simp add: attempt_inv_def)
  have "t = s" if "attempt_step s t"
    using that assms(2) I by cases (auto simp: attempt_ops)
  with assms(2) I show ?thesis by (auto simp: attempt_ops)
qed

text \<open>A request that is not finished can always be cancelled, once: the result forbids a retry, the lease
  waits for the transport exactly when the transport has something to undo, and a buffered
  body is destroyed before its reservation is given back.\<close>

theorem cancel_disposition_sound:
  assumes "attempt_reachable s" and "\<not> terminal s"
  shows "\<exists>d s'. attempt_cancel p s = (Inr d, s') \<and> terminal s' \<and> fst (attempt_cancel q s') = Inl AlreadyTerminal \<and>
    \<not> retry_allowed d \<and> cd_messages_attempts d = messages_attempts s \<and>
    (lease_release_after_transport d \<longleftrightarrow> transport_action d \<noteq> NoAction) \<and>
    (destroy_buffer_before_reservation_release d \<longleftrightarrow> phase s = BufferedReady) \<and>
    (preserve_delivered_prefix d \<longleftrightarrow> phase s = StreamingCommitted)"
proof -
  have I: "phase s \<notin> {PhaseCompleted, PhaseCancelled}"
    using attempts.reachable_inv [OF assms(1)] assms(2) by (simp add: attempt_inv_def)
  then show ?thesis
    using assms(2) by (cases "phase s"; cases p) (simp_all add: attempt_ops cancel_disposition_def protocol_cancel_def Let_def)
qed

definition sample_streaming :: AttemptState where
  "sample_streaming = snd (observe_usage Complete (snd (commit_streaming_response (snd (first_request_byte
     (snd (connection_established (snd (begin_connection AttemptState_default)))))))))"

lemma sample_streaming_eq:
  "sample_streaming = \<lparr>phase = StreamingCommitted, connection_attempts = 1, messages_attempts = 1, usage = Complete, terminal = False\<rparr>"
  by (simp add: sample_streaming_def attempt_ops AttemptState_default_def Let_def less_UsageKnowledge_def)

lemma sample_streaming_reachable: "attempt_reachable sample_streaming"
  unfolding sample_streaming_def
  by (intro exI [of _ AttemptState_default] conjI refl) (meson attempt_step.intros rtranclp.intros)

text \<open>Knowledge of the usage is not monotonic across a cancellation: a stream whose usage is completely
  known is left, once cancelled, with the usage unknown.\<close>

theorem cancel_forgets_usage:
  "attempt_reachable sample_streaming \<and> usage sample_streaming = Complete \<and>
   usage (snd (attempt_cancel p sample_streaming)) = Unknown \<and>
   usage (snd (attempt_cancel p sample_streaming)) < usage sample_streaming"
  using sample_streaming_reachable
  by (simp add: sample_streaming_eq attempt_ops cancel_disposition_def Let_def less_UsageKnowledge_def)

theorem attempt_budgets_witness:
  "unat (messages_attempts sample_streaming) \<le> unat (connection_attempts sample_streaming) \<and> usage sample_streaming = Complete"
  using attempt_budgets [OF sample_streaming_reachable] by (simp add: sample_streaming_eq)

theorem cancel_disposition_sound_witness:
  "\<exists>d s'. attempt_cancel Http2 sample_streaming = (Inr d, s') \<and> terminal s' \<and> preserve_delivered_prefix d"
  using cancel_disposition_sound [OF sample_streaming_reachable, of Http2 Http2] by (auto simp: sample_streaming_eq)

theorem terminal_absorbing_witness:
  "let s = snd (attempt_cancel Http1 sample_streaming) in terminal s \<and> isl (fst (begin_connection s))"
proof -
  let ?s = "snd (attempt_cancel Http1 sample_streaming)"
  have "attempt_reachable ?s"
    using sample_streaming_reachable by (meson attempt_step.cancels rtranclp.rtrancl_into_rtrancl)
  moreover have "terminal ?s" by (simp add: sample_streaming_eq attempt_ops cancel_disposition_def Let_def)
  ultimately show ?thesis using terminal_absorbing [of ?s] by (simp add: Let_def)
qed

end
