(* ===== verification/Credential_Domain.thy ===== *)
theory Credential_Domain
  imports Domain_Types Load_Order
begin

text \<open>
  The credential value objects of \<^verbatim>\<open>gateway-domain/src/credential.rs\<close>: continuity epochs, the
  orthogonal credential states with their canonical status and blockers, the lifecycle
  operations, egress and archetype selection, the enrollment and maintenance state
  machines and the refresh policy. Constructors carry a prefix where two enums of the source
  share a name.
\<close>

subsection \<open>Enumerations\<close>

datatype AuthKind = OauthSubscription | SetupTokenSubscription | ConsoleApiKeyAuth

datatype CredentialLifecycle =
    PendingVerify | PendingProfile | PendingEgress | PendingReauthStrategy
  | CredActive | CredDisabled | CredRevoked | CredArchived

datatype AttachmentState = Attached | AttachDraining | Detached | Attaching

datatype AuthState =
    AuthHealthy | Expiring | AuthRefreshing | AuthReauthRetrying | AuthReauthWaitingEgress
  | AuthManualRecoveryRequired | AuthNeedsAdminReauth | AuthIsBroken

datatype CapacityState = Available | CapLimited | CapCooldown | CapHalfOpen

datatype TransportState = TransportReady | TransportIsUnavailable

datatype ManagementClass = FullyManaged | NonManaged | MgmtPendingReauthStrategy | MgmtManualRecoveryRequired

datatype EgressPolicy = EgressAuto | ProxyRequired | EgressDirect

datatype EgressMode = ModeDirect | ModeProxy

datatype ProxyLifecycle = ProxyActive | ProxyDraining | ProxyDisabled | ProxyArchived

datatype ProxyHealth =
    HealthUnknown | Probing | ProxyHealthy | UnhealthyDns | UnhealthyConnect | UnhealthyAuth
  | UnhealthyTunnel | UnhealthyTlsPassthrough

datatype ProxyStability = Static | Dynamic

datatype EnrollmentMode = EnrollCreate | EnrollRecover

datatype EnrollmentAuthMethod = OauthPkce | SetupToken | ExistingOauth | BrowserSessionImport | ConsoleApiKey

datatype EnrollmentState =
    Created | ResolvingEgress | AwaitingUserAction | ExchangingMaterial | VerifyingAccount | Deduplicating
  | RecoveringExisting | ProvisioningIdentity | ConfiguringReauth | ActivationCheck
  | EnrollSucceeded | EnrollFailed | EnrollCancelled | EnrollExpired

datatype EnrollmentNextAction =
    WaitForEgressAction | OpenAuthorizationUrl | SubmitSetupMaterial | SubmitExistingOauthMaterial
  | CompleteOauthCallback | CompleteBrowserLogin | RetryAction | ManualRecoveryAction | NoNextAction

datatype MaintenanceState =
    Planned | Leased | Running | MaintVerifyingAccount | Committing | WaitingBackoff | WaitingEgress | NeedsAttention
  | MaintSucceeded | MaintFailed | MaintCancelled | MaintExpired

datatype MaintenanceKind =
    Verify | RefreshKind | Reauthenticate | ManualRecovery | AuthMethodMigration | PlanCollect | BrowserHealth

datatype MaintenanceTrigger =
    ByEnrollment | Scheduled | ExpiryGuard | Upstream401 | Admin | ByManualRecovery | StrategyHealth

datatype ConflictClass = AuthMaterialWrite | ConflictPlanCollect | ConflictBrowserHealth

datatype PlanAdapter = OauthProfile | ClaudeCliBootstrap | PlanNotApplicable

datatype ContinuityChange =
    ContinuityRefresh | SameAccountRecovery | GroupMigration | Cohort | EgressRebind | DeviceRebuild

datatype CanonicalCredentialStatus =
    Archived | Revoked | Disabled | Pending | StatusDraining | StatusDetached | StatusAttaching
  | ManualRecoveryRequired | NeedsAdminReauth | AuthBroken | Refreshing | ReauthRetrying
  | ReauthWaitingEgress | TransportUnavailable | Cooldown | HalfOpen | Limited | Active

datatype CredentialBlocker =
    BlockLifecycle | BlockAttachment | BlockAuthentication | BlockManagement
  | BlockProfile | BlockEgress | BlockTransport | BlockPurpose

fun plan_adapter :: "AuthKind \<Rightarrow> PlanAdapter" where
  "plan_adapter OauthSubscription = OauthProfile"
| "plan_adapter SetupTokenSubscription = ClaudeCliBootstrap"
| "plan_adapter ConsoleApiKeyAuth = PlanNotApplicable"

subsection \<open>Continuity epochs\<close>

record EpochSet =
  es_revision :: u64
  es_token_version :: u64
  profile_epoch :: u64
  device_epoch :: u64
  egress_epoch :: u64

definition increment :: "u64 \<Rightarrow> u64 DomainResult" where
  "increment value = (case checked_add value 1 of None \<Rightarrow> Inl InvalidValue | Some v \<Rightarrow> Inr v)"

text \<open>One \<^verbatim>\<open>self.field = increment(self.field)?\<close>: on overflow the state is left as it is, on success
  the next statement runs on the updated state.\<close>

definition bump ::
  "(EpochSet \<Rightarrow> u64) \<Rightarrow> (u64 \<Rightarrow> EpochSet \<Rightarrow> EpochSet) \<Rightarrow>
   (EpochSet \<Rightarrow> unit DomainResult \<times> EpochSet) \<Rightarrow> EpochSet \<Rightarrow> unit DomainResult \<times> EpochSet" where
  "bump fld upd next e =
     (case increment (fld e) of Inl err \<Rightarrow> (Inl err, e) | Inr v \<Rightarrow> next (upd v e))"

definition bump_token where "bump_token = bump es_token_version (\<lambda>v. es_token_version_update (\<lambda>_. v))"
definition bump_profile where "bump_profile = bump profile_epoch (\<lambda>v. profile_epoch_update (\<lambda>_. v))"
definition bump_device where "bump_device = bump device_epoch (\<lambda>v. device_epoch_update (\<lambda>_. v))"
definition bump_egress where "bump_egress = bump egress_epoch (\<lambda>v. egress_epoch_update (\<lambda>_. v))"
definition bump_revision where "bump_revision = bump es_revision (\<lambda>v. es_revision_update (\<lambda>_. v))"

definition EpochSet_apply :: "ContinuityChange \<Rightarrow> EpochSet \<Rightarrow> unit DomainResult \<times> EpochSet" where
  "EpochSet_apply change =
     (let finish = bump_revision (\<lambda>e. (Inr (), e)) in
      case change of
        ContinuityRefresh \<Rightarrow> bump_token finish
      | SameAccountRecovery \<Rightarrow> bump_token finish
      | GroupMigration \<Rightarrow> finish
      | Cohort \<Rightarrow> bump_profile finish
      | EgressRebind \<Rightarrow> bump_profile (bump_egress finish)
      | DeviceRebuild \<Rightarrow> bump_profile (bump_device finish))"

subsection \<open>The credential state\<close>

record DomainCredentialState =
  cs_lifecycle :: CredentialLifecycle
  attachment :: AttachmentState
  auth :: AuthState
  capacity :: CapacityState
  transport :: TransportState
  management_class :: ManagementClass
  cs_profile_ready :: bool
  cs_egress_ready :: bool
  purpose_compatible :: bool

definition lifecycle_status :: "CredentialLifecycle \<Rightarrow> CanonicalCredentialStatus option" where
  "lifecycle_status l = (case l of
     CredArchived \<Rightarrow> Some Archived | CredRevoked \<Rightarrow> Some Revoked | CredDisabled \<Rightarrow> Some Disabled
   | CredActive \<Rightarrow> None | _ \<Rightarrow> Some Pending)"

definition attachment_status :: "AttachmentState \<Rightarrow> CanonicalCredentialStatus option" where
  "attachment_status a = (case a of
     AttachDraining \<Rightarrow> Some StatusDraining | Detached \<Rightarrow> Some StatusDetached
   | Attaching \<Rightarrow> Some StatusAttaching | Attached \<Rightarrow> None)"

definition auth_status :: "AuthState \<Rightarrow> CanonicalCredentialStatus option" where
  "auth_status a = (case a of
     AuthManualRecoveryRequired \<Rightarrow> Some ManualRecoveryRequired | AuthNeedsAdminReauth \<Rightarrow> Some NeedsAdminReauth
   | AuthIsBroken \<Rightarrow> Some AuthBroken | AuthRefreshing \<Rightarrow> Some Refreshing
   | AuthReauthRetrying \<Rightarrow> Some ReauthRetrying | AuthReauthWaitingEgress \<Rightarrow> Some ReauthWaitingEgress
   | AuthHealthy \<Rightarrow> None | Expiring \<Rightarrow> None)"

definition capacity_status :: "CapacityState \<Rightarrow> CanonicalCredentialStatus" where
  "capacity_status c = (case c of
     CapCooldown \<Rightarrow> Cooldown | CapHalfOpen \<Rightarrow> HalfOpen | CapLimited \<Rightarrow> Limited | Available \<Rightarrow> Active)"

text \<open>The early returns, in the order of the source.\<close>

definition canonical_status :: "DomainCredentialState \<Rightarrow> CanonicalCredentialStatus" where
  "canonical_status s =
     (case lifecycle_status (cs_lifecycle s) of Some r \<Rightarrow> r
      | None \<Rightarrow> (case attachment_status (attachment s) of Some r \<Rightarrow> r
      | None \<Rightarrow> (case auth_status (auth s) of Some r \<Rightarrow> r
      | None \<Rightarrow>
          if transport s = TransportIsUnavailable \<or> \<not> cs_egress_ready s \<or> \<not> cs_profile_ready s
          then TransportUnavailable
          else capacity_status (capacity s))))"

definition blockers :: "DomainCredentialState \<Rightarrow> CredentialBlocker list" where
  "blockers s =
     (if cs_lifecycle s \<noteq> CredActive then [BlockLifecycle] else []) @
     (if attachment s \<noteq> Attached then [BlockAttachment] else []) @
     (if auth s \<notin> {AuthHealthy, Expiring} then [BlockAuthentication] else []) @
     (if management_class s \<in> {MgmtPendingReauthStrategy, MgmtManualRecoveryRequired} then [BlockManagement] else []) @
     (if \<not> cs_profile_ready s then [BlockProfile] else []) @
     (if \<not> cs_egress_ready s then [BlockEgress] else []) @
     (if transport s \<noteq> TransportReady then [BlockTransport] else []) @
     (if \<not> purpose_compatible s then [BlockPurpose] else [])"

definition is_schedulable :: "DomainCredentialState \<Rightarrow> bool" where
  "is_schedulable s \<longleftrightarrow> blockers s = [] \<and> capacity s \<noteq> CapCooldown"

type_synonym lifecycle_outcome = "unit DomainResult \<times> DomainCredentialState"

definition activate :: "DomainCredentialState \<Rightarrow> lifecycle_outcome" where
  "activate s =
     (if cs_lifecycle s \<notin> {PendingVerify, PendingProfile, PendingEgress, PendingReauthStrategy, CredDisabled}
      then (Inl InvalidStateTransition, s)
      else let previous = cs_lifecycle s; s1 = s\<lparr>cs_lifecycle := CredActive\<rparr>
           in if blockers s1 \<noteq> [] then (Inl InvalidStateTransition, s1\<lparr>cs_lifecycle := previous\<rparr>)
              else (Inr (), s1))"

definition credential_disable :: "DomainCredentialState \<Rightarrow> lifecycle_outcome" where
  "credential_disable s =
     (if cs_lifecycle s \<noteq> CredActive then (Inl InvalidStateTransition, s)
      else (Inr (), s\<lparr>cs_lifecycle := CredDisabled\<rparr>))"

definition revoke :: "DomainCredentialState \<Rightarrow> lifecycle_outcome" where
  "revoke s =
     (if cs_lifecycle s \<in> {CredRevoked, CredArchived} then (Inl InvalidStateTransition, s)
      else (Inr (), s\<lparr>cs_lifecycle := CredRevoked\<rparr>))"

definition archive :: "u32 \<Rightarrow> u32 \<Rightarrow> DomainCredentialState \<Rightarrow> lifecycle_outcome" where
  "archive active_leases active_operations s =
     (if cs_lifecycle s \<notin> {CredDisabled, CredRevoked} \<or> active_leases \<noteq> 0 \<or> active_operations \<noteq> 0
         \<or> attachment s = AttachDraining
      then (Inl InvalidStateTransition, s)
      else (Inr (), s\<lparr>cs_lifecycle := CredArchived\<rparr>))"

subsection \<open>Egress selection\<close>

record EgressBindingSnapshot =
  binding_id :: EgressBindingId
  eb_mode :: EgressMode
  eb_proxy_id :: "ProxyEndpointId option"
  eb_egress_epoch :: u64

record ProxyCandidate =
  px_id :: ProxyEndpointId
  px_lifecycle :: ProxyLifecycle
  px_health :: ProxyHealth
  stability :: ProxyStability
  active_bindings :: u32
  max_active_bindings :: u32
  within_validity_window :: bool

datatype EgressDecision = DecideDirect | DecideProxy ProxyEndpointId | WaitForEgress

text \<open>The products of two widened \<^verbatim>\<open>u32\<close> fit a \<^verbatim>\<open>u64\<close>, so they are natural numbers here.\<close>

definition proxy_load_order :: "ProxyCandidate \<Rightarrow> ProxyCandidate \<Rightarrow> ordering" where
  "proxy_load_order left right =
     (let left_cross = unat (active_bindings left) * unat (max_active_bindings right);
          right_cross = unat (active_bindings right) * unat (max_active_bindings left)
      in then_with (cmp left_cross right_cross) (cmp (px_id left) (px_id right)))"

definition proxy_usable :: "ProxyCandidate \<Rightarrow> bool" where
  "proxy_usable p \<longleftrightarrow>
     px_lifecycle p = ProxyActive \<and> px_health p = ProxyHealthy \<and> stability p = Static \<and>
     within_validity_window p \<and> active_bindings p < max_active_bindings p \<and> 0 < max_active_bindings p"

definition choose_egress :: "EgressPolicy \<Rightarrow> ProxyCandidate list \<Rightarrow> EgressDecision" where
  "choose_egress policy proxies =
     (if policy = EgressDirect then DecideDirect
      else (case min_by proxy_load_order (filter proxy_usable proxies) of
          Some p \<Rightarrow> DecideProxy (px_id p)
        | None \<Rightarrow> WaitForEgress))"

subsection \<open>Archetype selection\<close>

record ArchetypeCandidate =
  ar_id :: ArchetypeVersionId
  compatible :: bool
  ar_active :: bool
  bundle_active :: bool
  allocated_credentials :: u32
  max_credentials :: u32
  allocation_weight :: u32

definition archetype_eligible :: "ArchetypeCandidate \<Rightarrow> bool" where
  "archetype_eligible c \<longleftrightarrow>
     compatible c \<and> ar_active c \<and> bundle_active c \<and> allocated_credentials c < max_credentials c \<and>
     0 < allocation_weight c"

definition weight64 :: "ArchetypeCandidate \<Rightarrow> u64" where
  "weight64 c = ucast (allocation_weight c)"

definition total_weight :: "ArchetypeCandidate list \<Rightarrow> u64" where
  "total_weight cs = foldl (\<lambda>sum c. saturating_add sum (weight64 c)) 0 cs"

fun pick_archetype :: "ArchetypeCandidate list \<Rightarrow> u64 \<Rightarrow> ArchetypeVersionId option" where
  "pick_archetype [] point = None"
| "pick_archetype (c # cs) point =
     (if point < weight64 c then Some (ar_id c) else pick_archetype cs (point - weight64 c))"

definition choose_archetype :: "ArchetypeCandidate list \<Rightarrow> u64 \<Rightarrow> ArchetypeVersionId option" where
  "choose_archetype candidates seed =
     (let eligible = filter archetype_eligible candidates; total = total_weight eligible in
      if total = 0 then None else pick_archetype eligible (seed mod total))"

subsection \<open>Enrollment\<close>

text \<open>An account UUID is kept as its text.\<close>

type_synonym AnthropicAccountUuid = string

record Enrollment =
  en_id :: EnrollmentId
  en_mode :: EnrollmentMode
  target_group_id :: GroupId
  auth_method :: EnrollmentAuthMethod
  pending_credential_id :: "CredentialId option"
  recovery_credential_id :: "CredentialId option"
  expected_credential_revision :: "u64 option"
  en_state :: EnrollmentState
  next_action :: EnrollmentNextAction
  egress_snapshot :: "EgressBindingSnapshot option"
  identified_account_uuid :: "AnthropicAccountUuid option"
  material_secret_refs :: "SecretId list"
  en_attempt_count :: u32
  expires_after :: duration
  en_revision :: u64

abbreviation enrollment_terminal :: "EnrollmentState \<Rightarrow> bool" where
  "enrollment_terminal s \<equiv> s \<in> {EnrollSucceeded, EnrollFailed, EnrollCancelled, EnrollExpired}"

definition enrollment_is_terminal :: "Enrollment \<Rightarrow> bool" where
  "enrollment_is_terminal e = enrollment_terminal (en_state e)"

definition valid_enrollment_transition :: "EnrollmentState \<Rightarrow> EnrollmentState \<Rightarrow> EnrollmentMode \<Rightarrow> bool" where
  "valid_enrollment_transition from to mode \<longleftrightarrow>
     to \<in> {EnrollFailed, EnrollCancelled, EnrollExpired} \<or>
     (from, to) \<in>
       {(Created, ResolvingEgress), (ResolvingEgress, AwaitingUserAction), (AwaitingUserAction, ExchangingMaterial),
        (ExchangingMaterial, VerifyingAccount), (VerifyingAccount, Deduplicating),
        (Deduplicating, ProvisioningIdentity), (ProvisioningIdentity, ConfiguringReauth),
        (ConfiguringReauth, ActivationCheck), (ActivationCheck, EnrollSucceeded)} \<or>
     mode = EnrollRecover \<and>
       (from, to) \<in> {(Deduplicating, RecoveringExisting), (RecoveringExisting, ConfiguringReauth)}"

text \<open>The state and the next action are stored before the revision is incremented; the error of an overflowing
  revision leaves them stored.\<close>

definition enrollment_transition ::
  "EnrollmentState \<Rightarrow> EnrollmentNextAction \<Rightarrow> Enrollment \<Rightarrow> unit DomainResult \<times> Enrollment" where
  "enrollment_transition st act e =
     (if enrollment_is_terminal e then (Inl TerminalState, e)
      else if \<not> valid_enrollment_transition (en_state e) st (en_mode e) then (Inl InvalidStateTransition, e)
      else if enrollment_terminal st \<and> act \<noteq> NoNextAction then (Inl InvalidStateTransition, e)
      else let e1 = e\<lparr>en_state := st, next_action := act\<rparr>
           in (case increment (en_revision e1) of
                 Inl err \<Rightarrow> (Inl err, e1)
               | Inr r \<Rightarrow> (Inr (), e1\<lparr>en_revision := r\<rparr>)))"

subsection \<open>Maintenance\<close>

record MaintenanceOperation =
  mo_id :: MaintenanceOperationId
  mo_credential_id :: CredentialId
  mo_kind :: MaintenanceKind
  trigger :: MaintenanceTrigger
  conflict_class :: ConflictClass
  mo_state :: MaintenanceState
  expected_revision :: u64
  expected_token_version :: u64
  expected_egress :: EgressBindingSnapshot
  mo_generation :: u64
  mo_attempt_count :: u32

definition maintenance_is_terminal :: "MaintenanceOperation \<Rightarrow> bool" where
  "maintenance_is_terminal m \<longleftrightarrow> mo_state m \<in> {MaintSucceeded, MaintFailed, MaintCancelled, MaintExpired}"

definition valid_maintenance_transition :: "MaintenanceState \<Rightarrow> MaintenanceState \<Rightarrow> bool" where
  "valid_maintenance_transition from to \<longleftrightarrow>
     to \<in> {MaintFailed, MaintCancelled, MaintExpired} \<or>
     from \<in> {Planned, WaitingBackoff, WaitingEgress, NeedsAttention} \<and> to = Leased \<or>
     from = Leased \<and> to = Running \<or>
     from = Running \<and> to \<in> {MaintVerifyingAccount, WaitingBackoff, WaitingEgress, NeedsAttention} \<or>
     from = MaintVerifyingAccount \<and> to \<in> {Committing, NeedsAttention} \<or>
     from = Committing \<and> to = MaintSucceeded"

definition maintenance_transition :: "MaintenanceState \<Rightarrow> MaintenanceOperation \<Rightarrow> unit DomainResult \<times> MaintenanceOperation" where
  "maintenance_transition next m =
     (if maintenance_is_terminal m then (Inl TerminalState, m)
      else if \<not> valid_maintenance_transition (mo_state m) next then (Inl InvalidStateTransition, m)
      else (Inr (), m\<lparr>mo_state := next\<rparr>))"

subsection \<open>Refresh policy\<close>

record RefreshPolicy =
  guard_ratio_basis_points :: u16
  minimum_guard :: duration
  maximum_guard :: duration
  maximum_jitter :: duration

definition RefreshPolicy_default :: RefreshPolicy where
  "RefreshPolicy_default =
     \<lparr>guard_ratio_basis_points = 1000, minimum_guard = from_mins 5, maximum_guard = from_hours 4,
      maximum_jitter = from_secs 30\<rparr>"

text \<open>\<^verbatim>\<open>Duration::checked_mul\<close> fails above \<open>DURATION_MAX\<close>; \<^verbatim>\<open>Ord::clamp\<close> panics when its bounds are
  crossed, which is the outer \<open>None\<close>.\<close>

definition clamp :: "duration \<Rightarrow> duration \<Rightarrow> duration \<Rightarrow> duration option" where
  "clamp x lo hi = (if hi < lo then None else Some (if x < lo then lo else if hi < x then hi else x))"

definition refresh_after :: "RefreshPolicy \<Rightarrow> duration \<Rightarrow> duration \<Rightarrow> duration DomainResult option" where
  "refresh_after p lifetime jitter =
     (if 10000 < guard_ratio_basis_points p \<or> maximum_guard p < minimum_guard p \<or> maximum_jitter p < jitter
      then Some (Inl InvalidValue)
      else let product = lifetime * unat (guard_ratio_basis_points p) in
        if DURATION_MAX < product then Some (Inl InvalidValue)
        else map_option
          (\<lambda>guard. Inr (min (dur_saturating_add (dur_saturating_sub lifetime guard) jitter) lifetime))
          (clamp (product div 10000) (min (minimum_guard p) lifetime) (min (maximum_guard p) lifetime)))"

end
