(* ===== verification/Credential_Properties.thy ===== *)
theory Credential_Properties
  imports Credential_Domain
begin

text \<open>
  Correctness of the credential value objects: the continuity matrix of the epochs, the
  agreement of the schedulability gate with the canonical status, the finality of revocation,
  the choice of egress and archetype, and the enrollment, maintenance and refresh rules.
\<close>

subsection \<open>Epochs\<close>

lemma increment_Inr: "increment v = Inr w \<longleftrightarrow> w = v + 1 \<and> unat w = Suc (unat v)"
proof -
  have "unat (v + 1) = Suc (unat v)" if "unat v + 1 < 2 ^ 64"
    using unat_plus_exact [of v 1] that by simp
  moreover have "unat v + 1 < 2 ^ 64" if "unat (v + 1) = Suc (unat v)"
    using unsigned_less [of "v + 1", where ?'a = nat] that by simp
  ultimately show ?thesis by (auto simp: increment_def checked_add_def)
qed

lemma increment_Inl: "increment v = Inl err \<longleftrightarrow> err = InvalidValue \<and> v = - 1"
proof -
  have "v = - 1" if "\<not> unat v + 1 < 2 ^ 64"
  proof -
    have "unat v = 2 ^ 64 - 1" using that unsigned_less [of v, where ?'a = nat] by simp
    then show ?thesis by (simp add: word_unat_eq_iff unsigned_minus_1_eq_mask mask_eq_exp_minus_1)
  qed
  then show ?thesis by (auto simp: increment_def checked_add_def unsigned_minus_1_eq_mask mask_eq_exp_minus_1)
qed

lemmas bumps = bump_def bump_token_def bump_profile_def bump_device_def bump_egress_def bump_revision_def

text \<open>A continuity change that succeeds moves exactly the versions its kind names, each by one and
  without wrap-around: the revision always, the token version for a refresh or a recovery, the
  profile epoch for a cohort, egress or device change, the egress and device epochs for their own.\<close>

theorem epoch_apply_matrix:
  assumes "EpochSet_apply change e = (Inr (), e')"
  shows "unat (es_revision e') = Suc (unat (es_revision e)) \<and>
    unat (es_token_version e') = unat (es_token_version e) + of_bool (change \<in> {ContinuityRefresh, SameAccountRecovery}) \<and>
    unat (profile_epoch e') = unat (profile_epoch e) + of_bool (change \<in> {Cohort, EgressRebind, DeviceRebuild}) \<and>
    unat (device_epoch e') = unat (device_epoch e) + of_bool (change = DeviceRebuild) \<and>
    unat (egress_epoch e') = unat (egress_epoch e) + of_bool (change = EgressRebind)"
  using assms
  by (cases change) (auto simp: EpochSet_apply_def bumps increment_Inr split: sum.splits)

theorem epoch_apply_matrix_witness:
  "let e = \<lparr>es_revision = 1, es_token_version = 1, profile_epoch = 1, device_epoch = 1, egress_epoch = 1\<rparr>;
       e' = snd (EpochSet_apply EgressRebind e) in
   unat (profile_epoch e') = 2 \<and> unat (egress_epoch e') = 2 \<and> unat (device_epoch e') = 1"
proof -
  let ?e = "\<lparr>es_revision = 1, es_token_version = 1, profile_epoch = 1, device_epoch = 1, egress_epoch = 1\<rparr>"
  let ?e' = "snd (EpochSet_apply EgressRebind ?e)"
  have "EpochSet_apply EgressRebind ?e = (Inr (), ?e')"
    by (simp add: EpochSet_apply_def bumps increment_def checked_add_def)
  from epoch_apply_matrix [OF this] show ?thesis by (simp add: Let_def)
qed

text \<open>A change that fails may have been applied in part: an egress rebind whose egress epoch is exhausted
  has already moved the profile epoch.\<close>

lemma epoch_apply_partial_on_error:
  assumes "profile_epoch e \<noteq> - 1" and "egress_epoch e = - 1"
  shows "EpochSet_apply EgressRebind e = (Inl InvalidValue, e\<lparr>profile_epoch := profile_epoch e + 1\<rparr>)"
proof -
  have "increment (profile_epoch e) = Inr (profile_epoch e + 1)"
    using assms(1) increment_Inl [of "profile_epoch e"] by (cases "increment (profile_epoch e)") (auto simp: increment_Inr)
  moreover have "increment (- 1) = Inl InvalidValue" by (simp add: increment_Inl)
  ultimately show ?thesis using assms(2) by (simp add: EpochSet_apply_def bumps)
qed

subsection \<open>Status and lifecycle\<close>

lemma blockers_Nil:
  "blockers s = [] \<longleftrightarrow>
     cs_lifecycle s = CredActive \<and> attachment s = Attached \<and> auth s \<in> {AuthHealthy, Expiring} \<and>
     management_class s \<notin> {MgmtPendingReauthStrategy, MgmtManualRecoveryRequired} \<and> cs_profile_ready s \<and>
     cs_egress_ready s \<and> transport s = TransportReady \<and> purpose_compatible s"
  by (simp add: blockers_def)

lemma serving_status:
  "canonical_status s \<in> {Active, Limited, HalfOpen} \<longleftrightarrow>
     cs_lifecycle s = CredActive \<and> attachment s = Attached \<and> auth s \<in> {AuthHealthy, Expiring} \<and>
     transport s = TransportReady \<and> cs_egress_ready s \<and> cs_profile_ready s \<and> capacity s \<noteq> CapCooldown"
  unfolding canonical_status_def lifecycle_status_def attachment_status_def auth_status_def capacity_status_def
  by (cases "cs_lifecycle s"; cases "attachment s"; cases "auth s"; cases "transport s"; cases "capacity s") simp_all

text \<open>The scheduler's view and the canonical status agree: a credential is schedulable exactly when its
  status is active, limited or half-open, it is not waiting for a recovery strategy and it fits
  the purpose.\<close>

theorem schedulable_iff_status:
  "is_schedulable s \<longleftrightarrow>
     canonical_status s \<in> {Active, Limited, HalfOpen} \<and>
     management_class s \<notin> {MgmtPendingReauthStrategy, MgmtManualRecoveryRequired} \<and> purpose_compatible s"
  unfolding is_schedulable_def blockers_Nil serving_status by blast

text \<open>The lifecycle operations, with arbitrary changes of the other dimensions in between.\<close>

inductive lifecycle_step :: "DomainCredentialState \<Rightarrow> DomainCredentialState \<Rightarrow> bool" where
  activates: "lifecycle_step s (snd (activate s))"
| disables: "lifecycle_step s (snd (credential_disable s))"
| revokes: "lifecycle_step s (snd (revoke s))"
| archives: "lifecycle_step s (snd (archive leases operations s))"
| observed: "cs_lifecycle t = cs_lifecycle s \<Longrightarrow> lifecycle_step s t"

interpretation retired: invariant_system
  "\<lambda>s. cs_lifecycle s \<in> {CredRevoked, CredArchived}" lifecycle_step "\<lambda>s. cs_lifecycle s \<in> {CredRevoked, CredArchived}"
proof unfold_locales
  fix s t :: DomainCredentialState assume "cs_lifecycle s \<in> {CredRevoked, CredArchived}"
  assume "lifecycle_step s t"
  then show "cs_lifecycle t \<in> {CredRevoked, CredArchived}"
    using \<open>cs_lifecycle s \<in> {CredRevoked, CredArchived}\<close>
    by cases (auto simp: activate_def credential_disable_def revoke_def archive_def)
qed

text \<open>A revoked or archived credential never serves again: whatever operations follow, and however its
  other dimensions change, it stays revoked or archived and is not schedulable.\<close>

theorem revoked_never_schedulable:
  assumes "cs_lifecycle s \<in> {CredRevoked, CredArchived}" and "lifecycle_step\<^sup>*\<^sup>* s t"
  shows "cs_lifecycle t \<in> {CredRevoked, CredArchived} \<and> \<not> is_schedulable t"
  using retired.run_inv [OF assms(2,1)] by (auto simp: is_schedulable_def blockers_Nil)

definition sample_state :: DomainCredentialState where
  "sample_state = \<lparr>cs_lifecycle = PendingVerify, attachment = Attached, auth = AuthHealthy, capacity = Available,
     transport = TransportReady, management_class = FullyManaged, cs_profile_ready = True, cs_egress_ready = True,
     purpose_compatible = True\<rparr>"

theorem revoked_never_schedulable_witness:
  "let s = snd (revoke (snd (activate sample_state))); t = snd (archive 0 0 (snd (activate s))) in
   cs_lifecycle s = CredRevoked \<and> cs_lifecycle t = CredArchived \<and> \<not> is_schedulable t"
proof -
  let ?s = "snd (revoke (snd (activate sample_state)))"
  let ?t = "snd (archive 0 0 (snd (activate ?s)))"
  have "lifecycle_step\<^sup>*\<^sup>* ?s ?t" by (meson lifecycle_step.intros rtranclp.intros)
  from revoked_never_schedulable [OF _ this] show ?thesis
    by (simp add: Let_def sample_state_def activate_def revoke_def archive_def blockers_def)
qed

text \<open>Activation succeeds exactly from a pending or disabled state with nothing else in the way, and then the
  credential has no blocker; a failed activation changes nothing.\<close>

lemma activate_correct:
  "(case activate s of
      (Inr _, s') \<Rightarrow> s' = s\<lparr>cs_lifecycle := CredActive\<rparr> \<and> blockers s' = [] \<and> cs_lifecycle s \<notin> {CredActive, CredRevoked, CredArchived}
    | (Inl err, s') \<Rightarrow> err = InvalidStateTransition \<and> s' = s)"
  by (cases "cs_lifecycle s") (simp_all add: activate_def Let_def)

subsection \<open>Egress\<close>

definition proxy_key :: "ProxyCandidate \<Rightarrow> rat \<times> ProxyEndpointId" where
  "proxy_key p = (of_nat (unat (active_bindings p)) / of_nat (unat (max_active_bindings p)), px_id p)"

lemma proxy_load_order_key:
  "max_active_bindings p \<noteq> 0 \<Longrightarrow> max_active_bindings q \<noteq> 0 \<Longrightarrow>
   proxy_load_order p q = cmp (proxy_key p) (proxy_key q)"
  unfolding proxy_load_order_def proxy_key_def Let_def
  by (subst cmp_fraction) (simp_all only: unat_gt_0 then_with_cmp, simp_all)

interpretation proxy_order: comparator proxy_load_order "{p. max_active_bindings p \<noteq> 0}"
  by unfold_locales (auto simp: proxy_load_order_key)

lemma min_by_eq_None [simp]: "min_by c xs = None \<longleftrightarrow> xs = []"
  by (cases xs) (auto split: option.splits)

text \<open>A proxy is bound only if it can take the binding, and it is a least loaded one: the chosen proxy is
  active, healthy, static, inside its validity window and below its limit, no such proxy has a
  smaller share of its bindings in use, and among equals its identifier is the smallest.\<close>

theorem egress_least_loaded:
  assumes "choose_egress policy ps = DecideProxy i"
  shows "policy \<noteq> EgressDirect \<and> (\<exists>p \<in> set ps. px_id p = i \<and> proxy_usable p \<and>
    (\<forall>q \<in> set ps. proxy_usable q \<longrightarrow> proxy_key p \<le> proxy_key q))"
proof -
  have U: "set (filter proxy_usable ps) \<subseteq> {p. max_active_bindings p \<noteq> 0}" by (auto simp: proxy_usable_def)
  obtain p where p: "min_by proxy_load_order (filter proxy_usable ps) = Some p" "px_id p = i" "policy \<noteq> EgressDirect"
    using assms by (auto simp: choose_egress_def split: if_splits option.splits)
  have "p \<in> set (filter proxy_usable ps)" "\<forall>q \<in> set (filter proxy_usable ps). proxy_load_order p q \<noteq> Greater"
    using proxy_order.min_by_least [OF U p(1)] by auto
  with p(2,3) U show ?thesis
    by (intro conjI bexI [of _ p]) (auto simp: proxy_load_order_key subset_iff not_less)
qed

text \<open>Egress fails closed: a request that needs a proxy and finds none usable waits; it goes out directly
  only when its policy says so.\<close>

theorem egress_fails_closed:
  "(choose_egress policy ps = DecideDirect \<longleftrightarrow> policy = EgressDirect) \<and>
   (choose_egress policy ps = WaitForEgress \<longleftrightarrow> policy \<noteq> EgressDirect \<and> filter proxy_usable ps = [])"
  by (auto simp: choose_egress_def split: option.splits)

definition sample_proxy :: "string \<Rightarrow> u32 \<Rightarrow> ProxyCandidate" where
  "sample_proxy i n = \<lparr>px_id = TypedId i, px_lifecycle = ProxyActive, px_health = ProxyHealthy, stability = Static,
     active_bindings = n, max_active_bindings = 5, within_validity_window = True\<rparr>"

theorem egress_least_loaded_witness:
  "choose_egress EgressAuto [sample_proxy ''proxy_b'' 2, sample_proxy ''proxy_a'' 1] = DecideProxy (TypedId ''proxy_a'') \<and>
   proxy_key (sample_proxy ''proxy_a'' 1) \<le> proxy_key (sample_proxy ''proxy_b'' 2)"
proof -
  have C: "choose_egress EgressAuto [sample_proxy ''proxy_b'' 2, sample_proxy ''proxy_a'' 1] = DecideProxy (TypedId ''proxy_a'')"
    by (simp add: choose_egress_def sample_proxy_def proxy_usable_def proxy_load_order_def then_with_def cmp_def)
  have U: "proxy_usable (sample_proxy ''proxy_b'' 2)" by (simp add: sample_proxy_def proxy_usable_def)
  from egress_least_loaded [OF C] C U show ?thesis by (auto simp: sample_proxy_def)
qed

subsection \<open>Archetypes\<close>

text \<open>The same walk over natural numbers, where nothing wraps.\<close>

fun pick_nat :: "ArchetypeCandidate list \<Rightarrow> nat \<Rightarrow> ArchetypeVersionId option" where
  "pick_nat [] n = None"
| "pick_nat (c # cs) n =
     (if n < unat (allocation_weight c) then Some (ar_id c) else pick_nat cs (n - unat (allocation_weight c)))"

abbreviation weights :: "ArchetypeCandidate list \<Rightarrow> nat" where
  "weights cs \<equiv> (\<Sum>c\<leftarrow>cs. unat (allocation_weight c))"

lemma unat_weight64 [simp]: "unat (weight64 c) = unat (allocation_weight c)"
  using unsigned_less [of "allocation_weight c", where ?'a = nat]
  by (simp add: weight64_def unsigned_ucast_eq take_bit_nat_eq_self)

lemma pick_archetype_nat: "pick_archetype cs point = pick_nat cs (unat point)"
  by (induction cs arbitrary: point) (auto simp: word_less_nat_alt not_less unat_sub word_le_nat_alt)

lemma pick_nat_Some: "n < weights cs \<Longrightarrow> \<exists>c \<in> set cs. pick_nat cs n = Some (ar_id c)"
  by (induction cs arbitrary: n) force+

lemma total_weight_nat: "unat (total_weight cs) = min (weights cs) (2 ^ 64 - 1)"
proof -
  have "unat (foldl (\<lambda>sum c. saturating_add sum (weight64 c)) s cs) = min (unat s + weights cs) (2 ^ 64 - 1)" for s :: u64
  proof (induction cs arbitrary: s)
    case Nil
    then show ?case using unsigned_less [of s, where ?'a = nat] by simp
  next
    case (Cons c cs)
    then show ?case by (simp add: unat_saturating_add)
  qed
  from this [of 0] show ?thesis by (simp add: total_weight_def)
qed

lemma weights_eq_0: "weights cs = 0 \<longleftrightarrow> (\<forall>c \<in> set cs. allocation_weight c = 0)"
  by (induction cs) (auto simp: unat_eq_0)

text \<open>An archetype is allocated whenever one is eligible, for every seed, and it is always an eligible one.\<close>

theorem archetype_total:
  "(choose_archetype cs seed = None \<longleftrightarrow> filter archetype_eligible cs = []) \<and>
   set_option (choose_archetype cs seed) \<subseteq> ar_id ` set (filter archetype_eligible cs)"
proof -
  let ?es = "filter archetype_eligible cs"
  have pos: "weights ?es = 0 \<longleftrightarrow> ?es = []"
    unfolding weights_eq_0 by (auto simp: filter_empty_conv archetype_eligible_def)
  show ?thesis
  proof (cases "?es = []")
    case True
    then show ?thesis by (simp add: choose_archetype_def total_weight_def)
  next
    case False
    then have t: "total_weight ?es \<noteq> 0"
      using pos total_weight_nat [of ?es] by (metis (no_types, lifting) min_def unat_0 diff_is_0_eq not_less
          one_less_numeral_iff one_less_power semiring_norm(76) zero_less_numeral)
    then have "unat (seed mod total_weight ?es) < unat (total_weight ?es)"
      by (simp add: unat_mod unat_gt_0)
    then have "unat (seed mod total_weight ?es) < weights ?es" using total_weight_nat [of ?es] by simp
    with pick_nat_Some [OF this] False t show ?thesis
      by (auto simp: choose_archetype_def pick_archetype_nat Let_def)
  qed
qed

text \<open>How many of the first \<open>weights cs\<close> points choose an identifier.\<close>

lemma pick_nat_count:
  "card {n. n < weights cs \<and> pick_nat cs n = Some i} = (\<Sum>c\<leftarrow>cs. if ar_id c = i then unat (allocation_weight c) else 0)"
proof (induction cs)
  case (Cons c cs)
  let ?w = "unat (allocation_weight c)"
  let ?A = "{n. n < ?w \<and> ar_id c = i}" and ?B = "{n. n < weights cs \<and> pick_nat cs n = Some i}"
  have "{n. n < weights (c # cs) \<and> pick_nat (c # cs) n = Some i} = ?A \<union> (+) ?w ` ?B" (is "?L = _")
  proof (intro equalityI subsetI)
    fix n assume n: "n \<in> ?L"
    show "n \<in> ?A \<union> (+) ?w ` ?B"
    proof (cases "n < ?w")
      case False
      with n have "n - ?w \<in> ?B" "n = ?w + (n - ?w)" by auto
      then show ?thesis by blast
    qed (use n in simp)
  qed auto
  moreover have "finite ?A" "finite ?B" "?A \<inter> (+) ?w ` ?B = {}" by auto
  moreover have "card ?A = (if ar_id c = i then ?w else 0)" by (cases "ar_id c = i") (simp_all flip: lessThan_def)
  ultimately show ?case using Cons by (simp add: card_Un_disjoint card_image)
qed simp

text \<open>Allocation is proportional to the weights: over the seeds from zero up to the total weight, each
  archetype is chosen exactly as often as its weight says.\<close>

theorem archetype_proportional:
  assumes "weights (filter archetype_eligible cs) < 2 ^ 64"
  shows "card {seed. unat seed < weights (filter archetype_eligible cs) \<and> choose_archetype cs seed = Some i} =
    (\<Sum>c\<leftarrow>filter archetype_eligible cs. if ar_id c = i then unat (allocation_weight c) else 0)"
proof -
  let ?es = "filter archetype_eligible cs"
  let ?S = "{seed. unat seed < weights ?es \<and> choose_archetype cs seed = Some i}"
  have t: "unat (total_weight ?es) = weights ?es" using assms total_weight_nat [of ?es] by simp
  have pick: "choose_archetype cs seed = pick_nat ?es (unat seed)" if "unat seed < weights ?es" for seed
  proof -
    have "total_weight ?es \<noteq> 0" using that t by (metis not_less0 unsigned_0)
    moreover have "unat (seed mod total_weight ?es) = unat seed" using that t by (simp add: unat_mod)
    ultimately show ?thesis by (simp add: choose_archetype_def pick_archetype_nat Let_def)
  qed
  have "bij_betw unat ?S {n. n < weights ?es \<and> pick_nat ?es n = Some i}"
  proof (rule bij_betwI')
    fix n assume n: "n \<in> {n. n < weights ?es \<and> pick_nat ?es n = Some i}"
    then have "unat (word_of_nat n :: u64) = n" using assms by (simp add: unsigned_of_nat take_bit_nat_eq_self)
    with n pick [of "word_of_nat n"] show "\<exists>seed \<in> ?S. n = unat seed" by (intro bexI [of _ "word_of_nat n"]) auto
  qed (use pick in \<open>auto simp: word_unat_eq_iff\<close>)
  from bij_betw_same_card [OF this] show ?thesis by (simp add: pick_nat_count)
qed

definition sample_archetype :: "string \<Rightarrow> u32 \<Rightarrow> ArchetypeCandidate" where
  "sample_archetype i w = \<lparr>ar_id = TypedId i, compatible = True, ar_active = True, bundle_active = True,
     allocated_credentials = 0, max_credentials = 4, allocation_weight = w\<rparr>"

theorem archetype_proportional_witness:
  "card {seed :: u64. unat seed < 4 \<and>
     choose_archetype [sample_archetype ''a'' 3, sample_archetype ''b'' 1] seed = Some (TypedId ''a'')} = 3"
  using archetype_proportional [of "[sample_archetype ''a'' 3, sample_archetype ''b'' 1]" "TypedId ''a''"]
  by (simp add: sample_archetype_def archetype_eligible_def)

subsection \<open>Enrollment\<close>

text \<open>A run of successful transitions, with the states it enters.\<close>

inductive enrollment_run :: "Enrollment \<Rightarrow> EnrollmentState list \<Rightarrow> Enrollment \<Rightarrow> bool" where
  start: "enrollment_run e [] e"
| advance: "enrollment_run e path e1 \<Longrightarrow> enrollment_transition st act e1 = (Inr (), e2) \<Longrightarrow>
    enrollment_run e (path @ [st]) e2"

lemma enrollment_transition_Inr:
  assumes "enrollment_transition st act e = (Inr (), e')"
  shows "\<not> enrollment_terminal (en_state e) \<and> valid_enrollment_transition (en_state e) st (en_mode e) \<and>
    en_state e' = st \<and> en_mode e' = en_mode e \<and> unat (en_revision e') = Suc (unat (en_revision e)) \<and>
    (enrollment_terminal st \<longrightarrow> next_action e' = NoNextAction)"
  using assms
  by (auto simp: enrollment_transition_def enrollment_is_terminal_def Let_def increment_Inr split: if_splits sum.splits)

text \<open>The distance travelled along the graph.\<close>

fun enrollment_rank :: "EnrollmentState \<Rightarrow> nat" where
  "enrollment_rank Created = 0"
| "enrollment_rank ResolvingEgress = 1"
| "enrollment_rank AwaitingUserAction = 2"
| "enrollment_rank ExchangingMaterial = 3"
| "enrollment_rank VerifyingAccount = 4"
| "enrollment_rank Deduplicating = 5"
| "enrollment_rank RecoveringExisting = 6"
| "enrollment_rank ProvisioningIdentity = 6"
| "enrollment_rank ConfiguringReauth = 7"
| "enrollment_rank ActivationCheck = 8"
| "enrollment_rank _ = 9"

lemma enrollment_rank_less:
  assumes "\<not> enrollment_terminal s" and "valid_enrollment_transition s t m"
  shows "enrollment_rank s < enrollment_rank t"
  using assms by (cases s) (auto simp: valid_enrollment_transition_def)

text \<open>The only way into each state that is not a failure.\<close>

definition enrollment_prefix :: "EnrollmentState list" where
  "enrollment_prefix = [ResolvingEgress, AwaitingUserAction, ExchangingMaterial, VerifyingAccount, Deduplicating]"

definition identity_paths :: "EnrollmentMode \<Rightarrow> EnrollmentState list set" where
  "identity_paths m = {enrollment_prefix @ [i] | i. i = ProvisioningIdentity \<or> i = RecoveringExisting \<and> m = EnrollRecover}"

fun enrollment_path :: "EnrollmentState \<Rightarrow> EnrollmentMode \<Rightarrow> EnrollmentState list set" where
  "enrollment_path ProvisioningIdentity m = {p \<in> identity_paths m. last p = ProvisioningIdentity}"
| "enrollment_path RecoveringExisting m = {p \<in> identity_paths m. last p = RecoveringExisting}"
| "enrollment_path ConfiguringReauth m = (\<lambda>p. p @ [ConfiguringReauth]) ` identity_paths m"
| "enrollment_path ActivationCheck m = (\<lambda>p. p @ [ConfiguringReauth, ActivationCheck]) ` identity_paths m"
| "enrollment_path EnrollSucceeded m = (\<lambda>p. p @ [ConfiguringReauth, ActivationCheck, EnrollSucceeded]) ` identity_paths m"
| "enrollment_path EnrollFailed m = UNIV"
| "enrollment_path EnrollCancelled m = UNIV"
| "enrollment_path EnrollExpired m = UNIV"
| "enrollment_path s m = {take (enrollment_rank s) enrollment_prefix}"

lemma enrollment_run_path:
  "enrollment_run e path e' \<Longrightarrow> en_state e = Created \<Longrightarrow>
   en_mode e' = en_mode e \<and> path \<in> enrollment_path (en_state e') (en_mode e) \<and>
   length path \<le> enrollment_rank (en_state e')"
proof (induction rule: enrollment_run.induct)
  case (advance e path e1 st act e2)
  note T = enrollment_transition_Inr [OF advance.hyps(2)]
  have "enrollment_rank (en_state e1) < enrollment_rank st" by (rule enrollment_rank_less) (use T in auto)
  moreover have "path @ [st] \<in> enrollment_path st (en_mode e)"
    using T advance.IH advance.prems
    by (cases "en_state e1") (auto simp: valid_enrollment_transition_def identity_paths_def enrollment_prefix_def)
  ultimately show ?case using T advance.IH advance.prems by auto
qed simp

text \<open>An enrollment succeeds only along the frozen path: starting from its creation it resolves egress, gets the
  user's material, exchanges it, verifies the account, deduplicates it, provisions an identity (or, only in
  recovery mode, recovers the existing one), configures reauthentication and passes the
  activation check, in this order and each exactly once.\<close>

theorem enrollment_success_path:
  assumes "enrollment_run e path e'" and "en_state e = Created" and "en_state e' = EnrollSucceeded"
  shows "\<exists>identity. path = [ResolvingEgress, AwaitingUserAction, ExchangingMaterial, VerifyingAccount, Deduplicating,
      identity, ConfiguringReauth, ActivationCheck, EnrollSucceeded] \<and>
    (identity = ProvisioningIdentity \<or> identity = RecoveringExisting \<and> en_mode e = EnrollRecover)"
  using enrollment_run_path [OF assms(1,2)] assms(3) by (auto simp: identity_paths_def enrollment_prefix_def)

text \<open>Every enrollment ends after at most nine transitions, and a finished one stays finished: the next
  transition is refused and nothing changes.\<close>

theorem enrollment_terminates:
  assumes "enrollment_run e path e'" and "en_state e = Created"
  shows "length path \<le> 9 \<and>
    (enrollment_is_terminal e' \<longrightarrow> enrollment_transition st act e' = (Inl TerminalState, e'))"
proof -
  have "enrollment_rank s \<le> 9" for s by (cases s) simp_all
  then show ?thesis
    using enrollment_run_path [OF assms] by (auto simp: enrollment_transition_def intro: le_trans)
qed

definition sample_enrollment :: Enrollment where
  "sample_enrollment = \<lparr>en_id = TypedId ''e'', en_mode = EnrollCreate, target_group_id = TypedId ''g'', auth_method = OauthPkce,
     pending_credential_id = None, recovery_credential_id = None, expected_credential_revision = None,
     en_state = Created, next_action = WaitForEgressAction, egress_snapshot = None, identified_account_uuid = None,
     material_secret_refs = [], en_attempt_count = 0, expires_after = from_mins 30, en_revision = 1\<rparr>"

definition sample_path :: "EnrollmentState list" where
  "sample_path = [ResolvingEgress, AwaitingUserAction, ExchangingMaterial, VerifyingAccount, Deduplicating,
     ProvisioningIdentity, ConfiguringReauth, ActivationCheck, EnrollSucceeded]"

lemma sample_enrollment_run:
  "enrollment_run sample_enrollment sample_path (sample_enrollment\<lparr>en_state := EnrollSucceeded, next_action := NoNextAction, en_revision := 10\<rparr>)"
proof -
  have step: "enrollment_run e (path @ [st]) (e1\<lparr>en_state := st, next_action := NoNextAction, en_revision := r + 1\<rparr>)"
    if "enrollment_run e path e1" "en_revision e1 = r" "r \<noteq> - 1" "\<not> enrollment_terminal (en_state e1)"
      "valid_enrollment_transition (en_state e1) st (en_mode e1)" for e path e1 r st
  proof (rule enrollment_run.advance [OF that(1), of _ NoNextAction])
    have "increment r = Inr (r + 1)" using that(3) increment_Inl [of r] by (cases "increment r") (auto simp: increment_Inr)
    with that show "enrollment_transition st NoNextAction e1 =
        (Inr (), e1\<lparr>en_state := st, next_action := NoNextAction, en_revision := r + 1\<rparr>)"
      by (simp add: enrollment_transition_def enrollment_is_terminal_def Let_def)
  qed
  have "enrollment_run sample_enrollment ([] @ [ResolvingEgress] @ [AwaitingUserAction] @ [ExchangingMaterial]
      @ [VerifyingAccount] @ [Deduplicating] @ [ProvisioningIdentity] @ [ConfiguringReauth] @ [ActivationCheck] @ [EnrollSucceeded])
      (sample_enrollment\<lparr>en_state := EnrollSucceeded, next_action := NoNextAction, en_revision := 10\<rparr>)"
    using step [OF step [OF step [OF step [OF step [OF step [OF step [OF step [OF step [OF start [of sample_enrollment],
      of 1 ResolvingEgress], of 2 AwaitingUserAction], of 3 ExchangingMaterial], of 4 VerifyingAccount], of 5 Deduplicating],
      of 6 ProvisioningIdentity], of 7 ConfiguringReauth], of 8 ActivationCheck], of 9 EnrollSucceeded]
    by (simp add: sample_enrollment_def valid_enrollment_transition_def)
  then show ?thesis by (simp add: sample_path_def)
qed

theorem enrollment_success_path_witness:
  "\<exists>e'. enrollment_run sample_enrollment sample_path e' \<and> en_state e' = EnrollSucceeded \<and>
     sample_path ! 3 = VerifyingAccount \<and> sample_path ! 5 = ProvisioningIdentity"
proof -
  have "en_state sample_enrollment = Created" "en_mode sample_enrollment = EnrollCreate" by (simp_all add: sample_enrollment_def)
  with enrollment_success_path [OF sample_enrollment_run]
  obtain i where P: "sample_path = [ResolvingEgress, AwaitingUserAction, ExchangingMaterial, VerifyingAccount, Deduplicating,
      i, ConfiguringReauth, ActivationCheck, EnrollSucceeded]" "i = ProvisioningIdentity" by auto
  have "sample_path ! 3 = VerifyingAccount \<and> sample_path ! 5 = ProvisioningIdentity" unfolding P by simp
  with sample_enrollment_run show ?thesis by force
qed

theorem enrollment_terminates_witness:
  "length sample_path \<le> 9 \<and>
   fst (enrollment_transition EnrollFailed NoNextAction (sample_enrollment\<lparr>en_state := EnrollSucceeded,
     next_action := NoNextAction, en_revision := 10\<rparr>)) = Inl TerminalState"
  using enrollment_terminates [OF sample_enrollment_run, of EnrollFailed NoNextAction]
  by (simp add: sample_enrollment_def enrollment_is_terminal_def)

subsection \<open>Maintenance\<close>

inductive maintenance_run :: "MaintenanceOperation \<Rightarrow> MaintenanceState list \<Rightarrow> MaintenanceOperation \<Rightarrow> bool" where
  planned: "maintenance_run m [] m"
| moves: "maintenance_run m path m1 \<Longrightarrow> maintenance_transition st m1 = (Inr (), m2) \<Longrightarrow>
    maintenance_run m (path @ [st]) m2"

lemma maintenance_transition_Inr:
  "maintenance_transition st m = (Inr (), m') \<Longrightarrow>
   \<not> maintenance_is_terminal m \<and> valid_maintenance_transition (mo_state m) st \<and> m' = m\<lparr>mo_state := st\<rparr>"
  by (auto simp: maintenance_transition_def split: if_splits)

lemma maintenance_run_suffix:
  "maintenance_run m path m' \<Longrightarrow> mo_state m = Planned \<Longrightarrow>
   (mo_state m' = Leased \<longrightarrow> path \<noteq> [] \<and> last path = Leased) \<and>
   (mo_state m' = Running \<longrightarrow> (\<exists>p. path = p @ [Leased, Running])) \<and>
   (mo_state m' = MaintVerifyingAccount \<longrightarrow> (\<exists>p. path = p @ [Leased, Running, MaintVerifyingAccount])) \<and>
   (mo_state m' = Committing \<longrightarrow> (\<exists>p. path = p @ [Leased, Running, MaintVerifyingAccount, Committing])) \<and>
   (mo_state m' = MaintSucceeded \<longrightarrow> (\<exists>p. path = p @ [Leased, Running, MaintVerifyingAccount, Committing, MaintSucceeded]))"
proof (induction rule: maintenance_run.induct)
  case (moves m path m1 st m2)
  note T = maintenance_transition_Inr [OF moves.hyps(2)]
  have last: "\<exists>p. path = p @ [Leased]" if "mo_state m1 = Leased"
    using that moves.IH moves.prems by (metis append_butlast_last_id)
  show ?case
    using T moves.IH [OF moves.prems] last
    by (cases "mo_state m1"; cases st) (auto simp: valid_maintenance_transition_def maintenance_is_terminal_def)
qed simp

text \<open>A maintenance operation commits new material only after it verified the account in the same lease: every
  run from planning to success ends with a lease, the work, the account verification, the commit and
  the success, in this order with nothing in between.\<close>

theorem maintenance_success_verified:
  assumes "maintenance_run m path m'" and "mo_state m = Planned" and "mo_state m' = MaintSucceeded"
  shows "\<exists>p. path = p @ [Leased, Running, MaintVerifyingAccount, Committing, MaintSucceeded]"
  using maintenance_run_suffix [OF assms(1,2)] assms(3) by simp

lemma maintenance_terminal: "maintenance_is_terminal m \<Longrightarrow> maintenance_transition st m = (Inl TerminalState, m)"
  by (simp add: maintenance_transition_def)

definition sample_maintenance :: MaintenanceOperation where
  "sample_maintenance = \<lparr>mo_id = TypedId ''m'', mo_credential_id = TypedId ''c'', mo_kind = RefreshKind, trigger = Scheduled,
     conflict_class = AuthMaterialWrite, mo_state = Planned, expected_revision = 1, expected_token_version = 1,
     expected_egress = \<lparr>binding_id = TypedId ''b'', eb_mode = ModeDirect, eb_proxy_id = None, eb_egress_epoch = 1\<rparr>,
     mo_generation = 1, mo_attempt_count = 0\<rparr>"

theorem maintenance_success_verified_witness:
  "\<exists>path p. path = [Leased, Running, WaitingBackoff, Leased, Running, MaintVerifyingAccount, Committing, MaintSucceeded] \<and>
     maintenance_run sample_maintenance path (sample_maintenance\<lparr>mo_state := MaintSucceeded\<rparr>) \<and>
     path = p @ [Leased, Running, MaintVerifyingAccount, Committing, MaintSucceeded]"
proof -
  have step: "maintenance_run m (path @ [st]) (m1\<lparr>mo_state := st\<rparr>)"
    if "maintenance_run m path m1" "\<not> maintenance_is_terminal m1" "valid_maintenance_transition (mo_state m1) st" for m path m1 st
    by (rule maintenance_run.moves [OF that(1)]) (use that in \<open>simp add: maintenance_transition_def\<close>)
  have R: "maintenance_run sample_maintenance [Leased, Running, WaitingBackoff, Leased, Running, MaintVerifyingAccount, Committing, MaintSucceeded]
      (sample_maintenance\<lparr>mo_state := MaintSucceeded\<rparr>)"
    using step [OF step [OF step [OF step [OF step [OF step [OF step [OF step [OF planned [of sample_maintenance], of Leased], of Running],
      of WaitingBackoff], of Leased], of Running], of MaintVerifyingAccount], of Committing], of MaintSucceeded]
    by (simp add: sample_maintenance_def maintenance_is_terminal_def valid_maintenance_transition_def)
  with maintenance_success_verified [OF R] show ?thesis by (simp add: sample_maintenance_def)
qed

subsection \<open>Refresh\<close>

lemma clamp_in_range: "lo \<le> hi \<Longrightarrow> \<exists>y. clamp x lo hi = Some y \<and> lo \<le> y \<and> y \<le> hi"
  by (auto simp: clamp_def)

text \<open>The refresh instant is always computed, without panic, and is sane: it never falls after the expiry, never
  earlier than the maximum guard before it, and without jitter at least the minimum guard before it.\<close>

theorem refresh_after_bounds:
  assumes "lifetime \<le> DURATION_MAX"
  shows "\<exists>r. refresh_after p lifetime jitter = Some r \<and>
    (\<forall>t. r = Inr t \<longrightarrow> t \<le> lifetime \<and> lifetime \<le> t + maximum_guard p \<and>
       (jitter = 0 \<longrightarrow> min (minimum_guard p) lifetime \<le> lifetime - t))"
proof (cases "10000 < guard_ratio_basis_points p \<or> maximum_guard p < minimum_guard p \<or> maximum_jitter p < jitter \<or>
    DURATION_MAX < lifetime * unat (guard_ratio_basis_points p)")
  case True
  then show ?thesis by (auto simp: refresh_after_def Let_def)
next
  case False
  let ?x = "lifetime * unat (guard_ratio_basis_points p) div 10000"
  have "min (minimum_guard p) lifetime \<le> min (maximum_guard p) lifetime" using False by auto
  from clamp_in_range [OF this, of ?x] obtain y where
    y: "clamp ?x (min (minimum_guard p) lifetime) (min (maximum_guard p) lifetime) = Some y"
      "min (minimum_guard p) lifetime \<le> y" "y \<le> min (maximum_guard p) lifetime" by blast
  then have r: "refresh_after p lifetime jitter = Some (Inr (min (min (lifetime - y + jitter) DURATION_MAX) lifetime))"
    using False by (auto simp: refresh_after_def Let_def dur_saturating_add_def dur_saturating_sub_def)
  show ?thesis
    unfolding r using y assms by (intro exI conjI refl allI impI) (auto simp: min_def split: if_splits)
qed

theorem refresh_after_bounds_witness:
  "refresh_after RefreshPolicy_default (from_hours 1) 0 = Some (Inr (from_mins 54)) \<and> from_mins 54 \<le> from_hours 1"
proof -
  have r: "refresh_after RefreshPolicy_default (from_hours 1) 0 = Some (Inr (from_mins 54))"
    by (simp add: refresh_after_def RefreshPolicy_default_def from_hours_def from_mins_def from_secs_def clamp_def
        DURATION_MAX_def dur_saturating_add_def dur_saturating_sub_def)
  have "from_hours 1 \<le> DURATION_MAX" by (simp add: from_hours_def from_mins_def from_secs_def DURATION_MAX_def)
  from refresh_after_bounds [OF this, of RefreshPolicy_default 0] r show ?thesis by auto
qed

end
