(* ===== verification/Transport_Types.thy ===== *)
theory Transport_Types
  imports Domain_Types
begin

text \<open>
  The values of \<^verbatim>\<open>gateway-transport\<close> that its components share: the classified failure of
  \<^verbatim>\<open>error.rs\<close>, the publication generation of \<^verbatim>\<open>engine.rs\<close>, and the upstream request and proxy
  route of \<^verbatim>\<open>gateway-domain/transport.rs\<close>.
\<close>

subsection \<open>Classified failures\<close>

datatype TransportPhase =
    PhaseBundle | PhasePool | PhaseResolve | PhaseTcpConnect | PhaseProxyTunnel | PhaseTlsHandshake
  | PhaseAlpn | PhaseRequestUpload | PhaseResponseHeaders | PhaseResponseBody | PhaseCancel

datatype AttributionDomain =
    Resolver | DirectEgress | ProxyDomain | BundleRuntime | AnthropicIncident | LocalRuntime | Cancellation

datatype FailureScope = ScopeAttempt | ScopeConnection | ScopeEgress | ScopeBundle | ScopeCore

datatype RetrySafety = SafeBeforeSubmission | CommitUnknown | UnsafeSubmitted

datatype ConnectionDisposition = Reusable | Evict | ResetStream | DrainConnection | CloseConnection

datatype HealthEffect = NoEffect | TransientFailure | QuarantineEgress | QuarantineBundle | SuccessfulProbe

datatype TransportErrorCode =
    EngineUnavailable | BundleRejected | ResolverFailure | TcpConnectFailure | ProxyAuthentication
  | ProxyProtocol | TlsCertificate | TlsHandshakeFailure | AlpnMismatch | CipherMismatch | H1FramingError
  | H2Protocol | TimeoutError | CancelledError | CancelGraceExpired | InternalInvariant

record TransportError =
  te_code :: TransportErrorCode
  te_phase :: TransportPhase
  attribution_domain :: AttributionDomain
  failure_scope :: FailureScope
  retry_safety :: RetrySafety
  upstream_request_bytes_written :: u64
  te_submission_complete :: bool
  te_disposition :: ConnectionDisposition
  health_effect :: HealthEffect
  diagnostic :: string

definition engine_unavailable :: "string \<Rightarrow> TransportError" where
  "engine_unavailable d =
     \<lparr>te_code = EngineUnavailable, te_phase = PhaseBundle, attribution_domain = BundleRuntime,
      failure_scope = ScopeBundle, retry_safety = SafeBeforeSubmission,
      upstream_request_bytes_written = 0, te_submission_complete = False, te_disposition = Evict,
      health_effect = NoEffect, diagnostic = d\<rparr>"

subsection \<open>Publication generations\<close>

datatype ActivationGeneration = ActivationGeneration (generation_get: u64)

instantiation ActivationGeneration :: linorder
begin

definition less_eq_ActivationGeneration :: "ActivationGeneration \<Rightarrow> ActivationGeneration \<Rightarrow> bool" where
  "less_eq_ActivationGeneration a b \<longleftrightarrow> generation_get a \<le> generation_get b"

definition less_ActivationGeneration :: "ActivationGeneration \<Rightarrow> ActivationGeneration \<Rightarrow> bool" where
  "less_ActivationGeneration a b \<longleftrightarrow> generation_get a < generation_get b"

instance
  by standard
    (auto simp: less_eq_ActivationGeneration_def less_ActivationGeneration_def ActivationGeneration.expand)

end

definition INITIAL_generation :: ActivationGeneration where
  "INITIAL_generation = ActivationGeneration 1"

subsection \<open>Protocols, upstream requests and proxy routes\<close>

datatype HttpProtocol = H1 | H2

instantiation HttpProtocol :: linorder
begin

definition less_eq_HttpProtocol :: "HttpProtocol \<Rightarrow> HttpProtocol \<Rightarrow> bool" where
  "less_eq_HttpProtocol a b \<longleftrightarrow> a = H1 \<or> b = H2"

definition less_HttpProtocol :: "HttpProtocol \<Rightarrow> HttpProtocol \<Rightarrow> bool" where
  "less_HttpProtocol a b \<longleftrightarrow> a = H1 \<and> b = H2"

instance
proof
  fix x y z :: HttpProtocol
  show "(x < y) = (x \<le> y \<and> \<not> y \<le> x)" and "x \<le> x" and "x \<le> y \<or> y \<le> x"
    by (cases x; cases y; simp add: less_eq_HttpProtocol_def less_HttpProtocol_def)+
  show "x \<le> z" if "x \<le> y" "y \<le> z"
    using that by (auto simp: less_eq_HttpProtocol_def)
  show "x = y" if "x \<le> y" "y \<le> x"
    using that by (auto simp: less_eq_HttpProtocol_def)
qed

end

datatype AttemptPlanTag = AttemptPlanTag
datatype ConnectionAttemptTag = ConnectionAttemptTag

type_synonym AttemptPlanId = "AttemptPlanTag TypedId"
type_synonym ConnectionAttemptId = "ConnectionAttemptTag TypedId"

text \<open>A header value is a byte string; a \<^verbatim>\<open>str\<close> and a byte string are both \<^typ>\<open>string\<close> here.\<close>

record UpstreamHeader =
  header_name :: string
  header_value :: string

record FinalUpstreamRequest =
  req_method :: string
  req_scheme :: string
  req_authority :: string
  path_and_query :: string
  req_headers :: "UpstreamHeader list"
  req_body :: string
  req_stream :: bool

datatype Socks5DnsMode = DnsLocal | DnsRemote

record ProxyCredentials =
  pc_username :: string
  pc_password :: string

datatype ProxyHop =
    HopHttpConnect (hop_host: string) (hop_port: u16) (hop_credentials: "ProxyCredentials option")
  | HopHttpsConnect (hop_host: string) (hop_port: u16) (hop_credentials: "ProxyCredentials option")
  | HopSocks5 (hop_host: string) (hop_port: u16) (hop_dns: Socks5DnsMode)
      (hop_credentials: "ProxyCredentials option")

definition ProxyHop_from_row ::
  "string \<Rightarrow> string \<Rightarrow> u16 \<Rightarrow> ProxyCredentials option \<Rightarrow> ProxyHop option" where
  "ProxyHop_from_row proxy_type_code host port credentials =
     (if proxy_type_code = ''http_connect'' then Some (HopHttpConnect host port credentials)
      else if proxy_type_code = ''https_connect'' then Some (HopHttpsConnect host port credentials)
      else if proxy_type_code = ''socks5'' then Some (HopSocks5 host port DnsRemote credentials)
      else None)"

fun hop_endpoint :: "ProxyHop \<Rightarrow> string \<times> u16" where
  "hop_endpoint (HopHttpConnect host port _) = (host, port)"
| "hop_endpoint (HopHttpsConnect host port _) = (host, port)"
| "hop_endpoint (HopSocks5 host port _ _) = (host, port)"

datatype EgressRouteSnapshot =
    RouteDirect
  | RouteHttpConnect string u16 "ProxyCredentials option"
  | RouteHttpsConnect string u16 "ProxyCredentials option"
  | RouteSocks5 string u16 Socks5DnsMode "ProxyCredentials option"
  | RouteWithRelay ProxyHop ProxyHop

definition from_proxy_row ::
  "string \<Rightarrow> string \<Rightarrow> u16 \<Rightarrow> ProxyCredentials option \<Rightarrow> EgressRouteSnapshot option" where
  "from_proxy_row proxy_type_code host port credentials =
     (if proxy_type_code = ''http_connect'' then Some (RouteHttpConnect host port credentials)
      else if proxy_type_code = ''https_connect'' then Some (RouteHttpsConnect host port credentials)
      else if proxy_type_code = ''socks5'' then Some (RouteSocks5 host port DnsRemote credentials)
      else None)"

fun from_hops :: "ProxyHop \<Rightarrow> ProxyHop option \<Rightarrow> EgressRouteSnapshot" where
  "from_hops (HopHttpConnect host port credentials) None = RouteHttpConnect host port credentials"
| "from_hops (HopHttpsConnect host port credentials) None = RouteHttpsConnect host port credentials"
| "from_hops (HopSocks5 host port dns credentials) None = RouteSocks5 host port dns credentials"
| "from_hops primary (Some relay) = RouteWithRelay primary relay"

fun is_proxied :: "EgressRouteSnapshot \<Rightarrow> bool" where
  "is_proxied RouteDirect = False"
| "is_proxied _ = True"

text \<open>The two readings of a proxy row agree: a route without a relay is the route of its only hop.\<close>

lemma from_proxy_row_via_hop:
  "from_proxy_row c h p cr = map_option (\<lambda>hop. from_hops hop None) (ProxyHop_from_row c h p cr)"
  by (simp add: from_proxy_row_def ProxyHop_from_row_def)

lemma from_hops_proxied: "is_proxied (from_hops primary relay)"
  by (cases primary; cases relay) simp_all

lemma from_row_endpoint: "ProxyHop_from_row c h p cr = Some hop \<Longrightarrow> hop_endpoint hop = (h, p)"
  by (auto simp: ProxyHop_from_row_def split: if_splits)

end
