(* ===== verification/Connection_Pool.thy ===== *)
theory Connection_Pool
  imports Transport_Types
begin

text \<open>
  The credential-isolated connection pool of \<^verbatim>\<open>gateway-transport/pool.rs\<close>. A shard is addressed by
  the nine fields of a \<open>PoolKey\<close> and the publication generation; the catalog keeps a stack of
  idle resources per shard, the smallest usable profile epoch of each credential and the
  generation up to which everything is retired. The mutex that guards the state is a flag: a
  poisoned lock fails, and every operation then answers without touching the state.
\<close>

subsection \<open>Keys\<close>

datatype PoolKey =
  PoolKey (pk_credential_id: CredentialId) (pk_profile_epoch: u64) (pk_bundle_id: TransportBundleId)
    (pk_bundle_version: u64) (pk_egress_binding_id: EgressBindingId) (pk_egress_epoch: u64)
    (pk_authority: string) (pk_sni: string) (pk_protocol: HttpProtocol)

datatype PoolShardKey = PoolShardKey (sk_pool: PoolKey) (sk_generation: ActivationGeneration)

text \<open>The derived order compares the fields in their order of declaration.\<close>

fun shard_key_fields ::
  "PoolShardKey \<Rightarrow> CredentialId \<times> u64 \<times> TransportBundleId \<times> u64 \<times> EgressBindingId \<times> u64 \<times> string \<times> string \<times>
     HttpProtocol \<times> ActivationGeneration" where
  "shard_key_fields (PoolShardKey (PoolKey c pe b bv eg ee a s p) g) = (c, pe, b, bv, eg, ee, a, s, p, g)"

lemma shard_key_fields_inj: "shard_key_fields x = shard_key_fields y \<Longrightarrow> x = y"
  by (cases x rule: shard_key_fields.cases; cases y rule: shard_key_fields.cases) simp

instantiation PoolShardKey :: linorder
begin

definition less_eq_PoolShardKey :: "PoolShardKey \<Rightarrow> PoolShardKey \<Rightarrow> bool" where
  "less_eq_PoolShardKey x y \<longleftrightarrow> shard_key_fields x \<le> shard_key_fields y"

definition less_PoolShardKey :: "PoolShardKey \<Rightarrow> PoolShardKey \<Rightarrow> bool" where
  "less_PoolShardKey x y \<longleftrightarrow> shard_key_fields x < shard_key_fields y"

instance
  by standard
    (auto simp: less_eq_PoolShardKey_def less_PoolShardKey_def simp del: shard_key_fields.simps
      intro: shard_key_fields_inj)

end

subsection \<open>The catalog\<close>

record 'r PoolEntry =
  pe_resource :: 'r
  pe_generation :: ActivationGeneration

record 'r PoolState =
  shards :: "(PoolShardKey, 'r PoolEntry list) btree"
  minimum_profile_epochs :: "(CredentialId, u64) btree"
  retired_through :: "ActivationGeneration option"

record 'r ConnectionPoolCatalog =
  cat_state :: "'r PoolState"
  cat_poisoned :: bool

definition pool_new :: "'r ConnectionPoolCatalog" where
  "pool_new = \<lparr>cat_state = \<lparr>shards = [], minimum_profile_epochs = [], retired_through = None\<rparr>,
     cat_poisoned = False\<rparr>"

subsection \<open>Operations\<close>

definition checkin ::
  "PoolShardKey \<Rightarrow> 'r PoolEntry \<Rightarrow> 'r ConnectionPoolCatalog \<Rightarrow>
   ('r PoolEntry, unit) result \<times> 'r ConnectionPoolCatalog" where
  "checkin key entry c =
     (if pe_generation entry \<noteq> sk_generation key then (Inl entry, c)
      else if cat_poisoned c then (Inl entry, c)
      else let s = cat_state c in
        if is_some_and (retired_through s) (\<lambda>retired. sk_generation key \<le> retired) then (Inl entry, c)
        else if is_some_and (bt_get (minimum_profile_epochs s) (pk_credential_id (sk_pool key)))
                  (\<lambda>minimum. pk_profile_epoch (sk_pool key) < minimum)
        then (Inl entry, c)
        else (Inr (), c\<lparr>cat_state := s\<lparr>shards :=
               bt_insert key (unwrap_or (bt_get (shards s) key) [] @ [entry]) (shards s)\<rparr>\<rparr>))"

definition checkout ::
  "PoolShardKey \<Rightarrow> 'r ConnectionPoolCatalog \<Rightarrow> 'r PoolEntry option \<times> 'r ConnectionPoolCatalog" where
  "checkout key c =
     (if cat_poisoned c then (None, c)
      else let s = cat_state c;
             (entry, sh) = (case bt_get (shards s) key of
                 None \<Rightarrow> (None, shards s)
               | Some v \<Rightarrow> if v = [] then (None, shards s)
                           else (Some (last v), bt_modify key butlast (shards s)));
             sh' = (if is_some_and (bt_get sh key) (\<lambda>v. v = []) then bt_remove key sh else sh)
           in (entry, c\<lparr>cat_state := s\<lparr>shards := sh'\<rparr>\<rparr>))"

definition drain_key ::
  "PoolShardKey \<Rightarrow> 'r ConnectionPoolCatalog \<Rightarrow> 'r PoolEntry list \<times> 'r ConnectionPoolCatalog" where
  "drain_key key c =
     (if cat_poisoned c then ([], c)
      else (unwrap_or (bt_get (shards (cat_state c)) key) [],
            c\<lparr>cat_state := (cat_state c)\<lparr>shards := bt_remove key (shards (cat_state c))\<rparr>\<rparr>))"

text \<open>The loop both drains share: the collected keys are removed one by one.\<close>

fun remove_shards ::
  "PoolShardKey list \<Rightarrow> (PoolShardKey, 'r PoolEntry list) btree \<Rightarrow> 'r PoolEntry list \<Rightarrow>
   'r PoolEntry list \<times> (PoolShardKey, 'r PoolEntry list) btree" where
  "remove_shards [] sh drained = (drained, sh)"
| "remove_shards (key # ks) sh drained =
     (case bt_get sh key of
        None \<Rightarrow> remove_shards ks sh drained
      | Some es \<Rightarrow> remove_shards ks (bt_remove key sh) (drained @ es))"

definition drain_generation ::
  "ActivationGeneration \<Rightarrow> 'r ConnectionPoolCatalog \<Rightarrow> 'r PoolEntry list \<times> 'r ConnectionPoolCatalog" where
  "drain_generation g c =
     (if cat_poisoned c then ([], c)
      else let s = cat_state c;
             through = Some (case retired_through s of None \<Rightarrow> g | Some retired \<Rightarrow> max retired g);
             retired = unwrap_or through g;
             ks = filter (\<lambda>key. sk_generation key \<le> retired) (map fst (shards s));
             (drained, sh) = remove_shards ks (shards s) []
           in (drained, c\<lparr>cat_state := s\<lparr>shards := sh, retired_through := through\<rparr>\<rparr>))"

definition advance_credential_profile_epoch ::
  "CredentialId \<Rightarrow> u64 \<Rightarrow> 'r ConnectionPoolCatalog \<Rightarrow> 'r PoolEntry list \<times> 'r ConnectionPoolCatalog" where
  "advance_credential_profile_epoch cid minimum_profile_epoch c =
     (if cat_poisoned c then ([], c)
      else let s = cat_state c;
             minimum = unwrap_or (bt_get (minimum_profile_epochs s) cid) minimum_profile_epoch;
             floor = max minimum minimum_profile_epoch;
             ks = filter (\<lambda>key. pk_credential_id (sk_pool key) = cid \<and> pk_profile_epoch (sk_pool key) < floor)
                    (map fst (shards s));
             (drained, sh) = remove_shards ks (shards s) []
           in (drained, c\<lparr>cat_state := s\<lparr>shards := sh,
                 minimum_profile_epochs := bt_insert cid floor (minimum_profile_epochs s)\<rparr>\<rparr>))"

definition resource_count :: "'r ConnectionPoolCatalog \<Rightarrow> nat" where
  "resource_count c =
     (if cat_poisoned c then 0 else sum_list (map (length \<circ> snd) (shards (cat_state c))))"

subsection \<open>What a catalog holds\<close>

text \<open>The specification of the catalog: a stack of resources per shard key.\<close>

definition stack_of :: "'r ConnectionPoolCatalog \<Rightarrow> PoolShardKey \<Rightarrow> 'r PoolEntry list" where
  "stack_of c key = unwrap_or (bt_get (shards (cat_state c)) key) []"

definition pooled :: "'r ConnectionPoolCatalog \<Rightarrow> 'r PoolEntry multiset" where
  "pooled c = mset (concat (map snd (shards (cat_state c))))"

definition is_retired :: "'r ConnectionPoolCatalog \<Rightarrow> PoolShardKey \<Rightarrow> bool" where
  "is_retired c key \<longleftrightarrow>
     is_some_and (retired_through (cat_state c)) (\<lambda>retired. sk_generation key \<le> retired) \<or>
     is_some_and (bt_get (minimum_profile_epochs (cat_state c)) (pk_credential_id (sk_pool key)))
       (\<lambda>minimum. pk_profile_epoch (sk_pool key) < minimum)"

definition pool_wf :: "'r ConnectionPoolCatalog \<Rightarrow> bool" where
  "pool_wf c \<longleftrightarrow>
     bt_wf (shards (cat_state c)) \<and> bt_wf (minimum_profile_epochs (cat_state c)) \<and>
     (\<forall>(key, es) \<in> set (shards (cat_state c)).
        es \<noteq> [] \<and> \<not> is_retired c key \<and> (\<forall>e \<in> set es. pe_generation e = sk_generation key))"

text \<open>A call of the catalog and its effect: the resources handed back and the new catalog. The last
  constructor is a panic of another holder of the lock.\<close>

datatype 'r PoolCall =
    Checkin PoolShardKey "'r PoolEntry"
  | Checkout PoolShardKey
  | DrainKey PoolShardKey
  | DrainGeneration ActivationGeneration
  | AdvanceEpoch CredentialId u64
  | PoisonLock

fun pool_call :: "'r PoolCall \<Rightarrow> 'r ConnectionPoolCatalog \<Rightarrow> 'r PoolEntry list \<times> 'r ConnectionPoolCatalog" where
  "pool_call (Checkin key entry) c =
     (case checkin key entry c of (Inl e, c') \<Rightarrow> ([e], c') | (Inr _, c') \<Rightarrow> ([], c'))"
| "pool_call (Checkout key) c =
     (case checkout key c of (None, c') \<Rightarrow> ([], c') | (Some e, c') \<Rightarrow> ([e], c'))"
| "pool_call (DrainKey key) c = drain_key key c"
| "pool_call (DrainGeneration g) c = drain_generation g c"
| "pool_call (AdvanceEpoch cid n) c = advance_credential_profile_epoch cid n c"
| "pool_call PoisonLock c = ([], c\<lparr>cat_poisoned := True\<rparr>)"

text \<open>Calls in the order in which they take the lock.\<close>

fun pool_run :: "'r PoolCall list \<Rightarrow> 'r ConnectionPoolCatalog \<Rightarrow> 'r PoolEntry list \<times> 'r ConnectionPoolCatalog" where
  "pool_run [] c = ([], c)"
| "pool_run (call # calls) c =
     (case pool_call call c of (out, c') \<Rightarrow> (case pool_run calls c' of (outs, c'') \<Rightarrow> (out @ outs, c'')))"

fun offered :: "'r PoolCall \<Rightarrow> 'r PoolEntry list" where
  "offered (Checkin _ entry) = [entry]"
| "offered _ = []"

definition pool_step :: "'r ConnectionPoolCatalog \<Rightarrow> 'r ConnectionPoolCatalog \<Rightarrow> bool" where
  "pool_step c c' \<longleftrightarrow> (\<exists>call. c' = snd (pool_call call c))"


text \<open>
  The specification the catalog implements: a stack of resources per shard and a growing set of
  retired shards. Retiring a shard empties its stack.
\<close>

fun pool_spec ::
  "'r PoolCall \<Rightarrow> (PoolShardKey \<Rightarrow> 'r PoolEntry list) \<times> (PoolShardKey \<Rightarrow> bool) \<Rightarrow>
   (PoolShardKey \<Rightarrow> 'r PoolEntry list) \<times> (PoolShardKey \<Rightarrow> bool)" where
  "pool_spec (Checkin k e) (S, R) =
     (if pe_generation e = sk_generation k \<and> \<not> R k then S(k := S k @ [e]) else S, R)"
| "pool_spec (Checkout k) (S, R) = (S(k := butlast (S k)), R)"
| "pool_spec (DrainKey k) (S, R) = (S(k := []), R)"
| "pool_spec (DrainGeneration g) (S, R) =
     (\<lambda>k. if sk_generation k \<le> g then [] else S k, \<lambda>k. R k \<or> sk_generation k \<le> g)"
| "pool_spec (AdvanceEpoch cid n) (S, R) =
     (let old = \<lambda>k. pk_credential_id (sk_pool k) = cid \<and> pk_profile_epoch (sk_pool k) < n
      in (\<lambda>k. if old k then [] else S k, \<lambda>k. R k \<or> old k))"
| "pool_spec PoisonLock (S, R) = (S, R)"

definition pool_abs ::
  "'r ConnectionPoolCatalog \<Rightarrow> (PoolShardKey \<Rightarrow> 'r PoolEntry list) \<times> (PoolShardKey \<Rightarrow> bool)" where
  "pool_abs c = (stack_of c, is_retired c)"

subsection \<open>Lemmas\<close>

lemma remove_shards_eq:
  "distinct ks \<Longrightarrow> remove_shards ks sh dr =
     (dr @ concat (map (\<lambda>k. unwrap_or (bt_get sh k) []) ks), filter (\<lambda>p. fst p \<notin> set ks) sh)"
proof (induction ks sh dr rule: remove_shards.induct)
  case (2 key ks sh dr)
  have other: "map (\<lambda>k. unwrap_or (bt_get (bt_remove key sh) k) []) ks = map (\<lambda>k. unwrap_or (bt_get sh k) []) ks"
    using 2(3) by (auto intro!: map_cong)
  show ?case
  proof (cases "bt_get sh key")
    case None
    then have "filter (\<lambda>p. fst p \<notin> set ks) sh = filter (\<lambda>p. fst p \<notin> set (key # ks)) sh"
      by (intro filter_cong) (auto simp: map_of_eq_None_iff image_iff)
    with None 2 show ?thesis by simp
  next
    case (Some es)
    with 2 have "remove_shards (key # ks) sh dr =
        ((dr @ es) @ concat (map (\<lambda>k. unwrap_or (bt_get (bt_remove key sh) k) []) ks),
         filter (\<lambda>p. fst p \<notin> set ks) (bt_remove key sh))"
      by simp
    with Some show ?thesis
      by (simp only: other) (simp add: bt_remove_def conj_commute)
  qed
qed simp

lemma remove_matching:
  assumes "bt_wf sh"
  shows "remove_shards (filter P (map fst sh)) sh [] =
     (concat (map snd (filter (P \<circ> fst) sh)), filter (\<lambda>p. \<not> P (fst p)) sh)"
proof -
  have "map (\<lambda>k. unwrap_or (bt_get sh k) []) (filter P (map fst sh)) = map snd (filter (P \<circ> fst) sh)"
    using assms by (auto simp: filter_map comp_def bt_wf_distinct intro!: map_cong)
  moreover have "filter (\<lambda>p. fst p \<notin> set (filter P (map fst sh))) sh = filter (\<lambda>p. \<not> P (fst p)) sh"
    by (intro filter_cong) auto
  ultimately show ?thesis
    using assms by (simp add: remove_shards_eq bt_wf_distinct)
qed

lemma bt_get_filter_keys:
  "bt_get (filter (\<lambda>p. P (fst p)) m) k = (if P k then bt_get m k else None)"
  by (induction m) auto

lemma mset_filter_split:
  "mset (concat (map f (filter P xs))) + mset (concat (map f (filter (\<lambda>x. \<not> P x) xs))) = mset (concat (map f xs))"
  by (induction xs) auto

text \<open>The resources of a map of shards: storing a shard replaces what its key held.\<close>

abbreviation shard_resources :: "('k, 'a list) btree \<Rightarrow> 'a multiset" where
  "shard_resources m \<equiv> mset (concat (map snd m))"

lemma shard_resources_insert:
  "bt_wf m \<Longrightarrow> shard_resources (bt_insert k v m) + mset (unwrap_or (bt_get m k) []) =
     mset v + shard_resources m"
proof (induction k v m rule: bt_insert.induct)
  case (2 k v a b m)
  have "bt_get m k = None" if "k \<le> a"
    using 2(2) that by (force simp: map_of_eq_None_iff)
  with 2 show ?case
    by (cases k a rule: linorder_cases) (auto simp: ac_simps)
qed simp

lemma shard_resources_remove:
  "bt_wf m \<Longrightarrow> mset (unwrap_or (bt_get m k) []) + shard_resources (bt_remove k m) = shard_resources m"
proof (induction m)
  case (Cons p m)
  have "bt_get m k = None" if "k = fst p"
    using Cons.prems that by (force simp: map_of_eq_None_iff)
  moreover have "bt_remove k (p # m) = (if fst p = k then bt_remove k m else p # bt_remove k m)"
    by (simp add: bt_remove_def)
  ultimately show ?case
    using Cons by (cases p) (auto simp: ac_simps)
qed (simp add: bt_remove_def)

lemma shard_resources_modify:
  "bt_wf m \<Longrightarrow> bt_get m k = Some v \<Longrightarrow>
   shard_resources (bt_modify k f m) + mset v = mset (f v) + shard_resources m"
  by (induction m) (auto simp: ac_simps split: if_splits)

subsection \<open>The operations on stacks\<close>

lemma pool_wf_iff:
  "pool_wf c \<longleftrightarrow>
     bt_wf (shards (cat_state c)) \<and> bt_wf (minimum_profile_epochs (cat_state c)) \<and>
     (\<forall>key es. bt_get (shards (cat_state c)) key = Some es \<longrightarrow>
        es \<noteq> [] \<and> \<not> is_retired c key \<and> (\<forall>e \<in> set es. pe_generation e = sk_generation key))"
proof (cases "bt_wf (shards (cat_state c))")
  case True
  then show ?thesis
    unfolding pool_wf_def bt_get_eq_Some [OF True] split_paired_all Ball_def split_paired_All by simp
qed (simp add: pool_wf_def)

lemma retired_stack_empty: "pool_wf c \<Longrightarrow> is_retired c key \<Longrightarrow> stack_of c key = []"
  by (cases "bt_get (shards (cat_state c)) key") (auto simp: pool_wf_iff stack_of_def)

text \<open>The watermarks after a drain.\<close>

definition generation_mark :: "ActivationGeneration \<Rightarrow> 'r ConnectionPoolCatalog \<Rightarrow> ActivationGeneration" where
  "generation_mark g c = (case retired_through (cat_state c) of None \<Rightarrow> g | Some r \<Rightarrow> max r g)"

definition epoch_mark :: "CredentialId \<Rightarrow> u64 \<Rightarrow> 'r ConnectionPoolCatalog \<Rightarrow> u64" where
  "epoch_mark cid n c =
     (case bt_get (minimum_profile_epochs (cat_state c)) cid of None \<Rightarrow> n | Some r \<Rightarrow> max r n)"

definition below_epoch :: "CredentialId \<Rightarrow> u64 \<Rightarrow> PoolShardKey \<Rightarrow> bool" where
  "below_epoch cid n key \<longleftrightarrow> pk_credential_id (sk_pool key) = cid \<and> pk_profile_epoch (sk_pool key) < n"

lemma poison_frame [simp]:
  "stack_of (c\<lparr>cat_poisoned := b\<rparr>) = stack_of c" "is_retired (c\<lparr>cat_poisoned := b\<rparr>) = is_retired c"
  "pooled (c\<lparr>cat_poisoned := b\<rparr>) = pooled c" "pool_wf (c\<lparr>cat_poisoned := b\<rparr>) = pool_wf c"
  by (auto simp: stack_of_def is_retired_def pooled_def pool_wf_def fun_eq_iff)

lemma checkin_eq:
  "checkin key e c =
     (if pe_generation e \<noteq> sk_generation key \<or> cat_poisoned c \<or> is_retired c key then (Inl e, c)
      else (Inr (), c\<lparr>cat_state := (cat_state c)\<lparr>shards :=
        bt_insert key (stack_of c key @ [e]) (shards (cat_state c))\<rparr>\<rparr>))"
  by (simp add: checkin_def Let_def is_retired_def stack_of_def)

lemma checkout_eq:
  assumes "pool_wf c" and "\<not> cat_poisoned c"
  shows "checkout key c =
     (if stack_of c key = [] then (None, c)
      else (Some (last (stack_of c key)), c\<lparr>cat_state := (cat_state c)\<lparr>shards :=
        if butlast (stack_of c key) = [] then bt_remove key (bt_modify key butlast (shards (cat_state c)))
        else bt_modify key butlast (shards (cat_state c))\<rparr>\<rparr>))"
proof (cases "bt_get (shards (cat_state c)) key")
  case None
  then show ?thesis using assms by (simp add: checkout_def stack_of_def)
next
  case (Some es)
  then have "es \<noteq> []" using assms(1) by (auto simp: pool_wf_iff)
  with Some assms(2) show ?thesis by (simp add: checkout_def stack_of_def Let_def)
qed

lemma drain_generation_eq:
  assumes "bt_wf (shards (cat_state c))" and "\<not> cat_poisoned c"
  shows "drain_generation g c =
     (concat (map snd (filter ((\<lambda>key. sk_generation key \<le> generation_mark g c) \<circ> fst) (shards (cat_state c)))),
      c\<lparr>cat_state := (cat_state c)\<lparr>
        shards := filter (\<lambda>p. \<not> sk_generation (fst p) \<le> generation_mark g c) (shards (cat_state c)),
        retired_through := Some (generation_mark g c)\<rparr>\<rparr>)"
  using assms by (simp add: drain_generation_def remove_matching Let_def generation_mark_def)

lemma advance_epoch_eq:
  assumes "bt_wf (shards (cat_state c))" and "\<not> cat_poisoned c"
  shows "advance_credential_profile_epoch cid n c =
     (concat (map snd (filter (below_epoch cid (epoch_mark cid n c) \<circ> fst) (shards (cat_state c)))),
      c\<lparr>cat_state := (cat_state c)\<lparr>
        shards := filter (\<lambda>p. \<not> below_epoch cid (epoch_mark cid n c) (fst p)) (shards (cat_state c)),
        minimum_profile_epochs := bt_insert cid (epoch_mark cid n c) (minimum_profile_epochs (cat_state c))\<rparr>\<rparr>)"
  using assms
  by (simp add: advance_credential_profile_epoch_def remove_matching Let_def epoch_mark_def below_epoch_def
      comp_def split: option.splits)

lemma is_retired_shards [simp]:
  "is_retired (c\<lparr>cat_state := (cat_state c)\<lparr>shards := sh\<rparr>\<rparr>) = is_retired c"
  by (simp add: is_retired_def fun_eq_iff)

lemma is_retired_generation:
  "is_retired (c\<lparr>cat_state := (cat_state c)\<lparr>shards := sh, retired_through := Some (generation_mark g c)\<rparr>\<rparr>) key \<longleftrightarrow>
   is_retired c key \<or> sk_generation key \<le> g"
  by (auto simp: is_retired_def generation_mark_def le_max_iff_disj split: option.splits)

lemma is_retired_epoch:
  "is_retired (c\<lparr>cat_state := (cat_state c)\<lparr>shards := sh, minimum_profile_epochs :=
     bt_insert cid (epoch_mark cid n c) (minimum_profile_epochs (cat_state c))\<rparr>\<rparr>) key \<longleftrightarrow>
   is_retired c key \<or> below_epoch cid n key"
  by (auto simp: is_retired_def epoch_mark_def below_epoch_def less_max_iff_disj split: option.splits)

lemma le_generation_mark: "sk_generation k \<le> generation_mark g c \<longleftrightarrow>
    sk_generation k \<le> g \<or> is_some_and (retired_through (cat_state c)) (\<lambda>r. sk_generation k \<le> r)"
  by (auto simp: generation_mark_def le_max_iff_disj split: option.splits)

lemma below_epoch_mark: "below_epoch cid (epoch_mark cid n c) k \<longleftrightarrow>
    below_epoch cid n k \<or> (pk_credential_id (sk_pool k) = cid \<and>
      is_some_and (bt_get (minimum_profile_epochs (cat_state c)) cid) (\<lambda>r. pk_profile_epoch (sk_pool k) < r))"
  by (auto simp: epoch_mark_def below_epoch_def less_max_iff_disj split: option.splits)

lemmas marked_empty =
  retired_stack_empty [unfolded is_retired_def stack_of_def]

text \<open>The refinement, one call at a time.\<close>

lemma checkin_refines:
  "\<not> cat_poisoned c \<Longrightarrow> pool_abs (snd (checkin k e c)) = pool_spec (Checkin k e) (pool_abs c)"
  by (auto simp: pool_abs_def checkin_eq stack_of_def fun_eq_iff)

lemma checkout_refines:
  "pool_wf c \<Longrightarrow> \<not> cat_poisoned c \<Longrightarrow>
   pool_abs (snd (checkout k c)) = pool_spec (Checkout k) (pool_abs c)"
  by (auto simp: pool_abs_def checkout_eq stack_of_def fun_eq_iff split: option.splits)

lemma drain_key_refines:
  "\<not> cat_poisoned c \<Longrightarrow> pool_abs (snd (drain_key k c)) = pool_spec (DrainKey k) (pool_abs c)"
  by (auto simp: pool_abs_def drain_key_def stack_of_def fun_eq_iff)

lemma drain_generation_refines:
  assumes "pool_wf c" "\<not> cat_poisoned c"
  shows "pool_abs (snd (drain_generation g c)) = pool_spec (DrainGeneration g) (pool_abs c)"
proof -
  have sh: "shards (cat_state (snd (drain_generation g c))) =
      filter (\<lambda>p. \<not> sk_generation (fst p) \<le> generation_mark g c) (shards (cat_state c))"
    using assms by (simp add: pool_wf_def drain_generation_eq)
  have "stack_of (snd (drain_generation g c)) k = (if sk_generation k \<le> g then [] else stack_of c k)" for k
    using marked_empty [OF assms(1), of k]
    unfolding stack_of_def sh bt_get_filter_keys [where P = "\<lambda>k. \<not> sk_generation k \<le> generation_mark g c"]
    by (auto simp: le_generation_mark)
  moreover have "is_retired (snd (drain_generation g c)) k \<longleftrightarrow> is_retired c k \<or> sk_generation k \<le> g" for k
    using assms by (simp add: pool_wf_def drain_generation_eq is_retired_generation)
  ultimately show ?thesis by (simp add: pool_abs_def fun_eq_iff)
qed

lemma advance_epoch_refines:
  assumes "pool_wf c" "\<not> cat_poisoned c"
  shows "pool_abs (snd (advance_credential_profile_epoch cid n c)) = pool_spec (AdvanceEpoch cid n) (pool_abs c)"
proof -
  have sh: "shards (cat_state (snd (advance_credential_profile_epoch cid n c))) =
      filter (\<lambda>p. \<not> below_epoch cid (epoch_mark cid n c) (fst p)) (shards (cat_state c))"
    using assms by (simp add: pool_wf_def advance_epoch_eq)
  have "stack_of (snd (advance_credential_profile_epoch cid n c)) k =
      (if below_epoch cid n k then [] else stack_of c k)" for k
    using marked_empty [OF assms(1), of k]
    unfolding stack_of_def sh bt_get_filter_keys [where P = "\<lambda>k. \<not> below_epoch cid (epoch_mark cid n c) k"]
    by (auto simp: below_epoch_mark)
  moreover have "is_retired (snd (advance_credential_profile_epoch cid n c)) k \<longleftrightarrow>
      is_retired c k \<or> below_epoch cid n k" for k
    using assms by (simp add: pool_wf_def advance_epoch_eq is_retired_epoch)
  ultimately show ?thesis by (simp add: pool_abs_def fun_eq_iff Let_def below_epoch_def)
qed


lemma pool_call_poisoned:
  "cat_poisoned c \<Longrightarrow> snd (pool_call call c) = c \<and> fst (pool_call call c) = offered call"
  by (cases call)
    (simp_all add: checkin_def checkout_def drain_key_def drain_generation_def
      advance_credential_profile_epoch_def)

lemma pool_call_refines:
  assumes "pool_wf c" "\<not> cat_poisoned c"
  shows "pool_abs (snd (pool_call call c)) = pool_spec call (pool_abs c)"
proof (cases call)
  case (Checkin k e)
  then show ?thesis
    using checkin_refines [OF assms(2), of k e] by (auto split: prod.splits sum.splits)
next
  case (Checkout k)
  then show ?thesis
    using checkout_refines [OF assms, of k] by (auto split: prod.splits option.splits)
next
  case PoisonLock
  then show ?thesis by (simp add: pool_abs_def)
qed (use assms in \<open>simp_all add: drain_key_refines drain_generation_refines advance_epoch_refines\<close>)

subsection \<open>The invariant\<close>

lemma pool_wfI:
  assumes "bt_wf (shards (cat_state c))" "bt_wf (minimum_profile_epochs (cat_state c))"
    and "\<And>key. bt_get (shards (cat_state c)) key \<noteq> Some []"
    and "\<And>key e. e \<in> set (stack_of c key) \<Longrightarrow> \<not> is_retired c key \<and> pe_generation e = sk_generation key"
  shows "pool_wf c"
  unfolding pool_wf_iff
proof (intro conjI allI impI)
  fix key es
  assume es: "bt_get (shards (cat_state c)) key = Some es"
  then show "es \<noteq> []" using assms(3) by auto
  then obtain e where "e \<in> set es" by (cases es) auto
  then show "\<not> is_retired c key" using assms(4) [of e key] es by (simp add: stack_of_def)
  show "\<forall>e \<in> set es. pe_generation e = sk_generation key"
    using assms(4) es by (simp add: stack_of_def)
qed (use assms in auto)

lemma pool_wf_entry:
  "pool_wf c \<Longrightarrow> e \<in> set (stack_of c key) \<Longrightarrow> \<not> is_retired c key \<and> pe_generation e = sk_generation key"
  by (cases "bt_get (shards (cat_state c)) key") (auto simp: pool_wf_iff stack_of_def)

lemma pool_wf_new: "pool_wf pool_new"
  by (simp add: pool_wf_def pool_new_def)

lemma pool_spec_entry:
  assumes "\<And>k e. e \<in> set (S k) \<Longrightarrow> \<not> R k \<and> pe_generation e = sk_generation k"
    and "pool_spec call (S, R) = (S', R')" and "e \<in> set (S' k)"
  shows "\<not> R' k \<and> pe_generation e = sk_generation k"
  using assms by (cases call) (auto simp: Let_def split: if_splits dest!: in_set_butlastD)

lemma pool_call_shape:
  assumes "pool_wf c"
  shows "bt_wf (shards (cat_state (snd (pool_call call c))))"
    and "bt_wf (minimum_profile_epochs (cat_state (snd (pool_call call c))))"
    and "bt_get (shards (cat_state (snd (pool_call call c)))) key \<noteq> Some []"
proof -
  have wf: "bt_wf (shards (cat_state c))" "bt_wf (minimum_profile_epochs (cat_state c))"
    "\<And>k. bt_get (shards (cat_state c)) k \<noteq> Some []"
    using assms by (auto simp: pool_wf_iff)
  have "bt_wf (shards (cat_state (snd (pool_call call c)))) \<and>
    bt_wf (minimum_profile_epochs (cat_state (snd (pool_call call c)))) \<and>
    (\<forall>key. bt_get (shards (cat_state (snd (pool_call call c)))) key \<noteq> Some [])"
  proof (cases "cat_poisoned c")
    case True
    then show ?thesis using wf by (simp add: pool_call_poisoned)
  next
    case False
    show ?thesis
    proof (cases call)
      case (DrainGeneration g)
      then show ?thesis
        using wf False by (simp add: drain_generation_eq
          bt_get_filter_keys [where P = "\<lambda>k. \<not> sk_generation k \<le> generation_mark g c"])
    next
      case (AdvanceEpoch cid n)
      then show ?thesis
        using wf False by (simp add: advance_epoch_eq
          bt_get_filter_keys [where P = "\<lambda>k. \<not> below_epoch cid (epoch_mark cid n c) k"])
    qed (use wf False assms in \<open>auto simp: checkin_eq checkout_eq drain_key_def stack_of_def\<close>)
  qed
  then show "bt_wf (shards (cat_state (snd (pool_call call c))))"
    "bt_wf (minimum_profile_epochs (cat_state (snd (pool_call call c))))"
    "bt_get (shards (cat_state (snd (pool_call call c)))) key \<noteq> Some []" by blast+
qed

lemma pool_call_wf:
  assumes "pool_wf c"
  shows "pool_wf (snd (pool_call call c))"
proof (cases "cat_poisoned c")
  case True
  then show ?thesis using assms by (simp add: pool_call_poisoned)
next
  case False
  let ?c' = "snd (pool_call call c)"
  have "pool_spec call (stack_of c, is_retired c) = (stack_of ?c', is_retired ?c')"
    using pool_call_refines [OF assms False, of call] by (simp add: pool_abs_def)
  from pool_spec_entry [OF pool_wf_entry [OF assms] this]
  show ?thesis
    by (intro pool_wfI pool_call_shape assms) auto
qed

interpretation pool: invariant_system "\<lambda>c. c = pool_new" pool_step pool_wf
  by unfold_locales (auto simp: pool_step_def pool_wf_new pool_call_wf)


lemma snd_pool_run_Cons: "snd (pool_run (x # xs) c) = snd (pool_run xs (snd (pool_call x c)))"
  by (simp split: prod.splits)

lemma pool_run_wf: "pool_wf c \<Longrightarrow> pool_wf (snd (pool_run calls c))"
proof (induction calls arbitrary: c)
  case (Cons call calls)
  from Cons.IH [OF pool_call_wf [OF Cons.prems, of call]] show ?case
    by (simp add: snd_pool_run_Cons del: pool_run.simps)
qed simp

lemma snd_pool_run_append:
  "snd (pool_run (xs @ ys) c) = snd (pool_run ys (snd (pool_run xs c)))"
  by (induction xs arbitrary: c) (simp_all split: prod.splits, metis snd_conv)

subsection \<open>Isolation\<close>

lemma pool_spec_grows:
  assumes "pool_spec call (S, R) = (S', R')"
  shows "e \<in> set (S' k) \<Longrightarrow> e \<in> set (S k) \<or> call = Checkin k e" and "R k \<Longrightarrow> R' k"
  using assms by (cases call; auto simp: Let_def split: if_splits dest!: in_set_butlastD)+

lemma pool_call_grows:
  assumes "pool_wf c"
  shows "e \<in> set (stack_of (snd (pool_call call c)) k) \<Longrightarrow> e \<in> set (stack_of c k) \<or> call = Checkin k e"
    and "is_retired c k \<Longrightarrow> is_retired (snd (pool_call call c)) k"
proof -
  let ?c' = "snd (pool_call call c)"
  show "e \<in> set (stack_of ?c' k) \<Longrightarrow> e \<in> set (stack_of c k) \<or> call = Checkin k e"
  proof (cases "cat_poisoned c")
    case False
    then have "pool_spec call (stack_of c, is_retired c) = (stack_of ?c', is_retired ?c')"
      using pool_call_refines [OF assms False, of call] by (simp add: pool_abs_def)
    then show "e \<in> set (stack_of ?c' k) \<Longrightarrow> ?thesis" by (rule pool_spec_grows(1))
  qed (simp add: pool_call_poisoned)
  show "is_retired c k \<Longrightarrow> is_retired ?c' k"
  proof (cases "cat_poisoned c")
    case False
    then have "pool_spec call (stack_of c, is_retired c) = (stack_of ?c', is_retired ?c')"
      using pool_call_refines [OF assms False, of call] by (simp add: pool_abs_def)
    then show "is_retired c k \<Longrightarrow> ?thesis" by (rule pool_spec_grows(2))
  qed (simp add: pool_call_poisoned)
qed

lemma pool_run_grows:
  "pool_wf c \<Longrightarrow> e \<in> set (stack_of (snd (pool_run calls c)) k) \<Longrightarrow>
   e \<in> set (stack_of c k) \<or> Checkin k e \<in> set calls"
proof (induction calls arbitrary: c)
  case (Cons call calls)
  from Cons.IH [OF pool_call_wf [OF Cons.prems(1), of call]] Cons.prems(2) pool_call_grows(1) [OF Cons.prems(1)]
  show ?case by (fastforce simp: snd_pool_run_Cons simp del: pool_run.simps)
qed simp

lemma pool_run_retired:
  "pool_wf c \<Longrightarrow> is_retired c k \<Longrightarrow> is_retired (snd (pool_run calls c)) k"
proof (induction calls arbitrary: c)
  case (Cons call calls)
  from Cons.IH [OF pool_call_wf [OF Cons.prems(1)] pool_call_grows(2) [OF Cons.prems]]
  show ?case by (simp add: snd_pool_run_Cons del: pool_run.simps)
qed simp

lemma pool_run_poisoned: "cat_poisoned c \<Longrightarrow> snd (pool_run calls c) = c"
proof (induction calls arbitrary: c)
  case (Cons call calls)
  then show ?case
    using pool_call_poisoned [OF Cons.prems, of call] by (simp add: snd_pool_run_Cons del: pool_run.simps)
qed simp

text \<open>C33. Connections are isolated: whatever calls were made before, a resource is handed out only for the exact
  nine-field key and publication generation it was checked in with, was created in that
  generation, and neither its generation nor its profile epoch has been retired.\<close>

theorem checkout_isolated:
  assumes "checkout key (snd (pool_run calls pool_new)) = (Some entry, c')"
  shows "Checkin key entry \<in> set calls \<and> pe_generation entry = sk_generation key \<and>
     \<not> is_retired (snd (pool_run calls pool_new)) key"
proof -
  let ?c = "snd (pool_run calls pool_new)"
  have wf: "pool_wf ?c" by (intro pool_run_wf pool_wf_new)
  have "\<not> cat_poisoned ?c" using assms by (auto simp: checkout_def)
  from assms checkout_eq [OF wf this, of key] have "entry \<in> set (stack_of ?c key)"
    by (auto split: if_splits)
  moreover have "stack_of (pool_new :: 'a ConnectionPoolCatalog) key = []"
    by (simp add: pool_new_def stack_of_def)
  ultimately show ?thesis
    using pool_run_grows [OF pool_wf_new, of entry calls key] pool_wf_entry [OF wf, of entry key] by auto
qed

text \<open>Retirement is final: once a generation has been drained or a credential's profile epoch advanced,
  no later calls make the pool accept a connection of an older generation or epoch again; the
  connection is handed back to its caller.\<close>

theorem late_checkin_rejected:
  assumes "call = DrainGeneration g \<and> sk_generation key \<le> g \<or>
      call = AdvanceEpoch (pk_credential_id (sk_pool key)) n \<and> pk_profile_epoch (sk_pool key) < n"
  shows "let c = snd (pool_run (before @ call # after) pool_new) in checkin key entry c = (Inl entry, c)"
proof -
  define c0 where "c0 = snd (pool_run before (pool_new :: 'a ConnectionPoolCatalog))"
  have wf: "pool_wf c0" by (simp add: c0_def pool_run_wf pool_wf_new)
  have c: "snd (pool_run (before @ call # after) pool_new) = snd (pool_run after (snd (pool_call call c0)))"
    by (simp add: snd_pool_run_append snd_pool_run_Cons c0_def del: pool_run.simps)
  show ?thesis
  proof (cases "cat_poisoned c0")
    case True
    then have "snd (pool_run after (snd (pool_call call c0))) = c0"
      by (simp add: pool_call_poisoned pool_run_poisoned)
    with True c show ?thesis by (simp add: checkin_def)
  next
    case False
    have "is_retired (snd (pool_call call c0)) key"
      using pool_call_refines [OF wf False, of call] assms by (auto simp: pool_abs_def Let_def)
    then have "is_retired (snd (pool_run after (snd (pool_call call c0)))) key"
      by (intro pool_run_retired pool_call_wf wf)
    with c show ?thesis by (simp add: checkin_eq)
  qed
qed

subsection \<open>Conservation\<close>

lemma multiset_swap: "m + {#x#} = s \<Longrightarrow> a + s = m + b \<Longrightarrow> a + {#x#} = (b :: 'a multiset)"
  by (metis add.commute add.left_commute add_left_cancel)

lemma pool_call_conserves:
  assumes "pool_wf c"
  shows "mset (fst (pool_call call c)) + pooled (snd (pool_call call c)) = mset (offered call) + pooled c"
proof (cases "cat_poisoned c")
  case True
  then show ?thesis by (simp add: pool_call_poisoned)
next
  case False
  have wf: "bt_wf (shards (cat_state c))" using assms by (simp add: pool_wf_def)
  show ?thesis
  proof (cases call)
    case (Checkin k e)
    then show ?thesis
      using shard_resources_insert [OF wf, of k "stack_of c k @ [e]"]
      by (auto simp: checkin_eq pooled_def stack_of_def)
  next
    case (Checkout k)
    show ?thesis
    proof (cases "stack_of c k = []")
      case True
      then show ?thesis using Checkout False assms by (simp add: checkout_eq)
    next
      case nonempty: False
      let ?sh = "bt_modify k butlast (shards (cat_state c))"
      have get: "bt_get (shards (cat_state c)) k = Some (stack_of c k)"
        using nonempty by (auto simp: stack_of_def split: option.splits)
      have drop: "shard_resources (bt_remove k ?sh) = shard_resources ?sh" if "butlast (stack_of c k) = []"
        using shard_resources_remove [of ?sh k] wf get that by simp
      have "mset (butlast (stack_of c k)) + {#last (stack_of c k)#} = mset (stack_of c k)"
        using nonempty by (metis append_butlast_last_id mset.simps mset_append)
      then have "shard_resources ?sh + {#last (stack_of c k)#} = shard_resources (shards (cat_state c))"
        using shard_resources_modify [OF wf get, of butlast] by (rule multiset_swap)
      then show ?thesis
        using Checkout False nonempty assms drop by (simp add: checkout_eq pooled_def)
    qed
  next
    case (DrainKey k)
    then show ?thesis
      using False shard_resources_remove [OF wf, of k] by (simp add: drain_key_def pooled_def)
  next
    case (DrainGeneration g)
    then show ?thesis
      using False wf mset_filter_split [of snd "(\<lambda>k. sk_generation k \<le> generation_mark g c) \<circ> fst" "shards (cat_state c)"]
      by (simp add: drain_generation_eq pooled_def comp_def)
  next
    case (AdvanceEpoch cid n)
    then show ?thesis
      using False wf mset_filter_split [of snd "below_epoch cid (epoch_mark cid n c) \<circ> fst" "shards (cat_state c)"]
      by (simp add: advance_epoch_eq pooled_def comp_def)
  qed simp
qed


lemma pool_run_conserves:
  "pool_wf c \<Longrightarrow> mset (fst (pool_run calls c)) + pooled (snd (pool_run calls c)) =
     mset (concat (map offered calls)) + pooled c"
proof (induction calls arbitrary: c)
  case (Cons call calls)
  obtain out c1 where call: "pool_call call c = (out, c1)" by (cases "pool_call call c")
  obtain outs c2 where rest: "pool_run calls c1 = (outs, c2)" by (cases "pool_run calls c1")
  have "pool_wf c1" using pool_call_wf [OF Cons.prems, of call] call by simp
  from Cons.IH [OF this] pool_call_conserves [OF Cons.prems, of call] call rest
  show ?case by (simp add: ac_simps) (metis (no_types, opaque_lifting) union_assoc union_commute)
qed simp

lemma size_pooled: "\<not> cat_poisoned c \<Longrightarrow> resource_count c = size (pooled c)"
  by (simp add: resource_count_def pooled_def length_concat comp_def)

text \<open>No connection is lost or duplicated: whatever calls are made on a fresh pool, the resources handed back
  (checked out, drained or refused) together with those still pooled are exactly the ones that
  were offered.\<close>

theorem pool_conserves_entries:
  "let (outs, c) = pool_run calls pool_new in mset outs + pooled c = mset (concat (map offered calls))"
  using pool_run_conserves [OF pool_wf_new, of calls] by (simp add: split_beta pooled_def pool_new_def)

text \<open>C34. The pool refines its specification: after any calls, the effect of one more call on the stacks of
  resources and on the set of retired shards is the one the specification gives, unless the
  lock is poisoned, in which case nothing changes and an offered resource is handed back.\<close>

theorem pool_refines_spec:
  "let c = snd (pool_run calls pool_new); (out, c') = pool_call call c in
   if cat_poisoned c then c' = c \<and> out = offered call else pool_abs c' = pool_spec call (pool_abs c)"
proof -
  let ?c = "snd (pool_run calls pool_new)"
  have "pool_wf ?c" by (intro pool_run_wf pool_wf_new)
  from pool_call_refines [OF this, of call] pool_call_poisoned [of ?c call] show ?thesis
    by (simp add: Let_def split_beta)
qed

subsection \<open>Examples\<close>

definition sample_pool_key :: "u64 \<Rightarrow> u64 \<Rightarrow> PoolShardKey" where
  "sample_pool_key epoch g = PoolShardKey (PoolKey (TypedId ''credential_1'') epoch (TypedId ''bundle_1'') 1
     (TypedId ''egress_1'') 1 ''api.anthropic.com'' ''api.anthropic.com'' H1) (ActivationGeneration g)"

definition sample_pool_entry :: "nat \<Rightarrow> u64 \<Rightarrow> nat PoolEntry" where
  "sample_pool_entry r g = \<lparr>pe_resource = r, pe_generation = ActivationGeneration g\<rparr>"

theorem checkout_isolated_witness:
  "\<exists>c'. checkout (sample_pool_key 1 1) (snd (pool_run [Checkin (sample_pool_key 1 1) (sample_pool_entry 7 1)] pool_new)) =
     (Some (sample_pool_entry 7 1), c') \<and>
   Checkin (sample_pool_key 1 1) (sample_pool_entry 7 1) \<in> set [Checkin (sample_pool_key 1 1) (sample_pool_entry 7 1)]"
proof -
  let ?calls = "[Checkin (sample_pool_key 1 1) (sample_pool_entry 7 1)]"
  have co: "\<exists>c'. checkout (sample_pool_key 1 1) (snd (pool_run ?calls pool_new)) = (Some (sample_pool_entry 7 1), c')"
    by (simp add: checkin_def checkout_def pool_new_def sample_pool_key_def sample_pool_entry_def)
  then obtain c' where "checkout (sample_pool_key 1 1) (snd (pool_run ?calls pool_new)) = (Some (sample_pool_entry 7 1), c')" ..
  with checkout_isolated [OF this] show ?thesis by blast
qed

theorem late_checkin_rejected_witness:
  "let c = snd (pool_run ([Checkin (sample_pool_key 1 1) (sample_pool_entry 7 1)] @
       DrainGeneration (ActivationGeneration 1) # [Checkin (sample_pool_key 1 2) (sample_pool_entry 8 2)]) pool_new)
   in checkin (sample_pool_key 1 1) (sample_pool_entry 9 1) c = (Inl (sample_pool_entry 9 1), c)"
  by (rule late_checkin_rejected [where g = "ActivationGeneration 1"]) (simp add: sample_pool_key_def)

end
