(* ===== verification/Text_Codec.thy ===== *)
theory Text_Codec
  imports Domain_Types
begin

text \<open>
  The text operations of the Rust standard library that the wire formats use: ASCII case folding,
  UTF-8 validation with \<^verbatim>\<open>str::trim\<close>, unsigned decimal parsing with its overflow check, and decimal
  printing. A \<^verbatim>\<open>str\<close> and a byte string are both the list of their bytes.
\<close>

abbreviation byte :: "char \<Rightarrow> nat" where
  "byte c \<equiv> of_char c"

subsection \<open>ASCII\<close>

definition to_ascii_lowercase :: "char \<Rightarrow> char" where
  "to_ascii_lowercase c = (if is_ascii_uppercase c then char_of (byte c + 32) else c)"

definition eq_ignore_ascii_case :: "string \<Rightarrow> string \<Rightarrow> bool" where
  "eq_ignore_ascii_case a b \<longleftrightarrow> map to_ascii_lowercase a = map to_ascii_lowercase b"

definition is_ascii_digit :: "char \<Rightarrow> bool" where
  "is_ascii_digit c \<longleftrightarrow> 48 \<le> byte c \<and> byte c \<le> 57"

definition is_ascii_alphanumeric :: "char \<Rightarrow> bool" where
  "is_ascii_alphanumeric c \<longleftrightarrow>
     is_ascii_digit c \<or> (65 \<le> byte c \<and> byte c \<le> 90) \<or> (97 \<le> byte c \<and> byte c \<le> 122)"

text \<open>\<^verbatim>\<open>str::split_once\<close> at an ASCII character.\<close>

fun split_once :: "char \<Rightarrow> string \<Rightarrow> (string \<times> string) option" where
  "split_once c [] = None"
| "split_once c (a # s) =
     (if a = c then Some ([], s) else map_option (\<lambda>(l, r). (a # l, r)) (split_once c s))"

subsection \<open>UTF-8\<close>

text \<open>The code point at the front of a byte string and the number of its bytes.\<close>

definition is_continuation :: "char \<Rightarrow> bool" where
  "is_continuation c \<longleftrightarrow> 128 \<le> byte c \<and> byte c \<le> 191"

fun utf8_step :: "string \<Rightarrow> (nat \<times> nat) option" where
  "utf8_step [] = None"
| "utf8_step (b0 # r) =
     (if byte b0 < 128 then Some (byte b0, 1)
      else if 194 \<le> byte b0 \<and> byte b0 \<le> 223 then
        (case r of
           b1 # _ \<Rightarrow> if is_continuation b1 then Some ((byte b0 - 192) * 64 + (byte b1 - 128), 2) else None
         | _ \<Rightarrow> None)
      else if 224 \<le> byte b0 \<and> byte b0 \<le> 239 then
        (case r of
           b1 # b2 # _ \<Rightarrow>
             if is_continuation b1 \<and> is_continuation b2 \<and>
                (byte b0 = 224 \<longrightarrow> 160 \<le> byte b1) \<and> (byte b0 = 237 \<longrightarrow> byte b1 \<le> 159)
             then Some ((byte b0 - 224) * 4096 + (byte b1 - 128) * 64 + (byte b2 - 128), 3) else None
         | _ \<Rightarrow> None)
      else if 240 \<le> byte b0 \<and> byte b0 \<le> 244 then
        (case r of
           b1 # b2 # b3 # _ \<Rightarrow>
             if is_continuation b1 \<and> is_continuation b2 \<and> is_continuation b3 \<and>
                (byte b0 = 240 \<longrightarrow> 144 \<le> byte b1) \<and> (byte b0 = 244 \<longrightarrow> byte b1 \<le> 143)
             then Some ((byte b0 - 240) * 262144 + (byte b1 - 128) * 4096 + (byte b2 - 128) * 64 +
                        (byte b3 - 128), 4) else None
         | _ \<Rightarrow> None)
      else None)"

lemma utf8_step_pos: "utf8_step s = Some (cp, n) \<Longrightarrow> 0 < n \<and> s \<noteq> []"
  by (cases s) (auto split: if_splits list.splits)

text \<open>The scalar values of a string with their encodings, \<open>None\<close> when the bytes are not UTF-8.\<close>

function utf8_chars :: "string \<Rightarrow> (nat \<times> string) list option" where
  "utf8_chars s =
     (if s = [] then Some []
      else case utf8_step s of
        None \<Rightarrow> None
      | Some (cp, n) \<Rightarrow> map_option (\<lambda>r. (cp, take n s) # r) (utf8_chars (drop n s)))"
  by auto
termination
  by (relation "measure length") (auto dest!: utf8_step_pos)

declare utf8_chars.simps [simp del]

definition is_whitespace :: "nat \<Rightarrow> bool" where
  "is_whitespace cp \<longleftrightarrow>
     (9 \<le> cp \<and> cp \<le> 13) \<or> cp = 32 \<or> cp = 133 \<or> cp = 160 \<or> cp = 5760 \<or> (8192 \<le> cp \<and> cp \<le> 8202) \<or>
     cp = 8232 \<or> cp = 8233 \<or> cp = 8239 \<or> cp = 8287 \<or> cp = 12288"

definition trim_chars :: "(nat \<times> string) list \<Rightarrow> (nat \<times> string) list" where
  "trim_chars cs =
     (let ws = (\<lambda>p. is_whitespace (fst p)) in rev (dropWhile ws (rev (dropWhile ws cs))))"

text \<open>\<^verbatim>\<open>std::str::from_utf8(v).ok().map(str::trim)\<close>.\<close>

definition utf8_trim :: "string \<Rightarrow> string option" where
  "utf8_trim s = map_option (\<lambda>cs. concat (map snd (trim_chars cs))) (utf8_chars s)"

subsection \<open>Unsigned decimals\<close>

text \<open>\<^verbatim>\<open>parse::<uN>()\<close>: an optional plus sign and at least one digit; the value must stay within \<open>bound\<close>.\<close>

fun digits_value :: "nat \<Rightarrow> nat \<Rightarrow> string \<Rightarrow> nat option" where
  "digits_value bound acc [] = Some acc"
| "digits_value bound acc (c # s) =
     (if is_ascii_digit c \<and> acc * 10 + (byte c - 48) \<le> bound
      then digits_value bound (acc * 10 + (byte c - 48)) s else None)"

definition parse_unsigned :: "nat \<Rightarrow> string \<Rightarrow> nat option" where
  "parse_unsigned bound s =
     (let ds = (case s of c # r \<Rightarrow> if c = CHR ''+'' then r else s | [] \<Rightarrow> s)
      in if ds = [] then None else digits_value bound 0 ds)"

definition parse_u64 :: "string \<Rightarrow> u64 option" where
  "parse_u64 s = map_option of_nat (parse_unsigned (2 ^ 64 - 1) s)"

definition parse_u32 :: "string \<Rightarrow> u32 option" where
  "parse_u32 s = map_option of_nat (parse_unsigned (2 ^ 32 - 1) s)"

text \<open>\<^verbatim>\<open>to_string\<close> of an unsigned integer.\<close>

definition digit_char :: "nat \<Rightarrow> char" where
  "digit_char d = char_of (48 + d)"

fun show_nat :: "nat \<Rightarrow> string" where
  "show_nat n = (if n < 10 then [digit_char n] else show_nat (n div 10) @ [digit_char (n mod 10)])"

declare show_nat.simps [simp del]

text \<open>The number a string of digits denotes, without a bound.\<close>

definition digits_nat :: "string \<Rightarrow> nat" where
  "digits_nat s = foldl (\<lambda>acc c. acc * 10 + (byte c - 48)) 0 s"

subsection \<open>Lemmas\<close>

lemma split_once_append: "c \<notin> set a \<Longrightarrow> split_once c (a @ c # s) = Some (a, s)"
  by (induction a) auto

lemma split_once_None: "split_once c s = None \<longleftrightarrow> c \<notin> set s"
  by (induction s) auto

lemma split_once_Some: "split_once c s = Some (a, b) \<longleftrightarrow> s = a @ c # b \<and> c \<notin> set a"
  by (induction s arbitrary: a b) (auto simp: Cons_eq_append_conv)

lemma byte_less: "byte c < 256"
  by simp

lemma byte_digit_char [simp]: "d < 10 \<Longrightarrow> byte (digit_char d) = 48 + d"
  by (simp add: digit_char_def)

lemma is_ascii_digit_char [simp]: "d < 10 \<Longrightarrow> is_ascii_digit (digit_char d)"
  by (simp add: is_ascii_digit_def)

lemma show_nat_nonempty [simp]: "show_nat n \<noteq> []"
  by (subst show_nat.simps) simp

lemma show_nat_digits: "c \<in> set (show_nat n) \<Longrightarrow> is_ascii_digit c"
  by (induction n rule: show_nat.induct) (subst (asm) (2) show_nat.simps, auto split: if_splits)

lemma digits_value_append:
  "digits_value bound acc (s @ t) = Option.bind (digits_value bound acc s) (\<lambda>a. digits_value bound a t)"
  by (induction bound acc s rule: digits_value.induct) auto

lemma digits_value_show: "n \<le> bound \<Longrightarrow> digits_value bound 0 (show_nat n) = Some n"
proof (induction n rule: show_nat.induct)
  case (1 n)
  show ?case
  proof (cases "n < 10")
    case True
    then show ?thesis using 1 by (subst show_nat.simps) simp
  next
    case False
    have "n div 10 \<le> bound" using 1(2) by (meson div_le_dividend le_trans)
    with 1 False show ?thesis by (subst show_nat.simps) (simp add: digits_value_append)
  qed
qed

lemma parse_show: "n \<le> bound \<Longrightarrow> parse_unsigned bound (show_nat n) = Some n"
proof -
  assume n: "n \<le> bound"
  obtain c r where s: "show_nat n = c # r" by (cases "show_nat n") auto
  have "is_ascii_digit c" using show_nat_digits [of c n] s by simp
  then have "c \<noteq> CHR ''+''" by (auto simp: is_ascii_digit_def)
  with s digits_value_show [OF n] show ?thesis by (simp add: parse_unsigned_def)
qed

lemma show_nat_inj: "show_nat m = show_nat n \<Longrightarrow> m = n"
  by (metis max.cobounded1 max.cobounded2 option.inject parse_show)

lemma digits_value_bound: "digits_value bound acc s = Some n \<Longrightarrow> acc \<le> bound \<Longrightarrow> n \<le> bound"
  by (induction bound acc s rule: digits_value.induct) (auto split: if_splits)

lemma digits_value_foldl:
  "list_all is_ascii_digit s \<Longrightarrow> foldl (\<lambda>acc c. acc * 10 + (byte c - 48)) acc s \<le> bound \<Longrightarrow>
   digits_value bound acc s = Some (foldl (\<lambda>acc c. acc * 10 + (byte c - 48)) acc s)"
proof (induction s arbitrary: acc)
  case (Cons c s)
  have mono: "a \<le> foldl (\<lambda>acc c. acc * 10 + (byte c - 48)) a s" for a
  proof (induction s arbitrary: a)
    case (Cons x s)
    have "a \<le> a * 10 + (byte x - 48)" by simp
    also note Cons.IH
    finally show ?case by simp
  qed simp
  from Cons mono [of "acc * 10 + (byte c - 48)"] show ?case by simp
qed simp

lemma digits_nat_less: "list_all is_ascii_digit s \<Longrightarrow> digits_nat s < 10 ^ length s"
proof (induction s rule: rev_induct)
  case (snoc c s)
  then have "digits_nat s < 10 ^ length s" "byte c - 48 \<le> 9"
    by (auto simp: is_ascii_digit_def)
  then show ?case by (simp add: digits_nat_def)
qed (simp add: digits_nat_def)

lemma digits_nat_zero:
  "list_all is_ascii_digit s \<Longrightarrow> digits_nat s = 0 \<longleftrightarrow> \<not> list_ex (\<lambda>b. b \<noteq> CHR ''0'') s"
proof (induction s rule: rev_induct)
  case (snoc c s)
  have "byte c = 48 \<longleftrightarrow> c = CHR ''0''"
    using of_char_eq_iff [of c "CHR ''0''", where 'a = nat] by simp
  with snoc show ?case
    by (auto simp: digits_nat_def is_ascii_digit_def)
qed (simp add: digits_nat_def)


lemma digits_nat_append: "digits_nat (s @ [c]) = digits_nat s * 10 + (byte c - 48)"
  by (simp add: digits_nat_def)

lemma digits_nat_show: "digits_nat (show_nat n) = n"
proof (induction n rule: show_nat.induct)
  case (1 n)
  show ?case
  proof (cases "n < 10")
    case True
    then show ?thesis by (subst show_nat.simps) (simp add: digits_nat_def)
  next
    case False
    with 1 show ?thesis by (subst show_nat.simps) (simp add: digits_nat_append)
  qed
qed

lemma digits_nat_zeros: "digits_nat (replicate k (CHR ''0'') @ s) = digits_nat s"
proof -
  have "foldl (\<lambda>acc c. acc * 10 + (byte c - 48)) (0 :: nat) (replicate k (CHR ''0'')) = 0"
    by (induction k) simp_all
  then show ?thesis by (simp add: digits_nat_def)
qed

lemma length_show_nat: "n < 10 ^ k \<Longrightarrow> 0 < k \<Longrightarrow> length (show_nat n) \<le> k"
proof (induction n arbitrary: k rule: show_nat.induct)
  case (1 n)
  show ?case
  proof (cases "n < 10")
    case True
    then show ?thesis using 1(3) by (subst show_nat.simps) simp
  next
    case False
    then obtain j where k: "k = Suc j" "0 < j"
      using 1(2,3) by (cases k; cases "k - 1") auto
    have "n div 10 < 10 ^ j" using 1(2) k by (simp add: less_mult_imp_div_less mult.commute)
    with 1(1) [OF False, of j] k False show ?thesis by (subst show_nat.simps) simp
  qed
qed

end
