(* ===== verification/Http1.thy ===== *)
theory Http1
  imports Transport_Types Text_Codec
begin

text \<open>
  The HTTP/1.1 writer and the response-head framing of \<^verbatim>\<open>gateway-transport/h1.rs\<close>. The tokenizer of
  response heads is the \<^verbatim>\<open>httparse\<close> crate and is an argument of \<open>parse_response_head\<close>.
\<close>

subsection \<open>Data\<close>

datatype H1Framing = NoBody | ContentLength u64 | Chunked | CloseDelimited

record ParsedResponseHead =
  ph_status :: u16
  ph_headers :: "(string \<times> string) list"
  ph_consumed :: nat
  ph_framing :: H1Framing

definition h1_error :: "string \<Rightarrow> TransportError" where
  "h1_error d =
     \<lparr>te_code = H1FramingError, te_phase = PhaseResponseHeaders, attribution_domain = BundleRuntime,
      failure_scope = ScopeConnection, retry_safety = CommitUnknown, upstream_request_bytes_written = 0,
      te_submission_complete = False, te_disposition = Evict, health_effect = QuarantineBundle,
      diagnostic = d\<rparr>"

definition is_header_name_byte :: "char \<Rightarrow> bool" where
  "is_header_name_byte c \<longleftrightarrow>
     is_ascii_alphanumeric c \<or>
     c \<in> {CHR ''!'', CHR ''#'', CHR ''$'', CHR ''%'', CHR ''&'', CHR 0x27, CHR ''*'', CHR ''+'', CHR ''-'',
          CHR ''.'', CHR ''^'', CHR ''_'', CHR 0x60, CHR ''|'', CHR ''~''}"

abbreviation CR :: char where "CR \<equiv> CHR 0x0D"
abbreviation LF :: char where "LF \<equiv> CHR 0x0A"
abbreviation SP :: char where "SP \<equiv> CHR 0x20"

definition CRLF :: string where
  "CRLF = [CR, LF]"

subsection \<open>The request writer\<close>

definition header_invalid :: "UpstreamHeader \<Rightarrow> bool" where
  "header_invalid h \<longleftrightarrow>
     header_name h = [] \<or> list_ex (\<lambda>b. \<not> is_header_name_byte b) (header_name h) \<or>
     list_ex (\<lambda>b. b = CR \<or> b = LF) (header_value h)"

text \<open>The header loop: the length of the body, whether a length was seen, the bytes rendered so far.\<close>

fun encode_headers ::
  "nat \<Rightarrow> UpstreamHeader list \<Rightarrow> bool \<Rightarrow> string \<Rightarrow> (TransportError, bool \<times> string) result" where
  "encode_headers body_length [] has_content_length rendered = Inr (has_content_length, rendered)"
| "encode_headers body_length (h # hs) has_content_length rendered =
     (if header_invalid h then Inl (h1_error ''h1_invalid_header'')
      else if eq_ignore_ascii_case (header_name h) ''transfer-encoding''
      then Inl (h1_error ''h1_request_transfer_encoding_forbidden'')
      else let rendered' = rendered @ header_name h @ '': '' @ header_value h @ CRLF in
        if eq_ignore_ascii_case (header_name h) ''content-length''
        then (if has_content_length \<or> header_value h \<noteq> show_nat body_length
              then Inl (h1_error ''h1_content_length_conflict'')
              else encode_headers body_length hs True rendered')
        else encode_headers body_length hs has_content_length rendered')"

definition request_line_invalid :: "FinalUpstreamRequest \<Rightarrow> bool" where
  "request_line_invalid r \<longleftrightarrow>
     req_method r = [] \<or> \<not> list_all is_ascii_uppercase (req_method r) \<or>
     \<not> (case path_and_query r of [] \<Rightarrow> False | c # _ \<Rightarrow> c = CHR 0x2F) \<or>
     list_ex (\<lambda>c. c = CR \<or> c = LF \<or> c = SP) (path_and_query r)"

definition encode_request :: "FinalUpstreamRequest \<Rightarrow> (TransportError, string) result" where
  "encode_request r =
     (if request_line_invalid r then Inl (h1_error ''h1_invalid_request_line'')
      else let body_length = length (req_body r);
               line = req_method r @ [SP] @ path_and_query r @ '' HTTP/1.1'' @ CRLF
           in case encode_headers body_length (req_headers r) False line of
                Inl e \<Rightarrow> Inl e
              | Inr (has_content_length, rendered) \<Rightarrow>
                  Inr (rendered @
                       (if has_content_length then [] else ''Content-Length: '' @ show_nat body_length @ CRLF) @
                       CRLF @ req_body r))"

subsection \<open>Response framing\<close>

text \<open>What \<^verbatim>\<open>httparse::Response::parse\<close> reports.\<close>

datatype HttparseStatus = Complete nat | Partial

record HttparseResponse =
  hp_code :: "u16 option"
  hp_headers :: "(string \<times> string) list"

fun scan_response_headers ::
  "(string \<times> string) list \<Rightarrow> u64 option \<Rightarrow> string option \<Rightarrow>
   (TransportError, u64 option \<times> string option) result" where
  "scan_response_headers [] content_length transfer_encoding = Inr (content_length, transfer_encoding)"
| "scan_response_headers ((name, value) # hs) content_length transfer_encoding =
     (if eq_ignore_ascii_case name ''content-length'' then
        (case Option.bind (utf8_trim value) parse_u64 of
           None \<Rightarrow> Inl (h1_error ''h1_content_length_invalid'')
         | Some v \<Rightarrow>
             if is_some_and content_length (\<lambda>existing. existing \<noteq> v)
             then Inl (h1_error ''h1_content_length_ambiguous'')
             else scan_response_headers hs (Some v) transfer_encoding)
      else if eq_ignore_ascii_case name ''transfer-encoding'' then
        (if transfer_encoding \<noteq> None then Inl (h1_error ''h1_transfer_encoding_ambiguous'')
         else case utf8_trim value of
             None \<Rightarrow> Inl (h1_error ''h1_transfer_encoding_invalid'')
           | Some v \<Rightarrow> scan_response_headers hs content_length (Some (map to_ascii_lowercase v)))
      else scan_response_headers hs content_length transfer_encoding)"

definition response_without_body :: "string \<Rightarrow> u16 \<Rightarrow> bool" where
  "response_without_body request_method status \<longleftrightarrow>
     eq_ignore_ascii_case request_method ''HEAD'' \<or> (100 \<le> status \<and> status < 200) \<or> status = 204 \<or> status = 304"

definition select_framing ::
  "string \<Rightarrow> u16 \<Rightarrow> u64 option \<Rightarrow> string option \<Rightarrow> (TransportError, H1Framing) result" where
  "select_framing request_method status content_length transfer_encoding =
     (if response_without_body request_method status then Inr NoBody
      else case transfer_encoding of
        Some encoding \<Rightarrow>
          if encoding = ''chunked'' then Inr Chunked else Inl (h1_error ''h1_transfer_encoding_unsupported'')
      | None \<Rightarrow>
          (case content_length of Some n \<Rightarrow> Inr (ContentLength n) | None \<Rightarrow> Inr CloseDelimited))"

definition parse_response_head ::
  "(string \<Rightarrow> (unit, HttparseStatus \<times> HttparseResponse) result) \<Rightarrow> string \<Rightarrow> string \<Rightarrow>
   (TransportError, ParsedResponseHead) result" where
  "parse_response_head httparse buffer request_method =
     (case httparse buffer of
        Inl _ \<Rightarrow> Inl (h1_error ''h1_response_head_malformed'')
      | Inr (Partial, _) \<Rightarrow> Inl (h1_error ''h1_response_head_incomplete'')
      | Inr (Complete consumed, response) \<Rightarrow>
          (case hp_code response of
             None \<Rightarrow> Inl (h1_error ''h1_status_missing'')
           | Some status \<Rightarrow>
               (case scan_response_headers (hp_headers response) None None of
                  Inl e \<Rightarrow> Inl e
                | Inr (content_length, transfer_encoding) \<Rightarrow>
                    if content_length \<noteq> None \<and> transfer_encoding \<noteq> None
                    then Inl (h1_error ''h1_framing_conflict'')
                    else (case select_framing request_method status content_length transfer_encoding of
                        Inl e \<Rightarrow> Inl e
                      | Inr framing \<Rightarrow>
                          Inr \<lparr>ph_status = status, ph_headers = hp_headers response,
                               ph_consumed = consumed, ph_framing = framing\<rparr>))))"

subsection \<open>A reference reader of requests\<close>

text \<open>
  How a conforming peer reads the bytes: a line ends at the first CR LF, the request line is
  split at its first two spaces, a header line at its first colon followed by a space, and the
  first empty line ends the head. It knows nothing of the request that was written.
\<close>

fun split_crlf :: "string \<Rightarrow> (string \<times> string) option" where
  "split_crlf (a # b # s) =
     (if a = CR \<and> b = LF then Some ([], s)
      else map_option (\<lambda>(line, rest). (a # line, rest)) (split_crlf (b # s)))"
| "split_crlf _ = None"

definition read_header_line :: "string \<Rightarrow> (string \<times> string) option" where
  "read_header_line line =
     (case split_once CHR '':'' line of
        Some (name, v # value) \<Rightarrow> if v = SP then Some (name, value) else None
      | _ \<Rightarrow> None)"

lemma split_crlf_shorter: "split_crlf s = Some (line, rest) \<Longrightarrow> length rest < length s"
  by (induction s arbitrary: line rest rule: split_crlf.induct) (fastforce split: if_splits)+

function read_headers :: "string \<Rightarrow> ((string \<times> string) list \<times> string) option" where
  "read_headers s =
     (case split_crlf s of
        None \<Rightarrow> None
      | Some (line, rest) \<Rightarrow>
          if line = [] then Some ([], rest)
          else (case read_header_line line of
              None \<Rightarrow> None
            | Some h \<Rightarrow> map_option (\<lambda>(hs, body). (h # hs, body)) (read_headers rest)))"
  by auto
termination
  by (relation "measure length") (auto dest: split_crlf_shorter)

declare read_headers.simps [simp del]

definition read_request :: "string \<Rightarrow> (string \<times> string \<times> (string \<times> string) list \<times> string) option" where
  "read_request s =
     (case split_crlf s of
        None \<Rightarrow> None
      | Some (line, rest) \<Rightarrow>
          (case split_once SP line of
             None \<Rightarrow> None
           | Some (m, r) \<Rightarrow>
               (case split_once SP r of
                  None \<Rightarrow> None
                | Some (path, version) \<Rightarrow>
                    if version \<noteq> ''HTTP/1.1'' then None
                    else map_option (\<lambda>(hs, body). (m, path, hs, body)) (read_headers rest))))"

subsection \<open>Lemmas on reading\<close>

lemma split_crlf_append: "CR \<notin> set a \<Longrightarrow> split_crlf (a @ CRLF @ s) = Some (a, s)"
proof (induction a)
  case (Cons x a)
  then show ?case by (cases a) (auto simp: CRLF_def)
qed (simp add: CRLF_def)

definition render_header :: "string \<times> string \<Rightarrow> string" where
  "render_header h = fst h @ '': '' @ snd h @ CRLF"

definition header_ok :: "string \<times> string \<Rightarrow> bool" where
  "header_ok h \<longleftrightarrow> fst h \<noteq> [] \<and> CHR '':'' \<notin> set (fst h) \<and> CR \<notin> set (fst h) \<and> CR \<notin> set (snd h)"

lemma read_headers_render:
  "list_all header_ok hs \<Longrightarrow> read_headers (concat (map render_header hs) @ CRLF @ body) = Some (hs, body)"
proof (induction hs)
  case Nil
  then show ?case
    using split_crlf_append [of "[]" body] by (subst read_headers.simps) simp
next
  case (Cons h hs)
  let ?line = "fst h @ '': '' @ snd h"
  let ?rest = "concat (map render_header hs) @ CRLF @ body"
  have "concat (map render_header (h # hs)) @ CRLF @ body = ?line @ CRLF @ ?rest"
    by (simp add: render_header_def)
  moreover have "split_crlf (?line @ CRLF @ ?rest) = Some (?line, ?rest)"
    by (rule split_crlf_append) (use Cons.prems in \<open>auto simp: header_ok_def\<close>)
  moreover have "read_header_line ?line = Some h"
    using Cons.prems split_once_append [of "CHR '':''" "fst h" "SP # snd h"]
    by (simp add: read_header_line_def header_ok_def)
  moreover have "?line \<noteq> []" by simp
  ultimately show ?case
    using Cons by (subst read_headers.simps) simp
qed


subsection \<open>What the writer writes\<close>

definition header_pairs :: "FinalUpstreamRequest \<Rightarrow> (string \<times> string) list" where
  "header_pairs r = map (\<lambda>h. (header_name h, header_value h)) (req_headers r)"

abbreviation is_content_length :: "string \<times> string \<Rightarrow> bool" where
  "is_content_length h \<equiv> eq_ignore_ascii_case (fst h) ''content-length''"

abbreviation is_transfer_encoding :: "string \<times> string \<Rightarrow> bool" where
  "is_transfer_encoding h \<equiv> eq_ignore_ascii_case (fst h) ''transfer-encoding''"

definition wire_headers :: "FinalUpstreamRequest \<Rightarrow> (string \<times> string) list" where
  "wire_headers r = header_pairs r @
     (if list_ex is_content_length (header_pairs r) then []
      else [(''Content-Length'', show_nat (length (req_body r)))])"

lemma header_name_byte_not: "is_header_name_byte c \<Longrightarrow> c \<noteq> CHR '':'' \<and> c \<noteq> CR"
  by (auto simp: is_header_name_byte_def is_ascii_alphanumeric_def is_ascii_digit_def)

lemma header_valid_ok: "\<not> header_invalid h \<Longrightarrow> header_ok (header_name h, header_value h)"
  by (auto simp: header_invalid_def header_ok_def list_ex_iff dest: header_name_byte_not)

lemma encode_headers_ok:
  "encode_headers n hs f rendered = Inr (f', out) \<Longrightarrow>
   (let ps = map (\<lambda>h. (header_name h, header_value h)) hs in
    out = rendered @ concat (map render_header ps) \<and> list_all header_ok ps \<and>
    filter is_transfer_encoding ps = [] \<and>
    map snd (filter is_content_length ps) = (if f' \<and> \<not> f then [show_nat n] else []) \<and>
    f' = (f \<or> list_ex is_content_length ps))"
proof (induction n hs f rendered rule: encode_headers.induct)
  case (2 n h hs f rendered)
  let ?p = "(header_name h, header_value h)"
  have h: "\<not> header_invalid h" "\<not> is_transfer_encoding ?p" using "2.prems" by (auto split: if_splits)
  show ?case
  proof (cases "is_content_length ?p")
    case True
    with "2.prems" h have "\<not> f" "header_value h = show_nat n" by (auto simp: Let_def split: if_splits)
    with True h 2(1) [OF h(1) _ refl] "2.prems" header_valid_ok [OF h(1)] show ?thesis
      by (simp add: Let_def render_header_def)
  next
    case False
    with h 2(2) [OF h(1) _ refl] "2.prems" header_valid_ok [OF h(1)] show ?thesis
      by (simp add: Let_def render_header_def)
  qed
qed simp

lemma content_length_name: "is_content_length (''Content-Length'', v)" "\<not> is_transfer_encoding (''Content-Length'', v)"
  by (simp_all add: eq_ignore_ascii_case_def) code_simp+

lemma show_nat_not_CR: "CR \<notin> set (show_nat n)"
  using show_nat_digits [of CR n] by (auto simp: is_ascii_digit_def)

lemma encode_request_bytes:
  assumes "encode_request r = Inr bytes"
  shows "bytes = (req_method r @ [SP] @ path_and_query r @ '' HTTP/1.1'') @ CRLF @
      concat (map render_header (wire_headers r)) @ CRLF @ req_body r"
    and "list_all header_ok (wire_headers r)" and "filter is_transfer_encoding (wire_headers r) = []"
    and "map snd (filter is_content_length (wire_headers r)) = [show_nat (length (req_body r))]"
    and "\<not> request_line_invalid r"
proof -
  let ?line = "req_method r @ [SP] @ path_and_query r @ '' HTTP/1.1'' @ CRLF"
  obtain f out where enc: "encode_headers (length (req_body r)) (req_headers r) False ?line = Inr (f, out)"
    and bytes: "bytes = out @ (if f then [] else ''Content-Length: '' @ show_nat (length (req_body r)) @ CRLF) @
        CRLF @ req_body r"
    and ok: "\<not> request_line_invalid r"
    using assms by (auto simp: encode_request_def Let_def split: if_splits sum.splits)
  note E = encode_headers_ok [OF enc, folded header_pairs_def, unfolded Let_def]
  show "bytes = (req_method r @ [SP] @ path_and_query r @ '' HTTP/1.1'') @ CRLF @
      concat (map render_header (wire_headers r)) @ CRLF @ req_body r"
    using E bytes by (auto simp: wire_headers_def render_header_def)
  show "list_all header_ok (wire_headers r)"
    using E show_nat_not_CR by (auto simp: wire_headers_def header_ok_def)
  show "filter is_transfer_encoding (wire_headers r) = []"
    using E content_length_name by (auto simp: wire_headers_def)
  show "map snd (filter is_content_length (wire_headers r)) = [show_nat (length (req_body r))]"
    using E content_length_name by (auto simp: wire_headers_def)
  show "\<not> request_line_invalid r" by (rule ok)
qed


lemma request_line_chars:
  assumes "\<not> request_line_invalid r"
  shows "SP \<notin> set (req_method r)" "CR \<notin> set (req_method r)" "SP \<notin> set (path_and_query r)" "CR \<notin> set (path_and_query r)"
proof -
  have "is_ascii_uppercase c" if "c \<in> set (req_method r)" for c
    using assms that by (simp add: request_line_invalid_def list_all_iff)
  then show "SP \<notin> set (req_method r)" "CR \<notin> set (req_method r)"
    by (force simp: is_ascii_uppercase_def less_eq_char_def)+
  show "SP \<notin> set (path_and_query r)" "CR \<notin> set (path_and_query r)"
    using assms by (auto simp: request_line_invalid_def list_ex_iff)
qed

lemma read_request_line:
  assumes "SP \<notin> set m" "CR \<notin> set m" "SP \<notin> set path" "CR \<notin> set path"
  shows "read_request ((m @ [SP] @ path @ '' HTTP/1.1'') @ CRLF @ s) =
     map_option (\<lambda>(hs, body). (m, path, hs, body)) (read_headers s)"
proof -
  have "split_crlf ((m @ [SP] @ path @ '' HTTP/1.1'') @ CRLF @ s) = Some (m @ [SP] @ path @ '' HTTP/1.1'', s)"
    by (rule split_crlf_append) (use assms in auto)
  moreover have "split_once SP (m @ [SP] @ path @ '' HTTP/1.1'') = Some (m, path @ SP # ''HTTP/1.1'')"
    using split_once_append [OF assms(1), of "path @ '' HTTP/1.1''"] by simp
  ultimately show ?thesis
    using split_once_append [OF assms(3), of "''HTTP/1.1''"] by (simp add: read_request_def)
qed

text \<open>C35. Round trip: whatever an accepted request contains, a peer that reads the written bytes recovers exactly
  its method, its path, its headers in their order and casing and its body; no header or path
  value can forge a line. The head carries exactly one Content-Length, the length of the body,
  and no Transfer-Encoding, so the boundary of the body is unambiguous.\<close>

theorem encode_request_roundtrip:
  "case encode_request r of
     Inl e \<Rightarrow> te_code e = H1FramingError \<and> te_disposition e = Evict
   | Inr bytes \<Rightarrow>
       read_request bytes = Some (req_method r, path_and_query r, wire_headers r, req_body r) \<and>
       map snd (filter is_content_length (wire_headers r)) = [show_nat (length (req_body r))] \<and>
       filter is_transfer_encoding (wire_headers r) = []"
proof (cases "encode_request r")
  case (Inl e)
  have err: "encode_headers n hs f out = Inl e' \<Longrightarrow> \<exists>d. e' = h1_error d" for n hs f out e'
    by (induction n hs f out rule: encode_headers.induct) (auto simp: Let_def split: if_splits)
  have "\<exists>d. e = h1_error d"
    using Inl err by (fastforce simp: encode_request_def Let_def split: if_splits sum.splits prod.splits)
  with Inl show ?thesis by (auto simp: h1_error_def)
next
  case (Inr bytes)
  note B = encode_request_bytes [OF Inr]
  have "read_request bytes = Some (req_method r, path_and_query r, wire_headers r, req_body r)"
    unfolding B(1) read_request_line [OF request_line_chars [OF B(5)]] read_headers_render [OF B(2)] by simp
  with B Inr show ?thesis by simp
qed

text \<open>The writer accepts a request exactly when its request line is well formed, every header has a token for
  a name and no line break in its value, there is no Transfer-Encoding, and a Content-Length that
  is given is given once and is the length of the body.\<close>

theorem encode_request_accepts:
  "is_ok (encode_request r) \<longleftrightarrow>
     \<not> request_line_invalid r \<and> \<not> list_ex header_invalid (req_headers r) \<and>
     filter is_transfer_encoding (header_pairs r) = [] \<and>
     map snd (filter is_content_length (header_pairs r)) \<in> {[], [show_nat (length (req_body r))]}"
proof -
  have enc: "is_ok (encode_headers n hs f out) \<longleftrightarrow>
      \<not> list_ex header_invalid hs \<and> filter is_transfer_encoding (map (\<lambda>h. (header_name h, header_value h)) hs) = [] \<and>
      map snd (filter is_content_length (map (\<lambda>h. (header_name h, header_value h)) hs)) \<in>
        (if f then {[]} else {[], [show_nat n]})" for n hs f out
  proof (induction n hs f out rule: encode_headers.induct)
    case (2 n h hs f out)
    then show ?case by (auto simp: Let_def split: if_splits)
  qed auto
  define res where "res = encode_headers (length (req_body r)) (req_headers r) False
    (req_method r @ [SP] @ path_and_query r @ '' HTTP/1.1'' @ CRLF)"
  have "is_ok (encode_request r) \<longleftrightarrow> \<not> request_line_invalid r \<and> is_ok res"
    by (auto simp: encode_request_def Let_def res_def split: sum.splits prod.splits)
  then show ?thesis
    unfolding res_def enc by (simp add: header_pairs_def)
qed

subsection \<open>What the parser accepts\<close>

definition declared_length :: "string \<Rightarrow> u64 option" where
  "declared_length v = Option.bind (utf8_trim v) parse_u64"

lemma scan_ok:
  "scan_response_headers hs cl te = Inr (cl', te') \<Longrightarrow>
   (let cls = map snd (filter is_content_length hs);
        tes = map snd (filter (\<lambda>h. \<not> is_content_length h \<and> is_transfer_encoding h) hs) in
    list_all (\<lambda>v. declared_length v = cl') cls \<and> (cl \<noteq> None \<longrightarrow> cl' = cl) \<and> (cl' = None \<longleftrightarrow> cl = None \<and> cls = []) \<and>
    (case tes of [] \<Rightarrow> te' = te
     | [v] \<Rightarrow> te = None \<and> te' = map_option (map to_ascii_lowercase) (utf8_trim v) \<and> te' \<noteq> None
     | _ \<Rightarrow> False))"
proof (induction hs cl te rule: scan_response_headers.induct)
  case (2 name v hs cl te)
  show ?case
  proof (cases "eq_ignore_ascii_case name ''content-length''")
    case True
    with 2 show ?thesis
      by (auto simp: Let_def declared_length_def split: option.splits if_splits)
  next
    case False
    with 2 show ?thesis
      by (cases "eq_ignore_ascii_case name ''transfer-encoding''")
        (auto simp: Let_def split: option.splits if_splits list.splits)
  qed
qed simp


lemma header_names_disjoint: "is_content_length h \<Longrightarrow> \<not> is_transfer_encoding h"
  by (auto simp: eq_ignore_ascii_case_def dest: arg_cong [where f = length])

text \<open>C36. Response framing is never ambiguous: a head is refused with an error that evicts the connection, or its
  body boundary is the one the headers declare. A length is used only when there is no
  Transfer-Encoding and every Content-Length given declares it; chunking only when it is the sole
  declared encoding and no length is given; a body ends at the close of the connection only
  when neither is declared. The tokenizer \<open>httparse\<close> is arbitrary.\<close>

theorem parse_response_head_framing:
  "case parse_response_head httparse buffer request_method of
     Inl e \<Rightarrow> te_code e = H1FramingError \<and> te_disposition e = Evict
   | Inr head \<Rightarrow>
       let lengths = map snd (filter is_content_length (ph_headers head));
           encodings = map snd (filter is_transfer_encoding (ph_headers head))
       in (ph_framing head = NoBody) = response_without_body request_method (ph_status head) \<and>
          (lengths = [] \<or> encodings = []) \<and>
          (case ph_framing head of
             ContentLength n \<Rightarrow> lengths \<noteq> [] \<and> list_all (\<lambda>v. declared_length v = Some n) lengths \<and> encodings = []
           | Chunked \<Rightarrow> lengths = [] \<and>
               map (\<lambda>v. map_option (map to_ascii_lowercase) (utf8_trim v)) encodings = [Some ''chunked'']
           | CloseDelimited \<Rightarrow> lengths = [] \<and> encodings = []
           | NoBody \<Rightarrow> True)"
proof (cases "parse_response_head httparse buffer request_method")
  case (Inl e)
  have scan: "scan_response_headers hs cl te = Inl e' \<Longrightarrow> \<exists>d. e' = h1_error d" for hs cl te e'
    by (induction hs cl te rule: scan_response_headers.induct) (auto split: if_splits option.splits)
  have sel: "select_framing m s cl te = Inl e' \<Longrightarrow> \<exists>d. e' = h1_error d" for m s cl te e'
    by (auto simp: select_framing_def split: if_splits option.splits)
  have "\<exists>d. e = h1_error d"
    using Inl scan sel
    by (fastforce simp: parse_response_head_def split: if_splits option.splits sum.splits prod.splits HttparseStatus.splits)
  with Inl show ?thesis by (auto simp: h1_error_def)
next
  case (Inr head)
  obtain cl te where scan: "scan_response_headers (ph_headers head) None None = Inr (cl, te)"
    and one: "cl = None \<or> te = None"
    and sel: "select_framing request_method (ph_status head) cl te = Inr (ph_framing head)"
    using Inr by (fastforce simp: parse_response_head_def split: if_splits option.splits sum.splits prod.splits
        HttparseStatus.splits)
  have te_filter: "filter (\<lambda>h. \<not> is_content_length h \<and> is_transfer_encoding h) hs = filter is_transfer_encoding hs" for hs
    by (intro filter_cong refl) (auto dest: header_names_disjoint)
  note S = scan_ok [OF scan, unfolded te_filter Let_def]
  show ?thesis
    using S one sel Inr
    by (cases "response_without_body request_method (ph_status head)"; cases cl; cases te)
      (auto simp: select_framing_def Let_def list_all_iff split: list.splits if_splits H1Framing.splits)
qed

end
