(* ===== verification/Transport_Events.thy ===== *)
theory Transport_Events
  imports Transport_Types
begin

text \<open>
  The lifecycle of one transport attempt: the connection state machine of
  \<^verbatim>\<open>gateway-transport/attempt.rs\<close> and the validating event sink of \<^verbatim>\<open>gateway-transport/event.rs\<close>. A sink
  is a function on its own state; the validating sink is a decorator over an arbitrary one.
\<close>

subsection \<open>The connection attempt machine\<close>

datatype ConnectionAttemptState =
    Planned | PoolLookup | Resolving | TcpConnecting | ProxyTunneling | TlsHandshaking | AlpnNegotiating
  | ProtocolReady | PromotedOnFirstByte | FailedBeforeFirstByte | CancelledBeforeFirstByte

record ConnectionAttemptMachine =
  cam_state :: ConnectionAttemptState
  cam_promoted :: bool

definition ConnectionAttemptMachine_default :: ConnectionAttemptMachine where
  "ConnectionAttemptMachine_default = \<lparr>cam_state = Planned, cam_promoted = False\<rparr>"

definition valid_phase_step :: "ConnectionAttemptState \<Rightarrow> ConnectionAttemptState \<Rightarrow> bool" where
  "valid_phase_step s n \<longleftrightarrow>
     (s, n) \<in> set
       [(Planned, PoolLookup), (PoolLookup, Resolving), (PoolLookup, ProtocolReady),
        (Resolving, TcpConnecting), (TcpConnecting, ProxyTunneling), (TcpConnecting, TlsHandshaking),
        (ProxyTunneling, TlsHandshaking), (TlsHandshaking, AlpnNegotiating),
        (AlpnNegotiating, ProtocolReady), (ProtocolReady, PromotedOnFirstByte)] \<or>
     (n = FailedBeforeFirstByte \<or> n = CancelledBeforeFirstByte) \<and>
     s \<noteq> PromotedOnFirstByte \<and> s \<noteq> FailedBeforeFirstByte \<and> s \<noteq> CancelledBeforeFirstByte"

definition invalid_transition_error :: TransportError where
  "invalid_transition_error =
     (engine_unavailable ''connection_attempt_invalid_transition'')\<lparr>te_code := InternalInvariant\<rparr>"

definition connection_transition ::
  "ConnectionAttemptState \<Rightarrow> ConnectionAttemptMachine \<Rightarrow> (TransportError, unit) result \<times> ConnectionAttemptMachine" where
  "connection_transition next_state a =
     (if \<not> valid_phase_step (cam_state a) next_state then (Inl invalid_transition_error, a)
      else let a1 = a\<lparr>cam_state := next_state\<rparr>
           in (Inr (), if next_state = PromotedOnFirstByte then a1\<lparr>cam_promoted := True\<rparr> else a1))"

text \<open>A caller drives the machine through a sequence of requested states; a refused one leaves it as it is.\<close>

fun connection_run :: "ConnectionAttemptState list \<Rightarrow> ConnectionAttemptMachine \<Rightarrow> ConnectionAttemptMachine" where
  "connection_run [] a = a"
| "connection_run (s # ss) a = connection_run ss (snd (connection_transition s a))"

text \<open>The states accepted during a run, in order.\<close>

fun accepted_states :: "ConnectionAttemptState list \<Rightarrow> ConnectionAttemptMachine \<Rightarrow> ConnectionAttemptState list" where
  "accepted_states [] a = []"
| "accepted_states (s # ss) a =
     (if valid_phase_step (cam_state a) s then s # accepted_states ss (snd (connection_transition s a))
      else accepted_states ss a)"

subsection \<open>Events\<close>

datatype TransportEventKind =
    ConnectionReady | FirstUpstreamRequestByte | RequestBodyComplete | ResponseHeaders
  | FirstResponseBodyByte | ResponseComplete | CancelRequested | CancelConfirmed | ConnectionDispositionEvent

record TransportEvent =
  ev_request_id :: RequestId
  ev_attempt_plan_id :: AttemptPlanId
  ev_connection_attempt_id :: ConnectionAttemptId
  ev_sequence :: u64
  ev_monotonic_ns :: u64
  ev_kind :: TransportEventKind
  ev_request_bytes_written :: u64
  ev_response_bytes_read :: u64
  ev_submission_complete :: bool
  ev_disposition :: "ConnectionDisposition option"
  ev_diagnostic_code :: "string option"

definition invariant_error :: "string \<Rightarrow> TransportError" where
  "invariant_error code = (engine_unavailable code)\<lparr>te_code := InternalInvariant\<rparr>"

subsection \<open>The in-memory sink\<close>

text \<open>The recorded events and whether the lock is poisoned.\<close>

type_synonym InMemoryEventSink = "TransportEvent list \<times> bool"

definition memory_snapshot :: "InMemoryEventSink \<Rightarrow> TransportEvent list" where
  "memory_snapshot m = (if snd m then [] else fst m)"

definition memory_emit :: "TransportEvent \<Rightarrow> InMemoryEventSink \<Rightarrow> (TransportError, unit) result \<times> InMemoryEventSink" where
  "memory_emit event m =
     (if snd m then (Inl (invariant_error ''transport_event_sink_poisoned''), m)
      else (Inr (), (fst m @ [event], snd m)))"

subsection \<open>The validating sink\<close>

record SequenceState =
  last_sequence :: u64
  last_main_rank :: u8
  promotion_seen :: bool
  cancel_requested :: bool
  cancel_confirmed :: bool
  disposition_seen :: bool

definition SequenceState_default :: SequenceState where
  "SequenceState_default =
     \<lparr>last_sequence = 0, last_main_rank = 0, promotion_seen = False, cancel_requested = False,
      cancel_confirmed = False, disposition_seen = False\<rparr>"

fun main_rank :: "TransportEventKind \<Rightarrow> u8" where
  "main_rank ConnectionReady = 1"
| "main_rank FirstUpstreamRequestByte = 2"
| "main_rank RequestBodyComplete = 3"
| "main_rank ResponseHeaders = 4"
| "main_rank FirstResponseBodyByte = 5"
| "main_rank ResponseComplete = 6"
| "main_rank _ = 0"

definition observe_main :: "TransportEventKind \<Rightarrow> SequenceState \<Rightarrow> (TransportError, SequenceState) result" where
  "observe_main kind s =
     (let rank = main_rank kind;
          valid_rank = (rank = saturating_add (last_main_rank s) 1 \<or>
                        kind = ResponseComplete \<and> last_main_rank s = 4)
      in if \<not> valid_rank \<or> cancel_requested s \<or> disposition_seen s \<or>
            (kind = FirstUpstreamRequestByte \<and> promotion_seen s)
         then Inl (invariant_error ''transport_event_phase_regression'')
         else let s1 = s\<lparr>last_main_rank := rank\<rparr>
              in Inr (if kind = FirstUpstreamRequestByte then s1\<lparr>promotion_seen := True\<rparr> else s1))"

text \<open>The checks of one event and the state they leave, before the inner sink is asked.\<close>

definition observe_event :: "TransportEvent \<Rightarrow> SequenceState \<Rightarrow> (TransportError, SequenceState) result" where
  "observe_event event s =
     (if ev_sequence event \<noteq> saturating_add (last_sequence s) 1
      then Inl (invariant_error ''transport_event_sequence_gap'')
      else case ev_kind event of
        CancelRequested \<Rightarrow>
          if cancel_requested s \<or> cancel_confirmed s \<or> disposition_seen s
          then Inl (invariant_error ''transport_cancel_event_duplicate'')
          else Inr (s\<lparr>cancel_requested := True\<rparr>)
      | CancelConfirmed \<Rightarrow>
          if \<not> cancel_requested s \<or> cancel_confirmed s \<or> disposition_seen s
          then Inl (invariant_error ''transport_cancel_confirmation_invalid'')
          else Inr (s\<lparr>cancel_confirmed := True\<rparr>)
      | ConnectionDispositionEvent \<Rightarrow>
          if disposition_seen s \<or> ev_disposition event = None
          then Inl (invariant_error ''transport_disposition_event_invalid'')
          else Inr (s\<lparr>disposition_seen := True\<rparr>)
      | kind \<Rightarrow> observe_main kind s)"

record 's MonotonicEventSink =
  sink_inner :: 's
  sink_state :: SequenceState
  sink_poisoned :: bool

definition MonotonicEventSink_new :: "'s \<Rightarrow> 's MonotonicEventSink" where
  "MonotonicEventSink_new inner =
     \<lparr>sink_inner = inner, sink_state = SequenceState_default, sink_poisoned = False\<rparr>"

definition monotonic_emit ::
  "(TransportEvent \<Rightarrow> 's \<Rightarrow> (TransportError, unit) result \<times> 's) \<Rightarrow> TransportEvent \<Rightarrow> 's MonotonicEventSink \<Rightarrow>
   (TransportError, unit) result \<times> 's MonotonicEventSink" where
  "monotonic_emit emit event m =
     (if sink_poisoned m then (Inl (invariant_error ''transport_event_sequence_poisoned''), m)
      else case observe_event event (sink_state m) of
        Inl e \<Rightarrow> (Inl e, m)
      | Inr s \<Rightarrow>
          (case emit event (sink_inner m) of
             (Inl e, inner) \<Rightarrow> (Inl e, m\<lparr>sink_inner := inner, sink_state := s\<rparr>)
           | (Inr _, inner) \<Rightarrow>
               (Inr (), m\<lparr>sink_inner := inner, sink_state := s\<lparr>last_sequence := ev_sequence event\<rparr>\<rparr>)))"

text \<open>The events a task emits, one after the other; the caller goes on after an error.\<close>

fun emit_all ::
  "(TransportEvent \<Rightarrow> 's \<Rightarrow> (TransportError, unit) result \<times> 's) \<Rightarrow> TransportEvent list \<Rightarrow> 's MonotonicEventSink \<Rightarrow>
   's MonotonicEventSink" where
  "emit_all emit [] m = m"
| "emit_all emit (ev # evs) m = emit_all emit evs (snd (monotonic_emit emit ev m))"

subsection \<open>The contract of a sink\<close>

text \<open>A sink keeps a log: an accepted event is appended to it, a refused one leaves it as it was.\<close>

locale event_sink =
  fixes emit :: "TransportEvent \<Rightarrow> 's \<Rightarrow> (TransportError, unit) result \<times> 's"
    and log :: "'s \<Rightarrow> TransportEvent list"
  assumes emit_ok: "emit ev s = (Inr u, s') \<Longrightarrow> log s' = log s @ [ev]"
    and emit_err: "emit ev s = (Inl e, s') \<Longrightarrow> log s' = log s"

interpretation memory: event_sink memory_emit fst
  by unfold_locales (auto simp: memory_emit_def split: if_splits)


subsection \<open>Connection attempts\<close>

text \<open>How far a connection attempt has come.\<close>

fun phase_rank :: "ConnectionAttemptState \<Rightarrow> nat" where
  "phase_rank Planned = 0"
| "phase_rank PoolLookup = 1"
| "phase_rank Resolving = 2"
| "phase_rank TcpConnecting = 3"
| "phase_rank ProxyTunneling = 4"
| "phase_rank TlsHandshaking = 5"
| "phase_rank AlpnNegotiating = 6"
| "phase_rank ProtocolReady = 7"
| "phase_rank _ = 8"

lemma phase_rank_le: "phase_rank s \<le> 8"
  by (cases s) simp_all

lemma phase_rank_step: "valid_phase_step s n \<Longrightarrow> phase_rank s < phase_rank n"
  by (cases s) (auto simp: valid_phase_step_def)

lemma valid_phase_promoted: "valid_phase_step s PromotedOnFirstByte \<longleftrightarrow> s = ProtocolReady"
  by (auto simp: valid_phase_step_def)

lemma valid_phase_after_promoted: "\<not> valid_phase_step PromotedOnFirstByte n"
  by (auto simp: valid_phase_step_def)

lemma cam_state_transition:
  "cam_state (snd (connection_transition s a)) = (if valid_phase_step (cam_state a) s then s else cam_state a)"
  by (simp add: connection_transition_def Let_def)

lemma cam_promoted_transition:
  "cam_promoted (snd (connection_transition s a)) =
     (cam_promoted a \<or> valid_phase_step (cam_state a) s \<and> s = PromotedOnFirstByte)"
  by (simp add: connection_transition_def Let_def)

lemma refused_transition: "\<not> valid_phase_step (cam_state a) s \<Longrightarrow> snd (connection_transition s a) = a"
  by (simp add: connection_transition_def)

lemma accepted_chain: "successively valid_phase_step (cam_state a # accepted_states ss a)"
proof (induction ss arbitrary: a)
  case (Cons s ss)
  from Cons.IH [of "snd (connection_transition s a)"] Cons.IH [of a] show ?case
    by (simp add: cam_state_transition split: if_splits)
qed simp

lemma run_state: "cam_state (connection_run ss a) = last (cam_state a # accepted_states ss a)"
  by (induction ss arbitrary: a) (auto simp: cam_state_transition refused_transition)

lemma run_promoted:
  "cam_promoted (connection_run ss a) = (cam_promoted a \<or> PromotedOnFirstByte \<in> set (accepted_states ss a))"
  by (induction ss arbitrary: a) (auto simp: cam_promoted_transition refused_transition)

lemma chain_bound: "successively valid_phase_step (s # path) \<Longrightarrow> phase_rank s + length path \<le> 8"
proof (induction path arbitrary: s)
  case Nil
  then show ?case by (simp add: phase_rank_le)
next
  case (Cons n path)
  then have "phase_rank s < phase_rank n" "phase_rank n + length path \<le> 8"
    by (auto dest: phase_rank_step)
  then show ?case by simp
qed

lemma chain_promoted:
  assumes "successively valid_phase_step (s # path)" "PromotedOnFirstByte \<in> set path"
  shows "\<exists>xs. s # path = xs @ [ProtocolReady, PromotedOnFirstByte]"
proof -
  obtain us vs where path: "path = us @ PromotedOnFirstByte # vs"
    using assms(2) by (meson split_list)
  have chain: "successively valid_phase_step ((s # us) @ PromotedOnFirstByte # vs)"
    using assms(1) path by simp
  then have "valid_phase_step (last (s # us)) PromotedOnFirstByte"
    and rest: "successively valid_phase_step (PromotedOnFirstByte # vs)"
    unfolding successively_append_iff by auto
  then have "last (s # us) = ProtocolReady" by (simp add: valid_phase_promoted)
  moreover have "vs = []" using rest by (cases vs) (auto simp: valid_phase_after_promoted)
  moreover have "s # us = butlast (s # us) @ [last (s # us)]" by simp
  ultimately show ?thesis
    using path by (metis append.assoc append_Cons append_Nil)
qed

text \<open>Whatever states a caller asks for, a connection attempt makes at most eight transitions; it is promoted to
  a message attempt exactly when it reached the first request byte, and then only directly from a
  ready protocol, once, as its last transition.\<close>

theorem connection_promotion:
  "let a = connection_run ss ConnectionAttemptMachine_default;
       path = accepted_states ss ConnectionAttemptMachine_default
   in length path \<le> 8 \<and> cam_state a = last (Planned # path) \<and>
      cam_promoted a = (cam_state a = PromotedOnFirstByte) \<and>
      cam_promoted a = (\<exists>xs. path = xs @ [ProtocolReady, PromotedOnFirstByte])"
proof -
  let ?d = ConnectionAttemptMachine_default
  define path where "path = accepted_states ss ?d"
  define a where "a = connection_run ss ?d"
  have chain: "successively valid_phase_step (Planned # path)"
    using accepted_chain [of ?d ss] by (simp add: path_def ConnectionAttemptMachine_default_def)
  have st: "cam_state a = last (Planned # path)"
    using run_state [of ss ?d] by (simp add: path_def a_def ConnectionAttemptMachine_default_def)
  have pr: "cam_promoted a = (PromotedOnFirstByte \<in> set path)"
    using run_promoted [of ss ?d] by (simp add: path_def a_def ConnectionAttemptMachine_default_def)
  have ends: "\<exists>xs. path = xs @ [ProtocolReady, PromotedOnFirstByte]" if promoted: "PromotedOnFirstByte \<in> set path"
  proof -
    obtain xs where xs: "Planned # path = xs @ [ProtocolReady, PromotedOnFirstByte]"
      using chain_promoted [OF chain promoted] by blast
    then show ?thesis by (cases xs) auto
  qed
  have "cam_promoted a = (\<exists>xs. path = xs @ [ProtocolReady, PromotedOnFirstByte])"
    using pr ends by auto
  moreover have "cam_promoted a = (cam_state a = PromotedOnFirstByte)"
  proof
    show "cam_state a = PromotedOnFirstByte" if "cam_promoted a"
      using that pr ends st by auto
    show "cam_promoted a" if "cam_state a = PromotedOnFirstByte"
      using that pr st last_in_set [of path] by (cases "path = []") auto
  qed
  moreover have "length path \<le> 8" using chain_bound [OF chain] by simp
  ultimately show ?thesis using st by (simp add: path_def a_def Let_def)
qed


subsection \<open>The order of events\<close>

text \<open>The place of an event in the life of an attempt.\<close>

fun stage :: "TransportEventKind \<Rightarrow> nat" where
  "stage ConnectionReady = 1"
| "stage FirstUpstreamRequestByte = 2"
| "stage RequestBodyComplete = 3"
| "stage ResponseHeaders = 4"
| "stage FirstResponseBodyByte = 5"
| "stage ResponseComplete = 6"
| "stage CancelRequested = 7"
| "stage CancelConfirmed = 8"
| "stage ConnectionDispositionEvent = 9"

text \<open>The highest stage the validating sink has let pass.\<close>

definition passed :: "SequenceState \<Rightarrow> nat" where
  "passed s =
     (if disposition_seen s then 9 else if cancel_confirmed s then 8 else if cancel_requested s then 7
      else unat (last_main_rank s))"

definition seq_wf :: "SequenceState \<Rightarrow> bool" where
  "seq_wf s \<longleftrightarrow> unat (last_main_rank s) \<le> 6 \<and> (promotion_seen s \<longleftrightarrow> 2 \<le> unat (last_main_rank s)) \<and>
     (if cancel_confirmed s then cancel_requested s else True)"

lemma unat_rank_succ: "unat (r :: u8) \<le> 6 \<Longrightarrow> unat (saturating_add r 1) = Suc (unat r)"
  by (simp add: unat_saturating_add)

lemma observe_main_ok:
  assumes "observe_main k s = Inr s'" "seq_wf s" "stage k \<le> 6"
  shows "seq_wf s' \<and> passed s < stage k \<and> passed s' = stage k \<and> last_sequence s' = last_sequence s"
proof -
  have rank: "unat (main_rank k) = stage k" using assms(3) by (cases k) simp_all
  have free: "\<not> cancel_requested s" "\<not> disposition_seen s"
    and r: "main_rank k = saturating_add (last_main_rank s) 1 \<or> k = ResponseComplete \<and> last_main_rank s = 4"
    and s': "s' = (if k = FirstUpstreamRequestByte then s\<lparr>last_main_rank := main_rank k, promotion_seen := True\<rparr>
                   else s\<lparr>last_main_rank := main_rank k\<rparr>)"
    using assms(1) by (auto simp: observe_main_def Let_def split: if_splits)
  have step: "stage k = Suc (unat (last_main_rank s)) \<or> k = ResponseComplete \<and> unat (last_main_rank s) = 4"
    using r rank assms(2) by (auto simp: seq_wf_def dest: arg_cong [where f = unat] simp: unat_rank_succ)
  have "promotion_seen s' \<longleftrightarrow> 2 \<le> stage k"
    using step assms(2) s' by (cases k) (auto simp: seq_wf_def)
  then show ?thesis
    using free step s' assms(2,3) rank by (auto simp: seq_wf_def passed_def)
qed

lemma observe_event_ok:
  assumes "observe_event ev s = Inr s'" "seq_wf s"
  shows "ev_sequence ev = saturating_add (last_sequence s) 1 \<and> seq_wf s' \<and> passed s < stage (ev_kind ev) \<and>
     passed s' = stage (ev_kind ev) \<and> last_sequence s' = last_sequence s"
proof -
  have seq: "ev_sequence ev = saturating_add (last_sequence s) 1"
    using assms(1) by (auto simp: observe_event_def split: if_splits)
  show ?thesis
  proof (cases "stage (ev_kind ev) \<le> 6")
    case True
    then have "observe_main (ev_kind ev) s = Inr s'"
      using assms(1) by (cases "ev_kind ev") (auto simp: observe_event_def split: if_splits)
    from observe_main_ok [OF this assms(2) True] seq show ?thesis by simp
  next
    case False
    then show ?thesis
      using assms seq by (cases "ev_kind ev") (auto simp: observe_event_def seq_wf_def passed_def split: if_splits)
  qed
qed


lemma stage_range: "1 \<le> stage k \<and> stage k \<le> 9"
  by (cases k) simp_all

lemma stages_bound:
  assumes "sorted_wrt (<) (map (stage \<circ> ev_kind) evs)"
  shows "length evs \<le> 9"
proof -
  have "distinct (map (stage \<circ> ev_kind) evs)"
    using assms by (simp add: strict_sorted_iff)
  moreover have "set (map (stage \<circ> ev_kind) evs) \<subseteq> {1..9}"
    using stage_range by auto
  ultimately have "length (map (stage \<circ> ev_kind) evs) \<le> card {1..9 :: nat}"
    by (metis card_mono distinct_card finite_atLeastAtMost)
  then show ?thesis by simp
qed

lemma next_sequence: "n \<le> 9 \<Longrightarrow> saturating_add (of_nat n) 1 = (of_nat (Suc n) :: u64)"
  by (simp add: saturating_add_def unat_of_nat)

definition log_ok :: "TransportEvent list \<Rightarrow> SequenceState \<Rightarrow> bool" where
  "log_ok evs s \<longleftrightarrow>
     seq_wf s \<and> sorted_wrt (<) (map (stage \<circ> ev_kind) evs) \<and> list_all (\<lambda>ev. stage (ev_kind ev) \<le> passed s) evs \<and>
     map ev_sequence evs = map of_nat [1..<Suc (length evs)] \<and> last_sequence s = of_nat (length evs)"

lemma log_ok_default: "log_ok [] SequenceState_default"
  by (simp add: log_ok_def seq_wf_def SequenceState_default_def)

lemma log_ok_refused:
  assumes "log_ok evs s" "observe_event ev s = Inr s'"
  shows "log_ok evs s'"
  using assms observe_event_ok [OF assms(2)] by (auto simp: log_ok_def list_all_iff)

lemma log_ok_accepted:
  assumes ok: "log_ok evs s" and obs: "observe_event ev s = Inr s'"
  shows "log_ok (evs @ [ev]) (s'\<lparr>last_sequence := ev_sequence ev\<rparr>)"
proof -
  have wf: "seq_wf s" using ok by (simp add: log_ok_def)
  note O = observe_event_ok [OF obs wf]
  have "length evs \<le> 9" using ok by (intro stages_bound) (simp add: log_ok_def)
  with ok O have seq: "ev_sequence ev = of_nat (Suc (length evs))"
    by (simp add: log_ok_def next_sequence)
  have frame: "seq_wf (s'\<lparr>last_sequence := x\<rparr>) = seq_wf s'" "passed (s'\<lparr>last_sequence := x\<rparr>) = passed s'" for x
    by (simp_all add: seq_wf_def passed_def)
  have below: "stage (ev_kind e) < stage (ev_kind ev)" if "e \<in> set evs" for e
    using that ok O by (auto simp: log_ok_def list_all_iff)
  show ?thesis
    using ok O seq below by (auto simp: log_ok_def frame sorted_wrt_append list_all_iff)
qed

context event_sink
begin

lemma monotonic_step:
  assumes "log_ok (log (sink_inner m)) (sink_state m)"
  shows "log_ok (log (sink_inner (snd (monotonic_emit emit ev m)))) (sink_state (snd (monotonic_emit emit ev m)))"
proof (cases "sink_poisoned m")
  case True
  then show ?thesis using assms by (simp add: monotonic_emit_def)
next
  case False
  show ?thesis
  proof (cases "observe_event ev (sink_state m)")
    case (Inl e)
    then show ?thesis using assms False by (simp add: monotonic_emit_def)
  next
    case (Inr s)
    obtain r inner where em: "emit ev (sink_inner m) = (r, inner)" by (cases "emit ev (sink_inner m)")
    show ?thesis
    proof (cases r)
      case (Inl e)
      then show ?thesis
        using em emit_err [of ev "sink_inner m" e inner] log_ok_refused [OF assms Inr] Inr False
        by (simp add: monotonic_emit_def)
    next
      case (Inr u)
      then show ?thesis
        using em emit_ok [of ev "sink_inner m" u inner] log_ok_accepted [OF assms] \<open>observe_event ev (sink_state m) = Inr s\<close> False
        by (simp add: monotonic_emit_def)
    qed
  qed
qed

lemma monotonic_log:
  "log_ok (log (sink_inner m)) (sink_state m) \<Longrightarrow>
   log_ok (log (sink_inner (emit_all emit evs m))) (sink_state (emit_all emit evs m))"
  by (induction evs arbitrary: m) (simp_all add: monotonic_step)

end

text \<open>The validating sink keeps the log in order: over any inner sink that appends what it accepts, and whatever
  events a task emits, the recorded events are numbered one, two, three without gap, follow the
  order of the life of an attempt, and no kind occurs twice; in particular there is at most one
  promotion, nothing follows the disposition, and at most nine events are recorded.\<close>

theorem event_log_ordered:
  assumes "event_sink emit log" and "log inner = []"
  shows "let evs' = log (sink_inner (emit_all emit evs (MonotonicEventSink_new inner)))
    in sorted_wrt (<) (map (stage \<circ> ev_kind) evs') \<and>
       map ev_sequence evs' = map of_nat [1..<Suc (length evs')] \<and> length evs' \<le> 9"
proof -
  have "log_ok (log (sink_inner (emit_all emit evs (MonotonicEventSink_new inner))))
      (sink_state (emit_all emit evs (MonotonicEventSink_new inner)))"
    using assms by (intro event_sink.monotonic_log) (simp_all add: MonotonicEventSink_new_def log_ok_default)
  then show ?thesis by (auto simp: log_ok_def Let_def intro: stages_bound)
qed


interpretation monotonic_memory: event_sink "monotonic_emit memory_emit" "fst \<circ> sink_inner"
  by unfold_locales
    (auto simp: monotonic_emit_def dest: memory.emit_ok memory.emit_err split: if_splits sum.splits prod.splits)

subsection \<open>The language of event logs\<close>

text \<open>Which event may follow a history of events, told in terms of the history alone.\<close>

fun follows :: "TransportEventKind list \<Rightarrow> TransportEventKind \<Rightarrow> bool" where
  "follows ks ConnectionReady = (ks = [])"
| "follows ks FirstUpstreamRequestByte = (ks = [ConnectionReady])"
| "follows ks RequestBodyComplete = (ks \<noteq> [] \<and> last ks = FirstUpstreamRequestByte)"
| "follows ks ResponseHeaders = (ks \<noteq> [] \<and> last ks = RequestBodyComplete)"
| "follows ks FirstResponseBodyByte = (ks \<noteq> [] \<and> last ks = ResponseHeaders)"
| "follows ks ResponseComplete = (ks \<noteq> [] \<and> (last ks = ResponseHeaders \<or> last ks = FirstResponseBodyByte))"
| "follows ks CancelRequested = (CancelRequested \<notin> set ks \<and> ConnectionDispositionEvent \<notin> set ks)"
| "follows ks CancelConfirmed =
     (CancelRequested \<in> set ks \<and> CancelConfirmed \<notin> set ks \<and> ConnectionDispositionEvent \<notin> set ks)"
| "follows ks ConnectionDispositionEvent = (ConnectionDispositionEvent \<notin> set ks)"

fun lifecycle :: "TransportEventKind list \<Rightarrow> TransportEventKind list \<Rightarrow> bool" where
  "lifecycle ks [] = True"
| "lifecycle ks (k # r) = (follows ks k \<and> lifecycle (ks @ [k]) r)"

definition describes :: "TransportEventKind list \<Rightarrow> SequenceState \<Rightarrow> bool" where
  "describes ks s \<longleftrightarrow>
     seq_wf s \<and> last_sequence s = of_nat (length ks) \<and> length ks \<le> passed s \<and>
     passed s = (if ks = [] then 0 else stage (last ks)) \<and>
     cancel_requested s = (CancelRequested \<in> set ks) \<and> cancel_confirmed s = (CancelConfirmed \<in> set ks) \<and>
     disposition_seen s = (ConnectionDispositionEvent \<in> set ks) \<and>
     (passed s = 1 \<longrightarrow> ks = [ConnectionReady])"

lemma describesD:
  assumes "describes ks s"
  shows "seq_wf s" "last_sequence s = of_nat (length ks)" "length ks \<le> passed s"
    "passed s = (if ks = [] then 0 else stage (last ks))"
    "cancel_requested s = (CancelRequested \<in> set ks)" "cancel_confirmed s = (CancelConfirmed \<in> set ks)"
    "disposition_seen s = (ConnectionDispositionEvent \<in> set ks)"
    "passed s = 1 \<Longrightarrow> ks = [ConnectionReady]"
  using assms unfolding describes_def by blast+

lemma passed_le: "seq_wf s \<Longrightarrow> passed s \<le> 9"
  by (auto simp: seq_wf_def passed_def)

lemma observe_main_iff:
  assumes "seq_wf s" "stage k \<le> 6"
  shows "is_ok (observe_main k s) \<longleftrightarrow>
     \<not> cancel_requested s \<and> \<not> disposition_seen s \<and>
     (stage k = Suc (passed s) \<or> k = ResponseComplete \<and> passed s = 4)"
proof -
  have r: "main_rank k = saturating_add (last_main_rank s) 1 \<longleftrightarrow> stage k = Suc (unat (last_main_rank s))"
  proof -
    have "unat (main_rank k) = stage k" using assms(2) by (cases k) simp_all
    then show ?thesis
      using assms(1) by (auto simp: seq_wf_def unat_rank_succ dest: arg_cong [where f = unat] intro!: word_unat_eq_iff [THEN iffD2])
  qed
  have "last_main_rank s = 4 \<longleftrightarrow> unat (last_main_rank s) = 4"
    by (auto simp: word_unat_eq_iff)
  then show ?thesis
    using assms r by (cases k) (auto simp: observe_main_def Let_def seq_wf_def passed_def)
qed


lemma passed_flags: "seq_wf s \<Longrightarrow> passed s \<le> 6 \<longleftrightarrow> \<not> cancel_requested s \<and> \<not> disposition_seen s"
  by (auto simp: passed_def seq_wf_def)

lemma stage_eq:
  "stage k = Suc 0 \<longleftrightarrow> k = ConnectionReady" "stage k = 2 \<longleftrightarrow> k = FirstUpstreamRequestByte"
  "stage k = 3 \<longleftrightarrow> k = RequestBodyComplete" "stage k = 4 \<longleftrightarrow> k = ResponseHeaders"
  "stage k = 5 \<longleftrightarrow> k = FirstResponseBodyByte" "stage k \<noteq> 0"
  by (cases k; simp)+

lemma follows_main:
  assumes "describes ks s" "stage k \<le> 6"
  shows "follows ks k \<longleftrightarrow> is_ok (observe_main k s)"
proof -
  note wf = describesD(1) [OF assms(1)] and p = describesD(4) [OF assms(1)] and one = describesD(8) [OF assms(1)]
  have "follows ks k \<longleftrightarrow> passed s \<le> 6 \<and> (stage k = Suc (passed s) \<or> k = ResponseComplete \<and> passed s = 4)"
  proof (cases "ks = []")
    case True
    then show ?thesis using assms(2) p by (cases k) simp_all
  next
    case False
    have "passed s = 1" if "last ks = ConnectionReady" using that False p by simp
    then have "ks = [ConnectionReady] \<longleftrightarrow> last ks = ConnectionReady"
      using one by (metis last.simps)
    then show ?thesis using assms(2) p False by (cases k; cases "last ks") simp_all
  qed
  then show ?thesis
    using observe_main_iff [OF wf assms(2)] passed_flags [OF wf] by blast
qed

lemma describes_accepts:
  assumes "describes ks s"
  shows "is_ok (observe_event ev s) \<longleftrightarrow>
     ev_sequence ev = of_nat (Suc (length ks)) \<and> follows ks (ev_kind ev) \<and>
     \<not> (ev_kind ev = ConnectionDispositionEvent \<and> ev_disposition ev = None)"
proof -
  have "length ks \<le> 9" using describesD(3) [OF assms] passed_le [OF describesD(1) [OF assms]] by linarith
  then have seq: "saturating_add (last_sequence s) 1 = of_nat (Suc (length ks))"
    using describesD(2) [OF assms] next_sequence by simp
  note flags = describesD(5-7) [OF assms]
  have conf: "\<not> cancel_requested s \<Longrightarrow> \<not> cancel_confirmed s"
    using describesD(1) [OF assms] by (auto simp: seq_wf_def split: if_splits)
  show ?thesis
  proof (cases "stage (ev_kind ev) \<le> 6")
    case True
    then have "is_ok (observe_event ev s) \<longleftrightarrow> ev_sequence ev = of_nat (Suc (length ks)) \<and> is_ok (observe_main (ev_kind ev) s)"
      unfolding observe_event_def seq by (cases "ev_kind ev") auto
    with follows_main [OF assms True] True show ?thesis by (cases "ev_kind ev") auto
  next
    case False
    then show ?thesis
      using conf unfolding observe_event_def seq flags
      by (cases "ev_kind ev") auto
  qed
qed

lemma describes_next:
  assumes "describes ks s" and "observe_event ev s = Inr s'"
  shows "describes (ks @ [ev_kind ev]) (s'\<lparr>last_sequence := ev_sequence ev\<rparr>)"
proof -
  note wf = describesD(1) [OF assms(1)]
  have acc: "ev_sequence ev = of_nat (Suc (length ks))" "follows ks (ev_kind ev)"
    using describes_accepts [OF assms(1), of ev] assms(2) by auto
  have fl: "cancel_requested s' = (CancelRequested = ev_kind ev \<or> cancel_requested s)"
    "cancel_confirmed s' = (CancelConfirmed = ev_kind ev \<or> cancel_confirmed s)"
    "disposition_seen s' = (ConnectionDispositionEvent = ev_kind ev \<or> disposition_seen s)"
    using assms(2) by (cases "ev_kind ev"; auto simp: observe_event_def observe_main_def Let_def split: if_splits)+
  have "ks @ [ev_kind ev] = [ConnectionReady]" if "stage (ev_kind ev) = 1"
    using that acc by (cases "ev_kind ev") auto
  moreover have frame: "seq_wf (s'\<lparr>last_sequence := x\<rparr>) = seq_wf s'" "passed (s'\<lparr>last_sequence := x\<rparr>) = passed s'" for x
    by (simp_all add: seq_wf_def passed_def)
  ultimately show ?thesis
    using observe_event_ok [OF assms(2) wf] acc(1) fl describesD(3,5-7) [OF assms(1)]
    unfolding describes_def by simp
qed

lemma describes_default: "describes [] SequenceState_default"
  by (simp add: describes_def seq_wf_def passed_def SequenceState_default_def)


text \<open>Whether the validating sink lets every event of a list pass, when the inner sink accepts them.\<close>

fun all_observed :: "TransportEvent list \<Rightarrow> SequenceState \<Rightarrow> bool" where
  "all_observed [] s = True"
| "all_observed (ev # evs) s =
     (case observe_event ev s of
        Inl _ \<Rightarrow> False
      | Inr s' \<Rightarrow> all_observed evs (s'\<lparr>last_sequence := ev_sequence ev\<rparr>))"

lemma all_observed_iff:
  "describes ks s \<Longrightarrow>
   all_observed evs s \<longleftrightarrow>
     lifecycle ks (map ev_kind evs) \<and>
     map ev_sequence evs = map of_nat [Suc (length ks)..<Suc (length ks) + length evs] \<and>
     filter (\<lambda>ev. ev_kind ev = ConnectionDispositionEvent \<and> ev_disposition ev = None) evs = []"
proof (induction evs arbitrary: ks s)
  case (Cons ev evs)
  have upt: "[Suc (length ks)..<Suc (length ks) + length (ev # evs)] =
      Suc (length ks) # [Suc (length (ks @ [ev_kind ev]))..<Suc (length (ks @ [ev_kind ev])) + length evs]"
    by (simp add: upt_conv_Cons del: upt_Suc)
  show ?case
  proof (cases "observe_event ev s")
    case (Inl e)
    then show ?thesis
      using describes_accepts [OF Cons.prems, of ev] unfolding upt by auto
  next
    case (Inr s')
    with describes_accepts [OF Cons.prems, of ev] Cons.IH [OF describes_next [OF Cons.prems Inr]]
    show ?thesis unfolding upt by auto
  qed
qed simp

lemma memory_step:
  "\<not> sink_poisoned m \<Longrightarrow> \<not> snd (sink_inner m) \<Longrightarrow>
   snd (monotonic_emit memory_emit ev m) =
     (case observe_event ev (sink_state m) of
        Inl _ \<Rightarrow> m
      | Inr s \<Rightarrow> m\<lparr>sink_inner := (fst (sink_inner m) @ [ev], False), sink_state := s\<lparr>last_sequence := ev_sequence ev\<rparr>\<rparr>)"
  by (auto simp: monotonic_emit_def memory_emit_def split: sum.splits)

lemma memory_log_length:
  "\<not> sink_poisoned m \<Longrightarrow> \<not> snd (sink_inner m) \<Longrightarrow>
   length (fst (sink_inner (emit_all memory_emit evs m))) \<le> length (fst (sink_inner m)) + length evs"
proof (induction evs arbitrary: m)
  case (Cons ev evs)
  then show ?case
    using Cons.IH [of "snd (monotonic_emit memory_emit ev m)"]
    by (cases "observe_event ev (sink_state m)") (simp_all add: memory_step le_SucI)
qed simp

lemma memory_log_full:
  "\<not> sink_poisoned m \<Longrightarrow> \<not> snd (sink_inner m) \<Longrightarrow>
   fst (sink_inner (emit_all memory_emit evs m)) = fst (sink_inner m) @ evs \<longleftrightarrow> all_observed evs (sink_state m)"
proof (induction evs arbitrary: m)
  case (Cons ev evs)
  show ?case
  proof (cases "observe_event ev (sink_state m)")
    case (Inl e)
    then show ?thesis
      using Cons.prems memory_log_length [OF Cons.prems, of evs] by (auto simp: memory_step)
  next
    case (Inr s)
    let ?m = "m\<lparr>sink_inner := (fst (sink_inner m) @ [ev], False), sink_state := s\<lparr>last_sequence := ev_sequence ev\<rparr>\<rparr>"
    show ?thesis
      using Inr Cons.prems Cons.IH [of ?m] by (simp add: memory_step)
  qed
qed simp

text \<open>C37. The exact language of the validating sink: a list of events is recorded in full by a fresh in-memory sink
  if and only if each event may follow the ones before it, the sequence numbers count from one,
  and every disposition event carries a disposition.\<close>

theorem event_log_language:
  "fst (sink_inner (emit_all memory_emit evs (MonotonicEventSink_new ([], False)))) = evs \<longleftrightarrow>
     lifecycle [] (map ev_kind evs) \<and> map ev_sequence evs = map of_nat [1..<Suc (length evs)] \<and>
     filter (\<lambda>ev. ev_kind ev = ConnectionDispositionEvent \<and> ev_disposition ev = None) evs = []"
  using memory_log_full [of "MonotonicEventSink_new ([], False)" evs] all_observed_iff [OF describes_default, of evs]
  by (simp add: MonotonicEventSink_new_def)

subsection \<open>A refusal of the inner sink\<close>

text \<open>The validating sink notes an event before the inner sink has accepted it. Once the inner sink refuses an
  event that passed the checks, emitting it again is refused for ever, even over a sink that has
  recovered.\<close>

theorem refused_event_lost:
  assumes "\<not> sink_poisoned m" and "seq_wf (sink_state m)" and "is_ok (observe_event ev (sink_state m))"
    and "monotonic_emit emit ev m = (Inl e, m')"
  shows "isl (fst (monotonic_emit emit' ev m'))"
proof -
  obtain s where s: "observe_event ev (sink_state m) = Inr s"
    using assms(3) by (cases "observe_event ev (sink_state m)") auto
  then have m': "sink_state m' = s" "\<not> sink_poisoned m'"
    using assms(1,4) by (auto simp: monotonic_emit_def split: prod.splits sum.splits)
  note O = observe_event_ok [OF s assms(2)]
  have "isl (observe_event ev s)"
  proof (rule ccontr)
    assume "is_ok (observe_event ev s)"
    then obtain s2 where s2: "observe_event ev s = Inr s2" by (cases "observe_event ev s") auto
    from observe_event_ok [OF s2] O show False by simp
  qed
  with m' show ?thesis by (auto simp: monotonic_emit_def split: sum.splits)
qed


text \<open>An inner sink that refuses its second event and accepts the others: what it has recorded, and the number
  of events it was asked to take.\<close>

definition flaky_emit ::
  "TransportEvent \<Rightarrow> TransportEvent list \<times> nat \<Rightarrow> (TransportError, unit) result \<times> (TransportEvent list \<times> nat)" where
  "flaky_emit ev s =
     (if snd s = 1 then (Inl (invariant_error ''sink_unavailable''), (fst s, 2))
      else (Inr (), (fst s @ [ev], Suc (snd s))))"

interpretation flaky: event_sink flaky_emit fst
  by unfold_locales (auto simp: flaky_emit_def split: if_splits)

definition sample_event :: "u64 \<Rightarrow> TransportEventKind \<Rightarrow> TransportEvent" where
  "sample_event n k =
     \<lparr>ev_request_id = TypedId ''request_1'', ev_attempt_plan_id = TypedId ''plan_1'',
      ev_connection_attempt_id = TypedId ''connection_1'', ev_sequence = n, ev_monotonic_ns = n, ev_kind = k,
      ev_request_bytes_written = 0, ev_response_bytes_read = 0, ev_submission_complete = False,
      ev_disposition = None, ev_diagnostic_code = None\<rparr>"

text \<open>After such a refusal the validating sink accepts the next phase under the same sequence number: the log then
  records a completed upload of an attempt whose promotion it never saw, although the sink is
  documented to reject gaps.\<close>

theorem refused_promotion_leaves_gap:
  "map ev_kind (fst (sink_inner (emit_all flaky_emit
      [sample_event 1 ConnectionReady, sample_event 2 FirstUpstreamRequestByte,
       sample_event 2 FirstUpstreamRequestByte, sample_event 2 RequestBodyComplete]
      (MonotonicEventSink_new ([], 0))))) = [ConnectionReady, RequestBodyComplete]"
  by (simp add: sample_event_def monotonic_emit_def flaky_emit_def observe_event_def observe_main_def
      MonotonicEventSink_new_def SequenceState_default_def saturating_add_def invariant_error_def Let_def)

theorem event_log_ordered_witness:
  "let evs' = fst (sink_inner (emit_all flaky_emit [sample_event 1 ConnectionReady]
       (MonotonicEventSink_new ([], 0))))
   in sorted_wrt (<) (map (stage \<circ> ev_kind) evs') \<and>
      map ev_sequence evs' = map of_nat [1..<Suc (length evs')] \<and> length evs' \<le> 9"
  by (rule event_log_ordered [OF flaky.event_sink_axioms]) simp

theorem refused_event_lost_witness:
  "let m' = snd (monotonic_emit flaky_emit (sample_event 1 ConnectionReady) (MonotonicEventSink_new ([], 1)))
   in isl (fst (monotonic_emit flaky_emit (sample_event 1 ConnectionReady) m'))"
proof -
  let ?ev = "sample_event 1 ConnectionReady"
  let ?m = "MonotonicEventSink_new ([] :: TransportEvent list, 1 :: nat)"
  have "is_ok (observe_event ?ev (sink_state ?m))" "\<not> sink_poisoned ?m" "seq_wf (sink_state ?m)"
    by (simp_all add: sample_event_def observe_event_def observe_main_def MonotonicEventSink_new_def
        SequenceState_default_def saturating_add_def seq_wf_def)
  moreover have "\<exists>e. fst (monotonic_emit flaky_emit ?ev ?m) = Inl e"
    by (simp add: sample_event_def monotonic_emit_def flaky_emit_def observe_event_def observe_main_def
      MonotonicEventSink_new_def SequenceState_default_def saturating_add_def)
  ultimately show ?thesis
    using refused_event_lost [of ?m ?ev flaky_emit _ "snd (monotonic_emit flaky_emit ?ev ?m)" flaky_emit]
    unfolding Let_def by (metis prod.collapse)
qed

end
