(* ===== verification/Quota_Headers.thy ===== *)
theory Quota_Headers
  imports Text_Codec
begin

text \<open>
  The parser of subscription quota headers, \<^verbatim>\<open>gateway-services/quota.rs\<close>. Utilization is read as an
  exact number of billionths. SHA-256 is an argument.
\<close>

subsection \<open>Data\<close>

datatype SubscriptionQuotaWindow = FiveHour | SevenDay

fun window_code :: "SubscriptionQuotaWindow \<Rightarrow> string" where
  "window_code FiveHour = ''five_hour''"
| "window_code SevenDay = ''seven_day''"

record SubscriptionQuotaObservation =
  qo_window :: SubscriptionQuotaWindow
  utilization_nanos :: u32
  reset_epoch_seconds :: u64
  header_digest :: "u8 list"

record SubscriptionQuotaParse =
  observations :: "SubscriptionQuotaObservation list"
  rejected_windows :: u8

subsection \<open>Values\<close>

definition matching_values :: "(string \<times> string) list \<Rightarrow> string \<Rightarrow> string list" where
  "matching_values headers name = map snd (filter (\<lambda>(candidate, _). eq_ignore_ascii_case candidate name) headers)"

definition strict_header_text :: "string \<Rightarrow> string option" where
  "strict_header_text s =
     (case utf8_trim s of
        None \<Rightarrow> None
      | Some t \<Rightarrow> if t \<noteq> [] \<and> length t \<le> 64 \<and> CHR '','' \<notin> set t then Some t else None)"

definition parse_utilization_nanos :: "string \<Rightarrow> u32 option" where
  "parse_utilization_nanos s =
     (let (whole, fractional) = (case split_once CHR ''.'' s of None \<Rightarrow> (s, []) | Some parts \<Rightarrow> parts)
      in if \<not> (whole = ''0'' \<or> whole = ''1'') \<or> length fractional > 9 \<or> \<not> list_all is_ascii_digit fractional \<or>
            (whole = ''1'' \<and> list_ex (\<lambda>b. b \<noteq> CHR ''0'') fractional)
         then None
         else if whole = ''1'' then Some 1000000000
         else if fractional = [] then Some 0
         else case parse_u32 fractional of
             None \<Rightarrow> None
           | Some n \<Rightarrow>
               (let p = 10 ^ (9 - length fractional)
                in if unat n * p < 2 ^ 32 then Some (n * of_nat p) else None))"

subsection \<open>Headers\<close>

definition window_prefix :: "SubscriptionQuotaWindow \<Rightarrow> string" where
  "window_prefix w =
     (case w of FiveHour \<Rightarrow> ''anthropic-ratelimit-unified-5h'' | SevenDay \<Rightarrow> ''anthropic-ratelimit-unified-7d'')"

definition utilization_name :: "SubscriptionQuotaWindow \<Rightarrow> string" where
  "utilization_name w = window_prefix w @ ''-utilization''"

definition reset_name :: "SubscriptionQuotaWindow \<Rightarrow> string" where
  "reset_name w = window_prefix w @ ''-reset''"

definition reject_window :: "SubscriptionQuotaParse \<Rightarrow> SubscriptionQuotaParse" where
  "reject_window p = p\<lparr>rejected_windows := saturating_add (rejected_windows p) 1\<rparr>"

text \<open>One turn of the loop over the windows.\<close>

definition parse_window ::
  "(string \<Rightarrow> u8 list) \<Rightarrow> (string \<times> string) list \<Rightarrow> SubscriptionQuotaWindow \<Rightarrow> SubscriptionQuotaParse \<Rightarrow>
   SubscriptionQuotaParse" where
  "parse_window sha256 headers w parsed =
     (let utilization = matching_values headers (utilization_name w);
          reset = matching_values headers (reset_name w)
      in if utilization = [] \<and> reset = [] then parsed
         else if length utilization \<noteq> 1 \<or> length reset \<noteq> 1 then reject_window parsed
         else (case strict_header_text (hd utilization) of
           None \<Rightarrow> reject_window parsed
         | Some utilization_text \<Rightarrow>
             (case strict_header_text (hd reset) of
                None \<Rightarrow> reject_window parsed
              | Some reset_text \<Rightarrow>
                  (case parse_utilization_nanos utilization_text of
                     None \<Rightarrow> reject_window parsed
                   | Some nanos \<Rightarrow>
                       (case parse_u64 reset_text of
                          None \<Rightarrow> reject_window parsed
                        | Some epoch \<Rightarrow>
                            parsed\<lparr>observations := observations parsed @
                              [\<lparr>qo_window = w, utilization_nanos = nanos, reset_epoch_seconds = epoch,
                                header_digest = sha256 (utilization_name w @ [CHR 0x00] @ utilization_text @
                                  [CHR 0x00] @ reset_name w @ [CHR 0x00] @ reset_text)\<rparr>]\<rparr>)))))"

definition parse_subscription_quota_headers ::
  "(string \<Rightarrow> u8 list) \<Rightarrow> (string \<times> string) list \<Rightarrow> SubscriptionQuotaParse" where
  "parse_subscription_quota_headers sha256 headers =
     fold (parse_window sha256 headers) [FiveHour, SevenDay] \<lparr>observations = [], rejected_windows = 0\<rparr>"

subsection \<open>The decimal a utilization denotes\<close>

text \<open>The grammar: a zero or a one, optionally a point and up to nine digits, and not above one. Its value
  in billionths.\<close>

definition is_utilization :: "string \<Rightarrow> string \<Rightarrow> bool" where
  "is_utilization whole fractional \<longleftrightarrow>
     (whole = ''0'' \<or> whole = ''1'' \<and> digits_nat fractional = 0) \<and> length fractional \<le> 9 \<and>
     list_all is_ascii_digit fractional"

definition billionths :: "string \<Rightarrow> string \<Rightarrow> nat" where
  "billionths whole fractional =
     digits_nat whole * 10 ^ 9 + digits_nat fractional * 10 ^ (9 - length fractional)"

lemma parse_u32_digits:
  assumes "list_all is_ascii_digit s" "s \<noteq> []" "length s \<le> 9"
  shows "\<exists>n. parse_u32 s = Some n \<and> unat n = digits_nat s"
proof -
  have less: "digits_nat s < 10 ^ length s" by (rule digits_nat_less) (rule assms)
  also have "(10 :: nat) ^ length s \<le> 10 ^ 9" using assms(3) by (intro power_increasing) auto
  finally have bound: "digits_nat s < 1000000000" by simp
  have "hd s \<noteq> CHR ''+''" using assms by (cases s) (auto simp: is_ascii_digit_def)
  then have "parse_unsigned (2 ^ 32 - 1) s = Some (digits_nat s)"
    using digits_value_foldl [OF assms(1), of 0 "2 ^ 32 - 1"] assms(2) bound
    by (cases s) (simp_all add: parse_unsigned_def digits_nat_def)
  then show ?thesis
    using bound by (simp add: parse_u32_def unat_of_nat)
qed

lemma utilization_split:
  "(case split_once CHR ''.'' s of None \<Rightarrow> (s, []) | Some parts \<Rightarrow> parts) = (whole, fractional) \<Longrightarrow>
   s = whole \<and> fractional = [] \<or> s = whole @ CHR ''.'' # fractional"
  by (auto simp: split_once_Some split: option.splits)

lemma fraction_small:
  assumes "list_all is_ascii_digit f" "length f \<le> 9"
  shows "digits_nat f * 10 ^ (9 - length f) < 10 ^ 9"
proof -
  have "digits_nat f * 10 ^ (9 - length f) < 10 ^ length f * 10 ^ (9 - length f)"
    using digits_nat_less [OF assms(1)] by simp
  also have "(10 :: nat) ^ length f * 10 ^ (9 - length f) = 10 ^ 9"
    using assms(2) by (simp flip: power_add)
  finally show ?thesis .
qed

lemma unat_mult_of_nat:
  assumes "unat (n :: u32) * q < 2 ^ 32"
  shows "unat (n * of_nat q) = unat n * q"
proof -
  have "n * of_nat q = of_nat (unat n * q)" by simp
  then show ?thesis using assms by (simp only: unat_of_nat) simp
qed

lemma parse_utilization_parts:
  assumes "(case split_once CHR ''.'' s of None \<Rightarrow> (s, []) | Some parts \<Rightarrow> parts) = (whole, fractional)"
  shows "map_option unat (parse_utilization_nanos s) =
     (if is_utilization whole fractional then Some (billionths whole fractional) else None)"
proof (cases "is_utilization whole fractional")
  case False
  then have "parse_utilization_nanos s = None"
    unfolding parse_utilization_nanos_def Let_def assms prod.case
    using digits_nat_zero [of fractional] by (auto simp: is_utilization_def)
  with False show ?thesis by simp
next
  case True
  then have f: "list_all is_ascii_digit fractional" "length fractional \<le> 9"
    and w: "whole = ''0'' \<or> whole = ''1'' \<and> digits_nat fractional = 0"
    by (auto simp: is_utilization_def)
  have "map_option unat (parse_utilization_nanos s) = Some (billionths whole fractional)"
  proof (cases "whole = ''1''")
    case one: True
    with w f digits_nat_zero [OF f(1)] show ?thesis
      unfolding parse_utilization_nanos_def Let_def assms prod.case
      by (auto simp: billionths_def digits_nat_def)
  next
    case zero: False
    show ?thesis
    proof (cases "fractional = []")
      case True
      with w zero show ?thesis
        unfolding parse_utilization_nanos_def Let_def assms prod.case
        by (simp add: billionths_def digits_nat_def)
    next
      case False
      obtain n where n: "parse_u32 fractional = Some n" "unat n = digits_nat fractional"
        using parse_u32_digits [OF f(1) False f(2)] by blast
      let ?p = "10 ^ (9 - length fractional) :: nat"
      have small: "digits_nat fractional * ?p < 1000000000" using fraction_small [OF f] by simp
      moreover have "unat (n * of_nat ?p) = digits_nat fractional * ?p"
        using unat_mult_of_nat [of n ?p] small n(2) by simp
      ultimately have "map_option unat (parse_utilization_nanos s) = Some (digits_nat fractional * ?p)"
        unfolding parse_utilization_nanos_def Let_def assms prod.case
        using w zero f False n by (simp add: not_less)
      with w zero show ?thesis by (simp add: billionths_def digits_nat_def)
    qed
  qed
  with True show ?thesis by simp
qed


text \<open>A utilization is read exactly: the parser accepts precisely the decimals from zero to one with at most nine
  digits after the point, and the number of billionths it returns is the decimal itself, never
  rounded, never above one and never wrapped.\<close>

theorem utilization_exact:
  "let (whole, fractional) = (case split_once CHR ''.'' s of None \<Rightarrow> (s, []) | Some parts \<Rightarrow> parts)
   in map_option unat (parse_utilization_nanos s) =
        (if is_utilization whole fractional then Some (billionths whole fractional) else None) \<and>
      (case parse_utilization_nanos s of
         None \<Rightarrow> True
       | Some n \<Rightarrow> unat n \<le> 1000000000 \<and>
           unat n * 10 ^ length fractional = (digits_nat whole * 10 ^ length fractional + digits_nat fractional) * 10 ^ 9)"
proof -
  obtain whole fractional
    where parts: "(case split_once CHR ''.'' s of None \<Rightarrow> (s, []) | Some parts \<Rightarrow> parts) = (whole, fractional)"
    by fastforce
  note P = parse_utilization_parts [OF parts]
  have "unat n \<le> 1000000000 \<and>
      unat n * 10 ^ length fractional = (digits_nat whole * 10 ^ length fractional + digits_nat fractional) * 10 ^ 9"
    if "parse_utilization_nanos s = Some n" for n
  proof -
    have u: "is_utilization whole fractional" and n: "unat n = billionths whole fractional"
      using P that by (auto split: if_splits)
    have f: "length fractional \<le> 9" "list_all is_ascii_digit fractional" using u by (auto simp: is_utilization_def)
    have "(10 :: nat) ^ (9 - length fractional) * 10 ^ length fractional = 10 ^ 9"
      using f(1) by (simp flip: power_add)
    then have "digits_nat fractional * 10 ^ (9 - length fractional) * 10 ^ length fractional = digits_nat fractional * 10 ^ 9"
      by (metis mult.assoc)
    moreover have "unat n \<le> 1000000000"
      using n u fraction_small [OF f(2,1)] by (auto simp: billionths_def is_utilization_def digits_nat_def)
    ultimately show ?thesis
      by (simp add: n billionths_def algebra_simps)
  qed
  then show ?thesis
    unfolding parts Let_def prod.case using P by (auto split: option.splits)
qed

subsection \<open>Windows\<close>

definition mentioned :: "(string \<times> string) list \<Rightarrow> SubscriptionQuotaWindow \<Rightarrow> bool" where
  "mentioned headers w \<longleftrightarrow>
     matching_values headers (utilization_name w) \<noteq> [] \<or> matching_values headers (reset_name w) \<noteq> []"

text \<open>An observation is backed by exactly one header of each of its two names, and is what they say.\<close>

definition backed :: "(string \<times> string) list \<Rightarrow> SubscriptionQuotaObservation \<Rightarrow> bool" where
  "backed headers obs \<longleftrightarrow>
     map (\<lambda>v. Option.bind (strict_header_text v) parse_utilization_nanos)
       (matching_values headers (utilization_name (qo_window obs))) = [Some (utilization_nanos obs)] \<and>
     map (\<lambda>v. Option.bind (strict_header_text v) parse_u64)
       (matching_values headers (reset_name (qo_window obs))) = [Some (reset_epoch_seconds obs)] \<and>
     unat (utilization_nanos obs) \<le> 1000000000"

lemma utilization_le: "parse_utilization_nanos s = Some n \<Longrightarrow> unat n \<le> 1000000000"
proof -
  assume s: "parse_utilization_nanos s = Some n"
  obtain whole fractional
    where parts: "(case split_once CHR ''.'' s of None \<Rightarrow> (s, []) | Some parts \<Rightarrow> parts) = (whole, fractional)"
    by fastforce
  with parse_utilization_parts [OF parts] s
  have u: "is_utilization whole fractional" and n: "unat n = billionths whole fractional"
    by (auto split: if_splits)
  then show ?thesis
    using fraction_small [of fractional] by (auto simp: billionths_def is_utilization_def digits_nat_def)
qed

lemma parse_window_cases:
  "(\<exists>obs. parse_window sha256 headers w p = p\<lparr>observations := observations p @ [obs]\<rparr> \<and>
      qo_window obs = w \<and> mentioned headers w \<and> backed headers obs) \<or>
   parse_window sha256 headers w p = reject_window p \<and> mentioned headers w \<or>
   parse_window sha256 headers w p = p \<and> \<not> mentioned headers w"
proof (cases "\<exists>u r. matching_values headers (utilization_name w) = [u] \<and> matching_values headers (reset_name w) = [r]")
  case False
  then show ?thesis
    by (auto simp: parse_window_def mentioned_def Let_def length_Suc_conv)
next
  case True
  then obtain u r where ur: "matching_values headers (utilization_name w) = [u]"
      "matching_values headers (reset_name w) = [r]" by blast
  show ?thesis
  proof (cases "Option.bind (strict_header_text u) parse_utilization_nanos")
    case None
    then have "parse_window sha256 headers w p = reject_window p"
      using ur by (auto simp: parse_window_def split: option.splits)
    then show ?thesis using ur by (simp add: mentioned_def)
  next
    case (Some nanos)
    then obtain ut where ut: "strict_header_text u = Some ut" "parse_utilization_nanos ut = Some nanos"
      by (auto simp: bind_eq_Some_conv)
    show ?thesis
    proof (cases "Option.bind (strict_header_text r) parse_u64")
      case None
      then have "parse_window sha256 headers w p = reject_window p"
        using ur ut by (auto simp: parse_window_def split: option.splits)
      then show ?thesis using ur by (simp add: mentioned_def)
    next
      case epoch: (Some epoch)
      then obtain rt where rt: "strict_header_text r = Some rt" "parse_u64 rt = Some epoch"
        by (auto simp: bind_eq_Some_conv)
      define obs where "obs = \<lparr>qo_window = w, utilization_nanos = nanos, reset_epoch_seconds = epoch,
        header_digest = sha256 (utilization_name w @ [CHR 0x00] @ ut @ [CHR 0x00] @ reset_name w @ [CHR 0x00] @ rt)\<rparr>"
      have "parse_window sha256 headers w p = p\<lparr>observations := observations p @ [obs]\<rparr>"
        using ur ut rt by (simp add: parse_window_def obs_def)
      moreover have "qo_window obs = w" "mentioned headers w" "backed headers obs"
        using ur ut rt utilization_le [OF ut(2)] by (simp_all add: obs_def mentioned_def backed_def)
      ultimately show ?thesis by blast
    qed
  qed
qed

text \<open>Quota windows are read without guessing: every observation comes from exactly one utilization header and one
  reset header of its window and carries the values they denote; each window is observed at
  most once, in order; and every window that is mentioned at all is either observed or counted as
  rejected.\<close>

theorem quota_windows_accounted:
  "let r = parse_subscription_quota_headers sha256 headers
   in list_all (backed headers) (observations r) \<and>
      sorted_wrt (\<lambda>a b. a = FiveHour \<and> b = SevenDay) (map qo_window (observations r)) \<and>
      length (observations r) + unat (rejected_windows r) =
        length (filter (mentioned headers) [FiveHour, SevenDay])"
proof -
  define p0 :: SubscriptionQuotaParse where "p0 = \<lparr>observations = [], rejected_windows = 0\<rparr>"
  define p1 where "p1 = parse_window sha256 headers FiveHour p0"
  have r: "parse_subscription_quota_headers sha256 headers = parse_window sha256 headers SevenDay p1"
    by (simp add: parse_subscription_quota_headers_def p1_def p0_def)
  have "list_all (backed headers) (observations p1) \<and>
      (observations p1 = [] \<or> map qo_window (observations p1) = [FiveHour]) \<and>
      length (observations p1) + unat (rejected_windows p1) = (if mentioned headers FiveHour then 1 else 0)"
    using parse_window_cases [of sha256 headers FiveHour p0]
    by (auto simp: p1_def [symmetric] reject_window_def unat_saturating_add) (auto simp: p0_def)
  moreover have "unat (rejected_windows p1) + 1 < 256" using calculation by (auto split: if_splits)
  ultimately show ?thesis
    using parse_window_cases [of sha256 headers SevenDay p1]
    unfolding r Let_def by (auto simp: reject_window_def unat_saturating_add sorted_wrt_append split: if_splits)
qed

end
