(* ===== verification/Json_Value.thy ===== *)
theory Json_Value
  imports Text_Codec
begin

text \<open>
  JSON values as \<^verbatim>\<open>serde_json\<close> documents them. The workspace enables its \<^verbatim>\<open>preserve_order\<close> feature, so an
  object is the list of its members in insertion order: inserting a present key replaces the value in
  place, and removing a key moves the last member into its place. A number is a non-negative integer that fits
  64 bits, a negative one given by its two's complement, or a finite \<^verbatim>\<open>f64\<close> given by its bits.
\<close>

datatype Json =
    JNull | JBool bool | JU64 u64 | JI64 u64 | JF64 u64 | JString string | JArray "Json list" | JObject "(string \<times> Json) list"

fun json_get :: "string \<Rightarrow> Json \<Rightarrow> Json option" where
  "json_get k (JObject m) = map_of m k"
| "json_get k _ = None"

text \<open>\<^verbatim>\<open>Value::pointer\<close> for a path of object keys.\<close>

fun json_pointer :: "string list \<Rightarrow> Json \<Rightarrow> Json option" where
  "json_pointer [] v = Some v"
| "json_pointer (k # ks) v = Option.bind (json_get k v) (json_pointer ks)"

fun as_str_value :: "Json \<Rightarrow> string option" where
  "as_str_value (JString s) = Some s"
| "as_str_value _ = None"

fun as_bool_value :: "Json \<Rightarrow> bool option" where
  "as_bool_value (JBool b) = Some b"
| "as_bool_value _ = None"

fun as_u64_value :: "Json \<Rightarrow> u64 option" where
  "as_u64_value (JU64 n) = Some n"
| "as_u64_value _ = None"

fun as_object :: "Json \<Rightarrow> (string \<times> Json) list option" where
  "as_object (JObject m) = Some m"
| "as_object _ = None"

fun as_array :: "Json \<Rightarrow> Json list option" where
  "as_array (JArray vs) = Some vs"
| "as_array _ = None"

subsection \<open>Members of an object\<close>

fun obj_insert :: "string \<Rightarrow> Json \<Rightarrow> (string \<times> Json) list \<Rightarrow> (string \<times> Json) list" where
  "obj_insert k v [] = [(k, v)]"
| "obj_insert k v ((a, b) # m) = (if k = a then (k, v) # m else (a, b) # obj_insert k v m)"

fun obj_remove :: "string \<Rightarrow> (string \<times> Json) list \<Rightarrow> (string \<times> Json) list" where
  "obj_remove k [] = []"
| "obj_remove k (p # m) =
     (if fst p = k
      then (let after = filter (\<lambda>q. fst q \<noteq> k) m in if after = [] then [] else last after # butlast after)
      else p # obj_remove k m)"

text \<open>Object keys are unique at every depth, as \<^verbatim>\<open>Map\<close> guarantees.\<close>

fun unique_keys :: "Json \<Rightarrow> bool" where
  "unique_keys (JArray vs) \<longleftrightarrow> (\<forall>v\<in>set vs. unique_keys v)"
| "unique_keys (JObject m) \<longleftrightarrow> distinct (map fst m) \<and> (\<forall>p\<in>set m. unique_keys (snd p))"
| "unique_keys _ \<longleftrightarrow> True"

lemma map_of_obj_insert [simp]: "map_of (obj_insert k v m) = (map_of m)(k \<mapsto> v)"
  by (induction m) (auto simp: fun_eq_iff)

lemma obj_remove_absent: "map_of m k = None \<Longrightarrow> obj_remove k m = m"
  by (induction m) (auto split: if_splits)

lemma mset_rotated: "mset (if xs = [] then [] else last xs # butlast xs) = mset xs"
proof (cases xs rule: rev_cases)
  case (snoc ys y)
  then show ?thesis by simp
qed simp

lemma mset_obj_remove: "mset (obj_remove k m) = mset (filter (\<lambda>q. fst q \<noteq> k) m)"
proof (induction m)
  case (Cons p m)
  show ?case
  proof (cases "fst p = k")
    case True
    then show ?thesis
      using mset_rotated [of "filter (\<lambda>q. fst q \<noteq> k) m"] by (simp only: obj_remove.simps Let_def if_True filter.simps) simp
  qed (use Cons in simp)
qed simp

lemma set_obj_remove: "set (obj_remove k m) = {p \<in> set m. fst p \<noteq> k}"
  using mset_obj_remove [of k m] by (metis set_filter set_mset_mset)

lemma map_of_obj_remove [simp]: "map_of (obj_remove k m) k = None"
  by (simp add: map_of_eq_None_iff set_obj_remove image_iff)

lemma obj_remove_twice [simp]: "obj_remove k (obj_remove k m) = obj_remove k m"
  by (rule obj_remove_absent) simp

lemma obj_remove_insert_absent: "map_of m k = None \<Longrightarrow> obj_remove k (obj_insert k v m) = m"
  by (induction m) (auto split: if_splits)

lemma distinct_obj_remove: "distinct (map fst m) \<Longrightarrow> distinct (map fst (obj_remove k m))"
  using mset_obj_remove [of k m] by (metis distinct_map_filter mset_map mset_eq_imp_distinct_iff)

text \<open>Removing a key leaves the other members of an object with distinct keys.\<close>

lemma map_of_obj_remove_other:
  assumes "distinct (map fst m)" "k' \<noteq> k"
  shows "map_of (obj_remove k m) k' = map_of m k'"
proof -
  note mset_obj_remove [of k m]
  then have "distinct (map fst (obj_remove k m))" "set (obj_remove k m) = set (filter (\<lambda>q. fst q \<noteq> k) m)"
    using assms(1) by (metis distinct_map_filter mset_map mset_eq_imp_distinct_iff, metis set_mset_mset)
  then have "map_of (obj_remove k m) = map_of (filter (\<lambda>q. fst q \<noteq> k) m)"
    by (metis assms(1) distinct_map_filter map_of_inject_set)
  moreover have "map_of (filter (\<lambda>q. fst q \<noteq> k) m) k' = map_of m k'"
    using assms(2) by (induction m) auto
  ultimately show ?thesis by simp
qed

lemma keys_obj_insert: "set (map fst (obj_insert k v m)) = insert k (set (map fst m))"
proof (induction m)
  case (Cons p m)
  then show ?case by (cases p; cases "k = fst p") (simp_all add: insert_commute)
qed simp

lemma distinct_obj_insert: "distinct (map fst m) \<Longrightarrow> distinct (map fst (obj_insert k v m))"
proof (induction m)
  case (Cons p m)
  then show ?case using keys_obj_insert [of k v m] by (cases p) auto
qed simp

end
