(* ===== verification/Text_Search.thy ===== *)
theory Text_Search
  imports Text_Codec
begin

text \<open>
  More of \<^verbatim>\<open>str\<close>: trimming one side, splitting, searching. A \<^verbatim>\<open>str\<close> holds valid UTF-8; on other byte strings,
  which no value of that type is, trimming is the identity.
\<close>

definition char_is_ws :: "nat \<times> string \<Rightarrow> bool" where
  "char_is_ws p \<longleftrightarrow> is_whitespace (fst p)"

definition str_trim_start :: "string \<Rightarrow> string" where
  "str_trim_start s = (case utf8_chars s of None \<Rightarrow> s | Some cs \<Rightarrow> concat (map snd (dropWhile char_is_ws cs)))"

definition str_trim :: "string \<Rightarrow> string" where
  "str_trim s = (case utf8_trim s of None \<Rightarrow> s | Some t \<Rightarrow> t)"

definition trim_end_matches :: "(char \<Rightarrow> bool) \<Rightarrow> string \<Rightarrow> string" where
  "trim_end_matches P s = rev (dropWhile P (rev s))"

definition starts_with :: "string \<Rightarrow> string \<Rightarrow> bool" where
  "starts_with p s \<longleftrightarrow> take (length p) s = p"

definition strip_prefix :: "string \<Rightarrow> string \<Rightarrow> string option" where
  "strip_prefix p s = (if starts_with p s then Some (drop (length p) s) else None)"

text \<open>\<^verbatim>\<open>str::find\<close>: the offset of the first occurrence.\<close>

fun find_str :: "string \<Rightarrow> string \<Rightarrow> nat option" where
  "find_str p [] = (if p = [] then Some 0 else None)"
| "find_str p (c # s) = (if starts_with p (c # s) then Some 0 else map_option Suc (find_str p s))"

definition contains_str :: "string \<Rightarrow> string \<Rightarrow> bool" where
  "contains_str p s \<longleftrightarrow> find_str p s \<noteq> None"

text \<open>\<^verbatim>\<open>str::split\<close> at an ASCII character, and \<^verbatim>\<open>rsplit_once\<close>.\<close>

fun split_on :: "char \<Rightarrow> string \<Rightarrow> string list" where
  "split_on c [] = [[]]"
| "split_on c (a # s) =
     (if a = c then [] # split_on c s
      else (case split_on c s of p # ps \<Rightarrow> (a # p) # ps | [] \<Rightarrow> [[a]]))"

definition rsplit_once :: "char \<Rightarrow> string \<Rightarrow> (string \<times> string) option" where
  "rsplit_once c s = map_option (\<lambda>(a, b). (rev b, rev a)) (split_once c (rev s))"

text \<open>\<^verbatim>\<open>split_inclusive\<close> keeps the separator at the end of each piece.\<close>

fun split_inclusive :: "char \<Rightarrow> string \<Rightarrow> string list" where
  "split_inclusive c [] = []"
| "split_inclusive c (a # s) =
     (if a = c then [a] # split_inclusive c s
      else (case split_inclusive c s of [] \<Rightarrow> [[a]] | p # ps \<Rightarrow> (a # p) # ps))"

text \<open>\<^verbatim>\<open>str::lines\<close>: without line ends, and without the empty piece after a final line end.\<close>

definition strip_suffix_char :: "char \<Rightarrow> string \<Rightarrow> string" where
  "strip_suffix_char c s = (if s \<noteq> [] \<and> last s = c then butlast s else s)"

definition str_lines :: "string \<Rightarrow> string list" where
  "str_lines s =
     map (\<lambda>l. if l \<noteq> [] \<and> last l = CHR 0x0A then strip_suffix_char (CHR 0x0D) (butlast l) else l)
       (split_inclusive (CHR 0x0A) s)"

definition str_lower :: "string \<Rightarrow> string" where
  "str_lower s = map to_ascii_lowercase s"

subsection \<open>Lemmas\<close>

lemma utf8_chars_concat: "utf8_chars s = Some cs \<Longrightarrow> concat (map snd cs) = s"
proof (induction s arbitrary: cs rule: utf8_chars.induct)
  case (1 s)
  show ?case
  proof (cases "s = []")
    case True
    then show ?thesis using 1(2) by (simp add: utf8_chars.simps)
  next
    case False
    with 1(2) obtain cp n where st: "utf8_step s = Some (cp, n)"
      by (subst (asm) utf8_chars.simps) (auto split: option.splits)
    with 1(2) False obtain r where r: "utf8_chars (drop n s) = Some r" "cs = (cp, take n s) # r"
      by (subst (asm) utf8_chars.simps) auto
    from 1(1) [OF False st refl r(1)] r(2) show ?thesis by simp
  qed
qed

lemma trim_start_suffix: "\<exists>a. s = a @ str_trim_start s"
proof (cases "utf8_chars s")
  case (Some cs)
  have "s = concat (map snd (takeWhile char_is_ws cs)) @ concat (map snd (dropWhile char_is_ws cs))"
    using utf8_chars_concat [OF Some] by (metis concat_append map_append takeWhile_dropWhile_id)
  with Some show ?thesis by (auto simp: str_trim_start_def)
qed (simp add: str_trim_start_def)

lemma trim_prefix_of_trim_start: "\<exists>b. str_trim_start s = str_trim s @ b"
proof (cases "utf8_chars s")
  case None
  then show ?thesis by (simp add: str_trim_start_def str_trim_def utf8_trim_def)
next
  case (Some cs)
  let ?d = "dropWhile char_is_ws cs"
  have ws: "(\<lambda>p. is_whitespace (fst p)) = char_is_ws" by (simp add: char_is_ws_def fun_eq_iff)
  have "?d = rev (dropWhile char_is_ws (rev ?d)) @ rev (takeWhile char_is_ws (rev ?d))"
    by (metis rev_append rev_rev_ident takeWhile_dropWhile_id)
  then have "concat (map snd ?d) = concat (map snd (rev (dropWhile char_is_ws (rev ?d)))) @
      concat (map snd (rev (takeWhile char_is_ws (rev ?d))))"
    by (metis concat_append map_append)
  with Some show ?thesis
    by (auto simp: str_trim_start_def str_trim_def utf8_trim_def trim_chars_def Let_def ws)
qed

lemma length_trim_start_le: "length (str_trim_start s) \<le> length s"
  using trim_start_suffix [of s] by (metis le_add2 length_append)

lemma drop_trim_start: "drop (length s - length (str_trim_start s)) s = str_trim_start s"
  using trim_start_suffix [of s] by (metis add_diff_cancel_right' append_eq_conv_conj length_append)

lemma take_trim: "take (length (str_trim s)) (str_trim_start s) = str_trim s"
  using trim_prefix_of_trim_start [of s] by (metis append_eq_conv_conj)

lemma length_trim_le: "length (str_trim s) \<le> length (str_trim_start s)"
  using trim_prefix_of_trim_start [of s] by (metis le_add1 length_append)

lemma trim_end_prefix: "\<exists>b. s = trim_end_matches P s @ b"
  unfolding trim_end_matches_def by (metis rev_append rev_rev_ident takeWhile_dropWhile_id)

lemma concat_split_inclusive: "concat (split_inclusive c s) = s"
  by (induction s) (auto split: list.splits)

lemma strip_prefix_Some: "strip_prefix p s = Some r \<longleftrightarrow> s = p @ r"
  by (auto simp: strip_prefix_def starts_with_def) (metis append_take_drop_id)

lemma starts_with_iff: "starts_with p s \<longleftrightarrow> (\<exists>r. s = p @ r)"
  by (auto simp: starts_with_def) (metis append_take_drop_id)

lemma starts_with_append_right: "starts_with p s \<Longrightarrow> starts_with p (s @ t)"
  by (auto simp: starts_with_iff)

lemma starts_with_append: "starts_with p (p @ s)"
  by (simp add: starts_with_def)

text \<open>Strings that begin, or begin and end, with a visible ASCII character.\<close>

definition visible :: "char \<Rightarrow> bool" where
  "visible c \<longleftrightarrow> byte c < 128 \<and> \<not> is_whitespace (byte c)"

lemma utf8_chars_ascii: "byte c < 128 \<Longrightarrow> utf8_chars (c # s) = map_option (Cons (byte c, [c])) (utf8_chars s)"
  by (subst utf8_chars.simps) simp

lemma trim_start_id: "visible c \<Longrightarrow> str_trim_start (c # s) = c # s"
proof (cases "utf8_chars (c # s)")
  case (Some cs)
  moreover assume "visible c"
  ultimately show ?thesis
    using utf8_chars_concat [OF Some] by (auto simp: str_trim_start_def visible_def utf8_chars_ascii char_is_ws_def)
qed (simp add: str_trim_start_def)

lemma utf8_chars_all_ascii: "list_all (\<lambda>c. byte c < 128) s \<Longrightarrow> utf8_chars s = Some (map (\<lambda>c. (byte c, [c])) s)"
  by (induction s) (auto simp: utf8_chars_ascii, simp add: utf8_chars.simps)

lemma trim_visible:
  assumes "s \<noteq> []" "list_all visible s"
  shows "str_trim s = s" "str_trim (CHR '' '' # s) = s"
proof -
  let ?e = "\<lambda>c. (byte c, [c])"
  have a: "list_all (\<lambda>c. byte c < 128) s" using assms(2) by (auto simp: list_all_iff visible_def)
  have ws: "\<not> is_whitespace (byte c)" if "c \<in> set s" for c using assms(2) that by (auto simp: list_all_iff visible_def)
  have d: "dropWhile (\<lambda>p. is_whitespace (fst p)) (map ?e s) = map ?e s"
    "dropWhile (\<lambda>p. is_whitespace (fst p)) (rev (map ?e s)) = rev (map ?e s)"
    using ws assms(1) by (auto simp: dropWhile_eq_self_iff hd_map hd_rev last_map)
  have c: "concat (map (snd \<circ> ?e) s) = s" by (induction s) auto
  show "str_trim s = s"
    using a d c by (simp add: str_trim_def utf8_trim_def trim_chars_def utf8_chars_all_ascii)
  show "str_trim (CHR '' '' # s) = s"
    using a d c by (simp add: str_trim_def utf8_trim_def trim_chars_def utf8_chars_ascii utf8_chars_all_ascii is_whitespace_def)
qed

lemma split_on_nonempty: "split_on c s \<noteq> []"
  by (cases s) (auto split: list.splits)

lemma split_on_append: "c \<notin> set a \<Longrightarrow> split_on c (a @ c # b) = a # split_on c b"
  by (induction a) auto

lemma rsplit_once_append: "c \<notin> set b \<Longrightarrow> rsplit_once c (a @ c # b) = Some (a, b)"
  by (simp add: rsplit_once_def split_once_append)

lemma find_str_char: "c \<notin> set a \<Longrightarrow> find_str [c] (a @ c # b) = Some (length a)"
  by (induction a) (auto simp: starts_with_def)

end
