(* ===== verification/Usage.thy ===== *)
theory Usage
  imports Json_Value Text_Search
begin

text \<open>
  Usage observation and cost, \<^verbatim>\<open>gateway-services/usage.rs\<close> over the value objects of
  \<^verbatim>\<open>gateway-domain/response.rs\<close>. The JSON reader \<^verbatim>\<open>serde_json::from_slice\<close> is an argument \<open>from_slice\<close>;
  the clock reading of a call is its argument \<open>now\<close>.
\<close>

subsection \<open>Value objects\<close>

datatype UsageSource = Official | LocalEstimate | ConsoleCount | CancelEstimate

datatype UsageCompleteness = UsageUnknown | UsagePartial | UsageComplete

record TokenCounts =
  input_tokens :: "u64 option"
  output_tokens :: "u64 option"
  cache_creation_input_tokens :: "u64 option"
  cache_read_input_tokens :: "u64 option"

definition TokenCounts_default :: TokenCounts where
  "TokenCounts_default =
     \<lparr>input_tokens = None, output_tokens = None, cache_creation_input_tokens = None,
      cache_read_input_tokens = None\<rparr>"

definition counts_is_empty :: "TokenCounts \<Rightarrow> bool" where
  "counts_is_empty c \<longleftrightarrow>
     input_tokens c = None \<and> output_tokens c = None \<and> cache_creation_input_tokens c = None \<and>
     cache_read_input_tokens c = None"

record UsageObservation =
  uo_source :: UsageSource
  uo_completeness :: UsageCompleteness
  uo_counts :: TokenCounts
  uo_algorithm_version :: "string option"

datatype UsageObservationError = UnknownWithCounts

definition UsageObservation_new ::
  "UsageSource \<Rightarrow> UsageCompleteness \<Rightarrow> TokenCounts \<Rightarrow> string option \<Rightarrow>
   (UsageObservationError, UsageObservation) result" where
  "UsageObservation_new src completeness counts version =
     (if completeness = UsageUnknown \<and> \<not> counts_is_empty counts then Inl UnknownWithCounts
      else Inr \<lparr>uo_source = src, uo_completeness = completeness, uo_counts = counts,
                uo_algorithm_version = version\<rparr>)"

record PriceSnapshot =
  input_per_million_pico_usd :: u128
  output_per_million_pico_usd :: u128
  cache_creation_per_million_pico_usd :: u128
  cache_read_per_million_pico_usd :: u128

record CostEstimate =
  amount_usd :: "string option"
  ce_usage_completeness :: UsageCompleteness
  ce_algorithm_version :: string

subsection \<open>The observer\<close>

definition MAX_SSE_OBSERVER_BUFFER :: nat where
  "MAX_SSE_OBSERVER_BUFFER = 256 * 1024"

definition MAX_USAGE_OBJECT_BYTES :: nat where
  "MAX_USAGE_OBJECT_BYTES = 64 * 1024"

record JsonObjectCapture =
  jc_bytes :: string
  jc_depth :: nat
  jc_in_string :: bool
  jc_escaped :: bool
  jc_overflowed :: bool

record JsonUsageScanner =
  js_in_string :: bool
  js_escaped :: bool
  js_string_bytes :: string
  js_candidate_key :: "string option"
  js_awaiting_usage_value :: bool
  js_capture :: "JsonObjectCapture option"
  js_overflowed :: bool

record UsageObserver =
  first_content_at :: "nat option"
  line_buffer :: string
  event_data :: string
  non_stream_scanner :: JsonUsageScanner
  counts :: TokenCounts
  saw_usage :: bool
  saw_message_stop :: bool
  observer_overflowed :: bool
  decoded_bytes_seen :: u64
  committed_event_ordinal :: u64
  committed_content_event_ordinal :: u64
  committed_decoded_end_offset :: u64
  output_content_bytes :: u64
  output_content_seen :: bool
  output_gap :: bool
  ignore_next_lf :: bool
  last_event_type :: "string option"

definition JsonUsageScanner_default :: JsonUsageScanner where
  "JsonUsageScanner_default =
     \<lparr>js_in_string = False, js_escaped = False, js_string_bytes = [], js_candidate_key = None,
      js_awaiting_usage_value = False, js_capture = None, js_overflowed = False\<rparr>"

definition UsageObserver_default :: UsageObserver where
  "UsageObserver_default =
     \<lparr>first_content_at = None, line_buffer = [], event_data = [],
      non_stream_scanner = JsonUsageScanner_default, counts = TokenCounts_default, saw_usage = False,
      saw_message_stop = False, observer_overflowed = False, decoded_bytes_seen = 0,
      committed_event_ordinal = 0, committed_content_event_ordinal = 0, committed_decoded_end_offset = 0,
      output_content_bytes = 0, output_content_seen = False, output_gap = False, ignore_next_lf = False,
      last_event_type = None\<rparr>"

subsection \<open>Usage objects\<close>

definition merge_u64 :: "Json option \<Rightarrow> u64 option \<times> bool \<Rightarrow> u64 option \<times> bool" where
  "merge_u64 v t = (case Option.bind v as_u64_value of None \<Rightarrow> t | Some n \<Rightarrow> (Some n, True))"

definition merge_usage :: "Json \<Rightarrow> UsageObserver \<Rightarrow> UsageObserver" where
  "merge_usage usage u =
     (case as_object usage of
        None \<Rightarrow> u
      | Some m \<Rightarrow>
          (let c = counts u;
               (i, o1) = merge_u64 (map_of m ''input_tokens'') (input_tokens c, False);
               (out, o2) = merge_u64 (map_of m ''output_tokens'') (output_tokens c, o1);
               (cc, o3) = merge_u64 (map_of m ''cache_creation_input_tokens'') (cache_creation_input_tokens c, o2);
               (cr, o4) = merge_u64 (map_of m ''cache_read_input_tokens'') (cache_read_input_tokens c, o3)
           in u\<lparr>counts := \<lparr>input_tokens = i, output_tokens = out, cache_creation_input_tokens = cc,
                  cache_read_input_tokens = cr\<rparr>, saw_usage := saw_usage u \<or> o4\<rparr>))"

definition merge_usage_at :: "string list \<Rightarrow> Json \<Rightarrow> UsageObserver \<Rightarrow> UsageObserver" where
  "merge_usage_at path v u = (case json_pointer path v of None \<Rightarrow> u | Some usage \<Rightarrow> merge_usage usage u)"

definition observe_json :: "Json \<Rightarrow> UsageObserver \<Rightarrow> UsageObserver" where
  "observe_json v u =
     (let u1 = (if Option.bind (json_get ''type'' v) as_str_value = Some ''message_stop''
                then u\<lparr>saw_message_stop := True\<rparr> else u)
      in merge_usage_at [''delta'', ''usage''] v (merge_usage_at [''message'', ''usage''] v
           (merge_usage_at [''usage''] v u1)))"

subsection \<open>Generated content\<close>

text \<open>The paths whose text an event contributes: \<open>None\<close> for an event that is no content block,
  \<open>Some None\<close> for a content block of an unknown kind.\<close>

definition content_fragments :: "Json \<Rightarrow> string list list option option" where
  "content_fragments v =
     (case Option.bind (json_get ''type'' v) as_str_value of
        None \<Rightarrow> None
      | Some t \<Rightarrow>
          if t = ''content_block_start'' then
            Some (case Option.bind (json_pointer [''content_block'', ''type''] v) as_str_value of
              None \<Rightarrow> None
            | Some k \<Rightarrow>
                if k = ''text'' then Some [[''content_block'', ''text'']]
                else if k = ''thinking'' then Some [[''content_block'', ''thinking'']]
                else if k \<in> {''tool_use'', ''server_tool_use'', ''web_search_tool_result'',
                      ''code_execution_tool_result'', ''bash_code_execution_tool_result'',
                      ''text_editor_code_execution_tool_result''} then Some []
                else None)
          else if t = ''content_block_delta'' then
            Some (case Option.bind (json_pointer [''delta'', ''type''] v) as_str_value of
              None \<Rightarrow> None
            | Some k \<Rightarrow>
                if k = ''text_delta'' then Some [[''delta'', ''text'']]
                else if k = ''thinking_delta'' then Some [[''delta'', ''thinking'']]
                else if k = ''input_json_delta'' then Some [[''delta'', ''partial_json'']]
                else if k = ''signature_delta'' \<or> k = ''citations_delta'' then Some []
                else None)
          else if take 14 t = ''content_block_'' then Some None
          else None)"

definition observe_fragment :: "nat \<Rightarrow> Json \<Rightarrow> string list \<Rightarrow> UsageObserver \<Rightarrow> UsageObserver" where
  "observe_fragment now v path u =
     (case Option.bind (json_pointer path v) as_str_value of
        None \<Rightarrow> u\<lparr>output_gap := True\<rparr>
      | Some fragment \<Rightarrow>
          (let u1 = u\<lparr>output_content_seen := True\<rparr>;
               u2 = (if fragment \<noteq> [] \<and> first_content_at u1 = None then u1\<lparr>first_content_at := Some now\<rparr> else u1)
           in if unat (output_content_bytes u2) + length fragment < 2 ^ 64
              then u2\<lparr>output_content_bytes := output_content_bytes u2 + of_nat (length fragment)\<rparr>
              else u2\<lparr>output_gap := True\<rparr>))"

definition observe_output_content :: "nat \<Rightarrow> Json \<Rightarrow> UsageObserver \<Rightarrow> UsageObserver" where
  "observe_output_content now v u =
     (case content_fragments v of
        None \<Rightarrow> u
      | Some fragments \<Rightarrow>
          (let u1 = u\<lparr>committed_content_event_ordinal := saturating_add (committed_content_event_ordinal u) 1\<rparr>
           in case fragments of
                None \<Rightarrow> u1\<lparr>output_gap := True\<rparr>
              | Some paths \<Rightarrow> fold (observe_fragment now v) paths u1))"

subsection \<open>Server-sent events\<close>

definition mark_observer_gap :: "UsageObserver \<Rightarrow> UsageObserver" where
  "mark_observer_gap u = u\<lparr>observer_overflowed := True, output_gap := True, line_buffer := [], event_data := []\<rparr>"

definition commit_event :: "(string \<Rightarrow> Json option) \<Rightarrow> nat \<Rightarrow> UsageObserver \<Rightarrow> UsageObserver" where
  "commit_event from_slice now u =
     (let data = event_data u;
          u1 = u\<lparr>event_data := [], committed_event_ordinal := saturating_add (committed_event_ordinal u) 1,
                 committed_decoded_end_offset := decoded_bytes_seen u\<rparr>
      in if data = ''[DONE]'' then u1
         else case from_slice data of
             None \<Rightarrow> u1\<lparr>output_gap := True\<rparr>
           | Some v \<Rightarrow>
               (observe_json v (observe_output_content now v u1))
                 \<lparr>last_event_type := Option.bind (json_get ''type'' v) as_str_value\<rparr>)"

definition observe_sse_line :: "(string \<Rightarrow> Json option) \<Rightarrow> nat \<Rightarrow> string \<Rightarrow> UsageObserver \<Rightarrow> UsageObserver" where
  "observe_sse_line from_slice now line u =
     (if line = [] then (if event_data u \<noteq> [] then commit_event from_slice now u else u)
      else case strip_prefix ''data:'' line of
        None \<Rightarrow> u
      | Some rest \<Rightarrow>
          (let data = unwrap_or (strip_prefix '' '' rest) rest
           in if event_data u \<noteq> [] \<and> length (event_data u) \<ge> MAX_SSE_OBSERVER_BUFFER then mark_observer_gap u
              else let u1 = (if event_data u \<noteq> [] then u\<lparr>event_data := event_data u @ [CHR 0x0A]\<rparr> else u)
                   in if length (event_data u1) + length data > MAX_SSE_OBSERVER_BUFFER then mark_observer_gap u1
                      else u1\<lparr>event_data := event_data u1 @ data\<rparr>))"

text \<open>One byte of the loop; the flag tells that the loop returns.\<close>

definition sse_byte :: "(string \<Rightarrow> Json option) \<Rightarrow> nat \<Rightarrow> char \<Rightarrow> UsageObserver \<Rightarrow> bool \<times> UsageObserver" where
  "sse_byte from_slice now b u =
     (let u1 = u\<lparr>decoded_bytes_seen := saturating_add (decoded_bytes_seen u) 1\<rparr>;
          u2 = u1\<lparr>ignore_next_lf := False\<rparr>
      in if ignore_next_lf u1 \<and> b = CHR 0x0A then (False, u2)
         else if b = CHR 0x0A \<or> b = CHR 0x0D then
           (False, (observe_sse_line from_slice now (line_buffer u2) (u2\<lparr>line_buffer := []\<rparr>))
              \<lparr>ignore_next_lf := (b = CHR 0x0D)\<rparr>)
         else if length (line_buffer u2) < MAX_SSE_OBSERVER_BUFFER
              then (False, u2\<lparr>line_buffer := line_buffer u2 @ [b]\<rparr>)
         else (True, mark_observer_gap u2))"

fun sse_loop :: "(string \<Rightarrow> Json option) \<Rightarrow> nat \<Rightarrow> string \<Rightarrow> UsageObserver \<Rightarrow> UsageObserver" where
  "sse_loop from_slice now [] u = u"
| "sse_loop from_slice now (b # bs) u =
     (case sse_byte from_slice now b u of
        (True, u') \<Rightarrow> u'
      | (False, u') \<Rightarrow> sse_loop from_slice now bs u')"

definition observe_sse_bytes :: "(string \<Rightarrow> Json option) \<Rightarrow> nat \<Rightarrow> string \<Rightarrow> UsageObserver \<Rightarrow> UsageObserver" where
  "observe_sse_bytes from_slice now bytes u =
     (if observer_overflowed u then u else sse_loop from_slice now bytes u)"


subsection \<open>Non-stream bodies\<close>

definition JsonObjectCapture_new :: JsonObjectCapture where
  "JsonObjectCapture_new =
     \<lparr>jc_bytes = ''{'', jc_depth = 1, jc_in_string = False, jc_escaped = False, jc_overflowed = False\<rparr>"

definition capture_push :: "char \<Rightarrow> JsonObjectCapture \<Rightarrow> bool \<times> JsonObjectCapture" where
  "capture_push b c =
     (let c1 = (if length (jc_bytes c) < MAX_USAGE_OBJECT_BYTES then c\<lparr>jc_bytes := jc_bytes c @ [b]\<rparr>
                else c\<lparr>jc_overflowed := True\<rparr>)
      in if jc_in_string c1 then
           (False,
            if jc_escaped c1 then c1\<lparr>jc_escaped := False\<rparr>
            else if b = CHR 0x5C then c1\<lparr>jc_escaped := True\<rparr>
            else if b = CHR 0x22 then c1\<lparr>jc_in_string := False\<rparr>
            else c1)
         else
           (let c2 = (if b = CHR 0x22 then c1\<lparr>jc_in_string := True\<rparr>
                      else if b = CHR ''{'' then c1\<lparr>jc_depth := min (jc_depth c1 + 1) USIZE_MAX\<rparr>
                      else if b = CHR ''}'' then c1\<lparr>jc_depth := jc_depth c1 - 1\<rparr>
                      else c1)
            in (jc_depth c2 = 0, c2)))"

definition is_ascii_whitespace :: "char \<Rightarrow> bool" where
  "is_ascii_whitespace b \<longleftrightarrow> b \<in> {CHR 0x09, CHR 0x0A, CHR 0x0C, CHR 0x0D, CHR 0x20}"

text \<open>One byte of the scan; the captured objects are appended to \<open>completed\<close>.\<close>

definition scan_byte :: "char \<Rightarrow> string list \<times> JsonUsageScanner \<Rightarrow> string list \<times> JsonUsageScanner" where
  "scan_byte b cs =
     (let (completed, s) = cs in
      case js_capture s of
        Some capture \<Rightarrow>
          (case capture_push b capture of
             (True, c) \<Rightarrow>
               (if jc_overflowed c then completed else completed @ [jc_bytes c],
                s\<lparr>js_capture := None, js_overflowed := js_overflowed s \<or> jc_overflowed c\<rparr>)
           | (False, c) \<Rightarrow> (completed, s\<lparr>js_capture := Some c\<rparr>))
      | None \<Rightarrow>
          (completed,
           if js_in_string s then
             (if js_escaped s then s\<lparr>js_escaped := False, js_string_bytes := js_string_bytes s @ [b]\<rparr>
              else if b = CHR 0x5C then s\<lparr>js_escaped := True\<rparr>
              else if b = CHR 0x22
              then s\<lparr>js_in_string := False, js_candidate_key := Some (js_string_bytes s), js_string_bytes := []\<rparr>
              else if length (js_string_bytes s) < 128 then s\<lparr>js_string_bytes := js_string_bytes s @ [b]\<rparr>
              else s)
           else if js_awaiting_usage_value s then
             (if is_ascii_whitespace b then s
              else let s1 = s\<lparr>js_awaiting_usage_value := False\<rparr>
                   in if b = CHR ''{'' then s1\<lparr>js_capture := Some JsonObjectCapture_new\<rparr> else s1)
           else if b = CHR 0x22 then s\<lparr>js_in_string := True, js_escaped := False, js_string_bytes := []\<rparr>
           else if b = CHR '':''
           then s\<lparr>js_awaiting_usage_value := (js_candidate_key s = Some ''usage''), js_candidate_key := None\<rparr>
           else if is_ascii_whitespace b then s
           else s\<lparr>js_candidate_key := None\<rparr>))"

definition note_overflow :: "JsonUsageScanner \<Rightarrow> JsonUsageScanner" where
  "note_overflow s = (if is_some_and (js_capture s) jc_overflowed then s\<lparr>js_overflowed := True\<rparr> else s)"

definition scanner_scan :: "string \<Rightarrow> JsonUsageScanner \<Rightarrow> string list \<times> JsonUsageScanner" where
  "scanner_scan bytes s =
     (let (completed, s1) = fold scan_byte bytes ([], s) in (completed, note_overflow s1))"

definition merge_capture :: "(string \<Rightarrow> Json option) \<Rightarrow> string \<Rightarrow> UsageObserver \<Rightarrow> UsageObserver" where
  "merge_capture from_slice capture u =
     (case from_slice capture of None \<Rightarrow> u | Some usage \<Rightarrow> merge_usage usage u)"

definition observe_non_stream_bytes ::
  "(string \<Rightarrow> Json option) \<Rightarrow> string \<Rightarrow> UsageObserver \<Rightarrow> UsageObserver" where
  "observe_non_stream_bytes from_slice bytes u =
     (let (captures, s) = scanner_scan bytes (non_stream_scanner u);
          u1 = u\<lparr>non_stream_scanner := s, observer_overflowed := observer_overflowed u \<or> js_overflowed s\<rparr>
      in fold (merge_capture from_slice) captures u1)"

definition observe_non_stream_body ::
  "(string \<Rightarrow> Json option) \<Rightarrow> string \<Rightarrow> UsageObserver \<Rightarrow> UsageObserver" where
  "observe_non_stream_body from_slice body u =
     (case from_slice body of
        None \<Rightarrow> u
      | Some v \<Rightarrow> (let u1 = observe_json v u in if saw_usage u1 then u1\<lparr>saw_message_stop := True\<rparr> else u1))"

subsection \<open>Finishing\<close>

definition unreachable_usage :: UsageObservation where
  "unreachable_usage =
     \<lparr>uo_source = Official, uo_completeness = UsageUnknown, uo_counts = TokenCounts_default,
      uo_algorithm_version = None\<rparr>"

definition usage_finish :: "UsageObserver \<Rightarrow> UsageObservation" where
  "usage_finish u =
     (let completeness = (if \<not> saw_usage u then UsageUnknown
                          else if saw_message_stop u then UsageComplete else UsagePartial);
          cs = (if completeness = UsageUnknown then TokenCounts_default else counts u)
      in case UsageObservation_new Official completeness cs None of
           Inr obs \<Rightarrow> obs
         | Inl _ \<Rightarrow>
             (case UsageObservation_new Official UsageUnknown TokenCounts_default None of
                Inr obs \<Rightarrow> obs | Inl _ \<Rightarrow> unreachable_usage))"

definition finish_non_stream :: "bool \<Rightarrow> UsageObserver \<Rightarrow> UsageObservation" where
  "finish_non_stream body_complete u =
     usage_finish (if body_complete \<and> saw_usage u then u\<lparr>saw_message_stop := True\<rparr> else u)"

record SseUsageEvidence =
  complete_event_ordinal :: u64
  content_event_ordinal :: u64
  decoded_end_offset :: u64
  se_last_event_type :: "string option"
  output_tokens_estimate :: "u64 option"
  se_gap :: bool

definition sse_evidence :: "UsageObserver \<Rightarrow> SseUsageEvidence" where
  "sse_evidence u =
     \<lparr>complete_event_ordinal = committed_event_ordinal u,
      content_event_ordinal = committed_content_event_ordinal u,
      decoded_end_offset = committed_decoded_end_offset u,
      se_last_event_type = last_event_type u,
      output_tokens_estimate =
        (if output_content_seen u \<and> \<not> output_gap u then Some (saturating_add (output_content_bytes u) 3 div 4)
         else None),
      se_gap = (output_gap u \<or> observer_overflowed u)\<rparr>"

subsection \<open>Accounting basis and cost\<close>

fun source_rank :: "UsageSource \<Rightarrow> nat" where
  "source_rank Official = 4"
| "source_rank ConsoleCount = 3"
| "source_rank LocalEstimate = 2"
| "source_rank CancelEstimate = 1"

fun completeness_rank :: "UsageCompleteness \<Rightarrow> nat" where
  "completeness_rank UsageComplete = 3"
| "completeness_rank UsagePartial = 2"
| "completeness_rank UsageUnknown = 1"

definition basis_rank :: "UsageObservation \<Rightarrow> nat \<times> nat \<times> nat" where
  "basis_rank o' =
     (if uo_completeness o' \<noteq> UsageUnknown then 1 else 0, source_rank (uo_source o'),
      completeness_rank (uo_completeness o'))"

text \<open>\<^verbatim>\<open>Iterator::max_by_key\<close>: the last of the greatest elements.\<close>

fun max_by_key :: "('a \<Rightarrow> 'k::linorder) \<Rightarrow> 'a list \<Rightarrow> 'a option" where
  "max_by_key f [] = None"
| "max_by_key f (x # xs) =
     (case max_by_key f xs of None \<Rightarrow> Some x | Some y \<Rightarrow> if f x \<le> f y then Some y else Some x)"

definition select_final_basis :: "UsageObservation list \<Rightarrow> UsageObservation option" where
  "select_final_basis obs = max_by_key basis_rank obs"

datatype CostError = CostOverflow

definition PICO_USD_PER_USD :: nat where
  "PICO_USD_PER_USD = 1000000000000"

definition TOKENS_PER_MILLION :: u128 where
  "TOKENS_PER_MILLION = 1000000"

definition checked_mul :: "u128 \<Rightarrow> u128 \<Rightarrow> u128 option" where
  "checked_mul a b = (if unat a * unat b < 2 ^ 128 then Some (a * b) else None)"

definition rounded_cost :: "u64 \<Rightarrow> u128 \<Rightarrow> u128 option" where
  "rounded_cost n rate =
     (case checked_mul (ucast n) rate of
        None \<Rightarrow> None
      | Some numerator \<Rightarrow> map_option (\<lambda>x. x div TOKENS_PER_MILLION) (checked_add numerator (TOKENS_PER_MILLION div 2)))"

fun cost_loop :: "(u64 option \<times> u128) list \<Rightarrow> u128 \<times> bool \<Rightarrow> (CostError, u128 \<times> bool) result" where
  "cost_loop [] tk = Inr tk"
| "cost_loop ((None, rate) # ps) tk = cost_loop ps tk"
| "cost_loop ((Some n, rate) # ps) (acc, known) =
     (case rounded_cost n rate of
        None \<Rightarrow> Inl CostOverflow
      | Some rounded \<Rightarrow>
          (case checked_add acc rounded of
             None \<Rightarrow> Inl CostOverflow
           | Some acc' \<Rightarrow> cost_loop ps (acc', True)))"

definition pad_zeros :: "nat \<Rightarrow> string \<Rightarrow> string" where
  "pad_zeros w s = replicate (w - length s) (CHR ''0'') @ s"

definition format_pico_usd :: "u128 \<Rightarrow> string" where
  "format_pico_usd v =
     show_nat (unat v div PICO_USD_PER_USD) @ ''.'' @ pad_zeros 12 (show_nat (unat v mod PICO_USD_PER_USD))"

definition priced_fields :: "TokenCounts \<Rightarrow> PriceSnapshot \<Rightarrow> (u64 option \<times> u128) list" where
  "priced_fields c p =
     [(input_tokens c, input_per_million_pico_usd p), (output_tokens c, output_per_million_pico_usd p),
      (cache_creation_input_tokens c, cache_creation_per_million_pico_usd p),
      (cache_read_input_tokens c, cache_read_per_million_pico_usd p)]"

definition calculate_cost ::
  "UsageObservation \<Rightarrow> PriceSnapshot \<Rightarrow> string \<Rightarrow> (CostError, CostEstimate) result" where
  "calculate_cost usage p version =
     (case cost_loop (priced_fields (uo_counts usage) p) (0, False) of
        Inl e \<Rightarrow> Inl e
      | Inr (acc, known) \<Rightarrow>
          Inr \<lparr>amount_usd = (if known then Some (format_pico_usd acc) else None),
               ce_usage_completeness = uo_completeness usage, ce_algorithm_version = version\<rparr>)"

end
