(* ===== verification/Usage_Properties.thy ===== *)
theory Usage_Properties
  imports Usage
begin

text \<open>
  Properties of usage observation: what a response is found to have used does not depend on how
  the network cut it into chunks, as long as the observer has not overflowed; the cost is exact;
  the accounting basis is the best observation.
\<close>

subsection \<open>Overflow is final\<close>

lemma merge_usage_frame [simp]:
  "observer_overflowed (merge_usage v u) = observer_overflowed u"
  "non_stream_scanner (merge_usage v u) = non_stream_scanner u"
  "output_gap (merge_usage v u) = output_gap u" "event_data (merge_usage v u) = event_data u"
  "line_buffer (merge_usage v u) = line_buffer u" "ignore_next_lf (merge_usage v u) = ignore_next_lf u"
  by (simp_all add: merge_usage_def Let_def split_beta split: option.splits)

lemma merge_usage_at_frame [simp]:
  "observer_overflowed (merge_usage_at p v u) = observer_overflowed u"
  "output_gap (merge_usage_at p v u) = output_gap u" "event_data (merge_usage_at p v u) = event_data u"
  "line_buffer (merge_usage_at p v u) = line_buffer u" "ignore_next_lf (merge_usage_at p v u) = ignore_next_lf u"
  by (simp_all add: merge_usage_at_def split: option.splits)

lemma observe_json_frame [simp]:
  "observer_overflowed (observe_json v u) = observer_overflowed u"
  "output_gap (observe_json v u) = output_gap u" "event_data (observe_json v u) = event_data u"
  "line_buffer (observe_json v u) = line_buffer u" "ignore_next_lf (observe_json v u) = ignore_next_lf u"
  by (simp_all add: observe_json_def)

lemma observe_fragment_frame [simp]:
  "observer_overflowed (observe_fragment now v p u) = observer_overflowed u"
  "event_data (observe_fragment now v p u) = event_data u"
  "line_buffer (observe_fragment now v p u) = line_buffer u" "ignore_next_lf (observe_fragment now v p u) = ignore_next_lf u"
  by (simp_all add: observe_fragment_def Let_def split: option.splits)

lemma fold_fragment_frame [simp]:
  "observer_overflowed (fold (observe_fragment now v) ps u) = observer_overflowed u"
  "event_data (fold (observe_fragment now v) ps u) = event_data u"
  "line_buffer (fold (observe_fragment now v) ps u) = line_buffer u"
  "ignore_next_lf (fold (observe_fragment now v) ps u) = ignore_next_lf u"
  by (induction ps arbitrary: u) simp_all

lemma observe_output_content_frame [simp]:
  "observer_overflowed (observe_output_content now v u) = observer_overflowed u"
  "event_data (observe_output_content now v u) = event_data u"
  "line_buffer (observe_output_content now v u) = line_buffer u"
  "ignore_next_lf (observe_output_content now v u) = ignore_next_lf u"
  by (simp_all add: observe_output_content_def Let_def split: option.splits)

lemma commit_event_frame [simp]:
  "observer_overflowed (commit_event f now u) = observer_overflowed u"
  "line_buffer (commit_event f now u) = line_buffer u" "event_data (commit_event f now u) = []"
  by (simp_all add: commit_event_def Let_def split: option.splits)

lemma line_overflow_final: "observer_overflowed u \<Longrightarrow> observer_overflowed (observe_sse_line f now line u)"
  by (simp add: observe_sse_line_def mark_observer_gap_def Let_def split: option.splits)

lemma byte_overflow_final: "observer_overflowed u \<Longrightarrow> observer_overflowed (snd (sse_byte f now b u))"
  by (simp add: sse_byte_def Let_def line_overflow_final mark_observer_gap_def)

lemma byte_stop_overflow: "fst (sse_byte f now b u) \<Longrightarrow> observer_overflowed (snd (sse_byte f now b u))"
  by (auto simp: sse_byte_def Let_def mark_observer_gap_def split: if_splits)

lemma loop_overflow_final: "observer_overflowed u \<Longrightarrow> observer_overflowed (sse_loop f now bs u)"
proof (induction bs arbitrary: u)
  case (Cons b bs)
  then show ?case
    using byte_overflow_final [of u f now b] by (auto split: prod.splits bool.splits)
qed simp

subsection \<open>Chunks of a stream\<close>

lemma sse_loop_append:
  "\<not> observer_overflowed (sse_loop f now as u) \<Longrightarrow> sse_loop f now (as @ bs) u = sse_loop f now bs (sse_loop f now as u)"
proof (induction "as" arbitrary: u)
  case (Cons a "as")
  then show ?case
    using byte_stop_overflow [of f now a u] by (auto split: prod.splits bool.splits)
qed simp

lemma observe_overflow_final:
  "observer_overflowed u \<Longrightarrow> observer_overflowed (observe_sse_bytes f now bs u)"
  by (simp add: observe_sse_bytes_def)

lemma observe_append:
  assumes "\<not> observer_overflowed (observe_sse_bytes f now as u)"
  shows "observe_sse_bytes f now (as @ bs) u = observe_sse_bytes f now bs (observe_sse_bytes f now as u)"
proof -
  have "\<not> observer_overflowed u" using assms observe_overflow_final by blast
  with assms show ?thesis by (simp add: observe_sse_bytes_def sse_loop_append)
qed

lemma fold_observe_overflow:
  "observer_overflowed u \<Longrightarrow> fold (observe_sse_bytes f now) cs u = u"
  by (induction cs) (simp_all add: observe_sse_bytes_def)

text \<open>C38. Streams are observed independently of their chunks: however the network cuts the bytes, the observer ends in
  the state it would reach on the whole, provided it never overflowed on the chunks.\<close>

theorem sse_chunk_invariance:
  assumes "\<not> observer_overflowed (fold (observe_sse_bytes f now) chunks u)"
  shows "fold (observe_sse_bytes f now) chunks u = observe_sse_bytes f now (concat chunks) u"
  using assms
proof (induction chunks arbitrary: u)
  case Nil
  then show ?case by (simp add: observe_sse_bytes_def)
next
  case (Cons c chunks)
  have "\<not> observer_overflowed (observe_sse_bytes f now c u)"
    using Cons.prems fold_observe_overflow [of "observe_sse_bytes f now c u" f now chunks] by force
  with Cons show ?case by (simp add: observe_append)
qed

theorem sse_chunk_invariance_witness:
  "fold (observe_sse_bytes (\<lambda>_. None) 0) [''da'', ''ta: x'', [CHR 0x0A]] UsageObserver_default =
     observe_sse_bytes (\<lambda>_. None) 0 (concat [''da'', ''ta: x'', [CHR 0x0A]]) UsageObserver_default"
  by (rule sse_chunk_invariance)
    (simp add: observe_sse_bytes_def sse_byte_def observe_sse_line_def strip_prefix_def starts_with_def UsageObserver_default_def
      MAX_SSE_OBSERVER_BUFFER_def Let_def)

subsection \<open>Chunks of a body\<close>

text \<open>An overflow that is noted or will be noted.\<close>

definition overflow_pending :: "JsonUsageScanner \<Rightarrow> bool" where
  "overflow_pending s \<longleftrightarrow> js_overflowed s \<or> is_some_and (js_capture s) jc_overflowed"

lemma note_overflow_eq: "note_overflow s = s\<lparr>js_overflowed := overflow_pending s\<rparr>"
  by (cases s) (auto simp: note_overflow_def overflow_pending_def split: option.splits)

lemma capture_push_overflow: "jc_overflowed c \<Longrightarrow> jc_overflowed (snd (capture_push b c))"
  by (simp add: capture_push_def Let_def)

lemma scan_byte_acc:
  "scan_byte b (c, s) = (c @ fst (scan_byte b ([], s)), snd (scan_byte b ([], s)))"
  by (simp add: scan_byte_def Let_def split: option.splits prod.splits bool.splits)

lemma fold_scan_acc:
  "fold scan_byte bs (c, s) = (c @ fst (fold scan_byte bs ([], s)), snd (fold scan_byte bs ([], s)))"
proof (induction bs arbitrary: c s)
  case (Cons b bs)
  obtain c1 s1 where b: "scan_byte b ([], s) = (c1, s1)" by fastforce
  have "scan_byte b (c, s) = (c @ c1, s1)" using scan_byte_acc [of b c s] b by simp
  with b Cons.IH [of "c @ c1" s1] Cons.IH [of c1 s1] show ?case by simp
qed simp

lemma scan_byte_pending:
  assumes "overflow_pending s"
  shows "overflow_pending (snd (scan_byte b (c, s)))"
proof (cases "js_capture s")
  case None
  with assms have "js_overflowed s" by (simp add: overflow_pending_def)
  with None show ?thesis by (simp add: scan_byte_def overflow_pending_def Let_def)
next
  case (Some cap)
  obtain d cap' where push: "capture_push b cap = (d, cap')" by fastforce
  have "jc_overflowed cap \<Longrightarrow> jc_overflowed cap'" using capture_push_overflow [of cap b] push by simp
  with Some push assms show ?thesis
    by (cases d) (auto simp: scan_byte_def overflow_pending_def)
qed

lemma fold_scan_pending: "overflow_pending s \<Longrightarrow> overflow_pending (snd (fold scan_byte bs (c, s)))"
proof (induction bs arbitrary: c s)
  case (Cons b bs)
  then show ?case
    using scan_byte_pending [OF Cons.prems, of b c] by (cases "scan_byte b (c, s)") simp
qed simp

text \<open>Two scanners that differ only in whether a pending overflow has been noted.\<close>

definition same_but_noted :: "JsonUsageScanner \<Rightarrow> JsonUsageScanner \<Rightarrow> bool" where
  "same_but_noted s t \<longleftrightarrow> t = s\<lparr>js_overflowed := js_overflowed t\<rparr> \<and> overflow_pending s = overflow_pending t"

lemma scan_byte_same:
  assumes "same_but_noted s t"
  shows "fst (scan_byte b (c, s)) = fst (scan_byte b (c, t)) \<and>
    same_but_noted (snd (scan_byte b (c, s))) (snd (scan_byte b (c, t)))"
proof -
  obtain x where t: "t = s\<lparr>js_overflowed := x\<rparr>" and p: "overflow_pending s = overflow_pending t"
    using assms by (auto simp: same_but_noted_def)
  have p': "js_overflowed s \<or> is_some_and (js_capture s) jc_overflowed \<longleftrightarrow> x \<or> is_some_and (js_capture s) jc_overflowed"
    using p t by (simp add: overflow_pending_def)
  show ?thesis
  proof (cases "js_capture s")
    case None
    with p' have "x = js_overflowed s" by simp
    then have "t = s" using t by simp
    then show ?thesis by (simp add: same_but_noted_def)
  next
    case (Some cap)
    obtain d cap' where push: "capture_push b cap = (d, cap')" by fastforce
    have "jc_overflowed cap \<Longrightarrow> jc_overflowed cap'" using capture_push_overflow [of cap b] push by simp
    with Some push p' t show ?thesis
      by (cases d) (auto simp: scan_byte_def same_but_noted_def overflow_pending_def)
  qed
qed

lemma fold_scan_same:
  "same_but_noted s t \<Longrightarrow>
   fst (fold scan_byte bs (c, s)) = fst (fold scan_byte bs (c, t)) \<and>
   same_but_noted (snd (fold scan_byte bs (c, s))) (snd (fold scan_byte bs (c, t)))"
proof (induction bs arbitrary: c s t)
  case (Cons b bs)
  obtain c1 s1 where s: "scan_byte b (c, s) = (c1, s1)" by fastforce
  obtain c2 t1 where t: "scan_byte b (c, t) = (c2, t1)" by fastforce
  have "c1 = c2" "same_but_noted s1 t1" using scan_byte_same [OF Cons.prems, of b c] s t by auto
  with Cons.IH [of s1 t1 c1] s t show ?case by simp
qed simp

lemma note_same: "same_but_noted s (note_overflow s)"
  by (simp add: same_but_noted_def note_overflow_eq overflow_pending_def)

lemma note_overflow_same: "same_but_noted s t \<Longrightarrow> note_overflow s = note_overflow t"
  unfolding same_but_noted_def note_overflow_eq
  by (metis JsonUsageScanner.unfold_congs(7) JsonUsageScanner.surjective JsonUsageScanner.update_convs(7))

lemma scanner_scan_append:
  "scanner_scan (as @ bs) s =
     (let (ca, sa) = scanner_scan as s; (cb, sb) = scanner_scan bs sa in (ca @ cb, sb))"
proof -
  obtain ca s1 where a: "fold scan_byte as ([], s) = (ca, s1)" by fastforce
  have ab: "fold scan_byte (as @ bs) ([], s) =
      (ca @ fst (fold scan_byte bs ([], s1)), snd (fold scan_byte bs ([], s1)))"
    using fold_scan_acc [of bs ca s1] a by simp
  have S: "fst (fold scan_byte bs ([], s1)) = fst (fold scan_byte bs ([], note_overflow s1))"
    "note_overflow (snd (fold scan_byte bs ([], s1))) = note_overflow (snd (fold scan_byte bs ([], note_overflow s1)))"
    using fold_scan_same [OF note_same [of s1], of bs "[]"] by (auto intro: note_overflow_same)
  show ?thesis
    unfolding scanner_scan_def ab using a S by (simp add: Let_def split_beta)
qed


lemma scanner_overflow_final:
  "js_overflowed s \<Longrightarrow> js_overflowed (snd (scanner_scan bs s))"
  using fold_scan_pending [of s bs "[]"]
  by (simp add: scanner_scan_def split_beta Let_def note_overflow_eq overflow_pending_def)

lemma merge_capture_frame [simp]:
  "non_stream_scanner (merge_capture f c u) = non_stream_scanner u"
  "observer_overflowed (merge_capture f c u) = observer_overflowed u"
  by (simp_all add: merge_capture_def split: option.splits)

lemma fold_capture_frame [simp]:
  "non_stream_scanner (fold (merge_capture f) cs u) = non_stream_scanner u"
  "observer_overflowed (fold (merge_capture f) cs u) = observer_overflowed u"
  by (induction cs arbitrary: u) simp_all

lemma merge_capture_commute:
  "merge_capture f c (u\<lparr>non_stream_scanner := s, observer_overflowed := x\<rparr>) =
     (merge_capture f c u)\<lparr>non_stream_scanner := s, observer_overflowed := x\<rparr>"
  by (simp add: merge_capture_def merge_usage_def Let_def split_beta split: option.splits)

lemma fold_capture_commute:
  "fold (merge_capture f) cs (u\<lparr>non_stream_scanner := s, observer_overflowed := x\<rparr>) =
     (fold (merge_capture f) cs u)\<lparr>non_stream_scanner := s, observer_overflowed := x\<rparr>"
  by (induction cs arbitrary: u) (simp_all add: merge_capture_commute)

lemma observe_non_stream_append:
  "observe_non_stream_bytes f (as @ bs) u = observe_non_stream_bytes f bs (observe_non_stream_bytes f as u)"
proof -
  obtain ca sa where a: "scanner_scan as (non_stream_scanner u) = (ca, sa)" by fastforce
  obtain cb sb where b: "scanner_scan bs sa = (cb, sb)" by fastforce
  have "(js_overflowed sa \<or> js_overflowed sb) = js_overflowed sb"
    using scanner_overflow_final [of sa bs] b by auto
  moreover have "scanner_scan (as @ bs) (non_stream_scanner u) = (ca @ cb, sb)"
    by (simp add: scanner_scan_append a b)
  ultimately show ?thesis
    using a b by (simp add: observe_non_stream_bytes_def fold_capture_commute)
qed

text \<open>Bodies are observed independently of their chunks: the bounded scanner finds the same usage objects and
  reports the same overflow however the body is cut, without any condition.\<close>

theorem body_chunk_invariance:
  "fold (observe_non_stream_bytes f) (c # cs) u = observe_non_stream_bytes f (concat (c # cs)) u"
proof (induction cs arbitrary: c u)
  case (Cons d cs)
  then show ?case
    by (simp add: observe_non_stream_append)
qed simp


subsection \<open>Cost\<close>

text \<open>The known fields with their prices; the exact price of one of them, rounded half up to a pico-dollar; and
  the amount a decimal string denotes, in pico-dollars.\<close>

definition known_fields :: "TokenCounts \<Rightarrow> PriceSnapshot \<Rightarrow> (nat \<times> nat) list" where
  "known_fields c p = List.map_filter (\<lambda>(n, rate). map_option (\<lambda>n. (unat n, unat rate)) n) (priced_fields c p)"

definition half_up :: "nat \<times> nat \<Rightarrow> nat" where
  "half_up nr = (fst nr * snd nr + 500000) div 1000000"

definition pico_usd :: "string \<Rightarrow> nat option" where
  "pico_usd s =
     (case split_once CHR ''.'' s of
        Some (whole, fractional) \<Rightarrow>
          if length fractional = 12 then Some (digits_nat whole * 10 ^ 12 + digits_nat fractional) else None
      | None \<Rightarrow> None)"

lemma rounded_cost_eq:
  "rounded_cost n rate =
     (if unat n * unat rate + 500000 < 2 ^ 128 then Some (of_nat (half_up (unat n, unat rate))) else None)"
proof -
  have cast: "unat (ucast n :: u128) = unat n"
    using unsigned_less [of n, where ?'a = nat] by (simp add: unsigned_ucast_eq take_bit_nat_eq_self)
  show ?thesis
  proof (cases "unat n * unat rate < 2 ^ 128")
    case False
    then show ?thesis by (simp add: rounded_cost_def checked_mul_def cast)
  next
    case True
    have prod: "unat ((ucast n :: u128) * rate) = unat n * unat rate"
      using True by (simp add: unat_word_ariths cast)
    have half: "TOKENS_PER_MILLION div 2 = 500000" "unat TOKENS_PER_MILLION = 1000000"
      by (simp_all add: TOKENS_PER_MILLION_def) 
    show ?thesis
    proof (cases "unat n * unat rate + 500000 < 2 ^ 128")
      case False
      then show ?thesis using True by (simp add: rounded_cost_def checked_mul_def checked_add_def cast prod half)
    next
      case small: True
      let ?s = "(ucast n :: u128) * rate + 500000"
      have s: "unat ?s = unat n * unat rate + 500000"
        using small prod by (simp add: unat_word_ariths)
      have "?s div TOKENS_PER_MILLION = of_nat (unat ?s div unat TOKENS_PER_MILLION)"
        by (simp only: unat_div_distrib [symmetric]) simp
      then have "?s div TOKENS_PER_MILLION = of_nat (half_up (unat n, unat rate))"
        by (simp only: s half half_up_def fst_conv snd_conv)
      then show ?thesis
        using True small by (simp add: rounded_cost_def checked_mul_def checked_add_def cast prod half)
    qed
  qed
qed


lemma unat_of_nat_u128: "n < 2 ^ 128 \<Longrightarrow> unat (of_nat n :: u128) = n"
  by (simp add: unat_of_nat)

lemma checked_add_of_nat:
  "a < 2 ^ 128 \<Longrightarrow> b < 2 ^ 128 \<Longrightarrow>
   checked_add (of_nat a :: u128) (of_nat b) = (if a + b < 2 ^ 128 then Some (of_nat (a + b)) else None)"
  by (simp add: checked_add_def unat_of_nat_u128)

abbreviation fits :: "(nat \<times> nat) list \<Rightarrow> nat \<Rightarrow> bool" where
  "fits kf acc \<equiv> list_all (\<lambda>(n, rate). n * rate + 500000 < 2 ^ 128) kf \<and> acc + sum_list (map half_up kf) < 2 ^ 128"

lemma cost_loop_eq:
  "acc < 2 ^ 128 \<Longrightarrow>
   cost_loop ps (of_nat acc, known) =
     (let kf = List.map_filter (\<lambda>(n, rate). map_option (\<lambda>n. (unat n, unat rate)) n) ps
      in if fits kf acc then Inr (of_nat (acc + sum_list (map half_up kf)), known \<or> kf \<noteq> [])
         else Inl CostOverflow)"
proof (induction ps arbitrary: acc known)
  case Nil
  then show ?case by simp
next
  case (Cons q ps)
  obtain n rate where q: "q = (n, rate)" by fastforce
  show ?case
  proof (cases n)
    case None
    with Cons q show ?thesis by simp
  next
    case (Some m)
    let ?h = "half_up (unat m, unat rate)"
    show ?thesis
    proof (cases "unat m * unat rate + 500000 < 2 ^ 128")
      case False
      with Some q show ?thesis by (simp add: rounded_cost_eq)
    next
      case True
      then have h: "?h < 2 ^ 128" by (simp add: half_up_def)
      show ?thesis
      proof (cases "acc + ?h < 2 ^ 128")
        case False
        with True Some q h Cons.prems show ?thesis
          by (simp add: rounded_cost_eq checked_add_of_nat)
      next
        case small: True
        have "cost_loop (q # ps) (of_nat acc, known) = cost_loop ps (of_nat (acc + ?h), True)"
          using True small Some q h Cons.prems by (simp add: rounded_cost_eq checked_add_of_nat)
        with Cons.IH [OF small, of True] True Some q show ?thesis
          by (simp add: Let_def add.assoc)
      qed
    qed
  qed
qed

lemma pico_format: "pico_usd (format_pico_usd v) = Some (unat v)"
proof -
  let ?w = "show_nat (unat v div PICO_USD_PER_USD)" and ?f = "pad_zeros 12 (show_nat (unat v mod PICO_USD_PER_USD))"
  have "CHR ''.'' \<notin> set ?w"
    using show_nat_digits [of "CHR ''.''"] by (auto simp: is_ascii_digit_def)
  then have "split_once CHR ''.'' (format_pico_usd v) = Some (?w, ?f)"
    using split_once_append [of "CHR ''.''" ?w ?f] by (simp add: format_pico_usd_def)
  moreover have "length (show_nat (unat v mod PICO_USD_PER_USD)) \<le> 12"
    by (rule length_show_nat) (simp_all add: PICO_USD_PER_USD_def)
  then have "length ?f = 12" by (simp add: pad_zeros_def)
  ultimately show ?thesis
    by (simp add: pico_usd_def pad_zeros_def digits_nat_zeros digits_nat_show PICO_USD_PER_USD_def)
qed

text \<open>C39. Costs are exact: the amount is the sum over the known token fields of tokens times price per million, each
  rounded half up to a pico-dollar, written as a decimal string that denotes exactly that sum.
  There is no amount exactly when nothing is known, and an error exactly when a product or the sum
  leaves the 128-bit range; nothing wraps.\<close>

theorem calculate_cost_exact:
  "let kf = known_fields (uo_counts usage) p; exact = sum_list (map half_up kf)
   in case calculate_cost usage p version of
        Inl _ \<Rightarrow> \<not> (list_all (\<lambda>(n, rate). n * rate + 500000 < 2 ^ 128) kf \<and> exact < 2 ^ 128)
      | Inr cost \<Rightarrow>
          list_all (\<lambda>(n, rate). n * rate + 500000 < 2 ^ 128) kf \<and> exact < 2 ^ 128 \<and>
          ce_usage_completeness cost = uo_completeness usage \<and>
          (case amount_usd cost of
             None \<Rightarrow> kf = []
           | Some amount \<Rightarrow> kf \<noteq> [] \<and> pico_usd amount = Some exact)"
  using cost_loop_eq [of 0 "priced_fields (uo_counts usage) p" False]
  by (auto simp: calculate_cost_def known_fields_def Let_def pico_format unat_of_nat_u128 split: if_splits)

subsection \<open>The accounting basis\<close>

lemma max_by_key_max:
  "(case max_by_key f xs of None \<Rightarrow> xs = [] | Some m \<Rightarrow> m \<in> set xs \<and> list_all (\<lambda>x. f x \<le> f m) xs)"
proof (induction xs)
  case (Cons x xs)
  then show ?case
    by (cases "max_by_key f xs") (auto simp: list_all_iff intro: order_trans less_imp_le)
qed simp

text \<open>The accounting basis is one of the observations and none is better: what is known beats what is unknown,
  then an official count beats a console count, which beats an estimate, and within a source the
  more complete observation wins. There is none only when nothing was observed.\<close>

theorem final_basis_best:
  "case select_final_basis obs of
     None \<Rightarrow> obs = []
   | Some b \<Rightarrow> b \<in> set obs \<and>
       list_all (\<lambda>x. if uo_completeness b = UsageUnknown then uo_completeness x = UsageUnknown
         else if uo_completeness x = UsageUnknown then True
         else source_rank (uo_source x) < source_rank (uo_source b) \<or>
              (uo_source x = uo_source b \<and> completeness_rank (uo_completeness x) \<le> completeness_rank (uo_completeness b))) obs"
proof (cases "select_final_basis obs")
  case None
  then show ?thesis using max_by_key_max [where f = basis_rank and xs = obs] by (simp add: select_final_basis_def)
next
  case (Some b)
  have src: "source_rank x = source_rank y \<longleftrightarrow> x = y" for x y by (cases x; cases y) simp_all
  have "b \<in> set obs" "list_all (\<lambda>x. basis_rank x \<le> basis_rank b) obs"
    using Some max_by_key_max [where f = basis_rank and xs = obs] by (simp_all add: select_final_basis_def)
  then show ?thesis
    using Some by (auto simp: list_all_iff basis_rank_def less_eq_prod_def src split: if_splits)
qed


subsection \<open>Gaps\<close>

lemma fragment_gap_final: "output_gap u \<Longrightarrow> output_gap (fold (observe_fragment now v) ps u)"
proof (induction ps arbitrary: u)
  case (Cons p ps)
  then show ?case by (simp add: observe_fragment_def Let_def split: option.splits)
qed simp

lemma content_gap_final: "output_gap u \<Longrightarrow> output_gap (observe_output_content now v u)"
  by (simp add: observe_output_content_def Let_def fragment_gap_final split: option.splits)

lemma line_gap_final: "output_gap u \<Longrightarrow> output_gap (observe_sse_line f now line u)"
  by (simp add: observe_sse_line_def commit_event_def mark_observer_gap_def Let_def content_gap_final
      split: option.splits)

lemma byte_gap_final: "output_gap u \<Longrightarrow> output_gap (snd (sse_byte f now b u))"
  by (simp add: sse_byte_def Let_def line_gap_final mark_observer_gap_def)

lemma loop_gap_final: "output_gap u \<Longrightarrow> output_gap (sse_loop f now bs u)"
proof (induction bs arbitrary: u)
  case (Cons b bs)
  then show ?case
    using byte_gap_final [of u f now b] by (auto split: prod.splits bool.splits)
qed simp

text \<open>The end of any content block, an event every complete block of a stream has, is taken for a block of an
  unknown kind: from then on there is no output estimate, whatever the stream goes on to contain.\<close>

theorem content_block_stop_ends_estimate:
  assumes "json_get ''type'' v = Some (JString ''content_block_stop'')"
  shows "output_tokens_estimate (sse_evidence (observe_sse_bytes f now' bytes (observe_output_content now v u))) = None"
proof -
  have "output_gap (observe_output_content now v u)"
    using assms by (simp add: observe_output_content_def content_fragments_def Let_def)
  then show ?thesis
    by (simp add: sse_evidence_def observe_sse_bytes_def loop_gap_final)
qed

theorem content_block_stop_ends_estimate_witness:
  "output_tokens_estimate (sse_evidence (observe_sse_bytes (\<lambda>_. None) 5 ''data: x''
     (observe_output_content 3 (JObject [(''type'', JString ''content_block_stop'')])
        (UsageObserver_default\<lparr>output_content_seen := True, output_content_bytes := 8\<rparr>)))) = None"
  by (rule content_block_stop_ends_estimate) simp

subsection \<open>Overflow within a chunk\<close>

text \<open>Feeding a line without line breaks to a fresh line buffer.\<close>

definition count_bytes :: "nat \<Rightarrow> UsageObserver \<Rightarrow> UsageObserver" where
  "count_bytes n u = u\<lparr>decoded_bytes_seen := ((\<lambda>x. saturating_add x 1) ^^ n) (decoded_bytes_seen u)\<rparr>"

lemma funpow_count:
  "((\<lambda>x. saturating_add x 1) ^^ n) (saturating_add d 1) = saturating_add (((\<lambda>x. saturating_add x 1) ^^ n) (d :: u64)) 1"
  by (induction n) simp_all

lemma sse_loop_line:
  assumes "\<not> ignore_next_lf u" "CHR 0x0A \<notin> set line" "CHR 0x0D \<notin> set line"
    and "length (line_buffer u) + length line \<le> MAX_SSE_OBSERVER_BUFFER"
  shows "sse_loop f now (line @ bs) u =
     sse_loop f now bs (count_bytes (length line) (u\<lparr>line_buffer := line_buffer u @ line\<rparr>))"
  using assms
proof (induction line arbitrary: u)
  case Nil
  then show ?case by (simp add: count_bytes_def)
next
  case (Cons c line)
  let ?u = "u\<lparr>decoded_bytes_seen := saturating_add (decoded_bytes_seen u) 1, ignore_next_lf := False,
    line_buffer := line_buffer u @ [c]\<rparr>"
  have step: "sse_byte f now c u = (False, ?u)"
    using Cons.prems by (auto simp: sse_byte_def Let_def)
  have "count_bytes (length line) (?u\<lparr>line_buffer := line_buffer ?u @ line\<rparr>) =
      count_bytes (length (c # line)) (u\<lparr>line_buffer := line_buffer u @ c # line\<rparr>)"
    using Cons.prems(1) by (cases u) (simp add: count_bytes_def funpow_count)
  with step Cons.IH [of ?u] Cons.prems show ?case by simp
qed

lemma sse_loop_full_line:
  assumes "\<not> ignore_next_lf u" "line_buffer u = []" "CHR 0x0A \<notin> set line" "CHR 0x0D \<notin> set line"
    and "length line \<le> MAX_SSE_OBSERVER_BUFFER"
  shows "sse_loop f now (line @ CHR 0x0A # bs) u =
     sse_loop f now bs ((observe_sse_line f now line (count_bytes (Suc (length line)) u))\<lparr>ignore_next_lf := False\<rparr>)"
proof -
  let ?v = "count_bytes (length line) (u\<lparr>line_buffer := line\<rparr>)"
  have "sse_loop f now (line @ CHR 0x0A # bs) u = sse_loop f now (CHR 0x0A # bs) ?v"
    using sse_loop_line [OF assms(1,3,4), of f now "CHR 0x0A # bs"] assms(2,5) by simp
  moreover have "(?v\<lparr>decoded_bytes_seen := saturating_add (decoded_bytes_seen ?v) 1, ignore_next_lf := False, line_buffer := []\<rparr>) =
      count_bytes (Suc (length line)) u"
    using assms(1,2) by (cases u) (simp add: count_bytes_def)
  then have "sse_byte f now (CHR 0x0A) ?v =
      (False, (observe_sse_line f now line (count_bytes (Suc (length line)) u))\<lparr>ignore_next_lf := False\<rparr>)"
    using assms(1) by (simp add: sse_byte_def Let_def count_bytes_def)
  ultimately show ?thesis by simp
qed


definition usage_event :: Json where
  "usage_event = JObject [(''usage'', JObject [(''input_tokens'', JU64 7)])]"

definition read_marker :: "string \<Rightarrow> Json option" where
  "read_marker s = (if s = ''u'' then Some usage_event else None)"

lemma data_line:
  "observe_sse_line f now (CHR ''d'' # CHR ''a'' # CHR ''t'' # CHR ''a'' # CHR '':'' # c # rest) u =
     (let data = (if c = CHR 0x20 then rest else c # rest) in
      if event_data u \<noteq> [] \<and> length (event_data u) \<ge> MAX_SSE_OBSERVER_BUFFER then mark_observer_gap u
      else let u1 = (if event_data u \<noteq> [] then u\<lparr>event_data := event_data u @ [CHR 0x0A]\<rparr> else u)
           in if length (event_data u1) + length data > MAX_SSE_OBSERVER_BUFFER then mark_observer_gap u1
              else u1\<lparr>event_data := event_data u1 @ data\<rparr>)"
  by (simp add: observe_sse_line_def strip_prefix_def starts_with_def)

lemma count_bytes_frame [simp]:
  "event_data (count_bytes n u) = event_data u" "line_buffer (count_bytes n u) = line_buffer u"
  "ignore_next_lf (count_bytes n u) = ignore_next_lf u" "observer_overflowed (count_bytes n u) = observer_overflowed u"
  "saw_usage (count_bytes n u) = saw_usage u"
  by (simp_all add: count_bytes_def)

text \<open>Two data lines of one event that overflow the observer together.\<close>

lemma overflowing_lines:
  assumes "set big \<subseteq> {CHR ''x''}" "length big = 200000"
  defines "long_line \<equiv> ''data:'' @ big @ [CHR 0x0A]"
  shows "\<exists>u. observer_overflowed u \<and> \<not> saw_usage u \<and> line_buffer u = [] \<and> event_data u = [] \<and> \<not> ignore_next_lf u \<and>
    (\<forall>bs. sse_loop f now ((long_line @ long_line) @ bs) UsageObserver_default = sse_loop f now bs u)"
proof -
  let ?l = "''data:'' @ big"
  obtain rest where big: "big = CHR ''x'' # rest" using assms(1,2) by (cases big) auto
  have nl: "CHR 0x0A \<notin> set ?l" "CHR 0x0D \<notin> set ?l" using assms(1) by auto
  have len: "length ?l \<le> MAX_SSE_OBSERVER_BUFFER" using assms(2) by (simp add: MAX_SSE_OBSERVER_BUFFER_def)
  define u1 where "u1 = (observe_sse_line f now ?l (count_bytes (Suc (length ?l)) UsageObserver_default))\<lparr>ignore_next_lf := False\<rparr>"
  define u2 where "u2 = (observe_sse_line f now ?l (count_bytes (Suc (length ?l)) u1))\<lparr>ignore_next_lf := False\<rparr>"
  have d: "\<not> ignore_next_lf UsageObserver_default" "line_buffer UsageObserver_default = []"
    "event_data UsageObserver_default = []" "\<not> saw_usage UsageObserver_default"
    by (simp_all add: UsageObserver_default_def)
  have e1: "event_data u1 = big" "line_buffer u1 = []" "\<not> ignore_next_lf u1" "\<not> saw_usage u1"
    unfolding u1_def big using d assms(2) big by (simp_all add: data_line Let_def MAX_SSE_OBSERVER_BUFFER_def)
  have e2: "observer_overflowed u2" "\<not> saw_usage u2" "line_buffer u2 = []" "event_data u2 = []" "\<not> ignore_next_lf u2"
    unfolding u2_def big using e1 assms(2) big
    by (simp_all add: data_line Let_def MAX_SSE_OBSERVER_BUFFER_def mark_observer_gap_def)
  have "sse_loop f now ((long_line @ long_line) @ bs) UsageObserver_default = sse_loop f now bs u2" for bs
  proof -
    have "sse_loop f now ((long_line @ long_line) @ bs) UsageObserver_default = sse_loop f now (?l @ CHR 0x0A # bs) u1"
      using sse_loop_full_line [OF d(1,2) nl len, of f now "?l @ CHR 0x0A # bs"] by (simp add: long_line_def u1_def)
    also have "\<dots> = sse_loop f now bs u2"
      using sse_loop_full_line [OF e1(3,2) nl len, of f now bs] by (simp add: u2_def)
    finally show ?thesis .
  qed
  with e2 show ?thesis by blast
qed

text \<open>Once a data line overflows the observer, the rest of the same chunk is still observed while later chunks are
  not: the same bytes yield usage or none depending on where the network cuts them.\<close>

theorem overflow_depends_on_chunks:
  "let long_line = ''data:'' @ replicate 200000 (CHR ''x'') @ [CHR 0x0A]; as = long_line @ long_line;
       bs = ''data:u'' @ [CHR 0x0A, CHR 0x0A]
   in saw_usage (observe_sse_bytes read_marker 0 (as @ bs) UsageObserver_default) \<and>
      \<not> saw_usage (observe_sse_bytes read_marker 0 bs (observe_sse_bytes read_marker 0 as UsageObserver_default))"
proof -
  define big where "big = replicate 200000 (CHR ''x'')"
  define ll where "ll = ''data:'' @ big @ [CHR 0x0A]"
  define bs where "bs = ''data:u'' @ [CHR 0x0A, CHR 0x0A]"
  have "set big \<subseteq> {CHR ''x''}" "length big = 200000" by (simp_all add: big_def)
  from overflowing_lines [OF this, of read_marker 0, folded ll_def] obtain u where
    u: "observer_overflowed u" "\<not> saw_usage u" "line_buffer u = []" "event_data u = []" "\<not> ignore_next_lf u"
    and run: "\<And>bs. sse_loop read_marker 0 ((ll @ ll) @ bs) UsageObserver_default = sse_loop read_marker 0 bs u" by blast
  have "saw_usage (sse_loop read_marker 0 bs u)"
    using u by (simp add: bs_def sse_byte_def observe_sse_line_def strip_prefix_def starts_with_def commit_event_def read_marker_def
        usage_event_def MAX_SSE_OBSERVER_BUFFER_def observe_output_content_def content_fragments_def observe_json_def
        merge_usage_at_def merge_usage_def merge_u64_def Let_def)
  moreover have "\<not> observer_overflowed UsageObserver_default" by (simp add: UsageObserver_default_def)
  ultimately have "saw_usage (observe_sse_bytes read_marker 0 ((ll @ ll) @ bs) UsageObserver_default)"
    "\<not> saw_usage (observe_sse_bytes read_marker 0 bs (observe_sse_bytes read_marker 0 (ll @ ll) UsageObserver_default))"
    using run [of bs] run [of "[]"] u by (simp_all add: observe_sse_bytes_def)
  then show ?thesis
    unfolding Let_def big_def [symmetric] ll_def [symmetric] bs_def [symmetric] by blast
qed

end
