(* ===== verification/Json_Compare.thy ===== *)
theory Json_Compare
  imports Json_Value
begin

text \<open>
  Numbers and equality of JSON values. A \<^verbatim>\<open>f64\<close> is its 64 bits; the numbers of a JSON document and of a
  published capability are finite, so comparing two of them is comparing sign and magnitude. For two zeros of
  different sign \<^verbatim>\<open>max\<close> and \<^verbatim>\<open>min\<close> may return either; the model returns the first.
\<close>

subsection \<open>Finite floats\<close>

type_synonym f64 = "64 word"

definition f64_key :: "f64 \<Rightarrow> int" where
  "f64_key b = (if unat b < 2 ^ 63 then int (unat b) else - int (unat b - 2 ^ 63))"

definition f64_lt :: "f64 \<Rightarrow> f64 \<Rightarrow> bool" where
  "f64_lt a b \<longleftrightarrow> f64_key a < f64_key b"

definition f64_le :: "f64 \<Rightarrow> f64 \<Rightarrow> bool" where
  "f64_le a b \<longleftrightarrow> f64_key a \<le> f64_key b"

definition f64_max :: "f64 \<Rightarrow> f64 \<Rightarrow> f64" where
  "f64_max a b = (if f64_lt a b then b else a)"

definition f64_min :: "f64 \<Rightarrow> f64 \<Rightarrow> f64" where
  "f64_min a b = (if f64_lt b a then b else a)"

text \<open>\<^verbatim>\<open>as f64\<close> of an unsigned integer rounds to the nearest float, ties to the even mantissa.\<close>

fun bit_len :: "nat \<Rightarrow> nat" where
  "bit_len n = (if n = 0 then 0 else Suc (bit_len (n div 2)))"

declare bit_len.simps [simp del]

definition round_mantissa :: "nat \<Rightarrow> nat \<Rightarrow> nat" where
  "round_mantissa n e =
     (if e \<le> 52 then n * 2 ^ (52 - e)
      else (let q = n div 2 ^ (e - 52); r = n mod 2 ^ (e - 52); half = 2 ^ (e - 53)
            in if half < r \<or> (r = half \<and> odd q) then q + 1 else q))"

definition f64_bits :: "nat \<Rightarrow> nat" where
  "f64_bits n =
     (if n = 0 then 0
      else (let e = bit_len n - 1 in (e + 1022) * 2 ^ 52 + round_mantissa n e))"

definition f64_of_nat :: "nat \<Rightarrow> f64" where
  "f64_of_nat n = of_nat (f64_bits n)"

definition f64_neg :: "f64 \<Rightarrow> f64" where
  "f64_neg b = b + 2 ^ 63"

subsection \<open>Equality\<close>

fun is_number :: "Json \<Rightarrow> bool" where
  "is_number (JU64 _) = True"
| "is_number (JI64 _) = True"
| "is_number (JF64 _) = True"
| "is_number _ = False"

fun as_f64 :: "Json \<Rightarrow> f64 option" where
  "as_f64 (JU64 n) = Some (f64_of_nat (unat n))"
| "as_f64 (JI64 n) = Some (f64_neg (f64_of_nat (2 ^ 64 - unat n)))"
| "as_f64 (JF64 b) = Some b"
| "as_f64 _ = None"

fun as_i64_some :: "Json \<Rightarrow> bool" where
  "as_i64_some (JU64 n) \<longleftrightarrow> unat n < 2 ^ 63"
| "as_i64_some (JI64 _) \<longleftrightarrow> True"
| "as_i64_some _ \<longleftrightarrow> False"

text \<open>\<^verbatim>\<open>Value == Value\<close>: members are compared by key, whatever their order; floats by value.\<close>

fun json_eq :: "Json \<Rightarrow> Json \<Rightarrow> bool" where
  "json_eq JNull JNull \<longleftrightarrow> True"
| "json_eq (JBool a) (JBool b) \<longleftrightarrow> a = b"
| "json_eq (JU64 a) (JU64 b) \<longleftrightarrow> a = b"
| "json_eq (JI64 a) (JI64 b) \<longleftrightarrow> a = b"
| "json_eq (JF64 a) (JF64 b) \<longleftrightarrow> f64_key a = f64_key b"
| "json_eq (JString a) (JString b) \<longleftrightarrow> a = b"
| "json_eq (JArray a) (JArray b) \<longleftrightarrow> list_all2 json_eq a b"
| "json_eq (JObject a) (JObject b) \<longleftrightarrow>
     length a = length b \<and>
     (\<forall>p\<in>set a. case map_of b (fst p) of None \<Rightarrow> False | Some w \<Rightarrow> json_eq (snd p) w)"
| "json_eq _ _ \<longleftrightarrow> False"

definition json_opt_eq :: "Json option \<Rightarrow> Json option \<Rightarrow> bool" where
  "json_opt_eq a b = (case (a, b) of (None, None) \<Rightarrow> True | (Some x, Some y) \<Rightarrow> json_eq x y | _ \<Rightarrow> False)"

subsection \<open>Lemmas\<close>

lemma f64_key_zero: "f64_key 0 = 0"
  by (simp add: f64_key_def)

lemma f64_max_key: "f64_key (f64_max a b) = max (f64_key a) (f64_key b)"
  by (auto simp: f64_max_def f64_lt_def)

lemma f64_min_key: "f64_key (f64_min a b) = min (f64_key a) (f64_key b)"
  by (auto simp: f64_min_def f64_lt_def)

lemma json_eq_refl: "unique_keys v \<Longrightarrow> json_eq v v"
proof (induction v rule: unique_keys.induct)
  case (1 vs)
  then show ?case by (auto simp: list_all2_conv_all_nth)
next
  case (2 m)
  have "case map_of m (fst p) of None \<Rightarrow> False | Some w \<Rightarrow> json_eq (snd p) w" if "p \<in> set m" for p
  proof -
    have "map_of m (fst p) = Some (snd p)" using 2(2) that by simp
    moreover have "json_eq (snd p) (snd p)" using 2 that by (cases p) auto
    ultimately show ?thesis by simp
  qed
  then show ?case by auto
qed auto

lemma bit_len_bounds: "n \<noteq> 0 \<Longrightarrow> 2 ^ (bit_len n - 1) \<le> n \<and> n < 2 ^ bit_len n \<and> 0 < bit_len n"
proof (induction n rule: bit_len.induct)
  case (1 n)
  show ?case
  proof (cases "n div 2 = 0")
    case True
    then have "n = 1" using 1(2) by simp
    then show ?thesis by (simp add: bit_len.simps)
  next
    case False
    then have ih: "2 ^ (bit_len (n div 2) - 1) \<le> n div 2" "n div 2 < 2 ^ bit_len (n div 2)" "0 < bit_len (n div 2)"
      using 1 by auto
    have "2 * 2 ^ (bit_len (n div 2) - 1) = (2 :: nat) ^ bit_len (n div 2)"
      using ih(3) by (simp flip: power_Suc)
    moreover have "2 * (n div 2) \<le> n" "n < 2 * (n div 2) + 2" by simp_all
    ultimately have "2 ^ bit_len (n div 2) \<le> n" "n < 2 * 2 ^ bit_len (n div 2)" using ih by linarith+
    moreover have "bit_len n = Suc (bit_len (n div 2))" using 1(2) by (simp add: bit_len.simps [of n])
    ultimately show ?thesis by simp
  qed
qed

text \<open>Integers up to the width of the mantissa are compared exactly.\<close>

lemma f64_bits_range:
  assumes "0 < n" "n < 2 ^ 53"
  shows "f64_bits n = (bit_len n + 1021) * 2 ^ 52 + n * 2 ^ (53 - bit_len n)"
    "2 ^ 52 \<le> n * 2 ^ (53 - bit_len n)" "n * 2 ^ (53 - bit_len n) < 2 ^ 53" "bit_len n \<le> 53"
proof -
  note b = bit_len_bounds [of n]
  have "(2::nat) ^ (bit_len n - 1) < 2 ^ 53" using b assms by (metis le_less_trans less_nat_zero_code neq0_conv)
  then have l: "bit_len n - 1 < 53" by (rule power_less_imp_less_exp [rotated]) simp
  then show l': "bit_len n \<le> 53" by simp
  have s: "53 - bit_len n = 52 - (bit_len n - 1)" using b assms(1) by simp
  show "f64_bits n = (bit_len n + 1021) * 2 ^ 52 + n * 2 ^ (53 - bit_len n)"
  proof -
    have "bit_len n - 1 + 1022 = bit_len n + 1021" using b assms(1) by simp
    then show ?thesis unfolding s using assms(1) l by (simp only: f64_bits_def round_mantissa_def Let_def) simp
  qed
  have "(2::nat) ^ 52 = 2 ^ (bit_len n - 1) * 2 ^ (53 - bit_len n)"
    using l' b assms(1) by (simp flip: power_add)
  then show "2 ^ 52 \<le> n * 2 ^ (53 - bit_len n)" using b assms(1) by (metis mult_le_mono1 neq0_conv)
  have "(2::nat) ^ 53 = 2 ^ bit_len n * 2 ^ (53 - bit_len n)" using l' by (simp flip: power_add)
  then show "n * 2 ^ (53 - bit_len n) < 2 ^ 53" using b assms(1) by (metis mult_less_mono1 neq0_conv zero_less_numeral zero_less_power)
qed

lemma f64_bits_mono:
  assumes "n < m" "m < 2 ^ 53"
  shows "f64_bits n < f64_bits m"
proof (cases "n = 0")
  case True
  then show ?thesis using f64_bits_range [of m] assms by (simp add: f64_bits_def [of 0])
next
  case False
  then have n: "0 < n" "n < 2 ^ 53" and m: "0 < m" using assms by auto
  note rn = f64_bits_range [OF n] and rm = f64_bits_range [OF m assms(2)]
  show ?thesis
  proof (cases "bit_len n = bit_len m")
    case True
    then show ?thesis using rn(1) rm(1) assms(1) by simp
  next
    case False
    have "(2::nat) ^ (bit_len n - 1) < 2 ^ bit_len m"
      
    proof -
      have "2 ^ (bit_len n - 1) \<le> n" "m < 2 ^ bit_len m" using bit_len_bounds n m by auto
      then show ?thesis using assms(1) by linarith
    qed
    then have "bit_len n - 1 < bit_len m" by (rule power_less_imp_less_exp [rotated]) simp
    then have lt: "bit_len n + 1 \<le> bit_len m" using False bit_len_bounds [of n] n by simp
    have "f64_bits n < (bit_len n + 1021) * 2 ^ 52 + 2 ^ 53" using rn by simp
    also have "\<dots> = (bit_len n + 1 + 1021) * 2 ^ 52 + 2 ^ 52" by simp
    also have "\<dots> \<le> (bit_len m + 1021) * 2 ^ 52 + 2 ^ 52" using lt by simp
    also have "\<dots> \<le> f64_bits m" using rm by simp
    finally show ?thesis .
  qed
qed

lemma f64_of_nat_key: "n < 2 ^ 53 \<Longrightarrow> f64_key (f64_of_nat n) = int (f64_bits n)"
proof (cases "n = 0")
  case True
  then show ?thesis by (simp add: f64_of_nat_def f64_bits_def f64_key_zero)
next
  case False
  assume "n < 2 ^ 53"
  note r = f64_bits_range [OF _ this]
  have "f64_bits n < (53 + 1021) * 2 ^ 52 + 2 ^ 53" using r False by (simp add: add_le_less_mono)
  then have b: "f64_bits n < 2 ^ 63" by simp
  then show ?thesis by (simp add: f64_of_nat_def f64_key_def unat_of_nat take_bit_eq_mod)
qed

text \<open>The comparison of integers through floats agrees with the integers below the mantissa's width.\<close>

lemma f64_lt_of_nat: "n < 2 ^ 53 \<Longrightarrow> m < 2 ^ 53 \<Longrightarrow> f64_lt (f64_of_nat n) (f64_of_nat m) \<longleftrightarrow> n < m"
  unfolding f64_lt_def using f64_bits_mono [of n m] f64_bits_mono [of m n]
  by (auto simp: f64_of_nat_key) (metis linorder_neqE_nat less_asym)

end
