(* ===== verification/Json_Pointer.thy ===== *)
theory Json_Pointer
  imports Json_Compare Text_Search
begin

text \<open>
  JSON pointers: the escapes of a reference token, \<^verbatim>\<open>Value::pointer\<close> and \<^verbatim>\<open>Value::pointer_mut\<close> as documented (RFC
  6901: an array index has no sign and no leading zero), with an update at the place a pointer names.
\<close>

subsection \<open>Tokens\<close>

text \<open>\<^verbatim>\<open>str::replace\<close> for a non-empty pattern: from the left, without overlaps.\<close>

function replace_str :: "string \<Rightarrow> string \<Rightarrow> string \<Rightarrow> string" where
  "replace_str p r [] = []"
| "replace_str p r (c # s) =
     (if starts_with p (c # s) then r @ replace_str p r (drop (length p - 1) s) else c # replace_str p r s)"
  by pat_completeness auto
termination
  by (relation "measure (\<lambda>(p, r, s). length s)") auto

definition escape_pointer :: "string \<Rightarrow> string" where
  "escape_pointer v = replace_str ''/'' ''~1'' (replace_str ''~'' ''~0'' v)"

definition unescape_token :: "string \<Rightarrow> string" where
  "unescape_token t = replace_str ''~0'' ''~'' (replace_str ''~1'' ''/'' t)"

definition pointer_tokens :: "string \<Rightarrow> string list option" where
  "pointer_tokens p =
     (case p of
        [] \<Rightarrow> Some []
      | c # _ \<Rightarrow> if c = CHR ''/'' then Some (map unescape_token (tl (split_on CHR ''/'' p))) else None)"

definition pointer_index :: "string \<Rightarrow> nat option" where
  "pointer_index t =
     (if starts_with ''+'' t \<or> (starts_with ''0'' t \<and> length t \<noteq> 1) then None else parse_unsigned USIZE_MAX t)"

subsection \<open>Looking up and updating\<close>

definition json_child :: "string \<Rightarrow> Json \<Rightarrow> Json option" where
  "json_child t v =
     (case v of
        JObject m \<Rightarrow> map_of m t
      | JArray vs \<Rightarrow> (case pointer_index t of None \<Rightarrow> None | Some i \<Rightarrow> if i < length vs then Some (vs ! i) else None)
      | _ \<Rightarrow> None)"

fun value_walk :: "string list \<Rightarrow> Json \<Rightarrow> Json option" where
  "value_walk [] v = Some v"
| "value_walk (t # ts) v = Option.bind (json_child t v) (value_walk ts)"

definition value_pointer :: "string \<Rightarrow> Json \<Rightarrow> Json option" where
  "value_pointer p v = Option.bind (pointer_tokens p) (\<lambda>ts. value_walk ts v)"

definition json_set_child :: "string \<Rightarrow> Json \<Rightarrow> Json \<Rightarrow> Json" where
  "json_set_child t c v =
     (case v of
        JObject m \<Rightarrow> JObject (obj_insert t c m)
      | JArray vs \<Rightarrow> (case pointer_index t of None \<Rightarrow> v | Some i \<Rightarrow> JArray (vs[i := c]))
      | _ \<Rightarrow> v)"

text \<open>\<open>None\<close> when there is nothing at the place.\<close>

fun update_at :: "string list \<Rightarrow> (Json \<Rightarrow> 'e + Json) \<Rightarrow> Json \<Rightarrow> ('e + Json) option" where
  "update_at [] f v = Some (f v)"
| "update_at (t # ts) f v =
     (case json_child t v of
        None \<Rightarrow> None
      | Some c \<Rightarrow> map_option (map_sum id (\<lambda>c'. json_set_child t c' v)) (update_at ts f c))"

subsection \<open>Escapes\<close>

lemma starts_with_Nil [simp]: "starts_with [] s"
  by (simp add: starts_with_def)

lemma starts_with_Cons [simp]: "starts_with (a # p) (c # s) \<longleftrightarrow> a = c \<and> starts_with p s"
  by (auto simp: starts_with_def)

lemma starts_with_Cons_Nil [simp]: "\<not> starts_with (a # p) []"
  by (simp add: starts_with_def)

lemma replace_char [simp]:
  "replace_str [a] r s = concat (map (\<lambda>c. if c = a then r else [c]) s)"
  by (induction s) auto

lemma unescape_slash: "replace_str ''~1'' ''/'' (concat (map (\<lambda>c. if c = CHR ''/'' then ''~1'' else [c])
    (concat (map (\<lambda>c. if c = CHR ''~'' then ''~0'' else [c]) s)))) = concat (map (\<lambda>c. if c = CHR ''~'' then ''~0'' else [c]) s)"
  by (induction s) auto

lemma unescape_tilde: "replace_str ''~0'' ''~'' (concat (map (\<lambda>c. if c = CHR ''~'' then ''~0'' else [c]) s)) = s"
  by (induction s) auto

lemma unescape_escape [simp]: "unescape_token (escape_pointer k) = k"
  by (simp add: unescape_token_def escape_pointer_def unescape_slash unescape_tilde)

lemma escape_no_slash: "CHR ''/'' \<notin> set (escape_pointer k)"
  by (auto simp: escape_pointer_def)

lemma replace_keeps: "c \<in> set s \<Longrightarrow> c \<notin> set p \<Longrightarrow> p \<noteq> [] \<Longrightarrow> c \<in> set (replace_str p r s)"
proof (induction p r s rule: replace_str.induct)
  case (2 p r a s)
  show ?case
  proof (cases "starts_with p (a # s)")
    case True
    then obtain t where t: "a # s = p @ t" by (metis starts_with_def append_take_drop_id)
    then have "c \<in> set t" using 2(3,4) by (metis Un_iff set_append)
    moreover have "drop (length p - 1) s = t" using t 2(5) by (cases p) auto
    ultimately show ?thesis using 2 True by auto
  next
    case False
    then show ?thesis using 2 by auto
  qed
qed simp

lemma replace_absent: "a \<notin> set s \<Longrightarrow> replace_str (a # p) r s = s"
  by (induction s) auto

lemma replace_slash: "replace_str ''~1'' ''/'' s = s \<or> CHR ''/'' \<in> set (replace_str ''~1'' ''/'' s)"
  by (induction s) auto

lemma replace_tilde: "CHR ''~'' \<in> set s \<Longrightarrow> CHR ''~'' \<in> set (replace_str ''~0'' ''~'' s)"
  by (induction "''~0''" "''~''" s rule: replace_str.induct) auto

text \<open>A token that decodes to a name without escapes is that name.\<close>

lemma unescape_plain:
  assumes "CHR ''~'' \<notin> set t" "CHR ''/'' \<notin> set t"
  shows "unescape_token raw = t \<longleftrightarrow> raw = t"
proof (cases "CHR ''~'' \<in> set raw")
  case True
  have "CHR ''~'' \<in> set (unescape_token raw) \<or> CHR ''/'' \<in> set (unescape_token raw)"
    using replace_slash [of raw] replace_tilde [OF True] replace_keeps [of "CHR ''/''" _ "''~0''" "''~''"]
    unfolding unescape_token_def by fastforce
  then show ?thesis using assms True by metis
next
  case False
  then show ?thesis by (simp add: unescape_token_def replace_absent)
qed

subsection \<open>What an update leaves alone\<close>

lemma json_child_set_other: "json_get k (json_set_child t c v) = json_get k v" if "k \<noteq> t"
  using that by (cases v) (auto simp: json_set_child_def split: option.splits)

lemma json_set_child_array: "json_get k (json_set_child t c (JArray vs)) = None"
  by (simp add: json_set_child_def split: option.splits)

text \<open>An update behind one member leaves every other member of an object alone.\<close>

lemma update_at_other:
  assumes "update_at (t # ts) f v = Some (Inr v')" "k \<noteq> t"
  shows "json_get k v' = json_get k v"
proof -
  obtain c where "v' = json_set_child t c v"
    using assms(1) by (auto split: option.splits) (metis (no_types, lifting) map_sum.simps obj_sumE sum.distinct(1) sum.inject(2))
  then show ?thesis using json_child_set_other [OF assms(2)] by simp
qed

end
