(* ===== verification/Request_Parser.thy ===== *)
theory Request_Parser
  imports Json_Pointer
begin

text \<open>
  Parsing a Messages request, \<^verbatim>\<open>gateway-policy/parser.rs\<close>. The JSON reader is a parameter: it turns the bytes
  into the events that the visitor of \<^verbatim>\<open>UniqueValue\<close> receives, in document order. \<open>RInvalid\<close> is a value at which the
  reader stops; an array or object that the reader cannot finish says so in its flag.
\<close>

subsection \<open>Data\<close>

datatype Raw =
    RInvalid | RNull | RBool bool | RU64 u64 | RI64 u64 | RF64 bool u64 | RString string
  | RArray "Raw list" bool | RObject "(string \<times> Raw) list" bool

datatype ParseError = InvalidJson | RootNotObject | DuplicateKey | UnknownRequestExtension string

record KnownMessagesProjection =
  kp_model :: "string option"
  kp_stream :: "bool option"
  kp_fields :: "(string, Json) btree"

record ParsedRequest =
  pq_raw_digest :: string
  pq_raw_body :: string
  pq_tree :: Json
  pq_known :: KnownMessagesProjection
  pq_unknown_top_level :: "string list"
  pq_unknown_content_blocks :: "string list"
  pq_presence_map :: "(string, FieldPresence) btree"

definition KNOWN_TOP_LEVEL :: "string list" where
  "KNOWN_TOP_LEVEL =
     [''model'', ''max_tokens'', ''messages'', ''system'', ''stream'', ''temperature'', ''top_p'', ''top_k'',
      ''stop_sequences'', ''tools'', ''tool_choice'', ''thinking'', ''metadata'', ''output_config'', ''context_management'']"

definition KNOWN_CONTENT_TYPES :: "string list" where
  "KNOWN_CONTENT_TYPES =
     [''text'', ''image'', ''document'', ''tool_use'', ''tool_result'', ''server_tool_use'',
      ''web_search_tool_result'', ''thinking'', ''redacted_thinking'']"

subsection \<open>The visitor\<close>

text \<open>A key is checked before its value is read; the first error in document order wins.\<close>

fun unique_value :: "Raw \<Rightarrow> ParseError + Json"
and unique_seq :: "Raw list \<Rightarrow> bool \<Rightarrow> Json list \<Rightarrow> ParseError + Json"
and unique_map :: "(string \<times> Raw) list \<Rightarrow> bool \<Rightarrow> (string \<times> Json) list \<Rightarrow> ParseError + Json" where
  "unique_value RInvalid = Inl InvalidJson"
| "unique_value RNull = Inr JNull"
| "unique_value (RBool b) = Inr (JBool b)"
| "unique_value (RU64 n) = Inr (JU64 n)"
| "unique_value (RI64 n) = Inr (JI64 n)"
| "unique_value (RF64 fin b) = (if fin then Inr (JF64 b) else Inl InvalidJson)"
| "unique_value (RString s) = Inr (JString s)"
| "unique_value (RArray rs ended) = unique_seq rs ended []"
| "unique_value (RObject ms ended) = unique_map ms ended []"
| "unique_seq [] ended vs = (if ended then Inr (JArray vs) else Inl InvalidJson)"
| "unique_seq (r # rs) ended vs =
     (case unique_value r of Inl e \<Rightarrow> Inl e | Inr v \<Rightarrow> unique_seq rs ended (vs @ [v]))"
| "unique_map [] ended m = (if ended then Inr (JObject m) else Inl InvalidJson)"
| "unique_map ((k, r) # ms) ended m =
     (if map_of m k \<noteq> None then Inl DuplicateKey
      else case unique_value r of Inl e \<Rightarrow> Inl e | Inr v \<Rightarrow> unique_map ms ended (obj_insert k v m))"

subsection \<open>Unknown extensions\<close>

definition unknown_block :: "Json \<Rightarrow> bool" where
  "unknown_block b \<longleftrightarrow>
     is_some_and (Option.bind (json_get ''type'' b) as_str_value) (\<lambda>kind. kind \<notin> set KNOWN_CONTENT_TYPES)"

definition unknown_indices :: "string \<Rightarrow> Json list \<Rightarrow> string list" where
  "unknown_indices prefix blocks =
     map (\<lambda>i. prefix @ show_nat i) (filter (\<lambda>i. unknown_block (blocks ! i)) [0..<length blocks])"

definition collect_unknown_content_blocks :: "Json option \<Rightarrow> bool \<Rightarrow> string list" where
  "collect_unknown_content_blocks v messages =
     (case v of
        None \<Rightarrow> []
      | Some v \<Rightarrow>
          if messages then
            (case as_array v of
               None \<Rightarrow> []
             | Some items \<Rightarrow>
                 concat (map (\<lambda>i.
                   (case Option.bind (json_get ''content'' (items ! i)) as_array of
                      None \<Rightarrow> []
                    | Some content \<Rightarrow> unknown_indices (''/messages/'' @ show_nat i @ ''/content/'') content))
                   [0..<length items]))
          else (case as_array v of None \<Rightarrow> [] | Some blocks \<Rightarrow> unknown_indices ''/system/'' blocks))"

definition field_presence :: "(string \<times> Json) list \<Rightarrow> string \<Rightarrow> FieldPresence" where
  "field_presence object name =
     (case map_of object name of
        None \<Rightarrow> FP_Missing
      | Some v \<Rightarrow> if v = JNull then FP_Null else FP_Value)"

definition projected_fields :: "(string \<times> Json) list \<Rightarrow> (string, Json) btree" where
  "projected_fields object =
     fold (\<lambda>name m. case map_of object name of None \<Rightarrow> m | Some v \<Rightarrow> bt_insert name v m) KNOWN_TOP_LEVEL []"

definition unknown_top_level :: "(string \<times> Json) list \<Rightarrow> string list" where
  "unknown_top_level object =
     sort (map (\<lambda>k. CHR ''/'' # escape_pointer k) (filter (\<lambda>k. k \<notin> set KNOWN_TOP_LEVEL) (map fst object)))"

definition unknown_content :: "(string \<times> Json) list \<Rightarrow> string list" where
  "unknown_content object =
     sort (collect_unknown_content_blocks (map_of object ''messages'') True @
           collect_unknown_content_blocks (map_of object ''system'') False)"

subsection \<open>The parser\<close>

text \<open>\<open>read\<close> gives the document's value and whether nothing but white space follows it; \<open>digest\<close> is the request digest.\<close>

definition parse_messages_request ::
  "(string \<Rightarrow> Raw \<times> bool) \<Rightarrow> (string \<Rightarrow> string) \<Rightarrow> string \<Rightarrow> bool \<Rightarrow> ParseError + ParsedRequest" where
  "parse_messages_request read digest raw_body strict =
     (case unique_value (fst (read raw_body)) of
        Inl e \<Rightarrow> Inl e
      | Inr tree \<Rightarrow>
          if \<not> snd (read raw_body) then Inl InvalidJson
          else (case as_object tree of
              None \<Rightarrow> Inl RootNotObject
            | Some object \<Rightarrow>
                (let top = unknown_top_level object; content = unknown_content object in
                 case (if strict then top @ content else []) of
                   path # _ \<Rightarrow> Inl (UnknownRequestExtension path)
                 | [] \<Rightarrow> Inr
                    \<lparr>pq_raw_digest = digest raw_body,
                     pq_raw_body = raw_body,
                     pq_tree = tree,
                     pq_known =
                       \<lparr>kp_model = Option.bind (map_of object ''model'') as_str_value,
                        kp_stream = Option.bind (map_of object ''stream'') as_bool_value,
                        kp_fields = projected_fields object\<rparr>,
                     pq_unknown_top_level = top,
                     pq_unknown_content_blocks = content,
                     pq_presence_map =
                       fold (\<lambda>name. bt_insert name (field_presence object name)) KNOWN_TOP_LEVEL []\<rparr>)))"

subsection \<open>Duplicate keys\<close>

text \<open>The document's own tree, members as written, and the documents the visitor accepts.\<close>

fun raw_tree :: "Raw \<Rightarrow> Json" where
  "raw_tree RInvalid = JNull"
| "raw_tree RNull = JNull"
| "raw_tree (RBool b) = JBool b"
| "raw_tree (RU64 n) = JU64 n"
| "raw_tree (RI64 n) = JI64 n"
| "raw_tree (RF64 fin b) = JF64 b"
| "raw_tree (RString s) = JString s"
| "raw_tree (RArray rs ended) = JArray (map raw_tree rs)"
| "raw_tree (RObject ms ended) = JObject (map (\<lambda>p. (fst p, raw_tree (snd p))) ms)"

fun raw_complete :: "Raw \<Rightarrow> bool" where
  "raw_complete RInvalid \<longleftrightarrow> False"
| "raw_complete (RF64 fin b) \<longleftrightarrow> fin"
| "raw_complete (RArray rs ended) \<longleftrightarrow> ended \<and> (\<forall>r\<in>set rs. raw_complete r)"
| "raw_complete (RObject ms ended) \<longleftrightarrow> ended \<and> (\<forall>p\<in>set ms. raw_complete (snd p))"
| "raw_complete _ \<longleftrightarrow> True"

lemma obj_insert_new: "map_of m k = None \<Longrightarrow> obj_insert k v m = m @ [(k, v)]"
  by (induction m) (auto split: if_splits)

text \<open>What the visitor returns for a document, a rest of an array and a rest of an object.\<close>

lemma unique_value_spec:
  "(case unique_value r of
      Inr v \<Rightarrow> raw_complete r \<and> unique_keys (raw_tree r) \<and> v = raw_tree r
    | Inl _ \<Rightarrow> \<not> (raw_complete r \<and> unique_keys (raw_tree r)))"
  "(case unique_seq rs ended vs of
      Inr v \<Rightarrow> ended \<and> (\<forall>r\<in>set rs. raw_complete r \<and> unique_keys (raw_tree r)) \<and> v = JArray (vs @ map raw_tree rs)
    | Inl _ \<Rightarrow> \<not> (ended \<and> (\<forall>r\<in>set rs. raw_complete r \<and> unique_keys (raw_tree r))))"
  "distinct (map fst m) \<Longrightarrow>
   (case unique_map ms ended m of
      Inr v \<Rightarrow> ended \<and> distinct (map fst m @ map fst ms) \<and>
        (\<forall>p\<in>set ms. raw_complete (snd p) \<and> unique_keys (raw_tree (snd p))) \<and>
        v = JObject (m @ map (\<lambda>p. (fst p, raw_tree (snd p))) ms)
    | Inl _ \<Rightarrow> \<not> (ended \<and> distinct (map fst m @ map fst ms) \<and>
        (\<forall>p\<in>set ms. raw_complete (snd p) \<and> unique_keys (raw_tree (snd p)))))"
proof (induction r and rs ended vs and ms ended m rule: unique_value_unique_seq_unique_map.induct)
  case (8 rs ended)
  then show ?case by (auto split: sum.splits)
next
  case (9 ms ended)
  then show ?case by (auto split: sum.splits simp: comp_def)
next
  case (11 r rs ended vs)
  then show ?case by (auto split: sum.splits)
next
  case (13 k r ms ended m)
  show ?case
  proof (cases "map_of m k")
    case None
    then have n: "k \<notin> fst ` set m" by (simp add: map_of_eq_None_iff)
    show ?thesis
      using 13(1,2) 13(3) None n by (auto split: sum.splits simp: obj_insert_new)
  next
    case (Some v)
    then have "k \<in> fst ` set m" by (metis domI dom_map_of_conv_image_fst)
    then show ?thesis using Some by auto
  qed
qed auto

lemma complete_error:
  "raw_complete r \<Longrightarrow> unique_value r = Inl e \<Longrightarrow> e = DuplicateKey"
  "ended \<and> (\<forall>r\<in>set rs. raw_complete r) \<Longrightarrow> unique_seq rs ended vs = Inl e \<Longrightarrow> e = DuplicateKey"
  "ended \<and> (\<forall>p\<in>set ms. raw_complete (snd p)) \<Longrightarrow> unique_map ms ended m = Inl e \<Longrightarrow> e = DuplicateKey"
  by (induction r and rs ended vs and ms ended m arbitrary: e and e and e
      rule: unique_value_unique_seq_unique_map.induct)
     (auto split: sum.splits if_splits)

subsection \<open>What a parsed request holds\<close>

lemma bt_get_fold_insert:
  "bt_get (fold (\<lambda>n. bt_insert n (f n)) ns m) k = (if k \<in> set ns then Some (f k) else bt_get m k)"
  by (induction ns arbitrary: m) auto

definition presence_of :: "Json option \<Rightarrow> FieldPresence" where
  "presence_of v = (case v of None \<Rightarrow> FP_Missing | Some w \<Rightarrow> if w = JNull then FP_Null else FP_Value)"

text \<open>The documents that are accepted, with and without strict mode.\<close>

definition acceptable :: "bool \<Rightarrow> Raw \<times> bool \<Rightarrow> bool" where
  "acceptable strict d \<longleftrightarrow>
     snd d \<and> raw_complete (fst d) \<and> unique_keys (raw_tree (fst d)) \<and>
     (case raw_tree (fst d) of
        JObject m \<Rightarrow> if strict then unknown_top_level m = [] \<and> unknown_content m = [] else True
      | _ \<Rightarrow> False)"

lemma split_on_no_sep: "c \<notin> set s \<Longrightarrow> split_on c s = [s]"
  by (induction s) auto

lemma top_pointer: "value_pointer (CHR ''/'' # escape_pointer k) (JObject m) = map_of m k"
  by (simp add: value_pointer_def pointer_tokens_def split_on_no_sep escape_no_slash json_child_def)
     (cases "map_of m k"; simp)

lemma unknown_pointers_resolve: "list_all (\<lambda>q. value_pointer q (JObject m) \<noteq> None) (unknown_top_level m)"
proof -
  have "map_of m k \<noteq> None" if "k \<in> set (map fst m)" for k
    using that by (simp add: map_of_eq_None_iff)
  then show ?thesis by (auto simp: list_all_iff unknown_top_level_def top_pointer)
qed

lemma as_object_eq: "as_object v = (case v of JObject m \<Rightarrow> Some m | _ \<Rightarrow> None)"
  by (cases v) auto

text \<open>C19. The parser accepts exactly the documents that are complete, end with the value, have an object at
  the root, repeat no key in any object at any depth and, in strict mode, hold no unknown field or content
  block. A complete document that repeats a key anywhere is refused as such. An accepted request keeps the
  exact bytes and the document's own tree, its presence map tells missing, null and set for every known
  field, and every unknown pointer it reports resolves in the tree.
\<close>

theorem parse_request_exact:
  "case parse_messages_request read digest raw_body strict of
     Inl e \<Rightarrow> \<not> acceptable strict (read raw_body) \<and>
       (if raw_complete (fst (read raw_body)) \<and> \<not> unique_keys (raw_tree (fst (read raw_body))) then e = DuplicateKey else True)
   | Inr p \<Rightarrow> acceptable strict (read raw_body) \<and> pq_raw_body p = raw_body \<and>
       pq_tree p = raw_tree (fst (read raw_body)) \<and>
       list_all (\<lambda>n. bt_get (pq_presence_map p) n = Some (presence_of (json_get n (pq_tree p)))) KNOWN_TOP_LEVEL \<and>
       list_all (\<lambda>q. value_pointer q (pq_tree p) \<noteq> None) (pq_unknown_top_level p)"
proof -
  let ?r = "fst (read raw_body)"
  note spec = unique_value_spec(1) [of ?r]
  show ?thesis
  proof (cases "unique_value ?r")
    case (Inl e)
    then show ?thesis
      using spec complete_error(1) [of ?r e] by (auto simp: parse_messages_request_def acceptable_def)
  next
    case (Inr v)
    then have v: "raw_complete ?r" "unique_keys (raw_tree ?r)" "v = raw_tree ?r" using spec by auto
    show ?thesis
    proof (cases "snd (read raw_body) \<and> as_object v \<noteq> None")
      case True
      then obtain m where m: "v = JObject m" by (cases v) auto
      then have t: "raw_tree ?r = JObject m" "unique_value ?r = Inr (JObject m)" using v(3) Inr by simp_all
      have pres: "field_presence m n = presence_of (map_of m n)" for n
        by (simp add: field_presence_def presence_of_def)
      have uk: "unique_keys (JObject m)" using v(2) t(1) by metis
      show ?thesis
        using t True v(1) uk unknown_pointers_resolve [of m]
        by (auto simp: parse_messages_request_def acceptable_def Let_def list_all_iff bt_get_fold_insert pres
            split: list.splits)
    next
      case False
      then have "\<not> acceptable strict (read raw_body)"
        unfolding acceptable_def v(3) [symmetric] by (cases v) auto
      then show ?thesis
        using Inr False v(2) by (cases "as_object v") (simp_all add: parse_messages_request_def)
    qed
  qed
qed

end
