(* ===== verification/Capability.thy ===== *)
theory Capability
  imports Json_Pointer
begin

text \<open>
  Model capabilities, \<^verbatim>\<open>gateway-policy/capability.rs\<close>: bounded conditions over the request, the compilation of a
  model's rules, and the validation of a request tree against the rules whose condition holds. A \<^verbatim>\<open>BTreeSet\<close> is
  a set; the maps of the evaluation context are sorted association lists.
\<close>

subsection \<open>Data\<close>

datatype CapabilityAction = Required | Allowed | Forbidden

datatype JsonType = TNull | TBoolean | TInteger | TNumber | TString | TArray | TObject

datatype MatchMode = AnyMatch | AllMatch

datatype CapabilityCondition =
    Always
  | CondAll "CapabilityCondition list"
  | CondAny "CapabilityCondition list"
  | CondNot CapabilityCondition
  | CondPresent string MatchMode
  | CondEquals string Json MatchMode
  | CondIn string "Json list" MatchMode

record CapabilityRule =
  cr_id :: string
  cr_path :: string
  cr_action :: CapabilityAction
  cr_types :: "JsonType set"
  cr_enum_values :: "Json list"
  cr_minimum :: "f64 option"
  cr_maximum :: "f64 option"
  cr_exclusive_maximum_path :: "string option"
  cr_required_children :: "string set"
  cr_when :: CapabilityCondition

record EvaluationContext =
  ec_headers :: "(string, Json) btree"
  ec_request :: "(string, Json) btree"

datatype CapabilityCompileError = EmptyIdentifier | InvalidPath | ConditionLimit | EmptyRange | CompileConflict

datatype RuntimeCapabilityError = PathExpansionLimit | RuntimeConflict

type_synonym CapabilityDiagnostic = "string \<times> string"

record CompiledCapabilitySnapshot =
  cs_id :: string
  cs_model_id :: string
  cs_rules :: "CapabilityRule list"

record EffectiveConstraints =
  ef_action :: CapabilityAction
  ef_types :: "JsonType set"
  ef_enum_values :: "Json list"
  ef_minimum :: "f64 option"
  ef_maximum :: "f64 option"
  ef_exclusive_maximum_path :: "string option"
  ef_required_children :: "string set"

definition MAX_CONDITION_DEPTH :: nat where "MAX_CONDITION_DEPTH = 8"
definition MAX_CONDITION_NODES :: nat where "MAX_CONDITION_NODES = 128"
definition MAX_DIRECT_CHILDREN :: nat where "MAX_DIRECT_CHILDREN = 32"
definition MAX_WILDCARDS :: nat where "MAX_WILDCARDS = 3"
definition MAX_PATH_EXPANSIONS :: nat where "MAX_PATH_EXPANSIONS = 1024"

definition REQUEST_FACTS :: "string list" where
  "REQUEST_FACTS = [''client_class'', ''model'', ''stream'']"

subsection \<open>Values\<close>

fun type_matches :: "JsonType \<Rightarrow> Json \<Rightarrow> bool" where
  "type_matches TNull v \<longleftrightarrow> v = JNull"
| "type_matches TBoolean v \<longleftrightarrow> as_bool_value v \<noteq> None"
| "type_matches TInteger v \<longleftrightarrow> as_i64_some v \<or> as_u64_value v \<noteq> None"
| "type_matches TNumber v \<longleftrightarrow> is_number v"
| "type_matches TString v \<longleftrightarrow> as_str_value v \<noteq> None"
| "type_matches TArray v \<longleftrightarrow> as_array v \<noteq> None"
| "type_matches TObject v \<longleftrightarrow> as_object v \<noteq> None"

text \<open>\<^verbatim>\<open>left.as_f64() == right.as_f64()\<close> compares by value; equal values of other kinds are of one kind.\<close>

definition strict_equal :: "Json \<Rightarrow> Json \<Rightarrow> bool" where
  "strict_equal l r \<longleftrightarrow>
     (if is_number l \<and> is_number r then map_option f64_key (as_f64 l) = map_option f64_key (as_f64 r)
      else json_eq l r)"

fun is_scalar :: "Json \<Rightarrow> bool" where
  "is_scalar (JArray _) = False"
| "is_scalar (JObject _) = False"
| "is_scalar _ = True"

subsection \<open>Paths\<close>

definition validate_path :: "string \<Rightarrow> CapabilityCompileError + unit" where
  "validate_path path =
     (case strip_prefix ''body:'' path of
        Some p \<Rightarrow>
          if \<not> starts_with ''/'' p \<or> MAX_WILDCARDS < length (filter (\<lambda>s. s = ''*'') (split_on CHR ''/'' p))
          then Inl InvalidPath else Inr ()
      | None \<Rightarrow>
          (case strip_prefix ''header:'' path of
             Some h \<Rightarrow>
               if h = [] \<or> h \<noteq> str_lower h \<or> \<not> list_all (\<lambda>c. byte c < 128) h then Inl InvalidPath else Inr ()
           | None \<Rightarrow>
               if is_some_and (strip_prefix ''request:'' path) (\<lambda>n. n \<in> set REQUEST_FACTS) then Inr ()
               else Inl InvalidPath))"

definition validate_relative_path :: "string \<Rightarrow> CapabilityCompileError + unit" where
  "validate_relative_path path =
     (case validate_path path of
        Inl e \<Rightarrow> Inl e
      | Inr _ \<Rightarrow> if \<not> starts_with ''body:/'' path \<or> CHR ''*'' \<in> set path then Inl InvalidPath else Inr ())"

text \<open>One segment for the values so far; the bound is checked after every value.\<close>

fun expand_segment :: "string \<Rightarrow> Json list \<Rightarrow> Json list \<Rightarrow> RuntimeCapabilityError + Json list" where
  "expand_segment seg [] nxt = Inr nxt"
| "expand_segment seg (v # vs) nxt =
     (let nxt' = (if seg = ''*'' then (case as_array v of Some items \<Rightarrow> nxt @ items | None \<Rightarrow> nxt)
                  else (case json_get seg v of Some child \<Rightarrow> nxt @ [child] | None \<Rightarrow> nxt))
      in if MAX_PATH_EXPANSIONS < length nxt' then Inl PathExpansionLimit else expand_segment seg vs nxt')"

fun expand_segments :: "string list \<Rightarrow> Json list \<Rightarrow> RuntimeCapabilityError + Json list" where
  "expand_segments [] vs = Inr vs"
| "expand_segments (raw # segs) vs =
     (case expand_segment (unescape_token raw) vs [] of Inl e \<Rightarrow> Inl e | Inr nxt \<Rightarrow> expand_segments segs nxt)"

definition option_list :: "'a option \<Rightarrow> 'a list" where
  "option_list x = (case x of None \<Rightarrow> [] | Some v \<Rightarrow> [v])"

definition expand_path :: "string \<Rightarrow> Json \<Rightarrow> EvaluationContext \<Rightarrow> RuntimeCapabilityError + Json list" where
  "expand_path path tree ctx =
     (case strip_prefix ''body:'' path of
        Some p \<Rightarrow> expand_segments (tl (split_on CHR ''/'' p)) [tree]
      | None \<Rightarrow>
          (case strip_prefix ''header:'' path of
             Some n \<Rightarrow> Inr (option_list (bt_get (ec_headers ctx) n))
           | None \<Rightarrow>
               (case strip_prefix ''request:'' path of
                  Some n \<Rightarrow> Inr (option_list (bt_get (ec_request ctx) n))
                | None \<Rightarrow> Inr [])))"

subsection \<open>Conditions\<close>

fun condition_walk :: "CapabilityCondition \<Rightarrow> nat \<Rightarrow> nat \<Rightarrow> CapabilityCompileError + nat"
and condition_walks :: "CapabilityCondition list \<Rightarrow> nat \<Rightarrow> nat \<Rightarrow> CapabilityCompileError + nat" where
  "condition_walk c depth nodes =
     (let n = nodes + 1 in
      if MAX_CONDITION_DEPTH < depth \<or> MAX_CONDITION_NODES < n then Inl ConditionLimit
      else (case c of
          Always \<Rightarrow> Inr n
        | CondAll cs \<Rightarrow> if MAX_DIRECT_CHILDREN < length cs then Inl ConditionLimit else condition_walks cs (depth + 1) n
        | CondAny cs \<Rightarrow> if MAX_DIRECT_CHILDREN < length cs then Inl ConditionLimit else condition_walks cs (depth + 1) n
        | CondNot c' \<Rightarrow> condition_walk c' (depth + 1) n
        | CondPresent path _ \<Rightarrow> (case validate_path path of Inl e \<Rightarrow> Inl e | Inr _ \<Rightarrow> Inr n)
        | CondEquals path v _ \<Rightarrow>
            (case validate_path path of Inl e \<Rightarrow> Inl e | Inr _ \<Rightarrow> if is_scalar v then Inr n else Inl CompileConflict)
        | CondIn path vs _ \<Rightarrow>
            (case validate_path path of
               Inl e \<Rightarrow> Inl e | Inr _ \<Rightarrow> if list_all is_scalar vs then Inr n else Inl CompileConflict)))"
| "condition_walks [] depth nodes = Inr nodes"
| "condition_walks (c # cs) depth nodes =
     (case condition_walk c depth nodes of Inl e \<Rightarrow> Inl e | Inr n \<Rightarrow> condition_walks cs depth n)"

definition validate_condition :: "CapabilityCondition \<Rightarrow> CapabilityCompileError + unit" where
  "validate_condition c = (case condition_walk c 1 0 of Inl e \<Rightarrow> Inl e | Inr _ \<Rightarrow> Inr ())"

definition reduce_matches :: "bool list \<Rightarrow> MatchMode \<Rightarrow> bool" where
  "reduce_matches vs mode \<longleftrightarrow>
     vs \<noteq> [] \<and> (case mode of AnyMatch \<Rightarrow> list_ex (\<lambda>b. b) vs | AllMatch \<Rightarrow> list_all (\<lambda>b. b) vs)"

fun condition_matches :: "CapabilityCondition \<Rightarrow> Json \<Rightarrow> EvaluationContext \<Rightarrow> RuntimeCapabilityError + bool"
and all_match :: "CapabilityCondition list \<Rightarrow> Json \<Rightarrow> EvaluationContext \<Rightarrow> RuntimeCapabilityError + bool"
and any_match :: "CapabilityCondition list \<Rightarrow> Json \<Rightarrow> EvaluationContext \<Rightarrow> RuntimeCapabilityError + bool" where
  "condition_matches Always tree ctx = Inr True"
| "condition_matches (CondAll cs) tree ctx = all_match cs tree ctx"
| "condition_matches (CondAny cs) tree ctx = any_match cs tree ctx"
| "condition_matches (CondNot c) tree ctx = map_sum id Not (condition_matches c tree ctx)"
| "condition_matches (CondPresent path mode) tree ctx =
     map_sum id (\<lambda>vs. reduce_matches (map (\<lambda>_. True) vs) mode) (expand_path path tree ctx)"
| "condition_matches (CondEquals path v mode) tree ctx =
     map_sum id (\<lambda>vs. reduce_matches (map (\<lambda>x. strict_equal x v) vs) mode) (expand_path path tree ctx)"
| "condition_matches (CondIn path expected mode) tree ctx =
     map_sum id (\<lambda>vs. reduce_matches (map (\<lambda>x. list_ex (strict_equal x) expected) vs) mode) (expand_path path tree ctx)"
| "all_match [] tree ctx = Inr True"
| "all_match (c # cs) tree ctx =
     (case condition_matches c tree ctx of Inl e \<Rightarrow> Inl e | Inr b \<Rightarrow> if b then all_match cs tree ctx else Inr False)"
| "any_match [] tree ctx = Inr False"
| "any_match (c # cs) tree ctx =
     (case condition_matches c tree ctx of Inl e \<Rightarrow> Inl e | Inr b \<Rightarrow> if b then Inr True else any_match cs tree ctx)"

subsection \<open>Merging rules\<close>

fun merge_action :: "CapabilityAction \<Rightarrow> CapabilityAction \<Rightarrow> CapabilityAction option" where
  "merge_action Forbidden Forbidden = Some Forbidden"
| "merge_action Forbidden _ = None"
| "merge_action _ Forbidden = None"
| "merge_action Required _ = Some Required"
| "merge_action _ Required = Some Required"
| "merge_action _ _ = Some Allowed"

record MergeState =
  ms_action :: "CapabilityAction option"
  ms_types :: "JsonType set option"
  ms_enum :: "Json list option"
  ms_minimum :: "f64 option"
  ms_maximum :: "f64 option"
  ms_exclusive :: "string option"
  ms_children :: "string set"

definition merge_start :: MergeState where
  "merge_start = \<lparr>ms_action = None, ms_types = None, ms_enum = None, ms_minimum = None, ms_maximum = None,
     ms_exclusive = None, ms_children = {}\<rparr>"

definition combine :: "('a \<Rightarrow> 'a \<Rightarrow> 'a) \<Rightarrow> 'a option \<Rightarrow> 'a option \<Rightarrow> 'a option" where
  "combine f a b = (case (a, b) of (Some x, Some y) \<Rightarrow> Some (f x y) | (None, _) \<Rightarrow> b | (_, None) \<Rightarrow> a)"

definition merge_rule :: "MergeState \<Rightarrow> CapabilityRule \<Rightarrow> MergeState option" where
  "merge_rule s r =
     Option.bind (case ms_action s of None \<Rightarrow> Some (cr_action r) | Some a \<Rightarrow> merge_action a (cr_action r)) (\<lambda>action.
       if is_some_and (cr_exclusive_maximum_path r) (\<lambda>p. is_some_and (ms_exclusive s) (\<lambda>q. q \<noteq> p)) then None
       else Some
         \<lparr>ms_action = Some action,
          ms_types = (if cr_types r = {} then ms_types s
                      else combine (\<inter>) (ms_types s) (Some (cr_types r))),
          ms_enum = (if cr_enum_values r = [] then ms_enum s
                     else combine (\<lambda>xs ys. filter (\<lambda>x. list_ex (strict_equal x) ys) xs) (ms_enum s) (Some (cr_enum_values r))),
          ms_minimum = combine f64_max (ms_minimum s) (cr_minimum r),
          ms_maximum = combine f64_min (ms_maximum s) (cr_maximum r),
          ms_exclusive = (case cr_exclusive_maximum_path r of None \<Rightarrow> ms_exclusive s | Some p \<Rightarrow> Some p),
          ms_children = ms_children s \<union> cr_required_children r\<rparr>)"

fun merge_loop :: "MergeState \<Rightarrow> CapabilityRule list \<Rightarrow> MergeState option" where
  "merge_loop s [] = Some s"
| "merge_loop s (r # rs) = Option.bind (merge_rule s r) (\<lambda>s'. merge_loop s' rs)"

definition merge_rules :: "CapabilityRule list \<Rightarrow> EffectiveConstraints option" where
  "merge_rules rules =
     Option.bind (merge_loop merge_start rules) (\<lambda>s.
       let types = (case ms_types s of None \<Rightarrow> {} | Some t \<Rightarrow> t);
           enum_values = (case ms_enum s of None \<Rightarrow> [] | Some e \<Rightarrow> e)
       in if list_ex (\<lambda>r. cr_types r \<noteq> {}) rules \<and> types = {} \<or>
             list_ex (\<lambda>r. cr_enum_values r \<noteq> []) rules \<and> enum_values = [] \<or>
             is_some_and (ms_minimum s) (\<lambda>mn. is_some_and (ms_maximum s) (\<lambda>mx. f64_lt mx mn))
          then None
          else Some
            \<lparr>ef_action = (case ms_action s of None \<Rightarrow> Allowed | Some a \<Rightarrow> a),
             ef_types = types, ef_enum_values = enum_values, ef_minimum = ms_minimum s, ef_maximum = ms_maximum s,
             ef_exclusive_maximum_path = ms_exclusive s, ef_required_children = ms_children s\<rparr>)"

subsection \<open>Compilation\<close>

definition group_insert :: "CapabilityRule \<Rightarrow> (string, CapabilityRule list) btree \<Rightarrow> (string, CapabilityRule list) btree" where
  "group_insert r g = bt_insert (cr_path r) ((case bt_get g (cr_path r) of None \<Rightarrow> [] | Some rs \<Rightarrow> rs) @ [r]) g"

definition validate_unconditional_intersections :: "CapabilityRule list \<Rightarrow> CapabilityCompileError + unit" where
  "validate_unconditional_intersections rules =
     (let groups = fold group_insert (filter (\<lambda>r. cr_when r = Always) rules) []
      in if list_all (\<lambda>g. merge_rules (snd g) \<noteq> None) groups then Inr () else Inl CompileConflict)"

definition validate_rule :: "CapabilityRule \<Rightarrow> CapabilityCompileError + unit" where
  "validate_rule r =
     (case validate_path (cr_path r) of
        Inl e \<Rightarrow> Inl e
      | Inr _ \<Rightarrow>
          (case (case cr_exclusive_maximum_path r of None \<Rightarrow> Inr () | Some p \<Rightarrow> validate_relative_path p) of
             Inl e \<Rightarrow> Inl e
           | Inr _ \<Rightarrow>
               (case validate_condition (cr_when r) of
                  Inl e \<Rightarrow> Inl e
                | Inr _ \<Rightarrow>
                    if is_some_and (cr_minimum r) (\<lambda>mn. is_some_and (cr_maximum r) (\<lambda>mx. f64_lt mx mn))
                    then Inl EmptyRange
                    else if \<not> list_all is_scalar (cr_enum_values r) then Inl CompileConflict
                    else Inr ())))"

fun validate_all :: "('a \<Rightarrow> 'e + unit) \<Rightarrow> 'a list \<Rightarrow> 'e + unit" where
  "validate_all f [] = Inr ()"
| "validate_all f (x # xs) = (case f x of Inl e \<Rightarrow> Inl e | Inr _ \<Rightarrow> validate_all f xs)"

definition compile_capability ::
  "string \<Rightarrow> string \<Rightarrow> CapabilityRule list \<Rightarrow> CapabilityCompileError + CompiledCapabilitySnapshot" where
  "compile_capability i model rules =
     (if i = [] \<or> model = [] \<or> list_ex (\<lambda>r. cr_id r = []) rules then Inl EmptyIdentifier
      else (case validate_all validate_rule rules of
          Inl e \<Rightarrow> Inl e
        | Inr _ \<Rightarrow>
            (let sorted_rules = sort_key cr_id rules in
             case validate_unconditional_intersections sorted_rules of
               Inl e \<Rightarrow> Inl e
             | Inr _ \<Rightarrow> Inr \<lparr>cs_id = i, cs_model_id = model, cs_rules = sorted_rules\<rparr>)))"

subsection \<open>Validation\<close>

fun active_rules ::
  "CapabilityRule list \<Rightarrow> Json \<Rightarrow> EvaluationContext \<Rightarrow> (string, CapabilityRule list) btree \<Rightarrow>
   RuntimeCapabilityError + (string, CapabilityRule list) btree" where
  "active_rules [] tree ctx g = Inr g"
| "active_rules (r # rs) tree ctx g =
     (case condition_matches (cr_when r) tree ctx of
        Inl e \<Rightarrow> Inl e
      | Inr b \<Rightarrow> active_rules rs tree ctx (if b then group_insert r g else g))"

definition exclusive_diagnostics ::
  "EffectiveConstraints \<Rightarrow> Json \<Rightarrow> Json \<Rightarrow> EvaluationContext \<Rightarrow> RuntimeCapabilityError + string list" where
  "exclusive_diagnostics c v tree ctx =
     (case (ef_exclusive_maximum_path c, as_f64 v) of
        (Some p, Some number) \<Rightarrow>
          (case expand_path p tree ctx of
             Inl e \<Rightarrow> Inl e
           | Inr rel \<Rightarrow>
               if 1 < length rel then Inl RuntimeConflict
               else Inr (case rel of
                   [] \<Rightarrow> []
                 | r # _ \<Rightarrow> if is_some_and (as_f64 r) (\<lambda>mx. f64_le mx number) then [''exclusive_maximum''] else []))
      | _ \<Rightarrow> Inr [])"

definition value_codes ::
  "EffectiveConstraints \<Rightarrow> Json \<Rightarrow> Json \<Rightarrow> EvaluationContext \<Rightarrow> RuntimeCapabilityError + string list" where
  "value_codes c v tree ctx =
     (if ef_types c \<noteq> {} \<and> \<not> (\<exists>k\<in>ef_types c. type_matches k v) then Inr [''invalid_type'']
      else (case exclusive_diagnostics c v tree ctx of
          Inl e \<Rightarrow> Inl e
        | Inr exclusive \<Rightarrow> Inr (
            (if ef_enum_values c \<noteq> [] \<and> \<not> list_ex (\<lambda>a. strict_equal a v) (ef_enum_values c) then [''invalid_enum''] else []) @
            (if is_some_and (as_f64 v) (\<lambda>x. is_some_and (ef_minimum c) (f64_lt x) \<or> is_some_and (ef_maximum c) (\<lambda>mx. f64_lt mx x))
             then [''out_of_range''] else []) @
            exclusive @
            (if is_some_and (as_object v) (\<lambda>m. \<exists>ch\<in>ef_required_children c. map_of m ch = None) then [''required_child''] else []))))"

fun values_codes ::
  "EffectiveConstraints \<Rightarrow> Json list \<Rightarrow> Json \<Rightarrow> EvaluationContext \<Rightarrow> RuntimeCapabilityError + string list" where
  "values_codes c [] tree ctx = Inr []"
| "values_codes c (v # vs) tree ctx =
     (case value_codes c v tree ctx of
        Inl e \<Rightarrow> Inl e
      | Inr codes \<Rightarrow> map_sum id ((@) codes) (values_codes c vs tree ctx))"

definition path_codes ::
  "CapabilityRule list \<Rightarrow> string \<Rightarrow> Json \<Rightarrow> EvaluationContext \<Rightarrow> bool \<Rightarrow> RuntimeCapabilityError + string list" where
  "path_codes rules path tree ctx final_pass =
     (case merge_rules rules of
        None \<Rightarrow> Inl RuntimeConflict
      | Some c \<Rightarrow>
          (case expand_path path tree ctx of
             Inl e \<Rightarrow> Inl e
           | Inr vs \<Rightarrow>
               if vs = [] then Inr (if final_pass \<and> ef_action c = Required then [''required''] else [])
               else if ef_action c = Forbidden then Inr [''forbidden'']
               else values_codes c vs tree ctx))"

fun group_diagnostics ::
  "(string, CapabilityRule list) btree \<Rightarrow> Json \<Rightarrow> EvaluationContext \<Rightarrow> bool \<Rightarrow>
   RuntimeCapabilityError + CapabilityDiagnostic list" where
  "group_diagnostics [] tree ctx final_pass = Inr []"
| "group_diagnostics ((path, rules) # gs) tree ctx final_pass =
     (case path_codes rules path tree ctx final_pass of
        Inl e \<Rightarrow> Inl e
      | Inr codes \<Rightarrow> map_sum id ((@) (map (Pair path) codes)) (group_diagnostics gs tree ctx final_pass))"

definition validate_capability ::
  "CompiledCapabilitySnapshot \<Rightarrow> Json \<Rightarrow> EvaluationContext \<Rightarrow> bool \<Rightarrow> RuntimeCapabilityError + CapabilityDiagnostic list" where
  "validate_capability snapshot tree ctx final_pass =
     (case active_rules (cs_rules snapshot) tree ctx [] of
        Inl e \<Rightarrow> Inl e
      | Inr active \<Rightarrow> map_sum id (\<lambda>ds. remdups_adj (sort ds)) (group_diagnostics active tree ctx final_pass))"

subsection \<open>The catalog\<close>

type_synonym CapabilityCatalog = "(string, CompiledCapabilitySnapshot) btree"

fun catalog_loop :: "CompiledCapabilitySnapshot list \<Rightarrow> CapabilityCatalog \<Rightarrow> CapabilityCompileError + CapabilityCatalog" where
  "catalog_loop [] models = Inr models"
| "catalog_loop (s # ss) models =
     (if bt_get models (cs_model_id s) \<noteq> None then Inl CompileConflict
      else catalog_loop ss (bt_insert (cs_model_id s) s models))"

definition catalog_new :: "CompiledCapabilitySnapshot list \<Rightarrow> CapabilityCompileError + CapabilityCatalog" where
  "catalog_new snapshots = catalog_loop snapshots []"

definition catalog_get :: "CapabilityCatalog \<Rightarrow> string \<Rightarrow> CompiledCapabilitySnapshot option" where
  "catalog_get catalog model = bt_get catalog model"

end
