(* ===== verification/System_Segments.thy ===== *)
theory System_Segments
  imports Json_Value Text_Search
begin

text \<open>
  The segmentation of a \<^verbatim>\<open>system\<close> value, \<^verbatim>\<open>gateway-policy/system_segments.rs\<close>: the attribution block, the boundary
  between the static prompt and the dynamic sections, and the fields of the environment section with their
  byte ranges.
\<close>

subsection \<open>Data\<close>

datatype OsFamily = OsWindows | OsMacos | OsLinux

datatype Flag = BoundaryUnresolved | UnknownVersion | SystemAsString | BillingMalformed

record Billing =
  cc_version :: string
  bl_client_version :: string
  bl_fp3 :: string
  cc_entrypoint :: string
  bl_cch :: "string option"

record DynamicSection =
  ds_index :: nat
  ds_kind :: string

datatype Boundary = BoundaryResolved (static_end: nat) (dynamic_start: nat) | UnresolvedBoundary

record EnvironmentField =
  ef_value :: string
  ef_range :: "nat \<times> nat"

record EnvironmentBlock =
  eb_index :: nat
  primary_working_directory :: "EnvironmentField option"
  is_git_repository :: "EnvironmentField option"
  eb_platform :: "EnvironmentField option"
  eb_shell :: "EnvironmentField option"
  eb_os_version :: "EnvironmentField option"
  eb_model :: "EnvironmentField option"
  platform_normalized :: "OsFamily option"

record SystemSegments =
  sg_billing :: "Billing option"
  static_blocks :: "nat list"
  sg_boundary :: Boundary
  sg_dynamic :: "DynamicSection list"
  sg_environment :: "EnvironmentBlock option"
  cache_control_points :: "nat list"
  sg_flags :: "Flag list"

subsection \<open>The attribution block\<close>

definition BILLING_PREFIX :: string where
  "BILLING_PREFIX = ''x-anthropic-billing-header:''"

definition is_version :: "string \<Rightarrow> bool" where
  "is_version v \<longleftrightarrow>
     (let components = split_on CHR ''.'' v
      in length components = 3 \<and> list_all (\<lambda>c. c \<noteq> [] \<and> list_all is_ascii_digit c) components)"

definition is_fp3 :: "string \<Rightarrow> bool" where
  "is_fp3 s \<longleftrightarrow> length s = 3 \<and> list_all (\<lambda>b. is_ascii_digit b \<or> (CHR ''a'' \<le> b \<and> b \<le> CHR ''f'')) s"

definition is_known_version :: "string \<Rightarrow> bool" where
  "is_known_version v \<longleftrightarrow> v = ''2.1.220'' \<or> v = ''2.1.241''"

text \<open>The fields of the payload; a field without an equals sign makes it malformed.\<close>

fun billing_fields :: "string list \<Rightarrow> (string, string) btree \<Rightarrow> (string, string) btree option" where
  "billing_fields [] m = Some m"
| "billing_fields (f # fs) m =
     (let f' = str_trim f in
      if f' = [] then billing_fields fs m
      else case split_once CHR ''='' f' of
          None \<Rightarrow> None
        | Some (k, v) \<Rightarrow> billing_fields fs (bt_insert k v m))"

definition parse_billing :: "string \<Rightarrow> Billing option" where
  "parse_billing text =
     Option.bind (strip_prefix BILLING_PREFIX (str_trim_start text)) (\<lambda>payload.
     Option.bind (billing_fields (split_on CHR '';'' payload) []) (\<lambda>fields'.
     Option.bind (bt_get fields' ''cc_version'') (\<lambda>ver.
     Option.bind (rsplit_once CHR ''.'' ver) (\<lambda>(client, fp).
       if \<not> is_version client \<or> \<not> is_fp3 fp then None
       else map_option (\<lambda>entry.
              \<lparr>cc_version = ver, bl_client_version = client, bl_fp3 = fp, cc_entrypoint = entry,
               bl_cch = bt_get fields' ''cch''\<rparr>) (bt_get fields' ''cc_entrypoint'')))))"

subsection \<open>The environment section\<close>

text \<open>A line carries a field when it starts, after its indentation and an optional bullet, with the label.\<close>

definition strip_bullet :: "string \<Rightarrow> string \<times> nat" where
  "strip_bullet rest =
     (case strip_prefix ''- '' rest of
        Some content \<Rightarrow> (content, 2)
      | None \<Rightarrow> (case strip_prefix ''* '' rest of Some content \<Rightarrow> (content, 2) | None \<Rightarrow> (rest, 0)))"

definition is_eol :: "char \<Rightarrow> bool" where
  "is_eol c \<longleftrightarrow> c = CHR 0x0D \<or> c = CHR 0x0A"

fun field_scan :: "string \<Rightarrow> nat \<Rightarrow> nat \<Rightarrow> string list \<Rightarrow> EnvironmentField option" where
  "field_scan label text_len offset [] = None"
| "field_scan label text_len offset (line # lines) =
     (let indent = length line - length (str_trim_start line);
          rest = drop indent line;
          (content, bullet) = strip_bullet rest;
          continue = field_scan label text_len (offset + length line) lines
      in case strip_prefix label content of
           None \<Rightarrow> continue
         | Some after \<Rightarrow>
             (let without_eol = trim_end_matches is_eol after;
                  leading = length without_eol - length (str_trim_start without_eol);
                  v = str_trim without_eol;
                  value_start = offset + indent + bullet + length label + leading;
                  value_end = value_start + length v
              in if value_start \<le> value_end \<and> value_end \<le> text_len
                 then Some \<lparr>ef_value = v, ef_range = (value_start, value_end)\<rparr>
                 else continue))"

definition env_field :: "string \<Rightarrow> string \<Rightarrow> EnvironmentField option" where
  "env_field text label = field_scan label (length text) 0 (split_inclusive (CHR 0x0A) text)"

definition normalize_os :: "string \<Rightarrow> OsFamily option" where
  "normalize_os s =
     (let v = str_lower (str_trim s) in
      if v = ''win32'' \<or> v = ''windows'' then Some OsWindows
      else if v = ''darwin'' \<or> v = ''macos'' \<or> v = ''mac os'' then Some OsMacos
      else if v = ''linux'' then Some OsLinux
      else None)"

definition trim_model :: "EnvironmentField \<Rightarrow> EnvironmentField" where
  "trim_model f =
     (let trimmed = trim_end_matches (\<lambda>c. c = CHR ''.'') (ef_value f); start = fst (ef_range f)
      in f\<lparr>ef_value := trimmed, ef_range := (start, start + length trimmed)\<rparr>)"

definition parse_environment :: "nat \<Rightarrow> string \<Rightarrow> EnvironmentBlock" where
  "parse_environment index text =
     (let plat = env_field text ''Platform:'' in
      \<lparr>eb_index = index,
       primary_working_directory = env_field text ''Primary working directory:'',
       is_git_repository = env_field text ''Is a git repository:'',
       eb_platform = plat,
       eb_shell = env_field text ''Shell:'',
       eb_os_version = env_field text ''OS Version:'',
       eb_model = map_option trim_model (env_field text ''The exact model ID is''),
       platform_normalized = Option.bind plat (\<lambda>f. normalize_os (ef_value f))\<rparr>)"

definition has_environment_heading :: "string \<Rightarrow> bool" where
  "has_environment_heading text \<longleftrightarrow>
     list_ex (\<lambda>line. eq_ignore_ascii_case (str_trim line) ''# environment'') (str_lines text)"

subsection \<open>The boundary\<close>

definition is_dynamic_heading :: "string \<Rightarrow> bool" where
  "is_dynamic_heading text \<longleftrightarrow>
     (let lower = str_lower text in
      starts_with ''communicating'' lower \<or> starts_with ''pronouns'' lower \<or>
      starts_with ''session_guidance'' lower \<or> starts_with ''# environment'' lower \<or>
      starts_with ''session guidance'' lower)"

definition dynamic_kind :: "string \<Rightarrow> string" where
  "dynamic_kind text =
     (let lower = str_lower text in
      if starts_with ''# environment'' lower then ''environment''
      else if starts_with ''pronouns'' lower then ''pronouns''
      else if starts_with ''session_guidance'' lower \<or> starts_with ''session guidance'' lower
      then ''session_guidance''
      else ''communicating'')"

record Block =
  bk_text :: "string option"
  bk_cache_control :: bool

definition block :: "Json \<Rightarrow> Block" where
  "block v =
     (case as_object v of
        None \<Rightarrow> \<lparr>bk_text = as_str_value v, bk_cache_control = False\<rparr>
      | Some m \<Rightarrow>
          \<lparr>bk_text = Option.bind (map_of m ''text'') as_str_value,
           bk_cache_control = is_some_and (map_of m ''cache_control'') (\<lambda>v. v \<noteq> JNull)\<rparr>)"

text \<open>The indices of the items that satisfy a predicate.\<close>

definition indices :: "('a \<Rightarrow> bool) \<Rightarrow> 'a list \<Rightarrow> nat list" where
  "indices P xs = filter (\<lambda>i. P (xs ! i)) [0..<length xs]"

definition system_blocks :: "Json \<Rightarrow> Block list" where
  "system_blocks system =
     (case system of
        JString text \<Rightarrow> [\<lparr>bk_text = Some text, bk_cache_control = False\<rparr>]
      | JArray vs \<Rightarrow> map block vs
      | _ \<Rightarrow> [])"

definition find_static_end :: "string option list \<Rightarrow> nat option" where
  "find_static_end texts =
     (let is = indices (\<lambda>t. is_some_and t (contains_str ''# Tone and style'')) texts
      in if is = [] then None else Some (last is))"

definition dynamic_text :: "string option \<Rightarrow> bool" where
  "dynamic_text t \<longleftrightarrow> is_some_and t (\<lambda>s. is_dynamic_heading (str_trim_start s))"

definition find_dynamic_start :: "nat \<Rightarrow> string option list \<Rightarrow> nat option" where
  "find_dynamic_start s texts =
     (case filter (\<lambda>i. s + 1 \<le> i) (indices dynamic_text texts) of [] \<Rightarrow> None | i # _ \<Rightarrow> Some i)"

definition resolve_boundary :: "string option list \<Rightarrow> nat list \<Rightarrow> Boundary" where
  "resolve_boundary texts cache_points =
     (case find_static_end texts of
        None \<Rightarrow> UnresolvedBoundary
      | Some s \<Rightarrow>
          (case find_dynamic_start s texts of
             None \<Rightarrow> UnresolvedBoundary
           | Some d \<Rightarrow>
               (let points = filter (\<lambda>p. s < p \<and> p < d) cache_points
                in BoundaryResolved s (if length points = 1 then min (hd points + 1) (length texts) else d))))"

definition parse_segments :: "Json \<Rightarrow> SystemSegments" where
  "parse_segments system =
     (let blocks = system_blocks system;
          texts = map bk_text blocks;
          first = (case texts of [] \<Rightarrow> None | t # _ \<Rightarrow> t);
          bill = Option.bind first parse_billing;
          cache_points = indices bk_cache_control blocks;
          boundary = resolve_boundary texts cache_points;
          flags = (case system of JString _ \<Rightarrow> [SystemAsString] | _ \<Rightarrow> []) @
            (if is_some_and first (\<lambda>t. starts_with BILLING_PREFIX (str_trim_start t)) \<and> bill = None
             then [BillingMalformed] else []) @
            (if is_some_and bill (\<lambda>b. \<not> is_known_version (bl_client_version b)) then [UnknownVersion] else []) @
            (if boundary = UnresolvedBoundary then [BoundaryUnresolved] else [])
      in \<lparr>sg_billing = bill,
          static_blocks = (case boundary of
              BoundaryResolved s _ \<Rightarrow> [(if bill \<noteq> None then 1 else 0)..<Suc s] | UnresolvedBoundary \<Rightarrow> []),
          sg_boundary = boundary,
          sg_dynamic = (case boundary of
              BoundaryResolved _ d \<Rightarrow>
                map (\<lambda>i. \<lparr>ds_index = i, ds_kind = dynamic_kind (str_trim_start (the (texts ! i)))\<rparr>)
                  (filter (\<lambda>i. d \<le> i) (indices dynamic_text texts))
            | UnresolvedBoundary \<Rightarrow> []),
          sg_environment =
            (case indices (\<lambda>t. is_some_and t has_environment_heading) texts of
               [] \<Rightarrow> None | i # _ \<Rightarrow> Some (parse_environment i (the (texts ! i)))),
          cache_control_points = cache_points,
          sg_flags = flags\<rparr>)"

subsection \<open>The byte ranges of the environment fields\<close>

definition slice :: "string \<Rightarrow> nat \<times> nat \<Rightarrow> string" where
  "slice s r = take (snd r - fst r) (drop (fst r) s)"

text \<open>The range names a part of the text, and that part is the value.\<close>

definition field_exact :: "string \<Rightarrow> EnvironmentField \<Rightarrow> bool" where
  "field_exact text f \<longleftrightarrow>
     fst (ef_range f) \<le> snd (ef_range f) \<and> snd (ef_range f) \<le> length text \<and>
     slice text (ef_range f) = ef_value f"

lemma field_exactI:
  assumes "text = pre @ v @ post"
  shows "field_exact text \<lparr>ef_value = v, ef_range = (length pre, length pre + length v)\<rparr>"
  using assms by (simp add: field_exact_def slice_def)

lemma field_exact_parts:
  assumes "field_exact text f"
  obtains pre post where "text = pre @ ef_value f @ post" "ef_range f = (length pre, length pre + length (ef_value f))"
proof -
  obtain a b where r: "ef_range f = (a, b)" by (cases "ef_range f") auto
  with assms have ab: "a \<le> b" "b \<le> length text" "take (b - a) (drop a text) = ef_value f"
    by (simp_all add: field_exact_def slice_def)
  have "length (take (b - a) (drop a text)) = b - a" using ab(1,2) by simp
  then have "b = a + length (ef_value f)" using ab(1,3) by simp
  moreover have "text = take a text @ ef_value f @ drop (b - a) (drop a text)"
    using ab(3) by (metis append_take_drop_id)
  moreover have "length (take a text) = a" using ab by simp
  ultimately show ?thesis using that r by metis
qed

lemma strip_bullet_parts:
  assumes "strip_bullet rest = (content, bullet)"
  obtains b where "rest = b @ content" "length b = bullet"
proof -
  have two: "length ''- '' = 2" "length ''* '' = 2" by simp_all
  show ?thesis
    using assms that unfolding strip_bullet_def
    by (auto simp: strip_prefix_Some split: option.splits)
qed

lemma line_parts:
  fixes line label after' content
  defines "w \<equiv> trim_end_matches is_eol after'"
  assumes b: "strip_bullet (drop (length line - length (str_trim_start line)) line) = (content, bullet)"
    and l: "strip_prefix label content = Some after'"
  obtains pre post where "line = pre @ str_trim w @ post"
    "length pre = length line - length (str_trim_start line) + bullet + length label +
       (length w - length (str_trim_start w))"
proof -
  let ?i = "length line - length (str_trim_start line)"
  let ?k = "length w - length (str_trim_start w)"
  obtain bl where bl: "drop ?i line = bl @ content" "length bl = bullet" using strip_bullet_parts [OF b] .
  have c: "content = label @ after'" using l by (simp add: strip_prefix_Some)
  obtain e where e: "after' = w @ e" unfolding w_def using trim_end_prefix by blast
  have wk: "w = take ?k w @ str_trim_start w" by (metis append_take_drop_id drop_trim_start)
  obtain t where t: "str_trim_start w = str_trim w @ t" using trim_prefix_of_trim_start by blast
  have "line = take ?i line @ bl @ label @ (take ?k w @ str_trim w @ t) @ e"
    using append_take_drop_id [of ?i line] bl(1) c e wk t by metis
  then have "line = (take ?i line @ bl @ label @ take ?k w) @ str_trim w @ t @ e" by simp
  moreover have "length (take ?i line @ bl @ label @ take ?k w) = ?i + bullet + length label + ?k"
    using bl(2) by simp
  ultimately show ?thesis using that by blast
qed

lemma field_scan_exact:
  "\<lbrakk>field_scan label (length text) (length before) lines = Some f; text = before @ concat lines\<rbrakk> \<Longrightarrow> field_exact text f"
proof (induction lines arbitrary: before)
  case (Cons line lines)
  obtain content bullet where
    b: "strip_bullet (drop (length line - length (str_trim_start line)) line) = (content, bullet)"
    by fastforce
  have step: "field_exact text f" if "field_scan label (length text) (length before + length line) lines = Some f"
    using Cons.IH [of "before @ line"] that Cons.prems(2) by simp
  show ?case
  proof (cases "strip_prefix label content")
    case None
    then show ?thesis using Cons.prems(1) b step by (simp add: Let_def)
  next
    case (Some after')
    obtain pre post where p: "line = pre @ str_trim (trim_end_matches is_eol after') @ post"
      "length pre = length line - length (str_trim_start line) + bullet + length label +
       (length (trim_end_matches is_eol after') - length (str_trim_start (trim_end_matches is_eol after')))"
      using line_parts [OF b Some] .
    let ?v = "str_trim (trim_end_matches is_eol after')"
    have t: "text = (before @ pre) @ ?v @ (post @ concat lines)" using Cons.prems(2) p(1) by simp
    show ?thesis
      using Cons.prems(1) b Some step field_exactI [OF t] p(2)
      by (auto simp: Let_def add.assoc split: if_splits)
  qed
qed simp

lemma env_field_exact:
  assumes "env_field text label = Some f"
  shows "field_exact text f"
proof (rule field_scan_exact)
  show "field_scan label (length text) (length []) (split_inclusive (CHR 0x0A) text) = Some f"
    using assms by (simp add: env_field_def)
qed (simp add: concat_split_inclusive)

lemma trim_model_exact: "field_exact text f \<Longrightarrow> field_exact text (trim_model f)"
proof -
  assume "field_exact text f"
  then obtain pre post where p: "text = pre @ ef_value f @ post"
    "ef_range f = (length pre, length pre + length (ef_value f))" by (rule field_exact_parts)
  obtain e where "ef_value f = trim_end_matches (\<lambda>c. c = CHR ''.'') (ef_value f) @ e"
    using trim_end_prefix by blast
  with p(1) have "text = pre @ trim_end_matches (\<lambda>c. c = CHR ''.'') (ef_value f) @ e @ post" by simp
  from field_exactI [OF this] p(2) show ?thesis by (simp add: trim_model_def Let_def field_exact_def)
qed

definition environment_fields :: "EnvironmentBlock \<Rightarrow> EnvironmentField list" where
  "environment_fields b =
     List.map_filter id [primary_working_directory b, is_git_repository b, eb_platform b, eb_shell b, eb_os_version b,
       eb_model b]"

text \<open>Every field that \<^verbatim>\<open>parse_environment\<close> reports carries a byte range that lies inside the text block, and
  cutting that range out of the text gives exactly the reported value: the dispatcher may overwrite the
  range without touching the label, the indentation, the bullet or the line end. The model field keeps
  this after its trailing full stops are dropped.
\<close>

theorem environment_range_exact: "list_all (field_exact text) (environment_fields (parse_environment i text))"
  using env_field_exact trim_model_exact
  by (auto simp: environment_fields_def parse_environment_def Let_def list_all_iff split: option.splits)

end
