(* ===== verification/System_Rewrite.thy ===== *)
theory System_Rewrite
  imports System_Segments "HOL-Library.Product_Lexorder"
begin

text \<open>
  The rewrites of a \<^verbatim>\<open>system\<close> value, \<^verbatim>\<open>gateway-policy/system_rewrite.rs\<close>: replacing the static segment or the
  whole value, dropping the client's blocks, and re-laying the cache breakpoints within the number the
  client sent.
\<close>

subsection \<open>Operations\<close>

definition is_empty_replacement :: "Json \<Rightarrow> bool" where
  "is_empty_replacement content =
     (case content of
        JNull \<Rightarrow> True
      | JString t \<Rightarrow> str_trim t = []
      | JArray blocks \<Rightarrow> blocks = []
      | _ \<Rightarrow> False)"

datatype SystemRewrite = StaticSegment | Whole

text \<open>\<^verbatim>\<open>json!({"type":"text","text":text})\<close>.\<close>

definition text_block :: "string \<Rightarrow> Json" where
  "text_block t = JObject [(''type'', JString ''text''), (''text'', JString t)]"

definition as_blocks :: "Json \<Rightarrow> Json list" where
  "as_blocks replacement =
     (case replacement of JString t \<Rightarrow> [text_block t] | JArray blocks \<Rightarrow> blocks | _ \<Rightarrow> [])"

definition has_point :: "Json \<Rightarrow> bool" where
  "has_point b \<longleftrightarrow>
     is_some_and (Option.bind (as_object b) (\<lambda>m. map_of m ''cache_control'')) (\<lambda>v. v \<noteq> JNull)"

definition count_points :: "Json list \<Rightarrow> nat" where
  "count_points blocks = length (filter has_point blocks)"

definition last_cache_control :: "Json list \<Rightarrow> Json option" where
  "last_cache_control blocks =
     Option.bind (find has_point (rev blocks)) (json_get ''cache_control'')"

text \<open>\<^verbatim>\<open>object.remove\<close> and \<^verbatim>\<open>object.insert\<close> behind \<^verbatim>\<open>as_object_mut\<close>: other values are left alone.\<close>

fun remove_point :: "Json \<Rightarrow> Json" where
  "remove_point (JObject m) = JObject (obj_remove ''cache_control'' m)"
| "remove_point v = v"

fun set_point :: "Json \<Rightarrow> Json \<Rightarrow> Json" where
  "set_point cache (JObject m) = JObject (obj_insert ''cache_control'' cache m)"
| "set_point cache v = v"

fun drop_points :: "nat \<Rightarrow> nat list \<Rightarrow> Json list \<Rightarrow> Json list" where
  "drop_points excess [] blocks = blocks"
| "drop_points excess (i # is) blocks =
     (if excess = 0 then blocks
      else if has_point (blocks ! i) then drop_points (excess - 1) is (blocks[i := remove_point (blocks ! i)])
      else drop_points excess is blocks)"

definition point_candidates :: "nat \<Rightarrow> nat \<times> nat \<Rightarrow> nat list" where
  "point_candidates n inserted =
     filter (\<lambda>i. i < n) [fst inserted..<snd inserted] @
     filter (\<lambda>i. \<not> (fst inserted \<le> i \<and> i < snd inserted)) [0..<n]"

definition enforce_breakpoint_budget :: "Json list \<Rightarrow> nat \<Rightarrow> nat \<times> nat \<Rightarrow> Json list" where
  "enforce_breakpoint_budget blocks budget inserted =
     (let excess = count_points blocks - budget in
      if excess = 0 then blocks
      else drop_points excess (point_candidates (length blocks) inserted) blocks)"

text \<open>The client's breakpoints with the index of their block.\<close>

definition source_points :: "Json list \<Rightarrow> (nat \<times> Json) list" where
  "source_points source =
     List.map_filter (\<lambda>(i, b).
         case Option.bind (as_object b) (\<lambda>m. map_of m ''cache_control'') of
           None \<Rightarrow> None
         | Some cache \<Rightarrow> if cache = JNull then None else Some (i, cache))
       (enumerate 0 source)"

definition mapped_index :: "nat \<Rightarrow> nat \<Rightarrow> nat \<Rightarrow> nat" where
  "mapped_index source_index source_len target_len =
     (if source_len = 1 \<or> target_len = 1 then 0
      else (source_index * (target_len - 1) + (source_len - 1) div 2) div (source_len - 1))"

definition abs_diff :: "nat \<Rightarrow> nat \<Rightarrow> nat" where
  "abs_diff a b = (if a < b then b - a else a - b)"

definition nearest_unused :: "nat \<Rightarrow> nat \<Rightarrow> nat set \<Rightarrow> nat option" where
  "nearest_unused target_len mapped used =
     map_option snd (find (\<lambda>p. snd p \<notin> used) (sort (map (\<lambda>i. (abs_diff i mapped, i)) [0..<target_len])))"

definition transfer_one :: "nat \<Rightarrow> nat \<times> Json \<Rightarrow> Json list \<times> nat set \<Rightarrow> Json list \<times> nat set" where
  "transfer_one source_len = (\<lambda>(source_index, cache) (target, used).
     case nearest_unused (length target) (mapped_index source_index source_len (length target)) used of
       None \<Rightarrow> (target, used)
     | Some i \<Rightarrow>
         (case as_object (target ! i) of
            None \<Rightarrow> (target, used)
          | Some m \<Rightarrow>
              if is_some_and (map_of m ''cache_control'') (\<lambda>v. v \<noteq> JNull) then (target, used)
              else (target[i := set_point cache (target ! i)], insert i used)))"

definition transfer_cache_controls :: "Json option \<Rightarrow> Json \<Rightarrow> Json" where
  "transfer_cache_controls current replacement =
     (case (current, replacement) of
        (Some (JArray source), JArray target) \<Rightarrow>
          if target = [] then replacement
          else JArray (fst (fold (transfer_one (length source)) (source_points source) (target, {})))
      | _ \<Rightarrow> replacement)"

text \<open>The breakpoint of the replaced blocks moves to the last replacement block, when that is an object.\<close>

definition inherit_point :: "Json option \<Rightarrow> Json list \<Rightarrow> Json list" where
  "inherit_point inherited blocks =
     (case inherited of
        None \<Rightarrow> blocks
      | Some cache \<Rightarrow> if blocks = [] then blocks else butlast blocks @ [set_point cache (last blocks)])"

definition has_billing_block :: "SystemSegments \<Rightarrow> bool" where
  "has_billing_block segments \<longleftrightarrow> sg_billing segments \<noteq> None \<or> BillingMalformed \<in> set (sg_flags segments)"

definition replace_system_static :: "Json \<Rightarrow> Json \<Rightarrow> Json \<times> SystemRewrite" where
  "replace_system_static system replacement =
     (let segments = parse_segments system;
          budget = length (cache_control_points segments)
      in case (system, sg_boundary segments) of
           (JArray blocks, BoundaryResolved _ ds) \<Rightarrow>
             (let start = (if has_billing_block segments then 1 else 0);
                  dstart = max (min ds (length blocks)) start;
                  replacement_blocks = as_blocks replacement;
                  replacement_blocks =
                    (if count_points replacement_blocks = 0
                     then inherit_point (last_cache_control (take (dstart - start) (drop start blocks))) replacement_blocks
                     else replacement_blocks);
                  next = take start blocks @ replacement_blocks @ drop dstart blocks
              in (JArray (enforce_breakpoint_budget next budget (start, start + length replacement_blocks)),
                  StaticSegment))
         | _ \<Rightarrow>
             (let next = (case (system, replacement) of
                            (JArray _, JString t) \<Rightarrow> JArray [text_block t]
                          | _ \<Rightarrow> replacement);
                  next = transfer_cache_controls (Some system) next
              in (case next of
                    JArray blocks \<Rightarrow> JArray (enforce_breakpoint_budget blocks budget (0, length blocks))
                  | v \<Rightarrow> v, Whole)))"

definition strip_client_system :: "Json \<Rightarrow> Json option" where
  "strip_client_system system =
     (let segments = parse_segments system
      in case system of
           JArray (b # _) \<Rightarrow> if has_billing_block segments then Some (JArray [remove_point b]) else None
         | _ \<Rightarrow> None)"

subsection \<open>Breakpoints\<close>

lemma has_point_simps [simp]:
  "has_point (JObject m) \<longleftrightarrow> (\<exists>v. map_of m ''cache_control'' = Some v \<and> v \<noteq> JNull)"
  "\<not> has_point JNull" "\<not> has_point (JBool b)" "\<not> has_point (JU64 n)" "\<not> has_point (JI64 n)" "\<not> has_point (JF64 n)"
  "\<not> has_point (JString s)" "\<not> has_point (JArray vs)"
  by (auto simp: has_point_def split: option.splits)

lemma has_point_remove [simp]: "\<not> has_point (remove_point b)"
  by (cases b) auto

lemma obj_remove_insert [simp]: "obj_remove k (obj_insert k v m) = obj_remove k m"
  by (induction m) (auto simp: Let_def)

lemma remove_set_point [simp]: "remove_point (set_point c b) = remove_point b"
  by (cases b) auto

lemma remove_remove_point [simp]: "remove_point (remove_point b) = remove_point b"
  by (cases b) auto

lemma count_points_simps [simp]:
  "count_points [] = 0"
  "count_points (b # bs) = (if has_point b then Suc (count_points bs) else count_points bs)"
  "count_points (as @ bs) = count_points as + count_points bs"
  by (simp_all add: count_points_def)

lemma count_points_update:
  "i < length bs \<Longrightarrow> has_point (bs ! i) \<Longrightarrow> \<not> has_point b \<Longrightarrow> Suc (count_points (bs[i := b])) = count_points bs"
  by (induction bs arbitrary: i) (auto split: nat.splits)

lemma count_points_indices: "length (filter (\<lambda>i. has_point (bs ! i)) [0..<length bs]) = count_points bs"
proof -
  have "filter has_point (map (nth bs) [0..<length bs]) = map (nth bs) (filter (has_point \<circ> nth bs) [0..<length bs])"
    by (rule filter_map)
  then show ?thesis by (simp add: map_nth comp_def count_points_def)
qed

lemma drop_points_count:
  "\<lbrakk>distinct is; \<forall>i\<in>set is. i < length bs\<rbrakk> \<Longrightarrow>
   count_points (drop_points e is bs) = count_points bs - min e (length (filter (\<lambda>i. has_point (bs ! i)) is))"
proof (induction "is" arbitrary: e bs)
  case (Cons i "is")
  show ?case
  proof (cases "e \<noteq> 0 \<and> has_point (bs ! i)")
    case True
    let ?bs = "bs[i := remove_point (bs ! i)]"
    have "filter (\<lambda>j. has_point (?bs ! j)) is = filter (\<lambda>j. has_point (bs ! j)) is"
      using Cons.prems(1) by (intro filter_cong refl) (metis distinct.simps(2) nth_list_update_neq)
    moreover have "Suc (count_points ?bs) = count_points bs"
      using Cons.prems(2) True by (intro count_points_update) auto
    ultimately show ?thesis
      using Cons.IH [of ?bs "e - 1"] Cons.prems True by (auto simp: min_def)
  next
    case False
    then show ?thesis using Cons.IH [of bs e] Cons.prems by auto
  qed
qed simp

lemma point_candidates_indices:
  "distinct (point_candidates n r)" "set (point_candidates n r) = {0..<n}"
  by (auto simp: point_candidates_def)

lemma point_candidates_count:
  "length (filter (\<lambda>i. has_point (bs ! i)) (point_candidates (length bs) r)) = count_points bs"
proof -
  let ?P = "\<lambda>i. has_point (bs ! i)"
  have "length (filter ?P (point_candidates (length bs) r)) = card (set (filter ?P (point_candidates (length bs) r)))"
    by (metis distinct_card distinct_filter point_candidates_indices(1))
  also have "\<dots> = card (set (filter ?P [0..<length bs]))"
    by (simp add: point_candidates_indices(2))
  also have "\<dots> = count_points bs"
    by (metis count_points_indices distinct_card distinct_filter distinct_upt)
  finally show ?thesis .
qed

text \<open>The number of breakpoints left is exactly the smaller of what there was and the budget.\<close>

lemma enforce_count: "count_points (enforce_breakpoint_budget bs budget r) = min (count_points bs) budget"
proof -
  have "count_points (drop_points e (point_candidates (length bs) r) bs) = count_points bs - min e (count_points bs)" for e
    using drop_points_count [of "point_candidates (length bs) r" bs e]
    by (simp add: point_candidates_indices point_candidates_count)
  then show ?thesis by (auto simp: enforce_breakpoint_budget_def Let_def min_def)
qed

text \<open>The first breakpoints of a list dropped, the others kept.\<close>

fun strip_first :: "nat \<Rightarrow> Json list \<Rightarrow> Json list" where
  "strip_first 0 bs = bs"
| "strip_first (Suc e) [] = []"
| "strip_first (Suc e) (b # bs) =
     (if has_point b then remove_point b # strip_first e bs else b # strip_first (Suc e) bs)"

lemma strip_first_content: "map remove_point (strip_first e bs) = map remove_point bs"
  by (induction e bs rule: strip_first.induct) auto

lemma drop_points_zero [simp]: "drop_points 0 is bs = bs"
  by (cases "is") auto

lemma drop_points_middle:
  "e \<le> count_points mid \<Longrightarrow>
   drop_points e ([length pre..<length pre + length mid] @ rest) (pre @ mid @ post) = pre @ strip_first e mid @ post"
proof (induction mid arbitrary: pre e)
  case (Cons b mid)
  have upt: "[length pre..<length pre + length (b # mid)] = length pre # [Suc (length pre)..<Suc (length pre) + length mid]"
    by (simp add: upt_rec)
  have up: "(pre @ (b # mid) @ post)[length pre := c] = (pre @ [c]) @ mid @ post" for c by simp
  show ?case
  proof (cases e)
    case (Suc n)
    show ?thesis
      using Cons.IH [of "if has_point b then n else e" "pre @ [if has_point b then remove_point b else b]"] Cons.prems Suc
      unfolding upt by (auto simp: up simp del: upt_Suc)
  qed simp
qed simp

text \<open>When the inserted blocks carry the whole excess, only they lose breakpoints, the first ones first.\<close>

lemma enforce_middle:
  assumes "count_points pre + count_points post \<le> budget"
  shows "enforce_breakpoint_budget (pre @ mid @ post) budget (length pre, length pre + length mid) =
    pre @ strip_first (count_points pre + count_points mid + count_points post - budget) mid @ post"
proof -
  let ?e = "count_points pre + count_points mid + count_points post - budget"
  have f: "filter (\<lambda>i. i < length (pre @ mid @ post)) [length pre..<length pre + length mid] =
      [length pre..<length pre + length mid]"
    by (rule filter_True) auto
  have "?e \<le> count_points mid" using assms by simp
  from drop_points_middle [OF this] f show ?thesis
    by (simp add: enforce_breakpoint_budget_def point_candidates_def Let_def add.assoc)
qed

subsection \<open>The boundary\<close>

lemma set_indices: "i \<in> set (indices P xs) \<longleftrightarrow> i < length xs \<and> P (xs ! i)"
  by (auto simp: indices_def)

lemma find_static_end_bound: "find_static_end texts = Some s \<Longrightarrow> s < length texts"
  unfolding find_static_end_def Let_def by (metis last_in_set option.distinct(1) option.inject set_indices)

lemma find_dynamic_start_bound: "find_dynamic_start s texts = Some d \<Longrightarrow> s < d \<and> d < length texts"
  unfolding find_dynamic_start_def
  by (auto split: list.splits) (metis Suc_le_lessD filter_eq_Cons_iff set_indices in_set_conv_decomp)+

lemma resolve_boundary_bounds:
  assumes "resolve_boundary texts points = BoundaryResolved s d"
  shows "s < d" "d \<le> length texts"
proof -
  obtain c where c: "find_dynamic_start s texts = Some c"
    and d: "d = (let ps = filter (\<lambda>p. s < p \<and> p < c) points in
        if length ps = 1 then min (hd ps + 1) (length texts) else c)"
    using assms by (auto simp: resolve_boundary_def Let_def split: option.splits)
  have "s < hd ps \<and> hd ps < c" if "ps = filter (\<lambda>p. s < p \<and> p < c) points" "length ps = 1" for ps
  proof -
    have "hd ps \<in> set ps" using that(2) by (cases ps) auto
    then show ?thesis using that(1) by simp
  qed
  with d find_dynamic_start_bound [OF c] show "s < d" "d \<le> length texts"
    by (auto simp: Let_def split: if_splits)
qed

lemma cache_points_count: "length (cache_control_points (parse_segments (JArray bs))) = count_points bs"
proof -
  have "bk_cache_control (block v) = has_point v" for v
    by (cases v) (auto simp: block_def has_point_def)
  then show ?thesis
    using count_points_indices [of bs]
    by (auto simp: parse_segments_def Let_def system_blocks_def indices_def cong: filter_cong)
       (metis (no_types, lifting) atLeastLessThan_iff filter_cong nth_map set_upt)
qed

lemma parse_boundary:
  assumes "sg_boundary (parse_segments (JArray bs)) = BoundaryResolved s d"
  shows "s < d" "d \<le> length bs"
  using assms resolve_boundary_bounds [of "map bk_text (system_blocks (JArray bs))"]
  by (auto simp: parse_segments_def Let_def system_blocks_def)

subsection \<open>What a replacement keeps\<close>

text \<open>The blocks a static replacement inserts before the budget is applied.\<close>

definition inserted_blocks :: "nat \<Rightarrow> nat \<Rightarrow> Json list \<Rightarrow> Json \<Rightarrow> Json list" where
  "inserted_blocks start d blocks replacement =
     (if count_points (as_blocks replacement) = 0
      then inherit_point (last_cache_control (take (d - start) (drop start blocks))) (as_blocks replacement)
      else as_blocks replacement)"

lemma inherit_content: "map remove_point (inherit_point c bs) = map remove_point bs"
  by (auto simp: inherit_point_def split: option.splits)
     (metis append_butlast_last_id list.simps(8,9) map_append)

lemma inserted_content: "map remove_point (inserted_blocks start d blocks r) = map remove_point (as_blocks r)"
  by (simp add: inserted_blocks_def inherit_content)

lemma inserted_butlast:
  "if count_points (as_blocks r) = 0 then butlast (inserted_blocks start d blocks r) = butlast (as_blocks r)
   else inserted_blocks start d blocks r = as_blocks r"
  by (auto simp: inserted_blocks_def inherit_point_def split: option.splits)

lemma count_points_parts: "count_points (take a bs) + count_points (drop d bs) \<le> count_points bs" if "a \<le> d"
proof -
  have "bs = take a bs @ take (d - a) (drop a bs) @ drop d bs"
    using that by (metis append_take_drop_id drop_drop le_add_diff_inverse2)
  then have "count_points bs = count_points (take a bs) + count_points (take (d - a) (drop a bs)) + count_points (drop d bs)"
    by (metis count_points_simps(3) add.assoc)
  then show ?thesis by simp
qed

text \<open>When the boundary of the client's \<^verbatim>\<open>system\<close> is resolved, a replacement touches the static segment
  only: the billing block in front and every block from the dynamic start on are carried over unchanged,
  breakpoints included. The inserted blocks are the replacement's own in order, the last one with an
  inherited breakpoint when the replacement brings none; of their breakpoints, as many as the client's
  number does not allow are dropped, the first ones first, and no other part of them changes.
\<close>

theorem static_replacement_keeps_rest:
  fixes blocks replacement
  defines "start \<equiv> (if has_billing_block (parse_segments (JArray blocks)) then 1 else 0)"
  assumes "sg_boundary (parse_segments (JArray blocks)) = BoundaryResolved s d"
  shows "\<exists>mid excess.
    replace_system_static (JArray blocks) replacement =
      (JArray (take start blocks @ strip_first excess mid @ drop d blocks), StaticSegment) \<and>
    map remove_point mid = map remove_point (as_blocks replacement) \<and>
    (if count_points (as_blocks replacement) = 0 then butlast mid = butlast (as_blocks replacement)
     else mid = as_blocks replacement) \<and>
    excess = count_points (take start blocks @ mid @ drop d blocks) - count_points blocks"
proof -
  let ?mid = "inserted_blocks start d blocks replacement"
  note b = parse_boundary [OF assms(2)]
  have s: "start \<le> d" "start \<le> length blocks" using b by (auto simp: start_def)
  then have l: "length (take start blocks) = start" by simp
  have d: "max (min d (length blocks)) start = d" using b s by simp
  have "replace_system_static (JArray blocks) replacement =
      (JArray (enforce_breakpoint_budget (take start blocks @ ?mid @ drop d blocks) (count_points blocks)
        (start, start + length ?mid)), StaticSegment)"
    using assms(2) d by (simp add: replace_system_static_def Let_def cache_points_count inserted_blocks_def flip: start_def)
  moreover have "enforce_breakpoint_budget (take start blocks @ ?mid @ drop d blocks) (count_points blocks)
        (start, start + length ?mid) =
      take start blocks @ strip_first (count_points (take start blocks @ ?mid @ drop d blocks) - count_points blocks) ?mid
        @ drop d blocks"
    using enforce_middle [OF count_points_parts [OF s(1), of blocks], where mid = ?mid] unfolding l by (simp add: add.assoc)
  ultimately show ?thesis
    using inserted_content [of start d blocks replacement] inserted_butlast [of replacement start d blocks] by metis
qed

text \<open>Breakpoints aside, no rewrite changes a block.\<close>

lemma map_update_same: "f y = f (xs ! i) \<Longrightarrow> map f (xs[i := y]) = map f xs"
  by (metis list_update_id map_update)

lemma drop_points_content: "map remove_point (drop_points e is bs) = map remove_point bs"
  by (induction "is" arbitrary: e bs) (simp_all add: map_update_same)

lemma enforce_content: "map remove_point (enforce_breakpoint_budget bs budget r) = map remove_point bs"
  by (simp add: enforce_breakpoint_budget_def Let_def drop_points_content)

lemma transfer_one_content: "map remove_point (fst (transfer_one n p tu)) = map remove_point (fst tu)"
  by (auto simp: transfer_one_def map_update_same split: prod.splits option.splits if_splits)

lemma transfer_content: "map remove_point (fst (fold (transfer_one n) ps tu)) = map remove_point (fst tu)"
  by (induction ps arbitrary: tu) (simp_all add: transfer_one_content)

definition blocks_content :: "Json \<Rightarrow> Json" where
  "blocks_content v = (case v of JArray bs \<Rightarrow> JArray (map remove_point bs) | _ \<Rightarrow> v)"

lemma transfer_controls_content: "blocks_content (transfer_cache_controls current v) = blocks_content v"
  by (auto simp: transfer_cache_controls_def blocks_content_def transfer_content split: option.splits Json.splits)

lemma enforce_blocks_content:
  "blocks_content (case v of JArray bs \<Rightarrow> JArray (enforce_breakpoint_budget bs budget (0, length bs)) | w \<Rightarrow> w) = blocks_content v"
  by (cases v) (simp_all add: blocks_content_def enforce_content)

text \<open>The client's attribution block, told by its text.\<close>

definition is_billing_block :: "Json \<Rightarrow> bool" where
  "is_billing_block b = is_some_and (bk_text (block b)) (\<lambda>t. starts_with BILLING_PREFIX (str_trim_start t))"

lemma parse_billing_prefix: "parse_billing t = Some b \<Longrightarrow> starts_with BILLING_PREFIX (str_trim_start t)"
  by (auto simp: parse_billing_def bind_eq_Some_conv strip_prefix_Some starts_with_iff)

lemma has_billing_texts:
  "has_billing_block (parse_segments v) \<longleftrightarrow>
     (case map bk_text (system_blocks v) of
        Some t # _ \<Rightarrow> starts_with BILLING_PREFIX (str_trim_start t)
      | _ \<Rightarrow> False)"
proof -
  let ?first = "case map bk_text (system_blocks v) of [] \<Rightarrow> None | t # _ \<Rightarrow> t"
  let ?p = "is_some_and ?first (\<lambda>t. starts_with BILLING_PREFIX (str_trim_start t))"
  let ?bill = "Option.bind ?first parse_billing"
  have "sg_billing (parse_segments v) = ?bill"
    by (simp only: parse_segments_def Let_def SystemSegments.simps)
  moreover have "BillingMalformed \<in> set (sg_flags (parse_segments v)) \<longleftrightarrow> ?p \<and> ?bill = None"
    by (simp only: parse_segments_def Let_def SystemSegments.simps) (auto split: Json.splits if_splits)
  ultimately have "has_billing_block (parse_segments v) \<longleftrightarrow> ?bill \<noteq> None \<or> ?p"
    by (auto simp: has_billing_block_def)
  also have "\<dots> \<longleftrightarrow> ?p"
    using parse_billing_prefix by (cases ?first) (auto split: option.splits)
  finally show ?thesis by (auto split: list.splits option.splits)
qed

lemma has_billing_first:
  "has_billing_block (parse_segments (JArray bs)) \<longleftrightarrow> bs \<noteq> [] \<and> is_billing_block (hd bs)"
  by (cases bs) (auto simp: has_billing_texts system_blocks_def is_billing_block_def split: option.splits)

text \<open>
  What a replacement makes of the value it meets. In front of a resolved boundary the attribution
  block and everything from the dynamic part on stay, and between them stand the blocks of the
  replacement; otherwise the value is the replacement, as a block list when it replaces one.
  Only breakpoints may differ.
\<close>

definition system_replaced :: "Json \<Rightarrow> Json \<Rightarrow> Json \<Rightarrow> bool" where
  "system_replaced old content new \<longleftrightarrow>
     (case (old, sg_boundary (parse_segments old)) of
        (JArray blocks, BoundaryResolved _ d) \<Rightarrow>
          \<exists>mid. new = JArray (take (if is_billing_block (hd blocks) then 1 else 0) blocks @ mid @ drop d blocks) \<and>
            map remove_point mid = map remove_point (as_blocks content)
      | (JArray _, UnresolvedBoundary) \<Rightarrow>
          blocks_content new = blocks_content (case content of JString t \<Rightarrow> JArray [text_block t] | _ \<Rightarrow> content)
      | _ \<Rightarrow> blocks_content new = blocks_content content)"

lemma replace_whole_content:
  assumes "\<nexists>blocks s d. system = JArray blocks \<and> sg_boundary (parse_segments system) = BoundaryResolved s d"
  shows "blocks_content (fst (replace_system_static system r)) =
    blocks_content (case (system, r) of (JArray _, JString t) \<Rightarrow> JArray [text_block t] | _ \<Rightarrow> r)"
proof -
  let ?next = "case (system, r) of (JArray _, JString t) \<Rightarrow> JArray [text_block t] | _ \<Rightarrow> r"
  have "fst (replace_system_static system r) =
      (case transfer_cache_controls (Some system) ?next of
         JArray blocks \<Rightarrow> JArray (enforce_breakpoint_budget blocks (length (cache_control_points (parse_segments system))) (0, length blocks))
       | v \<Rightarrow> v)"
  proof (cases system)
    case (JArray blocks)
    then have "sg_boundary (parse_segments (JArray blocks)) = UnresolvedBoundary"
      using assms by (cases "sg_boundary (parse_segments (JArray blocks))") auto
    then show ?thesis unfolding JArray by (simp add: replace_system_static_def Let_def)
  qed (hypsubst, simp add: replace_system_static_def Let_def)+
  then show ?thesis by (simp only: enforce_blocks_content transfer_controls_content)
qed

lemma replace_system_replaced: "system_replaced system r (fst (replace_system_static system r))"
proof (cases "\<exists>blocks s d. system = JArray blocks \<and> sg_boundary (parse_segments system) = BoundaryResolved s d")
  case True
  then obtain blocks s d where b: "system = JArray blocks" "sg_boundary (parse_segments (JArray blocks)) = BoundaryResolved s d"
    by blast
  then have ne: "blocks \<noteq> []" using parse_boundary [OF b(2)] by auto
  obtain mid excess where "fst (replace_system_static system r) =
      JArray (take (if has_billing_block (parse_segments (JArray blocks)) then 1 else 0) blocks @ strip_first excess mid @ drop d blocks)"
    "map remove_point mid = map remove_point (as_blocks r)"
    using static_replacement_keeps_rest [OF b(2), of r] unfolding b(1) by (metis fst_conv)
  then show ?thesis
    using ne b by (auto simp: system_replaced_def has_billing_first strip_first_content)
next
  case False
  from replace_whole_content [OF False, of r] False show ?thesis
    by (cases system; cases "sg_boundary (parse_segments system)") (auto simp: system_replaced_def split: Json.splits)
qed

text \<open>C40. A rewrite never leaves more cache breakpoints in the \<^verbatim>\<open>system\<close> value than the client sent, whatever the
  client's value and the replacement are.
\<close>

theorem rewrite_within_budget:
  "length (cache_control_points (parse_segments (fst (replace_system_static system replacement)))) \<le>
   length (cache_control_points (parse_segments system))"
proof -
  have none: "cache_control_points (parse_segments v) = []" if "\<forall>bs. v \<noteq> JArray bs" for v
    using that by (cases v) (auto simp: parse_segments_def Let_def system_blocks_def indices_def)
  show ?thesis
  proof (cases "\<exists>bs. fst (replace_system_static system replacement) = JArray bs")
    case True
    then obtain bs where bs: "fst (replace_system_static system replacement) = JArray bs" by blast
    then have "count_points bs \<le> length (cache_control_points (parse_segments system))"
      by (auto simp: replace_system_static_def Let_def enforce_count split: Json.splits Boundary.splits)
    with bs show ?thesis by (simp add: cache_points_count)
  next
    case False
    then have "cache_control_points (parse_segments (fst (replace_system_static system replacement))) = []"
      by (intro none) blast
    then show ?thesis by simp
  qed
qed

definition sample_system :: "Json list" where
  "sample_system =
     [text_block ''x-anthropic-billing-header:'',
      JObject [(''text'', JString ''# Tone and style''), (''cache_control'', JObject [])],
      text_block ''Pronouns'',
      JObject [(''text'', JString ''# Environment''), (''cache_control'', JObject [])]]"

definition sample_template :: Json where
  "sample_template = JArray [JObject [(''text'', JString ''a''), (''cache_control'', JBool True)],
     JObject [(''text'', JString ''b''), (''cache_control'', JBool True)]]"

lemma parse_boundary_eq:
  "sg_boundary (parse_segments (JArray bs)) =
     resolve_boundary (map (bk_text \<circ> block) bs) (indices (bk_cache_control \<circ> block) bs)"
  by (auto simp: parse_segments_def Let_def system_blocks_def indices_def intro!: arg_cong2 [where f = resolve_boundary] filter_cong)

lemma sample_dynamic: "dynamic_text (Some ''Pronouns'')"
  by code_simp

lemma sample_boundary: "sg_boundary (parse_segments (JArray sample_system)) = BoundaryResolved 1 2"
  unfolding parse_boundary_eq
  by (simp add: sample_system_def resolve_boundary_def find_static_end_def find_dynamic_start_def indices_def
      text_block_def block_def contains_str_def starts_with_def sample_dynamic upt_rec)

theorem static_replacement_keeps_rest_witness:
  "\<exists>mid excess.
    replace_system_static (JArray sample_system) sample_template =
      (JArray (take (if has_billing_block (parse_segments (JArray sample_system)) then 1 else 0) sample_system @
         strip_first excess mid @ drop 2 sample_system), StaticSegment)"
  using static_replacement_keeps_rest [OF sample_boundary, of sample_template] by blast

end
