(* ===== verification/Billing.thy ===== *)
theory Billing
  imports System_Rewrite
begin

text \<open>
  The attribution block, \<^verbatim>\<open>gateway-policy/billing.rs\<close>, with the digest of \<^verbatim>\<open>gateway-domain/request.rs\<close> that its
  fingerprint uses. The SHA-256 function is a parameter; what is used of it is the length of its result.
\<close>

subsection \<open>Digest\<close>

definition hex_digit :: "nat \<Rightarrow> char" where
  "hex_digit n = (if n < 10 then char_of (48 + n) else char_of (87 + n))"

text \<open>\<^verbatim>\<open>{byte:02x}\<close>.\<close>

definition hex_byte :: "char \<Rightarrow> string" where
  "hex_byte b = [hex_digit (byte b div 16), hex_digit (byte b mod 16)]"

definition digest_of :: "(string \<Rightarrow> string) \<Rightarrow> string \<Rightarrow> string" where
  "digest_of sha256 bytes = concat (map hex_byte (sha256 bytes))"

definition is_lower_hex :: "char \<Rightarrow> bool" where
  "is_lower_hex b \<longleftrightarrow> is_ascii_digit b \<or> (CHR ''a'' \<le> b \<and> b \<le> CHR ''f'')"

subsection \<open>Operations\<close>

definition FP3_SALT :: string where
  "FP3_SALT = ''59cf53e54c78''"

datatype CchPolicy = Omit | Zero00

definition cch_policy_for_version :: "string \<Rightarrow> CchPolicy" where
  "cch_policy_for_version client_version = (if client_version = ''2.1.220'' then Zero00 else Omit)"

datatype BillingAction = BillingPreserved | BillingRewritten | BillingInserted

datatype BillingError = InvalidSystem | EmptyVersion

definition char_or_zero :: "(nat \<times> string) list \<Rightarrow> nat \<Rightarrow> string" where
  "char_or_zero cs i = (if i < length cs then snd (cs ! i) else ''0'')"

definition fp3 :: "(string \<Rightarrow> string) \<Rightarrow> string \<Rightarrow> string \<Rightarrow> string" where
  "fp3 sha256 user_text client_version =
     (let cs = (case utf8_chars user_text of None \<Rightarrow> [] | Some cs \<Rightarrow> cs);
          input = FP3_SALT @ char_or_zero cs 4 @ char_or_zero cs 7 @ char_or_zero cs 20 @ client_version
      in take 3 (digest_of sha256 input))"

definition render_billing_block :: "string \<Rightarrow> string \<Rightarrow> CchPolicy \<Rightarrow> BillingError + string" where
  "render_billing_block client_version fingerprint cch_policy =
     (if str_trim client_version = [] then Inl EmptyVersion
      else Inr (''x-anthropic-billing-header: cc_version='' @ client_version @ ''.'' @ fingerprint @
                ''; cc_entrypoint=cli;'' @ (if cch_policy = Zero00 then '' cch=00000;'' else [])))"

definition text_of_block :: "Json \<Rightarrow> string option" where
  "text_of_block b =
     (if Option.bind (json_get ''type'' b) as_str_value = Some ''text''
      then Option.bind (json_get ''text'' b) as_str_value else None)"

definition first_user_text :: "Json \<Rightarrow> string option" where
  "first_user_text body =
     Option.bind (json_get ''messages'' body) (\<lambda>ms.
     Option.bind (as_array ms) (\<lambda>ms.
     Option.bind (find (\<lambda>m. Option.bind (json_get ''role'' m) as_str_value = Some ''user'') ms) (\<lambda>m.
     Option.bind (json_get ''content'' m) (\<lambda>c.
     Option.bind (as_array c) (\<lambda>blocks.
       (case List.map_filter text_of_block blocks of [] \<Rightarrow> None | t # _ \<Rightarrow> Some t))))))"

definition looks_like_billing_header :: "string \<Rightarrow> bool" where
  "looks_like_billing_header text \<longleftrightarrow> starts_with BILLING_PREFIX (str_trim_start text)"

definition version_field :: "string \<Rightarrow> string option" where
  "version_field part = strip_prefix ''cc_version='' (str_trim part)"

definition billing_version :: "string \<Rightarrow> string option" where
  "billing_version text =
     Option.bind (strip_prefix BILLING_PREFIX (str_trim_start text)) (\<lambda>payload.
       (case List.map_filter version_field (split_on CHR '';'' payload) of
          [] \<Rightarrow> None
        | v # _ \<Rightarrow> map_option fst (rsplit_once CHR ''.'' v)))"

definition rewrite_version_and_fp3 :: "string \<Rightarrow> string \<Rightarrow> string \<Rightarrow> string" where
  "rewrite_version_and_fp3 text target_version fingerprint =
     (case find_str ''cc_version='' text of
        None \<Rightarrow> text
      | Some prefix_start \<Rightarrow>
          (let value_start = prefix_start + length ''cc_version='';
               value_end = (case find_str '';'' (drop value_start text) of
                   None \<Rightarrow> length text | Some n \<Rightarrow> value_start + n)
           in take value_start text @ target_version @ ''.'' @ fingerprint @ drop value_end text))"

text \<open>The block with its text replaced in place and its breakpoint removed.\<close>

fun set_block_text :: "string \<Rightarrow> Json \<Rightarrow> Json" where
  "set_block_text t (JObject m) = remove_point (JObject (obj_insert ''text'' (JString t) m))"
| "set_block_text t v = v"

definition ensure_text :: "string \<Rightarrow> string \<Rightarrow> string \<Rightarrow> string \<Rightarrow> string" where
  "ensure_text text target_version fingerprint rendered =
     (if billing_version text \<noteq> None then rewrite_version_and_fp3 text target_version fingerprint else rendered)"

definition ensure_billing_block ::
  "(string \<Rightarrow> string) \<Rightarrow> Json \<Rightarrow> string \<Rightarrow> string \<Rightarrow> CchPolicy \<Rightarrow> BillingError + (Json \<times> BillingAction)" where
  "ensure_billing_block sha256 system target_version user_text cch_policy =
     (if str_trim target_version = [] then Inl EmptyVersion
      else
        (let fingerprint = fp3 sha256 user_text target_version in
         case render_billing_block target_version fingerprint cch_policy of
           Inl e \<Rightarrow> Inl e
         | Inr rendered \<Rightarrow>
           (case system of
              JNull \<Rightarrow> Inr (JArray [text_block rendered], BillingInserted)
            | JString text \<Rightarrow>
                if looks_like_billing_header text then
                  if billing_version text = Some target_version then Inr (JString text, BillingPreserved)
                  else Inr (JString (ensure_text text target_version fingerprint rendered), BillingRewritten)
                else Inr (JArray [text_block rendered, text_block text], BillingInserted)
            | JArray vs \<Rightarrow>
                (let inserted = Inr (JArray (text_block rendered # vs), BillingInserted) in
                 case vs of
                   [] \<Rightarrow> inserted
                 | b # rest \<Rightarrow>
                   (case Option.bind (json_get ''text'' b) as_str_value of
                      None \<Rightarrow> inserted
                    | Some text \<Rightarrow>
                        if looks_like_billing_header text then
                          if billing_version text = Some target_version then
                            if has_point b then Inr (JArray (remove_point b # rest), BillingRewritten)
                            else Inr (JArray vs, BillingPreserved)
                          else Inr (JArray (set_block_text (ensure_text text target_version fingerprint rendered) b # rest),
                                    BillingRewritten)
                        else inserted))
            | _ \<Rightarrow> Inl InvalidSystem)))"

subsection \<open>The digest and the fingerprint\<close>

lemma hex_digit_lower: "n < 16 \<Longrightarrow> is_lower_hex (hex_digit n)"
  by (auto simp: hex_digit_def is_lower_hex_def is_ascii_digit_def less_eq_char_def)

lemma digest_of_hex:
  assumes "length (sha256 bytes) = 32"
  shows "length (digest_of sha256 bytes) = 64" "list_all is_lower_hex (digest_of sha256 bytes)"
proof -
  have "length (concat (map hex_byte bs)) = 2 * length bs" for bs
    by (induction bs) (auto simp: hex_byte_def)
  moreover have "list_all is_lower_hex (concat (map hex_byte bs))" for bs
    by (auto simp: list_all_iff hex_byte_def less_mult_imp_div_less hex_digit_lower)
  ultimately show "length (digest_of sha256 bytes) = 64" "list_all is_lower_hex (digest_of sha256 bytes)"
    using assms by (simp_all add: digest_of_def)
qed

text \<open>What a version field holds without disturbing the fields around it.\<close>

definition plain :: "string \<Rightarrow> bool" where
  "plain s \<longleftrightarrow> s \<noteq> [] \<and> list_all visible s \<and> CHR '';'' \<notin> set s"

lemma is_lower_hex_byte: "is_lower_hex c \<longleftrightarrow> 48 \<le> byte c \<and> byte c \<le> (57::nat) \<or> 97 \<le> byte c \<and> byte c \<le> (102::nat)"
  by (simp add: is_lower_hex_def is_ascii_digit_def less_eq_char_def)

lemma is_lower_hex_visible:
  assumes "is_lower_hex c"
  shows "visible c" "c \<noteq> CHR '';''" "c \<noteq> CHR ''.''"
proof -
  have b: "48 \<le> byte c \<and> byte c \<le> (57::nat) \<or> 97 \<le> byte c \<and> byte c \<le> (102::nat)"
    using assms by (simp only: is_lower_hex_byte)
  then show "visible c" by (simp add: visible_def is_whitespace_def) linarith
  show "c \<noteq> CHR '';''" "c \<noteq> CHR ''.''" using b by auto
qed

lemma fp3_plain:
  assumes "\<forall>x. length (sha256 x) = 32"
  shows "plain (fp3 sha256 t v) \<and> CHR ''.'' \<notin> set (fp3 sha256 t v)"
proof -
  obtain x where x: "fp3 sha256 t v = take 3 (digest_of sha256 x)" by (auto simp: fp3_def Let_def)
  have "length (digest_of sha256 x) = 64" "list_all is_lower_hex (digest_of sha256 x)"
    using digest_of_hex [of sha256 x] assms by auto
  then have "length (fp3 sha256 t v) = 3" "list_all is_lower_hex (fp3 sha256 t v)"
    unfolding x by (auto simp: list_all_iff dest: in_set_takeD)
  then show ?thesis using is_lower_hex_visible by (fastforce simp: plain_def list_all_iff)
qed

subsection \<open>Reading a header back\<close>

text \<open>The shape that clients send: the version field first, any fields after it.\<close>

definition header_text :: "string \<Rightarrow> string \<Rightarrow> string" where
  "header_text value' rest = ''x-anthropic-billing-header: cc_version='' @ value' @ '';'' @ rest"

definition header_rest :: "CchPolicy \<Rightarrow> string" where
  "header_rest pol = '' cc_entrypoint=cli;'' @ (if pol = Zero00 then '' cch=00000;'' else [])"

lemma render_plain:
  assumes "plain v"
  shows "render_billing_block v f pol = Inr (header_text (v @ CHR ''.'' # f) (header_rest pol))" "str_trim v \<noteq> []"
  using assms trim_visible(1) [of v] by (simp_all add: plain_def render_billing_block_def header_text_def header_rest_def)

lemma plain_append: "plain a \<Longrightarrow> plain b \<Longrightarrow> plain (a @ b)"
  by (simp add: plain_def)

lemma visible_version_field: "plain v \<Longrightarrow> plain f \<Longrightarrow> list_all visible (''cc_version='' @ v @ CHR ''.'' # f)"
proof -
  have "list_all visible ''cc_version=''" "visible CHR ''.''" by (simp_all add: visible_def is_whitespace_def)
  then show "plain v \<Longrightarrow> plain f \<Longrightarrow> ?thesis" unfolding plain_def list_all_append list.pred_inject by blast
qed

lemma version_field_plain:
  assumes "plain v" "plain f"
  shows "version_field (CHR '' '' # ''cc_version='' @ v @ CHR ''.'' # f) = Some (v @ CHR ''.'' # f)"
  using trim_visible(2) [OF _ visible_version_field [OF assms]]
  unfolding version_field_def strip_prefix_Some by simp

lemma split_version_field:
  assumes "plain v" "plain f"
  shows "split_on CHR '';'' (CHR '' '' # ''cc_version='' @ v @ CHR ''.'' # f @ CHR '';'' # rest) =
    (CHR '' '' # ''cc_version='' @ v @ CHR ''.'' # f) # split_on CHR '';'' rest"
  using assms split_on_append [of "CHR '';''" "CHR '' '' # ''cc_version='' @ v @ CHR ''.'' # f" rest]
  by (simp add: plain_def)

lemma header_payload: "strip_prefix BILLING_PREFIX (header_text w rest) = Some (CHR '' '' # ''cc_version='' @ w @ CHR '';'' # rest)"
  unfolding strip_prefix_Some by (simp add: header_text_def BILLING_PREFIX_def)

lemma header_trim: "str_trim_start (header_text w rest) = header_text w rest"
  by (simp add: header_text_def trim_start_id visible_def is_whitespace_def)

lemma header_looks_like: "looks_like_billing_header (header_text w rest)"
  using header_payload [of w rest]
  by (simp add: looks_like_billing_header_def header_trim strip_prefix_def split: if_splits)

lemma header_version:
  assumes "plain v" "plain f" "CHR ''.'' \<notin> set f"
  shows "billing_version (header_text (v @ CHR ''.'' # f) rest) = Some v"
proof -
  have "CHR '' '' # ''cc_version='' @ (v @ CHR ''.'' # f) @ CHR '';'' # rest =
      CHR '' '' # ''cc_version='' @ v @ CHR ''.'' # f @ CHR '';'' # rest" by simp
  note eq = this [THEN arg_cong, of "split_on CHR '';''", unfolded split_version_field [OF assms(1,2)]]
  show ?thesis
    unfolding billing_version_def header_trim header_payload bind.bind_lunit eq
    by (simp only: map_filter_simps version_field_plain [OF assms(1,2)] option.case list.case
        rsplit_once_append [OF assms(3)] option.map fst_conv)
qed

lemma rewrite_header:
  assumes "CHR '';'' \<notin> set w"
  shows "rewrite_version_and_fp3 (header_text w rest) v f = header_text (v @ CHR ''.'' # f) rest"
proof -
  have "find_str ''cc_version='' (header_text w rest) = Some 28"
    by (simp add: header_text_def starts_with_def)
  moreover have "drop 39 (header_text w rest) = w @ CHR '';'' # rest" "take 39 (header_text w rest) = ''x-anthropic-billing-header: cc_version=''"
    by (simp_all add: header_text_def)
  moreover have "length (header_text w rest) = 39 + length w + Suc (length rest)" by (simp add: header_text_def)
  moreover have "drop (39 + length w) (header_text w rest) = CHR '';'' # rest"
    using \<open>drop 39 (header_text w rest) = _\<close> by (metis add.commute append_eq_conv_conj drop_drop)
  ultimately show ?thesis
    using find_str_char [OF assms] by (simp add: rewrite_version_and_fp3_def Let_def) (simp add: header_text_def)
qed

subsection \<open>Ensuring twice\<close>

definition system_header :: "Json \<Rightarrow> string option" where
  "system_header system =
     (case system of
        JString t \<Rightarrow> Some t
      | JArray (b # _) \<Rightarrow> Option.bind (json_get ''text'' b) as_str_value
      | _ \<Rightarrow> None)"

text \<open>A header whose version can be read has its version field first.\<close>

definition header_regular :: "string \<Rightarrow> bool" where
  "header_regular t \<longleftrightarrow>
     \<not> looks_like_billing_header t \<or> billing_version t = None \<or>
     (starts_with ''x-anthropic-billing-header: cc_version='' t \<and> CHR '';'' \<in> set t)"

text \<open>A text that a second pass leaves alone.\<close>

definition carries :: "string \<Rightarrow> string \<Rightarrow> bool" where
  "carries v t \<longleftrightarrow> looks_like_billing_header t \<and> billing_version t = Some v"

lemma carries_header: "plain v \<Longrightarrow> plain f \<Longrightarrow> CHR ''.'' \<notin> set f \<Longrightarrow> carries v (header_text (v @ CHR ''.'' # f) rest)"
  using header_version [of v f rest] by (simp add: carries_def header_looks_like)

lemma regular_header_text:
  assumes "starts_with ''x-anthropic-billing-header: cc_version='' t" "CHR '';'' \<in> set t"
  obtains w rest where "t = header_text w rest" "CHR '';'' \<notin> set w"
proof -
  obtain r where r: "t = ''x-anthropic-billing-header: cc_version='' @ r"
    using assms(1) by (metis starts_with_def append_take_drop_id)
  then have "CHR '';'' \<in> set r" using assms(2) by simp
  from split_list_first [OF this] obtain w rest where "r = w @ CHR '';'' # rest" "CHR '';'' \<notin> set w" by blast
  with r that show ?thesis by (simp add: header_text_def)
qed

lemma ensure_text_carries:
  assumes "\<forall>x. length (sha256 x) = 32" "plain v" "looks_like_billing_header t" "header_regular t"
  shows "carries v (ensure_text t v (fp3 sha256 u v) (header_text (v @ CHR ''.'' # fp3 sha256 u v) rest))"
proof (cases "billing_version t = None")
  case True
  then show ?thesis using fp3_plain [OF assms(1), of u v] assms(2) by (simp add: ensure_text_def carries_header)
next
  case False
  with assms(3,4) obtain w r where "t = header_text w r" "CHR '';'' \<notin> set w"
    unfolding header_regular_def using regular_header_text by metis
  then show ?thesis
    using False fp3_plain [OF assms(1), of u v] assms(2) by (simp add: ensure_text_def rewrite_header carries_header)
qed

lemma ensure_carries_string:
  "plain v \<Longrightarrow> carries v t \<Longrightarrow> ensure_billing_block sha256 (JString t) v u pol = Inr (JString t, BillingPreserved)"
  by (simp add: ensure_billing_block_def render_plain carries_def Let_def)

lemma ensure_carries_array:
  "\<lbrakk>plain v; carries v t; Option.bind (json_get ''text'' b) as_str_value = Some t; \<not> has_point b\<rbrakk> \<Longrightarrow>
   ensure_billing_block sha256 (JArray (b # rest)) v u pol = Inr (JArray (b # rest), BillingPreserved)"
  by (simp add: ensure_billing_block_def render_plain carries_def Let_def)

lemma block_text_kept:
  assumes "unique_keys b" "Option.bind (json_get ''text'' b) as_str_value = Some t"
  shows "Option.bind (json_get ''text'' (remove_point b)) as_str_value = Some t"
    "Option.bind (json_get ''text'' (set_block_text t' b)) as_str_value = Some t'"
    "\<not> has_point (set_block_text t' b)"
  using assms
  by (cases b; simp add: map_of_obj_remove_other distinct_obj_insert)+

text \<open>Ensuring the attribution block is idempotent: once it has succeeded for a version, a second pass for
  that version finds its own block, of that version and without a breakpoint, and leaves the value byte
  for byte. This holds for a missing, a string and an array value, for a value without a header, with a
  malformed one, and with a readable one whose version field comes first.
\<close>

theorem ensure_billing_idempotent:
  assumes "\<forall>x. length (sha256 x) = 32" "plain v" "unique_keys system"
    and "case system_header system of None \<Rightarrow> True | Some t \<Rightarrow> header_regular t"
    and "ensure_billing_block sha256 system v u pol = Inr (system', action)"
  shows "ensure_billing_block sha256 system' v u' pol' = Inr (system', BillingPreserved)"
proof -
  let ?f = "fp3 sha256 u v"
  let ?r = "header_text (v @ CHR ''.'' # ?f) (header_rest pol)"
  note fp = fp3_plain [OF assms(1), of u v]
  have new: "carries v ?r" using fp assms(2) carries_header by blast
  have ins: "ensure_billing_block sha256 (JArray (text_block ?r # rest)) v u' pol' =
      Inr (JArray (text_block ?r # rest), BillingPreserved)" for rest
    by (rule ensure_carries_array [OF assms(2) new]) (simp_all add: text_block_def)
  note eq = assms(5) [unfolded ensure_billing_block_def, simplified render_plain [OF assms(2)] Let_def]
  show ?thesis
  proof (cases system)
    case JNull
    then show ?thesis using eq ins render_plain(2) [OF assms(2)] by auto
  next
    case (JString t)
    show ?thesis
    proof (cases "looks_like_billing_header t")
      case True
      have "carries v (ensure_text t v ?f ?r)"
        using ensure_text_carries [OF assms(1,2) True] assms(4) JString by (simp add: system_header_def)
      then show ?thesis
        using eq JString True render_plain(2) [OF assms(2)] ensure_carries_string [OF assms(2)]
        by (auto simp: carries_def split: if_splits)
    next
      case False
      then show ?thesis using eq JString ins render_plain(2) [OF assms(2)] by auto
    qed
  next
    case (JArray vs)
    show ?thesis
    proof (cases "\<exists>b rest t. vs = b # rest \<and> Option.bind (json_get ''text'' b) as_str_value = Some t \<and>
        looks_like_billing_header t")
      case True
      then obtain b rest t where b: "vs = b # rest" "Option.bind (json_get ''text'' b) as_str_value = Some t"
        "looks_like_billing_header t" by blast
      have u: "unique_keys b" using assms(3) JArray b(1) by simp
      have c: "carries v (ensure_text t v ?f ?r)"
        using ensure_text_carries [OF assms(1,2) b(3)] assms(4) JArray b(1,2) by (simp add: system_header_def)
      show ?thesis
        using eq JArray b c block_text_kept [OF u b(2)] ensure_carries_array [OF assms(2)] render_plain(2) [OF assms(2)]
        by (auto simp: carries_def split: if_splits)
    next
      case False
      then have "system' = JArray (text_block ?r # vs)"
        using eq JArray render_plain(2) [OF assms(2)] by (auto split: list.splits option.splits if_splits)
      then show ?thesis using ins by simp
    qed
  qed (use eq render_plain(2) [OF assms(2)] in auto)
qed

lemma ensure_array_total: "plain v \<Longrightarrow> \<exists>system' action. ensure_billing_block sha256 (JArray vs) v u pol = Inr (system', action)"
  by (auto simp: ensure_billing_block_def render_plain Let_def split: list.splits option.splits)

definition sample_billing_system :: Json where
  "sample_billing_system = JArray [text_block (header_text ''2.1.220.abc'' '' cc_entrypoint=cli;'')]"

theorem ensure_billing_idempotent_witness:
  "\<exists>system' action.
     ensure_billing_block (\<lambda>_. replicate 32 (CHR 0x00)) sample_billing_system ''2.1.241'' ''hello'' Omit = Inr (system', action) \<and>
     ensure_billing_block (\<lambda>_. replicate 32 (CHR 0x00)) system' ''2.1.241'' ''other'' Zero00 = Inr (system', BillingPreserved)"
proof -
  have p: "plain ''2.1.241''" by (simp add: plain_def visible_def is_whitespace_def)
  have u: "unique_keys sample_billing_system" by (simp add: sample_billing_system_def text_block_def)
  have h: "case system_header sample_billing_system of None \<Rightarrow> True | Some t \<Rightarrow> header_regular t"
    by (simp add: sample_billing_system_def system_header_def text_block_def header_regular_def header_text_def starts_with_def)
  have l: "\<forall>x. length ((\<lambda>_. replicate 32 (CHR 0x00)) (x :: string)) = 32" by simp
  obtain system' action where
    e: "ensure_billing_block (\<lambda>_. replicate 32 (CHR 0x00)) sample_billing_system ''2.1.241'' ''hello'' Omit = Inr (system', action)"
    unfolding sample_billing_system_def using ensure_array_total [OF p] by blast
  from ensure_billing_idempotent [OF l p u h e] e show ?thesis by blast
qed

text \<open>The rewrite looks for the version field's name anywhere in the text, while the version is read from the
  field of that exact name: a header whose first occurrence is inside another field's name is rewritten
  there, and its version is still the old one.
\<close>

lemma rewrite_hits_other_field:
  "rewrite_version_and_fp3 ''x-anthropic-billing-header: xcc_version=1; cc_version=2.1.220.abc;'' v f =
   ''x-anthropic-billing-header: xcc_version='' @ v @ ''.'' @ f @ ''; cc_version=2.1.220.abc;''"
  by (simp add: rewrite_version_and_fp3_def starts_with_def)

end
