(* ===== verification/Policy_Engine.thy ===== *)
theory Policy_Engine
  imports Request_Parser Capability System_Rewrite Billing
begin

text \<open>
  The request policy, \<^verbatim>\<open>gateway-policy/engine.rs\<close>: rule sets in layers and phases, the mutations they make on a
  request tree, the group's enforcement of the \<^verbatim>\<open>system\<close> value, and the pipeline that turns raw bytes into a
  credential-neutral request. The JSON reader, the serializer and SHA-256 are parameters.
\<close>

subsection \<open>Data\<close>

datatype SchemaMode = Compatible | Strict

datatype SystemPolicy = Preserve | StripClient | ReplaceSystem string Json | StripAll

record Enforcement =
  en_system :: SystemPolicy

definition Enforcement_default :: Enforcement where
  "Enforcement_default = \<lparr>en_system = Preserve\<rparr>"

datatype RulePhase = StructureRepair | DefaultPhase | RangePhase | SystemPhase | ToolsPhase | ThinkingCache | BetaMetadata

fun phase_rank_of :: "RulePhase \<Rightarrow> nat" where
  "phase_rank_of StructureRepair = 0"
| "phase_rank_of DefaultPhase = 1"
| "phase_rank_of RangePhase = 2"
| "phase_rank_of SystemPhase = 3"
| "phase_rank_of ToolsPhase = 4"
| "phase_rank_of ThinkingCache = 5"
| "phase_rank_of BetaMetadata = 6"

datatype RuleAction =
    SetDefault string Json | SetAction string Json | RemoveAction string
  | ClampNumber string "f64 option" "f64 option"

fun action_path :: "RuleAction \<Rightarrow> string" where
  "action_path (SetDefault path _) = path"
| "action_path (SetAction path _) = path"
| "action_path (RemoveAction path) = path"
| "action_path (ClampNumber path _ _) = path"

record RuleDefinition =
  rd_id :: string
  rd_phase :: RulePhase
  rd_action :: RuleAction
  rd_when :: CapabilityCondition
  rd_reason :: string
  rd_risk :: ChangeRisk

record CompiledRuleSet =
  crs_id :: string
  crs_rules :: "RuleDefinition list"

record RuleSimulation =
  sim_adjusted_request_digest :: Digest
  sim_changes :: "AppliedChange list"

record PolicyContext =
  pc_client_class :: ClientClass
  pc_client_os :: ClientOs
  pc_protocol_headers :: "(string, Json) btree"
  pc_affinity_credential :: "CredentialId option"

datatype PolicyError =
    PolicyParse ParseError | InvalidStructure | ModelUnavailable | CapabilityViolation "CapabilityDiagnostic list"
  | CapabilityPathExpansionLimit | CapabilityRuntimeConflict | SerializerFailed

record RequestPolicy =
  rp_schema_mode :: SchemaMode
  rp_capabilities :: CapabilityCatalog
  rp_enforcement :: Enforcement
  rp_ruleset :: "CompiledRuleSet option"
  rp_snapshots :: RequestSnapshotSet

record EnforcementOutcome =
  eo_attribution_suppressed :: bool
  eo_system_template_pending :: bool

text \<open>The code outside the repository that the pipeline calls.\<close>

record Codec =
  read_json :: "string \<Rightarrow> Raw \<times> bool"
  to_vec :: "Json \<Rightarrow> string option"
  sha256_bytes :: "string \<Rightarrow> string"

definition request_digest :: "Codec \<Rightarrow> string \<Rightarrow> Digest" where
  "request_digest cx bytes = Digest (digest_of (sha256_bytes cx) bytes)"

subsection \<open>Compiling rule sets\<close>

definition validate_mutation_path :: "string \<Rightarrow> CapabilityCompileError + unit" where
  "validate_mutation_path path =
     (case strip_prefix ''body:'' path of
        None \<Rightarrow> Inl InvalidPath
      | Some p \<Rightarrow>
          if \<not> starts_with ''/'' p \<or> CHR ''*'' \<in> set p \<or> p = ''/model'' \<or> starts_with ''/model/'' p \<or>
             p = ''/messages'' \<or> starts_with ''/messages/'' p
          then Inl InvalidPath else Inr ())"

definition validate_definition :: "RuleDefinition \<Rightarrow> CapabilityCompileError + unit" where
  "validate_definition r =
     (case validate_mutation_path (action_path (rd_action r)) of
        Inl e \<Rightarrow> Inl e
      | Inr _ \<Rightarrow>
          (case validate_condition (rd_when r) of
             Inl e \<Rightarrow> Inl e
           | Inr _ \<Rightarrow>
               (case rd_action r of
                  ClampNumber _ mn mx \<Rightarrow>
                    if is_some_and mn (\<lambda>a. is_some_and mx (\<lambda>b. f64_lt b a)) then Inl EmptyRange else Inr ()
                | _ \<Rightarrow> Inr ())))"

definition rule_key :: "nat \<times> RuleDefinition \<Rightarrow> nat \<times> nat \<times> string" where
  "rule_key lr = (phase_rank_of (rd_phase (snd lr)), fst lr, rd_id (snd lr))"

definition layered :: "RuleDefinition list list \<Rightarrow> (nat \<times> RuleDefinition) list" where
  "layered layers = concat (map (\<lambda>(layer, rules). map (Pair layer) rules) (enumerate 0 layers))"

definition compile_layers :: "string \<Rightarrow> RuleDefinition list list \<Rightarrow> CapabilityCompileError + CompiledRuleSet" where
  "compile_layers i layers =
     (if i = [] \<or> list_ex (\<lambda>r. rd_id r = [] \<or> rd_reason r = []) (concat layers) then Inl EmptyIdentifier
      else (case validate_all validate_definition (map snd (layered layers)) of
          Inl e \<Rightarrow> Inl e
        | Inr _ \<Rightarrow> Inr \<lparr>crs_id = i, crs_rules = map snd (sort_key rule_key (layered layers))\<rparr>))"

definition compile_rules :: "string \<Rightarrow> RuleDefinition list \<Rightarrow> CapabilityCompileError + CompiledRuleSet" where
  "compile_rules i rules = compile_layers i [rules]"

subsection \<open>Mutating a tree\<close>

definition split_pointer :: "string \<Rightarrow> PolicyError + string \<times> string" where
  "split_pointer p =
     (case rsplit_once CHR ''/'' p of
        None \<Rightarrow> Inl InvalidStructure
      | Some (parent, raw) \<Rightarrow>
          (let leaf = unescape_token raw in if leaf = [] then Inl InvalidStructure else Inr (parent, leaf)))"

definition set_leaf :: "string \<Rightarrow> Json \<Rightarrow> Json \<Rightarrow> PolicyError + Json" where
  "set_leaf leaf v parent =
     (case parent of
        JObject m \<Rightarrow> Inr (JObject (obj_insert leaf v m))
      | JArray vs \<Rightarrow>
          (case parse_unsigned USIZE_MAX leaf of
             None \<Rightarrow> Inl InvalidStructure
           | Some i \<Rightarrow> if i < length vs then Inr (JArray (vs[i := v])) else Inl InvalidStructure)
      | _ \<Rightarrow> Inl InvalidStructure)"

definition remove_leaf :: "string \<Rightarrow> Json \<Rightarrow> PolicyError + Json" where
  "remove_leaf leaf parent =
     (case parent of
        JObject m \<Rightarrow> Inr (JObject (obj_remove leaf m))
      | JArray vs \<Rightarrow>
          (case parse_unsigned USIZE_MAX leaf of
             None \<Rightarrow> Inl InvalidStructure
           | Some i \<Rightarrow> Inr (JArray (if i < length vs then take i vs @ drop (Suc i) vs else vs)))
      | _ \<Rightarrow> Inl InvalidStructure)"

text \<open>The operation at the parent of a pointer; \<open>missing\<close> is the result when there is no parent.\<close>

definition at_parent :: "(string \<Rightarrow> Json \<Rightarrow> PolicyError + Json) \<Rightarrow> (PolicyError + Json) \<Rightarrow> Json \<Rightarrow> string \<Rightarrow> PolicyError + Json" where
  "at_parent f missing tree p =
     (case split_pointer p of
        Inl e \<Rightarrow> Inl e
      | Inr (parent, leaf) \<Rightarrow>
          if parent = [] then f leaf tree
          else (case Option.bind (pointer_tokens parent) (\<lambda>ts. update_at ts (f leaf) tree) of
              None \<Rightarrow> missing
            | Some r \<Rightarrow> r))"

definition set_pointer :: "Json \<Rightarrow> string \<Rightarrow> Json \<Rightarrow> PolicyError + Json" where
  "set_pointer tree p v = at_parent (\<lambda>leaf. set_leaf leaf v) (Inl InvalidStructure) tree p"

definition remove_pointer :: "Json \<Rightarrow> string \<Rightarrow> PolicyError + Json" where
  "remove_pointer tree p = at_parent remove_leaf (Inr tree) tree p"

subsection \<open>Applying rules\<close>

definition value_digest :: "Codec \<Rightarrow> Json option \<Rightarrow> Digest" where
  "value_digest cx v =
     (case v of
        None \<Rightarrow> request_digest cx ''gateway:missing''
      | Some w \<Rightarrow>
          (case to_vec cx w of None \<Rightarrow> request_digest cx ''gateway:serializer-error'' | Some bytes \<Rightarrow> request_digest cx bytes))"

definition change :: "Codec \<Rightarrow> string \<Rightarrow> string \<Rightarrow> Json option \<Rightarrow> Json option \<Rightarrow> string \<Rightarrow> ChangeRisk \<Rightarrow> AppliedChange" where
  "change cx rule_id path before after' reason risk =
     \<lparr>ac_rule_id = rule_id, ac_path = path, ac_before_digest = value_digest cx before,
      ac_after_digest = value_digest cx after', ac_reason = reason, ac_risk = risk\<rparr>"

fun map_runtime_error :: "RuntimeCapabilityError \<Rightarrow> PolicyError" where
  "map_runtime_error PathExpansionLimit = CapabilityPathExpansionLimit"
| "map_runtime_error RuntimeConflict = CapabilityRuntimeConflict"

text \<open>
  A bound of a rule need not be finite: \<^verbatim>\<open>max\<close> and \<^verbatim>\<open>min\<close> ignore a NaN, and \<^verbatim>\<open>json!\<close> of a float that is not
  finite is null.
\<close>

definition f64_magnitude :: "f64 \<Rightarrow> nat" where
  "f64_magnitude b = unat b mod 2 ^ 63"

definition f64_is_nan :: "f64 \<Rightarrow> bool" where
  "f64_is_nan b \<longleftrightarrow> 2047 * 2 ^ 52 < f64_magnitude b"

definition json_f64 :: "f64 \<Rightarrow> Json" where
  "json_f64 b = (if f64_magnitude b < 2047 * 2 ^ 52 then JF64 b else JNull)"

definition clamp_f64 :: "f64 option \<Rightarrow> f64 option \<Rightarrow> f64 \<Rightarrow> f64" where
  "clamp_f64 mn mx x =
     (let y = (case mn of None \<Rightarrow> x | Some m \<Rightarrow> if f64_is_nan m then x else f64_max x m)
      in case mx of None \<Rightarrow> y | Some m \<Rightarrow> if f64_is_nan m then y else f64_min y m)"

text \<open>\<^verbatim>\<open>total_cmp\<close> tells two floats apart exactly when their bits differ.\<close>

definition run_action :: "RuleAction \<Rightarrow> Json option \<Rightarrow> string \<Rightarrow> Json \<Rightarrow> PolicyError + Json" where
  "run_action action before path tree =
     (case action of
        SetDefault _ v \<Rightarrow> if before = None then set_pointer tree path v else Inr tree
      | SetAction _ v \<Rightarrow> set_pointer tree path v
      | RemoveAction _ \<Rightarrow> remove_pointer tree path
      | ClampNumber _ mn mx \<Rightarrow>
          (case Option.bind before as_f64 of
             None \<Rightarrow> Inr tree
           | Some x \<Rightarrow>
               (let bounded = clamp_f64 mn mx x in
                if bounded \<noteq> x then set_pointer tree path (json_f64 bounded) else Inr tree)))"

definition apply_rule ::
  "Codec \<Rightarrow> RuleDefinition \<Rightarrow> EvaluationContext \<Rightarrow> Json \<times> AppliedChange list \<Rightarrow> PolicyError + Json \<times> AppliedChange list" where
  "apply_rule cx r ctx = (\<lambda>(tree, changes).
     case condition_matches (rd_when r) tree ctx of
       Inl e \<Rightarrow> Inl (map_runtime_error e)
     | Inr b \<Rightarrow>
         if \<not> b then Inr (tree, changes)
         else (case strip_prefix ''body:'' (action_path (rd_action r)) of
             None \<Rightarrow> Inl CapabilityRuntimeConflict
           | Some path \<Rightarrow>
               (let before = value_pointer path tree in
                case run_action (rd_action r) before path tree of
                  Inl e \<Rightarrow> Inl e
                | Inr tree' \<Rightarrow>
                    (let after' = value_pointer path tree' in
                     Inr (tree', if json_opt_eq before after' then changes
                                 else changes @ [change cx (rd_id r) path before after' (rd_reason r) (rd_risk r)])))))"

fun apply_rules ::
  "Codec \<Rightarrow> RuleDefinition list \<Rightarrow> EvaluationContext \<Rightarrow> Json \<times> AppliedChange list \<Rightarrow> PolicyError + Json \<times> AppliedChange list" where
  "apply_rules cx [] ctx st = Inr st"
| "apply_rules cx (r # rs) ctx st =
     (case apply_rule cx r ctx st of Inl e \<Rightarrow> Inl e | Inr st' \<Rightarrow> apply_rules cx rs ctx st')"

subsection \<open>Enforcement\<close>

definition outcome_default :: EnforcementOutcome where
  "outcome_default = \<lparr>eo_attribution_suppressed = False, eo_system_template_pending = False\<rparr>"

definition put_system ::
  "Codec \<Rightarrow> Json option \<Rightarrow> Json option \<Rightarrow> string \<Rightarrow> Json \<times> AppliedChange list \<Rightarrow> PolicyError + Json \<times> AppliedChange list" where
  "put_system cx current nxt reason = (\<lambda>(tree, changes).
     case (case nxt of Some v \<Rightarrow> set_pointer tree ''/system'' v | None \<Rightarrow> remove_pointer tree ''/system'') of
       Inl e \<Rightarrow> Inl e
     | Inr tree' \<Rightarrow>
         (let after' = json_get ''system'' tree' in
          Inr (tree', if json_opt_eq current after' then changes
                      else changes @ [change cx ''group_enforcement.system'' ''/system'' current after' reason RiskHigh])))"

definition apply_enforcement ::
  "Codec \<Rightarrow> Enforcement \<Rightarrow> Json \<times> AppliedChange list \<Rightarrow>
   PolicyError + (Json \<times> AppliedChange list) \<times> EnforcementOutcome" where
  "apply_enforcement cx en st =
     (let current = json_get ''system'' (fst st) in
      if is_some_and current (\<lambda>v. as_str_value v = None \<and> as_array v = None) then Inl InvalidStructure
      else (case en_system en of
          Preserve \<Rightarrow> Inr (st, outcome_default)
        | StripClient \<Rightarrow>
            map_sum id (\<lambda>s. (s, outcome_default))
              (put_system cx current (Option.bind current strip_client_system) ''system_strip_client'' st)
        | ReplaceSystem _ content \<Rightarrow>
            if is_empty_replacement content then Inr (st, outcome_default\<lparr>eo_system_template_pending := True\<rparr>)
            else map_sum id (\<lambda>s. (s, outcome_default))
              (put_system cx current
                (Some (fst (replace_system_static (case current of None \<Rightarrow> JNull | Some v \<Rightarrow> v) content)))
                ''system_replace'' st)
        | StripAll \<Rightarrow>
            map_sum id (\<lambda>s. (s, outcome_default\<lparr>eo_attribution_suppressed := True\<rparr>))
              (put_system cx current None ''system_strip_all'' st)))"

fun reorder_members :: "Json \<Rightarrow> (string \<times> Json) list \<Rightarrow> (string \<times> Json) list \<Rightarrow> (string \<times> Json) list" where
  "reorder_members system [] out = out"
| "reorder_members system ((k, v) # m) out =
     (let out = (if k = ''messages'' then obj_insert ''system'' system out else out);
          out = (if k \<noteq> ''system'' then obj_insert k v out else out)
      in reorder_members system m out)"

definition canonicalize_system_order :: "Json \<Rightarrow> Json" where
  "canonicalize_system_order tree =
     (case tree of
        JObject m \<Rightarrow>
          (case map_of m ''system'' of
             None \<Rightarrow> tree
           | Some system \<Rightarrow> if map_of m ''messages'' = None then tree else JObject (reorder_members system m []))
      | _ \<Rightarrow> tree)"

subsection \<open>Portability\<close>

definition pin_reason :: "string \<Rightarrow> PinReason set" where
  "pin_reason key =
     (if key = ''continuation'' \<or> key = ''continuation_token'' then {Continuation}
      else if key = ''file_id'' \<or> key = ''container_id'' \<or> key = ''batch_id'' then {AccountResource}
      else if key = ''credential_extension'' then {CredentialExtension}
      else {})"

fun scan_pin_reasons :: "Json \<Rightarrow> PinReason set" where
  "scan_pin_reasons (JObject m) = (\<Union>p\<in>set m. pin_reason (fst p) \<union> scan_pin_reasons (snd p))"
| "scan_pin_reasons (JArray vs) = (\<Union>v\<in>set vs. scan_pin_reasons v)"
| "scan_pin_reasons _ = {}"

definition classify_portability :: "ParsedRequest \<Rightarrow> Json \<Rightarrow> CredentialId option \<Rightarrow> Portability" where
  "classify_portability parsed tree affinity =
     (let reasons = (if pq_unknown_top_level parsed \<noteq> [] \<or> pq_unknown_content_blocks parsed \<noteq> []
                     then {UnknownExtension} else {}) \<union> scan_pin_reasons tree
      in if reasons = {} then Portable
         else Pinned affinity
           (filter (\<lambda>r. r \<in> reasons) [Continuation, AccountResource, CredentialExtension, UnknownExtension]))"

subsection \<open>The pipeline\<close>

definition evaluation :: "PolicyContext \<Rightarrow> string \<Rightarrow> bool \<Rightarrow> EvaluationContext" where
  "evaluation ctx model stream =
     \<lparr>ec_headers = pc_protocol_headers ctx,
      ec_request =
        bt_insert ''stream'' (JBool stream)
          (bt_insert ''client_os'' (JString (ClientOs_as_str (pc_client_os ctx)))
            (bt_insert ''model'' (JString model)
              (bt_insert ''client_class''
                (JString (case pc_client_class ctx of
                   ClaudeCodeCli \<Rightarrow> ''claude_code_cli'' | NonClaudeCodeCli \<Rightarrow> ''non_claude_code_cli'')) [])))\<rparr>"

definition stream_field :: "(string \<times> Json) list \<Rightarrow> PolicyError + bool" where
  "stream_field object =
     (case map_of object ''stream'' of
        None \<Rightarrow> Inr False
      | Some (JBool b) \<Rightarrow> Inr b
      | Some _ \<Rightarrow> Inl InvalidStructure)"

definition model_field :: "(string \<times> Json) list \<Rightarrow> string option" where
  "model_field object =
     (case Option.bind (map_of object ''model'') as_str_value of
        None \<Rightarrow> None
      | Some m \<Rightarrow> if m = [] then None else Some m)"

definition validate_base_structure :: "ParsedRequest \<Rightarrow> bool \<Rightarrow> PolicyError + string \<times> bool" where
  "validate_base_structure parsed require_max_tokens =
     (case as_object (pq_tree parsed) of
        None \<Rightarrow> Inl InvalidStructure
      | Some object \<Rightarrow>
          (case model_field object of
             None \<Rightarrow> Inl InvalidStructure
           | Some model \<Rightarrow>
               if \<not> is_some_and (map_of object ''messages'') (\<lambda>v. as_array v \<noteq> None) \<or>
                  (require_max_tokens \<and> map_of object ''max_tokens'' = None) \<or>
                  is_some_and (map_of object ''max_tokens'') (\<lambda>v. v \<noteq> JNull \<and> as_u64_value v = None)
               then Inl InvalidStructure
               else map_sum id (Pair model) (stream_field object)))"

definition filter_count_tokens_diagnostics :: "CapabilityDiagnostic list \<Rightarrow> bool \<Rightarrow> CapabilityDiagnostic list" where
  "filter_count_tokens_diagnostics ds require_max_tokens =
     (if require_max_tokens then ds else filter (\<lambda>d. fst d \<noteq> ''body:/max_tokens'') ds)"

text \<open>Validation with the runtime errors mapped; diagnostics that are left make it fail.\<close>

definition check_capability ::
  "CompiledCapabilitySnapshot \<Rightarrow> Json \<Rightarrow> EvaluationContext \<Rightarrow> bool \<Rightarrow> bool \<Rightarrow> PolicyError + unit" where
  "check_capability snapshot tree ctx final_pass require_max_tokens =
     (case validate_capability snapshot tree ctx final_pass of
        Inl e \<Rightarrow> Inl (map_runtime_error e)
      | Inr ds \<Rightarrow>
          (let left = filter_count_tokens_diagnostics ds require_max_tokens in
           if left \<noteq> [] then Inl (CapabilityViolation left) else Inr ()))"

definition adjust_tree ::
  "Codec \<Rightarrow> RequestPolicy \<Rightarrow> Json \<Rightarrow> EvaluationContext \<Rightarrow>
   PolicyError + (Json \<times> AppliedChange list) \<times> EnforcementOutcome" where
  "adjust_tree cx pol tree ctx =
     (case (case rp_ruleset pol of None \<Rightarrow> Inr (tree, []) | Some rs \<Rightarrow> apply_rules cx (crs_rules rs) ctx (tree, [])) of
        Inl e \<Rightarrow> Inl e
      | Inr st \<Rightarrow>
          (case apply_enforcement cx (rp_enforcement pol) st of
             Inl e \<Rightarrow> Inl e
           | Inr ((tree', changes), out) \<Rightarrow>
               Inr ((if changes = [] then tree' else canonicalize_system_order tree', changes), out)))"

definition bytes_of :: "string \<Rightarrow> u8 list" where
  "bytes_of s = map (\<lambda>c. of_nat (byte c)) s"

text \<open>The result carries the replay body's tree beside the request.\<close>

definition freeze_request ::
  "Codec \<Rightarrow> RequestPolicy \<Rightarrow> PolicyContext \<Rightarrow> ParsedRequest \<Rightarrow> string \<Rightarrow> bool \<Rightarrow> Json \<Rightarrow> AppliedChange list \<Rightarrow>
   EnforcementOutcome \<Rightarrow> PolicyError + GenericAdjustedRequest \<times> Json" where
  "freeze_request cx pol ctx parsed model stream tree changes out =
     (case (if changes = [] then Some (pq_raw_body parsed) else to_vec cx tree) of
        None \<Rightarrow> Inl SerializerFailed
      | Some bytes \<Rightarrow> Inr
          (\<lparr>replay_body = \<lparr>rb_bytes = bytes_of bytes, rb_reused_original = (changes = [])\<rparr>,
            body_digest = request_digest cx bytes, model_id = model, stream_mode = stream,
            portability = classify_portability parsed tree (pc_affinity_credential ctx),
            attribution_suppressed = eo_attribution_suppressed out,
            system_template_pending = eo_system_template_pending out,
            change_set = changes, snapshot_set = rp_snapshots pol\<rparr>, tree))"

definition process_with_options ::
  "Codec \<Rightarrow> RequestPolicy \<Rightarrow> string \<Rightarrow> PolicyContext \<Rightarrow> bool \<Rightarrow> PolicyError + GenericAdjustedRequest \<times> Json" where
  "process_with_options cx pol raw_body ctx require_max_tokens =
     (case parse_messages_request (read_json cx) (digest_of (sha256_bytes cx)) raw_body (rp_schema_mode pol = Strict) of
        Inl e \<Rightarrow> Inl (PolicyParse e)
      | Inr parsed \<Rightarrow>
     (case validate_base_structure parsed require_max_tokens of
        Inl e \<Rightarrow> Inl e
      | Inr (model, stream) \<Rightarrow>
     (case catalog_get (rp_capabilities pol) model of
        None \<Rightarrow> Inl ModelUnavailable
      | Some snapshot \<Rightarrow>
     (let ev = evaluation ctx model stream in
      case check_capability snapshot (pq_tree parsed) ev False require_max_tokens of
        Inl e \<Rightarrow> Inl e
      | Inr _ \<Rightarrow>
     (case adjust_tree cx pol (pq_tree parsed) ev of
        Inl e \<Rightarrow> Inl e
      | Inr ((tree, changes), out) \<Rightarrow>
          if Option.bind (json_get ''model'' tree) as_str_value \<noteq> Some model then Inl CapabilityRuntimeConflict
          else (case check_capability snapshot tree ev True require_max_tokens of
              Inl e \<Rightarrow> Inl e
            | Inr _ \<Rightarrow> freeze_request cx pol ctx parsed model stream tree changes out))))))"

definition process :: "Codec \<Rightarrow> RequestPolicy \<Rightarrow> string \<Rightarrow> PolicyContext \<Rightarrow> PolicyError + GenericAdjustedRequest \<times> Json" where
  "process cx pol raw_body ctx = process_with_options cx pol raw_body ctx True"

definition process_count_tokens ::
  "Codec \<Rightarrow> RequestPolicy \<Rightarrow> string \<Rightarrow> PolicyContext \<Rightarrow> PolicyError + GenericAdjustedRequest \<times> Json" where
  "process_count_tokens cx pol raw_body ctx = process_with_options cx pol raw_body ctx False"

definition simulate :: "Codec \<Rightarrow> CompiledRuleSet \<Rightarrow> Json \<Rightarrow> PolicyContext \<Rightarrow> PolicyError + RuleSimulation" where
  "simulate cx rs request ctx =
     (case as_object request of
        None \<Rightarrow> Inl InvalidStructure
      | Some object \<Rightarrow>
     (case model_field object of
        None \<Rightarrow> Inl InvalidStructure
      | Some model \<Rightarrow>
          if \<not> is_some_and (map_of object ''messages'') (\<lambda>v. as_array v \<noteq> None) \<or>
             is_none_or (map_of object ''max_tokens'') (\<lambda>v. as_u64_value v = None)
          then Inl InvalidStructure
          else (case stream_field object of
              Inl e \<Rightarrow> Inl e
            | Inr stream \<Rightarrow>
     (case apply_rules cx (crs_rules rs) (evaluation ctx model stream) (request, []) of
        Inl e \<Rightarrow> Inl e
      | Inr (tree, changes) \<Rightarrow>
          (case to_vec cx tree of
             None \<Rightarrow> Inl SerializerFailed
           | Some bytes \<Rightarrow> Inr \<lparr>sim_adjusted_request_digest = request_digest cx bytes, sim_changes = changes\<rparr>)))))"

subsection \<open>The base policy\<close>

definition base_rule :: "string \<Rightarrow> string \<Rightarrow> CapabilityAction \<Rightarrow> JsonType set \<Rightarrow> f64 option \<Rightarrow> CapabilityRule" where
  "base_rule i path action types mn = \<lparr>cr_id = i, cr_path = path, cr_action = action, cr_types = types,
     cr_enum_values = [], cr_minimum = mn, cr_maximum = None, cr_exclusive_maximum_path = None,
     cr_required_children = {}, cr_when = Always\<rparr>"

definition capability_rule :: "string \<Rightarrow> string \<Rightarrow> JsonType \<Rightarrow> CapabilityRule" where
  "capability_rule i path kind =
     base_rule i path Required {kind} (if path = ''body:/max_tokens'' then Some (f64_of_nat 1) else None)"

definition allowed_rule :: "string \<Rightarrow> string \<Rightarrow> JsonType list \<Rightarrow> CapabilityRule" where
  "allowed_rule i path kinds = base_rule i path Allowed (set kinds) None"

definition base_rules :: "CapabilityRule list" where
  "base_rules =
     [capability_rule ''model'' ''body:/model'' TString,
      capability_rule ''max_tokens'' ''body:/max_tokens'' TInteger,
      capability_rule ''messages'' ''body:/messages'' TArray,
      allowed_rule ''stream'' ''body:/stream'' [TBoolean],
      allowed_rule ''system'' ''body:/system'' [TString, TArray]]"

fun compile_models :: "string list \<Rightarrow> CapabilityCompileError + CompiledCapabilitySnapshot list" where
  "compile_models [] = Inr []"
| "compile_models (m # ms) =
     (case compile_capability (''capability:'' @ m @ '':base'') m base_rules of
        Inl e \<Rightarrow> Inl e
      | Inr s \<Rightarrow> map_sum id (Cons s) (compile_models ms))"

definition base_for_models :: "string list \<Rightarrow> RequestSnapshotSet \<Rightarrow> CapabilityCompileError + RequestPolicy" where
  "base_for_models model_ids snapshots =
     (case compile_models model_ids of
        Inl e \<Rightarrow> Inl e
      | Inr models \<Rightarrow>
          map_sum id (\<lambda>catalog.
            \<lparr>rp_schema_mode = Compatible, rp_capabilities = catalog, rp_enforcement = Enforcement_default,
             rp_ruleset = None, rp_snapshots = snapshots\<rparr>) (catalog_new models))"

end
