(* ===== verification/Capability_Properties.thy ===== *)
theory Capability_Properties
  imports Capability
begin

text \<open>
  What compiled capabilities guarantee: path expansion is bounded, merged constraints are at least as strict
  as every rule they come from, and a request without diagnostics conforms to every rule whose condition
  holds.
\<close>

subsection \<open>Bounds\<close>

lemma expand_segment_bound:
  "\<lbrakk>expand_segment seg vs nxt = Inr out; length nxt \<le> MAX_PATH_EXPANSIONS\<rbrakk> \<Longrightarrow> length out \<le> MAX_PATH_EXPANSIONS"
  by (induction seg vs nxt rule: expand_segment.induct) (auto simp: Let_def split: if_splits)

lemma expand_segments_bound:
  "\<lbrakk>expand_segments segs vs = Inr out; length vs \<le> MAX_PATH_EXPANSIONS\<rbrakk> \<Longrightarrow> length out \<le> MAX_PATH_EXPANSIONS"
proof (induction segs vs rule: expand_segments.induct)
  case (2 raw segs vs)
  then obtain nxt where n: "expand_segment (unescape_token raw) vs [] = Inr nxt" "expand_segments segs nxt = Inr out"
    by (auto split: sum.splits)
  then have "length nxt \<le> MAX_PATH_EXPANSIONS" using expand_segment_bound by fastforce
  then show ?case using 2 n by blast
qed simp

lemma expand_path_bound: "expand_path path tree ctx = Inr vs \<Longrightarrow> length vs \<le> MAX_PATH_EXPANSIONS"
  using expand_segments_bound [of _ "[tree]" vs]
  by (auto simp: expand_path_def option_list_def MAX_PATH_EXPANSIONS_def split: option.splits)

subsection \<open>Scalars\<close>

fun scalar_key :: "Json \<Rightarrow> nat \<times> int \<times> string" where
  "scalar_key JNull = (0, 0, [])"
| "scalar_key (JBool b) = (1, of_bool b, [])"
| "scalar_key (JString s) = (3, 0, s)"
| "scalar_key (JArray _) = (4, 0, [])"
| "scalar_key (JObject _) = (5, 0, [])"
| "scalar_key v = (2, f64_key (the (as_f64 v)), [])"

lemma strict_equal_key: "is_scalar a \<Longrightarrow> strict_equal a b \<longleftrightarrow> scalar_key a = scalar_key b"
  by (cases a; cases b) (auto simp: strict_equal_def)

subsection \<open>Merging\<close>

definition in_range :: "f64 option \<Rightarrow> f64 option \<Rightarrow> Json \<Rightarrow> bool" where
  "in_range mn mx v \<longleftrightarrow>
     is_none_or (as_f64 v) (\<lambda>x. is_none_or mn (\<lambda>m. \<not> f64_lt x m) \<and> is_none_or mx (\<lambda>m. \<not> f64_lt m x))"

definition has_children :: "string set \<Rightarrow> Json \<Rightarrow> bool" where
  "has_children cs v \<longleftrightarrow> is_none_or (as_object v) (\<lambda>m. \<forall>c\<in>cs. map_of m c \<noteq> None)"

text \<open>A rule's own constraints on a value.\<close>

definition rule_accepts :: "CapabilityRule \<Rightarrow> Json \<Rightarrow> bool" where
  "rule_accepts r v \<longleftrightarrow>
     (cr_types r = {} \<or> (\<exists>k\<in>cr_types r. type_matches k v)) \<and>
     (cr_enum_values r = [] \<or> list_ex (\<lambda>a. strict_equal a v) (cr_enum_values r)) \<and>
     in_range (cr_minimum r) (cr_maximum r) v \<and> has_children (cr_required_children r) v"

definition state_accepts :: "MergeState \<Rightarrow> Json \<Rightarrow> bool" where
  "state_accepts s v \<longleftrightarrow>
     is_none_or (ms_types s) (\<lambda>t. \<exists>k\<in>t. type_matches k v) \<and>
     is_none_or (ms_enum s) (list_ex (\<lambda>a. strict_equal a v)) \<and>
     in_range (ms_minimum s) (ms_maximum s) v \<and> has_children (ms_children s) v"

lemma in_range_combine:
  "in_range (combine f64_max a c) (combine f64_min b d) v \<longleftrightarrow> in_range a b v \<and> in_range c d v"
  by (auto simp: in_range_def combine_def f64_lt_def f64_max_key f64_min_key split: option.splits)

lemma has_children_Un: "has_children (a \<union> b) v \<longleftrightarrow> has_children a v \<and> has_children b v"
  by (auto simp: has_children_def split: option.splits)

definition scalar_rule :: "CapabilityRule \<Rightarrow> bool" where
  "scalar_rule r \<longleftrightarrow> list_all is_scalar (cr_enum_values r)"

lemma merged_enum:
  assumes "list_all is_scalar xs" "list_all is_scalar ys"
  shows "list_ex (\<lambda>a. strict_equal a v) (filter (\<lambda>x. list_ex (strict_equal x) ys) xs) \<longleftrightarrow>
    list_ex (\<lambda>a. strict_equal a v) xs \<and> list_ex (\<lambda>a. strict_equal a v) ys"
proof -
  have x: "strict_equal x b \<longleftrightarrow> scalar_key x = scalar_key b" if "x \<in> set xs" for x b
    using assms(1) that strict_equal_key by (auto simp: list_all_iff)
  have y: "strict_equal y b \<longleftrightarrow> scalar_key y = scalar_key b" if "y \<in> set ys" for y b
    using assms(2) that strict_equal_key by (auto simp: list_all_iff)
  have f: "list_ex (strict_equal a) ys \<longleftrightarrow> (\<exists>b\<in>set ys. scalar_key a = scalar_key b)" if "a \<in> set xs" for a
    using x [OF that] by (simp add: list_ex_iff)
  show ?thesis
    unfolding list_ex_iff set_filter by (auto simp: x y f) (metis f x y)+
qed

definition state_scalar :: "MergeState \<Rightarrow> bool" where
  "state_scalar s \<longleftrightarrow> is_none_or (ms_enum s) (list_all is_scalar)"

lemma merge_rule_fields:
  assumes "merge_rule s r = Some s'"
  shows "ms_types s' = (if cr_types r = {} then ms_types s else combine (\<inter>) (ms_types s) (Some (cr_types r)))"
    "ms_enum s' = (if cr_enum_values r = [] then ms_enum s
      else combine (\<lambda>xs ys. filter (\<lambda>x. list_ex (strict_equal x) ys) xs) (ms_enum s) (Some (cr_enum_values r)))"
    "ms_minimum s' = combine f64_max (ms_minimum s) (cr_minimum r)"
    "ms_maximum s' = combine f64_min (ms_maximum s) (cr_maximum r)"
    "ms_children s' = ms_children s \<union> cr_required_children r"
    "ms_exclusive s' = (case cr_exclusive_maximum_path r of None \<Rightarrow> ms_exclusive s | Some p \<Rightarrow> Some p)"
    "ms_action s' = (case ms_action s of None \<Rightarrow> Some (cr_action r) | Some a \<Rightarrow> merge_action a (cr_action r))"
    "ms_action s' \<noteq> None"
    "\<not> is_some_and (cr_exclusive_maximum_path r) (\<lambda>p. is_some_and (ms_exclusive s) (\<lambda>q. q \<noteq> p))"
proof -
  obtain action where
    "(case ms_action s of None \<Rightarrow> Some (cr_action r) | Some a \<Rightarrow> merge_action a (cr_action r)) = Some action"
    and e: "\<not> is_some_and (cr_exclusive_maximum_path r) (\<lambda>p. is_some_and (ms_exclusive s) (\<lambda>q. q \<noteq> p))"
    and s': "s' = \<lparr>ms_action = Some action,
          ms_types = (if cr_types r = {} then ms_types s
                      else combine (\<inter>) (ms_types s) (Some (cr_types r))),
          ms_enum = (if cr_enum_values r = [] then ms_enum s
                     else combine (\<lambda>xs ys. filter (\<lambda>x. list_ex (strict_equal x) ys) xs) (ms_enum s) (Some (cr_enum_values r))),
          ms_minimum = combine f64_max (ms_minimum s) (cr_minimum r),
          ms_maximum = combine f64_min (ms_maximum s) (cr_maximum r),
          ms_exclusive = (case cr_exclusive_maximum_path r of None \<Rightarrow> ms_exclusive s | Some p \<Rightarrow> Some p),
          ms_children = ms_children s \<union> cr_required_children r\<rparr>"
    using assms unfolding merge_rule_def bind_eq_Some_conv
    by (metis (lifting) option.distinct(1) option.inject)
  then show "ms_types s' = (if cr_types r = {} then ms_types s else combine (\<inter>) (ms_types s) (Some (cr_types r)))"
    "ms_enum s' = (if cr_enum_values r = [] then ms_enum s
      else combine (\<lambda>xs ys. filter (\<lambda>x. list_ex (strict_equal x) ys) xs) (ms_enum s) (Some (cr_enum_values r)))"
    "ms_minimum s' = combine f64_max (ms_minimum s) (cr_minimum r)"
    "ms_maximum s' = combine f64_min (ms_maximum s) (cr_maximum r)"
    "ms_children s' = ms_children s \<union> cr_required_children r"
    "ms_exclusive s' = (case cr_exclusive_maximum_path r of None \<Rightarrow> ms_exclusive s | Some p \<Rightarrow> Some p)"
    "ms_action s' = (case ms_action s of None \<Rightarrow> Some (cr_action r) | Some a \<Rightarrow> merge_action a (cr_action r))"
    "ms_action s' \<noteq> None"
    "\<not> is_some_and (cr_exclusive_maximum_path r) (\<lambda>p. is_some_and (ms_exclusive s) (\<lambda>q. q \<noteq> p))"
    by simp_all
qed

lemma merge_rule_scalar: "merge_rule s r = Some s' \<Longrightarrow> state_scalar s \<Longrightarrow> scalar_rule r \<Longrightarrow> state_scalar s'"
  using merge_rule_fields(2) [of s r s']
  by (auto simp: state_scalar_def scalar_rule_def combine_def list_all_iff split: option.splits)

lemma combined_types:
  assumes "is_none_or (if n = {} then t else combine (\<inter>) t (Some n)) (\<lambda>t. \<exists>k\<in>t. P k)"
  shows "is_none_or t (\<lambda>t. \<exists>k\<in>t. P k)" "n = {} \<or> (\<exists>k\<in>n. P k)"
  using assms by (auto simp: combine_def split: option.splits if_splits)

lemma combined_enum:
  assumes "is_none_or (if n = [] then e else combine (\<lambda>xs ys. filter (\<lambda>x. list_ex (strict_equal x) ys) xs) e (Some n))
      (list_ex (\<lambda>a. strict_equal a v))"
    and "is_none_or e (list_all is_scalar)" "list_all is_scalar n"
  shows "is_none_or e (list_ex (\<lambda>a. strict_equal a v))" "n = [] \<or> list_ex (\<lambda>a. strict_equal a v) n"
  using assms merged_enum [OF _ assms(3), of _ v] by (auto simp: combine_def split: option.splits if_splits)

lemma merge_rule_accepts:
  assumes "merge_rule s r = Some s'" "state_scalar s" "scalar_rule r" "state_accepts s' v"
  shows "state_accepts s v" "rule_accepts r v"
proof -
  note f = merge_rule_fields [OF assms(1)]
  note a = assms(4) [unfolded state_accepts_def f(1-5) in_range_combine has_children_Un]
  show "state_accepts s v" "rule_accepts r v"
    unfolding state_accepts_def rule_accepts_def
    using a combined_types [where n = "cr_types r" and t = "ms_types s" and P = "\<lambda>k. type_matches k v"]
      combined_enum [where n = "cr_enum_values r" and e = "ms_enum s" and v = v] assms(2,3)
    unfolding state_scalar_def scalar_rule_def by blast+
qed

lemma merge_loop_accepts:
  "\<lbrakk>merge_loop s rs = Some s'; state_scalar s; \<forall>r\<in>set rs. scalar_rule r; state_accepts s' v\<rbrakk> \<Longrightarrow>
   state_accepts s v \<and> (\<forall>r\<in>set rs. rule_accepts r v)"
proof (induction s rs rule: merge_loop.induct)
  case (2 s r rs)
  then obtain t where t: "merge_rule s r = Some t" "merge_loop t rs = Some s'"
    by (auto simp: bind_eq_Some_conv)
  have st: "state_scalar t" using merge_rule_scalar [OF t(1)] 2 by simp
  have "state_accepts t v \<and> (\<forall>r\<in>set rs. rule_accepts r v)"
    using 2(1) [OF t(1) t(2) st] 2(4,5) by auto
  then show ?case using merge_rule_accepts [OF t(1) 2(3)] 2(4) by auto
qed simp

definition constraints_accept :: "EffectiveConstraints \<Rightarrow> Json \<Rightarrow> bool" where
  "constraints_accept c v \<longleftrightarrow>
     (ef_types c = {} \<or> (\<exists>k\<in>ef_types c. type_matches k v)) \<and>
     (ef_enum_values c = [] \<or> list_ex (\<lambda>a. strict_equal a v) (ef_enum_values c)) \<and>
     in_range (ef_minimum c) (ef_maximum c) v \<and> has_children (ef_required_children c) v"

lemma merge_loop_typed:
  "merge_loop s rs = Some s' \<Longrightarrow>
   (ms_types s' = None \<longleftrightarrow> ms_types s = None \<and> (\<forall>r\<in>set rs. cr_types r = {})) \<and>
   (ms_enum s' = None \<longleftrightarrow> ms_enum s = None \<and> (\<forall>r\<in>set rs. cr_enum_values r = []))"
proof (induction s rs rule: merge_loop.induct)
  case (2 s r rs)
  then obtain t where t: "merge_rule s r = Some t" "merge_loop t rs = Some s'"
    by (auto simp: bind_eq_Some_conv)
  show ?case
    using 2(1) [OF t] merge_rule_fields(1,2) [OF t(1)] by (auto simp: combine_def split: option.splits if_splits)
qed simp

definition merge_types :: "MergeState \<Rightarrow> JsonType set" where
  "merge_types s = (case ms_types s of None \<Rightarrow> {} | Some t \<Rightarrow> t)"

definition merge_enum :: "MergeState \<Rightarrow> Json list" where
  "merge_enum s = (case ms_enum s of None \<Rightarrow> [] | Some e \<Rightarrow> e)"

lemma merge_rules_SomeE:
  assumes "merge_rules rs = Some c"
  obtains s where "merge_loop merge_start rs = Some s"
    "\<not> (list_ex (\<lambda>r. cr_types r \<noteq> {}) rs \<and> merge_types s = {})"
    "\<not> (list_ex (\<lambda>r. cr_enum_values r \<noteq> []) rs \<and> merge_enum s = [])"
    "c = \<lparr>ef_action = (case ms_action s of None \<Rightarrow> Allowed | Some a \<Rightarrow> a),
          ef_types = merge_types s, ef_enum_values = merge_enum s, ef_minimum = ms_minimum s, ef_maximum = ms_maximum s,
          ef_exclusive_maximum_path = ms_exclusive s, ef_required_children = ms_children s\<rparr>"
proof -
  obtain s where s: "merge_loop merge_start rs = Some s"
    using assms unfolding merge_rules_def bind_eq_Some_conv by blast
  show ?thesis
    using assms that [OF s] unfolding merge_rules_def s bind.bind_lunit Let_def
      merge_types_def [symmetric] merge_enum_def [symmetric]
    by (metis (no_types, lifting) option.distinct(1) option.inject)
qed

text \<open>The constraints of a merge are at least as strict as every rule merged.\<close>

lemma merge_rules_accept:
  assumes "merge_rules rs = Some c" "\<forall>r\<in>set rs. scalar_rule r" "constraints_accept c v" "r \<in> set rs"
  shows "rule_accepts r v"
proof -
  obtain s where s: "merge_loop merge_start rs = Some s"
    and ok: "\<not> (list_ex (\<lambda>r. cr_types r \<noteq> {}) rs \<and> merge_types s = {})"
      "\<not> (list_ex (\<lambda>r. cr_enum_values r \<noteq> []) rs \<and> merge_enum s = [])"
    and c: "c = \<lparr>ef_action = (case ms_action s of None \<Rightarrow> Allowed | Some a \<Rightarrow> a),
          ef_types = merge_types s, ef_enum_values = merge_enum s, ef_minimum = ms_minimum s, ef_maximum = ms_maximum s,
          ef_exclusive_maximum_path = ms_exclusive s, ef_required_children = ms_children s\<rparr>"
    using assms(1) by (rule merge_rules_SomeE)
  note typed = merge_loop_typed [OF s]
  have "is_none_or (ms_types s) (\<lambda>t. \<exists>k\<in>t. type_matches k v)" "is_none_or (ms_enum s) (list_ex (\<lambda>a. strict_equal a v))"
    using assms(3) ok typed unfolding constraints_accept_def c merge_types_def merge_enum_def
    by (cases "ms_types s"; cases "ms_enum s"; auto simp: merge_start_def list_ex_iff)+
  then have "state_accepts s v" using assms(3) by (simp add: state_accepts_def constraints_accept_def c)
  then show ?thesis
    using merge_loop_accepts [OF s] assms(2,4) by (auto simp: state_scalar_def merge_start_def)
qed

text \<open>The action of a merge: forbidden when a rule forbids, else required when a rule requires.\<close>

lemma merge_action_cases:
  "merge_action a b = Some c \<Longrightarrow> (c = Forbidden \<longleftrightarrow> a = Forbidden) \<and> (c = Forbidden \<longleftrightarrow> b = Forbidden) \<and>
     (c = Required \<longleftrightarrow> a = Required \<or> b = Required)"
  by (cases a; cases b) auto

lemma merge_loop_action:
  "\<lbrakk>merge_loop s rs = Some s'; ms_action s = Some a\<rbrakk> \<Longrightarrow>
   \<exists>b. ms_action s' = Some b \<and> (b = Forbidden \<longleftrightarrow> a = Forbidden) \<and> (\<forall>r\<in>set rs. b = Forbidden \<longleftrightarrow> cr_action r = Forbidden) \<and>
     (b = Required \<longleftrightarrow> a = Required \<or> (\<exists>r\<in>set rs. cr_action r = Required))"
proof (induction s rs arbitrary: a rule: merge_loop.induct)
  case (2 s r rs)
  then obtain t where t: "merge_rule s r = Some t" "merge_loop t rs = Some s'"
    by (auto simp: bind_eq_Some_conv)
  obtain b where b: "ms_action t = Some b" "merge_action a (cr_action r) = Some b"
    using merge_rule_fields(7,8) [OF t(1)] 2(3) by auto
  show ?case using 2(1) [OF t b(1)] merge_action_cases [OF b(2)] by auto
qed simp

lemma merge_rules_action:
  assumes "merge_rules rs = Some c" "r \<in> set rs"
  shows "cr_action r = Forbidden \<Longrightarrow> ef_action c = Forbidden" "cr_action r = Required \<Longrightarrow> ef_action c = Required"
proof -
  obtain s where s: "merge_loop merge_start rs = Some s" "ef_action c = (case ms_action s of None \<Rightarrow> Allowed | Some a \<Rightarrow> a)"
    using assms(1) by (rule merge_rules_SomeE) simp
  obtain r0 rs' where rs: "rs = r0 # rs'" using assms(2) by (cases rs) auto
  then obtain t where t: "merge_rule merge_start r0 = Some t" "merge_loop t rs' = Some s"
    using s(1) by (auto simp: bind_eq_Some_conv)
  have "ms_action t = Some (cr_action r0)" using merge_rule_fields(7) [OF t(1)] by (simp add: merge_start_def)
  from merge_loop_action [OF t(2) this] s(2) assms(2) rs
  show "cr_action r = Forbidden \<Longrightarrow> ef_action c = Forbidden" "cr_action r = Required \<Longrightarrow> ef_action c = Required"
    by auto
qed

lemma merge_loop_exclusive:
  "merge_loop s rs = Some s' \<Longrightarrow> is_none_or (ms_exclusive s) (\<lambda>p. ms_exclusive s' = Some p) \<and>
     (\<forall>r\<in>set rs. is_none_or (cr_exclusive_maximum_path r) (\<lambda>p. ms_exclusive s' = Some p))"
proof (induction s rs rule: merge_loop.induct)
  case (1 s)
  then show ?case by (auto split: option.splits)
next
  case (2 s r rs)
  then obtain t where t: "merge_rule s r = Some t" "merge_loop t rs = Some s'"
    by (auto simp: bind_eq_Some_conv)
  show ?case using 2(1) [OF t] merge_rule_fields(6,9) [OF t(1)] by (auto split: option.splits)
qed

lemma merge_rules_exclusive:
  assumes "merge_rules rs = Some c" "r \<in> set rs" "cr_exclusive_maximum_path r = Some p"
  shows "ef_exclusive_maximum_path c = Some p"
  using assms(1)
  by (rule merge_rules_SomeE) (use merge_loop_exclusive [of merge_start rs] assms(2,3) in fastforce)

subsection \<open>Validation\<close>

text \<open>What it means for the values at a rule's path to conform to the rule.\<close>

definition below_limit :: "CapabilityRule \<Rightarrow> Json \<Rightarrow> Json \<Rightarrow> EvaluationContext \<Rightarrow> bool" where
  "below_limit r v tree ctx \<longleftrightarrow>
     (case (cr_exclusive_maximum_path r, as_f64 v) of
        (Some p, Some x) \<Rightarrow>
          (case expand_path p tree ctx of
             Inl _ \<Rightarrow> False
           | Inr rel \<Rightarrow> length rel \<le> 1 \<and> list_all (\<lambda>l. is_none_or (as_f64 l) (f64_lt x)) rel)
      | _ \<Rightarrow> True)"

definition conforms :: "CapabilityRule \<Rightarrow> Json \<Rightarrow> EvaluationContext \<Rightarrow> bool" where
  "conforms r tree ctx \<longleftrightarrow>
     (case expand_path (cr_path r) tree ctx of
        Inl _ \<Rightarrow> False
      | Inr vs \<Rightarrow>
          (case cr_action r of
             Required \<Rightarrow> vs \<noteq> [] \<and> list_all (\<lambda>v. rule_accepts r v \<and> below_limit r v tree ctx) vs
           | Allowed \<Rightarrow> list_all (\<lambda>v. rule_accepts r v \<and> below_limit r v tree ctx) vs
           | Forbidden \<Rightarrow> vs = []))"

lemma codes_Nil:
  "(if t then Inr [x] else case e of Inl err \<Rightarrow> Inl err
     | Inr ex \<Rightarrow> Inr ((if a then [y] else []) @ (if b then [z] else []) @ ex @ (if d then [w] else []))) = Inr [] \<longleftrightarrow>
   \<not> t \<and> e = Inr [] \<and> \<not> a \<and> \<not> b \<and> \<not> d"
  by (cases e) auto

lemma value_codes_Nil:
  assumes "value_codes c v tree ctx = Inr []"
  shows "constraints_accept c v" "exclusive_diagnostics c v tree ctx = Inr []"
proof -
  note n = assms [unfolded value_codes_def codes_Nil]
  then show "exclusive_diagnostics c v tree ctx = Inr []" by blast
  have "in_range (ef_minimum c) (ef_maximum c) v"
    using n unfolding in_range_def by (cases "as_f64 v"; cases "ef_minimum c"; cases "ef_maximum c") auto
  moreover have "has_children (ef_required_children c) v"
    using n unfolding has_children_def by (cases "as_object v") auto
  ultimately show "constraints_accept c v" using n by (auto simp: constraints_accept_def)
qed

lemma values_codes_Nil: "values_codes c vs tree ctx = Inr [] \<Longrightarrow> \<forall>v\<in>set vs. value_codes c v tree ctx = Inr []"
proof (induction vs)
  case (Cons v vs)
  then obtain a where a: "value_codes c v tree ctx = Inr a" by (auto split: sum.splits)
  then obtain b where "values_codes c vs tree ctx = Inr b"
    using Cons.prems by (cases "values_codes c vs tree ctx") auto
  then show ?case using Cons a by auto
qed simp

lemma exclusive_below:
  assumes "exclusive_diagnostics c v tree ctx = Inr []"
    and "cr_exclusive_maximum_path r = None \<or> cr_exclusive_maximum_path r = ef_exclusive_maximum_path c"
  shows "below_limit r v tree ctx"
proof (cases "cr_exclusive_maximum_path r")
  case (Some p)
  then have c: "ef_exclusive_maximum_path c = Some p" using assms(2) by auto
  show ?thesis
  proof (cases "as_f64 v")
    case (Some x)
    with assms(1) c obtain rel where rel: "expand_path p tree ctx = Inr rel" "\<not> 1 < length rel"
      "(case rel of [] \<Rightarrow> [] | r # _ \<Rightarrow> if is_some_and (as_f64 r) (\<lambda>mx. f64_le mx x) then [''exclusive_maximum''] else []) = []"
      by (auto simp: exclusive_diagnostics_def split: sum.splits if_splits)
    then have "list_all (\<lambda>l. is_none_or (as_f64 l) (f64_lt x)) rel"
      by (cases rel) (auto simp: f64_lt_def f64_le_def split: option.splits if_splits)
    then show ?thesis using Some \<open>cr_exclusive_maximum_path r = Some p\<close> rel(1,2) by (simp add: below_limit_def)
  qed (simp add: below_limit_def split: option.splits)
qed (simp add: below_limit_def)

lemma path_codes_conform:
  assumes "path_codes rs path tree ctx True = Inr []" "r \<in> set rs" "cr_path r = path" "\<forall>r\<in>set rs. scalar_rule r"
  shows "conforms r tree ctx"
proof -
  obtain c vs where c: "merge_rules rs = Some c" and vs: "expand_path path tree ctx = Inr vs"
    and codes: "(if vs = [] then Inr (if ef_action c = Required then [''required''] else [])
      else if ef_action c = Forbidden then Inr [''forbidden''] else values_codes c vs tree ctx) = Inr []"
  proof -
    from assms(1) obtain c where c: "merge_rules rs = Some c" by (cases "merge_rules rs") (auto simp: path_codes_def)
    with assms(1) obtain vs where vs: "expand_path path tree ctx = Inr vs"
      by (cases "expand_path path tree ctx") (auto simp: path_codes_def)
    show ?thesis using that [OF c vs] assms(1) unfolding path_codes_def c vs option.case sum.case simp_thms by blast
  qed
  note act = merge_rules_action [OF c assms(2)]
  show ?thesis
  proof (cases "vs = []")
    case True
    then show ?thesis using codes act assms(3) vs by (cases "cr_action r") (auto simp: conforms_def split: if_splits)
  next
    case False
    then have "ef_action c \<noteq> Forbidden" "values_codes c vs tree ctx = Inr []" using codes by (auto split: if_splits)
    then have "rule_accepts r v \<and> below_limit r v tree ctx" if "v \<in> set vs" for v
      using that values_codes_Nil [of c vs tree ctx] value_codes_Nil [of c v tree ctx]
        merge_rules_accept [OF c assms(4) _ assms(2)] exclusive_below [of c v tree ctx r]
        merge_rules_exclusive [OF c assms(2)] by (cases "cr_exclusive_maximum_path r") auto
    then show ?thesis
      using False act(1) \<open>ef_action c \<noteq> Forbidden\<close> assms(3) vs
      by (cases "cr_action r") (auto simp: conforms_def list_all_iff)
  qed
qed

lemma group_diagnostics_Nil:
  "group_diagnostics gs tree ctx f = Inr [] \<Longrightarrow> \<forall>g\<in>set gs. path_codes (snd g) (fst g) tree ctx f = Inr []"
proof (induction gs)
  case (Cons g gs)
  obtain p rs where g: "g = (p, rs)" by (cases g)
  with Cons.prems obtain a where a: "path_codes rs p tree ctx f = Inr a" by (auto split: sum.splits)
  then obtain b where "group_diagnostics gs tree ctx f = Inr b"
    using Cons.prems g by (cases "group_diagnostics gs tree ctx f") auto
  then show ?case using Cons a g by auto
qed simp

text \<open>The groups of active rules: each under its own path, every active rule in one of them.\<close>

definition groups_ok :: "(string, CapabilityRule list) btree \<Rightarrow> bool" where
  "groups_ok g \<longleftrightarrow> bt_wf g \<and> (\<forall>p rs. bt_get g p = Some rs \<longrightarrow> (\<forall>r\<in>set rs. cr_path r = p \<and> scalar_rule r))"

lemma group_insert_ok: "groups_ok g \<Longrightarrow> scalar_rule r \<Longrightarrow> groups_ok (group_insert r g)"
  by (cases "bt_get g (cr_path r)") (auto simp: groups_ok_def group_insert_def)

definition grouped :: "CapabilityRule \<Rightarrow> (string, CapabilityRule list) btree \<Rightarrow> bool" where
  "grouped r g \<longleftrightarrow> (\<exists>rs. bt_get g (cr_path r) = Some rs \<and> r \<in> set rs)"

lemma group_insert_grouped: "grouped r (group_insert r g)" "grouped r' g \<Longrightarrow> grouped r' (group_insert r g)"
  by (auto simp: grouped_def group_insert_def split: option.splits)

lemma active_rules_groups:
  "\<lbrakk>active_rules rs tree ctx g = Inr g'; groups_ok g; \<forall>r\<in>set rs. scalar_rule r\<rbrakk> \<Longrightarrow>
   groups_ok g' \<and> (\<forall>r. grouped r g \<longrightarrow> grouped r g') \<and>
   (\<forall>r\<in>set rs. condition_matches (cr_when r) tree ctx = Inr True \<longrightarrow> grouped r g')"
proof (induction rs arbitrary: g)
  case (Cons r rs)
  then obtain b where b: "condition_matches (cr_when r) tree ctx = Inr b"
    "active_rules rs tree ctx (if b then group_insert r g else g) = Inr g'"
    by (auto split: sum.splits)
  have "groups_ok (if b then group_insert r g else g)" using Cons.prems group_insert_ok by auto
  from Cons.IH [OF b(2) this] Cons.prems(3) b(1) group_insert_grouped show ?case
    by (cases b) auto
qed simp

lemma validate_all_Inr: "validate_all f xs = Inr u \<longleftrightarrow> (\<forall>x\<in>set xs. f x = Inr ())"
  by (induction xs) (auto split: sum.splits)

lemma validate_rule_scalar: "validate_rule r = Inr u \<Longrightarrow> scalar_rule r"
  by (auto simp: validate_rule_def scalar_rule_def split: sum.splits if_splits)

lemma compile_scalar:
  assumes "compile_capability i model rules = Inr snapshot"
  shows "set (cs_rules snapshot) = set rules" "\<forall>r\<in>set rules. scalar_rule r"
proof -
  have "validate_all validate_rule rules = Inr ()"
    using assms by (auto simp: compile_capability_def split: if_splits sum.splits)
  then show "\<forall>r\<in>set rules. scalar_rule r" using validate_rule_scalar by (simp add: validate_all_Inr)
  show "set (cs_rules snapshot) = set rules"
    using assms by (auto simp: compile_capability_def Let_def split: if_splits sum.splits)
qed

lemma validated_conforms:
  assumes "compile_capability i model rules = Inr snapshot"
    and "validate_capability snapshot tree ctx True = Inr []"
    and "r \<in> set rules" "condition_matches (cr_when r) tree ctx = Inr True"
  shows "conforms r tree ctx"
proof -
  note sc = compile_scalar [OF assms(1)]
  obtain g where g: "active_rules (cs_rules snapshot) tree ctx [] = Inr g"
    using assms(2) by (cases "active_rules (cs_rules snapshot) tree ctx []") (auto simp: validate_capability_def)
  have "map_sum id (\<lambda>ds. remdups_adj (sort ds)) (group_diagnostics g tree ctx True) = Inr []"
    using assms(2) unfolding validate_capability_def g sum.case .
  then obtain ds where ds: "group_diagnostics g tree ctx True = Inr ds" "remdups_adj (sort ds) = []"
    by (cases "group_diagnostics g tree ctx True") simp_all
  have "length (sort ds) = 0" using ds(2) by (simp only: remdups_adj_Nil_iff list.size)
  then have "ds = []" by (simp only: length_sort length_0_conv)
  with ds(1) have nil: "\<forall>x\<in>set g. path_codes (snd x) (fst x) tree ctx True = Inr []"
    using group_diagnostics_Nil by blast
  have "groups_ok g \<and> (\<forall>r\<in>set (cs_rules snapshot). condition_matches (cr_when r) tree ctx = Inr True \<longrightarrow> grouped r g)"
    using active_rules_groups [OF g] sc by (simp add: groups_ok_def)
  then have ok: "groups_ok g" and "grouped r g" using assms(3,4) sc(1) by blast+
  then obtain rs where rs0: "bt_get g (cr_path r) = Some rs" "r \<in> set rs" unfolding grouped_def by blast
  then obtain rs where rs: "bt_get g (cr_path r) = Some rs" "r \<in> set rs" "\<forall>r\<in>set rs. scalar_rule r"
    using ok unfolding groups_ok_def by blast
  then have "(cr_path r, rs) \<in> set g" by (simp add: map_of_SomeD)
  then have "path_codes rs (cr_path r) tree ctx True = Inr []" using nil by (metis fst_conv snd_conv)
  then show ?thesis using rs(2) refl rs(3) by (rule path_codes_conform)
qed

text \<open>C17. A request that a compiled capability passes in the final pass without a diagnostic conforms to every
  published rule whose condition holds for it, although rules of one path are merged before they are
  applied: what is required is there, what is forbidden is not, and every value at the path has an allowed
  type and value, lies in the range, stays below the value at the relative limit and has the required
  members.
\<close>

theorem validated_request_conforms:
  assumes "compile_capability i model rules = Inr snapshot"
    and "validate_capability snapshot tree ctx True = Inr []"
    and "r \<in> set rules" "condition_matches (cr_when r) tree ctx = Inr True"
  shows "conforms r tree ctx"
  using assms by (rule validated_conforms)

definition sample_rule :: "JsonType set \<Rightarrow> CapabilityRule" where
  "sample_rule types = \<lparr>cr_id = ''r'', cr_path = ''body:/a'', cr_action = Required, cr_types = types, cr_enum_values = [],
     cr_minimum = None, cr_maximum = None, cr_exclusive_maximum_path = None, cr_required_children = {}, cr_when = Always\<rparr>"

definition sample_context :: EvaluationContext where
  "sample_context = \<lparr>ec_headers = [], ec_request = []\<rparr>"

lemma sample_merge:
  "merge_rules [sample_rule {TInteger}] = Some
     \<lparr>ef_action = Required, ef_types = {TInteger}, ef_enum_values = [], ef_minimum = None, ef_maximum = None,
      ef_exclusive_maximum_path = None, ef_required_children = {}\<rparr>"
  by (simp add: merge_rules_def merge_rule_def merge_start_def sample_rule_def combine_def)

lemma sample_expand: "expand_path ''body:/a'' (JObject [(''a'', JU64 5)]) sample_context = Inr [JU64 5]"
  by (simp add: expand_path_def strip_prefix_def starts_with_def unescape_token_def replace_absent MAX_PATH_EXPANSIONS_def)

lemma sample_compile:
  "compile_capability ''c'' ''m'' [sample_rule {TInteger}] =
     Inr \<lparr>cs_id = ''c'', cs_model_id = ''m'', cs_rules = [sample_rule {TInteger}]\<rparr>"
proof -
  have "validate_rule (sample_rule {TInteger}) = Inr ()"
    by (simp add: validate_rule_def sample_rule_def validate_path_def strip_prefix_def starts_with_def MAX_WILDCARDS_def
        validate_condition_def MAX_CONDITION_DEPTH_def MAX_CONDITION_NODES_def)
  moreover have "validate_unconditional_intersections [sample_rule {TInteger}] = Inr ()"
    using sample_merge by (simp add: validate_unconditional_intersections_def group_insert_def sample_rule_def)
  moreover have "cr_id (sample_rule {TInteger}) \<noteq> []" by (simp add: sample_rule_def)
  ultimately show ?thesis by (simp add: compile_capability_def)
qed

lemma sample_validate:
  "validate_capability \<lparr>cs_id = ''c'', cs_model_id = ''m'', cs_rules = [sample_rule {TInteger}]\<rparr>
     (JObject [(''a'', JU64 5)]) sample_context True = Inr []"
proof -
  have "active_rules [sample_rule {TInteger}] (JObject [(''a'', JU64 5)]) sample_context [] =
      Inr [(''body:/a'', [sample_rule {TInteger}])]"
    by (simp add: sample_rule_def group_insert_def)
  then show ?thesis
    by (simp add: validate_capability_def path_codes_def sample_merge sample_expand value_codes_def exclusive_diagnostics_def)
qed

theorem validated_request_conforms_witness:
  "conforms (sample_rule {TInteger}) (JObject [(''a'', JU64 5)]) sample_context"
proof (rule validated_request_conforms [OF sample_compile sample_validate])
  show "condition_matches (cr_when (sample_rule {TInteger})) (JObject [(''a'', JU64 5)]) sample_context = Inr True"
    by (simp add: sample_rule_def)
qed simp

text \<open>The converse fails for types: they are intersected by name, although an integer is a number too. Two
  rules that both accept an integer may merge into constraints that refuse it.
\<close>

lemma merged_types_lose_integers:
  "rule_accepts (sample_rule {TInteger, TString}) (JU64 5) \<and> rule_accepts (sample_rule {TNumber, TString}) (JU64 5) \<and>
   map_option ef_types (merge_rules [sample_rule {TInteger, TString}, sample_rule {TNumber, TString}]) = Some {TString}"
  by (simp add: rule_accepts_def sample_rule_def in_range_def has_children_def merge_rules_def merge_rule_def
      merge_start_def combine_def)

end
