(* ===== verification/Policy_Properties.thy ===== *)
theory Policy_Properties
  imports Policy_Engine Capability_Properties
begin

text \<open>
  What the request policy guarantees: rules cannot reach the model or the messages, the group's enforcement
  has the last word on the \<^verbatim>\<open>system\<close> value, and the bytes that are replayed are the client's own unless a change
  is recorded.
\<close>

subsection \<open>Rule order\<close>

lemma mset_layered: "mset (map snd (layered layers)) = mset (concat layers)"
proof -
  have "map snd (concat (map (\<lambda>(layer, rules). map (Pair layer) rules) (enumerate n layers))) = concat layers" for n
    by (induction layers arbitrary: n) (auto simp: comp_def)
  then show ?thesis by (simp add: layered_def)
qed

text \<open>A compiled rule set holds every rule of every layer once, ordered by phase, then layer, then identifier.
\<close>

lemma compiled_rules_ordered:
  assumes "compile_layers i layers = Inr rs"
  obtains order where "crs_rules rs = map snd order" "sorted (map rule_key order)" "mset (crs_rules rs) = mset (concat layers)"
proof -
  have "crs_rules rs = map snd (sort_key rule_key (layered layers))"
    using assms by (auto simp: compile_layers_def split: if_splits sum.splits)
  moreover have "mset (map snd (sort_key rule_key (layered layers))) = mset (concat layers)"
    using mset_layered by (metis mset_map mset_sort)
  ultimately show ?thesis using that by simp
qed

subsection \<open>Protected members\<close>

text \<open>A request object whose keys are distinct and whose protected members are given.\<close>

definition protects :: "Json option \<Rightarrow> Json option \<Rightarrow> Json \<Rightarrow> bool" where
  "protects model messages tree \<longleftrightarrow>
     (\<exists>m. tree = JObject m \<and> distinct (map fst m) \<and> map_of m ''model'' = model \<and> map_of m ''messages'' = messages)"

lemma protects_insert: "protects a b (JObject m) \<Longrightarrow> k \<noteq> ''model'' \<Longrightarrow> k \<noteq> ''messages'' \<Longrightarrow> protects a b (JObject (obj_insert k v m))"
  by (auto simp: protects_def distinct_obj_insert)

lemma protects_remove: "protects a b (JObject m) \<Longrightarrow> k \<noteq> ''model'' \<Longrightarrow> k \<noteq> ''messages'' \<Longrightarrow> protects a b (JObject (obj_remove k m))"
  by (auto simp: protects_def distinct_obj_remove map_of_obj_remove_other)

lemma first_segment: "split_on c s = t # ts \<Longrightarrow> s = t \<or> starts_with (t @ [c]) s"
proof (induction s arbitrary: t ts)
  case (Cons a s)
  then show ?case
    using split_on_nonempty [of c s] by (cases "split_on c s") (auto split: if_splits)
qed auto

text \<open>The first token of an accepted path is neither of the protected names.\<close>

lemma mutation_path_shape:
  assumes "validate_mutation_path (''body:'' @ p) = Inr ()"
  shows "\<exists>q. p = CHR ''/'' # q" "p \<noteq> ''/model''" "\<not> starts_with ''/model/'' p"
    "p \<noteq> ''/messages''" "\<not> starts_with ''/messages/'' p"
proof -
  have "strip_prefix ''body:'' (''body:'' @ p) = Some p" unfolding strip_prefix_Some by simp
  with assms have n: "starts_with ''/'' p" "p \<noteq> ''/model''" "\<not> starts_with ''/model/'' p"
    "p \<noteq> ''/messages''" "\<not> starts_with ''/messages/'' p"
    unfolding validate_mutation_path_def by (auto simp del: starts_with_Cons split: if_splits)
  show "\<exists>q. p = CHR ''/'' # q" using n(1) by (cases p) auto
  show "p \<noteq> ''/model''" "\<not> starts_with ''/model/'' p" "p \<noteq> ''/messages''" "\<not> starts_with ''/messages/'' p"
    by (fact n)+
qed

lemma plain_names: "CHR ''~'' \<notin> set ''model''" "CHR ''/'' \<notin> set ''model''" "CHR ''~'' \<notin> set ''messages''"
    "CHR ''/'' \<notin> set ''messages''"
  by simp_all

lemma rsplit_once_Some: "rsplit_once c s = Some (a, b) \<Longrightarrow> s = a @ c # b \<and> c \<notin> set b"
  by (auto simp: rsplit_once_def split_once_Some) (metis append.assoc append_Cons append_Nil rev.simps(2) rev_append rev_rev_ident)

text \<open>The place of an accepted path is a member behind another name.\<close>

lemma mutation_path_target:
  assumes v: "validate_mutation_path (''body:'' @ p) = Inr ()" and s: "split_pointer p = Inr (parent, leaf)"
  shows "parent = [] \<Longrightarrow> leaf \<noteq> ''model'' \<and> leaf \<noteq> ''messages''"
    "parent \<noteq> [] \<Longrightarrow> \<exists>t ts. pointer_tokens parent = Some (t # ts) \<and> t \<noteq> ''model'' \<and> t \<noteq> ''messages''"
proof -
  note shape = mutation_path_shape [OF v]
  obtain raw where raw: "p = parent @ CHR ''/'' # raw" "leaf = unescape_token raw"
    using s by (auto simp: split_pointer_def Let_def dest: rsplit_once_Some split: option.splits if_splits)
  show "leaf \<noteq> ''model'' \<and> leaf \<noteq> ''messages''" if "parent = []"
    using that raw shape(2,4) unescape_plain [OF plain_names(1,2), of raw] unescape_plain [OF plain_names(3,4), of raw] by auto
  assume ne: "parent \<noteq> []"
  then obtain q where q: "parent = CHR ''/'' # q" using raw(1) shape(1) by (cases parent) auto
  obtain t ts where t: "split_on CHR ''/'' q = t # ts" using split_on_nonempty [of "CHR ''/''" q] by (cases "split_on CHR ''/'' q") auto
  have tok: "pointer_tokens parent = Some (unescape_token t # map unescape_token ts)"
    using q t by (simp add: pointer_tokens_def)
  have "t \<noteq> n" if "\<not> starts_with (CHR ''/'' # n @ ''/'') p" for n
  proof
    assume "t = n"
    then have "starts_with (n @ ''/'') (q @ CHR ''/'' # raw)"
      using first_segment [OF t] by (auto simp: starts_with_iff)
    then show False using that raw(1) q by simp
  qed
  from this [of "''model''"] this [of "''messages''"] shape(3,5)
  have "t \<noteq> ''model''" "t \<noteq> ''messages''" by simp_all
  then show "\<exists>t ts. pointer_tokens parent = Some (t # ts) \<and> t \<noteq> ''model'' \<and> t \<noteq> ''messages''"
    using tok unescape_plain [OF plain_names(1,2), of t] unescape_plain [OF plain_names(3,4), of t] by auto
qed

lemma update_at_object:
  assumes "update_at (t # ts) f (JObject m) = Some (Inr v)"
  obtains c where "v = JObject (obj_insert t c m)"
proof -
  obtain c where "v = json_set_child t c (JObject m)"
    using assms by (auto split: option.splits) (metis (no_types, lifting) map_sum.simps obj_sumE sum.distinct(1) sum.inject(2))
  then show ?thesis using that by (simp add: json_set_child_def)
qed

lemma at_parent_protects:
  assumes "validate_mutation_path (''body:'' @ p) = Inr ()" "at_parent f missing tree p = Inr tree'" "protects a b tree"
    and "\<And>leaf m v. \<lbrakk>protects a b (JObject m); leaf \<noteq> ''model''; leaf \<noteq> ''messages''; f leaf (JObject m) = Inr v\<rbrakk> \<Longrightarrow> protects a b v"
    and "\<And>v. missing = Inr v \<Longrightarrow> protects a b v"
  shows "protects a b tree'"
proof -
  obtain m where m: "tree = JObject m" using assms(3) by (auto simp: protects_def)
  obtain parent leaf where s: "split_pointer p = Inr (parent, leaf)"
    using assms(2) by (cases "split_pointer p") (auto simp: at_parent_def)
  note target = mutation_path_target [OF assms(1) s]
  show ?thesis
  proof (cases "parent = []")
    case True
    then show ?thesis using assms(2,3,4) s target(1) m by (auto simp: at_parent_def)
  next
    case False
    then obtain t ts where t: "pointer_tokens parent = Some (t # ts)" "t \<noteq> ''model''" "t \<noteq> ''messages''"
      using target(2) by blast
    show ?thesis
    proof (cases "update_at (t # ts) (f leaf) tree")
      case None
      then show ?thesis using assms(2,5) s False t(1) by (simp add: at_parent_def del: update_at.simps)
    next
      case (Some r)
      then have "r = Inr tree'" using assms(2) s False t(1) by (simp add: at_parent_def del: update_at.simps)
      with Some m obtain c where "tree' = JObject (obj_insert t c m)" using update_at_object by metis
      then show ?thesis using protects_insert assms(3) m t(2,3) by blast
    qed
  qed
qed

lemma set_pointer_protects:
  "\<lbrakk>validate_mutation_path (''body:'' @ p) = Inr (); set_pointer tree p v = Inr tree'; protects a b tree\<rbrakk> \<Longrightarrow> protects a b tree'"
  unfolding set_pointer_def
  by (rule at_parent_protects) (auto simp: set_leaf_def protects_insert)

lemma remove_pointer_protects:
  "\<lbrakk>validate_mutation_path (''body:'' @ p) = Inr (); remove_pointer tree p = Inr tree'; protects a b tree\<rbrakk> \<Longrightarrow> protects a b tree'"
  unfolding remove_pointer_def
  by (rule at_parent_protects) (auto simp: remove_leaf_def protects_remove)

definition reaches_no_protected :: "RuleDefinition \<Rightarrow> bool" where
  "reaches_no_protected r \<longleftrightarrow> validate_mutation_path (action_path (rd_action r)) = Inr ()"

lemma run_action_protects:
  assumes "validate_mutation_path (''body:'' @ p) = Inr ()" "run_action action before p tree = Inr tree'" "protects a b tree"
  shows "protects a b tree'"
  using assms set_pointer_protects [OF assms(1) _ assms(3)] remove_pointer_protects [OF assms(1) _ assms(3)]
  by (auto simp: run_action_def Let_def split: RuleAction.splits option.splits if_splits)

lemma apply_rule_protects:
  assumes "reaches_no_protected r" "apply_rule cx r ctx (tree, cs) = Inr (tree', cs')" "protects a b tree"
  shows "protects a b tree'"
proof (cases "condition_matches (rd_when r) tree ctx = Inr True")
  case True
  obtain p where p: "strip_prefix ''body:'' (action_path (rd_action r)) = Some p"
    using assms(1) by (cases "strip_prefix ''body:'' (action_path (rd_action r))")
      (auto simp: reaches_no_protected_def validate_mutation_path_def)
  then have v: "validate_mutation_path (''body:'' @ p) = Inr ()"
    using assms(1) by (simp add: reaches_no_protected_def strip_prefix_Some)
  have "run_action (rd_action r) (value_pointer p tree) p tree = Inr tree'"
    using assms(2) True p by (auto simp: apply_rule_def Let_def split: sum.splits)
  then show ?thesis using run_action_protects [OF v] assms(3) by blast
next
  case False
  then show ?thesis using assms(2,3) by (auto simp: apply_rule_def split: sum.splits if_splits)
qed

lemma apply_rules_protects:
  "\<lbrakk>\<forall>r\<in>set rs. reaches_no_protected r; apply_rules cx rs ctx (tree, cs) = Inr (tree', cs'); protects a b tree\<rbrakk> \<Longrightarrow>
   protects a b tree'"
proof (induction rs arbitrary: tree cs)
  case (Cons r rs)
  then obtain t c where "apply_rule cx r ctx (tree, cs) = Inr (t, c)" "apply_rules cx rs ctx (t, c) = Inr (tree', cs')"
    by (auto split: sum.splits)
  then show ?case using Cons apply_rule_protects by (metis list.set_intros)
qed simp

lemma compiled_reach_no_protected:
  assumes "compile_layers i layers = Inr rs"
  shows "\<forall>r\<in>set (crs_rules rs). reaches_no_protected r"
proof -
  have v: "validate_all validate_definition (map snd (layered layers)) = Inr ()"
    and r: "crs_rules rs = map snd (sort_key rule_key (layered layers))"
    using assms by (auto simp: compile_layers_def split: if_splits sum.splits)
  have "reaches_no_protected r" if "validate_definition r = Inr ()" for r
    using that by (auto simp: validate_definition_def reaches_no_protected_def split: sum.splits)
  then show ?thesis using v r by (auto simp: validate_all_Inr)
qed

subsection \<open>Enforcement\<close>

lemma split_system: "split_pointer ''/system'' = Inr ([], ''system'')"
  by (simp add: split_pointer_def rsplit_once_def unescape_token_def replace_absent)

lemma set_system: "set_pointer (JObject m) ''/system'' v = Inr (JObject (obj_insert ''system'' v m))"
  by (simp add: set_pointer_def at_parent_def split_system set_leaf_def)

lemma remove_system: "remove_pointer (JObject m) ''/system'' = Inr (JObject (obj_remove ''system'' m))"
  by (simp add: remove_pointer_def at_parent_def split_system remove_leaf_def)

lemma put_system_object:
  assumes "put_system cx current nxt reason (JObject m, cs) = Inr (tree', cs')"
  shows "tree' = JObject (case nxt of Some v \<Rightarrow> obj_insert ''system'' v m | None \<Rightarrow> obj_remove ''system'' m)"
  using assms by (auto simp: put_system_def set_system remove_system Let_def split: option.splits)

lemma put_system_protects:
  "\<lbrakk>put_system cx current nxt reason (tree, cs) = Inr (tree', cs'); protects a b tree\<rbrakk> \<Longrightarrow>
   protects a b tree' \<and> json_get ''system'' tree' = nxt"
proof -
  assume p: "put_system cx current nxt reason (tree, cs) = Inr (tree', cs')" and pr: "protects a b tree"
  then obtain m where m: "tree = JObject m" by (auto simp: protects_def)
  show ?thesis
    using put_system_object [OF p [unfolded m]] pr m protects_insert [of a b m "''system''"] protects_remove [of a b m "''system''"]
    by (auto split: option.splits)
qed

text \<open>What each mode makes of the \<^verbatim>\<open>system\<close> member the rule set left, and the flags it raises.\<close>

definition system_enforced :: "SystemPolicy \<Rightarrow> Json option \<Rightarrow> Json option \<Rightarrow> bool \<Rightarrow> bool \<Rightarrow> bool" where
  "system_enforced sp before after' suppressed pending \<longleftrightarrow>
     (case sp of
        Preserve \<Rightarrow> after' = before \<and> \<not> suppressed \<and> \<not> pending
      | StripClient \<Rightarrow> \<not> suppressed \<and> \<not> pending \<and>
          after' = (case before of
            Some (JArray (b # _)) \<Rightarrow> if is_billing_block b then Some (JArray [remove_point b]) else None
          | _ \<Rightarrow> None)
      | ReplaceSystem _ content \<Rightarrow> \<not> suppressed \<and>
          (if is_empty_replacement content then after' = before \<and> pending
           else \<not> pending \<and> (\<exists>new. after' = Some new \<and> new = fst (replace_system_static (unwrap_or before JNull) content) \<and>
             system_replaced (unwrap_or before JNull) content new))
      | StripAll \<Rightarrow> after' = None \<and> suppressed \<and> \<not> pending)"

lemma strip_client_result:
  "Option.bind before strip_client_system =
     (case before of
        Some (JArray (b # _)) \<Rightarrow> if is_billing_block b then Some (JArray [remove_point b]) else None
      | _ \<Rightarrow> None)"
  by (auto simp: strip_client_system_def Let_def has_billing_first split: option.splits Json.splits list.splits)

lemma map_sum_Inr_iff: "map_sum id f x = Inr y \<longleftrightarrow> (\<exists>z. x = Inr z \<and> y = f z)"
  by (cases x) auto

lemma apply_enforcement_facts:
  assumes "apply_enforcement cx en (tree, cs) = Inr ((tree', cs'), out)" "protects a b tree"
  shows "protects a b tree'"
    "system_enforced (en_system en) (json_get ''system'' tree) (json_get ''system'' tree')
       (eo_attribution_suppressed out) (eo_system_template_pending out)"
proof -
  let ?before = "json_get ''system'' tree"
  have "protects a b tree' \<and> system_enforced (en_system en) ?before (json_get ''system'' tree')
       (eo_attribution_suppressed out) (eo_system_template_pending out)"
  proof (cases "en_system en")
    case Preserve
    then show ?thesis using assms
      by (auto simp: apply_enforcement_def Let_def system_enforced_def outcome_default_def split: if_splits)
  next
    case StripClient
    then have "put_system cx ?before (Option.bind ?before strip_client_system)
        ''system_strip_client'' (tree, cs) = Inr (tree', cs')" "out = outcome_default"
      using assms(1) by (auto simp: apply_enforcement_def Let_def map_sum_Inr_iff split: if_splits)
    from put_system_protects [OF this(1) assms(2)] this(2) StripClient show ?thesis
      unfolding strip_client_result by (simp add: system_enforced_def outcome_default_def)
  next
    case (ReplaceSystem n content)
    show ?thesis
    proof (cases "is_empty_replacement content")
      case True
      then show ?thesis using assms ReplaceSystem
        by (auto simp: apply_enforcement_def Let_def system_enforced_def outcome_default_def split: if_splits)
    next
      case False
      then have "put_system cx ?before (Some (fst (replace_system_static (unwrap_or ?before JNull) content)))
          ''system_replace'' (tree, cs) = Inr (tree', cs')" "out = outcome_default"
        using assms(1) ReplaceSystem by (auto simp: apply_enforcement_def Let_def map_sum_Inr_iff split: if_splits)
      from put_system_protects [OF this(1) assms(2)] this(2) ReplaceSystem False show ?thesis
        by (simp add: system_enforced_def outcome_default_def replace_system_replaced)
    qed
  next
    case StripAll
    then have "put_system cx ?before None ''system_strip_all'' (tree, cs) = Inr (tree', cs')"
      "out = outcome_default\<lparr>eo_attribution_suppressed := True\<rparr>"
      using assms(1) by (auto simp: apply_enforcement_def Let_def map_sum_Inr_iff split: if_splits)
    from put_system_protects [OF this(1) assms(2)] this(2) StripAll show ?thesis
      by (simp add: system_enforced_def outcome_default_def)
  qed
  then show "protects a b tree'" "system_enforced (en_system en) ?before (json_get ''system'' tree')
       (eo_attribution_suppressed out) (eo_system_template_pending out)" by blast+
qed

subsection \<open>The canonical order\<close>

definition canon_member :: "Json \<Rightarrow> string \<times> Json \<Rightarrow> (string \<times> Json) list" where
  "canon_member system p =
     (if fst p = ''system'' then [] else if fst p = ''messages'' then [(''system'', system), p] else [p])"

lemma obj_insert_append: "k \<notin> fst ` set m \<Longrightarrow> obj_insert k v m = m @ [(k, v)]"
  by (induction m) (auto split: if_splits)

lemma reorder_members_eq:
  "\<lbrakk>distinct (map fst m); fst ` set out \<inter> fst ` set m \<subseteq> {''system''};
    ''messages'' \<in> fst ` set m \<Longrightarrow> ''system'' \<notin> fst ` set out\<rbrakk> \<Longrightarrow>
   reorder_members system m out = out @ concat (map (canon_member system) m)"
proof (induction system m out rule: reorder_members.induct)
  case (2 system k v m out)
  let ?o1 = "if k = ''messages'' then obj_insert ''system'' system out else out"
  let ?o2 = "if k \<noteq> ''system'' then obj_insert k v ?o1 else ?o1"
  have o1: "?o1 = (if k = ''messages'' then out @ [(''system'', system)] else out)"
    using 2(4) obj_insert_append [of "''system''" out system] by auto
  have "k \<notin> fst ` set out" if "k \<noteq> ''system''" using 2(3) that by auto
  then have "k \<notin> fst ` set ?o1" if "k \<noteq> ''system''" using o1 that by auto
  then have o2: "?o2 = out @ canon_member system (k, v)"
    using o1 obj_insert_append [of k ?o1 v] by (auto simp: canon_member_def)
  have "reorder_members system m ?o2 = ?o2 @ concat (map (canon_member system) m)"
  proof (rule 2(1) [OF refl refl])
    show "distinct (map fst m)" using 2(2) by simp
    show "fst ` set ?o2 \<inter> fst ` set m \<subseteq> {''system''}"
      unfolding o2 using 2(2,3) by (auto simp: canon_member_def split: if_splits) (metis fst_conv image_eqI)+
    show "''system'' \<notin> fst ` set ?o2" if "''messages'' \<in> fst ` set m"
      unfolding o2 using 2(2,4) that by (auto simp: canon_member_def split: if_splits)
  qed
  then show ?case unfolding o2 by (simp add: Let_def o2)
qed simp

lemma mset_canon:
  "mset (concat (map (canon_member system) m)) =
     mset (filter (\<lambda>p. fst p \<noteq> ''system'') m) + replicate_mset (length (filter (\<lambda>p. fst p = ''messages'') m)) (''system'', system)"
  by (induction m) (auto simp: canon_member_def)

lemma filter_key_distinct: "distinct (map fst m) \<Longrightarrow> map_of m k = Some v \<Longrightarrow> filter (\<lambda>p. fst p = k) m = [(k, v)]"
proof (induction m)
  case (Cons p m)
  show ?case
  proof (cases "fst p = k")
    case True
    then have "k \<notin> fst ` set m" using Cons.prems(1) by auto
    then have "filter (\<lambda>p. fst p = k) m = []" by (intro filter_False ballI notI) (simp add: rev_image_eqI)
    then show ?thesis using True Cons.prems(2) by (cases p) auto
  qed (use Cons in auto)
qed simp

text \<open>The order is canonical: the members are the client's own, with \<^verbatim>\<open>system\<close> moved right before \<^verbatim>\<open>messages\<close>.\<close>

lemma canonicalize_members:
  assumes "distinct (map fst m)" "map_of m ''system'' = Some s" "map_of m ''messages'' = Some ms"
  shows "canonicalize_system_order (JObject m) = JObject (concat (map (canon_member s) m))"
    "mset (concat (map (canon_member s) m)) = mset m"
proof -
  show "canonicalize_system_order (JObject m) = JObject (concat (map (canon_member s) m))"
    using assms reorder_members_eq [of m "[]" s] by (simp add: canonicalize_system_order_def)
  have "mset m = mset (filter (\<lambda>p. fst p \<noteq> ''system'') m) + mset (filter (\<lambda>p. fst p = ''system'') m)"
    by (metis (no_types, lifting) filter_cong mset_filter multiset_partition not_not)
  then show "mset (concat (map (canon_member s) m)) = mset m"
    using filter_key_distinct [OF assms(1,2)] filter_key_distinct [OF assms(1,3)] by (simp add: mset_canon)
qed

lemma canonicalize_keeps:
  assumes "distinct (map fst m)"
  obtains m' where "canonicalize_system_order (JObject m) = JObject m'" "distinct (map fst m')" "map_of m' = map_of m"
proof (cases "map_of m ''system'' = None \<or> map_of m ''messages'' = None")
  case True
  then have "canonicalize_system_order (JObject m) = JObject m"
    by (cases "map_of m ''system''") (auto simp: canonicalize_system_order_def)
  then show ?thesis using that assms by blast
next
  case False
  then obtain s ms where s: "map_of m ''system'' = Some s" "map_of m ''messages'' = Some ms" by auto
  note c = canonicalize_members [OF assms s]
  have d: "distinct (map fst (concat (map (canon_member s) m)))"
    using c(2) assms by (metis mset_map mset_eq_imp_distinct_iff)
  then show ?thesis using that [OF c(1) d] c(2) assms by (metis map_of_inject_set set_mset_mset)
qed

lemma canonicalize_protects:
  "protects a b tree \<Longrightarrow> protects a b (canonicalize_system_order tree) \<and>
     json_get k (canonicalize_system_order tree) = json_get k tree"
  unfolding protects_def by (metis canonicalize_keeps json_get.simps(1))

subsection \<open>The pipeline\<close>

text \<open>The document a rule set leaves, before the group's enforcement.\<close>

definition after_rules ::
  "Codec \<Rightarrow> RequestPolicy \<Rightarrow> Json \<Rightarrow> EvaluationContext \<Rightarrow> PolicyError + Json \<times> AppliedChange list" where
  "after_rules cx pol tree ev =
     (case rp_ruleset pol of None \<Rightarrow> Inr (tree, []) | Some rs \<Rightarrow> apply_rules cx (crs_rules rs) ev (tree, []))"

lemma adjust_tree_facts:
  assumes "adjust_tree cx pol tree ctx = Inr ((tree', cs), out)" "protects a b tree"
    and "is_none_or (rp_ruleset pol) (\<lambda>rs. \<exists>i layers. compile_layers i layers = Inr rs)"
  shows "protects a b tree'"
    "\<exists>ruled cs0. after_rules cx pol tree ctx = Inr (ruled, cs0) \<and>
       system_enforced (en_system (rp_enforcement pol)) (json_get ''system'' ruled) (json_get ''system'' tree')
         (eo_attribution_suppressed out) (eo_system_template_pending out)"
proof -
  obtain t c where t: "after_rules cx pol tree ctx = Inr (t, c)"
    using assms(1) unfolding adjust_tree_def after_rules_def by (auto split: sum.splits)
  then obtain t2 where t2: "apply_enforcement cx (rp_enforcement pol) (t, c) = Inr ((t2, cs), out)"
    "tree' = (if cs = [] then t2 else canonicalize_system_order t2)"
    using assms(1) unfolding adjust_tree_def after_rules_def by (auto split: sum.splits)
  have "protects a b t"
    using t assms(2,3) apply_rules_protects compiled_reach_no_protected unfolding after_rules_def
    by (cases "rp_ruleset pol") (auto, blast)
  note e = apply_enforcement_facts [OF t2(1) this]
  show "protects a b tree'" using e(1) canonicalize_protects [OF e(1)] t2(2) by auto
  have "json_get ''system'' tree' = json_get ''system'' t2" using canonicalize_protects [OF e(1)] t2(2) by auto
  with e(2) t show "\<exists>ruled cs0. after_rules cx pol tree ctx = Inr (ruled, cs0) \<and>
       system_enforced (en_system (rp_enforcement pol)) (json_get ''system'' ruled) (json_get ''system'' tree')
         (eo_attribution_suppressed out) (eo_system_template_pending out)" by auto
qed

lemma parsed_tree:
  assumes "parse_messages_request read digest raw strict = Inr p"
  shows "pq_tree p = raw_tree (fst (read raw))" "unique_keys (pq_tree p)" "pq_raw_body p = raw"
proof -
  obtain v where v: "unique_value (fst (read raw)) = Inr v" and p: "pq_tree p = v" "pq_raw_body p = raw"
    using assms by (auto simp: parse_messages_request_def Let_def split: sum.splits if_splits option.splits list.splits)
  then show "pq_tree p = raw_tree (fst (read raw))" "unique_keys (pq_tree p)" "pq_raw_body p = raw"
    using unique_value_spec(1) [of "fst (read raw)"] by auto
qed

text \<open>The stages of a request that passed.\<close>

lemma process_stages:
  assumes "process_with_options cx pol raw ctx req = Inr (g, tree)"
  obtains p model stream snapshot cs out where
    "parse_messages_request (read_json cx) (digest_of (sha256_bytes cx)) raw (rp_schema_mode pol = Strict) = Inr p"
    "validate_base_structure p req = Inr (model, stream)"
    "catalog_get (rp_capabilities pol) model = Some snapshot"
    "adjust_tree cx pol (pq_tree p) (evaluation ctx model stream) = Inr ((tree, cs), out)"
    "Option.bind (json_get ''model'' tree) as_str_value = Some model"
    "check_capability snapshot tree (evaluation ctx model stream) True req = Inr ()"
    "freeze_request cx pol ctx p model stream tree cs out = Inr (g, tree)"
proof -
  obtain p where p: "parse_messages_request (read_json cx) (digest_of (sha256_bytes cx)) raw (rp_schema_mode pol = Strict) = Inr p"
    using assms by (cases "parse_messages_request (read_json cx) (digest_of (sha256_bytes cx)) raw (rp_schema_mode pol = Strict)")
      (simp_all add: process_with_options_def)
  note a1 = assms [unfolded process_with_options_def p sum.case]
  obtain model stream where b: "validate_base_structure p req = Inr (model, stream)"
    using a1 by (cases "validate_base_structure p req") auto
  note a2 = a1 [unfolded b sum.case prod.case]
  obtain snapshot where c: "catalog_get (rp_capabilities pol) model = Some snapshot"
    using a2 by (cases "catalog_get (rp_capabilities pol) model") auto
  note a3 = a2 [unfolded c option.case Let_def]
  have d: "check_capability snapshot (pq_tree p) (evaluation ctx model stream) False req = Inr ()"
    using a3 by (cases "check_capability snapshot (pq_tree p) (evaluation ctx model stream) False req") auto
  note a4 = a3 [unfolded d sum.case]
  obtain t cs out where e: "adjust_tree cx pol (pq_tree p) (evaluation ctx model stream) = Inr ((t, cs), out)"
    using a4 by (cases "adjust_tree cx pol (pq_tree p) (evaluation ctx model stream)") auto
  note a5 = a4 [unfolded e sum.case prod.case]
  have m: "Option.bind (json_get ''model'' t) as_str_value = Some model" using a5 by (auto split: if_splits)
  have f: "check_capability snapshot t (evaluation ctx model stream) True req = Inr ()"
    using a5 m by (cases "check_capability snapshot t (evaluation ctx model stream) True req") auto
  have g: "freeze_request cx pol ctx p model stream t cs out = Inr (g, tree)" using a5 m f by simp
  then have "t = tree" by (auto simp: freeze_request_def split: option.splits)
  with that p b c e m f g show ?thesis by blast
qed

lemma freeze_facts:
  assumes "freeze_request cx pol ctx p model stream tree cs out = Inr (g, tree)"
  shows "model_id g = model" "change_set g = cs" "attribution_suppressed g = eo_attribution_suppressed out"
    "system_template_pending g = eo_system_template_pending out" "rb_reused_original (replay_body g) = (cs = [])"
    "\<exists>bytes. (if cs = [] then Some (pq_raw_body p) else to_vec cx tree) = Some bytes \<and>
       rb_bytes (replay_body g) = bytes_of bytes \<and> body_digest g = request_digest cx bytes"
    "stream_mode g = stream"
  using assms by (auto simp: freeze_request_def split: option.splits)

text \<open>C16. Policy never touches the prompt. However the rule set is layered and whatever its rules, conditions
  and the group's enforcement do, a request that passes keeps the exact \<^verbatim>\<open>messages\<close> and \<^verbatim>\<open>model\<close> members of the
  client's document, and the model that the request is scheduled under is that one.
\<close>

theorem process_keeps_model_and_messages:
  assumes "is_none_or (rp_ruleset pol) (\<lambda>rs. \<exists>i layers. compile_layers i layers = Inr rs)"
    and "process_with_options cx pol raw_body ctx require_max_tokens = Inr (request, tree)"
  shows "json_get ''messages'' tree = json_get ''messages'' (raw_tree (fst (read_json cx raw_body))) \<and>
    json_get ''model'' tree = json_get ''model'' (raw_tree (fst (read_json cx raw_body))) \<and>
    json_get ''model'' tree = Some (JString (model_id request))"
proof -
  obtain p model stream cs out where st:
    "parse_messages_request (read_json cx) (digest_of (sha256_bytes cx)) raw_body (rp_schema_mode pol = Strict) = Inr p"
    "validate_base_structure p require_max_tokens = Inr (model, stream)"
    "adjust_tree cx pol (pq_tree p) (evaluation ctx model stream) = Inr ((tree, cs), out)"
    "Option.bind (json_get ''model'' tree) as_str_value = Some model"
    "freeze_request cx pol ctx p model stream tree cs out = Inr (request, tree)"
    using process_stages [OF assms(2)] by metis
  note pt = parsed_tree [OF st(1)]
  obtain m where m: "pq_tree p = JObject m"
    using st(2) by (cases "pq_tree p") (auto simp: validate_base_structure_def)
  have "protects (map_of m ''model'') (map_of m ''messages'') (pq_tree p)"
    using pt(2) m by (simp add: protects_def)
  from adjust_tree_facts(1) [OF st(3) this assms(1)]
  have "json_get ''model'' tree = map_of m ''model''" "json_get ''messages'' tree = map_of m ''messages''"
    by (auto simp: protects_def)
  moreover have "json_get ''model'' tree = Some (JString (model_id request))"
    using st(4) freeze_facts(1) [OF st(5)] by (auto simp: bind_eq_Some_conv elim!: as_str_value.elims)
  ultimately show ?thesis using m pt(1) by simp
qed

text \<open>C18. The group's enforcement has the last word over the document its rule set leaves, for every mode and flag:
  \<^verbatim>\<open>preserve\<close> keeps that document's \<^verbatim>\<open>system\<close> as it is; \<^verbatim>\<open>strip_client\<close> keeps nothing of it but a leading attribution
  block without its cache breakpoint; a non-empty \<^verbatim>\<open>replace\<close> sends the static replacement of that very value (in
  front of a resolved boundary the attribution block and the dynamic part stay and between them stand the
  replacement's blocks, otherwise the value is the replacement, cache breakpoints aside); an empty one keeps it and
  leaves a template pending; \<^verbatim>\<open>strip_all\<close> removes it and suppresses attribution.
\<close>

theorem enforcement_has_last_word:
  assumes "is_none_or (rp_ruleset pol) (\<lambda>rs. \<exists>i layers. compile_layers i layers = Inr rs)"
    and "process_with_options cx pol raw_body ctx require_max_tokens = Inr (request, tree)"
  shows "\<exists>ruled cs. after_rules cx pol (raw_tree (fst (read_json cx raw_body)))
        (evaluation ctx (model_id request) (stream_mode request)) = Inr (ruled, cs) \<and>
    (case en_system (rp_enforcement pol) of
       Preserve \<Rightarrow> json_get ''system'' tree = json_get ''system'' ruled \<and>
         \<not> attribution_suppressed request \<and> \<not> system_template_pending request
     | StripClient \<Rightarrow> \<not> attribution_suppressed request \<and> \<not> system_template_pending request \<and>
         json_get ''system'' tree = (case json_get ''system'' ruled of
             Some (JArray (b # _)) \<Rightarrow> if is_billing_block b then Some (JArray [remove_point b]) else None
           | _ \<Rightarrow> None)
     | ReplaceSystem _ content \<Rightarrow> \<not> attribution_suppressed request \<and>
         (if is_empty_replacement content
          then json_get ''system'' tree = json_get ''system'' ruled \<and> system_template_pending request
          else \<not> system_template_pending request \<and>
            (\<exists>new. json_get ''system'' tree = Some new \<and>
               new = fst (replace_system_static (unwrap_or (json_get ''system'' ruled) JNull) content) \<and>
               system_replaced (unwrap_or (json_get ''system'' ruled) JNull) content new))
     | StripAll \<Rightarrow> json_get ''system'' tree = None \<and> attribution_suppressed request \<and> \<not> system_template_pending request)"
proof -
  obtain p model stream cs out where st:
    "parse_messages_request (read_json cx) (digest_of (sha256_bytes cx)) raw_body (rp_schema_mode pol = Strict) = Inr p"
    "validate_base_structure p require_max_tokens = Inr (model, stream)"
    "adjust_tree cx pol (pq_tree p) (evaluation ctx model stream) = Inr ((tree, cs), out)"
    "freeze_request cx pol ctx p model stream tree cs out = Inr (request, tree)"
    using process_stages [OF assms(2)] by metis
  obtain m where m: "pq_tree p = JObject m"
    using st(2) by (cases "pq_tree p") (auto simp: validate_base_structure_def)
  have "protects (map_of m ''model'') (map_of m ''messages'') (pq_tree p)"
    using parsed_tree(2) [OF st(1)] m by (simp add: protects_def)
  from adjust_tree_facts(2) [OF st(3) this assms(1)] freeze_facts(1,3,4,7) [OF st(4)] parsed_tree(1) [OF st(1)]
  show ?thesis by (simp only: system_enforced_def)
qed

text \<open>A passed request replays exactly what its record says: without a recorded change the client's own
  bytes, otherwise the serialization of the adjusted tree; the digest is always that of the replayed bytes.
\<close>

theorem process_replay_consistent:
  assumes "process_with_options cx pol raw_body ctx require_max_tokens = Inr (request, tree)"
  shows "\<exists>bytes. (if change_set request = [] then Some raw_body else to_vec cx tree) = Some bytes \<and>
    rb_bytes (replay_body request) = bytes_of bytes \<and> body_digest request = request_digest cx bytes \<and>
    rb_reused_original (replay_body request) = (change_set request = [])"
proof -
  obtain p model stream cs out where st:
    "parse_messages_request (read_json cx) (digest_of (sha256_bytes cx)) raw_body (rp_schema_mode pol = Strict) = Inr p"
    "freeze_request cx pol ctx p model stream tree cs out = Inr (request, tree)"
    using process_stages [OF assms(1)] by metis
  show ?thesis
    using freeze_facts [OF st(2)] parsed_tree(3) [OF st(1)] by metis
qed

end
