(* ===== verification/Policy_Cases.thy ===== *)
theory Policy_Cases
  imports Policy_Properties
begin

text \<open>
  Consequences of the request policy for particular rule sets, and concrete requests that run through it.
\<close>

subsection \<open>Clamping an integer\<close>

lemma put_system_frame:
  assumes "put_system cx current nxt reason (tree, cs) = Inr (tree', cs')" "protects a b tree" "k \<noteq> ''system''"
  shows "json_get k tree' = json_get k tree"
proof -
  obtain m where m: "tree = JObject m" "distinct (map fst m)" using assms(2) by (auto simp: protects_def)
  show ?thesis
    using put_system_object [OF assms(1) [unfolded m(1)]] m assms(3) by (auto simp: map_of_obj_remove_other split: option.splits)
qed

lemma apply_enforcement_frame:
  assumes "apply_enforcement cx en (tree, cs) = Inr ((tree', cs'), out)" "protects a b tree" "k \<noteq> ''system''"
  shows "json_get k tree' = json_get k tree"
proof -
  have "(tree', cs') = (tree, cs) \<or> (\<exists>nxt reason. put_system cx (json_get ''system'' tree) nxt reason (tree, cs) = Inr (tree', cs'))"
    using assms(1)
    by (auto simp: apply_enforcement_def Let_def map_sum_Inr_iff split: if_splits SystemPolicy.splits)
  then show ?thesis using put_system_frame [OF _ assms(2,3)] by auto
qed

lemma split_max_tokens: "split_pointer ''/max_tokens'' = Inr ([], ''max_tokens'')"
  by (simp add: split_pointer_def rsplit_once_def unescape_token_def replace_absent)

lemma pointer_max_tokens: "value_pointer ''/max_tokens'' (JObject m) = map_of m ''max_tokens''"
  by (simp add: value_pointer_def pointer_tokens_def unescape_token_def replace_absent json_child_def)
     (cases "map_of m ''max_tokens''"; simp)

lemma set_max_tokens: "set_pointer (JObject m) ''/max_tokens'' v = Inr (JObject (obj_insert ''max_tokens'' v m))"
  by (simp add: set_pointer_def at_parent_def split_max_tokens set_leaf_def)

lemma clamp_max_tokens:
  assumes "rd_action r = ClampNumber ''body:/max_tokens'' mn mx" "rd_when r = Always"
    and "map_of m ''max_tokens'' = Some v" "as_f64 v = Some x" "clamp_f64 mn mx x \<noteq> x"
    and "apply_rules cx [r] ctx (JObject m, cs) = Inr (t, c)"
  shows "t = JObject (obj_insert ''max_tokens'' (json_f64 (clamp_f64 mn mx x)) m)"
proof -
  have "strip_prefix ''body:'' ''body:/max_tokens'' = Some ''/max_tokens''" unfolding strip_prefix_Some by simp
  then show ?thesis
    using assms by (auto simp: apply_rule_def Let_def run_action_def pointer_max_tokens set_max_tokens split: sum.splits)
qed

lemma expand_max_tokens: "expand_path ''body:/max_tokens'' (JObject m) ctx = Inr (option_list (map_of m ''max_tokens''))"
  by (simp add: expand_path_def strip_prefix_def starts_with_def unescape_token_def replace_absent MAX_PATH_EXPANSIONS_def
      option_list_def split: option.splits)

definition max_tokens_rule :: CapabilityRule where
  "max_tokens_rule = capability_rule ''max_tokens'' ''body:/max_tokens'' TInteger"

lemma max_tokens_rule_base: "max_tokens_rule \<in> set base_rules"
  by (simp add: max_tokens_rule_def base_rules_def)

text \<open>A numeric clamp on an integer field makes every request it changes fail. The clamped value is written
  as a float, so under a capability with the base rule that \<^verbatim>\<open>max_tokens\<close> is an integer, a request whose value lies
  outside the range is refused, whatever the bounds are: the clamp rejects where it is meant to adjust.
\<close>

theorem clamped_integer_rejected:
  assumes "rp_ruleset pol = Some \<lparr>crs_id = i, crs_rules = [r]\<rparr>"
    and "rd_action r = ClampNumber ''body:/max_tokens'' mn mx" "rd_when r = Always"
    and "\<forall>model snapshot. catalog_get (rp_capabilities pol) model = Some snapshot \<longrightarrow>
      (\<exists>c rules. compile_capability c model rules = Inr snapshot \<and> max_tokens_rule \<in> set rules)"
    and "json_get ''max_tokens'' (raw_tree (fst (read_json cx raw_body))) = Some v"
    and "as_f64 v = Some x" "clamp_f64 mn mx x \<noteq> x"
  shows "\<not> (\<exists>out. process cx pol raw_body ctx = Inr out)"
proof
  assume "\<exists>out. process cx pol raw_body ctx = Inr out"
  then obtain g tree where "process_with_options cx pol raw_body ctx True = Inr (g, tree)"
    by (auto simp: process_def)
  then obtain p model stream snapshot cs out where
    parse: "parse_messages_request (read_json cx) (digest_of (sha256_bytes cx)) raw_body (rp_schema_mode pol = Strict) = Inr p"
    and base: "validate_base_structure p True = Inr (model, stream)"
    and snap: "catalog_get (rp_capabilities pol) model = Some snapshot"
    and adj: "adjust_tree cx pol (pq_tree p) (evaluation ctx model stream) = Inr ((tree, cs), out)"
    and chk: "check_capability snapshot tree (evaluation ctx model stream) True True = Inr ()"
    using process_stages by metis
  obtain m where m: "pq_tree p = JObject m" using base by (cases "pq_tree p") (auto simp: validate_base_structure_def)
  have mt: "map_of m ''max_tokens'' = Some v" using parsed_tree(1) [OF parse] m assms(5) by (metis json_get.simps(1))
  have dm: "distinct (map fst m)" using parsed_tree(2) [OF parse] m by simp
  let ?t = "JObject (obj_insert ''max_tokens'' (json_f64 (clamp_f64 mn mx x)) m)"
  obtain c where "apply_rules cx [r] (evaluation ctx model stream) (JObject m, []) = Inr (?t, c)"
    using adj assms(1) m clamp_max_tokens [OF assms(2,3) mt assms(6,7)]
    unfolding adjust_tree_def by (auto simp del: apply_rules.simps split: sum.splits)
  then obtain t2 where enf: "apply_enforcement cx (rp_enforcement pol) (?t, c) = Inr ((t2, cs), out)"
    and tree: "tree = (if cs = [] then t2 else canonicalize_system_order t2)"
    using adj assms(1) m unfolding adjust_tree_def by (auto simp del: apply_rules.simps split: sum.splits)
  have pr: "protects (map_of m ''model'') (map_of m ''messages'') ?t"
    using dm by (simp add: protects_def distinct_obj_insert)
  note e = apply_enforcement_frame [OF enf pr, of "''max_tokens''"] apply_enforcement_facts(1) [OF enf pr]
  have get: "json_get ''max_tokens'' tree = Some (json_f64 (clamp_f64 mn mx x))"
    using e tree canonicalize_protects [OF e(2)] by simp
  then obtain m' where m': "tree = JObject m'" by (cases tree) auto
  obtain n rules where comp: "compile_capability n model rules = Inr snapshot" "max_tokens_rule \<in> set rules"
    using assms(4) snap by blast
  have "validate_capability snapshot tree (evaluation ctx model stream) True = Inr []"
    using chk by (auto simp: check_capability_def filter_count_tokens_diagnostics_def Let_def split: sum.splits if_splits)
  then have "conforms max_tokens_rule tree (evaluation ctx model stream)"
    by (rule validated_conforms [OF comp(1) _ comp(2)]) (simp add: max_tokens_rule_def capability_rule_def base_rule_def)
  then show False
    using get m' by (simp add: conforms_def expand_max_tokens max_tokens_rule_def capability_rule_def base_rule_def
        option_list_def rule_accepts_def json_f64_def split: if_splits)
qed

subsection \<open>A change that is not recorded\<close>

text \<open>The place a rule writes and the place the record looks at can differ: writing parses an array index as an
  unsigned number, reading refuses a leading zero or sign. A rule for such an index changes the tree, but
  nothing is recorded, so the client's bytes are replayed while the tree holds the new value.
\<close>

lemma unrecorded_array_change:
  assumes "rd_action r = SetAction ''body:/stop/01'' (JString ''b'')" "rd_when r = Always"
  shows "apply_rule cx r ctx (JObject [(''stop'', JArray [JString ''x'', JString ''a''])], []) =
    Inr (JObject [(''stop'', JArray [JString ''x'', JString ''b''])], [])"
proof -
  have s: "strip_prefix ''body:'' ''body:/stop/01'' = Some ''/stop/01''" unfolding strip_prefix_Some by simp
  have t: "pointer_tokens ''/stop/01'' = Some [''stop'', ''01'']" "pointer_tokens ''/stop'' = Some [''stop'']"
    by (simp_all add: pointer_tokens_def unescape_token_def replace_absent)
  have i: "pointer_index ''01'' = None" "parse_unsigned USIZE_MAX ''01'' = Some 1"
    by (simp_all add: pointer_index_def parse_unsigned_def is_ascii_digit_def USIZE_MAX_def)
  have sp: "split_pointer ''/stop/01'' = Inr (''/stop'', ''01'')"
    by (simp add: split_pointer_def rsplit_once_def unescape_token_def replace_absent)
  have v: "value_pointer ''/stop/01'' (JObject [(''stop'', JArray vs)]) = None" for vs
    by (simp add: value_pointer_def t json_child_def i)
  have "set_pointer (JObject [(''stop'', JArray [JString ''x'', JString ''a''])]) ''/stop/01'' (JString ''b'') =
      Inr (JObject [(''stop'', JArray [JString ''x'', JString ''b''])])"
    by (simp add: set_pointer_def at_parent_def sp t json_child_def json_set_child_def set_leaf_def i)
  then show ?thesis
    by (simp add: apply_rule_def assms s v run_action_def Let_def json_opt_eq_def)
qed

subsection \<open>Concrete requests\<close>

definition sample_codec :: Codec where
  "sample_codec = \<lparr>
     read_json = (\<lambda>_. (RObject [(''model'', RString ''m''), (''max_tokens'', RU64 5), (''system'', RString ''s''),
       (''messages'', RArray [] True)] True, True)),
     to_vec = (\<lambda>_. Some ''{}''), sha256_bytes = (\<lambda>_. replicate 32 (CHR 0x00))\<rparr>"

definition sample_versions :: RequestSnapshotSet where
  "sample_versions = (let v = SnapshotVersion ''v1'' in
     \<lparr>access_policy = v, group_config = v, enforcement = v, ruleset = None, capability = v, client_profile_catalog = v,
      price = v, serializer = v\<rparr>)"

definition sample_policy_rule :: "RuleAction \<Rightarrow> RuleDefinition" where
  "sample_policy_rule action = \<lparr>rd_id = ''r'', rd_phase = DefaultPhase, rd_action = action, rd_when = Always,
     rd_reason = ''why'', rd_risk = RiskLow\<rparr>"

definition sample_ruleset :: "RuleAction \<Rightarrow> CompiledRuleSet" where
  "sample_ruleset action = \<lparr>crs_id = ''s'', crs_rules = [sample_policy_rule action]\<rparr>"

definition sample_policy :: "RuleAction \<Rightarrow> CapabilityRule list \<Rightarrow> RequestPolicy" where
  "sample_policy action rules = \<lparr>rp_schema_mode = Strict,
     rp_capabilities = [(''m'', \<lparr>cs_id = ''c'', cs_model_id = ''m'', cs_rules = rules\<rparr>)],
     rp_enforcement = \<lparr>en_system = StripAll\<rparr>, rp_ruleset = Some (sample_ruleset action), rp_snapshots = sample_versions\<rparr>"

definition sample_policy_context :: PolicyContext where
  "sample_policy_context = \<lparr>pc_client_class = ClaudeCodeCli, pc_client_os = Linux, pc_protocol_headers = [],
     pc_affinity_credential = None\<rparr>"

definition sample_action :: RuleAction where
  "sample_action = SetAction ''body:/top_k'' (JU64 1)"

lemma sample_ruleset_compiled: "compile_layers ''s'' [[sample_policy_rule sample_action]] = Inr (sample_ruleset sample_action)"
proof -
  have "strip_prefix ''body:'' ''body:/top_k'' = Some ''/top_k''" unfolding strip_prefix_Some by simp
  then show ?thesis
    by (simp add: compile_layers_def layered_def sample_policy_rule_def sample_action_def validate_definition_def
        validate_mutation_path_def validate_condition_def MAX_CONDITION_DEPTH_def MAX_CONDITION_NODES_def sample_ruleset_def)
qed

lemma sample_ruleset_ok:
  "is_none_or (rp_ruleset (sample_policy sample_action rules)) (\<lambda>rs. \<exists>i layers. compile_layers i layers = Inr rs)"
  using sample_ruleset_compiled by (auto simp: sample_policy_def)

lemma sample_parse:
  "\<exists>p. parse_messages_request (read_json sample_codec) (digest_of (sha256_bytes sample_codec)) raw True = Inr p \<and>
     pq_tree p = JObject [(''model'', JString ''m''), (''max_tokens'', JU64 5), (''system'', JString ''s''), (''messages'', JArray [])]"
  by (simp add: parse_messages_request_def sample_codec_def unknown_top_level_def KNOWN_TOP_LEVEL_def unknown_content_def
      collect_unknown_content_blocks_def unknown_indices_def)

definition sample_final :: "(string \<times> Json) list" where
  "sample_final = [(''model'', JString ''m''), (''max_tokens'', JU64 5), (''top_k'', JU64 1), (''messages'', JArray [])]"

lemma sample_adjust:
  "\<exists>cs out. cs \<noteq> [] \<and> adjust_tree sample_codec (sample_policy sample_action rules)
     (JObject [(''model'', JString ''m''), (''max_tokens'', JU64 5), (''system'', JString ''s''), (''messages'', JArray [])]) ev =
     Inr ((JObject sample_final, cs), out)"
proof -
  let ?m = "[(''model'', JString ''m''), (''max_tokens'', JU64 5), (''system'', JString ''s''), (''messages'', JArray [])]"
  have s: "strip_prefix ''body:'' ''body:/top_k'' = Some ''/top_k''" unfolding strip_prefix_Some by simp
  have v: "value_pointer ''/top_k'' (JObject m) = map_of m ''top_k''" for m
    by (simp add: value_pointer_def pointer_tokens_def unescape_token_def replace_absent json_child_def)
       (cases "map_of m ''top_k''"; simp)
  have p: "split_pointer ''/top_k'' = Inr ([], ''top_k'')"
    by (simp add: split_pointer_def rsplit_once_def unescape_token_def replace_absent)
  have r: "apply_rules sample_codec [sample_policy_rule sample_action] ev (JObject ?m, []) =
      Inr (JObject (?m @ [(''top_k'', JU64 1)]),
        [change sample_codec ''r'' ''/top_k'' None (Some (JU64 1)) ''why'' RiskLow])"
    by (simp add: apply_rule_def sample_policy_rule_def sample_action_def s v run_action_def set_pointer_def at_parent_def p
        set_leaf_def json_opt_eq_def)
  have e: "\<exists>c out. apply_enforcement sample_codec \<lparr>en_system = StripAll\<rparr>
      (JObject (?m @ [(''top_k'', JU64 1)]), cs) = Inr ((JObject sample_final, cs @ [c]), out)" for cs
    by (simp add: apply_enforcement_def put_system_def remove_system Let_def json_opt_eq_def sample_final_def)
  obtain c out where "apply_enforcement sample_codec \<lparr>en_system = StripAll\<rparr>
      (JObject (?m @ [(''top_k'', JU64 1)]), [change sample_codec ''r'' ''/top_k'' None (Some (JU64 1)) ''why'' RiskLow]) =
      Inr ((JObject sample_final, [change sample_codec ''r'' ''/top_k'' None (Some (JU64 1)) ''why'' RiskLow] @ [c]), out)"
    using e by blast
  moreover have "canonicalize_system_order (JObject sample_final) = JObject sample_final"
    by (simp add: canonicalize_system_order_def sample_final_def)
  ultimately show ?thesis
    unfolding adjust_tree_def sample_policy_def sample_ruleset_def using r by simp
qed

lemma sample_process:
  "\<exists>g. change_set g \<noteq> [] \<and>
     process_with_options sample_codec (sample_policy sample_action []) raw sample_policy_context True = Inr (g, JObject sample_final)"
proof -
  obtain p where p: "parse_messages_request (read_json sample_codec) (digest_of (sha256_bytes sample_codec)) raw True = Inr p"
    "pq_tree p = JObject [(''model'', JString ''m''), (''max_tokens'', JU64 5), (''system'', JString ''s''), (''messages'', JArray [])]"
    using sample_parse by blast
  have b: "validate_base_structure p True = Inr (''m'', False)"
    by (simp add: validate_base_structure_def p(2) model_field_def stream_field_def)
  obtain cs out where a: "cs \<noteq> []" "adjust_tree sample_codec (sample_policy sample_action []) (pq_tree p)
      (evaluation sample_policy_context ''m'' False) = Inr ((JObject sample_final, cs), out)"
    using sample_adjust p(2) by metis
  have c: "catalog_get (rp_capabilities (sample_policy sample_action [])) ''m'' =
      Some \<lparr>cs_id = ''c'', cs_model_id = ''m'', cs_rules = []\<rparr>"
    by (simp add: catalog_get_def sample_policy_def)
  have k: "check_capability \<lparr>cs_id = ''c'', cs_model_id = ''m'', cs_rules = []\<rparr> t ev f True = Inr ()" for t ev f
    by (simp add: check_capability_def validate_capability_def filter_count_tokens_diagnostics_def)
  have s: "(rp_schema_mode (sample_policy sample_action []) = Strict) = True" by (simp add: sample_policy_def)
  show ?thesis
    unfolding process_with_options_def s p(1) sum.case b prod.case c option.case Let_def k a(2)
    using a(1) by (simp add: freeze_request_def sample_final_def sample_codec_def)
qed

theorem process_keeps_model_and_messages_witness:
  "\<exists>g tree. process_with_options sample_codec (sample_policy sample_action []) ''{}'' sample_policy_context True = Inr (g, tree) \<and>
     json_get ''messages'' tree = Some (JArray []) \<and> model_id g = ''m''"
proof -
  obtain g where g: "process_with_options sample_codec (sample_policy sample_action []) ''{}'' sample_policy_context True =
      Inr (g, JObject sample_final)" using sample_process by blast
  from process_keeps_model_and_messages [OF sample_ruleset_ok g] g show ?thesis
    by (auto simp: sample_final_def)
qed

theorem enforcement_has_last_word_witness:
  "\<exists>g tree. process_with_options sample_codec (sample_policy sample_action []) ''{}'' sample_policy_context True = Inr (g, tree) \<and>
     json_get ''system'' tree = None \<and> attribution_suppressed g"
proof -
  obtain g where g: "process_with_options sample_codec (sample_policy sample_action []) ''{}'' sample_policy_context True =
      Inr (g, JObject sample_final)" using sample_process by blast
  from enforcement_has_last_word [OF sample_ruleset_ok g] g show ?thesis by (simp add: sample_policy_def)
qed

theorem process_replay_consistent_witness:
  "\<exists>g tree. process_with_options sample_codec (sample_policy sample_action []) ''{}'' sample_policy_context True = Inr (g, tree) \<and>
     \<not> rb_reused_original (replay_body g) \<and> rb_bytes (replay_body g) = bytes_of ''{}''"
proof -
  obtain g where g: "change_set g \<noteq> []" "process_with_options sample_codec (sample_policy sample_action []) ''{}''
      sample_policy_context True = Inr (g, JObject sample_final)" using sample_process by blast
  from process_replay_consistent [OF g(2)] g show ?thesis by (auto simp: sample_codec_def)
qed

lemma max_tokens_merge:
  "merge_rules [max_tokens_rule] \<noteq> None"
  by (simp add: merge_rules_def merge_rule_def merge_start_def max_tokens_rule_def capability_rule_def base_rule_def combine_def)

lemma max_tokens_compiled:
  "compile_capability ''c'' ''m'' [max_tokens_rule] = Inr \<lparr>cs_id = ''c'', cs_model_id = ''m'', cs_rules = [max_tokens_rule]\<rparr>"
proof -
  have "validate_rule max_tokens_rule = Inr ()"
    by (simp add: validate_rule_def max_tokens_rule_def capability_rule_def base_rule_def validate_path_def strip_prefix_def
        starts_with_def MAX_WILDCARDS_def validate_condition_def MAX_CONDITION_DEPTH_def MAX_CONDITION_NODES_def)
  moreover have "validate_unconditional_intersections [max_tokens_rule] = Inr ()"
    using max_tokens_merge
    by (simp add: validate_unconditional_intersections_def group_insert_def max_tokens_rule_def capability_rule_def base_rule_def)
  moreover have "cr_id max_tokens_rule \<noteq> []" by (simp add: max_tokens_rule_def capability_rule_def base_rule_def)
  ultimately show ?thesis by (simp add: compile_capability_def)
qed

lemma f64_of_nat_four: "unat (f64_of_nat 4) = 1025 * 2 ^ 52"
proof -
  have "f64_bits 4 = 1025 * 2 ^ 52"
    by (simp add: f64_bits_def round_mantissa_def Let_def bit_len.simps)
  then show ?thesis by (simp add: f64_of_nat_def unat_of_nat)
qed

theorem clamped_integer_rejected_witness:
  "\<not> (\<exists>out. process sample_codec
     (sample_policy (ClampNumber ''body:/max_tokens'' None (Some (f64_of_nat 4))) [max_tokens_rule])
     ''{}'' sample_policy_context = Inr out)"
proof (rule clamped_integer_rejected)
  let ?a = "ClampNumber ''body:/max_tokens'' None (Some (f64_of_nat 4))"
  show "rp_ruleset (sample_policy ?a [max_tokens_rule]) = Some \<lparr>crs_id = ''s'', crs_rules = [sample_policy_rule ?a]\<rparr>"
    by (simp add: sample_policy_def sample_ruleset_def)
  show "\<forall>model snapshot. catalog_get (rp_capabilities (sample_policy ?a [max_tokens_rule])) model = Some snapshot \<longrightarrow>
      (\<exists>c rules. compile_capability c model rules = Inr snapshot \<and> max_tokens_rule \<in> set rules)"
    using max_tokens_compiled by (auto simp: catalog_get_def sample_policy_def intro!: exI [of _ "[max_tokens_rule]"])
  show "json_get ''max_tokens'' (raw_tree (fst (read_json sample_codec ''{}''))) = Some (JU64 5)"
    by (simp add: sample_codec_def)
  show "as_f64 (JU64 5) = Some (f64_of_nat 5)" by simp
  have "f64_lt (f64_of_nat 4) (f64_of_nat 5)" by (simp add: f64_lt_of_nat)
  then show "clamp_f64 None (Some (f64_of_nat 4)) (f64_of_nat 5) \<noteq> f64_of_nat 5"
    by (auto simp: clamp_f64_def f64_min_def f64_lt_def f64_is_nan_def f64_magnitude_def f64_of_nat_four)
qed (simp_all add: sample_policy_rule_def)

end
