(* ===== verification/Float_Round.thy ===== *)
theory Float_Round
  imports Complex_Main Json_Compare
begin

text \<open>
  The arithmetic of \<^verbatim>\<open>f64\<close> on the finite values that occur: a float is the rational it denotes, and an operation is
  the exact operation followed by rounding to the nearest float, ties to the even mantissa. The mantissa has 53
  bits and the last place is never below \<open>2 ^ -1074\<close>; nothing here comes near the largest float.
\<close>

definition pow2 :: "int \<Rightarrow> rat" where
  "pow2 e = (if 0 \<le> e then 2 ^ nat e else 1 / 2 ^ nat (- e))"

text \<open>The exponent of a positive value: \<open>pow2 (float_exp x) \<le> x\<close>, and the next power is above \<open>x\<close>.\<close>

definition float_exp :: "rat \<Rightarrow> int" where
  "float_exp x =
     (let (p, q) = quotient_of x;
          k = int (bit_len (nat p)) - int (bit_len (nat q))
      in if pow2 k \<le> x then k else k - 1)"

definition round_half_even :: "rat \<Rightarrow> int" where
  "round_half_even y =
     (let f = \<lfloor>y\<rfloor>; d = y - of_int f
      in if d < 1 / 2 then f else if 1 / 2 < d then f + 1 else if even f then f else f + 1)"

definition float_round :: "rat \<Rightarrow> rat" where
  "float_round x =
     (if x = 0 then 0
      else (let e = max (float_exp \<bar>x\<bar> - 52) (- 1074) in of_int (round_half_even (x / pow2 e)) * pow2 e))"

text \<open>\<^verbatim>\<open>Duration::as_secs_f64\<close>.\<close>

definition as_secs_f64 :: "duration \<Rightarrow> rat" where
  "as_secs_f64 d =
     float_round (float_round (of_nat (d div 1000000000)) + float_round (of_nat (d mod 1000000000) / 1000000000))"

subsection \<open>Lemmas\<close>

lemma pow2_pos [simp]: "0 < pow2 e"
  by (simp add: pow2_def)

lemma pow2_nonneg [simp]: "0 \<le> pow2 e" and pow2_nonzero [simp]: "pow2 e \<noteq> 0"
  using pow2_pos [of e] by linarith+

lemma pow2_le_1: "e \<le> 0 \<Longrightarrow> pow2 e \<le> 1"
  by (simp add: pow2_def)

lemma pow2_nat: "0 \<le> e \<Longrightarrow> pow2 e = 2 ^ nat e"
  by (simp add: pow2_def)

lemma pow2_diff: "pow2 (int a - int b) = 2 ^ a / 2 ^ b"
proof (cases "b \<le> a")
  case True
  then show ?thesis by (simp add: pow2_def power_diff flip: of_nat_diff)
next
  case False
  then have n: "nat (int b - int a) = b - a" and e: "int a < int b" by auto
  have "(2::rat) ^ b = 2 ^ (b - a) * 2 ^ a" using False by (simp flip: power_add)
  with n e show ?thesis by (simp add: pow2_def)
qed

lemma pow2_div_int: "e \<le> 0 \<Longrightarrow> of_int z / pow2 e = of_int (z * 2 ^ nat (- e))"
  by (cases "e = 0") (auto simp: pow2_def)

lemma round_half_even_int [simp]: "round_half_even (of_int z) = z"
  by (simp add: round_half_even_def)

lemma round_half_even_error: "\<bar>of_int (round_half_even y) - y\<bar> \<le> 1 / 2"
proof -
  let ?f = "of_int \<lfloor>y\<rfloor> :: rat"
  have "?f \<le> y" "y < ?f + 1" by linarith+
  then show ?thesis by (auto simp: round_half_even_def Let_def)
qed

lemma round_half_even_nonneg: "0 \<le> y \<Longrightarrow> 0 \<le> round_half_even y"
  by (auto simp: round_half_even_def Let_def)

lemma float_exp_le:
  assumes "0 < x"
  shows "pow2 (float_exp x) \<le> x"
proof -
  obtain p q where pq: "quotient_of x = (p, q)" by fastforce
  have q: "0 < q" using quotient_of_denom_pos [OF pq] .
  have x: "x = of_int p / of_int q" using quotient_of_div [OF pq] .
  with assms q have p: "0 < p" by (simp add: zero_less_divide_iff)
  let ?a = "bit_len (nat p)" and ?b = "bit_len (nat q)"
  have A: "2 ^ (?a - 1) \<le> nat p" "0 < ?a" using bit_len_bounds [of "nat p"] p by auto
  have B: "nat q < 2 ^ ?b" using bit_len_bounds [of "nat q"] q by auto
  have "(2::rat) ^ (?a - 1) \<le> of_int p"
  proof -
    have "(2::rat) ^ (?a - 1) = of_nat (2 ^ (?a - 1))" by simp
    also have "\<dots> \<le> of_nat (nat p)" using A(1) by (simp only: of_nat_le_iff)
    finally show ?thesis using p by simp
  qed
  moreover have "of_int q \<le> (2::rat) ^ ?b"
  proof -
    have "of_nat (nat q) \<le> (of_nat (2 ^ ?b) :: rat)" using B by (simp only: of_nat_le_iff)
    then show ?thesis using q by simp
  qed
  ultimately have "(2::rat) ^ (?a - 1) / 2 ^ ?b \<le> of_int p / of_int q"
    using q p by (intro frac_le) auto
  moreover have "int ?a - int ?b - 1 = int (?a - 1) - int ?b" using A(2) by simp
  ultimately have "pow2 (int ?a - int ?b - 1) \<le> x" by (metis pow2_diff x)
  then show ?thesis by (auto simp: float_exp_def pq Let_def)
qed

text \<open>Below \<open>2 ^ 53\<close> the last place is at most one.\<close>

lemma float_exp_small:
  assumes "0 < x" "x < 2 ^ 53"
  shows "float_exp x - 52 \<le> 0"
proof (rule ccontr)
  assume "\<not> ?thesis"
  then have e: "53 \<le> float_exp x" by simp
  have "(2::rat) ^ 53 \<le> 2 ^ nat (float_exp x)" using e by (intro power_increasing) auto
  also have "\<dots> = pow2 (float_exp x)" using e by (simp add: pow2_nat)
  also have "\<dots> \<le> x" using float_exp_le [OF assms(1)] .
  finally show False using assms(2) by simp
qed

lemma float_round_nonneg: "0 \<le> x \<Longrightarrow> 0 \<le> float_round x"
  by (auto simp: float_round_def Let_def round_half_even_nonneg)

lemma float_round_error:
  assumes "0 \<le> x" "x < 2 ^ 53"
  shows "\<bar>float_round x - x\<bar> \<le> 1 / 2"
proof (cases "x = 0")
  case False
  then have x: "0 < x" using assms by simp
  let ?e = "max (float_exp x - 52) (- 1074)"
  have e: "pow2 ?e \<le> 1" using float_exp_small [OF x assms(2)] by (intro pow2_le_1) simp
  have "float_round x - x = (of_int (round_half_even (x / pow2 ?e)) - x / pow2 ?e) * pow2 ?e"
    using x by (simp add: float_round_def Let_def algebra_simps)
  then have "\<bar>float_round x - x\<bar> = \<bar>of_int (round_half_even (x / pow2 ?e)) - x / pow2 ?e\<bar> * pow2 ?e"
    by (simp add: abs_mult)
  also have "\<dots> \<le> 1 / 2 * 1" using e round_half_even_error by (intro mult_mono) auto
  finally show ?thesis by simp
qed (simp add: float_round_def)

lemma float_round_nat: "n < 2 ^ 53 \<Longrightarrow> float_round (of_nat n) = of_nat n"
proof (cases "n = 0")
  case False
  assume n: "n < 2 ^ 53"
  let ?e = "max (float_exp (of_nat n) - 52) (- 1074)"
  have "of_nat n < (of_nat (2 ^ 53) :: rat)" using n by (simp only: of_nat_less_iff)
  then have "?e \<le> 0" using float_exp_small [of "of_nat n"] False by simp
  then have "of_nat n / pow2 ?e = of_int (int n * 2 ^ nat (- ?e))" using pow2_div_int [of ?e "int n"] by simp
  then have "of_int (round_half_even (of_nat n / pow2 ?e)) = (of_nat n / pow2 ?e :: rat)"
    by (simp only: round_half_even_int)
  with False show ?thesis by (simp add: float_round_def Let_def)
qed (simp add: float_round_def)

lemma as_secs_f64_0 [simp]: "as_secs_f64 0 = 0"
  by (simp add: as_secs_f64_def float_round_def)

lemma as_secs_f64_nonneg: "0 \<le> as_secs_f64 d"
  by (simp add: as_secs_f64_def float_round_nonneg)

end
