(* ===== verification/Edge_Limits.thy ===== *)
theory Edge_Limits
  imports Float_Round
begin

text \<open>
  The process-local limits of the data plane: the request rate limiter and the concurrency limiter of a platform key
  (\<^verbatim>\<open>gateway-api/edge.rs\<close>) and the cache of client operating systems (\<^verbatim>\<open>gateway-api/data.rs\<close>). A \<^verbatim>\<open>HashMap\<close> is kept
  in key order; where the code lets the iteration order decide, the order is an argument. A poisoned lock is
  entered all the same, as in the source.
\<close>

subsection \<open>The rate limiter\<close>

record RateLimit =
  rl_requests_per_minute :: u32
  rl_burst :: u32

definition DEFAULT_MESSAGES :: RateLimit where
  "DEFAULT_MESSAGES = \<lparr>rl_requests_per_minute = 60, rl_burst = 10\<rparr>"

definition DEFAULT_MODELS :: RateLimit where
  "DEFAULT_MODELS = \<lparr>rl_requests_per_minute = 60, rl_burst = 10\<rparr>"

definition DEFAULT_COUNT_TOKENS :: RateLimit where
  "DEFAULT_COUNT_TOKENS = \<lparr>rl_requests_per_minute = 120, rl_burst = 20\<rparr>"

record RateBucket =
  bk_tokens :: rat
  bk_last_refill :: duration

datatype RateDecision = RateAllowed | RateLimited u64

type_synonym RateTable = "(string, RateBucket) btree"

text \<open>\<^verbatim>\<open>f64::from(u32)\<close> is exact.\<close>

definition f64_from :: "u32 \<Rightarrow> rat" where
  "f64_from n = of_nat (unat n)"

definition drop_stale_buckets :: "duration \<Rightarrow> RateTable \<Rightarrow> RateTable" where
  "drop_stale_buckets now buckets =
     (if 32768 < length buckets
      then bt_retain (\<lambda>_ b. dur_saturating_sub now (from_hours 1) \<le> bk_last_refill b) buckets
      else buckets)"

definition refill_per_second :: "RateLimit \<Rightarrow> rat" where
  "refill_per_second config = float_round (f64_from (rl_requests_per_minute config) / 60)"

definition refilled :: "duration \<Rightarrow> RateLimit \<Rightarrow> RateBucket \<Rightarrow> rat" where
  "refilled now config b =
     min (float_round (bk_tokens b +
            float_round (as_secs_f64 (dur_saturating_sub now (bk_last_refill b)) * refill_per_second config)))
         (f64_from (rl_burst config))"

text \<open>\<^verbatim>\<open>as u64\<close> of a float saturates.\<close>

definition retry_seconds :: "RateLimit \<Rightarrow> rat \<Rightarrow> u64" where
  "retry_seconds config tokens =
     of_nat (min (nat (max \<lceil>float_round (float_round (1 - tokens) / refill_per_second config)\<rceil> 1)) (2 ^ 64 - 1))"

definition rate_allow :: "duration \<Rightarrow> string \<Rightarrow> RateLimit \<Rightarrow> RateTable \<Rightarrow> RateDecision \<times> RateTable" where
  "rate_allow now key config buckets =
     (if rl_requests_per_minute config = 0 \<or> rl_burst config = 0 then (RateLimited 60, buckets)
      else
        (let buckets = drop_stale_buckets now buckets;
             bucket = (case bt_get buckets key of
                 None \<Rightarrow> \<lparr>bk_tokens = f64_from (rl_burst config), bk_last_refill = now\<rparr>
               | Some b \<Rightarrow> b);
             tokens = refilled now config bucket
         in if 1 \<le> tokens
            then (RateAllowed, bt_insert key \<lparr>bk_tokens = float_round (tokens - 1), bk_last_refill = now\<rparr> buckets)
            else (RateLimited (retry_seconds config tokens),
                  bt_insert key \<lparr>bk_tokens = tokens, bk_last_refill = now\<rparr> buckets)))"

subsection \<open>The concurrency limiter\<close>

type_synonym ConcurrencyState = "(string, u32) btree"

definition try_acquire :: "string \<Rightarrow> u32 \<Rightarrow> ConcurrencyState \<Rightarrow> bool \<times> ConcurrencyState" where
  "try_acquire key limit active =
     (let n = (case bt_get active key of None \<Rightarrow> 0 | Some n \<Rightarrow> n)
      in if limit \<le> n then (False, bt_insert key n active) else (True, bt_insert key (n + 1) active))"

definition drop_permit :: "string \<Rightarrow> ConcurrencyState \<Rightarrow> ConcurrencyState" where
  "drop_permit key active =
     (case bt_get active key of
        None \<Rightarrow> active
      | Some n \<Rightarrow>
          (let n' = saturating_sub n 1 in if n' = 0 then bt_remove key active else bt_insert key n' active))"

subsection \<open>The cache of client operating systems\<close>

record ClientOsSessionEntry =
  se_os :: ClientOs
  se_last_seen :: duration

type_synonym OsSessions = "(string, ClientOsSessionEntry) btree"

record ClientOsSessionCache =
  oc_entries :: OsSessions
  oc_ttl :: duration
  oc_capacity :: nat

definition os_cache_new :: "duration \<Rightarrow> nat \<Rightarrow> ClientOsSessionCache" where
  "os_cache_new ttl capacity = \<lparr>oc_entries = [], oc_ttl = ttl, oc_capacity = max capacity 1\<rparr>"

definition os_cache_default :: ClientOsSessionCache where
  "os_cache_default = os_cache_new (from_hours 24) 32768"

definition prune_os_sessions :: "duration \<Rightarrow> duration \<Rightarrow> OsSessions \<Rightarrow> OsSessions" where
  "prune_os_sessions now ttl es = bt_retain (\<lambda>_ e. dur_saturating_sub now ttl \<le> se_last_seen e) es"

text \<open>\<open>iter\<close> is the order in which the table is iterated.\<close>

definition oldest_session :: "(OsSessions \<Rightarrow> OsSessions) \<Rightarrow> OsSessions \<Rightarrow> string option" where
  "oldest_session iter es = map_option fst (min_by (\<lambda>a b. cmp (se_last_seen (snd a)) (se_last_seen (snd b))) (iter es))"

definition remember :: "(OsSessions \<Rightarrow> OsSessions) \<Rightarrow> duration \<Rightarrow> string \<Rightarrow> ClientOs \<Rightarrow> ClientOsSessionCache \<Rightarrow> ClientOsSessionCache" where
  "remember iter now digest os c =
     (let es = prune_os_sessions now (oc_ttl c) (oc_entries c);
          es = (if oc_capacity c \<le> length es \<and> bt_get es digest = None
                then (case oldest_session iter es of None \<Rightarrow> es | Some k \<Rightarrow> bt_remove k es)
                else es)
      in c\<lparr>oc_entries := bt_insert digest \<lparr>se_os = os, se_last_seen = now\<rparr> es\<rparr>)"

definition resolve :: "duration \<Rightarrow> string \<Rightarrow> ClientOsSessionCache \<Rightarrow> ClientOs option \<times> ClientOsSessionCache" where
  "resolve now digest c =
     (let es = prune_os_sessions now (oc_ttl c) (oc_entries c)
      in (map_option se_os (bt_get es digest),
          c\<lparr>oc_entries := bt_modify digest (\<lambda>e. e\<lparr>se_last_seen := now\<rparr>) es\<rparr>))"

subsection \<open>Rates\<close>

definition bucket_ok :: "RateLimit \<Rightarrow> RateBucket \<Rightarrow> bool" where
  "bucket_ok config b \<longleftrightarrow> 0 \<le> bk_tokens b \<and> bk_tokens b \<le> f64_from (rl_burst config)"

lemma f64_from_less: "f64_from n < 2 ^ 53"
proof -
  have "unat n < 2 ^ 53" using unat_u32_less [of n] by simp
  then have "of_nat (unat n) < (of_nat (2 ^ 53) :: rat)" by (simp only: of_nat_less_iff)
  then show ?thesis by (simp add: f64_from_def)
qed

lemma f64_from_nonneg [simp]: "0 \<le> f64_from n"
  by (simp add: f64_from_def del: of_nat_unat)

lemma of_nat_le_f64_from [simp]: "of_nat k \<le> f64_from n \<longleftrightarrow> k \<le> unat n"
  by (simp add: f64_from_def del: of_nat_unat)

lemma refill_per_second_nonneg: "0 \<le> refill_per_second config"
  by (simp add: refill_per_second_def float_round_nonneg)

lemma refilled_bounds:
  assumes "0 \<le> bk_tokens b"
  shows "0 \<le> refilled now config b" "refilled now config b \<le> f64_from (rl_burst config)"
  using assms
  by (auto simp: refilled_def intro!: float_round_nonneg add_nonneg_nonneg mult_nonneg_nonneg
      as_secs_f64_nonneg refill_per_second_nonneg)

lemma spent_token_bounds:
  assumes "1 \<le> x" "x \<le> f64_from n"
  shows "0 \<le> float_round (x - 1)" "float_round (x - 1) \<le> f64_from n"
proof -
  note n = f64_from_less [of n]
  have "\<bar>float_round (x - 1) - (x - 1)\<bar> \<le> 1 / 2" using assms n by (intro float_round_error) auto
  then show "float_round (x - 1) \<le> f64_from n" using assms by linarith
qed (use assms in \<open>simp add: float_round_nonneg\<close>)

text \<open>A call leaves the tokens of its key between zero and the burst, whatever they were before.\<close>

lemma allow_bucket_ok:
  assumes "rl_requests_per_minute config \<noteq> 0" "rl_burst config \<noteq> 0"
    and "\<And>b. bt_get buckets key = Some b \<Longrightarrow> 0 \<le> bk_tokens b" "bt_wf buckets"
  shows "\<exists>b. bt_get (snd (rate_allow now key config buckets)) key = Some b \<and> bucket_ok config b \<and> bk_last_refill b = now"
proof -
  let ?bs = "drop_stale_buckets now buckets"
  let ?b = "case bt_get ?bs key of None \<Rightarrow> \<lparr>bk_tokens = f64_from (rl_burst config), bk_last_refill = now\<rparr> | Some b \<Rightarrow> b"
  have "0 \<le> bk_tokens ?b"
    using assms(3,4) by (auto simp: drop_stale_buckets_def bt_get_retain split: option.splits if_splits)
  from refilled_bounds [OF this] show ?thesis
    using assms(1,2) spent_token_bounds [of "refilled now config ?b" "rl_burst config"]
    by (auto simp: rate_allow_def Let_def bucket_ok_def)
qed

lemma refilled_same_instant:
  assumes "n < 2 ^ 53" "n \<le> unat (rl_burst config)"
  shows "refilled now config \<lparr>bk_tokens = of_nat n, bk_last_refill = now\<rparr> = of_nat n"
  using assms float_round_nat [of n] by (simp add: refilled_def float_round_def [of 0] min_def)

text \<open>Repeated calls at one instant.\<close>

fun allow_calls :: "nat \<Rightarrow> duration \<Rightarrow> string \<Rightarrow> RateLimit \<Rightarrow> RateTable \<Rightarrow> RateDecision list" where
  "allow_calls 0 now key config buckets = []"
| "allow_calls (Suc n) now key config buckets =
     (let (d, bs) = rate_allow now key config buckets in d # allow_calls n now key config bs)"

lemma drop_stale_keeps:
  assumes "bt_wf buckets" "bt_get buckets key = Some b" "bk_last_refill b = now"
  shows "bt_get (drop_stale_buckets now buckets) key = Some b"
  using assms by (auto simp: drop_stale_buckets_def bt_get_retain dur_saturating_sub_def)

lemma drop_stale_wf [simp]: "bt_wf buckets \<Longrightarrow> bt_wf (drop_stale_buckets now buckets)"
  by (simp add: drop_stale_buckets_def)

lemma allow_calls_from:
  assumes "rl_requests_per_minute config \<noteq> 0" "rl_burst config \<noteq> 0" "t \<le> unat (rl_burst config)"
    and "bt_wf buckets" "bt_get buckets key = Some \<lparr>bk_tokens = of_nat t, bk_last_refill = now\<rparr>"
  shows "map (\<lambda>d. d = RateAllowed) (allow_calls n now key config buckets) = replicate (min n t) True @ replicate (n - t) False"
  using assms(3-5)
proof (induction n arbitrary: t buckets)
  case (Suc n)
  have small: "t < 2 ^ 53" using Suc.prems(1) unat_u32_less [of "rl_burst config"] by simp
  have get: "bt_get (drop_stale_buckets now buckets) key = Some \<lparr>bk_tokens = of_nat t, bk_last_refill = now\<rparr>"
    using Suc.prems by (intro drop_stale_keeps) auto
  note step = refilled_same_instant [OF small Suc.prems(1), of now]
  show ?case
  proof (cases t)
    case 0
    have "map (\<lambda>d. d = RateAllowed)
        (allow_calls n now key config (bt_insert key \<lparr>bk_tokens = 0, bk_last_refill = now\<rparr> (drop_stale_buckets now buckets)))
        = replicate (min n 0) True @ replicate (n - 0) False"
      by (rule Suc.IH) (use Suc.prems in simp_all)
    with 0 step get assms(1,2) show ?thesis by (simp add: rate_allow_def Let_def)
  next
    case (Suc s)
    have r: "float_round (of_nat s) = (of_nat s :: rat)" using small \<open>t = Suc s\<close> by (intro float_round_nat) simp
    have "map (\<lambda>d. d = RateAllowed)
        (allow_calls n now key config (bt_insert key \<lparr>bk_tokens = of_nat s, bk_last_refill = now\<rparr> (drop_stale_buckets now buckets)))
        = replicate (min n s) True @ replicate (n - s) False"
      by (rule Suc.IH) (use Suc.prems \<open>t = Suc s\<close> in simp_all)
    with \<open>t = Suc s\<close> step get assms(1,2) r show ?thesis by (simp add: rate_allow_def Let_def)
  qed
qed simp

lemma allow_calls_fresh:
  assumes "rl_requests_per_minute config \<noteq> 0" "bt_wf buckets" "bt_get buckets key = None"
  shows "map (\<lambda>d. d = RateAllowed) (allow_calls n now key config buckets) =
     replicate (min n (unat (rl_burst config))) True @ replicate (n - unat (rl_burst config)) False"
proof (cases "n = 0 \<or> rl_burst config = 0")
  case True
  have "allow_calls n now key config buckets = replicate n (RateLimited 60)" if "rl_burst config = 0"
    using that by (induction n) (auto simp: rate_allow_def)
  with True show ?thesis by (auto simp: map_replicate_const)
next
  case False
  then obtain m where m: "n = Suc m" by (cases n) auto
  let ?b = "unat (rl_burst config)" and ?bs = "drop_stale_buckets now buckets"
  from False obtain b where b: "?b = Suc b" by (metis not0_implies_Suc unat_eq_zero)
  have none: "bt_get ?bs key = None"
    using assms by (auto simp: drop_stale_buckets_def bt_get_retain)
  have small: "?b < 2 ^ 53" using unat_u32_less [of "rl_burst config"] by simp
  have f: "f64_from (rl_burst config) = of_nat (Suc b)" by (simp add: f64_from_def b del: of_nat_unat)
  have r: "float_round (of_nat b) = (of_nat b :: rat)" using small b by (intro float_round_nat) simp
  have step: "rate_allow now key config buckets =
      (RateAllowed, bt_insert key \<lparr>bk_tokens = of_nat b, bk_last_refill = now\<rparr> ?bs)"
    using False assms(1) none refilled_same_instant [OF small order_refl, of now] r
    by (simp add: rate_allow_def Let_def f b)
  have "map (\<lambda>d. d = RateAllowed) (allow_calls m now key config (bt_insert key \<lparr>bk_tokens = of_nat b, bk_last_refill = now\<rparr> ?bs))
      = replicate (min m b) True @ replicate (m - b) False"
    by (rule allow_calls_from) (use False assms b in simp_all)
  then show ?thesis by (simp add: m b step)
qed

text \<open>C23. At one instant a new key gets exactly its burst: of any number of calls the first \<^verbatim>\<open>burst\<close> are allowed
  and all others refused. The floating-point arithmetic of the bucket loses and gains nothing here.\<close>

theorem burst_then_limited:
  assumes "rl_requests_per_minute config \<noteq> 0" "bt_wf buckets" "bt_get buckets key = None"
  shows "map (\<lambda>d. d = RateAllowed) (allow_calls n now key config buckets) =
     replicate (min n (unat (rl_burst config))) True @ replicate (n - unat (rl_burst config)) False"
  using assms by (rule allow_calls_fresh)

theorem burst_then_limited_witness:
  "map (\<lambda>d. d = RateAllowed) (allow_calls 12 5 ''messages:k'' DEFAULT_MESSAGES []) =
     replicate 10 True @ replicate 2 False"
  using burst_then_limited [of DEFAULT_MESSAGES "[]" "''messages:k''" 12 5]
  by (simp add: DEFAULT_MESSAGES_def)

subsection \<open>Permits\<close>

text \<open>The limiter with the permits that are alive; a permit is dropped once, when its owner is.\<close>

record Permits =
  pm_active :: ConcurrencyState
  pm_held :: "string list"

definition permits_new :: Permits where
  "permits_new = \<lparr>pm_active = [], pm_held = []\<rparr>"

inductive permit_step :: "Permits \<Rightarrow> Permits \<Rightarrow> bool" where
  acquired: "try_acquire key limit (pm_active s) = (True, a) \<Longrightarrow>
    permit_step s \<lparr>pm_active = a, pm_held = key # pm_held s\<rparr>"
| refused: "try_acquire key limit (pm_active s) = (False, a) \<Longrightarrow> permit_step s (s\<lparr>pm_active := a\<rparr>)"
| dropped: "key \<in> set (pm_held s) \<Longrightarrow>
    permit_step s \<lparr>pm_active = drop_permit key (pm_active s), pm_held = remove1 key (pm_held s)\<rparr>"

definition active_of :: "ConcurrencyState \<Rightarrow> string \<Rightarrow> u32" where
  "active_of a key = (case bt_get a key of None \<Rightarrow> 0 | Some n \<Rightarrow> n)"

definition permits_inv :: "Permits \<Rightarrow> bool" where
  "permits_inv s \<longleftrightarrow> (\<forall>key. unat (active_of (pm_active s) key) = count (mset (pm_held s)) key)"

lemma try_acquire_eq:
  "try_acquire key limit a =
     (if limit \<le> active_of a key then (False, bt_insert key (active_of a key) a)
      else (True, bt_insert key (active_of a key + 1) a))"
  by (simp add: try_acquire_def active_of_def Let_def)

lemma active_of_insert [simp]: "active_of (bt_insert k n a) key = (if key = k then n else active_of a key)"
  by (simp add: active_of_def)

lemma active_of_drop:
  "active_of (drop_permit k a) key = (if key = k then saturating_sub (active_of a k) 1 else active_of a key)"
  by (auto simp: drop_permit_def active_of_def Let_def saturating_sub_def split: option.splits)

lemma unat_suc_less: "(n :: u32) < limit \<Longrightarrow> unat (n + 1) = Suc (unat n)"
  using unat_add_1_less [of n limit] unat_u32_less [of limit]
  by (simp add: word_less_nat_alt unat_word_ariths)

interpretation permits: invariant_system "\<lambda>s. s = permits_new" permit_step permits_inv
proof
  fix s t assume i: "permits_inv s" and "permit_step s t"
  from this(2) show "permits_inv t"
  proof (cases rule: permit_step.cases)
    case (acquired key limit a)
    then have "active_of (pm_active s) key < limit" "a = bt_insert key (active_of (pm_active s) key + 1) (pm_active s)"
      by (auto simp: try_acquire_eq split: if_splits)
    with acquired i show ?thesis by (simp add: permits_inv_def unat_suc_less)
  next
    case (refused key limit a)
    then have "a = bt_insert key (active_of (pm_active s) key) (pm_active s)" by (auto simp: try_acquire_eq split: if_splits)
    with refused i show ?thesis by (simp add: permits_inv_def)
  next
    case (dropped key)
    with i show ?thesis by (auto simp: permits_inv_def active_of_drop unat_saturating_sub)
  qed
qed (simp add: permits_new_def permits_inv_def active_of_def)

text \<open>In every state the limiter can reach, the count it keeps for a key is the number of live permits of that key,
  a permit is granted exactly when fewer than the limit are alive, and a refusal or a grant for one key does not
  touch another.\<close>

theorem permits_counted_exactly:
  assumes "permit_step\<^sup>*\<^sup>* permits_new s"
  shows "unat (active_of (pm_active s) key) = count (mset (pm_held s)) key \<and>
     fst (try_acquire key limit (pm_active s)) = (count (mset (pm_held s)) key < unat limit) \<and>
     (\<forall>other. other \<noteq> key \<longrightarrow>
        active_of (snd (try_acquire key limit (pm_active s))) other = active_of (pm_active s) other)"
proof -
  have "permits_inv s" using permits.reachable_inv assms by blast
  then have "unat (active_of (pm_active s) key) = count (mset (pm_held s)) key" by (simp add: permits_inv_def)
  then show ?thesis by (auto simp: try_acquire_eq word_le_nat_alt not_le)
qed

theorem permits_counted_exactly_witness:
  "fst (try_acquire ''k'' 1 (pm_active \<lparr>pm_active = [(''k'', 1)], pm_held = [''k'']\<rparr>)) =
     (count (mset (pm_held \<lparr>pm_active = [(''k'', 1 :: u32)], pm_held = [''k'']\<rparr>)) ''k'' < unat (1 :: u32))"
proof -
  have "permit_step permits_new \<lparr>pm_active = [(''k'', 1)], pm_held = [''k'']\<rparr>"
    using permit_step.acquired [of "''k''" 1 permits_new "[(''k'', 1)]"] by (simp add: try_acquire_def permits_new_def)
  then have "permit_step\<^sup>*\<^sup>* permits_new \<lparr>pm_active = [(''k'', 1)], pm_held = [''k'']\<rparr>" by blast
  from permits_counted_exactly [OF this, of "''k''" 1] show ?thesis by blast
qed

subsection \<open>Sessions\<close>

interpretation seen: comparator
  "\<lambda>a b. cmp (se_last_seen (snd (a :: string \<times> ClientOsSessionEntry))) (se_last_seen (snd b))" UNIV
  by unfold_locales (auto simp: cmp_def split: if_splits)

definition os_cache_ok :: "ClientOsSessionCache \<Rightarrow> bool" where
  "os_cache_ok c \<longleftrightarrow> bt_wf (oc_entries c) \<and> length (oc_entries c) \<le> oc_capacity c \<and> 0 < oc_capacity c"

lemma prune_wf [simp]: "bt_wf es \<Longrightarrow> bt_wf (prune_os_sessions now ttl es)"
  by (simp add: prune_os_sessions_def)

lemma prune_length: "length (prune_os_sessions now ttl es) \<le> length es"
  by (simp add: prune_os_sessions_def bt_retain_def)

lemma length_insert_present: "bt_wf m \<Longrightarrow> bt_get m k = Some v \<Longrightarrow> length (bt_insert k w m) = length m"
proof (induction m)
  case (Cons p m)
  obtain a b where p: "p = (a, b)" by (cases p)
  have "a \<le> k" using Cons.prems p by (force simp: less_imp_le split: if_splits dest: map_of_SomeD)
  with Cons p show ?case by (auto split: if_splits)
qed simp

lemma min_by_Some: "xs \<noteq> [] \<Longrightarrow> \<exists>m. min_by c xs = Some m"
  by (cases xs) (auto split: option.splits)

text \<open>What \<open>oldest_session\<close> finds when the order is one of the entries.\<close>

lemma oldest_session_spec:
  assumes "set (iter es) = set es" "es \<noteq> []" "bt_wf es"
  obtains k e where "oldest_session iter es = Some k" "bt_get es k = Some e"
    "\<forall>p \<in> set es. se_last_seen e \<le> se_last_seen (snd p)"
proof -
  obtain m where m: "min_by (\<lambda>a b. cmp (se_last_seen (snd a)) (se_last_seen (snd b))) (iter es) = Some m"
    using min_by_Some assms(1,2) by (metis set_empty)
  from seen.min_by_least [OF _ m] assms(1) have "m \<in> set es" "\<forall>x\<in>set es. se_last_seen (snd m) \<le> se_last_seen (snd x)"
    by (auto simp: cmp_def split: if_splits)
  with m assms(3) that [of "fst m" "snd m"] show ?thesis
    by (auto simp: oldest_session_def bt_get_eq_Some)
qed

lemma remember_ok:
  assumes "\<And>es. set (iter es) = set es" "os_cache_ok c"
  shows "os_cache_ok (remember iter now digest os c)"
proof -
  let ?es = "prune_os_sessions now (oc_ttl c) (oc_entries c)"
  have wf: "bt_wf ?es" and len: "length ?es \<le> oc_capacity c" "0 < oc_capacity c"
    using assms(2) prune_length [of now "oc_ttl c" "oc_entries c"] by (auto simp: os_cache_ok_def)
  show ?thesis
  proof (cases "bt_get ?es digest")
    case (Some e)
    then show ?thesis using wf len by (simp add: remember_def os_cache_ok_def length_insert_present)
  next
    case None
    show ?thesis
    proof (cases "oc_capacity c \<le> length ?es")
      case True
      then have "?es \<noteq> []" using len by auto
      then obtain k e where k: "oldest_session iter ?es = Some k" "bt_get ?es k = Some e"
        using oldest_session_spec [of iter ?es] assms(1) wf by metis
      have "length (bt_insert digest \<lparr>se_os = os, se_last_seen = now\<rparr> (bt_remove k ?es)) = length ?es"
        using length_bt_remove [OF wf k(2)] None by (subst length_bt_insert) auto
      with True None k wf len show ?thesis by (simp add: remember_def os_cache_ok_def)
    next
      case False
      with None wf len show ?thesis by (simp add: remember_def os_cache_ok_def length_bt_insert)
    qed
  qed
qed

lemma resolve_ok: "os_cache_ok c \<Longrightarrow> os_cache_ok (snd (resolve now digest c))"
  using prune_length [of now "oc_ttl c" "oc_entries c"] by (simp add: resolve_def os_cache_ok_def Let_def)

text \<open>The calls a cache gets.\<close>

datatype OsCall = Remember duration string ClientOs | Resolve duration string

fun os_call :: "(OsSessions \<Rightarrow> OsSessions) \<Rightarrow> OsCall \<Rightarrow> ClientOsSessionCache \<Rightarrow> ClientOsSessionCache" where
  "os_call iter (Remember now digest os) c = remember iter now digest os c"
| "os_call iter (Resolve now digest) c = snd (resolve now digest c)"

lemma os_calls_ok:
  "(\<And>es. set (iter es) = set es) \<Longrightarrow> os_cache_ok c \<Longrightarrow> os_cache_ok (fold (os_call iter) calls c)"
proof (induction calls arbitrary: c)
  case (Cons call calls)
  then show ?case by (cases call) (simp_all add: remember_ok resolve_ok)
qed simp

lemma os_call_config [simp]: "oc_ttl (os_call iter call c) = oc_ttl c \<and> oc_capacity (os_call iter call c) = oc_capacity c"
  by (cases call) (simp_all add: remember_def resolve_def Let_def)

lemma os_calls_config:
  "oc_ttl (fold (os_call iter) calls c) = oc_ttl c \<and> oc_capacity (fold (os_call iter) calls c) = oc_capacity c"
  by (induction calls arbitrary: c) simp_all

text \<open>After any calls the cache holds at most its capacity, and what is remembered for a session is what the next
  look-up of that session finds while its time to live has not passed.\<close>

theorem os_cache_sticky_and_bounded:
  assumes "\<And>es. set (iter es) = set es"
  shows "let c = fold (os_call iter) calls (os_cache_new ttl capacity);
             c' = remember iter now digest os c
         in length (oc_entries c') \<le> max capacity 1 \<and>
            (if dur_saturating_sub later ttl \<le> now then fst (resolve later digest c') = Some os
             else fst (resolve later digest c') = None)"
proof -
  let ?c = "fold (os_call iter) calls (os_cache_new ttl capacity)"
  let ?c' = "remember iter now digest os ?c"
  have ok: "os_cache_ok ?c" using assms by (intro os_calls_ok) (auto simp: os_cache_new_def os_cache_ok_def)
  have conf: "oc_ttl ?c' = ttl" "oc_capacity ?c' = max capacity 1"
    using os_calls_config [of iter calls "os_cache_new ttl capacity"] by (simp_all add: remember_def Let_def os_cache_new_def)
  have ok': "os_cache_ok ?c'" using remember_ok [OF assms ok] .
  have get: "bt_get (oc_entries ?c') digest = Some \<lparr>se_os = os, se_last_seen = now\<rparr>" by (simp add: remember_def Let_def)
  have "fst (resolve later digest ?c') = (if dur_saturating_sub later ttl \<le> now then Some os else None)"
    using ok' get conf(1) by (simp add: resolve_def Let_def prune_os_sessions_def bt_get_retain os_cache_ok_def)
  with ok' conf(2) show ?thesis by (simp add: Let_def os_cache_ok_def)
qed

theorem os_cache_sticky_and_bounded_witness:
  "fst (resolve 9 ''s'' (remember id 4 ''s'' Linux
     (fold (os_call id) [Remember 1 ''a'' Windows, Remember 2 ''b'' MacOs] (os_cache_new 10 2)))) = Some Linux"
  using os_cache_sticky_and_bounded
    [of id "[Remember 1 ''a'' Windows, Remember 2 ''b'' MacOs]" 10 2 4 "''s''" Linux 9]
  by (simp add: Let_def dur_saturating_sub_def)

end
