(* ===== verification/Edge_Request.thy ===== *)
theory Edge_Request
  imports Policy_Engine Edge_Limits
begin

text \<open>
  What the data plane reads off a request before it takes any resource (\<^verbatim>\<open>gateway-api/edge.rs\<close>, the access grants of
  \<^verbatim>\<open>data.rs\<close>): authentication, framing, the source address, the class, session and operating system of the client,
  and the query of the model list. A \<^verbatim>\<open>HeaderMap\<close> is the list of its fields in the order of arrival, names in lower
  case, each value as \<^verbatim>\<open>to_str\<close> shows it: \<open>None\<close> when it is not visible ASCII.
\<close>

subsection \<open>Data\<close>

datatype Provider = ProviderAnthropic | ProviderOpenai

datatype OpenAiEndpoint = Responses | ChatCompletions | Compact

datatype EndpointPermission = PermitMessages | PermitModels

datatype DispatchEndpoint = DispatchMessages | DispatchCountTokens | DispatchOpenAi OpenAiEndpoint

datatype SpendDecision = SpendAllowed | SpendLimited | SpendUnavailable

record 'net AccessGrant =
  ag_provider :: Provider
  ag_owner_user_id :: UserId
  ag_platform_key_id :: PlatformKeyId
  ag_group_id :: GroupId
  ag_permissions :: "EndpointPermission set"
  ag_key_model_scope :: "string set"
  ag_group_model_scope :: "string set"
  ag_body_limit_bytes :: nat
  ag_messages_rate :: RateLimit
  ag_count_tokens_rate :: RateLimit
  ag_models_rate :: RateLimit
  ag_concurrency_limit :: u32
  ag_ip_allowlist :: "'net list"
  ag_accepted_client_classes :: "ClientClass set"
  ag_default_os_family :: ClientOs
  ag_policy :: RequestPolicy

record ModelRecord =
  mr_openai_metadata :: "Json option"
  mr_provider :: Provider
  mr_id :: string
  mr_display_name :: string
  mr_created_at :: string

type_synonym HeaderMap = "(string \<times> string option) list"

text \<open>The code outside the repository that the edge calls. \<open>http_name\<close> and \<open>http_value\<close> are \<^verbatim>\<open>from_bytes\<close> of the \<^verbatim>\<open>http\<close>
  crate; \<open>hmac\<close> is HMAC-SHA-256, \<open>None\<close> for a key it does not take.\<close>

record ('ip, 'net) EdgeLib =
  el_codec :: Codec
  el_json_from_slice :: "string \<Rightarrow> Json option"
  el_json_to_string :: "Json \<Rightarrow> string"
  el_parse_ip :: "string \<Rightarrow> 'ip option"
  el_net_contains :: "'net \<Rightarrow> 'ip \<Rightarrow> bool"
  el_hmac :: "string \<Rightarrow> string \<Rightarrow> string option"
  el_lossy :: "string \<Rightarrow> string"
  el_http_name :: "string \<Rightarrow> string option"
  el_http_value :: "string \<Rightarrow> bool"

definition edge_digest :: "('ip, 'net) EdgeLib \<Rightarrow> string \<Rightarrow> string" where
  "edge_digest L s = digest_of (sha256_bytes (el_codec L)) s"

record GatewayError =
  ge_status :: nat
  ge_kind :: string
  ge_message :: string
  ge_retry_after :: "u64 option"
  ge_allow :: "string option"

definition gateway_error :: "nat \<Rightarrow> string \<Rightarrow> string \<Rightarrow> GatewayError" where
  "gateway_error status kind message =
     \<lparr>ge_status = status, ge_kind = kind, ge_message = message, ge_retry_after = None, ge_allow = None\<rparr>"

definition err_authentication :: GatewayError where
  "err_authentication = gateway_error 401 ''authentication_error'' ''Invalid API key.''"

definition err_permission :: GatewayError where
  "err_permission = gateway_error 403 ''permission_error'' ''This request is not permitted.''"

definition err_not_found :: GatewayError where
  "err_not_found = gateway_error 404 ''not_found_error'' ''The requested resource could not be found.''"

definition err_method :: "string \<Rightarrow> GatewayError" where
  "err_method allow = (gateway_error 405 ''invalid_request_error'' ''Method not allowed.'')\<lparr>ge_allow := Some allow\<rparr>"

definition err_invalid_body :: GatewayError where
  "err_invalid_body = gateway_error 400 ''invalid_request_error'' ''Invalid request body.''"

definition err_model_unavailable :: GatewayError where
  "err_model_unavailable =
     gateway_error 400 ''invalid_request_error'' ''The requested model is not available for this API key.''"

definition err_bundle_unavailable :: GatewayError where
  "err_bundle_unavailable =
     gateway_error 503 ''bundle_unavailable'' ''The requested client environment is temporarily unavailable.''"

definition err_too_large :: GatewayError where
  "err_too_large = gateway_error 413 ''request_too_large'' ''Request is too large.''"

definition err_rate_limited :: "u64 \<Rightarrow> GatewayError" where
  "err_rate_limited retry_after =
     (gateway_error 429 ''rate_limit_error'' ''Rate limit exceeded.'')\<lparr>ge_retry_after := Some (max retry_after 1)\<rparr>"

definition err_unavailable :: "u64 \<Rightarrow> GatewayError" where
  "err_unavailable retry_after =
     (gateway_error 503 ''api_error'' ''Service unavailable.'')\<lparr>ge_retry_after := Some (max retry_after 1)\<rparr>"

definition err_unavailable_without_retry :: GatewayError where
  "err_unavailable_without_retry = gateway_error 503 ''api_error'' ''Service unavailable.''"

definition err_timeout :: GatewayError where
  "err_timeout = gateway_error 504 ''timeout_error'' ''Request timed out.''"

definition err_internal :: GatewayError where
  "err_internal = (gateway_error 500 ''api_error'' ''Internal server error.'')\<lparr>ge_retry_after := Some 1\<rparr>"

fun map_policy_error :: "PolicyError \<Rightarrow> GatewayError" where
  "map_policy_error ModelUnavailable = err_model_unavailable"
| "map_policy_error (CapabilityViolation ds) =
     (case ds of
        [] \<Rightarrow> err_invalid_body
      | (path, code) # _ \<Rightarrow>
          gateway_error 400 ''invalid_request_error'' (''Invalid request at '' @ path @ '': '' @ code @ ''.''))"
| "map_policy_error CapabilityRuntimeConflict = err_internal"
| "map_policy_error SerializerFailed = err_internal"
| "map_policy_error CapabilityPathExpansionLimit = err_invalid_body"
| "map_policy_error (PolicyParse _) = err_invalid_body"
| "map_policy_error InvalidStructure = err_invalid_body"

subsection \<open>Headers\<close>

definition get_all :: "string \<Rightarrow> HeaderMap \<Rightarrow> string option list" where
  "get_all name h = map snd (filter (\<lambda>p. fst p = name) h)"

definition contains_header :: "string \<Rightarrow> HeaderMap \<Rightarrow> bool" where
  "contains_header name h \<longleftrightarrow> get_all name h \<noteq> []"

text \<open>\<^verbatim>\<open>headers.get(name).and_then(|v| v.to_str().ok())\<close>: the first value.\<close>

definition header_first :: "string \<Rightarrow> HeaderMap \<Rightarrow> string option" where
  "header_first name h = (case get_all name h of [] \<Rightarrow> None | v # _ \<Rightarrow> v)"

definition remove_header :: "string \<Rightarrow> HeaderMap \<Rightarrow> HeaderMap" where
  "remove_header name h = filter (\<lambda>p. fst p \<noteq> name) h"

definition header_string :: "HeaderMap \<Rightarrow> string \<Rightarrow> string option" where
  "header_string h name =
     (case get_all name h of
        [Some v] \<Rightarrow> if v \<noteq> [] \<and> length v \<le> 1024 then Some v else None
      | _ \<Rightarrow> None)"

definition header_contains :: "HeaderMap \<Rightarrow> string \<Rightarrow> string \<Rightarrow> bool" where
  "header_contains h name needle \<longleftrightarrow> is_some_and (header_string h name) (\<lambda>v. contains_str needle (str_lower v))"

subsection \<open>Authentication\<close>

definition normalize_api_key :: "string \<Rightarrow> string option" where
  "normalize_api_key v =
     (if v = [] \<or> str_trim v \<noteq> v \<or> 512 < length v \<or> CHR '','' \<in> set v then None else Some v)"

definition normalize_bearer :: "string \<Rightarrow> string option" where
  "normalize_bearer v =
     (case split_once (CHR '' '') v of
        None \<Rightarrow> None
      | Some (scheme, secret) \<Rightarrow>
          if \<not> eq_ignore_ascii_case scheme ''bearer'' \<or> CHR '' '' \<in> set secret then None
          else normalize_api_key secret)"

definition constant_equal :: "string \<Rightarrow> string \<Rightarrow> bool" where
  "constant_equal left right \<longleftrightarrow> length left = length right \<and> left = right"

definition scrub_auth :: "HeaderMap \<Rightarrow> HeaderMap" where
  "scrub_auth h = remove_header ''authorization'' (remove_header ''x-api-key'' h)"

definition select_secret :: "HeaderMap \<Rightarrow> string option" where
  "select_secret h =
     (let api_values = get_all ''x-api-key'' h; auth_values = get_all ''authorization'' h
      in if 1 < length api_values \<or> 1 < length auth_values \<or> (api_values = [] \<and> auth_values = []) then None
         else
           (let api = Option.bind (header_first ''x-api-key'' h) normalize_api_key;
                bearer = Option.bind (header_first ''authorization'' h) normalize_bearer
            in case (api, bearer) of
                 (Some a, Some b) \<Rightarrow> if constant_equal a b then Some a else None
               | (Some a, None) \<Rightarrow> if auth_values = [] then Some a else None
               | (None, Some b) \<Rightarrow> if api_values = [] then Some b else None
               | (None, None) \<Rightarrow> None))"

definition authenticate ::
  "HeaderMap \<Rightarrow> (string \<Rightarrow> 'net AccessGrant option) \<Rightarrow> 'net AccessGrant option \<times> HeaderMap" where
  "authenticate h access = (Option.bind (select_secret h) access, scrub_auth h)"

text \<open>The resolvers look through all entries; the last match counts.\<close>

definition find_digest :: "string \<Rightarrow> (string \<times> 'net AccessGrant) list \<Rightarrow> 'net AccessGrant option" where
  "find_digest candidate entries = fold (\<lambda>(digest, grant) found. if digest = candidate then Some grant else found) entries None"

definition deny_all_resolve :: "string \<Rightarrow> 'net AccessGrant option" where
  "deny_all_resolve secret = None"

definition in_memory_new ::
  "('ip, 'net) EdgeLib \<Rightarrow> (string \<times> 'net AccessGrant) list \<Rightarrow> (string \<times> 'net AccessGrant) list" where
  "in_memory_new L entries = map (\<lambda>(secret, grant). (sha256_bytes (el_codec L) secret, grant)) entries"

definition in_memory_resolve ::
  "('ip, 'net) EdgeLib \<Rightarrow> (string \<times> 'net AccessGrant) list \<Rightarrow> string \<Rightarrow> 'net AccessGrant option" where
  "in_memory_resolve L entries secret = find_digest (sha256_bytes (el_codec L) secret) entries"

definition lookup_digest :: "('ip, 'net) EdgeLib \<Rightarrow> string \<Rightarrow> string \<Rightarrow> string option" where
  "lookup_digest L key secret = el_hmac L key (''gateway-secret-lookup-v1'' @ secret)"

definition versioned_resolve ::
  "('ip, 'net) EdgeLib \<Rightarrow> string \<Rightarrow> (string \<times> 'net AccessGrant) list \<Rightarrow> string \<Rightarrow> 'net AccessGrant option" where
  "versioned_resolve L digest_key entries secret =
     (case lookup_digest L digest_key (''platform-key:v1:'' @ secret) of
        None \<Rightarrow> None
      | Some candidate \<Rightarrow> find_digest candidate entries)"

subsection \<open>Framing\<close>

definition content_length :: "HeaderMap \<Rightarrow> nat option" where
  "content_length h = Option.bind (header_first ''content-length'' h) (parse_unsigned USIZE_MAX)"

definition is_utf8_charset :: "string \<Rightarrow> bool" where
  "is_utf8_charset parameter \<longleftrightarrow>
     is_some_and (split_once (CHR ''='') parameter) (\<lambda>(name, v).
       eq_ignore_ascii_case (str_trim name) ''charset'' \<and> eq_ignore_ascii_case (str_trim v) ''utf-8'')"

definition valid_content_type :: "string \<Rightarrow> bool" where
  "valid_content_type v \<longleftrightarrow>
     (case map str_trim (split_on (CHR '';'') v) of
        [] \<Rightarrow> False
      | media # parameters \<Rightarrow>
          eq_ignore_ascii_case media ''application/json'' \<and> list_all is_utf8_charset parameters)"

definition validate_framing :: "HeaderMap \<Rightarrow> GatewayError + unit" where
  "validate_framing h =
     (if length (get_all ''content-type'' h) \<noteq> 1 \<or> 1 < length (get_all ''content-length'' h) \<or>
         1 < length (get_all ''transfer-encoding'' h) \<or>
         (contains_header ''content-length'' h \<and> contains_header ''transfer-encoding'' h)
      then Inl err_invalid_body
      else (case header_first ''content-type'' h of
          None \<Rightarrow> Inl err_invalid_body
        | Some content_type \<Rightarrow>
            if \<not> valid_content_type content_type then Inl err_invalid_body
            else if is_some_and (header_first ''content-encoding'' h) (\<lambda>v. \<not> eq_ignore_ascii_case v ''identity'')
            then Inl err_invalid_body
            else if contains_header ''content-length'' h \<and> content_length h = None then Inl err_invalid_body
            else Inr ()))"

subsection \<open>The source address\<close>

definition trusted_contains :: "('ip, 'net) EdgeLib \<Rightarrow> 'net list \<Rightarrow> 'ip \<Rightarrow> bool" where
  "trusted_contains L networks address \<longleftrightarrow> list_ex (\<lambda>n. el_net_contains L n address) networks"

fun collect_options :: "'a option list \<Rightarrow> 'a list option" where
  "collect_options [] = Some []"
| "collect_options (x # xs) = (case x of None \<Rightarrow> None | Some v \<Rightarrow> map_option (Cons v) (collect_options xs))"

definition forwarded_chain :: "('ip, 'net) EdgeLib \<Rightarrow> string \<Rightarrow> 'ip list" where
  "forwarded_chain L forwarded =
     (case collect_options (map (\<lambda>p. el_parse_ip L (str_trim p)) (split_on (CHR '','') forwarded)) of
        None \<Rightarrow> [] | Some chain \<Rightarrow> chain)"

definition source_ip :: "('ip, 'net) EdgeLib \<Rightarrow> 'net list \<Rightarrow> 'ip \<Rightarrow> HeaderMap \<Rightarrow> 'ip" where
  "source_ip L trusted peer h =
     (if \<not> trusted_contains L trusted peer then peer
      else (case header_first ''x-forwarded-for'' h of
          None \<Rightarrow> peer
        | Some forwarded \<Rightarrow>
            (case find (\<lambda>a. \<not> trusted_contains L trusted a) (rev (forwarded_chain L forwarded @ [peer])) of
               None \<Rightarrow> peer | Some a \<Rightarrow> a)))"

definition ip_allowed :: "('ip, 'net) EdgeLib \<Rightarrow> 'net list \<Rightarrow> 'ip \<Rightarrow> bool" where
  "ip_allowed L allowlist source \<longleftrightarrow> allowlist = [] \<or> list_ex (\<lambda>n. el_net_contains L n source) allowlist"

subsection \<open>The client\<close>

definition valid_identity_component :: "string \<Rightarrow> bool" where
  "valid_identity_component v \<longleftrightarrow>
     v \<noteq> [] \<and> length v \<le> 128 \<and> list_all (\<lambda>c. is_ascii_alphanumeric c \<or> c \<in> set ''-_:.'') v"

text \<open>\<^verbatim>\<open>rsplit_once\<close> at a string: the parts around its last occurrence.\<close>

definition rsplit_once_str :: "string \<Rightarrow> string \<Rightarrow> (string \<times> string) option" where
  "rsplit_once_str p s =
     map_option (\<lambda>k. (take (length s - k - length p) s, drop (length s - k) s)) (find_str (rev p) (rev s))"

definition metadata_user_id :: "Json \<Rightarrow> string option" where
  "metadata_user_id tree = Option.bind (value_pointer ''/metadata/user_id'' tree) as_str_value"

definition metadata_session_id :: "('ip, 'net) EdgeLib \<Rightarrow> Json \<Rightarrow> string option" where
  "metadata_session_id L tree =
     (case map_option str_trim (metadata_user_id tree) of
        None \<Rightarrow> None
      | Some user_id \<Rightarrow>
          (case rsplit_once_str ''_session_'' user_id of
             Some (_, suffix) \<Rightarrow> Some (str_trim suffix)
           | None \<Rightarrow>
               if starts_with ''{'' user_id
               then map_option str_trim
                 (Option.bind (Option.bind (el_json_from_slice L user_id) (json_get ''session_id'')) as_str_value)
               else None))"

record ClassifiedClient =
  cc_class :: ClientClass
  cc_base_session :: SessionId
  cc_agent :: AgentId
  cc_session_cache_key :: "string option"
  cc_identity_conflict :: bool

text \<open>The fallback of \<^verbatim>\<open>unwrap_or_else\<close> is itself a valid identifier, so its abort is never reached.\<close>

definition id_or :: "string \<Rightarrow> string \<Rightarrow> 'tag TypedId" where
  "id_or fallback v = (case TypedId_new v of Inr i \<Rightarrow> i | Inl _ \<Rightarrow> TypedId fallback)"

definition client_signals :: "('ip, 'net) EdgeLib \<Rightarrow> HeaderMap \<Rightarrow> Json \<Rightarrow> nat" where
  "client_signals L h tree =
     length (filter id
       [header_contains h ''user-agent'' ''claude-code'',
        header_string h ''x-claude-code-session-id'' \<noteq> None,
        header_contains h ''x-app'' ''claude'' \<or> header_contains h ''x-stainless-lang'' ''js'',
        is_some_and (metadata_user_id tree) (\<lambda>v. contains_str ''session'' v \<or> starts_with ''user_'' v),
        is_some_and (json_get ''system'' tree) (\<lambda>s. contains_str ''claude code'' (str_lower (el_json_to_string L s)))])"

fun class_debug :: "ClientClass \<Rightarrow> string" where
  "class_debug ClaudeCodeCli = ''ClaudeCodeCli''"
| "class_debug NonClaudeCodeCli = ''NonClaudeCodeCli''"

definition session_seed :: "PlatformKeyId \<Rightarrow> ClientClass \<Rightarrow> string option \<Rightarrow> string" where
  "session_seed key class session =
     (case session of
        None \<Rightarrow> ''anonymous-session:v1|'' @ as_str key @ ''|'' @ class_debug class
      | Some s \<Rightarrow> ''claude-session:v1|'' @ s)"

definition filter_option :: "('a \<Rightarrow> bool) \<Rightarrow> 'a option \<Rightarrow> 'a option" where
  "filter_option P x = (case x of Some v \<Rightarrow> if P v then Some v else None | None \<Rightarrow> None)"

definition classify_client :: "('ip, 'net) EdgeLib \<Rightarrow> HeaderMap \<Rightarrow> Json \<Rightarrow> PlatformKeyId \<Rightarrow> ClassifiedClient" where
  "classify_client L h tree key =
     (let class = (if 2 \<le> client_signals L h tree then ClaudeCodeCli else NonClaudeCodeCli);
          header_session = filter_option valid_identity_component (header_string h ''x-claude-code-session-id'');
          metadata_session = filter_option valid_identity_component (metadata_session_id L tree);
          conflict = is_some_and header_session (\<lambda>a. is_some_and metadata_session (\<lambda>b. a \<noteq> b));
          selected = (if conflict then None else case header_session of Some s \<Rightarrow> Some s | None \<Rightarrow> metadata_session);
          session = edge_digest L (session_seed key class selected);
          agent_source = (case filter_option valid_identity_component (header_string h ''x-claude-code-agent-id'') of
              Some a \<Rightarrow> a | None \<Rightarrow> ''main'');
          agent = edge_digest L (''claude-agent:v1|'' @ agent_source)
      in \<lparr>cc_class = class,
          cc_base_session = id_or ''ses_fallback'' (''ses_'' @ take 32 session),
          cc_agent = id_or ''agt_fallback'' (''agt_'' @ take 32 agent),
          cc_session_cache_key = map_option (\<lambda>s. edge_digest L (''client-os-session:v1|'' @ s)) header_session,
          cc_identity_conflict = conflict\<rparr>)"

subsection \<open>The operating system of the client\<close>

definition parse_client_os :: "string \<Rightarrow> ClientOs option" where
  "parse_client_os v =
     (let s = str_lower (str_trim v)
      in if s = ''windows'' then Some Windows
         else if s = ''macos'' \<or> s = ''mac_os'' \<or> s = ''mac os'' then Some MacOs
         else if s = ''linux'' then Some Linux
         else None)"

fun os_of_family :: "OsFamily \<Rightarrow> ClientOs" where
  "os_of_family OsWindows = Windows"
| "os_of_family OsMacos = MacOs"
| "os_of_family OsLinux = Linux"

definition environment_os :: "Json \<Rightarrow> ClientOs option" where
  "environment_os tree =
     map_option os_of_family
       (Option.bind (Option.bind (map_option parse_segments (json_get ''system'' tree)) sg_environment) platform_normalized)"

definition remember_for ::
  "(OsSessions \<Rightarrow> OsSessions) \<Rightarrow> duration \<Rightarrow> string option \<Rightarrow> ClientOs \<Rightarrow> ClientOsSessionCache \<Rightarrow> ClientOsSessionCache" where
  "remember_for iter now key os c = (case key of None \<Rightarrow> c | Some k \<Rightarrow> remember iter now k os c)"

definition resolve_client_os ::
  "(OsSessions \<Rightarrow> OsSessions) \<Rightarrow> duration \<Rightarrow> HeaderMap \<Rightarrow> Json \<Rightarrow> ClientOs \<Rightarrow> string option \<Rightarrow> ClientOsSessionCache \<Rightarrow>
   (ClientOs \<times> OsResolution \<times> bool) \<times> ClientOsSessionCache" where
  "resolve_client_os iter now h tree default_os key c =
     (let header_os = Option.bind (header_string h ''x-stainless-os'') parse_client_os;
          env_os = environment_os tree
      in case (header_os, env_os) of
           (Some os, _) \<Rightarrow> ((os, OsHeader, is_some_and env_os (\<lambda>e. os \<noteq> e)), remember_for iter now key os c)
         | (None, Some os) \<Rightarrow> ((os, EnvironmentOnly, False), remember_for iter now key os c)
         | (None, None) \<Rightarrow>
             (case key of
                None \<Rightarrow> ((default_os, GroupDefault, False), c)
              | Some k \<Rightarrow>
                  (case resolve now k c of
                     (Some os, c') \<Rightarrow> ((os, SessionSticky, False), c')
                   | (None, c') \<Rightarrow> ((default_os, GroupDefault, False), c'))))"

definition protocol_headers :: "HeaderMap \<Rightarrow> (string, Json) btree" where
  "protocol_headers h =
     fold (\<lambda>name m. case header_string h name of None \<Rightarrow> m | Some v \<Rightarrow> bt_insert name (JString v) m)
       [''anthropic-version'', ''anthropic-beta''] []"

definition model_in_scope :: "string \<Rightarrow> string set \<Rightarrow> bool" where
  "model_in_scope model scope \<longleftrightarrow> scope = {} \<or> model \<in> scope"

subsection \<open>The advertised client\<close>

record ClientIdentity =
  ci_name :: "string option"
  ci_version :: "string option"

definition is_ascii_space :: "char \<Rightarrow> bool" where
  "is_ascii_space c \<longleftrightarrow> byte c = 32 \<or> byte c = 9 \<or> byte c = 10 \<or> byte c = 12 \<or> byte c = 13"

text \<open>\<^verbatim>\<open>split_ascii_whitespace\<close>; \<open>word\<close> is the piece read so far, reversed.\<close>

fun ascii_words :: "string \<Rightarrow> string \<Rightarrow> string list" where
  "ascii_words [] word = (if word = [] then [] else [rev word])"
| "ascii_words (c # s) word =
     (if is_ascii_space c then (if word = [] then ascii_words s [] else rev word # ascii_words s [])
      else ascii_words s (c # word))"

definition product_of :: "string \<Rightarrow> (string \<times> string option) option" where
  "product_of word =
     (case split_once (CHR ''/'') word of
        None \<Rightarrow> None
      | Some (name, v) \<Rightarrow>
          if name = [] \<or> 80 < length name \<or> \<not> list_all (\<lambda>c. is_ascii_alphanumeric c \<or> c \<in> set ''-_.'') name then None
          else
            (let v = trim_end_matches (\<lambda>c. c \<in> set '';),'') v
             in Some (name, if v \<noteq> [] \<and> length v \<le> 80 \<and> list_all (\<lambda>c. is_ascii_alphanumeric c \<or> c \<in> set ''-_.+'') v
                            then Some v else None)))"

definition known_product :: "string \<Rightarrow> string option" where
  "known_product name =
     (let n = str_lower name
      in if n \<in> {''claude-cli'', ''claude-code''} then Some ''Claude Code''
         else if n \<in> {''codex_cli_rs'', ''codex-cli'', ''codex''} then Some ''Codex''
         else None)"

definition from_user_agent :: "string option \<Rightarrow> ClientIdentity" where
  "from_user_agent user_agent =
     (let products = List.map_filter product_of (case user_agent of None \<Rightarrow> [] | Some ua \<Rightarrow> ascii_words ua []);
          chosen = (case find (\<lambda>p. known_product (fst p) \<noteq> None) products of
              Some p \<Rightarrow> Some p | None \<Rightarrow> (case products of [] \<Rightarrow> None | p # _ \<Rightarrow> Some p))
      in case chosen of
           None \<Rightarrow> \<lparr>ci_name = None, ci_version = None\<rparr>
         | Some (name, v) \<Rightarrow> \<lparr>ci_name = Some (case known_product name of None \<Rightarrow> name | Some k \<Rightarrow> k), ci_version = v\<rparr>)"

subsection \<open>The list of models\<close>

definition static_catalog_new :: "ModelRecord list \<Rightarrow> ModelRecord list" where
  "static_catalog_new models =
     fold (\<lambda>m kept. if kept \<noteq> [] \<and> mr_id (last kept) = mr_id m then kept else kept @ [m]) (sort_key mr_id models) []"

record ModelsQuery =
  mq_limit :: nat
  mq_after_id :: "string option"

definition hex_value :: "char \<Rightarrow> nat option" where
  "hex_value c =
     (if CHR ''0'' \<le> c \<and> c \<le> CHR ''9'' then Some (byte c - 48)
      else if CHR ''a'' \<le> c \<and> c \<le> CHR ''f'' then Some (byte c - 97 + 10)
      else if CHR ''A'' \<le> c \<and> c \<le> CHR ''F'' then Some (byte c - 65 + 10)
      else None)"

fun percent_bytes :: "string \<Rightarrow> string option" where
  "percent_bytes [] = Some []"
| "percent_bytes (c # s) =
     (case (c = CHR ''%'', s) of
        (True, h # l # r) \<Rightarrow>
          (case (hex_value h, hex_value l) of
             (Some high, Some low) \<Rightarrow> map_option (Cons (char_of (high * 16 + low))) (percent_bytes r)
           | _ \<Rightarrow> None)
      | _ \<Rightarrow> map_option (Cons (if c = CHR ''+'' then CHR '' '' else c)) (percent_bytes s))"

definition percent_decode :: "string \<Rightarrow> string option" where
  "percent_decode v = Option.bind (percent_bytes v) (\<lambda>bytes. if utf8_chars bytes = None then None else Some bytes)"

definition query_pair :: "string \<Rightarrow> nat option \<times> string option \<Rightarrow> GatewayError + nat option \<times> string option" where
  "query_pair pair = (\<lambda>(limit, after_id).
     (let (name, raw) = (case split_once (CHR ''='') pair of None \<Rightarrow> (pair, []) | Some p \<Rightarrow> p)
      in case percent_decode raw of
           None \<Rightarrow> Inl err_invalid_body
         | Some v \<Rightarrow>
             if name = ''limit'' \<and> limit = None then
               (case parse_unsigned USIZE_MAX v of
                  None \<Rightarrow> Inl err_invalid_body
                | Some n \<Rightarrow> if 1 \<le> n \<and> n \<le> 100 then Inr (Some n, after_id) else Inl err_invalid_body)
             else if name = ''after_id'' \<and> after_id = None \<and> v \<noteq> [] then Inr (limit, Some v)
             else Inl err_invalid_body))"

fun query_pairs :: "string list \<Rightarrow> nat option \<times> string option \<Rightarrow> GatewayError + nat option \<times> string option" where
  "query_pairs [] st = Inr st"
| "query_pairs (p # ps) st = (case query_pair p st of Inl e \<Rightarrow> Inl e | Inr st' \<Rightarrow> query_pairs ps st')"

definition models_query_parse :: "string option \<Rightarrow> GatewayError + ModelsQuery" where
  "models_query_parse query =
     map_sum id (\<lambda>(limit, after_id).
         \<lparr>mq_limit = (case limit of None \<Rightarrow> 20 | Some n \<Rightarrow> n), mq_after_id = after_id\<rparr>)
       (query_pairs (filter (\<lambda>p. p \<noteq> []) (split_on (CHR ''&'') (case query of None \<Rightarrow> [] | Some q \<Rightarrow> q))) (None, None))"

record ModelsPage =
  mp_data :: "ModelRecord list"
  mp_has_more :: bool
  mp_first_id :: "string option"
  mp_last_id :: "string option"

fun position_of :: "('a \<Rightarrow> bool) \<Rightarrow> 'a list \<Rightarrow> nat option" where
  "position_of P [] = None"
| "position_of P (x # xs) = (if P x then Some 0 else map_option Suc (position_of P xs))"

definition models_page :: "ModelsQuery \<Rightarrow> ModelRecord list \<Rightarrow> GatewayError + ModelsPage" where
  "models_page q visible_models =
     (case (case mq_after_id q of
              None \<Rightarrow> Some 0
            | Some after_id \<Rightarrow> map_option Suc (position_of (\<lambda>m. mr_id m = after_id) visible_models)) of
        None \<Rightarrow> Inl err_invalid_body
      | Some start \<Rightarrow>
          (let stop = min (min (start + mq_limit q) USIZE_MAX) (length visible_models);
               page = drop start (take stop visible_models)
           in Inr \<lparr>mp_data = page, mp_has_more = (stop < length visible_models),
                   mp_first_id = (case page of [] \<Rightarrow> None | m # _ \<Rightarrow> Some (mr_id m)),
                   mp_last_id = (if page = [] then None else Some (mr_id (last page)))\<rparr>))"

end
