(* ===== verification/Edge.thy ===== *)
theory Edge
  imports Edge_Request
begin

text \<open>
  The data plane entry of \<^verbatim>\<open>gateway-api/edge.rs\<close>: \<open>edge_entry\<close> and \<open>messages\<close> with every gate in the order of the code,
  over the state of the process (the limiters, the session cache, the counters). What the asynchronous ports answer
  is an argument. A reply that is served holds the permit of its key until its body stream ends (theory
  \<^verbatim>\<open>Edge_Delivery\<close>). The socket loop after a WebSocket upgrade is not modelled.
\<close>

subsection \<open>Data\<close>

datatype BusinessRoute = RouteOpenAi OpenAiEndpoint | RouteMessages | RouteCountTokens | RouteModels | RouteUnknown

fun expected_method :: "BusinessRoute \<Rightarrow> string" where
  "expected_method RouteModels = ''GET''"
| "expected_method RouteUnknown = ''GET''"
| "expected_method _ = ''POST''"

fun route_permission :: "BusinessRoute \<Rightarrow> EndpointPermission option" where
  "route_permission RouteModels = Some PermitModels"
| "route_permission RouteUnknown = None"
| "route_permission _ = Some PermitMessages"

fun method_error :: "BusinessRoute \<Rightarrow> GatewayError" where
  "method_error RouteModels = err_method ''GET''"
| "method_error RouteUnknown = err_not_found"
| "method_error _ = err_method ''POST''"

definition classify_route :: "string \<Rightarrow> BusinessRoute" where
  "classify_route path =
     (if path \<in> {''/v1/responses'', ''/responses''} then RouteOpenAi Responses
      else if path \<in> {''/v1/chat/completions'', ''/chat/completions''} then RouteOpenAi ChatCompletions
      else if path \<in> {''/v1/responses/compact'', ''/responses/compact''} then RouteOpenAi Compact
      else if path = ''/v1/messages'' then RouteMessages
      else if path = ''/v1/messages/count_tokens'' then RouteCountTokens
      else if path \<in> {''/v1/models'', ''/models'', ''/backend-api/codex/models''} then RouteModels
      else if starts_with ''/v1/models/'' path \<or> starts_with ''/models/'' path then RouteModels
      else RouteUnknown)"

record 'ip EdgeRequest =
  rq_id :: string
  rq_method :: string
  rq_path :: string
  rq_query :: "string option"
  rq_headers :: HeaderMap
  rq_body :: "string option"
  rq_peer :: 'ip

record DispatchRequest =
  dr_endpoint :: DispatchEndpoint
  dr_request_id :: RequestId
  dr_client_identity :: ClientIdentity
  dr_owner_user_id :: UserId
  dr_platform_key_id :: PlatformKeyId
  dr_group_id :: GroupId
  dr_base_session_id :: SessionId
  dr_agent_id :: AgentId
  dr_client_class :: ClientClass
  dr_client_app :: "string option"
  dr_client_os :: ClientOs
  dr_os_resolution :: OsResolution
  dr_os_mismatch :: bool
  dr_identity_conflict :: bool
  dr_accepted_at :: duration
  dr_pre_upstream_deadline :: duration
  dr_original_body :: string
  dr_generic :: "GenericAdjustedRequest \<times> Json"
  dr_anthropic_version :: "string option"
  dr_anthropic_beta :: "string option"

datatype DispatchError =
    DispatchInvalidRequest | ContinuationUnavailable | DispatchUnavailable
  | Overloaded u64 | GroupRateLimited u64 | CredentialCooldown u64 | QueueFull u64 | BundleUnavailable
  | PreUpstreamTimeout u64 | DeterministicUnavailable | DeadlineExceeded | DispatchCancelled

text \<open>Of a prepared response: \<open>ur_committed\<close> is what its completion answers to \<^verbatim>\<open>committed\<close>, if it has one.\<close>

record UpstreamResponse =
  ur_status :: nat
  ur_headers :: "(string \<times> string) list"
  ur_committed :: "bool option"

record ClientResponse =
  cl_status :: nat
  cl_headers :: "(string \<times> string) list"
  cl_permit :: string
  cl_completion :: bool

datatype ModelsAnswer =
    AnthropicPage ModelsPage | OpenAiModel ModelRecord | OpenAiCatalog "Json list" | OpenAiList "ModelRecord list"

datatype EdgeReply =
    Refused GatewayError | ContinuationConflict | ModelsReply ModelsAnswer | Served ClientResponse | UpgradeWebSocket

text \<open>The counters of \<^verbatim>\<open>DataPlaneObservability\<close> that the edge moves.\<close>

record EdgeMetrics =
  mt_accepted :: u64
  mt_response_committed :: u64

text \<open>What the ports answer to this request. \<open>po_models_now\<close> is what the runtime publishes when \<open>messages\<close> looks; the
  clocks are read when the request is accepted, for the session cache and for the rate limiter.\<close>

record EdgePorts =
  po_spend :: "UserId \<Rightarrow> PlatformKeyId \<Rightarrow> SpendDecision"
  po_dispatch :: "DispatchRequest \<Rightarrow> DispatchError + UpstreamResponse"
  po_models_now :: "ModelRecord list"
  po_iter :: "OsSessions \<Rightarrow> OsSessions"
  po_accepted_at :: duration
  po_session_now :: duration
  po_rate_now :: duration

record 'net EdgeState =
  es_access :: "string \<Rightarrow> 'net AccessGrant option"
  es_models :: "ModelRecord list"
  es_rates :: RateTable
  es_os_sessions :: ClientOsSessionCache
  es_active :: ConcurrencyState
  es_metrics :: EdgeMetrics
  es_trusted_proxies :: "'net list"
  es_platform_body_limit :: nat

subsection \<open>The response on its way back\<close>

definition connection_nominated_headers :: "('ip, 'net) EdgeLib \<Rightarrow> (string \<times> string) list \<Rightarrow> string set" where
  "connection_nominated_headers L headers =
     {v. v \<noteq> [] \<and> v \<in> set (concat (map (\<lambda>(_, w). map (\<lambda>p. str_lower (str_trim p)) (split_on (CHR '','') (el_lossy L w)))
        (filter (\<lambda>(n, _). eq_ignore_ascii_case n ''connection'') headers)))}"

definition SAFE_UPSTREAM_HEADERS :: "string list" where
  "SAFE_UPSTREAM_HEADERS =
     [''content-type'', ''content-encoding'', ''content-length'', ''cache-control'', ''request-id'',
      ''anthropic-request-id'', ''x-request-id'']"

definition safe_upstream_header :: "string \<Rightarrow> string set \<Rightarrow> bool" where
  "safe_upstream_header name nominated \<longleftrightarrow> name \<notin> nominated \<and> name \<in> set SAFE_UPSTREAM_HEADERS"

definition forward_headers :: "('ip, 'net) EdgeLib \<Rightarrow> (string \<times> string) list \<Rightarrow> (string \<times> string) list" where
  "forward_headers L headers =
     (let nominated = connection_nominated_headers L headers
      in List.map_filter (\<lambda>(n, v).
           case el_http_name L n of
             None \<Rightarrow> None
           | Some name \<Rightarrow> if safe_upstream_header name nominated \<and> el_http_value L v then Some (name, v) else None) headers)"

definition status_or_bad_gateway :: "nat \<Rightarrow> nat" where
  "status_or_bad_gateway s = (if 100 \<le> s \<and> s \<le> 999 then s else 502)"

text \<open>The permit moves into the body stream; when the commit fails it is dropped.\<close>

definition upstream_response ::
  "('ip, 'net) EdgeLib \<Rightarrow> string \<Rightarrow> UpstreamResponse \<Rightarrow> 'net EdgeState \<Rightarrow> EdgeReply \<times> 'net EdgeState" where
  "upstream_response L key r st =
     (if ur_committed r = Some False
      then (Refused err_unavailable_without_retry, st\<lparr>es_active := drop_permit key (es_active st)\<rparr>)
      else
        (Served \<lparr>cl_status = status_or_bad_gateway (ur_status r), cl_headers = forward_headers L (ur_headers r),
                 cl_permit = key, cl_completion = (ur_committed r \<noteq> None)\<rparr>,
         st\<lparr>es_metrics := (es_metrics st)\<lparr>mt_response_committed := mt_response_committed (es_metrics st) + 1\<rparr>\<rparr>))"

fun dispatch_error_reply :: "DispatchError \<Rightarrow> EdgeReply" where
  "dispatch_error_reply DispatchInvalidRequest = Refused err_invalid_body"
| "dispatch_error_reply ContinuationUnavailable = ContinuationConflict"
| "dispatch_error_reply DispatchUnavailable = Refused (err_unavailable 1)"
| "dispatch_error_reply BundleUnavailable = Refused err_bundle_unavailable"
| "dispatch_error_reply (Overloaded s) = Refused (err_unavailable s)"
| "dispatch_error_reply (QueueFull s) = Refused (err_unavailable s)"
| "dispatch_error_reply (PreUpstreamTimeout s) = Refused (err_unavailable s)"
| "dispatch_error_reply (GroupRateLimited s) = Refused (err_rate_limited s)"
| "dispatch_error_reply (CredentialCooldown s) = Refused (err_rate_limited s)"
| "dispatch_error_reply DeterministicUnavailable = Refused err_unavailable_without_retry"
| "dispatch_error_reply DispatchCancelled = Refused err_unavailable_without_retry"
| "dispatch_error_reply DeadlineExceeded = Refused err_timeout"

subsection \<open>The gates of a message\<close>

definition read_body :: "'net AccessGrant \<Rightarrow> nat \<Rightarrow> HeaderMap \<Rightarrow> string option \<Rightarrow> GatewayError + string" where
  "read_body grant platform_limit h body =
     (case validate_framing h of
        Inl e \<Rightarrow> Inl e
      | Inr _ \<Rightarrow>
          (let effective_limit = min (ag_body_limit_bytes grant) (max platform_limit 1)
           in if is_some_and (content_length h) (\<lambda>n. effective_limit < n) then Inl err_too_large
              else (case body of
                  None \<Rightarrow> Inl err_too_large
                | Some bytes \<Rightarrow> if effective_limit < length bytes then Inl err_too_large else Inr bytes)))"

definition openai_session :: "('ip, 'net) EdgeLib \<Rightarrow> HeaderMap \<Rightarrow> string \<Rightarrow> GatewayError + SessionId" where
  "openai_session L h request_id =
     (let session = (case header_string h ''session_id'' of
            Some s \<Rightarrow> s
          | None \<Rightarrow> (case header_string h ''x-session-id'' of Some s \<Rightarrow> s | None \<Rightarrow> request_id))
      in case TypedId_new (''ses_'' @ take 32 (edge_digest L session)) of
           Inl _ \<Rightarrow> Inl err_invalid_body
         | Inr i \<Rightarrow> Inr i)"

definition classified ::
  "('ip, 'net) EdgeLib \<Rightarrow> 'net AccessGrant \<Rightarrow> HeaderMap \<Rightarrow> Json \<Rightarrow> string \<Rightarrow> GatewayError + ClassifiedClient" where
  "classified L grant h tree request_id =
     (let c = classify_client L h tree (ag_platform_key_id grant)
      in if ag_provider grant = ProviderOpenai
         then map_sum id (\<lambda>s. c\<lparr>cc_base_session := s, cc_class := NonClaudeCodeCli\<rparr>) (openai_session L h request_id)
         else Inr c)"

text \<open>The gates up to the model scope: they read the request and the grant only.\<close>

definition inspect_request ::
  "('ip, 'net) EdgeLib \<Rightarrow> 'net AccessGrant \<Rightarrow> nat \<Rightarrow> 'ip EdgeRequest \<Rightarrow>
   GatewayError + string \<times> Json \<times> ClassifiedClient \<times> string" where
  "inspect_request L grant platform_limit rq =
     (case read_body grant platform_limit (rq_headers rq) (rq_body rq) of
        Inl e \<Rightarrow> Inl e
      | Inr body \<Rightarrow>
     (case el_json_from_slice L body of
        None \<Rightarrow> Inl err_invalid_body
      | Some tree \<Rightarrow>
     (case classified L grant (rq_headers rq) tree (rq_id rq) of
        Inl e \<Rightarrow> Inl e
      | Inr client \<Rightarrow>
          if cc_class client \<notin> ag_accepted_client_classes grant then Inl err_permission
          else (case Option.bind (json_get ''model'' tree) as_str_value of
              None \<Rightarrow> Inl err_invalid_body
            | Some model \<Rightarrow>
                if \<not> model_in_scope model (ag_group_model_scope grant) \<or> \<not> model_in_scope model (ag_key_model_scope grant)
                then Inl err_model_unavailable
                else Inr (body, tree, client, model)))))"

definition openai_generic ::
  "('ip, 'net) EdgeLib \<Rightarrow> 'net AccessGrant \<Rightarrow> ModelRecord list \<Rightarrow> string \<Rightarrow> Json \<Rightarrow> string \<Rightarrow>
   GatewayError + GenericAdjustedRequest \<times> Json" where
  "openai_generic L grant models body tree model =
     (if \<not> list_ex (\<lambda>m. mr_provider m = ag_provider grant \<and> mr_id m = model) models then Inl err_model_unavailable
      else if is_some_and (json_get ''stream'' tree) (\<lambda>v. as_bool_value v = None) then Inl err_invalid_body
      else Inr
        (\<lparr>replay_body = \<lparr>rb_bytes = bytes_of body, rb_reused_original = True\<rparr>,
          body_digest = request_digest (el_codec L) body, model_id = model,
          stream_mode = (case Option.bind (json_get ''stream'' tree) as_bool_value of None \<Rightarrow> False | Some b \<Rightarrow> b),
          portability = Portable, attribution_suppressed = True, system_template_pending = False,
          change_set = [], snapshot_set = rp_snapshots (ag_policy grant)\<rparr>, tree))"

definition adjusted_request ::
  "('ip, 'net) EdgeLib \<Rightarrow> 'net AccessGrant \<Rightarrow> DispatchEndpoint \<Rightarrow> ModelRecord list \<Rightarrow> string \<Rightarrow> Json \<Rightarrow> string \<Rightarrow>
   PolicyContext \<Rightarrow> GatewayError + GenericAdjustedRequest \<times> Json" where
  "adjusted_request L grant endpoint models body tree model ctx =
     (case endpoint of
        DispatchOpenAi _ \<Rightarrow> openai_generic L grant models body tree model
      | DispatchCountTokens \<Rightarrow> map_sum map_policy_error id (process_count_tokens (el_codec L) (ag_policy grant) body ctx)
      | DispatchMessages \<Rightarrow> map_sum map_policy_error id (process (el_codec L) (ag_policy grant) body ctx))"

definition authorize_spend :: "EdgePorts \<Rightarrow> 'net AccessGrant \<Rightarrow> GatewayError + unit" where
  "authorize_spend ports grant =
     (case po_spend ports (ag_owner_user_id grant) (ag_platform_key_id grant) of
        SpendAllowed \<Rightarrow> Inr ()
      | SpendLimited \<Rightarrow> Inl (err_rate_limited 60)
      | SpendUnavailable \<Rightarrow> Inl (err_unavailable 1))"

definition rate_key :: "string \<Rightarrow> 'net AccessGrant \<Rightarrow> string" where
  "rate_key label grant = label @ '':'' @ as_str (ag_platform_key_id grant)"

definition endpoint_rate :: "DispatchEndpoint \<Rightarrow> 'net AccessGrant \<Rightarrow> string \<times> RateLimit" where
  "endpoint_rate endpoint grant =
     (if endpoint = DispatchCountTokens then (rate_key ''count_tokens'' grant, ag_count_tokens_rate grant)
      else (rate_key ''messages'' grant, ag_messages_rate grant))"

text \<open>The gates that take something: the rate of the key, then a permit.\<close>

definition take_resources ::
  "duration \<Rightarrow> 'net AccessGrant \<Rightarrow> DispatchEndpoint \<Rightarrow> 'net EdgeState \<Rightarrow> (GatewayError + unit) \<times> 'net EdgeState" where
  "take_resources now grant endpoint st =
     (let (key, rate) = endpoint_rate endpoint grant; (decision, rates) = rate_allow now key rate (es_rates st)
      in case decision of
           RateLimited s \<Rightarrow> (Inl (err_rate_limited s), st\<lparr>es_rates := rates\<rparr>)
         | RateAllowed \<Rightarrow>
             (let (granted, active) = try_acquire (as_str (ag_platform_key_id grant)) (ag_concurrency_limit grant) (es_active st)
              in (if granted then Inr () else Inl (err_rate_limited 2), st\<lparr>es_rates := rates, es_active := active\<rparr>)))"

definition run_dispatch ::
  "('ip, 'net) EdgeLib \<Rightarrow> EdgePorts \<Rightarrow> DispatchRequest \<Rightarrow> 'net EdgeState \<Rightarrow> EdgeReply \<times> 'net EdgeState" where
  "run_dispatch L ports d st =
     (let key = as_str (dr_platform_key_id d);
          st = st\<lparr>es_metrics := (es_metrics st)\<lparr>mt_accepted := mt_accepted (es_metrics st) + 1\<rparr>\<rparr>
      in case po_dispatch ports d of
           Inl e \<Rightarrow> (dispatch_error_reply e, st\<lparr>es_active := drop_permit key (es_active st)\<rparr>)
         | Inr r \<Rightarrow> upstream_response L key r st)"

definition dispatch_request ::
  "EdgePorts \<Rightarrow> 'ip EdgeRequest \<Rightarrow> 'net AccessGrant \<Rightarrow> DispatchEndpoint \<Rightarrow> string \<Rightarrow> ClassifiedClient \<Rightarrow>
   ClientOs \<times> OsResolution \<times> bool \<Rightarrow> GenericAdjustedRequest \<times> Json \<Rightarrow> DispatchRequest" where
  "dispatch_request ports rq grant endpoint body client os generic =
     \<lparr>dr_endpoint = endpoint, dr_request_id = id_or ''req_fallback'' (rq_id rq),
      dr_client_identity = from_user_agent (header_first ''user-agent'' (rq_headers rq)),
      dr_owner_user_id = ag_owner_user_id grant, dr_platform_key_id = ag_platform_key_id grant,
      dr_group_id = ag_group_id grant, dr_base_session_id = cc_base_session client, dr_agent_id = cc_agent client,
      dr_client_class = cc_class client, dr_client_app = header_string (rq_headers rq) ''x-app'',
      dr_client_os = fst os, dr_os_resolution = fst (snd os), dr_os_mismatch = snd (snd os),
      dr_identity_conflict = cc_identity_conflict client, dr_accepted_at = po_accepted_at ports,
      dr_pre_upstream_deadline = dur_saturating_add (po_accepted_at ports) (from_secs 30),
      dr_original_body = body, dr_generic = generic,
      dr_anthropic_version = header_string (rq_headers rq) ''anthropic-version'',
      dr_anthropic_beta = header_string (rq_headers rq) ''anthropic-beta''\<rparr>"

text \<open>The second result is the request that was handed to the dispatcher, if one was.\<close>

type_synonym 'net EdgeOutcome = "EdgeReply \<times> DispatchRequest option \<times> 'net EdgeState"

definition refuse :: "GatewayError \<Rightarrow> 'net EdgeState \<Rightarrow> 'net EdgeOutcome" where
  "refuse e st = (Refused e, None, st)"

definition messages ::
  "('ip, 'net) EdgeLib \<Rightarrow> EdgePorts \<Rightarrow> 'net EdgeState \<Rightarrow> 'ip EdgeRequest \<Rightarrow> 'net AccessGrant \<Rightarrow> DispatchEndpoint \<Rightarrow> 'net EdgeOutcome" where
  "messages L ports st rq grant endpoint =
     (case inspect_request L grant (es_platform_body_limit st) rq of
        Inl e \<Rightarrow> refuse e st
      | Inr (body, tree, client, model) \<Rightarrow>
     (let (os, cache) = resolve_client_os (po_iter ports) (po_session_now ports) (rq_headers rq) tree
              (ag_default_os_family grant) (cc_session_cache_key client) (es_os_sessions st);
          st = st\<lparr>es_os_sessions := cache\<rparr>;
          ctx = \<lparr>pc_client_class = cc_class client, pc_client_os = fst os,
                 pc_protocol_headers = protocol_headers (rq_headers rq), pc_affinity_credential = None\<rparr>
      in case adjusted_request L grant endpoint (po_models_now ports) body tree model ctx of
           Inl e \<Rightarrow> refuse e st
         | Inr generic \<Rightarrow>
     (case (if endpoint = DispatchCountTokens then Inr () else authorize_spend ports grant) of
        Inl e \<Rightarrow> refuse e st
      | Inr _ \<Rightarrow>
     (case take_resources (po_rate_now ports) grant endpoint st of
        (Inl e, st) \<Rightarrow> refuse e st
      | (Inr _, st) \<Rightarrow>
          (let d = dispatch_request ports rq grant endpoint body client os generic;
               (reply, st) = run_dispatch L ports d st
           in (reply, Some d, st))))))"

subsection \<open>The model list\<close>

definition visible_models :: "'net AccessGrant \<Rightarrow> ModelRecord list \<Rightarrow> ModelRecord list" where
  "visible_models grant ms =
     filter (\<lambda>m. mr_provider m = ag_provider grant \<and> model_in_scope (mr_id m) (ag_group_model_scope grant) \<and>
                 model_in_scope (mr_id m) (ag_key_model_scope grant)) ms"

definition models_answer :: "'ip EdgeRequest \<Rightarrow> 'net AccessGrant \<Rightarrow> ModelRecord list \<Rightarrow> GatewayError + ModelsAnswer" where
  "models_answer rq grant ms =
     (let shown = visible_models grant ms
      in if ag_provider grant = ProviderOpenai then
           (case (case strip_prefix ''/v1/models/'' (rq_path rq) of
                    Some i \<Rightarrow> Some i | None \<Rightarrow> strip_prefix ''/models/'' (rq_path rq)) of
              Some i \<Rightarrow> (case find (\<lambda>m. mr_id m = i) shown of None \<Rightarrow> Inl err_not_found | Some m \<Rightarrow> Inr (OpenAiModel m))
            | None \<Rightarrow>
                if rq_path rq = ''/backend-api/codex/models'' \<or>
                   is_some_and (rq_query rq) (\<lambda>q. list_ex (starts_with ''client_version='') (split_on (CHR ''&'') q))
                then Inr (OpenAiCatalog (List.map_filter mr_openai_metadata shown))
                else Inr (OpenAiList shown))
         else
           (case models_query_parse (rq_query rq) of
              Inl e \<Rightarrow> Inl e
            | Inr q \<Rightarrow> map_sum id AnthropicPage (models_page q shown)))"

definition models ::
  "EdgePorts \<Rightarrow> 'net EdgeState \<Rightarrow> 'ip EdgeRequest \<Rightarrow> 'net AccessGrant \<Rightarrow> 'net EdgeOutcome" where
  "models ports st rq grant =
     (let (decision, rates) = rate_allow (po_rate_now ports) (rate_key ''models'' grant) (ag_models_rate grant) (es_rates st);
          st = st\<lparr>es_rates := rates\<rparr>
      in case decision of
           RateLimited s \<Rightarrow> refuse (err_rate_limited s) st
         | RateAllowed \<Rightarrow>
             (case models_answer rq grant (es_models st) of
                Inl e \<Rightarrow> refuse e st
              | Inr a \<Rightarrow> (ModelsReply a, None, st)))"

subsection \<open>The entry\<close>

definition is_openai_route :: "BusinessRoute \<Rightarrow> bool" where
  "is_openai_route route = (case route of RouteOpenAi _ \<Rightarrow> True | _ \<Rightarrow> False)"

definition is_websocket :: "'ip EdgeRequest \<Rightarrow> BusinessRoute \<Rightarrow> bool" where
  "is_websocket rq route \<longleftrightarrow> rq_method rq = ''GET'' \<and> route = RouteOpenAi Responses"

text \<open>The gates before any body is read.\<close>

definition admit_route ::
  "('ip, 'net) EdgeLib \<Rightarrow> 'net EdgeState \<Rightarrow> 'ip EdgeRequest \<Rightarrow> BusinessRoute \<Rightarrow> 'net AccessGrant \<Rightarrow> GatewayError + unit" where
  "admit_route L st rq route grant =
     (if is_openai_route route \<noteq> (ag_provider grant = ProviderOpenai) \<and> route \<noteq> RouteModels \<and> route \<noteq> RouteUnknown
      then Inl err_permission
      else if \<not> is_websocket rq route \<and> rq_method rq \<noteq> expected_method route then Inl (method_error route)
      else if is_some_and (route_permission route) (\<lambda>p. p \<notin> ag_permissions grant) then Inl err_permission
      else if \<not> ip_allowed L (ag_ip_allowlist grant) (source_ip L (es_trusted_proxies st) (rq_peer rq) (rq_headers rq))
      then Inl err_permission
      else Inr ())"

definition edge_entry :: "('ip, 'net) EdgeLib \<Rightarrow> EdgePorts \<Rightarrow> 'net EdgeState \<Rightarrow> 'ip EdgeRequest \<Rightarrow> 'net EdgeOutcome" where
  "edge_entry L ports st rq =
     (let route = classify_route (rq_path rq);
          (granted, headers) = authenticate (rq_headers rq) (es_access st);
          rq = rq\<lparr>rq_headers := headers\<rparr>
      in case granted of
           None \<Rightarrow> refuse err_authentication st
         | Some grant \<Rightarrow>
             (case admit_route L st rq route grant of
                Inl e \<Rightarrow> refuse e st
              | Inr _ \<Rightarrow>
                  if is_websocket rq route then (UpgradeWebSocket, None, st)
                  else (case route of
                      RouteOpenAi e \<Rightarrow> messages L ports st rq grant (DispatchOpenAi e)
                    | RouteMessages \<Rightarrow> messages L ports st rq grant DispatchMessages
                    | RouteCountTokens \<Rightarrow> messages L ports st rq grant DispatchCountTokens
                    | RouteModels \<Rightarrow> models ports st rq grant
                    | RouteUnknown \<Rightarrow> refuse err_not_found st)))"

end
