(* ===== verification/Edge_Delivery.thy ===== *)
theory Edge_Delivery
  imports Edge
begin

text \<open>
  How a served response ends: the producer state and the errors of \<^verbatim>\<open>gateway-services/response.rs\<close>, the counters of
  \<^verbatim>\<open>observability.rs\<close>, and the body stream and the WebSocket delivery of \<^verbatim>\<open>gateway-api/edge.rs\<close>.
\<close>

subsection \<open>Outcomes\<close>

datatype DeliveryOutcome =
    DeliveryComplete | ClientGone | ClientWriteTimedOut | UpstreamBodyFailed | BufferRejected | CancelledBeforeCommit

datatype ResponseError =
    InvalidConfiguration | ResponseTooLarge | ResponseTotalTimeout | ReservationQueueFull | ReservationTimeout
  | ReservationClosed | ResponseCancelled | ResponseClientDisconnected | ResponseClientWriteTimeout
  | BackpressureInvariant | SpillIo | SpillCrypto | SpillFormat | SpillCleanup | ResponseTransport

datatype ProducerTermination = ProducerComplete | ProducerClientWriteTimeout | ProducerUpstreamBodyError | ProducerCancelled

fun termination_code :: "ProducerTermination \<Rightarrow> u8" where
  "termination_code ProducerComplete = 1"
| "termination_code ProducerClientWriteTimeout = 2"
| "termination_code ProducerUpstreamBodyError = 3"
| "termination_code ProducerCancelled = 4"

text \<open>\<^verbatim>\<open>PreparedDeliveryState\<close>: zero until the producer ends, then the code of the first ending.\<close>

type_synonym PreparedDeliveryState = u8

definition producer_finish :: "ProducerTermination \<Rightarrow> PreparedDeliveryState \<Rightarrow> PreparedDeliveryState" where
  "producer_finish t s = (if s = 0 then termination_code t else s)"

definition finish_external :: "bool \<Rightarrow> PreparedDeliveryState \<Rightarrow> PreparedDeliveryState" where
  "finish_external ok s = producer_finish (if ok then ProducerComplete else ProducerUpstreamBodyError) s"

definition is_terminal_state :: "PreparedDeliveryState \<Rightarrow> bool" where
  "is_terminal_state s \<longleftrightarrow> s \<noteq> 0"

definition eof_outcome :: "PreparedDeliveryState \<Rightarrow> DeliveryOutcome" where
  "eof_outcome s =
     (if s = termination_code ProducerComplete then DeliveryComplete
      else if s = termination_code ProducerClientWriteTimeout then ClientWriteTimedOut
      else if s = termination_code ProducerCancelled then ClientGone
      else UpstreamBodyFailed)"

fun error_outcome :: "ResponseError \<Rightarrow> DeliveryOutcome" where
  "error_outcome ResponseClientWriteTimeout = ClientWriteTimedOut"
| "error_outcome ResponseCancelled = ClientGone"
| "error_outcome ResponseClientDisconnected = ClientGone"
| "error_outcome _ = UpstreamBodyFailed"

subsection \<open>Counters\<close>

record DeliveryMetrics =
  dm_completed :: u64
  dm_client_disconnected :: u64
  dm_client_write_timeout :: u64
  dm_upstream_body_error :: u64
  dm_buffer_rejected :: u64
  dm_cancelled_before_commit :: u64
  dm_delivered_bytes :: u64

definition delivery_finished :: "DeliveryOutcome \<Rightarrow> u64 \<Rightarrow> DeliveryMetrics \<Rightarrow> DeliveryMetrics" where
  "delivery_finished outcome bytes m =
     (let m = m\<lparr>dm_delivered_bytes := dm_delivered_bytes m + bytes\<rparr>
      in case outcome of
           DeliveryComplete \<Rightarrow> m\<lparr>dm_completed := dm_completed m + 1\<rparr>
         | ClientGone \<Rightarrow> m\<lparr>dm_client_disconnected := dm_client_disconnected m + 1\<rparr>
         | ClientWriteTimedOut \<Rightarrow> m\<lparr>dm_client_write_timeout := dm_client_write_timeout m + 1\<rparr>
         | UpstreamBodyFailed \<Rightarrow> m\<lparr>dm_upstream_body_error := dm_upstream_body_error m + 1\<rparr>
         | BufferRejected \<Rightarrow> m\<lparr>dm_buffer_rejected := dm_buffer_rejected m + 1\<rparr>
         | CancelledBeforeCommit \<Rightarrow> m\<lparr>dm_cancelled_before_commit := dm_cancelled_before_commit m + 1\<rparr>)"

subsection \<open>The body stream\<close>

text \<open>The stream with what it touches outside: the permits of the keys, the counters, and the reports handed to its
  completion, each the outcome and the bytes delivered.\<close>

record BodyStream =
  bs_permit :: "string option"
  bs_cancelled :: bool
  bs_completion :: bool
  bs_delivery_state :: PreparedDeliveryState
  bs_bytes_delivered :: u64
  bs_completed :: bool
  bs_active :: ConcurrencyState
  bs_metrics :: DeliveryMetrics
  bs_reports :: "(DeliveryOutcome \<times> u64) list"

definition body_stream :: "ClientResponse \<Rightarrow> PreparedDeliveryState \<Rightarrow> ConcurrencyState \<Rightarrow> DeliveryMetrics \<Rightarrow> BodyStream" where
  "body_stream r state active metrics =
     \<lparr>bs_permit = Some (cl_permit r), bs_cancelled = False, bs_completion = cl_completion r, bs_delivery_state = state,
      bs_bytes_delivered = 0, bs_completed = False, bs_active = active, bs_metrics = metrics, bs_reports = []\<rparr>"

definition take_permit :: "BodyStream \<Rightarrow> BodyStream" where
  "take_permit s =
     (case bs_permit s of None \<Rightarrow> s | Some key \<Rightarrow> s\<lparr>bs_permit := None, bs_active := drop_permit key (bs_active s)\<rparr>)"

definition stream_finish :: "DeliveryOutcome \<Rightarrow> BodyStream \<Rightarrow> BodyStream" where
  "stream_finish outcome s =
     (let s = take_permit (s\<lparr>bs_completed := True\<rparr>);
          s = s\<lparr>bs_metrics := delivery_finished outcome (bs_bytes_delivered s) (bs_metrics s)\<rparr>
      in if bs_completion s
         then s\<lparr>bs_completion := False, bs_reports := bs_reports s @ [(outcome, bs_bytes_delivered s)]\<rparr>
         else s)"

datatype PolledBody = BodyPending | BodyItem string | BodyError ResponseError | BodyEof

fun poll_next :: "PolledBody \<Rightarrow> BodyStream \<Rightarrow> BodyStream" where
  "poll_next BodyPending s = s"
| "poll_next (BodyItem bytes) s =
     s\<lparr>bs_bytes_delivered := saturating_add (bs_bytes_delivered s) (of_nat (length bytes))\<rparr>"
| "poll_next (BodyError e) s = stream_finish (error_outcome e) (s\<lparr>bs_cancelled := True\<rparr>)"
| "poll_next BodyEof s = stream_finish (eof_outcome (bs_delivery_state s)) s"

definition stream_drop :: "BodyStream \<Rightarrow> BodyStream" where
  "stream_drop s =
     take_permit (if bs_completed s then s else stream_finish ClientGone (s\<lparr>bs_cancelled := True\<rparr>))"

text \<open>The producer ends while the stream is polled.\<close>

datatype StreamEvent = Polled PolledBody | ProducerEnds ProducerTermination

fun stream_event :: "StreamEvent \<Rightarrow> BodyStream \<Rightarrow> BodyStream" where
  "stream_event (Polled p) s = poll_next p s"
| "stream_event (ProducerEnds t) s = s\<lparr>bs_delivery_state := producer_finish t (bs_delivery_state s)\<rparr>"

subsection \<open>The WebSocket delivery\<close>

record WebSocketDelivery =
  wd_completion :: bool
  wd_bytes_delivered :: u64
  wd_reports :: "(DeliveryOutcome \<times> u64) list"

definition ws_finish :: "DeliveryOutcome \<Rightarrow> WebSocketDelivery \<Rightarrow> WebSocketDelivery" where
  "ws_finish outcome d =
     (if wd_completion d
      then d\<lparr>wd_completion := False, wd_reports := wd_reports d @ [(outcome, wd_bytes_delivered d)]\<rparr>
      else d)"

definition ws_drop :: "WebSocketDelivery \<Rightarrow> WebSocketDelivery" where
  "ws_drop d = ws_finish ClientGone d"

subsection \<open>Exactly one ending\<close>

text \<open>What should be reported: the bytes of the items before the first ending, and that ending. \<open>state\<close> is the producer
  state, \<open>bytes\<close> what was delivered so far.\<close>

fun ending :: "StreamEvent list \<Rightarrow> PreparedDeliveryState \<Rightarrow> u64 \<Rightarrow> (DeliveryOutcome \<times> u64) \<times> bool" where
  "ending [] state bytes = ((ClientGone, bytes), True)"
| "ending (ProducerEnds t # evs) state bytes = ending evs (producer_finish t state) bytes"
| "ending (Polled BodyPending # evs) state bytes = ending evs state bytes"
| "ending (Polled (BodyItem b) # evs) state bytes = ending evs state (saturating_add bytes (of_nat (length b)))"
| "ending (Polled (BodyError e) # evs) state bytes = ((error_outcome e, bytes), True)"
| "ending (Polled BodyEof # evs) state bytes = ((eof_outcome state, bytes), False)"

definition stream_settled :: "BodyStream \<Rightarrow> bool" where
  "stream_settled s \<longleftrightarrow> bs_completed s \<and> bs_permit s = None \<and> \<not> bs_completion s"

lemma take_permit_None [simp]: "bs_permit s = None \<Longrightarrow> take_permit s = s"
  by (simp add: take_permit_def)

lemma stream_finish_settled: "stream_settled (stream_finish outcome s)"
  by (cases "bs_permit s") (simp_all add: stream_settled_def stream_finish_def Let_def take_permit_def)

lemma stream_finish_again:
  "stream_settled s \<Longrightarrow> bs_active (stream_finish outcome s) = bs_active s \<and> bs_reports (stream_finish outcome s) = bs_reports s"
  by (simp add: stream_settled_def stream_finish_def Let_def)

text \<open>After its ending a stream keeps its reports and the permits, whatever is polled.\<close>

lemma stream_settled_event:
  assumes "stream_settled s"
  shows "stream_settled (stream_event e s)" "bs_active (stream_event e s) = bs_active s"
    "bs_reports (stream_event e s) = bs_reports s" "bs_cancelled s \<Longrightarrow> bs_cancelled (stream_event e s)"
proof -
  have "stream_settled (stream_event e s) \<and> bs_active (stream_event e s) = bs_active s \<and>
    bs_reports (stream_event e s) = bs_reports s \<and> (bs_cancelled s \<longrightarrow> bs_cancelled (stream_event e s))"
  proof (cases e)
    case (Polled p)
    with assms show ?thesis by (cases p) (auto simp: stream_settled_def stream_finish_def Let_def)
  next
    case (ProducerEnds t)
    with assms show ?thesis by (simp add: stream_settled_def)
  qed
  then show "stream_settled (stream_event e s)" "bs_active (stream_event e s) = bs_active s"
    "bs_reports (stream_event e s) = bs_reports s" "bs_cancelled s \<Longrightarrow> bs_cancelled (stream_event e s)"
    by blast+
qed

definition ended_as :: "(DeliveryOutcome \<times> u64) \<Rightarrow> bool \<Rightarrow> bool \<Rightarrow> ConcurrencyState \<Rightarrow> BodyStream \<Rightarrow> bool" where
  "ended_as report cancelled reported active s \<longleftrightarrow>
     bs_reports s = (if reported then [report] else []) \<and> bs_active s = active \<and> bs_permit s = None \<and>
     (cancelled \<longrightarrow> bs_cancelled s)"

lemma stream_settled_run:
  assumes "stream_settled s" "ended_as report cancelled reported active s"
  shows "ended_as report cancelled reported active (stream_drop (fold stream_event evs s))"
  using assms
proof (induction evs arbitrary: s)
  case Nil
  then show ?case by (simp add: stream_drop_def stream_settled_def)
next
  case (Cons e evs)
  note keep = stream_settled_event [OF Cons.prems(1), of e]
  have "ended_as report cancelled reported active (stream_event e s)"
    using Cons.prems(2) keep by (auto simp: ended_as_def stream_settled_def)
  with Cons.IH [OF keep(1)] show ?case by simp
qed

lemma finish_ended_as:
  assumes "bs_permit s = Some key" "bs_reports s = []"
  shows "ended_as (outcome, bs_bytes_delivered s) (bs_cancelled s) (bs_completion s) (drop_permit key (bs_active s))
     (stream_finish outcome s)"
  using assms by (simp add: ended_as_def stream_finish_def Let_def take_permit_def)

lemma open_run:
  assumes "bs_permit s = Some key" "bs_reports s = []" "\<not> bs_completed s"
  shows "ended_as (fst (ending evs (bs_delivery_state s) (bs_bytes_delivered s)))
     (snd (ending evs (bs_delivery_state s) (bs_bytes_delivered s))) (bs_completion s) (drop_permit key (bs_active s))
     (stream_drop (fold stream_event evs s))"
  using assms
proof (induction evs arbitrary: s)
  case Nil
  have "ended_as (ClientGone, bs_bytes_delivered s) True (bs_completion s) (drop_permit key (bs_active s))
      (stream_finish ClientGone (s\<lparr>bs_cancelled := True\<rparr>))"
    using finish_ended_as [of "s\<lparr>bs_cancelled := True\<rparr>" key ClientGone] Nil by simp
  moreover have "bs_permit (stream_finish ClientGone (s\<lparr>bs_cancelled := True\<rparr>)) = None"
    using stream_finish_settled by (simp add: stream_settled_def)
  ultimately show ?case using Nil by (simp add: stream_drop_def)
next
  case (Cons e evs)
  show ?case
  proof (cases e)
    case (ProducerEnds t)
    then show ?thesis
      using Cons.IH [of "s\<lparr>bs_delivery_state := producer_finish t (bs_delivery_state s)\<rparr>"] Cons.prems by simp
  next
    case (Polled p)
    show ?thesis
    proof (cases p)
      case BodyPending
      with Polled Cons show ?thesis by simp
    next
      case (BodyItem b)
      with Polled show ?thesis
        using Cons.IH [of "s\<lparr>bs_bytes_delivered := saturating_add (bs_bytes_delivered s) (of_nat (length b))\<rparr>"] Cons.prems
        by simp
    next
      case (BodyError er)
      have "ended_as (error_outcome er, bs_bytes_delivered s) True (bs_completion s) (drop_permit key (bs_active s))
          (stream_finish (error_outcome er) (s\<lparr>bs_cancelled := True\<rparr>))"
        using finish_ended_as [of "s\<lparr>bs_cancelled := True\<rparr>" key "error_outcome er"] Cons.prems by simp
      with stream_settled_run [OF stream_finish_settled] Polled BodyError show ?thesis by simp
    next
      case BodyEof
      have "ended_as (eof_outcome (bs_delivery_state s), bs_bytes_delivered s) False (bs_completion s)
          (drop_permit key (bs_active s)) (stream_finish (eof_outcome (bs_delivery_state s)) s)"
        using finish_ended_as [of s key "eof_outcome (bs_delivery_state s)"] Cons.prems by (simp add: ended_as_def)
      with stream_settled_run [OF stream_finish_settled] Polled BodyEof show ?thesis by simp
    qed
  qed
qed

text \<open>C22. Whatever is polled from a served response, and whenever its producer ends, once the stream is dropped its
  completion has received exactly one report: the first ending with the bytes delivered before it. The permit of the key
  is given back exactly once, and the upstream is cancelled unless the body ended by itself.\<close>

theorem body_stream_settles_once:
  "let s = stream_drop (fold stream_event evs (body_stream r state active metrics)) in
     bs_reports s = (if cl_completion r then [fst (ending evs state 0)] else []) \<and>
     bs_active s = drop_permit (cl_permit r) active \<and> bs_permit s = None \<and>
     (if snd (ending evs state 0) then bs_cancelled s else True)"
  using open_run [of "body_stream r state active metrics" "cl_permit r" evs]
  by (simp add: ended_as_def body_stream_def Let_def)

lemma ws_reports_once:
  "wd_completion d \<Longrightarrow> wd_reports (ws_drop (fold ws_finish outcomes d)) =
     wd_reports d @ [(case outcomes of [] \<Rightarrow> ClientGone | outcome # _ \<Rightarrow> outcome, wd_bytes_delivered d)]"
proof (cases outcomes)
  case (Cons outcome rest)
  have "fold ws_finish rest e = e" if "\<not> wd_completion e" for e
    using that by (induction rest) (simp_all add: ws_finish_def)
  moreover assume "wd_completion d"
  ultimately show ?thesis using Cons by (simp add: ws_finish_def ws_drop_def)
qed (simp add: ws_drop_def ws_finish_def)

end
