(* ===== verification/Edge_Properties.thy ===== *)
theory Edge_Properties
  imports Edge_Delivery Policy_Properties
begin

text \<open>
  Properties of the data plane entry: which requests reach the dispatcher, who holds a permit afterwards, which source
  address counts, and that walking the pages of the model list shows every visible model once.
\<close>

subsection \<open>The gates before the body\<close>

lemma get_all_remove [simp]: "get_all name (remove_header other h) = (if name = other then [] else get_all name h)"
  by (auto simp: get_all_def remove_header_def filter_empty_conv intro!: arg_cong [where f = "map snd"] filter_cong)

lemma scrub_auth_removes: "get_all ''x-api-key'' (scrub_auth h) = []" "get_all ''authorization'' (scrub_auth h) = []"
  by (simp_all add: scrub_auth_def)

text \<open>Every key a client presents is the selected one.\<close>

lemma select_secret_agrees:
  assumes "select_secret h = Some secret"
  shows "get_all ''x-api-key'' h \<noteq> [] \<or> get_all ''authorization'' h \<noteq> []"
    "get_all ''x-api-key'' h \<noteq> [] \<Longrightarrow> get_all ''x-api-key'' h = [Some secret] \<and> normalize_api_key secret = Some secret"
    "get_all ''authorization'' h \<noteq> [] \<Longrightarrow>
      \<exists>v. get_all ''authorization'' h = [Some v] \<and> normalize_bearer v = Some secret"
proof -
  let ?x = "get_all ''x-api-key'' h" and ?a = "get_all ''authorization'' h"
  have key: "v = w \<and> normalize_api_key w = Some w" if "normalize_api_key v = Some w" for v w
    using that by (auto simp: normalize_api_key_def split: if_splits)
  have one: "xs = [x]" if "xs = x # ys" "\<not> 1 < length xs" for xs ys and x :: "string option"
    using that by (cases ys) auto
  from assms have n: "\<not> 1 < length ?x" "\<not> 1 < length ?a" "\<not> (?x = [] \<and> ?a = [])"
    by (auto simp: select_secret_def Let_def split: if_splits)
  let ?api = "Option.bind (header_first ''x-api-key'' h) normalize_api_key"
  let ?bearer = "Option.bind (header_first ''authorization'' h) normalize_bearer"
  have c: "(case (?api, ?bearer) of
                 (Some a, Some b) \<Rightarrow> if constant_equal a b then Some a else None
               | (Some a, None) \<Rightarrow> if ?a = [] then Some a else None
               | (None, Some b) \<Rightarrow> if ?x = [] then Some b else None
               | (None, None) \<Rightarrow> None) = Some secret"
    using assms n by (simp add: select_secret_def Let_def)
  show "?x \<noteq> [] \<or> ?a \<noteq> []" using n(3) by blast
  show "?x = [Some secret] \<and> normalize_api_key secret = Some secret" if "?x \<noteq> []"
  proof -
    from c that have "?api = Some secret" by (auto split: option.splits if_splits)
    then obtain v where v: "header_first ''x-api-key'' h = Some v" "normalize_api_key v = Some secret"
      by (auto simp: bind_eq_Some_conv)
    moreover have "?x = [Some v]" using v(1) one [OF _ n(1)] by (auto simp: header_first_def split: list.splits)
    ultimately show ?thesis using key [of v secret] by simp
  qed
  show "\<exists>v. ?a = [Some v] \<and> normalize_bearer v = Some secret" if "?a \<noteq> []"
  proof -
    from c that have "?bearer = Some secret" by (auto simp: constant_equal_def split: option.splits if_splits)
    then obtain v where v: "header_first ''authorization'' h = Some v" "normalize_bearer v = Some secret"
      by (auto simp: bind_eq_Some_conv)
    moreover have "?a = [Some v]" using v(1) one [OF _ n(2)] by (auto simp: header_first_def split: list.splits)
    ultimately show ?thesis by blast
  qed
qed

lemma read_body_ok:
  assumes "read_body grant limit h body = Inr bytes"
  shows "validate_framing h = Inr ()" "body = Some bytes" "length bytes \<le> min (ag_body_limit_bytes grant) (max limit 1)"
  using assms by (auto simp: read_body_def Let_def split: sum.splits option.splits if_splits)

lemma inspect_request_ok:
  assumes "inspect_request L grant limit rq = Inr (body, tree, client, model)"
  shows "read_body grant limit (rq_headers rq) (rq_body rq) = Inr body"
    "el_json_from_slice L body = Some tree"
    "classified L grant (rq_headers rq) tree (rq_id rq) = Inr client"
    "cc_class client \<in> ag_accepted_client_classes grant"
    "Option.bind (json_get ''model'' tree) as_str_value = Some model"
    "model_in_scope model (ag_group_model_scope grant)" "model_in_scope model (ag_key_model_scope grant)"
  using assms unfolding inspect_request_def
  by (auto split: sum.splits option.splits if_splits)

subsection \<open>Resources\<close>

lemma take_resources_counts:
  assumes "take_resources now grant endpoint st = (r, st')"
  shows "active_of (es_active st') k =
      active_of (es_active st) k + (if r = Inr () \<and> k = as_str (ag_platform_key_id grant) then 1 else 0)"
    "r = Inr () \<Longrightarrow> active_of (es_active st) (as_str (ag_platform_key_id grant)) < ag_concurrency_limit grant"
    "r = Inr () \<Longrightarrow> fst (rate_allow now (fst (endpoint_rate endpoint grant)) (snd (endpoint_rate endpoint grant)) (es_rates st))
       = RateAllowed"
  using assms
  by (auto simp: take_resources_def Let_def try_acquire_eq not_le split: prod.splits RateDecision.splits if_splits)

lemma run_dispatch_counts:
  assumes "run_dispatch L ports d st = (reply, st')" "active_of (es_active st) (as_str (dr_platform_key_id d)) \<noteq> 0"
  shows "active_of (es_active st') k = active_of (es_active st) k -
      (if (\<exists>c. reply = Served c) \<or> k \<noteq> as_str (dr_platform_key_id d) then 0 else 1)"
    "reply = Served c \<Longrightarrow> cl_permit c = as_str (dr_platform_key_id d)"
proof -
  have one: "1 \<le> active_of (es_active st) (as_str (dr_platform_key_id d))"
    using assms(2) by (simp add: word_le_nat_alt) (metis Suc_leI unat_gt_0)
  have e: "\<nexists>c. dispatch_error_reply er = Served c" for er by (cases er) simp_all
  show "active_of (es_active st') k = active_of (es_active st) k -
      (if (\<exists>c. reply = Served c) \<or> k \<noteq> as_str (dr_platform_key_id d) then 0 else 1)"
    using assms(1) one e
    by (auto simp: run_dispatch_def upstream_response_def Let_def active_of_drop saturating_sub_def
        split: sum.splits if_splits)
  show "cl_permit c = as_str (dr_platform_key_id d)" if "reply = Served c"
    using assms(1) that e
    by (auto simp: run_dispatch_def upstream_response_def Let_def split: sum.splits if_splits)
qed

lemma refuse_fields [simp]: "refuse e st = (reply, d, st') \<longleftrightarrow> reply = Refused e \<and> d = None \<and> st' = st"
  by (auto simp: refuse_def)

subsection \<open>A message that is dispatched\<close>

lemma messages_dispatched:
  assumes "messages L ports st rq grant endpoint = (reply, Some d, st')"
  obtains body tree client model os cache generic st2 where
    "inspect_request L grant (es_platform_body_limit st) rq = Inr (body, tree, client, model)"
    "resolve_client_os (po_iter ports) (po_session_now ports) (rq_headers rq) tree (ag_default_os_family grant)
       (cc_session_cache_key client) (es_os_sessions st) = (os, cache)"
    "adjusted_request L grant endpoint (po_models_now ports) body tree model
       \<lparr>pc_client_class = cc_class client, pc_client_os = fst os,
        pc_protocol_headers = protocol_headers (rq_headers rq), pc_affinity_credential = None\<rparr> = Inr generic"
    "endpoint = DispatchCountTokens \<or> authorize_spend ports grant = Inr ()"
    "take_resources (po_rate_now ports) grant endpoint (st\<lparr>es_os_sessions := cache\<rparr>) = (Inr (), st2)"
    "d = dispatch_request ports rq grant endpoint body client os generic"
    "run_dispatch L ports d st2 = (reply, st')"
proof -
  from assms obtain body tree client model where i: "inspect_request L grant (es_platform_body_limit st) rq = Inr (body, tree, client, model)"
    by (auto simp: messages_def split: sum.splits)
  obtain os cache where o: "resolve_client_os (po_iter ports) (po_session_now ports) (rq_headers rq) tree (ag_default_os_family grant)
       (cc_session_cache_key client) (es_os_sessions st) = (os, cache)" by fastforce
  let ?ctx = "\<lparr>pc_client_class = cc_class client, pc_client_os = fst os,
        pc_protocol_headers = protocol_headers (rq_headers rq), pc_affinity_credential = None\<rparr>"
  from assms i o obtain generic where g: "adjusted_request L grant endpoint (po_models_now ports) body tree model ?ctx = Inr generic"
    by (cases "adjusted_request L grant endpoint (po_models_now ports) body tree model ?ctx")
      (simp_all add: messages_def Let_def)
  from assms i o g have s: "endpoint = DispatchCountTokens \<or> authorize_spend ports grant = Inr ()"
    by (cases "authorize_spend ports grant") (auto simp: messages_def Let_def split: if_splits)
  obtain r st2 where k: "take_resources (po_rate_now ports) grant endpoint (st\<lparr>es_os_sessions := cache\<rparr>) = (r, st2)"
    by fastforce
  have ok: "(if endpoint = DispatchCountTokens then Inr () else authorize_spend ports grant) = Inr ()" using s by auto
  from assms i o g ok k have r: "r = Inr ()" by (cases r) (simp_all add: messages_def Let_def)
  obtain reply2 st3 where d: "run_dispatch L ports (dispatch_request ports rq grant endpoint body client os generic) st2 = (reply2, st3)"
    by fastforce
  from assms i o g ok k r d have "d = dispatch_request ports rq grant endpoint body client os generic" "reply2 = reply" "st3 = st'"
    by (simp_all add: messages_def Let_def)
  with that [OF i o g s] k r d show ?thesis by blast
qed

lemma messages_not_dispatched:
  assumes "messages L ports st rq grant endpoint = (reply, None, st')"
  shows "(\<nexists>c. reply = Served c) \<and> (\<forall>k. active_of (es_active st') k = active_of (es_active st) k) \<and> es_metrics st' = es_metrics st"
proof (cases "inspect_request L grant (es_platform_body_limit st) rq")
  case (Inl e)
  with assms show ?thesis by (simp add: messages_def)
next
  case (Inr x)
  obtain body tree client model where x: "x = (body, tree, client, model)" by (cases x)
  obtain os cache where o: "resolve_client_os (po_iter ports) (po_session_now ports) (rq_headers rq) tree (ag_default_os_family grant)
       (cc_session_cache_key client) (es_os_sessions st) = (os, cache)" by fastforce
  let ?ctx = "\<lparr>pc_client_class = cc_class client, pc_client_os = fst os,
        pc_protocol_headers = protocol_headers (rq_headers rq), pc_affinity_credential = None\<rparr>"
  show ?thesis
  proof (cases "adjusted_request L grant endpoint (po_models_now ports) body tree model ?ctx")
    case (Inl e)
    with assms Inr x o show ?thesis by (simp add: messages_def Let_def)
  next
    case g: (Inr generic)
    show ?thesis
    proof (cases "if endpoint = DispatchCountTokens then Inr () else authorize_spend ports grant")
      case (Inl e)
      with assms Inr x o g show ?thesis by (simp add: messages_def Let_def)
    next
      case s: (Inr u)
      obtain r st2 where k: "take_resources (po_rate_now ports) grant endpoint (st\<lparr>es_os_sessions := cache\<rparr>) = (r, st2)"
        by fastforce
      have m: "es_metrics st2 = es_metrics st"
        using k by (auto simp: take_resources_def Let_def split: prod.splits RateDecision.splits if_splits)
      have r: "\<exists>e. r = Inl e" using assms Inr x o g s k by (cases r) (auto simp: messages_def Let_def split: prod.splits)
      then have "reply = Refused (projl r)" "st' = st2" using assms Inr x o g s k by (auto simp: messages_def Let_def)
      with r m show ?thesis using take_resources_counts(1) [OF k] by auto
    qed
  qed
qed

definition permits_of :: "EdgeReply \<Rightarrow> string \<Rightarrow> u32" where
  "permits_of reply k = (case reply of Served c \<Rightarrow> if k = cl_permit c then 1 else 0 | _ \<Rightarrow> 0)"

lemma messages_counts:
  assumes "messages L ports st rq grant endpoint = (reply, d, st')"
  shows "active_of (es_active st') k = active_of (es_active st) k + permits_of reply k"
proof (cases d)
  case None
  with assms have "messages L ports st rq grant endpoint = (reply, None, st')" by simp
  from messages_not_dispatched [OF this] show ?thesis by (cases reply) (simp_all add: permits_of_def)
next
  case (Some dr)
  with assms have "messages L ports st rq grant endpoint = (reply, Some dr, st')" by simp
  then obtain body client os cache generic st2 where
    k: "take_resources (po_rate_now ports) grant endpoint (st\<lparr>es_os_sessions := cache\<rparr>) = (Inr (), st2)"
    and d: "dr = dispatch_request ports rq grant endpoint body client os generic"
    and r: "run_dispatch L ports dr st2 = (reply, st')"
    by (rule messages_dispatched) blast
  let ?key = "as_str (ag_platform_key_id grant)"
  have key: "as_str (dr_platform_key_id dr) = ?key" by (simp add: d dispatch_request_def)
  have lt: "active_of (es_active st) ?key < ag_concurrency_limit grant" using take_resources_counts(2) [OF k refl] by simp
  have s2: "active_of (es_active st2) k = active_of (es_active st) k + (if k = ?key then 1 else 0)" for k
    using take_resources_counts(1) [OF k, of k] by simp
  have "unat (active_of (es_active st2) ?key) = Suc (unat (active_of (es_active st) ?key))"
    using s2 [of ?key] unat_suc_less [OF lt] by simp
  then have "active_of (es_active st2) (as_str (dr_platform_key_id dr)) \<noteq> 0" unfolding key by (metis Suc_neq_Zero unat_0)
  note run = run_dispatch_counts [OF r this]
  show ?thesis
  proof (cases "\<exists>c. reply = Served c")
    case True
    then obtain c where c: "reply = Served c" by blast
    with run(1) [of k] run(2) [OF c] s2 key show ?thesis by (simp add: permits_of_def)
  next
    case False
    then have "permits_of reply k = 0" by (auto simp: permits_of_def split: EdgeReply.splits)
    with run(1) [of k] s2 [of k] key False show ?thesis by simp
  qed
qed

subsection \<open>The entry\<close>

definition without_auth :: "'ip EdgeRequest \<Rightarrow> 'ip EdgeRequest" where
  "without_auth rq = rq\<lparr>rq_headers := scrub_auth (rq_headers rq)\<rparr>"

fun endpoint_route :: "DispatchEndpoint \<Rightarrow> BusinessRoute" where
  "endpoint_route (DispatchOpenAi e) = RouteOpenAi e"
| "endpoint_route DispatchMessages = RouteMessages"
| "endpoint_route DispatchCountTokens = RouteCountTokens"

lemma edge_entry_messages:
  assumes "edge_entry L ports st rq = (reply, d, st')" "d \<noteq> None \<or> (\<exists>c. reply = Served c)"
  obtains secret grant endpoint where
    "select_secret (rq_headers rq) = Some secret" "es_access st secret = Some grant"
    "admit_route L st (without_auth rq) (classify_route (rq_path rq)) grant = Inr ()"
    "classify_route (rq_path rq) = endpoint_route endpoint"
    "messages L ports st (without_auth rq) grant endpoint = (reply, d, st')"
proof -
  let ?route = "classify_route (rq_path rq)"
  from assms obtain grant where g: "Option.bind (select_secret (rq_headers rq)) (es_access st) = Some grant"
    by (cases "Option.bind (select_secret (rq_headers rq)) (es_access st)") (auto simp: edge_entry_def authenticate_def)
  then obtain secret where s: "select_secret (rq_headers rq) = Some secret" "es_access st secret = Some grant"
    by (auto simp: bind_eq_Some_conv)
  from assms g have a: "admit_route L st (without_auth rq) ?route grant = Inr ()"
    by (cases "admit_route L st (without_auth rq) ?route grant")
      (auto simp: edge_entry_def authenticate_def without_auth_def)
  from assms g a have w: "\<not> is_websocket (without_auth rq) ?route"
    by (auto simp: edge_entry_def authenticate_def without_auth_def)
  have m: "d = None \<and> (\<nexists>c. reply = Served c)" if "models ports st (without_auth rq) grant = (reply, d, st')"
    using that by (auto simp: models_def Let_def refuse_def split: prod.splits RateDecision.splits sum.splits)
  have e: "edge_entry L ports st rq = (case ?route of
                      RouteOpenAi e \<Rightarrow> messages L ports st (without_auth rq) grant (DispatchOpenAi e)
                    | RouteMessages \<Rightarrow> messages L ports st (without_auth rq) grant DispatchMessages
                    | RouteCountTokens \<Rightarrow> messages L ports st (without_auth rq) grant DispatchCountTokens
                    | RouteModels \<Rightarrow> models ports st (without_auth rq) grant
                    | RouteUnknown \<Rightarrow> refuse err_not_found st)"
    using g a w by (cases ?route) (simp_all add: edge_entry_def authenticate_def without_auth_def Let_def)
  show ?thesis
  proof (cases ?route)
    case (RouteOpenAi x)
    with that [OF s a, of "DispatchOpenAi x"] assms e show ?thesis by simp
  next
    case RouteMessages
    with that [OF s a, of DispatchMessages] assms e show ?thesis by simp
  next
    case RouteCountTokens
    with that [OF s a, of DispatchCountTokens] assms e show ?thesis by simp
  next
    case RouteModels
    with m assms e show ?thesis by simp
  next
    case RouteUnknown
    with assms e show ?thesis by auto
  qed
qed

lemma map_sum_left_Inr: "map_sum f id x = Inr y \<longleftrightarrow> x = Inr y"
  by (cases x) simp_all

lemma process_model:
  assumes "process_with_options cx pol raw_body ctx require_max_tokens = Inr (request, tree)"
  shows "\<exists>v. unique_value (fst (read_json cx raw_body)) = Inr v \<and> json_get ''model'' v = Some (JString (model_id request))"
proof -
  obtain p model stream cs out where st:
    "parse_messages_request (read_json cx) (digest_of (sha256_bytes cx)) raw_body (rp_schema_mode pol = Strict) = Inr p"
    "validate_base_structure p require_max_tokens = Inr (model, stream)"
    "freeze_request cx pol ctx p model stream tree cs out = Inr (request, tree)"
    using process_stages [OF assms] by metis
  have "unique_value (fst (read_json cx raw_body)) = Inr (pq_tree p)"
    using st(1) by (auto simp: parse_messages_request_def Let_def split: sum.splits option.splits if_splits list.splits)
  moreover obtain m where m: "pq_tree p = JObject m"
    using st(2) by (cases "pq_tree p") (auto simp: validate_base_structure_def)
  moreover have "model_field m = Some model"
    using st(2) m by (auto simp: validate_base_structure_def map_sum_Inr_iff split: option.splits if_splits)
  then have "map_of m ''model'' = Some (JString model)"
    by (auto simp: model_field_def bind_eq_Some_conv split: option.splits if_splits elim!: as_str_value.elims)
  ultimately show ?thesis using freeze_facts(1) [OF st(3)] by auto
qed

lemma edge_entry_effect:
  assumes "edge_entry L ports st rq = (reply, d, st')"
  shows "(\<exists>grant endpoint. messages L ports st (without_auth rq) grant endpoint = (reply, d, st')) \<or>
     es_active st' = es_active st \<and> (\<nexists>c. reply = Served c)"
proof (cases "d \<noteq> None \<or> (\<exists>c. reply = Served c)")
  case True
  then show ?thesis using edge_entry_messages [OF assms] by metis
next
  case False
  let ?route = "classify_route (rq_path rq)"
  have m: "es_active st' = es_active st" if "models ports st (without_auth rq) grant = (reply, d, st')" for grant
    using that by (auto simp: models_def Let_def refuse_def split: prod.splits RateDecision.splits sum.splits)
  show ?thesis
  proof (cases "Option.bind (select_secret (rq_headers rq)) (es_access st)")
    case None
    with assms False show ?thesis by (simp add: edge_entry_def authenticate_def)
  next
    case g: (Some grant)
    show ?thesis
    proof (cases "admit_route L st (without_auth rq) ?route grant")
      case (Inl e)
      with g assms False show ?thesis by (simp add: edge_entry_def authenticate_def without_auth_def Let_def)
    next
      case (Inr u)
      with g assms False m [of grant] show ?thesis
        by (cases ?route) (auto simp: edge_entry_def authenticate_def without_auth_def Let_def split: if_splits)
    qed
  qed
qed

lemma admit_route_ok:
  assumes "admit_route L st rq route grant = Inr ()"
  shows "is_openai_route route = (ag_provider grant = ProviderOpenai) \<or> route = RouteModels \<or> route = RouteUnknown"
    "is_none_or (route_permission route) (\<lambda>p. p \<in> ag_permissions grant)"
    "ip_allowed L (ag_ip_allowlist grant) (source_ip L (es_trusted_proxies st) (rq_peer rq) (rq_headers rq))"
  using assms by (auto simp: admit_route_def split: if_splits option.splits)

text \<open>The facts that a dispatched request carries about the grant it was admitted under.\<close>

definition admitted_under ::
  "('ip, 'net) EdgeLib \<Rightarrow> EdgePorts \<Rightarrow> 'net EdgeState \<Rightarrow> 'ip EdgeRequest \<Rightarrow> 'net AccessGrant \<Rightarrow> DispatchRequest \<Rightarrow> bool" where
  "admitted_under L ports st rq grant d \<longleftrightarrow>
     dr_platform_key_id d = ag_platform_key_id grant \<and> dr_group_id d = ag_group_id grant \<and>
     dr_owner_user_id d = ag_owner_user_id grant \<and> PermitMessages \<in> ag_permissions grant \<and>
     is_openai_route (endpoint_route (dr_endpoint d)) = (ag_provider grant = ProviderOpenai) \<and>
     ip_allowed L (ag_ip_allowlist grant) (source_ip L (es_trusted_proxies st) (rq_peer rq) (scrub_auth (rq_headers rq))) \<and>
     validate_framing (scrub_auth (rq_headers rq)) = Inr () \<and>
     rq_body rq = Some (dr_original_body d) \<and>
     length (dr_original_body d) \<le> min (ag_body_limit_bytes grant) (max (es_platform_body_limit st) 1) \<and>
     dr_client_class d \<in> ag_accepted_client_classes grant \<and>
     model_in_scope (model_id (fst (dr_generic d))) (ag_group_model_scope grant) \<and>
     model_in_scope (model_id (fst (dr_generic d))) (ag_key_model_scope grant) \<and>
     (dr_endpoint d = DispatchCountTokens \<or>
        po_spend ports (ag_owner_user_id grant) (ag_platform_key_id grant) = SpendAllowed) \<and>
     (let (key, rate) = endpoint_rate (dr_endpoint d) grant in fst (rate_allow (po_rate_now ports) key rate (es_rates st)) = RateAllowed) \<and>
     active_of (es_active st) (as_str (ag_platform_key_id grant)) < ag_concurrency_limit grant"

text \<open>C20. Nothing reaches the dispatcher unless every gate is passed: the presented key resolves to a grant of the right
  provider that permits messages, the source address is on its allowlist, framing and size are within bounds, the client
  class is accepted, the model that is dispatched (the one the policy took from the body, not the one the edge
  read) is in the scope of the group and of the key, the spend cap allows it, and the rate and the concurrency
  of the key have room. The two readers of \<^verbatim>\<open>serde_json\<close> must agree on documents that both accept.\<close>

theorem dispatched_request_authorized:
  assumes "edge_entry L ports st rq = (reply, Some d, st')"
    and "\<And>bytes v w. el_json_from_slice L bytes = Some v \<Longrightarrow>
      unique_value (fst (read_json (el_codec L) bytes)) = Inr w \<Longrightarrow> w = v"
  shows "\<exists>secret grant. select_secret (rq_headers rq) = Some secret \<and> es_access st secret = Some grant \<and>
     admitted_under L ports st rq grant d"
proof -
  have "Some d \<noteq> None \<or> (\<exists>c. reply = Served c)" by simp
  from edge_entry_messages [OF assms(1) this] obtain secret grant endpoint where
    s: "select_secret (rq_headers rq) = Some secret" "es_access st secret = Some grant"
    and a: "admit_route L st (without_auth rq) (classify_route (rq_path rq)) grant = Inr ()"
    and route: "classify_route (rq_path rq) = endpoint_route endpoint"
    and m: "messages L ports st (without_auth rq) grant endpoint = (reply, Some d, st')" by metis
  from m obtain body tree client model os cache generic st2 where
    i: "inspect_request L grant (es_platform_body_limit st) (without_auth rq) = Inr (body, tree, client, model)"
    and g: "\<exists>ctx. adjusted_request L grant endpoint (po_models_now ports) body tree model ctx = Inr generic"
    and sp: "endpoint = DispatchCountTokens \<or> authorize_spend ports grant = Inr ()"
    and k: "take_resources (po_rate_now ports) grant endpoint (st\<lparr>es_os_sessions := cache\<rparr>) = (Inr (), st2)"
    and d: "d = dispatch_request ports (without_auth rq) grant endpoint body client os generic"
    by (rule messages_dispatched) blast
  note io = inspect_request_ok [OF i] and ao = admit_route_ok [OF a, unfolded route]
  note ro = read_body_ok [OF io(1)] and to = take_resources_counts(2,3) [OF k refl]
  have model: "model_id (fst generic) = model"
  proof (cases endpoint)
    case (DispatchOpenAi e)
    with g show ?thesis by (auto simp: adjusted_request_def openai_generic_def split: if_splits)
  next
    case DispatchMessages
    with g obtain ctx where "process_with_options (el_codec L) (ag_policy grant) body ctx True = Inr generic"
      by (auto simp: adjusted_request_def process_def map_sum_left_Inr )
    with process_model assms(2) io(2,5) show ?thesis by (cases generic) fastforce
  next
    case DispatchCountTokens
    with g obtain ctx where "process_with_options (el_codec L) (ag_policy grant) body ctx False = Inr generic"
      by (auto simp: adjusted_request_def process_count_tokens_def map_sum_left_Inr)
    with process_model assms(2) io(2,5) show ?thesis by (cases generic) fastforce
  qed
  have fields: "dr_platform_key_id d = ag_platform_key_id grant" "dr_group_id d = ag_group_id grant"
      "dr_owner_user_id d = ag_owner_user_id grant" "dr_endpoint d = endpoint" "dr_original_body d = body"
      "dr_client_class d = cc_class client" "dr_generic d = generic"
    by (simp_all add: d dispatch_request_def)
  have perm: "PermitMessages \<in> ag_permissions grant" using ao(2) by (cases endpoint) simp_all
  have prov: "is_openai_route (endpoint_route endpoint) = (ag_provider grant = ProviderOpenai)"
    using ao(1) by (cases endpoint) simp_all
  have spend: "endpoint = DispatchCountTokens \<or> po_spend ports (ag_owner_user_id grant) (ag_platform_key_id grant) = SpendAllowed"
    using sp by (auto simp: authorize_spend_def split: SpendDecision.splits)
  have "admitted_under L ports st rq grant d"
    unfolding admitted_under_def fields model
    using ao(3) ro io(4,6,7) to perm prov spend by (simp add: without_auth_def split_beta)
  with s show ?thesis by blast
qed

text \<open>C21. After any request the limiter counts one permit more for the key of a served reply, and exactly what it counted
  before for every other key and for every other reply: refused and failed requests give their permit back.\<close>

theorem permit_held_iff_served:
  assumes "edge_entry L ports st rq = (reply, d, st')"
  shows "active_of (es_active st') k = active_of (es_active st) k + permits_of reply k"
proof -
  from edge_entry_effect [OF assms] consider
      (message) grant endpoint where "messages L ports st (without_auth rq) grant endpoint = (reply, d, st')"
    | (other) "es_active st' = es_active st" "\<nexists>c. reply = Served c" by blast
  then show ?thesis
  proof cases
    case message
    then show ?thesis by (rule messages_counts)
  next
    case other
    then have "permits_of reply k = 0" by (cases reply) (simp_all add: permits_of_def)
    with other show ?thesis by simp
  qed
qed

subsection \<open>The source address\<close>

lemma split_on_concat: "split_on c (a @ c # b) = split_on c a @ split_on c b"
proof (induction a)
  case (Cons x a)
  then show ?case using split_on_nonempty [of c a] by (auto split: list.splits)
qed simp

lemma collect_options_append:
  "collect_options (xs @ ys) =
     (case (collect_options xs, collect_options ys) of (Some a, Some b) \<Rightarrow> Some (a @ b) | _ \<Rightarrow> None)"
  by (induction xs) (auto split: option.splits)

lemma find_rev_append:
  "list_ex P b \<Longrightarrow> find P (rev (a @ b)) = find P (rev b)"
  by (induction b rule: rev_induct) auto

definition parsed_forward :: "('ip, 'net) EdgeLib \<Rightarrow> string \<Rightarrow> 'ip list option" where
  "parsed_forward L forwarded = collect_options (map (\<lambda>p. el_parse_ip L (str_trim p)) (split_on (CHR '','') forwarded))"

lemma parsed_forward_append:
  "parsed_forward L (a @ CHR '','' # b) =
     (case (parsed_forward L a, parsed_forward L b) of (Some x, Some y) \<Rightarrow> Some (x @ y) | _ \<Rightarrow> None)"
  by (simp add: parsed_forward_def split_on_concat collect_options_append)

lemma source_ip_eq:
  "header_first ''x-forwarded-for'' h = Some forwarded \<Longrightarrow> trusted_contains L trusted peer \<Longrightarrow>
   source_ip L trusted peer h =
     (case parsed_forward L forwarded of
        None \<Rightarrow> peer
      | Some chain \<Rightarrow> (case find (\<lambda>a. \<not> trusted_contains L trusted a) (rev chain) of None \<Rightarrow> peer | Some a \<Rightarrow> a))"
  by (simp add: source_ip_def forwarded_chain_def parsed_forward_def split: option.splits)

text \<open>What a client writes into \<^verbatim>\<open>x-forwarded-for\<close> does not count once a trusted proxy has appended an address it
  does not trust: the source is an untrusted address of the appended part, the same as without the client's part,
  as long as that part is a list of addresses.\<close>

theorem forwarded_prefix_ignored:
  assumes "header_first ''x-forwarded-for'' h = Some (claimed @ CHR '','' # appended)"
    and "header_first ''x-forwarded-for'' h' = Some appended"
    and "trusted_contains L trusted peer"
    and "parsed_forward L claimed \<noteq> None" "parsed_forward L appended = Some chain"
    and "list_ex (\<lambda>a. \<not> trusted_contains L trusted a) chain"
  shows "source_ip L trusted peer h = source_ip L trusted peer h' \<and>
     source_ip L trusted peer h \<in> set chain \<and> \<not> trusted_contains L trusted (source_ip L trusted peer h)"
proof -
  let ?P = "\<lambda>a. \<not> trusted_contains L trusted a"
  from assms(4) obtain first where f: "parsed_forward L claimed = Some first" by blast
  have "list_ex ?P (rev chain)" using assms(6) by simp
  then obtain a where a: "find ?P (rev chain) = Some a" by (metis find_None_iff list_ex_iff option.exhaust)
  then have "a \<in> set chain" "?P a" by (auto simp: find_Some_iff) (metis nth_mem set_rev length_rev)
  moreover have "source_ip L trusted peer h = a"
    using source_ip_eq [OF assms(1,3)] parsed_forward_append [of L claimed appended] f assms(5)
      find_rev_append [of ?P chain first] assms(6) a by simp
  moreover have "source_ip L trusted peer h' = a" using source_ip_eq [OF assms(2,3)] assms(5) a by simp
  ultimately show ?thesis by simp
qed

text \<open>A part that is no address hides the whole chain: the source is then the trusted proxy itself, whatever address the
  proxy appended.\<close>

lemma junk_forward_is_proxy:
  assumes "header_first ''x-forwarded-for'' h = Some (junk @ CHR '','' # appended)"
    and "trusted_contains L trusted peer" "parsed_forward L junk = None"
  shows "source_ip L trusted peer h = peer"
  using source_ip_eq [OF assms(1,2)] parsed_forward_append [of L junk appended] assms(3) by simp

subsection \<open>The pages of the model list\<close>

text \<open>A client that asks for page after page, each after the last model of the one before.\<close>

fun fetch_pages :: "nat \<Rightarrow> nat \<Rightarrow> string option \<Rightarrow> ModelRecord list \<Rightarrow> ModelRecord list" where
  "fetch_pages 0 limit after_id ms = []"
| "fetch_pages (Suc n) limit after_id ms =
     (case models_page \<lparr>mq_limit = limit, mq_after_id = after_id\<rparr> ms of
        Inl _ \<Rightarrow> []
      | Inr p \<Rightarrow> mp_data p @ (if mp_has_more p then fetch_pages n limit (mp_last_id p) ms else []))"

lemma position_of_distinct:
  "distinct (map mr_id ms) \<Longrightarrow> i < length ms \<Longrightarrow> position_of (\<lambda>m. mr_id m = mr_id (ms ! i)) ms = Some i"
proof (induction ms arbitrary: i)
  case (Cons m ms)
  then show ?case by (cases i) auto
qed simp

lemma fetch_pages_from:
  assumes "1 \<le> limit" "distinct (map mr_id ms)" "length ms \<le> USIZE_MAX"
  shows "s \<le> length ms \<Longrightarrow> length ms < n + s \<Longrightarrow> after_id = (if s = 0 then None else Some (mr_id (ms ! (s - 1)))) \<Longrightarrow>
    fetch_pages n limit after_id ms = drop s ms"
proof (induction n arbitrary: s after_id)
  case (Suc n)
  let ?stop = "min (s + limit) (length ms)"
  let ?page = "drop s (take ?stop ms)"
  have start: "(case after_id of None \<Rightarrow> Some 0 | Some a \<Rightarrow> map_option Suc (position_of (\<lambda>m. mr_id m = a) ms)) = Some s"
    using Suc.prems position_of_distinct [OF assms(2), of "s - 1"] by auto
  have stop: "min (min (s + limit) USIZE_MAX) (length ms) = ?stop" using assms(3) by simp
  have page: "models_page \<lparr>mq_limit = limit, mq_after_id = after_id\<rparr> ms =
      Inr \<lparr>mp_data = ?page, mp_has_more = (?stop < length ms),
           mp_first_id = (case ?page of [] \<Rightarrow> None | m # _ \<Rightarrow> Some (mr_id m)),
           mp_last_id = (if ?page = [] then None else Some (mr_id (last ?page)))\<rparr>"
    unfolding models_page_def by (simp only: start stop option.case Let_def ModelsQuery.simps)
  show ?case
  proof (cases "?stop < length ms")
    case True
    then have st: "?stop = s + limit" by simp
    have ne: "?page \<noteq> []" using True assms(1) by simp
    have "last ?page = ms ! (s + limit - 1)" using ne True assms(1) by (simp add: last_conv_nth)
    then have "fetch_pages n limit (mp_last_id \<lparr>mp_data = ?page, mp_has_more = (?stop < length ms),
           mp_first_id = (case ?page of [] \<Rightarrow> None | m # _ \<Rightarrow> Some (mr_id m)),
           mp_last_id = (if ?page = [] then None else Some (mr_id (last ?page)))\<rparr>) ms = drop (s + limit) ms"
      using Suc.IH [of "s + limit"] Suc.prems True assms(1) ne by simp
    moreover have "?page @ drop (s + limit) ms = drop s ms"
      using st by (metis append_take_drop_id drop_take diff_add_inverse drop_drop add.commute)
    ultimately show ?thesis using page True by simp
  next
    case False
    then have "?page = drop s ms" by simp
    with page False show ?thesis by simp
  qed
qed simp

lemma static_catalog_sorted: "sorted_wrt (<) (map mr_id (static_catalog_new ms))"
proof -
  let ?f = "\<lambda>m kept. if kept \<noteq> [] \<and> mr_id (last kept) = mr_id m then kept else kept @ [m]"
  have "sorted_wrt (<) (map mr_id (fold ?f xs kept))"
    if "sorted (map mr_id xs)" "sorted_wrt (<) (map mr_id kept)" "kept \<noteq> [] \<Longrightarrow> \<forall>x\<in>set xs. mr_id (last kept) \<le> mr_id x"
    for xs :: "ModelRecord list" and kept using that
  proof (induction xs arbitrary: kept)
    case (Cons x xs)
    show ?case
    proof (cases "kept \<noteq> [] \<and> mr_id (last kept) = mr_id x")
      case True
      with Cons show ?thesis by simp
    next
      case False
      have "mr_id k < mr_id x" if "k \<in> set kept" for k
      proof -
        have ne: "kept \<noteq> []" using that by auto
        then have "mr_id (last kept) < mr_id x" using False Cons.prems(3) by (simp add: order_le_neq_trans)
        moreover have "k = last kept \<or> mr_id k < mr_id (last kept)"
          using that Cons.prems(2) ne by (induction kept) (auto split: if_splits)
        ultimately show ?thesis by auto
      qed
      with False Cons show ?thesis by (auto simp: sorted_wrt_append)
    qed
  qed simp
  from this [of "sort_key mr_id ms" "[]"] show ?thesis by (simp add: static_catalog_new_def)
qed

lemma static_catalog_length: "length (static_catalog_new ms) \<le> length ms"
proof -
  let ?f = "\<lambda>m kept. if kept \<noteq> [] \<and> mr_id (last kept) = mr_id m then kept else kept @ [m]"
  have "length (fold ?f xs kept) \<le> length kept + length xs" for xs kept
  proof (induction xs arbitrary: kept)
    case (Cons x xs)
    show ?case using Cons.IH [of kept] Cons.IH [of "kept @ [x]"] by simp
  qed simp
  from this [of "sort_key mr_id ms" "[]"] show ?thesis by (simp add: static_catalog_new_def)
qed

text \<open>A client that walks the list page by page, with any page size, sees every model it may see exactly once and in
  the order of the catalog, and stops.\<close>

theorem pagination_complete:
  assumes "1 \<le> limit" "length ms \<le> USIZE_MAX" "shown = visible_models grant (static_catalog_new ms)"
  shows "fetch_pages (Suc (length shown)) limit None shown = shown \<and> sorted_wrt (<) (map mr_id shown)"
proof -
  have s: "sorted_wrt (<) (map mr_id shown)"
    using static_catalog_sorted [of ms] by (simp add: assms(3) visible_models_def sorted_wrt_map sorted_wrt_filter)
  then have d: "distinct (map mr_id shown)" by (simp add: strict_sorted_iff)
  have "length (static_catalog_new ms) \<le> length ms" by (rule static_catalog_length)
  then have "length shown \<le> USIZE_MAX"
    unfolding assms(3) visible_models_def using assms(2) by (meson length_filter_le order_trans)
  with fetch_pages_from [OF assms(1) d, of 0 "Suc (length shown)" None] s show ?thesis by simp
qed

end
