(* ===== verification/Edge_Cases.thy ===== *)
theory Edge_Cases
  imports Edge_Properties
begin

text \<open>Concrete requests at the edge.\<close>

definition sample_lib :: "(nat, nat) EdgeLib" where
  "sample_lib =
     \<lparr>el_codec = \<lparr>read_json = (\<lambda>_. (RObject [(''model'', RString ''m'')] True, True)), to_vec = (\<lambda>_. None),
                  sha256_bytes = (\<lambda>_. ''a'')\<rparr>,
      el_json_from_slice = (\<lambda>_. Some (JObject [(''model'', JString ''m'')])), el_json_to_string = (\<lambda>_. []),
      el_parse_ip = parse_unsigned 1000, el_net_contains = (=), el_hmac = (\<lambda>_ _. None), el_lossy = id,
      el_http_name = Some, el_http_value = (\<lambda>_. True)\<rparr>"

definition sample_snapshots :: RequestSnapshotSet where
  "sample_snapshots = (let v = SnapshotVersion ''v'' in \<lparr>access_policy = v, group_config = v, enforcement = v,
     ruleset = None, capability = v, client_profile_catalog = v, price = v, serializer = v\<rparr>)"

definition edge_sample_grant :: "nat AccessGrant" where
  "edge_sample_grant =
     \<lparr>ag_provider = ProviderOpenai, ag_owner_user_id = TypedId ''u'', ag_platform_key_id = TypedId ''k'',
      ag_group_id = TypedId ''g'', ag_permissions = {PermitMessages}, ag_key_model_scope = {}, ag_group_model_scope = {''m''},
      ag_body_limit_bytes = 100, ag_messages_rate = DEFAULT_MESSAGES, ag_count_tokens_rate = DEFAULT_COUNT_TOKENS,
      ag_models_rate = DEFAULT_MODELS, ag_concurrency_limit = 1, ag_ip_allowlist = [7],
      ag_accepted_client_classes = {NonClaudeCodeCli}, ag_default_os_family = Linux,
      ag_policy = \<lparr>rp_schema_mode = Compatible, rp_capabilities = [], rp_enforcement = Enforcement_default,
                   rp_ruleset = None, rp_snapshots = sample_snapshots\<rparr>\<rparr>"

definition edge_sample_state :: "nat EdgeState" where
  "edge_sample_state =
     \<lparr>es_access = (\<lambda>s. if s = ''sk'' then Some edge_sample_grant else None), es_models = [], es_rates = [],
      es_os_sessions = os_cache_default, es_active = [], es_metrics = \<lparr>mt_accepted = 0, mt_response_committed = 0\<rparr>,
      es_trusted_proxies = [], es_platform_body_limit = 1000\<rparr>"

definition sample_ports :: EdgePorts where
  "sample_ports =
     \<lparr>po_spend = (\<lambda>_ _. SpendAllowed), po_dispatch = (\<lambda>_. Inr \<lparr>ur_status = 200, ur_headers = [], ur_committed = None\<rparr>),
      po_models_now = [\<lparr>mr_openai_metadata = None, mr_provider = ProviderOpenai, mr_id = ''m'', mr_display_name = ''m'', mr_created_at = ''0''\<rparr>],
      po_iter = id, po_accepted_at = 0, po_session_now = 0, po_rate_now = 0\<rparr>"

definition edge_sample_request :: "nat EdgeRequest" where
  "edge_sample_request =
     \<lparr>rq_id = ''r'', rq_method = ''POST'', rq_path = ''/responses'', rq_query = None,
      rq_headers = [(''x-api-key'', Some ''sk''), (''content-type'', Some ''application/json'')],
      rq_body = Some ''{}'', rq_peer = 7\<rparr>"

lemma sample_auth: "select_secret (rq_headers edge_sample_request) = Some ''sk''"
  by (simp add: edge_sample_request_def select_secret_def get_all_def header_first_def normalize_api_key_def trim_visible
      visible_def is_whitespace_def)

lemma sample_stripped: "rq_headers (without_auth edge_sample_request) = [(''content-type'', Some ''application/json'')]"
  by (simp add: edge_sample_request_def without_auth_def scrub_auth_def remove_header_def)

lemma sample_route: "classify_route (rq_path edge_sample_request) = RouteOpenAi Responses"
  by (simp add: edge_sample_request_def classify_route_def)

lemma edge_sample_admitted: "admit_route sample_lib edge_sample_state (without_auth edge_sample_request) (RouteOpenAi Responses) edge_sample_grant = Inr ()"
  by (simp add: admit_route_def is_openai_route_def is_websocket_def ip_allowed_def source_ip_def trusted_contains_def
      sample_lib_def edge_sample_state_def edge_sample_grant_def edge_sample_request_def without_auth_def)

lemma sample_framing: "validate_framing [(''content-type'', Some ''application/json'')] = Inr ()"
  by (simp add: validate_framing_def get_all_def header_first_def contains_header_def valid_content_type_def trim_visible
      visible_def is_whitespace_def eq_ignore_ascii_case_def)

lemma sample_inspected:
  "\<exists>client. cc_class client = NonClaudeCodeCli \<and> inspect_request sample_lib edge_sample_grant 1000 (without_auth edge_sample_request) =
     Inr (''{}'', JObject [(''model'', JString ''m'')], client, ''m'')"
proof -
  let ?h = "[(''content-type'', Some ''application/json'')]" and ?t = "JObject [(''model'', JString ''m'')]"
  have body: "read_body edge_sample_grant 1000 ?h (Some ''{}'') = Inr ''{}''"
    using sample_framing
    by (simp add: read_body_def edge_sample_grant_def content_length_def header_first_def get_all_def Let_def)
  have "\<exists>s. openai_session sample_lib ?h (rq_id edge_sample_request) = Inr s"
    by (simp add: openai_session_def header_string_def get_all_def edge_digest_def sample_lib_def digest_of_def hex_byte_def
        hex_digit_def TypedId_new_def MAX_ID_BYTES_def is_ascii_def)
  then obtain s where s: "openai_session sample_lib ?h (rq_id edge_sample_request) = Inr s" by blast
  then have "classified sample_lib edge_sample_grant ?h ?t (rq_id edge_sample_request) =
      Inr ((classify_client sample_lib ?h ?t (ag_platform_key_id edge_sample_grant))\<lparr>cc_base_session := s, cc_class := NonClaudeCodeCli\<rparr>)"
    by (simp add: classified_def Let_def) (simp add: edge_sample_grant_def)
  with body show ?thesis
    unfolding inspect_request_def sample_stripped
    by (simp add: without_auth_def edge_sample_request_def sample_lib_def edge_sample_grant_def model_in_scope_def)
qed

lemma sample_rate:
  "\<exists>rates. rate_allow 0 ''messages:k'' DEFAULT_MESSAGES [] = (RateAllowed, rates)"
proof -
  have "map (\<lambda>d. d = RateAllowed) (allow_calls 1 0 ''messages:k'' DEFAULT_MESSAGES []) = [True]"
    using allow_calls_fresh [of DEFAULT_MESSAGES "[]" "''messages:k''" 1 0] by (simp add: DEFAULT_MESSAGES_def)
  then show ?thesis by (cases "rate_allow 0 ''messages:k'' DEFAULT_MESSAGES []") simp
qed

lemma sample_dispatched:
  "\<exists>c d st. edge_entry sample_lib sample_ports edge_sample_state edge_sample_request = (Served c, Some d, st) \<and> cl_permit c = ''k''"
proof -
  let ?rq = "without_auth edge_sample_request" and ?t = "JObject [(''model'', JString ''m'')]"
  obtain client where c: "cc_class client = NonClaudeCodeCli"
    "inspect_request sample_lib edge_sample_grant 1000 ?rq = Inr (''{}'', ?t, client, ''m'')"
    using sample_inspected by blast
  obtain os cache where o: "resolve_client_os id 0 (rq_headers ?rq) ?t Linux (cc_session_cache_key client) os_cache_default = (os, cache)"
    by fastforce
  obtain rates where r: "rate_allow 0 ''messages:k'' DEFAULT_MESSAGES [] = (RateAllowed, rates)" using sample_rate by blast
  obtain generic where g: "openai_generic sample_lib edge_sample_grant (po_models_now sample_ports) ''{}'' ?t ''m'' = Inr generic"
    by (simp add: openai_generic_def sample_ports_def edge_sample_grant_def)
  let ?d = "dispatch_request sample_ports ?rq edge_sample_grant (DispatchOpenAi Responses) ''{}'' client os generic"
  let ?st = "edge_sample_state\<lparr>es_os_sessions := cache, es_rates := rates, es_active := [(''k'', 1)]\<rparr>"
  have k: "take_resources 0 edge_sample_grant (DispatchOpenAi Responses) (edge_sample_state\<lparr>es_os_sessions := cache\<rparr>) = (Inr (), ?st)"
    by (simp add: take_resources_def endpoint_rate_def rate_key_def edge_sample_grant_def edge_sample_state_def r try_acquire_def)
  have d: "\<exists>c st. run_dispatch sample_lib sample_ports ?d ?st = (Served c, st) \<and> cl_permit c = ''k''"
    by (simp add: run_dispatch_def upstream_response_def sample_ports_def Let_def dispatch_request_def edge_sample_grant_def)
  then obtain c2 st2 where d: "run_dispatch sample_lib sample_ports ?d ?st = (Served c2, st2)" "cl_permit c2 = ''k''" by blast
  have fields: "es_platform_body_limit edge_sample_state = 1000" "es_os_sessions edge_sample_state = os_cache_default"
    "po_iter sample_ports = id" "po_session_now sample_ports = 0" "po_rate_now sample_ports = 0"
    "ag_default_os_family edge_sample_grant = Linux" "authorize_spend sample_ports edge_sample_grant = Inr ()"
    by (simp_all add: edge_sample_state_def sample_ports_def edge_sample_grant_def authorize_spend_def)
  have m: "messages sample_lib sample_ports edge_sample_state ?rq edge_sample_grant (DispatchOpenAi Responses) = (Served c2, Some ?d, st2)"
    unfolding messages_def fields c(2) sum.case prod.case o Let_def
    by (simp add: adjusted_request_def g fields k d)
  have w: "\<not> is_websocket (edge_sample_request\<lparr>rq_headers := scrub_auth (rq_headers edge_sample_request)\<rparr>) (RouteOpenAi Responses)"
    by (simp add: is_websocket_def edge_sample_request_def)
  have acc: "es_access edge_sample_state ''sk'' = Some edge_sample_grant" by (simp add: edge_sample_state_def)
  have "edge_entry sample_lib sample_ports edge_sample_state edge_sample_request = (Served c2, Some ?d, st2)"
    using m edge_sample_admitted w
    by (simp add: edge_entry_def authenticate_def sample_auth acc sample_route without_auth_def Let_def)
  with d(2) show ?thesis by blast
qed

theorem dispatched_request_authorized_witness:
  "\<exists>d. admitted_under sample_lib sample_ports edge_sample_state edge_sample_request edge_sample_grant d"
proof -
  obtain c d st where e: "edge_entry sample_lib sample_ports edge_sample_state edge_sample_request = (Served c, Some d, st)"
    using sample_dispatched by blast
  have "\<exists>secret grant. select_secret (rq_headers edge_sample_request) = Some secret \<and> es_access edge_sample_state secret = Some grant \<and>
      admitted_under sample_lib sample_ports edge_sample_state edge_sample_request grant d"
    by (rule dispatched_request_authorized [OF e]) (simp add: sample_lib_def)
  then obtain grant where "es_access edge_sample_state ''sk'' = Some grant"
    "admitted_under sample_lib sample_ports edge_sample_state edge_sample_request grant d"
    using sample_auth by auto
  moreover have "es_access edge_sample_state ''sk'' = Some edge_sample_grant" by (simp add: edge_sample_state_def)
  ultimately show ?thesis by auto
qed

theorem permit_held_iff_served_witness:
  "\<exists>c d st. edge_entry sample_lib sample_ports edge_sample_state edge_sample_request = (Served c, Some d, st) \<and>
     active_of (es_active st) ''k'' = 1 \<and> active_of (es_active st) ''other'' = 0"
proof -
  obtain c d st where e: "edge_entry sample_lib sample_ports edge_sample_state edge_sample_request = (Served c, Some d, st)" "cl_permit c = ''k''"
    using sample_dispatched by blast
  from permit_held_iff_served [OF e(1), of "''k''"] permit_held_iff_served [OF e(1), of "''other''"] e
  show ?thesis by (simp add: permits_of_def edge_sample_state_def active_of_def)
qed

text \<open>Behind the proxy 1 a client at 9 claims to be 5.\<close>

theorem forwarded_prefix_ignored_witness:
  "source_ip sample_lib [1] 1 [(''x-forwarded-for'', Some ''5,9'')] = 9"
proof -
  have p: "parsed_forward sample_lib ''5'' = Some [5]" "parsed_forward sample_lib ''9'' = Some [9]"
    by (simp_all add: parsed_forward_def sample_lib_def trim_visible visible_def is_whitespace_def parse_unsigned_def
        is_ascii_digit_def)
  have "source_ip sample_lib [1] 1 [(''x-forwarded-for'', Some ''5,9'')] \<in> set [9]"
    using forwarded_prefix_ignored [of "[(''x-forwarded-for'', Some ''5,9'')]" "''5''" "''9''"
        "[(''x-forwarded-for'', Some ''9'')]" sample_lib "[1]" 1 "[9]"] p
    by (simp add: header_first_def get_all_def trusted_contains_def sample_lib_def)
  then show ?thesis by simp
qed

definition sample_models :: "ModelRecord list" where
  "sample_models = map (\<lambda>i. \<lparr>mr_openai_metadata = None, mr_provider = ProviderOpenai, mr_id = i, mr_display_name = i,
     mr_created_at = ''0''\<rparr>) [''x'', ''m'', ''m'']"

theorem pagination_complete_witness:
  "let shown = visible_models edge_sample_grant (static_catalog_new sample_models)
   in fetch_pages (Suc (length shown)) 2 None shown = shown"
  using pagination_complete [of 2 sample_models _ edge_sample_grant, OF _ _ refl]
  by (simp add: sample_models_def USIZE_MAX_def Let_def)

end
