(* ===== verification/Byte_Codec.thy ===== *)
theory Byte_Codec
  imports Text_Search
begin

unbundle bit_operations_syntax

text \<open>
  The question mark operator of Rust on results, big-endian bytes and length-delimited fields: whatever follows a
  delimited field, it can be read back, so different lists of fields never have the same encoding.
\<close>

subsection \<open>Results\<close>

definition and_then :: "'e + 'a \<Rightarrow> ('a \<Rightarrow> 'e + 'b) \<Rightarrow> 'e + 'b" where
  "and_then r f = (case r of Inl e \<Rightarrow> Inl e | Inr x \<Rightarrow> f x)"

definition ok_or :: "'e \<Rightarrow> 'a option \<Rightarrow> 'e + 'a" where
  "ok_or e x = (case x of None \<Rightarrow> Inl e | Some v \<Rightarrow> Inr v)"

text \<open>Collecting an iterator of results: the first error, or all values.\<close>

fun collect_results :: "('e + 'a) list \<Rightarrow> 'e + 'a list" where
  "collect_results [] = Inr []"
| "collect_results (r # rs) = and_then r (\<lambda>x. and_then (collect_results rs) (\<lambda>xs. Inr (x # xs)))"

lemma and_then_simps [simp]: "and_then (Inl e) f = Inl e" "and_then (Inr x) f = f x"
  by (simp_all add: and_then_def)

lemma and_then_Inr: "and_then r f = Inr y \<longleftrightarrow> (\<exists>x. r = Inr x \<and> f x = Inr y)"
  by (cases r) simp_all

lemma and_then_Inl: "and_then r f = Inl e \<longleftrightarrow> r = Inl e \<or> (\<exists>x. r = Inr x \<and> f x = Inl e)"
  by (cases r) simp_all

lemma ok_or_simps [simp]: "ok_or e (Some v) = Inr v" "ok_or e None = Inl e"
  by (simp_all add: ok_or_def)

lemma ok_or_Inr: "ok_or e x = Inr v \<longleftrightarrow> x = Some v"
  by (cases x) simp_all

lemma ok_or_Inl: "ok_or e x = Inl e' \<longleftrightarrow> x = None \<and> e' = e"
  by (cases x) auto

lemma collect_results_Inr: "collect_results rs = Inr xs \<longleftrightarrow> rs = map Inr xs"
  by (induction rs arbitrary: xs) (auto simp: and_then_Inr)

subsection \<open>Big-endian bytes\<close>

text \<open>\<^verbatim>\<open>to_be_bytes\<close> of an unsigned integer of \<open>n\<close> bytes.\<close>

fun be_bytes :: "nat \<Rightarrow> nat \<Rightarrow> string" where
  "be_bytes 0 v = []"
| "be_bytes (Suc n) v = be_bytes n (v div 256) @ [char_of (v mod 256)]"

definition u32_be :: "u32 \<Rightarrow> string" where
  "u32_be w = be_bytes 4 (unat w)"

definition u64_be :: "u64 \<Rightarrow> string" where
  "u64_be w = be_bytes 8 (unat w)"

definition u128_be :: "u128 \<Rightarrow> string" where
  "u128_be w = be_bytes 16 (unat w)"

lemma length_be_bytes [simp]: "length (be_bytes n v) = n"
  by (induction n arbitrary: v) simp_all

lemma be_bytes_inject: "be_bytes n v = be_bytes n w \<Longrightarrow> v < 256 ^ n \<Longrightarrow> w < 256 ^ n \<Longrightarrow> v = w"
proof (induction n arbitrary: v w)
  case (Suc n)
  from Suc.prems(1) have d: "be_bytes n (v div 256) = be_bytes n (w div 256)"
    and m: "(char_of (v mod 256) :: char) = char_of (w mod 256)" by simp_all
  have "v div 256 < 256 ^ n" "w div 256 < 256 ^ n"
    using Suc.prems(2,3) by (simp_all add: less_mult_imp_div_less mult.commute)
  with Suc.IH [OF d] have "v div 256 = w div 256" .
  moreover have "v mod 256 = w mod 256"
    using arg_cong [OF m, of "of_char :: char \<Rightarrow> nat"] by simp
  ultimately show ?case by (metis div_mult_mod_eq)
qed simp

lemma u32_be_inject [simp]: "u32_be v = u32_be w \<longleftrightarrow> v = w"
  using be_bytes_inject [of 4 "unat v" "unat w"] unsigned_less [of v, where ?'a = nat] unsigned_less [of w, where ?'a = nat]
  by (auto simp: u32_be_def word_unat_eq_iff)

lemma u64_be_inject [simp]: "u64_be v = u64_be w \<longleftrightarrow> v = w"
  using be_bytes_inject [of 8 "unat v" "unat w"] unsigned_less [of v, where ?'a = nat] unsigned_less [of w, where ?'a = nat]
  by (auto simp: u64_be_def word_unat_eq_iff)

lemma u128_be_inject [simp]: "u128_be v = u128_be w \<longleftrightarrow> v = w"
  using be_bytes_inject [of 16 "unat v" "unat w"] unsigned_less [of v, where ?'a = nat] unsigned_less [of w, where ?'a = nat]
  by (auto simp: u128_be_def word_unat_eq_iff)

lemma length_word_be [simp]: "length (u32_be v) = 4" "length (u64_be w) = 8" "length (u128_be x) = 16"
  by (simp_all add: u32_be_def u64_be_def u128_be_def)

subsection \<open>Length-delimited fields\<close>

text \<open>A field is its length as a \<^verbatim>\<open>u64\<close>, then its bytes.\<close>

definition delimited :: "string \<Rightarrow> string" where
  "delimited field = u64_be (of_nat (length field)) @ field"

definition fits_length :: "string \<Rightarrow> bool" where
  "fits_length s \<longleftrightarrow> length s < 2 ^ 64"

text \<open>The first of several fields can be read back whatever follows, so no two lists of fields share an encoding.\<close>

lemma delimited_append_inject:
  assumes "fits_length a" "fits_length b"
  shows "delimited a @ x = delimited b @ y \<longleftrightarrow> a = b \<and> x = y"
proof
  assume eq: "delimited a @ x = delimited b @ y"
  then have "(of_nat (length a) :: u64) = of_nat (length b)" and rest: "a @ x = b @ y"
    by (simp_all add: delimited_def)
  then have "unat (of_nat (length a) :: u64) = unat (of_nat (length b) :: u64)" by simp
  then have "length a = length b" using assms by (simp add: fits_length_def unat_of_nat)
  with rest show "a = b \<and> x = y" by simp
qed simp

lemma delimited_inject:
  assumes "fits_length a" "fits_length b"
  shows "delimited a = delimited b \<longleftrightarrow> a = b"
  using delimited_append_inject [OF assms, of "[]" "[]"] by simp

lemma fits_word_be [simp]: "fits_length (u32_be v)" "fits_length (u64_be w)" "fits_length (u128_be x)"
  by (simp_all add: fits_length_def)

subsection \<open>UUIDs\<close>

text \<open>The version and variant bits that make sixteen bytes a version 4 UUID.\<close>

definition uuid_v4_bits :: "string \<Rightarrow> string" where
  "uuid_v4_bits b =
     (let b6 = (of_nat (byte (b ! 6)) :: u8); b8 = (of_nat (byte (b ! 8)) :: u8)
      in b[6 := char_of (unat ((b6 AND 15) OR 64)), 8 := char_of (unat ((b8 AND 63) OR 128))])"

text \<open>The derived bytes are those of a version 4 UUID of the RFC variant.\<close>

lemma uuid_v4_shape:
  assumes "length b = 16"
  shows "length (uuid_v4_bits b) = 16" "byte (uuid_v4_bits b ! 6) div 16 = 4" "byte (uuid_v4_bits b ! 8) div 64 = 2"
proof -
  have m: "(of_char c :: nat) = byte c" for c by simp
  have v: "unat ((w AND 15) OR 64) div 16 = 4 \<and> unat ((w AND 15) OR 64) < 256 \<and> unat ((w AND 63) OR 128) div 64 = 2 \<and>
      unat ((w AND 63) OR 128) < 256" for w :: u8
  proof -
    have bound: "unat x < 256" for x :: u8 using unsigned_less [of x, where ?'a = nat] by simp
    have "drop_bit 4 ((w AND 15) OR 64) = (4 :: u8)" "drop_bit 6 ((w AND 63) OR 128) = (2 :: u8)"
      by (intro bit_word_eqI; simp add: bit_simps; auto simp: less_Suc_eq numeral_eq_Suc)+
    then have "unat (drop_bit 4 ((w AND 15) OR 64)) = 4" "unat (drop_bit 6 ((w AND 63) OR 128)) = 2" by simp_all
    with bound show ?thesis by (simp add: unat_drop_bit_eq drop_bit_eq_div unat_div)
  qed
  show "length (uuid_v4_bits b) = 16" using assms by (simp add: uuid_v4_bits_def Let_def)
  show "byte (uuid_v4_bits b ! 6) div 16 = 4" "byte (uuid_v4_bits b ! 8) div 64 = 2"
    using assms v by (simp_all add: uuid_v4_bits_def Let_def)
qed

end
