(* ===== verification/Base32.thy ===== *)
theory Base32
  imports Byte_Codec
begin

unbundle bit_operations_syntax

text \<open>
  RFC 4648 base32 without padding, \<open>base32_no_pad\<close> of \<^verbatim>\<open>gateway-services/security.rs\<close>, with its 32-bit accumulator from
  which the written bits are never cleared, and a reference decoder that undoes it.
\<close>

subsection \<open>The encoder\<close>

definition BASE32_ALPHABET :: string where
  "BASE32_ALPHABET = ''ABCDEFGHIJKLMNOPQRSTUVWXYZ234567''"

definition base32_char :: "u32 \<Rightarrow> char" where
  "base32_char w = BASE32_ALPHABET ! unat (w AND 31)"

text \<open>The inner loop: while at least five bits are pending, the top five are written.\<close>

function emit_groups :: "u32 \<Rightarrow> u8 \<Rightarrow> string \<times> u8" where
  "emit_groups accumulator bits =
     (if 5 \<le> bits
      then (let b = bits - 5; (out, rest) = emit_groups accumulator b in (base32_char (drop_bit (unat b) accumulator) # out, rest))
      else ([], bits))"
  by pat_completeness auto
termination
proof (relation "measure (\<lambda>(a, b). unat b)")
  fix bits b :: u8 and a :: u32
  assume "5 \<le> bits" "b = bits - 5"
  then show "((a, b), (a, bits)) \<in> measure (\<lambda>(a, b). unat b)"
    by (simp add: unat_sub word_le_nat_alt)
qed simp

declare emit_groups.simps [simp del]

fun base32_bytes :: "u32 \<Rightarrow> u8 \<Rightarrow> string \<Rightarrow> string" where
  "base32_bytes accumulator bits [] =
     (if 0 < bits then [base32_char (push_bit (unat (5 - bits)) accumulator)] else [])"
| "base32_bytes accumulator bits (c # s) =
     (let a = push_bit 8 accumulator OR of_nat (byte c);
          (out, b) = emit_groups a (saturating_add bits 8)
      in out @ base32_bytes a b s)"

definition base32_no_pad :: "string \<Rightarrow> string" where
  "base32_no_pad s = base32_bytes 0 0 s"

text \<open>The reference: five bits at a time, the last group filled up with zeros; the decoder drops the filling.\<close>

definition low_bits :: "nat \<Rightarrow> 'a::len word \<Rightarrow> bool list" where
  "low_bits n w = map (\<lambda>i. bit w (n - 1 - i)) [0..<n]"

definition bits_value :: "bool list \<Rightarrow> nat" where
  "bits_value bs = foldl (\<lambda>v b. 2 * v + of_bool b) 0 bs"

function base32_groups :: "bool list \<Rightarrow> bool list list" where
  "base32_groups bs =
     (if bs = [] then []
      else if length bs < 5 then [bs @ replicate (5 - length bs) False]
      else take 5 bs # base32_groups (drop 5 bs))"
  by pat_completeness auto
termination by (relation "measure length") auto

declare base32_groups.simps [simp del]

definition char_index :: "char \<Rightarrow> nat" where
  "char_index c = length (takeWhile (\<lambda>a. a \<noteq> c) BASE32_ALPHABET)"

fun octets :: "bool list \<Rightarrow> string" where
  "octets (a # b # c # d # e # f # g # h # bs) = char_of (bits_value [a, b, c, d, e, f, g, h]) # octets bs"
| "octets _ = []"

definition base32_decode :: "string \<Rightarrow> string" where
  "base32_decode t = octets (concat (map (\<lambda>c. low_bits 5 (of_nat (char_index c) :: u8)) t))"

subsection \<open>Correctness\<close>

lemma length_low_bits [simp]: "length (low_bits n w) = n"
  by (simp add: low_bits_def)

lemma nth_low_bits: "i < n \<Longrightarrow> low_bits n w ! i = bit w (n - 1 - i)"
  by (simp add: low_bits_def)

lemma low_bits_push_byte:
  assumes "n + 8 \<le> 32"
  shows "low_bits (n + 8) (push_bit 8 a OR of_nat (byte c) :: u32) = low_bits n a @ low_bits 8 (of_nat (byte c) :: u32)"
proof (rule nth_equalityI)
  fix i
  assume "i < length (low_bits (n + 8) (push_bit 8 a OR of_nat (byte c) :: u32))"
  then have i: "i < n + 8" by simp
  have high: "\<not> bit (byte c) j" if "8 \<le> j" for j
  proof -
    have "byte c < 2 ^ 8" by simp
    then have "byte c < 2 ^ j" using that by (meson less_le_trans one_le_numeral power_increasing)
    then show ?thesis by (simp add: bit_iff_odd)
  qed
  show "low_bits (n + 8) (push_bit 8 a OR of_nat (byte c) :: u32) ! i = (low_bits n a @ low_bits 8 (of_nat (byte c) :: u32)) ! i"
  proof (cases "i < n")
    case True
    then have "8 \<le> 7 + n - i" "7 + n - i < 32" using assms by linarith+
    with True show ?thesis using high [of "7 + n - i"]
      by (simp add: nth_append nth_low_bits bit_or_iff bit_push_bit_iff bit_of_nat_iff)
  next
    case False
    then have "\<not> 8 \<le> 7 + n - i" by linarith
    with False assms i show ?thesis
      by (simp add: nth_append nth_low_bits bit_or_iff bit_push_bit_iff)
  qed
qed simp

lemma low_bits_split:
  assumes "5 \<le> n"
  shows "low_bits n w = low_bits 5 (drop_bit (n - 5) w) @ low_bits (n - 5) (w :: 'a::len word)"
  using assms by (intro nth_equalityI) (auto simp: nth_append nth_low_bits bit_drop_bit_eq intro!: arg_cong [where f = "bit w"])

lemma low_bits_fill:
  assumes "n < 5"
  shows "low_bits 5 (push_bit (5 - n) w :: u32) = low_bits n w @ replicate (5 - n) False"
  using assms by (intro nth_equalityI) (auto simp: nth_append nth_low_bits bit_push_bit_iff intro!: arg_cong2 [where f = bit])

lemma bits_value_snoc [simp]: "bits_value (bs @ [b]) = 2 * bits_value bs + of_bool b"
  by (simp add: bits_value_def)

lemma low_bits_0 [simp]: "low_bits 0 w = []"
  by (simp add: low_bits_def)

lemma low_bits_Nil [simp]: "low_bits n w = [] \<longleftrightarrow> n = 0"
  by (simp add: low_bits_def)

lemma low_bits_Suc: "low_bits (Suc n) w = low_bits n (drop_bit 1 w) @ [bit (w :: 'a::len word) 0]"
  by (rule nth_equalityI) (auto simp: nth_append nth_low_bits bit_drop_bit_eq less_Suc_eq intro!: arg_cong2 [where f = bit])

lemma bits_value_low_bits: "bits_value (low_bits n (w :: u32)) = unat w mod 2 ^ n"
proof (induction n arbitrary: w)
  case 0
  show ?case by (simp add: low_bits_def bits_value_def)
next
  case (Suc n)
  have "unat w mod 2 ^ Suc n = 2 * (unat w div 2 mod 2 ^ n) + unat w mod 2"
    by (simp add: mod_mult2_eq)
  moreover have "unat (drop_bit 1 w) = unat w div 2" by (simp add: unat_drop_bit_eq drop_bit_Suc unat_div)
  moreover have "of_bool (bit w 0) = unat w mod 2" using bit_unsigned_iff [where ?'a = nat, of w 0] by (simp add: bit_0 mod_2_eq_odd)
  ultimately show ?case using Suc [of "drop_bit 1 w"] by (simp add: low_bits_Suc)
qed

lemma char_index_nth: "k < length BASE32_ALPHABET \<Longrightarrow> char_index (BASE32_ALPHABET ! k) = k"
proof -
  have d: "distinct BASE32_ALPHABET" by (simp add: BASE32_ALPHABET_def)
  assume k: "k < length BASE32_ALPHABET"
  have "takeWhile (\<lambda>a. a \<noteq> BASE32_ALPHABET ! k) BASE32_ALPHABET = take k BASE32_ALPHABET"
    using d k by (intro takeWhile_eq_take_P_nth) (auto simp: nth_eq_iff_index_eq)
  then show ?thesis using k by (simp add: char_index_def)
qed

lemma alphabet_length: "length BASE32_ALPHABET = 32"
  by (simp add: BASE32_ALPHABET_def)

lemma low_bits_char_index: "low_bits 5 (of_nat (char_index (base32_char w)) :: u8) = low_bits 5 w"
proof -
  have m: "w AND 31 = take_bit 5 w" by (simp add: take_bit_eq_mask mask_eq_exp_minus_1)
  then have "unat (w AND 31) < 32"
    using take_bit_nat_less_exp [of 5 "unat w"] by (simp add: unsigned_take_bit_eq)
  then have "char_index (base32_char w) = unat (w AND 31)"
    using char_index_nth [of "unat (w AND 31)"] by (simp add: base32_char_def alphabet_length)
  then show ?thesis
    by (intro nth_equalityI) (auto simp: nth_low_bits bit_of_nat_iff m bit_unsigned_iff bit_take_bit_iff)
qed

lemma base32_groups_Cons:
  assumes "length g = 5"
  shows "base32_groups (g @ bs) = g # base32_groups bs"
  using assms by (subst base32_groups.simps) auto

text \<open>One byte: the pending bits and those of the byte, without the groups that were written.\<close>

lemma emit_groups_correct:
  assumes "unat bits \<le> 32" "emit_groups a bits = (out, b)"
  shows "unat b < 5 \<and>
    map (\<lambda>c. low_bits 5 (of_nat (char_index c) :: u8)) out @ base32_groups (low_bits (unat b) a @ rest) =
      base32_groups (low_bits (unat bits) a @ rest)"
  using assms
proof (induction a bits arbitrary: out b rule: emit_groups.induct)
  case (1 a bits)
  show ?case
  proof (cases "5 \<le> bits")
    case False
    with 1(3) have "out = []" "b = bits" by (simp_all add: emit_groups.simps)
    with False show ?thesis by (simp add: word_le_nat_alt)
  next
    case True
    then have u: "unat (bits - 5) = unat bits - 5" "5 \<le> unat bits" by (simp_all add: unat_sub word_le_nat_alt)
    obtain o' b' where e: "emit_groups a (bits - 5) = (o', b')" by fastforce
    with 1(3) True have o: "out = base32_char (drop_bit (unat bits - 5) a) # o'" "b = b'"
      by (simp_all add: emit_groups.simps [of a bits] Let_def u)
    have ih: "unat b' < 5 \<and>
        map (\<lambda>c. low_bits 5 (of_nat (char_index c) :: u8)) o' @ base32_groups (low_bits (unat b') a @ rest) =
          base32_groups (low_bits (unat bits - 5) a @ rest)"
      using 1(1) [OF True refl _ e] 1(2) u by simp
    have "base32_groups (low_bits (unat bits) a @ rest) =
        low_bits 5 (drop_bit (unat bits - 5) a) # base32_groups (low_bits (unat bits - 5) a @ rest)"
      using low_bits_split [OF u(2), of a] by (simp add: base32_groups_Cons)
    with ih o show ?thesis by (simp add: low_bits_char_index)
  qed
qed

definition byte_bits :: "char \<Rightarrow> bool list" where
  "byte_bits c = low_bits 8 (of_nat (byte c) :: u32)"

text \<open>The code writes the groups of the reference.\<close>

lemma base32_bytes_groups:
  assumes "unat bits < 5"
  shows "map (\<lambda>c. low_bits 5 (of_nat (char_index c) :: u8)) (base32_bytes a bits s) =
    base32_groups (low_bits (unat bits) a @ concat (map byte_bits s))"
  using assms
proof (induction s arbitrary: a bits)
  case Nil
  have "unat (5 - bits) = 5 - unat bits" using Nil by (simp add: unat_sub word_le_nat_alt)
  with Nil show ?case
    by (cases "bits = 0")
      (auto simp: low_bits_char_index low_bits_fill word_less_nat_alt unat_eq_0 base32_groups.simps)
next
  case (Cons c s)
  let ?a = "push_bit 8 a OR of_nat (byte c) :: u32"
  have u: "unat (saturating_add bits 8) = unat bits + 8" using Cons.prems by (simp add: unat_saturating_add)
  obtain out b where e: "emit_groups ?a (saturating_add bits 8) = (out, b)" by fastforce
  have b: "unat b < 5 \<and>
      map (\<lambda>c. low_bits 5 (of_nat (char_index c) :: u8)) out @ base32_groups (low_bits (unat b) ?a @ concat (map byte_bits s)) =
        base32_groups (low_bits (unat bits + 8) ?a @ concat (map byte_bits s))"
    using emit_groups_correct [OF _ e] Cons.prems u by simp
  moreover have "low_bits (unat bits + 8) ?a = low_bits (unat bits) a @ byte_bits c"
    using low_bits_push_byte [of "unat bits" a c] Cons.prems by (simp add: byte_bits_def)
  ultimately show ?case using Cons.IH [of b ?a] e by simp
qed

lemma concat_base32_groups: "\<exists>n<5. concat (base32_groups bs) = bs @ replicate n False"
proof (induction bs rule: base32_groups.induct)
  case (1 bs)
  consider "bs = []" | "bs \<noteq> []" "length bs < 5" | "5 \<le> length bs" by linarith
  then show ?case
  proof cases
    case 2
    then have "concat (base32_groups bs) = bs @ replicate (5 - length bs) False" by (subst base32_groups.simps) simp
    moreover have "5 - length bs < 5" using 2 by (cases bs) auto
    ultimately show ?thesis by blast
  next
    case 3
    then have "base32_groups bs = take 5 bs # base32_groups (drop 5 bs)" by (subst base32_groups.simps) auto
    moreover obtain n where "n < 5" "concat (base32_groups (drop 5 bs)) = drop 5 bs @ replicate n False"
      using 1 3 by fastforce
    ultimately show ?thesis by (intro exI [of _ n]) (simp flip: append_assoc)
  next
    case 1
    then show ?thesis by (intro exI [of _ 0]) (simp add: base32_groups.simps)
  qed
qed

lemma byte_bits_list: "\<exists>a b c d e f g h. byte_bits x = [a, b, c, d, e, f, g, h]"
  by (simp add: byte_bits_def low_bits_def upt_rec)

lemma bits_value_byte_bits: "char_of (bits_value (byte_bits c)) = c"
  using less_trans [OF byte_less, of "2 ^ 32" c] by (simp add: byte_bits_def bits_value_low_bits unat_of_nat)

lemma octets_byte_bits: "octets (byte_bits c @ bs) = c # octets bs"
proof -
  obtain a b c' d e f g h where l: "byte_bits c = [a, b, c', d, e, f, g, h]" using byte_bits_list by blast
  then show ?thesis using bits_value_byte_bits [of c] by simp
qed

lemma octets_short: "length bs < 8 \<Longrightarrow> octets bs = []"
  by (induction bs rule: octets.induct) auto

lemma octets_bytes: "n < 8 \<Longrightarrow> octets (concat (map byte_bits s) @ replicate n False) = s"
  by (induction s) (simp_all add: octets_byte_bits octets_short)

text \<open>Decoding what \<^verbatim>\<open>base32_no_pad\<close> wrote gives the bytes back: its 32-bit accumulator never loses a pending bit.\<close>

theorem base32_roundtrip: "base32_decode (base32_no_pad s) = s"
proof -
  have "map (\<lambda>c. low_bits 5 (of_nat (char_index c) :: u8)) (base32_no_pad s) = base32_groups (concat (map byte_bits s))"
    using base32_bytes_groups [of 0 0 s] by (simp add: base32_no_pad_def low_bits_def)
  moreover obtain n where "n < 5" "concat (base32_groups (concat (map byte_bits s))) = concat (map byte_bits s) @ replicate n False"
    using concat_base32_groups by blast
  ultimately show ?thesis by (simp add: base32_decode_def octets_bytes)
qed

end
