(* ===== verification/Security.thy ===== *)
theory Security
  imports Base32
begin

unbundle bit_operations_syntax

text \<open>
  \<^verbatim>\<open>gateway-services/security.rs\<close>: secret envelopes under a key provider, rotation of the wrapped keys, OAuth PKCE
  material and TOTP. The ciphers, the hashes and the base64 alphabets are third-party crates and come in the record
  \<open>CryptoLib\<close>; what the operating system draws as randomness is an argument. Argon2 password hashing only calls its crate
  and is left out.
\<close>

subsection \<open>Primitives\<close>

datatype SecurityError =
    RandomnessUnavailable | InvalidKeyMaterial | ProviderRoleMismatch | EnvelopeMismatch | EnvelopeMalformed
  | EncryptionFailed | AuthenticationFailed | HistoricalKeyUnavailable | PasswordHashFailed

text \<open>
  \<open>cl_aes_key\<close> is whether \<^verbatim>\<open>Aes256Gcm::new_from_slice\<close> accepts a key; sealing and opening take the key, the nonce, the
  associated data and the message; the keyed hashes refuse the keys that \<^verbatim>\<open>new_from_slice\<close> refuses.
\<close>

record CryptoLib =
  cl_aes_key :: "string \<Rightarrow> bool"
  cl_seal :: "string \<Rightarrow> string \<Rightarrow> string \<Rightarrow> string \<Rightarrow> string option"
  cl_open :: "string \<Rightarrow> string \<Rightarrow> string \<Rightarrow> string \<Rightarrow> string option"
  cl_b64 :: "string \<Rightarrow> string"
  cl_b64_decode :: "string \<Rightarrow> string option"
  cl_b64url :: "string \<Rightarrow> string"
  cl_sha256 :: "string \<Rightarrow> string"
  cl_hmac_sha256 :: "string \<Rightarrow> string \<Rightarrow> string option"
  cl_hmac_sha1 :: "string \<Rightarrow> string \<Rightarrow> string option"

text \<open>One call of \<^verbatim>\<open>getrandom::fill\<close>: nothing, or as many bytes as are asked for.\<close>

type_synonym entropy = "(nat \<Rightarrow> char) option"

definition fill_random :: "nat \<Rightarrow> entropy \<Rightarrow> SecurityError + string" where
  "fill_random n r = (case r of None \<Rightarrow> Inl RandomnessUnavailable | Some f \<Rightarrow> Inr (map f [0..<n]))"

definition aes_new :: "CryptoLib \<Rightarrow> string \<Rightarrow> SecurityError + string" where
  "aes_new L key = (if cl_aes_key L key then Inr key else Inl InvalidKeyMaterial)"

definition DEK_BYTES :: nat where
  "DEK_BYTES = 32"

definition NONCE_BYTES :: nat where
  "NONCE_BYTES = 12"

subsection \<open>The identity of an envelope\<close>

record EnvelopeAad =
  ad_schema_version :: u32
  ad_secret_id :: u128
  ad_secret_kind :: string
  ad_provider_role :: string
  ad_owner_type :: string
  ad_owner_id :: string
  ad_purpose :: string
  ad_key_version :: u64

definition payload_bytes :: "EnvelopeAad \<Rightarrow> string" where
  "payload_bytes a =
     ''gateway-secret-payload-aad-v1'' @ delimited (u32_be (ad_schema_version a)) @ delimited (u128_be (ad_secret_id a)) @
     concat (map delimited [ad_secret_kind a, ad_provider_role a, ad_owner_type a, ad_owner_id a, ad_purpose a])"

definition wrap_bytes :: "EnvelopeAad \<Rightarrow> string" where
  "wrap_bytes a = payload_bytes a @ ''gateway-secret-wrap-aad-v1'' @ delimited (u64_be (ad_key_version a))"

record SecretEnvelope =
  se_schema_version :: u32
  se_cipher_suite :: string
  se_provider_role :: string
  se_key_version :: u64
  se_ciphertext_base64 :: string
  se_nonce_base64 :: string
  se_wrapped_dek_base64 :: string

subsection \<open>Key providers\<close>

text \<open>The trait \<^verbatim>\<open>KeyProvider\<close>: wrapping may draw randomness.\<close>

record KeyProvider =
  kp_role :: string
  kp_active :: "SecurityError + u64"
  kp_wrap :: "entropy \<Rightarrow> u64 \<Rightarrow> string \<Rightarrow> string \<Rightarrow> SecurityError + string"
  kp_unwrap :: "u64 \<Rightarrow> string \<Rightarrow> string \<Rightarrow> SecurityError + string"

record LocalAesKeyProvider =
  lp_role :: string
  lp_key_version :: u64
  lp_root_key :: string

definition local_new :: "string \<Rightarrow> u64 \<Rightarrow> string \<Rightarrow> SecurityError + LocalAesKeyProvider" where
  "local_new role key_version root_key =
     (if length root_key \<noteq> DEK_BYTES \<or> key_version = 0 then Inl InvalidKeyMaterial
      else Inr \<lparr>lp_role = role, lp_key_version = key_version, lp_root_key = root_key\<rparr>)"

definition wrap_dek ::
  "CryptoLib \<Rightarrow> LocalAesKeyProvider \<Rightarrow> entropy \<Rightarrow> u64 \<Rightarrow> string \<Rightarrow> string \<Rightarrow> SecurityError + string" where
  "wrap_dek L p r key_version dek aad =
     (if key_version \<noteq> lp_key_version p then Inl HistoricalKeyUnavailable
      else and_then (fill_random NONCE_BYTES r) (\<lambda>nonce.
           and_then (aes_new L (lp_root_key p)) (\<lambda>key.
           and_then (ok_or EncryptionFailed (cl_seal L key nonce aad dek)) (\<lambda>wrapped.
           Inr (nonce @ wrapped)))))"

definition unwrap_dek ::
  "CryptoLib \<Rightarrow> LocalAesKeyProvider \<Rightarrow> u64 \<Rightarrow> string \<Rightarrow> string \<Rightarrow> SecurityError + string" where
  "unwrap_dek L p key_version wrapped aad =
     (if key_version \<noteq> lp_key_version p then Inl HistoricalKeyUnavailable
      else if length wrapped \<le> NONCE_BYTES then Inl EnvelopeMalformed
      else and_then (aes_new L (lp_root_key p)) (\<lambda>key.
           ok_or AuthenticationFailed (cl_open L key (take NONCE_BYTES wrapped) aad (drop NONCE_BYTES wrapped))))"

definition local_provider :: "CryptoLib \<Rightarrow> LocalAesKeyProvider \<Rightarrow> KeyProvider" where
  "local_provider L p =
     \<lparr>kp_role = lp_role p, kp_active = Inr (lp_key_version p), kp_wrap = wrap_dek L p, kp_unwrap = unwrap_dek L p\<rparr>"

subsection \<open>The envelope service\<close>

definition AES_SUITE :: string where
  "AES_SUITE = ''aes_256_gcm''"

text \<open>The three draws are the key of the record, the nonce of its content, and what the provider draws.\<close>

definition envelope_encrypt ::
  "CryptoLib \<Rightarrow> KeyProvider \<Rightarrow> entropy \<times> entropy \<times> entropy \<Rightarrow> string \<Rightarrow> EnvelopeAad \<Rightarrow> SecurityError + SecretEnvelope" where
  "envelope_encrypt L P draws plaintext aad0 =
     (let (r_dek, r_nonce, r_wrap) = draws in
      and_then (kp_active P) (\<lambda>key_version.
      (let aad = aad0\<lparr>ad_key_version := key_version\<rparr> in
       if ad_provider_role aad \<noteq> kp_role P then Inl ProviderRoleMismatch
       else and_then (fill_random DEK_BYTES r_dek) (\<lambda>dek.
            and_then (fill_random NONCE_BYTES r_nonce) (\<lambda>nonce.
            and_then (aes_new L dek) (\<lambda>key.
            and_then (ok_or EncryptionFailed (cl_seal L key nonce (payload_bytes aad) plaintext)) (\<lambda>ciphertext.
            and_then (kp_wrap P r_wrap key_version dek (wrap_bytes aad)) (\<lambda>wrapped.
            Inr \<lparr>se_schema_version = ad_schema_version aad, se_cipher_suite = AES_SUITE,
                 se_provider_role = ad_provider_role aad, se_key_version = key_version,
                 se_ciphertext_base64 = cl_b64 L ciphertext, se_nonce_base64 = cl_b64 L nonce,
                 se_wrapped_dek_base64 = cl_b64 L wrapped\<rparr>))))))))"

definition envelope_decrypt :: "CryptoLib \<Rightarrow> KeyProvider \<Rightarrow> SecretEnvelope \<Rightarrow> EnvelopeAad \<Rightarrow> SecurityError + string" where
  "envelope_decrypt L P e aad =
     (if se_cipher_suite e \<noteq> AES_SUITE \<or> se_provider_role e \<noteq> kp_role P \<or> ad_provider_role aad \<noteq> kp_role P \<or>
         se_key_version e \<noteq> ad_key_version aad \<or> se_schema_version e \<noteq> ad_schema_version aad
      then Inl EnvelopeMismatch
      else and_then (ok_or EnvelopeMalformed (cl_b64_decode L (se_wrapped_dek_base64 e))) (\<lambda>wrapped.
           and_then (kp_unwrap P (se_key_version e) wrapped (wrap_bytes aad)) (\<lambda>dek.
           and_then (ok_or EnvelopeMalformed (cl_b64_decode L (se_nonce_base64 e))) (\<lambda>nonce.
             if length nonce \<noteq> NONCE_BYTES then Inl EnvelopeMalformed
             else and_then (ok_or EnvelopeMalformed (cl_b64_decode L (se_ciphertext_base64 e))) (\<lambda>ciphertext.
                  and_then (aes_new L dek) (\<lambda>key.
                  ok_or AuthenticationFailed (cl_open L key nonce (payload_bytes aad) ciphertext)))))))"

definition rewrap_dek ::
  "CryptoLib \<Rightarrow> KeyProvider \<Rightarrow> KeyProvider \<Rightarrow> entropy \<Rightarrow> string \<Rightarrow> EnvelopeAad \<Rightarrow> SecurityError + u64 \<times> string" where
  "rewrap_dek L old new r wrapped_dek_base64 aad =
     (if kp_role old \<noteq> kp_role new \<or> ad_provider_role aad \<noteq> kp_role old then Inl ProviderRoleMismatch
      else and_then (ok_or EnvelopeMalformed (cl_b64_decode L wrapped_dek_base64)) (\<lambda>wrapped.
           and_then (kp_unwrap old (ad_key_version aad) wrapped (wrap_bytes aad)) (\<lambda>dek.
           and_then (kp_active new) (\<lambda>new_version.
           and_then (kp_wrap new r new_version dek (wrap_bytes (aad\<lparr>ad_key_version := new_version\<rparr>))) (\<lambda>new_wrapped.
           Inr (new_version, cl_b64 L new_wrapped))))))"

subsection \<open>Rotation of a batch\<close>

text \<open>A row of the storage, and what its compare-and-swap answers.\<close>

record RewrapCandidate =
  rc_aad :: EnvelopeAad
  rc_key_version :: int
  rc_wrapped_dek :: string

datatype CommitAnswer = Committed | CommitRevisionConflict | CommitFailed

datatype RotationError = RotationStorage | RotationSecurity SecurityError

record RotationBatchReport =
  rb_rewrapped :: nat
  rb_cas_conflicts :: nat
  rb_next_checkpoint :: "u128 option"
  rb_complete :: bool

definition u64_try_from :: "int \<Rightarrow> u64 option" where
  "u64_try_from v = (if 0 \<le> v \<and> v < 2 ^ 64 then Some (of_int v) else None)"

definition candidate_aad :: "RewrapCandidate \<Rightarrow> SecurityError + EnvelopeAad" where
  "candidate_aad c =
     and_then (ok_or InvalidKeyMaterial (u64_try_from (rc_key_version c))) (\<lambda>v. Inr ((rc_aad c)\<lparr>ad_key_version := v\<rparr>))"

definition rewrap_candidate ::
  "CryptoLib \<Rightarrow> KeyProvider \<Rightarrow> KeyProvider \<Rightarrow> entropy \<Rightarrow> RewrapCandidate \<Rightarrow> SecurityError + string" where
  "rewrap_candidate L old new r c =
     and_then (candidate_aad c) (\<lambda>aad.
     and_then (rewrap_dek L old new r (cl_b64 L (rc_wrapped_dek c)) aad) (\<lambda>(_, wrapped_base64).
     ok_or EnvelopeMalformed (cl_b64_decode L wrapped_base64)))"

text \<open>The loop also returns the keys it handed to the storage, in order, whatever the storage answered.\<close>

fun rewrap_loop ::
  "CryptoLib \<Rightarrow> KeyProvider \<Rightarrow> KeyProvider \<Rightarrow> (RewrapCandidate \<Rightarrow> entropy) \<Rightarrow> (u128 \<Rightarrow> string \<Rightarrow> CommitAnswer) \<Rightarrow>
   RewrapCandidate list \<Rightarrow> RotationBatchReport \<Rightarrow> (u128 \<times> string) list \<Rightarrow>
   (RotationError + RotationBatchReport) \<times> (u128 \<times> string) list" where
  "rewrap_loop L old new rnd commit [] report handed = (Inr report, handed)"
| "rewrap_loop L old new rnd commit (c # cs) report handed =
     (let report = report\<lparr>rb_next_checkpoint := Some (ad_secret_id (rc_aad c))\<rparr> in
      case rewrap_candidate L old new (rnd c) c of
        Inl e \<Rightarrow> (Inl (RotationSecurity e), handed)
      | Inr wrapped \<Rightarrow>
     (let handed = handed @ [(ad_secret_id (rc_aad c), wrapped)] in
      case commit (ad_secret_id (rc_aad c)) wrapped of
        Committed \<Rightarrow> rewrap_loop L old new rnd commit cs (report\<lparr>rb_rewrapped := rb_rewrapped report + 1\<rparr>) handed
      | CommitRevisionConflict \<Rightarrow>
          rewrap_loop L old new rnd commit cs (report\<lparr>rb_cas_conflicts := rb_cas_conflicts report + 1\<rparr>) handed
      | CommitFailed \<Rightarrow> (Inl RotationStorage, handed)))"

definition business_provider :: "int \<Rightarrow> string \<Rightarrow> SecurityError + LocalAesKeyProvider" where
  "business_provider version root =
     and_then (ok_or InvalidKeyMaterial (u64_try_from version)) (\<lambda>v. local_new ''business'' v root)"

text \<open>The roots and the candidates are what the storage loaded.\<close>

definition rewrap_database_business_batch ::
  "CryptoLib \<Rightarrow> (RewrapCandidate \<Rightarrow> entropy) \<Rightarrow> (u128 \<Rightarrow> string \<Rightarrow> CommitAnswer) \<Rightarrow> int \<times> string \<Rightarrow> int \<times> string \<Rightarrow>
   u128 option \<Rightarrow> int \<Rightarrow> RewrapCandidate list \<Rightarrow> (RotationError + RotationBatchReport) \<times> (u128 \<times> string) list" where
  "rewrap_database_business_batch L rnd commit old new after_secret_id limit candidates =
     (case business_provider (fst old) (snd old) of
        Inl e \<Rightarrow> (Inl (RotationSecurity e), [])
      | Inr old_provider \<Rightarrow>
     (case business_provider (fst new) (snd new) of
        Inl e \<Rightarrow> (Inl (RotationSecurity e), [])
      | Inr new_provider \<Rightarrow>
          rewrap_loop L (local_provider L old_provider) (local_provider L new_provider) rnd commit candidates
            \<lparr>rb_rewrapped = 0, rb_cas_conflicts = 0, rb_next_checkpoint = after_secret_id,
             rb_complete = int (length candidates) < limit\<rparr> []))"

subsection \<open>OAuth\<close>

datatype OAuthCallbackDigestDomain = DigestState | DigestCallbackNonce

definition oauth_binding_digest :: "CryptoLib \<Rightarrow> string \<Rightarrow> string \<Rightarrow> string \<Rightarrow> SecurityError + string" where
  "oauth_binding_digest L key domain v =
     ok_or InvalidKeyMaterial (cl_hmac_sha256 L key (''gateway-oauth-pkce-v1'' @ domain @ v))"

fun digest_label :: "OAuthCallbackDigestDomain \<Rightarrow> string" where
  "digest_label DigestState = ''state''"
| "digest_label DigestCallbackNonce = ''callback-nonce''"

definition oauth_callback_digest :: "CryptoLib \<Rightarrow> string \<Rightarrow> OAuthCallbackDigestDomain \<Rightarrow> string \<Rightarrow> SecurityError + string" where
  "oauth_callback_digest L digest_key domain v = oauth_binding_digest L digest_key (digest_label domain) v"

record OAuthPkceMaterial =
  pk_state :: string
  pk_verifier :: string
  pk_challenge :: string
  pk_callback_nonce :: string
  pk_state_digest :: string
  pk_callback_nonce_digest :: string

definition generate_oauth_pkce ::
  "CryptoLib \<Rightarrow> entropy \<times> entropy \<times> entropy \<Rightarrow> string \<Rightarrow> SecurityError + OAuthPkceMaterial" where
  "generate_oauth_pkce L draws digest_key =
     (let (r_state, r_verifier, r_nonce) = draws in
      if length digest_key < 32 then Inl InvalidKeyMaterial
      else and_then (fill_random 32 r_state) (\<lambda>state_bytes.
           and_then (fill_random 32 r_verifier) (\<lambda>verifier_bytes.
           and_then (fill_random 32 r_nonce) (\<lambda>nonce_bytes.
           (let state = cl_b64url L state_bytes;
                verifier = cl_b64url L verifier_bytes;
                nonce = cl_b64url L nonce_bytes
            in and_then (oauth_binding_digest L digest_key ''state'' state) (\<lambda>state_digest.
               and_then (oauth_binding_digest L digest_key ''callback-nonce'' nonce) (\<lambda>nonce_digest.
               Inr \<lparr>pk_state = state, pk_verifier = verifier, pk_challenge = cl_b64url L (cl_sha256 L verifier),
                    pk_callback_nonce = nonce, pk_state_digest = state_digest,
                    pk_callback_nonce_digest = nonce_digest\<rparr>)))))))"

subsection \<open>One-time passwords\<close>

definition generate_totp_seed :: "entropy \<Rightarrow> SecurityError + string \<times> string" where
  "generate_totp_seed r = and_then (fill_random 20 r) (\<lambda>seed. Inr (seed, base32_no_pad seed))"

definition u32_of_char :: "char \<Rightarrow> u32" where
  "u32_of_char c = of_nat (byte c)"

definition six_digits :: "nat \<Rightarrow> string" where
  "six_digits n = (let s = show_nat n in replicate (6 - length s) CHR ''0'' @ s)"

definition totp_code :: "CryptoLib \<Rightarrow> string \<Rightarrow> u64 \<Rightarrow> SecurityError + string" where
  "totp_code L seed step =
     and_then (ok_or InvalidKeyMaterial (cl_hmac_sha1 L seed (u64_be step))) (\<lambda>digest.
     (let offset = unat (u32_of_char (digest ! 19) AND 15);
          binary = push_bit 24 (u32_of_char (digest ! offset) AND 127) OR push_bit 16 (u32_of_char (digest ! (offset + 1))) OR
                   push_bit 8 (u32_of_char (digest ! (offset + 2))) OR u32_of_char (digest ! (offset + 3))
      in Inr (six_digits (unat (binary mod 1000000)))))"

fun totp_scan :: "CryptoLib \<Rightarrow> string \<Rightarrow> string \<Rightarrow> u64 option \<Rightarrow> u64 list \<Rightarrow> SecurityError + u64 option" where
  "totp_scan L seed submitted last_step [] = Inr None"
| "totp_scan L seed submitted last_step (step # steps) =
     (if is_some_and last_step (\<lambda>l. step \<le> l) then totp_scan L seed submitted last_step steps
      else and_then (totp_code L seed step) (\<lambda>expected.
           if expected = submitted then Inr (Some step) else totp_scan L seed submitted last_step steps))"

definition totp_window :: "u64 \<Rightarrow> u64 list" where
  "totp_window current =
     map of_nat [unat (saturating_sub current 1)..<Suc (unat (saturating_add current 1))]"

definition verify_totp :: "CryptoLib \<Rightarrow> string \<Rightarrow> string \<Rightarrow> u64 \<Rightarrow> u64 option \<Rightarrow> SecurityError + u64 option" where
  "verify_totp L seed submitted unix_seconds last_accepted_step =
     (if length submitted \<noteq> 6 \<or> \<not> list_all is_ascii_digit submitted then Inr None
      else totp_scan L seed submitted last_accepted_step (totp_window (unix_seconds div 30)))"

text \<open>
  The login of \<^verbatim>\<open>super-gatewayd/admin_backend.rs\<close> reads the last accepted step from its row, verifies against it, and then
  writes the accepted step where the row still allows it. Another login may have written in between.
\<close>

record TotpLogin =
  tl_row_read :: "int option"
  tl_code :: string
  tl_unix_seconds :: u64

definition stored_step :: "int option \<Rightarrow> u64 option" where
  "stored_step row = Option.bind row u64_try_from"

definition i64_try_from :: "u64 \<Rightarrow> int option" where
  "i64_try_from w = (if uint w < 2 ^ 63 then Some (uint w) else None)"

definition update_accepted_step :: "int option \<Rightarrow> int \<Rightarrow> int option" where
  "update_accepted_step row accepted = (if is_none_or row (\<lambda>l. l < accepted) then Some accepted else None)"

text \<open>The row after a login, and the step it was granted for.\<close>

definition login_with_totp :: "CryptoLib \<Rightarrow> string \<Rightarrow> TotpLogin \<Rightarrow> int option \<Rightarrow> int option \<times> int option" where
  "login_with_totp L seed attempt row =
     (case verify_totp L seed (tl_code attempt) (tl_unix_seconds attempt) (stored_step (tl_row_read attempt)) of
        Inr (Some step) \<Rightarrow>
          (case Option.bind (i64_try_from step) (update_accepted_step row) of
             Some accepted \<Rightarrow> (Some accepted, Some accepted)
           | None \<Rightarrow> (row, None))
      | _ \<Rightarrow> (row, None))"

fun logins_with_totp :: "CryptoLib \<Rightarrow> string \<Rightarrow> TotpLogin list \<Rightarrow> int option \<Rightarrow> int list" where
  "logins_with_totp L seed [] row = []"
| "logins_with_totp L seed (attempt # attempts) row =
     (let (row', granted) = login_with_totp L seed attempt row
      in case_option [] (\<lambda>step. [step]) granted @ logins_with_totp L seed attempts row')"

end
