(* ===== verification/Security_Properties.thy ===== *)
theory Security_Properties
  imports Security
begin

text \<open>
  What the envelopes promise: the associated data names the envelope unambiguously, a sealed secret opens for its own
  identity only, rotating the wrapped key keeps it readable, callback digests of different domains never share an input,
  and an accepted one-time password is never accepted again.
\<close>

subsection \<open>Identities are unambiguous\<close>

definition aad_fits :: "EnvelopeAad \<Rightarrow> bool" where
  "aad_fits a \<longleftrightarrow>
     list_all fits_length [ad_secret_kind a, ad_provider_role a, ad_owner_type a, ad_owner_id a, ad_purpose a]"

lemma delimited_word [simp]:
  "delimited (u32_be v) @ x = delimited (u32_be w) @ y \<longleftrightarrow> v = w \<and> x = y"
  "delimited (u128_be v') @ x = delimited (u128_be w') @ y \<longleftrightarrow> v' = w' \<and> x = y"
  "delimited (u64_be v'') = delimited (u64_be w'') \<longleftrightarrow> v'' = w''"
  by (simp_all add: delimited_append_inject delimited_inject)

lemma payload_bytes_append:
  assumes "aad_fits a" "aad_fits b"
  shows "payload_bytes a @ x = payload_bytes b @ y \<longleftrightarrow> a\<lparr>ad_key_version := 0\<rparr> = b\<lparr>ad_key_version := 0\<rparr> \<and> x = y"
  using assms by (cases a; cases b) (auto simp: aad_fits_def payload_bytes_def delimited_append_inject)

lemma payload_bytes_inject:
  assumes "aad_fits a" "aad_fits b"
  shows "payload_bytes a = payload_bytes b \<longleftrightarrow> a\<lparr>ad_key_version := 0\<rparr> = b\<lparr>ad_key_version := 0\<rparr>"
  using payload_bytes_append [OF assms, of "[]" "[]"] by simp

lemma wrap_bytes_inject:
  assumes "aad_fits a" "aad_fits b"
  shows "wrap_bytes a = wrap_bytes b \<longleftrightarrow> a = b"
  using payload_bytes_append [OF assms] by (cases a; cases b) (auto simp: wrap_bytes_def)

lemma aad_fits_version [simp]: "aad_fits (a\<lparr>ad_key_version := v\<rparr>) = aad_fits a"
  by (simp add: aad_fits_def)

subsection \<open>Envelopes under a key provider\<close>

text \<open>
  What the crates document, idealised: a ciphertext carries a tag, opens under the key, nonce and associated data it was
  sealed with, and under no other associated data; base64 decodes what it encoded.
\<close>

definition seals_faithfully :: "CryptoLib \<Rightarrow> bool" where
  "seals_faithfully L \<longleftrightarrow>
     (\<forall>k n a m c. cl_seal L k n a m = Some c \<longrightarrow>
        c \<noteq> [] \<and> cl_open L k n a c = Some m \<and> (\<forall>a'. a' \<noteq> a \<longrightarrow> cl_open L k n a' c = None))"

definition b64_faithful :: "CryptoLib \<Rightarrow> bool" where
  "b64_faithful L \<longleftrightarrow> (\<forall>s. cl_b64_decode L (cl_b64 L s) = Some s)"

lemma sealed_opens:
  assumes "seals_faithfully L" "cl_seal L k n a m = Some c"
  shows "c \<noteq> []" "cl_open L k n a' c = (if a' = a then Some m else None)"
  using assms unfolding seals_faithfully_def by metis+

lemma length_fill_random: "fill_random n r = Inr s \<Longrightarrow> length s = n"
  by (auto simp: fill_random_def split: option.splits)

locale key_provider =
  fixes provider :: "'p \<Rightarrow> KeyProvider" and lawful :: "'p \<Rightarrow> bool"
  assumes unwrap_wrap: "lawful p \<Longrightarrow> kp_wrap (provider p) r v dek aad = Inr w \<Longrightarrow> kp_unwrap (provider p) v w aad = Inr dek"
    and unwrap_other: "lawful p \<Longrightarrow> kp_wrap (provider p) r v dek aad = Inr w \<Longrightarrow> aad' \<noteq> aad \<Longrightarrow> isl (kp_unwrap (provider p) v w aad')"
begin

text \<open>What a sealed envelope is made of.\<close>

lemma encrypt_parts:
  assumes "envelope_encrypt L (provider p) draws m aad = Inr e"
  obtains dek nonce c w r where
    "e = \<lparr>se_schema_version = ad_schema_version aad, se_cipher_suite = AES_SUITE, se_provider_role = ad_provider_role aad,
          se_key_version = se_key_version e, se_ciphertext_base64 = cl_b64 L c, se_nonce_base64 = cl_b64 L nonce,
          se_wrapped_dek_base64 = cl_b64 L w\<rparr>"
    "ad_provider_role aad = kp_role (provider p)" "length nonce = NONCE_BYTES" "cl_aes_key L dek"
    "cl_seal L dek nonce (payload_bytes (aad\<lparr>ad_key_version := se_key_version e\<rparr>)) m = Some c"
    "kp_wrap (provider p) r (se_key_version e) dek (wrap_bytes (aad\<lparr>ad_key_version := se_key_version e\<rparr>)) = Inr w"
  using assms length_fill_random
  by (auto simp: envelope_encrypt_def Let_def and_then_Inr ok_or_Inr aes_new_def split: prod.splits if_splits)

lemma payload_version: "payload_bytes (aad\<lparr>ad_key_version := v\<rparr>) = payload_bytes aad"
  by (simp add: payload_bytes_def)

lemma decrypt_encrypt:
  assumes "lawful p" "seals_faithfully L" "b64_faithful L" "aad_fits aad" "aad_fits aad'"
    and "envelope_encrypt L (provider p) draws m aad = Inr e"
  shows "envelope_decrypt L (provider p) e aad' = Inr m' \<longleftrightarrow> aad' = aad\<lparr>ad_key_version := se_key_version e\<rparr> \<and> m' = m"
proof -
  let ?bound = "aad\<lparr>ad_key_version := se_key_version e\<rparr>"
  from encrypt_parts [OF assms(6)] obtain dek nonce c w r where
    e: "e = \<lparr>se_schema_version = ad_schema_version aad, se_cipher_suite = AES_SUITE, se_provider_role = ad_provider_role aad,
          se_key_version = se_key_version e, se_ciphertext_base64 = cl_b64 L c, se_nonce_base64 = cl_b64 L nonce,
          se_wrapped_dek_base64 = cl_b64 L w\<rparr>"
    and ok: "ad_provider_role aad = kp_role (provider p)" "length nonce = NONCE_BYTES" "cl_aes_key L dek"
    and seal: "cl_seal L dek nonce (payload_bytes ?bound) m = Some c"
    and wrap: "kp_wrap (provider p) r (se_key_version e) dek (wrap_bytes ?bound) = Inr w" .
  have sel: "se_schema_version e = ad_schema_version aad" "se_cipher_suite e = AES_SUITE"
    "se_provider_role e = kp_role (provider p)" "se_ciphertext_base64 e = cl_b64 L c" "se_nonce_base64 e = cl_b64 L nonce"
    "se_wrapped_dek_base64 e = cl_b64 L w"
    using ok(1) by (subst e, simp)+
  have b64: "cl_b64_decode L (cl_b64 L s) = Some s" for s using assms(3) by (simp add: b64_faithful_def)
  show ?thesis
  proof (cases "aad' = ?bound")
    case True
    have "envelope_decrypt L (provider p) e ?bound = Inr m"
      using ok unwrap_wrap [OF assms(1) wrap] sealed_opens(2) [OF assms(2) seal]
      by (simp add: envelope_decrypt_def sel b64 aes_new_def)
    with True show ?thesis by auto
  next
    case False
    then have "wrap_bytes aad' \<noteq> wrap_bytes ?bound"
      using assms(4,5) by (simp add: wrap_bytes_inject)
    from unwrap_other [OF assms(1) wrap this] False show ?thesis
      by (auto simp: envelope_decrypt_def sel b64 isl_def)
  qed
qed

text \<open>A key rewrapped for another provider opens the same content there.\<close>

lemma decrypt_rewrapped:
  assumes "lawful p" "lawful q" "seals_faithfully L" "b64_faithful L"
    and "envelope_encrypt L (provider p) draws m aad = Inr e"
    and "rewrap_dek L (provider p) (provider q) r (se_wrapped_dek_base64 e) (aad\<lparr>ad_key_version := se_key_version e\<rparr>) = Inr (v, w64)"
  shows "envelope_decrypt L (provider q) (e\<lparr>se_key_version := v, se_wrapped_dek_base64 := w64\<rparr>) (aad\<lparr>ad_key_version := v\<rparr>) = Inr m"
proof -
  let ?bound = "aad\<lparr>ad_key_version := se_key_version e\<rparr>"
  from encrypt_parts [OF assms(5)] obtain dek nonce c w r' where
    e: "e = \<lparr>se_schema_version = ad_schema_version aad, se_cipher_suite = AES_SUITE, se_provider_role = ad_provider_role aad,
          se_key_version = se_key_version e, se_ciphertext_base64 = cl_b64 L c, se_nonce_base64 = cl_b64 L nonce,
          se_wrapped_dek_base64 = cl_b64 L w\<rparr>"
    and ok: "ad_provider_role aad = kp_role (provider p)" "length nonce = NONCE_BYTES" "cl_aes_key L dek"
    and seal: "cl_seal L dek nonce (payload_bytes ?bound) m = Some c"
    and wrap: "kp_wrap (provider p) r' (se_key_version e) dek (wrap_bytes ?bound) = Inr w" .
  have sel: "se_schema_version e = ad_schema_version aad" "se_cipher_suite e = AES_SUITE"
    "se_provider_role e = kp_role (provider p)" "se_ciphertext_base64 e = cl_b64 L c" "se_nonce_base64 e = cl_b64 L nonce"
    "se_wrapped_dek_base64 e = cl_b64 L w"
    using ok(1) by (subst e, simp)+
  have b64: "cl_b64_decode L (cl_b64 L s) = Some s" for s using assms(4) by (simp add: b64_faithful_def)
  from assms(6) unwrap_wrap [OF assms(1) wrap] obtain w' where
    w': "kp_role (provider p) = kp_role (provider q)" "w64 = cl_b64 L w'"
      "kp_wrap (provider q) r v dek (wrap_bytes (aad\<lparr>ad_key_version := v\<rparr>)) = Inr w'"
    by (auto simp: rewrap_dek_def sel b64 and_then_Inr split: if_splits)
  have "payload_bytes (aad\<lparr>ad_key_version := v\<rparr>) = payload_bytes ?bound" by (simp add: payload_version)
  then show ?thesis
    using ok w' unwrap_wrap [OF assms(2) w'(3)] sealed_opens(2) [OF assms(3) seal]
    by (simp add: envelope_decrypt_def sel b64 aes_new_def)
qed

end

text \<open>The local provider keeps the contract of the trait.\<close>

lemma local_wrap_parts:
  assumes "wrap_dek L p r v dek aad = Inr w"
  obtains nonce c where "v = lp_key_version p" "length nonce = NONCE_BYTES" "cl_aes_key L (lp_root_key p)"
    "cl_seal L (lp_root_key p) nonce aad dek = Some c" "w = nonce @ c"
  using assms by (auto simp: wrap_dek_def and_then_Inr ok_or_Inr aes_new_def dest: length_fill_random split: if_splits)

lemma local_unwrap_wrap:
  assumes "seals_faithfully L" "wrap_dek L p r v dek aad = Inr w"
  shows "unwrap_dek L p v w aad' = (if aad' = aad then Inr dek else Inl AuthenticationFailed)"
proof -
  from local_wrap_parts [OF assms(2)] obtain nonce c where
    "v = lp_key_version p" "length nonce = NONCE_BYTES" "cl_aes_key L (lp_root_key p)"
    "cl_seal L (lp_root_key p) nonce aad dek = Some c" "w = nonce @ c" .
  then show ?thesis using sealed_opens [OF assms(1)] by (simp add: unwrap_dek_def aes_new_def)
qed

interpretation local_keys: key_provider "\<lambda>(L, p). local_provider L p" "\<lambda>(L, p). seals_faithfully L"
  by unfold_locales (auto simp: local_provider_def local_unwrap_wrap)

text \<open>C24. A secret sealed under a local key opens for the identity it was sealed for, with the key version that was active, and
  for no other identity.
\<close>

theorem envelope_opens_for_its_identity:
  assumes "seals_faithfully L" "b64_faithful L" "aad_fits aad" "aad_fits aad'"
    and "envelope_encrypt L (local_provider L p) draws m aad = Inr e"
  shows "envelope_decrypt L (local_provider L p) e aad' = Inr m' \<longleftrightarrow> aad' = aad\<lparr>ad_key_version := se_key_version e\<rparr> \<and> m' = m"
  using local_keys.decrypt_encrypt [of "(L, p)" L aad aad' draws m e m'] assms by simp

subsection \<open>Rotation\<close>

definition next_aad :: "LocalAesKeyProvider \<Rightarrow> EnvelopeAad \<Rightarrow> EnvelopeAad" where
  "next_aad q aad = aad\<lparr>ad_key_version := lp_key_version q\<rparr>"

lemma rewrap_candidate_unwraps:
  assumes "seals_faithfully L" "b64_faithful L"
    and "rewrap_candidate L (local_provider L p) (local_provider L q) r c = Inr w"
  shows "\<exists>aad dek. candidate_aad c = Inr aad \<and>
    unwrap_dek L p (ad_key_version aad) (rc_wrapped_dek c) (wrap_bytes aad) = Inr dek \<and>
    unwrap_dek L q (lp_key_version q) w (wrap_bytes (next_aad q aad)) = Inr dek"
proof -
  have b64: "cl_b64_decode L (cl_b64 L s) = Some s" for s using assms(2) by (simp add: b64_faithful_def)
  from assms(3) obtain aad dek where
    a: "candidate_aad c = Inr aad" "unwrap_dek L p (ad_key_version aad) (rc_wrapped_dek c) (wrap_bytes aad) = Inr dek"
      "wrap_dek L q r (lp_key_version q) dek (wrap_bytes (next_aad q aad)) = Inr w"
    by (auto simp: rewrap_candidate_def rewrap_dek_def and_then_Inr ok_or_Inr b64 local_provider_def next_aad_def split: if_splits)
  with local_unwrap_wrap [OF assms(1) a(3)] show ?thesis by auto
qed

definition keeps_key :: "CryptoLib \<Rightarrow> LocalAesKeyProvider \<Rightarrow> LocalAesKeyProvider \<Rightarrow> RewrapCandidate list \<Rightarrow> u128 \<times> string \<Rightarrow> bool" where
  "keeps_key L p q candidates h \<longleftrightarrow>
     (\<exists>c aad dek. c \<in> set candidates \<and> ad_secret_id (rc_aad c) = fst h \<and> candidate_aad c = Inr aad \<and>
        unwrap_dek L p (ad_key_version aad) (rc_wrapped_dek c) (wrap_bytes aad) = Inr dek \<and>
        unwrap_dek L q (lp_key_version q) (snd h) (wrap_bytes (next_aad q aad)) = Inr dek)"

lemma keeps_key_Cons: "keeps_key L p q cs h \<Longrightarrow> keeps_key L p q (c # cs) h"
  unfolding keeps_key_def by (meson list.set_intros(2))

lemma rewrap_loop_keeps_keys:
  assumes "seals_faithfully L" "b64_faithful L"
    and "rewrap_loop L (local_provider L p) (local_provider L q) rnd commit cs report handed = (res, all_handed)"
  shows "\<exists>new. all_handed = handed @ new \<and> list_all (keeps_key L p q cs) new \<and>
    (case res of
       Inl _ \<Rightarrow> True
     | Inr report' \<Rightarrow>
         rb_rewrapped report' + rb_cas_conflicts report' = rb_rewrapped report + rb_cas_conflicts report + length cs \<and>
         map fst new = map (ad_secret_id \<circ> rc_aad) cs \<and>
         rb_next_checkpoint report' = (if cs = [] then rb_next_checkpoint report else Some (ad_secret_id (rc_aad (last cs)))))"
  using assms(3)
proof (induction cs arbitrary: report handed)
  case Nil
  then show ?case by auto
next
  case (Cons c cs)
  let ?id = "ad_secret_id (rc_aad c)"
  let ?run = "\<lambda>report. rewrap_loop L (local_provider L p) (local_provider L q) rnd commit cs report"
  show ?case
  proof (cases "rewrap_candidate L (local_provider L p) (local_provider L q) (rnd c) c")
    case (Inl e)
    with Cons.prems show ?thesis by (auto simp: Let_def)
  next
    case (Inr w)
    have k: "keeps_key L p q (c # cs) (?id, w)"
      using rewrap_candidate_unwraps [OF assms(1,2) Inr] by (auto simp: keeps_key_def)
    show ?thesis
    proof (cases "commit ?id w = CommitFailed")
      case True
      with Cons.prems Inr k show ?thesis by (auto simp: Let_def)
    next
      case False
      then obtain report1 where r: "?run report1 (handed @ [(?id, w)]) = (res, all_handed)"
          "rb_rewrapped report1 + rb_cas_conflicts report1 = Suc (rb_rewrapped report + rb_cas_conflicts report)"
          "rb_next_checkpoint report1 = Some ?id"
        using Cons.prems Inr by (cases "commit ?id w") (auto simp: Let_def)
      from Cons.IH [OF r(1)] obtain new where n: "all_handed = (handed @ [(?id, w)]) @ new" "list_all (keeps_key L p q cs) new"
        "case res of
           Inl _ \<Rightarrow> True
         | Inr report' \<Rightarrow>
             rb_rewrapped report' + rb_cas_conflicts report' = rb_rewrapped report1 + rb_cas_conflicts report1 + length cs \<and>
             map fst new = map (ad_secret_id \<circ> rc_aad) cs \<and>
             rb_next_checkpoint report' = (if cs = [] then rb_next_checkpoint report1 else Some (ad_secret_id (rc_aad (last cs))))"
        by blast
      have "list_all (keeps_key L p q (c # cs)) ((?id, w) # new)"
        using k n(2) keeps_key_Cons by (auto simp: list_all_iff)
      with n r(2,3) show ?thesis
        by (intro exI [of _ "(?id, w) # new"]) (auto split: sum.splits)
    qed
  qed
qed

text \<open>C25. Every key a rotation batch hands to the storage unwraps, under the new version, to the very key that the old wrapping
  held, for the same record; and a batch that ends reports every row once, as rewrapped or as a conflict, with the last
  row as its checkpoint.
\<close>

theorem rotation_keeps_keys:
  assumes "seals_faithfully L" "b64_faithful L"
    and "business_provider (fst old) (snd old) = Inr p" "business_provider (fst new) (snd new) = Inr q"
    and "rewrap_database_business_batch L rnd commit old new after limit cs = (res, handed)"
  shows "list_all (keeps_key L p q cs) handed \<and>
    (case res of
       Inl _ \<Rightarrow> True
     | Inr report \<Rightarrow>
         rb_rewrapped report + rb_cas_conflicts report = length cs \<and>
         map fst handed = map (ad_secret_id \<circ> rc_aad) cs \<and>
         rb_next_checkpoint report = (if cs = [] then after else Some (ad_secret_id (rc_aad (last cs)))))"
proof -
  from assms(3-5) have "rewrap_loop L (local_provider L p) (local_provider L q) rnd commit cs
      \<lparr>rb_rewrapped = 0, rb_cas_conflicts = 0, rb_next_checkpoint = after,
       rb_complete = int (length cs) < limit\<rparr> [] = (res, handed)"
    by (simp add: rewrap_database_business_batch_def)
  from rewrap_loop_keeps_keys [OF assms(1,2) this] show ?thesis by (auto split: sum.splits)
qed

subsection \<open>Callback digests\<close>

text \<open>A state and a callback nonce are never hashed as the same input, so only a collision of the hash makes them meet.\<close>

lemma callback_digest_separates:
  assumes "inj (cl_hmac_sha256 L key)"
    and "oauth_callback_digest L key d v = Inr h" "oauth_callback_digest L key d' v' = Inr h"
  shows "d = d' \<and> v = v'"
proof -
  have "cl_hmac_sha256 L key (''gateway-oauth-pkce-v1'' @ digest_label d @ v) =
      cl_hmac_sha256 L key (''gateway-oauth-pkce-v1'' @ digest_label d' @ v')"
    using assms(2,3) by (simp add: oauth_callback_digest_def oauth_binding_digest_def ok_or_Inr)
  then have "digest_label d @ v = digest_label d' @ v'" using assms(1) by (simp add: inj_eq)
  then show ?thesis by (cases d; cases d') auto
qed

text \<open>The material handed out digests its own state and nonce.\<close>

lemma pkce_digests_match:
  assumes "generate_oauth_pkce L draws key = Inr m"
  shows "oauth_callback_digest L key DigestState (pk_state m) = Inr (pk_state_digest m)"
    "oauth_callback_digest L key DigestCallbackNonce (pk_callback_nonce m) = Inr (pk_callback_nonce_digest m)"
    "pk_challenge m = cl_b64url L (cl_sha256 L (pk_verifier m))"
  using assms
  by (auto simp: generate_oauth_pkce_def Let_def and_then_Inr oauth_callback_digest_def split: prod.splits if_splits)

subsection \<open>One-time passwords\<close>

lemma totp_scan_accepts:
  "totp_scan L seed s l steps = Inr (Some step) \<Longrightarrow>
    step \<in> set steps \<and> totp_code L seed step = Inr s \<and> is_none_or l (\<lambda>x. x < step)"
  by (induction steps) (auto simp: and_then_Inr split: if_splits option.splits)

lemma saturating_window: "nat_of \<in> {unat (saturating_sub c 1)..unat (saturating_add c 1)} \<Longrightarrow> nat_of \<le> unat (c :: u64) + 1 \<and> unat c \<le> nat_of + 1"
  by (auto simp: unat_saturating_sub unat_saturating_add)

text \<open>An accepted code is that of a step within one of the present, and later than any step accepted before.\<close>

lemma verify_totp_accepts:
  assumes "verify_totp L seed s t l = Inr (Some step)"
  shows "totp_code L seed step = Inr s \<and> is_none_or l (\<lambda>x. x < step) \<and>
    unat step \<le> unat t div 30 + 1 \<and> unat t div 30 \<le> unat step + 1"
proof -
  let ?c = "t div 30"
  have "totp_scan L seed s l (totp_window ?c) = Inr (Some step)"
    using assms by (simp add: verify_totp_def split: if_splits)
  from totp_scan_accepts [OF this] obtain n where
    n: "step = of_nat n" "n \<in> {unat (saturating_sub ?c 1)..unat (saturating_add ?c 1)}"
    "totp_code L seed step = Inr s" "is_none_or l (\<lambda>x. x < step)"
    by (auto simp: totp_window_def less_Suc_eq_le)
  have "n < 2 ^ 64" using n(2) unsigned_less [of "saturating_add ?c 1", where ?'a = nat] by simp
  then have "unat step = n" using n(1) by (simp add: unat_of_nat)
  moreover have "unat ?c = unat t div 30" by (simp add: unat_div)
  ultimately show ?thesis using n(3,4) saturating_window [OF n(2)] by simp
qed

text \<open>The current code is never refused while nothing from the window was accepted before.\<close>

lemma totp_scan_finds:
  assumes "step \<in> set steps" "totp_code L seed step = Inr s" "is_none_or l (\<lambda>x. list_all (\<lambda>y. x < y) steps)"
    and "list_all (\<lambda>y. \<not> isl (totp_code L seed y)) steps"
  shows "\<exists>accepted. totp_scan L seed s l steps = Inr (Some accepted)"
  using assms
proof (induction steps)
  case (Cons y steps)
  then obtain code where "totp_code L seed y = Inr code" by (cases "totp_code L seed y") auto
  with Cons show ?case by (cases "code = s") (auto split: option.splits)
qed simp

lemma logins_above: "list_all (\<lambda>s. is_none_or row (\<lambda>l. l < s)) (logins_with_totp L seed attempts row)"
proof (induction attempts arbitrary: row)
  case (Cons attempt attempts)
  obtain row' granted where e: "login_with_totp L seed attempt row = (row', granted)" by fastforce
  then have "(granted = None \<and> row' = row) \<or> (\<exists>s. granted = Some s \<and> row' = Some s \<and> is_none_or row (\<lambda>l. l < s))"
    by (auto simp: login_with_totp_def update_accepted_step_def bind_eq_Some_conv split: sum.splits option.splits if_splits)
  with Cons.IH [of row'] e show ?case by (auto simp: list_all_iff split: option.splits)
qed simp

text \<open>C26. Whatever rows the logins read, stale or not, and in whatever order they commit: the steps for which a login succeeds
  increase strictly, so no code is accepted twice.
\<close>

theorem totp_never_replayed: "sorted_wrt (<) (logins_with_totp L seed attempts row)"
proof (induction attempts arbitrary: row)
  case (Cons attempt attempts)
  obtain row' granted where e: "login_with_totp L seed attempt row = (row', granted)" by fastforce
  then have "granted = None \<or> (\<exists>s. granted = Some s \<and> row' = Some s)"
    by (auto simp: login_with_totp_def split: sum.splits option.splits)
  with Cons.IH [of row'] logins_above [of row' L seed attempts] e show ?case by (auto simp: list_all_iff)
qed simp

end
