(* ===== verification/Security_Cases.thy ===== *)
theory Security_Cases
  imports Security_Properties
begin

text \<open>A cipher that meets the documented laws, and a secret sealed, opened and rotated with it.\<close>

definition escaped :: "string \<Rightarrow> string" where
  "escaped a = concat (map (\<lambda>c. [CHR ''x'', c]) a) @ ''.''"

lemma escaped_append: "escaped a @ m = escaped b @ n \<longleftrightarrow> a = b \<and> m = n"
proof (induction a arbitrary: b)
  case Nil
  then show ?case by (cases b) (simp_all add: escaped_def)
next
  case (Cons c a)
  then show ?case by (cases b) (auto simp: escaped_def)
qed

definition clear_lib :: CryptoLib where
  "clear_lib =
     \<lparr>cl_aes_key = (\<lambda>k. length k = 32), cl_seal = (\<lambda>k n a m. Some (escaped a @ m)),
      cl_open = (\<lambda>k n a c. strip_prefix (escaped a) c), cl_b64 = id, cl_b64_decode = Some, cl_b64url = id, cl_sha256 = id,
      cl_hmac_sha256 = (\<lambda>k m. Some m), cl_hmac_sha1 = (\<lambda>k m. Some (replicate 20 CHR ''a''))\<rparr>"

lemma clear_lib_lawful: "seals_faithfully clear_lib" "b64_faithful clear_lib"
proof -
  have "strip_prefix (escaped a') (escaped a @ m) = (if a' = a then Some m else None)" for a a' m
  proof (cases "strip_prefix (escaped a') (escaped a @ m)")
    case None
    moreover have "strip_prefix (escaped a) (escaped a @ m) = Some m" by (simp add: strip_prefix_Some)
    ultimately show ?thesis by auto
  next
    case (Some r)
    then have "a = a' \<and> m = r" by (simp add: strip_prefix_Some escaped_append)
    with Some show ?thesis by auto
  qed
  then show "seals_faithfully clear_lib" by (auto simp: seals_faithfully_def clear_lib_def escaped_def)
  show "b64_faithful clear_lib" by (simp add: b64_faithful_def clear_lib_def)
qed

definition sample_aad :: EnvelopeAad where
  "sample_aad =
     \<lparr>ad_schema_version = 1, ad_secret_id = 7, ad_secret_kind = ''totp_seed'', ad_provider_role = ''business'',
      ad_owner_type = ''user'', ad_owner_id = ''u'', ad_purpose = ''mfa'', ad_key_version = 3\<rparr>"

definition sample_keys :: "u64 \<Rightarrow> LocalAesKeyProvider" where
  "sample_keys v = \<lparr>lp_role = ''business'', lp_key_version = v, lp_root_key = replicate 32 CHR ''k''\<rparr>"

definition zeros :: entropy where
  "zeros = Some (\<lambda>_. CHR ''0'')"

definition sample_envelope :: SecretEnvelope where
  "sample_envelope =
     \<lparr>se_schema_version = 1, se_cipher_suite = AES_SUITE, se_provider_role = ''business'', se_key_version = 3,
      se_ciphertext_base64 = escaped (payload_bytes sample_aad) @ ''s'', se_nonce_base64 = replicate 12 CHR ''0'',
      se_wrapped_dek_base64 = replicate 12 CHR ''0'' @ escaped (wrap_bytes sample_aad) @ replicate 32 CHR ''0''\<rparr>"

lemma sample_sealed:
  "envelope_encrypt clear_lib (local_provider clear_lib (sample_keys 3)) (zeros, zeros, zeros) ''s'' sample_aad = Inr sample_envelope"
proof -
  have "sample_aad\<lparr>ad_key_version := 3\<rparr> = sample_aad" by (simp add: sample_aad_def)
  moreover have "map (\<lambda>_. CHR ''0'') [0..<n] = replicate n CHR ''0''" for n by (simp add: map_replicate_const)
  ultimately show ?thesis
    by (simp add: envelope_encrypt_def local_provider_def sample_keys_def wrap_dek_def clear_lib_def zeros_def fill_random_def
        aes_new_def DEK_BYTES_def NONCE_BYTES_def sample_envelope_def) (simp add: sample_aad_def)
qed

lemma sample_fits: "aad_fits sample_aad"
  by (simp add: aad_fits_def sample_aad_def fits_length_def)

theorem envelope_opens_for_its_identity_witness:
  "envelope_decrypt clear_lib (local_provider clear_lib (sample_keys 3)) sample_envelope sample_aad = Inr ''s'' \<and>
   envelope_decrypt clear_lib (local_provider clear_lib (sample_keys 3)) sample_envelope (sample_aad\<lparr>ad_owner_id := ''v''\<rparr>) \<noteq> Inr ''s''"
proof -
  have f: "aad_fits (sample_aad\<lparr>ad_owner_id := ''v''\<rparr>)"
    by (simp add: aad_fits_def sample_aad_def fits_length_def)
  have v: "se_key_version sample_envelope = 3" by (simp add: sample_envelope_def)
  show ?thesis
    using envelope_opens_for_its_identity [OF clear_lib_lawful sample_fits sample_fits sample_sealed, of "''s''"]
      envelope_opens_for_its_identity [OF clear_lib_lawful sample_fits f sample_sealed, of "''s''"]
    by (simp add: v) (simp add: sample_aad_def)
qed

definition sample_candidate :: RewrapCandidate where
  "sample_candidate =
     \<lparr>rc_aad = sample_aad, rc_key_version = 3,
      rc_wrapped_dek = replicate 12 CHR ''0'' @ escaped (wrap_bytes sample_aad) @ replicate 32 CHR ''0''\<rparr>"

definition sample_batch :: "(RotationError + RotationBatchReport) \<times> (u128 \<times> string) list" where
  "sample_batch =
     rewrap_database_business_batch clear_lib (\<lambda>_. zeros) (\<lambda>_ _. Committed) (3, replicate 32 CHR ''k'') (4, replicate 32 CHR ''k'')
       None 10 [sample_candidate]"

theorem rotation_keeps_keys_witness:
  "list_all (keeps_key clear_lib (sample_keys 3) (sample_keys 4) [sample_candidate]) (snd sample_batch)"
proof -
  have p: "business_provider 3 (replicate 32 CHR ''k'') = Inr (sample_keys 3)"
    "business_provider 4 (replicate 32 CHR ''k'') = Inr (sample_keys 4)"
    by (simp_all add: business_provider_def local_new_def DEK_BYTES_def u64_try_from_def sample_keys_def)
  show ?thesis
    using rotation_keeps_keys [OF clear_lib_lawful, of "(3, replicate 32 CHR ''k'')" _ "(4, replicate 32 CHR ''k'')"
        _ "\<lambda>_. zeros" "\<lambda>_ _. Committed" None 10 "[sample_candidate]" "fst sample_batch" "snd sample_batch"] p
    by (simp add: sample_batch_def)
qed

text \<open>The batch of the witness does rotate its row.\<close>

lemma sample_batch_report:
  "fst sample_batch = Inr \<lparr>rb_rewrapped = 1, rb_cas_conflicts = 0, rb_next_checkpoint = Some 7, rb_complete = True\<rparr>"
proof -
  have s: "sample_aad\<lparr>ad_key_version := 3\<rparr> = sample_aad" "ad_key_version sample_aad = 3" "ad_provider_role sample_aad = ''business''"
    "ad_secret_id sample_aad = 7"
    by (simp_all add: sample_aad_def)
  have "unwrap_dek clear_lib (sample_keys 3) 3 (rc_wrapped_dek sample_candidate) (wrap_bytes sample_aad) = Inr (replicate 32 CHR ''0'')"
    by (simp add: unwrap_dek_def sample_keys_def sample_candidate_def NONCE_BYTES_def aes_new_def clear_lib_def strip_prefix_def
        starts_with_def escaped_def)
  then show ?thesis
    by (simp add: sample_batch_def rewrap_database_business_batch_def business_provider_def local_new_def DEK_BYTES_def
        u64_try_from_def rewrap_candidate_def candidate_aad_def sample_candidate_def s rewrap_dek_def local_provider_def
        sample_keys_def Let_def)
      (simp add: wrap_dek_def aes_new_def fill_random_def zeros_def clear_lib_def)
qed

end
