(* ===== verification/Openai_Session.thy ===== *)
theory Openai_Session
  imports Security
begin

unbundle bit_operations_syntax

text \<open>
  \<^verbatim>\<open>gateway-services/openai/session.rs\<close> and \<^verbatim>\<open>websocket.rs\<close>: the upstream identities derived for a tenant, the index of the
  account that owns a continuation, and the turns of a WebSocket connection. HMAC and base64 come from \<open>CryptoLib\<close>; a
  UUID is its sixteen bytes, printed by a parameter.
\<close>

datatype OpenAiError =
    InvalidRequest | InvalidCredential | IdentityConflict | ReasoningLimit | ContinuationUnavailable | EventTooLarge | InvalidUsage

subsection \<open>Derived identities\<close>

definition isolate_uuid :: "CryptoLib \<Rightarrow> string \<Rightarrow> string \<Rightarrow> string list \<Rightarrow> OpenAiError + string" where
  "isolate_uuid L key domain parts =
     (if length key < 32 then Inl InvalidCredential
      else and_then (ok_or InvalidCredential (cl_hmac_sha256 L key (domain @ concat (map delimited parts)))) (\<lambda>mac.
           Inr (uuid_v4_bits (take 16 mac))))"

definition isolate_session :: "CryptoLib \<Rightarrow> string \<Rightarrow> string \<Rightarrow> string \<Rightarrow> string \<Rightarrow> OpenAiError + string" where
  "isolate_session L key platform_key account session =
     (if length key < 32 then Inl InvalidCredential
      else and_then (ok_or InvalidCredential
             (cl_hmac_sha256 L key (''openai-session-v1'' @ concat (map delimited [platform_key, account, session])))) (\<lambda>mac.
           Inr (cl_b64url L mac)))"

definition derive_installation_id :: "CryptoLib \<Rightarrow> (string \<Rightarrow> string) \<Rightarrow> string \<Rightarrow> string \<Rightarrow> OpenAiError + string" where
  "derive_installation_id L show_uuid key account =
     and_then (isolate_uuid L key ''openai-installation-v1'' [account]) (\<lambda>u. Inr (show_uuid u))"

definition derive_thread_id ::
  "CryptoLib \<Rightarrow> (string \<Rightarrow> string) \<Rightarrow> string \<Rightarrow> string \<Rightarrow> string \<Rightarrow> string \<Rightarrow> OpenAiError + string" where
  "derive_thread_id L show_uuid key platform_key account session =
     and_then (isolate_uuid L key ''openai-thread-v1'' [platform_key, account, session]) (\<lambda>u. Inr (show_uuid u))"

definition derive_window_id :: "string \<Rightarrow> string" where
  "derive_window_id thread_id = thread_id @ '':0''"

subsection \<open>Owners of continuations\<close>

record ContinuationIndex =
  ci_entries :: "(string \<times> string, string \<times> duration) btree"
  ci_capacity :: nat
  ci_ttl :: duration

definition continuation_new :: "nat \<Rightarrow> duration \<Rightarrow> ContinuationIndex" where
  "continuation_new capacity ttl = \<lparr>ci_entries = [], ci_capacity = capacity, ci_ttl = ttl\<rparr>"

definition drop_expired :: "duration \<Rightarrow> ContinuationIndex \<Rightarrow> ContinuationIndex" where
  "drop_expired now ix = ix\<lparr>ci_entries := bt_retain (\<lambda>_ (_, expiry). now < expiry) (ci_entries ix)\<rparr>"

text \<open>The index after the call, and its answer: expired entries are dropped even when the call fails.\<close>

definition bind_continuation ::
  "string \<Rightarrow> string \<Rightarrow> string \<Rightarrow> duration \<Rightarrow> ContinuationIndex \<Rightarrow> ContinuationIndex \<times> (OpenAiError + unit)" where
  "bind_continuation key response credential now ix0 =
     (let ix = drop_expired now ix0;
          inserted = ix\<lparr>ci_entries := bt_insert (key, response) (credential, dur_saturating_add now (ci_ttl ix)) (ci_entries ix)\<rparr>
      in case bt_get (ci_entries ix) (key, response) of
           Some (existing, _) \<Rightarrow> if existing \<noteq> credential then (ix, Inl IdentityConflict) else (inserted, Inr ())
         | None \<Rightarrow> if ci_capacity ix \<le> length (ci_entries ix) then (ix, Inl ContinuationUnavailable) else (inserted, Inr ()))"

definition resolve_continuation :: "string \<Rightarrow> string \<Rightarrow> duration \<Rightarrow> ContinuationIndex \<Rightarrow> OpenAiError + string" where
  "resolve_continuation key response now ix =
     (case bt_get (ci_entries ix) (key, response) of
        Some (credential, expiry) \<Rightarrow> if now < expiry then Inr credential else Inl ContinuationUnavailable
      | None \<Rightarrow> Inl ContinuationUnavailable)"

subsection \<open>Turns of a connection\<close>

record Turn =
  tn_id :: u64
  tn_committed :: bool

record WebSocketSession =
  ws_account :: "string option"
  ws_turn :: "Turn option"
  ws_next_turn :: u64

definition ws_default :: WebSocketSession where
  "ws_default = \<lparr>ws_account = None, ws_turn = None, ws_next_turn = 0\<rparr>"

definition ws_begin :: "string \<Rightarrow> WebSocketSession \<Rightarrow> WebSocketSession \<times> (OpenAiError + u64)" where
  "ws_begin account s =
     (if ws_turn s \<noteq> None \<or> account = [] then (s, Inl InvalidRequest)
      else if is_some_and (ws_account s) (\<lambda>bound. bound \<noteq> account) then (s, Inl ContinuationUnavailable)
      else case checked_add (ws_next_turn s) 1 of
          None \<Rightarrow> (s, Inl InvalidRequest)
        | Some n \<Rightarrow>
            (s\<lparr>ws_next_turn := n, ws_account := Some account, ws_turn := Some \<lparr>tn_id = n, tn_committed = False\<rparr>\<rparr>, Inr n))"

definition ws_commit :: "u64 \<Rightarrow> WebSocketSession \<Rightarrow> WebSocketSession \<times> (OpenAiError + unit)" where
  "ws_commit n s =
     (case ws_turn s of
        Some t \<Rightarrow> if tn_id t = n then (s\<lparr>ws_turn := Some (t\<lparr>tn_committed := True\<rparr>)\<rparr>, Inr ()) else (s, Inl InvalidRequest)
      | None \<Rightarrow> (s, Inl InvalidRequest))"

definition ws_replay_allowed :: "u64 \<Rightarrow> WebSocketSession \<Rightarrow> bool" where
  "ws_replay_allowed n s \<longleftrightarrow> is_some_and (ws_turn s) (\<lambda>t. tn_id t = n \<and> \<not> tn_committed t)"

definition ws_finish_turn :: "u64 \<Rightarrow> WebSocketSession \<Rightarrow> WebSocketSession \<times> bool" where
  "ws_finish_turn n s = (if is_some_and (ws_turn s) (\<lambda>t. tn_id t = n) then (s\<lparr>ws_turn := None\<rparr>, True) else (s, False))"

definition ws_idle :: "WebSocketSession \<Rightarrow> bool" where
  "ws_idle s \<longleftrightarrow> ws_turn s = None"

section \<open>Properties\<close>

subsection \<open>Identities\<close>

lemma concat_delimited_inject:
  assumes "list_all fits_length xs" "list_all fits_length ys" "length xs = length ys"
  shows "concat (map delimited xs) = concat (map delimited ys) \<longleftrightarrow> xs = ys"
  using assms(3,1,2) by (induction xs ys rule: list_induct2) (auto simp: delimited_append_inject)

text \<open>Moving a character from one part to the next gives another identity: only a collision of the hash or of the base64
  alphabet could give two tenants, accounts or sessions the same upstream session.
\<close>

theorem sessions_isolated:
  assumes "inj (cl_hmac_sha256 L key)" "inj (cl_b64url L)"
    and "list_all fits_length [k, a, s, k', a', s']"
    and "isolate_session L key k a s = Inr i" "isolate_session L key k' a' s' = Inr i"
  shows "k = k' \<and> a = a' \<and> s = s'"
proof -
  have "cl_hmac_sha256 L key (''openai-session-v1'' @ concat (map delimited [k, a, s])) =
      cl_hmac_sha256 L key (''openai-session-v1'' @ concat (map delimited [k', a', s']))"
    using assms(2,4,5) by (auto simp: isolate_session_def and_then_Inr ok_or_Inr inj_eq split: if_splits)
  then have "concat (map delimited [k, a, s]) = concat (map delimited [k', a', s'])" using assms(1) by (simp add: inj_eq)
  with concat_delimited_inject [of "[k, a, s]" "[k', a', s']"] assms(3) show ?thesis by simp
qed

subsection \<open>Continuations\<close>

record Binding =
  bn_key :: string
  bn_response :: string
  bn_credential :: string
  bn_time :: duration

text \<open>Some calls of \<open>bind\<close> in order, and the ones that succeeded, the latest first.\<close>

fun run_bindings :: "Binding list \<Rightarrow> ContinuationIndex \<times> Binding list \<Rightarrow> ContinuationIndex \<times> Binding list" where
  "run_bindings [] st = st"
| "run_bindings (b # bs) (ix, log) =
     (case bind_continuation (bn_key b) (bn_response b) (bn_credential b) (bn_time b) ix of
        (ix', Inr _) \<Rightarrow> run_bindings bs (ix', b # log)
      | (ix', Inl _) \<Rightarrow> run_bindings bs (ix', log))"

definition last_binding :: "string \<Rightarrow> string \<Rightarrow> Binding list \<Rightarrow> Binding option" where
  "last_binding key response log = find (\<lambda>b. bn_key b = key \<and> bn_response b = response) log"

definition owner_of :: "duration \<Rightarrow> duration \<Rightarrow> Binding option \<Rightarrow> OpenAiError + string" where
  "owner_of ttl now b =
     (case b of
        Some b \<Rightarrow> if now < dur_saturating_add (bn_time b) ttl then Inr (bn_credential b) else Inl ContinuationUnavailable
      | None \<Rightarrow> Inl ContinuationUnavailable)"

definition continuation_inv :: "duration \<Rightarrow> ContinuationIndex \<Rightarrow> Binding list \<Rightarrow> bool" where
  "continuation_inv now ix log \<longleftrightarrow>
     bt_wf (ci_entries ix) \<and> length (ci_entries ix) \<le> ci_capacity ix \<and>
     (\<forall>t k r. now \<le> t \<longrightarrow> resolve_continuation k r t ix = owner_of (ci_ttl ix) t (last_binding k r log))"

lemma resolve_drop_expired:
  assumes "bt_wf (ci_entries ix)" "now \<le> t"
  shows "resolve_continuation k r t (drop_expired now ix) = resolve_continuation k r t ix"
  using assms by (auto simp: resolve_continuation_def drop_expired_def bt_get_retain split: option.splits prod.splits)

lemma continuation_inv_drop:
  assumes "continuation_inv now0 ix log" "now0 \<le> now"
  shows "continuation_inv now (drop_expired now ix) log"
proof -
  have "length (ci_entries (drop_expired now ix)) \<le> length (ci_entries ix)"
    by (simp add: drop_expired_def bt_retain_def)
  moreover have "bt_wf (ci_entries (drop_expired now ix))" using assms(1) by (simp add: continuation_inv_def drop_expired_def)
  ultimately show ?thesis
    using assms resolve_drop_expired [of ix now] by (auto simp: continuation_inv_def drop_expired_def)
qed

lemma continuation_inv_insert:
  assumes "continuation_inv now ix log"
    and "bt_get (ci_entries ix) (key, response) = None \<Longrightarrow> length (ci_entries ix) < ci_capacity ix"
  shows "continuation_inv now
     (ix\<lparr>ci_entries := bt_insert (key, response) (credential, dur_saturating_add now (ci_ttl ix)) (ci_entries ix)\<rparr>)
     (\<lparr>bn_key = key, bn_response = response, bn_credential = credential, bn_time = now\<rparr> # log)"
proof -
  let ?e = "bt_insert (key, response) (credential, dur_saturating_add now (ci_ttl ix)) (ci_entries ix)"
  have wf: "bt_wf ?e" using assms(1) by (simp add: continuation_inv_def)
  have "length ?e \<le> ci_capacity ix"
  proof (cases "bt_get (ci_entries ix) (key, response)")
    case None
    then show ?thesis using assms(2) by (simp add: length_bt_insert)
  next
    case (Some v)
    have "distinct (map fst ?e)" "distinct (map fst (ci_entries ix))"
      using wf assms(1) by (simp_all add: bt_wf_distinct continuation_inv_def)
    then have "length ?e = card (fst ` set ?e)" "length (ci_entries ix) = card (fst ` set (ci_entries ix))"
      by (metis distinct_card length_map list.set_map)+
    moreover have "(key, response) \<in> fst ` set (ci_entries ix)" using Some by (metis domI dom_map_of_conv_image_fst)
    ultimately show ?thesis using assms(1) by (simp add: insert_absorb continuation_inv_def)
  qed
  with wf assms(1) show ?thesis
    by (auto simp: continuation_inv_def resolve_continuation_def last_binding_def owner_of_def)
qed

lemma bind_keeps_inv:
  assumes "continuation_inv now0 ix log" "now0 \<le> bn_time b"
    and "bind_continuation (bn_key b) (bn_response b) (bn_credential b) (bn_time b) ix = (ix', res)"
  shows "continuation_inv (bn_time b) ix' (if isl res then log else b # log)" "ci_ttl ix' = ci_ttl ix" "ci_capacity ix' = ci_capacity ix"
proof -
  note d = continuation_inv_drop [OF assms(1,2)]
  have b: "\<lparr>bn_key = bn_key b, bn_response = bn_response b, bn_credential = bn_credential b, bn_time = bn_time b\<rparr> = b"
    by simp
  show "continuation_inv (bn_time b) ix' (if isl res then log else b # log)"
    using assms(3) d continuation_inv_insert [OF d, of "bn_key b" "bn_response b" "bn_credential b"]
    by (auto simp: bind_continuation_def Let_def b split: option.splits if_splits)
  show "ci_ttl ix' = ci_ttl ix" "ci_capacity ix' = ci_capacity ix"
    using assms(3) by (auto simp: bind_continuation_def Let_def drop_expired_def split: option.splits if_splits)
qed

lemma run_bindings_inv:
  assumes "continuation_inv now0 ix log" "sorted (now0 # map bn_time bs)" "run_bindings bs (ix, log) = (ix', log')"
  shows "continuation_inv (last (now0 # map bn_time bs)) ix' log' \<and> ci_ttl ix' = ci_ttl ix \<and> ci_capacity ix' = ci_capacity ix"
  using assms
proof (induction bs arbitrary: now0 ix log)
  case (Cons b bs)
  obtain ix1 res where e: "bind_continuation (bn_key b) (bn_response b) (bn_credential b) (bn_time b) ix = (ix1, res)" by fastforce
  from Cons.prems(2) have t: "now0 \<le> bn_time b" "sorted (bn_time b # map bn_time bs)" by simp_all
  note k = bind_keeps_inv [OF Cons.prems(1) t(1) e]
  have "run_bindings bs (ix1, if isl res then log else b # log) = (ix', log')"
    using Cons.prems(3) e by (cases res) simp_all
  from Cons.IH [OF k(1) t(2) this] k(2,3) show ?case by simp
qed simp

text \<open>C27. After any calls of \<open>bind\<close> under a monotonic clock the index holds at most its capacity, and a continuation resolves to
  the account of its last successful binding until that expires, and to nothing otherwise: capacity never evicts, and a
  refused binding changes no owner.
\<close>

theorem continuation_index_exact:
  assumes "sorted (map bn_time bs)" "list_all (\<lambda>b. bn_time b \<le> now) bs"
    and "run_bindings bs (continuation_new capacity ttl, []) = (ix, log)"
  shows "length (ci_entries ix) \<le> capacity \<and>
    resolve_continuation key response now ix = owner_of ttl now (last_binding key response log)"
proof -
  have i: "continuation_inv 0 (continuation_new capacity ttl) []"
    by (simp add: continuation_inv_def continuation_new_def resolve_continuation_def owner_of_def last_binding_def)
  have "sorted (0 # map bn_time bs)" using assms(1) by simp
  from run_bindings_inv [OF i this assms(3)]
  have r: "continuation_inv (last (0 # map bn_time bs)) ix log" "ci_ttl ix = ttl" "ci_capacity ix = capacity"
    by (simp_all add: continuation_new_def)
  have "last (0 # map bn_time bs) \<le> now" using assms(2) by (cases bs rule: rev_cases) (auto simp: list_all_iff)
  with r show ?thesis by (auto simp: continuation_inv_def)
qed

text \<open>While an account owns a continuation, binding it to another is refused.\<close>

lemma live_owner_not_replaced:
  assumes "bt_wf (ci_entries ix)" "resolve_continuation key response now ix = Inr owner" "owner \<noteq> credential"
  shows "snd (bind_continuation key response credential now ix) = Inl IdentityConflict"
  using assms
  by (auto simp: bind_continuation_def resolve_continuation_def Let_def drop_expired_def bt_get_retain split: option.splits if_splits)

subsection \<open>Turns\<close>

datatype WsCall = WsBegin string | WsCommit u64 | WsFinish u64

record WsTrace =
  wt_session :: WebSocketSession
  wt_begun :: "u64 list"
  wt_finished :: "u64 list"
  wt_accounts :: "string set"

definition ws_trace_start :: WsTrace where
  "ws_trace_start = \<lparr>wt_session = ws_default, wt_begun = [], wt_finished = [], wt_accounts = {}\<rparr>"

fun ws_call :: "WsCall \<Rightarrow> WsTrace \<Rightarrow> WsTrace" where
  "ws_call (WsBegin account) t =
     (case ws_begin account (wt_session t) of
        (s, Inr n) \<Rightarrow> t\<lparr>wt_session := s, wt_begun := wt_begun t @ [n], wt_accounts := insert account (wt_accounts t)\<rparr>
      | (s, Inl _) \<Rightarrow> t\<lparr>wt_session := s\<rparr>)"
| "ws_call (WsCommit n) t = t\<lparr>wt_session := fst (ws_commit n (wt_session t))\<rparr>"
| "ws_call (WsFinish n) t =
     (let (s, released) = ws_finish_turn n (wt_session t)
      in t\<lparr>wt_session := s, wt_finished := wt_finished t @ (if released then [n] else [])\<rparr>)"

definition open_turn :: "WebSocketSession \<Rightarrow> u64 list" where
  "open_turn s = (case ws_turn s of None \<Rightarrow> [] | Some t \<Rightarrow> [tn_id t])"

definition numbered :: "nat \<Rightarrow> u64 list" where
  "numbered n = map of_nat [1..<Suc n]"

lemma numbered_simps [simp]: "numbered 0 = []" "numbered (Suc n) = numbered n @ [of_nat (Suc n)]"
  by (simp_all add: numbered_def)

definition ws_inv :: "WsTrace \<Rightarrow> bool" where
  "ws_inv t \<longleftrightarrow>
     wt_begun t = numbered (unat (ws_next_turn (wt_session t))) \<and>
     wt_begun t = wt_finished t @ open_turn (wt_session t) \<and>
     wt_accounts t = set_option (ws_account (wt_session t))"

lemma ws_call_inv:
  assumes "ws_inv t"
  shows "ws_inv (ws_call c t)"
proof (cases c)
  case (WsBegin account)
  show ?thesis
  proof (cases "ws_begin account (wt_session t)")
    case (Pair s res)
    show ?thesis
    proof (cases res)
      case (Inl e)
      with Pair WsBegin assms show ?thesis
        by (auto simp: ws_begin_def ws_inv_def split: if_splits option.splits)
    next
      case (Inr n)
      with Pair have b: "ws_turn (wt_session t) = None" "checked_add (ws_next_turn (wt_session t)) 1 = Some n"
        "\<not> is_some_and (ws_account (wt_session t)) (\<lambda>bound. bound \<noteq> account)"
        "s = (wt_session t)\<lparr>ws_next_turn := n, ws_account := Some account, ws_turn := Some \<lparr>tn_id = n, tn_committed = False\<rparr>\<rparr>"
        by (auto simp: ws_begin_def split: if_splits option.splits)
      have u: "unat n = Suc (unat (ws_next_turn (wt_session t)))" using unat_checked_add [OF b(2)] by simp
      have "of_nat (unat n) = n" by simp
      with u have "n = of_nat (Suc (unat (ws_next_turn (wt_session t))))" by metis
      with assms b u show ?thesis
        using Pair Inr WsBegin by (auto simp: ws_inv_def open_turn_def split: option.splits)
    qed
  qed
next
  case (WsCommit n)
  with assms show ?thesis by (auto simp: ws_commit_def ws_inv_def open_turn_def split: option.splits)
next
  case (WsFinish n)
  with assms show ?thesis by (auto simp: ws_finish_turn_def ws_inv_def open_turn_def split: option.splits)
qed

text \<open>Whatever is called, with whatever turn numbers: the turns begun are numbered from one without gaps, they are the turns
  finished followed by the one that is open, so each is released at most once and in order, and one account served them
  all.
\<close>

theorem turns_serial_and_released_once:
  "let t = fold ws_call calls ws_trace_start in
     wt_begun t = numbered (unat (ws_next_turn (wt_session t))) \<and>
     wt_begun t = wt_finished t @ open_turn (wt_session t) \<and>
     distinct (wt_finished t) \<and> wt_accounts t = set_option (ws_account (wt_session t))"
proof -
  have "ws_inv ws_trace_start" by (simp add: ws_inv_def ws_trace_start_def ws_default_def open_turn_def)
  then have i: "ws_inv (fold ws_call calls ws_trace_start)"
    by (induction calls rule: rev_induct) (simp_all add: ws_call_inv)
  let ?n = "unat (ws_next_turn (wt_session (fold ws_call calls ws_trace_start)))"
  have "?n < 2 ^ 64" using unsigned_less [of "ws_next_turn (wt_session (fold ws_call calls ws_trace_start))", where ?'a = nat] by simp
  then have "distinct (numbered ?n)"
    unfolding numbered_def by (auto simp: distinct_map inj_on_def word_of_nat_eq_iff take_bit_nat_eq_self)
  with i have "distinct (wt_finished (fold ws_call calls ws_trace_start))" by (metis distinct_append ws_inv_def)
  with i show ?thesis unfolding Let_def ws_inv_def by blast
qed

text \<open>A commit fences the replay of its turn for good.\<close>

lemma committed_not_replayed:
  assumes "ws_commit n s = (s', Inr ())"
  shows "\<not> ws_replay_allowed n s'" "\<not> ws_replay_allowed n (fst (ws_commit m s'))" "\<not> ws_replay_allowed n (fst (ws_finish_turn m s'))"
  using assms by (auto simp: ws_commit_def ws_replay_allowed_def ws_finish_turn_def split: option.splits if_splits)

end
