(* ===== verification/Openai_Usage.thy ===== *)
theory Openai_Usage
  imports Openai_Session Usage Json_Pointer
begin

text \<open>
  \<^verbatim>\<open>gateway-services/openai/usage.rs\<close>: token totals with their subsets, the observer of a response and the bounded
  decoder of server-sent events. The reader of \<^verbatim>\<open>serde_json\<close> and the clock are arguments.
\<close>

subsection \<open>Token totals\<close>

record OpenAiUsage =
  ou_input :: "u64 option"
  ou_output :: "u64 option"
  ou_cached :: "u64 option"
  ou_reasoning :: "u64 option"

definition OpenAiUsage_default :: OpenAiUsage where
  "OpenAiUsage_default = \<lparr>ou_input = None, ou_output = None, ou_cached = None, ou_reasoning = None\<rparr>"

definition usage_count :: "Json option \<Rightarrow> OpenAiError + u64 option" where
  "usage_count v =
     (case v of
        None \<Rightarrow> Inr None
      | Some j \<Rightarrow> if j = JNull then Inr None else and_then (ok_or InvalidUsage (as_u64_value j)) (\<lambda>n. Inr (Some n)))"

definition or_else :: "'a option \<Rightarrow> 'a option \<Rightarrow> 'a option" where
  "or_else x y = (case x of None \<Rightarrow> y | Some _ \<Rightarrow> x)"

definition exceeds :: "u64 option \<Rightarrow> u64 option \<Rightarrow> bool" where
  "exceeds part total_count =
     (case (total_count, part) of (Some t, Some s) \<Rightarrow> t < s | _ \<Rightarrow> False)"

definition openai_usage_parse :: "Json \<Rightarrow> OpenAiError + OpenAiUsage" where
  "openai_usage_parse v =
     and_then (usage_count (or_else (json_get ''input_tokens'' v) (json_get ''prompt_tokens'' v))) (\<lambda>input.
     and_then (usage_count (or_else (json_get ''output_tokens'' v) (json_get ''completion_tokens'' v))) (\<lambda>output.
     and_then (usage_count (or_else (value_pointer ''/input_tokens_details/cached_tokens'' v)
                                    (value_pointer ''/prompt_tokens_details/cached_tokens'' v))) (\<lambda>cached.
     and_then (usage_count (or_else (value_pointer ''/output_tokens_details/reasoning_tokens'' v)
                                    (value_pointer ''/completion_tokens_details/reasoning_tokens'' v))) (\<lambda>reasoning.
       if exceeds cached input \<or> exceeds reasoning output then Inl InvalidUsage
       else Inr \<lparr>ou_input = input, ou_output = output, ou_cached = cached, ou_reasoning = reasoning\<rparr>))))"

definition cost_counts :: "OpenAiUsage \<Rightarrow> TokenCounts" where
  "cost_counts u =
     \<lparr>input_tokens = map_option (\<lambda>t. saturating_sub t (unwrap_or (ou_cached u) 0)) (ou_input u),
      output_tokens = ou_output u, cache_creation_input_tokens = None, cache_read_input_tokens = ou_cached u\<rparr>"

subsection \<open>The observer\<close>

record ResponseObserver =
  ro_first_content_at :: "duration option"
  ro_usage :: OpenAiUsage
  ro_model :: "string option"
  ro_response_id :: "string option"
  ro_terminal :: "string option"

definition ResponseObserver_default :: ResponseObserver where
  "ResponseObserver_default =
     \<lparr>ro_first_content_at = None, ro_usage = OpenAiUsage_default, ro_model = None, ro_response_id = None, ro_terminal = None\<rparr>"

definition nonempty_text :: "Json option \<Rightarrow> bool" where
  "nonempty_text v \<longleftrightarrow> is_some_and (Option.bind v as_str_value) (\<lambda>s. s \<noteq> [])"

definition DELTA_EVENTS :: "string list" where
  "DELTA_EVENTS =
     [''response.output_text.delta'', ''response.reasoning_text.delta'', ''response.reasoning_summary_text.delta'',
      ''response.function_call_arguments.delta'', ''response.custom_tool_call_input.delta'', ''response.refusal.delta'']"

definition choice_has_content :: "Json \<Rightarrow> bool" where
  "choice_has_content choice \<longleftrightarrow>
     is_some_and (or_else (json_get ''delta'' choice) (json_get ''message'' choice)) (\<lambda>d.
       nonempty_text (json_get ''content'' d) \<or> nonempty_text (json_get ''refusal'' d) \<or>
       nonempty_text (json_get ''reasoning_content'' d) \<or> nonempty_text (json_get ''reasoning'' d) \<or>
       nonempty_text (value_pointer ''/function_call/arguments'' d) \<or>
       is_some_and (Option.bind (json_get ''tool_calls'' d) as_array)
         (list_ex (\<lambda>t. nonempty_text (value_pointer ''/function/arguments'' t))))"

definition has_output_content :: "Json \<Rightarrow> bool" where
  "has_output_content event \<longleftrightarrow>
     (is_some_and (Option.bind (json_get ''type'' event) as_str_value) (\<lambda>t. t \<in> set DELTA_EVENTS) \<and>
      nonempty_text (json_get ''delta'' event)) \<or>
     is_some_and (Option.bind (json_get ''choices'' event) as_array) (list_ex choice_has_content)"

definition TERMINAL_EVENTS :: "string list" where
  "TERMINAL_EVENTS = [''response.completed'', ''response.failed'', ''response.incomplete'']"

definition observe_identity :: "duration \<Rightarrow> Json \<Rightarrow> ResponseObserver \<Rightarrow> ResponseObserver" where
  "observe_identity now event ob =
     (let response = unwrap_or (json_get ''response'' event) event;
          ob = (if ro_first_content_at ob = None \<and> has_output_content event then ob\<lparr>ro_first_content_at := Some now\<rparr> else ob);
          ob = (case Option.bind (json_get ''id'' response) as_str_value of
                 Some i \<Rightarrow> ob\<lparr>ro_response_id := Some i\<rparr> | None \<Rightarrow> ob)
      in case Option.bind (json_get ''model'' response) as_str_value of
           Some m \<Rightarrow> ob\<lparr>ro_model := Some m\<rparr> | None \<Rightarrow> ob)"

definition keeps_snapshot :: "OpenAiUsage \<Rightarrow> OpenAiUsage \<Rightarrow> bool" where
  "keeps_snapshot incoming known \<longleftrightarrow>
     \<not> (ou_input incoming \<noteq> Some 0 \<or> ou_output incoming \<noteq> Some 0 \<or> known = OpenAiUsage_default)"

definition take_usage :: "Json \<Rightarrow> ResponseObserver \<Rightarrow> OpenAiError + ResponseObserver" where
  "take_usage event ob =
     (case json_get ''usage'' (unwrap_or (json_get ''response'' event) event) of
        None \<Rightarrow> Inr ob
      | Some v \<Rightarrow>
          if v = JNull then Inr ob
          else and_then (openai_usage_parse v) (\<lambda>incoming.
               Inr (if keeps_snapshot incoming (ro_usage ob) then ob else ob\<lparr>ro_usage := incoming\<rparr>)))"

text \<open>The observer after the event, and the answer; a contradictory usage leaves what was learned before it.\<close>

definition observe :: "duration \<Rightarrow> Json \<Rightarrow> ResponseObserver \<Rightarrow> ResponseObserver \<times> (OpenAiError + bool)" where
  "observe now event ob =
     (if ro_terminal ob \<noteq> None then (ob, Inr False)
      else (let o1 = observe_identity now event ob in
        case take_usage event o1 of
          Inl e \<Rightarrow> (o1, Inl e)
        | Inr o2 \<Rightarrow>
            (case Option.bind (json_get ''type'' event) as_str_value of
               Some kind \<Rightarrow> if kind \<in> set TERMINAL_EVENTS then (o2\<lparr>ro_terminal := Some kind\<rparr>, Inr True) else (o2, Inr False)
             | None \<Rightarrow> (o2, Inr False))))"

definition observer_completeness :: "ResponseObserver \<Rightarrow> UsageCompleteness" where
  "observer_completeness ob =
     (if ro_usage ob = OpenAiUsage_default then UsageUnknown
      else if ro_terminal ob \<noteq> None \<and> ou_input (ro_usage ob) \<noteq> None \<and> ou_output (ro_usage ob) \<noteq> None then UsageComplete
      else UsagePartial)"

subsection \<open>The decoder\<close>

record SseDecoder =
  sd_pending :: string
  sd_limit :: nat
  sd_done :: bool

definition sse_decoder_new :: "nat \<Rightarrow> SseDecoder" where
  "sse_decoder_new limit = \<lparr>sd_pending = [], sd_limit = limit, sd_done = False\<rparr>"

definition ends_with :: "string \<Rightarrow> string \<Rightarrow> bool" where
  "ends_with suffix_text s \<longleftrightarrow> starts_with (rev suffix_text) (rev s)"

definition SSE_LF :: char where "SSE_LF = CHR 0x0A"
definition SSE_CR :: char where "SSE_CR = CHR 0x0D"

definition event_ended :: "string \<Rightarrow> bool" where
  "event_ended pending \<longleftrightarrow> ends_with [SSE_LF, SSE_LF] pending \<or> ends_with [SSE_CR, SSE_LF, SSE_CR, SSE_LF] pending"

definition data_field :: "string \<Rightarrow> string option" where
  "data_field line =
     map_option (\<lambda>v. unwrap_or (strip_prefix '' '' v) v) (strip_prefix ''data:'' line)"

fun join_with :: "string \<Rightarrow> string list \<Rightarrow> string" where
  "join_with separator [] = []"
| "join_with separator [s] = s"
| "join_with separator (s # ss) = s @ separator @ join_with separator ss"

definition event_data :: "string \<Rightarrow> string" where
  "event_data text = join_with [SSE_LF] (List.map_filter data_field (str_lines text))"

text \<open>A complete event: its value if it has one, and whether it was the end marker.\<close>

definition decode_event :: "(string \<Rightarrow> Json option) \<Rightarrow> string \<Rightarrow> OpenAiError + Json list \<times> bool" where
  "decode_event from_str pending =
     (if utf8_chars pending = None then Inl InvalidRequest
      else (let data = event_data pending in
        if str_trim data = ''[DONE]'' then Inr ([], True)
        else if data = [] then Inr ([], False)
        else and_then (ok_or InvalidRequest (from_str data)) (\<lambda>v. Inr ([v], False))))"

fun sse_push ::
  "(string \<Rightarrow> Json option) \<Rightarrow> string \<Rightarrow> SseDecoder \<Rightarrow> Json list \<Rightarrow> SseDecoder \<times> (OpenAiError + Json list)" where
  "sse_push from_str [] d events = (d, Inr events)"
| "sse_push from_str (b # bytes) d events =
     (if sd_limit d \<le> length (sd_pending d) then (d, Inl EventTooLarge)
      else (let d = d\<lparr>sd_pending := sd_pending d @ [b]\<rparr> in
        if event_ended (sd_pending d)
        then (case decode_event from_str (sd_pending d) of
                Inl e \<Rightarrow> (d, Inl e)
              | Inr (new, end_marker) \<Rightarrow>
                  sse_push from_str bytes (d\<lparr>sd_pending := [], sd_done := sd_done d \<or> end_marker\<rparr>) (events @ new))
        else sse_push from_str bytes d events))"

definition decoder_push :: "(string \<Rightarrow> Json option) \<Rightarrow> string \<Rightarrow> SseDecoder \<Rightarrow> SseDecoder \<times> (OpenAiError + Json list)" where
  "decoder_push from_str bytes d = sse_push from_str bytes d []"

definition has_partial_event :: "SseDecoder \<Rightarrow> bool" where
  "has_partial_event d \<longleftrightarrow> sd_pending d \<noteq> []"

section \<open>Properties\<close>

subsection \<open>Totals and subsets\<close>

definition usage_consistent :: "OpenAiUsage \<Rightarrow> bool" where
  "usage_consistent u \<longleftrightarrow> \<not> exceeds (ou_cached u) (ou_input u) \<and> \<not> exceeds (ou_reasoning u) (ou_output u)"

lemma usage_parse_consistent: "openai_usage_parse v = Inr u \<Longrightarrow> usage_consistent u"
  by (auto simp: openai_usage_parse_def and_then_Inr usage_consistent_def split: if_splits)

text \<open>The disjoint buckets that are priced add up to the input total, so cached tokens are charged once.\<close>

lemma cost_counts_add_up:
  assumes "usage_consistent u" "ou_input u = Some t"
  shows "unat (unwrap_or (input_tokens (cost_counts u)) 0) + unat (unwrap_or (cache_read_input_tokens (cost_counts u)) 0) = unat t"
  using assms
  by (auto simp: usage_consistent_def exceeds_def cost_counts_def unat_saturating_sub word_le_nat_alt not_less split: option.splits)

subsection \<open>One completion\<close>

text \<open>All events of a stream, with the time each arrived, and how many were answered as the end.\<close>

fun observe_all :: "(duration \<times> Json) list \<Rightarrow> ResponseObserver \<Rightarrow> ResponseObserver \<times> nat" where
  "observe_all [] ob = (ob, 0)"
| "observe_all ((now, event) # events) ob =
     (let (ob', answer) = observe now event ob; (ob'', n) = observe_all events ob'
      in (ob'', (if answer = Inr True then 1 else 0) + n))"

lemma observe_identity_keeps [simp]:
  "ro_usage (observe_identity now event ob) = ro_usage ob" "ro_terminal (observe_identity now event ob) = ro_terminal ob"
  by (simp_all add: observe_identity_def Let_def split: option.splits)

lemma take_usage_keeps:
  "take_usage event ob = Inr ob' \<Longrightarrow> ro_terminal ob' = ro_terminal ob \<and> (usage_consistent (ro_usage ob) \<longrightarrow> usage_consistent (ro_usage ob'))"
  by (auto simp: take_usage_def and_then_Inr dest: usage_parse_consistent split: option.splits if_splits)

lemma observe_terminal:
  assumes "observe now event ob = (ob', answer)"
  shows "(ro_terminal ob \<noteq> None \<longrightarrow> ob' = ob \<and> answer = Inr False) \<and>
    (ro_terminal ob = None \<longrightarrow> (ro_terminal ob' \<noteq> None \<longleftrightarrow> answer = Inr True))"
  using assms
  by (auto simp: observe_def Let_def dest: take_usage_keeps split: if_splits sum.splits option.splits)

lemma observe_consistent:
  assumes "observe now event ob = (ob', answer)" "usage_consistent (ro_usage ob)"
  shows "usage_consistent (ro_usage ob')"
  using assms
  by (auto simp: observe_def Let_def dest: take_usage_keeps split: if_splits sum.splits option.splits)

text \<open>A stream is answered as ended at most once, exactly when a terminal event was recorded; the usage it leaves never has a
  subset above its total.
\<close>

theorem one_completion_per_stream:
  "let (ob, n) = observe_all events ResponseObserver_default in
     n = (if ro_terminal ob = None then 0 else 1) \<and> usage_consistent (ro_usage ob) \<and>
     (observer_completeness ob = UsageUnknown \<longleftrightarrow> ro_usage ob = OpenAiUsage_default)"
proof -
  have g: "case observe_all events ob of (ob', n) \<Rightarrow>
      n = (if ro_terminal ob \<noteq> None \<or> ro_terminal ob' = None then 0 else 1) \<and>
      (ro_terminal ob \<noteq> None \<longrightarrow> ro_terminal ob' \<noteq> None) \<and> usage_consistent (ro_usage ob')"
    if "usage_consistent (ro_usage ob)" for ob
    using that
  proof (induction events arbitrary: ob)
    case (Cons x events)
    obtain now event where x: "x = (now, event)" by fastforce
    obtain o1 answer where e: "observe now event ob = (o1, answer)" by fastforce
    obtain ob' n where r: "observe_all events o1 = (ob', n)" by fastforce
    from Cons.IH [OF observe_consistent [OF e Cons.prems]] r observe_terminal [OF e] show ?case
      by (auto simp: x e split: if_splits)
  next
    case Nil
    then show ?case by (cases "ro_terminal ob") auto
  qed
  have "usage_consistent (ro_usage ResponseObserver_default)" "ro_terminal ResponseObserver_default = None"
    by (simp_all add: ResponseObserver_default_def OpenAiUsage_default_def usage_consistent_def exceeds_def)
  with g [of ResponseObserver_default] show ?thesis by (auto simp: observer_completeness_def split: if_splits)
qed

subsection \<open>The decoder and chunks\<close>

lemma sse_push_events:
  "sse_push from_str bytes d (events0 @ events) =
     (case sse_push from_str bytes d events of (d', r) \<Rightarrow> (d', map_sum id (\<lambda>es. events0 @ es) r))"
proof (induction from_str bytes d events arbitrary: events0 rule: sse_push.induct)
  case (2 from_str b bytes d events)
  show ?case using 2 by (auto simp: Let_def split: sum.splits prod.splits)
qed simp

lemma sse_push_append:
  "sse_push from_str (a @ b) d events =
     (case sse_push from_str a d events of
        (d', Inl e) \<Rightarrow> (d', Inl e)
      | (d', Inr es) \<Rightarrow> sse_push from_str b d' es)"
proof (induction from_str a d events rule: sse_push.induct)
  case (2 from_str c bytes d events)
  then show ?case by (auto simp: Let_def split: sum.splits prod.splits)
qed simp

text \<open>Feeding the bytes in two chunks gives the events, the state and the error of feeding them at once, wherever the cut
  falls, inside a character or a line end as well.
\<close>

lemma decoder_push_append:
  "decoder_push from_str (a @ b) d =
     (case decoder_push from_str a d of
        (d1, Inl e) \<Rightarrow> (d1, Inl e)
      | (d1, Inr es) \<Rightarrow> (case decoder_push from_str b d1 of
                          (d2, Inl e) \<Rightarrow> (d2, Inl e)
                        | (d2, Inr fs) \<Rightarrow> (d2, Inr (es @ fs))))"
proof -
  obtain d1 r where a: "sse_push from_str a d [] = (d1, r)" by fastforce
  show ?thesis
  proof (cases r)
    case (Inr es)
    have "sse_push from_str b d1 es = (case sse_push from_str b d1 [] of (d', r) \<Rightarrow> (d', map_sum id (\<lambda>fs. es @ fs) r))"
      using sse_push_events [of from_str b d1 es "[]"] by simp
    then have "sse_push from_str (a @ b) d [] =
        (case sse_push from_str b d1 [] of (d', r) \<Rightarrow> (d', map_sum id (\<lambda>fs. es @ fs) r))"
      by (simp add: sse_push_append a Inr)
    then show ?thesis by (auto simp: decoder_push_def a Inr split: sum.splits prod.splits)
  qed (simp add: decoder_push_def sse_push_append a)
qed

text \<open>The buffer never holds more than the limit.\<close>

lemma decoder_bounded:
  "length (sd_pending d) \<le> sd_limit d \<Longrightarrow>
    length (sd_pending (fst (sse_push from_str bytes d events))) \<le> sd_limit d \<and> sd_limit (fst (sse_push from_str bytes d events)) = sd_limit d"
proof (induction from_str bytes d events rule: sse_push.induct)
  case (2 from_str b bytes d events)
  show ?case using 2 by (auto simp: Let_def split: sum.splits prod.splits)
qed simp

subsection \<open>Decoding what a server sends\<close>

lemma utf8_step_append: "utf8_step a = Some r \<Longrightarrow> utf8_step (a @ b) = Some r"
  by (induction a rule: utf8_step.induct) (auto split: if_splits list.splits)

lemma utf8_step_length: "utf8_step a = Some (cp, n) \<Longrightarrow> n \<le> length a"
  by (induction a rule: utf8_step.induct) (auto split: if_splits list.splits)

lemma utf8_chars_append: "utf8_chars a = Some ca \<Longrightarrow> utf8_chars (a @ b) = map_option (\<lambda>cb. ca @ cb) (utf8_chars b)"
proof (induction a arbitrary: ca rule: utf8_chars.induct)
  case (1 a)
  show ?case
  proof (cases "a = []")
    case True
    with 1(2) show ?thesis by (simp add: utf8_chars.simps [of "[]"] option.map_ident)
  next
    case False
    with 1(2) obtain cp n r where st: "utf8_step a = Some (cp, n)" "utf8_chars (drop n a) = Some r" "ca = (cp, take n a) # r"
      by (subst (asm) utf8_chars.simps) (auto split: option.splits)
    note l = utf8_step_length [OF st(1)]
    have "utf8_chars (a @ b) = map_option (\<lambda>r. (cp, take n a) # r) (utf8_chars (drop n a @ b))"
      using utf8_step_append [OF st(1)] False l by (subst utf8_chars.simps) simp
    with 1(1) [OF False st(1) refl st(2)] show ?thesis by (simp add: st(3) option.map_comp comp_def)
  qed
qed

lemma event_ended_snoc [simp]: "b \<noteq> SSE_LF \<Longrightarrow> \<not> event_ended (p @ [b])"
  by (auto simp: event_ended_def ends_with_def)

lemma line_not_ended: "last line \<noteq> SSE_LF \<Longrightarrow> last line \<noteq> SSE_CR \<Longrightarrow> \<not> event_ended (line @ [SSE_LF])"
  by (cases line rule: rev_cases) (auto simp: event_ended_def ends_with_def SSE_LF_def SSE_CR_def)

lemma sse_push_plain:
  assumes "SSE_LF \<notin> set bytes" "length (sd_pending d) + length bytes \<le> sd_limit d"
  shows "sse_push from_str (bytes @ rest) d events = sse_push from_str rest (d\<lparr>sd_pending := sd_pending d @ bytes\<rparr>) events"
  using assms by (induction bytes arbitrary: d) (auto simp: Let_def)

lemma split_inclusive_append: "c \<notin> set a \<Longrightarrow> split_inclusive c (a @ c # s) = (a @ [c]) # split_inclusive c s"
  by (induction a) auto

definition sse_frame :: "string \<Rightarrow> string" where
  "sse_frame data = ''data: '' @ data @ [SSE_LF, SSE_LF]"

lemma event_data_frame:
  assumes "SSE_LF \<notin> set j" "SSE_CR \<notin> set j"
  shows "event_data (sse_frame j) = j"
proof -
  have "split_inclusive SSE_LF (sse_frame j) = [''data: '' @ j @ [SSE_LF], [SSE_LF]]"
    using split_inclusive_append [of SSE_LF "''data: '' @ j" "[SSE_LF]"] assms(1) by (simp add: sse_frame_def SSE_LF_def)
  moreover have "last (''data: '' @ j) \<noteq> SSE_CR" using assms(2) by (cases j rule: rev_cases) (auto simp: SSE_CR_def)
  ultimately show ?thesis
    by (simp add: event_data_def str_lines_def SSE_LF_def [symmetric] SSE_CR_def [symmetric] strip_suffix_char_def data_field_def
        strip_prefix_def starts_with_def butlast_append)
qed

definition plain_event :: "(string \<Rightarrow> Json option) \<Rightarrow> nat \<Rightarrow> string \<times> Json \<Rightarrow> bool" where
  "plain_event from_str limit e \<longleftrightarrow>
     utf8_chars (fst e) \<noteq> None \<and> SSE_LF \<notin> set (fst e) \<and> SSE_CR \<notin> set (fst e) \<and> fst e \<noteq> [] \<and> str_trim (fst e) \<noteq> ''[DONE]'' \<and>
     from_str (fst e) = Some (snd e) \<and> length (sse_frame (fst e)) \<le> limit"

lemma decode_frame:
  assumes "plain_event from_str limit e"
  shows "decode_event from_str (sse_frame (fst e)) = Inr ([snd e], False)"
proof -
  from assms obtain cs where "utf8_chars (fst e) = Some cs" by (auto simp: plain_event_def)
  then have "utf8_chars (sse_frame (fst e)) \<noteq> None"
    using utf8_chars_append [of "fst e" cs "[SSE_LF, SSE_LF]"]
    by (simp add: sse_frame_def utf8_chars_ascii SSE_LF_def utf8_chars.simps [of "[]"])
  with assms event_data_frame [of "fst e"] show ?thesis by (auto simp: decode_event_def plain_event_def Let_def)
qed

lemma push_frame:
  assumes "plain_event from_str (sd_limit d) e" "sd_pending d = []"
  shows "sse_push from_str (sse_frame (fst e) @ rest) d events = sse_push from_str rest d (events @ [snd e])"
proof -
  let ?line = "''data: '' @ fst e"
  have lj: "last (fst e) \<noteq> SSE_CR" using assms(1) by (metis plain_event_def last_in_set)
  have l: "SSE_LF \<notin> set ?line" "length ?line + 2 \<le> sd_limit d" "last ?line \<noteq> SSE_CR"
    using assms(1) lj by (auto simp: plain_event_def sse_frame_def SSE_LF_def SSE_CR_def)
  have ne: "\<not> event_ended (?line @ [SSE_LF])"
  proof -
    have "last ?line \<noteq> SSE_LF" using l(1) by (metis last_in_set append_is_Nil_conv list.distinct(1))
    with l(3) show ?thesis using line_not_ended by blast
  qed
  have ended: "event_ended (?line @ [SSE_LF, SSE_LF])" by (simp add: event_ended_def ends_with_def)
  have "sse_push from_str (sse_frame (fst e) @ rest) d events =
      sse_push from_str (SSE_LF # SSE_LF # rest) (d\<lparr>sd_pending := ?line\<rparr>) events"
    using sse_push_plain [OF l(1), of d from_str "SSE_LF # SSE_LF # rest" events] l(2) assms(2) by (simp add: sse_frame_def)
  also have "\<dots> = sse_push from_str (SSE_LF # rest) (d\<lparr>sd_pending := ?line @ [SSE_LF]\<rparr>) events"
    using l(2) ne by (simp add: Let_def)
  also have "\<dots> = sse_push from_str rest (d\<lparr>sd_pending := [], sd_done := sd_done d \<or> False\<rparr>) (events @ [snd e])"
    using l(2) ended decode_frame [OF assms(1)] by (simp add: Let_def sse_frame_def)
  finally show ?thesis using assms(2) by (cases d) simp
qed

text \<open>Every event of a well-formed stream that fits the buffer is delivered, once and in order, and nothing is left over.\<close>

theorem sse_events_delivered:
  assumes "list_all (plain_event from_str (sd_limit d)) events" "sd_pending d = []"
  shows "decoder_push from_str (concat (map (sse_frame \<circ> fst) events)) d = (d, Inr (map snd events))"
proof -
  have "sse_push from_str (concat (map (sse_frame \<circ> fst) events)) d before = (d, Inr (before @ map snd events))" for before
    using assms by (induction events arbitrary: before) (simp_all add: push_frame)
  then show ?thesis by (simp add: decoder_push_def)
qed

end
