(* ===== verification/Json_Edit.thy ===== *)
theory Json_Edit
  imports Json_Pointer
begin

text \<open>
  Editing the members of a JSON object: looking up a string, inserting and removing a member, as \<^verbatim>\<open>Value::get\<close>,
  \<^verbatim>\<open>Map::insert\<close> and \<^verbatim>\<open>Map::remove\<close> do, with what the edits leave of the other members.
\<close>

definition str_field :: "string \<Rightarrow> Json \<Rightarrow> string option" where
  "str_field k v = Option.bind (json_get k v) as_str_value"

definition json_put :: "string \<Rightarrow> Json \<Rightarrow> Json \<Rightarrow> Json" where
  "json_put k x v = (case v of JObject m \<Rightarrow> JObject (obj_insert k x m) | _ \<Rightarrow> v)"

definition json_drop :: "string \<Rightarrow> Json \<Rightarrow> Json" where
  "json_drop k v = (case v of JObject m \<Rightarrow> JObject (obj_remove k m) | _ \<Rightarrow> v)"

definition is_object :: "Json \<Rightarrow> bool" where
  "is_object v \<longleftrightarrow> as_object v \<noteq> None"

lemma json_get_put [simp]: "json_get k (json_put k' x v) = (if is_object v \<and> k = k' then Some x else json_get k v)"
  by (cases v) (auto simp: json_put_def is_object_def)

lemma is_object_put [simp]: "is_object (json_put k x v) = is_object v"
  by (cases v) (simp_all add: json_put_def is_object_def)

lemma is_object_drop [simp]: "is_object (json_drop k v) = is_object v"
  by (cases v) (simp_all add: json_drop_def is_object_def)

definition keys_distinct :: "Json \<Rightarrow> bool" where
  "keys_distinct v \<longleftrightarrow> (case v of JObject m \<Rightarrow> distinct (map fst m) | _ \<Rightarrow> True)"

lemma json_get_drop_same [simp]: "json_get k (json_drop k v) = None"
  by (cases v) (simp_all add: json_drop_def)

lemma json_get_drop: "keys_distinct v \<Longrightarrow> json_get k (json_drop k' v) = (if k = k' then None else json_get k v)"
  by (cases v) (auto simp: json_drop_def keys_distinct_def map_of_obj_remove_other)

lemma keys_distinct_drop: "keys_distinct v \<Longrightarrow> keys_distinct (json_drop k v)"
  by (cases v) (simp_all add: json_drop_def keys_distinct_def distinct_obj_remove)

lemma keys_distinct_put: "keys_distinct v \<Longrightarrow> keys_distinct (json_put k x v)"
  by (cases v) (simp_all add: json_put_def keys_distinct_def distinct_obj_insert)

lemma is_object_fold_drop [simp]: "is_object (fold json_drop ks v) = is_object v"
  by (induction ks arbitrary: v) simp_all

lemma json_get_fold_drop: "keys_distinct v \<Longrightarrow> json_get k (fold json_drop ks v) = (if k \<in> set ks then None else json_get k v)"
proof (induction ks arbitrary: v)
  case (Cons a ks)
  then show ?case using keys_distinct_drop [of v a] by (simp add: json_get_drop)
qed simp

end
