(* ===== verification/Openai_Protocol.thy ===== *)
theory Openai_Protocol
  imports Openai_Usage Json_Edit Edge_Request
begin

text \<open>
  \<^verbatim>\<open>gateway-services/openai/protocol.rs\<close>: the reasoning ceiling of a group, the body prepared for an account, the checks
  against an advertised model, and the conversions between Chat completions and Responses. An indexed assignment of
  \<^verbatim>\<open>serde_json\<close> is only made on objects here, where it inserts.
\<close>

datatype OpenAiAuthKind = AuthOauth | AuthApiKey

definition required_str :: "Json \<Rightarrow> string \<Rightarrow> OpenAiError + string" where
  "required_str v field = ok_or InvalidRequest (str_field field v)"

subsection \<open>The reasoning ceiling\<close>

record ReasoningPolicy =
  rp_maximum :: "string option"
  rp_downgrade :: bool

fun position :: "'a \<Rightarrow> 'a list \<Rightarrow> nat option" where
  "position x [] = None"
| "position x (y # ys) = (if y = x then Some 0 else map_option Suc (position x ys))"

definition requested_effort :: "Json \<Rightarrow> string option" where
  "requested_effort body =
     Option.bind (or_else (value_pointer ''/reasoning/effort'' body) (json_get ''reasoning_effort'' body)) as_str_value"

definition set_reasoning_effort :: "string \<Rightarrow> Json \<Rightarrow> Json" where
  "set_reasoning_effort effort body =
     (case json_get ''reasoning'' body of
        Some r \<Rightarrow> json_put ''reasoning'' (json_put ''effort'' (JString effort) r) body
      | None \<Rightarrow> body)"

definition apply_reasoning :: "ReasoningPolicy \<Rightarrow> string list \<Rightarrow> Json \<Rightarrow> OpenAiError + Json" where
  "apply_reasoning policy supported body =
     (let chat = json_get ''reasoning_effort'' body \<noteq> None in
      case requested_effort body of
        None \<Rightarrow> Inr body
      | Some requested \<Rightarrow>
          and_then (ok_or InvalidRequest (position requested supported)) (\<lambda>rank.
          (case rp_maximum policy of
             None \<Rightarrow> Inr body
           | Some maximum \<Rightarrow>
               and_then (ok_or InvalidRequest (position maximum supported)) (\<lambda>limit.
                 if limit < rank
                 then (if \<not> rp_downgrade policy then Inl ReasoningLimit
                       else if chat then Inr (json_put ''reasoning_effort'' (JString maximum) body)
                       else Inr (set_reasoning_effort maximum body))
                 else Inr body))))"

subsection \<open>Chat to Responses\<close>

definition text_type :: "string \<Rightarrow> Json" where
  "text_type role = JString (if role = ''assistant'' then ''output_text'' else ''input_text'')"

definition image_part :: "Json \<Rightarrow> OpenAiError + Json" where
  "image_part part =
     and_then (ok_or InvalidRequest (json_get ''image_url'' part)) (\<lambda>image.
     and_then (required_str image ''url'') (\<lambda>url.
     (let item = JObject [(''type'', JString ''input_image''), (''image_url'', JString url)]
      in Inr (case json_get ''detail'' image of Some detail \<Rightarrow> json_put ''detail'' detail item | None \<Rightarrow> item))))"

definition content_part :: "string \<Rightarrow> Json \<Rightarrow> OpenAiError + Json" where
  "content_part role part =
     (case str_field ''type'' part of
        Some kind \<Rightarrow>
          if kind = ''text''
          then and_then (required_str part ''text'') (\<lambda>t. Inr (JObject [(''type'', text_type role), (''text'', JString t)]))
          else if kind = ''image_url'' \<and> role = ''user'' then image_part part
          else Inl InvalidRequest
      | None \<Rightarrow> Inl InvalidRequest)"

definition content_parts :: "string \<Rightarrow> Json \<Rightarrow> OpenAiError + Json list" where
  "content_parts role content =
     (case content of
        JString t \<Rightarrow> Inr [JObject [(''type'', text_type role), (''text'', JString t)]]
      | JArray parts \<Rightarrow> collect_results (map (content_part role) parts)
      | _ \<Rightarrow> Inl InvalidRequest)"

definition content_items :: "string \<Rightarrow> Json \<Rightarrow> OpenAiError + Json list" where
  "content_items role message =
     (case json_get ''content'' message of
        None \<Rightarrow> Inr []
      | Some content \<Rightarrow>
          if content = JNull then Inr []
          else and_then (content_parts role content) (\<lambda>parts.
               Inr [JObject [(''role'', JString role), (''content'', JArray parts)]]))"

definition call_item :: "Json \<Rightarrow> OpenAiError + Json" where
  "call_item call =
     (if str_field ''type'' call \<noteq> Some ''function'' then Inl InvalidRequest
      else and_then (ok_or InvalidRequest (json_get ''function'' call)) (\<lambda>f.
           and_then (required_str call ''id'') (\<lambda>i.
           and_then (required_str f ''name'') (\<lambda>n.
           and_then (required_str f ''arguments'') (\<lambda>a.
           Inr (JObject [(''type'', JString ''function_call''), (''call_id'', JString i), (''name'', JString n),
                         (''arguments'', JString a)]))))))"

definition call_items :: "Json \<Rightarrow> OpenAiError + Json list" where
  "call_items message =
     (case json_get ''tool_calls'' message of
        None \<Rightarrow> Inr []
      | Some calls \<Rightarrow> and_then (ok_or InvalidRequest (as_array calls)) (\<lambda>cs. collect_results (map call_item cs)))"

definition message_items :: "Json \<Rightarrow> OpenAiError + Json list" where
  "message_items message =
     and_then (required_str message ''role'') (\<lambda>role.
       if role = ''tool''
       then and_then (required_str message ''tool_call_id'') (\<lambda>i.
            and_then (required_str message ''content'') (\<lambda>c.
            Inr [JObject [(''type'', JString ''function_call_output''), (''call_id'', JString i), (''output'', JString c)]]))
       else if role \<notin> {''system'', ''developer'', ''user'', ''assistant''} then Inl InvalidRequest
       else and_then (content_items role message) (\<lambda>items.
            and_then (call_items message) (\<lambda>calls. Inr (items @ calls))))"

definition convert_tool :: "Json \<Rightarrow> OpenAiError + Json" where
  "convert_tool tool =
     (if str_field ''type'' tool \<noteq> Some ''function'' then Inl InvalidRequest
      else (case json_get ''function'' tool of
          Some f \<Rightarrow> if is_object f then Inr (json_put ''type'' (JString ''function'') f) else Inl InvalidRequest
        | None \<Rightarrow> Inl InvalidRequest))"

definition CHAT_ONLY_FIELDS :: "string list" where
  "CHAT_ONLY_FIELDS =
     [''messages'', ''n'', ''stream_options'', ''reasoning_effort'', ''max_tokens'', ''max_completion_tokens'', ''response_format'']"

definition put_effort :: "Json \<Rightarrow> Json \<Rightarrow> Json" where
  "put_effort body result =
     (case json_get ''reasoning_effort'' body of
        Some effort \<Rightarrow> json_put ''reasoning'' (JObject [(''effort'', effort)]) result
      | None \<Rightarrow> result)"

definition put_limit :: "Json \<Rightarrow> Json \<Rightarrow> Json" where
  "put_limit body result =
     (case or_else (json_get ''max_completion_tokens'' body) (json_get ''max_tokens'' body) of
        Some limit \<Rightarrow> json_put ''max_output_tokens'' limit result
      | None \<Rightarrow> result)"

definition put_tools :: "Json \<Rightarrow> Json \<Rightarrow> OpenAiError + Json" where
  "put_tools body result =
     (case json_get ''tools'' body of
        None \<Rightarrow> Inr result
      | Some tools \<Rightarrow>
          and_then (ok_or InvalidRequest (as_array tools)) (\<lambda>ts.
          and_then (collect_results (map convert_tool ts)) (\<lambda>fs. Inr (json_put ''tools'' (JArray fs) result))))"

definition put_tool_choice :: "Json \<Rightarrow> Json \<Rightarrow> OpenAiError + Json" where
  "put_tool_choice body result =
     (case json_get ''tool_choice'' body of
        None \<Rightarrow> Inr result
      | Some choice \<Rightarrow>
          if \<not> is_object choice then Inr result
          else and_then (ok_or InvalidRequest (Option.bind (value_pointer ''/function/name'' choice) as_str_value)) (\<lambda>name.
               Inr (json_put ''tool_choice'' (JObject [(''type'', JString ''function''), (''name'', JString name)]) result)))"

definition put_format :: "Json \<Rightarrow> Json \<Rightarrow> OpenAiError + Json" where
  "put_format body result =
     (case json_get ''response_format'' body of
        None \<Rightarrow> Inr result
      | Some format \<Rightarrow>
          and_then
            (if str_field ''type'' format = Some ''json_schema''
             then (case json_get ''json_schema'' format of
                     Some schema \<Rightarrow>
                       if is_object schema then Inr (json_put ''type'' (JString ''json_schema'') schema) else Inl InvalidRequest
                   | None \<Rightarrow> Inl InvalidRequest)
             else Inr format) (\<lambda>format.
          Inr (json_put ''text'' (JObject [(''format'', format)]) result)))"

definition chat_to_responses :: "Json \<Rightarrow> OpenAiError + Json" where
  "chat_to_responses body =
     (if is_some_and (json_get ''n'' body) (\<lambda>n. as_u64_value n \<noteq> Some 1) then Inl InvalidRequest
      else and_then (ok_or InvalidRequest (Option.bind (json_get ''messages'' body) as_array)) (\<lambda>messages.
           and_then (collect_results (map message_items messages)) (\<lambda>items.
           (let stripped = fold json_drop CHAT_ONLY_FIELDS body;
                result = json_put ''input'' (JArray (concat items)) stripped
            in and_then (put_tools body (put_limit body (put_effort body result))) (\<lambda>result.
               and_then (put_tool_choice body result) (\<lambda>result.
               put_format body result))))))"

subsection \<open>Preparing the body\<close>

definition input_text_item :: "string \<Rightarrow> Json" where
  "input_text_item t =
     JArray [JObject [(''role'', JString ''user''),
                      (''content'', JArray [JObject [(''type'', JString ''input_text''), (''text'', JString t)]])]]"

definition oauth_defaults :: "Json \<Rightarrow> Json" where
  "oauth_defaults v =
     (let v = (case json_get ''input'' v of Some (JString t) \<Rightarrow> json_put ''input'' (input_text_item t) v | _ \<Rightarrow> v);
          v = json_put ''stream'' (JBool True) (json_put ''store'' (JBool False) v)
      in if json_get ''instructions'' v = None then json_put ''instructions'' (JString []) v else v)"

definition prepare_body :: "Json \<Rightarrow> OpenAiEndpoint \<Rightarrow> OpenAiAuthKind \<Rightarrow> OpenAiError + Json" where
  "prepare_body body endpoint auth =
     (if \<not> is_object body \<or> is_none_or (str_field ''model'' body) (\<lambda>m. m = []) then Inl InvalidRequest
      else and_then (if endpoint = ChatCompletions \<and> auth = AuthOauth then chat_to_responses body else Inr body) (\<lambda>result.
        if \<not> is_object result then Inl InvalidRequest
        else if endpoint = Compact then Inr (json_drop ''store'' (json_drop ''stream'' result))
        else if auth = AuthOauth then Inr (oauth_defaults result)
        else Inr result))"

subsection \<open>Advertised capabilities\<close>

fun contains_image :: "Json \<Rightarrow> bool" where
  "contains_image (JObject members) \<longleftrightarrow>
     is_some_and (str_field ''type'' (JObject members)) (\<lambda>kind. kind = ''input_image'' \<or> kind = ''image_url'') \<or>
     list_ex (\<lambda>p. contains_image (snd p)) members"
| "contains_image (JArray vs) \<longleftrightarrow> list_ex contains_image vs"
| "contains_image _ \<longleftrightarrow> False"

definition validate_capabilities :: "Json \<Rightarrow> Json option \<Rightarrow> OpenAiError + unit" where
  "validate_capabilities body metadata =
     (case metadata of
        None \<Rightarrow> Inr ()
      | Some m \<Rightarrow>
          if (case (Option.bind (json_get ''supported_reasoning_levels'' m) as_array, requested_effort body) of
                (Some efforts, Some effort) \<Rightarrow> \<not> list_ex (\<lambda>v. str_field ''effort'' v = Some effort) efforts
              | _ \<Rightarrow> False)
          then Inl InvalidRequest
          else if is_some_and (Option.bind (json_get ''input_modalities'' m) as_array) (\<lambda>modalities.
                    \<not> list_ex (\<lambda>v. as_str_value v = Some ''image'') modalities \<and> contains_image body)
          then Inl InvalidRequest
          else Inr ())"

subsection \<open>Responses to Chat\<close>

definition output_text :: "Json \<Rightarrow> OpenAiError + string" where
  "output_text part =
     (if str_field ''type'' part = Some ''output_text'' then required_str part ''text'' else Inl InvalidRequest)"

definition chat_call :: "Json \<Rightarrow> OpenAiError + Json" where
  "chat_call item =
     and_then (required_str item ''call_id'') (\<lambda>i.
     and_then (required_str item ''name'') (\<lambda>n.
     and_then (required_str item ''arguments'') (\<lambda>a.
     Inr (JObject [(''id'', JString i), (''type'', JString ''function''),
                   (''function'', JObject [(''name'', JString n), (''arguments'', JString a)])]))))"

fun read_output :: "Json list \<Rightarrow> string \<Rightarrow> Json list \<Rightarrow> OpenAiError + string \<times> Json list" where
  "read_output [] text calls = Inr (text, calls)"
| "read_output (item # items) text calls =
     (case str_field ''type'' item of
        None \<Rightarrow> Inl InvalidRequest
      | Some kind \<Rightarrow>
          if kind = ''message''
          then and_then (ok_or InvalidRequest (Option.bind (json_get ''content'' item) as_array)) (\<lambda>parts.
               and_then (collect_results (map output_text parts)) (\<lambda>texts. read_output items (text @ concat texts) calls))
          else if kind = ''function_call''
          then and_then (chat_call item) (\<lambda>call. read_output items text (calls @ [call]))
          else if kind = ''reasoning'' then read_output items text calls
          else Inl InvalidRequest)"

definition opt_json :: "Json option \<Rightarrow> Json" where
  "opt_json v = unwrap_or v JNull"

definition chat_message :: "string \<Rightarrow> Json list \<Rightarrow> Json" where
  "chat_message text calls =
     (let message = JObject [(''role'', JString ''assistant''), (''content'', if text = [] then JNull else JString text)]
      in if calls = [] then message else json_put ''tool_calls'' (JArray calls) message)"

definition finish_reason :: "Json \<Rightarrow> Json list \<Rightarrow> string" where
  "finish_reason response calls =
     (if str_field ''status'' response = Some ''incomplete'' then ''length'' else if calls = [] then ''stop'' else ''tool_calls'')"

definition chat_usage :: "Json \<Rightarrow> Json" where
  "chat_usage u =
     JObject [(''prompt_tokens'', opt_json (json_get ''input_tokens'' u)),
              (''completion_tokens'', opt_json (json_get ''output_tokens'' u)),
              (''total_tokens'', opt_json (json_get ''total_tokens'' u)),
              (''prompt_tokens_details'', opt_json (json_get ''input_tokens_details'' u)),
              (''completion_tokens_details'', opt_json (json_get ''output_tokens_details'' u))]"

definition chat_document :: "Json \<Rightarrow> string \<Rightarrow> string \<Rightarrow> string \<Rightarrow> Json list \<Rightarrow> Json" where
  "chat_document response i m text calls =
     (let result =
            JObject [(''id'', JString i), (''object'', JString ''chat.completion''),
                     (''created'', unwrap_or (json_get ''created_at'' response) (JU64 0)), (''model'', JString m),
                     (''choices'', JArray [JObject [(''index'', JU64 0), (''message'', chat_message text calls),
                                                  (''finish_reason'', JString (finish_reason response calls))]])]
      in case json_get ''usage'' response of
           Some u \<Rightarrow> if u = JNull then result else json_put ''usage'' (chat_usage u) result
         | None \<Rightarrow> result)"

definition responses_to_chat :: "Json \<Rightarrow> OpenAiError + Json" where
  "responses_to_chat response =
     (if str_field ''status'' response = Some ''failed'' then Inl InvalidRequest
      else and_then (ok_or InvalidRequest (Option.bind (json_get ''output'' response) as_array)) (\<lambda>output.
           and_then (read_output output [] []) (\<lambda>(text, calls).
           and_then (required_str response ''id'') (\<lambda>i.
           and_then (required_str response ''model'') (\<lambda>m.
           Inr (chat_document response i m text calls))))))"

end
