(* ===== verification/Openai_Protocol_Properties.thy ===== *)
theory Openai_Protocol_Properties
  imports Openai_Protocol
begin

text \<open>
  What the conversions keep: the reasoning ceiling for each of the two spellings alone, the frame of a prepared body, and a
  conversation that goes from Responses to Chat and comes back in the history of the next request.
\<close>

subsection \<open>The ceiling\<close>

lemma pointer_reasoning:
  "value_pointer ''/reasoning/effort'' v = Option.bind (json_get ''reasoning'' v) (json_get ''effort'')"
proof -
  have t: "pointer_tokens ''/reasoning/effort'' = Some [''reasoning'', ''effort'']"
    by (simp add: pointer_tokens_def unescape_token_def replace_absent)
  have "pointer_index ''reasoning'' = None" "pointer_index ''effort'' = None"
    by (simp_all add: pointer_index_def parse_unsigned_def is_ascii_digit_def)
  then have "json_child ''reasoning'' w = json_get ''reasoning'' w" "json_child ''effort'' w = json_get ''effort'' w" for w
    by (cases w; simp add: json_child_def)+
  moreover have "Option.bind x (value_walk []) = x" for x by (cases x) simp_all
  ultimately show ?thesis by (cases "json_get ''reasoning'' v") (simp_all add: value_pointer_def t)
qed

definition within_ceiling :: "string list \<Rightarrow> string \<Rightarrow> Json \<Rightarrow> bool" where
  "within_ceiling supported maximum body \<longleftrightarrow>
     is_none_or (requested_effort body) (\<lambda>effort.
       (case (position effort supported, position maximum supported) of
          (Some rank, Some limit) \<Rightarrow> rank \<le> limit
        | _ \<Rightarrow> False))"

text \<open>C28. When a request spells its effort in one way only, what is sent on stays within the ceiling of the group, in the order
  of the supported list.
\<close>

theorem reasoning_ceiling_enforced:
  assumes "apply_reasoning policy supported body = Inr body'" "rp_maximum policy = Some maximum"
    and "json_get ''reasoning'' body = None \<or> json_get ''reasoning_effort'' body = None"
  shows "within_ceiling supported maximum body'"
proof (cases "requested_effort body")
  case None
  with assms(1) show ?thesis by (simp add: apply_reasoning_def within_ceiling_def)
next
  case (Some requested)
  with assms(1,2) obtain rank limit where
    r: "position requested supported = Some rank" "position maximum supported = Some limit"
    and b: "(if limit < rank
             then if \<not> rp_downgrade policy then Inl ReasoningLimit
                  else if json_get ''reasoning_effort'' body \<noteq> None then Inr (json_put ''reasoning_effort'' (JString maximum) body)
                  else Inr (set_reasoning_effort maximum body)
             else Inr body) = Inr body'"
    by (auto simp: apply_reasoning_def and_then_Inr ok_or_Inr Let_def simp del: not_None_eq)
  show ?thesis
  proof (cases "limit < rank")
    case False
    with b r Some show ?thesis by (simp add: within_ceiling_def)
  next
    case True
    have "requested_effort body' = Some maximum"
    proof (cases "json_get ''reasoning_effort'' body")
      case None
      with Some obtain re where e: "json_get ''reasoning'' body = Some re" "json_get ''effort'' re \<noteq> None"
        by (auto simp: requested_effort_def or_else_def pointer_reasoning bind_eq_Some_conv split: option.splits)
      then have "is_object body" "is_object re" by (cases body; cases re; simp add: is_object_def)+
      with True b None e show ?thesis
        by (auto simp: set_reasoning_effort_def requested_effort_def or_else_def pointer_reasoning split: if_splits)
    next
      case (Some old)
      then have "is_object body" by (cases body) (simp_all add: is_object_def)
      with True b Some assms(3) show ?thesis
        by (auto simp: requested_effort_def or_else_def pointer_reasoning split: if_splits)
    qed
    with r show ?thesis by (simp add: within_ceiling_def)
  qed
qed

text \<open>With both spellings the check reads one field and the edit writes the other.\<close>

lemma both_spellings_escape_ceiling:
  "apply_reasoning \<lparr>rp_maximum = Some ''low'', rp_downgrade = True\<rparr> [''low'', ''high'']
     (JObject [(''reasoning'', JObject [(''effort'', JString ''high'')]), (''reasoning_effort'', JString ''low'')]) =
     Inr (JObject [(''reasoning'', JObject [(''effort'', JString ''high'')]), (''reasoning_effort'', JString ''low'')])"
  "apply_reasoning \<lparr>rp_maximum = Some ''low'', rp_downgrade = False\<rparr> [''low'', ''high'']
     (JObject [(''reasoning'', JObject [(''effort'', JString ''low'')]), (''reasoning_effort'', JString ''high'')]) =
     Inr (JObject [(''reasoning'', JObject [(''effort'', JString ''low'')]), (''reasoning_effort'', JString ''high'')])"
  by (simp_all add: apply_reasoning_def requested_effort_def or_else_def pointer_reasoning json_put_def)

subsection \<open>Prepared bodies\<close>

lemma put_keeps:
  assumes "is_object result"
  shows "is_object (put_effort body result)" "is_object (put_limit body result)"
    "put_tools body result = Inr r1 \<Longrightarrow> is_object r1" "put_tool_choice body result = Inr r2 \<Longrightarrow> is_object r2"
    "put_format body result = Inr r3 \<Longrightarrow> is_object r3"
  using assms
  by (auto simp: put_effort_def put_limit_def put_tools_def put_tool_choice_def put_format_def and_then_Inr split: option.splits if_splits)

lemma put_other:
  "k \<noteq> ''reasoning'' \<Longrightarrow> json_get k (put_effort body result) = json_get k result"
  "k \<noteq> ''max_output_tokens'' \<Longrightarrow> json_get k (put_limit body result) = json_get k result"
  "k \<noteq> ''tools'' \<Longrightarrow> put_tools body result = Inr r1 \<Longrightarrow> json_get k r1 = json_get k result"
  "k \<noteq> ''tool_choice'' \<Longrightarrow> put_tool_choice body result = Inr r2 \<Longrightarrow> json_get k r2 = json_get k result"
  "k \<noteq> ''text'' \<Longrightarrow> put_format body result = Inr r3 \<Longrightarrow> json_get k r3 = json_get k result"
  by (auto simp: put_effort_def put_limit_def put_tools_def put_tool_choice_def put_format_def and_then_Inr split: option.splits if_splits)

definition WRITTEN_FIELDS :: "string list" where
  "WRITTEN_FIELDS = [''input'', ''reasoning'', ''max_output_tokens'', ''tools'', ''tool_choice'', ''text'']"

text \<open>Converting a chat request keeps every field it neither consumes nor writes.\<close>

lemma chat_to_responses_keeps:
  assumes "chat_to_responses body = Inr result" "is_object body" "keys_distinct body"
  shows "is_object result"
    "k \<notin> set (CHAT_ONLY_FIELDS @ WRITTEN_FIELDS) \<Longrightarrow> json_get k result = json_get k body"
proof -
  from assms(1) obtain items r1 r2 where
    r: "put_tools body (put_limit body (put_effort body (json_put ''input'' (JArray (concat items)) (fold json_drop CHAT_ONLY_FIELDS body)))) = Inr r1"
      "put_tool_choice body r1 = Inr r2" "put_format body r2 = Inr result"
    by (auto simp: chat_to_responses_def and_then_Inr Let_def split: if_splits)
  let ?start = "json_put ''input'' (JArray (concat items)) (fold json_drop CHAT_ONLY_FIELDS body)"
  have o: "is_object ?start" using assms(2) by simp
  show "is_object result" using put_keeps [OF o] r put_keeps by metis
  assume k: "k \<notin> set (CHAT_ONLY_FIELDS @ WRITTEN_FIELDS)"
  then have n: "k \<noteq> ''input''" "k \<noteq> ''reasoning''" "k \<noteq> ''max_output_tokens''" "k \<noteq> ''tools''" "k \<noteq> ''tool_choice''" "k \<noteq> ''text''"
    by (auto simp: WRITTEN_FIELDS_def)
  have "json_get k result = json_get k ?start"
    using put_other(5) [OF n(6) r(3)] put_other(4) [OF n(5) r(2)] put_other(3) [OF n(4) r(1)] put_other(1) [OF n(2)] put_other(2) [OF n(3)]
    by simp
  then show "json_get k result = json_get k body"
    using n(1) k json_get_fold_drop [OF assms(3), of k CHAT_ONLY_FIELDS] by simp
qed

lemma oauth_defaults_fields:
  assumes "is_object v"
  shows "json_get ''store'' (oauth_defaults v) = Some (JBool False)" "json_get ''stream'' (oauth_defaults v) = Some (JBool True)"
    "json_get ''instructions'' (oauth_defaults v) \<noteq> None"
    "k \<notin> {''store'', ''stream'', ''instructions'', ''input''} \<Longrightarrow> json_get k (oauth_defaults v) = json_get k v"
  using assms by (auto simp: oauth_defaults_def Let_def split: option.splits Json.splits)

text \<open>Whatever the client sent, an account under OAuth is asked for the model of the client in a stream that is not stored, a
  compaction carries neither flag, and a continuation keeps its predecessor.
\<close>

theorem prepared_body_frame:
  assumes "prepare_body body endpoint auth = Inr result" "keys_distinct body"
  shows "str_field ''model'' result = str_field ''model'' body \<and>
    json_get ''previous_response_id'' result = json_get ''previous_response_id'' body \<and>
    (if endpoint = Compact then json_get ''stream'' result = None \<and> json_get ''store'' result = None
     else if auth = AuthOauth
     then json_get ''stream'' result = Some (JBool True) \<and> json_get ''store'' result = Some (JBool False) \<and>
          json_get ''instructions'' result \<noteq> None
     else result = body)"
proof -
  from assms(1) obtain mid where
    m: "is_object body" "(if endpoint = ChatCompletions \<and> auth = AuthOauth then chat_to_responses body else Inr body) = Inr mid"
      "is_object mid"
      "result = (if endpoint = Compact then json_drop ''store'' (json_drop ''stream'' mid)
                 else if auth = AuthOauth then oauth_defaults mid else mid)"
    by (auto simp: prepare_body_def and_then_Inr split: if_splits)
  have keep: "json_get k mid = json_get k body" if "k = ''model'' \<or> k = ''previous_response_id''" for k
  proof (cases "endpoint = ChatCompletions \<and> auth = AuthOauth")
    case True
    then have "chat_to_responses body = Inr mid" using m(2) by simp
    from chat_to_responses_keeps(2) [OF this m(1) assms(2), of k] that show ?thesis
      by (auto simp: CHAT_ONLY_FIELDS_def WRITTEN_FIELDS_def)
  next
    case False
    with m(2) show ?thesis by (auto split: if_splits)
  qed
  show ?thesis
  proof (cases "endpoint = Compact")
    case True
    then have "mid = body" using m(2) by simp
    then show ?thesis
      using True m(4) assms(2) keys_distinct_drop [OF assms(2), of "''stream''"]
      by (simp add: str_field_def json_get_drop)
  next
    case False
    then show ?thesis
      using m oauth_defaults_fields [OF m(3)] keep by (auto simp: str_field_def split: if_splits)
  qed
qed

subsection \<open>Conversations\<close>

definition field_text :: "string \<Rightarrow> Json \<Rightarrow> string" where
  "field_text k v = unwrap_or (str_field k v) []"

definition replayed_call :: "Json \<Rightarrow> Json" where
  "replayed_call item =
     JObject [(''type'', JString ''function_call''), (''call_id'', JString (field_text ''call_id'' item)),
              (''name'', JString (field_text ''name'' item)), (''arguments'', JString (field_text ''arguments'' item))]"

definition response_calls :: "Json list \<Rightarrow> Json list" where
  "response_calls output = map replayed_call (filter (\<lambda>i. str_field ''type'' i = Some ''function_call'') output)"

definition item_text :: "Json \<Rightarrow> string" where
  "item_text item =
     (if str_field ''type'' item = Some ''message''
      then concat (map (field_text ''text'') (unwrap_or (Option.bind (json_get ''content'' item) as_array) [])) else [])"

definition history_items :: "Json list \<Rightarrow> Json list" where
  "history_items output =
     (let text = concat (map item_text output)
      in (if text = [] then []
          else [JObject [(''role'', JString ''assistant''),
                         (''content'', JArray [JObject [(''type'', JString ''output_text''), (''text'', JString text)]])]]) @
         response_calls output)"

lemma required_str_Inr: "required_str v k = Inr s \<longleftrightarrow> str_field k v = Some s"
  by (simp add: required_str_def ok_or_Inr)

lemma output_texts: "collect_results (map output_text parts) = Inr texts \<Longrightarrow> texts = map (field_text ''text'') parts"
  by (induction parts arbitrary: texts)
    (auto simp: and_then_Inr output_text_def required_str_Inr field_text_def split: if_splits)

lemma str_field_JObject [simp]: "str_field k (JObject m) = Option.bind (map_of m k) as_str_value"
  by (simp add: str_field_def)

lemma call_item_chat_call:
  assumes "chat_call item = Inr call"
  shows "call_item call = Inr (replayed_call item)"
proof -
  from assms obtain i n a where "str_field ''call_id'' item = Some i" "str_field ''name'' item = Some n"
    "str_field ''arguments'' item = Some a"
    "call = JObject [(''id'', JString i), (''type'', JString ''function''),
                   (''function'', JObject [(''name'', JString n), (''arguments'', JString a)])]"
    by (auto simp: chat_call_def and_then_Inr required_str_Inr)
  then show ?thesis by (simp add: call_item_def required_str_def replayed_call_def field_text_def)
qed

lemma read_output_spec:
  assumes "read_output outs said calls = Inr (said', calls')"
  shows "said' = said @ concat (map item_text outs) \<and>
    (\<exists>new. calls' = calls @ new \<and> map call_item new = map Inr (response_calls outs))"
  using assms
proof (induction outs arbitrary: said calls)
  case Nil
  then show ?case by (simp add: response_calls_def)
next
  case (Cons item outs)
  then obtain kind where k: "str_field ''type'' item = Some kind" by (cases "str_field ''type'' item") auto
  consider "kind = ''message''" | "kind = ''function_call''" | "kind = ''reasoning''"
    using Cons.prems k by (auto split: if_splits)
  then show ?case
  proof cases
    case 1
    with Cons.prems k obtain parts texts where
      p: "Option.bind (json_get ''content'' item) as_array = Some parts" "collect_results (map output_text parts) = Inr texts"
        "read_output outs (said @ concat texts) calls = Inr (said', calls')"
      by (auto simp: and_then_Inr ok_or_Inr)
    from Cons.IH [OF p(3)] output_texts [OF p(2)] p(1) k 1 show ?thesis
      by (simp add: item_text_def response_calls_def)
  next
    case 2
    with Cons.prems k obtain call where
      p: "chat_call item = Inr call" "read_output outs said (calls @ [call]) = Inr (said', calls')"
      by (auto simp: and_then_Inr)
    from Cons.IH [OF p(2)] call_item_chat_call [OF p(1)] k 2 show ?thesis
      by (auto simp: item_text_def response_calls_def)
  next
    case 3
    with Cons.prems k Cons.IH [of said calls] show ?thesis by (simp add: item_text_def response_calls_def)
  qed
qed

lemma chat_message_items:
  assumes "map call_item calls = map Inr items"
  shows "message_items (chat_message text calls) =
    Inr ((if text = [] then []
          else [JObject [(''role'', JString ''assistant''),
                         (''content'', JArray [JObject [(''type'', JString ''output_text''), (''text'', JString text)]])]]) @ items)"
proof -
  have "collect_results (map call_item calls) = Inr items" using assms by (simp add: collect_results_Inr)
  moreover have "calls = [] \<longleftrightarrow> items = []" using assms by (metis Nil_is_map_conv)
  ultimately show ?thesis
    by (simp add: message_items_def chat_message_def Let_def required_str_def str_field_def content_items_def call_items_def
        content_parts_def text_type_def json_put_def)
qed

text \<open>C29. The assistant message of a converted response, sent back in the history of the next chat request, becomes exactly what
  the response said: its text in one piece, and its function calls in order with their identifiers and arguments.
\<close>

theorem conversation_roundtrip:
  assumes "responses_to_chat response = Inr chat"
  shows "\<exists>output choice message.
    json_get ''output'' response = Some (JArray output) \<and> json_get ''choices'' chat = Some (JArray [choice]) \<and>
    json_get ''message'' choice = Some message \<and> message_items message = Inr (history_items output)"
proof -
  have arr: "as_array v = Some xs \<longleftrightarrow> v = JArray xs" for v xs by (cases v) auto
  from assms obtain outs said calls i m where
    r: "json_get ''output'' response = Some (JArray outs)" "read_output outs [] [] = Inr (said, calls)"
    and c: "chat = chat_document response i m said calls"
    by (auto simp: responses_to_chat_def and_then_Inr ok_or_Inr bind_eq_Some_conv arr split: if_splits)
  let ?choice = "JObject [(''index'', JU64 0), (''message'', chat_message said calls),
      (''finish_reason'', JString (finish_reason response calls))]"
  have "json_get ''choices'' chat = Some (JArray [?choice])"
    unfolding c by (simp add: chat_document_def Let_def is_object_def split: option.splits)
  moreover have "message_items (chat_message said calls) = Inr (history_items outs)"
    using read_output_spec [OF r(2)] chat_message_items [of calls _ said] by (auto simp: history_items_def Let_def)
  moreover have "json_get ''message'' ?choice = Some (chat_message said calls)" by simp
  ultimately show ?thesis using r(1) by blast
qed

end
