(* ===== verification/Openai_Relay.thy ===== *)
theory Openai_Relay
  imports Openai_Protocol_Properties
begin

text \<open>
  The relay of \<^verbatim>\<open>super-gatewayd/production_dispatcher/openai.rs\<close>: \<^verbatim>\<open>ChatStream\<close>, which turns the events of a Responses
  stream into chunks of a Chat completion, and the task that reads the upstream body, observes it, binds continuations
  and sends the chunks to the client. The channel to the client, the binding of a continuation and the codec of
  \<^verbatim>\<open>serde_json\<close> are arguments; a cancellation is an item of the upstream.
\<close>

subsection \<open>Chunks of a chat completion\<close>

record ChatStream =
  cs_include_usage :: bool
  cs_id :: string
  cs_model :: string
  cs_calls :: nat
  cs_call_indices :: "(string, nat) btree"
  cs_terminal :: bool

definition ChatStream_default :: ChatStream where
  "ChatStream_default =
     \<lparr>cs_include_usage = False, cs_id = [], cs_model = [], cs_calls = 0, cs_call_indices = [], cs_terminal = False\<rparr>"

datatype ChatFrame =
    FrameDelta string string Json Json
  | FrameUsage string string Json
  | FrameError Json
  | FrameDone

definition chunk_head :: "string \<Rightarrow> string \<Rightarrow> (string \<times> Json) list" where
  "chunk_head i m =
     [(''id'', JString i), (''object'', JString ''chat.completion.chunk''), (''created'', JU64 0), (''model'', JString m)]"

fun frame_json :: "ChatFrame \<Rightarrow> Json option" where
  "frame_json (FrameDelta i m delta finish) =
     Some (JObject (chunk_head i m @
       [(''choices'', JArray [JObject [(''index'', JU64 0), (''delta'', delta), (''finish_reason'', finish)]])]))"
| "frame_json (FrameUsage i m u) = Some (JObject (chunk_head i m @ [(''choices'', JArray []), (''usage'', u)]))"
| "frame_json (FrameError e) = Some (JObject [(''error'', e)])"
| "frame_json FrameDone = None"

definition frame_bytes :: "(Json \<Rightarrow> string) \<Rightarrow> ChatFrame \<Rightarrow> string" where
  "frame_bytes show_json f = sse_frame (case frame_json f of Some j \<Rightarrow> show_json j | None \<Rightarrow> ''[DONE]'')"

text \<open>Indexing a value that has no such member gives null.\<close>

definition json_index :: "string \<Rightarrow> Json \<Rightarrow> Json" where
  "json_index k v = opt_json (json_get k v)"

definition note_response :: "Json \<Rightarrow> ChatStream \<Rightarrow> ChatStream" where
  "note_response event s =
     (case json_get ''response'' event of
        Some response \<Rightarrow>
          s\<lparr>cs_id := unwrap_or (str_field ''id'' response) (cs_id s), cs_model := unwrap_or (str_field ''model'' response) (cs_model s)\<rparr>
      | None \<Rightarrow> s)"

definition add_call :: "Json \<Rightarrow> ChatStream \<Rightarrow> ChatStream" where
  "add_call event s =
     (let s' = s\<lparr>cs_calls := cs_calls s + 1\<rparr> in
      case Option.bind (value_pointer ''/item/id'' event) as_str_value of
        Some i \<Rightarrow> s'\<lparr>cs_call_indices := bt_insert i (cs_calls s) (cs_call_indices s')\<rparr>
      | None \<Rightarrow> s')"

definition added_delta :: "Json \<Rightarrow> nat \<Rightarrow> Json" where
  "added_delta event index =
     JObject [(''tool_calls'', JArray [JObject [(''index'', JU64 (of_nat index)), (''id'', json_index ''call_id'' (json_index ''item'' event)),
        (''type'', JString ''function''),
        (''function'', JObject [(''name'', json_index ''name'' (json_index ''item'' event)), (''arguments'', JString [])])]])]"

definition call_index :: "Json \<Rightarrow> ChatStream \<Rightarrow> nat" where
  "call_index event s =
     (case Option.bind (str_field ''item_id'' event) (bt_get (cs_call_indices s)) of
        Some i \<Rightarrow> i
      | None \<Rightarrow> (case Option.bind (json_get ''output_index'' event) as_u64_value of Some n \<Rightarrow> unat n | None \<Rightarrow> 0))"

definition arguments_delta :: "Json \<Rightarrow> nat \<Rightarrow> Json" where
  "arguments_delta event index =
     JObject [(''tool_calls'', JArray [JObject [(''index'', JU64 (of_nat index)),
        (''function'', JObject [(''arguments'', json_index ''delta'' event)])]])]"

definition upstream_error :: "Json \<Rightarrow> Json" where
  "upstream_error event =
     unwrap_or (value_pointer ''/response/error'' event)
       (JObject [(''code'', JString ''upstream_failed''), (''message'', JString ''Upstream response failed.'')])"

datatype ChatStep = StepIgnored | StepFailed | StepChunk Json Json

text \<open>What an event means for the client, and the state with its call counted.\<close>

definition chat_step :: "Json \<Rightarrow> ChatStream \<Rightarrow> ChatStream \<times> ChatStep" where
  "chat_step event s =
     (let kind = unwrap_or (str_field ''type'' event) [] in
      if kind = ''response.created'' then (s, StepChunk (JObject [(''role'', JString ''assistant''), (''content'', JString [])]) JNull)
      else if kind = ''response.output_text.delta'' then (s, StepChunk (JObject [(''content'', json_index ''delta'' event)]) JNull)
      else if kind = ''response.output_item.added'' \<and>
              Option.bind (value_pointer ''/item/type'' event) as_str_value = Some ''function_call''
      then (add_call event s, StepChunk (added_delta event (cs_calls s)) JNull)
      else if kind = ''response.function_call_arguments.delta''
      then (s, StepChunk (arguments_delta event (call_index event s)) JNull)
      else if kind = ''response.completed''
      then (s, StepChunk (JObject []) (JString (if 0 < cs_calls s then ''tool_calls'' else ''stop'')))
      else if kind = ''response.incomplete'' then (s, StepChunk (JObject []) (JString ''length''))
      else if kind = ''response.failed'' then (s, StepFailed)
      else (s, StepIgnored))"

definition usage_frames :: "Json \<Rightarrow> ChatStream \<Rightarrow> ChatFrame list" where
  "usage_frames event s =
     (if \<not> cs_include_usage s then []
      else case json_get ''response'' event of
          None \<Rightarrow> []
        | Some response \<Rightarrow>
            (case responses_to_chat response of
               Inl _ \<Rightarrow> []
             | Inr document \<Rightarrow>
                 (case json_get ''usage'' document of Some u \<Rightarrow> [FrameUsage (cs_id s) (cs_model s) u] | None \<Rightarrow> [])))"

definition chat_event :: "Json \<Rightarrow> ChatStream \<Rightarrow> ChatStream \<times> ChatFrame list" where
  "chat_event event s =
     (if cs_terminal s then (s, [])
      else case chat_step event (note_response event s) of
          (s', StepIgnored) \<Rightarrow> (s', [])
        | (s', StepFailed) \<Rightarrow> (s'\<lparr>cs_terminal := True\<rparr>, [FrameError (upstream_error event)])
        | (s', StepChunk delta finish) \<Rightarrow>
            (let first = FrameDelta (cs_id s') (cs_model s') delta finish in
             if finish = JNull then (s', [first])
             else (s'\<lparr>cs_terminal := True\<rparr>, first # usage_frames event s' @ [FrameDone])))"

subsection \<open>The relay\<close>

datatype UpstreamItem = UpstreamChunk string | UpstreamBroken | UpstreamCancelled

record RelayPorts =
  rx_from_str :: "string \<Rightarrow> Json option"
  rx_from_slice :: "string \<Rightarrow> Json option"
  rx_to_vec :: "Json \<Rightarrow> string option"
  rx_show_json :: "Json \<Rightarrow> string"
  rx_send :: "nat \<Rightarrow> bool"
  rx_bind :: "string \<Rightarrow> bool"
  rx_now :: duration

record RelayMode =
  rm_endpoint :: OpenAiEndpoint
  rm_auth :: OpenAiAuthKind
  rm_upstream_sse :: bool
  rm_stream_requested :: bool
  rm_status :: nat

definition rm_converted :: "RelayMode \<Rightarrow> bool" where
  "rm_converted m \<longleftrightarrow> rm_auth m = AuthOauth \<and> rm_endpoint m = ChatCompletions"

definition rm_stream :: "RelayMode \<Rightarrow> bool" where
  "rm_stream m \<longleftrightarrow> rm_stream_requested m \<and> rm_status m < 400"

record RelayState =
  rs_observer :: ResponseObserver
  rs_decoder :: SseDecoder
  rs_buffered :: string
  rs_final_response :: "Json option"
  rs_count :: u64
  rs_good :: bool
  rs_chat :: ChatStream
  rs_bound :: "string option"
  rs_sends :: nat
  rs_sent :: "string list"

definition relay_start :: "bool \<Rightarrow> RelayState" where
  "relay_start include_usage =
     \<lparr>rs_observer = ResponseObserver_default, rs_decoder = sse_decoder_new (4 * 1024 * 1024), rs_buffered = [],
      rs_final_response = None, rs_count = 0, rs_good = True,
      rs_chat = ChatStream_default\<lparr>cs_include_usage := include_usage\<rparr>, rs_bound = None, rs_sends = 0, rs_sent = []\<rparr>"

text \<open>\<^verbatim>\<open>send_chunk\<close>: one more use of the channel, and whether the client took the bytes.\<close>

definition send_chunk :: "RelayPorts \<Rightarrow> string \<Rightarrow> RelayState \<Rightarrow> RelayState \<times> bool" where
  "send_chunk P bytes st =
     (if rx_send P (rs_sends st) then (st\<lparr>rs_sends := rs_sends st + 1, rs_sent := rs_sent st @ [bytes]\<rparr>, True)
      else (st\<lparr>rs_sends := rs_sends st + 1\<rparr>, False))"

fun send_frames :: "RelayPorts \<Rightarrow> ChatFrame list \<Rightarrow> RelayState \<Rightarrow> RelayState" where
  "send_frames P [] st = st"
| "send_frames P (f # fs) st =
     (case send_chunk P (frame_bytes (rx_show_json P) f) st of
        (st', True) \<Rightarrow> send_frames P fs st'
      | (st', False) \<Rightarrow> st'\<lparr>rs_good := False\<rparr>)"

definition is_terminal_event :: "Json \<Rightarrow> bool" where
  "is_terminal_event event \<longleftrightarrow> is_some_and (str_field ''type'' event) (\<lambda>t. t \<in> set TERMINAL_EVENTS)"

text \<open>The rest of an event once its continuation is bound.\<close>

definition relay_event_rest :: "RelayPorts \<Rightarrow> RelayMode \<Rightarrow> bool \<Rightarrow> Json \<Rightarrow> RelayState \<Rightarrow> RelayState" where
  "relay_event_rest P m already_terminal event st =
     (let st = (if \<not> already_terminal \<and> is_terminal_event event
                then st\<lparr>rs_final_response := json_get ''response'' event\<rparr> else st)
      in if rm_converted m \<and> rm_stream m \<and> \<not> already_terminal
         then (let (chat, frames) = chat_event event (rs_chat st) in send_frames P frames (st\<lparr>rs_chat := chat\<rparr>))
         else st)"

definition observed :: "RelayPorts \<Rightarrow> Json \<Rightarrow> RelayState \<Rightarrow> RelayState" where
  "observed P event st =
     (case observe (rx_now P) event (rs_observer st) of
        (observer, answer) \<Rightarrow> st\<lparr>rs_observer := observer, rs_good := rs_good st \<and> \<not> isl answer\<rparr>)"

text \<open>The continuation that has to be bound before the event goes on.\<close>

definition unbound_response :: "RelayMode \<Rightarrow> RelayState \<Rightarrow> string option" where
  "unbound_response m st =
     (case ro_response_id (rs_observer st) of
        Some i \<Rightarrow> if rm_endpoint m \<noteq> ChatCompletions \<and> rs_bound st \<noteq> Some i then Some i else None
      | None \<Rightarrow> None)"

fun relay_events :: "RelayPorts \<Rightarrow> RelayMode \<Rightarrow> Json list \<Rightarrow> RelayState \<Rightarrow> RelayState" where
  "relay_events P m [] st = st"
| "relay_events P m (event # events) st =
     (let already_terminal = ro_terminal (rs_observer st) \<noteq> None;
          st = observed P event st
      in case unbound_response m st of
           None \<Rightarrow> relay_events P m events (relay_event_rest P m already_terminal event st)
         | Some i \<Rightarrow>
             if rx_bind P i
             then relay_events P m events (relay_event_rest P m already_terminal event (st\<lparr>rs_bound := Some i\<rparr>))
             else st\<lparr>rs_good := False\<rparr>)"

definition BUFFER_LIMIT :: nat where
  "BUFFER_LIMIT = 64 * 1024 * 1024"

text \<open>A chunk decoded or buffered; the flag tells a chunk that overflows the buffer, where the loop ends at once.\<close>

definition relay_read :: "RelayPorts \<Rightarrow> RelayMode \<Rightarrow> string \<Rightarrow> RelayState \<Rightarrow> RelayState \<times> bool" where
  "relay_read P m chunk st0 =
     (let st = st0\<lparr>rs_count := saturating_add (rs_count st0) (of_nat (length chunk))\<rparr> in
      if rm_upstream_sse m
      then (case decoder_push (rx_from_str P) chunk (rs_decoder st) of
              (d, Inr events) \<Rightarrow> (relay_events P m events (st\<lparr>rs_decoder := d\<rparr>), True)
            | (d, Inl _) \<Rightarrow> (st\<lparr>rs_decoder := d, rs_good := False\<rparr>, True))
      else if BUFFER_LIMIT < length (rs_buffered st) + length chunk then (st\<lparr>rs_good := False\<rparr>, False)
      else (st\<lparr>rs_buffered := rs_buffered st @ chunk\<rparr>, True))"

definition relay_ended :: "RelayMode \<Rightarrow> RelayState \<Rightarrow> bool" where
  "relay_ended m st \<longleftrightarrow>
     ro_terminal (rs_observer st) \<noteq> None \<or> (rm_endpoint m = ChatCompletions \<and> sd_done (rs_decoder st))"

fun relay_loop :: "RelayPorts \<Rightarrow> RelayMode \<Rightarrow> UpstreamItem list \<Rightarrow> RelayState \<Rightarrow> RelayState" where
  "relay_loop P m [] st = st"
| "relay_loop P m (UpstreamCancelled # _) st = st\<lparr>rs_good := False\<rparr>"
| "relay_loop P m (UpstreamBroken # _) st = st\<lparr>rs_good := False\<rparr>"
| "relay_loop P m (UpstreamChunk chunk # items) st =
     (let (st, kept) = relay_read P m chunk st in
      if \<not> kept \<or> \<not> rs_good st then st
      else if rm_stream m \<and> \<not> rm_converted m
      then (case send_chunk P chunk st of
              (st, True) \<Rightarrow> if relay_ended m st then st else relay_loop P m items st
            | (st, False) \<Rightarrow> st\<lparr>rs_good := False\<rparr>)
      else if relay_ended m st then st
      else relay_loop P m items st)"

definition set_terminal :: "string \<Rightarrow> RelayState \<Rightarrow> RelayState" where
  "set_terminal t st = st\<lparr>rs_observer := (rs_observer st)\<lparr>ro_terminal := Some t\<rparr>\<rparr>"

text \<open>How the end of the body is judged.\<close>

definition mark_done :: "RelayMode \<Rightarrow> RelayState \<Rightarrow> RelayState" where
  "mark_done m st =
     (if rm_upstream_sse m \<and> \<not> rm_converted m \<and> rm_endpoint m = ChatCompletions \<and> sd_done (rs_decoder st)
      then set_terminal ''chat.done'' st else st)"

definition observe_document :: "RelayPorts \<Rightarrow> RelayMode \<Rightarrow> RelayState \<Rightarrow> RelayState" where
  "observe_document P m st =
     (if rm_upstream_sse m then st
      else case rx_from_slice P (rs_buffered st) of
          None \<Rightarrow> st
        | Some document \<Rightarrow>
            (let st = observed P document st in if rs_good st then set_terminal ''json.complete'' st else st))"

definition judge_end :: "RelayPorts \<Rightarrow> RelayMode \<Rightarrow> RelayState \<Rightarrow> RelayState" where
  "judge_end P m st =
     (let st = observe_document P m (mark_done m st) in
      if rm_upstream_sse m \<and> (\<not> rs_good st \<or> has_partial_event (rs_decoder st) \<or> ro_terminal (rs_observer st) = None)
      then st\<lparr>rs_good := False\<rparr> else st)"

definition bind_at_end :: "RelayPorts \<Rightarrow> RelayMode \<Rightarrow> RelayState \<Rightarrow> RelayState" where
  "bind_at_end P m st =
     (case ro_response_id (rs_observer st) of
        Some i \<Rightarrow>
          if rs_good st \<and> rm_status m < 400 \<and> rm_endpoint m \<noteq> ChatCompletions then st\<lparr>rs_good := rx_bind P i\<rparr> else st
      | None \<Rightarrow> st)"

definition final_payload :: "RelayPorts \<Rightarrow> RelayMode \<Rightarrow> RelayState \<Rightarrow> string option" where
  "final_payload P m st =
     (if rm_upstream_sse m \<and> rm_status m < 400
      then Option.bind (rs_final_response st) (\<lambda>r.
           Option.bind (if rm_converted m then (case responses_to_chat r of Inr c \<Rightarrow> Some c | Inl _ \<Rightarrow> None) else Some r)
             (rx_to_vec P))
      else Some (rs_buffered st))"

definition send_payload :: "RelayPorts \<Rightarrow> RelayMode \<Rightarrow> RelayState \<Rightarrow> RelayState" where
  "send_payload P m st =
     (if rm_stream m then st
      else case final_payload P m st of
          None \<Rightarrow> st\<lparr>rs_good := False\<rparr>
        | Some bytes \<Rightarrow> (case send_chunk P bytes st of (st, True) \<Rightarrow> st | (st, False) \<Rightarrow> st\<lparr>rs_good := False\<rparr>))"

definition relay_finish :: "RelayPorts \<Rightarrow> RelayMode \<Rightarrow> RelayState \<Rightarrow> RelayState" where
  "relay_finish P m st = send_payload P m (bind_at_end P m (judge_end P m st))"

definition relay :: "RelayPorts \<Rightarrow> RelayMode \<Rightarrow> bool \<Rightarrow> UpstreamItem list \<Rightarrow> RelayState" where
  "relay P m include_usage items = relay_finish P m (relay_loop P m items (relay_start include_usage))"

text \<open>What is written to the request record; \<open>persisted\<close> is whether the usage could be stored.\<close>

definition relay_outcome :: "RelayMode \<Rightarrow> bool \<Rightarrow> RelayState \<Rightarrow> string" where
  "relay_outcome m persisted st =
     (if \<not> (rs_good st \<and> persisted) then ''incomplete_stream''
      else if 400 \<le> rm_status m then ''upstream_http_error''
      else unwrap_or (ro_terminal (rs_observer st)) ''missing_terminal'')"

end
