(* ===== verification/Openai_Relay_Properties.thy ===== *)
theory Openai_Relay_Properties
  imports Openai_Relay
begin

text \<open>
  The client of a converted stream gets a well-formed chat stream with the whole text; a relayed stream is forwarded byte
  for byte and observed as sent; and a response counts as complete only when its end was seen.
\<close>

subsection \<open>The chat stream\<close>

fun chat_run :: "Json list \<Rightarrow> ChatStream \<Rightarrow> ChatStream \<times> ChatFrame list" where
  "chat_run [] s = (s, [])"
| "chat_run (event # events) s =
     (let (s1, fs) = chat_event event s; (s2, gs) = chat_run events s1 in (s2, fs @ gs))"

fun open_delta :: "ChatFrame \<Rightarrow> bool" where
  "open_delta (FrameDelta i m delta finish) \<longleftrightarrow> finish = JNull"
| "open_delta _ \<longleftrightarrow> False"

text \<open>A stream ends with an error, or with a finish reason, the usage if there is one, and the end marker.\<close>

fun chat_ending :: "ChatFrame list \<Rightarrow> bool" where
  "chat_ending [FrameError e] \<longleftrightarrow> True"
| "chat_ending [FrameDelta i m delta finish, FrameDone] \<longleftrightarrow> finish \<noteq> JNull"
| "chat_ending [FrameDelta i m delta finish, FrameUsage i' m' u, FrameDone] \<longleftrightarrow> finish \<noteq> JNull"
| "chat_ending _ \<longleftrightarrow> False"

fun frame_text :: "ChatFrame \<Rightarrow> string" where
  "frame_text (FrameDelta i m delta finish) = unwrap_or (str_field ''content'' delta) []"
| "frame_text _ = []"

definition event_text :: "Json \<Rightarrow> string" where
  "event_text event =
     (if str_field ''type'' event = Some ''response.output_text.delta'' then unwrap_or (str_field ''delta'' event) [] else [])"

definition events_text :: "Json list \<Rightarrow> string" where
  "events_text events = concat (map event_text (takeWhile (\<lambda>e. \<not> is_terminal_event e) events))"

lemma as_str_opt_json: "as_str_value (opt_json v) = Option.bind v as_str_value"
  by (cases v) (simp_all add: opt_json_def)

lemma usage_frames_cases: "usage_frames event s = [] \<or> (\<exists>i m u. usage_frames event s = [FrameUsage i m u])"
  by (auto simp: usage_frames_def split: option.splits sum.splits)

lemma add_call_keeps [simp]: "cs_terminal (add_call event s) = cs_terminal s"
  by (simp add: add_call_def Let_def split: option.splits)

lemma note_response_keeps [simp]:
  "cs_terminal (note_response event s) = cs_terminal s" "cs_calls (note_response event s) = cs_calls s"
  "cs_call_indices (note_response event s) = cs_call_indices s"
  by (simp_all add: note_response_def split: option.splits)

lemma chat_step_cases:
  assumes "chat_step event s = (s', step)"
  shows "cs_terminal s' = cs_terminal s" "step = StepFailed \<Longrightarrow> is_terminal_event event"
    "step = StepIgnored \<Longrightarrow> \<not> is_terminal_event event \<and> event_text event = []"
    "step = StepChunk delta finish \<Longrightarrow>
      (finish \<noteq> JNull \<longleftrightarrow> is_terminal_event event) \<and> unwrap_or (str_field ''content'' delta) [] = event_text event"
  using assms
  by (auto simp: chat_step_def Let_def is_terminal_event_def TERMINAL_EVENTS_def event_text_def added_delta_def
      arguments_delta_def json_index_def as_str_opt_json str_field_def split: if_splits option.splits)

lemma chat_event_cases:
  assumes "chat_event event s = (s', fs)" "\<not> cs_terminal s"
  shows "if is_terminal_event event then cs_terminal s' \<and> chat_ending fs \<and> concat (map frame_text fs) = []
    else \<not> cs_terminal s' \<and> list_all open_delta fs \<and> concat (map frame_text fs) = event_text event"
proof -
  obtain s1 step where st: "chat_step event (note_response event s) = (s1, step)" by fastforce
  note c = chat_step_cases [OF st]
  have t: "\<not> cs_terminal s1" using c(1) assms(2) by simp
  show ?thesis
  proof (cases step)
    case StepIgnored
    with assms st t c(3) show ?thesis by (auto simp: chat_event_def)
  next
    case StepFailed
    with assms st t c(2) show ?thesis by (auto simp: chat_event_def)
  next
    case (StepChunk delta finish)
    note k = c(4) [OF StepChunk]
    show ?thesis
    proof (cases "finish = JNull")
      case True
      with assms st t k StepChunk show ?thesis by (auto simp: chat_event_def)
    next
      case False
      then have e: "is_terminal_event event" "event_text event = []"
        using k by (auto simp: is_terminal_event_def TERMINAL_EVENTS_def event_text_def)
      have "fs = FrameDelta (cs_id s1) (cs_model s1) delta finish # usage_frames event s1 @ [FrameDone]" "cs_terminal s'"
        using assms st StepChunk False by (auto simp: chat_event_def)
      with usage_frames_cases [of event s1] e k False show ?thesis by auto
    qed
  qed
qed

lemma chat_run_ended: "cs_terminal s \<Longrightarrow> chat_run events s = (s, [])"
  by (induction events) (simp_all add: chat_event_def)

text \<open>C30. Whatever the events, the client sees only open chunks until the stream ends, then one ending and nothing after it, and
  the chunks carry the whole text that arrived before the end.
\<close>

theorem chat_stream_wellformed:
  "case chat_run events (ChatStream_default\<lparr>cs_include_usage := b\<rparr>) of (s, frames) \<Rightarrow>
     concat (map frame_text frames) = events_text events \<and>
     (if list_ex is_terminal_event events
      then cs_terminal s \<and> (\<exists>deltas ending. frames = deltas @ ending \<and> list_all open_delta deltas \<and> chat_ending ending)
      else \<not> cs_terminal s \<and> list_all open_delta frames)"
proof -
  have "case chat_run events s0 of (s, frames) \<Rightarrow>
     concat (map frame_text frames) = events_text events \<and>
     (if list_ex is_terminal_event events
      then cs_terminal s \<and> (\<exists>deltas ending. frames = deltas @ ending \<and> list_all open_delta deltas \<and> chat_ending ending)
      else \<not> cs_terminal s \<and> list_all open_delta frames)"
    if "\<not> cs_terminal s0" for s0
    using that
  proof (induction events arbitrary: s0)
    case (Cons event events)
    obtain s1 fs where e: "chat_event event s0 = (s1, fs)" by fastforce
    obtain s2 gs where r: "chat_run events s1 = (s2, gs)" by fastforce
    note c = chat_event_cases [OF e Cons.prems]
    show ?case
    proof (cases "is_terminal_event event")
      case True
      with c chat_run_ended [of s1 events] have "chat_run (event # events) s0 = (s1, fs)" by (simp add: e)
      moreover have "\<exists>deltas ending. fs = deltas @ ending \<and> list_all open_delta deltas \<and> chat_ending ending"
        using True c by - (rule exI [of _ "[]"], rule exI [of _ fs], simp)
      ultimately show ?thesis using True c by (simp add: events_text_def)
    next
      case False
      then have s1: "\<not> cs_terminal s1" "list_all open_delta fs" "concat (map frame_text fs) = event_text event"
        using c by simp_all
      note ih = Cons.IH [OF s1(1), unfolded r prod.case]
      have ends: "\<exists>deltas ending. fs @ gs = deltas @ ending \<and> list_all open_delta deltas \<and> chat_ending ending"
        if "gs = d @ x" "list_all open_delta d" "chat_ending x" for d x
        using that s1(2) by - (rule exI [of _ "fs @ d"], rule exI [of _ x], simp)
      have "chat_run (event # events) s0 = (s2, fs @ gs)" by (simp add: e r)
      then show ?thesis using ih s1 False ends by (auto simp: events_text_def split: if_splits)
    qed
  qed (simp add: events_text_def)
  then show ?thesis by (simp add: ChatStream_default_def)
qed

text \<open>Two calls of one response never share an index.\<close>

definition calls_inv :: "ChatStream \<Rightarrow> bool" where
  "calls_inv s \<longleftrightarrow>
     (\<forall>i n. bt_get (cs_call_indices s) i = Some n \<longrightarrow> n < cs_calls s) \<and>
     (\<forall>i j n. bt_get (cs_call_indices s) i = Some n \<longrightarrow> bt_get (cs_call_indices s) j = Some n \<longrightarrow> i = j)"

lemma add_call_inv:
  assumes "calls_inv s"
  shows "calls_inv (add_call event s)"
proof (cases "Option.bind (value_pointer ''/item/id'' event) as_str_value")
  case None
  with assms show ?thesis by (auto simp: calls_inv_def add_call_def Let_def less_SucI)
next
  case (Some a)
  have lt: "n < cs_calls s" if "bt_get (cs_call_indices s) i = Some n" for i n
    using assms that by (auto simp: calls_inv_def)
  have inj: "i = j" if "bt_get (cs_call_indices s) i = Some n" "bt_get (cs_call_indices s) j = Some n" for i j n
    using assms that by (auto simp: calls_inv_def)
  have "n < Suc (cs_calls s)" if "((map_of (cs_call_indices s))(a \<mapsto> cs_calls s)) i = Some n" for i n
    using that lt [of i n] by (auto split: if_splits)
  moreover have "i = j"
    if "((map_of (cs_call_indices s))(a \<mapsto> cs_calls s)) i = Some n" "((map_of (cs_call_indices s))(a \<mapsto> cs_calls s)) j = Some n"
    for i j n
    using that lt [of i n] lt [of j n] inj [of i n j] by (auto split: if_splits)
  ultimately show ?thesis using Some by (simp add: calls_inv_def add_call_def Let_def del: fun_upd_apply)
qed

lemma chat_event_calls_inv:
  assumes "calls_inv s"
  shows "calls_inv (fst (chat_event event s))"
proof -
  have n: "calls_inv (note_response event s)" using assms by (simp add: calls_inv_def)
  obtain s1 step where st: "chat_step event (note_response event s) = (s1, step)" by fastforce
  then have "s1 = note_response event s \<or> s1 = add_call event (note_response event s)"
    by (auto simp: chat_step_def Let_def split: if_splits)
  then have c: "calls_inv s1" using n add_call_inv [OF n] by auto
  have ended: "calls_inv (s1\<lparr>cs_terminal := True\<rparr>)" using c by (simp add: calls_inv_def)
  show ?thesis
  proof (cases "cs_terminal s")
    case True
    then show ?thesis using assms by (simp add: chat_event_def)
  next
    case False
    then show ?thesis using c ended st by (cases step) (simp_all add: chat_event_def Let_def)
  qed
qed

subsection \<open>The relay\<close>

lemma send_chunk_keeps:
  assumes "send_chunk P bytes st = (st', ok)"
  shows "rs_good st' = rs_good st" "rs_observer st' = rs_observer st" "rs_decoder st' = rs_decoder st"
    "rs_sends st = length (rs_sent st) \<Longrightarrow> ok \<Longrightarrow> rs_sends st' = length (rs_sent st')"
    "rs_sent st' = rs_sent st @ (if ok then [bytes] else [])"
  using assms by (auto simp: send_chunk_def split: if_splits)

text \<open>While all is good, nothing that was sent got lost.\<close>

definition none_lost :: "RelayState \<Rightarrow> bool" where
  "none_lost st \<longleftrightarrow> (rs_good st \<longrightarrow> rs_sends st = length (rs_sent st))"

lemma send_frames_keeps:
  "none_lost st \<Longrightarrow> none_lost (send_frames P fs st) \<and> (rs_good (send_frames P fs st) \<longrightarrow> rs_good st)"
proof (induction fs arbitrary: st)
  case (Cons f fs)
  obtain st' ok where s: "send_chunk P (frame_bytes (rx_show_json P) f) st = (st', ok)" by fastforce
  note k = send_chunk_keeps [OF s]
  show ?case
  proof (cases ok)
    case True
    then have "none_lost st'" using k Cons.prems by (simp add: none_lost_def)
    from Cons.IH [OF this] True s k show ?thesis by simp
  qed (use s in \<open>simp add: none_lost_def\<close>)
qed simp

lemma relay_event_rest_keeps:
  assumes "none_lost st"
  shows "none_lost (relay_event_rest P m already event st)"
proof -
  have "none_lost (st\<lparr>rs_final_response := r\<rparr>)" "none_lost (st\<lparr>rs_chat := c\<rparr>)" "none_lost (st\<lparr>rs_final_response := r, rs_chat := c\<rparr>)"
    for r c using assms by (simp_all add: none_lost_def)
  with assms send_frames_keeps show ?thesis
    by (auto simp: relay_event_rest_def Let_def split: prod.splits)
qed

lemma observed_keeps [simp]:
  "rs_sent (observed P event st) = rs_sent st" "rs_sends (observed P event st) = rs_sends st"
  "rs_decoder (observed P event st) = rs_decoder st"
  by (simp_all add: observed_def split: prod.splits)

lemma observed_good: "rs_good (observed P event st) \<Longrightarrow> rs_good st"
  by (simp add: observed_def split: prod.splits)

lemma set_terminal_keeps [simp]:
  "rs_sent (set_terminal t st) = rs_sent st" "rs_sends (set_terminal t st) = rs_sends st"
  "rs_decoder (set_terminal t st) = rs_decoder st" "rs_good (set_terminal t st) = rs_good st"
  by (simp_all add: set_terminal_def)

text \<open>One event: its continuation was refused, or the loop goes on.\<close>

lemma relay_events_Cons:
  obtains (refused) "relay_events P m (event # events) st = (observed P event st)\<lparr>rs_good := False\<rparr>"
  | (goes_on) b where "relay_events P m (event # events) st =
      relay_events P m events (relay_event_rest P m (ro_terminal (rs_observer st) \<noteq> None) event ((observed P event st)\<lparr>rs_bound := b\<rparr>))"
proof (cases "unbound_response m (observed P event st)")
  case None
  have same: "(observed P event st)\<lparr>rs_bound := rs_bound (observed P event st)\<rparr> = observed P event st" by simp
  have "relay_events P m (event # events) st =
      relay_events P m events (relay_event_rest P m (ro_terminal (rs_observer st) \<noteq> None) event (observed P event st))"
    by (simp only: relay_events.simps Let_def None option.case)
  then show ?thesis using goes_on [of "rs_bound (observed P event st)"] same by simp
next
  case (Some i)
  show ?thesis
  proof (cases "rx_bind P i")
    case True
    then show ?thesis using goes_on [of "Some i"] by (simp only: relay_events.simps Let_def Some option.case if_True)
  next
    case False
    then show ?thesis using refused by (simp only: relay_events.simps Let_def Some option.case if_False)
  qed
qed

declare relay_events.simps(2) [simp del]

lemma relay_events_keeps: "none_lost st \<Longrightarrow> none_lost (relay_events P m events st)"
proof (induction events arbitrary: st)
  case (Cons event events)
  show ?case
  proof (cases rule: relay_events_Cons [of P m event events st])
    case refused
    then show ?thesis by (simp add: none_lost_def)
  next
    case (goes_on b)
    have "none_lost ((observed P event st)\<lparr>rs_bound := b\<rparr>)"
      using Cons.prems observed_good [of P event st] by (auto simp: none_lost_def)
    from Cons.IH [OF relay_event_rest_keeps [OF this]] goes_on show ?thesis by simp
  qed
qed simp

lemma relay_read_cases:
  obtains (failed) d where "relay_read P m chunk st = (st\<lparr>rs_count := saturating_add (rs_count st) (of_nat (length chunk)), rs_decoder := d, rs_good := False\<rparr>, True)"
      "rm_upstream_sse m"
  | (decoded) d events where "rm_upstream_sse m" "decoder_push (rx_from_str P) chunk (rs_decoder st) = (d, Inr events)"
      "relay_read P m chunk st = (relay_events P m events (st\<lparr>rs_count := saturating_add (rs_count st) (of_nat (length chunk)), rs_decoder := d\<rparr>), True)"
  | (overflow) "\<not> rm_upstream_sse m"
      "relay_read P m chunk st = (st\<lparr>rs_count := saturating_add (rs_count st) (of_nat (length chunk)), rs_good := False\<rparr>, False)"
  | (kept) "\<not> rm_upstream_sse m"
      "relay_read P m chunk st = (st\<lparr>rs_count := saturating_add (rs_count st) (of_nat (length chunk)), rs_buffered := rs_buffered st @ chunk\<rparr>, True)"
proof (cases "rm_upstream_sse m")
  case True
  obtain d r where d: "decoder_push (rx_from_str P) chunk (rs_decoder st) = (d, r)" by fastforce
  show ?thesis
  proof (cases r)
    case (Inl e)
    with True d show ?thesis using failed [of d] by (simp add: relay_read_def Let_def)
  next
    case (Inr events)
    with True d show ?thesis using decoded [of d events] by (simp add: relay_read_def Let_def)
  qed
next
  case False
  then show ?thesis using overflow kept by (cases "BUFFER_LIMIT < length (rs_buffered st) + length chunk") (simp_all add: relay_read_def Let_def)
qed

lemma relay_read_keeps: "none_lost st \<Longrightarrow> none_lost (fst (relay_read P m chunk st))"
proof (cases rule: relay_read_cases [of P m chunk st])
  case (decoded d events)
  let ?st = "st\<lparr>rs_count := saturating_add (rs_count st) (of_nat (length chunk)), rs_decoder := d\<rparr>"
  assume "none_lost st"
  then have "none_lost ?st" by (simp add: none_lost_def)
  from relay_events_keeps [OF this, of P m events] decoded(3) show ?thesis by simp
qed (simp_all add: none_lost_def)

lemma relay_loop_chunk:
  assumes "relay_read P m chunk st = (st1, kept)" "send_chunk P chunk st1 = (st2, ok)"
  shows "relay_loop P m (UpstreamChunk chunk # items) st =
    (if \<not> kept \<or> \<not> rs_good st1 then st1
     else if rm_stream m \<and> \<not> rm_converted m
     then (if ok then if relay_ended m st2 then st2 else relay_loop P m items st2 else st2\<lparr>rs_good := False\<rparr>)
     else if relay_ended m st1 then st1 else relay_loop P m items st1)"
  by (cases ok) (simp_all add: assms)

declare relay_loop.simps(4) [simp del]

lemma relay_loop_keeps: "none_lost st \<Longrightarrow> none_lost (relay_loop P m items st)"
proof (induction items arbitrary: st)
  case (Cons item items)
  show ?case
  proof (cases item)
    case (UpstreamChunk chunk)
    obtain st1 kept where r: "relay_read P m chunk st = (st1, kept)" by fastforce
    have n1: "none_lost st1" using relay_read_keeps [OF Cons.prems, of P m chunk] r by simp
    obtain st2 ok where s: "send_chunk P chunk st1 = (st2, ok)" by fastforce
    have n2: "none_lost st2" if ok using send_chunk_keeps [OF s] n1 that by (simp add: none_lost_def)
    have bad: "none_lost (st2\<lparr>rs_good := False\<rparr>)" by (simp add: none_lost_def)
    show ?thesis
      using n1 n2 bad Cons.IH [OF n1] Cons.IH [OF n2] by (simp add: UpstreamChunk relay_loop_chunk [OF r s])
  qed (simp_all add: none_lost_def)
qed simp

lemma observe_document_keeps [simp]:
  "rs_sent (observe_document P m st) = rs_sent st" "rs_sends (observe_document P m st) = rs_sends st"
  "rs_decoder (observe_document P m st) = rs_decoder st"
  by (simp_all add: observe_document_def Let_def split: option.split)

lemma observe_document_good: "rs_good (observe_document P m st) \<Longrightarrow> rs_good st"
  using observed_good [of P _ st] by (auto simp: observe_document_def Let_def split: option.splits if_splits)

lemma mark_done_keeps [simp]:
  "rs_sent (mark_done m st) = rs_sent st" "rs_sends (mark_done m st) = rs_sends st"
  "rs_decoder (mark_done m st) = rs_decoder st" "rs_good (mark_done m st) = rs_good st"
  by (simp_all add: mark_done_def)

lemma judge_end_fields:
  "rs_sends (judge_end P m st) = rs_sends st" "rs_sent (judge_end P m st) = rs_sent st"
  "rs_decoder (judge_end P m st) = rs_decoder st" "rs_good (judge_end P m st) \<Longrightarrow> rs_good st"
  "rs_good (judge_end P m st) \<Longrightarrow> rm_upstream_sse m \<Longrightarrow>
    ro_terminal (rs_observer (judge_end P m st)) \<noteq> None \<and> \<not> has_partial_event (rs_decoder (judge_end P m st))"
  using observe_document_good [of P m "mark_done m st"]
  by (simp_all add: judge_end_def Let_def split: if_splits)

lemma bind_at_end_fields:
  "rs_sends (bind_at_end P m st) = rs_sends st" "rs_sent (bind_at_end P m st) = rs_sent st"
  "rs_observer (bind_at_end P m st) = rs_observer st" "rs_decoder (bind_at_end P m st) = rs_decoder st"
  "rs_good (bind_at_end P m st) \<Longrightarrow> rs_good st"
  by (auto simp: bind_at_end_def split: option.splits if_splits)

lemma send_payload_fields:
  assumes "none_lost st"
  shows "none_lost (send_payload P m st)" "rs_observer (send_payload P m st) = rs_observer st"
    "rs_decoder (send_payload P m st) = rs_decoder st"
    "rs_good (send_payload P m st) \<Longrightarrow> rs_good st \<and> (if rm_stream m then True else rs_sent (send_payload P m st) \<noteq> [])"
proof -
  have "none_lost (send_payload P m st) \<and> rs_observer (send_payload P m st) = rs_observer st \<and>
    rs_decoder (send_payload P m st) = rs_decoder st \<and>
    (rs_good (send_payload P m st) \<longrightarrow> rs_good st \<and> (if rm_stream m then True else rs_sent (send_payload P m st) \<noteq> []))"
  proof (cases "rm_stream m")
    case True
    with assms show ?thesis by (simp add: send_payload_def)
  next
    case False
    show ?thesis
    proof (cases "final_payload P m st")
      case None
      with False show ?thesis by (simp add: send_payload_def none_lost_def)
    next
      case (Some bytes)
      obtain st' ok where s: "send_chunk P bytes st = (st', ok)" by fastforce
      note k = send_chunk_keeps [OF s]
      show ?thesis using False Some s k assms by (cases ok) (simp_all add: send_payload_def none_lost_def)
    qed
  qed
  then show "none_lost (send_payload P m st)" "rs_observer (send_payload P m st) = rs_observer st"
    "rs_decoder (send_payload P m st) = rs_decoder st"
    "rs_good (send_payload P m st) \<Longrightarrow> rs_good st \<and> (if rm_stream m then True else rs_sent (send_payload P m st) \<noteq> [])"
    by blast+
qed

text \<open>C31. A response is recorded as complete only if no chunk was refused by the client, the upstream stream reached its own end
  with no event left in the middle, and a response that is not streamed has been handed over.
\<close>

theorem relay_complete_means_ended:
  "let st = relay P m include_usage items in
   if rs_good st
   then rs_sends st = length (rs_sent st) \<and>
        (if rm_upstream_sse m then ro_terminal (rs_observer st) \<noteq> None \<and> \<not> has_partial_event (rs_decoder st) else True) \<and>
        (if rm_stream m then True else rs_sent st \<noteq> [])
   else relay_outcome m persisted st = ''incomplete_stream''"
proof -
  define l where "l = relay_loop P m items (relay_start include_usage)"
  define j where "j = judge_end P m l"
  define b where "b = bind_at_end P m j"
  have r: "relay P m include_usage items = send_payload P m b" by (simp add: relay_def relay_finish_def b_def j_def l_def)
  have "none_lost l" unfolding l_def by (rule relay_loop_keeps) (simp add: none_lost_def relay_start_def)
  then have "none_lost j" using judge_end_fields(1,2,4) [of P m l] by (auto simp: none_lost_def j_def)
  then have nb: "none_lost b" using bind_at_end_fields(1,2,5) [of P m j] by (auto simp: none_lost_def b_def)
  note f = send_payload_fields [OF nb, of P m]
  have ended: "ro_terminal (rs_observer b) \<noteq> None \<and> \<not> has_partial_event (rs_decoder b)" if "rs_good b" "rm_upstream_sse m"
    using judge_end_fields(5) [of P m l] bind_at_end_fields(3,4,5) [of P m j] that by (simp add: b_def j_def)
  show ?thesis
  proof (cases "rs_good (send_payload P m b)")
    case True
    with f ended show ?thesis by (simp add: r Let_def none_lost_def)
  next
    case False
    then show ?thesis by (simp add: r Let_def relay_outcome_def)
  qed
qed

subsection \<open>Forwarding\<close>

fun upstream_chunks :: "UpstreamItem list \<Rightarrow> string list" where
  "upstream_chunks (UpstreamChunk c # items) = c # upstream_chunks items"
| "upstream_chunks _ = []"

lemma relay_event_rest_plain:
  "\<not> rm_converted m \<Longrightarrow> rs_sent (relay_event_rest P m already event st) = rs_sent st \<and>
    rs_decoder (relay_event_rest P m already event st) = rs_decoder st \<and> rs_good (relay_event_rest P m already event st) = rs_good st"
  by (simp add: relay_event_rest_def Let_def)

lemma relay_events_plain:
  assumes "\<not> rm_converted m"
  shows "rs_sent (relay_events P m events st) = rs_sent st \<and> rs_decoder (relay_events P m events st) = rs_decoder st \<and>
    (rs_good (relay_events P m events st) \<longrightarrow> rs_good st)"
proof (induction events arbitrary: st)
  case (Cons event events)
  show ?case
  proof (cases rule: relay_events_Cons [of P m event events st])
    case refused
    then show ?thesis by simp
  next
    case (goes_on b)
    let ?r = "relay_event_rest P m (ro_terminal (rs_observer st) \<noteq> None) event ((observed P event st)\<lparr>rs_bound := b\<rparr>)"
    have "rs_good ?r \<longrightarrow> rs_good st" "rs_sent ?r = rs_sent st" "rs_decoder ?r = rs_decoder st"
      using relay_event_rest_plain [OF assms] observed_good [of P event st] by simp_all
    then show ?thesis using Cons.IH [of ?r] by (simp only: goes_on) blast
  qed
qed simp

lemma relay_read_plain:
  assumes "\<not> rm_converted m"
  shows "rs_sent (fst (relay_read P m chunk st)) = rs_sent st \<and>
    (rs_good (fst (relay_read P m chunk st)) \<longrightarrow> rm_upstream_sse m \<longrightarrow>
      rs_good st \<and> (\<exists>events. decoder_push (rx_from_str P) chunk (rs_decoder st) = (rs_decoder (fst (relay_read P m chunk st)), Inr events)))"
proof (cases rule: relay_read_cases [of P m chunk st])
  case (decoded d events)
  with relay_events_plain [OF assms, of P events "st\<lparr>rs_count := saturating_add (rs_count st) (of_nat (length chunk)), rs_decoder := d\<rparr>"]
  show ?thesis by simp
qed simp_all

definition decoder_saw :: "RelayPorts \<Rightarrow> RelayState \<Rightarrow> bool" where
  "decoder_saw P st \<longleftrightarrow>
     (\<exists>events. decoder_push (rx_from_str P) (concat (rs_sent st)) (sse_decoder_new (4 * 1024 * 1024)) = (rs_decoder st, Inr events))"

lemma relay_loop_plain:
  assumes "rm_stream m" "\<not> rm_converted m" "rs_good st \<longrightarrow> rm_upstream_sse m \<longrightarrow> decoder_saw P st"
  shows "\<exists>k. rs_sent (relay_loop P m items st) = rs_sent st @ take k (upstream_chunks items) \<and>
    (rs_good (relay_loop P m items st) \<longrightarrow> rm_upstream_sse m \<longrightarrow> decoder_saw P (relay_loop P m items st))"
  using assms(3)
proof (induction items arbitrary: st)
  case Nil
  then show ?case by simp
next
  case (Cons item items)
  show ?case
  proof (cases item)
    case (UpstreamChunk chunk)
    obtain st1 kept where r: "relay_read P m chunk st = (st1, kept)" by fastforce
    note pr = relay_read_plain [OF assms(2), of P chunk st, unfolded r fst_conv]
    note p = pr [THEN conjunct1] pr [THEN conjunct2, rule_format]
    show ?thesis
    proof (cases "kept \<and> rs_good st1")
      case False
      have bad: "\<not> rs_good st1 \<or> \<not> rm_upstream_sse m" using False r
        by (cases rule: relay_read_cases [of P m chunk st]) auto
      obtain st2 ok where s: "send_chunk P chunk st1 = (st2, ok)" by fastforce
      have "relay_loop P m (item # items) st = st1" using False by (simp add: UpstreamChunk relay_loop_chunk [OF r s])
      with bad p(1) show ?thesis by (intro exI [of _ 0]) simp
    next
      case True
      obtain st2 ok where s: "send_chunk P chunk st1 = (st2, ok)" by fastforce
      note k = send_chunk_keeps [OF s]
      show ?thesis
      proof (cases ok)
        case False
        then show ?thesis using True p(1) k assms(1,2) by (intro exI [of _ 0]) (simp add: UpstreamChunk relay_loop_chunk [OF r s])
      next
        case ok: True
        have saw: "decoder_saw P st2" if "rm_upstream_sse m"
        proof -
          from p(2) [OF _ that] True obtain events where e: "rs_good st"
            "decoder_push (rx_from_str P) chunk (rs_decoder st) = (rs_decoder st1, Inr events)" by blast
          with Cons.prems that obtain before where
            "decoder_push (rx_from_str P) (concat (rs_sent st)) (sse_decoder_new (4 * 1024 * 1024)) = (rs_decoder st, Inr before)"
            by (auto simp: decoder_saw_def)
          with e(2) have "decoder_push (rx_from_str P) (concat (rs_sent st) @ chunk) (sse_decoder_new (4 * 1024 * 1024)) =
              (rs_decoder st1, Inr (before @ events))"
            by (simp add: decoder_push_append)
          then show ?thesis using k p(1) ok by (simp add: decoder_saw_def)
        qed
        show ?thesis
        proof (cases "relay_ended m st2")
          case ended: True
          then show ?thesis using True saw p(1) k ok assms(1,2) by (intro exI [of _ 1]) (simp add: UpstreamChunk relay_loop_chunk [OF r s])
        next
          case False
          from Cons.IH [of st2] saw obtain n where
            n: "rs_sent (relay_loop P m items st2) = rs_sent st2 @ take n (upstream_chunks items)"
              "rs_good (relay_loop P m items st2) \<longrightarrow> rm_upstream_sse m \<longrightarrow> decoder_saw P (relay_loop P m items st2)" by blast
          with True False ok p(1) k assms(1,2) show ?thesis
            by (intro exI [of _ "Suc n"]) (simp add: UpstreamChunk relay_loop_chunk [OF r s])
        qed
      qed
    qed
  qed (intro exI [of _ 0], simp)+
qed

text \<open>C32. A stream that needs no conversion reaches the client as the first chunks of the upstream, byte for byte and in order;
  while all is good the decoder has read exactly what the client was sent.
\<close>

theorem relay_forwards_verbatim:
  assumes "rm_stream m" "\<not> rm_converted m"
  shows "(\<exists>k. rs_sent (relay P m include_usage items) = take k (upstream_chunks items)) \<and>
    (if rs_good (relay P m include_usage items) \<and> rm_upstream_sse m then decoder_saw P (relay P m include_usage items) else True)"
proof -
  let ?l = "relay_loop P m items (relay_start include_usage)"
  have start: "decoder_saw P (relay_start include_usage)"
    by (simp add: decoder_saw_def relay_start_def decoder_push_def)
  from relay_loop_plain [OF assms, of "relay_start include_usage" P items] start obtain k where
    k: "rs_sent ?l = take k (upstream_chunks items)" "rs_good ?l \<longrightarrow> rm_upstream_sse m \<longrightarrow> decoder_saw P ?l"
    by (auto simp: relay_start_def)
  have r: "relay P m include_usage items = bind_at_end P m (judge_end P m ?l)"
    using assms(1) by (simp add: relay_def relay_finish_def send_payload_def)
  let ?j = "judge_end P m ?l"
  have good: "rs_good ?l" if "rs_good (bind_at_end P m ?j)"
    using that bind_at_end_fields(5) [of P m ?j] judge_end_fields(4) [of P m ?l] by simp
  have same: "rs_sent (bind_at_end P m ?j) = rs_sent ?l" "rs_decoder (bind_at_end P m ?j) = rs_decoder ?l"
    by (simp_all add: bind_at_end_fields judge_end_fields)
  show ?thesis using k good unfolding r decoder_saw_def same by auto
qed

end
