(* ===== verification/Openai_Account.thy ===== *)
theory Openai_Account
  imports Openai_Usage
begin

text \<open>
  \<^verbatim>\<open>gateway-services/openai/account.rs\<close>: importing OAuth material and rotating its tokens. The reader of the document and
  of token claims (\<open>from_slice\<close>) and the base64 decoder are arguments; claims are hints, never verified here.
\<close>

record OAuthMaterial =
  oa_access_token :: string
  oa_refresh_token :: "string option"
  oa_id_token :: "string option"
  oa_account_id :: string
  oa_user_id :: "string option"
  oa_expires_at :: "u64 option"

record TokenReader =
  tr_from_slice :: "string \<Rightarrow> Json option"
  tr_b64url_decode :: "string \<Rightarrow> string option"

definition nonempty_field :: "Json \<Rightarrow> string \<Rightarrow> string option" where
  "nonempty_field v field =
     (case Option.bind (json_get field v) as_str_value of
        Some s \<Rightarrow> if str_trim s = [] then None else Some s
      | None \<Rightarrow> None)"

definition decode_claims :: "TokenReader \<Rightarrow> string \<Rightarrow> Json option" where
  "decode_claims R token =
     (case split_on CHR ''.'' token of
        _ # payload # _ \<Rightarrow>
          if 64 * 1024 < length payload then None
          else Option.bind (tr_b64url_decode R (trim_end_matches (\<lambda>c. c = CHR ''='') payload)) (tr_from_slice R)
      | _ \<Rightarrow> None)"

definition account_claim :: "Json \<Rightarrow> string option" where
  "account_claim v = Option.bind (value_pointer ''/https:~1~1api.openai.com~1auth/chatgpt_account_id'' v) as_str_value"

definition user_claim :: "Json \<Rightarrow> string option" where
  "user_claim v = Option.bind (value_pointer ''/https:~1~1api.openai.com~1auth/chatgpt_user_id'' v) as_str_value"

definition expiry_claim :: "Json \<Rightarrow> u64 option" where
  "expiry_claim v = Option.bind (json_get ''exp'' v) as_u64_value"

definition differ :: "string option \<Rightarrow> string option \<Rightarrow> bool" where
  "differ a b \<longleftrightarrow> (case (a, b) of (Some x, Some y) \<Rightarrow> x \<noteq> y | _ \<Rightarrow> False)"

definition is_control :: "nat \<Rightarrow> bool" where
  "is_control cp \<longleftrightarrow> cp \<le> 31 \<or> (127 \<le> cp \<and> cp \<le> 159)"

definition has_control :: "string \<Rightarrow> bool" where
  "has_control s \<longleftrightarrow> (case utf8_chars s of Some cs \<Rightarrow> list_ex (\<lambda>p. is_control (fst p)) cs | None \<Rightarrow> False)"

text \<open>
  The tokens are a member of the document, or the document itself. The reader of the document refuses one
  with two \<^verbatim>\<open>tokens\<close> members, which the structure it reads into does.
\<close>

definition import_value :: "Json \<Rightarrow> Json option" where
  "import_value document =
     (case document of
        JObject m \<Rightarrow>
          (case map_of m ''tokens'' of
             Some v \<Rightarrow> if v = JNull then Some (JObject (filter (\<lambda>p. fst p \<noteq> ''tokens'') m)) else Some v
           | None \<Rightarrow> Some (JObject m))
      | _ \<Rightarrow> None)"

definition import_material :: "TokenReader \<Rightarrow> string \<Rightarrow> OpenAiError + OAuthMaterial" where
  "import_material R bytes =
     (if 1024 * 1024 < length bytes then Inl InvalidCredential
      else and_then (ok_or InvalidCredential (Option.bind (tr_from_slice R bytes) import_value)) (\<lambda>v.
           and_then (ok_or InvalidCredential (nonempty_field v ''access_token'')) (\<lambda>access.
           (let claims = decode_claims R access;
                id_claims = Option.bind (nonempty_field v ''id_token'') (decode_claims R);
                access_account = Option.bind claims account_claim;
                id_account = Option.bind id_claims account_claim;
                claim_identity = or_else access_account id_account;
                explicit = or_else (nonempty_field v ''account_id'') (nonempty_field v ''chatgpt_account_id'')
            in if differ access_account id_account then Inl IdentityConflict
               else if differ explicit claim_identity then Inl IdentityConflict
               else and_then (ok_or InvalidCredential (or_else explicit claim_identity)) (\<lambda>account_id.
                    if 256 < length account_id \<or> has_control account_id then Inl InvalidCredential
                    else Inr \<lparr>oa_access_token = access, oa_refresh_token = nonempty_field v ''refresh_token'',
                              oa_id_token = nonempty_field v ''id_token'', oa_account_id = account_id,
                              oa_user_id = Option.bind claims user_claim,
                              oa_expires_at = Option.bind claims expiry_claim\<rparr>)))))"

definition refreshable :: "OAuthMaterial \<Rightarrow> bool" where
  "refreshable m \<longleftrightarrow> is_some_and (oa_refresh_token m) (\<lambda>t. t \<noteq> [])"

definition rotate_material ::
  "TokenReader \<Rightarrow> Json \<Rightarrow> string \<Rightarrow> OAuthMaterial \<Rightarrow> OAuthMaterial \<times> (OpenAiError + unit)" where
  "rotate_material R response verified_account_id m =
     (if verified_account_id \<noteq> oa_account_id m then (m, Inl IdentityConflict)
      else case nonempty_field response ''access_token'' of
          None \<Rightarrow> (m, Inl InvalidCredential)
        | Some access \<Rightarrow>
            (let claims = decode_claims R access;
                 id_token = nonempty_field response ''id_token''
             in if is_some_and (Option.bind (Option.bind id_token (decode_claims R)) account_claim) (\<lambda>i. i \<noteq> oa_account_id m)
                then (m, Inl IdentityConflict)
                else if is_some_and (Option.bind claims account_claim) (\<lambda>i. i \<noteq> oa_account_id m) then (m, Inl IdentityConflict)
                else (m\<lparr>oa_access_token := access,
                        oa_refresh_token := or_else (nonempty_field response ''refresh_token'') (oa_refresh_token m),
                        oa_id_token := or_else id_token (oa_id_token m),
                        oa_expires_at := Option.bind claims expiry_claim\<rparr>, Inr ())))"

section \<open>Properties\<close>

definition token_account :: "TokenReader \<Rightarrow> string option \<Rightarrow> string option" where
  "token_account R token = Option.bind (Option.bind token (decode_claims R)) account_claim"

text \<open>No token of the material claims another account than the one it is registered under.\<close>

definition identity_consistent :: "TokenReader \<Rightarrow> OAuthMaterial \<Rightarrow> bool" where
  "identity_consistent R m \<longleftrightarrow>
     is_none_or (token_account R (Some (oa_access_token m))) (\<lambda>i. i = oa_account_id m) \<and>
     is_none_or (token_account R (oa_id_token m)) (\<lambda>i. i = oa_account_id m)"

lemma import_consistent:
  assumes "import_material R bytes = Inr m"
  shows "identity_consistent R m"
proof -
  from assms obtain v where
    v: "nonempty_field v ''access_token'' = Some (oa_access_token m)" "oa_id_token m = nonempty_field v ''id_token''"
    and d: "\<not> differ (token_account R (Some (oa_access_token m))) (token_account R (oa_id_token m))"
      "\<not> differ (or_else (nonempty_field v ''account_id'') (nonempty_field v ''chatgpt_account_id''))
          (or_else (token_account R (Some (oa_access_token m))) (token_account R (oa_id_token m)))"
      "or_else (or_else (nonempty_field v ''account_id'') (nonempty_field v ''chatgpt_account_id''))
          (or_else (token_account R (Some (oa_access_token m))) (token_account R (oa_id_token m))) = Some (oa_account_id m)"
    by (auto simp: import_material_def and_then_Inr ok_or_Inr Let_def token_account_def split: if_splits)
  from d show "identity_consistent R m"
    by (auto simp: identity_consistent_def differ_def or_else_def split: option.splits)
qed

lemma rotate_keeps:
  assumes "identity_consistent R m"
  shows "identity_consistent R (fst (rotate_material R response account m))"
    "oa_account_id (fst (rotate_material R response account m)) = oa_account_id m"
    "oa_user_id (fst (rotate_material R response account m)) = oa_user_id m"
  using assms
  by (auto simp: rotate_material_def Let_def identity_consistent_def token_account_def or_else_def split: option.splits)

lemma nonempty_not_Nil: "nonempty_field v k \<noteq> Some []"
  by (auto simp: nonempty_field_def str_trim_def utf8_trim_def utf8_chars.simps [of "[]"] trim_chars_def split: option.splits)

lemma rotate_refreshable: "refreshable m \<Longrightarrow> refreshable (fst (rotate_material R response account m))"
  using nonempty_not_Nil [of response "''refresh_token''"]
  by (auto simp: rotate_material_def Let_def refreshable_def or_else_def split: option.splits)

text \<open>However often imported material is rotated, and whatever the token endpoint answers, it stays that of the account and
  the user it was imported for, no token of it claims another account, and it never loses the ability to refresh.
\<close>

theorem rotation_keeps_identity:
  assumes "import_material R bytes = Inr m"
  shows "let m' = fold (\<lambda>(response, account) m. fst (rotate_material R response account m)) answers m in
    oa_account_id m' = oa_account_id m \<and> oa_user_id m' = oa_user_id m \<and> identity_consistent R m' \<and>
    (if refreshable m then refreshable m' else True)"
proof -
  let ?rotate = "\<lambda>(response, account) m. fst (rotate_material R response account m)"
  have "oa_account_id (fold ?rotate answers m0) = oa_account_id m0 \<and> oa_user_id (fold ?rotate answers m0) = oa_user_id m0 \<and>
      identity_consistent R (fold ?rotate answers m0) \<and> (refreshable m0 \<longrightarrow> refreshable (fold ?rotate answers m0))"
    if "identity_consistent R m0" for m0
    using that
  proof (induction answers arbitrary: m0)
    case (Cons a answers)
    obtain response account where a: "a = (response, account)" by fastforce
    note k = rotate_keeps [OF Cons.prems, of response account]
    from Cons.IH [OF k(1)] k(2,3) rotate_refreshable [of m0 R response account] show ?case by (simp add: a)
  qed simp
  from this [OF import_consistent [OF assms]] show ?thesis by (simp add: Let_def)
qed

text \<open>A refused rotation changes nothing.\<close>

lemma refused_rotation_keeps_material:
  "snd (rotate_material R response account m) = Inl e \<Longrightarrow> fst (rotate_material R response account m) = m"
  by (auto simp: rotate_material_def Let_def split: option.splits if_splits)

end
