(* ===== verification/Openai_Cases.thy ===== *)
theory Openai_Cases
  imports Openai_Relay_Properties Openai_Account
begin

text \<open>The properties of the OpenAI services at concrete inputs.\<close>

subsection \<open>Continuations\<close>

text \<open>An index of one entry: the second continuation finds no room, and taking over the first is refused.\<close>

definition sample_bindings :: "Binding list" where
  "sample_bindings =
     [\<lparr>bn_key = ''k'', bn_response = ''r'', bn_credential = ''a'', bn_time = 1\<rparr>,
      \<lparr>bn_key = ''k'', bn_response = ''s'', bn_credential = ''a'', bn_time = 2\<rparr>,
      \<lparr>bn_key = ''k'', bn_response = ''r'', bn_credential = ''b'', bn_time = 3\<rparr>]"

definition sample_index :: "ContinuationIndex \<times> Binding list" where
  "sample_index = run_bindings sample_bindings (continuation_new 1 100, [])"

lemma sample_index_log: "snd sample_index = [sample_bindings ! 0]"
  by (simp add: sample_index_def sample_bindings_def continuation_new_def bind_continuation_def drop_expired_def bt_retain_def
      dur_saturating_add_def DURATION_MAX_def)

theorem continuation_index_exact_witness:
  "resolve_continuation ''k'' ''r'' 9 (fst sample_index) = Inr ''a'' \<and>
   resolve_continuation ''k'' ''s'' 9 (fst sample_index) = Inl ContinuationUnavailable"
proof -
  have s: "sorted (map bn_time sample_bindings)" "list_all (\<lambda>b. bn_time b \<le> 9) sample_bindings"
    by (simp_all add: sample_bindings_def)
  note w = continuation_index_exact [OF s, of 1 100 "fst sample_index" "snd sample_index", unfolded sample_index_def prod.collapse, OF refl,
      folded sample_index_def, THEN conjunct2]
  show ?thesis
    unfolding w sample_index_log
    by (simp add: sample_bindings_def last_binding_def owner_of_def dur_saturating_add_def DURATION_MAX_def)
qed

subsection \<open>Streams\<close>

definition empty_reader :: "string \<Rightarrow> Json option" where
  "empty_reader s = (if s = ''{}'' then Some (JObject []) else None)"

theorem sse_events_delivered_witness:
  "decoder_push empty_reader ([CHR ''d'', CHR ''a'', CHR ''t'', CHR ''a'', CHR '':'', CHR '' '', CHR ''{'', CHR ''}'', SSE_LF, SSE_LF]) (sse_decoder_new 64) =
     (sse_decoder_new 64, Inr [JObject []])"
proof -
  have p: "list_all (plain_event empty_reader (sd_limit (sse_decoder_new 64))) [(''{}'', JObject [])]"
    by (simp add: plain_event_def sse_decoder_new_def sse_frame_def empty_reader_def utf8_chars_ascii utf8_chars.simps [of "[]"]
        SSE_LF_def SSE_CR_def str_trim_def utf8_trim_def trim_chars_def Let_def is_whitespace_def)
  show ?thesis using sse_events_delivered [OF p] by (simp add: sse_decoder_new_def sse_frame_def)
qed

subsection \<open>Conversions\<close>

theorem reasoning_ceiling_enforced_witness:
  "within_ceiling [''low'', ''high''] ''low'' (JObject [(''reasoning_effort'', JString ''low'')])"
proof -
  have "apply_reasoning \<lparr>rp_maximum = Some ''low'', rp_downgrade = True\<rparr> [''low'', ''high'']
      (JObject [(''reasoning_effort'', JString ''high'')]) = Inr (JObject [(''reasoning_effort'', JString ''low'')])"
    by (simp add: apply_reasoning_def requested_effort_def or_else_def pointer_reasoning json_put_def)
  from reasoning_ceiling_enforced [OF this] show ?thesis by simp
qed

definition sample_response :: Json where
  "sample_response =
     JObject [(''id'', JString ''r''), (''model'', JString ''m''),
       (''output'', JArray [JObject [(''type'', JString ''message''),
          (''content'', JArray [JObject [(''type'', JString ''output_text''), (''text'', JString ''hi'')]])]])]"

theorem conversation_roundtrip_witness:
  "\<exists>chat. responses_to_chat sample_response = Inr chat \<and>
     (\<exists>choice message. json_get ''choices'' chat = Some (JArray [choice]) \<and> json_get ''message'' choice = Some message \<and>
       message_items message =
         Inr [JObject [(''role'', JString ''assistant''),
                       (''content'', JArray [JObject [(''type'', JString ''output_text''), (''text'', JString ''hi'')]])]])"
proof -
  obtain chat where c: "responses_to_chat sample_response = Inr chat"
    by (simp add: responses_to_chat_def sample_response_def and_then_def ok_or_def output_text_def required_str_def)
  have "json_get ''output'' sample_response = Some (JArray outs) \<Longrightarrow> history_items outs =
      [JObject [(''role'', JString ''assistant''),
                (''content'', JArray [JObject [(''type'', JString ''output_text''), (''text'', JString ''hi'')]])]]" for outs
    by (auto simp: sample_response_def history_items_def item_text_def field_text_def response_calls_def)
  with conversation_roundtrip [OF c] c show ?thesis by metis
qed

subsection \<open>The relay\<close>

definition sample_relay_ports :: RelayPorts where
  "sample_relay_ports =
     \<lparr>rx_from_str = empty_reader, rx_from_slice = empty_reader, rx_to_vec = (\<lambda>_. Some []), rx_show_json = (\<lambda>_. []),
      rx_send = (\<lambda>n. n < 2), rx_bind = (\<lambda>_. True), rx_now = 0\<rparr>"

definition sample_mode :: RelayMode where
  "sample_mode =
     \<lparr>rm_endpoint = ChatCompletions, rm_auth = AuthApiKey, rm_upstream_sse = True, rm_stream_requested = True, rm_status = 200\<rparr>"

text \<open>A client that goes away after two chunks has the first two of the upstream.\<close>

theorem relay_forwards_verbatim_witness:
  "\<exists>k. rs_sent (relay sample_relay_ports sample_mode False [UpstreamChunk ''a'', UpstreamChunk ''b'', UpstreamChunk ''c'']) =
     take k [''a'', ''b'', ''c'']"
proof -
  have "rm_stream sample_mode" "\<not> rm_converted sample_mode"
    by (simp_all add: rm_stream_def rm_converted_def sample_mode_def)
  from relay_forwards_verbatim [OF this, THEN conjunct1] show ?thesis by (metis upstream_chunks.simps(1,2))
qed

end
