(* ===== verification/Environment_Align.thy ===== *)
theory Environment_Align
  imports System_Rewrite Byte_Codec
begin

text \<open>
  \<^verbatim>\<open>super-gatewayd/system_env_align.rs\<close>: the platform, shell and version of the environment block are replaced in place,
  from the right to the left of the text. The edits are those of one pass from the left over the text of the client.
\<close>

record EnvironmentTarget =
  et_os_family :: OsFamily
  et_shell :: "string option"
  et_os_version :: "string option"

datatype EnvironmentAlignError = InvalidReplacement | InvalidRange

type_synonym edit = "(nat \<times> nat) \<times> string"

text \<open>\<^verbatim>\<open>str::get\<close> and \<^verbatim>\<open>String::replace_range\<close>; a range ends between characters.\<close>

definition is_char_boundary :: "string \<Rightarrow> nat \<Rightarrow> bool" where
  "is_char_boundary s i \<longleftrightarrow> i = length s \<or> (i < length s \<and> \<not> is_continuation (s ! i))"

definition str_get :: "string \<Rightarrow> nat \<times> nat \<Rightarrow> string option" where
  "str_get s r =
     (if fst r \<le> snd r \<and> is_char_boundary s (fst r) \<and> is_char_boundary s (snd r) then Some (slice s r) else None)"

definition replace_range :: "nat \<times> nat \<Rightarrow> string \<Rightarrow> string \<Rightarrow> string" where
  "replace_range r new s = take (fst r) s @ new @ drop (snd r) s"

fun platform_code :: "OsFamily \<Rightarrow> string" where
  "platform_code OsWindows = ''win32''"
| "platform_code OsMacos = ''darwin''"
| "platform_code OsLinux = ''linux''"

definition push_edit :: "EnvironmentField option \<Rightarrow> string option \<Rightarrow> edit list" where
  "push_edit field new = (case (field, new) of (Some f, Some r) \<Rightarrow> [(ef_range f, r)] | _ \<Rightarrow> [])"

definition environment_edits :: "EnvironmentBlock \<Rightarrow> EnvironmentTarget \<Rightarrow> edit list" where
  "environment_edits environment target =
     push_edit (eb_platform environment) (Some (platform_code (et_os_family target))) @
     push_edit (eb_shell environment) (et_shell target) @ push_edit (eb_os_version environment) (et_os_version target)"

text \<open>The starts differ, so the order of the unstable sort is determined.\<close>

definition rightmost_first :: "edit list \<Rightarrow> edit list" where
  "rightmost_first edits = rev (sort_key (\<lambda>e. fst (fst e)) edits)"

fun apply_edits :: "edit list \<Rightarrow> string \<Rightarrow> bool \<Rightarrow> EnvironmentAlignError + string \<times> bool" where
  "apply_edits [] s changed = Inr (s, changed)"
| "apply_edits ((r, new) # edits) s changed =
     (case str_get s r of
        None \<Rightarrow> Inl InvalidRange
      | Some current \<Rightarrow>
          if current \<noteq> new then apply_edits edits (replace_range r new s) True else apply_edits edits s changed)"

definition align_text :: "EnvironmentBlock \<Rightarrow> EnvironmentTarget \<Rightarrow> string \<Rightarrow> EnvironmentAlignError + string \<times> bool" where
  "align_text environment target s = apply_edits (rightmost_first (environment_edits environment target)) s False"

text \<open>\<^verbatim>\<open>block_text_mut\<close>: the text of a block, and the block with another text.\<close>

definition editable_text :: "Json \<Rightarrow> string option" where
  "editable_text b =
     (case b of JString t \<Rightarrow> Some t | JObject m \<Rightarrow> Option.bind (map_of m ''text'') as_str_value | _ \<Rightarrow> None)"

definition with_text :: "string \<Rightarrow> Json \<Rightarrow> Json" where
  "with_text t b = (case b of JObject m \<Rightarrow> JObject (obj_insert ''text'' (JString t) m) | _ \<Rightarrow> JString t)"

definition has_line_break :: "string \<Rightarrow> bool" where
  "has_line_break s \<longleftrightarrow> list_ex is_eol s"

definition align_system_environment :: "Json \<Rightarrow> EnvironmentTarget \<Rightarrow> EnvironmentAlignError + Json \<times> bool" where
  "align_system_environment system target =
     (if is_some_and (et_shell target) has_line_break \<or> is_some_and (et_os_version target) has_line_break
      then Inl InvalidReplacement
      else case sg_environment (parse_segments system) of
          None \<Rightarrow> Inr (system, False)
        | Some environment \<Rightarrow>
            (case system of
               JString t \<Rightarrow>
                 if eb_index environment = 0
                 then and_then (align_text environment target t) (\<lambda>(t', changed). Inr (JString t', changed))
                 else Inl InvalidRange
             | JArray blocks \<Rightarrow>
                 if eb_index environment < length blocks
                 then (let b = blocks ! eb_index environment in
                       and_then (ok_or InvalidRange (editable_text b)) (\<lambda>t.
                       and_then (align_text environment target t) (\<lambda>(t', changed).
                       Inr (JArray (blocks[eb_index environment := with_text t' b]), changed))))
                 else Inl InvalidRange
             | _ \<Rightarrow> Inl InvalidRange))"

section \<open>Properties\<close>

subsection \<open>One pass\<close>

fun splice :: "edit list \<Rightarrow> nat \<Rightarrow> string \<Rightarrow> string" where
  "splice [] pos s = drop pos s"
| "splice (((a, b), new) # edits) pos s = slice s (pos, a) @ new @ splice edits b s"

fun ordered_edits :: "nat \<Rightarrow> edit list \<Rightarrow> nat \<Rightarrow> bool" where
  "ordered_edits pos [] n \<longleftrightarrow> pos \<le> n"
| "ordered_edits pos (((a, b), new) # edits) n \<longleftrightarrow> pos \<le> a \<and> a \<le> b \<and> ordered_edits b edits n"

lemma ordered_edits_le: "ordered_edits pos edits n \<Longrightarrow> pos \<le> n"
  by (induction pos edits n rule: ordered_edits.induct) auto

lemma ordered_edits_append:
  "ordered_edits pos (edits @ [((a, b), new)]) n \<longleftrightarrow> ordered_edits pos edits a \<and> a \<le> b \<and> b \<le> n"
  by (induction pos edits n rule: ordered_edits.induct) auto

lemma splice_append:
  "ordered_edits pos edits a \<Longrightarrow> a \<le> length s \<Longrightarrow>
    splice (edits @ [((a, b), new)]) pos s = splice edits pos (take a s) @ new @ drop b s"
proof (induction edits pos s rule: splice.induct)
  case (1 pos s)
  then show ?case by (simp add: slice_def take_drop min_def)
next
  case (2 a' b' new' edits pos s)
  then have "a' \<le> a" using ordered_edits_le by fastforce
  with 2 show ?case by (simp add: slice_def min_def take_drop)
qed

lemma splice_take:
  "ordered_edits pos edits a \<Longrightarrow> a \<le> length s \<Longrightarrow> splice edits pos s = splice edits pos (take a s) @ drop a s"
proof (induction edits pos s rule: splice.induct)
  case (1 pos s)
  have "drop pos s = drop pos (take a s) @ drop (pos - length (take a s)) (drop a s)"
    by (metis append_take_drop_id drop_append)
  with 1 show ?case by simp
next
  case (2 a' b' new edits pos s)
  then have "a' \<le> a" using ordered_edits_le by fastforce
  with 2 show ?case by (simp add: slice_def min_def take_drop)
qed

lemma ordered_edits_mono: "ordered_edits pos edits n \<Longrightarrow> n \<le> m \<Longrightarrow> ordered_edits pos edits m"
  by (induction pos edits n rule: ordered_edits.induct) auto

definition changes :: "string \<Rightarrow> edit \<Rightarrow> bool" where
  "changes s e \<longleftrightarrow> slice s (fst e) \<noteq> snd e"

lemma changes_prefix:
  "ordered_edits pos edits n \<Longrightarrow> n \<le> length s \<Longrightarrow> e \<in> set edits \<Longrightarrow> changes (take n s @ t) e = changes s e"
proof (induction pos edits n rule: ordered_edits.induct)
  case (2 pos a b new edits n)
  have "b \<le> n" using 2(2) ordered_edits_le [of b edits n] by simp
  then have "slice (take n s @ t) (a, b) = slice s (a, b)"
    using 2(2,3) by (simp add: slice_def drop_take)
  with 2 show ?case by (auto simp: changes_def)
qed simp

text \<open>Editing in place from the right is one pass from the left.\<close>

lemma apply_edits_splice:
  "apply_edits (rev edits) s changed = Inr (s', changed') \<Longrightarrow> ordered_edits 0 edits (length s) \<Longrightarrow>
    s' = splice edits 0 s \<and> changed' = (changed \<or> list_ex (changes s) edits)"
proof (induction edits arbitrary: s changed rule: rev_induct)
  case (snoc e edits)
  obtain a b new where e: "e = ((a, b), new)" by (metis surj_pair)
  from snoc.prems(2) have o: "ordered_edits 0 edits a" "a \<le> b" "b \<le> length s" by (simp_all add: e ordered_edits_append)
  from snoc.prems(1) obtain current where c: "str_get s (a, b) = Some current" by (auto simp: e split: option.splits)
  then have cur: "current = slice s (a, b)" by (auto simp: str_get_def split: if_splits)
  let ?s = "take a s @ new @ drop b s"
  have s1: "s = ?s" if "current = new"
  proof -
    have "s = take a s @ take (b - a) (drop a s) @ drop (b - a) (drop a s)" by (metis append_take_drop_id)
    with that o cur show ?thesis by (simp add: slice_def)
  qed
  have run: "apply_edits (rev edits) ?s (changed \<or> changes s e) = Inr (s', changed')"
    using snoc.prems(1) c s1 by (auto simp: e replace_range_def changes_def cur split: if_splits)
  have o1: "ordered_edits 0 edits (length ?s)" using ordered_edits_mono [OF o(1)] o by simp
  have same: "splice edits 0 ?s = splice edits 0 (take a s) @ new @ drop b s"
    using splice_take [OF o(1), of ?s] o by simp
  have keep: "list_ex (changes ?s) edits = list_ex (changes s) edits"
    using changes_prefix [OF o(1), of s _ "new @ drop b s"] o by (auto simp: list_ex_iff)
  have "a \<le> length s" using o by simp
  with splice_append [OF o(1), of s b new] snoc.IH [OF run o1] same keep show ?case by (auto simp: e)
qed simp

subsection \<open>The fields of an environment\<close>

definition line_content :: "string \<Rightarrow> string" where
  "line_content line = fst (strip_bullet (drop (length line - length (str_trim_start line)) line))"

definition within_line :: "string list \<Rightarrow> nat \<Rightarrow> nat \<times> nat \<Rightarrow> bool" where
  "within_line lines i r \<longleftrightarrow>
     i < length lines \<and> length (concat (take i lines)) < fst r \<and> fst r \<le> snd r \<and> snd r \<le> length (concat (take (Suc i) lines))"

lemma field_scan_line:
  "field_scan label n (length (concat before)) lines = Some f \<Longrightarrow> label \<noteq> [] \<Longrightarrow>
    \<exists>i. within_line (before @ lines) i (ef_range f) \<and> starts_with label (line_content ((before @ lines) ! i))"
proof (induction lines arbitrary: before)
  case (Cons line lines)
  obtain content bullet where
    b: "strip_bullet (drop (length line - length (str_trim_start line)) line) = (content, bullet)" by fastforce
  have step: ?case if "field_scan label n (length (concat before) + length line) lines = Some f"
    using Cons.IH [of "before @ [line]"] that Cons.prems(2) by simp
  show ?case
  proof (cases "strip_prefix label content")
    case None
    then show ?thesis using Cons.prems(1) b step by (simp add: Let_def)
  next
    case (Some after')
    let ?w = "trim_end_matches is_eol after'"
    obtain pre post where p: "line = pre @ str_trim ?w @ post"
      "length pre = length line - length (str_trim_start line) + bullet + length label + (length ?w - length (str_trim_start ?w))"
      using line_parts [OF b Some] .
    let ?r = "(length (concat before) + length pre, length (concat before) + length pre + length (str_trim ?w))"
    have "length pre + length (str_trim ?w) \<le> length line" using arg_cong [OF p(1), of length] by simp
    then have "within_line (before @ line # lines) (length before) ?r"
      using p(2) Cons.prems(2) by (simp add: within_line_def)
    moreover have "starts_with label (line_content line)"
      using Some by (simp add: line_content_def b strip_prefix_def split: if_splits)
    ultimately have "ef_range f = ?r \<Longrightarrow> ?thesis" by (intro exI [of _ "length before"]) simp
    then show ?thesis using Cons.prems(1) b Some step p(2) by (auto simp: Let_def add.assoc split: if_splits)
  qed
qed simp

lemma env_field_line:
  assumes "env_field s label = Some f" "label \<noteq> []"
  shows "\<exists>i. within_line (split_inclusive (CHR 0x0A) s) i (ef_range f) \<and>
    starts_with label (line_content (split_inclusive (CHR 0x0A) s ! i))"
  using field_scan_line [of label "length s" "[]" "split_inclusive (CHR 0x0A) s" f] assms by (simp add: env_field_def)

definition apart :: "nat \<times> nat \<Rightarrow> nat \<times> nat \<Rightarrow> bool" where
  "apart r r' \<longleftrightarrow> snd r < fst r' \<or> snd r' < fst r"

lemma within_lines_apart:
  assumes "within_line lines i r" "within_line lines j r'" "i \<noteq> j"
  shows "apart r r'"
proof -
  have mono: "length (concat (take (Suc i) lines)) \<le> length (concat (take j lines))" if "i < j" for i j
  proof -
    have "take j lines = take (Suc i) lines @ take (j - Suc i) (drop (Suc i) lines)"
      using that by (metis Suc_leI le_add_diff_inverse take_add)
    then show ?thesis by simp
  qed
  show ?thesis using assms mono [of i j] mono [of j i] by (cases "i < j") (auto simp: apart_def within_line_def)
qed

lemma fields_apart:
  assumes "env_field s (c # label) = Some f" "env_field s (c' # label') = Some f'" "c \<noteq> c'"
  shows "apart (ef_range f) (ef_range f')"
proof -
  let ?ls = "split_inclusive (CHR 0x0A) s"
  obtain i where i: "within_line ?ls i (ef_range f)" "starts_with (c # label) (line_content (?ls ! i))"
    using env_field_line [OF assms(1)] by auto
  obtain j where j: "within_line ?ls j (ef_range f')" "starts_with (c' # label') (line_content (?ls ! j))"
    using env_field_line [OF assms(2)] by auto
  have "i \<noteq> j" using i(2) j(2) assms(3) by (cases "line_content (?ls ! i)") (auto simp: starts_with_def)
  with within_lines_apart i(1) j(1) show ?thesis by blast
qed

lemma sorted_apart_ordered:
  "sorted (map (\<lambda>e. fst (fst e)) es) \<Longrightarrow> distinct es \<Longrightarrow> (\<forall>e\<in>set es. \<forall>e'\<in>set es. e \<noteq> e' \<longrightarrow> apart (fst e) (fst e')) \<Longrightarrow>
    (\<forall>e\<in>set es. pos \<le> fst (fst e) \<and> fst (fst e) \<le> snd (fst e) \<and> snd (fst e) \<le> n) \<Longrightarrow> pos \<le> n \<Longrightarrow> ordered_edits pos es n"
proof (induction es arbitrary: pos)
  case (Cons e es)
  obtain a b new where e: "e = ((a, b), new)" by (metis surj_pair)
  have "b \<le> fst (fst x)" if x: "x \<in> set es" for x
  proof -
    have "apart (a, b) (fst x)" "a \<le> fst (fst x)" "fst (fst x) \<le> snd (fst x)" using Cons.prems x by (auto simp: e)
    then show ?thesis by (auto simp: apart_def)
  qed
  with Cons show ?case by (auto simp: e)
qed simp

text \<open>Alignment replaces exactly the values of the platform, shell and version lines, wherever they stand: every other byte of
  the text is the one the client sent, and it reports a change exactly when a value differed.
\<close>

theorem alignment_touches_values_only:
  assumes "align_text (parse_environment i s) target s = Inr (s', changed)"
  shows "let edits = sort_key (\<lambda>e. fst (fst e)) (environment_edits (parse_environment i s) target) in
    ordered_edits 0 edits (length s) \<and> s' = splice edits 0 s \<and> changed = list_ex (changes s) edits"
proof -
  let ?env = "environment_edits (parse_environment i s) target"
  let ?es = "sort_key (\<lambda>e. fst (fst e)) ?env"
  have in_text: "fst (ef_range f) \<le> snd (ef_range f) \<and> snd (ef_range f) \<le> length s" if "env_field s label = Some f" for label f
    using env_field_exact [OF that] by (simp add: field_exact_def)
  have ps: "apart (ef_range f) (ef_range g)" if "env_field s ''Platform:'' = Some f" "env_field s ''Shell:'' = Some g" for f g
    by (rule fields_apart [OF that]) simp
  have pv: "apart (ef_range f) (ef_range g)" if "env_field s ''Platform:'' = Some f" "env_field s ''OS Version:'' = Some g" for f g
    by (rule fields_apart [OF that]) simp
  have sv: "apart (ef_range f) (ef_range g)" if "env_field s ''Shell:'' = Some f" "env_field s ''OS Version:'' = Some g" for f g
    by (rule fields_apart [OF that]) simp
  have ne: "apart r r' \<Longrightarrow> fst r \<le> snd r \<Longrightarrow> r \<noteq> r'" and sym: "apart r r' = apart r' r" for r r'
    by (auto simp: apart_def)
  have fields: "eb_platform (parse_environment i s) = env_field s ''Platform:''" "eb_shell (parse_environment i s) = env_field s ''Shell:''"
    "eb_os_version (parse_environment i s) = env_field s ''OS Version:''"
    by (simp_all add: parse_environment_def Let_def)
  have env: "distinct ?env \<and> (\<forall>e\<in>set ?env. \<forall>e'\<in>set ?env. e \<noteq> e' \<longrightarrow> apart (fst e) (fst e')) \<and>
      (\<forall>e\<in>set ?env. fst (fst e) \<le> snd (fst e) \<and> snd (fst e) \<le> length s)"
  proof (intro conjI)
    show "distinct ?env"
      using in_text ne [OF ps] ne [OF pv] ne [OF sv] ne [OF ps, THEN not_sym] ne [OF pv, THEN not_sym] ne [OF sv, THEN not_sym]
      by (auto simp: environment_edits_def push_edit_def fields split: option.split)
    show "\<forall>e\<in>set ?env. \<forall>e'\<in>set ?env. e \<noteq> e' \<longrightarrow> apart (fst e) (fst e')"
      by (cases "env_field s ''Platform:''"; cases "env_field s ''Shell:''"; cases "env_field s ''OS Version:''";
          cases "et_shell target"; cases "et_os_version target";
          simp add: environment_edits_def push_edit_def fields ps pv sv ps [THEN iffD1 [OF sym]] pv [THEN iffD1 [OF sym]]
            sv [THEN iffD1 [OF sym]])
    show "\<forall>e\<in>set ?env. fst (fst e) \<le> snd (fst e) \<and> snd (fst e) \<le> length s"
      using in_text by (auto simp: environment_edits_def push_edit_def fields split: option.split)
  qed
  then have o: "ordered_edits 0 ?es (length s)" by (intro sorted_apart_ordered) simp_all
  have "apply_edits (rev ?es) s False = Inr (s', changed)" using assms by (simp add: align_text_def rightmost_first_def)
  from apply_edits_splice [OF this o] o show ?thesis by (simp add: Let_def)
qed

end
