(* ===== verification/Final_Request.thy ===== *)
theory Final_Request
  imports Edge Environment_Align Json_Edit Security Transport_Types
begin

text \<open>
  The request sent upstream: \<^verbatim>\<open>build_final_request\<close> of \<^verbatim>\<open>super-gatewayd/production_dispatcher.rs\<close> with its helpers. The body
  of a Claude Code client gets the system template, the environment and the billing block of the selected profile, its own
  identity is replaced, and it is cut down to what the beta header announces; the headers are rendered from the templates
  of the engine. \<^verbatim>\<open>serde_json\<close>, \<^verbatim>\<open>uuid\<close> and the cryptography are arguments.
\<close>

subsection \<open>Inputs\<close>

record RequestLib =
  rl_crypto :: CryptoLib
  rl_from_str :: "string \<Rightarrow> Json option"
  rl_to_string :: "Json \<Rightarrow> string option"
  rl_show_uuid :: "string \<Rightarrow> string"
  rl_is_uuid :: "string \<Rightarrow> bool"

text \<open>The fields of the selected credential and of the compiled engine that the request is built from.\<close>

record SelectedCredential =
  sc_auth_kind :: string
  sc_auth_secret :: string
  sc_session_hmac :: string
  sc_account_uuid :: string
  sc_device_id :: string
  sc_client_version :: string
  sc_environment :: EnvironmentTarget
  sc_system_template :: "Json option"

record HeaderTemplate =
  ht_name :: string
  ht_value :: string
  ht_sensitive :: bool

record CompiledTransportEngine =
  ce_protocol :: HttpProtocol
  ce_authority :: string
  ce_headers :: "HeaderTemplate list"

subsection \<open>The system of the body\<close>

definition apply_system_template :: "Json \<Rightarrow> Json option \<Rightarrow> Json" where
  "apply_system_template body template =
     (case template of
        None \<Rightarrow> body
      | Some t \<Rightarrow>
          if is_empty_replacement t then body
          else (case json_get ''system'' body of
                  Some system \<Rightarrow> json_put ''system'' (fst (replace_system_static system t)) body
                | None \<Rightarrow> json_put ''system'' (case t of JString s \<Rightarrow> JArray [text_block s] | _ \<Rightarrow> t) body))"

definition align_and_bill :: "RequestLib \<Rightarrow> SelectedCredential \<Rightarrow> Json \<Rightarrow> DispatchError + Json" where
  "align_and_bill L sel body =
     (let user_text = unwrap_or (first_user_text body) [] in
      if \<not> is_object body then Inl DeterministicUnavailable
      else case json_get ''system'' body of
          None \<Rightarrow> Inr body
        | Some system \<Rightarrow>
            (case align_system_environment system (sc_environment sel) of
               Inl _ \<Rightarrow> Inl DeterministicUnavailable
             | Inr (aligned, _) \<Rightarrow>
                 (case ensure_billing_block (cl_sha256 (rl_crypto L)) aligned (sc_client_version sel) user_text
                         (cch_policy_for_version (sc_client_version sel)) of
                    Inl _ \<Rightarrow> Inl DeterministicUnavailable
                  | Inr (billed, _) \<Rightarrow> Inr (json_put ''system'' billed body))))"

subsection \<open>The identity of the client\<close>

definition derive_device_id :: "CryptoLib \<Rightarrow> string \<Rightarrow> int \<Rightarrow> DispatchError + string" where
  "derive_device_id C profile_seed device_epoch =
     (if device_epoch < 1 then Inl DeterministicUnavailable
      else and_then (ok_or DeterministicUnavailable
             (cl_hmac_sha256 C profile_seed (''gateway-device-profile-v1'' @ [CHR 0x00] @ u64_be (of_int device_epoch)))) (\<lambda>digest.
           Inr (concat (map hex_byte digest))))"

definition derive_session_id :: "RequestLib \<Rightarrow> string \<Rightarrow> string \<Rightarrow> DispatchError + string" where
  "derive_session_id L secret base_session =
     and_then (ok_or DeterministicUnavailable
       (cl_hmac_sha256 (rl_crypto L) secret (''gateway-credential-session-v1'' @ [CHR 0x00] @ base_session))) (\<lambda>digest.
     Inr (rl_show_uuid L (uuid_v4_bits (take 16 digest))))"

definition split_once_str :: "string \<Rightarrow> string \<Rightarrow> (string \<times> string) option" where
  "split_once_str p s = map_option (\<lambda>k. (take k s, drop (k + length p) s)) (find_str p s)"

text \<open>The older spelling of an identity, \<^verbatim>\<open>user_<device>_account_<uuid>_session_<uuid>\<close>.\<close>

definition legacy_identity :: "RequestLib \<Rightarrow> string \<Rightarrow> Json option" where
  "legacy_identity L raw =
     Option.bind (strip_prefix ''user_'' raw) (\<lambda>rest.
     Option.bind (split_once_str ''_account_'' rest) (\<lambda>(device, rest).
     Option.bind (split_once_str ''_session_'' rest) (\<lambda>(account, session).
       if length device \<noteq> 64 \<or> \<not> list_all is_ascii_hexdigit device \<or> \<not> rl_is_uuid L account \<or> \<not> rl_is_uuid L session then None
       else Some (JObject [(''device_id'', JString device), (''account_uuid'', JString account), (''session_id'', JString session)]))))"

definition parse_user_id_string :: "RequestLib \<Rightarrow> string \<Rightarrow> Json option" where
  "parse_user_id_string L raw =
     (case rl_from_str L raw of
        Some v \<Rightarrow> if is_object v then Some v else legacy_identity L raw
      | None \<Rightarrow> legacy_identity L raw)"

definition normalize_user_identity ::
  "RequestLib \<Rightarrow> SelectedCredential \<Rightarrow> string \<Rightarrow> (string \<times> Json) list \<Rightarrow> DispatchError + (string \<times> Json) list" where
  "normalize_user_identity L sel session_id identity =
     (let parent = Option.bind (map_of identity ''parent_session_id'') as_str_value;
          identity = obj_insert ''session_id'' (JString session_id)
            (obj_insert ''account_uuid'' (JString (sc_account_uuid sel))
              (obj_insert ''device_id'' (JString (sc_device_id sel)) identity))
      in case parent of
           None \<Rightarrow> Inr identity
         | Some p \<Rightarrow> and_then (derive_session_id L (sc_session_hmac sel) p) (\<lambda>derived.
                    Inr (obj_insert ''parent_session_id'' (JString derived) identity)))"

definition client_identity_of :: "RequestLib \<Rightarrow> Json \<Rightarrow> (string \<times> Json) list" where
  "client_identity_of L metadata =
     (let v = (case json_get ''user_id'' metadata of
                 Some (JString raw) \<Rightarrow> parse_user_id_string L raw
               | Some (JObject m) \<Rightarrow> Some (JObject m)
               | _ \<Rightarrow> None)
      in unwrap_or (Option.bind v as_object) [])"

definition rewrite_metadata_identity :: "RequestLib \<Rightarrow> SelectedCredential \<Rightarrow> string \<Rightarrow> Json \<Rightarrow> DispatchError + Json" where
  "rewrite_metadata_identity L sel session_id body =
     (case json_get ''metadata'' body of
        Some (JObject m) \<Rightarrow>
          and_then (normalize_user_identity L sel session_id (client_identity_of L (JObject m))) (\<lambda>identity.
          and_then (ok_or DeterministicUnavailable (rl_to_string L (JObject identity))) (\<lambda>shown.
          Inr (json_put ''metadata'' (json_put ''user_id'' (JString shown) (JObject m)) body)))
      | _ \<Rightarrow> Inr body)"

subsection \<open>What the beta header announces\<close>

definition beta_contains :: "string \<Rightarrow> string \<Rightarrow> bool" where
  "beta_contains beta name \<longleftrightarrow> name \<in> set (split_on (CHR '','') beta)"

text \<open>The cache point of one object, and then of everything below it.\<close>

definition downgrade_point :: "(string \<times> Json) list \<Rightarrow> (string \<times> Json) list" where
  "downgrade_point m =
     (case map_of m ''cache_control'' of
        Some (JObject c) \<Rightarrow>
          if Option.bind (map_of c ''ttl'') as_str_value = Some ''1h''
          then obj_insert ''cache_control'' (JObject (obj_insert ''ttl'' (JString ''5m'') c)) m else m
      | _ \<Rightarrow> m)"

fun json_nodes :: "Json \<Rightarrow> nat" where
  "json_nodes (JArray vs) = Suc (sum_list (map json_nodes vs))"
| "json_nodes (JObject m) = Suc (sum_list (map (\<lambda>p. json_nodes (snd p)) m))"
| "json_nodes _ = 1"

lemma obj_insert_nodes:
  "map_of m k = Some v \<Longrightarrow>
    sum_list (map (\<lambda>p. json_nodes (snd p)) (obj_insert k w m)) + json_nodes v = sum_list (map (\<lambda>p. json_nodes (snd p)) m) + json_nodes w"
  by (induction m) (auto split: if_splits)

lemma downgrade_point_nodes:
  "sum_list (map (\<lambda>p. json_nodes (snd p)) (downgrade_point m)) = sum_list (map (\<lambda>p. json_nodes (snd p)) m)"
proof (cases "map_of m ''cache_control''")
  case (Some v)
  show ?thesis
  proof (cases v)
    case (JObject c)
    show ?thesis
    proof (cases "Option.bind (map_of c ''ttl'') as_str_value = Some ''1h''")
      case True
      then have "map_of c ''ttl'' = Some (JString ''1h'')" by (auto simp: bind_eq_Some_conv elim: as_str_value.elims)
      from obj_insert_nodes [OF this, of "JString ''5m''"] obj_insert_nodes [OF Some, of "JObject (obj_insert ''ttl'' (JString ''5m'') c)"]
      show ?thesis by (simp add: downgrade_point_def Some JObject True)
    qed (simp add: downgrade_point_def Some JObject)
  qed (simp_all add: downgrade_point_def Some)
qed (simp add: downgrade_point_def)

function downgrade_cache_ttl :: "Json \<Rightarrow> Json" where
  "downgrade_cache_ttl (JArray items) = JArray (map downgrade_cache_ttl items)"
| "downgrade_cache_ttl (JObject m) = JObject (map (\<lambda>p. (fst p, downgrade_cache_ttl (snd p))) (downgrade_point m))"
| "downgrade_cache_ttl JNull = JNull"
| "downgrade_cache_ttl (JBool b) = JBool b"
| "downgrade_cache_ttl (JU64 n) = JU64 n"
| "downgrade_cache_ttl (JI64 n) = JI64 n"
| "downgrade_cache_ttl (JF64 n) = JF64 n"
| "downgrade_cache_ttl (JString s) = JString s"
  by pat_completeness auto
termination
proof (relation "measure json_nodes")
  fix items :: "Json list" and x assume "x \<in> set items"
  then show "(x, JArray items) \<in> measure json_nodes" by (simp add: member_le_sum_list less_Suc_eq_le)
next
  fix m :: "(string \<times> Json) list" and p assume "p \<in> set (downgrade_point m)"
  then have "json_nodes (snd p) \<le> sum_list (map (\<lambda>p. json_nodes (snd p)) (downgrade_point m))"
    by (simp add: member_le_sum_list)
  then show "(snd p, JObject m) \<in> measure json_nodes" by (simp add: downgrade_point_nodes)
qed simp

definition drop_output_config :: "string \<Rightarrow> Json \<Rightarrow> Json" where
  "drop_output_config k body =
     (case json_get ''output_config'' body of
        Some (JObject m) \<Rightarrow> json_put ''output_config'' (json_drop k (JObject m)) body
      | _ \<Rightarrow> body)"

definition thinking_enabled :: "Json \<Rightarrow> bool" where
  "thinking_enabled body \<longleftrightarrow> is_some_and (Option.bind (json_get ''thinking'' body) (str_field ''type'')) (\<lambda>kind. kind \<noteq> ''disabled'')"

definition INTERLEAVED :: string where
  "INTERLEAVED = ''interleaved-thinking-2025-05-14''"

definition drop_unannounced :: "string \<Rightarrow> Json \<Rightarrow> Json" where
  "drop_unannounced beta body =
     (let b = json_drop ''betas'' body;
          b = (if beta_contains beta ''context-management-2025-06-27'' then b else json_drop ''context_management'' b);
          b = (if beta_contains beta ''effort-2025-11-24'' then b else drop_output_config ''effort'' b);
          b = (if \<not> beta_contains beta ''fast-mode-2026-02-01'' \<and> str_field ''speed'' b = Some ''fast'' then json_drop ''speed'' b else b);
          b = (if beta_contains beta ''structured-outputs-2025-12-15'' then b else drop_output_config ''format'' b)
      in if beta_contains beta ''task-budgets-2026-03-13'' then b else drop_output_config ''task_budget'' b)"

definition apply_beta_body_symmetry :: "Json \<Rightarrow> string \<Rightarrow> DispatchError + Json \<times> string" where
  "apply_beta_body_symmetry body beta0 =
     (if \<not> is_object body then Inl DeterministicUnavailable
      else (let b = drop_unannounced beta0 body;
                beta = (if thinking_enabled b \<and> \<not> beta_contains beta0 INTERLEAVED
                        then (if beta0 = [] then INTERLEAVED else beta0 @ '','' @ INTERLEAVED) else beta0)
            in Inr (if beta_contains beta ''extended-cache-ttl-2025-04-11'' then b else downgrade_cache_ttl b, beta)))"

subsection \<open>The final body\<close>

definition DEFAULT_CLAUDE_CODE_BETA :: string where
  "DEFAULT_CLAUDE_CODE_BETA =
     ''claude-code-20250219,oauth-2025-04-20,interleaved-thinking-2025-05-14,prompt-caching-scope-2026-01-05,'' @
     ''effort-2025-11-24,context-management-2025-06-27,extended-cache-ttl-2025-04-11''"

definition claude_body :: "RequestLib \<Rightarrow> DispatchRequest \<Rightarrow> SelectedCredential \<Rightarrow> string \<Rightarrow> DispatchError + Json \<times> string" where
  "claude_body L request sel session_id =
     (let (generic, tree) = dr_generic request;
          body = (if system_template_pending generic then apply_system_template tree (sc_system_template sel) else tree)
      in and_then
           (if attribution_suppressed generic then Inr body
            else and_then (align_and_bill L sel body) (rewrite_metadata_identity L sel session_id)) (\<lambda>body.
         and_then (apply_beta_body_symmetry body DEFAULT_CLAUDE_CODE_BETA) (\<lambda>(body, beta).
         Inr (canonicalize_system_order body, beta))))"

definition body_text :: "u8 list \<Rightarrow> string" where
  "body_text bs = map (\<lambda>b. char_of (unat b)) bs"

text \<open>The bytes of the body, and the beta header that goes with them.\<close>

definition final_body :: "RequestLib \<Rightarrow> DispatchRequest \<Rightarrow> SelectedCredential \<Rightarrow> string \<Rightarrow> DispatchError + string \<times> string" where
  "final_body L request sel session_id =
     (if dr_client_class request = ClaudeCodeCli
      then and_then (claude_body L request sel session_id) (\<lambda>(body, beta).
           and_then (ok_or DeterministicUnavailable (rl_to_string L body)) (\<lambda>bytes. Inr (bytes, beta)))
      else Inr (body_text (rb_bytes (replay_body (fst (dr_generic request)))), unwrap_or (dr_anthropic_beta request) []))"

subsection \<open>Headers\<close>

definition normalize_client_app :: "string option \<Rightarrow> string" where
  "normalize_client_app v = (case v of Some s \<Rightarrow> if s = ''cli'' \<or> s = ''cli-bg'' then s else ''cli'' | None \<Rightarrow> ''cli'')"

record HeaderTemplateFields =
  tf_authority :: string
  tf_authorization :: string
  tf_session_id :: string
  tf_anthropic_version :: string
  tf_anthropic_beta :: string
  tf_content_length :: nat
  tf_retry_count :: u32
  tf_client_request_id :: string

definition template_tokens :: "HeaderTemplateFields \<Rightarrow> (string \<times> string) list" where
  "template_tokens F =
     [(''{authority}'', tf_authority F), (''{authorization}'', tf_authorization F), (''{session_id}'', tf_session_id F),
      (''{anthropic_version}'', tf_anthropic_version F), (''{anthropic_beta}'', tf_anthropic_beta F),
      (''{content_type}'', ''application/json''), (''{content_length}'', show_nat (tf_content_length F)),
      (''{retry_count}'', show_nat (unat (tf_retry_count F))), (''{client_request_id}'', tf_client_request_id F)]"

definition unsafe_in_header :: "char \<Rightarrow> bool" where
  "unsafe_in_header c \<longleftrightarrow> c = CHR ''{'' \<or> c = CHR ''}'' \<or> is_eol c"

definition render_template :: "string \<Rightarrow> HeaderTemplateFields \<Rightarrow> DispatchError + string" where
  "render_template template F =
     (let rendered = fold (\<lambda>(token, v) s. replace_str token v s) (template_tokens F) template
      in if list_ex unsafe_in_header rendered then Inl DeterministicUnavailable else Inr rendered)"

definition FORBIDDEN_HEADERS :: "string list" where
  "FORBIDDEN_HEADERS = [''proxy-connection'', ''proxy-authorization'', ''forwarded'', ''host-forwarded'', ''x-forwarded-host'']"

record HeaderContext =
  hc_claude :: bool
  hc_stream :: bool
  hc_api_key :: bool
  hc_x_app :: string
  hc_fields :: HeaderTemplateFields

record HeaderState =
  hs_headers :: "UpstreamHeader list"
  hs_auth_seen :: bool
  hs_x_app_seen :: bool
  hs_beta_seen :: bool

definition value_template :: "HeaderContext \<Rightarrow> string \<Rightarrow> string \<Rightarrow> string" where
  "value_template X canonical template =
     (if hc_claude X \<and> canonical = ''anthropic-beta'' then tf_anthropic_beta (hc_fields X)
      else if hc_claude X \<and> canonical = ''anthropic-version'' then tf_anthropic_version (hc_fields X)
      else if hc_claude X \<and> canonical = ''x-app'' then hc_x_app X
      else if hc_claude X \<and> canonical = ''x-client-request-id'' then tf_client_request_id (hc_fields X)
      else if hc_claude X \<and> canonical = ''x-stainless-helper-method'' then ''stream''
      else template)"

definition is_credential_name :: "string \<Rightarrow> bool" where
  "is_credential_name canonical \<longleftrightarrow> canonical = ''authorization'' \<or> canonical = ''x-api-key''"

definition credential_header :: "bool \<Rightarrow> string" where
  "credential_header api_key = (if api_key then ''x-api-key'' else ''authorization'')"

fun render_headers :: "HeaderContext \<Rightarrow> HeaderTemplate list \<Rightarrow> HeaderState \<Rightarrow> DispatchError + HeaderState" where
  "render_headers X [] st = Inr st"
| "render_headers X (t # ts) st =
     (let canonical = str_lower (ht_name t) in
      if canonical \<in> set FORBIDDEN_HEADERS then Inl DeterministicUnavailable
      else if hc_claude X \<and> canonical = ''x-stainless-helper-method'' \<and> \<not> hc_stream X then render_headers X ts st
      else and_then (render_template (value_template X canonical (ht_value t)) (hc_fields X)) (\<lambda>v.
        if is_credential_name canonical \<and> (canonical \<noteq> credential_header (hc_api_key X) \<or> hs_auth_seen st)
        then Inl DeterministicUnavailable
        else render_headers X ts
          \<lparr>hs_headers = hs_headers st @ [\<lparr>header_name = ht_name t, header_value = v\<rparr>],
           hs_auth_seen = hs_auth_seen st \<or> is_credential_name canonical,
           hs_x_app_seen = hs_x_app_seen st \<or> (hc_claude X \<and> canonical = ''x-app''),
           hs_beta_seen = hs_beta_seen st \<or> (hc_claude X \<and> canonical = ''anthropic-beta'')\<rparr>))"

text \<open>The headers a Claude Code request must have, and the framing of HTTP/1.1.\<close>

definition complete_headers :: "HeaderContext \<Rightarrow> HttpProtocol \<Rightarrow> HeaderState \<Rightarrow> UpstreamHeader list" where
  "complete_headers X protocol st =
     (let hs = hs_headers st;
          hs = (if hc_claude X \<and> \<not> hs_x_app_seen st then hs @ [\<lparr>header_name = ''x-app'', header_value = hc_x_app X\<rparr>] else hs);
          hs = (if hc_claude X \<and> \<not> hs_beta_seen st
                then hs @ [\<lparr>header_name = ''anthropic-beta'', header_value = tf_anthropic_beta (hc_fields X)\<rparr>] else hs)
      in if protocol = H1 \<and> \<not> list_ex (\<lambda>h. eq_ignore_ascii_case (header_name h) ''content-length'') hs
         then hs @ [\<lparr>header_name = ''Content-Length'', header_value = show_nat (tf_content_length (hc_fields X))\<rparr>] else hs)"

definition endpoint_path :: "DispatchEndpoint \<Rightarrow> bool \<Rightarrow> DispatchError + string" where
  "endpoint_path endpoint api_key =
     and_then (case endpoint of
         DispatchMessages \<Rightarrow> Inr ''/v1/messages''
       | DispatchCountTokens \<Rightarrow> Inr ''/v1/messages/count_tokens''
       | DispatchOpenAi _ \<Rightarrow> Inl DeterministicUnavailable) (\<lambda>path.
     Inr (if api_key then path else path @ ''?beta=true''))"

subsection \<open>The final request\<close>

definition build_final_request ::
  "RequestLib \<Rightarrow> DispatchRequest \<Rightarrow> SelectedCredential \<Rightarrow> CompiledTransportEngine \<Rightarrow> string \<Rightarrow> u32 \<Rightarrow> string \<Rightarrow>
   DispatchError + FinalUpstreamRequest" where
  "build_final_request L request sel engine session_id retry_count client_request_id =
     (let auth = sc_auth_secret sel;
          api_key = (sc_auth_kind sel = ''console_api_key'');
          claude = (dr_client_class request = ClaudeCodeCli)
      in if utf8_chars auth = None \<or> auth = [] \<or> has_line_break auth then Inl DeterministicUnavailable
         else and_then (final_body L request sel session_id) (\<lambda>(body, beta).
         (let F = \<lparr>tf_authority = ce_authority engine,
                   tf_authorization = (if api_key then auth else ''Bearer '' @ auth), tf_session_id = session_id,
                   tf_anthropic_version =
                     (if claude then ''2023-06-01'' else unwrap_or (dr_anthropic_version request) ''2023-06-01''),
                   tf_anthropic_beta = beta, tf_content_length = length body, tf_retry_count = retry_count,
                   tf_client_request_id = client_request_id\<rparr>;
              X = \<lparr>hc_claude = claude, hc_stream = stream_mode (fst (dr_generic request)), hc_api_key = api_key,
                   hc_x_app = normalize_client_app (dr_client_app request), hc_fields = F\<rparr>
          in and_then (render_headers X (ce_headers engine)
                 \<lparr>hs_headers = [], hs_auth_seen = False, hs_x_app_seen = False, hs_beta_seen = False\<rparr>) (\<lambda>st.
             if \<not> hs_auth_seen st then Inl DeterministicUnavailable
             else and_then (endpoint_path (dr_endpoint request) api_key) (\<lambda>path.
             Inr \<lparr>req_method = ''POST'', req_scheme = ''https'', req_authority = ce_authority engine, path_and_query = path,
                  req_headers = complete_headers X (ce_protocol engine) st, req_body = body,
                  req_stream = stream_mode (fst (dr_generic request))\<rparr>)))))"

end
