(* ===== verification/Final_Request_Body.thy ===== *)
theory Final_Request_Body
  imports Final_Request Policy_Properties Edge_Properties
begin

text \<open>The body of a Claude Code request against the beta header sent with it: what \<^verbatim>\<open>apply_beta_body_symmetry\<close> leaves is announced,
  and the later steps keep that; every step keeps the members it is not about.
\<close>

lemma default_beta_facts:
  "beta_contains DEFAULT_CLAUDE_CODE_BETA INTERLEAVED" "\<not> list_ex unsafe_in_header DEFAULT_CLAUDE_CODE_BETA"
  "\<not> has_line_break DEFAULT_CLAUDE_CODE_BETA" "CHR ''{'' \<notin> set DEFAULT_CLAUDE_CODE_BETA"
  by (simp_all add: DEFAULT_CLAUDE_CODE_BETA_def beta_contains_def INTERLEAVED_def unsafe_in_header_def has_line_break_def is_eol_def)

lemma claude_body_beta: "claude_body L request sel session_id = Inr (body, beta) \<Longrightarrow> beta = DEFAULT_CLAUDE_CODE_BETA"
  using default_beta_facts(1)
  by (auto simp: claude_body_def and_then_Inr apply_beta_body_symmetry_def Let_def split: if_splits prod.splits)

subsection \<open>The body and the beta header\<close>

fun no_long_ttl :: "Json \<Rightarrow> bool" where
  "no_long_ttl (JArray items) = list_all no_long_ttl items"
| "no_long_ttl (JObject m) =
     ((case map_of m ''cache_control'' of
         Some (JObject c) \<Rightarrow> Option.bind (map_of c ''ttl'') as_str_value \<noteq> Some ''1h''
       | _ \<Rightarrow> True) \<and> list_all (\<lambda>p. no_long_ttl (snd p)) m)"
| "no_long_ttl _ = True"

definition output_member :: "string \<Rightarrow> Json \<Rightarrow> Json option" where
  "output_member k body = Option.bind (json_get ''output_config'' body) (json_get k)"

definition announced :: "string \<Rightarrow> Json \<Rightarrow> bool" where
  "announced beta body \<longleftrightarrow>
     json_get ''betas'' body = None \<and>
     (beta_contains beta ''context-management-2025-06-27'' \<or> json_get ''context_management'' body = None) \<and>
     (beta_contains beta ''effort-2025-11-24'' \<or> output_member ''effort'' body = None) \<and>
     (beta_contains beta ''fast-mode-2026-02-01'' \<or> str_field ''speed'' body \<noteq> Some ''fast'') \<and>
     (beta_contains beta ''structured-outputs-2025-12-15'' \<or> output_member ''format'' body = None) \<and>
     (beta_contains beta ''task-budgets-2026-03-13'' \<or> output_member ''task_budget'' body = None) \<and>
     (thinking_enabled body \<longrightarrow> beta_contains beta INTERLEAVED) \<and>
     (beta_contains beta ''extended-cache-ttl-2025-04-11'' \<or> no_long_ttl body)"

lemma as_str_downgrade [simp]: "as_str_value (downgrade_cache_ttl v) = as_str_value v"
  by (cases v) simp_all

lemma bind_str_downgrade [simp]: "Option.bind (map_option downgrade_cache_ttl v) as_str_value = Option.bind v as_str_value"
  by (cases v) simp_all

lemma map_of_downgrade_point [simp]: "k \<noteq> ''cache_control'' \<Longrightarrow> map_of (downgrade_point m) k = map_of m k"
  by (simp add: downgrade_point_def split: option.split Json.split)

lemma downgrade_point_short:
  "map_of (downgrade_point m) ''cache_control'' = Some (JObject c) \<Longrightarrow> Option.bind (map_of c ''ttl'') as_str_value \<noteq> Some ''1h''"
  by (auto simp: downgrade_point_def split: option.splits Json.splits if_splits)

lemma map_of_map_snd: "map_of (map (\<lambda>p. (fst p, f (snd p))) m) k = map_option f (map_of m k)"
  by (induction m) auto

lemma downgrade_removes_long_ttl: "no_long_ttl (downgrade_cache_ttl v)"
proof (induction v rule: downgrade_cache_ttl.induct)
  case (2 m)
  let ?m = "map (\<lambda>p. (fst p, downgrade_cache_ttl (snd p))) (downgrade_point m)"
  have "Option.bind (map_of c ''ttl'') as_str_value \<noteq> Some ''1h''" if "map_of ?m ''cache_control'' = Some (JObject c)" for c
  proof -
    from that obtain v where v: "map_of (downgrade_point m) ''cache_control'' = Some v" "downgrade_cache_ttl v = JObject c"
      by (auto simp: map_of_map_snd)
    from v(2) obtain d where d: "v = JObject d" "c = map (\<lambda>p. (fst p, downgrade_cache_ttl (snd p))) (downgrade_point d)"
      by (cases v) auto
    show ?thesis using downgrade_point_short [of m d] v(1) d by (simp add: map_of_map_snd)
  qed
  moreover have "list_all (\<lambda>p. no_long_ttl (snd p)) ?m" using 2 by (auto simp: list_all_iff)
  ultimately show ?case by (auto split: option.splits Json.splits)
qed (auto simp: list_all_iff)

lemma json_get_downgrade:
  "k \<noteq> ''cache_control'' \<Longrightarrow> json_get k (downgrade_cache_ttl v) = map_option downgrade_cache_ttl (json_get k v)"
  by (cases v) (simp_all add: map_of_map_snd)

lemma downgrade_keeps_lookups:
  "json_get k (downgrade_cache_ttl v) = None \<longleftrightarrow> json_get k v = None" if "k \<noteq> ''cache_control''"
  using that by (simp add: json_get_downgrade)

lemma str_field_downgrade: "k \<noteq> ''cache_control'' \<Longrightarrow> str_field k (downgrade_cache_ttl v) = str_field k v"
  by (simp add: str_field_def json_get_downgrade)

lemma output_member_downgrade: "k \<noteq> ''cache_control'' \<Longrightarrow> output_member k (downgrade_cache_ttl v) = None \<longleftrightarrow> output_member k v = None"
  by (cases "json_get ''output_config'' v") (simp_all add: output_member_def json_get_downgrade)

lemma thinking_downgrade: "thinking_enabled (downgrade_cache_ttl v) = thinking_enabled v"
  by (cases "json_get ''thinking'' v") (simp_all add: thinking_enabled_def json_get_downgrade str_field_downgrade)

text \<open>What dropping a member of the output configuration leaves.\<close>

lemma json_get_drop_output: "k \<noteq> ''output_config'' \<Longrightarrow> json_get k (drop_output_config k' v) = json_get k v"
  by (simp add: drop_output_config_def split: option.split Json.split)

lemma keys_distinct_drop_output: "keys_distinct v \<Longrightarrow> keys_distinct (drop_output_config k v)"
  by (simp add: drop_output_config_def keys_distinct_put split: option.split Json.split)

lemma is_object_drop_output [simp]: "is_object (drop_output_config k v) = is_object v"
  by (simp add: drop_output_config_def split: option.split Json.split)

lemma obj_remove_None: "map_of m k = None \<Longrightarrow> map_of (obj_remove k' m) k = None"
  by (auto simp: map_of_eq_None_iff set_obj_remove)

lemma output_member_drop: "output_member k (drop_output_config k v) = None"
proof (cases "json_get ''output_config'' v")
  case (Some w)
  then have "is_object v" by (cases v) (simp_all add: is_object_def)
  with Some show ?thesis by (cases w) (simp_all add: output_member_def drop_output_config_def json_drop_def)
qed (simp add: output_member_def drop_output_config_def)

lemma output_member_drop_None: "output_member k v = None \<Longrightarrow> output_member k (drop_output_config k' v) = None"
proof (cases "json_get ''output_config'' v")
  case (Some w)
  assume "output_member k v = None"
  moreover have "is_object v" using Some by (cases v) (simp_all add: is_object_def)
  ultimately show ?thesis using Some
    by (cases w) (simp_all add: output_member_def drop_output_config_def json_drop_def obj_remove_None)
qed (simp add: output_member_def drop_output_config_def)

text \<open>What is dropped stays dropped, and nothing is dropped that the header announces.\<close>

lemma drop_unannounced_sound:
  assumes "keys_distinct v"
  shows "json_get ''betas'' (drop_unannounced beta v) = None"
    "beta_contains beta ''context-management-2025-06-27'' \<or> json_get ''context_management'' (drop_unannounced beta v) = None"
    "beta_contains beta ''effort-2025-11-24'' \<or> output_member ''effort'' (drop_unannounced beta v) = None"
    "beta_contains beta ''fast-mode-2026-02-01'' \<or> str_field ''speed'' (drop_unannounced beta v) \<noteq> Some ''fast''"
    "beta_contains beta ''structured-outputs-2025-12-15'' \<or> output_member ''format'' (drop_unannounced beta v) = None"
    "beta_contains beta ''task-budgets-2026-03-13'' \<or> output_member ''task_budget'' (drop_unannounced beta v) = None"
    "is_object (drop_unannounced beta v) = is_object v" "keys_distinct (drop_unannounced beta v)"
proof -
  define b1 where "b1 = json_drop ''betas'' v"
  define b2 where "b2 = (if beta_contains beta ''context-management-2025-06-27'' then b1 else json_drop ''context_management'' b1)"
  define b3 where "b3 = (if beta_contains beta ''effort-2025-11-24'' then b2 else drop_output_config ''effort'' b2)"
  define b4 where "b4 = (if \<not> beta_contains beta ''fast-mode-2026-02-01'' \<and> str_field ''speed'' b3 = Some ''fast''
    then json_drop ''speed'' b3 else b3)"
  define b5 where "b5 = (if beta_contains beta ''structured-outputs-2025-12-15'' then b4 else drop_output_config ''format'' b4)"
  define b6 where "b6 = (if beta_contains beta ''task-budgets-2026-03-13'' then b5 else drop_output_config ''task_budget'' b5)"
  have e: "drop_unannounced beta v = b6"
    by (simp only: drop_unannounced_def Let_def b1_def b2_def b3_def b4_def b5_def b6_def)
  have d1: "keys_distinct b1" using assms by (simp add: b1_def keys_distinct_drop)
  then have d2: "keys_distinct b2" by (simp add: b2_def keys_distinct_drop)
  then have d3: "keys_distinct b3" by (simp add: b3_def keys_distinct_drop_output)
  then have d4: "keys_distinct b4" by (simp add: b4_def keys_distinct_drop)
  then have d5: "keys_distinct b5" by (simp add: b5_def keys_distinct_drop_output)
  then show "keys_distinct (drop_unannounced beta v)" by (simp add: e b6_def keys_distinct_drop_output)
  have g6: "json_get k b6 = json_get k b4" if "k \<noteq> ''output_config''" for k
    using that by (simp add: b6_def b5_def json_get_drop_output)
  have g4: "json_get k b4 = json_get k b3" if "k \<noteq> ''speed''" for k
    using that d3 by (simp add: b4_def json_get_drop)
  have g3: "json_get k b3 = json_get k b2" if "k \<noteq> ''output_config''" for k
    using that by (simp add: b3_def json_get_drop_output)
  have "json_get ''betas'' b2 = None" using d1 by (simp add: b2_def json_get_drop) (simp add: b1_def)
  then show "json_get ''betas'' (drop_unannounced beta v) = None" by (simp add: e g6 g4 g3)
  show "beta_contains beta ''context-management-2025-06-27'' \<or> json_get ''context_management'' (drop_unannounced beta v) = None"
    by (simp add: e g6 g4 g3) (simp add: b2_def)
  have "str_field ''speed'' b4 \<noteq> Some ''fast''" if "\<not> beta_contains beta ''fast-mode-2026-02-01''"
    using that by (simp add: b4_def) (simp add: str_field_def)
  then show "beta_contains beta ''fast-mode-2026-02-01'' \<or> str_field ''speed'' (drop_unannounced beta v) \<noteq> Some ''fast''"
    using g6 [of "''speed''"] by (auto simp: e str_field_def)
  have o4: "output_member k b4 = output_member k b3" for k by (simp add: output_member_def g4)
  have "output_member ''effort'' b3 = None" if "\<not> beta_contains beta ''effort-2025-11-24''"
    using that by (simp add: b3_def output_member_drop)
  then show "beta_contains beta ''effort-2025-11-24'' \<or> output_member ''effort'' (drop_unannounced beta v) = None"
    by (cases "beta_contains beta ''effort-2025-11-24''") (simp_all add: e b6_def b5_def o4 output_member_drop_None)
  show "beta_contains beta ''structured-outputs-2025-12-15'' \<or> output_member ''format'' (drop_unannounced beta v) = None"
    by (simp add: e b6_def b5_def output_member_drop output_member_drop_None)
  show "beta_contains beta ''task-budgets-2026-03-13'' \<or> output_member ''task_budget'' (drop_unannounced beta v) = None"
    by (simp add: e b6_def output_member_drop)
  show "is_object (drop_unannounced beta v) = is_object v"
    by (simp add: e b6_def b5_def b4_def b3_def b2_def b1_def)
qed

lemma beta_contains_appended: "beta_contains (beta @ CHR '','' # rest) name \<longleftrightarrow> beta_contains beta name \<or> beta_contains rest name"
  by (simp add: beta_contains_def split_on_concat)

lemma interleaved_itself: "beta_contains INTERLEAVED name \<longleftrightarrow> name = INTERLEAVED"
  by (simp add: beta_contains_def INTERLEAVED_def)

lemma beta_symmetry_sound:
  assumes "apply_beta_body_symmetry v beta0 = Inr (v', beta)" "keys_distinct v"
  shows "announced beta v'" "list_all (beta_contains beta) (filter (\<lambda>n. n \<noteq> []) (split_on (CHR '','') beta0))"
proof -
  define b where "b = drop_unannounced beta0 v"
  define t where "t = (thinking_enabled b \<and> \<not> beta_contains beta0 INTERLEAVED)"
  have beta: "beta = (if t then (if beta0 = [] then INTERLEAVED else beta0 @ '','' @ INTERLEAVED) else beta0)"
    and v': "v' = (if beta_contains beta ''extended-cache-ttl-2025-04-11'' then b else downgrade_cache_ttl b)"
    using assms(1) by (auto simp: apply_beta_body_symmetry_def b_def t_def Let_def split: if_splits)
  have keep: "beta_contains beta n" if "beta_contains beta0 n" "n \<noteq> []" for n
  proof (cases "beta0 = []")
    case True
    then show ?thesis using that by (simp add: beta_contains_def)
  qed (use that in \<open>simp add: beta beta_contains_appended\<close>)
  note d = drop_unannounced_sound [OF assms(2), of beta0, folded b_def]
  have i: "thinking_enabled b \<longrightarrow> beta_contains beta INTERLEAVED"
    by (simp add: beta t_def beta_contains_appended interleaved_itself)
  show "announced beta v'"
  proof (cases "beta_contains beta ''extended-cache-ttl-2025-04-11''")
    case True
    then show ?thesis using d(1-6) i keep by (auto simp: announced_def v')
  next
    case False
    then have v': "v' = downgrade_cache_ttl b" by (simp add: v')
    show ?thesis
      using d(1-6) i keep
      by (auto simp: announced_def v' downgrade_keeps_lookups str_field_downgrade output_member_downgrade thinking_downgrade
          downgrade_removes_long_ttl)
  qed
  show "list_all (beta_contains beta) (filter (\<lambda>n. n \<noteq> []) (split_on (CHR '','') beta0))"
    using keep by (auto simp: list_all_iff beta_contains_def [of beta0])
qed

subsection \<open>The body of a Claude Code request\<close>

lemma keys_distinct_canonical:
  assumes "keys_distinct v"
  shows "keys_distinct (canonicalize_system_order v)" "json_get k (canonicalize_system_order v) = json_get k v"
proof -
  have "keys_distinct (canonicalize_system_order v) \<and> json_get k (canonicalize_system_order v) = json_get k v"
  proof (cases v)
    case (JObject m)
    with assms have "distinct (map fst m)" by (simp add: keys_distinct_def)
    then obtain m' where "canonicalize_system_order (JObject m) = JObject m'" "distinct (map fst m')" "map_of m' = map_of m"
      by (rule canonicalize_keeps)
    then show ?thesis by (simp add: JObject keys_distinct_def)
  qed (simp_all add: canonicalize_system_order_def keys_distinct_def)
  then show "keys_distinct (canonicalize_system_order v)" "json_get k (canonicalize_system_order v) = json_get k v" by blast+
qed

lemma apply_system_template_keeps:
  "keys_distinct v \<Longrightarrow> keys_distinct (apply_system_template v t)"
  "k \<noteq> ''system'' \<Longrightarrow> json_get k (apply_system_template v t) = json_get k v"
  by (simp_all add: apply_system_template_def keys_distinct_put split: option.split)

lemma align_and_bill_keeps:
  "align_and_bill L sel v = Inr v' \<Longrightarrow> keys_distinct v \<Longrightarrow> keys_distinct v'"
  "align_and_bill L sel v = Inr v' \<Longrightarrow> k \<noteq> ''system'' \<Longrightarrow> json_get k v' = json_get k v"
proof -
  have "v' = v \<or> (\<exists>x. v' = json_put ''system'' x v)" if "align_and_bill L sel v = Inr v'"
    using that unfolding align_and_bill_def Let_def by (auto split: if_splits option.splits sum.splits prod.splits)
  then show "align_and_bill L sel v = Inr v' \<Longrightarrow> keys_distinct v \<Longrightarrow> keys_distinct v'"
    "align_and_bill L sel v = Inr v' \<Longrightarrow> k \<noteq> ''system'' \<Longrightarrow> json_get k v' = json_get k v"
    by (auto simp: keys_distinct_put)
qed

lemma rewrite_metadata_keeps:
  "rewrite_metadata_identity L sel sid v = Inr v' \<Longrightarrow> keys_distinct v \<Longrightarrow> keys_distinct v'"
  by (auto simp: rewrite_metadata_identity_def and_then_Inr keys_distinct_put split: option.splits Json.splits)

lemma drop_unannounced_keeps:
  assumes "keys_distinct v" "k \<notin> {''betas'', ''context_management'', ''output_config'', ''speed''}"
  shows "json_get k (drop_unannounced beta v) = json_get k v"
  using assms by (simp add: drop_unannounced_def Let_def json_get_drop_output json_get_drop keys_distinct_drop keys_distinct_drop_output)

lemma default_extended: "beta_contains DEFAULT_CLAUDE_CODE_BETA ''extended-cache-ttl-2025-04-11''"
  by (simp add: DEFAULT_CLAUDE_CODE_BETA_def beta_contains_def)

lemma claude_bodyE:
  assumes "claude_body L request sel session_id = Inr (body, beta)" "keys_distinct (snd (dr_generic request))"
  obtains b where "keys_distinct b" "announced DEFAULT_CLAUDE_CODE_BETA body" "keys_distinct body"
    "\<And>k. k \<notin> {''betas'', ''context_management'', ''output_config'', ''speed''} \<Longrightarrow> json_get k body = json_get k b"
    "attribution_suppressed (fst (dr_generic request)) \<or>
      (\<exists>c. (\<forall>k. k \<noteq> ''system'' \<longrightarrow> json_get k c = json_get k (snd (dr_generic request))) \<and> rewrite_metadata_identity L sel session_id c = Inr b)"
proof -
  obtain generic tree where g: "dr_generic request = (generic, tree)" by (cases "dr_generic request")
  define t where "t = (if system_template_pending generic then apply_system_template tree (sc_system_template sel) else tree)"
  have t: "keys_distinct t" "\<And>k. k \<noteq> ''system'' \<Longrightarrow> json_get k t = json_get k tree"
    using assms(2) by (simp_all add: t_def g apply_system_template_keeps)
  have "and_then (if attribution_suppressed generic then Inr t
      else and_then (align_and_bill L sel t) (rewrite_metadata_identity L sel session_id))
    (\<lambda>body. and_then (apply_beta_body_symmetry body DEFAULT_CLAUDE_CODE_BETA)
      (\<lambda>(body, beta). Inr (canonicalize_system_order body, beta))) = Inr (body, beta)"
    using assms(1) by (simp only: claude_body_def g Let_def prod.case t_def)
  then obtain b c where
    b: "(if attribution_suppressed generic then Inr t else and_then (align_and_bill L sel t) (rewrite_metadata_identity L sel session_id)) = Inr b"
      "apply_beta_body_symmetry b DEFAULT_CLAUDE_CODE_BETA = Inr (c, beta)" "body = canonicalize_system_order c"
    by (auto simp: and_then_Inr split: prod.splits)
  have kb: "keys_distinct b"
    using b(1) t(1) align_and_bill_keeps(1) rewrite_metadata_keeps by (auto simp: and_then_Inr split: if_splits)
  from b(2) have c: "c = drop_unannounced DEFAULT_CLAUDE_CODE_BETA b" "beta = DEFAULT_CLAUDE_CODE_BETA"
    using default_beta_facts(1) default_extended by (auto simp: apply_beta_body_symmetry_def Let_def split: if_splits)
  have kc: "keys_distinct c" using drop_unannounced_sound(8) [OF kb] by (simp add: c)
  have lookups: "json_get k body = json_get k c" for k using keys_distinct_canonical [OF kc] by (simp add: b(3))
  have "announced DEFAULT_CLAUDE_CODE_BETA body"
    using beta_symmetry_sound(1) [OF b(2) kb] default_extended
    by (simp add: announced_def c(2) lookups output_member_def str_field_def thinking_enabled_def)
  moreover have "attribution_suppressed generic \<or>
      (\<exists>c. (\<forall>k. k \<noteq> ''system'' \<longrightarrow> json_get k c = json_get k tree) \<and> rewrite_metadata_identity L sel session_id c = Inr b)"
  proof (cases "attribution_suppressed generic")
    case False
    with b(1) obtain d where d: "align_and_bill L sel t = Inr d" "rewrite_metadata_identity L sel session_id d = Inr b"
      by (auto simp: and_then_Inr)
    then show ?thesis using align_and_bill_keeps(2) [OF d(1)] t(2) by auto
  qed simp
  moreover have "keys_distinct body" using keys_distinct_canonical(1) [OF kc] by (simp add: b(3))
  ultimately show ?thesis
    using that [OF kb] lookups drop_unannounced_keeps [OF kb] by (simp add: c g)
qed

end
