(* ===== verification/Final_Request_Properties.thy ===== *)
theory Final_Request_Properties
  imports Final_Request_Body
begin

text \<open>
  What reaches the upstream: exactly one credential header, of the kind of the credential, and no header that could be
  split; a Claude Code body that uses nothing its beta header does not announce; and the identity of the profile in place
  of that of the client.
\<close>

subsection \<open>Headers\<close>

definition header_is :: "string \<Rightarrow> UpstreamHeader \<Rightarrow> bool" where
  "header_is canonical h \<longleftrightarrow> str_lower (header_name h) = canonical"

definition credential_headers :: "UpstreamHeader list \<Rightarrow> string list" where
  "credential_headers hs = filter is_credential_name (map (\<lambda>h. str_lower (header_name h)) hs)"

definition safe_header :: "UpstreamHeader \<Rightarrow> bool" where
  "safe_header h \<longleftrightarrow> \<not> has_line_break (header_value h) \<and> str_lower (header_name h) \<notin> set FORBIDDEN_HEADERS"

definition headers_inv :: "HeaderContext \<Rightarrow> HeaderState \<Rightarrow> bool" where
  "headers_inv X st \<longleftrightarrow>
     list_all safe_header (hs_headers st) \<and>
     credential_headers (hs_headers st) = (if hs_auth_seen st then [credential_header (hc_api_key X)] else []) \<and>
     (hc_claude X \<longrightarrow> hs_beta_seen st = list_ex (header_is ''anthropic-beta'') (hs_headers st)) \<and>
     (hc_claude X \<and> \<not> list_ex unsafe_in_header (tf_anthropic_beta (hc_fields X)) \<longrightarrow>
        list_all (\<lambda>h. header_is ''anthropic-beta'' h \<longrightarrow> header_value h = tf_anthropic_beta (hc_fields X)) (hs_headers st))"

lemma render_clean: "render_template t F = Inr v \<Longrightarrow> \<not> has_line_break v"
  by (auto simp: render_template_def Let_def has_line_break_def unsafe_in_header_def list_ex_iff split: if_splits)

lemma render_unchanged:
  assumes "\<not> list_ex unsafe_in_header s"
  shows "render_template s F = Inr s"
proof -
  have "CHR ''{'' \<notin> set s" using assms by (auto simp: list_ex_iff unsafe_in_header_def)
  then have "fold (\<lambda>(token, v) s. replace_str token v s) (template_tokens F) s = s"
    by (simp add: template_tokens_def replace_absent)
  then show ?thesis using assms by (simp add: render_template_def)
qed

lemma render_headers_inv:
  "render_headers X ts st = Inr st' \<Longrightarrow> headers_inv X st \<Longrightarrow> headers_inv X st'"
proof (induction X ts st rule: render_headers.induct)
  case (2 X t ts st)
  let ?c = "str_lower (ht_name t)"
  have allowed: "?c \<notin> set FORBIDDEN_HEADERS" using 2(3) by (auto simp: Let_def split: if_splits)
  show ?case
  proof (cases "hc_claude X \<and> ?c = ''x-stainless-helper-method'' \<and> \<not> hc_stream X")
    case True
    then show ?thesis using 2 allowed by (simp add: Let_def)
  next
    case False
    with 2(3) allowed obtain v where
      v: "render_template (value_template X ?c (ht_value t)) (hc_fields X) = Inr v"
        "\<not> (is_credential_name ?c \<and> (?c \<noteq> credential_header (hc_api_key X) \<or> hs_auth_seen st))"
      and r: "render_headers X ts
          \<lparr>hs_headers = hs_headers st @ [\<lparr>header_name = ht_name t, header_value = v\<rparr>],
           hs_auth_seen = hs_auth_seen st \<or> is_credential_name ?c,
           hs_x_app_seen = hs_x_app_seen st \<or> (hc_claude X \<and> ?c = ''x-app''),
           hs_beta_seen = hs_beta_seen st \<or> (hc_claude X \<and> ?c = ''anthropic-beta'')\<rparr> = Inr st'"
      by (auto simp: Let_def and_then_Inr split: if_splits)
    have beta_value: "v = tf_anthropic_beta (hc_fields X)"
      if "hc_claude X" "?c = ''anthropic-beta''" "\<not> list_ex unsafe_in_header (tf_anthropic_beta (hc_fields X))"
      using v(1) render_unchanged [OF that(3)] that(1,2) by (simp add: value_template_def)
    have "headers_inv X
          \<lparr>hs_headers = hs_headers st @ [\<lparr>header_name = ht_name t, header_value = v\<rparr>],
           hs_auth_seen = hs_auth_seen st \<or> is_credential_name ?c,
           hs_x_app_seen = hs_x_app_seen st \<or> (hc_claude X \<and> ?c = ''x-app''),
           hs_beta_seen = hs_beta_seen st \<or> (hc_claude X \<and> ?c = ''anthropic-beta'')\<rparr>"
      using 2(4) v allowed render_clean [OF v(1)] beta_value
      by (auto simp: headers_inv_def credential_headers_def safe_header_def header_is_def split: if_splits)
    from 2(2) [OF refl allowed False v(2) r this] show ?thesis .
  qed
qed simp

lemma name_facts [simp]:
  "str_lower ''x-app'' = ''x-app''" "str_lower ''anthropic-beta'' = ''anthropic-beta''"
  "str_lower ''Content-Length'' = ''content-length''"
  by (code_simp)+

lemma digits_clean: "\<not> has_line_break (show_nat n)"
proof -
  have "\<not> is_eol c" if "c \<in> set (show_nat n)" for c
    using show_nat_digits [OF that] by (auto simp: is_ascii_digit_def is_eol_def)
  then show ?thesis by (auto simp: has_line_break_def list_ex_iff)
qed

lemma app_clean: "\<not> has_line_break (normalize_client_app v)"
  by (simp add: normalize_client_app_def has_line_break_def is_eol_def split: option.split)

lemma complete_headers_sound:
  assumes "headers_inv X st" "hc_claude X \<longrightarrow> \<not> has_line_break (tf_anthropic_beta (hc_fields X))" "\<not> has_line_break (hc_x_app X)"
  shows "list_all safe_header (complete_headers X protocol st)"
    "credential_headers (complete_headers X protocol st) = credential_headers (hs_headers st)"
    "protocol = H1 \<Longrightarrow> list_ex (\<lambda>h. eq_ignore_ascii_case (header_name h) ''content-length'') (complete_headers X protocol st)"
    "hc_claude X \<Longrightarrow> list_ex (header_is ''anthropic-beta'') (complete_headers X protocol st)"
    "h \<in> set (complete_headers X protocol st) \<Longrightarrow> header_is ''anthropic-beta'' h \<Longrightarrow>
      h \<in> set (hs_headers st) \<or> header_value h = tf_anthropic_beta (hc_fields X)"
proof -
  have n: "eq_ignore_ascii_case ''Content-Length'' ''content-length''"
    by code_simp
  show "list_all safe_header (complete_headers X protocol st)"
    using assms digits_clean
    by (auto simp: complete_headers_def Let_def headers_inv_def safe_header_def FORBIDDEN_HEADERS_def)
  show "credential_headers (complete_headers X protocol st) = credential_headers (hs_headers st)"
    by (simp add: complete_headers_def Let_def credential_headers_def is_credential_name_def)
  show "protocol = H1 \<Longrightarrow> list_ex (\<lambda>h. eq_ignore_ascii_case (header_name h) ''content-length'') (complete_headers X protocol st)"
    using n by (auto simp: complete_headers_def Let_def)
  show "hc_claude X \<Longrightarrow> list_ex (header_is ''anthropic-beta'') (complete_headers X protocol st)"
    using assms(1) by (auto simp: complete_headers_def Let_def headers_inv_def header_is_def)
  show "h \<in> set (complete_headers X protocol st) \<Longrightarrow> header_is ''anthropic-beta'' h \<Longrightarrow>
      h \<in> set (hs_headers st) \<or> header_value h = tf_anthropic_beta (hc_fields X)"
    by (auto simp: complete_headers_def Let_def header_is_def split: if_splits)
qed

subsection \<open>The final request\<close>

text \<open>The parts of a final request.\<close>

lemma build_final_requestE:
  assumes "build_final_request L request sel engine session_id retry_count rid = Inr f"
  obtains X st beta where
    "final_body L request sel session_id = Inr (req_body f, beta)" "tf_anthropic_beta (hc_fields X) = beta"
    "render_headers X (ce_headers engine) \<lparr>hs_headers = [], hs_auth_seen = False, hs_x_app_seen = False, hs_beta_seen = False\<rparr> = Inr st"
    "hs_auth_seen st" "req_headers f = complete_headers X (ce_protocol engine) st"
    "hc_claude X = (dr_client_class request = ClaudeCodeCli)" "hc_api_key X = (sc_auth_kind sel = ''console_api_key'')"
    "hc_x_app X = normalize_client_app (dr_client_app request)" "headers_inv X st"
proof -
  from assms obtain body beta where b: "final_body L request sel session_id = Inr (body, beta)"
    by (auto simp: build_final_request_def Let_def and_then_Inr split: if_splits)
  define F where "F = \<lparr>tf_authority = ce_authority engine,
                   tf_authorization = (if sc_auth_kind sel = ''console_api_key'' then sc_auth_secret sel else ''Bearer '' @ sc_auth_secret sel),
                   tf_session_id = session_id,
                   tf_anthropic_version =
                     (if dr_client_class request = ClaudeCodeCli then ''2023-06-01'' else unwrap_or (dr_anthropic_version request) ''2023-06-01''),
                   tf_anthropic_beta = beta, tf_content_length = length body, tf_retry_count = retry_count,
                   tf_client_request_id = rid\<rparr>"
  define X where "X = \<lparr>hc_claude = (dr_client_class request = ClaudeCodeCli), hc_stream = stream_mode (fst (dr_generic request)),
                   hc_api_key = (sc_auth_kind sel = ''console_api_key''),
                   hc_x_app = normalize_client_app (dr_client_app request), hc_fields = F\<rparr>"
  from assms b obtain st where
    s: "render_headers X (ce_headers engine) \<lparr>hs_headers = [], hs_auth_seen = False, hs_x_app_seen = False, hs_beta_seen = False\<rparr> = Inr st"
      "hs_auth_seen st" "req_headers f = complete_headers X (ce_protocol engine) st" "req_body f = body"
    unfolding X_def F_def
    by (auto simp: build_final_request_def Let_def and_then_Inr split: if_splits)
  have "headers_inv X \<lparr>hs_headers = [], hs_auth_seen = False, hs_x_app_seen = False, hs_beta_seen = False\<rparr>"
    by (simp add: headers_inv_def credential_headers_def)
  from that [OF _ _ s(1,2,3) _ _ _ render_headers_inv [OF s(1) this]] b s(4) show ?thesis by (simp add: X_def F_def)
qed

text \<open>A request goes out with exactly one credential header, of the kind of its credential; no header value holds a line break
  and none of the proxy headers is sent, whatever the templates and the client say; HTTP/1.1 requests are framed.
\<close>

theorem final_request_headers_sound:
  assumes "build_final_request L request sel engine session_id retry_count rid = Inr f"
  shows "credential_headers (req_headers f) = [credential_header (sc_auth_kind sel = ''console_api_key'')] \<and>
    list_all safe_header (req_headers f) \<and>
    (if ce_protocol engine = H1 then list_ex (\<lambda>h. eq_ignore_ascii_case (header_name h) ''content-length'') (req_headers f) else True)"
proof -
  from build_final_requestE [OF assms] obtain X st beta where
    b: "final_body L request sel session_id = Inr (req_body f, beta)" "tf_anthropic_beta (hc_fields X) = beta"
    and s: "hs_auth_seen st" "req_headers f = complete_headers X (ce_protocol engine) st"
      "hc_claude X = (dr_client_class request = ClaudeCodeCli)" "hc_api_key X = (sc_auth_kind sel = ''console_api_key'')"
      "hc_x_app X = normalize_client_app (dr_client_app request)" "headers_inv X st" by metis
  have v: "hc_claude X \<longrightarrow> \<not> has_line_break (tf_anthropic_beta (hc_fields X))"
    using b s(3) default_beta_facts(3) by (auto simp: final_body_def and_then_Inr dest!: claude_body_beta)
  have x: "\<not> has_line_break (hc_x_app X)" by (simp add: s(5) app_clean)
  note c = complete_headers_sound [where protocol = "ce_protocol engine", OF s(6) v x]
  have "credential_headers (hs_headers st) = [credential_header (hc_api_key X)]" using s(1,6) by (simp add: headers_inv_def)
  with c s show ?thesis by simp
qed

lemma claude_final_body:
  assumes "final_body L request sel session_id = Inr (bytes, beta)" "dr_client_class request = ClaudeCodeCli"
  obtains tree where "claude_body L request sel session_id = Inr (tree, beta)" "rl_to_string L tree = Some bytes"
  using assms by (auto simp: final_body_def and_then_Inr ok_or_def split: option.splits)

text \<open>The body of a Claude Code request uses no member and no cache lifetime that its beta header does not announce, and the
  header that goes with it is always there and says exactly that.
\<close>

theorem claude_request_matches_beta:
  assumes "build_final_request L request sel engine session_id retry_count rid = Inr f"
    "dr_client_class request = ClaudeCodeCli" "keys_distinct (snd (dr_generic request))"
  shows "(\<exists>tree. rl_to_string L tree = Some (req_body f) \<and> announced DEFAULT_CLAUDE_CODE_BETA tree) \<and>
    list_ex (header_is ''anthropic-beta'') (req_headers f) \<and>
    list_all (\<lambda>h. header_value h = DEFAULT_CLAUDE_CODE_BETA) (filter (header_is ''anthropic-beta'') (req_headers f))"
proof -
  from build_final_requestE [OF assms(1)] obtain X st beta where
    b: "final_body L request sel session_id = Inr (req_body f, beta)" "tf_anthropic_beta (hc_fields X) = beta"
    and s: "req_headers f = complete_headers X (ce_protocol engine) st"
      "hc_claude X = (dr_client_class request = ClaudeCodeCli)"
      "hc_x_app X = normalize_client_app (dr_client_app request)" "headers_inv X st" by metis
  from claude_final_body [OF b(1) assms(2)] obtain tree where
    t: "claude_body L request sel session_id = Inr (tree, beta)" "rl_to_string L tree = Some (req_body f)" .
  from claude_bodyE [OF t(1) assms(3)] have a: "announced DEFAULT_CLAUDE_CODE_BETA tree" by metis
  have beta: "tf_anthropic_beta (hc_fields X) = DEFAULT_CLAUDE_CODE_BETA" using b(2) claude_body_beta [OF t(1)] by simp
  have claude: "hc_claude X" using s(2) assms(2) by simp
  have x: "\<not> has_line_break (hc_x_app X)" by (simp add: s(3) app_clean)
  have v: "hc_claude X \<longrightarrow> \<not> has_line_break (tf_anthropic_beta (hc_fields X))" by (simp add: beta default_beta_facts)
  note c = complete_headers_sound [where protocol = "ce_protocol engine", OF s(4) v x]
  have "header_value h = DEFAULT_CLAUDE_CODE_BETA"
    if "h \<in> set (req_headers f)" "header_is ''anthropic-beta'' h" for h
    using c(5) [of h] that s(4) claude beta default_beta_facts(2) by (auto simp: s(1) headers_inv_def list_all_iff)
  then show ?thesis using t(2) a c(4) [OF claude] by (auto simp: s(1) list_all_iff)
qed

text \<open>
  The identity in the metadata is the one of the profile: the device, account and session of the client do not reach the
  upstream, and the session it names as its parent goes out as a keyed digest.
\<close>

definition profile_identity ::
  "RequestLib \<Rightarrow> SelectedCredential \<Rightarrow> string \<Rightarrow> (string \<times> Json) list \<Rightarrow> (string \<times> Json) list \<Rightarrow> bool" where
  "profile_identity L sel session_id client identity \<longleftrightarrow>
     map_of identity ''device_id'' = Some (JString (sc_device_id sel)) \<and>
     map_of identity ''account_uuid'' = Some (JString (sc_account_uuid sel)) \<and>
     map_of identity ''session_id'' = Some (JString session_id) \<and>
     (case Option.bind (map_of client ''parent_session_id'') as_str_value of
        None \<Rightarrow> map_of identity ''parent_session_id'' = map_of client ''parent_session_id''
      | Some p \<Rightarrow> \<exists>derived. derive_session_id L (sc_session_hmac sel) p = Inr derived \<and>
                  map_of identity ''parent_session_id'' = Some (JString derived))"

lemma normalize_identity_sound:
  assumes "normalize_user_identity L sel session_id client = Inr identity"
  shows "profile_identity L sel session_id client identity"
  using assms
  by (cases "Option.bind (map_of client ''parent_session_id'') as_str_value")
    (auto simp: normalize_user_identity_def profile_identity_def Let_def and_then_Inr)

theorem claude_identity_replaced:
  assumes "build_final_request L request sel engine session_id retry_count rid = Inr f"
    "dr_client_class request = ClaudeCodeCli" "keys_distinct (snd (dr_generic request))"
    "\<not> attribution_suppressed (fst (dr_generic request))"
    "json_get ''metadata'' (snd (dr_generic request)) = Some (JObject m)"
  shows "\<exists>tree identity shown. rl_to_string L tree = Some (req_body f) \<and>
    json_get ''metadata'' tree = Some (JObject (obj_insert ''user_id'' (JString shown) m)) \<and>
    rl_to_string L (JObject identity) = Some shown \<and>
    profile_identity L sel session_id (client_identity_of L (JObject m)) identity"
proof -
  from build_final_requestE [OF assms(1)] obtain beta where
    b: "final_body L request sel session_id = Inr (req_body f, beta)" by metis
  from claude_final_body [OF b assms(2)] obtain tree where
    t: "claude_body L request sel session_id = Inr (tree, beta)" "rl_to_string L tree = Some (req_body f)" .
  obtain d where "keys_distinct d" "announced DEFAULT_CLAUDE_CODE_BETA tree" "keys_distinct tree"
    and k: "\<And>k. k \<notin> {''betas'', ''context_management'', ''output_config'', ''speed''} \<Longrightarrow> json_get k tree = json_get k d"
      "attribution_suppressed (fst (dr_generic request)) \<or>
      (\<exists>c. (\<forall>k. k \<noteq> ''system'' \<longrightarrow> json_get k c = json_get k (snd (dr_generic request))) \<and> rewrite_metadata_identity L sel session_id c = Inr d)"
    by (rule claude_bodyE [OF t(1) assms(3)], rule that)
  have d1: "json_get ''metadata'' tree = json_get ''metadata'' d" by (rule k(1)) simp
  from k(2) assms(4) obtain c where
    d: "\<forall>k. k \<noteq> ''system'' \<longrightarrow> json_get k c = json_get k (snd (dr_generic request))"
      "rewrite_metadata_identity L sel session_id c = Inr d" by blast
  have m: "json_get ''metadata'' c = Some (JObject m)" using d(1) assms(5) by simp
  then have o: "is_object c" by (cases c) (simp_all add: is_object_def)
  from d(2) m obtain identity shown where
    i: "normalize_user_identity L sel session_id (client_identity_of L (JObject m)) = Inr identity"
      "rl_to_string L (JObject identity) = Some shown"
      "d = json_put ''metadata'' (json_put ''user_id'' (JString shown) (JObject m)) c"
    by (auto simp: rewrite_metadata_identity_def and_then_Inr ok_or_def split: option.splits)
  have "json_get ''metadata'' tree = Some (JObject (obj_insert ''user_id'' (JString shown) m))"
    using o by (simp add: d1 i(3)) (simp add: json_put_def)
  then show ?thesis using t(2) i(2) normalize_identity_sound [OF i(1)] by blast
qed

end
