(* ===== verification/Final_Request_Cases.thy ===== *)
theory Final_Request_Cases
  imports Final_Request_Properties Edge_Cases Security_Cases
begin

text \<open>A Claude Code request with an identity of its own and a member that no header announces.\<close>

text \<open>A reader that knows one text and a printer that knows two.\<close>

definition sample_user_identity :: "(string \<times> Json) list" where
  "sample_user_identity =
     [(''device_id'', JString ''device''), (''account_uuid'', JString ''account''), (''session_id'', JString ''session'')]"

definition sample_request_lib :: RequestLib where
  "sample_request_lib =
     \<lparr>rl_crypto = clear_lib, rl_from_str = (\<lambda>_. None),
      rl_to_string = (\<lambda>v. Some (if v = JObject sample_user_identity then ''identity'' else ''body'')), rl_show_uuid = id,
      rl_is_uuid = (\<lambda>_. False)\<rparr>"

definition sample_tree :: Json where
  "sample_tree =
     JObject [(''metadata'', JObject [(''user_id'', JString ''client'')]), (''betas'', JArray []), (''messages'', JArray [])]"

definition sample_generic :: GenericAdjustedRequest where
  "sample_generic =
     \<lparr>replay_body = \<lparr>rb_bytes = [], rb_reused_original = False\<rparr>, body_digest = Digest ''d'', model_id = ''m'', stream_mode = True,
      portability = Portable, attribution_suppressed = False, system_template_pending = False, change_set = [],
      snapshot_set = sample_snapshots\<rparr>"

definition sample_claude_request :: DispatchRequest where
  "sample_claude_request =
     \<lparr>dr_endpoint = DispatchMessages, dr_request_id = TypedId ''r'', dr_client_identity = \<lparr>ci_name = None, ci_version = None\<rparr>,
      dr_owner_user_id = TypedId ''u'', dr_platform_key_id = TypedId ''k'', dr_group_id = TypedId ''g'',
      dr_base_session_id = TypedId ''s'', dr_agent_id = TypedId ''a'', dr_client_class = ClaudeCodeCli, dr_client_app = None,
      dr_client_os = Linux, dr_os_resolution = GroupDefault, dr_os_mismatch = False, dr_identity_conflict = False,
      dr_accepted_at = 0, dr_pre_upstream_deadline = 0, dr_original_body = [],
      dr_generic = (sample_generic, sample_tree), dr_anthropic_version = None, dr_anthropic_beta = None\<rparr>"

definition sample_selected :: SelectedCredential where
  "sample_selected =
     \<lparr>sc_auth_kind = ''oauth'', sc_auth_secret = ''token'', sc_session_hmac = ''key'', sc_account_uuid = ''account'',
      sc_device_id = ''device'', sc_client_version = ''2.0.0'',
      sc_environment = \<lparr>et_os_family = OsLinux, et_shell = None, et_os_version = None\<rparr>, sc_system_template = None\<rparr>"

definition sample_transport_engine :: CompiledTransportEngine where
  "sample_transport_engine =
     \<lparr>ce_protocol = H1, ce_authority = ''api.anthropic.com'',
      ce_headers = [\<lparr>ht_name = ''Authorization'', ht_value = ''{authorization}'', ht_sensitive = True\<rparr>]\<rparr>"

definition sample_upstream :: "DispatchError + FinalUpstreamRequest" where
  "sample_upstream = build_final_request sample_request_lib sample_claude_request sample_selected sample_transport_engine ''session'' 0 ''id''"

lemma sample_built: "\<exists>f. sample_upstream = Inr f"
proof -
  have "case sample_upstream of Inl _ \<Rightarrow> False | Inr _ \<Rightarrow> True" by code_simp
  then show ?thesis by (auto split: sum.splits)
qed

lemma sample_unsuppressed: "attribution_suppressed (fst (dr_generic sample_claude_request)) = False"
  by code_simp

lemma sample_class: "dr_client_class sample_claude_request = ClaudeCodeCli"
  by code_simp

lemma sample_tree_keys: "keys_distinct (snd (dr_generic sample_claude_request))"
  by code_simp

lemma sample_metadata:
  "json_get ''metadata'' (snd (dr_generic sample_claude_request)) = Some (JObject [(''user_id'', JString ''client'')])"
  by code_simp

theorem final_request_headers_sound_witness:
  "\<exists>f. sample_upstream = Inr f \<and> credential_headers (req_headers f) = [credential_header False]"
proof -
  from sample_built obtain f where f: "sample_upstream = Inr f" ..
  have "sc_auth_kind sample_selected \<noteq> ''console_api_key''" by code_simp
  with final_request_headers_sound [OF f [unfolded sample_upstream_def]] f show ?thesis by auto
qed

theorem claude_request_matches_beta_witness:
  "\<exists>f. sample_upstream = Inr f \<and> list_ex (header_is ''anthropic-beta'') (req_headers f)"
proof -
  from sample_built obtain f where f: "sample_upstream = Inr f" ..
  from claude_request_matches_beta [OF f [unfolded sample_upstream_def] sample_class sample_tree_keys] f show ?thesis by blast
qed

theorem claude_identity_replaced_witness:
  "\<exists>f tree identity. sample_upstream = Inr f \<and> rl_to_string sample_request_lib tree = Some (req_body f) \<and>
    map_of identity ''device_id'' = Some (JString ''device'')"
proof -
  from sample_built obtain f where f: "sample_upstream = Inr f" ..
  from claude_identity_replaced [OF f [unfolded sample_upstream_def] sample_class sample_tree_keys _ sample_metadata] sample_unsuppressed
  obtain tree identity where "rl_to_string sample_request_lib tree = Some (req_body f)"
    "profile_identity sample_request_lib sample_selected ''session'' (client_identity_of sample_request_lib (JObject [(''user_id'', JString ''client'')])) identity"
    by blast
  with f show ?thesis by (auto simp: profile_identity_def sample_selected_def)
qed

text \<open>An environment block whose platform is replaced, and whose shell is already the one of the profile.\<close>

definition sample_environment :: string where
  "sample_environment = ''Platform:win32'' @ [CHR 0x0A] @ ''Shell:zsh''"

definition sample_target :: EnvironmentTarget where
  "sample_target = \<lparr>et_os_family = OsLinux, et_shell = Some ''zsh'', et_os_version = None\<rparr>"

lemma sample_lines: "split_inclusive (CHR 0x0A) sample_environment = [''Platform:win32'' @ [CHR 0x0A], ''Shell:zsh'']"
  by code_simp

lemma sample_fields:
  "env_field sample_environment ''Platform:'' = Some \<lparr>ef_value = ''win32'', ef_range = (9, 14)\<rparr>"
  "env_field sample_environment ''Shell:'' = Some \<lparr>ef_value = ''zsh'', ef_range = (21, 24)\<rparr>"
  "env_field sample_environment ''OS Version:'' = None"
  unfolding env_field_def sample_lines
  by (simp_all add: strip_bullet_def trim_start_id trim_visible visible_def is_whitespace_def trim_end_matches_def is_eol_def
      strip_prefix_def starts_with_def sample_environment_def)

lemma sample_edits: "environment_edits (parse_environment 0 sample_environment) sample_target = [((9, 14), ''linux''), ((21, 24), ''zsh'')]"
  by (simp add: environment_edits_def push_edit_def parse_environment_def sample_fields sample_target_def)

lemma sample_rightmost: "rightmost_first [((9, 14), ''linux''), ((21, 24), ''zsh'')] = [((21, 24), ''zsh''), ((9, 14), ''linux'')]"
  by (simp add: rightmost_first_def)

lemma sample_aligned:
  "align_text (parse_environment 0 sample_environment) sample_target sample_environment =
     Inr (''Platform:linux'' @ [CHR 0x0A] @ ''Shell:zsh'', True)"
  unfolding align_text_def sample_edits sample_rightmost unfolding sample_environment_def
  by (simp add: str_get_def is_char_boundary_def is_continuation_def slice_def replace_range_def)

theorem alignment_touches_values_only_witness:
  "splice (sort_key (\<lambda>e. fst (fst e)) (environment_edits (parse_environment 0 sample_environment) sample_target)) 0 sample_environment =
     ''Platform:linux'' @ [CHR 0x0A] @ ''Shell:zsh''"
  using alignment_touches_values_only [OF sample_aligned] by (simp add: Let_def)

end
