(* ===== verification/Spec2Isabelle.thy ===== *)
theory Spec2Isabelle
  imports Scheduler_Flow Retry Attempt Credential_Properties Connection_Pool Http1 Transport_Events
    Quota_Headers Usage_Properties Policy_Cases Edge_Cases Security_Cases Openai_Cases Final_Request_Cases
begin

text \<open>
  Verification of the Super Gateway, an enterprise gateway in front of the Anthropic API.

  \<^bold>\<open>The program.\<close> A request enters through the HTTP API (\<^verbatim>\<open>gateway-api\<close>), is checked and rewritten by the policy
  (\<^verbatim>\<open>gateway-policy\<close>), and asks the scheduler of its group (\<^verbatim>\<open>gateway-scheduler\<close>) for a lease on one of the
  group's credentials (\<^verbatim>\<open>gateway-domain\<close>). With the lease the request task runs attempts over the transport
  (\<^verbatim>\<open>gateway-transport\<close>), observes what the response used (\<^verbatim>\<open>gateway-services\<close>), and releases the lease. State
  is persisted by \<^verbatim>\<open>gateway-storage\<close>; the process is put together in \<^verbatim>\<open>super-gatewayd\<close>. This development
  models the parts that decide: the data plane of the HTTP API, the request policy and the scheduler as a whole, the
  credential rules, the retry and attempt rules, the connection pool, the HTTP/1.1 codec, the transport events, the usage and quota
  readers, the secrets, the OpenAI services with their relay, and the request that is finally sent upstream.

  \<^bold>\<open>Foundations.\<close> \<^verbatim>\<open>Prelude\<close> has the Rust integers (words; release builds wrap, the saturating and
  checked variants are written out), durations, results, and the locale \<open>invariant_system\<close> of transition
  systems with an invariant. \<^verbatim>\<open>Ordered_Map\<close> models \<^verbatim>\<open>BTreeMap\<close> as the list of its entries in key order, and
  \<^verbatim>\<open>sort_by\<close> and \<^verbatim>\<open>min_by\<close> over comparators (locale \<open>comparator\<close>). \<^verbatim>\<open>Load_Order\<close> has the fraction
  comparison that two components share. \<^verbatim>\<open>Text_Codec\<close> has the text operations of the wire formats: ASCII case
  folding, UTF-8 with \<^verbatim>\<open>trim\<close>, and decimals with their round trip. \<^verbatim>\<open>Domain_Types\<close> has the identifiers, requests
  and readiness of \<^verbatim>\<open>gateway-domain\<close> (\<^verbatim>\<open>ids.rs\<close>, \<^verbatim>\<open>error.rs\<close>, \<^verbatim>\<open>request.rs\<close>, \<^verbatim>\<open>readiness.rs\<close>).

  \<^bold>\<open>The scheduler.\<close> \<^verbatim>\<open>Token_Bucket\<close> is \<^verbatim>\<open>token_bucket.rs\<close> with its 128-bit fixed-point arithmetic: refilling in
  two steps is refilling in one, the tokens granted over any window are bounded whatever came before it, and waiting for
  \<open>retry_after\<close> suffices. \<^verbatim>\<open>Fair_Queue\<close> is \<^verbatim>\<open>fair_queue.rs\<close>: the four levels are instances of one ring
  (locales for a child queue, interpreted level by level), popping refines a family of FIFO queues, is work
  conserving, and a round serves every user. \<^verbatim>\<open>Scheduler_Types\<close> is \<^verbatim>\<open>types.rs\<close>. \<^verbatim>\<open>Engine_State\<close> and
  \<^verbatim>\<open>Engine_Ops\<close> are \<^verbatim>\<open>engine.rs\<close>: one record for \<^verbatim>\<open>SchedulerEngine\<close>, one definition per method
  (\<open>admit\<close>, \<open>pump\<close>, \<open>release_lease\<close>, \<open>replace_lease\<close>, \<open>cancel\<close>, \<open>disable\<close> and the observation,
  reconfiguration and fencing methods), loops as recursive definitions. \<^verbatim>\<open>Engine_Eval\<close> is about
  \<open>evaluate_pool\<close>: the chosen credential is ready and no ready one is better. \<^verbatim>\<open>Engine_Invariant\<close> and
  \<^verbatim>\<open>Engine_Sound\<close> prove the invariant of the engine for every operation; \<^verbatim>\<open>Actor\<close> is \<^verbatim>\<open>actor.rs\<close>, the
  bounded mailbox, the command loop with dropped reply receivers, and the states an actor can reach.
  \<^verbatim>\<open>Scheduler_Properties\<close> and \<^verbatim>\<open>Scheduler_Flow\<close> have the consequences: load, ownership and the resource
  ledger in every reachable state, sound grants, grants without waiting when nothing stands in the way, exactly-once release, all-or-nothing replacement, conservation
  of requests by the pump, draining, cancellation and affinity. \<^verbatim>\<open>Retry\<close> is \<^verbatim>\<open>retry.rs\<close> and \<^verbatim>\<open>Attempt\<close> is
  \<^verbatim>\<open>attempt.rs\<close>, the attempt accounting of a request.

  \<^bold>\<open>Credentials.\<close> \<^verbatim>\<open>Credential_Domain\<close> is \<^verbatim>\<open>gateway-domain/credential.rs\<close>: epochs, the canonical status, lifecycle
  operations, egress and archetype selection, enrollment, maintenance and refresh;
  \<^verbatim>\<open>Credential_Properties\<close> has their properties.

  \<^bold>\<open>The request policy.\<close> \<^verbatim>\<open>Json_Value\<close> has the values of \<^verbatim>\<open>serde_json\<close> (objects keep their insertion order),
  \<^verbatim>\<open>Text_Search\<close> the searching and splitting methods of \<^verbatim>\<open>str\<close>, \<^verbatim>\<open>Json_Compare\<close> numbers (an \<^verbatim>\<open>f64\<close> is its bit pattern with
  the IEEE order) and the equality of values, \<^verbatim>\<open>Json_Pointer\<close> JSON pointers. On them, \<^verbatim>\<open>System_Segments\<close> is
  \<^verbatim>\<open>system_segments.rs\<close>: the reported byte ranges are exact. \<^verbatim>\<open>System_Rewrite\<close> is \<^verbatim>\<open>system_rewrite.rs\<close>: a replacement keeps
  the billing and dynamic blocks and the budget of cache breakpoints. \<^verbatim>\<open>Billing\<close> is \<^verbatim>\<open>billing.rs\<close>: ensuring the
  attribution block is idempotent. \<^verbatim>\<open>Request_Parser\<close> is \<^verbatim>\<open>parser.rs\<close>: the visitor accepts exactly the complete
  documents without duplicate keys. \<^verbatim>\<open>Capability\<close> is \<^verbatim>\<open>capability.rs\<close>; \<^verbatim>\<open>Capability_Properties\<close> shows that merging rules
  intersects what they accept and that a validated request conforms to every active rule. \<^verbatim>\<open>Policy_Engine\<close> is
  \<^verbatim>\<open>engine.rs\<close>: rule sets, enforcement, portability and the pipeline of a request; \<^verbatim>\<open>Policy_Properties\<close> shows that model and
  messages are never changed, what the enforcement of the group makes of the \<^verbatim>\<open>system\<close> its rules leave and that the replayed bytes are
  consistent; \<^verbatim>\<open>Policy_Cases\<close> has the concrete requests and the corner cases of rule actions.

  \<^bold>\<open>The data plane.\<close> \<^verbatim>\<open>Float_Round\<close> is the arithmetic of \<^verbatim>\<open>f64\<close> on the finite values that occur: rationals, rounded
  half to even to 53 bits after every operation. \<^verbatim>\<open>Edge_Limits\<close> has the rate limiter, the concurrency limiter and the
  cache of client operating systems: a burst is served exactly and the next request is refused. \<^verbatim>\<open>Edge_Request\<close> has
  what \<^verbatim>\<open>gateway-api/edge.rs\<close> reads off a request: secrets, framing, the source address, the class of the client. \<^verbatim>\<open>Edge\<close>
  is \<open>edge_entry\<close> and \<open>messages\<close> with every gate in the order of the code, over one record for the state of the process;
  it calls the policy (\<open>process\<close>, \<open>process_count_tokens\<close>) and counts permits. \<^verbatim>\<open>Edge_Delivery\<close> is the body stream and the WebSocket
  delivery with the errors of \<^verbatim>\<open>gateway-services/response.rs\<close>: however a stream is polled and dropped, it settles once.
  \<^verbatim>\<open>Edge_Properties\<close> shows that a dispatched request passed every gate, that a permit is held exactly by a request that
  is being served, which source address counts, and that paging through the models shows every visible one once;
  \<^verbatim>\<open>Edge_Cases\<close> has concrete requests.

  \<^bold>\<open>Transport.\<close> \<^verbatim>\<open>Transport_Types\<close> has the failures of \<^verbatim>\<open>error.rs\<close> and the routes of \<^verbatim>\<open>gateway-domain/transport.rs\<close>.
  \<^verbatim>\<open>Connection_Pool\<close> is \<^verbatim>\<open>pool.rs\<close>: the catalog refines a stack of connections per shard with a growing set of
  retired shards; connections are isolated, conserved, and never accepted again once retired.
  \<^verbatim>\<open>Http1\<close> is \<^verbatim>\<open>h1.rs\<close>: what the writer writes is read back by a reference reader, and the framing of a
  response is never ambiguous. \<^verbatim>\<open>Transport_Events\<close> is \<^verbatim>\<open>attempt.rs\<close> and \<^verbatim>\<open>event.rs\<close>: a sink is an interface (locale
  \<open>event_sink\<close>, interpreted on the in-memory sink and on the validating sink over it), and the validating
  sink keeps the log of any inner sink in life-cycle order.

  \<^bold>\<open>Usage and quota.\<close> \<^verbatim>\<open>Quota_Headers\<close> is \<^verbatim>\<open>gateway-services/quota.rs\<close>. \<^verbatim>\<open>Usage\<close> is
  \<^verbatim>\<open>gateway-services/usage.rs\<close> over the values of \<^verbatim>\<open>gateway-domain/response.rs\<close>; \<^verbatim>\<open>Usage_Properties\<close> shows that
  observation does not depend on chunk boundaries, that costs are exact, and which basis is chosen.

  \<^bold>\<open>Secrets.\<close> \<^verbatim>\<open>Base32\<close> has the encoder the source spells out, \<^verbatim>\<open>Byte_Codec\<close> results and length-delimited fields. \<^verbatim>\<open>Security\<close> is
  \<^verbatim>\<open>gateway-services/security.rs\<close>: envelopes, key rotation, PKCE and TOTP; \<^verbatim>\<open>Security_Properties\<close> shows that an envelope opens for
  its own identity only, that rotation keeps every key readable and that a one-time password is accepted once;
  \<^verbatim>\<open>Security_Cases\<close> runs them with a cipher that meets the assumed laws.

  \<^bold>\<open>OpenAI.\<close> \<^verbatim>\<open>Openai_Usage\<close>, \<^verbatim>\<open>Openai_Session\<close> (with the WebSocket turns), \<^verbatim>\<open>Openai_Account\<close> and \<^verbatim>\<open>Openai_Protocol\<close> are the modules of
  \<^verbatim>\<open>gateway-services/openai\<close>; \<^verbatim>\<open>Openai_Protocol_Properties\<close> is about the reasoning ceiling and the conversions between Chat and
  Responses. \<^verbatim>\<open>Openai_Relay\<close> is the chat stream and the relay task of \<^verbatim>\<open>production_dispatcher/openai.rs\<close>;
  \<^verbatim>\<open>Openai_Relay_Properties\<close> shows that a converted stream is well formed, that a relayed one is forwarded byte for byte,
  and that a response is complete only when its end was seen; \<^verbatim>\<open>Openai_Cases\<close> has concrete inputs.

  \<^bold>\<open>The final request.\<close> \<^verbatim>\<open>Json_Edit\<close> has the in-place edits of an object. \<^verbatim>\<open>Environment_Align\<close> is
  \<^verbatim>\<open>super-gatewayd/system_env_align.rs\<close>: only the values of the environment lines change. \<^verbatim>\<open>Final_Request\<close> is
  \<^verbatim>\<open>build_final_request\<close> of \<^verbatim>\<open>production_dispatcher.rs\<close> with its helpers; \<^verbatim>\<open>Final_Request_Body\<close> and \<^verbatim>\<open>Final_Request_Properties\<close> show
  that exactly one credential header is sent, that a Claude Code body uses nothing its beta header does not announce, and
  that the identity is the profile's; \<^verbatim>\<open>Final_Request_Cases\<close> has a concrete request.

  \<^bold>\<open>Bounds and assumptions.\<close> Nothing is cut off by fuel: every loop of the source is a terminating recursion
  (on the list it walks, or on a measure such as the number of waiting requests). Random identifiers are drawn from
  a function \<open>uuid\<close> that an operation receives; the invariants that need it assume that drawn identifiers are
  fresh, as UUIDs are documented to be. The event sequence of the ledger is a machine word; statements about its
  growth assume that fewer than \<open>2 ^ 63\<close> events were recorded. The ledger carries a ghost count of the
  session claims that the code drops without an event, so that its balance can be stated exactly. A poisoned
  mutex is a flag of the state that guards it. Third-party code is an argument: SHA-256,
  the reader and the serializer of \<^verbatim>\<open>serde_json\<close>, \<^verbatim>\<open>httparse\<close>, the address parser and the networks of the allow list, HMAC,
  the conversions of the \<^verbatim>\<open>http\<close> crate, and the records \<open>CryptoLib\<close>, \<open>RequestLib\<close>, \<open>TokenReader\<close> and \<open>RelayPorts\<close> of the ciphers and hashes,
  readers, printers and channels a component calls; so are clock readings, drawn randomness, what the asynchronous ports answer, and
  the iteration order of a \<^verbatim>\<open>HashMap\<close> where the code depends on it. Floats are finite, but for the bounds of a clamping rule.

  \<^bold>\<open>Not modelled.\<close> Storage and its SQL, the management API and the probes, the socket loop after a WebSocket upgrade, the
  rest of the daemon (the dispatch loop, OAuth exchanges, the administration backend), Argon2, TLS, proxies and signed bundles are I/O
  over third-party stacks and are left out; so are the gzip wrapper of the usage observer, serialization and Debug output.
\<close>

end
